(* ===== verification/Prelude.thy ===== *)
theory Prelude
  imports Complex_Main "HOL-Library.Log_Nat"
begin

text \<open>
  Shared vocabulary of the development: Go's 64-bit integers with their wrap-around, truncated
  division, \<open>time.Time\<close> and \<open>time.Duration\<close>, errors as values, decimal printing, and the list,
  option and sum lemmas the component theories rely on.

  \<^item> \<open>i64\<close> reduces a mathematical integer to the value a Go \<open>int64\<close> (and \<open>int\<close> on the 64-bit
    targets the repository builds for) holds after wrap-around; \<open>is_i64\<close> says that a value is
    representable. Components write \<open>i64\<close> around every arithmetic result whose wrap-around
    could matter, and prove where it does not.
  \<^item> \<open>gotime\<close> counts nanoseconds since the zero \<open>time.Time\<close> (1 January of year 1, UTC), so that
    \<open>IsZero\<close> is \<open>t = 0\<close>; \<open>time_sub\<close> is \<open>Time.Sub\<close> with its saturation to the range of a
    \<open>Duration\<close>.
  \<^item> A function that returns \<open>(T, error)\<close> returns \<open>string + T\<close>, the error's text on the left.
\<close>

named_theorems go_arith \<open>facts that discharge Go's wrap-around where it cannot happen\<close>
named_theorems step_inv \<open>one-step preservation facts of the state machines\<close>


section \<open>Go integers\<close>

definition max_i64 :: int where "max_i64 = 2 ^ 63 - 1"

definition min_i64 :: int where "min_i64 = - (2 ^ 63)"

definition i64 :: "int \<Rightarrow> int" where
  "i64 x = (x + 2 ^ 63) mod 2 ^ 64 - 2 ^ 63"

definition u64 :: "int \<Rightarrow> int" where
  "u64 x = x mod 2 ^ 64"

definition is_i64 :: "int \<Rightarrow> bool" where
  "is_i64 x \<longleftrightarrow> min_i64 \<le> x \<and> x \<le> max_i64"

text \<open>Go's integer division truncates towards zero; its remainder has the dividend's sign.\<close>

definition quot :: "int \<Rightarrow> int \<Rightarrow> int" where
  "quot a b = sgn a * sgn b * (\<bar>a\<bar> div \<bar>b\<bar>)"

definition gorem :: "int \<Rightarrow> int \<Rightarrow> int" where
  "gorem a b = a - b * quot a b"

lemma i64_id [go_arith]: "is_i64 x \<Longrightarrow> i64 x = x"
  by (simp add: i64_def is_i64_def min_i64_def max_i64_def)

lemma is_i64_i64 [simp]: "is_i64 (i64 x)"
  by (simp add: is_i64_def i64_def min_i64_def max_i64_def)

lemma i64_idem [simp]: "i64 (i64 x) = i64 x"
  by (simp add: i64_id)

lemma i64_cong: "x mod 2 ^ 64 = y mod 2 ^ 64 \<Longrightarrow> i64 x = i64 y"
proof -
  assume "x mod 2 ^ 64 = y mod 2 ^ 64"
  then have "(x + 2 ^ 63) mod 2 ^ 64 = (y + 2 ^ 63) mod 2 ^ 64"
    by (rule mod_add_cong) simp
  then show ?thesis by (simp add: i64_def)
qed

lemma i64_mod [simp]: "i64 x mod 2 ^ 64 = x mod 2 ^ 64"
  by (simp add: i64_def mod_simps)

lemma i64_add_left: "i64 (i64 x + y) = i64 (x + y)"
  by (rule i64_cong) (metis i64_mod mod_add_left_eq)

lemma i64_diff_left: "i64 (i64 x - y) = i64 (x - y)"
  by (rule i64_cong) (metis i64_mod mod_diff_left_eq)

lemma i64_mult_left: "i64 (i64 x * y) = i64 (x * y)"
  by (rule i64_cong) (metis i64_mod mod_mult_left_eq)

lemma u64_range: "0 \<le> u64 x" "u64 x < 2 ^ 64"
  by (simp_all add: u64_def)

lemma u64_id [go_arith]: "0 \<le> x \<Longrightarrow> x < 2 ^ 64 \<Longrightarrow> u64 x = x"
  by (simp add: u64_def)

lemma quot_nonneg [go_arith]: "0 \<le> a \<Longrightarrow> 0 < b \<Longrightarrow> quot a b = a div b"
  by (cases "a = 0") (simp_all add: quot_def)

lemma gorem_nonneg [go_arith]: "0 \<le> a \<Longrightarrow> 0 < b \<Longrightarrow> gorem a b = a mod b"
  by (simp add: gorem_def quot_nonneg minus_mult_div_eq_mod)

text \<open>Rounding a quotient up: the only integer with \<open>(c - 1) * b < a \<le> c * b\<close>.\<close>

definition ceil_div :: "int \<Rightarrow> int \<Rightarrow> int" where
  "ceil_div a b = (a + b - 1) div b"

lemma ceil_div_upper: "0 < b \<Longrightarrow> a \<le> ceil_div a b * b"
proof -
  assume b: "0 < b"
  have "(a + b - 1) div b * b = a + b - 1 - (a + b - 1) mod b"
    by (simp add: minus_mod_eq_div_mult)
  moreover have "(a + b - 1) mod b < b" using b by simp
  ultimately show ?thesis by (simp add: ceil_div_def)
qed

lemma ceil_div_lower: "0 < b \<Longrightarrow> (ceil_div a b - 1) * b < a"
proof -
  assume b: "0 < b"
  have "(a + b - 1) div b * b = a + b - 1 - (a + b - 1) mod b"
    by (simp add: minus_mod_eq_div_mult)
  moreover have "0 \<le> (a + b - 1) mod b" using b by simp
  ultimately show ?thesis by (simp add: ceil_div_def left_diff_distrib)
qed

lemma ceil_div_nonneg: "0 \<le> a \<Longrightarrow> 0 < b \<Longrightarrow> 0 \<le> ceil_div a b"
  by (simp add: ceil_div_def pos_imp_zdiv_nonneg_iff)

lemma ceil_div_least: "0 < b \<Longrightarrow> a \<le> c * b \<Longrightarrow> ceil_div a b \<le> c"
proof -
  assume b: "0 < b" and le: "a \<le> c * b"
  have "(ceil_div a b - 1) * b < c * b" using ceil_div_lower [OF b, of a] le by linarith
  then have "ceil_div a b - 1 < c" using b by simp
  then show ?thesis by simp
qed

lemma ceil_div_mono: "0 < b \<Longrightarrow> a \<le> a' \<Longrightarrow> ceil_div a b \<le> ceil_div a' b"
  by (simp add: ceil_div_def zdiv_mono1)

text \<open>
  Go writes the rounded-up quotient as \<open>(a + b - 1) / b\<close>, evaluated left to right: the
  intermediate \<open>a + b\<close> may wrap although the whole numerator is in range.
\<close>

lemma i64_round_up:
  assumes "0 \<le> a" "0 < b" "a \<le> max_i64 - (b - 1)"
  shows "quot (i64 (i64 (a + b) - 1)) b = ceil_div a b"
proof -
  have "i64 (i64 (a + b) - 1) = i64 (a + b - 1)"
    by (simp add: i64_diff_left)
  also have "\<dots> = a + b - 1"
    using assms by (intro i64_id) (simp add: is_i64_def min_i64_def max_i64_def)
  finally show ?thesis
    using assms by (simp add: quot_nonneg ceil_div_def)
qed

lemma mult_le_of_le_div: "0 < (p::int) \<Longrightarrow> t \<le> m div p \<Longrightarrow> t * p \<le> m"
proof -
  assume p: "0 < p" and t: "t \<le> m div p"
  have "t * p \<le> m div p * p" using p t by simp
  also have "\<dots> = m - m mod p" by (simp add: minus_mod_eq_div_mult)
  also have "\<dots> \<le> m" using p by simp
  finally show ?thesis .
qed


section \<open>Time and durations\<close>

type_synonym gotime = int
type_synonym duration = int

abbreviation (input) Millisecond :: int where "Millisecond \<equiv> 1000000"
abbreviation (input) Second :: int where "Second \<equiv> 1000000000"
abbreviation (input) Minute :: int where "Minute \<equiv> 60000000000"
abbreviation (input) Hour :: int where "Hour \<equiv> 3600000000000"

definition is_zero_time :: "gotime \<Rightarrow> bool" where
  "is_zero_time t \<longleftrightarrow> t = 0"

definition time_sub :: "gotime \<Rightarrow> gotime \<Rightarrow> duration" where
  "time_sub t u = max min_i64 (min max_i64 (t - u))"

text \<open>\<open>Time.Truncate\<close> rounds down to a multiple of the duration since the zero time.\<close>

definition time_truncate :: "gotime \<Rightarrow> duration \<Rightarrow> gotime" where
  "time_truncate t d = (if d \<le> 0 then t else t - t mod d)"

lemma time_sub_less_iff: "min_i64 < d \<Longrightarrow> d \<le> max_i64 \<Longrightarrow> time_sub t u < d \<longleftrightarrow> t - u < d"
  by (auto simp: time_sub_def)

lemma time_truncate_idem: "time_truncate (time_truncate t d) d = time_truncate t d"
proof (cases "d \<le> 0")
  case True
  then show ?thesis by (simp add: time_truncate_def)
next
  case False
  have "(t - t mod d) mod d = 0" by (simp add: mod_diff_right_eq)
  with False show ?thesis by (simp add: time_truncate_def)
qed


section \<open>Lists, options and sums\<close>

lemma sum_list_upd: "i < length xs \<Longrightarrow> sum_list (xs[i := v]) = sum_list xs - xs ! i + (v::int)"
  by (induction xs arbitrary: i) (auto split: nat.splits simp: nth_Cons')

lemma sum_list_nonneg_ge:
  "(\<And>x. x \<in> set xs \<Longrightarrow> 0 \<le> (f x :: int)) \<Longrightarrow> x \<in> set xs \<Longrightarrow> f x \<le> sum_list (map f xs)"
proof (induction xs)
  case (Cons y ys)
  have "0 \<le> sum_list (map f ys)" using Cons.prems(1) by (intro sum_list_nonneg) auto
  moreover have "x \<in> set ys \<Longrightarrow> f x \<le> sum_list (map f ys)" using Cons by simp
  moreover have "0 \<le> f y" using Cons.prems(1) by simp
  ultimately show ?case using Cons.prems(2) by auto
qed simp

lemma sum_fun_upd:
  fixes f :: "'a \<Rightarrow> int"
  assumes "finite A" "a \<in> A"
  shows "sum (f(a := v)) A = sum f A - f a + v"
proof -
  have "sum (f(a := v)) A = v + sum (f(a := v)) (A - {a})"
    using assms by (simp add: sum.remove)
  also have "sum (f(a := v)) (A - {a}) = sum f (A - {a})"
    by (intro sum.cong) auto
  also have "sum f (A - {a}) = sum f A - f a"
    using assms by (simp add: sum_diff1)
  finally show ?thesis by simp
qed

lemma sum_ge_member:
  fixes f :: "'a \<Rightarrow> int"
  assumes "finite A" "a \<in> A" "\<And>x. x \<in> A \<Longrightarrow> 0 \<le> f x"
  shows "f a \<le> sum f A"
proof -
  have "0 \<le> sum f (A - {a})" using assms(3) by (intro sum_nonneg) auto
  then show ?thesis using assms(1,2) by (simp add: sum_diff1)
qed


definition drop_nth :: "nat \<Rightarrow> 'a list \<Rightarrow> 'a list" where
  "drop_nth i xs = take i xs @ drop (Suc i) xs"

lemma sum_list_update_le:
  fixes f :: "'a \<Rightarrow> int"
  assumes "i < length xs" "f v \<le> f (xs ! i) + d"
  shows "sum_list (map f (xs[i := v])) \<le> sum_list (map f xs) + d"
  using assms by (simp add: map_update sum_list_upd)

lemma sum_list_drop_nth:
  fixes f :: "'a \<Rightarrow> int"
  assumes "i < length xs"
  shows "sum_list (map f (drop_nth i xs)) = sum_list (map f xs) - f (xs ! i)"
proof -
  have "sum_list (map f xs) = sum_list (map f (take i xs @ xs ! i # drop (Suc i) xs))"
    using assms by (simp add: id_take_nth_drop [symmetric])
  then show ?thesis by (simp add: drop_nth_def)
qed

lemma set_drop_nth: "set (drop_nth i xs) \<subseteq> set xs"
  by (auto simp: drop_nth_def dest: in_set_takeD in_set_dropD)

lemma sum_list_filter_le:
  fixes f :: "'a \<Rightarrow> int"
  shows "(\<And>x. x \<in> set xs \<Longrightarrow> 0 \<le> f x) \<Longrightarrow> sum_list (map f (filter P xs)) \<le> sum_list (map f xs)"
  by (induction xs) (simp_all add: add_increasing)

lemma drop_nth_last [simp]: "drop_nth (length xs) (xs @ [x]) = xs"
  by (simp add: drop_nth_def)

lemma count_list_drop_nth:
  "i < length xs \<Longrightarrow> int (count_list (drop_nth i xs) x) = int (count_list xs x) - (if xs ! i = x then 1 else 0)"
proof -
  assume "i < length xs"
  then have "count_list xs x = count_list (take i xs @ xs ! i # drop (Suc i) xs) x"
    by (simp add: id_take_nth_drop [symmetric])
  then show ?thesis by (simp add: drop_nth_def)
qed

lemma map_drop_nth: "map f (drop_nth i xs) = drop_nth i (map f xs)"
  by (simp add: drop_nth_def take_map drop_map)

lemma rtranclp_two: "R a b \<Longrightarrow> R b c \<Longrightarrow> R\<^sup>*\<^sup>* a c"
  by (meson r_into_rtranclp rtranclp.rtrancl_into_rtrancl)

lemma rtranclp_three: "R a b \<Longrightarrow> R b c \<Longrightarrow> R c d \<Longrightarrow> R\<^sup>*\<^sup>* a d"
  by (meson r_into_rtranclp rtranclp.rtrancl_into_rtrancl)


section \<open>Decimal printing\<close>

fun nat_digits :: "nat \<Rightarrow> string" where
  "nat_digits n =
     (if n < 10 then [char_of (48 + n)] else nat_digits (n div 10) @ [char_of (48 + n mod 10)])"

declare nat_digits.simps [simp del]

definition itoa :: "int \<Rightarrow> string" where
  "itoa n = (if n < 0 then ''-'' @ nat_digits (nat (- n)) else nat_digits (nat n))"

lemma nat_digits_nonempty [simp]: "nat_digits n \<noteq> []"
  by (subst nat_digits.simps) simp

end
