(* ===== verification/Sql_Table.thy ===== *)
theory Sql_Table
  imports Prelude
begin

text \<open>
  The part of SQL the stores under \<open>internal/store\<close> use, on tables held as lists of rows:
  \<open>UPDATE ... WHERE\<close> with its count of affected rows, \<open>SELECT ... ORDER BY ... LIMIT 1\<close>,
  comparisons with \<open>NULL\<close> (never true), and unique keys. A statement runs atomically; several
  statements inside one transaction that locks the rows it reads are one step of the model.
\<close>

text \<open>The errors a store method returns: the two sentinels of the domain package and the rest.\<close>

datatype store_error = ErrNotFound | ErrConflict string | ErrOther string


section \<open>Statements\<close>

definition upd_where :: "('r \<Rightarrow> bool) \<Rightarrow> ('r \<Rightarrow> 'r) \<Rightarrow> 'r list \<Rightarrow> 'r list" where
  "upd_where P f rows = map (\<lambda>r. if P r then f r else r) rows"

definition rows_affected :: "('r \<Rightarrow> bool) \<Rightarrow> 'r list \<Rightarrow> nat" where
  "rows_affected P rows = length (filter P rows)"

fun first_by :: "('r \<Rightarrow> 'r \<Rightarrow> bool) \<Rightarrow> 'r list \<Rightarrow> 'r option" where
  "first_by before [] = None"
| "first_by before (r # rs) =
     (case first_by before rs of
        None \<Rightarrow> Some r
      | Some s \<Rightarrow> if before s r then Some s else Some r)"

definition null_lt :: "int option \<Rightarrow> int \<Rightarrow> bool" where
  "null_lt a b = (case a of None \<Rightarrow> False | Some x \<Rightarrow> x < b)"

definition null_le :: "int option \<Rightarrow> int \<Rightarrow> bool" where
  "null_le a b = (case a of None \<Rightarrow> False | Some x \<Rightarrow> x \<le> b)"

definition null_gt :: "int option \<Rightarrow> int \<Rightarrow> bool" where
  "null_gt a b = (case a of None \<Rightarrow> False | Some x \<Rightarrow> x > b)"

text \<open>\<open>ORDER BY\<close> ascending puts \<open>NULL\<close> last.\<close>

fun nulls_last_lt :: "int option \<Rightarrow> int option \<Rightarrow> bool" where
  "nulls_last_lt (Some a) (Some b) = (a < b)"
| "nulls_last_lt (Some a) None = True"
| "nulls_last_lt None b = False"

text \<open>A key is unique over the rows that have one (\<open>NULL\<close> keys do not collide).\<close>

definition unique_key :: "('r \<Rightarrow> 'k option) \<Rightarrow> 'r list \<Rightarrow> bool" where
  "unique_key key rows = distinct (List.map_filter key rows)"

definition has_key :: "('r \<Rightarrow> 'k option) \<Rightarrow> 'k option \<Rightarrow> 'r list \<Rightarrow> bool" where
  "has_key key k rows = (k \<noteq> None \<and> (\<exists>r \<in> set rows. key r = k))"

definition coalesce :: "string option \<Rightarrow> string" where
  "coalesce x = (case x of None \<Rightarrow> '''' | Some v \<Rightarrow> v)"

definition sql_null :: "string \<Rightarrow> string option" where
  "sql_null v = (if v = '''' then None else Some v)"

definition nullIf :: "bool \<Rightarrow> string \<Rightarrow> string option" where
  "nullIf condition v = (if condition then None else Some v)"


text \<open>
  A transaction body either fails, and the tables stay as they were, or returns a value with the
  tables to commit. Statements and early returns are chained with \<open>bind_err\<close>.
\<close>

definition bind_err :: "'e + 'a \<Rightarrow> ('a \<Rightarrow> 'e + 'b) \<Rightarrow> 'e + 'b" where
  "bind_err m f = (case m of Inl e \<Rightarrow> Inl e | Inr x \<Rightarrow> f x)"

definition require :: "bool \<Rightarrow> 'e \<Rightarrow> 'e + unit" where
  "require b e = (if b then Inr () else Inl e)"

definition commit_tx :: "'s \<Rightarrow> 'e + 'a \<times> 's \<Rightarrow> ('e + 'a) \<times> 's" where
  "commit_tx s body = (case body of Inl e \<Rightarrow> (Inl e, s) | Inr (x, s') \<Rightarrow> (Inr x, s'))"

section \<open>Facts\<close>

lemma bind_err_simps [simp]: "bind_err (Inl e) f = Inl e" "bind_err (Inr x) f = f x"
  by (simp_all add: bind_err_def)

lemma bind_err_Inr: "bind_err m f = Inr y \<longleftrightarrow> (\<exists>x. m = Inr x \<and> f x = Inr y)"
  by (cases m) simp_all

lemma require_Inr [simp]: "require b e = Inr u \<longleftrightarrow> b"
  by (simp add: require_def)

lemma require_simps [simp]: "require True e = Inr ()" "require False e = Inl e"
  by (simp_all add: require_def)

text \<open>What holds of the committed tables holds after the call, since a failed body changes nothing.\<close>

lemma commit_txI:
  assumes "commit_tx s body = (res, s')" "P s" "\<And>x. body = Inr (x, s') \<Longrightarrow> P s'"
  shows "P s'"
  using assms by (cases body) (auto simp: commit_tx_def split: prod.splits)

lemma commit_tx_Inr: "commit_tx s body = (Inr x, s') \<longleftrightarrow> body = Inr (x, s')"
  by (cases body) (auto simp: commit_tx_def split: prod.splits)

lemma commit_tx_Inl: "commit_tx s body = (Inl e, s') \<longleftrightarrow> body = Inl e \<and> s' = s"
  by (cases body) (auto simp: commit_tx_def split: prod.splits)

lemma rows_affected_0: "rows_affected P rows = 0 \<longleftrightarrow> (\<forall>r \<in> set rows. \<not> P r)"
  by (simp add: rows_affected_def filter_empty_conv)

lemma upd_where_none: "\<forall>r \<in> set rows. \<not> P r \<Longrightarrow> upd_where P f rows = rows"
  unfolding upd_where_def by (induction rows) auto

lemma set_upd_where: "set (upd_where P f rows) = (\<lambda>r. if P r then f r else r) ` set rows"
  by (simp add: upd_where_def)

lemma map_upd_where: "(\<And>r. P r \<Longrightarrow> g (f r) = g r) \<Longrightarrow> map g (upd_where P f rows) = map g rows"
  by (simp add: upd_where_def)

lemma upd_where_cases:
  assumes "r' \<in> set (upd_where P f rows)"
  obtains r where "r \<in> set rows" "P r" "r' = f r" | "r' \<in> set rows" "\<not> P r'"
  using assms by (auto simp: set_upd_where split: if_splits)

lemma first_by_None [simp]: "first_by before rows = None \<longleftrightarrow> rows = []"
  by (cases rows) (auto split: option.splits)

lemma first_by_mem: "first_by before rows = Some r \<Longrightarrow> r \<in> set rows"
  by (induction rows arbitrary: r) (auto split: option.splits if_splits)

lemma find_unique:
  "x \<in> set rows \<Longrightarrow> P x \<Longrightarrow> \<forall>y \<in> set rows. P y \<longrightarrow> y = x \<Longrightarrow> find P rows = Some x"
proof (induction rows)
  case (Cons a rows)
  show ?case
  proof (cases "P a")
    case True
    then have "a = x" using Cons.prems(3) by (meson list.set_intros(1))
    with True show ?thesis by simp
  next
    case False
    then have "x \<in> set rows" using Cons.prems(1,2) by (metis set_ConsD)
    then have "find P rows = Some x"
      using Cons.IH Cons.prems(2,3) by (meson list.set_intros(2))
    with False show ?thesis by simp
  qed
qed simp

text \<open>Under a strict weak order the selected row has none before it.\<close>

lemma first_by_min:
  assumes asym: "\<And>x y. before x y \<Longrightarrow> \<not> before y x"
    and negtrans: "\<And>x y z. \<not> before x y \<Longrightarrow> \<not> before y z \<Longrightarrow> \<not> before x z"
    and sel: "first_by before rows = Some r" and x: "x \<in> set rows"
  shows "\<not> before x r"
  using sel x
proof (induction rows arbitrary: r x)
  case (Cons a rows)
  show ?case
  proof (cases "first_by before rows")
    case None
    then show ?thesis using Cons.prems asym by auto
  next
    case (Some s)
    then have s: "\<not> before y s" if "y \<in> set rows" for y using Cons.IH that by blast
    show ?thesis
    proof (cases "before s a")
      case True
      then show ?thesis using Cons.prems Some asym [OF True] s by auto
    next
      case False
      then have "r = a" using Cons.prems(1) Some by simp
      moreover have "\<not> before a a" using asym by blast
      moreover have "\<not> before y a" if "y \<in> set rows" for y using negtrans [OF s [OF that] False] .
      ultimately show ?thesis using Cons.prems(2) by auto
    qed
  qed
qed simp

lemma set_map_filter: "set (List.map_filter g xs) = {y. \<exists>x \<in> set xs. g x = Some y}"
  by (force simp: List.map_filter_def)

lemma unique_key_upd_where:
  assumes "\<And>r. P r \<Longrightarrow> key (f r) = key r"
  shows "unique_key key (upd_where P f rows) = unique_key key rows"
proof -
  have "List.map_filter key (upd_where P f rows) = List.map_filter key rows"
    using assms by (induction rows) (auto simp: upd_where_def List.map_filter_def)
  then show ?thesis by (simp add: unique_key_def)
qed

text \<open>An update may also drop a row out of a partial index.\<close>

lemma unique_key_upd_where_drop:
  assumes "\<And>r. P r \<Longrightarrow> key (f r) = key r \<or> key (f r) = None" "unique_key key rows"
  shows "unique_key key (upd_where P f rows)"
  using assms(2)
proof (induction rows)
  case Nil
  then show ?case by (simp add: upd_where_def unique_key_def List.map_filter_def)
next
  case (Cons r rows)
  have sub: "set (List.map_filter key (upd_where P f rows)) \<subseteq> set (List.map_filter key rows)"
    unfolding set_map_filter set_upd_where using assms(1) by (fastforce split: if_splits)
  have IH: "unique_key key (upd_where P f rows)"
    using Cons by (auto simp: unique_key_def List.map_filter_def split: if_splits)
  have step: "upd_where P f (r # rows) = (if P r then f r else r) # upd_where P f rows"
    by (simp add: upd_where_def)
  show ?case
  proof (cases "key (if P r then f r else r)")
    case None
    then show ?thesis
      using IH unfolding step by (simp add: unique_key_def List.map_filter_def)
  next
    case (Some k)
    then have "key r = Some k" using assms(1) [of r] by (auto split: if_splits)
    then have "k \<notin> set (List.map_filter key rows)"
      using Cons.prems by (auto simp: unique_key_def List.map_filter_def)
    then show ?thesis
      using IH sub Some unfolding step by (auto simp: unique_key_def List.map_filter_def)
  qed
qed

lemma unique_key_append:
  assumes "unique_key key rows" "\<not> has_key key (key r) rows"
  shows "unique_key key (rows @ [r])"
proof (cases "key r")
  case None
  then show ?thesis using assms(1) by (simp add: unique_key_def List.map_filter_def)
next
  case (Some k)
  then show ?thesis
    using assms by (auto simp: unique_key_def has_key_def List.map_filter_def)
qed

lemma unique_key_inj:
  "unique_key key rows \<Longrightarrow> r \<in> set rows \<Longrightarrow> s \<in> set rows \<Longrightarrow> key r = Some k \<Longrightarrow> key s = Some k \<Longrightarrow>
   r = s"
proof (induction rows)
  case (Cons x rows)
  have mem: "k \<in> set (List.map_filter key rows)" if "t \<in> set rows" "key t = Some k" for t
    using that by (force simp: List.map_filter_def)
  show ?case
    using Cons mem by (auto simp: unique_key_def List.map_filter_def split: if_splits)
qed simp

text \<open>Updating the one row with a key.\<close>

lemma set_upd_unique:
  assumes "r \<in> set rows" "P r" "\<forall>x \<in> set rows. P x \<longrightarrow> x = r"
  shows "set (upd_where P f rows) = insert (f r) (set rows - {r})"
proof -
  have same: "P x \<longleftrightarrow> x = r" if "x \<in> set rows" for x using assms that by blast
  have "upd_where P f rows = map (\<lambda>x. if x = r then f x else x) rows"
    unfolding upd_where_def by (rule map_cong [OF refl]) (simp add: same)
  moreover have "(\<lambda>x. if x = r then f x else x) ` A = insert (f r) (A - {r})" if "r \<in> A" for A
    using that by (auto simp: image_iff)
  ultimately show ?thesis using assms(1) by simp
qed

text \<open>A sum over a table in which one row is replaced.\<close>

lemma sum_upd_where_unique:
  fixes f :: "'r \<Rightarrow> int"
  assumes "r \<in> set rows" "P r" "\<forall>x \<in> set rows. P x \<longrightarrow> x = r" "distinct rows"
  shows "sum_list (map f (upd_where P g rows)) = sum_list (map f rows) - f r + f (g r)"
  using assms
proof (induction rows)
  case (Cons a rows)
  have step: "upd_where P g (a # rows) = (if P a then g a else a) # upd_where P g rows"
    by (simp add: upd_where_def)
  show ?case
  proof (cases "a = r")
    case True
    then have "\<forall>x \<in> set rows. \<not> P x" using Cons.prems(3,4) by (metis distinct.simps(2) list.set_intros(2))
    then have "upd_where P g rows = rows" by (rule upd_where_none)
    then show ?thesis unfolding step using True Cons.prems(2) by simp
  next
    case False
    then have "\<not> P a" using Cons.prems(3) by (metis list.set_intros(1))
    moreover have "sum_list (map f (upd_where P g rows)) = sum_list (map f rows) - f r + f (g r)"
      using Cons.IH Cons.prems False by (metis distinct.simps(2) list.set_intros(2) set_ConsD)
    ultimately show ?thesis unfolding step by simp
  qed
qed simp

end
