(* ===== verification/Operation_Queue.thy ===== *)
theory Operation_Queue
  imports Sql_Table
begin

text \<open>
  \<open>internal/store/operation_queue.go\<close> and the operation queries of \<open>lifecycle.go\<close>: the durable
  queue of control-plane operations that workers lease. A row is claimed under a lease whose
  generation grows with every claim; starting, heartbeats, checkpoints and the terminal writes
  only apply to the current generation while its lease is alive.

  The model keeps the three tables. \<open>dbnow\<close> is the database clock (\<open>NOW()\<close>), \<open>appnow\<close> the
  application's; generated ids, the \<open>jsonb\<close> cast, semantic JSON equality and the set of rows
  locked by concurrent claims are parameters.
\<close>


section \<open>Tables\<close>

datatype op_status =
  OpPending | OpLeased | OpRunning | OpWaiting | OpSucceeded | OpFailed | OpCancelling | OpCancelled

record op_row =
  r_id :: string
  r_tenant_id :: string
  r_kind :: string
  r_resource_type :: string
  r_resource_name :: string
  r_idempotency_key :: "string option"
  r_status :: op_status
  r_progress :: int
  r_message :: string
  r_request_json :: string
  r_result_json :: string
  r_error_code :: "string option"
  r_retryable :: bool
  r_cancel_requested :: bool
  r_attempt :: int
  r_max_attempts :: int
  r_lease_owner :: "string option"
  r_lease_generation :: int
  r_lease_expires_at :: "gotime option"
  r_last_heartbeat_at :: "gotime option"
  r_waiting_reason :: "string option"
  r_next_attempt_at :: "gotime option"
  r_created_at :: gotime
  r_updated_at :: gotime
  r_completed_at :: "gotime option"

record step_row =
  s_operation_id :: string
  s_step_name :: string
  s_status :: string
  s_attempt :: int
  s_checkpoint_json :: string
  s_started_at :: gotime
  s_updated_at :: gotime
  s_completed_at :: "gotime option"

record event_row =
  e_operation_id :: string
  e_sequence :: int
  e_level :: string
  e_event_type :: string
  e_message :: string
  e_payload_json :: string
  e_created_at :: gotime

record op_db =
  db_operations :: "op_row list"
  db_steps :: "step_row list"
  db_events :: "event_row list"

text \<open>The \<open>domain.Operation\<close> a caller passes or receives.\<close>

record operation =
  op_ID :: string
  op_TenantID :: string
  op_Kind :: string
  op_ResourceType :: string
  op_ResourceName :: string
  op_IdempotencyKey :: string
  op_Status :: op_status
  op_Message :: string
  op_RequestJSON :: string
  op_ResultJSON :: string
  op_ErrorCode :: string
  op_Progress :: int
  op_Attempt :: int
  op_MaxAttempts :: int
  op_Retryable :: bool
  op_CancelRequested :: bool
  op_LeaseOwner :: string
  op_LeaseGeneration :: int
  op_CreatedAt :: gotime
  op_UpdatedAt :: gotime
  op_CompletedAt :: "gotime option"
  op_LeaseExpiresAt :: "gotime option"
  op_NextAttemptAt :: "gotime option"

definition unresolved :: "op_status \<Rightarrow> bool" where
  "unresolved st = (st \<in> {OpPending, OpLeased, OpRunning, OpWaiting, OpCancelling})"

text \<open>The unique indexes: the primary key, the idempotency key, and (migration 007) one
  unresolved operation per deployment.\<close>

definition idempotency_index :: "op_row \<Rightarrow> (string \<times> string \<times> string) option" where
  "idempotency_index r =
     (case r_idempotency_key r of None \<Rightarrow> None | Some k \<Rightarrow> Some (r_tenant_id r, r_kind r, k))"

definition unresolved_index :: "op_row \<Rightarrow> (string \<times> string) option" where
  "unresolved_index r =
     (if r_resource_type r = ''deployment'' \<and> unresolved (r_status r)
      then Some (r_tenant_id r, r_resource_name r) else None)"

definition violates_unique :: "op_row \<Rightarrow> op_row list \<Rightarrow> bool" where
  "violates_unique r rows =
     (has_key (\<lambda>s. Some (r_id s)) (Some (r_id r)) rows \<or>
      has_key idempotency_index (idempotency_index r) rows \<or>
      has_key unresolved_index (unresolved_index r) rows)"


section \<open>Reading\<close>

definition scanOperation :: "op_row option \<Rightarrow> store_error + operation" where
  "scanOperation row =
     (case row of None \<Rightarrow> Inl ErrNotFound | Some r \<Rightarrow>
        Inr \<lparr>op_ID = r_id r, op_TenantID = r_tenant_id r, op_Kind = r_kind r,
          op_ResourceType = r_resource_type r, op_ResourceName = r_resource_name r,
          op_IdempotencyKey = coalesce (r_idempotency_key r), op_Status = r_status r,
          op_Message = r_message r, op_RequestJSON = r_request_json r, op_ResultJSON = r_result_json r,
          op_ErrorCode = coalesce (r_error_code r), op_Progress = r_progress r,
          op_Attempt = r_attempt r, op_MaxAttempts = r_max_attempts r, op_Retryable = r_retryable r,
          op_CancelRequested = r_cancel_requested r, op_LeaseOwner = coalesce (r_lease_owner r),
          op_LeaseGeneration = r_lease_generation r, op_CreatedAt = r_created_at r,
          op_UpdatedAt = r_updated_at r, op_CompletedAt = r_completed_at r,
          op_LeaseExpiresAt = r_lease_expires_at r, op_NextAttemptAt = r_next_attempt_at r\<rparr>)"

definition operationByKey :: "op_db \<Rightarrow> string \<Rightarrow> string \<Rightarrow> string \<Rightarrow> store_error + operation" where
  "operationByKey db tenant kind key =
     scanOperation (find (\<lambda>r. r_tenant_id r = tenant \<and> r_kind r = kind \<and> r_idempotency_key r = Some key)
       (db_operations db))"

definition Operation :: "op_db \<Rightarrow> string \<Rightarrow> store_error + operation" where
  "Operation db oid = scanOperation (find (\<lambda>r. r_id r = oid) (db_operations db))"

definition ActiveOperationForResource ::
  "op_db \<Rightarrow> string \<Rightarrow> string \<Rightarrow> string \<Rightarrow> store_error + operation" where
  "ActiveOperationForResource db tenant resourceType resourceName =
     scanOperation (first_by (\<lambda>a b. r_created_at a > r_created_at b)
       (filter (\<lambda>r. r_tenant_id r = tenant \<and> r_resource_type r = resourceType \<and>
          r_resource_name r = resourceName \<and> unresolved (r_status r)) (db_operations db)))"


section \<open>Enqueue\<close>

definition sameOperationIntent :: "(string \<Rightarrow> string \<Rightarrow> bool) \<Rightarrow> operation \<Rightarrow> operation \<Rightarrow> bool" where
  "sameOperationIntent json_equal existing requested =
     (op_TenantID existing = op_TenantID requested \<and> op_Kind existing = op_Kind requested \<and>
      op_ResourceType existing = op_ResourceType requested \<and>
      op_ResourceName existing = op_ResourceName requested \<and>
      json_equal (op_RequestJSON existing) (op_RequestJSON requested))"

definition enqueue_defaults :: "operation \<Rightarrow> operation" where
  "enqueue_defaults op0 =
     (let op1 = (if op_TenantID op0 = '''' then op0\<lparr>op_TenantID := ''global''\<rparr> else op0);
          op2 = (if op_RequestJSON op1 = '''' then op1\<lparr>op_RequestJSON := ''{}''\<rparr> else op1)
      in if op_MaxAttempts op2 = 0 then op2\<lparr>op_MaxAttempts := 5\<rparr> else op2)"

datatype insert_result = Inserted op_db | UniqueViolation | InsertFailed string

definition queued_row :: "operation \<Rightarrow> string \<Rightarrow> gotime \<Rightarrow> op_row" where
  "queued_row op request dbnow =
     \<lparr>r_id = op_ID op, r_tenant_id = op_TenantID op, r_kind = op_Kind op,
      r_resource_type = op_ResourceType op, r_resource_name = op_ResourceName op,
      r_idempotency_key = sql_null (op_IdempotencyKey op), r_status = op_Status op,
      r_progress = 0, r_message = ''queued'', r_request_json = request, r_result_json = ''{}'',
      r_error_code = None, r_retryable = False, r_cancel_requested = False, r_attempt = 0,
      r_max_attempts = op_MaxAttempts op, r_lease_owner = None, r_lease_generation = 0,
      r_lease_expires_at = None, r_last_heartbeat_at = None, r_waiting_reason = None,
      r_next_attempt_at = Some dbnow, r_created_at = dbnow, r_updated_at = dbnow,
      r_completed_at = None\<rparr>"

text \<open>\<open>INSERT INTO operations\<close>: the \<open>jsonb\<close> cast, the checks, the unique indexes, the foreign key.\<close>

definition insert_operation ::
  "(string \<Rightarrow> string option) \<Rightarrow> (string \<Rightarrow> bool) \<Rightarrow> gotime \<Rightarrow> op_db \<Rightarrow> operation \<Rightarrow> insert_result" where
  "insert_operation jsonb tenant_exists dbnow db op =
     (case jsonb (op_RequestJSON op) of None \<Rightarrow> InsertFailed ''invalid input syntax for type json''
      | Some request \<Rightarrow>
          if \<not> op_MaxAttempts op > 0 then InsertFailed ''violates check constraint''
          else if violates_unique (queued_row op request dbnow) (db_operations db) then UniqueViolation
          else if \<not> tenant_exists (op_TenantID op) then InsertFailed ''violates foreign key constraint''
          else Inserted (db\<lparr>db_operations := db_operations db @ [queued_row op request dbnow]\<rparr>))"

text \<open>
  The lookup, the insert and the lookup after a lost race are separate statements: \<open>env1\<close> and
  \<open>env2\<close> are what other transactions do to the tables in between.
\<close>

definition EnqueueOperation ::
  "(string \<Rightarrow> string option) \<Rightarrow> (string \<Rightarrow> string \<Rightarrow> bool) \<Rightarrow> (string \<Rightarrow> bool) \<Rightarrow> (op_db \<Rightarrow> op_db) \<Rightarrow> (op_db \<Rightarrow> op_db) \<Rightarrow>
   (string + string) \<Rightarrow> gotime \<Rightarrow> gotime \<Rightarrow> op_db \<Rightarrow> operation \<Rightarrow> (store_error + (operation \<times> bool)) \<times> op_db" where
  "EnqueueOperation jsonb json_equal tenant_exists env1 env2 newID appnow dbnow db op0 =
     (if op_Kind op0 = '''' \<or> op_ResourceType op0 = '''' \<or> op_ResourceName op0 = ''''
        then (Inl (ErrOther ''operation kind and resource are required''), db)
      else let op = enqueue_defaults op0;
        existing = (if op_IdempotencyKey op \<noteq> ''''
          then operationByKey db (op_TenantID op) (op_Kind op) (op_IdempotencyKey op)
          else Inl ErrNotFound)
      in case existing of
        Inr ex \<Rightarrow>
          if \<not> sameOperationIntent json_equal ex op
            then (Inl (ErrConflict ''idempotency key was already used for a different operation intent''), db)
          else (Inr (ex, False), db)
      | Inl e \<Rightarrow>
          if e \<noteq> ErrNotFound then (Inl e, db)
          else case newID of Inl err \<Rightarrow> (Inl (ErrOther err), db) | Inr oid \<Rightarrow>
            let op' = op\<lparr>op_ID := oid, op_Status := OpPending, op_Attempt := 0,
                  op_CreatedAt := appnow, op_UpdatedAt := appnow\<rparr>;
                db1 = env1 db
            in case insert_operation jsonb tenant_exists dbnow db1 op' of
              Inserted db' \<Rightarrow> (Inr (op', True), db')
            | InsertFailed err \<Rightarrow> (Inl (ErrOther err), db1)
            | UniqueViolation \<Rightarrow>
                let db2 = env2 db1 in
                if op_IdempotencyKey op' \<noteq> '''' then
                  (case operationByKey db2 (op_TenantID op') (op_Kind op') (op_IdempotencyKey op') of
                     Inr ex \<Rightarrow>
                       if \<not> sameOperationIntent json_equal ex op'
                         then (Inl (ErrConflict ''idempotency key was concurrently used for a different operation intent''), db2)
                       else (Inr (ex, False), db2)
                   | Inl e2 \<Rightarrow>
                       if e2 \<noteq> ErrNotFound then (Inl e2, db2)
                       else (Inl (ErrConflict ''deployment already has an unresolved lifecycle operation''), db2))
                else (Inl (ErrConflict ''deployment already has an unresolved lifecycle operation''), db2))"


section \<open>Claiming under a lease\<close>

definition claimable :: "gotime \<Rightarrow> op_row \<Rightarrow> bool" where
  "claimable dbnow r =
     (((((r_status r \<in> {OpPending, OpWaiting} \<and> null_le (r_next_attempt_at r) dbnow) \<or>
        (r_status r \<in> {OpLeased, OpRunning} \<and> null_lt (r_lease_expires_at r) dbnow)) \<and>
       \<not> r_cancel_requested r) \<or>
      (r_status r = OpCancelling \<and>
        (r_lease_expires_at r = None \<or> null_lt (r_lease_expires_at r) dbnow)))
      \<and> r_attempt r < r_max_attempts r)"

definition claim_before :: "op_row \<Rightarrow> op_row \<Rightarrow> bool" where
  "claim_before a b =
     (nulls_last_lt (r_next_attempt_at a) (r_next_attempt_at b) \<or>
      (r_next_attempt_at a = r_next_attempt_at b \<and> r_created_at a < r_created_at b))"

definition microseconds :: "duration \<Rightarrow> duration" where
  "microseconds d = quot d 1000 * 1000"

definition claim_row :: "gotime \<Rightarrow> gotime \<Rightarrow> string \<Rightarrow> duration \<Rightarrow> op_row \<Rightarrow> op_row" where
  "claim_row dbnow appnow owner lease r =
     r\<lparr>r_status := OpLeased, r_attempt := r_attempt r + 1, r_lease_owner := Some owner,
       r_lease_generation := r_lease_generation r + 1,
       r_lease_expires_at := Some (dbnow + microseconds lease),
       r_last_heartbeat_at := Some appnow, r_message := ''leased'', r_updated_at := appnow\<rparr>"

text \<open>\<open>locked\<close> holds of the ids whose rows a concurrent claim has locked (\<open>SKIP LOCKED\<close>).\<close>

definition ClaimOperation ::
  "(string \<Rightarrow> bool) \<Rightarrow> gotime \<Rightarrow> gotime \<Rightarrow> op_db \<Rightarrow> string \<Rightarrow> duration \<Rightarrow> (store_error + operation) \<times> op_db" where
  "ClaimOperation locked dbnow appnow db owner lease =
     (if owner = '''' \<or> lease \<le> 0 then (Inl (ErrOther ''owner and positive lease are required''), db)
      else case first_by claim_before
          (filter (\<lambda>r. claimable dbnow r \<and> \<not> locked (r_id r)) (db_operations db)) of
        None \<Rightarrow> (Inl ErrNotFound, db)
      | Some r \<Rightarrow>
          let db' = db\<lparr>db_operations := upd_where (\<lambda>x. r_id x = r_id r)
                (claim_row dbnow appnow owner lease) (db_operations db)\<rparr>
          in (Operation db' (r_id r), db'))"

text \<open>The \<open>WHERE\<close> clause every claimed write shares: identity, status, owner, generation, live lease.\<close>

definition claim_guard ::
  "op_status set \<Rightarrow> gotime \<Rightarrow> string \<Rightarrow> string \<Rightarrow> int \<Rightarrow> op_row \<Rightarrow> bool" where
  "claim_guard statuses dbnow oid owner generation r =
     (r_id r = oid \<and> r_status r \<in> statuses \<and> r_lease_owner r = Some owner \<and>
      r_lease_generation r = generation \<and> null_gt (r_lease_expires_at r) dbnow)"

definition exec_update ::
  "(op_row \<Rightarrow> bool) \<Rightarrow> (op_row \<Rightarrow> op_row) \<Rightarrow> op_db \<Rightarrow> store_error option \<times> op_db" where
  "exec_update P f db =
     (if rows_affected P (db_operations db) = 0 then (Some ErrNotFound, db)
      else (None, db\<lparr>db_operations := upd_where P f (db_operations db)\<rparr>))"

definition StartClaimedOperation ::
  "gotime \<Rightarrow> gotime \<Rightarrow> op_db \<Rightarrow> string \<Rightarrow> string \<Rightarrow> int \<Rightarrow> store_error option \<times> op_db" where
  "StartClaimedOperation dbnow appnow db oid owner generation =
     exec_update (claim_guard {OpLeased} dbnow oid owner generation)
       (\<lambda>r. r\<lparr>r_status := OpRunning, r_message := ''running'', r_updated_at := appnow\<rparr>) db"

definition HeartbeatOperation ::
  "gotime \<Rightarrow> gotime \<Rightarrow> op_db \<Rightarrow> string \<Rightarrow> string \<Rightarrow> int \<Rightarrow> duration \<Rightarrow> store_error option \<times> op_db" where
  "HeartbeatOperation dbnow appnow db oid owner generation lease =
     exec_update (claim_guard {OpLeased, OpRunning, OpCancelling} dbnow oid owner generation)
       (\<lambda>r. r\<lparr>r_lease_expires_at := Some (dbnow + microseconds lease),
          r_last_heartbeat_at := Some appnow, r_updated_at := appnow\<rparr>) db"

definition CompleteClaimedOperation ::
  "(string \<Rightarrow> string option) \<Rightarrow> gotime \<Rightarrow> gotime \<Rightarrow> op_db \<Rightarrow> string \<Rightarrow> string \<Rightarrow> int \<Rightarrow> string \<Rightarrow>
   store_error option \<times> op_db" where
  "CompleteClaimedOperation jsonb dbnow appnow db oid owner generation resultJSON0 =
     (let resultJSON = (if resultJSON0 = '''' then ''{}'' else resultJSON0) in
      case jsonb resultJSON of None \<Rightarrow> (Some (ErrOther ''invalid input syntax for type json''), db)
      | Some result \<Rightarrow>
        exec_update (claim_guard {OpRunning} dbnow oid owner generation)
          (\<lambda>r. r\<lparr>r_status := OpSucceeded, r_progress := 100, r_result_json := result,
             r_message := ''completed'', r_lease_owner := None, r_lease_expires_at := None,
             r_updated_at := appnow, r_completed_at := Some appnow\<rparr>) db)"

definition FailClaimedOperation ::
  "gotime \<Rightarrow> gotime \<Rightarrow> op_db \<Rightarrow> string \<Rightarrow> string \<Rightarrow> int \<Rightarrow> string \<Rightarrow> string \<Rightarrow> bool \<Rightarrow> gotime \<Rightarrow>
   store_error option \<times> op_db" where
  "FailClaimedOperation dbnow appnow db oid owner generation code message retryable next =
     (let status = (if retryable then OpWaiting else OpFailed);
          completed = (if retryable then None else Some appnow);
          delay0 = time_sub next appnow;
          delay = (if delay0 < 0 then 0 else delay0)
      in exec_update (claim_guard {OpRunning, OpCancelling} dbnow oid owner generation)
          (\<lambda>r. r\<lparr>r_status := (if r_cancel_requested r \<and> retryable then OpCancelling else status),
             r_error_code := Some code, r_message := message, r_retryable := retryable,
             r_waiting_reason := nullIf (\<not> retryable) message,
             r_next_attempt_at := Some (dbnow + microseconds delay), r_lease_owner := None,
             r_lease_expires_at := None, r_updated_at := dbnow, r_completed_at := completed\<rparr>) db)"

definition CancelClaimedOperation ::
  "gotime \<Rightarrow> gotime \<Rightarrow> op_db \<Rightarrow> string \<Rightarrow> string \<Rightarrow> int \<Rightarrow> string \<Rightarrow> store_error option \<times> op_db" where
  "CancelClaimedOperation dbnow appnow db oid owner generation message =
     exec_update (claim_guard {OpRunning, OpCancelling} dbnow oid owner generation)
       (\<lambda>r. r\<lparr>r_status := OpCancelled, r_message := message, r_lease_owner := None,
          r_lease_expires_at := None, r_updated_at := appnow, r_completed_at := Some appnow\<rparr>) db"

text \<open>\<open>lifecycle.go\<close>: a user asks for cancellation; only a queued operation ends at once.\<close>

definition cancel_row :: "gotime \<Rightarrow> op_row \<Rightarrow> op_row" where
  "cancel_row dbnow r =
     r\<lparr>r_cancel_requested := True,
       r_status := (if r_status r = OpPending then OpCancelled else OpCancelling),
       r_message := (if r_status r = OpPending then ''cancelled before execution''
                     else ''cancellation requested''),
       r_completed_at := (if r_status r = OpPending then Some dbnow else r_completed_at r),
       r_lease_expires_at := (if r_status r = OpWaiting then Some dbnow else r_lease_expires_at r),
       r_updated_at := dbnow\<rparr>"

definition RequestOperationCancel :: "gotime \<Rightarrow> op_db \<Rightarrow> string \<Rightarrow> store_error option \<times> op_db" where
  "RequestOperationCancel dbnow db oid =
     exec_update (\<lambda>r. r_id r = oid \<and> unresolved (r_status r)) (cancel_row dbnow) db"


section \<open>Checkpoints and events\<close>

definition step_statuses :: "string list" where
  "step_statuses = [''pending'', ''running'', ''waiting'', ''succeeded'', ''failed'', ''cancelled'']"

definition step_key :: "string \<Rightarrow> string \<Rightarrow> step_row \<Rightarrow> bool" where
  "step_key oid step t = (s_operation_id t = oid \<and> s_step_name t = step)"

definition upsert_step ::
  "string \<Rightarrow> string \<Rightarrow> string \<Rightarrow> string \<Rightarrow> gotime \<Rightarrow> gotime option \<Rightarrow> step_row list \<Rightarrow> step_row list" where
  "upsert_step oid step status checkpoint stamp completed steps =
     (if \<exists>t \<in> set steps. step_key oid step t
      then upd_where (step_key oid step)
        (\<lambda>t. t\<lparr>s_status := status, s_attempt := s_attempt t + 1, s_checkpoint_json := checkpoint,
           s_updated_at := stamp, s_completed_at := completed\<rparr>) steps
      else steps @ [\<lparr>s_operation_id = oid, s_step_name = step, s_status = status, s_attempt = 1,
        s_checkpoint_json = checkpoint, s_started_at = stamp, s_updated_at = stamp,
        s_completed_at = completed\<rparr>])"

definition next_sequence :: "string \<Rightarrow> event_row list \<Rightarrow> int" where
  "next_sequence oid events =
     fold max (map e_sequence (filter (\<lambda>e. e_operation_id e = oid) events)) 0 + 1"

definition CheckpointClaimedOperation ::
  "(string \<Rightarrow> string option) \<Rightarrow> (string \<Rightarrow> string \<Rightarrow> bool) \<Rightarrow> gotime \<Rightarrow> gotime \<Rightarrow> op_db \<Rightarrow> string \<Rightarrow> string \<Rightarrow> int \<Rightarrow>
   string \<Rightarrow> string \<Rightarrow> string \<Rightarrow> int \<Rightarrow> string \<Rightarrow> store_error option \<times> op_db" where
  "CheckpointClaimedOperation jsonb json_equal dbnow appnow db oid owner generation step status
     checkpoint0 progress message =
     (if step = '''' \<or> progress < 0 \<or> progress > 99
        then (Some (ErrOther ''step and progress between 0 and 99 are required''), db)
      else if status \<notin> set step_statuses then (Some (ErrOther ''invalid operation step status''), db)
      else let checkpoint = (if checkpoint0 = '''' then ''{}'' else checkpoint0) in
        case exec_update (claim_guard {OpRunning, OpCancelling} dbnow oid owner generation)
          (\<lambda>r. r\<lparr>r_progress := max (r_progress r) progress,
             r_message := (if progress \<ge> r_progress r then message else r_message r),
             r_updated_at := appnow\<rparr>) db of
          (Some err, _) \<Rightarrow> (Some err, db)
        | (None, db1) \<Rightarrow>
            let completed = (if status \<in> {''succeeded'', ''failed'', ''cancelled''} then Some appnow else None);
                duplicate = (case find (step_key oid step) (db_steps db1) of None \<Rightarrow> False
                  | Some t \<Rightarrow> s_status t = status \<and> json_equal (s_checkpoint_json t) checkpoint)
            in if duplicate then
                 (None, db1\<lparr>db_steps := upd_where (step_key oid step)
                    (\<lambda>t. t\<lparr>s_attempt := s_attempt t + 1\<rparr>) (db_steps db1)\<rparr>)
               else case jsonb checkpoint of
                 None \<Rightarrow> (Some (ErrOther ''invalid input syntax for type json''), db)
               | Some cp \<Rightarrow>
                   (None, db1\<lparr>db_steps := upsert_step oid step status cp appnow completed (db_steps db1),
                      db_events := db_events db1 @ [\<lparr>e_operation_id = oid,
                        e_sequence = next_sequence oid (db_events db1), e_level = ''info'',
                        e_event_type = ''step.'' @ status, e_message = message, e_payload_json = cp,
                        e_created_at = appnow\<rparr>]\<rparr>))"

text \<open>The two paged listings: the limit is replaced when out of range.\<close>

definition page_limit :: "int \<Rightarrow> int" where
  "page_limit limit = (if limit < 1 \<or> limit > 1000 then 100 else limit)"

definition OperationSteps :: "op_db \<Rightarrow> string \<Rightarrow> int \<Rightarrow> step_row list" where
  "OperationSteps db oid limit =
     take (nat (page_limit limit))
       (sort_key (\<lambda>t. - s_updated_at t) (filter (\<lambda>t. s_operation_id t = oid) (db_steps db)))"

definition OperationEvents :: "op_db \<Rightarrow> string \<Rightarrow> int \<Rightarrow> event_row list" where
  "OperationEvents db oid limit =
     take (nat (page_limit limit))
       (sort_key (\<lambda>e. - e_sequence e) (filter (\<lambda>e. e_operation_id e = oid) (db_events db)))"


section \<open>Transitions of the queue\<close>

text \<open>
  A state is the database clock with the tables. The clock only moves forward, and any party may
  call any operation with any arguments at any time.
\<close>

inductive queue_step :: "gotime \<times> op_db \<Rightarrow> gotime \<times> op_db \<Rightarrow> bool" where
  tick: "t \<le> t' \<Longrightarrow> queue_step (t, db) (t', db)"
| enqueue: "EnqueueOperation jsonb jeq tex (\<lambda>x. x) (\<lambda>x. x) newID app t db op = (res, db') \<Longrightarrow>
    queue_step (t, db) (t, db')"
| claim: "ClaimOperation locked t app db owner lease = (res, db') \<Longrightarrow> queue_step (t, db) (t, db')"
| start: "StartClaimedOperation t app db oid owner g = (e, db') \<Longrightarrow> queue_step (t, db) (t, db')"
| heartbeat: "HeartbeatOperation t app db oid owner g lease = (e, db') \<Longrightarrow>
    queue_step (t, db) (t, db')"
| complete: "CompleteClaimedOperation jsonb t app db oid owner g result = (e, db') \<Longrightarrow>
    queue_step (t, db) (t, db')"
| fail: "FailClaimedOperation t app db oid owner g code msg retry next_at = (e, db') \<Longrightarrow>
    queue_step (t, db) (t, db')"
| cancel: "CancelClaimedOperation t app db oid owner g msg = (e, db') \<Longrightarrow> queue_step (t, db) (t, db')"
| request_cancel: "RequestOperationCancel t db oid = (e, db') \<Longrightarrow> queue_step (t, db) (t, db')"
| checkpoint: "CheckpointClaimedOperation jsonb jeq t app db oid owner g step status cp progress msg =
    (e, db') \<Longrightarrow> queue_step (t, db) (t, db')"

definition empty_db :: op_db where
  "empty_db = \<lparr>db_operations = [], db_steps = [], db_events = []\<rparr>"

definition reachable :: "gotime \<times> op_db \<Rightarrow> bool" where
  "reachable s \<longleftrightarrow> (\<exists>t. queue_step\<^sup>*\<^sup>* (t, empty_db) s)"

definition row_ok :: "op_row \<Rightarrow> bool" where
  "row_ok r \<longleftrightarrow>
     0 \<le> r_attempt r \<and> r_attempt r \<le> r_max_attempts r \<and> r_lease_generation r = r_attempt r \<and>
     0 \<le> r_progress r \<and> r_progress r \<le> 100 \<and>
     (r_status r = OpPending \<longrightarrow> r_attempt r = 0 \<and> r_lease_owner r = None) \<and>
     (r_status r \<in> {OpLeased, OpRunning} \<longrightarrow>
        0 < r_attempt r \<and> r_lease_owner r \<noteq> None \<and> r_lease_expires_at r \<noteq> None) \<and>
     (\<not> unresolved (r_status r) \<longrightarrow> r_lease_owner r = None) \<and>
     (r_completed_at r = None \<longleftrightarrow> unresolved (r_status r))"

definition db_ok :: "op_db \<Rightarrow> bool" where
  "db_ok db \<longleftrightarrow>
     (\<forall>r \<in> set (db_operations db). row_ok r) \<and> distinct (map r_id (db_operations db)) \<and>
     unique_key idempotency_index (db_operations db) \<and>
     unique_key unresolved_index (db_operations db)"

text \<open>
  What a row can become: its identity never changes, generation and attempt grow together, a
  resolved row never changes, progress never decreases, and a row that has used its attempts and
  lost its lease stays so.
\<close>

definition identity :: "op_row \<Rightarrow> string \<times> string \<times> string \<times> string \<times> string \<times> string option \<times> string \<times> int" where
  "identity r = (r_id r, r_tenant_id r, r_kind r, r_resource_type r, r_resource_name r,
     r_idempotency_key r, r_request_json r, r_max_attempts r)"

definition abandoned :: "gotime \<Rightarrow> op_row \<Rightarrow> bool" where
  "abandoned t r \<longleftrightarrow> r_max_attempts r \<le> r_attempt r \<and>
     r_status r \<in> {OpLeased, OpRunning, OpCancelling} \<and> \<not> null_gt (r_lease_expires_at r) t"

definition evolves :: "gotime \<Rightarrow> gotime \<Rightarrow> op_row \<Rightarrow> op_row \<Rightarrow> bool" where
  "evolves t t' r r' \<longleftrightarrow>
     identity r' = identity r \<and> r_lease_generation r \<le> r_lease_generation r' \<and>
     (\<not> unresolved (r_status r) \<longrightarrow> r' = r) \<and> r_progress r \<le> r_progress r' \<and>
     (abandoned t r \<longrightarrow> abandoned t' r')"

lemma abandoned_later: "abandoned t r \<Longrightarrow> t \<le> t' \<Longrightarrow> abandoned t' r"
  by (auto simp: abandoned_def null_gt_def split: option.splits)

lemma evolves_refl: "t \<le> t' \<Longrightarrow> evolves t t' r r"
  by (auto simp: evolves_def intro: abandoned_later)

lemma evolves_trans: "evolves t t' r r' \<Longrightarrow> evolves t' t'' r' r'' \<Longrightarrow> evolves t t'' r r''"
  by (auto simp: evolves_def)

lemma evolves_identity:
  assumes "evolves t t' r r'"
  shows "r_id r' = r_id r" "idempotency_index r' = idempotency_index r"
    "unresolved_index r' = unresolved_index r \<or> unresolved_index r' = None"
  using assms
  by (cases "unresolved (r_status r)",
      auto simp: evolves_def identity_def idempotency_index_def unresolved_index_def split: option.splits)+

text \<open>The shape of every step: the clock alone, one row updated in place, or one row added.\<close>

definition row_update :: "gotime \<Rightarrow> (op_row \<Rightarrow> bool) \<Rightarrow> (op_row \<Rightarrow> op_row) \<Rightarrow> bool" where
  "row_update t P f \<longleftrightarrow> (\<forall>r. P r \<longrightarrow> row_ok r \<longrightarrow> evolves t t r (f r) \<and> row_ok (f r))"

definition fresh_row :: "op_row \<Rightarrow> bool" where
  "fresh_row r \<longleftrightarrow> row_ok r \<and> r_status r = OpPending"

lemmas row_defs = row_ok_def evolves_def identity_def abandoned_def claim_guard_def unresolved_def

lemma row_update_claim:
  "row_update t (\<lambda>x. x = r \<and> claimable t x) (claim_row t app owner lease)"
  by (auto simp: row_update_def row_defs claimable_def claim_row_def null_gt_def null_lt_def
      split: option.splits)

lemma row_update_start:
  "row_update t (claim_guard {OpLeased} t oid owner g)
     (\<lambda>r. r\<lparr>r_status := OpRunning, r_message := m, r_updated_at := app\<rparr>)"
  by (auto simp: row_update_def row_defs)

lemma row_update_heartbeat:
  "row_update t (claim_guard {OpLeased, OpRunning, OpCancelling} t oid owner g)
     (\<lambda>r. r\<lparr>r_lease_expires_at := Some e, r_last_heartbeat_at := h, r_updated_at := app\<rparr>)"
  by (auto simp: row_update_def row_defs)

lemma row_update_complete:
  "row_update t (claim_guard {OpRunning} t oid owner g)
     (\<lambda>r. r\<lparr>r_status := OpSucceeded, r_progress := 100, r_result_json := j, r_message := m,
        r_lease_owner := None, r_lease_expires_at := None, r_updated_at := u,
        r_completed_at := Some c\<rparr>)"
  by (auto simp: row_update_def row_defs)

lemma row_update_fail:
  "row_update t (claim_guard {OpRunning, OpCancelling} t oid owner g)
     (\<lambda>r. r\<lparr>r_status := (if r_cancel_requested r \<and> retry then OpCancelling
            else if retry then OpWaiting else OpFailed),
        r_error_code := c, r_message := m, r_retryable := retry, r_waiting_reason := w,
        r_next_attempt_at := na, r_lease_owner := None, r_lease_expires_at := None,
        r_updated_at := u, r_completed_at := (if retry then None else Some d)\<rparr>)"
  by (auto simp: row_update_def row_defs)

lemma row_update_cancel:
  "row_update t (claim_guard {OpRunning, OpCancelling} t oid owner g)
     (\<lambda>r. r\<lparr>r_status := OpCancelled, r_message := m, r_lease_owner := None,
        r_lease_expires_at := None, r_updated_at := u, r_completed_at := Some c\<rparr>)"
  by (auto simp: row_update_def row_defs)

lemma row_update_request:
  "row_update t (\<lambda>r. r_id r = oid \<and> unresolved (r_status r)) (cancel_row t)"
  by (auto simp: row_update_def row_defs cancel_row_def)

lemma row_update_checkpoint:
  "0 \<le> p \<Longrightarrow> p \<le> 99 \<Longrightarrow>
   row_update t (claim_guard {OpRunning, OpCancelling} t oid owner g)
     (\<lambda>r. r\<lparr>r_progress := max (r_progress r) p,
        r_message := (if p \<ge> r_progress r then m else r_message r), r_updated_at := u\<rparr>)"
  by (auto simp: row_update_def row_defs)


lemma row_update_exec:
  assumes "row_update t P f" "exec_update P f db = (e, db')"
  shows "\<exists>Q g. row_update t Q g \<and> db_operations db' = upd_where Q g (db_operations db)"
proof (cases "rows_affected P (db_operations db) = 0")
  case True
  then have "db' = db" using assms(2) by (simp add: exec_update_def)
  moreover have "row_update t (\<lambda>_. False) f" by (simp add: row_update_def)
  ultimately show ?thesis by (metis (no_types, lifting) upd_where_none)
next
  case False
  then have "db_operations db' = upd_where P f (db_operations db)"
    using assms(2) by (auto simp: exec_update_def)
  with assms(1) show ?thesis by blast
qed

lemma unchanged_update: "\<exists>P f. row_update t P f \<and> rows = upd_where P f rows"
proof -
  have "row_update t (\<lambda>_. False) f" for f by (simp add: row_update_def)
  then show ?thesis by (metis (no_types, lifting) upd_where_none)
qed

lemma claim_selected:
  assumes "first_by claim_before (filter (\<lambda>r. claimable t r \<and> \<not> locked (r_id r)) rows) = Some r"
  shows "r \<in> set rows" "claimable t r" "\<not> locked (r_id r)"
  using first_by_mem [OF assms] by simp_all

lemma ClaimOperation_update:
  assumes "ClaimOperation locked t app db owner lease = (res, db')" "db_ok db"
  shows "\<exists>P f. row_update t P f \<and> db_operations db' = upd_where P f (db_operations db)"
proof (cases "first_by claim_before
    (filter (\<lambda>r. claimable t r \<and> \<not> locked (r_id r)) (db_operations db))")
  case None
  then have "db' = db" using assms(1) by (auto simp: ClaimOperation_def split: if_splits)
  then show ?thesis using unchanged_update by simp
next
  case (Some r)
  note sel = claim_selected [OF Some]
  have same: "r_id x = r_id r \<longleftrightarrow> x = r \<and> claimable t x" if "x \<in> set (db_operations db)" for x
    using that sel assms(2) by (auto simp: db_ok_def distinct_map inj_on_def)
  have "db' = db \<or> db_operations db' =
      upd_where (\<lambda>x. r_id x = r_id r) (claim_row t app owner lease) (db_operations db)"
    using assms(1) Some by (auto simp: ClaimOperation_def Let_def split: if_splits)
  moreover have "upd_where (\<lambda>x. r_id x = r_id r) (claim_row t app owner lease) (db_operations db) =
      upd_where (\<lambda>x. x = r \<and> claimable t x) (claim_row t app owner lease) (db_operations db)"
    unfolding upd_where_def using same by (auto intro!: map_cong)
  ultimately show ?thesis using row_update_claim unchanged_update by metis
qed

lemma enqueue_defaults_max: "op_MaxAttempts (enqueue_defaults op) > 0 \<or> op_MaxAttempts op < 0"
  by (auto simp: enqueue_defaults_def Let_def)

lemma insert_operation_shape:
  assumes "insert_operation jsonb tex t db op = Inserted db'" "op_Status op = OpPending"
  shows "\<exists>r. fresh_row r \<and> r_id r = op_ID op \<and> \<not> violates_unique r (db_operations db) \<and>
    db' = db\<lparr>db_operations := db_operations db @ [r]\<rparr>"
proof -
  obtain j where ins: "\<not> violates_unique (queued_row op j t) (db_operations db)" "op_MaxAttempts op > 0"
    "db' = db\<lparr>db_operations := db_operations db @ [queued_row op j t]\<rparr>"
    using assms(1) by (auto simp: insert_operation_def split: option.splits if_splits)
  moreover have "fresh_row (queued_row op j t)" "r_id (queued_row op j t) = op_ID op"
    using ins(2) assms(2) by (auto simp: fresh_row_def row_ok_def queued_row_def unresolved_def)
  ultimately show ?thesis by blast
qed

lemma EnqueueOperation_shape:
  assumes "EnqueueOperation jsonb jeq tex (\<lambda>x. x) (\<lambda>x. x) newID app t db op = (res, db')"
  shows "db' = db \<or> (\<exists>r. fresh_row r \<and> \<not> violates_unique r (db_operations db) \<and>
    db' = db\<lparr>db_operations := db_operations db @ [r]\<rparr>)"
  using assms unfolding EnqueueOperation_def
  by (auto simp: Let_def split: if_splits sum.splits insert_result.splits
      dest!: insert_operation_shape)

lemma Checkpoint_shape:
  assumes "CheckpointClaimedOperation jsonb jeq t app db oid owner g step status cp p msg = (e, db')"
  shows "\<exists>P f. row_update t P f \<and> db_operations db' = upd_where P f (db_operations db)"
proof (cases "db_operations db' = db_operations db")
  case True
  then show ?thesis using unchanged_update by simp
next
  case False
  define f :: "op_row \<Rightarrow> op_row" where "f = (\<lambda>r. r\<lparr>r_progress := max (r_progress r) p,
             r_message := (if p \<ge> r_progress r then msg else r_message r),
             r_updated_at := app\<rparr>)"
  have p: "0 \<le> p" "p \<le> 99"
    using False assms by (auto simp: CheckpointClaimedOperation_def split: if_splits)
  obtain e1 db1 where e1: "exec_update (claim_guard {OpRunning, OpCancelling} t oid owner g) f db = (e1, db1)"
    by fastforce
  then have "db_operations db' = db_operations db1"
    using False assms p unfolding CheckpointClaimedOperation_def f_def
    by (auto simp: Let_def split: if_splits option.splits)
  moreover note row_update_exec [OF row_update_checkpoint [OF p] e1 [unfolded f_def]]
  ultimately show ?thesis by metis
qed

lemma queue_step_shape:
  assumes "queue_step (t, db) (t', db')" "db_ok db"
  shows "(t \<le> t' \<and> db' = db) \<or> (t' = t \<and>
    ((\<exists>P f. row_update t P f \<and> db_operations db' = upd_where P f (db_operations db)) \<or>
     (\<exists>r. fresh_row r \<and> \<not> violates_unique r (db_operations db) \<and>
        db_operations db' = db_operations db @ [r])))"
  using assms(1)
proof cases
  case tick
  then show ?thesis by simp
next
  case (enqueue jsonb jeq tex newID app op res)
  show ?thesis using EnqueueOperation_shape [OF enqueue(2)] enqueue(1) by auto
next
  case claim
  then show ?thesis using ClaimOperation_update assms(2) by blast
next
  case (start app oid owner g e)
  show ?thesis
    using row_update_exec [OF row_update_start start(2) [unfolded StartClaimedOperation_def]] start(1)
    by blast
next
  case (heartbeat app oid owner g lease e)
  show ?thesis
    using row_update_exec [OF row_update_heartbeat heartbeat(2) [unfolded HeartbeatOperation_def]]
      heartbeat(1) by blast
next
  case (complete jsonb app oid owner g result e)
  then show ?thesis
    using row_update_exec [OF row_update_complete] unchanged_update [of t "db_operations db"]
    unfolding CompleteClaimedOperation_def Let_def by (auto split: option.splits)
next
  case (fail app oid owner g code msg retry next_at e)
  show ?thesis
    using row_update_exec [OF row_update_fail fail(2) [unfolded FailClaimedOperation_def Let_def]] fail(1)
    by blast
next
  case (cancel app oid owner g msg e)
  show ?thesis
    using row_update_exec [OF row_update_cancel cancel(2) [unfolded CancelClaimedOperation_def]] cancel(1)
    by blast
next
  case (request_cancel oid e)
  show ?thesis
    using row_update_exec [OF row_update_request request_cancel(2) [unfolded RequestOperationCancel_def]]
      request_cancel(1) by blast
next
  case checkpoint
  then show ?thesis using Checkpoint_shape by blast
qed


section \<open>Invariant and evolution along runs\<close>

lemma db_ok_update:
  assumes "db_ok db" "row_update t P f" "db_operations db' = upd_where P f (db_operations db)"
  shows "db_ok db'"
proof -
  let ?Q = "\<lambda>r. P r \<and> row_ok r"
  have rows: "db_operations db' = upd_where ?Q f (db_operations db)"
    unfolding assms(3) upd_where_def using assms(1) by (auto simp: db_ok_def)
  have ev: "evolves t t r (f r)" "row_ok (f r)" if "?Q r" for r
    using that assms(2) by (auto simp: row_update_def)
  have "\<forall>r \<in> set (db_operations db'). row_ok r"
    unfolding rows set_upd_where using ev assms(1) by (auto simp: db_ok_def)
  moreover have "map r_id (db_operations db') = map r_id (db_operations db)"
    unfolding rows using ev evolves_identity(1) by (intro map_upd_where) blast
  moreover have "unique_key idempotency_index (db_operations db')"
    unfolding rows using evolves_identity(2) [OF ev(1)] assms(1)
    by (subst unique_key_upd_where) (simp_all add: db_ok_def)
  moreover have "unique_key unresolved_index (db_operations db')"
    unfolding rows
  proof (rule unique_key_upd_where_drop)
    show "unresolved_index (f r) = unresolved_index r \<or> unresolved_index (f r) = None"
      if "?Q r" for r using evolves_identity(3) [OF ev(1) [OF that]] .
    show "unique_key unresolved_index (db_operations db)" using assms(1) by (simp add: db_ok_def)
  qed
  ultimately show ?thesis using assms(1) by (simp add: db_ok_def)
qed

lemma db_ok_insert:
  assumes "db_ok db" "fresh_row r" "\<not> violates_unique r (db_operations db)"
    "db_operations db' = db_operations db @ [r]"
  shows "db_ok db'"
  using assms
  by (auto simp: db_ok_def fresh_row_def violates_unique_def intro!: unique_key_append)
    (auto simp: has_key_def)

lemma queue_step_ok [step_inv]:
  assumes "queue_step (t, db) (t', db')" "db_ok db"
  shows "db_ok db'"
  using queue_step_shape [OF assms] assms(2) db_ok_update db_ok_insert by metis

lemma queue_steps_ok:
  "queue_step\<^sup>*\<^sup>* (t, db) (t', db') \<Longrightarrow> db_ok db \<Longrightarrow> db_ok db'"
  by (induction rule: rtranclp_induct2) (auto intro: queue_step_ok)

lemma queue_step_evolves:
  assumes "queue_step (t, db) (t', db')" "db_ok db" "r \<in> set (db_operations db)"
  shows "\<exists>r' \<in> set (db_operations db'). evolves t t' r r'"
  using queue_step_shape [OF assms(1,2)]
proof (elim disjE exE conjE)
  fix P f
  assume u: "row_update t P f" "db_operations db' = upd_where P f (db_operations db)" "t' = t"
  have "row_ok r" using assms(2,3) by (simp add: db_ok_def)
  then have "evolves t t r (if P r then f r else r)"
    using u(1) evolves_refl [of t t r] by (auto simp: row_update_def)
  moreover have "(if P r then f r else r) \<in> set (db_operations db')"
    unfolding u(2) set_upd_where using assms(3) by blast
  ultimately show ?thesis using u(3) by blast
qed (use assms(3) evolves_refl in auto)

lemma queue_steps_evolves:
  assumes "queue_step\<^sup>*\<^sup>* (t, db) (t', db')" "db_ok db" "r \<in> set (db_operations db)"
  shows "\<exists>r' \<in> set (db_operations db'). evolves t t' r r'"
  using assms(1)
proof (induction rule: rtranclp_induct2)
  case refl
  then show ?case using assms(3) evolves_refl [of t t r] by auto
next
  case (step t1 db1 t2 db2)
  have "db_ok db1" using step.hyps(1) assms(2) by (rule queue_steps_ok)
  with step show ?case using queue_step_evolves evolves_trans by blast
qed

lemma empty_db_ok [simp]: "db_ok empty_db"
  by (simp add: db_ok_def empty_db_def unique_key_def List.map_filter_def)

lemma reachable_ok: "reachable (t, db) \<Longrightarrow> db_ok db"
  unfolding reachable_def using queue_steps_ok empty_db_ok by blast

lemma row_unique:
  "db_ok db \<Longrightarrow> r \<in> set (db_operations db) \<Longrightarrow> r' \<in> set (db_operations db) \<Longrightarrow> r_id r = r_id r' \<Longrightarrow> r = r'"
  by (auto simp: db_ok_def distinct_map inj_on_def)

lemma fenced_update:
  assumes "db_ok db" "r \<in> set (db_operations db)" "g \<noteq> r_lease_generation r"
  shows "exec_update (claim_guard S t (r_id r) owner g) f db = (Some ErrNotFound, db)"
proof -
  have "\<forall>x \<in> set (db_operations db). \<not> claim_guard S t (r_id r) owner g x"
    using row_unique [OF assms(1,2)] assms(3) by (metis claim_guard_def)
  then show ?thesis by (simp add: exec_update_def rows_affected_0)
qed


section \<open>Properties of the queue\<close>

text \<open>
  C12. In every reachable state of the operation queue the rows are well formed: the lease
  generation counts the attempts, the attempts never exceed the maximum, a queued row has no
  lease, a leased or running row has an owner and an expiry, a row has a completion time exactly
  when it is resolved, ids and idempotency keys are unique, and a deployment has at most one
  unresolved operation.
\<close>

theorem queue_invariant:
  assumes "reachable (t, db)"
  shows "db_ok db"
  using assms by (rule reachable_ok)

text \<open>
  C4. Fencing: once an operation has been claimed again, the worker that held the earlier
  generation can never start, extend, checkpoint, complete, fail or cancel it, whatever happens in
  between and even if its owner name is reused; each call reports an error and changes nothing.
\<close>

theorem stale_generation_fenced:
  assumes "db_ok db" "r \<in> set (db_operations db)" "g < r_lease_generation r"
    "queue_step\<^sup>*\<^sup>* (t, db) (t', db')"
  shows "StartClaimedOperation t' app db' (r_id r) owner g = (Some ErrNotFound, db') \<and>
    HeartbeatOperation t' app db' (r_id r) owner g lease = (Some ErrNotFound, db') \<and>
    FailClaimedOperation t' app db' (r_id r) owner g code msg retry next_at =
      (Some ErrNotFound, db') \<and>
    CancelClaimedOperation t' app db' (r_id r) owner g msg = (Some ErrNotFound, db') \<and>
    snd (CompleteClaimedOperation jsonb t' app db' (r_id r) owner g result) = db' \<and>
    fst (CompleteClaimedOperation jsonb t' app db' (r_id r) owner g result) \<noteq> None \<and>
    snd (CheckpointClaimedOperation jsonb jeq t' app db' (r_id r) owner g step status cp p msg) = db' \<and>
    fst (CheckpointClaimedOperation jsonb jeq t' app db' (r_id r) owner g step status cp p msg) \<noteq> None"
proof -
  obtain r' where r': "r' \<in> set (db_operations db')" "evolves t t' r r'"
    using queue_steps_evolves [OF assms(4,1,2)] by blast
  have ok: "db_ok db'" using assms(4,1) by (rule queue_steps_ok)
  have "g \<noteq> r_lease_generation r'" "r_id r' = r_id r"
    using r'(2) assms(3) by (auto simp: evolves_def identity_def)
  note fenced = fenced_update [OF ok r'(1) this(1), unfolded this(2)]
  show ?thesis
    by (simp add: StartClaimedOperation_def HeartbeatOperation_def FailClaimedOperation_def
        CancelClaimedOperation_def CompleteClaimedOperation_def CheckpointClaimedOperation_def
        Let_def fenced split: option.splits)
qed

definition example_request :: operation where
  "example_request =
     \<lparr>op_ID = '''', op_TenantID = '''', op_Kind = ''deploy'', op_ResourceType = ''deployment'',
      op_ResourceName = ''chat'', op_IdempotencyKey = ''k1'', op_Status = OpPending,
      op_Message = '''', op_RequestJSON = '''', op_ResultJSON = '''', op_ErrorCode = '''',
      op_Progress = 0, op_Attempt = 0, op_MaxAttempts = 2, op_Retryable = False,
      op_CancelRequested = False, op_LeaseOwner = '''', op_LeaseGeneration = 0, op_CreatedAt = 0,
      op_UpdatedAt = 0, op_CompletedAt = None, op_LeaseExpiresAt = None, op_NextAttemptAt = None\<rparr>"

definition example_enqueue :: "(store_error + (operation \<times> bool)) \<times> op_db" where
  "example_enqueue =
     EnqueueOperation Some (=) (\<lambda>_. True) (\<lambda>x. x) (\<lambda>x. x) (Inr ''op1'') 100 100 empty_db example_request"

definition example_claim1 :: "(store_error + operation) \<times> op_db" where
  "example_claim1 =
     ClaimOperation (\<lambda>_. False) 200 200 (snd example_enqueue) ''worker-a'' 30000000000"

definition example_claim2 :: "(store_error + operation) \<times> op_db" where
  "example_claim2 =
     ClaimOperation (\<lambda>_. False) 40000000000 40000000000 (snd example_claim1) ''worker-a'' 30000000000"

lemmas example_queue_defs = example_enqueue_def example_claim1_def example_claim2_def
  example_request_def EnqueueOperation_def enqueue_defaults_def operationByKey_def scanOperation_def
  empty_db_def insert_operation_def queued_row_def violates_unique_def has_key_def
  ClaimOperation_def claimable_def claim_before_def claim_row_def upd_where_def null_lt_def
  null_le_def microseconds_def Operation_def sql_null_def quot_nonneg Let_def coalesce_def

lemma example_queue_steps:
  "queue_step\<^sup>*\<^sup>* (100, empty_db) (200, snd example_claim1)"
  "queue_step\<^sup>*\<^sup>* (200, snd example_claim1) (40000000000, snd example_claim2)"
proof -
  have "queue_step (100, empty_db) (100, snd example_enqueue)"
    unfolding example_enqueue_def by (rule queue_step.enqueue [OF prod.collapse [symmetric]])
  moreover have "queue_step (100, snd example_enqueue) (200, snd example_enqueue)"
    by (rule queue_step.tick) simp
  moreover have "queue_step (200, snd example_enqueue) (200, snd example_claim1)"
    unfolding example_claim1_def by (rule queue_step.claim [OF prod.collapse [symmetric]])
  ultimately show "queue_step\<^sup>*\<^sup>* (100, empty_db) (200, snd example_claim1)"
    by (blast intro: converse_rtranclp_into_rtranclp)
  have "queue_step (200, snd example_claim1) (40000000000, snd example_claim1)"
    by (rule queue_step.tick) simp
  moreover have "queue_step (40000000000, snd example_claim1) (40000000000, snd example_claim2)"
    unfolding example_claim2_def by (rule queue_step.claim [OF prod.collapse [symmetric]])
  ultimately show "queue_step\<^sup>*\<^sup>* (200, snd example_claim1) (40000000000, snd example_claim2)"
    by (blast intro: converse_rtranclp_into_rtranclp)
qed

lemma example_queue_row:
  "map (\<lambda>r. (r_id r, r_status r, r_lease_generation r, r_attempt r, r_max_attempts r,
     r_lease_expires_at r)) (db_operations (snd example_claim1)) =
     [(''op1'', OpLeased, 1, 1, 2, Some 30000000200)]"
  "map (\<lambda>r. (r_id r, r_status r, r_lease_generation r, r_attempt r, r_max_attempts r,
     r_lease_expires_at r)) (db_operations (snd example_claim2)) =
     [(''op1'', OpLeased, 2, 2, 2, Some 70000000000)]"
  by (simp_all add: example_queue_defs)


lemma example_claim1_ok: "db_ok (snd example_claim1)"
  using queue_steps_ok [OF example_queue_steps(1) empty_db_ok] .

theorem queue_invariant_witness: "db_ok (snd example_claim2)"
proof (rule queue_invariant)
  show "reachable (40000000000, snd example_claim2)"
    unfolding reachable_def using rtranclp_trans [OF example_queue_steps] by blast
qed

theorem stale_generation_fenced_witness:
  "\<exists>r \<in> set (db_operations (snd example_claim2)). r_lease_generation r = 2 \<and>
     StartClaimedOperation 40000000000 1 (snd example_claim2) (r_id r) ''worker-a'' 1 =
       (Some ErrNotFound, snd example_claim2)"
proof -
  let ?db = "snd example_claim2"
  have ok: "db_ok ?db" using queue_steps_ok [OF example_queue_steps(2) example_claim1_ok] .
  obtain r where r: "r \<in> set (db_operations ?db)" "r_lease_generation r = 2"
    using example_queue_row(2) by auto
  then have "1 < r_lease_generation r" by simp
  from stale_generation_fenced [OF ok r(1) this rtranclp.rtrancl_refl] r show ?thesis by blast
qed

lemma claim_before_asym: "claim_before a b \<Longrightarrow> \<not> claim_before b a"
  by (cases "r_next_attempt_at a"; cases "r_next_attempt_at b") (auto simp: claim_before_def)

lemma claim_before_negtrans: "\<not> claim_before a b \<Longrightarrow> \<not> claim_before b c \<Longrightarrow> \<not> claim_before a c"
  by (cases "r_next_attempt_at a"; cases "r_next_attempt_at b"; cases "r_next_attempt_at c")
    (auto simp: claim_before_def)

lemma find_row: "db_ok db \<Longrightarrow> r \<in> set (db_operations db) \<Longrightarrow>
  find (\<lambda>x. r_id x = r_id r) (db_operations db) = Some r"
  using row_unique by (intro find_unique ballI impI) simp_all

lemma ClaimOperation_Inr:
  assumes "ClaimOperation locked t app db owner lease = (Inr op, db')" "db_ok db"
  obtains r where "r \<in> set (db_operations db)" "claimable t r" "\<not> locked (r_id r)"
    "\<forall>x \<in> set (db_operations db). claimable t x \<and> \<not> locked (r_id x) \<longrightarrow> \<not> claim_before x r"
    "scanOperation (Some (claim_row t app owner lease r)) = Inr op"
    "db_operations db' =
       upd_where (\<lambda>x. r_id x = r_id r) (claim_row t app owner lease) (db_operations db)"
proof -
  obtain r where sel: "first_by claim_before
      (filter (\<lambda>r. claimable t r \<and> \<not> locked (r_id r)) (db_operations db)) = Some r"
    and db': "db' = db\<lparr>db_operations := upd_where (\<lambda>x. r_id x = r_id r)
      (claim_row t app owner lease) (db_operations db)\<rparr>"
    and op: "Operation db' (r_id r) = Inr op"
    using assms(1) by (auto simp: ClaimOperation_def Let_def split: if_splits option.splits)
  note r = claim_selected [OF sel]
  have "db_ok db'" using queue_step_ok [OF queue_step.claim [OF assms(1)] assms(2)] .
  moreover have "claim_row t app owner lease r \<in> set (db_operations db')"
    unfolding db' by (force simp: set_upd_where r(1))
  ultimately have "find (\<lambda>x. r_id x = r_id r) (db_operations db') = Some (claim_row t app owner lease r)"
    using find_row [of db' "claim_row t app owner lease r"] by (simp add: claim_row_def)
  then have "scanOperation (Some (claim_row t app owner lease r)) = Inr op"
    using op by (simp add: Operation_def)
  moreover have "\<forall>x \<in> set (db_operations db). claimable t x \<and> \<not> locked (r_id x) \<longrightarrow> \<not> claim_before x r"
    using first_by_min [OF claim_before_asym claim_before_negtrans sel] by auto
  ultimately show ?thesis using that r db' by simp
qed

text \<open>
  A successful claim takes an operation nobody holds: its previous lease, if any, has expired,
  and no other claimable unlocked operation comes before it in the queue order. The claim starts
  the next generation and attempt, within the maximum, with a lease of the requested length, and
  leaves every other operation alone.
\<close>

theorem claim_exclusive:
  assumes "db_ok db" "ClaimOperation locked t app db owner lease = (Inr op, db')"
  shows "\<exists>r \<in> set (db_operations db). r_id r = op_ID op \<and> unresolved (r_status r) \<and>
    \<not> (r_status r \<in> {OpLeased, OpRunning, OpCancelling} \<and> null_gt (r_lease_expires_at r) t) \<and>
    (\<forall>x \<in> set (db_operations db). claimable t x \<and> \<not> locked (r_id x) \<longrightarrow> \<not> claim_before x r) \<and>
    op_Status op = OpLeased \<and> op_LeaseOwner op = owner \<and>
    op_LeaseGeneration op = r_lease_generation r + 1 \<and> op_Attempt op = r_attempt r + 1 \<and>
    op_Attempt op \<le> op_MaxAttempts op \<and> op_LeaseExpiresAt op = Some (t + microseconds lease) \<and>
    (\<forall>x \<in> set (db_operations db). r_id x \<noteq> r_id r \<longrightarrow> x \<in> set (db_operations db'))"
proof (rule ClaimOperation_Inr [OF assms(2,1)])
  fix r
  assume r: "r \<in> set (db_operations db)" "claimable t r"
    and first: "\<forall>x \<in> set (db_operations db). claimable t x \<and> \<not> locked (r_id x) \<longrightarrow> \<not> claim_before x r"
    and op: "scanOperation (Some (claim_row t app owner lease r)) = Inr op"
    and db': "db_operations db' =
      upd_where (\<lambda>x. r_id x = r_id r) (claim_row t app owner lease) (db_operations db)"
  have "unresolved (r_status r)" "r_attempt r < r_max_attempts r"
    "\<not> (r_status r \<in> {OpLeased, OpRunning, OpCancelling} \<and> null_gt (r_lease_expires_at r) t)"
    using r(2) by (auto simp: claimable_def unresolved_def null_gt_def null_lt_def split: option.splits)
  moreover have "op_Status op = OpLeased" "op_LeaseOwner op = owner" "r_id r = op_ID op"
    "op_LeaseGeneration op = r_lease_generation r + 1" "op_Attempt op = r_attempt r + 1"
    "op_MaxAttempts op = r_max_attempts r" "op_LeaseExpiresAt op = Some (t + microseconds lease)"
    using op by (auto simp: scanOperation_def claim_row_def coalesce_def)
  moreover have "\<forall>x \<in> set (db_operations db). r_id x \<noteq> r_id r \<longrightarrow> x \<in> set (db_operations db')"
    unfolding db' set_upd_where by force
  ultimately show ?thesis using r(1) first by (intro bexI [of _ r]) simp_all
qed

theorem claim_exclusive_witness:
  "\<exists>op. fst example_claim2 = Inr op \<and> op_LeaseGeneration op = 2 \<and> op_Attempt op \<le> op_MaxAttempts op"
proof -
  obtain op where op: "fst example_claim2 = Inr op" "op_LeaseGeneration op = 2"
    by (simp add: example_queue_defs)
  then have "ClaimOperation (\<lambda>_. False) 40000000000 40000000000 (snd example_claim1) ''worker-a''
      30000000000 = (Inr op, snd example_claim2)"
    by (metis example_claim2_def prod.collapse)
  from claim_exclusive [OF example_claim1_ok this] op show ?thesis by auto
qed


text \<open>
  The history of an operation: along every run its row persists with the same identity and
  request, its lease generation and progress never decrease, and once it is succeeded, failed or
  cancelled the row never changes again.
\<close>

theorem operation_history:
  assumes "db_ok db" "r \<in> set (db_operations db)" "queue_step\<^sup>*\<^sup>* (t, db) (t', db')"
  shows "\<exists>r' \<in> set (db_operations db'). identity r' = identity r \<and>
    r_lease_generation r \<le> r_lease_generation r' \<and> r_progress r \<le> r_progress r' \<and>
    (\<not> unresolved (r_status r) \<longrightarrow> r' = r)"
  using queue_steps_evolves [OF assms(3,1,2)] by (auto simp: evolves_def)

theorem operation_history_witness:
  "\<exists>r \<in> set (db_operations (snd example_claim1)). \<exists>r' \<in> set (db_operations (snd example_claim2)).
     identity r' = identity r \<and> r_lease_generation r \<le> r_lease_generation r'"
proof -
  obtain r where r: "r \<in> set (db_operations (snd example_claim1))"
    using example_queue_row(1) by auto
  from operation_history [OF example_claim1_ok r example_queue_steps(2)] r show ?thesis by blast
qed

text \<open>
  C17. An operation whose last attempt loses its lease is never resolved: when a worker dies
  while it holds the final attempt, no later claim, worker write or cancellation request moves the
  row to a terminal status, it is never claimable again, and (for a deployment) every attempt to
  insert a new operation for the same deployment violates the unresolved-operation index.
\<close>

theorem exhausted_crash_never_resolves:
  assumes "db_ok db" "r \<in> set (db_operations db)" "queue_step\<^sup>*\<^sup>* (t, db) (t', db')"
    and dead: "r_max_attempts r \<le> r_attempt r" "r_status r \<in> {OpLeased, OpRunning, OpCancelling}"
      "\<not> null_gt (r_lease_expires_at r) t"
  shows "\<exists>r' \<in> set (db_operations db'). r_id r' = r_id r \<and> unresolved (r_status r') \<and>
    \<not> claimable t' r' \<and>
    (r_resource_type r = ''deployment'' \<longrightarrow>
       (\<forall>q. unresolved_index q = unresolved_index r \<longrightarrow> violates_unique q (db_operations db')))"
proof -
  obtain r' where r': "r' \<in> set (db_operations db')" "evolves t t' r r'"
    using queue_steps_evolves [OF assms(3,1,2)] by blast
  have "abandoned t r" using dead by (simp add: abandoned_def)
  with r'(2) have ab: "abandoned t' r'" by (simp add: evolves_def)
  then have "\<not> claimable t' r'" "unresolved (r_status r')"
    by (auto simp: abandoned_def claimable_def unresolved_def)
  moreover have "violates_unique q (db_operations db')"
    if "r_resource_type r = ''deployment''" "unresolved_index q = unresolved_index r" for q
  proof -
    have "unresolved_index r' = unresolved_index r" "unresolved_index r \<noteq> None"
      using that(1) r'(2) ab dead(2)
      by (auto simp: evolves_def identity_def unresolved_index_def abandoned_def unresolved_def)
    then show ?thesis using that(2) r'(1) by (auto simp: violates_unique_def has_key_def)
  qed
  ultimately show ?thesis using r' evolves_identity(1) by (intro bexI [of _ r']) auto
qed

theorem exhausted_crash_never_resolves_witness:
  "\<exists>r \<in> set (db_operations (snd example_claim2)). r_id r = ''op1'' \<and> unresolved (r_status r) \<and>
     \<not> claimable 80000000000 r"
proof -
  let ?db = "snd example_claim2"
  have ok: "db_ok ?db" using queue_steps_ok [OF example_queue_steps(2) example_claim1_ok] .
  obtain r where r: "r \<in> set (db_operations ?db)" "r_id r = ''op1''" "r_status r = OpLeased"
    "r_max_attempts r \<le> r_attempt r" "\<not> null_gt (r_lease_expires_at r) 80000000000"
    using example_queue_row(2) by (auto simp: null_gt_def)
  from exhausted_crash_never_resolves [OF ok r(1) rtranclp.rtrancl_refl r(4) _ r(5)] r show ?thesis
    by auto
qed

lemma operationByKey_row:
  assumes "db_ok db" "r \<in> set (db_operations db)" "r_idempotency_key r = Some k"
  shows "operationByKey db (r_tenant_id r) (r_kind r) k = scanOperation (Some r)"
proof -
  have "\<forall>y \<in> set (db_operations db). r_tenant_id y = r_tenant_id r \<and> r_kind y = r_kind r \<and>
      r_idempotency_key y = Some k \<longrightarrow> y = r"
  proof (intro ballI impI)
    fix y
    assume "y \<in> set (db_operations db)" "r_tenant_id y = r_tenant_id r \<and> r_kind y = r_kind r \<and>
      r_idempotency_key y = Some k"
    then show "y = r"
      using unique_key_inj [of idempotency_index "db_operations db" y r] assms
      by (simp add: db_ok_def idempotency_index_def)
  qed
  then show ?thesis
    unfolding operationByKey_def using assms(2,3) by (subst find_unique [of r]) simp_all
qed

lemma EnqueueOperation_inserted:
  assumes "EnqueueOperation jsonb jeq tex env1 env2 newID app t db op = (Inr (res, True), db')"
  shows "\<exists>request. jsonb (op_RequestJSON (enqueue_defaults op)) = Some request \<and>
    queued_row res request t \<in> set (db_operations db') \<and>
    op_TenantID res = op_TenantID (enqueue_defaults op) \<and> op_Kind res = op_Kind op \<and>
    op_ResourceType res = op_ResourceType op \<and> op_ResourceName res = op_ResourceName op \<and>
    op_IdempotencyKey res = op_IdempotencyKey op \<and> op_Kind op \<noteq> '''' \<and> op_ResourceType op \<noteq> '''' \<and>
    op_ResourceName op \<noteq> ''''"
  using assms unfolding EnqueueOperation_def insert_operation_def
  by (auto simp: Let_def enqueue_defaults_def split: if_splits sum.splits option.splits)

text \<open>
  Enqueueing is idempotent per key: after an operation with an idempotency key was queued,
  repeating the same request, however the queue has moved on, returns the operation queued first
  and adds nothing. The database's JSON cast is only required to keep the meaning of a request.
\<close>

theorem enqueue_idempotent:
  assumes "EnqueueOperation jsonb jeq tex env1 env2 newID app t db op = (Inr (res, True), db1)"
    and "op_IdempotencyKey op \<noteq> ''''" "db_ok db1" "queue_step\<^sup>*\<^sup>* (t1, db1) (t2, db2)"
    and json: "\<And>x y. jsonb x = Some y \<Longrightarrow> jeq y x"
  shows "\<exists>existing. EnqueueOperation jsonb jeq tex env3 env4 newID' app' t2 db2 op =
      (Inr (existing, False), db2) \<and> op_ID existing = op_ID res"
proof -
  let ?op = "enqueue_defaults op"
  obtain request where req: "jsonb (op_RequestJSON ?op) = Some request"
    and row: "queued_row res request t \<in> set (db_operations db1)"
    and res: "op_TenantID res = op_TenantID ?op" "op_Kind res = op_Kind op"
      "op_ResourceType res = op_ResourceType op" "op_ResourceName res = op_ResourceName op"
      "op_IdempotencyKey res = op_IdempotencyKey op" "op_Kind op \<noteq> ''''" "op_ResourceType op \<noteq> ''''"
      "op_ResourceName op \<noteq> ''''"
    using EnqueueOperation_inserted [OF assms(1)] by blast
  obtain r where r: "r \<in> set (db_operations db2)" "identity r = identity (queued_row res request t)"
    using queue_steps_evolves [OF assms(4,3) row] by (auto simp: evolves_def)
  have ok: "db_ok db2" using assms(4,3) by (rule queue_steps_ok)
  have key: "r_tenant_id r = op_TenantID ?op" "r_kind r = op_Kind op" "r_id r = op_ID res"
    "r_idempotency_key r = Some (op_IdempotencyKey op)" "r_resource_type r = op_ResourceType op"
    "r_resource_name r = op_ResourceName op" "r_request_json r = request"
    using r(2) res assms(2) by (auto simp: identity_def queued_row_def sql_null_def)
  have flds: "op_Kind ?op = op_Kind op" "op_IdempotencyKey ?op = op_IdempotencyKey op"
    "op_ResourceType ?op = op_ResourceType op" "op_ResourceName ?op = op_ResourceName op"
    by (auto simp: enqueue_defaults_def Let_def)
  obtain ex where ex: "scanOperation (Some r) = Inr ex" by (simp add: scanOperation_def)
  have look: "operationByKey db2 (op_TenantID ?op) (op_Kind ?op) (op_IdempotencyKey ?op) = Inr ex"
    using operationByKey_row [OF ok r(1) key(4)] key ex flds by simp
  have "sameOperationIntent jeq ex ?op"
    using ex key json [OF req] flds by (auto simp: scanOperation_def sameOperationIntent_def)
  moreover have "op_ID ex = op_ID res" using ex key by (auto simp: scanOperation_def)
  ultimately show ?thesis
    using look res(6-8) assms(2) flds by (simp add: EnqueueOperation_def Let_def)
qed

theorem enqueue_idempotent_witness:
  "\<exists>existing. EnqueueOperation Some (=) (\<lambda>_. True) (\<lambda>x. x) (\<lambda>x. x) (Inr ''op2'') 5 100
      (snd example_enqueue) example_request = (Inr (existing, False), snd example_enqueue) \<and>
     op_ID existing = ''op1''"
proof -
  obtain res where res: "example_enqueue = (Inr (res, True), snd example_enqueue)" "op_ID res = ''op1''"
    by (simp add: example_queue_defs)
  have ok: "db_ok (snd example_enqueue)"
  proof (rule queue_steps_ok [OF _ empty_db_ok])
    show "queue_step\<^sup>*\<^sup>* (100, empty_db) (100, snd example_enqueue)"
      unfolding example_enqueue_def by (blast intro: queue_step.enqueue [OF prod.collapse [symmetric]])
  qed
  have key: "op_IdempotencyKey example_request \<noteq> ''''" by (simp add: example_request_def)
  from enqueue_idempotent [OF res(1) [unfolded example_enqueue_def] key ok [unfolded example_enqueue_def]
      rtranclp.rtrancl_refl]
  show ?thesis unfolding example_enqueue_def [symmetric] using res(2) by fastforce
qed

end
