(* ===== verification/Operation_Worker.thy ===== *)
theory Operation_Worker
  imports Operation_Queue
begin

text \<open>
  \<open>internal/operations/worker.go\<close>: one pass of a worker (\<open>Once\<close>) over the operation queue, its
  lease maintenance, failure classification and retry backoff.

  The repository is an interface of the Go package, a record of functions on a state here; the
  locale \<open>lease_repository\<close> states what the worker relies on and is interpreted on the queue of
  \<open>Operation_Queue\<close>. A handler runs concurrently with the lease maintenance and with other
  parties: its run is given by what happens to the state before each maintenance tick, what
  happens from the last tick until it returns, and the result it returns (which may depend on
  whether its context was cancelled). The select loop of \<open>Run\<close> only repeats \<open>Once\<close>.
\<close>


section \<open>Interfaces\<close>

record 's repository =
  repo_ClaimOperation :: "string \<Rightarrow> duration \<Rightarrow> 's \<Rightarrow> (store_error + operation) \<times> 's"
  repo_StartClaimedOperation :: "string \<Rightarrow> string \<Rightarrow> int \<Rightarrow> 's \<Rightarrow> store_error option \<times> 's"
  repo_HeartbeatOperation :: "string \<Rightarrow> string \<Rightarrow> int \<Rightarrow> duration \<Rightarrow> 's \<Rightarrow> store_error option \<times> 's"
  repo_Operation :: "string \<Rightarrow> 's \<Rightarrow> store_error + operation"
  repo_CompleteClaimedOperation :: "string \<Rightarrow> string \<Rightarrow> int \<Rightarrow> string \<Rightarrow> 's \<Rightarrow> store_error option \<times> 's"
  repo_FailClaimedOperation ::
    "string \<Rightarrow> string \<Rightarrow> int \<Rightarrow> string \<Rightarrow> string \<Rightarrow> bool \<Rightarrow> gotime \<Rightarrow> 's \<Rightarrow> store_error option \<times> 's"
  repo_CancelClaimedOperation :: "string \<Rightarrow> string \<Rightarrow> int \<Rightarrow> string \<Rightarrow> 's \<Rightarrow> store_error option \<times> 's"

text \<open>\<open>Failure\<close>: a code, whether to retry, and the wrapped error's text if there is one.\<close>

record failure =
  fl_Code :: string
  fl_Retryable :: bool
  fl_Err :: "string option"

datatype handler_error = PlainError string | FailureError failure

definition Failure_Error :: "failure \<Rightarrow> string" where
  "Failure_Error f = (case fl_Err f of Some e \<Rightarrow> e | None \<Rightarrow> fl_Code f)"

definition error_text :: "handler_error \<Rightarrow> string" where
  "error_text e = (case e of PlainError m \<Rightarrow> m | FailureError f \<Rightarrow> Failure_Error f)"

definition Retryable :: "string \<Rightarrow> string option \<Rightarrow> handler_error" where
  "Retryable code err = FailureError \<lparr>fl_Code = code, fl_Retryable = True, fl_Err = err\<rparr>"

definition Permanent :: "string \<Rightarrow> string option \<Rightarrow> handler_error" where
  "Permanent code err = FailureError \<lparr>fl_Code = code, fl_Retryable = False, fl_Err = err\<rparr>"

record 's handler_run =
  hr_ticks :: "('s \<Rightarrow> 's) list"
  hr_tail :: "'s \<Rightarrow> 's"
  hr_result :: "bool \<Rightarrow> handler_error + string"

type_synonym 's handler = "operation \<Rightarrow> 's handler_run"

record telemetry =
  tm_claimed :: int
  tm_completed :: int
  tm_failed :: int
  tm_retried :: int
  tm_cancelled :: int

record 's worker =
  wk_Repository :: "'s repository option"
  wk_Handlers :: "string \<Rightarrow> 's handler option"
  wk_Owner :: string
  wk_Lease :: duration
  wk_BaseBackoff :: duration
  wk_MaxBackoff :: duration
  wk_Now :: "'s \<Rightarrow> gotime"
  wk_Telemetry :: bool
  wk_Jitter :: "(duration \<Rightarrow> duration) option"

definition telemetry_add ::
  "'s worker \<Rightarrow> (telemetry \<Rightarrow> telemetry) \<Rightarrow> telemetry \<Rightarrow> telemetry" where
  "telemetry_add w f tm = (if wk_Telemetry w then f tm else tm)"


section \<open>Backoff\<close>

text \<open>\<open>random\<close> is the outcome of \<open>rand.Int(rand.Reader, 501)\<close>: \<open>None\<close> on error.\<close>

definition randomJitter :: "int option \<Rightarrow> duration \<Rightarrow> duration" where
  "randomJitter random delay =
     (case random of None \<Rightarrow> delay
      | Some n \<Rightarrow> quot (i64 (delay * i64 (750 + n))) 1000)"

text \<open>The doubling loop, from \<open>i = 1\<close> with \<open>attempt - 1\<close> iterations left at most.\<close>

fun backoff_loop :: "nat \<Rightarrow> duration \<Rightarrow> duration \<Rightarrow> duration" where
  "backoff_loop 0 limit delay = delay"
| "backoff_loop (Suc n) limit delay =
     (if delay < limit then backoff_loop n limit (i64 (delay * 2)) else delay)"

definition backoff :: "'s worker \<Rightarrow> int option \<Rightarrow> int \<Rightarrow> duration" where
  "backoff w random attempt =
     (let base = (if wk_BaseBackoff w \<le> 0 then Second else wk_BaseBackoff w);
          limit = (if wk_MaxBackoff w \<le> 0 then Minute else wk_MaxBackoff w);
          delay0 = backoff_loop (nat (attempt - 1)) limit base;
          delay = (if delay0 > limit then limit else delay0)
      in case wk_Jitter w of Some jitter \<Rightarrow> jitter delay | None \<Rightarrow> randomJitter random delay)"


section \<open>Failure classification\<close>

definition classify :: "handler_error \<Rightarrow> operation \<Rightarrow> string \<times> bool" where
  "classify err op =
     (let (code, retryable) =
        (case err of
           PlainError _ \<Rightarrow> (''operation_failed'', False)
         | FailureError f \<Rightarrow>
             (if fl_Code f \<noteq> '''' then fl_Code f else ''operation_failed'', fl_Retryable f))
      in if op_Attempt op \<ge> op_MaxAttempts op then (''attempts_exhausted'', False)
         else (code, retryable))"

definition worker_fail ::
  "'s worker \<Rightarrow> 's repository \<Rightarrow> int option \<Rightarrow> operation \<Rightarrow> handler_error \<Rightarrow> 's \<Rightarrow>
   store_error option \<times> 's" where
  "worker_fail w repo random op err s =
     (let (code, retryable) = classify err op;
          next_at = wk_Now w s + backoff w random (op_Attempt op)
      in repo_FailClaimedOperation repo (op_ID op) (wk_Owner w) (op_LeaseGeneration op) code
           (error_text err) retryable next_at s)"


section \<open>Lease maintenance\<close>

definition heartbeat_interval :: "duration \<Rightarrow> duration" where
  "heartbeat_interval lease = (let i = quot lease 3 in if i < Second then Second else i)"

text \<open>Returns the maintenance error, whether the handler's context was cancelled, and the state.\<close>

fun maintainLease ::
  "'s repository \<Rightarrow> string \<Rightarrow> string \<Rightarrow> int \<Rightarrow> duration \<Rightarrow> ('s \<Rightarrow> 's) list \<Rightarrow> 's \<Rightarrow>
   store_error option \<times> bool \<times> 's" where
  "maintainLease repo owner oid generation lease [] s = (None, False, s)"
| "maintainLease repo owner oid generation lease (env # rest) s =
     (case repo_HeartbeatOperation repo oid owner generation lease (env s) of
        (Some err, s2) \<Rightarrow> (Some err, True, s2)
      | (None, s2) \<Rightarrow>
          (case repo_Operation repo oid s2 of
             Inl err \<Rightarrow> (Some err, True, s2)
           | Inr op \<Rightarrow> if op_CancelRequested op then (None, True, s2)
                      else maintainLease repo owner oid generation lease rest s2))"

text \<open>A cleanup handler runs without lease maintenance.\<close>

definition run_plain :: "'s handler_run \<Rightarrow> 's \<Rightarrow> (handler_error + string) \<times> 's" where
  "run_plain h s = (hr_result h False, hr_tail h (fold (\<lambda>e. e) (hr_ticks h) s))"

definition run_cleanup ::
  "'s worker \<Rightarrow> operation \<Rightarrow> 's \<Rightarrow> handler_error option \<times> 's" where
  "run_cleanup w op s =
     (case wk_Handlers w (op_Kind op @ ''.cancel'') of
        None \<Rightarrow> (None, s)
      | Some cleanup \<Rightarrow>
          (case run_plain (cleanup op) s of
             (Inl err, s') \<Rightarrow> (Some err, s')
           | (Inr _, s') \<Rightarrow> (None, s')))"


section \<open>One pass\<close>

text \<open>Cancellation, shared by the two places that find \<open>CancelRequested\<close>.\<close>

definition finish_cancel ::
  "'s worker \<Rightarrow> 's repository \<Rightarrow> int option \<Rightarrow> operation \<Rightarrow> string \<Rightarrow> telemetry \<Rightarrow> 's \<Rightarrow>
   (bool \<times> store_error option) \<times> telemetry \<times> 's" where
  "finish_cancel w repo random op message tm s =
     (case run_cleanup w op s of
        (Some err, s1) \<Rightarrow>
          (case worker_fail w repo random op err s1 of (e, s2) \<Rightarrow> ((True, e), tm, s2))
      | (None, s1) \<Rightarrow>
          (case repo_CancelClaimedOperation repo (op_ID op) (wk_Owner w) (op_LeaseGeneration op)
             message s1 of
             (e, s2) \<Rightarrow>
               ((True, e), telemetry_add w (\<lambda>t. t\<lparr>tm_cancelled := u64 (tm_cancelled t + 1)\<rparr>) tm, s2)))"

definition finish_handler ::
  "'s worker \<Rightarrow> 's repository \<Rightarrow> int option \<Rightarrow> operation \<Rightarrow> handler_error + string \<Rightarrow> telemetry \<Rightarrow> 's \<Rightarrow>
   (bool \<times> store_error option) \<times> telemetry \<times> 's" where
  "finish_handler w repo random op result tm s =
     (case result of
        Inr json \<Rightarrow>
          (case repo_CompleteClaimedOperation repo (op_ID op) (wk_Owner w) (op_LeaseGeneration op)
             json s of
             (e, s1) \<Rightarrow>
               ((True, e), telemetry_add w (\<lambda>t. t\<lparr>tm_completed := u64 (tm_completed t + 1)\<rparr>) tm, s1))
      | Inl err \<Rightarrow>
          (case worker_fail w repo random op err s of
             (e, s1) \<Rightarrow>
               ((True, e),
                telemetry_add w
                  (\<lambda>t. if snd (classify err op) then t\<lparr>tm_retried := u64 (tm_retried t + 1)\<rparr>
                       else t\<lparr>tm_failed := u64 (tm_failed t + 1)\<rparr>) tm, s1)))"

definition run_claimed ::
  "'s worker \<Rightarrow> 's repository \<Rightarrow> int option \<Rightarrow> duration \<Rightarrow> operation \<Rightarrow> telemetry \<Rightarrow> 's \<Rightarrow>
   (bool \<times> store_error option) \<times> telemetry \<times> 's" where
  "run_claimed w repo random lease op tm s =
     (if op_CancelRequested op
        then finish_cancel w repo random op ''cancellation cleanup completed'' tm s
      else case wk_Handlers w (op_Kind op) of
        None \<Rightarrow>
          (case repo_FailClaimedOperation repo (op_ID op) (wk_Owner w) (op_LeaseGeneration op)
             ''unsupported_operation'' (''no handler registered for '' @ op_Kind op) False (wk_Now w s) s of
             (e, s1) \<Rightarrow>
               ((True, e), telemetry_add w (\<lambda>t. t\<lparr>tm_failed := u64 (tm_failed t + 1)\<rparr>) tm, s1))
      | Some handler \<Rightarrow>
          (let h = handler op in
           case maintainLease repo (wk_Owner w) (op_ID op) (op_LeaseGeneration op) lease
             (hr_ticks h) s of
             (leaseErr, cancelled, s1) \<Rightarrow>
               let s2 = hr_tail h s1 in
               (case leaseErr of
                  Some err \<Rightarrow> ((True, Some err), tm, s2)
                | None \<Rightarrow>
                    (case repo_Operation repo (op_ID op) s2 of
                       Inr current \<Rightarrow>
                         if op_CancelRequested current
                           then finish_cancel w repo random op ''cancelled at safe execution boundary'' tm s2
                         else finish_handler w repo random op (hr_result h cancelled) tm s2
                     | Inl _ \<Rightarrow> finish_handler w repo random op (hr_result h cancelled) tm s2))))"

definition worker_lease :: "'s worker \<Rightarrow> duration" where
  "worker_lease w = (if wk_Lease w \<le> 0 then 30 * Second else wk_Lease w)"

definition Once ::
  "'s worker \<Rightarrow> int option \<Rightarrow> telemetry \<Rightarrow> 's \<Rightarrow> (bool \<times> store_error option) \<times> telemetry \<times> 's" where
  "Once w random tm s =
     (case wk_Repository w of
        None \<Rightarrow> ((False, Some (ErrOther ''operation repository and worker owner are required'')), tm, s)
      | Some repo \<Rightarrow>
        if wk_Owner w = ''''
          then ((False, Some (ErrOther ''operation repository and worker owner are required'')), tm, s)
        else case repo_ClaimOperation repo (wk_Owner w) (worker_lease w) s of
          (Inl err, s1) \<Rightarrow>
            if err = ErrNotFound then ((False, None), tm, s1) else ((False, Some err), tm, s1)
        | (Inr op, s1) \<Rightarrow>
            let tm1 = telemetry_add w (\<lambda>t. t\<lparr>tm_claimed := u64 (tm_claimed t + 1)\<rparr>) tm in
            (case repo_StartClaimedOperation repo (op_ID op) (wk_Owner w) (op_LeaseGeneration op) s1 of
               (Some err, s2) \<Rightarrow> ((True, Some err), tm1, s2)
             | (None, s2) \<Rightarrow>
                 run_claimed w repo random (worker_lease w) (op\<lparr>op_Status := OpRunning\<rparr>) tm1 s2))"


section \<open>What the worker relies on\<close>

text \<open>
  \<open>settled s oid g\<close>: generation \<open>g\<close> of the operation has an outcome and no longer holds a lease.
  The contract: a terminal write that succeeds settles its generation, and a failed one changes
  nothing.
\<close>

locale lease_repository =
  fixes repo :: "'s repository" and settled :: "'s \<Rightarrow> string \<Rightarrow> int \<Rightarrow> bool"
  assumes complete_settles:
      "repo_CompleteClaimedOperation repo oid owner g json s = (None, s') \<Longrightarrow> settled s' oid g"
    and fail_settles:
      "repo_FailClaimedOperation repo oid owner g code msg retry next_at s = (None, s') \<Longrightarrow> settled s' oid g"
    and cancel_settles:
      "repo_CancelClaimedOperation repo oid owner g msg s = (None, s') \<Longrightarrow> settled s' oid g"
begin

lemma worker_fail_settles:
  "worker_fail w repo random op err s = (None, s') \<Longrightarrow> settled s' (op_ID op) (op_LeaseGeneration op)"
  by (auto simp: worker_fail_def Let_def split: prod.splits intro: fail_settles)

lemma finish_cancel_settles:
  "finish_cancel w repo random op m tm s = ((worked, None), tm', s') \<Longrightarrow>
   settled s' (op_ID op) (op_LeaseGeneration op)"
  by (auto simp: finish_cancel_def split: prod.splits option.splits
      intro: worker_fail_settles cancel_settles)

lemma finish_handler_settles:
  "finish_handler w repo random op res tm s = ((worked, None), tm', s') \<Longrightarrow>
   settled s' (op_ID op) (op_LeaseGeneration op)"
  by (auto simp: finish_handler_def split: prod.splits sum.splits
      intro: worker_fail_settles complete_settles)

lemma run_claimed_settles:
  "run_claimed w repo random lease op tm s = ((worked, None), tm', s') \<Longrightarrow>
   settled s' (op_ID op) (op_LeaseGeneration op)"
  by (auto simp: run_claimed_def Let_def split: prod.splits sum.splits option.splits if_splits
      intro: finish_cancel_settles finish_handler_settles fail_settles)

text \<open>A pass that worked and reports no error has settled the generation it claimed.\<close>

lemma Once_settles:
  assumes "wk_Repository w = Some repo" "Once w random tm s = ((True, None), tm', s')"
  shows "\<exists>op s1. repo_ClaimOperation repo (wk_Owner w) (worker_lease w) s = (Inr op, s1) \<and>
    settled s' (op_ID op) (op_LeaseGeneration op)"
  using assms
  by (auto simp: Once_def Let_def split: prod.splits sum.splits option.splits if_splits
      dest!: run_claimed_settles)

end


section \<open>The queue as the worker's repository\<close>

text \<open>The tables with the two clocks; the environment moves both.\<close>

record queue_state =
  qs_db :: op_db
  qs_dbnow :: gotime
  qs_appnow :: gotime

definition set_db :: "queue_state \<Rightarrow> 'a \<times> op_db \<Rightarrow> 'a \<times> queue_state" where
  "set_db s res = (fst res, s\<lparr>qs_db := snd res\<rparr>)"

definition queue_repository ::
  "(string \<Rightarrow> string option) \<Rightarrow> (string \<Rightarrow> bool) \<Rightarrow> queue_state repository" where
  "queue_repository jsonb locked =
     \<lparr>repo_ClaimOperation = (\<lambda>owner lease s.
        set_db s (ClaimOperation locked (qs_dbnow s) (qs_appnow s) (qs_db s) owner lease)),
      repo_StartClaimedOperation = (\<lambda>oid owner g s.
        set_db s (StartClaimedOperation (qs_dbnow s) (qs_appnow s) (qs_db s) oid owner g)),
      repo_HeartbeatOperation = (\<lambda>oid owner g lease s.
        set_db s (HeartbeatOperation (qs_dbnow s) (qs_appnow s) (qs_db s) oid owner g lease)),
      repo_Operation = (\<lambda>oid s. Operation (qs_db s) oid),
      repo_CompleteClaimedOperation = (\<lambda>oid owner g json s.
        set_db s (CompleteClaimedOperation jsonb (qs_dbnow s) (qs_appnow s) (qs_db s) oid owner g json)),
      repo_FailClaimedOperation = (\<lambda>oid owner g code msg retry next_at s.
        set_db s (FailClaimedOperation (qs_dbnow s) (qs_appnow s) (qs_db s) oid owner g code msg retry next_at)),
      repo_CancelClaimedOperation = (\<lambda>oid owner g msg s.
        set_db s (CancelClaimedOperation (qs_dbnow s) (qs_appnow s) (qs_db s) oid owner g msg))\<rparr>"

definition queue_settled :: "queue_state \<Rightarrow> string \<Rightarrow> int \<Rightarrow> bool" where
  "queue_settled s oid g \<longleftrightarrow> (\<exists>r \<in> set (db_operations (qs_db s)).
     r_id r = oid \<and> r_lease_generation r = g \<and> r_lease_owner r = None \<and>
     r_status r \<in> {OpSucceeded, OpFailed, OpCancelled, OpWaiting, OpCancelling})"

lemma exec_update_None:
  assumes "exec_update (claim_guard S t oid owner g) f db = (None, db')"
  shows "\<exists>r. claim_guard S t oid owner g r \<and> f r \<in> set (db_operations db')"
proof -
  have "rows_affected (claim_guard S t oid owner g) (db_operations db) \<noteq> 0"
    using assms by (auto simp: exec_update_def split: if_splits)
  then obtain r where r: "r \<in> set (db_operations db)" "claim_guard S t oid owner g r"
    by (auto simp: rows_affected_0)
  moreover have "db_operations db' = upd_where (claim_guard S t oid owner g) f (db_operations db)"
    using assms by (auto simp: exec_update_def split: if_splits)
  ultimately show ?thesis by (metis (mono_tags, lifting) image_eqI set_upd_where)
qed

lemma settled_by_update:
  assumes "set_db s (exec_update (claim_guard S t oid owner g) f (qs_db s)) = (None, s')"
    and "\<And>r. claim_guard S t oid owner g r \<Longrightarrow> r_id (f r) = r_id r \<and>
      r_lease_generation (f r) = r_lease_generation r \<and> r_lease_owner (f r) = None \<and>
      r_status (f r) \<in> {OpSucceeded, OpFailed, OpCancelled, OpWaiting, OpCancelling}"
  shows "queue_settled s' oid g"
proof -
  obtain db' where db': "exec_update (claim_guard S t oid owner g) f (qs_db s) = (None, db')"
    "qs_db s' = db'"
    using assms(1)
    by (cases "exec_update (claim_guard S t oid owner g) f (qs_db s)") (auto simp: set_db_def)
  then obtain r where "claim_guard S t oid owner g r" "f r \<in> set (db_operations db')"
    using exec_update_None by blast
  then show ?thesis
    unfolding queue_settled_def db'(2) using assms(2)
    by (auto simp: claim_guard_def intro!: bexI [of _ "f r"])
qed

interpretation queue: lease_repository "queue_repository jsonb locked" queue_settled
proof
  fix oid owner json code msg retry next_at s s' and g :: int
  show "queue_settled s' oid g"
    if "repo_CompleteClaimedOperation (queue_repository jsonb locked) oid owner g json s = (None, s')"
    using that unfolding queue_repository_def repository.simps CompleteClaimedOperation_def Let_def
  proof (cases "jsonb (if json = '''' then ''{}'' else json)", goal_cases)
    case 1
    then show ?case by (simp add: set_db_def)
  next
    case (2 result)
    from 2(1) show ?case unfolding 2(2) option.case by (rule settled_by_update) simp
  qed
  show "queue_settled s' oid g"
    if "repo_FailClaimedOperation (queue_repository jsonb locked) oid owner g code msg retry next_at s =
      (None, s')"
    using that unfolding queue_repository_def repository.simps FailClaimedOperation_def Let_def
    by (rule settled_by_update) simp
  show "queue_settled s' oid g"
    if "repo_CancelClaimedOperation (queue_repository jsonb locked) oid owner g msg s = (None, s')"
    using that unfolding queue_repository_def repository.simps CancelClaimedOperation_def
    by (rule settled_by_update) simp
qed


section \<open>Properties of the worker\<close>

text \<open>
  C10. When a worker's pass reports that it worked without error, the very generation it claimed
  has an outcome in the queue (succeeded, failed, cancelled, waiting for retry, or cancelling) and
  holds no lease any more, whatever the handler, the lease maintenance and other parties did.
\<close>

theorem Once_settles_claim:
  assumes "wk_Repository w = Some (queue_repository jsonb locked)"
    "Once w random tm s = ((True, None), tm', s')"
  shows "\<exists>op db1. ClaimOperation locked (qs_dbnow s) (qs_appnow s) (qs_db s) (wk_Owner w) (worker_lease w) =
      (Inr op, db1) \<and>
    (\<exists>r \<in> set (db_operations (qs_db s')). r_id r = op_ID op \<and>
       r_lease_generation r = op_LeaseGeneration op \<and> r_lease_owner r = None \<and>
       r_status r \<in> {OpSucceeded, OpFailed, OpCancelled, OpWaiting, OpCancelling})"
  using queue.Once_settles [OF assms]
  by (auto simp: queue_repository_def set_db_def queue_settled_def prod_eq_iff)

text \<open>
  A worker that was overtaken publishes nothing: if the operation was claimed again while its
  handler ran, then whatever the handler returned, reporting it fails and leaves the queue as it
  is.
\<close>

theorem overtaken_worker_publishes_nothing:
  assumes "db_ok (qs_db s)" "r \<in> set (db_operations (qs_db s))" "r_id r = op_ID op"
    "op_LeaseGeneration op < r_lease_generation r"
  shows "\<exists>e. fst (finish_handler w (queue_repository jsonb locked) random op result tm s) = (True, Some e)
    \<and> snd (snd (finish_handler w (queue_repository jsonb locked) random op result tm s)) = s"
proof -
  have "op_LeaseGeneration op \<noteq> r_lease_generation r" using assms(4) by simp
  note fenced = fenced_update [OF assms(1,2) this, unfolded assms(3)]
  have fail: "worker_fail w (queue_repository jsonb locked) random op err s = (Some ErrNotFound, s)" for err
    by (cases "classify err op")
      (simp add: worker_fail_def Let_def queue_repository_def FailClaimedOperation_def
        fenced set_db_def)
  have complete: "\<exists>e. repo_CompleteClaimedOperation (queue_repository jsonb locked) (op_ID op) (wk_Owner w)
      (op_LeaseGeneration op) json s = (Some e, s)" for json
    by (auto simp: queue_repository_def CompleteClaimedOperation_def Let_def fenced set_db_def
        split: option.splits)
  show ?thesis
  proof (cases result)
    case (Inl err)
    then show ?thesis by (simp add: finish_handler_def fail)
  next
    case (Inr json)
    then show ?thesis using complete [of json] by (auto simp: finish_handler_def)
  qed
qed

lemma classify_exhausted:
  "op_MaxAttempts op \<le> op_Attempt op \<Longrightarrow> classify err op = (''attempts_exhausted'', False)"
  by (auto simp: classify_def Let_def split: prod.splits)

text \<open>
  A worker never parks an operation that has no attempt left: whenever its failure report is
  accepted for an operation it claimed, either the row is failed for good, or an attempt remains
  and the row is claimable again as soon as its retry time has come.
\<close>

theorem worker_fail_keeps_claimable:
  assumes "worker_fail w (queue_repository jsonb locked) random op err s = (None, s')"
    and row: "\<And>r. r \<in> set (db_operations (qs_db s)) \<Longrightarrow> r_id r = op_ID op \<Longrightarrow>
      r_lease_generation r = op_LeaseGeneration op \<Longrightarrow>
      r_attempt r = op_Attempt op \<and> r_max_attempts r = op_MaxAttempts op"
  shows "\<exists>r \<in> set (db_operations (qs_db s')). r_id r = op_ID op \<and> r_error_code r = Some (fst (classify err op)) \<and>
    (r_status r = OpFailed \<or>
     (r_attempt r < r_max_attempts r \<and>
      (\<forall>t. null_le (r_next_attempt_at r) t \<longrightarrow> \<not> r_cancel_requested r \<or> r_status r = OpCancelling \<longrightarrow>
        claimable t r)))"
proof -
  let ?retry = "snd (classify err op)" and ?code = "fst (classify err op)"
  let ?at = "wk_Now w s + backoff w random (op_Attempt op)"
  obtain db' where f: "FailClaimedOperation (qs_dbnow s) (qs_appnow s) (qs_db s) (op_ID op) (wk_Owner w)
      (op_LeaseGeneration op) ?code (error_text err) ?retry ?at = (None, db')" and s': "qs_db s' = db'"
    using assms(1)
    by (auto simp: worker_fail_def Let_def queue_repository_def set_db_def prod_eq_iff split: prod.splits)
  note ex = f [unfolded FailClaimedOperation_def Let_def]
  have "\<exists>r \<in> set (db_operations (qs_db s)). claim_guard {OpRunning, OpCancelling} (qs_dbnow s)
      (op_ID op) (wk_Owner w) (op_LeaseGeneration op) r"
    using ex by (auto simp: exec_update_def rows_affected_0 split: if_splits)
  then obtain r where r: "r \<in> set (db_operations (qs_db s))" "claim_guard {OpRunning, OpCancelling}
      (qs_dbnow s) (op_ID op) (wk_Owner w) (op_LeaseGeneration op) r" by blast
  have same: "r_attempt r = op_Attempt op" "r_max_attempts r = op_MaxAttempts op"
    using row r by (auto simp: claim_guard_def)
  have mem: "\<And>f P. exec_update P f (qs_db s) = (None, db') \<Longrightarrow> P r \<Longrightarrow> f r \<in> set (db_operations db')"
    using r(1) by (auto simp: exec_update_def set_upd_where split: if_splits)
  have left: "r_attempt r < r_max_attempts r" if ?retry
    using that same classify_exhausted [of op err] by (cases "op_MaxAttempts op \<le> op_Attempt op") auto
  show ?thesis
    unfolding s' using mem [OF ex r(2)]
    by (rule bexI [rotated])
      (use r(2) left in \<open>auto simp: claim_guard_def claimable_def null_lt_def split: if_splits\<close>)
qed


lemma backoff_loop_min:
  assumes "0 < delay" "delay \<le> 2 ^ 60" "0 < limit" "limit \<le> 2 ^ 60"
  shows "min limit (backoff_loop n limit delay) = min limit (delay * 2 ^ n)"
  using assms(1,2)
proof (induction n arbitrary: delay)
  case (Suc n)
  have grow: "limit \<le> d * 2 ^ k" if "limit \<le> d" for d :: int and k
  proof -
    have "d * 1 \<le> d * 2 ^ k" using that assms(3) by (intro mult_left_mono) simp_all
    with that show ?thesis by simp
  qed
  show ?case
  proof (cases "delay < limit")
    case False
    then show ?thesis using grow [of delay "Suc n"] by simp
  next
    case True
    have e: "i64 (delay * 2) = delay * 2"
      using Suc.prems by (intro i64_id) (simp add: is_i64_def min_i64_def max_i64_def)
    show ?thesis
    proof (cases "delay * 2 \<le> 2 ^ 60")
      case small: True
      then show ?thesis using True e Suc.IH [of "delay * 2"] Suc.prems by (simp add: mult.assoc)
    next
      case False
      then have big: "limit \<le> delay * 2" using assms(4) by simp
      then have "backoff_loop n limit (delay * 2) = delay * 2" by (cases n) simp_all
      then show ?thesis using True e big grow [of "delay * 2" n] by (simp add: mult.assoc)
    qed
  qed
qed simp

lemma randomJitter_bounds:
  assumes "0 \<le> d" "d \<le> 2 ^ 52" "0 \<le> n" "n \<le> 500"
  shows "d * 750 div 1000 \<le> randomJitter (Some n) d" "randomJitter (Some n) d \<le> d * 1250 div 1000"
proof -
  have n: "i64 (750 + n) = 750 + n"
    using assms by (intro i64_id) (simp add: is_i64_def min_i64_def max_i64_def)
  have le: "d * 750 \<le> d * (750 + n)" "d * (750 + n) \<le> d * 1250"
    using assms by (auto intro: mult_left_mono)
  then have "i64 (d * (750 + n)) = d * (750 + n)"
    using assms by (intro i64_id) (simp add: is_i64_def min_i64_def max_i64_def)
  then have "randomJitter (Some n) d = d * (750 + n) div 1000"
    using le assms by (simp add: randomJitter_def n quot_nonneg)
  with le show "d * 750 div 1000 \<le> randomJitter (Some n) d" "randomJitter (Some n) d \<le> d * 1250 div 1000"
    by (simp_all add: zdiv_mono1)
qed

text \<open>
  The retry delay is bounded exponential backoff: with the built-in jitter the delay after
  attempt \<open>a\<close> is within a quarter of \<open>min limit (base * 2 ^ (a - 1))\<close>, never negative, and the
  doubling never wraps, for every base and limit up to 52 days.
\<close>

theorem backoff_bounds:
  fixes w :: "'s worker"
  defines "base \<equiv> if wk_BaseBackoff w \<le> 0 then 1000000000 else wk_BaseBackoff w"
    and "limit \<equiv> if wk_MaxBackoff w \<le> 0 then 60000000000 else wk_MaxBackoff w"
  assumes "wk_Jitter w = None" "base \<le> 2 ^ 52" "limit \<le> 2 ^ 52" "0 \<le> n" "n \<le> 500"
  shows "min limit (base * 2 ^ nat (attempt - 1)) * 750 div 1000 \<le> backoff w (Some n) attempt \<and>
    backoff w (Some n) attempt \<le> min limit (base * 2 ^ nat (attempt - 1)) * 1250 div 1000 \<and>
    0 \<le> backoff w (Some n) attempt"
proof -
  let ?d = "min limit (base * 2 ^ nat (attempt - 1))"
  have pos: "0 < base" "0 < limit" by (simp_all add: base_def limit_def)
  then have d: "0 \<le> ?d" "?d \<le> 2 ^ 52" using assms(5) by auto
  have "(if limit < backoff_loop k limit base then limit else backoff_loop k limit base) =
      min limit (backoff_loop k limit base)" for k by (simp add: min_def)
  moreover have "min limit (backoff_loop k limit base) = min limit (base * 2 ^ k)" for k
    using pos assms(4,5) by (intro backoff_loop_min) simp_all
  ultimately have eq: "backoff w (Some n) attempt = randomJitter (Some n) ?d"
    unfolding backoff_def Let_def base_def [symmetric] limit_def [symmetric]
    using assms(3) by simp
  have "0 \<le> ?d * 750 div 1000" using d(1) by (simp add: pos_imp_zdiv_nonneg_iff)
  with randomJitter_bounds [OF d assms(6,7)] show ?thesis unfolding eq by linarith
qed


section \<open>A concrete worker\<close>

definition example_worker :: "queue_state worker" where
  "example_worker =
     \<lparr>wk_Repository = Some (queue_repository Some (\<lambda>_. False)),
      wk_Handlers = (\<lambda>kind. if kind = ''deploy'' then Some (\<lambda>op. \<lparr>hr_ticks = [\<lambda>s. s], hr_tail = (\<lambda>s. s),
        hr_result = (\<lambda>cancelled. Inl (Retryable ''capacity'' None))\<rparr>) else None),
      wk_Owner = ''worker-a'', wk_Lease = 0, wk_BaseBackoff = 0, wk_MaxBackoff = 0,
      wk_Now = qs_appnow, wk_Telemetry = True, wk_Jitter = None\<rparr>"

definition zero_telemetry :: telemetry where
  "zero_telemetry =
     \<lparr>tm_claimed = 0, tm_completed = 0, tm_failed = 0, tm_retried = 0, tm_cancelled = 0\<rparr>"

definition example_state :: queue_state where
  "example_state = \<lparr>qs_db = snd example_enqueue, qs_dbnow = 200, qs_appnow = 200\<rparr>"

lemmas example_worker_defs = example_worker_def example_state_def zero_telemetry_def Once_def
  run_claimed_def worker_lease_def queue_repository_def set_db_def telemetry_add_def
  finish_handler_def worker_fail_def classify_def Retryable_def StartClaimedOperation_def
  HeartbeatOperation_def FailClaimedOperation_def exec_update_def claim_guard_def
  rows_affected_def null_gt_def error_text_def Failure_Error_def nullIf_def

lemma example_once:
  "\<exists>tm' s'. Once example_worker None zero_telemetry example_state = ((True, None), tm', s') \<and>
     tm_retried tm' = 1"
  by (simp add: example_worker_defs example_queue_defs u64_def)

theorem Once_settles_claim_witness:
  "\<exists>tm' s'. Once example_worker None zero_telemetry example_state = ((True, None), tm', s') \<and>
     (\<exists>r \<in> set (db_operations (qs_db s')). r_lease_owner r = None)"
proof -
  obtain tm' s' where run: "Once example_worker None zero_telemetry example_state = ((True, None), tm', s')"
    using example_once by blast
  have "wk_Repository example_worker = Some (queue_repository Some (\<lambda>_. False))"
    by (simp add: example_worker_def)
  from Once_settles_claim [OF this run] run show ?thesis by blast
qed

theorem overtaken_worker_publishes_nothing_witness:
  "\<exists>op e s. op_LeaseGeneration op = 1 \<and>
     fst (finish_handler example_worker (queue_repository Some (\<lambda>_. False)) None op (Inr ''{}'')
       zero_telemetry s) = (True, Some e)"
proof -
  define s where "s = \<lparr>qs_db = snd example_claim2, qs_dbnow = 40000000000, qs_appnow = 40000000000\<rparr>"
  obtain op where op: "fst example_claim1 = Inr op" "op_LeaseGeneration op = 1" "op_ID op = ''op1''"
    by (simp add: example_queue_defs)
  obtain r where r: "r \<in> set (db_operations (qs_db s))" "r_id r = ''op1''" "r_lease_generation r = 2"
    using example_queue_row(2) by (auto simp: s_def)
  have ok: "db_ok (qs_db s)"
    using queue_steps_ok [OF example_queue_steps(2) example_claim1_ok] by (simp add: s_def)
  have "r_id r = op_ID op" "op_LeaseGeneration op < r_lease_generation r" using r op by simp_all
  from overtaken_worker_publishes_nothing [OF ok r(1) this] op(2) show ?thesis by blast
qed

definition example_running :: queue_state where
  "example_running =
     (let s1 = snd (repo_ClaimOperation (queue_repository Some (\<lambda>_. False)) ''worker-a'' 30000000000
        example_state)
      in snd (repo_StartClaimedOperation (queue_repository Some (\<lambda>_. False)) ''op1'' ''worker-a'' 1 s1))"

theorem worker_fail_keeps_claimable_witness:
  "\<exists>op s'. worker_fail example_worker (queue_repository Some (\<lambda>_. False)) None op
       (Retryable ''capacity'' None) example_running = (None, s') \<and>
     (\<exists>r \<in> set (db_operations (qs_db s')). r_error_code r = Some ''capacity'')"
proof -
  obtain op where op: "fst example_claim1 = Inr op" "op_LeaseGeneration op = 1" "op_ID op = ''op1''"
    "op_Attempt op = 1" "op_MaxAttempts op = 2"
    by (simp add: example_queue_defs)
  have row: "\<forall>r \<in> set (db_operations (qs_db example_running)). r_attempt r = 1 \<and> r_max_attempts r = 2"
    by (simp add: example_running_def example_worker_defs example_queue_defs)
  obtain s' where fail: "worker_fail example_worker (queue_repository Some (\<lambda>_. False)) None op
      (Retryable ''capacity'' None) example_running = (None, s')"
    using op by (simp add: example_running_def example_worker_defs example_queue_defs)
  have "classify (Retryable ''capacity'' None) op = (''capacity'', True)"
    using op by (simp add: classify_def Retryable_def)
  then show ?thesis
    using worker_fail_keeps_claimable [OF fail] row op fail by fastforce
qed

theorem backoff_bounds_witness:
  "min 60000000000 (1000000000 * 2 ^ 2) * 750 div 1000 \<le> backoff example_worker (Some 500) 3 \<and>
   backoff example_worker (Some 500) 3 \<le> (5000000000 :: int)"
  using backoff_bounds [of example_worker 500 3] by (simp add: example_worker_def)

end
