(* ===== verification/Float64.thy ===== *)
theory Float64
  imports Prelude
begin

text \<open>
  Go's \<open>float64\<close>: IEEE 754 binary64 with round-to-nearest-even. A finite value is held as the
  rational it denotes; every arithmetic operation computes the exact rational result and rounds
  it (\<open>rnd64\<close>), overflowing to an infinity. The two zeros are one value here: no modelled
  expression divides by a zero whose sign could be observed.

  The interface \<open>rounding\<close> states what the components rely on (rounding is monotone and leaves
  representable numbers alone); it is interpreted on \<open>rnd64\<close>, so the bounds proved for the
  billing, autoscaling and admission arithmetic hold for the rounding the hardware performs.
\<close>


section \<open>Rounding to the nearest double\<close>

definition round_half_even :: "rat \<Rightarrow> int" where
  "round_half_even x =
     (let n = \<lfloor>x\<rfloor>; d = x - of_int n
      in if d < 1 / 2 then n else if 1 / 2 < d then n + 1 else if even n then n else n + 1)"

text \<open>The binary exponent of a positive rational, from the bit lengths of its fraction.\<close>

definition ilog2 :: "rat \<Rightarrow> int" where
  "ilog2 x =
     (let (p, q) = quotient_of x; e = bitlen p - bitlen q
      in if 2 powi e \<le> x then e else e - 1)"

definition ulp_exp :: "rat \<Rightarrow> int" where
  "ulp_exp x = max (- 1074) (ilog2 \<bar>x\<bar> - 52)"

definition rnd64 :: "rat \<Rightarrow> rat" where
  "rnd64 x =
     (if x = 0 then 0
      else of_int (round_half_even (x / 2 powi ulp_exp x)) * 2 powi ulp_exp x)"

definition is_rep64 :: "rat \<Rightarrow> bool" where
  "is_rep64 x \<longleftrightarrow> (\<exists>m e. x = of_int m * 2 powi e \<and> \<bar>m\<bar> < 2 ^ 53 \<and> - 1074 \<le> e)"


section \<open>Values and operations\<close>

datatype f64 = FNaN | FInf bool | FNum rat

definition f64_of_rat :: "rat \<Rightarrow> f64" where
  "f64_of_rat x =
     (let y = rnd64 x in if 2 ^ 1024 \<le> \<bar>y\<bar> then FInf (y < 0) else FNum y)"

definition f_of_int :: "int \<Rightarrow> f64" where
  "f_of_int n = f64_of_rat (of_int n)"

fun f_neg :: "f64 \<Rightarrow> f64" where
  "f_neg FNaN = FNaN"
| "f_neg (FInf s) = FInf (\<not> s)"
| "f_neg (FNum x) = FNum (- x)"

fun f_add :: "f64 \<Rightarrow> f64 \<Rightarrow> f64" where
  "f_add (FNum x) (FNum y) = f64_of_rat (x + y)"
| "f_add (FInf s) (FInf t) = (if s = t then FInf s else FNaN)"
| "f_add (FInf s) (FNum y) = FInf s"
| "f_add (FNum x) (FInf t) = FInf t"
| "f_add _ _ = FNaN"

definition f_sub :: "f64 \<Rightarrow> f64 \<Rightarrow> f64" where
  "f_sub a b = f_add a (f_neg b)"

fun f_mul :: "f64 \<Rightarrow> f64 \<Rightarrow> f64" where
  "f_mul (FNum x) (FNum y) = f64_of_rat (x * y)"
| "f_mul (FInf s) (FInf t) = FInf (s \<noteq> t)"
| "f_mul (FInf s) (FNum y) = (if y = 0 then FNaN else FInf (s \<noteq> (y < 0)))"
| "f_mul (FNum x) (FInf t) = (if x = 0 then FNaN else FInf (t \<noteq> (x < 0)))"
| "f_mul _ _ = FNaN"

fun f_div :: "f64 \<Rightarrow> f64 \<Rightarrow> f64" where
  "f_div (FNum x) (FNum y) =
     (if y = 0 then (if x = 0 then FNaN else FInf (x < 0)) else f64_of_rat (x / y))"
| "f_div (FInf s) (FNum y) = FInf (s \<noteq> (y < 0))"
| "f_div (FNum x) (FInf t) = FNum 0"
| "f_div _ _ = FNaN"

fun f_lt :: "f64 \<Rightarrow> f64 \<Rightarrow> bool" where
  "f_lt (FNum x) (FNum y) = (x < y)"
| "f_lt (FInf s) (FInf t) = (s \<and> \<not> t)"
| "f_lt (FInf s) (FNum y) = s"
| "f_lt (FNum x) (FInf t) = (\<not> t)"
| "f_lt _ _ = False"

fun f_eq :: "f64 \<Rightarrow> f64 \<Rightarrow> bool" where
  "f_eq (FNum x) (FNum y) = (x = y)"
| "f_eq (FInf s) (FInf t) = (s = t)"
| "f_eq _ _ = False"

definition f_le :: "f64 \<Rightarrow> f64 \<Rightarrow> bool" where
  "f_le a b \<longleftrightarrow> f_lt a b \<or> f_eq a b"

abbreviation f_gt :: "f64 \<Rightarrow> f64 \<Rightarrow> bool" where "f_gt a b \<equiv> f_lt b a"

abbreviation f_ge :: "f64 \<Rightarrow> f64 \<Rightarrow> bool" where "f_ge a b \<equiv> f_le b a"

abbreviation f_zero :: f64 where "f_zero \<equiv> FNum 0"

definition is_nan :: "f64 \<Rightarrow> bool" where "is_nan x \<longleftrightarrow> x = FNaN"

definition is_inf :: "f64 \<Rightarrow> bool" where
  "is_inf x = (case x of FInf _ \<Rightarrow> True | _ \<Rightarrow> False)"

definition is_finite :: "f64 \<Rightarrow> bool" where
  "is_finite x = (case x of FNum _ \<Rightarrow> True | _ \<Rightarrow> False)"

fun f_floor :: "f64 \<Rightarrow> f64" where
  "f_floor (FNum x) = FNum (of_int \<lfloor>x\<rfloor>)"
| "f_floor x = x"

fun f_ceil :: "f64 \<Rightarrow> f64" where
  "f_ceil (FNum x) = FNum (of_int \<lceil>x\<rceil>)"
| "f_ceil x = x"

text \<open>
  \<open>int(x)\<close> truncates. When the value does not fit (or is not a number) the Go specification
  leaves the result to the implementation; that behaviour is the parameter \<open>oob\<close>.
\<close>

definition trunc_rat :: "rat \<Rightarrow> int" where
  "trunc_rat x = (if 0 \<le> x then \<lfloor>x\<rfloor> else \<lceil>x\<rceil>)"

definition f_to_int :: "(f64 \<Rightarrow> int) \<Rightarrow> f64 \<Rightarrow> int" where
  "f_to_int oob x =
     (case x of FNum y \<Rightarrow> (let n = trunc_rat y in if is_i64 n then n else oob x) | _ \<Rightarrow> oob x)"

text \<open>\<open>Duration.Seconds\<close>: whole seconds plus the remaining nanoseconds over \<open>1e9\<close>.\<close>

definition duration_seconds :: "duration \<Rightarrow> f64" where
  "duration_seconds d =
     f_add (f_of_int (quot d Second)) (f_div (f_of_int (gorem d Second)) (FNum 1000000000))"

text \<open>\<open>fmt\<close>'s \<open>%.nf\<close> prints the exact value rounded half to even.\<close>

definition pad_zeros :: "nat \<Rightarrow> string \<Rightarrow> string" where
  "pad_zeros n s = replicate (n - length s) (CHR ''0'') @ s"

definition fmt_fixed :: "nat \<Rightarrow> f64 \<Rightarrow> string" where
  "fmt_fixed prec x =
     (case x of
        FNaN \<Rightarrow> ''NaN''
      | FInf s \<Rightarrow> (if s then ''-Inf'' else ''+Inf'')
      | FNum y \<Rightarrow>
          (let n = nat (round_half_even (\<bar>y\<bar> * 10 ^ prec))
           in (if y < 0 then ''-'' else []) @ nat_digits (n div 10 ^ prec) @
              (if prec = 0 then [] else ''.'' @ pad_zeros prec (nat_digits (n mod 10 ^ prec)))))"


section \<open>Rounding to an integer\<close>

lemma rhe_cases: "round_half_even x = \<lfloor>x\<rfloor> \<or> round_half_even x = \<lfloor>x\<rfloor> + 1"
  by (auto simp: round_half_even_def Let_def)

lemma rhe_int [simp]: "round_half_even (of_int n) = n"
  by (simp add: round_half_even_def)

lemma rhe_mono: "x \<le> y \<Longrightarrow> round_half_even x \<le> round_half_even y"
proof -
  assume xy: "x \<le> y"
  then have fl: "\<lfloor>x\<rfloor> \<le> \<lfloor>y\<rfloor>" by (rule floor_mono)
  show ?thesis
  proof (cases "\<lfloor>x\<rfloor> = \<lfloor>y\<rfloor>")
    case True
    with xy show ?thesis by (auto simp: round_half_even_def Let_def)
  next
    case False
    with fl have "\<lfloor>x\<rfloor> + 1 \<le> \<lfloor>y\<rfloor>" by simp
    then show ?thesis using rhe_cases [of x] rhe_cases [of y] by auto
  qed
qed

lemma rhe_ge: "of_int n \<le> x \<Longrightarrow> n \<le> round_half_even x"
  using rhe_mono [of "of_int n" x] by simp

lemma rhe_le: "x \<le> of_int n \<Longrightarrow> round_half_even x \<le> n"
  using rhe_mono [of x "of_int n"] by simp

lemma rhe_minus: "round_half_even (- x) = - round_half_even x"
proof (cases "x = of_int \<lfloor>x\<rfloor>")
  case True
  have "round_half_even (- x) = round_half_even (of_int (- \<lfloor>x\<rfloor>))" using True by simp
  also have "\<dots> = - round_half_even (of_int \<lfloor>x\<rfloor>)" by (simp only: rhe_int)
  finally show ?thesis using True by simp
next
  case False
  have fl: "\<lfloor>- x\<rfloor> = - \<lfloor>x\<rfloor> - 1"
    using False by (simp add: floor_minus ceiling_altdef)
  have parity: "even (- \<lfloor>x\<rfloor> - 1) \<longleftrightarrow> odd \<lfloor>x\<rfloor>" by presburger
  show ?thesis
    unfolding round_half_even_def Let_def fl using parity by auto
qed


section \<open>The exponent\<close>

lemma powi_two_pos [simp]: "0 < (2::rat) powi k"
  by (simp add: zero_less_power_int)

lemma powi_two_mono: "j \<le> k \<Longrightarrow> (2::rat) powi j \<le> 2 powi k"
  by (simp add: power_int_increasing)

lemma powi_two_less_iff: "(2::rat) powi j < 2 powi k \<longleftrightarrow> j < k"
  by (metis leD leI le_less power_int_strict_increasing one_less_numeral_iff powi_two_mono
      semiring_norm(76))

lemma powi_two_split: "(2::rat) powi (j + k) = 2 powi j * 2 powi k"
  by (simp add: power_int_add)

lemma bitlen_powi:
  assumes "0 < (p::int)"
  shows "2 powi (bitlen p - 1) \<le> (of_int p :: rat)" "of_int p < (2::rat) powi bitlen p"
proof -
  have b: "2 ^ nat (bitlen p - 1) \<le> p \<and> p < 2 ^ nat (bitlen p)"
    using assms by (rule bitlen_bounds)
  have "1 \<le> bitlen p" using assms by (simp add: bitlen_def floorlog_def)
  then have e: "(2::rat) powi (bitlen p - 1) = of_int (2 ^ nat (bitlen p - 1))"
    "(2::rat) powi bitlen p = of_int (2 ^ nat (bitlen p))"
    by (simp_all add: power_int_def)
  show "2 powi (bitlen p - 1) \<le> (of_int p :: rat)" "of_int p < (2::rat) powi bitlen p"
    unfolding e of_int_le_iff of_int_less_iff using b by simp_all
qed

lemma ilog2_bounds:
  assumes "0 < x"
  shows "2 powi ilog2 x \<le> x" "x < 2 powi (ilog2 x + 1)"
proof -
  obtain p q where pq: "quotient_of x = (p, q)" by fastforce
  then have q: "0 < q" and x: "x = of_int p / of_int q"
    by (auto simp: quotient_of_denom_pos quotient_of_div)
  then have p: "0 < p" using assms by (simp add: zero_less_divide_iff)
  define e where "e = bitlen p - bitlen q"
  have q0: "0 < (of_int q :: rat)" using q by simp
  have "(2::rat) powi (e + 1) * of_int q \<ge> 2 powi (e + 1) * 2 powi (bitlen q - 1)"
    using bitlen_powi(1) [OF q] by (simp add: mult_left_mono less_imp_le)
  also have "2 powi (e + 1) * (2::rat) powi (bitlen q - 1) = 2 powi bitlen p"
    by (simp add: e_def power_int_add [symmetric])
  finally have "of_int p < (2::rat) powi (e + 1) * of_int q"
    using bitlen_powi(2) [OF p] by linarith
  then have up: "x < 2 powi (e + 1)"
    using q0 by (simp add: x divide_less_eq)
  have "(2::rat) powi (e - 1) * of_int q \<le> 2 powi (e - 1) * 2 powi bitlen q"
    using bitlen_powi(2) [OF q] by (simp add: mult_left_mono less_imp_le)
  also have "2 powi (e - 1) * (2::rat) powi bitlen q = 2 powi (bitlen p - 1)"
    by (simp add: e_def power_int_add [symmetric])
  finally have "(2::rat) powi (e - 1) * of_int q \<le> of_int p"
    using bitlen_powi(1) [OF p] by linarith
  then have low: "2 powi (e - 1) \<le> x"
    using q0 by (simp add: x le_divide_eq)
  show "2 powi ilog2 x \<le> x" "x < 2 powi (ilog2 x + 1)"
    using up low by (simp_all add: ilog2_def pq e_def [symmetric])
qed

lemma ilog2_mono:
  assumes "0 < x" "x \<le> y"
  shows "ilog2 x \<le> ilog2 y"
proof -
  have "2 powi ilog2 x < (2::rat) powi (ilog2 y + 1)"
    using ilog2_bounds(1) [of x] ilog2_bounds(2) [of y] assms by linarith
  then show ?thesis by (simp add: powi_two_less_iff)
qed


section \<open>Rounding is monotone and exact on representable numbers\<close>

lemma ulp_exp_minus [simp]: "ulp_exp (- x) = ulp_exp x"
  by (simp add: ulp_exp_def)

lemma rnd64_zero [simp]: "rnd64 0 = 0"
  by (simp add: rnd64_def)

lemma rnd64_minus: "rnd64 (- x) = - rnd64 x"
  by (simp add: rnd64_def rhe_minus)

lemma grid_int:
  assumes "ulp_exp x \<le> e"
  shows "of_int m * 2 powi e / (2::rat) powi ulp_exp x = of_int (m * 2 ^ nat (e - ulp_exp x))"
proof -
  have "(2::rat) powi e = 2 powi (e - ulp_exp x) * 2 powi ulp_exp x"
    by (simp add: power_int_add [symmetric])
  moreover have "(2::rat) powi (e - ulp_exp x) = of_int (2 ^ nat (e - ulp_exp x))"
    using assms by (simp add: power_int_def)
  ultimately show ?thesis by simp
qed

lemma grid_back:
  assumes "ulp_exp x \<le> e"
  shows "of_int (m * 2 ^ nat (e - ulp_exp x)) * (2::rat) powi ulp_exp x = of_int m * 2 powi e"
  unfolding grid_int [OF assms, symmetric] by simp

lemma rnd64_ge_grid:
  assumes "0 < x" "ulp_exp x \<le> e" "of_int m * 2 powi e \<le> x"
  shows "of_int m * 2 powi e \<le> rnd64 x"
proof -
  have "of_int m * 2 powi e / 2 powi ulp_exp x \<le> x / 2 powi ulp_exp x"
    using assms(3) by (simp add: divide_right_mono less_imp_le)
  then have "m * 2 ^ nat (e - ulp_exp x) \<le> round_half_even (x / 2 powi ulp_exp x)"
    unfolding grid_int [OF assms(2)] by (rule rhe_ge)
  then have "of_int (m * 2 ^ nat (e - ulp_exp x)) * (2::rat) powi ulp_exp x \<le>
      of_int (round_half_even (x / 2 powi ulp_exp x)) * 2 powi ulp_exp x"
    by (intro mult_right_mono) (simp_all only: of_int_le_iff less_imp_le powi_two_pos)
  then show ?thesis
    unfolding grid_back [OF assms(2)] using assms(1) by (simp add: rnd64_def)
qed

lemma rnd64_le_grid:
  assumes "0 < x" "ulp_exp x \<le> e" "x \<le> of_int m * 2 powi e"
  shows "rnd64 x \<le> of_int m * 2 powi e"
proof -
  have "x / 2 powi ulp_exp x \<le> of_int m * 2 powi e / 2 powi ulp_exp x"
    using assms(3) by (simp add: divide_right_mono less_imp_le)
  then have "round_half_even (x / 2 powi ulp_exp x) \<le> m * 2 ^ nat (e - ulp_exp x)"
    unfolding grid_int [OF assms(2)] by (rule rhe_le)
  then have "of_int (round_half_even (x / 2 powi ulp_exp x)) * (2::rat) powi ulp_exp x \<le>
      of_int (m * 2 ^ nat (e - ulp_exp x)) * 2 powi ulp_exp x"
    by (intro mult_right_mono) (simp_all only: of_int_le_iff less_imp_le powi_two_pos)
  then show ?thesis
    unfolding grid_back [OF assms(2)] using assms(1) by (simp add: rnd64_def)
qed

lemma rnd64_nonneg: "0 \<le> x \<Longrightarrow> 0 \<le> rnd64 x"
  using rnd64_ge_grid [of x "ulp_exp x" 0] by (cases "x = 0") auto

lemma rnd64_mono_pos:
  assumes "0 < x" "x \<le> y"
  shows "rnd64 x \<le> rnd64 y"
proof (cases "ulp_exp x = ulp_exp y")
  case True
  have "x / 2 powi ulp_exp y \<le> y / 2 powi ulp_exp y"
    using assms by (simp add: divide_right_mono less_imp_le)
  then have "(of_int (round_half_even (x / 2 powi ulp_exp y)) :: rat) \<le>
      of_int (round_half_even (y / 2 powi ulp_exp y))"
    using rhe_mono by (simp only: of_int_le_iff)
  then show ?thesis
    using assms True by (simp add: rnd64_def mult_right_mono less_imp_le)
next
  case False
  have log: "ilog2 x \<le> ilog2 y" using assms by (rule ilog2_mono)
  with False assms have ye: "ulp_exp y = ilog2 y - 52" and xe: "ulp_exp x < ulp_exp y"
    and lt: "ilog2 x < ilog2 y"
    by (auto simp: ulp_exp_def split: if_splits)
  have "2 powi (ilog2 x + 1) \<le> (2::rat) powi ilog2 y" using lt by (intro powi_two_mono) simp
  then have "x \<le> 2 powi ilog2 y" using ilog2_bounds(2) [OF assms(1)] by linarith
  then have "rnd64 x \<le> of_int 1 * 2 powi ilog2 y"
    using assms(1) xe ye by (intro rnd64_le_grid) auto
  moreover have "of_int 1 * 2 powi ilog2 y \<le> rnd64 y"
    using assms ye ilog2_bounds(1) [of y] by (intro rnd64_ge_grid) auto
  ultimately show ?thesis by simp
qed

lemma rnd64_mono: "x \<le> y \<Longrightarrow> rnd64 x \<le> rnd64 y"
proof -
  assume xy: "x \<le> y"
  consider "0 < x" | "x \<le> 0" "0 \<le> y" | "y < 0" by linarith
  then show ?thesis
  proof cases
    case 1
    then show ?thesis using xy by (rule rnd64_mono_pos)
  next
    case 2
    then show ?thesis
      using rnd64_nonneg [of y] rnd64_nonneg [of "- x"] by (simp add: rnd64_minus)
  next
    case 3
    then have "rnd64 (- y) \<le> rnd64 (- x)" using xy by (intro rnd64_mono_pos) auto
    then show ?thesis by (simp add: rnd64_minus)
  qed
qed

lemma rnd64_exact_pos:
  assumes x: "x = of_int m * 2 powi e" and m: "0 < m" "m < 2 ^ 53" and e: "- 1074 \<le> e"
  shows "rnd64 x = x"
proof -
  have m1: "(1::rat) \<le> of_int m" using m(1) by (simp only: of_int_1_le_iff)
  have x0: "0 < x" unfolding x using m(1) by (intro mult_pos_pos) simp_all
  have "(of_int m :: rat) < of_int (2 ^ 53)" using m(2) by (simp only: of_int_less_iff)
  then have "x < 2 powi 53 * 2 powi e"
    unfolding x by (intro mult_strict_right_mono) (simp_all add: power_int_def)
  then have "2 powi ilog2 x < (2::rat) powi (53 + e)"
    using ilog2_bounds(1) [OF x0] by (simp add: power_int_add)
  then have "ilog2 x < 53 + e" by (simp only: powi_two_less_iff)
  then have g: "ulp_exp x \<le> e" using e x0 by (simp add: ulp_exp_def)
  show ?thesis
    using rnd64_ge_grid [OF x0 g, of m] rnd64_le_grid [OF x0 g, of m] x by (intro antisym) auto
qed

lemma rnd64_exact:
  assumes "is_rep64 x"
  shows "rnd64 x = x"
proof -
  obtain m e where x: "x = of_int m * 2 powi e" and m: "\<bar>m\<bar> < 2 ^ 53" and e: "- 1074 \<le> e"
    using assms unfolding is_rep64_def by blast
  consider "m = 0" | "0 < m" | "m < 0" by linarith
  then show ?thesis
  proof cases
    case 1
    then show ?thesis using x by simp
  next
    case 2
    then show ?thesis using x m e by (intro rnd64_exact_pos) auto
  next
    case 3
    then have "rnd64 (- x) = - x" using x m e by (intro rnd64_exact_pos [of _ "- m" e]) auto
    then show ?thesis by (simp add: rnd64_minus)
  qed
qed

lemma is_rep64_dyadic: "\<bar>m\<bar> < 2 ^ 53 \<Longrightarrow> - 1074 \<le> e \<Longrightarrow> is_rep64 (of_int m * 2 powi e)"
  unfolding is_rep64_def by blast

lemma is_rep64_int: "\<bar>n\<bar> < 2 ^ 53 \<Longrightarrow> is_rep64 (of_int n)"
  using is_rep64_dyadic [of n 0] by simp


section \<open>What the components rely on\<close>

locale rounding =
  fixes rnd :: "rat \<Rightarrow> rat" and rep :: "rat \<Rightarrow> bool"
  assumes rnd_mono: "x \<le> y \<Longrightarrow> rnd x \<le> rnd y"
    and rnd_exact: "rep x \<Longrightarrow> rnd x = x"
    and rep_int: "\<bar>n\<bar> < 2 ^ 53 \<Longrightarrow> rep (of_int n)"
begin

lemma rnd_lower: "rep a \<Longrightarrow> a \<le> x \<Longrightarrow> a \<le> rnd x"
  using rnd_mono [of a x] by (simp add: rnd_exact)

lemma rnd_upper: "rep a \<Longrightarrow> x \<le> a \<Longrightarrow> rnd x \<le> a"
  using rnd_mono [of x a] by (simp add: rnd_exact)

lemma rnd_int: "\<bar>n\<bar> < 2 ^ 53 \<Longrightarrow> rnd (of_int n) = of_int n"
  by (simp add: rnd_exact rep_int)

lemma rnd_int_lower: "\<bar>n\<bar> < 2 ^ 53 \<Longrightarrow> of_int n \<le> x \<Longrightarrow> of_int n \<le> rnd x"
  by (rule rnd_lower) (simp_all add: rep_int)

lemma rnd_int_upper: "\<bar>n\<bar> < 2 ^ 53 \<Longrightarrow> x \<le> of_int n \<Longrightarrow> rnd x \<le> of_int n"
  by (rule rnd_upper) (simp_all add: rep_int)

text \<open>Rounding up afterwards never exceeds the integer the exact value is below.\<close>

lemma ceiling_rnd_le: "\<bar>n\<bar> < 2 ^ 53 \<Longrightarrow> x \<le> of_int n \<Longrightarrow> \<lceil>rnd x\<rceil> \<le> n"
  using rnd_int_upper by (simp add: ceiling_le_iff)

lemma floor_rnd_ge: "\<bar>n\<bar> < 2 ^ 53 \<Longrightarrow> of_int n \<le> x \<Longrightarrow> n \<le> \<lfloor>rnd x\<rfloor>"
  using rnd_int_lower by (simp add: le_floor_iff)

text \<open>
  A value that is far enough above an integer (by a representable amount) keeps its ceiling.
\<close>

lemma ceiling_rnd_eq:
  assumes "\<bar>n\<bar> < 2 ^ 53" "rep a" "of_int (n - 1) < a" "a \<le> x" "x \<le> of_int n"
  shows "\<lceil>rnd x\<rceil> = n"
proof -
  have "a \<le> rnd x" using assms(2,4) by (rule rnd_lower)
  then have "of_int (n - 1) < rnd x" using assms(3) by linarith
  moreover have "rnd x \<le> of_int n" using assms(1,5) by (rule rnd_int_upper)
  ultimately show ?thesis by (simp add: ceiling_unique)
qed

end

interpretation ieee: rounding rnd64 is_rep64
  by unfold_locales (simp_all add: rnd64_mono rnd64_exact is_rep64_int)


section \<open>Derived facts about the operations\<close>

lemma f64_of_rat_small: "\<bar>x\<bar> \<le> of_int n \<Longrightarrow> n < 2 ^ 53 \<Longrightarrow> f64_of_rat x = FNum (rnd64 x)"
proof -
  assume x: "\<bar>x\<bar> \<le> of_int n" and n: "n < 2 ^ 53"
  have "(0::rat) \<le> of_int n" using x by linarith
  then have "0 \<le> n" by (simp only: of_int_0_le_iff)
  have up: "rnd64 x \<le> of_int n" and low: "of_int (- n) \<le> rnd64 x"
    using x n \<open>0 \<le> n\<close> by (intro ieee.rnd_int_upper ieee.rnd_int_lower; simp)+
  have "(of_int n :: rat) < of_int (2 ^ 53)" using n by (simp only: of_int_less_iff)
  also have "\<dots> < 2 ^ 1024" by simp
  finally have "\<bar>rnd64 x\<bar> < 2 ^ 1024" using up low by simp
  then show ?thesis by (simp add: f64_of_rat_def Let_def)
qed

lemma f64_of_rat_rep:
  assumes "is_rep64 b" "\<bar>x\<bar> \<le> b" "b < 2 ^ 1024"
  shows "f64_of_rat x = FNum (rnd64 x)"
proof -
  have "rnd64 x \<le> b" using assms by (intro ieee.rnd_upper) auto
  moreover have "rnd64 (- x) \<le> b" using assms by (intro ieee.rnd_upper) auto
  ultimately have "\<bar>rnd64 x\<bar> < 2 ^ 1024" using assms(3) by (simp add: rnd64_minus abs_less_iff)
  then show ?thesis by (simp add: f64_of_rat_def Let_def)
qed

lemma f_of_int_exact: "\<bar>n\<bar> < 2 ^ 53 \<Longrightarrow> f_of_int n = FNum (of_int n)"
  using f64_of_rat_small [of "of_int n" "\<bar>n\<bar>"] by (simp add: f_of_int_def ieee.rnd_int)

lemma f64_of_rat_numeral:
  "(numeral w :: int) < 2 ^ 53 \<Longrightarrow> f64_of_rat (numeral w) = FNum (numeral w)"
  "f64_of_rat 1 = FNum 1" "f64_of_rat 0 = FNum 0"
  using f_of_int_exact [of "numeral w"] f_of_int_exact [of 1] f_of_int_exact [of 0]
  by (simp_all add: f_of_int_def)

lemma f_lt_trans: "f_lt a b \<Longrightarrow> f_lt b c \<Longrightarrow> f_lt a c"
  by (cases a; cases b; cases c) auto

lemma f_lt_irrefl [simp]: "\<not> f_lt a a"
  by (cases a) auto

lemma f_lt_asym: "f_lt a b \<Longrightarrow> \<not> f_lt b a"
  by (cases a; cases b) auto

lemma f_total: "\<not> is_nan a \<Longrightarrow> \<not> is_nan b \<Longrightarrow> f_lt a b \<or> f_eq a b \<or> f_lt b a"
  by (cases a; cases b) (auto simp: is_nan_def)

lemma f_compare_nan [simp]: "\<not> f_lt FNaN x" "\<not> f_lt x FNaN" "\<not> f_le FNaN x" "\<not> f_le x FNaN"
  by (cases x; simp add: f_le_def)+

end
