(* ===== verification/Managed_Billing.thy ===== *)
theory Managed_Billing
  imports Float64
begin

text \<open>
  \<open>internal/managedbilling\<close>: token cost, minimum retail price, duration cost, the deployment
  quote, the sandbox policy and reservation, and the fixed checkout amounts. Money is integer
  micro-US-dollars held in \<open>int64\<close>; the theorems say that the guards keep every product in
  range, that each cost is the exact quotient rounded up, and that quotes never undercut the
  gross margin or the time they authorise.
\<close>


section \<open>Data\<close>

definition tokensPerMillion :: int where "tokensPerMillion = 1000000"

record deployment_policy =
  dp_Enabled :: bool
  dp_Provider :: string
  dp_GrossMarginBPS :: int
  dp_CleanupAllowance :: duration

record deployment_quote =
  dq_State :: string
  dq_Provider :: string
  dq_Region :: string
  dq_GPU :: string
  dq_GPUCount :: int
  dq_Currency :: string
  dq_SupplierHourlyMicrousd :: int
  dq_RetailHourlyMicrousd :: int
  dq_ReservedMicrousd :: int
  dq_RuntimeLimitSeconds :: int
  dq_CleanupAllowanceSeconds :: int
  dq_GrossMarginBPS :: int
  dq_Source :: string
  dq_ObservedAt :: gotime
  dq_ValidUntil :: gotime

record sandbox_policy =
  sp_Enabled :: bool
  sp_SupplierHourlyMicrousd :: int
  sp_ActiveHourlyMicrousd :: int
  sp_WorkspaceStorageMicrousdPerGiBMonth :: int
  sp_VCPU :: int
  sp_MemoryMiB :: int
  sp_IncludedWorkspaceGiB :: int
  sp_MaxActive :: int
  sp_MaxRetained :: int
  sp_GlobalMaxActive :: int
  sp_GlobalMaxRetained :: int

record managed_spend_reservation =
  ms_ID :: string
  ms_TenantID :: string
  ms_ResourceType :: string
  ms_ResourceName :: string
  ms_Provider :: string
  ms_State :: string
  ms_Currency :: string
  ms_SupplierHourlyMicrousd :: int
  ms_RetailHourlyMicrousd :: int
  ms_ReservedMicrousd :: int
  ms_ActualMicrousd :: int
  ms_GrossMarginBPS :: int
  ms_RuntimeLimitSeconds :: int
  ms_CleanupAllowanceSeconds :: int
  ms_PricingJSON :: string
  ms_Resolution :: string
  ms_ExpiresAt :: gotime
  ms_ActivatedAt :: "gotime option"
  ms_CreatedAt :: gotime
  ms_UpdatedAt :: gotime


section \<open>Token cost and retail price\<close>

definition roundedUpProduct :: "int \<Rightarrow> int \<Rightarrow> string + int" where
  "roundedUpProduct tokens price =
     (if tokens = 0 \<or> price = 0 then Inr 0
      else if tokens > quot (max_i64 - (tokensPerMillion - 1)) price
        then Inl ''token cost overflows int64''
      else Inr (quot (i64 (i64 (i64 (tokens * price) + tokensPerMillion) - 1)) tokensPerMillion))"

definition TokenCostMicrousd :: "int \<Rightarrow> int \<Rightarrow> int \<Rightarrow> int \<Rightarrow> string + int" where
  "TokenCostMicrousd inputTokens outputTokens inputPrice outputPrice =
     (if inputTokens < 0 \<or> outputTokens < 0 \<or> inputPrice < 0 \<or> outputPrice < 0
        then Inl ''tokens and prices must be non-negative''
      else case roundedUpProduct inputTokens inputPrice of
        Inl err \<Rightarrow> Inl err
      | Inr input \<Rightarrow>
          (case roundedUpProduct outputTokens outputPrice of
             Inl err \<Rightarrow> Inl ''token cost overflows int64''
           | Inr output \<Rightarrow>
               if input > i64 (max_i64 - output) then Inl ''token cost overflows int64''
               else Inr (i64 (input + output))))"

definition MinimumRetailPriceMicrousd :: "int \<Rightarrow> int \<Rightarrow> string + int" where
  "MinimumRetailPriceMicrousd costBasis marginBPS =
     (if costBasis < 0 \<or> marginBPS < 0 \<or> marginBPS \<ge> 10000
        then Inl ''cost basis must be non-negative and gross margin must be between 0 and 9999 basis points''
      else if costBasis = 0 then Inr 0
      else let denominator = 10000 - marginBPS in
        if costBasis > quot (max_i64 - (denominator - 1)) 10000
          then Inl ''minimum retail price overflows int64''
        else Inr (quot (i64 (i64 (i64 (costBasis * 10000) + denominator) - 1)) denominator))"


section \<open>Duration cost and the deployment quote\<close>

definition DurationCostMicrousd :: "(f64 \<Rightarrow> int) \<Rightarrow> int \<Rightarrow> duration \<Rightarrow> string + int" where
  "DurationCostMicrousd oob hourlyMicrousd d =
     (if hourlyMicrousd < 0 \<or> d < 0 then Inl ''hourly price and duration must be non-negative''
      else if hourlyMicrousd = 0 \<or> d = 0 then Inr 0
      else let seconds = f_to_int oob (f_ceil (duration_seconds d)) in
        if seconds > quot (max_i64 - 3599) hourlyMicrousd then Inl ''duration cost overflows int64''
        else Inr (quot (i64 (i64 (hourlyMicrousd * seconds) + 3599)) 3600))"

definition dp_Normalize :: "deployment_policy \<Rightarrow> deployment_policy" where
  "dp_Normalize p =
     (let p1 = (if dp_Provider p = '''' then p\<lparr>dp_Provider := ''runpod''\<rparr> else p);
          p2 = (if dp_GrossMarginBPS p1 = 0 then p1\<lparr>dp_GrossMarginBPS := 4000\<rparr> else p1)
      in if dp_CleanupAllowance p2 = 0 then p2\<lparr>dp_CleanupAllowance := 10 * Minute\<rparr> else p2)"

definition dp_Validate :: "deployment_policy \<Rightarrow> string option" where
  "dp_Validate p0 =
     (let p = dp_Normalize p0 in
      if dp_GrossMarginBPS p < 0 \<or> dp_GrossMarginBPS p \<ge> 10000
        then Some ''managed deployment gross margin must be between 0 and 9999 basis points''
      else if dp_Provider p = '''' then Some ''managed deployment provider is required''
      else if dp_CleanupAllowance p < Minute \<or> dp_CleanupAllowance p > Hour
        then Some ''managed deployment cleanup allowance must be between one minute and one hour''
      else None)"

definition QuoteDeployment ::
  "(f64 \<Rightarrow> int) \<Rightarrow> gotime \<Rightarrow> deployment_policy \<Rightarrow> string \<Rightarrow> string \<Rightarrow> string \<Rightarrow> string \<Rightarrow> int \<Rightarrow> f64 \<Rightarrow>
   duration \<Rightarrow> gotime \<Rightarrow> gotime \<Rightarrow> string + deployment_quote" where
  "QuoteDeployment oob now policy0 provider region gpu source gpuCount supplierHourlyUSD runtime
     observedAt validUntil =
     (let policy = dp_Normalize policy0 in
      case dp_Validate policy of Some err \<Rightarrow> Inl err | None \<Rightarrow>
      if \<not> dp_Enabled policy then Inl ''managed deployments are disabled''
      else if provider \<noteq> dp_Provider policy \<or> gpu = '''' \<or> gpuCount \<noteq> 1 \<or> source = '''' \<or>
          is_zero_time observedAt \<or> is_zero_time validUntil \<or> \<not> (now < validUntil)
        then Inl ''a current exact managed deployment price is required''
      else if runtime < 15 * Minute \<or> runtime > 24 * Hour \<or> gorem runtime Minute \<noteq> 0
        then Inl ''managed runtime must be whole minutes between 15 minutes and 24 hours''
      else if is_nan supplierHourlyUSD \<or> is_inf supplierHourlyUSD \<or> f_le supplierHourlyUSD f_zero \<or>
          f_gt supplierHourlyUSD (f_div (f_of_int max_i64) (f_of_int 1000000))
        then Inl ''supplier hourly price is invalid''
      else let supplierHourlyMicrousd =
                 f_to_int oob (f_ceil (f_mul supplierHourlyUSD (f_of_int 1000000))) in
        case MinimumRetailPriceMicrousd supplierHourlyMicrousd (dp_GrossMarginBPS policy) of
          Inl err \<Rightarrow> Inl err
        | Inr retailHourlyMicrousd \<Rightarrow>
            (case DurationCostMicrousd oob retailHourlyMicrousd
                    (i64 (runtime + dp_CleanupAllowance policy)) of
               Inl err \<Rightarrow> Inl err
             | Inr reservedMicrousd \<Rightarrow>
                 Inr \<lparr>dq_State = ''current'', dq_Provider = provider, dq_Region = region, dq_GPU = gpu,
                   dq_GPUCount = gpuCount, dq_Currency = ''USD'',
                   dq_SupplierHourlyMicrousd = supplierHourlyMicrousd,
                   dq_RetailHourlyMicrousd = retailHourlyMicrousd,
                   dq_ReservedMicrousd = reservedMicrousd,
                   dq_RuntimeLimitSeconds = quot runtime Second,
                   dq_CleanupAllowanceSeconds = quot (dp_CleanupAllowance policy) Second,
                   dq_GrossMarginBPS = dp_GrossMarginBPS policy, dq_Source = source,
                   dq_ObservedAt = observedAt, dq_ValidUntil = validUntil\<rparr>))"


section \<open>Sandbox policy and reservation\<close>

definition default_int :: "int \<Rightarrow> int \<Rightarrow> int" where
  "default_int d v = (if v = 0 then d else v)"

definition sp_Normalize :: "sandbox_policy \<Rightarrow> sandbox_policy" where
  "sp_Normalize p =
     p\<lparr>sp_ActiveHourlyMicrousd := default_int 300000 (sp_ActiveHourlyMicrousd p),
       sp_VCPU := default_int 4 (sp_VCPU p),
       sp_MemoryMiB := default_int 8192 (sp_MemoryMiB p),
       sp_IncludedWorkspaceGiB := default_int 40 (sp_IncludedWorkspaceGiB p),
       sp_MaxActive := default_int 1 (sp_MaxActive p),
       sp_MaxRetained := default_int 10 (sp_MaxRetained p),
       sp_GlobalMaxActive := default_int 1 (sp_GlobalMaxActive p),
       sp_GlobalMaxRetained := default_int 10 (sp_GlobalMaxRetained p)\<rparr>"

definition sp_Validate :: "sandbox_policy \<Rightarrow> string option" where
  "sp_Validate p0 =
     (let p = sp_Normalize p0 in
      if sp_ActiveHourlyMicrousd p < 1 \<or> sp_ActiveHourlyMicrousd p > 100000000
        then Some ''managed sandbox active hourly price is invalid''
      else if sp_SupplierHourlyMicrousd p < 1 \<or> sp_SupplierHourlyMicrousd p > sp_ActiveHourlyMicrousd p
        then Some ''managed sandbox supplier hourly cost is invalid''
      else if sp_WorkspaceStorageMicrousdPerGiBMonth p < 0 \<or>
          sp_WorkspaceStorageMicrousdPerGiBMonth p > 10000000
        then Some ''managed sandbox storage price is invalid''
      else if sp_VCPU p < 1 \<or> sp_VCPU p > 256 \<or> sp_MemoryMiB p < 128 \<or> sp_MemoryMiB p > 2 ^ 20 \<or>
          sp_IncludedWorkspaceGiB p < 1 \<or> sp_IncludedWorkspaceGiB p > 2 ^ 20
        then Some ''managed sandbox size is invalid''
      else if sp_MaxActive p < 1 \<or> sp_MaxActive p > 10000 \<or> sp_MaxRetained p < sp_MaxActive p \<or>
          sp_MaxRetained p > 100000
        then Some ''managed sandbox quota is invalid''
      else if sp_GlobalMaxActive p < sp_MaxActive p \<or> sp_GlobalMaxActive p > 10000 \<or>
          sp_GlobalMaxRetained p < sp_GlobalMaxActive p \<or> sp_GlobalMaxRetained p > 100000
        then Some ''managed sandbox global quota is invalid''
      else None)"

text \<open>\<open>json.Marshal\<close> of the pricing map: keys in alphabetical order, integers in decimal.\<close>

definition sp_pricing_json :: "sandbox_policy \<Rightarrow> string" where
  \<open>sp_pricing_json p =
     ''{"active_hourly_microusd":'' @ itoa (sp_ActiveHourlyMicrousd p) @
     '',"billing_mode":"prepaid_usage"'' @
     '',"global_max_active":'' @ itoa (sp_GlobalMaxActive p) @
     '',"global_max_retained":'' @ itoa (sp_GlobalMaxRetained p) @
     '',"included_workspace_gib":'' @ itoa (sp_IncludedWorkspaceGiB p) @
     '',"max_active":'' @ itoa (sp_MaxActive p) @
     '',"max_retained":'' @ itoa (sp_MaxRetained p) @
     '',"standby_hourly_microusd":0'' @
     '',"workspace_storage_microusd_per_gib_month":'' @
       itoa (sp_WorkspaceStorageMicrousdPerGiBMonth p) @ ''}''\<close>

definition sp_Reservation ::
  "(f64 \<Rightarrow> int) \<Rightarrow> sandbox_policy \<Rightarrow> duration \<Rightarrow> string \<Rightarrow> string + managed_spend_reservation" where
  "sp_Reservation oob p0 runtime resourceName =
     (let p = sp_Normalize p0 in
      if \<not> sp_Enabled p then Inl ''managed sandbox billing is disabled''
      else case sp_Validate p of Some err \<Rightarrow> Inl err | None \<Rightarrow>
        if resourceName = '''' \<or> runtime < 30 * Second \<or> runtime > 30 * 24 * Hour
          then Inl ''managed sandbox identity or lifetime is invalid''
        else case DurationCostMicrousd oob (sp_ActiveHourlyMicrousd p) runtime of
          Inl err \<Rightarrow> Inl ''managed sandbox reservation could not be priced''
        | Inr reserved \<Rightarrow>
            if reserved < 1 then Inl ''managed sandbox reservation could not be priced''
            else Inr \<lparr>ms_ID = '''', ms_TenantID = '''', ms_ResourceType = ''sandbox'',
              ms_ResourceName = resourceName, ms_Provider = ''brezel'', ms_State = '''',
              ms_Currency = '''', ms_SupplierHourlyMicrousd = sp_SupplierHourlyMicrousd p,
              ms_RetailHourlyMicrousd = sp_ActiveHourlyMicrousd p, ms_ReservedMicrousd = reserved,
              ms_ActualMicrousd = 0,
              ms_GrossMarginBPS =
                quot (i64 (i64 (sp_ActiveHourlyMicrousd p - sp_SupplierHourlyMicrousd p) * 10000))
                  (sp_ActiveHourlyMicrousd p),
              ms_RuntimeLimitSeconds = quot runtime Second, ms_CleanupAllowanceSeconds = 0,
              ms_PricingJSON = sp_pricing_json p, ms_Resolution = '''', ms_ExpiresAt = 0,
              ms_ActivatedAt = None, ms_CreatedAt = 0, ms_UpdatedAt = 0\<rparr>)"


section \<open>Checkout amounts\<close>

definition checkoutAmounts :: "int list" where
  "checkoutAmounts = [10000000, 25000000, 50000000, 100000000, 250000000, 500000000]"

definition CheckoutAmounts :: "int list" where
  "CheckoutAmounts = checkoutAmounts"

fun ValidateCheckoutAmount_loop :: "int \<Rightarrow> int list \<Rightarrow> bool" where
  "ValidateCheckoutAmount_loop amount [] = False"
| "ValidateCheckoutAmount_loop amount (allowed # rest) =
     (if amount = allowed then True else ValidateCheckoutAmount_loop amount rest)"

definition ValidateCheckoutAmount :: "int \<Rightarrow> bool" where
  "ValidateCheckoutAmount amount = ValidateCheckoutAmount_loop amount checkoutAmounts"

definition hex_digit :: "nat \<Rightarrow> char" where
  "hex_digit n = (if n < 10 then char_of (48 + n) else char_of (87 + n))"

definition hex_encode :: "string \<Rightarrow> string" where
  "hex_encode bs =
     concat (map (\<lambda>c. [hex_digit (of_char c div 16), hex_digit (of_char c mod 16)]) bs)"

text \<open>The SHA-256 digest (as the 32 bytes of a string) is a parameter.\<close>

definition FundingIntentID :: "(string \<Rightarrow> string) \<Rightarrow> string \<Rightarrow> string \<Rightarrow> string" where
  "FundingIntentID sha256 tenant idempotencyKey =
     ''funding_'' @ hex_encode (take 16 (sha256 (tenant @ [CHR 0x00] @ idempotencyKey)))"


section \<open>Token cost: the guards make the arithmetic exact\<close>

lemma guard_iff:
  assumes "0 < (p::int)"
  shows "t > m div p \<longleftrightarrow> m < t * p"
proof
  assume "t > m div p"
  then have "m div p + 1 \<le> t" by simp
  then have "(m div p + 1) * p \<le> t * p" using assms by (simp add: mult_right_mono)
  moreover have "m < (m div p + 1) * p"
    using pos_mod_bound [OF assms, of m] div_mult_mod_eq [of m p] unfolding distrib_right by linarith
  ultimately show "m < t * p" by linarith
next
  assume "m < t * p"
  then show "t > m div p" using mult_le_of_le_div [OF assms, of t m] by linarith
qed

lemma roundedUpProduct_spec:
  assumes "0 \<le> t" "0 \<le> p"
  shows "roundedUpProduct t p =
    (if t * p \<le> max_i64 - 999999 then Inr (ceil_div (t * p) 1000000)
     else Inl ''token cost overflows int64'')"
proof (cases "t = 0 \<or> p = 0")
  case True
  then have z: "t * p = 0" by auto
  show ?thesis
    unfolding z using True by (simp add: roundedUpProduct_def ceil_div_def max_i64_def)
next
  case False
  with assms have p: "0 < p" and t: "0 < t" by auto
  have q: "quot (max_i64 - (tokensPerMillion - 1)) p = (max_i64 - 999999) div p"
    using p by (simp add: quot_nonneg tokensPerMillion_def max_i64_def)
  show ?thesis
  proof (cases "t * p \<le> max_i64 - 999999")
    case True
    have "0 \<le> t * p" using t p by simp
    then have "i64 (t * p) = t * p"
      using True by (intro i64_id) (simp add: is_i64_def min_i64_def max_i64_def)
    moreover have "quot (i64 (i64 (t * p + 1000000) - 1)) 1000000 = ceil_div (t * p) 1000000"
      using True t p by (intro i64_round_up) auto
    moreover have "\<not> t > (max_i64 - 999999) div p"
      using True by (simp add: guard_iff [OF p])
    ultimately show ?thesis
      using True \<open>\<not> (t = 0 \<or> p = 0)\<close> unfolding roundedUpProduct_def q by (simp add: tokensPerMillion_def)
  next
    case big: False
    then have "t > (max_i64 - 999999) div p" by (simp add: guard_iff [OF p])
    then show ?thesis using big \<open>\<not> (t = 0 \<or> p = 0)\<close> unfolding roundedUpProduct_def q by simp
  qed
qed

lemma ceil_div_million_bound:
  "x \<le> max_i64 - 999999 \<Longrightarrow> ceil_div x 1000000 \<le> 9223372036855"
  by (rule ceil_div_least) (simp_all add: max_i64_def)

lemma TokenCost_shape:
  assumes "0 \<le> it" "0 \<le> ot" "0 \<le> ip" "0 \<le> op"
  shows "TokenCostMicrousd it ot ip op =
    (if it * ip \<le> max_i64 - 999999 \<and> ot * op \<le> max_i64 - 999999
     then Inr (ceil_div (it * ip) 1000000 + ceil_div (ot * op) 1000000)
     else Inl ''token cost overflows int64'')"
proof (cases "it * ip \<le> max_i64 - 999999 \<and> ot * op \<le> max_i64 - 999999")
  case True
  define a b where "a = ceil_div (it * ip) 1000000" and "b = ceil_div (ot * op) 1000000"
  have "0 \<le> a" "0 \<le> b" "a \<le> 9223372036855" "b \<le> 9223372036855"
    using True assms ceil_div_million_bound by (auto simp: a_def b_def intro!: ceil_div_nonneg)
  then have "i64 (max_i64 - b) = max_i64 - b" "i64 (a + b) = a + b" "\<not> a > max_i64 - b"
    by (auto simp: max_i64_def min_i64_def is_i64_def intro!: i64_id)
  then show ?thesis
    using True assms by (simp add: TokenCostMicrousd_def roundedUpProduct_spec a_def b_def)
next
  case False
  then show ?thesis
    using assms by (auto simp: TokenCostMicrousd_def roundedUpProduct_spec)
qed

lemma TokenCost_bounds:
  assumes "0 \<le> it" "0 \<le> ot" "0 \<le> ip" "0 \<le> op" "TokenCostMicrousd it ot ip op = Inr c"
  shows "is_i64 c \<and> it * ip + ot * op \<le> c * 1000000 \<and> (c - 2) * 1000000 < it * ip + ot * op"
proof -
  have c: "c = ceil_div (it * ip) 1000000 + ceil_div (ot * op) 1000000"
    and fits: "it * ip \<le> max_i64 - 999999" "ot * op \<le> max_i64 - 999999"
    using assms(5) unfolding TokenCost_shape [OF assms(1-4)] by (auto split: if_splits)
  have nonneg: "0 \<le> ceil_div (it * ip) 1000000" "0 \<le> ceil_div (ot * op) 1000000"
    using assms by (auto intro!: ceil_div_nonneg)
  show ?thesis
    using c nonneg ceil_div_million_bound [OF fits(1)] ceil_div_million_bound [OF fits(2)]
      ceil_div_upper [of 1000000 "it * ip"] ceil_div_upper [of 1000000 "ot * op"]
      ceil_div_lower [of 1000000 "it * ip"] ceil_div_lower [of 1000000 "ot * op"]
    by (simp add: is_i64_def max_i64_def min_i64_def algebra_simps)
qed

text \<open>
  C18. \<open>TokenCostMicrousd\<close> on non-negative \<open>int64\<close> arguments never charges a wrapped amount: it
  returns the sum of the two token costs, each rounded up to a whole micro-dollar, or reports
  the overflow; and an amount it returns covers the exact cost while exceeding it by less than
  two micro-dollars.
\<close>

theorem TokenCostMicrousd_correct:
  assumes "0 \<le> it" "0 \<le> ot" "0 \<le> ip" "0 \<le> op"
  shows "TokenCostMicrousd it ot ip op =
      (if it * ip \<le> max_i64 - 999999 \<and> ot * op \<le> max_i64 - 999999
       then Inr (ceil_div (it * ip) 1000000 + ceil_div (ot * op) 1000000)
       else Inl ''token cost overflows int64'') \<and>
    (\<forall>c. TokenCostMicrousd it ot ip op = Inr c \<longrightarrow>
      is_i64 c \<and> it * ip + ot * op \<le> c * 1000000 \<and> (c - 2) * 1000000 < it * ip + ot * op)"
  using TokenCost_shape [OF assms] TokenCost_bounds [OF assms] by blast

theorem TokenCostMicrousd_correct_witness:
  "TokenCostMicrousd 1200 350 2500000 10000000 = Inr 6500 \<and>
   1200 * 2500000 + 350 * 10000000 \<le> (6500::int) * 1000000"
  using TokenCostMicrousd_correct [of 1200 350 2500000 10000000]
  by (simp add: ceil_div_def max_i64_def)


section \<open>Minimum retail price\<close>

lemma MinimumRetailPrice_spec:
  assumes "0 \<le> cost" "0 \<le> bps" "bps < 10000"
  shows "MinimumRetailPriceMicrousd cost bps =
    (if cost * 10000 \<le> max_i64 - (10000 - bps - 1) then Inr (ceil_div (cost * 10000) (10000 - bps))
     else Inl ''minimum retail price overflows int64'')"
proof (cases "cost = 0")
  case True
  then show ?thesis
    using assms by (simp add: MinimumRetailPriceMicrousd_def ceil_div_def max_i64_def)
next
  case False
  define d where "d = 10000 - bps"
  have d: "0 < d" "d \<le> 10000" using assms by (simp_all add: d_def)
  have q: "quot (max_i64 - (d - 1)) 10000 = (max_i64 - (d - 1)) div 10000"
    using d by (intro quot_nonneg) (simp_all add: max_i64_def)
  have g: "cost > (max_i64 - (d - 1)) div 10000 \<longleftrightarrow> max_i64 - (d - 1) < cost * 10000"
    by (rule guard_iff) simp
  have e: "i64 (cost * 10000) = cost * 10000" if "cost * 10000 \<le> max_i64 - (d - 1)"
    using that assms d by (intro i64_id) (simp add: is_i64_def min_i64_def max_i64_def)
  have r: "quot (i64 (i64 (cost * 10000 + d) - 1)) d = ceil_div (cost * 10000) d"
    if "cost * 10000 \<le> max_i64 - (d - 1)"
    using that assms d by (intro i64_round_up) simp_all
  show ?thesis
    using False assms e r unfolding MinimumRetailPriceMicrousd_def Let_def d_def [symmetric] q g
    by (simp add: not_le)
qed

lemma MinimumRetailPrice_margin:
  assumes "MinimumRetailPriceMicrousd cost bps = Inr price"
  shows "0 \<le> cost" "0 \<le> bps" "bps < 10000" "0 \<le> price" "is_i64 price"
    "price = ceil_div (cost * 10000) (10000 - bps)" "bps * price \<le> (price - cost) * 10000"
proof -
  show h: "0 \<le> cost" "0 \<le> bps" "bps < 10000"
    using assms by (auto simp: MinimumRetailPriceMicrousd_def split: if_splits)
  define d where "d = 10000 - bps"
  have d: "0 < d" using h by (simp add: d_def)
  have fits: "cost * 10000 \<le> max_i64 - (d - 1)" and price: "price = ceil_div (cost * 10000) d"
    using assms unfolding MinimumRetailPrice_spec [OF h] d_def by (auto split: if_splits)
  have up: "cost * 10000 \<le> price * d" using d price by (simp add: ceil_div_upper)
  have le: "price \<le> cost * 10000"
    unfolding price using d h by (intro ceil_div_least) (simp_all add: mult_le_cancel_left1)
  show "0 \<le> price" unfolding price using d h by (intro ceil_div_nonneg) simp_all
  with le show "is_i64 price" using fits d by (simp add: is_i64_def min_i64_def max_i64_def)
  show "price = ceil_div (cost * 10000) (10000 - bps)" using price by (simp add: d_def)
  show "bps * price \<le> (price - cost) * 10000" using up by (simp add: d_def algebra_simps)
qed

text \<open>
  \<open>MinimumRetailPriceMicrousd\<close> returns the smallest price whose gross margin is at least
  the requested basis points: the price it returns satisfies the margin inequality, and every
  price that satisfies it is at least as large.
\<close>

theorem MinimumRetailPrice_least:
  assumes "MinimumRetailPriceMicrousd cost bps = Inr price"
  shows "is_i64 price \<and> (price - cost) * 10000 \<ge> bps * price \<and>
    (\<forall>other. (other - cost) * 10000 \<ge> bps * other \<longrightarrow> price \<le> other)"
proof -
  note facts = MinimumRetailPrice_margin [OF assms]
  have "\<forall>other. (other - cost) * 10000 \<ge> bps * other \<longrightarrow> price \<le> other"
    unfolding facts(6) using facts(3) by (auto intro!: ceil_div_least simp: algebra_simps)
  with facts show ?thesis by blast
qed

theorem MinimumRetailPrice_least_witness:
  "MinimumRetailPriceMicrousd 2990000 4000 = Inr 4983334 \<and>
   (4983334 - 2990000) * 10000 \<ge> 4000 * (4983334::int)"
proof -
  have "MinimumRetailPriceMicrousd 2990000 4000 = Inr 4983334"
    by (simp add: MinimumRetailPrice_spec ceil_div_def max_i64_def)
  with MinimumRetailPrice_least [OF this] show ?thesis by blast
qed


section \<open>Duration cost\<close>

text \<open>
  The code measures a duration in \<open>float64\<close> seconds and rounds up. For durations below
  \<open>2 ^ 22\<close> seconds (48 days; the policies allow at most 30) the rounding errors cannot move
  the value across a whole second, so the result is the exact number of started seconds.
\<close>

lemma duration_fraction_bounds:
  assumes "0 < n" "n < 1000000000"
  shows "2 powi (- 30) \<le> rnd64 (of_int n / 1000000000)" "rnd64 (of_int n / 1000000000) \<le> 1"
proof -
  have rep: "is_rep64 (2 powi (- 30))" using is_rep64_dyadic [of 1 "- 30"] by simp
  have "(1::rat) \<le> of_int n" using assms(1) by (simp only: of_int_1_le_iff)
  then have "(2::rat) powi (- 30) \<le> of_int n / 1000000000"
    by (simp add: power_int_def field_simps)
  with rep show "2 powi (- 30) \<le> rnd64 (of_int n / 1000000000)" by (rule ieee.rnd_lower)
  have "(of_int n :: rat) \<le> of_int 1000000000" using assms(2) by (simp only: of_int_le_iff)
  then have "of_int n / 1000000000 \<le> (of_int 1 :: rat)" by simp
  then show "rnd64 (of_int n / 1000000000) \<le> 1"
    using ieee.rnd_int_upper [of 1] by simp
qed

lemma ceiling_seconds:
  assumes s: "0 \<le> s" "s < 2 ^ 22" and n: "0 < n" "n < 1000000000"
  shows "\<lceil>rnd64 (of_int s + rnd64 (of_int n / 1000000000))\<rceil> = s + 1"
proof (rule ieee.ceiling_rnd_eq)
  define f where "f = rnd64 (of_int n / 1000000000)"
  have f: "2 powi (- 30) \<le> f" "f \<le> 1" using duration_fraction_bounds [OF n] by (simp_all add: f_def)
  show "\<bar>s + 1\<bar> < 2 ^ 53" using s by simp
  have "is_rep64 (of_int (s * 2 ^ 30 + 1) * 2 powi (- 30))"
    using s by (intro is_rep64_dyadic) simp_all
  moreover have "of_int (s * 2 ^ 30 + 1) * 2 powi (- 30) = of_int s + (2::rat) powi (- 30)"
    by (simp add: power_int_minus field_simps)
  ultimately show "is_rep64 (of_int s + 2 powi (- 30))" by (simp only:)
  show "of_int (s + 1 - 1) < of_int s + (2::rat) powi (- 30)" by simp
  show "of_int s + 2 powi (- 30) \<le> of_int s + rnd64 (of_int n / 1000000000)"
    using f by (simp add: f_def)
  show "of_int s + rnd64 (of_int n / 1000000000) \<le> of_int (s + 1)"
    using f by (simp add: f_def)
qed

definition started_seconds :: "duration \<Rightarrow> int" where
  "started_seconds d = ceil_div d Second"

lemma f_to_int_num: "is_i64 n \<Longrightarrow> f_to_int oob (FNum (of_int n)) = n"
  by (simp add: f_to_int_def trunc_rat_def Let_def)

lemma duration_seconds_split:
  assumes "0 \<le> d" "d < 2 ^ 22 * Second"
  shows "duration_seconds d =
    FNum (rnd64 (of_int (d div Second) + rnd64 (of_int (d mod Second) / 1000000000)))"
proof -
  define s n where "s = d div Second" and "n = d mod Second"
  have s: "0 \<le> s" "s < 2 ^ 22" and n: "0 \<le> n" "n < Second"
    using assms by (auto simp: s_def n_def pos_imp_zdiv_nonneg_iff)
  have nb: "\<bar>(of_int n :: rat) / 1000000000\<bar> \<le> of_int 1"
    using n by simp
  have fb: "0 \<le> rnd64 (of_int n / 1000000000)" "rnd64 (of_int n / 1000000000) \<le> 1"
    using nb n ieee.rnd_int_upper [of 1 "of_int n / 1000000000"] by (auto intro: rnd64_nonneg)
  have "f_div (f_of_int n) (FNum 1000000000) = FNum (rnd64 (of_int n / 1000000000))"
    using n nb by (simp add: f_of_int_exact f64_of_rat_small [of _ 1])
  moreover have "\<bar>(of_int s :: rat) + rnd64 (of_int n / 1000000000)\<bar> \<le> of_int (2 ^ 22 + 1)"
    using s fb by simp
  ultimately show ?thesis
    using s assms(1)
    by (simp add: duration_seconds_def quot_nonneg gorem_nonneg s_def [symmetric] n_def [symmetric]
        f_of_int_exact f64_of_rat_small [of _ "2 ^ 22 + 1"])
qed

lemma seconds_exact:
  assumes "0 \<le> d" "d < 2 ^ 22 * Second"
  shows "f_to_int oob (f_ceil (duration_seconds d)) = started_seconds d"
proof -
  define s n where "s = d div Second" and "n = d mod Second"
  have s: "0 \<le> s" "s < 2 ^ 22" and n: "0 \<le> n" "n < Second" and d: "d = s * Second + n"
    using assms by (auto simp: s_def n_def pos_imp_zdiv_nonneg_iff)
  have "\<lceil>rnd64 (of_int s + rnd64 (of_int n / 1000000000))\<rceil> = started_seconds d"
  proof (cases "n = 0")
    case True
    then show ?thesis
      using s d by (simp add: ieee.rnd_int started_seconds_def ceil_div_def)
  next
    case False
    then have "ceil_div d Second = s + 1"
      using n d by (simp add: ceil_div_def)
    then show ?thesis using False s n ceiling_seconds [of s n] by (simp add: started_seconds_def)
  qed
  moreover have "0 \<le> started_seconds d" "started_seconds d \<le> 2 ^ 22"
    unfolding started_seconds_def using assms by (auto intro!: ceil_div_nonneg ceil_div_least)
  then have "is_i64 (started_seconds d)" by (simp add: is_i64_def min_i64_def max_i64_def)
  ultimately show ?thesis
    unfolding duration_seconds_split [OF assms] s_def [symmetric] n_def [symmetric]
    by (simp add: f_to_int_num)
qed

lemma DurationCost_spec:
  assumes "0 \<le> h" "0 \<le> d" "d < 2 ^ 22 * Second"
  shows "DurationCostMicrousd oob h d =
    (if h * started_seconds d \<le> max_i64 - 3599 then Inr (ceil_div (h * started_seconds d) 3600)
     else Inl ''duration cost overflows int64'')"
proof (cases "h = 0 \<or> d = 0")
  case True
  then have z: "h * started_seconds d = 0" by (auto simp: started_seconds_def ceil_div_def)
  show ?thesis
    unfolding z using True assms by (simp add: DurationCostMicrousd_def ceil_div_def max_i64_def)
next
  case False
  with assms have h: "0 < h" by auto
  define t where "t = started_seconds d"
  have t: "0 \<le> t" unfolding t_def started_seconds_def using assms by (auto intro!: ceil_div_nonneg)
  have q: "quot (max_i64 - 3599) h = (max_i64 - 3599) div h"
    using h by (simp add: quot_nonneg max_i64_def)
  have e: "i64 (i64 (h * t) + 3599) = h * t + 3599" if "h * t \<le> max_i64 - 3599"
    using that mult_nonneg_nonneg [of h t] t h unfolding i64_add_left
    by (intro i64_id) (simp add: is_i64_def max_i64_def min_i64_def)
  have "quot (h * t + 3599) 3600 = ceil_div (h * t) 3600"
    using t h by (simp add: quot_nonneg ceil_div_def)
  then show ?thesis
    using False assms e unfolding DurationCostMicrousd_def seconds_exact [OF assms(2,3)] Let_def
      t_def [symmetric] q guard_iff [OF h]
    by (auto simp: mult.commute)
qed

lemma DurationCost_cover:
  assumes "0 \<le> d" "d < 2 ^ 22 * Second" "DurationCostMicrousd oob h d = Inr c"
  shows "0 \<le> h" "0 \<le> c" "c = ceil_div (h * started_seconds d) 3600"
    "h * started_seconds d \<le> max_i64 - 3599" "h * d \<le> c * (3600 * 1000000000)"
proof -
  show h: "0 \<le> h" using assms(3) by (simp add: DurationCostMicrousd_def split: if_splits)
  show c: "c = ceil_div (h * started_seconds d) 3600"
    and "h * started_seconds d \<le> max_i64 - 3599"
    using assms(3) unfolding DurationCost_spec [OF h assms(1,2)] by (auto split: if_splits)
  have t: "0 \<le> started_seconds d" and cover: "d \<le> started_seconds d * 1000000000"
    unfolding started_seconds_def using assms(1) by (auto intro!: ceil_div_nonneg ceil_div_upper)
  show "0 \<le> c" unfolding c using h t by (intro ceil_div_nonneg) simp_all
  have "h * d \<le> (h * started_seconds d) * 1000000000"
    using h cover by (simp add: mult_left_mono mult.assoc)
  also have "\<dots> \<le> (c * 3600) * 1000000000" using ceil_div_upper [of 3600 "h * started_seconds d"] c by simp
  finally show "h * d \<le> c * (3600 * 1000000000)" by simp
qed

text \<open>
  For every duration the policies can authorise (below 48 days) \<open>DurationCostMicrousd\<close> charges
  for every started second: despite the floating-point measurement of the duration, a cost it
  returns is the least whole micro-dollar amount covering the hourly price times the started
  seconds, it never under-collects the exact price of the duration, and the guarded product
  never wraps.
\<close>

theorem DurationCost_never_undercollects:
  assumes "0 \<le> d" "d < 2 ^ 22 * 1000000000" "DurationCostMicrousd oob h d = Inr c"
  shows "c = ceil_div (h * started_seconds d) 3600 \<and> is_i64 c \<and>
    h * d \<le> c * (3600 * 1000000000) \<and> (c - 1) * 3600 < h * started_seconds d"
proof -
  note facts = DurationCost_cover [OF assms]
  have "0 \<le> started_seconds d"
    unfolding started_seconds_def using assms(1) by (intro ceil_div_nonneg) simp_all
  then have "c \<le> h * started_seconds d"
    unfolding facts(3) using facts(1) by (intro ceil_div_least) (simp_all add: mult_nonneg_nonneg)
  then show ?thesis
    using facts ceil_div_lower [of 3600 "h * started_seconds d"]
    by (simp add: is_i64_def min_i64_def max_i64_def)
qed

theorem DurationCost_never_undercollects_witness:
  "DurationCostMicrousd (\<lambda>_. 0) 300000 1800000000001 = Inr 150084 \<and>
   300000 * 1800000000001 \<le> 150084 * (3600 * 1000000000 :: int)"
proof -
  have "DurationCostMicrousd (\<lambda>_. 0) 300000 1800000000001 = Inr 150084"
    by (simp add: DurationCost_spec started_seconds_def ceil_div_def max_i64_def)
  with DurationCost_never_undercollects [OF _ _ this] show ?thesis by simp
qed


section \<open>Quotes and sandbox reservations\<close>

lemma dp_Normalize_idem: "dp_Normalize (dp_Normalize p) = dp_Normalize p"
  by (simp add: dp_Normalize_def Let_def)

lemma dp_Validate_None:
  assumes "dp_Validate p = None"
  shows "0 \<le> dp_GrossMarginBPS (dp_Normalize p)" "dp_GrossMarginBPS (dp_Normalize p) < 10000"
    "Minute \<le> dp_CleanupAllowance (dp_Normalize p)" "dp_CleanupAllowance (dp_Normalize p) \<le> Hour"
  using assms by (auto simp: dp_Validate_def Let_def split: if_splits)

lemma QuoteDeployment_InrE:
  assumes "QuoteDeployment oob now p provider region gpu source n usd runtime seen until = Inr q"
  obtains "dp_Validate (dp_Normalize p) = None" "dp_Enabled (dp_Normalize p)" "now < until"
    "dp_Provider (dp_Normalize p) = provider" "n = 1"
    "15 * Minute \<le> runtime" "runtime \<le> 24 * Hour" "gorem runtime Minute = 0"
    "MinimumRetailPriceMicrousd (dq_SupplierHourlyMicrousd q) (dp_GrossMarginBPS (dp_Normalize p)) =
       Inr (dq_RetailHourlyMicrousd q)"
    "DurationCostMicrousd oob (dq_RetailHourlyMicrousd q)
       (i64 (runtime + dp_CleanupAllowance (dp_Normalize p))) = Inr (dq_ReservedMicrousd q)"
    "dq_Provider q = provider" "dq_GPU q = gpu" "dq_ValidUntil q = until"
    "dq_GrossMarginBPS q = dp_GrossMarginBPS (dp_Normalize p)"
    "dq_RuntimeLimitSeconds q = quot runtime Second"
    "dq_CleanupAllowanceSeconds q = quot (dp_CleanupAllowance (dp_Normalize p)) Second"
  using assms unfolding QuoteDeployment_def Let_def
  by (auto split: if_splits option.splits sum.splits)

lemma quote_duration:
  assumes "15 * Minute \<le> runtime" "runtime \<le> 24 * Hour" "Minute \<le> cleanup" "cleanup \<le> Hour"
  shows "i64 (runtime + cleanup) = runtime + cleanup" "0 \<le> runtime + cleanup"
    "runtime + cleanup < 2 ^ 22 * Second"
  using assms by (auto intro!: i64_id simp: is_i64_def min_i64_def max_i64_def)

lemma quot_whole_seconds: "0 \<le> d \<Longrightarrow> quot d Second * 1000000000 \<le> d"
  by (simp add: quot_nonneg)

text \<open>
  A deployment quote is only ever issued by an enabled policy, for its own provider and one
  GPU, while the price is still valid; its retail rate keeps the policy's gross margin over the
  supplier rate, and the amount it reserves covers the retail rate for the whole authorised
  runtime plus the cleanup allowance.
\<close>

theorem QuoteDeployment_sound:
  assumes "QuoteDeployment oob now p provider region gpu source n usd runtime seen until = Inr q"
  shows "dp_Enabled p \<and> now < dq_ValidUntil q \<and> dq_Provider q = dp_Provider (dp_Normalize p) \<and>
    n = 1 \<and> 0 \<le> dq_GrossMarginBPS q \<and> dq_GrossMarginBPS q < 10000 \<and>
    dq_GrossMarginBPS q * dq_RetailHourlyMicrousd q
      \<le> (dq_RetailHourlyMicrousd q - dq_SupplierHourlyMicrousd q) * 10000 \<and>
    dq_RetailHourlyMicrousd q * (runtime + dp_CleanupAllowance (dp_Normalize p))
      \<le> dq_ReservedMicrousd q * (3600 * 1000000000) \<and>
    dq_RetailHourlyMicrousd q * (dq_RuntimeLimitSeconds q + dq_CleanupAllowanceSeconds q)
      \<le> dq_ReservedMicrousd q * 3600"
  using assms
proof (rule QuoteDeployment_InrE)
  let ?c = "dp_CleanupAllowance (dp_Normalize p)"
  assume v: "dp_Validate (dp_Normalize p) = None" and en: "dp_Enabled (dp_Normalize p)"
    and t: "now < until" "dq_ValidUntil q = until"
    and pr: "dp_Provider (dp_Normalize p) = provider" "dq_Provider q = provider" and n: "n = 1"
    and rt: "15 * Minute \<le> runtime" "runtime \<le> 24 * Hour"
    and price: "MinimumRetailPriceMicrousd (dq_SupplierHourlyMicrousd q)
      (dp_GrossMarginBPS (dp_Normalize p)) = Inr (dq_RetailHourlyMicrousd q)"
    and cost: "DurationCostMicrousd oob (dq_RetailHourlyMicrousd q) (i64 (runtime + ?c)) =
      Inr (dq_ReservedMicrousd q)"
    and m: "dq_GrossMarginBPS q = dp_GrossMarginBPS (dp_Normalize p)"
    and secs: "dq_RuntimeLimitSeconds q = quot runtime Second"
      "dq_CleanupAllowanceSeconds q = quot ?c Second"
  note c = dp_Validate_None(3,4) [OF v, unfolded dp_Normalize_idem]
  note d = quote_duration [OF rt c]
  note margin = MinimumRetailPrice_margin [OF price]
  have cover: "dq_RetailHourlyMicrousd q * (runtime + ?c) \<le> dq_ReservedMicrousd q * (3600 * 1000000000)"
    using DurationCost_cover(5) [OF d(2,3) cost [unfolded d(1)]] .
  have "(quot runtime Second + quot ?c Second) * 1000000000 \<le> runtime + ?c"
    using rt c quot_whole_seconds [of runtime] quot_whole_seconds [of ?c] by simp
  then have "dq_RetailHourlyMicrousd q * ((quot runtime Second + quot ?c Second) * 1000000000)
      \<le> dq_RetailHourlyMicrousd q * (runtime + ?c)"
    using margin(4) by (rule mult_left_mono)
  then have "dq_RetailHourlyMicrousd q * (quot runtime Second + quot ?c Second)
      \<le> dq_ReservedMicrousd q * 3600"
    using cover unfolding mult.assoc [symmetric] by simp
  moreover have "dp_Enabled p" using en by (simp add: dp_Normalize_def Let_def split: if_splits)
  ultimately show ?thesis using t pr n margin m secs cover by simp
qed

definition example_quote_policy :: deployment_policy where
  "example_quote_policy =
     \<lparr>dp_Enabled = True, dp_Provider = '''', dp_GrossMarginBPS = 0, dp_CleanupAllowance = 0\<rparr>"

text \<open>The largest accepted supplier rate: \<open>float64(MaxInt64) / 1e6\<close> is finite and at least two.\<close>

lemma price_limit: "\<not> f_lt (f_div (f_of_int max_i64) (f_of_int 1000000)) (FNum 2)"
proof -
  define m where "m = rnd64 (of_int max_i64)"
  have up: "is_rep64 (2 ^ 63)" using is_rep64_dyadic [of 1 63] by simp
  have lo: "is_rep64 (2 ^ 52)" using is_rep64_dyadic [of 1 52] by simp
  have "f_of_int max_i64 = FNum m"
    unfolding f_of_int_def m_def by (rule f64_of_rat_rep [OF up]) (simp_all add: max_i64_def)
  moreover have m: "2 ^ 52 \<le> m" "m \<le> 2 ^ 63"
    unfolding m_def
    by (rule ieee.rnd_lower [OF lo] ieee.rnd_upper [OF up], simp add: max_i64_def)+
  moreover have "f64_of_rat (m / 1000000) = FNum (rnd64 (m / 1000000))"
    using m by (intro f64_of_rat_small [of _ "2 ^ 52"]) simp_all
  moreover have "of_int 2 \<le> rnd64 (m / 1000000)" using m by (intro ieee.rnd_int_lower) simp_all
  ultimately show ?thesis by (simp add: f_of_int_exact)
qed

lemma example_quote:
  "QuoteDeployment (\<lambda>_. 0) 1000 example_quote_policy ''runpod'' ''eu'' ''L40S'' ''catalog'' 1 (FNum 2)
     Hour 500 2000 = Inr \<lparr>dq_State = ''current'', dq_Provider = ''runpod'', dq_Region = ''eu'',
       dq_GPU = ''L40S'', dq_GPUCount = 1, dq_Currency = ''USD'', dq_SupplierHourlyMicrousd = 2000000,
       dq_RetailHourlyMicrousd = 3333334, dq_ReservedMicrousd = 3888890,
       dq_RuntimeLimitSeconds = 3600, dq_CleanupAllowanceSeconds = 600, dq_GrossMarginBPS = 4000,
       dq_Source = ''catalog'', dq_ObservedAt = 500, dq_ValidUntil = 2000\<rparr>"
proof -
  have a: "f_mul (FNum 2) (f_of_int 1000000) = FNum (of_int 2000000)"
    by (simp add: f_of_int_exact f64_of_rat_small [of _ 2000000] ieee.rnd_int [of 2000000, simplified])
  have c: "MinimumRetailPriceMicrousd 2000000 4000 = Inr 3333334"
    by (simp add: MinimumRetailPrice_spec ceil_div_def max_i64_def)
  have d: "i64 4200000000000 = 4200000000000"
    by (intro i64_id) (simp add: is_i64_def min_i64_def max_i64_def)
  have e: "DurationCostMicrousd (\<lambda>_. 0) 3333334 4200000000000 = Inr 3888890"
    by (simp add: DurationCost_spec started_seconds_def ceil_div_def max_i64_def)
  have f: "f_to_int (\<lambda>_. 0) (f_ceil (FNum (of_int 2000000))) = 2000000"
    unfolding f_ceil.simps ceiling_of_int by (intro f_to_int_num) (simp add: is_i64_def min_i64_def max_i64_def)
  show ?thesis
    unfolding QuoteDeployment_def a Let_def f
    using price_limit c d e
    by (simp add: example_quote_policy_def dp_Normalize_def dp_Validate_def Let_def is_zero_time_def
        is_nan_def is_inf_def f_le_def gorem_nonneg quot_nonneg)
qed

theorem QuoteDeployment_sound_witness:
  "\<exists>q. QuoteDeployment (\<lambda>_. 0) 1000 example_quote_policy ''runpod'' ''eu'' ''L40S'' ''catalog'' 1
     (FNum 2) Hour 500 2000 = Inr q \<and>
   4000 * dq_RetailHourlyMicrousd q \<le> (dq_RetailHourlyMicrousd q - 2000000) * 10000"
  using QuoteDeployment_sound [OF example_quote] example_quote by auto

lemma sp_Validate_None:
  assumes "sp_Validate p = None"
  shows "0 < sp_SupplierHourlyMicrousd (sp_Normalize p)"
    "sp_SupplierHourlyMicrousd (sp_Normalize p) \<le> sp_ActiveHourlyMicrousd (sp_Normalize p)"
    "sp_ActiveHourlyMicrousd (sp_Normalize p) \<le> 100000000"
  using assms by (auto simp: sp_Validate_def Let_def split: if_splits)

lemma sp_Normalize_idem: "sp_Normalize (sp_Normalize p) = sp_Normalize p"
  by (simp add: sp_Normalize_def default_int_def)

lemma sandbox_margin:
  assumes "0 < s" "s \<le> a" "a \<le> 100000000"
  shows "quot (i64 (i64 (a - s) * 10000)) a = (a - s) * 10000 div a"
    "0 \<le> (a - s) * 10000 div a" "(a - s) * 10000 div a < 10000"
    "(a - s) * 10000 div a * a \<le> (a - s) * 10000"
proof -
  have "i64 (i64 (a - s) * 10000) = (a - s) * 10000"
    unfolding i64_mult_left using assms by (intro i64_id) (simp add: is_i64_def min_i64_def max_i64_def)
  then show "quot (i64 (i64 (a - s) * 10000)) a = (a - s) * 10000 div a"
    using assms by (simp add: quot_nonneg)
  show "0 \<le> (a - s) * 10000 div a" using assms by (simp add: pos_imp_zdiv_nonneg_iff)
  show le: "(a - s) * 10000 div a * a \<le> (a - s) * 10000"
    using assms by (intro mult_le_of_le_div) simp_all
  show "(a - s) * 10000 div a < 10000"
  proof (rule ccontr)
    assume "\<not> ?thesis"
    then have "10000 * a \<le> (a - s) * 10000 div a * a" using assms by (intro mult_right_mono) simp_all
    then have "10000 * a \<le> (a - s) * 10000" using le by (rule order_trans)
    with assms show False by simp
  qed
qed

text \<open>
  A sandbox reservation is only made by an enabled valid policy and a lifetime of 30 seconds
  to 30 days; it reserves the least amount that covers the active rate for every started second
  of the lifetime, and the margin it records is the exact one rounded down, between 0 and 9999
  basis points.
\<close>

theorem sp_Reservation_sound:
  assumes "sp_Reservation oob p runtime name = Inr r"
  shows "sp_Enabled p \<and> sp_Validate p = None \<and> ms_ResourceName r = name \<and> name \<noteq> '''' \<and>
    30 * 1000000000 \<le> runtime \<and> runtime \<le> 30 * 24 * 3600 * 1000000000 \<and>
    ms_RetailHourlyMicrousd r = sp_ActiveHourlyMicrousd (sp_Normalize p) \<and>
    0 < ms_ReservedMicrousd r \<and>
    ms_ReservedMicrousd r = ceil_div (ms_RetailHourlyMicrousd r * started_seconds runtime) 3600 \<and>
    ms_RetailHourlyMicrousd r * runtime \<le> ms_ReservedMicrousd r * (3600 * 1000000000) \<and>
    0 \<le> ms_GrossMarginBPS r \<and> ms_GrossMarginBPS r < 10000 \<and>
    ms_GrossMarginBPS r * ms_RetailHourlyMicrousd r
      \<le> (ms_RetailHourlyMicrousd r - ms_SupplierHourlyMicrousd r) * 10000"
proof -
  let ?p = "sp_Normalize p"
  have en: "sp_Enabled ?p" and v: "sp_Validate ?p = None" and name: "name \<noteq> ''''"
    and rt: "30 * Second \<le> runtime" "runtime \<le> 30 * 24 * Hour"
    and cost: "DurationCostMicrousd oob (sp_ActiveHourlyMicrousd ?p) runtime = Inr (ms_ReservedMicrousd r)"
    and pos: "0 < ms_ReservedMicrousd r"
    and flds: "ms_RetailHourlyMicrousd r = sp_ActiveHourlyMicrousd ?p"
      "ms_SupplierHourlyMicrousd r = sp_SupplierHourlyMicrousd ?p" "ms_ResourceName r = name"
      "ms_GrossMarginBPS r =
        quot (i64 (i64 (sp_ActiveHourlyMicrousd ?p - sp_SupplierHourlyMicrousd ?p) * 10000))
          (sp_ActiveHourlyMicrousd ?p)"
    using assms unfolding sp_Reservation_def Let_def
    by (auto split: if_splits option.splits sum.splits)
  note price = sp_Validate_None [OF v, unfolded sp_Normalize_idem]
  note margin = sandbox_margin [OF price]
  have "0 \<le> runtime" "runtime < 2 ^ 22 * Second" using rt by simp_all
  note cover = DurationCost_cover(3,5) [OF this cost]
  have "sp_Enabled p" using en by (simp add: sp_Normalize_def)
  moreover have "sp_Validate p = None"
    using v by (simp add: sp_Validate_def Let_def sp_Normalize_idem)
  ultimately show ?thesis
    using name rt pos flds cover margin by simp
qed

definition example_sandbox_policy :: sandbox_policy where
  "example_sandbox_policy =
     \<lparr>sp_Enabled = True, sp_SupplierHourlyMicrousd = 120000, sp_ActiveHourlyMicrousd = 0,
      sp_WorkspaceStorageMicrousdPerGiBMonth = 0, sp_VCPU = 0, sp_MemoryMiB = 0,
      sp_IncludedWorkspaceGiB = 0, sp_MaxActive = 0, sp_MaxRetained = 0, sp_GlobalMaxActive = 0,
      sp_GlobalMaxRetained = 0\<rparr>"

lemma example_sandbox:
  "\<exists>r. sp_Reservation (\<lambda>_. 0) example_sandbox_policy Hour ''box-1'' = Inr r"
  by (simp add: sp_Reservation_def sp_Validate_def sp_Normalize_def default_int_def Let_def
      example_sandbox_policy_def DurationCost_spec started_seconds_def ceil_div_def max_i64_def)

theorem sp_Reservation_sound_witness:
  "\<exists>r. sp_Reservation (\<lambda>_. 0) example_sandbox_policy Hour ''box-1'' = Inr r \<and>
     ms_ReservedMicrousd r = 300000 \<and> ms_GrossMarginBPS r < 10000"
proof -
  obtain r where r: "sp_Reservation (\<lambda>_. 0) example_sandbox_policy Hour ''box-1'' = Inr r"
    using example_sandbox by blast
  from sp_Reservation_sound [OF r] r show ?thesis
    by (auto simp: started_seconds_def ceil_div_def example_sandbox_policy_def sp_Normalize_def
        default_int_def)
qed

end
