(* ===== verification/Go_Strings.thy ===== *)
theory Go_Strings
  imports Prelude
begin

text \<open>
  The functions of Go's \<open>strings\<close> package the modelled code uses. A Go string is a sequence of
  bytes; a \<open>char list\<close> holds the same bytes. \<open>TrimSpace\<close> removes the UTF-8 encodings of the
  characters \<open>unicode.IsSpace\<close> accepts from both ends.
\<close>

definition bytes :: "nat list \<Rightarrow> string" where
  "bytes = map char_of"

definition space_encodings :: "string list" where
  "space_encodings =
     [bytes [9], bytes [10], bytes [11], bytes [12], bytes [13], bytes [32], bytes [194, 133],
      bytes [194, 160], bytes [225, 154, 128], bytes [226, 128, 128], bytes [226, 128, 129],
      bytes [226, 128, 130], bytes [226, 128, 131], bytes [226, 128, 132], bytes [226, 128, 133],
      bytes [226, 128, 134], bytes [226, 128, 135], bytes [226, 128, 136], bytes [226, 128, 137],
      bytes [226, 128, 138], bytes [226, 128, 168], bytes [226, 128, 169], bytes [226, 128, 175],
      bytes [226, 129, 159], bytes [227, 128, 128]]"

definition HasPrefix :: "string \<Rightarrow> string \<Rightarrow> bool" where
  "HasPrefix s p = (take (length p) s = p)"

definition HasSuffix :: "string \<Rightarrow> string \<Rightarrow> bool" where
  "HasSuffix s p = (length p \<le> length s \<and> drop (length s - length p) s = p)"

definition TrimPrefix :: "string \<Rightarrow> string \<Rightarrow> string" where
  "TrimPrefix s p = (if HasPrefix s p then drop (length p) s else s)"

text \<open>Dropping the leading encodings of a given list; each one dropped shortens the string.\<close>

fun trim_front :: "nat \<Rightarrow> string list \<Rightarrow> string \<Rightarrow> string" where
  "trim_front 0 spaces s = s"
| "trim_front (Suc n) spaces s =
     (case find (HasPrefix s) spaces of
        None \<Rightarrow> s
      | Some p \<Rightarrow> trim_front n spaces (drop (length p) s))"

definition TrimSpace :: "string \<Rightarrow> string" where
  "TrimSpace s =
     (let left = trim_front (length s) space_encodings s
      in rev (trim_front (length left) (map rev space_encodings) (rev left)))"

text \<open>A required value is non-empty and carries no surrounding white space.\<close>

definition canonical :: "string \<Rightarrow> bool" where
  "canonical v = (\<not> (TrimSpace v = '''' \<or> v \<noteq> TrimSpace v))"

definition Contains :: "string \<Rightarrow> string \<Rightarrow> bool" where
  "Contains s p = (\<exists>i \<in> set [0..<Suc (length s)]. HasPrefix (drop i s) p)"

lemma canonical_nonempty: "canonical v \<Longrightarrow> v \<noteq> ''''"
  by (auto simp: canonical_def)

lemma TrimSpace_empty [simp]: "TrimSpace '''' = ''''"
  by (simp add: TrimSpace_def)

text \<open>A string of printable ASCII characters is canonical.\<close>

lemma bytes_nonempty: "p \<in> set space_encodings \<Longrightarrow> p \<noteq> []"
  by (auto simp: space_encodings_def bytes_def)

lemma space_head: "p \<in> set space_encodings \<Longrightarrow>
    of_char (hd p) \<in> {9, 10, 11, 12, 13, 32, 194, 225, 226, 227 :: nat}"
  by (auto simp: space_encodings_def bytes_def)

lemma space_last: "p \<in> set space_encodings \<Longrightarrow>
    of_char (last p) \<in> ({9, 10, 11, 12, 13, 32} \<union> {128..175} :: nat set)"
  by (auto simp: space_encodings_def bytes_def)

lemma trim_front_id:
  assumes "\<And>p. p \<in> set spaces \<Longrightarrow> p \<noteq> [] \<and> hd p \<noteq> hd s" "s \<noteq> []"
  shows "trim_front n spaces s = s"
proof (cases n)
  case (Suc m)
  have "\<not> HasPrefix s p" if "p \<in> set spaces" for p
    using assms(1) [OF that] assms(2) by (cases p; cases s) (auto simp: HasPrefix_def)
  then have "find (HasPrefix s) spaces = None" by (auto simp: find_None_iff)
  with Suc show ?thesis by simp
qed simp

lemma canonicalI:
  assumes "s \<noteq> []" "(32 :: nat) < of_char (hd s)" "of_char (hd s) < (128 :: nat)"
    "(32 :: nat) < of_char (last s)" "of_char (last s) < (128 :: nat)"
  shows "canonical s"
proof -
  have "hd p \<noteq> hd s" if "p \<in> set space_encodings" for p
    using space_head [OF that] assms(2,3) by auto
  then have "trim_front (length s) space_encodings s = s"
    using bytes_nonempty assms(1) by (intro trim_front_id) auto
  moreover have "hd p \<noteq> hd (rev s)" "p \<noteq> []" if "p \<in> set (map rev space_encodings)" for p
    using that space_last bytes_nonempty assms by (force simp: hd_rev)+
  then have "trim_front (length s) (map rev space_encodings) (rev s) = rev s"
    using assms(1) by (intro trim_front_id) auto
  ultimately show ?thesis using assms(1) by (simp add: canonical_def TrimSpace_def)
qed

end
