(* ===== verification/Reconciliation.thy ===== *)
theory Reconciliation
  imports Managed_Billing Go_Strings
begin

text \<open>
  \<open>internal/modelapireconciliation\<close>: settled Model API usage is reconciled against the immutable
  supplier rate its reservation pinned. Costs are computed with \<open>math/big\<close> and only then narrowed
  to \<open>int64\<close>. The content digest (SHA-256 over the JSON encoding) is a parameter, one function per
  encoded structure; a Left result is the encoder's error.

  Go iterates over the map of required names in an unspecified order; where several are invalid
  the model reports the first in the order of the literal.
\<close>


section \<open>Data\<close>

record supplier_rate_draft =
  rd_ID :: string
  rd_Version :: int
  rd_OfferID :: string
  rd_OfferVersion :: int
  rd_TupleKey :: string
  rd_Supplier :: string
  rd_SupplierModelID :: string
  rd_Currency :: string
  rd_InputMicrousdPerMillion :: int
  rd_OutputMicrousdPerMillion :: int
  rd_HasCachedInputRate :: bool
  rd_CachedInputMicrousdPerMillion :: int
  rd_Provenance :: string
  rd_ValidFrom :: gotime
  rd_ValidUntil :: gotime

record supplier_rate =
  sr_Draft :: supplier_rate_draft
  sr_Digest :: string

record settled_usage =
  su_ReservationID :: string
  su_State :: string
  su_OfferID :: string
  su_OfferVersion :: int
  su_TupleKey :: string
  su_Supplier :: string
  su_SupplierModelID :: string
  su_SupplierRateID :: string
  su_SupplierRateVersion :: int
  su_SupplierRateDigest :: string
  su_Currency :: string
  su_InputTokens :: int
  su_CachedInputTokens :: int
  su_OutputTokens :: int
  su_RetailMicrousd :: int
  su_ReservedAt :: gotime
  su_SettledAt :: gotime

record reconciliation =
  rc_SchemaVersion :: string
  rc_ReservationID :: string
  rc_OfferID :: string
  rc_OfferVersion :: int
  rc_TupleKey :: string
  rc_Supplier :: string
  rc_SupplierModelID :: string
  rc_SupplierRateID :: string
  rc_SupplierRateVersion :: int
  rc_SupplierRateDigest :: string
  rc_Currency :: string
  rc_InputTokens :: int
  rc_CachedInputTokens :: int
  rc_OutputTokens :: int
  rc_UncachedInputCOGSMicrousd :: int
  rc_CachedInputCOGSMicrousd :: int
  rc_OutputCOGSMicrousd :: int
  rc_SupplierCOGSMicrousd :: int
  rc_RetailMicrousd :: int
  rc_GrossProfitMicrousd :: int
  rc_GrossMarginDefined :: bool
  rc_GrossMarginBPS :: int
  rc_ReservedAt :: gotime
  rc_SettledAt :: gotime
  rc_Digest :: string


section \<open>Checked arithmetic over big integers\<close>

definition roundedUpCost :: "int \<Rightarrow> int \<Rightarrow> string + int" where
  "roundedUpCost tokens price =
     (if tokens = 0 \<or> price = 0 then Inr 0
      else let product = quot (tokens * price + (tokensPerMillion - 1)) tokensPerMillion
      in if \<not> is_i64 product then Inl ''supplier COGS overflows int64'' else Inr product)"

definition checkedSum :: "int list \<Rightarrow> string + int" where
  "checkedSum values =
     (let total = fold (\<lambda>v t. t + v) values 0
      in if \<not> is_i64 total then Inl ''supplier COGS overflows int64'' else Inr total)"

definition checkedDifference :: "int \<Rightarrow> int \<Rightarrow> string + int" where
  "checkedDifference left right =
     (let v = left - right in if \<not> is_i64 v then Inl ''gross profit overflows int64'' else Inr v)"

definition floorRatioBPS :: "int \<Rightarrow> int \<Rightarrow> string + int" where
  "floorRatioBPS profit revenue =
     (let numerator = profit * 10000;
          quotient0 = quot numerator revenue;
          remainder = gorem numerator revenue;
          quotient = (if numerator < 0 \<and> remainder \<noteq> 0 then quotient0 - 1 else quotient0)
      in if \<not> is_i64 quotient then Inl ''gross margin basis points overflow int64'' else Inr quotient)"


section \<open>Rates\<close>

fun required_loop :: "string \<Rightarrow> (string \<times> string) list \<Rightarrow> string option" where
  "required_loop subject [] = None"
| "required_loop subject ((name, v) # rest) =
     (if TrimSpace v = '''' \<or> v \<noteq> TrimSpace v
        then Some (subject @ '' '' @ name @ '' must be non-empty and canonical'')
      else required_loop subject rest)"

definition validateRateDraft :: "supplier_rate_draft \<Rightarrow> string option" where
  "validateRateDraft rate =
     (case required_loop ''supplier rate''
        [(''id'', rd_ID rate), (''offer id'', rd_OfferID rate), (''tuple key'', rd_TupleKey rate),
         (''supplier'', rd_Supplier rate), (''supplier model id'', rd_SupplierModelID rate),
         (''provenance'', rd_Provenance rate)] of
        Some err \<Rightarrow> Some err
      | None \<Rightarrow>
        if rd_Version rate \<le> 0 \<or> rd_OfferVersion rate \<le> 0
          then Some ''supplier rate and offer versions must be positive''
        else if rd_Currency rate \<noteq> ''USD'' then Some ''supplier rate currency is unsupported''
        else if rd_InputMicrousdPerMillion rate < 0 \<or> rd_OutputMicrousdPerMillion rate < 0 \<or>
            rd_CachedInputMicrousdPerMillion rate < 0
          then Some ''supplier token rates cannot be negative''
        else if \<not> rd_HasCachedInputRate rate \<and> rd_CachedInputMicrousdPerMillion rate \<noteq> 0
          then Some ''cached input price requires an explicit cached input rate''
        else if is_zero_time (rd_ValidFrom rate) \<or> is_zero_time (rd_ValidUntil rate) \<or>
            \<not> (rd_ValidUntil rate > rd_ValidFrom rate)
          then Some ''supplier rate requires an increasing validity window''
        else None)"

definition NewSupplierRate ::
  "(supplier_rate_draft \<Rightarrow> string + string) \<Rightarrow> supplier_rate_draft \<Rightarrow> string + supplier_rate" where
  "NewSupplierRate digest_rate draft =
     (case validateRateDraft draft of Some err \<Rightarrow> Inl err | None \<Rightarrow>
        case digest_rate draft of Inl err \<Rightarrow> Inl err
        | Inr digest \<Rightarrow> Inr \<lparr>sr_Draft = draft, sr_Digest = digest\<rparr>)"

definition sr_Validate :: "(supplier_rate_draft \<Rightarrow> string + string) \<Rightarrow> supplier_rate \<Rightarrow> string option" where
  "sr_Validate digest_rate rate =
     (case NewSupplierRate digest_rate (sr_Draft rate) of Inl err \<Rightarrow> Some err
      | Inr rebuilt \<Rightarrow>
          if sr_Digest rate = '''' \<or> sr_Digest rate \<noteq> sr_Digest rebuilt
            then Some ''supplier rate digest does not match its immutable terms'' else None)"

definition validateUsage :: "settled_usage \<Rightarrow> supplier_rate \<Rightarrow> string option" where
  "validateUsage usage rate =
     (let d = sr_Draft rate in
      case required_loop ''settled usage''
        [(''reservation id'', su_ReservationID usage), (''offer id'', su_OfferID usage),
         (''tuple key'', su_TupleKey usage), (''supplier'', su_Supplier usage),
         (''supplier model id'', su_SupplierModelID usage),
         (''supplier rate id'', su_SupplierRateID usage),
         (''supplier rate digest'', su_SupplierRateDigest usage)] of
        Some err \<Rightarrow> Some err
      | None \<Rightarrow>
        if su_State usage \<noteq> ''settled'' then Some ''supplier reconciliation requires settled usage''
        else if su_OfferVersion usage \<le> 0 \<or> su_SupplierRateVersion usage \<le> 0
          then Some ''settled usage offer and supplier rate versions must be positive''
        else if su_Currency usage \<noteq> ''USD'' then Some ''settled usage currency is unsupported''
        else if su_InputTokens usage < 0 \<or> su_OutputTokens usage < 0 \<or> su_CachedInputTokens usage < 0 \<or>
            su_CachedInputTokens usage > su_InputTokens usage \<or> su_RetailMicrousd usage < 0
          then Some ''settled token usage and retail charge must be non-negative, with cached input no greater than total input''
        else if is_zero_time (su_ReservedAt usage) \<or> is_zero_time (su_SettledAt usage) \<or>
            su_SettledAt usage < su_ReservedAt usage
          then Some ''settled usage requires ordered reservation and settlement timestamps''
        else if su_ReservedAt usage < rd_ValidFrom d \<or> \<not> (su_ReservedAt usage < rd_ValidUntil d)
          then Some ''supplier rate was not active when the reservation was created''
        else if su_SupplierRateID usage \<noteq> rd_ID d \<or> su_SupplierRateVersion usage \<noteq> rd_Version d \<or>
            su_SupplierRateDigest usage \<noteq> sr_Digest rate
          then Some ''settled usage does not reference the exact immutable supplier rate''
        else if su_OfferID usage \<noteq> rd_OfferID d \<or> su_OfferVersion usage \<noteq> rd_OfferVersion d \<or>
            su_TupleKey usage \<noteq> rd_TupleKey d \<or> su_Supplier usage \<noteq> rd_Supplier d \<or>
            su_SupplierModelID usage \<noteq> rd_SupplierModelID d \<or> su_Currency usage \<noteq> rd_Currency d
          then Some ''settled usage and supplier rate target identities do not match''
        else if su_CachedInputTokens usage > 0 \<and> \<not> rd_HasCachedInputRate d
          then Some ''cached input usage requires a pinned cached input supplier rate''
        else None)"


section \<open>Reconciliation\<close>

definition cached_cost :: "settled_usage \<Rightarrow> supplier_rate_draft \<Rightarrow> string + int" where
  "cached_cost usage d =
     (if su_CachedInputTokens usage > 0
      then roundedUpCost (su_CachedInputTokens usage) (rd_CachedInputMicrousdPerMillion d)
      else Inr 0)"

definition reconciliation_result ::
  "settled_usage \<Rightarrow> supplier_rate \<Rightarrow> int \<Rightarrow> int \<Rightarrow> int \<Rightarrow> int \<Rightarrow> int \<Rightarrow> reconciliation" where
  "reconciliation_result usage rate uncachedCost cachedCost outputCost totalCost grossProfit =
     \<lparr>rc_SchemaVersion = ''infercrane.model-api.supplier-reconciliation/v1'',
      rc_ReservationID = su_ReservationID usage, rc_OfferID = su_OfferID usage,
      rc_OfferVersion = su_OfferVersion usage, rc_TupleKey = su_TupleKey usage,
      rc_Supplier = su_Supplier usage, rc_SupplierModelID = su_SupplierModelID usage,
      rc_SupplierRateID = rd_ID (sr_Draft rate), rc_SupplierRateVersion = rd_Version (sr_Draft rate),
      rc_SupplierRateDigest = sr_Digest rate, rc_Currency = rd_Currency (sr_Draft rate),
      rc_InputTokens = su_InputTokens usage, rc_CachedInputTokens = su_CachedInputTokens usage,
      rc_OutputTokens = su_OutputTokens usage, rc_UncachedInputCOGSMicrousd = uncachedCost,
      rc_CachedInputCOGSMicrousd = cachedCost, rc_OutputCOGSMicrousd = outputCost,
      rc_SupplierCOGSMicrousd = totalCost, rc_RetailMicrousd = su_RetailMicrousd usage,
      rc_GrossProfitMicrousd = grossProfit, rc_GrossMarginDefined = False, rc_GrossMarginBPS = 0,
      rc_ReservedAt = su_ReservedAt usage, rc_SettledAt = su_SettledAt usage, rc_Digest = ''''\<rparr>"

definition add_margin :: "reconciliation \<Rightarrow> string + reconciliation" where
  "add_margin r =
     (if rc_RetailMicrousd r > 0
      then (case floorRatioBPS (rc_GrossProfitMicrousd r) (rc_RetailMicrousd r) of
              Inl err \<Rightarrow> Inl err
            | Inr bps \<Rightarrow> Inr (r\<lparr>rc_GrossMarginDefined := True, rc_GrossMarginBPS := bps\<rparr>))
      else Inr r)"

definition Reconcile ::
  "(supplier_rate_draft \<Rightarrow> string + string) \<Rightarrow> (reconciliation \<Rightarrow> string + string) \<Rightarrow>
   settled_usage \<Rightarrow> supplier_rate \<Rightarrow> string + reconciliation" where
  "Reconcile digest_rate digest_result usage rate =
     (case sr_Validate digest_rate rate of Some err \<Rightarrow> Inl err | None \<Rightarrow>
      case validateUsage usage rate of Some err \<Rightarrow> Inl err | None \<Rightarrow>
      case roundedUpCost (i64 (su_InputTokens usage - su_CachedInputTokens usage))
          (rd_InputMicrousdPerMillion (sr_Draft rate)) of Inl err \<Rightarrow> Inl err
      | Inr uncachedCost \<Rightarrow>
      (case cached_cost usage (sr_Draft rate) of Inl err \<Rightarrow> Inl err | Inr cachedCost \<Rightarrow>
      (case roundedUpCost (su_OutputTokens usage) (rd_OutputMicrousdPerMillion (sr_Draft rate)) of
        Inl err \<Rightarrow> Inl err
      | Inr outputCost \<Rightarrow>
      (case checkedSum [uncachedCost, cachedCost, outputCost] of Inl err \<Rightarrow> Inl err | Inr totalCost \<Rightarrow>
      (case checkedDifference (su_RetailMicrousd usage) totalCost of Inl err \<Rightarrow> Inl err
      | Inr grossProfit \<Rightarrow>
      (case add_margin
          (reconciliation_result usage rate uncachedCost cachedCost outputCost totalCost grossProfit) of
        Inl err \<Rightarrow> Inl err
      | Inr r \<Rightarrow>
      (case digest_result r of Inl err \<Rightarrow> Inl err | Inr digest \<Rightarrow> Inr (r\<lparr>rc_Digest := digest\<rparr>))))))))"


section \<open>Correctness\<close>

lemma quot_add_ceil: "0 \<le> a \<Longrightarrow> quot (a + (tokensPerMillion - 1)) tokensPerMillion = ceil_div a 1000000"
  by (simp add: tokensPerMillion_def quot_nonneg ceil_div_def)

lemma roundedUpCost_spec:
  assumes "0 \<le> tokens" "0 \<le> price"
  shows "roundedUpCost tokens price =
    (if is_i64 (ceil_div (tokens * price) 1000000) then Inr (ceil_div (tokens * price) 1000000)
     else Inl ''supplier COGS overflows int64'')"
proof (cases "tokens = 0 \<or> price = 0")
  case True
  then have z: "tokens * price = 0" by auto
  show ?thesis
    unfolding z using True by (simp add: roundedUpCost_def ceil_div_def is_i64_def max_i64_def min_i64_def)
next
  case False
  then show ?thesis
    using assms by (simp add: roundedUpCost_def Let_def quot_add_ceil)
qed

lemma roundedUpCost_Inr:
  assumes "0 \<le> tokens" "0 \<le> price" "roundedUpCost tokens price = Inr c"
  shows "c = ceil_div (tokens * price) 1000000" "0 \<le> c"
proof -
  show "c = ceil_div (tokens * price) 1000000"
    using assms(3) unfolding roundedUpCost_spec [OF assms(1,2)] by (simp split: if_splits)
  then show "0 \<le> c" using assms(1,2) by (simp add: ceil_div_nonneg)
qed

text \<open>Truncated division with the correction of the code is the floor.\<close>

lemma floorRatio_floor:
  assumes "0 < revenue" "floorRatioBPS profit revenue = Inr b"
  shows "b = profit * 10000 div revenue"
proof (cases "profit < 0")
  case False
  then have "quot (profit * 10000) revenue = profit * 10000 div revenue"
    using assms(1) by (intro quot_nonneg) simp_all
  then show ?thesis using False assms(2) by (auto simp: floorRatioBPS_def Let_def split: if_splits)
next
  case True
  define n where "n = - (profit * 10000)"
  have n: "0 < n" "profit * 10000 = - n" using True by (simp_all add: n_def)
  have q: "quot (- n) revenue = - (n div revenue)" using n assms(1) by (simp add: quot_def)
  then have r: "gorem (- n) revenue = - (n mod revenue)"
    by (simp add: gorem_def minus_mult_div_eq_mod [symmetric])
  show ?thesis
    using assms n q r zdiv_zminus1_eq_if [of revenue n]
    by (auto simp: floorRatioBPS_def Let_def split: if_splits)
qed

lemma Reconcile_InrE:
  assumes "Reconcile dr ds usage rate = Inr r"
  obtains a b c where "sr_Validate dr rate = None" "validateUsage usage rate = None"
    "roundedUpCost (i64 (su_InputTokens usage - su_CachedInputTokens usage))
       (rd_InputMicrousdPerMillion (sr_Draft rate)) = Inr a"
    "cached_cost usage (sr_Draft rate) = Inr b"
    "roundedUpCost (su_OutputTokens usage) (rd_OutputMicrousdPerMillion (sr_Draft rate)) = Inr c"
    "rc_SupplierCOGSMicrousd r = a + b + c" "is_i64 (a + b + c)"
    "rc_GrossProfitMicrousd r = su_RetailMicrousd usage - (a + b + c)"
    "rc_RetailMicrousd r = su_RetailMicrousd usage"
    "rc_GrossMarginDefined r \<longleftrightarrow> 0 < su_RetailMicrousd usage"
    "0 < su_RetailMicrousd usage \<Longrightarrow>
       floorRatioBPS (rc_GrossProfitMicrousd r) (su_RetailMicrousd usage) = Inr (rc_GrossMarginBPS r)"
    "rc_SupplierRateDigest r = sr_Digest rate" "rc_ReservationID r = su_ReservationID usage"
  using assms unfolding Reconcile_def checkedSum_def checkedDifference_def add_margin_def Let_def
  by (auto simp: reconciliation_result_def add.assoc split: option.splits sum.splits if_splits)


lemma sr_Validate_None:
  assumes "sr_Validate dr rate = None"
  shows "0 \<le> rd_InputMicrousdPerMillion (sr_Draft rate)" "0 \<le> rd_OutputMicrousdPerMillion (sr_Draft rate)"
    "0 \<le> rd_CachedInputMicrousdPerMillion (sr_Draft rate)"
    "\<exists>digest. dr (sr_Draft rate) = Inr digest \<and> sr_Digest rate = digest \<and> digest \<noteq> ''''"
  using assms
  by (auto simp: sr_Validate_def NewSupplierRate_def validateRateDraft_def
      split: option.splits sum.splits if_splits)

lemma validateUsage_None:
  assumes "validateUsage usage rate = None"
  shows "su_State usage = ''settled''" "0 \<le> su_OutputTokens usage" "0 \<le> su_CachedInputTokens usage"
    "su_CachedInputTokens usage \<le> su_InputTokens usage" "0 \<le> su_RetailMicrousd usage"
    "rd_ValidFrom (sr_Draft rate) \<le> su_ReservedAt usage" "su_ReservedAt usage < rd_ValidUntil (sr_Draft rate)"
    "su_SupplierRateDigest usage = sr_Digest rate" "su_ReservedAt usage \<le> su_SettledAt usage"
  using assms by (auto simp: validateUsage_def Let_def split: option.splits if_splits)

lemma cached_cost_Inr:
  assumes "0 \<le> su_CachedInputTokens usage" "0 \<le> rd_CachedInputMicrousdPerMillion d"
    "cached_cost usage d = Inr b"
  shows "b = ceil_div (su_CachedInputTokens usage * rd_CachedInputMicrousdPerMillion d) 1000000"
proof (cases "su_CachedInputTokens usage = 0")
  case True
  then show ?thesis using assms(3) by (simp add: cached_cost_def ceil_div_def)
next
  case False
  then show ?thesis
    using assms roundedUpCost_Inr(1) by (simp add: cached_cost_def)
qed

lemma floor_bounds: "0 < (b::int) \<Longrightarrow> (a div b) * b \<le> a \<and> a < (a div b + 1) * b"
proof -
  assume b: "0 < b"
  have "a div b * b = a - a mod b" by (simp add: minus_mod_eq_div_mult)
  then show ?thesis using b by (simp add: distrib_right)
qed

text \<open>
  A reconciliation is exact: the usage was settled while the pinned rate (matching by content
  digest) was active at reservation time; the supplier cost is the sum of the three token
  dimensions, each rounded up on its own, so it is never understated; the gross profit is retail
  minus cost; and the margin, defined exactly for positive retail, is the exact ratio in basis
  points rounded down, also for a loss.
\<close>

theorem Reconcile_exact:
  assumes "Reconcile digest_rate digest_result usage rate = Inr r"
    "is_i64 (su_InputTokens usage)" "is_i64 (su_CachedInputTokens usage)"
  shows "su_State usage = ''settled'' \<and> su_SupplierRateDigest usage = sr_Digest rate \<and>
    digest_rate (sr_Draft rate) = Inr (sr_Digest rate) \<and>
    rd_ValidFrom (sr_Draft rate) \<le> su_ReservedAt usage \<and>
    su_ReservedAt usage < rd_ValidUntil (sr_Draft rate) \<and>
    rc_SupplierCOGSMicrousd r =
      ceil_div ((su_InputTokens usage - su_CachedInputTokens usage) *
        rd_InputMicrousdPerMillion (sr_Draft rate)) 1000000 +
      ceil_div (su_CachedInputTokens usage * rd_CachedInputMicrousdPerMillion (sr_Draft rate)) 1000000 +
      ceil_div (su_OutputTokens usage * rd_OutputMicrousdPerMillion (sr_Draft rate)) 1000000 \<and>
    rc_GrossProfitMicrousd r = su_RetailMicrousd usage - rc_SupplierCOGSMicrousd r \<and>
    (rc_GrossMarginDefined r \<longleftrightarrow> 0 < su_RetailMicrousd usage) \<and>
    (0 < su_RetailMicrousd usage \<longrightarrow>
      rc_GrossMarginBPS r * su_RetailMicrousd usage \<le> rc_GrossProfitMicrousd r * 10000 \<and>
      rc_GrossProfitMicrousd r * 10000 < (rc_GrossMarginBPS r + 1) * su_RetailMicrousd usage)"
  using assms(1)
proof (rule Reconcile_InrE)
  fix a b c
  let ?d = "sr_Draft rate"
  assume rate: "sr_Validate digest_rate rate = None" and usage: "validateUsage usage rate = None"
    and a: "roundedUpCost (i64 (su_InputTokens usage - su_CachedInputTokens usage))
      (rd_InputMicrousdPerMillion ?d) = Inr a"
    and b: "cached_cost usage ?d = Inr b"
    and c: "roundedUpCost (su_OutputTokens usage) (rd_OutputMicrousdPerMillion ?d) = Inr c"
    and r: "rc_SupplierCOGSMicrousd r = a + b + c"
      "rc_GrossProfitMicrousd r = su_RetailMicrousd usage - (a + b + c)"
      "rc_GrossMarginDefined r \<longleftrightarrow> 0 < su_RetailMicrousd usage"
    and margin: "0 < su_RetailMicrousd usage \<Longrightarrow>
      floorRatioBPS (rc_GrossProfitMicrousd r) (su_RetailMicrousd usage) = Inr (rc_GrossMarginBPS r)"
  note v = validateUsage_None [OF usage] and s = sr_Validate_None [OF rate]
  have i: "i64 (su_InputTokens usage - su_CachedInputTokens usage) =
      su_InputTokens usage - su_CachedInputTokens usage"
    using assms(2,3) v by (intro i64_id) (simp add: is_i64_def min_i64_def max_i64_def)
  have "a = ceil_div ((su_InputTokens usage - su_CachedInputTokens usage) *
        rd_InputMicrousdPerMillion ?d) 1000000"
    using v s a unfolding i by (intro roundedUpCost_Inr(1)) simp_all
  moreover have "c = ceil_div (su_OutputTokens usage * rd_OutputMicrousdPerMillion ?d) 1000000"
    using v s c by (intro roundedUpCost_Inr(1)) simp_all
  moreover note cached_cost_Inr [OF v(3) s(3) b]
  moreover have "rc_GrossMarginBPS r * su_RetailMicrousd usage \<le> rc_GrossProfitMicrousd r * 10000 \<and>
      rc_GrossProfitMicrousd r * 10000 < (rc_GrossMarginBPS r + 1) * su_RetailMicrousd usage"
    if "0 < su_RetailMicrousd usage"
    using floor_bounds [OF that] floorRatio_floor [OF that margin [OF that]] by simp
  ultimately show ?thesis using v s r by auto
qed

definition example_rate :: supplier_rate where
  "example_rate =
     \<lparr>sr_Draft = \<lparr>rd_ID = ''rate-1'', rd_Version = 1, rd_OfferID = ''offer-1'', rd_OfferVersion = 1,
        rd_TupleKey = ''tuple'', rd_Supplier = ''acme'', rd_SupplierModelID = ''m'', rd_Currency = ''USD'',
        rd_InputMicrousdPerMillion = 250000, rd_OutputMicrousdPerMillion = 1000000,
        rd_HasCachedInputRate = True, rd_CachedInputMicrousdPerMillion = 50000,
        rd_Provenance = ''invoice'', rd_ValidFrom = 100, rd_ValidUntil = 900\<rparr>,
      sr_Digest = ''sha256:r''\<rparr>"

definition example_usage :: settled_usage where
  "example_usage =
     \<lparr>su_ReservationID = ''res-1'', su_State = ''settled'', su_OfferID = ''offer-1'', su_OfferVersion = 1,
      su_TupleKey = ''tuple'', su_Supplier = ''acme'', su_SupplierModelID = ''m'',
      su_SupplierRateID = ''rate-1'', su_SupplierRateVersion = 1, su_SupplierRateDigest = ''sha256:r'',
      su_Currency = ''USD'', su_InputTokens = 1001, su_CachedInputTokens = 400, su_OutputTokens = 7,
      su_RetailMicrousd = 100, su_ReservedAt = 200, su_SettledAt = 300\<rparr>"

lemma required_loop_canonical:
  "\<forall>(name, v) \<in> set xs. canonical v \<Longrightarrow> required_loop subject xs = None"
  by (induction xs) (auto simp: canonical_def)

lemma example_canonical:
  "canonical ''rate-1''" "canonical ''offer-1''" "canonical ''tuple''" "canonical ''acme''"
  "canonical ''m''" "canonical ''invoice''" "canonical ''res-1''" "canonical ''sha256:r''"
  by (rule canonicalI; simp)+

lemma example_reconcile:
  "\<exists>r. Reconcile (\<lambda>_. Inr ''sha256:r'') (\<lambda>_. Inr ''sha256:x'') example_usage example_rate = Inr r \<and>
     rc_SupplierCOGSMicrousd r = 178 \<and> rc_GrossMarginBPS r = - 7800"
proof -
  have v: "sr_Validate (\<lambda>_. Inr ''sha256:r'') example_rate = None"
    unfolding sr_Validate_def NewSupplierRate_def validateRateDraft_def
    by (subst required_loop_canonical) (simp_all add: example_rate_def example_canonical is_zero_time_def)
  have u: "validateUsage example_usage example_rate = None"
    unfolding validateUsage_def
    by (subst required_loop_canonical)
      (simp_all add: example_rate_def example_usage_def example_canonical is_zero_time_def)
  have i: "i64 601 = 601" by (intro i64_id) (simp add: is_i64_def min_i64_def max_i64_def)
  show ?thesis
    unfolding Reconcile_def v u option.case
    by (simp add: example_rate_def example_usage_def i roundedUpCost_spec cached_cost_def
        ceil_div_def checkedSum_def checkedDifference_def add_margin_def reconciliation_result_def
        floorRatioBPS_def quot_def gorem_def is_i64_def min_i64_def max_i64_def)
qed

theorem Reconcile_exact_witness:
  "\<exists>r. Reconcile (\<lambda>_. Inr ''sha256:r'') (\<lambda>_. Inr ''sha256:x'') example_usage example_rate = Inr r \<and>
     rc_GrossProfitMicrousd r = - 78 \<and> rc_GrossMarginDefined r"
proof -
  obtain r where r: "Reconcile (\<lambda>_. Inr ''sha256:r'') (\<lambda>_. Inr ''sha256:x'') example_usage example_rate =
      Inr r" "rc_SupplierCOGSMicrousd r = 178"
    using example_reconcile by blast
  have "is_i64 (su_InputTokens example_usage)" "is_i64 (su_CachedInputTokens example_usage)"
    by (simp_all add: example_usage_def is_i64_def min_i64_def max_i64_def)
  from Reconcile_exact [OF r(1) this] r show ?thesis by (simp add: example_usage_def)
qed

end
