(* ===== verification/Wallet.thy ===== *)
theory Wallet
  imports Managed_Billing Go_Strings Sql_Table
begin

text \<open>
  \<open>internal/store/managed_billing.go\<close> and \<open>internal/external/binding.go\<close>: the prepaid wallet, its
  ledger, and the usage reservations that hold, settle and release money.

  The wallet table is a map from tenants (its primary key); the ledger and the reservations are
  lists of rows. Every transaction locks the wallet and reservation rows it reads, so a
  transaction body is one step; a statement that violates a \<open>CHECK\<close> constraint, a unique index
  or the range of \<open>BIGINT\<close> fails and the transaction rolls back.

  The store's other holders of wallet money (deployment, sandbox and Model API reservations) are
  not in these tables: the theorems speak of the part of the reserved amount they own as
  whatever the usage reservations do not explain, and show that it never changes here.
\<close>


section \<open>Tables\<close>

record wallet_row =
  wl_balance :: int
  wl_reserved :: int
  wl_debt :: int
  wl_updated_at :: gotime

record ledger_row =
  lg_id :: string
  lg_tenant_id :: string
  lg_reservation_id :: "string option"
  lg_spend_reservation_id :: "string option"
  lg_kind :: string
  lg_amount :: int
  lg_description :: string
  lg_created_at :: gotime

datatype usage_state = UsReserved | UsSettled | UsReleased | UsPending

record usage_row =
  us_id :: string
  us_tenant_id :: string
  us_binding_id :: string
  us_supplier :: string
  us_model :: string
  us_reserved :: int
  us_actual :: "int option"
  us_input_tokens :: "int option"
  us_output_tokens :: "int option"
  us_state :: usage_state
  us_resolution :: string
  us_created_at :: gotime
  us_updated_at :: gotime

record wallet_db =
  wd_wallets :: "string \<Rightarrow> wallet_row option"
  wd_ledger :: "ledger_row list"
  wd_usage :: "usage_row list"

text \<open>The \<open>domain.ManagedWallet\<close> a caller receives.\<close>

record managed_wallet =
  mw_TenantID :: string
  mw_Currency :: string
  mw_BalanceMicrousd :: int
  mw_ReservedMicrousd :: int
  mw_DebtMicrousd :: int
  mw_AvailableMicrousd :: int
  mw_UpdatedAt :: gotime


section \<open>Statements on the wallet and the ledger\<close>

definition bigint_error :: store_error where "bigint_error = ErrOther ''bigint out of range''"
definition check_error :: store_error where "check_error = ErrOther ''violates check constraint''"

definition wallet_check :: "wallet_row \<Rightarrow> bool" where
  "wallet_check w = (0 \<le> wl_reserved w \<and> 0 \<le> wl_debt w \<and> 0 \<le> wl_balance w - wl_reserved w)"

text \<open>\<open>UPDATE managed_wallets ... WHERE tenant_id=?\<close>; no row, no effect.\<close>

definition update_wallet ::
  "string \<Rightarrow> (wallet_row \<Rightarrow> wallet_row) \<Rightarrow> ('a wallet_db_scheme) \<Rightarrow> store_error + 'a wallet_db_scheme" where
  "update_wallet tenant f db =
     (case wd_wallets db tenant of None \<Rightarrow> Inr db
      | Some w \<Rightarrow>
          let w' = f w in
          if \<not> (is_i64 (wl_balance w') \<and> is_i64 (wl_reserved w') \<and> is_i64 (wl_debt w')) then Inl bigint_error
          else if \<not> wallet_check w' then Inl check_error
          else Inr (db\<lparr>wd_wallets := (wd_wallets db)(tenant \<mapsto> w')\<rparr>))"

definition ensure_wallet ::
  "(string \<Rightarrow> bool) \<Rightarrow> string \<Rightarrow> gotime \<Rightarrow> 'a wallet_db_scheme \<Rightarrow> store_error + 'a wallet_db_scheme" where
  "ensure_wallet tenant_exists tenant stamp db =
     (case wd_wallets db tenant of Some _ \<Rightarrow> Inr db
      | None \<Rightarrow>
          if \<not> tenant_exists tenant then Inl (ErrOther ''violates foreign key constraint'')
          else Inr (db\<lparr>wd_wallets := (wd_wallets db)(tenant \<mapsto>
            \<lparr>wl_balance = 0, wl_reserved = 0, wl_debt = 0, wl_updated_at = stamp\<rparr>)\<rparr>))"

definition ledger_reservation_key :: "ledger_row \<Rightarrow> (string \<times> string \<times> string) option" where
  "ledger_reservation_key l =
     (case lg_reservation_id l of None \<Rightarrow> None | Some r \<Rightarrow> Some (lg_tenant_id l, r, lg_kind l))"

definition ledger_has_id :: "string \<Rightarrow> 'a wallet_db_scheme \<Rightarrow> bool" where
  "ledger_has_id lid db = (\<exists>l \<in> set (wd_ledger db). lg_id l = lid)"

definition append_ledger :: "ledger_row \<Rightarrow> 'a wallet_db_scheme \<Rightarrow> 'a wallet_db_scheme" where
  "append_ledger l db = db\<lparr>wd_ledger := wd_ledger db @ [l]\<rparr>"

definition credit_row :: "string \<Rightarrow> string \<Rightarrow> string \<Rightarrow> int \<Rightarrow> string \<Rightarrow> gotime \<Rightarrow> ledger_row" where
  "credit_row lid tenant kind amount description stamp =
     \<lparr>lg_id = lid, lg_tenant_id = tenant, lg_reservation_id = None, lg_spend_reservation_id = None,
      lg_kind = kind, lg_amount = amount, lg_description = description, lg_created_at = stamp\<rparr>"

text \<open>A plain insert without reservation: only the primary key can collide.\<close>

definition insert_ledger :: "ledger_row \<Rightarrow> 'a wallet_db_scheme \<Rightarrow> store_error + 'a wallet_db_scheme" where
  "insert_ledger l db =
     (if ledger_has_id (lg_id l) db then Inl (ErrOther ''violates unique constraint'')
      else Inr (append_ledger l db))"


section \<open>Wallet operations\<close>

definition wallet_of_row :: "string \<Rightarrow> wallet_row \<Rightarrow> managed_wallet" where
  "wallet_of_row tenant w =
     (let available = i64 (i64 (wl_balance w - wl_reserved w) - wl_debt w) in
      \<lparr>mw_TenantID = tenant, mw_Currency = ''USD'', mw_BalanceMicrousd = wl_balance w,
       mw_ReservedMicrousd = wl_reserved w, mw_DebtMicrousd = wl_debt w,
       mw_AvailableMicrousd = (if available < 0 then 0 else available),
       mw_UpdatedAt = wl_updated_at w\<rparr>)"

definition ManagedWallet :: "'a wallet_db_scheme \<Rightarrow> string \<Rightarrow> store_error + managed_wallet" where
  "ManagedWallet db tenant =
     (if tenant = '''' then Inl (ErrOther ''tenant is required'')
      else case wd_wallets db tenant of
        None \<Rightarrow> Inr \<lparr>mw_TenantID = tenant, mw_Currency = ''USD'', mw_BalanceMicrousd = 0,
          mw_ReservedMicrousd = 0, mw_DebtMicrousd = 0, mw_AvailableMicrousd = 0, mw_UpdatedAt = 0\<rparr>
      | Some w \<Rightarrow> Inr (wallet_of_row tenant w))"

definition managedWalletTx :: "'a wallet_db_scheme \<Rightarrow> string \<Rightarrow> store_error + managed_wallet" where
  "managedWalletTx db tenant =
     (case wd_wallets db tenant of None \<Rightarrow> Inl (ErrOther ''sql: no rows in result set'')
      | Some w \<Rightarrow> Inr (wallet_of_row tenant w))"

definition applyManagedCreditTx ::
  "string \<Rightarrow> int \<Rightarrow> gotime \<Rightarrow> 'a wallet_db_scheme \<Rightarrow> store_error + 'a wallet_db_scheme" where
  "applyManagedCreditTx tenant amountMicrousd stamp db =
     update_wallet tenant
       (\<lambda>w. w\<lparr>wl_balance := wl_balance w + max (amountMicrousd - wl_debt w) 0,
          wl_debt := max (wl_debt w - amountMicrousd) 0, wl_updated_at := stamp\<rparr>) db"

definition reconcileManagedDebtTx ::
  "string \<Rightarrow> gotime \<Rightarrow> 'a wallet_db_scheme \<Rightarrow> store_error + 'a wallet_db_scheme" where
  "reconcileManagedDebtTx tenant stamp db =
     (case wd_wallets db tenant of None \<Rightarrow> Inl (ErrOther ''sql: no rows in result set'')
      | Some w \<Rightarrow>
          let available = i64 (wl_balance w - wl_reserved w) in
          if available \<le> 0 \<or> wl_debt w = 0 then Inr db
          else let reconciled = (if wl_debt w > available then available else wl_debt w) in
            update_wallet tenant
              (\<lambda>w. w\<lparr>wl_balance := wl_balance w - reconciled, wl_debt := wl_debt w - reconciled,
                 wl_updated_at := stamp\<rparr>) db)"

definition CreditManagedWallet ::
  "(string \<Rightarrow> bool) \<Rightarrow> gotime \<Rightarrow> 'a wallet_db_scheme \<Rightarrow> string \<Rightarrow> string \<Rightarrow> string \<Rightarrow> int \<Rightarrow>
   (store_error + managed_wallet) \<times> 'a wallet_db_scheme" where
  "CreditManagedWallet tenant_exists stamp db tenant creditID description amountMicrousd =
     (if tenant = '''' \<or> creditID = '''' \<or> description = '''' \<or> amountMicrousd < 1
        then (Inl (ErrOther ''tenant, credit id, description, and a positive amount are required''), db)
      else case commit_tx db
          (bind_err (ensure_wallet tenant_exists tenant stamp db) (\<lambda>db1.
             if ledger_has_id creditID db1 then Inr ((), db1)
             else bind_err (applyManagedCreditTx tenant amountMicrousd stamp
                 (append_ledger (credit_row creditID tenant ''credit'' amountMicrousd description stamp) db1))
               (\<lambda>db2. Inr ((), db2)))) of
          (Inl e, db') \<Rightarrow> (Inl e, db')
        | (Inr _, db') \<Rightarrow> (ManagedWallet db' tenant, db'))"


section \<open>Managed binding configuration\<close>

record managed_binding_config =
  bc_Adapter :: string
  bc_SecretReferenceID :: string
  bc_Enabled :: bool
  bc_PrivacyAcknowledged :: bool
  bc_RequestLimit :: int
  bc_CostLimitMicrousd :: int
  bc_MaxRequestCostMicrousd :: int
  bc_BillingMode :: string
  bc_InputMicrousdPerMTok :: int
  bc_OutputMicrousdPerMTok :: int
  bc_CostBasisInputMicrousdPerMTok :: int
  bc_CostBasisOutputMicrousdPerMTok :: int
  bc_MinimumGrossMarginBPS :: int
  bc_CostBasisProvenance :: string
  bc_RateCardValidUntil :: string

definition supportedAdapters :: "string list" where
  "supportedAdapters = [''openrouter'', ''openai-compatible-external'', ''modal'', ''runpod-serverless-api'', ''fly-io'',
     ''baseten'', ''fireworks'']"

definition SupportedAdapter :: "string \<Rightarrow> bool" where
  "SupportedAdapter adapter = (adapter \<in> set supportedAdapters)"

text \<open>The gross-margin floor of one token direction.\<close>

definition margin_floor :: "string \<Rightarrow> int \<Rightarrow> int \<Rightarrow> int \<Rightarrow> string option" where
  "margin_floor component cost price bps =
     (case MinimumRetailPriceMicrousd cost bps of
        Inl err \<Rightarrow> Some (component @ '' rate-card economics are invalid: '' @ err)
      | Inr minimumRetail \<Rightarrow>
          if price < minimumRetail
            then Some (component @ '' retail price does not satisfy the immutable gross-margin floor'')
          else None)"

text \<open>\<open>parse_time\<close> is \<open>time.Parse(time.RFC3339, _)\<close>, \<open>None\<close> on a syntax error.\<close>

definition ValidateManagedBindingConfig ::
  "(string \<Rightarrow> gotime option) \<Rightarrow> managed_binding_config \<Rightarrow> string option" where
  "ValidateManagedBindingConfig parse_time c =
     (if \<not> SupportedAdapter (bc_Adapter c) then Some ''unsupported managed external adapter''
      else if TrimSpace (bc_SecretReferenceID c) = '''' then Some ''managed external binding requires a secret reference''
      else if bc_Enabled c \<and> \<not> bc_PrivacyAcknowledged c
        then Some ''enabled managed external binding requires explicit privacy acknowledgement''
      else if bc_RequestLimit c < 1 then Some ''managed external binding requires a positive request limit''
      else if bc_CostLimitMicrousd c < 1 \<or> bc_MaxRequestCostMicrousd c < 1 \<or>
          bc_MaxRequestCostMicrousd c > bc_CostLimitMicrousd c
        then Some ''managed external binding requires a hard cost limit and bounded worst-case request reservation''
      else if bc_BillingMode c \<noteq> '''' \<and> bc_BillingMode c \<noteq> ''byoc'' \<and> bc_BillingMode c \<noteq> ''customer_wallet''
        then Some ''managed external binding billing_mode must be byoc or customer_wallet''
      else if bc_BillingMode c = ''customer_wallet'' then
        (if bc_InputMicrousdPerMTok c < 0 \<or> bc_OutputMicrousdPerMTok c < 0 \<or>
            (bc_InputMicrousdPerMTok c = 0 \<and> bc_OutputMicrousdPerMTok c = 0)
           then Some ''customer-wallet billing requires a non-negative, non-zero token price''
         else if bc_CostBasisInputMicrousdPerMTok c < 0 \<or> bc_CostBasisOutputMicrousdPerMTok c < 0 \<or>
            (bc_CostBasisInputMicrousdPerMTok c = 0 \<and> bc_CostBasisOutputMicrousdPerMTok c = 0)
           then Some ''customer-wallet billing requires a non-negative, non-zero internal cost basis''
         else if bc_MinimumGrossMarginBPS c < 1500 \<or> bc_MinimumGrossMarginBPS c \<ge> 10000
           then Some ''customer-wallet billing requires a gross margin floor between 1500 and 9999 basis points''
         else if TrimSpace (bc_CostBasisProvenance c) = ''''
           then Some ''customer-wallet billing requires internal cost-basis provenance''
         else if parse_time (bc_RateCardValidUntil c) = None
           then Some ''customer-wallet billing requires an RFC3339 rate-card expiry''
         else case margin_floor ''input'' (bc_CostBasisInputMicrousdPerMTok c)
             (bc_InputMicrousdPerMTok c) (bc_MinimumGrossMarginBPS c) of
           Some err \<Rightarrow> Some err
         | None \<Rightarrow> margin_floor ''output'' (bc_CostBasisOutputMicrousdPerMTok c)
             (bc_OutputMicrousdPerMTok c) (bc_MinimumGrossMarginBPS c))
      else if bc_InputMicrousdPerMTok c \<noteq> 0 \<or> bc_OutputMicrousdPerMTok c \<noteq> 0 \<or>
          bc_CostBasisInputMicrousdPerMTok c \<noteq> 0 \<or> bc_CostBasisOutputMicrousdPerMTok c \<noteq> 0 \<or>
          bc_MinimumGrossMarginBPS c \<noteq> 0 \<or> bc_CostBasisProvenance c \<noteq> '''' \<or> bc_RateCardValidUntil c \<noteq> ''''
        then Some ''retail prices and internal rate-card economics are valid only for customer-wallet billing''
      else None)"

text \<open>
  \<open>decode\<close> is the strict JSON decoder (unknown fields and trailing data rejected). The result is
  the configuration with whether the binding is managed at all.
\<close>

definition ParseManagedBindingConfig ::
  "(string \<Rightarrow> string + managed_binding_config) \<Rightarrow> (string \<Rightarrow> gotime option) \<Rightarrow> string \<Rightarrow>
   string + managed_binding_config option" where
  "ParseManagedBindingConfig decode parse_time raw =
     (let trimmed = TrimSpace raw in
      if trimmed = '''' \<or> trimmed = ''{}'' \<or> trimmed = ''null'' then Inr None
      else case decode trimmed of Inl err \<Rightarrow> Inl err
      | Inr config \<Rightarrow>
          (case ValidateManagedBindingConfig parse_time config of
             Some err \<Rightarrow> Inl err
           | None \<Rightarrow> Inr (Some config)))"


section \<open>Usage reservations\<close>

text \<open>The parts of the environment the reservation code reads.\<close>

record billing_env =
  be_sha256 :: "string \<Rightarrow> string"
  be_decode :: "string \<Rightarrow> string + managed_binding_config"
  be_parse_time :: "string \<Rightarrow> gotime option"
  be_binding_config :: "string \<Rightarrow> string \<Rightarrow> string option"

record usage_authorization =
  ua_ReservationID :: string
  ua_Required :: bool
  ua_ReservedMicrousd :: int

definition managedUsageReservationID :: "(string \<Rightarrow> string) \<Rightarrow> string \<Rightarrow> string \<Rightarrow> string" where
  "managedUsageReservationID sha256 tenant requestID =
     ''usage_'' @ hex_encode (take 16 (sha256 (tenant @ [CHR 0x00] @ requestID)))"

definition new_usage_row :: "string \<Rightarrow> string \<Rightarrow> string \<Rightarrow> string \<Rightarrow> string \<Rightarrow> int \<Rightarrow> gotime \<Rightarrow> usage_row" where
  "new_usage_row rid tenant bindingID supplier model amount stamp =
     \<lparr>us_id = rid, us_tenant_id = tenant, us_binding_id = bindingID, us_supplier = supplier,
      us_model = model, us_reserved = amount, us_actual = None, us_input_tokens = None,
      us_output_tokens = None, us_state = UsReserved, us_resolution = '''', us_created_at = stamp,
      us_updated_at = stamp\<rparr>"

definition authorize_existing ::
  "string \<Rightarrow> string \<Rightarrow> usage_row \<Rightarrow> store_error + usage_authorization" where
  "authorize_existing tenant bindingID r =
     (if us_tenant_id r \<noteq> tenant \<or> us_binding_id r \<noteq> bindingID
        then Inl (ErrConflict ''request id belongs to another managed usage boundary'')
      else if us_state r = UsReleased then Inl (ErrConflict ''released request id cannot be reused'')
      else Inr \<lparr>ua_ReservationID = us_id r, ua_Required = True, ua_ReservedMicrousd = us_reserved r\<rparr>)"

definition hold_funds ::
  "gotime \<Rightarrow> 'a wallet_db_scheme \<Rightarrow> string \<Rightarrow> usage_row \<Rightarrow> store_error + 'a wallet_db_scheme" where
  "hold_funds stamp db tenant r =
     (if us_reserved r \<le> 0 then Inl check_error
      else update_wallet tenant
        (\<lambda>w. w\<lparr>wl_reserved := wl_reserved w + us_reserved r, wl_updated_at := stamp\<rparr>)
        (db\<lparr>wd_usage := wd_usage db @ [r]\<rparr>))"

definition AuthorizeManagedUsage ::
  "billing_env \<Rightarrow> gotime \<Rightarrow> 'a wallet_db_scheme \<Rightarrow> string \<Rightarrow> string \<Rightarrow> string \<Rightarrow> string \<Rightarrow> string \<Rightarrow>
   (store_error + usage_authorization) \<times> 'a wallet_db_scheme" where
  "AuthorizeManagedUsage env stamp db tenant bindingID requestID supplier model =
     (if tenant = '''' \<or> bindingID = '''' \<or> requestID = '''' \<or> supplier = '''' \<or> model = ''''
        then (Inl (ErrOther ''tenant, binding, request, supplier, and model are required''), db)
      else let reservationID = managedUsageReservationID (be_sha256 env) tenant requestID in
      case find (\<lambda>r. us_id r = reservationID) (wd_usage db) of
        Some r \<Rightarrow> (authorize_existing tenant bindingID r, db)
      | None \<Rightarrow> commit_tx db
          (case be_binding_config env tenant bindingID of None \<Rightarrow> Inl ErrNotFound
           | Some configJSON \<Rightarrow>
             (case ParseManagedBindingConfig (be_decode env) (be_parse_time env) configJSON of
                Inl _ \<Rightarrow> Inl (ErrConflict ''managed billing policy is invalid'')
              | Inr None \<Rightarrow> Inl (ErrConflict ''managed billing policy is invalid'')
              | Inr (Some config) \<Rightarrow>
                if bc_BillingMode config \<noteq> ''customer_wallet''
                  then Inr (\<lparr>ua_ReservationID = '''', ua_Required = False, ua_ReservedMicrousd = 0\<rparr>, db)
                else if bc_Adapter config \<noteq> supplier
                  then Inl (ErrConflict ''supplier does not match immutable binding policy'')
                else if (case be_parse_time env (bc_RateCardValidUntil config) of
                    None \<Rightarrow> True | Some expiry \<Rightarrow> \<not> (expiry > stamp))
                  then Inl (ErrConflict ''managed rate card expired; supplier request was not sent'')
                else case wd_wallets db tenant of
                  None \<Rightarrow> Inl (ErrConflict ''prepaid balance is insufficient'')
                | Some w \<Rightarrow>
                    if i64 (i64 (wl_balance w - wl_reserved w) - wl_debt w) < bc_MaxRequestCostMicrousd config
                      then Inl (ErrConflict ''prepaid balance is insufficient'')
                    else bind_err (hold_funds stamp db tenant (new_usage_row reservationID tenant bindingID
                        supplier model (bc_MaxRequestCostMicrousd config) stamp))
                      (\<lambda>db'. Inr (\<lparr>ua_ReservationID = reservationID, ua_Required = True,
                         ua_ReservedMicrousd = bc_MaxRequestCostMicrousd config\<rparr>, db')))))"

definition managedReservationForUpdate ::
  "billing_env \<Rightarrow> 'a wallet_db_scheme \<Rightarrow> string \<Rightarrow> string \<Rightarrow> store_error + usage_row \<times> managed_binding_config" where
  "managedReservationForUpdate env db tenant rid =
     (case find (\<lambda>r. us_tenant_id r = tenant \<and> us_id r = rid) (wd_usage db) of
        None \<Rightarrow> Inl ErrNotFound
      | Some r \<Rightarrow>
        (case be_binding_config env tenant (us_binding_id r) of
           None \<Rightarrow> Inl ErrNotFound
         | Some configJSON \<Rightarrow>
           (case ParseManagedBindingConfig (be_decode env) (be_parse_time env) configJSON of
              Inr (Some config) \<Rightarrow>
                if bc_BillingMode config \<noteq> ''customer_wallet''
                  then Inl (ErrConflict ''reservation billing policy is invalid'')
                else Inr (r, config)
            | _ \<Rightarrow> Inl (ErrConflict ''reservation billing policy is invalid''))))"

definition usage_open :: "usage_row \<Rightarrow> bool" where
  "usage_open r = (us_state r = UsReserved \<or> us_state r = UsPending)"

definition usage_key :: "string \<Rightarrow> string \<Rightarrow> usage_row \<Rightarrow> bool" where
  "usage_key tenant rid r = (us_tenant_id r = tenant \<and> us_id r = rid)"

definition set_usage ::
  "string \<Rightarrow> string \<Rightarrow> (usage_row \<Rightarrow> usage_row) \<Rightarrow> 'a wallet_db_scheme \<Rightarrow> 'a wallet_db_scheme" where
  "set_usage tenant rid f db = db\<lparr>wd_usage := upd_where (usage_key tenant rid) f (wd_usage db)\<rparr>"

text \<open>\<open>INSERT ... ON CONFLICT(tenant_id,reservation_id,kind) DO NOTHING\<close>; the primary key still
  fails.\<close>

definition insert_settlement ::
  "string \<Rightarrow> string \<Rightarrow> int \<Rightarrow> string \<Rightarrow> gotime \<Rightarrow> 'a wallet_db_scheme \<Rightarrow> store_error + 'a wallet_db_scheme" where
  "insert_settlement tenant rid amount resolution stamp db =
     (let l = \<lparr>lg_id = ''settlement_'' @ rid, lg_tenant_id = tenant, lg_reservation_id = Some rid,
           lg_spend_reservation_id = None, lg_kind = ''settlement'', lg_amount = amount,
           lg_description = resolution, lg_created_at = stamp\<rparr>
      in if has_key ledger_reservation_key (ledger_reservation_key l) (wd_ledger db) then Inr db
         else insert_ledger l db)"

definition settle_pending :: "gotime \<Rightarrow> usage_row \<Rightarrow> usage_row" where
  "settle_pending stamp r =
     r\<lparr>us_state := UsPending, us_resolution := ''supplier usage absent; reservation retained'',
       us_updated_at := stamp\<rparr>"

definition settle_row :: "int \<Rightarrow> int \<Rightarrow> int \<Rightarrow> string \<Rightarrow> gotime \<Rightarrow> usage_row \<Rightarrow> usage_row" where
  "settle_row actual it ot resolution stamp r =
     r\<lparr>us_actual := Some actual, us_input_tokens := Some it, us_output_tokens := Some ot,
       us_state := UsSettled, us_resolution := resolution, us_updated_at := stamp\<rparr>"

text \<open>The charge is capped at the reservation.\<close>

definition settlement_charge :: "int \<Rightarrow> int \<Rightarrow> int \<times> string" where
  "settlement_charge cost reserved =
     (if cost > reserved
      then (reserved, ''observed cost exceeded hard reservation; charged reservation ceiling'')
      else (cost, ''observed token usage''))"

definition settle_charge ::
  "gotime \<Rightarrow> 'a wallet_db_scheme \<Rightarrow> string \<Rightarrow> string \<Rightarrow> usage_row \<Rightarrow> int \<Rightarrow> int \<Rightarrow> int \<Rightarrow> string \<Rightarrow>
   store_error + usage_row \<times> 'a wallet_db_scheme" where
  "settle_charge stamp db tenant rid row it ot actual resolution =
     bind_err (update_wallet tenant
         (\<lambda>w. w\<lparr>wl_balance := wl_balance w - actual, wl_reserved := wl_reserved w - us_reserved row,
            wl_updated_at := stamp\<rparr>) db) (\<lambda>db1.
     bind_err (insert_settlement tenant rid (- actual) resolution stamp db1) (\<lambda>db2.
     bind_err (reconcileManagedDebtTx tenant stamp
         (set_usage tenant rid (settle_row actual it ot resolution stamp) db2)) (\<lambda>db3.
     Inr (settle_row actual it ot resolution stamp row, db3))))"

definition settle_open ::
  "gotime \<Rightarrow> 'a wallet_db_scheme \<Rightarrow> string \<Rightarrow> string \<Rightarrow> int option \<Rightarrow> int option \<Rightarrow> usage_row \<Rightarrow>
   managed_binding_config \<Rightarrow> store_error + usage_row \<times> 'a wallet_db_scheme" where
  "settle_open stamp db tenant rid inputTokens outputTokens row config =
     (case (inputTokens, outputTokens) of
        (Some it, Some ot) \<Rightarrow>
          (case TokenCostMicrousd it ot (bc_InputMicrousdPerMTok config) (bc_OutputMicrousdPerMTok config) of
             Inl err \<Rightarrow> Inl (ErrOther err)
           | Inr cost \<Rightarrow>
               (case settlement_charge cost (us_reserved row) of (actual, resolution) \<Rightarrow>
                  settle_charge stamp db tenant rid row it ot actual resolution))
      | _ \<Rightarrow> Inr (settle_pending stamp row, set_usage tenant rid (settle_pending stamp) db))"

definition SettleManagedUsage ::
  "billing_env \<Rightarrow> gotime \<Rightarrow> 'a wallet_db_scheme \<Rightarrow> string \<Rightarrow> string \<Rightarrow> int option \<Rightarrow> int option \<Rightarrow>
   (store_error + usage_row) \<times> 'a wallet_db_scheme" where
  "SettleManagedUsage env stamp db tenant rid inputTokens outputTokens =
     commit_tx db
       (bind_err (managedReservationForUpdate env db tenant rid) (\<lambda>(row, config).
          if \<not> usage_open row then Inr (row, db)
          else settle_open stamp db tenant rid inputTokens outputTokens row config))"

definition release_row :: "string \<Rightarrow> gotime \<Rightarrow> usage_row \<Rightarrow> usage_row" where
  "release_row reason stamp r =
     r\<lparr>us_state := UsReleased, us_resolution := reason, us_updated_at := stamp\<rparr>"

definition ReleaseManagedUsage ::
  "billing_env \<Rightarrow> gotime \<Rightarrow> 'a wallet_db_scheme \<Rightarrow> string \<Rightarrow> string \<Rightarrow> string \<Rightarrow> (store_error + unit) \<times> 'a wallet_db_scheme" where
  "ReleaseManagedUsage env stamp db tenant rid reason =
     (if tenant = '''' \<or> rid = '''' \<or> reason = ''''
        then (Inl (ErrOther ''tenant, reservation, and reason are required''), db)
      else commit_tx db
        (bind_err (managedReservationForUpdate env db tenant rid) (\<lambda>(row, _).
           if \<not> usage_open row then Inr ((), db)
           else bind_err (update_wallet tenant
               (\<lambda>w. w\<lparr>wl_reserved := wl_reserved w - us_reserved row, wl_updated_at := stamp\<rparr>) db) (\<lambda>db1.
             bind_err (reconcileManagedDebtTx tenant stamp
               (set_usage tenant rid (release_row reason stamp) db1)) (\<lambda>db2. Inr ((), db2))))))"

text \<open>
  The listings: newest first, the limit replaced when out of range. Rows created at the same
  instant are ordered by id under the database's collation; the model keeps the table's order.
\<close>

definition list_limit :: "int \<Rightarrow> nat" where
  "list_limit limit = nat (if limit < 1 \<or> limit > 500 then 100 else limit)"

definition ManagedUsageReservations ::
  "'a wallet_db_scheme \<Rightarrow> string \<Rightarrow> usage_state option \<Rightarrow> int \<Rightarrow> store_error + usage_row list" where
  "ManagedUsageReservations db tenant state limit =
     (if tenant = '''' then Inl (ErrOther ''tenant is required'')
      else Inr (take (list_limit limit) (sort_key (\<lambda>r. - us_created_at r)
        (filter (\<lambda>r. us_tenant_id r = tenant \<and> (state = None \<or> state = Some (us_state r)))
          (wd_usage db)))))"

definition ManagedWalletLedger :: "'a wallet_db_scheme \<Rightarrow> string \<Rightarrow> int \<Rightarrow> ledger_row list" where
  "ManagedWalletLedger db tenant limit =
     take (list_limit limit) (sort_key (\<lambda>l. - lg_created_at l)
       (filter (\<lambda>l. lg_tenant_id l = tenant) (wd_ledger db)))"


section \<open>Accounts\<close>

text \<open>
  What the tables say of a tenant: its wallet, the sum of its ledger and the money its open usage
  reservations hold. An account is consistent relative to what the other stores hold (\<open>other\<close>)
  and have booked outside this ledger (\<open>drift\<close>).
\<close>

definition ledger_sum :: "'a wallet_db_scheme \<Rightarrow> string \<Rightarrow> int" where
  "ledger_sum db t = sum_list (map (\<lambda>l. if lg_tenant_id l = t then lg_amount l else 0) (wd_ledger db))"

definition held :: "string \<Rightarrow> usage_row \<Rightarrow> int" where
  "held t r = (if us_tenant_id r = t \<and> usage_open r then us_reserved r else 0)"

definition outstanding :: "'a wallet_db_scheme \<Rightarrow> string \<Rightarrow> int" where
  "outstanding db t = sum_list (map (held t) (wd_usage db))"

definition account_ok :: "int \<Rightarrow> int \<Rightarrow> wallet_row option \<Rightarrow> int \<Rightarrow> int \<Rightarrow> bool" where
  "account_ok other drift wallet booked hold \<longleftrightarrow>
     (case wallet of None \<Rightarrow> booked + drift = 0 \<and> hold + other = 0
      | Some w \<Rightarrow> wallet_check w \<and> is_i64 (wl_balance w) \<and> is_i64 (wl_debt w) \<and>
          wl_balance w - wl_debt w = booked + drift \<and> wl_reserved w = hold + other)"

definition usage_table_ok :: "'a wallet_db_scheme \<Rightarrow> bool" where
  "usage_table_ok db \<longleftrightarrow>
     distinct (map us_id (wd_usage db)) \<and> (\<forall>r \<in> set (wd_usage db). 0 < us_reserved r) \<and>
     (\<forall>l \<in> set (wd_ledger db). lg_reservation_id l \<noteq> None \<longrightarrow>
       (\<exists>r \<in> set (wd_usage db). lg_reservation_id l = Some (us_id r) \<and> \<not> usage_open r))"

definition wallet_inv :: "(string \<Rightarrow> int) \<Rightarrow> (string \<Rightarrow> int) \<Rightarrow> 'a wallet_db_scheme \<Rightarrow> bool" where
  "wallet_inv other drift db \<longleftrightarrow>
     (\<forall>t. 0 \<le> other t) \<and> usage_table_ok db \<and>
     (\<forall>t. account_ok (other t) (drift t) (wd_wallets db t) (ledger_sum db t) (outstanding db t))"

lemma ledger_sum_append [simp]:
  "ledger_sum (append_ledger l db) t = ledger_sum db t + (if lg_tenant_id l = t then lg_amount l else 0)"
  by (simp add: ledger_sum_def append_ledger_def)

lemma append_ledger_sel [simp]:
  "wd_wallets (append_ledger l db) = wd_wallets db" "wd_usage (append_ledger l db) = wd_usage db"
  "outstanding (append_ledger l db) = outstanding db" "wd_ledger (append_ledger l db) = wd_ledger db @ [l]"
  by (auto simp: append_ledger_def outstanding_def)

lemma set_usage_sel [simp]:
  "wd_wallets (set_usage t rid f db) = wd_wallets db" "wd_ledger (set_usage t rid f db) = wd_ledger db"
  "wd_usage (set_usage t rid f db) = upd_where (usage_key t rid) f (wd_usage db)"
  "ledger_sum (set_usage t rid f db) = ledger_sum db"
  by (auto simp: set_usage_def ledger_sum_def)

lemma update_wallet_Inr:
  assumes "update_wallet tenant f db = Inr db'"
  obtains "wd_wallets db tenant = None" "db' = db"
  | w where "wd_wallets db tenant = Some w" "wallet_check (f w)" "is_i64 (wl_balance (f w))"
      "is_i64 (wl_debt (f w))" "db' = db\<lparr>wd_wallets := (wd_wallets db)(tenant \<mapsto> f w)\<rparr>"
  using assms by (auto simp: update_wallet_def Let_def split: option.splits if_splits)

text \<open>The wallet statement leaves the other tables and the other tenants alone.\<close>

lemma update_wallet_frame:
  assumes "update_wallet tenant f db = Inr db'"
  shows "wd_ledger db' = wd_ledger db" "wd_usage db' = wd_usage db"
    "ledger_sum db' = ledger_sum db" "outstanding db' = outstanding db"
    "t \<noteq> tenant \<Longrightarrow> wd_wallets db' t = wd_wallets db t"
  by (rule update_wallet_Inr [OF assms]; auto simp: ledger_sum_def outstanding_def)+

lemma usage_table_ok_cong:
  "usage_table_ok db \<Longrightarrow> wd_usage db' = wd_usage db \<Longrightarrow>
   (\<And>l. l \<in> set (wd_ledger db') \<Longrightarrow> l \<in> set (wd_ledger db) \<or> lg_reservation_id l = None) \<Longrightarrow>
   usage_table_ok db'"
  unfolding usage_table_ok_def by metis

text \<open>A transaction that books an amount for one tenant and moves its wallet accordingly.\<close>

lemma wallet_inv_change:
  assumes inv: "wallet_inv other drift db" and tab: "usage_table_ok db'"
    and frame: "\<And>t. t \<noteq> tenant \<Longrightarrow> wd_wallets db' t = wd_wallets db t \<and>
      ledger_sum db' t = ledger_sum db t \<and> outstanding db' t = outstanding db t"
    and acc: "account_ok (other tenant) (drift tenant) (wd_wallets db' tenant) (ledger_sum db' tenant)
      (outstanding db' tenant)"
  shows "wallet_inv other drift db'"
proof -
  have "account_ok (other t) (drift t) (wd_wallets db' t) (ledger_sum db' t) (outstanding db' t)" for t
    using inv frame [of t] acc by (cases "t = tenant") (auto simp: wallet_inv_def)
  then show ?thesis using inv tab by (simp add: wallet_inv_def)
qed

lemma wallet_invD:
  "wallet_inv other drift db \<Longrightarrow>
     account_ok (other t) (drift t) (wd_wallets db t) (ledger_sum db t) (outstanding db t)"
  "wallet_inv other drift db \<Longrightarrow> usage_table_ok db" "wallet_inv other drift db \<Longrightarrow> 0 \<le> other t"
  by (simp_all add: wallet_inv_def)

lemma outstanding_nonneg: "usage_table_ok db \<Longrightarrow> 0 \<le> outstanding db t"
  unfolding outstanding_def usage_table_ok_def held_def by (intro sum_list_nonneg) fastforce


section \<open>Every operation keeps the accounts\<close>

lemma ensure_wallet_inv:
  assumes "ensure_wallet tex tenant stamp db = Inr db'" "wallet_inv other drift db"
  shows "wallet_inv other drift db'" "wd_wallets db' tenant \<noteq> None" "wd_ledger db' = wd_ledger db"
proof -
  have shape: "(db' = db \<and> wd_wallets db tenant \<noteq> None) \<or> (wd_wallets db tenant = None \<and>
      db' = db\<lparr>wd_wallets := (wd_wallets db)(tenant \<mapsto>
        \<lparr>wl_balance = 0, wl_reserved = 0, wl_debt = 0, wl_updated_at = stamp\<rparr>)\<rparr>)"
    using assms(1) by (auto simp: ensure_wallet_def split: option.splits if_splits)
  then show "wd_wallets db' tenant \<noteq> None" "wd_ledger db' = wd_ledger db" by auto
  show "wallet_inv other drift db'"
    using shape
  proof (elim disjE conjE)
    assume none: "wd_wallets db tenant = None" and db': "db' = db\<lparr>wd_wallets := (wd_wallets db)(tenant \<mapsto>
        \<lparr>wl_balance = 0, wl_reserved = 0, wl_debt = 0, wl_updated_at = stamp\<rparr>)\<rparr>"
    have same: "ledger_sum db' = ledger_sum db" "outstanding db' = outstanding db"
      by (simp_all add: db' ledger_sum_def outstanding_def fun_eq_iff)
    show ?thesis
    proof (rule wallet_inv_change [OF assms(2)])
      show "usage_table_ok db'"
        using wallet_invD(2) [OF assms(2)] by (rule usage_table_ok_cong) (simp_all add: db')
      show "account_ok (other tenant) (drift tenant) (wd_wallets db' tenant) (ledger_sum db' tenant)
          (outstanding db' tenant)"
        using wallet_invD(1) [OF assms(2), of tenant] none unfolding same
        by (simp add: account_ok_def db' wallet_check_def is_i64_def min_i64_def max_i64_def)
    qed (use same db' in auto)
  qed (use assms(2) in simp)
qed

lemma credit_inv:
  assumes "wallet_inv other drift db" "wd_wallets db tenant \<noteq> None" "lg_reservation_id l = None"
    "lg_tenant_id l = tenant" "lg_amount l = amount" "0 < amount"
    "applyManagedCreditTx tenant amount stamp (append_ledger l db) = Inr db'"
  shows "wallet_inv other drift db'"
proof -
  note upd = assms(7) [unfolded applyManagedCreditTx_def]
  note frame = update_wallet_frame [OF upd]
  show ?thesis
  proof (rule wallet_inv_change [OF assms(1)])
    show "usage_table_ok db'"
      using wallet_invD(2) [OF assms(1)] by (rule usage_table_ok_cong) (auto simp: frame assms(3))
    show "account_ok (other tenant) (drift tenant) (wd_wallets db' tenant) (ledger_sum db' tenant)
        (outstanding db' tenant)"
      using upd
    proof (rule update_wallet_Inr)
      fix w
      assume w: "wd_wallets (append_ledger l db) tenant = Some w"
        and db': "db' = append_ledger l db\<lparr>wd_wallets := (wd_wallets (append_ledger l db))(tenant \<mapsto>
          w\<lparr>wl_balance := wl_balance w + max (amount - wl_debt w) 0,
            wl_debt := max (wl_debt w - amount) 0, wl_updated_at := stamp\<rparr>)\<rparr>"
        and ok: "is_i64 (wl_balance (w\<lparr>wl_balance := wl_balance w + max (amount - wl_debt w) 0,
            wl_debt := max (wl_debt w - amount) 0, wl_updated_at := stamp\<rparr>))"
          "is_i64 (wl_debt (w\<lparr>wl_balance := wl_balance w + max (amount - wl_debt w) 0,
            wl_debt := max (wl_debt w - amount) 0, wl_updated_at := stamp\<rparr>))"
      show ?thesis
        using wallet_invD(1) [OF assms(1), of tenant] w ok assms(4-6) unfolding frame
        by (auto simp: account_ok_def db' wallet_check_def)
    qed (use assms(2) in simp)
  qed (use frame assms(4) in auto)
qed

lemma CreditManagedWallet_inv [step_inv]:
  assumes "CreditManagedWallet tex stamp db tenant cid desc amount = (res, db')" "wallet_inv other drift db"
  shows "wallet_inv other drift db'"
proof -
  let ?body = "bind_err (ensure_wallet tex tenant stamp db) (\<lambda>db1.
     if ledger_has_id cid db1 then Inr ((), db1)
     else bind_err (applyManagedCreditTx tenant amount stamp
         (append_ledger (credit_row cid tenant ''credit'' amount desc stamp) db1)) (\<lambda>db2. Inr ((), db2)))"
  consider "db' = db" | res' where "commit_tx db ?body = (res', db')" "1 \<le> amount"
    using assms(1) by (auto simp: CreditManagedWallet_def split: if_splits prod.splits sum.splits)
  then show ?thesis
  proof cases
    case 2
    show ?thesis
      using 2(1) assms(2)
    proof (rule commit_txI)
      fix u
      assume "?body = Inr (u, db')"
      then obtain db1 where db1: "ensure_wallet tex tenant stamp db = Inr db1"
        and rest: "db1 = db' \<or> applyManagedCreditTx tenant amount stamp
          (append_ledger (credit_row cid tenant ''credit'' amount desc stamp) db1) = Inr db'"
        by (auto simp: bind_err_Inr split: if_splits)
      note e = ensure_wallet_inv [OF db1 assms(2)]
      from rest show "wallet_inv other drift db'"
      proof
        assume "applyManagedCreditTx tenant amount stamp
          (append_ledger (credit_row cid tenant ''credit'' amount desc stamp) db1) = Inr db'"
        then show ?thesis using 2(2) by (intro credit_inv [OF e(1,2)]) (auto simp: credit_row_def)
      qed (use e(1) in simp)
    qed
  qed (use assms(2) in simp)
qed

lemma reconcile_debt_inv:
  assumes "reconcileManagedDebtTx tenant stamp db = Inr db'" "wallet_inv other drift db"
  shows "wallet_inv other drift db'"
proof -
  obtain w where w: "wd_wallets db tenant = Some w"
    using assms(1) by (auto simp: reconcileManagedDebtTx_def split: option.splits)
  have acc: "wallet_check w" "is_i64 (wl_balance w)" "is_i64 (wl_debt w)"
    "wl_balance w - wl_debt w = ledger_sum db tenant + drift tenant"
    "wl_reserved w = outstanding db tenant + other tenant"
    using wallet_invD(1) [OF assms(2), of tenant] w by (auto simp: account_ok_def)
  have av: "i64 (wl_balance w - wl_reserved w) = wl_balance w - wl_reserved w"
    using acc(1,2) by (intro i64_id) (simp add: wallet_check_def is_i64_def min_i64_def max_i64_def)
  define r where "r = (if wl_debt w > wl_balance w - wl_reserved w then wl_balance w - wl_reserved w
    else wl_debt w)"
  consider "db' = db" | "update_wallet tenant (\<lambda>w. w\<lparr>wl_balance := wl_balance w - r,
      wl_debt := wl_debt w - r, wl_updated_at := stamp\<rparr>) db = Inr db'"
  proof (cases "wl_balance w - wl_reserved w \<le> 0 \<or> wl_debt w = 0")
    case True
    then have "db' = db"
      using assms(1) unfolding reconcileManagedDebtTx_def w option.case Let_def av by simp
    then show ?thesis using that(1) by blast
  next
    case False
    then have "update_wallet tenant (\<lambda>w. w\<lparr>wl_balance := wl_balance w - r,
        wl_debt := wl_debt w - r, wl_updated_at := stamp\<rparr>) db = Inr db'"
      using assms(1) unfolding reconcileManagedDebtTx_def w option.case Let_def av r_def
      by (simp only: if_False simp_thms)
    then show ?thesis using that(2) by blast
  qed
  then show ?thesis
  proof cases
    case 2
    have r: "0 \<le> r" "r \<le> wl_balance w - wl_reserved w" "r \<le> wl_debt w"
      using acc(1) by (auto simp: r_def wallet_check_def)
    note frame = update_wallet_frame [OF 2]
    have wal: "wd_wallets db' tenant = Some (w\<lparr>wl_balance := wl_balance w - r,
        wl_debt := wl_debt w - r, wl_updated_at := stamp\<rparr>)"
      by (rule update_wallet_Inr [OF 2]) (use w in auto)
    show ?thesis
    proof (rule wallet_inv_change [OF assms(2)])
      show "usage_table_ok db'"
        using wallet_invD(2) [OF assms(2)] by (rule usage_table_ok_cong) (simp_all add: frame)
      show "account_ok (other tenant) (drift tenant) (wd_wallets db' tenant) (ledger_sum db' tenant)
          (outstanding db' tenant)"
        unfolding wal frame using acc r
        by (simp add: account_ok_def wallet_check_def is_i64_def min_i64_def max_i64_def)
    qed (use frame in auto)
  qed (use assms(2) in simp)
qed


lemma find_usage:
  assumes "find (\<lambda>r. us_tenant_id r = tenant \<and> us_id r = rid) rows = Some r"
  shows "r \<in> set rows" "usage_key tenant rid r"
  using assms by (auto simp: find_Some_iff usage_key_def)

lemma usage_unique:
  "distinct (map us_id rows) \<Longrightarrow> r \<in> set rows \<Longrightarrow> usage_key tenant rid r \<Longrightarrow>
   \<forall>x \<in> set rows. usage_key tenant rid x \<longrightarrow> x = r"
  by (auto simp: usage_key_def distinct_map inj_on_def)

lemma outstanding_set_usage:
  assumes "usage_table_ok db" "r \<in> set (wd_usage db)" "usage_key tenant rid r"
  shows "outstanding (set_usage tenant rid f db) t = outstanding db t - held t r + held t (f r)"
proof -
  have d: "distinct (map us_id (wd_usage db))" using assms(1) by (simp add: usage_table_ok_def)
  then have "distinct (wd_usage db)" by (simp add: distinct_map)
  then show ?thesis
    unfolding outstanding_def set_usage_sel
    using sum_upd_where_unique [OF assms(2,3) usage_unique [OF d assms(2,3)]] by blast
qed

text \<open>Rewriting a reservation in place keeps the table well formed when closed rows stay closed.\<close>

lemma usage_table_set_usage:
  assumes "usage_table_ok db" "\<And>r. us_id (f r) = us_id r" "\<And>r. us_reserved (f r) = us_reserved r"
    "\<And>r. r \<in> set (wd_usage db) \<Longrightarrow> usage_key tenant rid r \<Longrightarrow> \<not> usage_open r \<Longrightarrow> \<not> usage_open (f r)"
  shows "usage_table_ok (set_usage tenant rid f db)"
proof -
  have "map us_id (wd_usage (set_usage tenant rid f db)) = map us_id (wd_usage db)"
    using assms(2) by (simp add: map_upd_where)
  moreover have "\<forall>r \<in> set (wd_usage (set_usage tenant rid f db)). 0 < us_reserved r"
    using assms(1,3) by (auto simp: set_upd_where usage_table_ok_def)
  moreover have "\<exists>r \<in> set (wd_usage (set_usage tenant rid f db)). lg_reservation_id l = Some (us_id r) \<and>
      \<not> usage_open r" if l: "l \<in> set (wd_ledger db)" "lg_reservation_id l \<noteq> None" for l
  proof -
    obtain r where r: "r \<in> set (wd_usage db)" "lg_reservation_id l = Some (us_id r)" "\<not> usage_open r"
      using assms(1) l by (auto simp: usage_table_ok_def)
    let ?r = "if usage_key tenant rid r then f r else r"
    have "?r \<in> set (wd_usage (set_usage tenant rid f db))" using r(1) by (force simp: set_upd_where)
    moreover have "us_id ?r = us_id r" "\<not> usage_open ?r" using assms(2,4) r by auto
    ultimately show ?thesis using r(2) by metis
  qed
  ultimately show ?thesis using assms(1) by (simp add: usage_table_ok_def)
qed

lemma AuthorizeManagedUsage_inv [step_inv]:
  assumes "AuthorizeManagedUsage env stamp db tenant binding request supplier model = (res, db')"
    "wallet_inv other drift db"
  shows "wallet_inv other drift db'"
proof -
  define rid where "rid = managedUsageReservationID (be_sha256 env) tenant request"
  have cases: "db' = db \<or> (\<exists>amount w. find (\<lambda>r. us_id r = rid) (wd_usage db) = None \<and>
      wd_wallets db tenant = Some w \<and>
      hold_funds stamp db tenant (new_usage_row rid tenant binding supplier model amount stamp) = Inr db')"
    using assms(1) unfolding AuthorizeManagedUsage_def Let_def rid_def [symmetric]
    by (auto simp: commit_tx_def bind_err_def split: if_splits option.splits sum.splits)
  then show ?thesis
  proof (elim disjE exE conjE)
    fix amount w
    assume new: "find (\<lambda>r. us_id r = rid) (wd_usage db) = None" and w: "wd_wallets db tenant = Some w"
      and hold: "hold_funds stamp db tenant (new_usage_row rid tenant binding supplier model amount stamp) =
        Inr db'"
    define row where "row = new_usage_row rid tenant binding supplier model amount stamp"
    have row: "us_id row = rid" "us_tenant_id row = tenant" "us_reserved row = amount" "usage_open row"
      by (simp_all add: row_def new_usage_row_def usage_open_def)
    have pos: "0 < amount" and upd: "update_wallet tenant
        (\<lambda>w. w\<lparr>wl_reserved := wl_reserved w + amount, wl_updated_at := stamp\<rparr>)
        (db\<lparr>wd_usage := wd_usage db @ [row]\<rparr>) = Inr db'"
      using hold row unfolding row_def [symmetric] by (auto simp: hold_funds_def split: if_splits)
    note frame = update_wallet_frame [OF upd]
    have out: "outstanding db' t = outstanding db t + (if t = tenant then amount else 0)" for t
      unfolding frame using row by (auto simp: outstanding_def held_def)
    have led: "ledger_sum db' = ledger_sum db" "wd_ledger db' = wd_ledger db"
      unfolding frame by (auto simp: ledger_sum_def)
    have wal: "wd_wallets db' tenant = Some (w\<lparr>wl_reserved := wl_reserved w + amount, wl_updated_at := stamp\<rparr>)"
      "wallet_check (w\<lparr>wl_reserved := wl_reserved w + amount, wl_updated_at := stamp\<rparr>)"
      by (rule update_wallet_Inr [OF upd]; use w in auto)+
    have fresh: "rid \<notin> us_id ` set (wd_usage db)" using new by (auto simp: find_None_iff)
    show ?thesis
    proof (rule wallet_inv_change [OF assms(2)])
      show "usage_table_ok db'"
        using wallet_invD(2) [OF assms(2)] fresh row pos unfolding usage_table_ok_def frame led
        by auto
      show "account_ok (other tenant) (drift tenant) (wd_wallets db' tenant) (ledger_sum db' tenant)
          (outstanding db' tenant)"
        using wallet_invD(1) [OF assms(2), of tenant] w wal out led by (simp add: account_ok_def)
    qed (use frame out led in auto)
  qed (use assms(2) in simp)
qed

lemma managedReservation_Inr:
  assumes "managedReservationForUpdate env db tenant rid = Inr (row, config)"
  shows "row \<in> set (wd_usage db)" "usage_key tenant rid row" "us_tenant_id row = tenant" "us_id row = rid"
proof -
  have "find (\<lambda>r. us_tenant_id r = tenant \<and> us_id r = rid) (wd_usage db) = Some row"
    using assms unfolding managedReservationForUpdate_def
    by (auto split: option.splits sum.splits if_splits)
  from find_usage [OF this] show "row \<in> set (wd_usage db)" "usage_key tenant rid row"
    "us_tenant_id row = tenant" "us_id row = rid" by (auto simp: usage_key_def)
qed

lemma open_has_wallet:
  assumes inv: "wallet_inv other drift db" and row: "row \<in> set (wd_usage db)" "usage_key tenant rid row"
    "usage_open row"
  shows "\<exists>w. wd_wallets db tenant = Some w"
proof (cases "wd_wallets db tenant")
  case None
  have tab: "usage_table_ok db" by (rule wallet_invD(2) [OF inv])
  have "outstanding db tenant = 0"
    using None wallet_invD(1) [OF inv, of tenant] wallet_invD(3) [OF inv, of tenant]
      outstanding_nonneg [OF tab, of tenant] by (simp add: account_ok_def)
  moreover have "held tenant row \<le> outstanding db tenant"
    unfolding outstanding_def using tab row(1)
    by (intro sum_list_nonneg_ge) (fastforce simp: usage_table_ok_def held_def)+
  moreover have "0 < us_reserved row" using tab row(1) by (simp add: usage_table_ok_def)
  ultimately show ?thesis using row(2,3) by (simp add: held_def usage_key_def)
qed simp

text \<open>
  Closing an open reservation: the wallet gives up the whole hold and the amount charged, the
  ledger books it, and the account stays consistent.
\<close>

lemma close_reservation_inv:
  assumes inv: "wallet_inv other drift db" and row: "row \<in> set (wd_usage db)" "usage_key tenant rid row"
      "usage_open row" and actual: "0 \<le> actual"
    and upd: "update_wallet tenant (\<lambda>w. w\<lparr>wl_balance := wl_balance w - actual,
        wl_reserved := wl_reserved w - us_reserved row, wl_updated_at := stamp\<rparr>) db = Inr db1"
    and led: "wd_ledger db2 = wd_ledger db1 @ booked" "wd_wallets db2 = wd_wallets db1"
      "wd_usage db2 = wd_usage db1"
      "\<forall>l \<in> set booked. lg_tenant_id l = tenant \<and> lg_reservation_id l = Some rid"
      "sum_list (map lg_amount booked) = - actual"
    and f: "\<And>r. us_id (f r) = us_id r" "\<And>r. us_reserved (f r) = us_reserved r"
      "\<And>r. \<not> usage_open (f r)" "\<And>r. us_tenant_id (f r) = us_tenant_id r"
  shows "wallet_inv other drift (set_usage tenant rid f db2)"
proof (rule wallet_inv_change [OF inv, where tenant = tenant])
  note frame = update_wallet_frame [OF upd]
  have tab: "usage_table_ok db" by (rule wallet_invD(2) [OF inv])
  let ?db = "set_usage tenant rid f db2"
  have key: "us_tenant_id row = tenant" "us_id row = rid" using row(2) by (auto simp: usage_key_def)
  have usage: "wd_usage ?db = wd_usage (set_usage tenant rid f db)" using led(3) frame(2) by simp
  have out: "outstanding ?db t = outstanding db t - (if t = tenant then us_reserved row else 0)" for t
  proof -
    have "outstanding ?db t = outstanding (set_usage tenant rid f db) t"
      unfolding outstanding_def usage by simp
    then show ?thesis
      unfolding outstanding_set_usage [OF tab row(1,2)] using f(3) [of row] row(3) key
      by (auto simp: held_def)
  qed
  have sum: "ledger_sum ?db t = ledger_sum db t + (if t = tenant then - actual else 0)" for t
  proof -
    have "sum_list (map (\<lambda>l. if lg_tenant_id l = t then lg_amount l else 0) booked) =
        (if t = tenant then sum_list (map lg_amount booked) else 0)"
      using led(4) by (induction booked) auto
    then show ?thesis using led(1,5) frame(1) by (simp add: ledger_sum_def)
  qed
  show "wd_wallets ?db t = wd_wallets db t \<and> ledger_sum ?db t = ledger_sum db t \<and>
      outstanding ?db t = outstanding db t" if "t \<noteq> tenant" for t
    using that frame led(2) by (simp add: sum out del: set_usage_sel(4))
  have tab': "usage_table_ok (set_usage tenant rid f db)"
    using tab f by (intro usage_table_set_usage) auto
  have closed: "f row \<in> set (wd_usage ?db)" "us_id (f row) = rid" "\<not> usage_open (f row)"
    using row key f unfolding usage by (force simp: set_upd_where)+
  have "\<exists>r \<in> set (wd_usage ?db). lg_reservation_id l = Some (us_id r) \<and> \<not> usage_open r"
    if "l \<in> set (wd_ledger ?db)" "lg_reservation_id l \<noteq> None" for l
  proof (cases "l \<in> set booked")
    case True
    then show ?thesis using closed led(4) by (intro bexI [of _ "f row"]) auto
  next
    case False
    then show ?thesis using that tab' unfolding usage by (simp add: usage_table_ok_def led(1) frame(1))
  qed
  then show "usage_table_ok ?db" using tab' unfolding usage_table_ok_def usage by blast
  obtain w where w: "wd_wallets db tenant = Some w" using open_has_wallet [OF inv row] by blast
  have wal: "wd_wallets db1 tenant = Some (w\<lparr>wl_balance := wl_balance w - actual,
      wl_reserved := wl_reserved w - us_reserved row, wl_updated_at := stamp\<rparr>)"
    "wallet_check (w\<lparr>wl_balance := wl_balance w - actual,
      wl_reserved := wl_reserved w - us_reserved row, wl_updated_at := stamp\<rparr>)"
    "is_i64 (wl_balance w - actual)"
    by (rule update_wallet_Inr [OF upd]; use w in auto)+
  show "account_ok (other tenant) (drift tenant) (wd_wallets ?db tenant) (ledger_sum ?db tenant)
      (outstanding ?db tenant)"
    using wallet_invD(1) [OF inv, of tenant] w wal led(2)
    by (simp add: account_ok_def sum out del: set_usage_sel(4))
qed


lemma insert_settlement_fresh:
  assumes "usage_table_ok db" "row \<in> set (wd_usage db)" "us_id row = rid" "usage_open row"
    "wd_ledger db1 = wd_ledger db" "insert_settlement tenant rid amount res stamp db1 = Inr db2"
  shows "\<exists>l. wd_ledger db2 = wd_ledger db1 @ [l] \<and> lg_tenant_id l = tenant \<and>
    lg_reservation_id l = Some rid \<and> lg_amount l = amount \<and> wd_wallets db2 = wd_wallets db1 \<and>
    wd_usage db2 = wd_usage db1"
proof -
  have "lg_reservation_id l \<noteq> Some rid" if "l \<in> set (wd_ledger db)" for l
    using assms(1-4) that unfolding usage_table_ok_def
    by (metis distinct_map inj_onD option.distinct(1) option.inject)
  then have "\<not> has_key ledger_reservation_key (Some (tenant, rid, ''settlement'')) (wd_ledger db1)"
    using assms(5) by (auto simp: has_key_def ledger_reservation_key_def split: option.splits)
  then show ?thesis
    using assms(6)
    by (auto simp: insert_settlement_def Let_def ledger_reservation_key_def insert_ledger_def
        split: if_splits)
qed

lemma TokenCost_nonneg: "TokenCostMicrousd it ot ip op = Inr c \<Longrightarrow> 0 \<le> c"
proof -
  assume c: "TokenCostMicrousd it ot ip op = Inr c"
  then have "0 \<le> it" "0 \<le> ot" "0 \<le> ip" "0 \<le> op"
    by (auto simp: TokenCostMicrousd_def split: if_splits)
  from TokenCost_shape [OF this] c this show ?thesis
    by (auto intro!: add_nonneg_nonneg ceil_div_nonneg split: if_splits)
qed

lemma settlement_charge_min: "fst (settlement_charge cost reserved) = min cost reserved"
  by (simp add: settlement_charge_def)

lemma settle_row_sel [simp]:
  "us_id (settle_row a i j m s r) = us_id r" "us_reserved (settle_row a i j m s r) = us_reserved r"
  "us_tenant_id (settle_row a i j m s r) = us_tenant_id r" "\<not> usage_open (settle_row a i j m s r)"
  by (simp_all add: settle_row_def usage_open_def)

lemma settle_charge_inv:
  assumes inv: "wallet_inv other drift db" and row: "row \<in> set (wd_usage db)" "usage_key tenant rid row"
      "usage_open row" and actual: "0 \<le> actual"
    and run: "settle_charge stamp db tenant rid row it ot actual resolution = Inr (out, db')"
  shows "wallet_inv other drift db'" "out = settle_row actual it ot resolution stamp row"
proof -
  obtain db1 db2 where upd: "update_wallet tenant (\<lambda>w. w\<lparr>wl_balance := wl_balance w - actual,
         wl_reserved := wl_reserved w - us_reserved row, wl_updated_at := stamp\<rparr>) db = Inr db1"
    and ins: "insert_settlement tenant rid (- actual) resolution stamp db1 = Inr db2"
    and rec: "reconcileManagedDebtTx tenant stamp
         (set_usage tenant rid (settle_row actual it ot resolution stamp) db2) = Inr db'"
    and out: "out = settle_row actual it ot resolution stamp row"
    using run unfolding settle_charge_def bind_err_Inr by blast
  show "out = settle_row actual it ot resolution stamp row" by (rule out)
  have key: "us_id row = rid" using row(2) by (simp add: usage_key_def)
  note frame = update_wallet_frame [OF upd]
  obtain l where l: "wd_ledger db2 = wd_ledger db1 @ [l]" "lg_tenant_id l = tenant"
      "lg_reservation_id l = Some rid" "lg_amount l = - actual" "wd_wallets db2 = wd_wallets db1"
      "wd_usage db2 = wd_usage db1"
    using insert_settlement_fresh [OF wallet_invD(2) [OF inv] row(1) key row(3) frame(1) ins] by blast
  have "wallet_inv other drift (set_usage tenant rid (settle_row actual it ot resolution stamp) db2)"
    using l by (intro close_reservation_inv [OF inv row actual upd l(1)]) simp_all
  from reconcile_debt_inv [OF rec this] show "wallet_inv other drift db'" .
qed

lemma settle_pending_inv:
  assumes inv: "wallet_inv other drift db" and row: "row \<in> set (wd_usage db)" "usage_key tenant rid row"
      "usage_open row"
  shows "wallet_inv other drift (set_usage tenant rid (settle_pending stamp) db)"
proof (rule wallet_inv_change [OF inv, where tenant = tenant])
  have tab: "usage_table_ok db" by (rule wallet_invD(2) [OF inv])
  have uniq: "\<forall>x \<in> set (wd_usage db). usage_key tenant rid x \<longrightarrow> x = row"
    using tab row by (intro usage_unique) (simp_all add: usage_table_ok_def)
  show "usage_table_ok (set_usage tenant rid (settle_pending stamp) db)"
    using tab uniq row(3)
    by (intro usage_table_set_usage) (auto simp: settle_pending_def)
  have out: "outstanding (set_usage tenant rid (settle_pending stamp) db) t = outstanding db t" for t
    unfolding outstanding_set_usage [OF tab row(1,2)] using row(3)
    by (simp add: held_def settle_pending_def usage_open_def)
  show "account_ok (other tenant) (drift tenant) (wd_wallets (set_usage tenant rid (settle_pending stamp) db) tenant)
      (ledger_sum (set_usage tenant rid (settle_pending stamp) db) tenant)
      (outstanding (set_usage tenant rid (settle_pending stamp) db) tenant)"
    using wallet_invD(1) [OF inv, of tenant] by (simp add: out)
  show "wd_wallets (set_usage tenant rid (settle_pending stamp) db) t = wd_wallets db t \<and>
      ledger_sum (set_usage tenant rid (settle_pending stamp) db) t = ledger_sum db t \<and>
      outstanding (set_usage tenant rid (settle_pending stamp) db) t = outstanding db t" for t
    by (simp add: out)
qed

lemma settle_open_inv:
  assumes inv: "wallet_inv other drift db" and row: "row \<in> set (wd_usage db)" "usage_key tenant rid row"
      "usage_open row"
    and run: "settle_open stamp db tenant rid it ot row config = Inr (out, db')"
  shows "wallet_inv other drift db'"
proof (cases "\<exists>i j. it = Some i \<and> ot = Some j")
  case False
  then have "db' = set_usage tenant rid (settle_pending stamp) db"
    using run by (auto simp: settle_open_def split: option.splits)
  then show ?thesis using settle_pending_inv [OF inv row] by simp
next
  case True
  then obtain i j where io: "it = Some i" "ot = Some j" by blast
  obtain cost where cost: "TokenCostMicrousd i j (bc_InputMicrousdPerMTok config)
      (bc_OutputMicrousdPerMTok config) = Inr cost"
    using run io by (auto simp: settle_open_def split: sum.splits)
  obtain a m where am: "settlement_charge cost (us_reserved row) = (a, m)" by fastforce
  have "0 < us_reserved row" using wallet_invD(2) [OF inv] row(1) by (simp add: usage_table_ok_def)
  then have "0 \<le> a"
    using settlement_charge_min [of cost "us_reserved row"] TokenCost_nonneg [OF cost] am by simp
  moreover have "settle_charge stamp db tenant rid row i j a m = Inr (out, db')"
    using run io cost am by (simp add: settle_open_def)
  ultimately show ?thesis using settle_charge_inv(1) [OF inv row] by blast
qed

lemma SettleManagedUsage_inv [step_inv]:
  assumes "SettleManagedUsage env stamp db tenant rid it ot = (res, db')" "wallet_inv other drift db"
  shows "wallet_inv other drift db'"
  using assms(1) [unfolded SettleManagedUsage_def] assms(2)
proof (rule commit_txI)
  fix out
  assume "bind_err (managedReservationForUpdate env db tenant rid) (\<lambda>(row, config).
      if \<not> usage_open row then Inr (row, db)
      else settle_open stamp db tenant rid it ot row config) = Inr (out, db')"
  then obtain row config where row: "managedReservationForUpdate env db tenant rid = Inr (row, config)"
    and rest: "(\<not> usage_open row \<and> db' = db) \<or>
      (usage_open row \<and> settle_open stamp db tenant rid it ot row config = Inr (out, db'))"
    by (auto simp: bind_err_Inr split: if_splits)
  note r = managedReservation_Inr [OF row]
  from rest show "wallet_inv other drift db'" using assms(2) settle_open_inv [OF assms(2) r(1,2)] by blast
qed

lemma release_row_sel [simp]:
  "us_id (release_row m s r) = us_id r" "us_reserved (release_row m s r) = us_reserved r"
  "us_tenant_id (release_row m s r) = us_tenant_id r" "\<not> usage_open (release_row m s r)"
  by (simp_all add: release_row_def usage_open_def)

lemma ReleaseManagedUsage_inv [step_inv]:
  assumes "ReleaseManagedUsage env stamp db tenant rid reason = (res, db')" "wallet_inv other drift db"
  shows "wallet_inv other drift db'"
proof (cases "tenant = '''' \<or> rid = '''' \<or> reason = ''''")
  case True
  then show ?thesis using assms by (simp add: ReleaseManagedUsage_def)
next
  case False
  show ?thesis
    using assms(1) [unfolded ReleaseManagedUsage_def if_not_P [OF False]] assms(2)
  proof (rule commit_txI)
    fix u
    assume "bind_err (managedReservationForUpdate env db tenant rid) (\<lambda>(row, _).
           if \<not> usage_open row then Inr ((), db)
           else bind_err (update_wallet tenant
               (\<lambda>w. w\<lparr>wl_reserved := wl_reserved w - us_reserved row, wl_updated_at := stamp\<rparr>) db) (\<lambda>db1.
             bind_err (reconcileManagedDebtTx tenant stamp
               (set_usage tenant rid (release_row reason stamp) db1)) (\<lambda>db2. Inr ((), db2)))) = Inr (u, db')"
    then obtain row config where row: "managedReservationForUpdate env db tenant rid = Inr (row, config)"
      and rest: "(\<not> usage_open row \<and> db' = db) \<or> (usage_open row \<and> (\<exists>db1. update_wallet tenant
          (\<lambda>w. w\<lparr>wl_reserved := wl_reserved w - us_reserved row, wl_updated_at := stamp\<rparr>) db = Inr db1 \<and>
        reconcileManagedDebtTx tenant stamp (set_usage tenant rid (release_row reason stamp) db1) = Inr db'))"
      by (auto simp: bind_err_Inr split: if_splits)
    note r = managedReservation_Inr [OF row]
    from rest show "wallet_inv other drift db'"
    proof (elim disjE exE conjE)
      fix db1
      assume op: "usage_open row" and upd: "update_wallet tenant
          (\<lambda>w. w\<lparr>wl_reserved := wl_reserved w - us_reserved row, wl_updated_at := stamp\<rparr>) db = Inr db1"
        and rec: "reconcileManagedDebtTx tenant stamp
          (set_usage tenant rid (release_row reason stamp) db1) = Inr db'"
      have upd0: "update_wallet tenant (\<lambda>w. w\<lparr>wl_balance := wl_balance w - 0,
          wl_reserved := wl_reserved w - us_reserved row, wl_updated_at := stamp\<rparr>) db = Inr db1"
        using upd by simp
      have "wallet_inv other drift (set_usage tenant rid (release_row reason stamp) db1)"
        by (rule close_reservation_inv [OF assms(2) r(1,2) op _ upd0, of db1 "[]"]) simp_all
      from reconcile_debt_inv [OF rec this] show ?thesis .
    qed (use assms(2) in simp)
  qed
qed


text \<open>The wallet operations leave every table of an extended database alone.\<close>

lemma update_wallet_more: "update_wallet tenant f db = Inr db' \<Longrightarrow> wallet_db.more db' = wallet_db.more db"
  by (erule update_wallet_Inr) simp_all

lemma table_more [simp]:
  "wallet_db.more (append_ledger l db) = wallet_db.more db"
  "wallet_db.more (set_usage t rid f db) = wallet_db.more db"
  by (simp_all add: append_ledger_def set_usage_def)

lemma reconcile_more: "reconcileManagedDebtTx tenant stamp db = Inr db' \<Longrightarrow> wallet_db.more db' = wallet_db.more db"
  by (auto simp: reconcileManagedDebtTx_def Let_def split: option.splits if_splits dest: update_wallet_more)

lemma ensure_wallet_more: "ensure_wallet tex tenant stamp db = Inr db' \<Longrightarrow> wallet_db.more db' = wallet_db.more db"
  by (auto simp: ensure_wallet_def split: option.splits if_splits)

lemma settle_open_more:
  "settle_open stamp db tenant rid it ot row config = Inr (out, db') \<Longrightarrow> wallet_db.more db' = wallet_db.more db"
  unfolding settle_open_def settle_charge_def insert_settlement_def insert_ledger_def
  by (auto simp: bind_err_Inr Let_def split: option.splits sum.splits prod.splits if_splits
      dest!: update_wallet_more reconcile_more)

lemma wallet_ops_more:
  "CreditManagedWallet tex stamp db tenant cid desc amount = (res1, db') \<Longrightarrow> wallet_db.more db' = wallet_db.more db"
  "AuthorizeManagedUsage env stamp db tenant b q s m = (res2, db') \<Longrightarrow> wallet_db.more db' = wallet_db.more db"
  "SettleManagedUsage env stamp db tenant rid it ot = (res3, db') \<Longrightarrow> wallet_db.more db' = wallet_db.more db"
  "ReleaseManagedUsage env stamp db tenant rid reason = (res4, db') \<Longrightarrow> wallet_db.more db' = wallet_db.more db"
  subgoal
    unfolding CreditManagedWallet_def applyManagedCreditTx_def
    by (auto simp: commit_tx_def bind_err_def split: if_splits sum.splits prod.splits
        dest!: update_wallet_more ensure_wallet_more)
  subgoal
    unfolding AuthorizeManagedUsage_def Let_def hold_funds_def
    by (auto simp: commit_tx_def bind_err_def split: if_splits option.splits sum.splits
        dest!: update_wallet_more)
  subgoal
    unfolding SettleManagedUsage_def
    by (auto simp: commit_tx_def bind_err_def split: if_splits sum.splits prod.splits
        dest!: settle_open_more)
  subgoal
    unfolding ReleaseManagedUsage_def
    by (auto simp: commit_tx_def bind_err_def split: if_splits sum.splits prod.splits
        dest!: update_wallet_more reconcile_more)
  done


section \<open>Authorization and settlement\<close>

lemma update_wallet_ok:
  assumes "wd_wallets db tenant = Some w" "wallet_check (f w)" "is_i64 (wl_balance (f w))"
    "is_i64 (wl_reserved (f w))" "is_i64 (wl_debt (f w))"
  shows "update_wallet tenant f db = Inr (db\<lparr>wd_wallets := (wd_wallets db)(tenant \<mapsto> f w)\<rparr>)"
  using assms by (simp add: update_wallet_def)

lemma reconcile_total:
  assumes w: "wd_wallets db tenant = Some w" "wallet_check w" "is_i64 (wl_balance w)" "is_i64 (wl_debt w)"
  shows "\<exists>db' w'. reconcileManagedDebtTx tenant stamp db = Inr db' \<and> wd_wallets db' tenant = Some w' \<and>
    wallet_check w' \<and> wl_reserved w' = wl_reserved w \<and> wl_balance w' - wl_debt w' = wl_balance w - wl_debt w"
proof -
  have av: "i64 (wl_balance w - wl_reserved w) = wl_balance w - wl_reserved w"
    using w by (intro i64_id) (simp add: wallet_check_def is_i64_def min_i64_def max_i64_def)
  define r where "r = (if wl_debt w > wl_balance w - wl_reserved w then wl_balance w - wl_reserved w else wl_debt w)"
  define w' where "w' = w\<lparr>wl_balance := wl_balance w - r, wl_debt := wl_debt w - r, wl_updated_at := stamp\<rparr>"
  have r: "0 \<le> r" "r \<le> wl_balance w - wl_reserved w" "r \<le> wl_debt w"
    using w(2) by (auto simp: r_def wallet_check_def)
  show ?thesis
  proof (cases "wl_balance w - wl_reserved w \<le> 0 \<or> wl_debt w = 0")
    case True
    then have "reconcileManagedDebtTx tenant stamp db = Inr db"
      unfolding reconcileManagedDebtTx_def w(1) option.case Let_def av by simp
    then show ?thesis using w by blast
  next
    case False
    have "update_wallet tenant (\<lambda>w. w\<lparr>wl_balance := wl_balance w - r, wl_debt := wl_debt w - r,
        wl_updated_at := stamp\<rparr>) db = Inr (db\<lparr>wd_wallets := (wd_wallets db)(tenant \<mapsto> w')\<rparr>)"
      unfolding w'_def using w r
      by (intro update_wallet_ok) (auto simp: wallet_check_def is_i64_def min_i64_def max_i64_def)
    moreover have "reconcileManagedDebtTx tenant stamp db = update_wallet tenant
        (\<lambda>w. w\<lparr>wl_balance := wl_balance w - r, wl_debt := wl_debt w - r, wl_updated_at := stamp\<rparr>) db"
      unfolding reconcileManagedDebtTx_def w(1) option.case Let_def av r_def using False
      by (simp only: if_False simp_thms)
    moreover have "wallet_check w'" "wl_reserved w' = wl_reserved w"
      "wl_balance w' - wl_debt w' = wl_balance w - wl_debt w"
      using w(2) r by (auto simp: w'_def wallet_check_def)
    ultimately show ?thesis by auto
  qed
qed

lemma hold_bounded:
  assumes "wallet_inv other drift db" "row \<in> set (wd_usage db)" "usage_key tenant rid row" "usage_open row"
    "wd_wallets db tenant = Some w"
  shows "0 < us_reserved row" "us_reserved row \<le> wl_reserved w"
proof -
  have tab: "usage_table_ok db" by (rule wallet_invD(2) [OF assms(1)])
  show "0 < us_reserved row" using tab assms(2) by (simp add: usage_table_ok_def)
  have "held tenant row \<le> outstanding db tenant"
    unfolding outstanding_def using tab assms(2)
    by (intro sum_list_nonneg_ge) (fastforce simp: usage_table_ok_def held_def)+
  then show "us_reserved row \<le> wl_reserved w"
    using wallet_invD(1) [OF assms(1), of tenant] wallet_invD(3) [OF assms(1), of tenant] assms(3-5)
    by (simp add: account_ok_def held_def usage_key_def)
qed

lemma settle_charge_total:
  assumes inv: "wallet_inv other drift db"
    and row: "row \<in> set (wd_usage db)" "usage_key tenant rid row" "usage_open row"
    and w: "wd_wallets db tenant = Some w" and free: "\<not> ledger_has_id (''settlement_'' @ rid) db"
    and a0: "0 \<le> a" "a \<le> us_reserved row"
  shows "\<exists>db' w'. settle_charge stamp db tenant rid row i j a m = Inr (settle_row a i j m stamp row, db') \<and>
    wd_wallets db' tenant = Some w' \<and> wallet_check w' \<and> wl_reserved w' = wl_reserved w - us_reserved row \<and>
    wl_balance w' - wl_debt w' = wl_balance w - wl_debt w - a"
proof -
  note h = hold_bounded [OF inv row w]
  have acc: "wallet_check w" "is_i64 (wl_balance w)" "is_i64 (wl_debt w)"
    using wallet_invD(1) [OF inv, of tenant] w by (auto simp: account_ok_def)
  define w1 where "w1 = w\<lparr>wl_balance := wl_balance w - a, wl_reserved := wl_reserved w - us_reserved row,
    wl_updated_at := stamp\<rparr>"
  define db1 where "db1 = db\<lparr>wd_wallets := (wd_wallets db)(tenant \<mapsto> w1)\<rparr>"
  have ok1: "wallet_check w1" "is_i64 (wl_balance w1)" "is_i64 (wl_reserved w1)" "is_i64 (wl_debt w1)"
    using acc a0 h by (auto simp: w1_def wallet_check_def is_i64_def min_i64_def max_i64_def)
  have u: "update_wallet tenant (\<lambda>w. w\<lparr>wl_balance := wl_balance w - a,
      wl_reserved := wl_reserved w - us_reserved row, wl_updated_at := stamp\<rparr>) db = Inr db1"
    unfolding db1_def w1_def using w ok1 [unfolded w1_def] by (intro update_wallet_ok)
  have l1: "wd_ledger db1 = wd_ledger db" by (simp add: db1_def)
  have "\<exists>db2. insert_settlement tenant rid (- a) m stamp db1 = Inr db2"
    using free l1 by (simp add: insert_settlement_def Let_def insert_ledger_def ledger_has_id_def)
  then obtain db2 where ins: "insert_settlement tenant rid (- a) m stamp db1 = Inr db2" by blast
  have key: "us_id row = rid" using row(2) by (simp add: usage_key_def)
  have w2: "wd_wallets db2 = wd_wallets db1"
    using insert_settlement_fresh [OF wallet_invD(2) [OF inv] row(1) key row(3) l1 ins] by blast
  define db3 where "db3 = set_usage tenant rid (settle_row a i j m stamp) db2"
  have w3: "wd_wallets db3 tenant = Some w1" by (simp add: db3_def w2 db1_def)
  obtain db' w' where rec: "reconcileManagedDebtTx tenant stamp db3 = Inr db'" "wd_wallets db' tenant = Some w'"
      "wallet_check w'" "wl_reserved w' = wl_reserved w1" "wl_balance w' - wl_debt w' = wl_balance w1 - wl_debt w1"
    using reconcile_total [OF w3 ok1(1,2,4)] by blast
  have "settle_charge stamp db tenant rid row i j a m = Inr (settle_row a i j m stamp row, db')"
    using u ins rec(1) by (simp add: settle_charge_def db3_def)
  then show ?thesis using rec by (auto simp: w1_def)
qed

text \<open>
  Settlement of an open reservation with observed usage always succeeds, charges the token
  cost but never more than the reservation, gives up the whole hold, and lowers the balance net of
  debt by exactly the charge; no constraint of the database can reject it. (The ledger's primary
  key must be free: credits are entered under their own prefixes.)
\<close>

theorem settlement_capped:
  assumes inv: "wallet_inv other drift db"
    and row: "managedReservationForUpdate env db tenant rid = Inr (row, config)" "usage_open row"
    and cost: "TokenCostMicrousd i j (bc_InputMicrousdPerMTok config) (bc_OutputMicrousdPerMTok config) = Inr cost"
    and w: "wd_wallets db tenant = Some w" and free: "\<not> ledger_has_id (''settlement_'' @ rid) db"
  shows "\<exists>out db' w'. SettleManagedUsage env stamp db tenant rid (Some i) (Some j) = (Inr out, db') \<and>
    us_state out = UsSettled \<and> us_actual out = Some (min cost (us_reserved row)) \<and>
    wd_wallets db' tenant = Some w' \<and> wallet_check w' \<and>
    wl_reserved w' = wl_reserved w - us_reserved row \<and>
    wl_balance w' - wl_debt w' = wl_balance w - wl_debt w - min cost (us_reserved row)"
proof -
  note r = managedReservation_Inr [OF row(1)]
  note h = hold_bounded [OF inv r(1,2) row(2) w]
  obtain a m where am: "settlement_charge cost (us_reserved row) = (a, m)" by fastforce
  have a: "a = min cost (us_reserved row)" using settlement_charge_min [of cost "us_reserved row"] am by simp
  have a0: "0 \<le> a" "a \<le> us_reserved row" using TokenCost_nonneg [OF cost] h(1) unfolding a by auto
  obtain db' w' where run: "settle_charge stamp db tenant rid row i j a m =
      Inr (settle_row a i j m stamp row, db')" "wd_wallets db' tenant = Some w'" "wallet_check w'"
      "wl_reserved w' = wl_reserved w - us_reserved row"
      "wl_balance w' - wl_debt w' = wl_balance w - wl_debt w - a"
    using settle_charge_total [OF inv r(1,2) row(2) w free a0] by blast
  have "SettleManagedUsage env stamp db tenant rid (Some i) (Some j) =
      (Inr (settle_row a i j m stamp row), db')"
    using row cost am run(1) by (simp add: SettleManagedUsage_def settle_open_def commit_tx_def)
  moreover have "us_state (settle_row a i j m stamp row) = UsSettled"
    "us_actual (settle_row a i j m stamp row) = Some a" by (simp_all add: settle_row_def)
  ultimately show ?thesis using run a by blast
qed

lemma config_max_pos:
  assumes "ParseManagedBindingConfig d pt raw = Inr (Some config)"
  shows "0 < bc_MaxRequestCostMicrousd config"
proof -
  have "ValidateManagedBindingConfig pt config = None"
    using assms by (auto simp: ParseManagedBindingConfig_def Let_def split: if_splits sum.splits option.splits)
  then show ?thesis by (auto simp: ValidateManagedBindingConfig_def split: if_splits)
qed

text \<open>
  A new authorization for wallet-billed usage holds a positive amount that the spendable
  balance covered: afterwards the balance still covers everything reserved and owed.
\<close>

theorem authorize_within_funds:
  assumes inv: "wallet_inv other drift db"
    and run: "AuthorizeManagedUsage env stamp db tenant binding request supplier model = (Inr auth, db')"
    and req: "ua_Required auth" and new: "\<forall>r \<in> set (wd_usage db). us_id r \<noteq> ua_ReservationID auth"
  shows "\<exists>w w'. wd_wallets db tenant = Some w \<and> wd_wallets db' tenant = Some w' \<and>
    0 < ua_ReservedMicrousd auth \<and> wl_reserved w' = wl_reserved w + ua_ReservedMicrousd auth \<and>
    wl_balance w' = wl_balance w \<and> wl_debt w' = wl_debt w \<and>
    0 \<le> wl_balance w' - wl_reserved w' - wl_debt w'"
proof -
  define rid where "rid = managedUsageReservationID (be_sha256 env) tenant request"
  have fnd: "find (\<lambda>r. us_id r = rid) (wd_usage db) = None"
  proof (rule ccontr)
    assume "\<not> ?thesis"
    then obtain r where r: "find (\<lambda>r. us_id r = rid) (wd_usage db) = Some r" by blast
    then have "authorize_existing tenant binding r = Inr auth"
      using run unfolding AuthorizeManagedUsage_def Let_def rid_def [symmetric] by (auto split: if_splits)
    then have "us_id r = ua_ReservationID auth" by (auto simp: authorize_existing_def split: if_splits)
    moreover have "r \<in> set (wd_usage db)" using r by (auto simp: find_Some_iff)
    ultimately show False using new by blast
  qed
  obtain config w raw where c: "ParseManagedBindingConfig (be_decode env) (be_parse_time env) raw = Inr (Some config)"
    and w: "wd_wallets db tenant = Some w"
    and funds: "\<not> i64 (i64 (wl_balance w - wl_reserved w) - wl_debt w) < bc_MaxRequestCostMicrousd config"
    and hold: "hold_funds stamp db tenant (new_usage_row rid tenant binding supplier model
        (bc_MaxRequestCostMicrousd config) stamp) = Inr db'"
    and auth: "ua_ReservedMicrousd auth = bc_MaxRequestCostMicrousd config"
    using run req fnd unfolding AuthorizeManagedUsage_def Let_def rid_def [symmetric]
    by (auto simp: commit_tx_Inr bind_err_Inr split: if_splits option.splits sum.splits)
  have acc: "wallet_check w" "is_i64 (wl_balance w)" "is_i64 (wl_debt w)"
    using wallet_invD(1) [OF inv, of tenant] w by (auto simp: account_ok_def)
  have "i64 (i64 (wl_balance w - wl_reserved w) - wl_debt w) = wl_balance w - wl_reserved w - wl_debt w"
    unfolding i64_diff_left using acc
    by (intro i64_id) (simp add: wallet_check_def is_i64_def min_i64_def max_i64_def)
  with funds have le: "bc_MaxRequestCostMicrousd config \<le> wl_balance w - wl_reserved w - wl_debt w" by simp
  note pos = config_max_pos [OF c]
  define w' where "w' = w\<lparr>wl_reserved := wl_reserved w + bc_MaxRequestCostMicrousd config, wl_updated_at := stamp\<rparr>"
  have upd: "update_wallet tenant
      (\<lambda>w. w\<lparr>wl_reserved := wl_reserved w + bc_MaxRequestCostMicrousd config, wl_updated_at := stamp\<rparr>)
      (db\<lparr>wd_usage := wd_usage db @ [new_usage_row rid tenant binding supplier model
        (bc_MaxRequestCostMicrousd config) stamp]\<rparr>) = Inr db'"
    using hold pos by (simp add: hold_funds_def new_usage_row_def)
  have "wd_wallets db' tenant = Some w'"
    unfolding w'_def by (rule update_wallet_Inr [OF upd]) (use w in auto)
  then show ?thesis using w pos le auth by (simp add: w'_def)
qed


section \<open>A concrete reservation\<close>

definition example_binding :: managed_binding_config where
  "example_binding =
     \<lparr>bc_Adapter = ''openrouter'', bc_SecretReferenceID = ''sec'', bc_Enabled = True,
      bc_PrivacyAcknowledged = True, bc_RequestLimit = 100, bc_CostLimitMicrousd = 1000000,
      bc_MaxRequestCostMicrousd = 50000, bc_BillingMode = ''customer_wallet'',
      bc_InputMicrousdPerMTok = 2000000, bc_OutputMicrousdPerMTok = 4000000,
      bc_CostBasisInputMicrousdPerMTok = 1000000, bc_CostBasisOutputMicrousdPerMTok = 2000000,
      bc_MinimumGrossMarginBPS = 2000, bc_CostBasisProvenance = ''invoice'',
      bc_RateCardValidUntil = ''t''\<rparr>"

definition example_env :: billing_env where
  "example_env =
     \<lparr>be_sha256 = (\<lambda>s. s), be_decode = (\<lambda>_. Inr example_binding), be_parse_time = (\<lambda>_. Some 1000),
      be_binding_config = (\<lambda>_ _. Some ''cfg'')\<rparr>"

definition funded_db :: wallet_db where
  "funded_db =
     \<lparr>wd_wallets = [''acme'' \<mapsto> \<lparr>wl_balance = 5000000, wl_reserved = 0, wl_debt = 0, wl_updated_at = 1\<rparr>],
      wd_ledger = [credit_row ''grant-1'' ''acme'' ''credit'' 5000000 ''promo'' 1], wd_usage = []\<rparr>"

lemma TrimSpace_canonical: "canonical v \<Longrightarrow> TrimSpace v = v"
  by (simp add: canonical_def)

lemma example_parse:
  "ParseManagedBindingConfig (be_decode example_env) (be_parse_time example_env) ''cfg'' =
     Inr (Some example_binding)"
proof -
  have "canonical ''cfg''" "canonical ''sec''" "canonical ''invoice''" by (rule canonicalI; simp)+
  then have trim: "TrimSpace ''cfg'' = ''cfg''" "TrimSpace ''sec'' = ''sec''" "TrimSpace ''invoice'' = ''invoice''"
    by (simp_all add: TrimSpace_canonical)
  have "ValidateManagedBindingConfig (be_parse_time example_env) example_binding = None"
    unfolding ValidateManagedBindingConfig_def
    by (simp add: example_binding_def example_env_def SupportedAdapter_def supportedAdapters_def trim
        margin_floor_def MinimumRetailPrice_spec ceil_div_def max_i64_def)
  then show ?thesis
    unfolding ParseManagedBindingConfig_def Let_def trim by (simp add: example_env_def)
qed

lemma funded_inv: "wallet_inv (\<lambda>_. 0) (\<lambda>_. 0) funded_db"
  by (simp add: wallet_inv_def funded_db_def usage_table_ok_def ledger_sum_def outstanding_def
      account_ok_def wallet_check_def credit_row_def is_i64_def min_i64_def max_i64_def)

definition example_authorized :: "(store_error + usage_authorization) \<times> wallet_db" where
  "example_authorized =
     AuthorizeManagedUsage example_env 10 funded_db ''acme'' ''b1'' ''req'' ''openrouter'' ''m''"

lemma example_authorized_eq:
  "example_authorized =
     (Inr \<lparr>ua_ReservationID = managedUsageReservationID (\<lambda>s. s) ''acme'' ''req'', ua_Required = True,
        ua_ReservedMicrousd = 50000\<rparr>,
      funded_db\<lparr>wd_wallets := [''acme'' \<mapsto> \<lparr>wl_balance = 5000000, wl_reserved = 50000, wl_debt = 0,
          wl_updated_at = 10\<rparr>],
        wd_usage := [new_usage_row (managedUsageReservationID (\<lambda>s. s) ''acme'' ''req'') ''acme'' ''b1''
          ''openrouter'' ''m'' 50000 10]\<rparr>)"
proof -
  have cfg: "be_binding_config example_env ''acme'' ''b1'' = Some ''cfg''"
    and sha: "be_sha256 example_env = (\<lambda>s. s)" by (simp_all add: example_env_def)
  have big: "i64 5000000 = 5000000" by (simp add: i64_id is_i64_def min_i64_def max_i64_def)
  show ?thesis
    unfolding example_authorized_def AuthorizeManagedUsage_def Let_def cfg option.case example_parse
      sum.case sha
    by (simp add: funded_db_def example_binding_def example_env_def big hold_funds_def
        new_usage_row_def update_wallet_def wallet_check_def is_i64_def min_i64_def max_i64_def commit_tx_def)
qed

theorem authorize_within_funds_witness:
  "\<exists>w'. wd_wallets (snd example_authorized) ''acme'' = Some w' \<and> wl_reserved w' = 50000 \<and>
     0 \<le> wl_balance w' - wl_reserved w' - wl_debt w'"
proof -
  obtain auth where a: "example_authorized = (Inr auth, snd example_authorized)" "ua_Required auth"
    "ua_ReservedMicrousd auth = 50000"
    by (simp add: example_authorized_eq)
  have "\<forall>r \<in> set (wd_usage funded_db). us_id r \<noteq> ua_ReservationID auth" by (simp add: funded_db_def)
  from authorize_within_funds [OF funded_inv a(1) [unfolded example_authorized_def] a(2) this]
  show ?thesis unfolding example_authorized_def [symmetric] using a(3) by (auto simp: funded_db_def)
qed

theorem settlement_capped_witness:
  "\<exists>out db'. SettleManagedUsage example_env 20 (snd example_authorized) ''acme''
      (managedUsageReservationID (\<lambda>s. s) ''acme'' ''req'') (Some 1200) (Some 50) = (Inr out, db') \<and>
     us_actual out = Some 2600"
proof -
  let ?rid = "managedUsageReservationID (\<lambda>s. s) ''acme'' ''req''" and ?db = "snd example_authorized"
  have inv: "wallet_inv (\<lambda>_. 0) (\<lambda>_. 0) ?db"
    using AuthorizeManagedUsage_inv [OF prod.collapse [symmetric] funded_inv]
    unfolding example_authorized_def .
  define row where "row = new_usage_row ?rid ''acme'' ''b1'' ''openrouter'' ''m'' 50000 10"
  have cfg: "be_binding_config example_env ''acme'' (us_binding_id row) = Some ''cfg''"
    by (simp add: example_env_def)
  have fnd: "find (\<lambda>r. us_tenant_id r = ''acme'' \<and> us_id r = ?rid) (wd_usage ?db) = Some row"
    by (simp add: example_authorized_eq row_def new_usage_row_def)
  have res: "managedReservationForUpdate example_env ?db ''acme'' ?rid = Inr (row, example_binding)"
    unfolding managedReservationForUpdate_def fnd option.case cfg example_parse sum.case
    by (simp add: example_binding_def)
  have op: "usage_open row" "us_reserved row = 50000" by (simp_all add: row_def new_usage_row_def usage_open_def)
  have cost: "TokenCostMicrousd 1200 50 (bc_InputMicrousdPerMTok example_binding)
      (bc_OutputMicrousdPerMTok example_binding) = Inr 2600"
    by (simp add: example_binding_def TokenCost_shape ceil_div_def max_i64_def)
  have free: "\<not> ledger_has_id (''settlement_'' @ ?rid) ?db"
    by (simp add: example_authorized_eq funded_db_def ledger_has_id_def credit_row_def)
  obtain w where w: "wd_wallets ?db ''acme'' = Some w" by (simp add: example_authorized_eq)
  from settlement_capped [OF inv res op(1) cost w free, of 20] op(2) show ?thesis by auto
qed

end
