(* ===== verification/Payments.thy ===== *)
theory Payments
  imports Wallet
begin

text \<open>
  The payment side of \<open>internal/store/managed_billing.go\<close> and \<open>funding_intents.go\<close>: funding
  intents with their creation lease, provider-signed payment events, credits and cumulative
  refunds. The tables extend those of \<open>Wallet\<close>. Advisory locks serialise the transactions that
  touch the same session or payment intent, so each transaction is one step.
\<close>


section \<open>Tables\<close>

record payment_event_row =
  pe_provider :: string
  pe_event_id :: string
  pe_tenant_id :: "string option"
  pe_session_id :: "string option"
  pe_event_type :: string
  pe_payload_digest :: string
  pe_status :: string
  pe_error_code :: "string option"
  pe_metadata :: string
  pe_created_at :: gotime
  pe_processed_at :: "gotime option"

record payment_credit_row =
  pc_provider :: string
  pc_session_id :: string
  pc_tenant_id :: string
  pc_event_id :: string
  pc_ledger_id :: string
  pc_currency :: string
  pc_amount :: int
  pc_payment_intent_id :: "string option"
  pc_funding_intent_id :: "string option"
  pc_refunded :: int
  pc_created_at :: gotime

record funding_intent_row =
  fi_id :: string
  fi_tenant_id :: string
  fi_provider :: string
  fi_idempotency_key :: string
  fi_amount :: int
  fi_currency :: string
  fi_status :: string
  fi_checkout_session_id :: "string option"
  fi_checkout_url :: "string option"
  fi_checkout_expires_at :: "gotime option"
  fi_lease_token :: "string option"
  fi_lease_expires_at :: "gotime option"
  fi_attempt :: int
  fi_created_at :: gotime
  fi_updated_at :: gotime

record payment_db = wallet_db +
  pd_events :: "payment_event_row list"
  pd_credits :: "payment_credit_row list"
  pd_intents :: "funding_intent_row list"

record managed_payment_event =
  py_Provider :: string
  py_EventID :: string
  py_EventType :: string
  py_PayloadDigest :: string
  py_TenantID :: string
  py_FundingIntentID :: string
  py_SessionID :: string
  py_PaymentIntentID :: string
  py_AmountMicrousd :: int
  py_RefundedMicrousd :: int
  py_Currency :: string
  py_Operation :: string
  py_Apply :: bool
  py_IgnoreReason :: string
  py_MetadataJSON :: string

record managed_payment_result =
  pr_Provider :: string
  pr_EventID :: string
  pr_Status :: string
  pr_CreditApplied :: bool
  pr_RefundApplied :: bool
  pr_Wallet :: "managed_wallet option"
  pr_LedgerEntry :: "ledger_row option"

text \<open>The environment: SHA-256, the JSON-object test, the tenants table, the URL check.\<close>

record payment_env =
  pv_sha256 :: "string \<Rightarrow> string"
  pv_is_json_object :: "string \<Rightarrow> bool"
  pv_tenant_exists :: "string \<Rightarrow> bool"
  pv_https_url :: "string \<Rightarrow> bool"


section \<open>Funding intents\<close>

record managed_funding_intent =
  mf_ID :: string
  mf_TenantID :: string
  mf_Provider :: string
  mf_IdempotencyKey :: string
  mf_AmountMicrousd :: int
  mf_Currency :: string
  mf_Status :: string
  mf_CheckoutSessionID :: string
  mf_CheckoutURL :: string
  mf_CheckoutExpiresAt :: gotime
  mf_CreatedAt :: gotime
  mf_UpdatedAt :: gotime

record checkout_session =
  cs_FundingIntentID :: string
  cs_Provider :: string
  cs_ProviderID :: string
  cs_URL :: string
  cs_AmountMicrousd :: int
  cs_Currency :: string
  cs_ExpiresAt :: gotime

definition scanManagedFundingIntent ::
  "funding_intent_row option \<Rightarrow> store_error + managed_funding_intent \<times> string \<times> gotime option" where
  "scanManagedFundingIntent row =
     (case row of None \<Rightarrow> Inl ErrNotFound | Some r \<Rightarrow>
        Inr (\<lparr>mf_ID = fi_id r, mf_TenantID = fi_tenant_id r, mf_Provider = fi_provider r,
          mf_IdempotencyKey = fi_idempotency_key r, mf_AmountMicrousd = fi_amount r,
          mf_Currency = fi_currency r, mf_Status = fi_status r,
          mf_CheckoutSessionID = coalesce (fi_checkout_session_id r),
          mf_CheckoutURL = coalesce (fi_checkout_url r),
          mf_CheckoutExpiresAt = (case fi_checkout_expires_at r of None \<Rightarrow> 0 | Some t \<Rightarrow> t),
          mf_CreatedAt = fi_created_at r, mf_UpdatedAt = fi_updated_at r\<rparr>,
          coalesce (fi_lease_token r), fi_lease_expires_at r))"

definition managedFundingIntentTx ::
  "payment_db \<Rightarrow> string \<Rightarrow> string \<Rightarrow> string \<Rightarrow> store_error + managed_funding_intent \<times> string \<times> gotime option" where
  "managedFundingIntentTx db tenant provider key =
     scanManagedFundingIntent (find (\<lambda>r. fi_tenant_id r = tenant \<and> fi_provider r = provider \<and>
       fi_idempotency_key r = key) (pd_intents db))"

definition managedFundingIntentByIDTx ::
  "payment_db \<Rightarrow> string \<Rightarrow> string \<Rightarrow> store_error + managed_funding_intent \<times> string \<times> gotime option" where
  "managedFundingIntentByIDTx db tenant iid =
     scanManagedFundingIntent (find (\<lambda>r. fi_tenant_id r = tenant \<and> fi_id r = iid) (pd_intents db))"

definition maxFundingIntentLease :: duration where "maxFundingIntentLease = 5 * Minute"

definition validateManagedFundingIntent ::
  "payment_env \<Rightarrow> string \<Rightarrow> managed_funding_intent \<Rightarrow> duration \<Rightarrow> string option" where
  "validateManagedFundingIntent env tenant intent lease =
     (if TrimSpace tenant = '''' \<or> mf_TenantID intent \<noteq> tenant \<or> mf_Provider intent \<noteq> ''stripe'' \<or>
         TrimSpace (mf_IdempotencyKey intent) = '''' \<or> length (mf_IdempotencyKey intent) > 128 \<or>
         mf_Currency intent \<noteq> ''USD'' \<or> \<not> ValidateCheckoutAmount (mf_AmountMicrousd intent)
        then Some ''valid tenant, Stripe provider, bounded idempotency key, fixed USD amount, and currency are required''
      else if mf_ID intent \<noteq> FundingIntentID (pv_sha256 env) tenant (mf_IdempotencyKey intent)
        then Some ''funding intent ID does not match its tenant and idempotency key''
      else if lease \<le> 0 \<or> lease > maxFundingIntentLease
        then Some ''funding intent lease must be positive and at most five minutes''
      else None)"

definition new_intent_row :: "managed_funding_intent \<Rightarrow> string \<Rightarrow> gotime \<Rightarrow> funding_intent_row" where
  "new_intent_row intent tenant stamp =
     \<lparr>fi_id = mf_ID intent, fi_tenant_id = tenant, fi_provider = mf_Provider intent,
      fi_idempotency_key = mf_IdempotencyKey intent, fi_amount = mf_AmountMicrousd intent,
      fi_currency = mf_Currency intent, fi_status = ''pending'', fi_checkout_session_id = None,
      fi_checkout_url = None, fi_checkout_expires_at = None, fi_lease_token = None,
      fi_lease_expires_at = None, fi_attempt = 0, fi_created_at = stamp, fi_updated_at = stamp\<rparr>"

text \<open>\<open>INSERT ... ON CONFLICT(provider,tenant_id,idempotency_key) DO NOTHING\<close>.\<close>

definition insert_intent ::
  "payment_env \<Rightarrow> funding_intent_row \<Rightarrow> payment_db \<Rightarrow> store_error + payment_db" where
  "insert_intent env r db =
     (if \<exists>x \<in> set (pd_intents db). fi_provider x = fi_provider r \<and> fi_tenant_id x = fi_tenant_id r \<and>
          fi_idempotency_key x = fi_idempotency_key r then Inr db
      else if \<exists>x \<in> set (pd_intents db). fi_id x = fi_id r
        then Inl (ErrConflict ''funding intent identity is already in use'')
      else if \<not> pv_tenant_exists env (fi_tenant_id r) then Inl (ErrOther ''violates foreign key constraint'')
      else Inr (db\<lparr>pd_intents := pd_intents db @ [r]\<rparr>))"

definition lease_row :: "string \<Rightarrow> gotime \<Rightarrow> duration \<Rightarrow> funding_intent_row \<Rightarrow> funding_intent_row" where
  "lease_row token stampTime lease r =
     r\<lparr>fi_lease_token := Some token, fi_lease_expires_at := Some (stampTime + lease),
       fi_attempt := fi_attempt r + 1, fi_updated_at := stampTime\<rparr>"

text \<open>Once the intent's row is read: adopt it, wait behind a live lease, or take the lease.\<close>

definition lease_intent ::
  "gotime \<Rightarrow> (string + string) \<Rightarrow> string \<Rightarrow> managed_funding_intent \<Rightarrow> duration \<Rightarrow> payment_db \<Rightarrow>
   managed_funding_intent \<Rightarrow> string \<Rightarrow> gotime option \<Rightarrow>
   store_error + (managed_funding_intent \<times> string) \<times> payment_db" where
  "lease_intent stampTime newID tenant requested lease db1 current currentLease currentLeaseExpires =
     (if mf_ID current \<noteq> mf_ID requested \<or> mf_AmountMicrousd current \<noteq> mf_AmountMicrousd requested \<or>
         mf_Currency current \<noteq> mf_Currency requested
        then Inl (ErrConflict ''idempotency key was already used for a different funding intent'')
      else if mf_Status current = ''completed'' then Inr ((current, ''''), db1)
      else if currentLease \<noteq> '''' \<and> null_gt currentLeaseExpires stampTime then Inr ((current, ''''), db1)
      else case newID of Inl err \<Rightarrow> Inl (ErrOther err)
      | Inr token \<Rightarrow>
          Inr ((current\<lparr>mf_UpdatedAt := stampTime\<rparr>, token),
            db1\<lparr>pd_intents := upd_where (\<lambda>r. fi_id r = mf_ID current \<and> fi_tenant_id r = tenant \<and>
                fi_status r = ''pending'') (lease_row token stampTime lease) (pd_intents db1)\<rparr>))"

definition PrepareManagedFundingIntent ::
  "payment_env \<Rightarrow> gotime \<Rightarrow> (string + string) \<Rightarrow> payment_db \<Rightarrow> string \<Rightarrow> managed_funding_intent \<Rightarrow> duration \<Rightarrow>
   (store_error + managed_funding_intent \<times> string) \<times> payment_db" where
  "PrepareManagedFundingIntent env stampTime newID db tenant requested lease =
     (case validateManagedFundingIntent env tenant requested lease of
        Some err \<Rightarrow> (Inl (ErrOther err), db)
      | None \<Rightarrow> commit_tx db
          (bind_err (insert_intent env (new_intent_row requested tenant stampTime) db) (\<lambda>db1.
           bind_err (managedFundingIntentTx db1 tenant (mf_Provider requested) (mf_IdempotencyKey requested))
             (\<lambda>(current, currentLease, currentLeaseExpires).
                lease_intent stampTime newID tenant requested lease db1 current currentLease
                  currentLeaseExpires))))"

definition validateManagedCheckoutCompletion ::
  "payment_env \<Rightarrow> gotime \<Rightarrow> string \<Rightarrow> string \<Rightarrow> checkout_session \<Rightarrow> string option" where
  "validateManagedCheckoutCompletion env now iid leaseToken session =
     (if TrimSpace iid = '''' \<or> TrimSpace leaseToken = '''' \<or> cs_FundingIntentID session \<noteq> iid \<or>
         cs_Provider session \<noteq> ''stripe'' \<or> TrimSpace (cs_ProviderID session) = '''' \<or>
         \<not> pv_https_url env (cs_URL session) \<or> cs_Currency session \<noteq> ''USD'' \<or>
         \<not> ValidateCheckoutAmount (cs_AmountMicrousd session) \<or> \<not> (cs_ExpiresAt session > now)
        then Some ''complete Stripe Checkout session and matching funding intent lease are required''
      else None)"

definition fundingIntentMatchesSession :: "managed_funding_intent \<Rightarrow> checkout_session \<Rightarrow> bool" where
  "fundingIntentMatchesSession intent session =
     (mf_ID intent = cs_FundingIntentID session \<and> mf_Provider intent = cs_Provider session \<and>
      mf_CheckoutSessionID intent = cs_ProviderID session \<and> mf_CheckoutURL intent = cs_URL session \<and>
      mf_AmountMicrousd intent = cs_AmountMicrousd session \<and> mf_Currency intent = cs_Currency session \<and>
      mf_CheckoutExpiresAt intent = cs_ExpiresAt session)"

definition complete_row :: "checkout_session \<Rightarrow> gotime \<Rightarrow> funding_intent_row \<Rightarrow> funding_intent_row" where
  "complete_row session stamp r =
     r\<lparr>fi_status := ''completed'', fi_checkout_session_id := Some (cs_ProviderID session),
       fi_checkout_url := Some (cs_URL session), fi_checkout_expires_at := Some (cs_ExpiresAt session),
       fi_lease_token := None, fi_lease_expires_at := None, fi_updated_at := stamp\<rparr>"

definition held_intent :: "string \<Rightarrow> string \<Rightarrow> string \<Rightarrow> funding_intent_row \<Rightarrow> bool" where
  "held_intent tenant iid leaseToken r =
     (fi_id r = iid \<and> fi_tenant_id r = tenant \<and> fi_status r = ''pending'' \<and> fi_lease_token r = Some leaseToken)"

definition finish_intent ::
  "gotime \<Rightarrow> payment_db \<Rightarrow> string \<Rightarrow> string \<Rightarrow> string \<Rightarrow> checkout_session \<Rightarrow> managed_funding_intent \<Rightarrow> string \<Rightarrow>
   store_error + managed_funding_intent \<times> payment_db" where
  "finish_intent stampTime db tenant iid leaseToken session current storedLease =
     (if mf_Status current = ''completed'' then
        (if \<not> fundingIntentMatchesSession current session
           then Inl (ErrConflict ''funding intent has a different Checkout session'')
         else Inr (current, db))
      else if storedLease = '''' \<or> storedLease \<noteq> leaseToken
        then Inl (ErrConflict ''funding intent creation lease is not held'')
      else if mf_Provider current \<noteq> cs_Provider session \<or>
          mf_AmountMicrousd current \<noteq> cs_AmountMicrousd session \<or> mf_Currency current \<noteq> cs_Currency session
        then Inl (ErrConflict ''Checkout session does not match the funding intent'')
      else if \<exists>x \<in> set (pd_intents db). fi_provider x = cs_Provider session \<and>
          fi_checkout_session_id x = Some (cs_ProviderID session) \<and> fi_id x \<noteq> iid
        then Inl (ErrConflict ''Checkout session is already assigned to another funding intent'')
      else if rows_affected (held_intent tenant iid leaseToken) (pd_intents db) \<noteq> 1
        then Inl (ErrConflict ''funding intent creation lease changed'')
      else Inr (current\<lparr>mf_Status := ''completed'', mf_CheckoutSessionID := cs_ProviderID session,
          mf_CheckoutURL := cs_URL session, mf_CheckoutExpiresAt := cs_ExpiresAt session,
          mf_UpdatedAt := stampTime\<rparr>,
        db\<lparr>pd_intents := upd_where (held_intent tenant iid leaseToken) (complete_row session stampTime)
          (pd_intents db)\<rparr>))"

definition CompleteManagedFundingIntent ::
  "payment_env \<Rightarrow> gotime \<Rightarrow> payment_db \<Rightarrow> string \<Rightarrow> string \<Rightarrow> string \<Rightarrow> checkout_session \<Rightarrow>
   (store_error + managed_funding_intent) \<times> payment_db" where
  "CompleteManagedFundingIntent env stampTime db tenant iid leaseToken session =
     (case validateManagedCheckoutCompletion env stampTime iid leaseToken session of
        Some err \<Rightarrow> (Inl (ErrOther err), db)
      | None \<Rightarrow> commit_tx db
          (bind_err (managedFundingIntentByIDTx db tenant iid) (\<lambda>(current, storedLease, _).
             finish_intent stampTime db tenant iid leaseToken session current storedLease)))"

definition ReleaseManagedFundingIntentLease ::
  "gotime \<Rightarrow> payment_db \<Rightarrow> string \<Rightarrow> string \<Rightarrow> string \<Rightarrow> (store_error + unit) \<times> payment_db" where
  "ReleaseManagedFundingIntentLease stamp db tenant iid leaseToken =
     (if TrimSpace tenant = '''' \<or> TrimSpace iid = '''' \<or> TrimSpace leaseToken = ''''
        then (Inl (ErrOther ''tenant, funding intent ID, and lease token are required''), db)
      else (Inr (), db\<lparr>pd_intents := upd_where (held_intent tenant iid leaseToken)
        (\<lambda>r. r\<lparr>fi_lease_token := None, fi_lease_expires_at := None, fi_updated_at := stamp\<rparr>)
        (pd_intents db)\<rparr>))"


section \<open>Payment events\<close>

definition validManagedPaymentMetadata :: "payment_env \<Rightarrow> string \<Rightarrow> string + string" where
  "validManagedPaymentMetadata env raw0 =
     (let raw = (if raw0 = '''' then ''{}'' else raw0) in
      if length raw > 16384 \<or> \<not> pv_is_json_object env raw
        then Inl ''payment metadata must be a bounded JSON object'' else Inr raw)"

definition event_key :: "managed_payment_event \<Rightarrow> payment_event_row \<Rightarrow> bool" where
  "event_key payment e = (pe_provider e = py_Provider payment \<and> pe_event_id e = py_EventID payment)"

definition set_event ::
  "managed_payment_event \<Rightarrow> (payment_event_row \<Rightarrow> payment_event_row) \<Rightarrow> payment_db \<Rightarrow> payment_db" where
  "set_event payment f db = db\<lparr>pd_events := upd_where (event_key payment) f (pd_events db)\<rparr>"

definition event_applied :: "string \<Rightarrow> string \<Rightarrow> gotime \<Rightarrow> payment_event_row \<Rightarrow> payment_event_row" where
  "event_applied tenant session stamp e =
     e\<lparr>pe_tenant_id := Some tenant, pe_session_id := Some session, pe_status := ''applied'',
       pe_error_code := None, pe_processed_at := Some stamp\<rparr>"

definition base_result :: "managed_payment_event \<Rightarrow> managed_payment_result" where
  "base_result payment =
     \<lparr>pr_Provider = py_Provider payment, pr_EventID = py_EventID payment, pr_Status = '''',
      pr_CreditApplied = False, pr_RefundApplied = False, pr_Wallet = None, pr_LedgerEntry = None\<rparr>"

definition managedWalletLedgerEntryTx :: "payment_db \<Rightarrow> string \<Rightarrow> store_error + ledger_row" where
  "managedWalletLedgerEntryTx db lid =
     (case find (\<lambda>l. lg_id l = lid) (wd_ledger db) of
        None \<Rightarrow> Inl (ErrOther ''sql: no rows in result set'') | Some l \<Rightarrow> Inr l)"

definition ledger_digest_id :: "payment_env \<Rightarrow> string \<Rightarrow> string \<Rightarrow> string \<Rightarrow> string" where
  "ledger_digest_id env prefix a b = prefix @ hex_encode (take 16 (pv_sha256 env (a @ [CHR 0x00] @ b)))"

text \<open>How much of a refund the spendable balance covers; the rest becomes debt.\<close>

definition refund_split :: "int \<Rightarrow> int \<Rightarrow> int" where
  "refund_split delta available = (if delta > available then available else delta)"

definition processManagedRefundTx ::
  "payment_env \<Rightarrow> gotime \<Rightarrow> payment_db \<Rightarrow> managed_payment_event \<Rightarrow>
   store_error + managed_payment_result \<times> payment_db" where
  "processManagedRefundTx env stamp db payment =
     (case find (\<lambda>c. pc_provider c = py_Provider payment \<and>
          pc_payment_intent_id c = Some (py_PaymentIntentID payment)) (pd_credits db) of
        None \<Rightarrow> Inl ErrNotFound
      | Some c \<Rightarrow>
        let tenant = pc_tenant_id c; delta = i64 (py_RefundedMicrousd payment - pc_refunded c) in
        if pc_currency c \<noteq> py_Currency payment \<or> py_RefundedMicrousd payment > pc_amount c
          then Inl (ErrConflict ''cumulative refund exceeds the credited payment intent'')
        else if delta < 0 then Inl (ErrConflict ''cumulative refund moved backwards'')
        else let db1 = set_event payment (event_applied tenant (pc_session_id c) stamp) db in
        if delta = 0 then
          bind_err (managedWalletTx db1 tenant) (\<lambda>wallet.
            Inr ((base_result payment)\<lparr>pr_Status := ''applied'', pr_Wallet := Some wallet\<rparr>, db1))
        else case wd_wallets db1 tenant of
          None \<Rightarrow> Inl (ErrOther ''sql: no rows in result set'')
        | Some w \<Rightarrow>
          let available = i64 (wl_balance w - wl_reserved w) in
          if available < 0 then Inl (ErrConflict ''managed wallet reservation invariant failed'')
          else let appliedToBalance = refund_split delta available;
                   debtIncrease = i64 (delta - appliedToBalance);
                   lid = ledger_digest_id env ''refund_'' (py_Provider payment) (py_EventID payment) in
            bind_err (update_wallet tenant
                (\<lambda>w. w\<lparr>wl_balance := wl_balance w - appliedToBalance, wl_debt := wl_debt w + debtIncrease,
                   wl_updated_at := stamp\<rparr>) db1) (\<lambda>db2.
            let db3 = db2\<lparr>pd_credits := upd_where (\<lambda>c. pc_provider c = py_Provider payment \<and>
                    pc_payment_intent_id c = Some (py_PaymentIntentID payment))
                  (\<lambda>c. c\<lparr>pc_refunded := py_RefundedMicrousd payment\<rparr>) (pd_credits db2)\<rparr> in
            bind_err (insert_ledger (credit_row lid tenant ''refund'' (- delta)
                (if debtIncrease > 0
                 then ''Stripe prepaid balance refund; consumed or reserved funds suspended''
                 else ''Stripe prepaid balance refund'') stamp) db3) (\<lambda>db4.
            bind_err (managedWalletTx db4 tenant) (\<lambda>wallet.
            bind_err (managedWalletLedgerEntryTx db4 lid) (\<lambda>entry.
            Inr ((base_result payment)\<lparr>pr_Status := ''applied'', pr_RefundApplied := True,
                pr_Wallet := Some wallet, pr_LedgerEntry := Some entry\<rparr>, db4))))))"

definition new_credit_row :: "managed_payment_event \<Rightarrow> string \<Rightarrow> gotime \<Rightarrow> payment_credit_row" where
  "new_credit_row payment lid stamp =
     \<lparr>pc_provider = py_Provider payment, pc_session_id = py_SessionID payment,
      pc_tenant_id = py_TenantID payment, pc_event_id = py_EventID payment, pc_ledger_id = lid,
      pc_currency = ''USD'', pc_amount = py_AmountMicrousd payment,
      pc_payment_intent_id = Some (py_PaymentIntentID payment),
      pc_funding_intent_id = Some (py_FundingIntentID payment), pc_refunded = 0,
      pc_created_at = stamp\<rparr>"

definition insert_credit :: "payment_credit_row \<Rightarrow> payment_db \<Rightarrow> store_error + payment_db" where
  "insert_credit c db =
     (if \<not> pc_amount c > 0 then Inl check_error
      else if \<exists>x \<in> set (pd_credits db).
          (pc_provider x = pc_provider c \<and> pc_session_id x = pc_session_id c) \<or>
          pc_ledger_id x = pc_ledger_id c \<or>
          (pc_provider x = pc_provider c \<and> pc_payment_intent_id c \<noteq> None \<and>
           pc_payment_intent_id x = pc_payment_intent_id c) \<or>
          (pc_funding_intent_id c \<noteq> None \<and> pc_funding_intent_id x = pc_funding_intent_id c)
        then Inl (ErrOther ''violates unique constraint'')
      else Inr (db\<lparr>pd_credits := pd_credits db @ [c]\<rparr>))"

definition already_credited ::
  "gotime \<Rightarrow> payment_db \<Rightarrow> managed_payment_event \<Rightarrow> payment_credit_row \<Rightarrow>
   store_error + managed_payment_result \<times> payment_db" where
  "already_credited stamp db payment c =
     (if pc_tenant_id c \<noteq> py_TenantID payment \<or> pc_currency c \<noteq> py_Currency payment \<or>
         pc_amount c \<noteq> py_AmountMicrousd payment \<or>
         coalesce (pc_payment_intent_id c) \<noteq> py_PaymentIntentID payment \<or>
         coalesce (pc_funding_intent_id c) \<noteq> py_FundingIntentID payment
        then Inl (ErrConflict ''checkout session has a different credited intent'')
      else let db1 = set_event payment
             (event_applied (py_TenantID payment) (py_SessionID payment) stamp) db in
        bind_err (managedWalletTx db1 (py_TenantID payment)) (\<lambda>wallet.
        bind_err (managedWalletLedgerEntryTx db1 (pc_ledger_id c)) (\<lambda>entry.
        Inr ((base_result payment)\<lparr>pr_Status := ''applied'', pr_Wallet := Some wallet,
            pr_LedgerEntry := Some entry\<rparr>, db1))))"

definition grant_credit ::
  "payment_env \<Rightarrow> gotime \<Rightarrow> payment_db \<Rightarrow> managed_payment_event \<Rightarrow>
   store_error + managed_payment_result \<times> payment_db" where
  "grant_credit env stamp db payment =
     (let tenant = py_TenantID payment;
          lid = ledger_digest_id env ''credit_'' (py_Provider payment) (py_SessionID payment) in
      bind_err (ensure_wallet (pv_tenant_exists env) tenant stamp db) (\<lambda>db1.
      bind_err (insert_ledger (credit_row lid tenant ''credit'' (py_AmountMicrousd payment)
          ''Stripe prepaid balance'' stamp) db1) (\<lambda>db2.
      bind_err (applyManagedCreditTx tenant (py_AmountMicrousd payment) stamp db2) (\<lambda>db3.
      bind_err (insert_credit (new_credit_row payment lid stamp) db3) (\<lambda>db4.
      let db5 = set_event payment (event_applied tenant (py_SessionID payment) stamp) db4 in
      bind_err (managedWalletTx db5 tenant) (\<lambda>wallet.
      bind_err (managedWalletLedgerEntryTx db5 lid) (\<lambda>entry.
      Inr ((base_result payment)\<lparr>pr_Status := ''applied'', pr_CreditApplied := True,
          pr_Wallet := Some wallet, pr_LedgerEntry := Some entry\<rparr>, db5))))))))"

definition process_credit ::
  "payment_env \<Rightarrow> gotime \<Rightarrow> payment_db \<Rightarrow> managed_payment_event \<Rightarrow>
   store_error + managed_payment_result \<times> payment_db" where
  "process_credit env stamp db payment =
     bind_err (managedFundingIntentByIDTx db (py_TenantID payment) (py_FundingIntentID payment))
       (\<lambda>(intent, _, _).
        if mf_Status intent \<noteq> ''completed'' \<or> mf_Provider intent \<noteq> py_Provider payment \<or>
            mf_CheckoutSessionID intent \<noteq> py_SessionID payment \<or>
            mf_AmountMicrousd intent \<noteq> py_AmountMicrousd payment \<or> mf_Currency intent \<noteq> py_Currency payment
          then Inl (ErrConflict ''verified payment does not match its durable funding intent'')
        else case find (\<lambda>c. pc_provider c = py_Provider payment \<and> pc_session_id c = py_SessionID payment)
            (pd_credits db) of
          Some c \<Rightarrow> already_credited stamp db payment c
        | None \<Rightarrow> grant_credit env stamp db payment)"

definition payment_invalid :: "payment_env \<Rightarrow> managed_payment_event \<Rightarrow> string option" where
  "payment_invalid env p =
     (if py_Provider p = '''' \<or> py_EventID p = '''' \<or> py_EventType p = '''' \<or> py_PayloadDigest p = ''''
        then Some ''payment provider, event ID, event type, and payload digest are required''
      else if length (py_PayloadDigest p) \<noteq> 64 then Some ''payment payload digest must be SHA-256 hex''
      else case validManagedPaymentMetadata env (py_MetadataJSON p) of Inl err \<Rightarrow> Some err
      | Inr _ \<Rightarrow>
        let operation = (if py_Operation p = '''' \<and> py_SessionID p \<noteq> '''' then ''credit'' else py_Operation p) in
        if py_Apply p \<and> operation = ''credit'' \<and> (py_TenantID p = '''' \<or> py_FundingIntentID p = '''' \<or>
            py_SessionID p = '''' \<or> py_PaymentIntentID p = '''' \<or> py_AmountMicrousd p \<le> 0 \<or> py_Currency p \<noteq> ''USD'')
          then Some ''applied credit requires tenant, funding intent, session, payment intent, positive USD amount, and currency''
        else if py_Apply p \<and> operation = ''refund'' \<and> (py_PaymentIntentID p = '''' \<or> py_RefundedMicrousd p \<le> 0 \<or>
            py_Currency p \<noteq> ''USD'')
          then Some ''applied refund requires payment intent, positive cumulative refunded USD amount, and currency''
        else if py_Apply p \<and> operation \<noteq> ''credit'' \<and> operation \<noteq> ''refund''
          then Some ''applied payment operation is invalid''
        else None)"

definition received_row :: "managed_payment_event \<Rightarrow> string \<Rightarrow> gotime \<Rightarrow> payment_event_row" where
  "received_row p metadata stamp =
     \<lparr>pe_provider = py_Provider p, pe_event_id = py_EventID p, pe_tenant_id = sql_null (py_TenantID p),
      pe_session_id = sql_null (py_SessionID p), pe_event_type = py_EventType p,
      pe_payload_digest = py_PayloadDigest p, pe_status = ''received'', pe_error_code = None,
      pe_metadata = metadata, pe_created_at = stamp, pe_processed_at = None\<rparr>"

definition ProcessManagedPaymentEvent ::
  "payment_env \<Rightarrow> gotime \<Rightarrow> payment_db \<Rightarrow> managed_payment_event \<Rightarrow>
   (store_error + managed_payment_result) \<times> payment_db" where
  "ProcessManagedPaymentEvent env stamp db p =
     (case payment_invalid env p of Some err \<Rightarrow> (Inl (ErrOther err), db)
      | None \<Rightarrow>
        let metadata = (if py_MetadataJSON p = '''' then ''{}'' else py_MetadataJSON p);
            operation = (if py_Operation p = '''' \<and> py_SessionID p \<noteq> '''' then ''credit'' else py_Operation p) in
        commit_tx db
          (case find (event_key p) (pd_events db) of
             Some e \<Rightarrow>
               if pe_payload_digest e \<noteq> py_PayloadDigest p
                 then Inl (ErrConflict ''payment event ID has a different payload'')
               else Inr ((base_result p)\<lparr>pr_Status := pe_status e\<rparr>, db)
           | None \<Rightarrow>
               if py_TenantID p \<noteq> '''' \<and> \<not> pv_tenant_exists env (py_TenantID p)
                 then Inl (ErrOther ''violates foreign key constraint'')
               else let db1 = db\<lparr>pd_events := pd_events db @ [received_row p metadata stamp]\<rparr> in
               if \<not> py_Apply p then
                 Inr ((base_result p)\<lparr>pr_Status := ''ignored''\<rparr>,
                   set_event p (\<lambda>e. e\<lparr>pe_status := ''ignored'', pe_error_code := sql_null (py_IgnoreReason p),
                     pe_processed_at := Some stamp\<rparr>) db1)
               else if operation = ''refund'' then processManagedRefundTx env stamp db1 p
               else process_credit env stamp db1 p))"


section \<open>Accounts under payments\<close>

lemma wallet_inv_pd [simp]:
  fixes db :: payment_db
  shows "wallet_inv other drift (db\<lparr>pd_events := x\<rparr>) = wallet_inv other drift db"
    "wallet_inv other drift (db\<lparr>pd_credits := y\<rparr>) = wallet_inv other drift db"
    "wallet_inv other drift (db\<lparr>pd_intents := z\<rparr>) = wallet_inv other drift db"
  by (simp_all add: wallet_inv_def usage_table_ok_def ledger_sum_def outstanding_def)

lemma set_event_sel [simp]:
  "wallet_inv other drift (set_event p f db) = wallet_inv other drift db"
  "wd_wallets (set_event p f db) = wd_wallets db" "wd_ledger (set_event p f db) = wd_ledger db"
  "wd_usage (set_event p f db) = wd_usage db" "pd_credits (set_event p f db) = pd_credits db"
  "pd_intents (set_event p f db) = pd_intents db"
  by (simp_all add: set_event_def)

lemma insert_ledger_Inr: "insert_ledger l db = Inr db' \<longleftrightarrow> \<not> ledger_has_id (lg_id l) db \<and> db' = append_ledger l db"
  by (auto simp: insert_ledger_def)

text \<open>A refund takes what the spendable balance covers and books the rest as debt.\<close>

lemma refund_inv:
  fixes db :: payment_db
  assumes inv: "wallet_inv other drift db" and w: "wd_wallets db tenant = Some w" and d: "0 < delta" "is_i64 delta"
    and a: "a = refund_split delta (i64 (wl_balance w - wl_reserved w))"
    and upd: "update_wallet tenant (\<lambda>w. w\<lparr>wl_balance := wl_balance w - a,
        wl_debt := wl_debt w + i64 (delta - a), wl_updated_at := stamp\<rparr>) db = Inr db2"
    and l: "lg_tenant_id l = tenant" "lg_amount l = - delta" "lg_reservation_id l = None"
  shows "wallet_inv other drift (append_ledger l (db2\<lparr>pd_credits := cs\<rparr>))"
proof -
  have acc: "wallet_check w" "is_i64 (wl_balance w)"
    "wl_balance w - wl_debt w = ledger_sum db tenant + drift tenant"
    "wl_reserved w = outstanding db tenant + other tenant"
    using wallet_invD(1) [OF inv, of tenant] w by (auto simp: account_ok_def)
  have av: "i64 (wl_balance w - wl_reserved w) = wl_balance w - wl_reserved w"
    using acc(1,2) by (intro i64_id) (simp add: wallet_check_def is_i64_def min_i64_def max_i64_def)
  have le: "0 \<le> a" "a \<le> delta" using acc(1) d(1) unfolding a av by (auto simp: refund_split_def wallet_check_def)
  have e: "i64 (delta - a) = delta - a"
    using le d by (intro i64_id) (simp add: is_i64_def min_i64_def max_i64_def)
  note frame = update_wallet_frame [OF upd]
  have wal: "wd_wallets db2 tenant = Some (w\<lparr>wl_balance := wl_balance w - a,
        wl_debt := wl_debt w + i64 (delta - a), wl_updated_at := stamp\<rparr>)"
    "wallet_check (w\<lparr>wl_balance := wl_balance w - a, wl_debt := wl_debt w + i64 (delta - a), wl_updated_at := stamp\<rparr>)"
    "is_i64 (wl_balance w - a)" "is_i64 (wl_debt w + i64 (delta - a))"
    by (rule update_wallet_Inr [OF upd]; use w in auto)+
  have inv2: "wallet_inv other drift (append_ledger l db2)"
  proof (rule wallet_inv_change [OF inv])
    show "usage_table_ok (append_ledger l db2)"
      using wallet_invD(2) [OF inv] by (rule usage_table_ok_cong) (auto simp: frame l)
    show "account_ok (other tenant) (drift tenant) (wd_wallets (append_ledger l db2) tenant)
        (ledger_sum (append_ledger l db2) tenant) (outstanding (append_ledger l db2) tenant)"
      using acc wal l unfolding frame by (simp add: account_ok_def frame e)
  qed (use frame l in auto)
  have "append_ledger l (db2\<lparr>pd_credits := cs\<rparr>) = (append_ledger l db2)\<lparr>pd_credits := cs\<rparr>"
    by (simp add: append_ledger_def)
  then show ?thesis using inv2 by simp
qed

lemma processManagedRefundTx_Inr:
  assumes "processManagedRefundTx env stamp db p = Inr (res, db')"
  obtains (same) c where "c \<in> set (pd_credits db)" "db' = set_event p (event_applied (pc_tenant_id c) (pc_session_id c) stamp) db"
  | (refund) c w delta a db1 db2 l where "c \<in> set (pd_credits db)"
      "db1 = set_event p (event_applied (pc_tenant_id c) (pc_session_id c) stamp) db"
      "delta = i64 (py_RefundedMicrousd p - pc_refunded c)" "0 < delta"
      "py_RefundedMicrousd p \<le> pc_amount c"
      "pc_provider c = py_Provider p" "pc_payment_intent_id c = Some (py_PaymentIntentID p)"
      "wd_wallets db1 (pc_tenant_id c) = Some w"
      "a = refund_split delta (i64 (wl_balance w - wl_reserved w))"
      "update_wallet (pc_tenant_id c) (\<lambda>w. w\<lparr>wl_balance := wl_balance w - a,
        wl_debt := wl_debt w + i64 (delta - a), wl_updated_at := stamp\<rparr>) db1 = Inr db2"
      "db' = append_ledger l (db2\<lparr>pd_credits := upd_where (\<lambda>c. pc_provider c = py_Provider p \<and>
          pc_payment_intent_id c = Some (py_PaymentIntentID p))
        (\<lambda>c. c\<lparr>pc_refunded := py_RefundedMicrousd p\<rparr>) (pd_credits db2)\<rparr>)"
      "lg_tenant_id l = pc_tenant_id c" "lg_amount l = - delta" "lg_reservation_id l = None"
proof -
  obtain c where c: "find (\<lambda>c. pc_provider c = py_Provider p \<and>
      pc_payment_intent_id c = Some (py_PaymentIntentID p)) (pd_credits db) = Some c"
    using assms by (auto simp: processManagedRefundTx_def split: option.splits)
  then have mem: "c \<in> set (pd_credits db)" "pc_provider c = py_Provider p"
      "pc_payment_intent_id c = Some (py_PaymentIntentID p)"
    by (auto simp: find_Some_iff)
  define delta where "delta = i64 (py_RefundedMicrousd p - pc_refunded c)"
  define db1 where "db1 = set_event p (event_applied (pc_tenant_id c) (pc_session_id c) stamp) db"
  note run = assms [unfolded processManagedRefundTx_def c option.case Let_def
      delta_def [symmetric] db1_def [symmetric]]
  show ?thesis
  proof (cases "delta = 0")
    case True
    then show ?thesis using run same mem(1) by (auto simp: bind_err_Inr db1_def split: if_splits)
  next
    case False
    then have pos: "0 < delta" "py_RefundedMicrousd p \<le> pc_amount c"
      using run by (auto split: if_splits)
    obtain w where w: "wd_wallets db1 (pc_tenant_id c) = Some w"
      using run False by (auto split: if_splits option.splits)
    define a where "a = refund_split delta (i64 (wl_balance w - wl_reserved w))"
    define l where "l = credit_row (ledger_digest_id env ''refund_'' (py_Provider p) (py_EventID p))
      (pc_tenant_id c) ''refund'' (- delta)
      (if i64 (delta - a) > 0 then ''Stripe prepaid balance refund; consumed or reserved funds suspended''
       else ''Stripe prepaid balance refund'') stamp"
    have l: "lg_tenant_id l = pc_tenant_id c" "lg_amount l = - delta" "lg_reservation_id l = None"
      by (simp_all add: l_def credit_row_def)
    have "\<exists>db2. update_wallet (pc_tenant_id c) (\<lambda>w. w\<lparr>wl_balance := wl_balance w - a,
        wl_debt := wl_debt w + i64 (delta - a), wl_updated_at := stamp\<rparr>) db1 = Inr db2 \<and>
      db' = append_ledger l (db2\<lparr>pd_credits := upd_where (\<lambda>c. pc_provider c = py_Provider p \<and>
          pc_payment_intent_id c = Some (py_PaymentIntentID p))
        (\<lambda>c. c\<lparr>pc_refunded := py_RefundedMicrousd p\<rparr>) (pd_credits db2)\<rparr>)"
      using run False unfolding w option.case a_def [symmetric] l_def [symmetric]
      by (auto simp: bind_err_Inr insert_ledger_Inr split: if_split_asm)
    then show ?thesis using refund mem pos w l a_def delta_def db1_def by blast
  qed
qed


lemma grant_credit_Inr:
  assumes "grant_credit env stamp db p = Inr (res, db')"
  obtains db1 l db3 where "ensure_wallet (pv_tenant_exists env) (py_TenantID p) stamp db = Inr db1"
    "applyManagedCreditTx (py_TenantID p) (py_AmountMicrousd p) stamp (append_ledger l db1) = Inr db3"
    "lg_tenant_id l = py_TenantID p" "lg_amount l = py_AmountMicrousd p" "lg_reservation_id l = None"
    "insert_credit (new_credit_row p (lg_id l) stamp) db3 =
      Inr (db3\<lparr>pd_credits := pd_credits db3 @ [new_credit_row p (lg_id l) stamp]\<rparr>)"
    "db' = set_event p (event_applied (py_TenantID p) (py_SessionID p) stamp)
      (db3\<lparr>pd_credits := pd_credits db3 @ [new_credit_row p (lg_id l) stamp]\<rparr>)"
    "pr_CreditApplied res" "lg_id l = ledger_digest_id env ''credit_'' (py_Provider p) (py_SessionID p)"
proof -
  define lid where "lid = ledger_digest_id env ''credit_'' (py_Provider p) (py_SessionID p)"
  define l where "l = credit_row lid (py_TenantID p) ''credit'' (py_AmountMicrousd p)
    ''Stripe prepaid balance'' stamp"
  have l: "lg_tenant_id l = py_TenantID p" "lg_amount l = py_AmountMicrousd p" "lg_reservation_id l = None"
    "lg_id l = lid" by (simp_all add: l_def credit_row_def)
  obtain db1 db3 db4 where "ensure_wallet (pv_tenant_exists env) (py_TenantID p) stamp db = Inr db1"
    "applyManagedCreditTx (py_TenantID p) (py_AmountMicrousd p) stamp (append_ledger l db1) = Inr db3"
    "insert_credit (new_credit_row p lid stamp) db3 = Inr db4"
    "db' = set_event p (event_applied (py_TenantID p) (py_SessionID p) stamp) db4" "pr_CreditApplied res"
    using assms unfolding grant_credit_def Let_def lid_def [symmetric] l_def [symmetric]
    by (auto simp: bind_err_Inr insert_ledger_Inr)
  moreover from this(3) have "db4 = db3\<lparr>pd_credits := pd_credits db3 @ [new_credit_row p lid stamp]\<rparr>"
    by (auto simp: insert_credit_def split: if_splits)
  ultimately show ?thesis using that l lid_def by metis
qed

lemma process_credit_inv:
  assumes "process_credit env stamp db p = Inr (res, db')" "wallet_inv other drift db" "0 < py_AmountMicrousd p"
  shows "wallet_inv other drift db'"
proof -
  consider c where "already_credited stamp db p c = Inr (res, db')" | "grant_credit env stamp db p = Inr (res, db')"
    using assms(1) by (auto simp: process_credit_def bind_err_Inr split: if_splits option.splits)
  then show ?thesis
  proof cases
    case 1
    then show ?thesis using assms(2) by (auto simp: already_credited_def Let_def bind_err_Inr split: if_splits)
  next
    case 2
    then show ?thesis
    proof (rule grant_credit_Inr)
      fix db1 l db3
      assume e: "ensure_wallet (pv_tenant_exists env) (py_TenantID p) stamp db = Inr db1"
        and ap: "applyManagedCreditTx (py_TenantID p) (py_AmountMicrousd p) stamp (append_ledger l db1) = Inr db3"
        and l: "lg_tenant_id l = py_TenantID p" "lg_amount l = py_AmountMicrousd p" "lg_reservation_id l = None"
        and db': "db' = set_event p (event_applied (py_TenantID p) (py_SessionID p) stamp)
          (db3\<lparr>pd_credits := pd_credits db3 @ [new_credit_row p (lg_id l) stamp]\<rparr>)"
      note i = ensure_wallet_inv [OF e assms(2)]
      have "wallet_inv other drift db3" using credit_inv [OF i(1,2) l(3,1,2) assms(3) ap] .
      then show ?thesis by (simp add: db')
    qed
  qed
qed

lemma payment_valid:
  assumes "payment_invalid env p = None" "py_Apply p"
  defines "operation \<equiv> if py_Operation p = '''' \<and> py_SessionID p \<noteq> '''' then ''credit'' else py_Operation p"
  shows "operation = ''credit'' \<and> 0 < py_AmountMicrousd p \<or> operation = ''refund'' \<and> 0 < py_RefundedMicrousd p"
  using assms by (auto simp: payment_invalid_def Let_def split: if_splits sum.splits)

lemma ProcessManagedPaymentEvent_cases:
  assumes "ProcessManagedPaymentEvent env stamp db p = (res, db')"
  obtains (unchanged) "db' = db"
  | (ignored) ev f where "db' = set_event p f (db\<lparr>pd_events := pd_events db @ [ev]\<rparr>)"
  | (refunded) ev r where "processManagedRefundTx env stamp (db\<lparr>pd_events := pd_events db @ [ev]\<rparr>) p = Inr (r, db')"
      "res = Inr r" "0 < py_RefundedMicrousd p"
  | (credited) ev r where "process_credit env stamp (db\<lparr>pd_events := pd_events db @ [ev]\<rparr>) p = Inr (r, db')"
      "res = Inr r" "0 < py_AmountMicrousd p"
proof (cases "payment_invalid env p")
  case None
  let ?ev = "received_row p (if py_MetadataJSON p = '''' then ''{}'' else py_MetadataJSON p) stamp"
  let ?db = "db\<lparr>pd_events := pd_events db @ [?ev]\<rparr>"
  note run = assms [unfolded ProcessManagedPaymentEvent_def None option.case Let_def]
  show ?thesis
  proof (cases "find (event_key p) (pd_events db) \<noteq> None \<or>
      (py_TenantID p \<noteq> '''' \<and> \<not> pv_tenant_exists env (py_TenantID p))")
    case True
    then have "db' = db" using run by (auto simp: commit_tx_def split: if_splits option.splits)
    then show ?thesis by (rule unchanged)
  next
    case False
    then have f: "find (event_key p) (pd_events db) = None"
      "\<not> (py_TenantID p \<noteq> '''' \<and> \<not> pv_tenant_exists env (py_TenantID p))" by auto
    note run' = run [unfolded f(1) option.case if_not_P [OF f(2)]]
    show ?thesis
    proof (cases "py_Apply p")
      case False
      then show ?thesis using run' ignored by (auto simp: commit_tx_def)
    next
      case True
      note ok = payment_valid [OF None True]
      show ?thesis
        using run' True ok unchanged refunded [of ?ev] credited [of ?ev]
        by (auto simp: commit_tx_def split: sum.splits if_splits)
    qed
  qed
qed (use assms unchanged in \<open>simp add: ProcessManagedPaymentEvent_def\<close>)

lemma ProcessManagedPaymentEvent_inv [step_inv]:
  assumes "ProcessManagedPaymentEvent env stamp db p = (res, db')" "wallet_inv other drift db"
  shows "wallet_inv other drift db'"
  using assms(1)
proof (cases rule: ProcessManagedPaymentEvent_cases)
  case (refunded ev r)
  have inv: "wallet_inv other drift (db\<lparr>pd_events := pd_events db @ [ev]\<rparr>)" using assms(2) by simp
  from refunded(1) show ?thesis
  proof (cases rule: processManagedRefundTx_Inr)
    case (refund c w delta a db1 db2 l)
    have "wallet_inv other drift db1" using refund(2) inv by simp
    then show ?thesis
      unfolding refund(11) using refund
      by (intro refund_inv [where delta = delta and w = w and tenant = "pc_tenant_id c" and a = a]) simp_all
  qed (use inv in simp)
next
  case (credited ev r)
  then show ?thesis using process_credit_inv assms(2) wallet_inv_pd(1) by blast
qed (use assms(2) in simp_all)


section \<open>Runs of the billing store\<close>

text \<open>Any sequence of the store's billing calls, with any arguments an \<open>int64\<close> caller can pass.\<close>

inductive billing_step :: "payment_db \<Rightarrow> payment_db \<Rightarrow> bool" where
  credit: "CreditManagedWallet tex stamp db tenant cid desc amount = (res, db') \<Longrightarrow> billing_step db db'"
| authorize: "AuthorizeManagedUsage benv stamp db tenant b q s m = (res, db') \<Longrightarrow> billing_step db db'"
| settle: "SettleManagedUsage benv stamp db tenant rid it ot = (res, db') \<Longrightarrow> billing_step db db'"
| release: "ReleaseManagedUsage benv stamp db tenant rid reason = (res, db') \<Longrightarrow> billing_step db db'"
| payment: "ProcessManagedPaymentEvent env stamp db p = (res, db') \<Longrightarrow> is_i64 (py_AmountMicrousd p) \<Longrightarrow>
    billing_step db db'"
| prepare: "PrepareManagedFundingIntent env stamp newID db tenant intent lease = (res, db') \<Longrightarrow>
    billing_step db db'"
| complete: "CompleteManagedFundingIntent env stamp db tenant iid token session = (res, db') \<Longrightarrow>
    billing_step db db'"
| release_lease: "ReleaseManagedFundingIntentLease stamp db tenant iid token = (res, db') \<Longrightarrow>
    billing_step db db'"

definition empty_billing :: payment_db where
  "empty_billing = \<lparr>wd_wallets = (\<lambda>_. None), wd_ledger = [], wd_usage = [], pd_events = [],
     pd_credits = [], pd_intents = []\<rparr>"

lemma intents_same: "\<exists>is. db = db\<lparr>pd_intents := is\<rparr>" for db :: payment_db
  by (rule exI [of _ "pd_intents db"]) simp

text \<open>The funding operations only touch the intents, and never a completed one.\<close>

lemma completed_kept:
  assumes "r \<in> set rows" "fi_status r = ''completed''" "\<And>x. P x \<Longrightarrow> fi_status x = ''pending''"
  shows "r \<in> set (upd_where P f rows)"
proof -
  have "\<not> P r" using assms(2,3) by force
  then show ?thesis unfolding set_upd_where using assms(1) by (force intro: rev_image_eqI)
qed

lemma lease_intent_shape:
  assumes "lease_intent stamp newID tenant requested lease db1 current cl ce = Inr (x, db')"
  shows "db' = db1 \<or> (\<exists>token. db' = db1\<lparr>pd_intents := upd_where (\<lambda>r. fi_id r = mf_ID current \<and>
    fi_tenant_id r = tenant \<and> fi_status r = ''pending'') (lease_row token stamp lease) (pd_intents db1)\<rparr>)"
proof (cases newID)
  case (Inr token)
  have "db' = db1 \<or> db' = db1\<lparr>pd_intents := upd_where (\<lambda>r. fi_id r = mf_ID current \<and>
    fi_tenant_id r = tenant \<and> fi_status r = ''pending'') (lease_row token stamp lease) (pd_intents db1)\<rparr>"
    using assms unfolding lease_intent_def Inr sum.case by (simp split: if_split_asm)
  then show ?thesis by blast
qed (use assms in \<open>simp add: lease_intent_def split: if_split_asm\<close>)

lemma prepare_shape:
  assumes "PrepareManagedFundingIntent env stamp newID db tenant intent lease = (res, db')"
  obtains "db' = db" | db1 x current cl ce where
    "insert_intent env (new_intent_row intent tenant stamp) db = Inr db1"
    "lease_intent stamp newID tenant intent lease db1 current cl ce = Inr (x, db')"
proof (cases res)
  case (Inl e)
  then have "db' = db"
    using assms by (auto simp: PrepareManagedFundingIntent_def commit_tx_Inl split: option.splits)
  then show ?thesis by (rule that(1))
next
  case (Inr x)
  then have "\<exists>db1 current cl ce. insert_intent env (new_intent_row intent tenant stamp) db = Inr db1 \<and>
      lease_intent stamp newID tenant intent lease db1 current cl ce = Inr (x, db')"
    using assms
    by (auto simp: PrepareManagedFundingIntent_def commit_tx_Inr bind_err_Inr split: option.splits)
  then show ?thesis using that(2) by blast
qed

lemma insert_intent_shape:
  "insert_intent env x db = Inr db1 \<Longrightarrow> db1 = db \<or> db1 = db\<lparr>pd_intents := pd_intents db @ [x]\<rparr>"
  by (auto simp: insert_intent_def split: if_splits)

lemma prepare_frame:
  assumes "PrepareManagedFundingIntent env stamp newID db tenant intent lease = (res, db')"
  shows "\<exists>is. db' = db\<lparr>pd_intents := is\<rparr>"
    "r \<in> set (pd_intents db) \<Longrightarrow> fi_status r = ''completed'' \<Longrightarrow> r \<in> set (pd_intents db')"
proof -
  have both: "(\<exists>is. db' = db\<lparr>pd_intents := is\<rparr>) \<and>
      (r \<in> set (pd_intents db) \<and> fi_status r = ''completed'' \<longrightarrow> r \<in> set (pd_intents db'))"
    using assms
  proof (rule prepare_shape)
    fix db1 x current cl ce
    assume ins: "insert_intent env (new_intent_row intent tenant stamp) db = Inr db1"
      and fin: "lease_intent stamp newID tenant intent lease db1 current cl ce = Inr (x, db')"
    have "db1 = db\<lparr>pd_intents := pd_intents db1\<rparr> \<and> set (pd_intents db) \<subseteq> set (pd_intents db1)"
      using insert_intent_shape [OF ins] by auto
    then obtain is1 where is1: "db1 = db\<lparr>pd_intents := is1\<rparr>" "set (pd_intents db) \<subseteq> set is1" by blast
    from lease_intent_shape [OF fin] show ?thesis
    proof (elim disjE exE)
      fix token
      assume "db' = db1\<lparr>pd_intents := upd_where (\<lambda>r. fi_id r = mf_ID current \<and>
        fi_tenant_id r = tenant \<and> fi_status r = ''pending'') (lease_row token stamp lease) (pd_intents db1)\<rparr>"
      then show ?thesis using is1 by (auto intro!: completed_kept)
    qed (use is1 in auto)
  qed (use intents_same in blast)
  then show "\<exists>is. db' = db\<lparr>pd_intents := is\<rparr>"
    "r \<in> set (pd_intents db) \<Longrightarrow> fi_status r = ''completed'' \<Longrightarrow> r \<in> set (pd_intents db')" by blast+
qed

lemma complete_shape:
  assumes "CompleteManagedFundingIntent env stamp db tenant iid token session = (res, db')"
  shows "db' = db \<or> db' = db\<lparr>pd_intents := upd_where (held_intent tenant iid token) (complete_row session stamp)
    (pd_intents db)\<rparr>"
proof (cases res)
  case (Inl e)
  then show ?thesis
    using assms by (auto simp: CompleteManagedFundingIntent_def commit_tx_Inl split: option.splits)
next
  case (Inr x)
  then obtain current sl where "finish_intent stamp db tenant iid token session current sl = Inr (x, db')"
    using assms by (auto simp: CompleteManagedFundingIntent_def commit_tx_Inr bind_err_Inr split: option.splits)
  then show ?thesis unfolding finish_intent_def by (simp split: if_split_asm)
qed

lemma release_lease_shape:
  "ReleaseManagedFundingIntentLease stamp db tenant iid token = (res, db') \<Longrightarrow>
   db' = db \<or> (\<exists>f. db' = db\<lparr>pd_intents := upd_where (held_intent tenant iid token) f (pd_intents db)\<rparr>)"
  by (auto simp: ReleaseManagedFundingIntentLease_def split: if_splits)

lemma funding_frame:
  "PrepareManagedFundingIntent env stamp newID db tenant intent lease = (res1, db') \<Longrightarrow>
     \<exists>is. db' = db\<lparr>pd_intents := is\<rparr>"
  "CompleteManagedFundingIntent env stamp db tenant iid token session = (res2, db') \<Longrightarrow>
     \<exists>is. db' = db\<lparr>pd_intents := is\<rparr>"
  "ReleaseManagedFundingIntentLease stamp db tenant iid token = (res3, db') \<Longrightarrow>
     \<exists>is. db' = db\<lparr>pd_intents := is\<rparr>"
  using prepare_frame(1) complete_shape release_lease_shape intents_same by metis+

lemma billing_step_inv [step_inv]:
  "billing_step db db' \<Longrightarrow> wallet_inv other drift db \<Longrightarrow> wallet_inv other drift db'"
proof (induction rule: billing_step.induct)
  case (prepare env stamp newID db tenant intent lease res db')
  then show ?case using funding_frame(1) wallet_inv_pd(3) by metis
next
  case (complete env stamp db tenant iid token session res db')
  then show ?case using funding_frame(2) wallet_inv_pd(3) by metis
next
  case (release_lease stamp db tenant iid token res db')
  then show ?case using funding_frame(3) wallet_inv_pd(3) by metis
qed (blast intro: CreditManagedWallet_inv AuthorizeManagedUsage_inv SettleManagedUsage_inv
    ReleaseManagedUsage_inv ProcessManagedPaymentEvent_inv)+

lemma billing_steps_inv:
  "billing_step\<^sup>*\<^sup>* db db' \<Longrightarrow> wallet_inv other drift db \<Longrightarrow> wallet_inv other drift db'"
  by (induction rule: rtranclp_induct) (auto intro: billing_step_inv)

lemma empty_billing_inv [simp]: "wallet_inv (\<lambda>_. 0) (\<lambda>_. 0) empty_billing"
  by (simp add: wallet_inv_def empty_billing_def usage_table_ok_def ledger_sum_def outstanding_def account_ok_def)


section \<open>Credits and refunds along runs\<close>

definition intent_key :: "payment_credit_row \<Rightarrow> (string \<times> string) option" where
  "intent_key c = (case pc_payment_intent_id c of None \<Rightarrow> None | Some i \<Rightarrow> Some (pc_provider c, i))"

definition session_key :: "payment_credit_row \<Rightarrow> (string \<times> string) option" where
  "session_key c = Some (pc_provider c, pc_session_id c)"

definition credits_ok :: "payment_credit_row list \<Rightarrow> bool" where
  "credits_ok cs \<longleftrightarrow> unique_key intent_key cs \<and> unique_key session_key cs \<and>
     (\<forall>c \<in> set cs. 0 < pc_amount c \<and> is_i64 (pc_amount c) \<and> 0 \<le> pc_refunded c \<and> pc_refunded c \<le> pc_amount c)"

definition credit_evolves :: "payment_credit_row \<Rightarrow> payment_credit_row \<Rightarrow> bool" where
  "credit_evolves c c' \<longleftrightarrow> pc_refunded c \<le> pc_refunded c' \<and> c' = c\<lparr>pc_refunded := pc_refunded c'\<rparr>"

lemma credit_evolves_refl [simp]: "credit_evolves c c"
  by (simp add: credit_evolves_def)

lemma credit_evolves_trans: "credit_evolves a b \<Longrightarrow> credit_evolves b c \<Longrightarrow> credit_evolves a c"
  unfolding credit_evolves_def
  by (metis (no_types, lifting) order_trans payment_credit_row.select_convs(10)
      payment_credit_row.surjective payment_credit_row.update_convs(10))

lemma credits_append:
  assumes "insert_credit c db = Inr db'" "credits_ok (pd_credits db)" "is_i64 (pc_amount c)" "pc_refunded c = 0"
  shows "credits_ok (pd_credits db')" "pd_credits db' = pd_credits db @ [c]"
proof -
  have ins: "0 < pc_amount c" "\<not> has_key intent_key (intent_key c) (pd_credits db)"
    "\<not> has_key session_key (session_key c) (pd_credits db)" "pd_credits db' = pd_credits db @ [c]"
    using assms(1)
    by (auto simp: insert_credit_def has_key_def intent_key_def session_key_def split: if_splits option.splits)
  then show "pd_credits db' = pd_credits db @ [c]" by simp
  show "credits_ok (pd_credits db')"
    using assms ins unique_key_append [of intent_key "pd_credits db" c] unique_key_append [of session_key "pd_credits db" c]
    by (auto simp: credits_ok_def)
qed

lemma credits_refund:
  assumes "credits_ok cs" "c \<in> set cs" "pc_provider c = prov" "pc_payment_intent_id c = Some pid"
    "0 < r" "r \<le> pc_amount c" "0 < i64 (r - pc_refunded c)"
  defines "cs' \<equiv> upd_where (\<lambda>c. pc_provider c = prov \<and> pc_payment_intent_id c = Some pid)
      (\<lambda>c. c\<lparr>pc_refunded := r\<rparr>) cs"
  shows "credits_ok cs'" "x \<in> set cs \<Longrightarrow> \<exists>x' \<in> set cs'. credit_evolves x x'"
proof -
  have c: "is_i64 (pc_amount c)" "0 \<le> pc_refunded c" "pc_refunded c \<le> pc_amount c"
    using assms(1,2) by (auto simp: credits_ok_def)
  have "i64 (r - pc_refunded c) = r - pc_refunded c"
    using c assms(5,6) by (intro i64_id) (simp add: is_i64_def min_i64_def max_i64_def)
  then have grow: "pc_refunded c < r" using assms(7) by simp
  have uniq: "x = c" if "x \<in> set cs" "pc_provider x = prov \<and> pc_payment_intent_id x = Some pid" for x
    using unique_key_inj [of intent_key cs x c "(prov, pid)"] that assms(1-4)
    by (simp add: credits_ok_def intent_key_def)
  have "unique_key intent_key cs'"
    unfolding cs'_def using assms(1) by (subst unique_key_upd_where) (auto simp: intent_key_def credits_ok_def)
  moreover have "unique_key session_key cs'"
    unfolding cs'_def using assms(1) by (subst unique_key_upd_where) (auto simp: session_key_def credits_ok_def)
  moreover have "0 < pc_amount x \<and> is_i64 (pc_amount x) \<and> 0 \<le> pc_refunded x \<and> pc_refunded x \<le> pc_amount x"
    if "x \<in> set cs'" for x
    using that unfolding cs'_def
  proof (rule upd_where_cases)
    fix y
    assume "y \<in> set cs" "pc_provider y = prov \<and> pc_payment_intent_id y = Some pid"
      "x = y\<lparr>pc_refunded := r\<rparr>"
    then show ?thesis using uniq [of y] assms(1,2,5,6) by (auto simp: credits_ok_def)
  qed (use assms(1) in \<open>simp add: credits_ok_def\<close>)
  ultimately show "credits_ok cs'" by (simp add: credits_ok_def)
  show "\<exists>x' \<in> set cs'. credit_evolves x x'" if x: "x \<in> set cs"
  proof (cases "pc_provider x = prov \<and> pc_payment_intent_id x = Some pid")
    case True
    then have "x\<lparr>pc_refunded := r\<rparr> \<in> set cs'" unfolding cs'_def set_upd_where using x by force
    moreover have "credit_evolves x (x\<lparr>pc_refunded := r\<rparr>)"
      using uniq [OF x True] grow by (simp add: credit_evolves_def)
    ultimately show ?thesis by blast
  next
    case False
    then have "x \<in> set cs'" unfolding cs'_def set_upd_where using x by force
    then show ?thesis using credit_evolves_refl by blast
  qed
qed

lemma pd_credits_more: "wallet_db.more db' = wallet_db.more db \<Longrightarrow> pd_credits db' = pd_credits db"
  by (cases db; cases db') simp

lemma process_credits:
  assumes "ProcessManagedPaymentEvent env stamp db p = (res, db')" "is_i64 (py_AmountMicrousd p)"
    "credits_ok (pd_credits db)"
  shows "credits_ok (pd_credits db') \<and> (\<forall>c \<in> set (pd_credits db). \<exists>c' \<in> set (pd_credits db'). credit_evolves c c')"
proof -
  have same: ?thesis if "pd_credits db' = pd_credits db"
    using that assms(3) by (metis credit_evolves_refl)
  from assms(1) show ?thesis
  proof (cases rule: ProcessManagedPaymentEvent_cases)
    case (refunded ev r)
    from refunded(1) show ?thesis
    proof (cases rule: processManagedRefundTx_Inr)
      case (refund c w delta a db1 db2 l)
      have "pd_credits db2 = pd_credits db"
        using pd_credits_more [OF update_wallet_more [OF refund(10)]] refund(2) by simp
      then have cs: "pd_credits db' = upd_where (\<lambda>c. pc_provider c = py_Provider p \<and>
          pc_payment_intent_id c = Some (py_PaymentIntentID p))
        (\<lambda>c. c\<lparr>pc_refunded := py_RefundedMicrousd p\<rparr>) (pd_credits db)"
        unfolding refund(11) by (simp add: append_ledger_def)
      show ?thesis
        unfolding cs
        using credits_refund [OF assms(3) _ refund(6,7) refunded(3) refund(5)] refund(1,3,4)
        by auto
    qed (use same in simp)
  next
    case (credited ev r)
    from credited(1) consider c where "already_credited stamp (db\<lparr>pd_events := pd_events db @ [ev]\<rparr>) p c = Inr (r, db')"
      | "grant_credit env stamp (db\<lparr>pd_events := pd_events db @ [ev]\<rparr>) p = Inr (r, db')"
      by (auto simp: process_credit_def bind_err_Inr split: if_splits option.splits)
    then show ?thesis
    proof cases
      case 1
      then show ?thesis using same by (auto simp: already_credited_def Let_def bind_err_Inr split: if_splits)
    next
      case 2
      then show ?thesis
      proof (rule grant_credit_Inr)
        fix db1 l db3
        assume e: "ensure_wallet (pv_tenant_exists env) (py_TenantID p) stamp
            (db\<lparr>pd_events := pd_events db @ [ev]\<rparr>) = Inr db1"
          and ap: "applyManagedCreditTx (py_TenantID p) (py_AmountMicrousd p) stamp (append_ledger l db1) = Inr db3"
          and ins: "insert_credit (new_credit_row p (lg_id l) stamp) db3 =
            Inr (db3\<lparr>pd_credits := pd_credits db3 @ [new_credit_row p (lg_id l) stamp]\<rparr>)"
          and db': "db' = set_event p (event_applied (py_TenantID p) (py_SessionID p) stamp)
            (db3\<lparr>pd_credits := pd_credits db3 @ [new_credit_row p (lg_id l) stamp]\<rparr>)"
        have "pd_credits db3 = pd_credits (append_ledger l db1)"
          using ap [unfolded applyManagedCreditTx_def, THEN update_wallet_more] by (rule pd_credits_more)
        also have "\<dots> = pd_credits db1" by (simp add: append_ledger_def)
        also have "\<dots> = pd_credits db" using pd_credits_more [OF ensure_wallet_more [OF e]] by simp
        finally have "pd_credits db3 = pd_credits db" .
        then have "credits_ok (pd_credits db')" "set (pd_credits db) \<subseteq> set (pd_credits db')"
          using credits_append(1) [OF ins] assms(2,3) by (auto simp: db' new_credit_row_def)
        then show ?thesis by (metis credit_evolves_refl subsetD)
      qed
    qed
  qed (use same in simp_all)
qed

lemma billing_step_credits:
  assumes "billing_step db db'" "credits_ok (pd_credits db)"
  shows "credits_ok (pd_credits db') \<and> (\<forall>c \<in> set (pd_credits db). \<exists>c' \<in> set (pd_credits db'). credit_evolves c c')"
proof -
  have "pd_credits db' = pd_credits db \<or> (\<exists>env stamp p res.
      ProcessManagedPaymentEvent env stamp db p = (res, db') \<and> is_i64 (py_AmountMicrousd p))"
    using assms(1)
    by (rule billing_step.cases)
      (blast dest: wallet_ops_more [THEN pd_credits_more], blast dest: wallet_ops_more [THEN pd_credits_more],
       blast dest: wallet_ops_more [THEN pd_credits_more], blast dest: wallet_ops_more [THEN pd_credits_more],
       blast, auto dest!: funding_frame)
  then show ?thesis using process_credits assms(2) by (metis credit_evolves_refl)
qed

lemma billing_steps_credits:
  assumes "billing_step\<^sup>*\<^sup>* db db'" "credits_ok (pd_credits db)"
  shows "credits_ok (pd_credits db') \<and> (\<forall>c \<in> set (pd_credits db). \<exists>c' \<in> set (pd_credits db'). credit_evolves c c')"
  using assms(1)
proof (induction rule: rtranclp_induct)
  case base
  then show ?case using assms(2) by (metis credit_evolves_refl)
next
  case (step db1 db2)
  then show ?case using billing_step_credits credit_evolves_trans by meson
qed


section \<open>Properties\<close>

text \<open>
  Along every run of the billing store (credits, authorizations, settlements, releases,
  payment events, refunds, funding intents) each wallet stays consistent: the reserved amount is
  exactly what the open usage reservations and the other stores hold, it never exceeds the
  balance, debt is never negative, and the balance less the debt is exactly the sum of the ledger
  (plus what is booked outside it).
\<close>

theorem wallet_conservation:
  assumes "billing_step\<^sup>*\<^sup>* db0 db" "wallet_inv other drift db0" "wd_wallets db tenant = Some w"
  shows "0 \<le> wl_reserved w \<and> wl_reserved w \<le> wl_balance w \<and> 0 \<le> wl_debt w \<and>
    wl_reserved w = outstanding db tenant + other tenant \<and>
    wl_balance w - wl_debt w = ledger_sum db tenant + drift tenant"
  using wallet_invD(1) [OF billing_steps_inv [OF assms(1,2)], of tenant] assms(3)
  by (simp add: account_ok_def wallet_check_def)

definition example_credit :: "(store_error + managed_wallet) \<times> payment_db" where
  "example_credit =
     CreditManagedWallet (\<lambda>_. True) 10 empty_billing ''acme'' ''grant-1'' ''promo'' 5000000"

lemmas example_credit_defs = example_credit_def CreditManagedWallet_def ensure_wallet_def
  empty_billing_def ledger_has_id_def append_ledger_def credit_row_def applyManagedCreditTx_def
  update_wallet_def wallet_check_def is_i64_def max_i64_def min_i64_def commit_tx_def

theorem wallet_conservation_witness:
  "\<exists>w. wd_wallets (snd example_credit) ''acme'' = Some w \<and> wl_balance w = 5000000 \<and>
     wl_balance w - wl_debt w = ledger_sum (snd example_credit) ''acme''"
proof -
  obtain w where w: "wd_wallets (snd example_credit) ''acme'' = Some w" "wl_balance w = 5000000"
    by (simp add: example_credit_defs)
  have "billing_step\<^sup>*\<^sup>* empty_billing (snd example_credit)"
    unfolding example_credit_def
    by (rule r_into_rtranclp) (rule billing_step.credit [OF prod.collapse [symmetric]])
  from wallet_conservation [OF this empty_billing_inv w(1)] w show ?thesis by simp
qed

text \<open>What an event that reports a credit has done, from the intent it was checked against to the credit row.\<close>

lemma credit_applied:
  assumes run: "ProcessManagedPaymentEvent env stamp db p = (Inr r, db')" and applied: "pr_CreditApplied r"
  obtains ev i where "grant_credit env stamp (db\<lparr>pd_events := pd_events db @ [ev]\<rparr>) p = Inr (r, db')"
    "i \<in> set (pd_intents db)" "fi_id i = py_FundingIntentID p" "fi_tenant_id i = py_TenantID p" "fi_status i = ''completed''"
    "coalesce (fi_checkout_session_id i) = py_SessionID p" "fi_amount i = py_AmountMicrousd p" "fi_provider i = py_Provider p"
proof (cases "payment_invalid env p")
  case None
  let ?ev = "received_row p (if py_MetadataJSON p = '''' then ''{}'' else py_MetadataJSON p) stamp"
  have "process_credit env stamp (db\<lparr>pd_events := pd_events db @ [?ev]\<rparr>) p = Inr (r, db')"
  proof -
    have "processManagedRefundTx env stamp d p = Inr (r, db') \<Longrightarrow> \<not> pr_CreditApplied r" for d
      by (auto simp: processManagedRefundTx_def base_result_def bind_err_Inr Let_def split: option.splits if_splits)
    then show ?thesis using run applied
      by (auto simp: ProcessManagedPaymentEvent_def None commit_tx_def Let_def base_result_def split: option.splits sum.splits if_splits)
  qed
  then obtain i where "find (\<lambda>r. fi_tenant_id r = py_TenantID p \<and> fi_id r = py_FundingIntentID p) (pd_intents db) = Some i"
    and "fi_status i = ''completed''" "coalesce (fi_checkout_session_id i) = py_SessionID p" "fi_amount i = py_AmountMicrousd p" "fi_provider i = py_Provider p"
    and "grant_credit env stamp (db\<lparr>pd_events := pd_events db @ [?ev]\<rparr>) p = Inr (r, db')"
    using applied
    by (auto simp: process_credit_def managedFundingIntentByIDTx_def scanManagedFundingIntent_def bind_err_Inr
        already_credited_def base_result_def Let_def split: if_splits option.splits)
  then show ?thesis using that [of ?ev i] by (auto simp: find_Some_iff)
qed (use run in \<open>simp add: ProcessManagedPaymentEvent_def\<close>)

text \<open>A granted credit raises exactly its tenant's wallet by exactly its amount, booked once.\<close>

definition net_balance :: "payment_db \<Rightarrow> string \<Rightarrow> int" where
  "net_balance db tenant = (case wd_wallets db tenant of None \<Rightarrow> 0 | Some w \<Rightarrow> wl_balance w - wl_debt w)"

lemma grant_credit_moves:
  assumes "grant_credit env stamp db p = Inr (r, db')"
  shows "\<exists>l. wd_ledger db' = wd_ledger db @ [l] \<and> lg_tenant_id l = py_TenantID p \<and> lg_amount l = py_AmountMicrousd p"
    "net_balance db' t = net_balance db t + (if t = py_TenantID p then py_AmountMicrousd p else 0)"
    "\<exists>lid. new_credit_row p lid stamp \<in> set (pd_credits db')"
proof -
  from assms obtain db1 l db3 where e: "ensure_wallet (pv_tenant_exists env) (py_TenantID p) stamp db = Inr db1"
    and ap: "applyManagedCreditTx (py_TenantID p) (py_AmountMicrousd p) stamp (append_ledger l db1) = Inr db3"
    and l: "lg_tenant_id l = py_TenantID p" "lg_amount l = py_AmountMicrousd p"
    and db': "db' = set_event p (event_applied (py_TenantID p) (py_SessionID p) stamp)
      (db3\<lparr>pd_credits := pd_credits db3 @ [new_credit_row p (lg_id l) stamp]\<rparr>)"
    by (rule grant_credit_Inr) blast
  have e1: "wd_ledger db1 = wd_ledger db" "net_balance db1 x = net_balance db x" "wd_wallets db1 (py_TenantID p) \<noteq> None" for x
    using e by (auto simp: ensure_wallet_def net_balance_def split: option.splits if_splits)
  then obtain w where w: "wd_wallets db1 (py_TenantID p) = Some w" by blast
  have "wd_ledger db' = wd_ledger db @ [l]"
    using ap e1(1) w by (auto simp: db' applyManagedCreditTx_def update_wallet_def append_ledger_def Let_def split: if_splits)
  then show "\<exists>l. wd_ledger db' = wd_ledger db @ [l] \<and> lg_tenant_id l = py_TenantID p \<and> lg_amount l = py_AmountMicrousd p"
    using l by blast
  have "net_balance db' t = net_balance db1 t + (if t = py_TenantID p then py_AmountMicrousd p else 0)"
    using ap w by (auto simp: db' net_balance_def applyManagedCreditTx_def update_wallet_def append_ledger_def Let_def split: if_splits)
  then show "net_balance db' t = net_balance db t + (if t = py_TenantID p then py_AmountMicrousd p else 0)" by (simp add: e1)
  show "\<exists>lid. new_credit_row p lid stamp \<in> set (pd_credits db')" unfolding db' by auto
qed

text \<open>An event for a session with a credit row: it moves no money, and succeeds only if it repeats the credited payment.\<close>

definition credits_payment :: "managed_payment_event \<Rightarrow> payment_credit_row \<Rightarrow> bool" where
  "credits_payment p c \<longleftrightarrow> pc_provider c = py_Provider p \<and> pc_session_id c = py_SessionID p \<and> pc_tenant_id c = py_TenantID p \<and>
     pc_amount c = py_AmountMicrousd p \<and> pc_payment_intent_id c = Some (py_PaymentIntentID p) \<and>
     pc_funding_intent_id c = Some (py_FundingIntentID p)"

lemma session_taken:
  assumes rows: "\<forall>x \<in> set (pd_credits db). pc_provider x = py_Provider q \<and> pc_session_id x = py_SessionID q \<longrightarrow> x = c"
    and c: "c \<in> set (pd_credits db)" "pc_provider c = py_Provider q" "pc_session_id c = py_SessionID q"
    and op: "py_Operation q = ''credit'' \<or> py_Operation q = '''' \<and> py_SessionID q \<noteq> ''''"
    and run: "ProcessManagedPaymentEvent env stamp db q = (res, db')"
  shows "wd_wallets db' = wd_wallets db \<and> wd_ledger db' = wd_ledger db"
    and "res = Inr r \<Longrightarrow> \<not> pr_CreditApplied r"
    and "res = Inr r \<Longrightarrow> py_Apply q \<Longrightarrow> find (event_key q) (pd_events db) = None \<Longrightarrow>
      pc_tenant_id c = py_TenantID q \<and> pc_amount c = py_AmountMicrousd q \<and>
      coalesce (pc_payment_intent_id c) = py_PaymentIntentID q \<and> coalesce (pc_funding_intent_id c) = py_FundingIntentID q"
proof -
  have found: "find (\<lambda>c. pc_provider c = py_Provider q \<and> pc_session_id c = py_SessionID q) (pd_credits db) = Some c"
  proof (cases "find (\<lambda>c. pc_provider c = py_Provider q \<and> pc_session_id c = py_SessionID q) (pd_credits db)")
    case None
    then show ?thesis using c by (auto simp: find_None_iff)
  next
    case (Some x)
    then have "x \<in> set (pd_credits db)" "pc_provider x = py_Provider q \<and> pc_session_id x = py_SessionID q"
      by (auto simp: find_Some_iff)
    then show ?thesis using rows Some by blast
  qed
  have pc: "wd_wallets d' = wd_wallets db \<and> wd_ledger d' = wd_ledger db \<and> \<not> pr_CreditApplied r \<and>
      pc_tenant_id c = py_TenantID q \<and> pc_amount c = py_AmountMicrousd q \<and>
      coalesce (pc_payment_intent_id c) = py_PaymentIntentID q \<and> coalesce (pc_funding_intent_id c) = py_FundingIntentID q"
    if "process_credit env stamp (db\<lparr>pd_events := evs\<rparr>) q = Inr (r, d')" for evs r d'
    using that found
    by (auto simp: process_credit_def already_credited_def Let_def bind_err_Inr base_result_def split: if_splits)
  have op': "(if py_Operation q = '''' \<and> py_SessionID q \<noteq> '''' then ''credit'' else py_Operation q) = ''credit''" using op by auto
  note body = run [unfolded ProcessManagedPaymentEvent_def Let_def op']
  show "wd_wallets db' = wd_wallets db \<and> wd_ledger db' = wd_ledger db"
    using body by (auto simp: commit_tx_def dest!: pc split: if_splits sum.splits option.splits)
  show "res = Inr r \<Longrightarrow> \<not> pr_CreditApplied r"
    using body by (auto simp: commit_tx_def base_result_def dest!: pc split: if_splits sum.splits option.splits)
  show "pc_tenant_id c = py_TenantID q \<and> pc_amount c = py_AmountMicrousd q \<and>
      coalesce (pc_payment_intent_id c) = py_PaymentIntentID q \<and> coalesce (pc_funding_intent_id c) = py_FundingIntentID q"
    if "res = Inr r" "py_Apply q" "find (event_key q) (pd_events db) = None"
    using body that by (auto simp: commit_tx_def dest!: pc split: if_splits sum.splits option.splits)
qed

lemma session_unique:
  "credits_ok cs \<Longrightarrow> c \<in> set cs \<Longrightarrow> \<forall>x \<in> set cs. pc_provider x = pc_provider c \<and> pc_session_id x = pc_session_id c \<longrightarrow> x = c"
  using unique_key_inj [of session_key cs] by (auto simp: credits_ok_def session_key_def)

text \<open>
  C11. A checkout session grants spending authority exactly once, to the payment it was verified for.
  Whenever an event reports a credit, it matched a completed funding intent of the same tenant,
  session and amount, it has raised that tenant's wallet (balance less debt) by exactly the amount,
  left every other wallet as it was, and booked one ledger entry of the amount; and it has recorded
  provider, session, tenant, amount and both intents. From then on, after whatever operations of the
  billing store, no credit event for the same provider and session changes a wallet or the ledger or
  reports a credit, and a new one is accepted only if tenant, amount, payment intent and funding
  intent are those first credited.
\<close>

theorem session_credited_once:
  assumes ok: "credits_ok (pd_credits db0)"
    and grant: "ProcessManagedPaymentEvent env stamp db0 p = (Inr r, db1)" "pr_CreditApplied r" "is_i64 (py_AmountMicrousd p)"
    and later: "billing_step\<^sup>*\<^sup>* db1 db"
    and again: "ProcessManagedPaymentEvent env' stamp' db q = (res, db')" "py_Provider q = py_Provider p" "py_SessionID q = py_SessionID p"
      "py_Operation q = ''credit'' \<or> py_Operation q = '''' \<and> py_SessionID q \<noteq> ''''"
  shows "(\<exists>i \<in> set (pd_intents db0). fi_id i = py_FundingIntentID p \<and> fi_tenant_id i = py_TenantID p \<and> fi_status i = ''completed'' \<and>
      coalesce (fi_checkout_session_id i) = py_SessionID p \<and> fi_amount i = py_AmountMicrousd p) \<and>
    (\<forall>t. net_balance db1 t = net_balance db0 t + (if t = py_TenantID p then py_AmountMicrousd p else 0)) \<and>
    (\<exists>l. wd_ledger db1 = wd_ledger db0 @ [l] \<and> lg_tenant_id l = py_TenantID p \<and> lg_amount l = py_AmountMicrousd p) \<and>
    (\<exists>c \<in> set (pd_credits db1). credits_payment p c) \<and>
    wd_wallets db' = wd_wallets db \<and> wd_ledger db' = wd_ledger db \<and>
    (\<forall>r'. res = Inr r' \<longrightarrow> \<not> pr_CreditApplied r' \<and>
      (py_Apply q \<and> find (event_key q) (pd_events db) = None \<longrightarrow>
        py_TenantID q = py_TenantID p \<and> py_AmountMicrousd q = py_AmountMicrousd p \<and>
        py_PaymentIntentID q = py_PaymentIntentID p \<and> py_FundingIntentID q = py_FundingIntentID p))"
proof -
  from grant(1,2) obtain ev i where g: "grant_credit env stamp (db0\<lparr>pd_events := pd_events db0 @ [ev]\<rparr>) p = Inr (r, db1)"
    and i: "i \<in> set (pd_intents db0)" "fi_id i = py_FundingIntentID p" "fi_tenant_id i = py_TenantID p" "fi_status i = ''completed''"
      "coalesce (fi_checkout_session_id i) = py_SessionID p" "fi_amount i = py_AmountMicrousd p"
    by (rule credit_applied) blast
  have money: "\<forall>t. net_balance db1 t = net_balance db0 t + (if t = py_TenantID p then py_AmountMicrousd p else 0)"
    "\<exists>l. wd_ledger db1 = wd_ledger db0 @ [l] \<and> lg_tenant_id l = py_TenantID p \<and> lg_amount l = py_AmountMicrousd p"
    using grant_credit_moves(1,2) [OF g] by (simp_all add: net_balance_def)
  obtain c where c: "c \<in> set (pd_credits db1)" "credits_payment p c"
    using grant_credit_moves(3) [OF g] by (auto simp: credits_payment_def new_credit_row_def)
  have ok1: "credits_ok (pd_credits db1)" using process_credits [OF grant(1,3) ok] by simp
  obtain c' where c': "c' \<in> set (pd_credits db)" "credit_evolves c c'" "credits_ok (pd_credits db)"
    using billing_steps_credits [OF later ok1] c(1) by blast
  obtain n where "c' = c\<lparr>pc_refunded := n\<rparr>" using c'(2) unfolding credit_evolves_def by metis
  with c(2) have same: "credits_payment p c'" by (simp add: credits_payment_def)
  have key: "pc_provider c' = py_Provider q" "pc_session_id c' = py_SessionID q"
    "\<forall>x \<in> set (pd_credits db). pc_provider x = py_Provider q \<and> pc_session_id x = py_SessionID q \<longrightarrow> x = c'"
    using same again(2,3) session_unique [OF c'(3,1)] by (simp_all add: credits_payment_def)
  note taken = session_taken [OF key(3) c'(1) key(1,2) again(4,1)]
  have "\<not> pr_CreditApplied r' \<and> (py_Apply q \<and> find (event_key q) (pd_events db) = None \<longrightarrow>
      py_TenantID q = py_TenantID p \<and> py_AmountMicrousd q = py_AmountMicrousd p \<and>
      py_PaymentIntentID q = py_PaymentIntentID p \<and> py_FundingIntentID q = py_FundingIntentID p)" if "res = Inr r'" for r'
    using taken(2,3) [OF that] same by (auto simp: credits_payment_def coalesce_def)
  with i money c taken(1) show ?thesis by blast
qed

definition example_payment :: managed_payment_event where
  "example_payment =
     \<lparr>py_Provider = ''stripe'', py_EventID = ''evt_2'', py_EventType = ''checkout.completed'',
      py_PayloadDigest = replicate 64 (CHR ''a''), py_TenantID = ''acme'', py_FundingIntentID = ''fi1'',
      py_SessionID = ''cs_1'', py_PaymentIntentID = ''pi_1'', py_AmountMicrousd = 10000000,
      py_RefundedMicrousd = 0, py_Currency = ''USD'', py_Operation = '''', py_Apply = True,
      py_IgnoreReason = '''', py_MetadataJSON = ''''\<rparr>"

definition example_payment_env :: payment_env where
  "example_payment_env =
     \<lparr>pv_sha256 = (\<lambda>s. s), pv_is_json_object = (\<lambda>_. True), pv_tenant_exists = (\<lambda>_. True),
      pv_https_url = (\<lambda>_. True)\<rparr>"

definition credited_db :: payment_db where
  "credited_db = (snd example_credit)\<lparr>pd_credits := [new_credit_row example_payment ''credit_1'' 5]\<rparr>"

lemma credited_ok: "credits_ok (pd_credits credited_db)"
  by (simp add: credited_db_def credits_ok_def unique_key_def session_key_def List.map_filter_def new_credit_row_def
      example_payment_def is_i64_def max_i64_def min_i64_def)

definition example_intent :: funding_intent_row where
  "example_intent = complete_row
     \<lparr>cs_FundingIntentID = ''fi1'', cs_Provider = ''stripe'', cs_ProviderID = ''cs_1'', cs_URL = ''https://x'',
      cs_AmountMicrousd = 10000000, cs_Currency = ''USD'', cs_ExpiresAt = 99\<rparr> 5
     (new_intent_row \<lparr>mf_ID = ''fi1'', mf_TenantID = ''acme'', mf_Provider = ''stripe'', mf_IdempotencyKey = ''k'',
      mf_AmountMicrousd = 10000000, mf_Currency = ''USD'', mf_Status = '''', mf_CheckoutSessionID = '''',
      mf_CheckoutURL = '''', mf_CheckoutExpiresAt = 0, mf_CreatedAt = 0, mf_UpdatedAt = 0\<rparr> ''acme'' 1)"

definition paid_db :: payment_db where
  "paid_db = empty_billing\<lparr>pd_intents := [example_intent]\<rparr>"

text \<open>The provider reports the session of a completed intent, and reports it again in another event.\<close>

lemma example_paid: "\<exists>r db1. ProcessManagedPaymentEvent example_payment_env 9 paid_db example_payment = (Inr r, db1) \<and> pr_CreditApplied r"
  by (simp add: ProcessManagedPaymentEvent_def payment_invalid_def validManagedPaymentMetadata_def example_payment_def example_payment_env_def
      paid_db_def empty_billing_def process_credit_def managedFundingIntentByIDTx_def scanManagedFundingIntent_def example_intent_def
      complete_row_def new_intent_row_def coalesce_def grant_credit_def ensure_wallet_def insert_ledger_def ledger_has_id_def credit_row_def
      append_ledger_def applyManagedCreditTx_def update_wallet_def wallet_check_def is_i64_def max_i64_def min_i64_def insert_credit_def
      new_credit_row_def set_event_def managedWalletTx_def managedWalletLedgerEntryTx_def base_result_def commit_tx_def Let_def)

theorem session_credited_once_witness:
  "\<exists>db1. net_balance db1 ''acme'' = 10000000 \<and>
     snd (ProcessManagedPaymentEvent example_payment_env 9 paid_db example_payment) = db1 \<and>
     wd_wallets (snd (ProcessManagedPaymentEvent example_payment_env 11 db1 (example_payment\<lparr>py_EventID := ''evt_9'', py_AmountMicrousd := 25000000\<rparr>))) =
       wd_wallets db1"
proof -
  let ?q = "example_payment\<lparr>py_EventID := ''evt_9'', py_AmountMicrousd := 25000000\<rparr>"
  obtain r db1 where run: "ProcessManagedPaymentEvent example_payment_env 9 paid_db example_payment = (Inr r, db1)" "pr_CreditApplied r"
    using example_paid by blast
  have ok: "credits_ok (pd_credits paid_db)" "is_i64 (py_AmountMicrousd example_payment)" "net_balance paid_db ''acme'' = 0"
    by (simp_all add: paid_db_def empty_billing_def credits_ok_def unique_key_def List.map_filter_def example_payment_def
        is_i64_def max_i64_def min_i64_def net_balance_def)
  have "py_Provider ?q = py_Provider example_payment" "py_SessionID ?q = py_SessionID example_payment"
    "py_Operation ?q = ''credit'' \<or> py_Operation ?q = '''' \<and> py_SessionID ?q \<noteq> ''''"
    by (simp_all add: example_payment_def)
  note once = session_credited_once [OF ok(1) run ok(2) rtranclp.rtrancl_refl prod.collapse [symmetric, of "ProcessManagedPaymentEvent example_payment_env 11 db1 ?q"] this]
  have "net_balance db1 ''acme'' = 10000000" using once ok(3) by (simp add: example_payment_def)
  then show ?thesis using once run(1) by simp
qed

text \<open>
  Refunds are cumulative and bounded: along every run a credited payment keeps its identity
  and amount, the refunded total never decreases and never exceeds the amount credited.
\<close>

theorem refunds_bounded:
  assumes "credits_ok (pd_credits db0)" "c \<in> set (pd_credits db0)" "billing_step\<^sup>*\<^sup>* db0 db"
  shows "\<exists>c' \<in> set (pd_credits db). c' = c\<lparr>pc_refunded := pc_refunded c'\<rparr> \<and>
    pc_refunded c \<le> pc_refunded c' \<and> pc_refunded c' \<le> pc_amount c"
proof -
  obtain c' where c': "c' \<in> set (pd_credits db)" "credit_evolves c c'"
    using billing_steps_credits [OF assms(3,1)] assms(2) by blast
  then have eq: "c' = c\<lparr>pc_refunded := pc_refunded c'\<rparr>" "pc_refunded c \<le> pc_refunded c'"
    by (auto simp: credit_evolves_def)
  moreover have "pc_refunded c' \<le> pc_amount c'"
    using billing_steps_credits [OF assms(3,1)] c'(1) by (auto simp: credits_ok_def)
  moreover have "pc_amount c' = pc_amount c" by (subst eq(1)) simp
  ultimately show ?thesis using c'(1) by (intro bexI [of _ c']) auto
qed

definition example_refund :: managed_payment_event where
  "example_refund = example_payment\<lparr>py_EventID := ''evt_3'', py_Operation := ''refund'', py_RefundedMicrousd := 4000000\<rparr>"

theorem refunds_bounded_witness:
  "\<exists>c' \<in> set (pd_credits (snd (ProcessManagedPaymentEvent example_payment_env 9 credited_db example_refund))).
     pc_refunded c' \<le> 10000000"
proof -
  let ?c = "new_credit_row example_payment ''credit_1'' 5"
  have mem: "?c \<in> set (pd_credits credited_db)" by (simp add: credited_db_def)
  have "billing_step\<^sup>*\<^sup>* credited_db
      (snd (ProcessManagedPaymentEvent example_payment_env 9 credited_db example_refund))"
    by (rule r_into_rtranclp, rule billing_step.payment [OF prod.collapse [symmetric]])
      (simp add: example_refund_def example_payment_def is_i64_def max_i64_def min_i64_def)
  from refunds_bounded [OF credited_ok mem this] show ?thesis
    by (auto simp: new_credit_row_def example_payment_def)
qed

lemma pd_intents_more: "wallet_db.more db' = wallet_db.more db \<Longrightarrow> pd_intents db' = pd_intents db"
  by (cases db; cases db') simp

lemma process_intents:
  assumes "ProcessManagedPaymentEvent env stamp db p = (res, db')"
  shows "pd_intents db' = pd_intents db"
  using assms
proof (cases rule: ProcessManagedPaymentEvent_cases)
  case (refunded ev r)
  from refunded(1) show ?thesis
  proof (cases rule: processManagedRefundTx_Inr)
    case (refund c w delta a db1 db2 l)
    have "pd_intents db2 = pd_intents db"
      using pd_intents_more [OF update_wallet_more [OF refund(10)]] refund(2) by simp
    then show ?thesis unfolding refund(11) by (simp add: append_ledger_def)
  qed simp
next
  case (credited ev r)
  from credited(1) consider c where "already_credited stamp (db\<lparr>pd_events := pd_events db @ [ev]\<rparr>) p c = Inr (r, db')"
    | "grant_credit env stamp (db\<lparr>pd_events := pd_events db @ [ev]\<rparr>) p = Inr (r, db')"
    by (auto simp: process_credit_def bind_err_Inr split: if_splits option.splits)
  then show ?thesis
  proof cases
    case 2
    then show ?thesis
    proof (rule grant_credit_Inr)
      fix db1 l db3
      assume e: "ensure_wallet (pv_tenant_exists env) (py_TenantID p) stamp
          (db\<lparr>pd_events := pd_events db @ [ev]\<rparr>) = Inr db1"
        and ap: "applyManagedCreditTx (py_TenantID p) (py_AmountMicrousd p) stamp (append_ledger l db1) = Inr db3"
        and db': "db' = set_event p (event_applied (py_TenantID p) (py_SessionID p) stamp)
          (db3\<lparr>pd_credits := pd_credits db3 @ [new_credit_row p (lg_id l) stamp]\<rparr>)"
      have "pd_intents db3 = pd_intents (append_ledger l db1)"
        using ap [unfolded applyManagedCreditTx_def, THEN update_wallet_more] by (rule pd_intents_more)
      also have "\<dots> = pd_intents db1" by (simp add: append_ledger_def)
      also have "\<dots> = pd_intents db" using pd_intents_more [OF ensure_wallet_more [OF e]] by simp
      finally show ?thesis by (simp add: db')
    qed
  qed (auto simp: already_credited_def Let_def bind_err_Inr split: if_splits)
qed simp_all

lemma intents_step:
  assumes "billing_step db db'" "r \<in> set (pd_intents db)" "fi_status r = ''completed''"
  shows "r \<in> set (pd_intents db')"
  using assms(1)
proof cases
  case prepare
  then show ?thesis using prepare_frame(2) assms(2,3) by blast
next
  case (complete env stamp tenant iid token session res)
  have "r \<in> set (upd_where (held_intent tenant iid token) f (pd_intents db))" for f
    using assms(2,3) by (rule completed_kept) (simp add: held_intent_def)
  then show ?thesis using complete_shape [OF complete] assms(2) by auto
next
  case (release_lease stamp tenant iid token res)
  have "r \<in> set (upd_where (held_intent tenant iid token) f (pd_intents db))" for f
    using assms(2,3) by (rule completed_kept) (simp add: held_intent_def)
  then show ?thesis using release_lease_shape [OF release_lease] assms(2) by auto
next
  case payment
  then show ?thesis using process_intents assms(2) by simp
next
  case credit
  then show ?thesis using wallet_ops_more(1) [THEN pd_intents_more] assms(2) by metis
next
  case authorize
  then show ?thesis using wallet_ops_more(2) [THEN pd_intents_more] assms(2) by metis
next
  case settle
  then show ?thesis using wallet_ops_more(3) [THEN pd_intents_more] assms(2) by metis
next
  case release
  then show ?thesis using wallet_ops_more(4) [THEN pd_intents_more] assms(2) by metis
qed

text \<open>
  A completed funding intent is immutable: its checkout session, amount and tenant never
  change again, whatever the billing store does.
\<close>

theorem completed_intent_immutable:
  assumes "billing_step\<^sup>*\<^sup>* db db'" "r \<in> set (pd_intents db)" "fi_status r = ''completed''"
  shows "r \<in> set (pd_intents db')"
  using assms(1) by (induction rule: rtranclp_induct) (use assms(2,3) intents_step in blast)+

theorem completed_intent_immutable_witness:
  "example_intent \<in> set (pd_intents (snd (ReleaseManagedFundingIntentLease 7
     (empty_billing\<lparr>pd_intents := [example_intent]\<rparr>) ''acme'' ''fi1'' ''token'')))"
proof -
  let ?db = "empty_billing\<lparr>pd_intents := [example_intent]\<rparr>"
  have "billing_step\<^sup>*\<^sup>* ?db (snd (ReleaseManagedFundingIntentLease 7 ?db ''acme'' ''fi1'' ''token''))"
    by (rule r_into_rtranclp, rule billing_step.release_lease [OF prod.collapse [symmetric]])
  moreover have "example_intent \<in> set (pd_intents ?db)" "fi_status example_intent = ''completed''"
    by (simp_all add: example_intent_def complete_row_def)
  ultimately show ?thesis by (rule completed_intent_immutable)
qed

end
