(* ===== verification/Request_Quota.thy ===== *)
theory Request_Quota
  imports Sql_Table "HOL-Library.AList" "HOL-Library.Char_ord" "HOL-Library.List_Lexorder"
begin

text \<open>
  Distributed request-rate quotas (\<open>internal/requestquota/pool.go\<close> and
  \<open>internal/store/quota.go\<close>). Each gateway keeps an in-memory pool of request tokens per tenant
  and minute; \<open>Authorize\<close> consumes one token without I/O, and a background loop leases more from
  the durable allocator \<open>ReserveRequestQuota\<close>, which counts what it has handed out per tenant and
  minute window.

  The state of a pool is \<open>quota_pool\<close>, the two tables of the allocator are \<open>quota_db\<close>. A refill is
  not atomic: the pool's mutex is released while the allocator runs, so it is split into
  \<open>refill_begin\<close>, the reservation and \<open>refill_finish\<close>. The step relation \<open>gateway_step\<close> interleaves
  any number of gateways at that granularity. The locale \<open>quota_source\<close> states what the pools rely
  on; the store is its interpretation.
\<close>


section \<open>The allocator's tables\<close>

record quota_row =
  q_max_deployments :: int
  q_max_replicas :: int
  q_max_requests_per_minute :: int
  q_updated_at :: gotime

record quota_db =
  q_tenants :: "string list"
  q_quotas :: "(string \<times> quota_row) list"
  q_windows :: "((string \<times> gotime) \<times> int) list"

record quota_policy =
  pol_TenantID :: string
  pol_MaxRequestsPerMinute :: int

text \<open>PostgreSQL's \<open>INTEGER\<close> columns hold 32 bits; a value outside is an error of the statement.\<close>

definition int4 :: "int \<Rightarrow> bool" where
  "int4 n \<longleftrightarrow> - (2 ^ 31) \<le> n \<and> n < 2 ^ 31"

definition SetTenantQuota ::
  "gotime \<Rightarrow> quota_db \<Rightarrow> string \<Rightarrow> int \<Rightarrow> int \<Rightarrow> int \<Rightarrow> (store_error + unit) \<times> quota_db" where
  "SetTenantQuota now db tenant maxDeployments maxReplicas maxRequestsPerMinute =
     (if tenant = '''' \<or> maxDeployments < 0 \<or> maxReplicas < 0 \<or> maxRequestsPerMinute < 0
      then (Inl (ErrOther ''tenant and non-negative quota limits are required''), db)
      else if \<not> int4 maxDeployments \<or> \<not> int4 maxReplicas \<or> \<not> int4 maxRequestsPerMinute
      then (Inl (ErrOther ''integer out of range''), db)
      else if tenant \<notin> set (q_tenants db)
      then (Inl (ErrOther ''violates foreign key constraint''), db)
      else (Inr (),
            db\<lparr>q_quotas := AList.update tenant
                 \<lparr>q_max_deployments = maxDeployments, q_max_replicas = maxReplicas,
                  q_max_requests_per_minute = maxRequestsPerMinute, q_updated_at = now\<rparr>
                 (q_quotas db)\<rparr>))"

definition RequestQuotaPolicies :: "quota_db \<Rightarrow> quota_policy list" where
  "RequestQuotaPolicies db =
     map (\<lambda>(tenant, row). \<lparr>pol_TenantID = tenant,
                           pol_MaxRequestsPerMinute = q_max_requests_per_minute row\<rparr>)
       (sort_key fst (q_quotas db))"

definition ensure_window :: "string \<times> gotime \<Rightarrow> ((string \<times> gotime) \<times> int) list \<Rightarrow>
    ((string \<times> gotime) \<times> int) list" where
  "ensure_window k ws = (case map_of ws k of None \<Rightarrow> AList.update k 0 ws | Some _ \<Rightarrow> ws)"

definition grant_size :: "int \<Rightarrow> int \<Rightarrow> int \<Rightarrow> int" where
  "grant_size limit reserved requested =
     (let remaining = i64 (limit - reserved);
          remaining = (if remaining < 0 then 0 else remaining)
      in if requested > remaining then remaining else requested)"

definition drop_windows :: "gotime \<Rightarrow> ((string \<times> gotime) \<times> int) list \<Rightarrow>
    ((string \<times> gotime) \<times> int) list" where
  "drop_windows horizon ws = filter (\<lambda>(k, _). \<not> snd k < horizon) ws"

definition reserve_tx ::
  "quota_db \<Rightarrow> string \<Rightarrow> gotime \<Rightarrow> int \<Rightarrow> store_error + int \<times> quota_db" where
  "reserve_tx db tenant window requested =
     (case map_of (q_quotas db) tenant of
        None \<Rightarrow> Inl ErrNotFound
      | Some row \<Rightarrow>
          (let ws = ensure_window (tenant, window) (q_windows db)
           in case map_of ws (tenant, window) of
                None \<Rightarrow> Inl (ErrOther ''sql: no rows in result set'')
              | Some reserved \<Rightarrow>
                  (let granted = grant_size (q_max_requests_per_minute row) reserved requested;
                       ws = (if granted > 0
                             then AList.update (tenant, window) (reserved + granted) ws else ws)
                   in if \<not> int4 (reserved + granted) then Inl (ErrOther ''integer out of range'')
                      else Inr (granted, db\<lparr>q_windows := drop_windows (window - 2 * Minute) ws\<rparr>))))"

definition ReserveRequestQuota ::
  "quota_db \<Rightarrow> string \<Rightarrow> gotime \<Rightarrow> int \<Rightarrow> (store_error + int) \<times> quota_db" where
  "ReserveRequestQuota db tenant window requested =
     (if tenant = '''' \<or> requested < 1 \<or> window \<noteq> time_truncate window Minute
      then (Inl (ErrOther ''tenant, minute-aligned UTC window, and positive request count are required''), db)
      else commit_tx db (reserve_tx db tenant window requested))"

text \<open>The other quotas are checked when a deployment is created or changed.\<close>

record quota_deployment =
  qd_ID :: string
  qd_TenantID :: string
  qd_DesiredState :: string
  qd_MaxReplicas :: int

definition enforceDeploymentQuota ::
  "quota_db \<Rightarrow> quota_deployment list \<Rightarrow> string \<Rightarrow> string \<Rightarrow> int \<Rightarrow> bool \<Rightarrow> store_error option" where
  "enforceDeploymentQuota db rows tenant excludeID requestedReplicas adding =
     (case map_of (q_quotas db) tenant of
        None \<Rightarrow> None
      | Some row \<Rightarrow>
          (let counted = filter (\<lambda>d. qd_TenantID d = tenant \<and> qd_DesiredState d \<noteq> ''deleted'' \<and>
                                     qd_ID d \<noteq> excludeID) rows;
               deployments = int (length counted);
               replicas = sum_list (map qd_MaxReplicas counted);
               deployments = (if adding then deployments + 1 else deployments);
               replicas = i64 (replicas + requestedReplicas)
           in if deployments > q_max_deployments row
              then Some (ErrConflict (''tenant deployment quota exceeded ('' @ itoa deployments @
                     ''/'' @ itoa (q_max_deployments row) @ '')''))
              else if replicas > q_max_replicas row
              then Some (ErrConflict (''tenant replica quota exceeded ('' @ itoa replicas @
                     ''/'' @ itoa (q_max_replicas row) @ '')''))
              else None))"


section \<open>The gateway's pool\<close>

record tenant_state =
  ts_limit :: int
  ts_tokens :: int
  ts_window :: gotime
  ts_lastAttempt :: gotime

type_synonym quota_pool = "(string \<times> tenant_state) list"

definition zero_tenant_state :: tenant_state where
  "zero_tenant_state = \<lparr>ts_limit = 0, ts_tokens = 0, ts_window = 0, ts_lastAttempt = 0\<rparr>"

datatype quota_error = ErrExhausted

text \<open>\<open>Authorize\<close> on a nil pool is the case \<open>None\<close>.\<close>

definition Authorize ::
  "quota_pool option \<Rightarrow> string \<Rightarrow> (quota_error option) \<times> quota_pool option" where
  "Authorize p tenant =
     (case p of
        None \<Rightarrow> (Some ErrExhausted, None)
      | Some states \<Rightarrow>
          if tenant = '''' then (Some ErrExhausted, Some states)
          else (case map_of states tenant of
                  None \<Rightarrow> (None, Some states)
                | Some state \<Rightarrow>
                    if ts_limit state = 0 \<or> ts_tokens state < 1 then (Some ErrExhausted, Some states)
                    else (None, Some (AList.update tenant
                                   (state\<lparr>ts_tokens := i64 (ts_tokens state - 1)\<rparr>) states))))"

definition leaseSize :: "int \<Rightarrow> int" where
  "leaseSize limit =
     (let size = quot limit 8;
          size = (if size < 1 then 1 else size)
      in if size > 32 then 32 else size)"

definition refillThreshold :: "int \<Rightarrow> int" where
  "refillThreshold limit = quot (leaseSize limit) 2"

definition move_window :: "gotime \<Rightarrow> tenant_state \<Rightarrow> tenant_state" where
  "move_window window state =
     (if ts_window state \<noteq> window
      then state\<lparr>ts_tokens := 0, ts_window := window, ts_lastAttempt := 0\<rparr> else state)"

definition policy_state :: "quota_pool \<Rightarrow> gotime \<Rightarrow> quota_policy \<Rightarrow> tenant_state" where
  "policy_state states window policy =
     (let state = (case map_of states (pol_TenantID policy) of None \<Rightarrow> zero_tenant_state | Some s \<Rightarrow> s);
          state = move_window window state;
          state = (if ts_limit state \<noteq> pol_MaxRequestsPerMinute policy
                   then state\<lparr>ts_tokens := 0, ts_lastAttempt := 0\<rparr> else state)
      in state\<lparr>ts_limit := pol_MaxRequestsPerMinute policy\<rparr>)"

text \<open>The loop of \<open>Refresh\<close> under the mutex: a fresh table, one entry per usable policy.\<close>

fun apply_policies ::
  "quota_pool \<Rightarrow> gotime \<Rightarrow> quota_policy list \<Rightarrow> quota_pool \<Rightarrow> quota_pool" where
  "apply_policies states window [] next = next"
| "apply_policies states window (policy # rest) next =
     (if pol_TenantID policy = '''' \<or> pol_MaxRequestsPerMinute policy < 0
      then apply_policies states window rest next
      else apply_policies states window rest
             (AList.update (pol_TenantID policy) (policy_state states window policy) next))"

text \<open>
  \<open>refill\<close> up to the release of the mutex: the new table and, unless it returns early, the limit
  under which tokens are requested.
\<close>

definition refill_begin ::
  "quota_pool \<Rightarrow> string \<Rightarrow> gotime \<Rightarrow> gotime \<Rightarrow> int option \<times> quota_pool" where
  "refill_begin states tenant window now =
     (case map_of states tenant of
        None \<Rightarrow> (None, states)
      | Some state0 \<Rightarrow>
          (let state = move_window window state0;
               states = (if ts_window state0 \<noteq> window then AList.update tenant state states else states)
           in if ts_limit state = 0 \<or> ts_tokens state > refillThreshold (ts_limit state) \<or>
                 time_sub now (ts_lastAttempt state) < 100 * Millisecond
              then (None, states)
              else (Some (ts_limit state), AList.update tenant (state\<lparr>ts_lastAttempt := now\<rparr>) states)))"

definition refill_finish :: "quota_pool \<Rightarrow> string \<Rightarrow> gotime \<Rightarrow> int \<Rightarrow> int \<Rightarrow> quota_pool" where
  "refill_finish states tenant window limit granted =
     (case map_of states tenant of
        None \<Rightarrow> states
      | Some current \<Rightarrow>
          if ts_window current = window \<and> ts_limit current = limit
          then AList.update tenant (current\<lparr>ts_tokens := i64 (ts_tokens current + granted)\<rparr>) states
          else states)"

text \<open>The methods as one caller runs them, with the allocator's state threaded through.\<close>

definition refill ::
  "('db \<Rightarrow> string \<Rightarrow> gotime \<Rightarrow> int \<Rightarrow> (store_error + int) \<times> 'db) \<Rightarrow> quota_pool \<Rightarrow> 'db \<Rightarrow>
   string \<Rightarrow> gotime \<Rightarrow> gotime \<Rightarrow> store_error option \<times> quota_pool \<times> 'db" where
  "refill reserve states db tenant window now =
     (case refill_begin states tenant window now of
        (None, states1) \<Rightarrow> (None, states1, db)
      | (Some limit, states1) \<Rightarrow>
          (case reserve db tenant window (leaseSize limit) of
             (Inl e, db1) \<Rightarrow> (Some e, states1, db1)
           | (Inr granted, db1) \<Rightarrow> (None, refill_finish states1 tenant window limit granted, db1)))"

fun refill_tenants ::
  "('db \<Rightarrow> string \<Rightarrow> gotime \<Rightarrow> int \<Rightarrow> (store_error + int) \<times> 'db) \<Rightarrow> gotime \<Rightarrow> gotime \<Rightarrow>
   string list \<Rightarrow> (string \<times> store_error) list \<Rightarrow> quota_pool \<Rightarrow> 'db \<Rightarrow>
   (string \<times> store_error) list \<times> quota_pool \<times> 'db" where
  "refill_tenants reserve window now [] failures states db = (failures, states, db)"
| "refill_tenants reserve window now (tenant # rest) failures states db =
     (case refill reserve states db tenant window now of
        (Some e, states1, db1) \<Rightarrow>
          refill_tenants reserve window now rest (failures @ [(tenant, e)]) states1 db1
      | (None, states1, db1) \<Rightarrow> refill_tenants reserve window now rest failures states1 db1)"

definition refillAll ::
  "('db \<Rightarrow> string \<Rightarrow> gotime \<Rightarrow> int \<Rightarrow> (store_error + int) \<times> 'db) \<Rightarrow> quota_pool \<Rightarrow> 'db \<Rightarrow>
   gotime \<Rightarrow> gotime \<Rightarrow> (string \<times> store_error) list \<times> quota_pool \<times> 'db" where
  "refillAll reserve states db window now =
     refill_tenants reserve window now (sort (map fst states)) [] states db"

definition Refresh ::
  "('db \<Rightarrow> string + quota_policy list) \<Rightarrow>
   ('db \<Rightarrow> string \<Rightarrow> gotime \<Rightarrow> int \<Rightarrow> (store_error + int) \<times> 'db) \<Rightarrow> quota_pool \<Rightarrow> 'db \<Rightarrow> gotime \<Rightarrow>
   (string + (string \<times> store_error) list) \<times> quota_pool \<times> 'db" where
  "Refresh policies reserve states db now =
     (case policies db of
        Inl e \<Rightarrow> (Inl e, states, db)
      | Inr ps \<Rightarrow>
          (let window = time_truncate now Minute
           in case refillAll reserve (apply_policies states window ps []) db window now of
                (failures, states1, db1) \<Rightarrow> (Inr failures, states1, db1)))"


section \<open>Gateways sharing one allocator\<close>

text \<open>
  The concurrent system: one allocator, a list of gateways with their pools, the refill calls in
  flight (their mutex released, the answer of the allocator not yet added), and four history
  variables: requests served from the tokens of a window, tokens the allocator has handed out,
  the newest window reserved, and the highest request limit a tenant has had.
\<close>

record refill_call =
  rc_gateway :: nat
  rc_tenant :: string
  rc_window :: gotime
  rc_limit :: int
  rc_granted :: "int option"

record 'db gateways =
  gw_db :: 'db
  gw_pools :: "quota_pool list"
  gw_calls :: "refill_call list"
  gw_served :: "string \<Rightarrow> gotime \<Rightarrow> int"
  gw_granted :: "string \<Rightarrow> gotime \<Rightarrow> int"
  gw_newest :: gotime
  gw_peak :: "string \<Rightarrow> int"

definition bump :: "string \<Rightarrow> gotime \<Rightarrow> int \<Rightarrow> (string \<Rightarrow> gotime \<Rightarrow> int) \<Rightarrow> string \<Rightarrow> gotime \<Rightarrow> int" where
  "bump T w n f = (\<lambda>T' w'. if T' = T \<and> w' = w then f T' w' + n else f T' w')"

text \<open>
  A reservation step requires that the gateway's clock is at most two minutes behind the newest
  window already reserved: that is how long the allocator keeps a window's row.
\<close>

inductive gateway_step ::
  "('db \<Rightarrow> string \<Rightarrow> gotime \<Rightarrow> int \<Rightarrow> (store_error + int) \<times> 'db) \<Rightarrow>
   ('db \<Rightarrow> string \<Rightarrow> int \<Rightarrow> 'db \<Rightarrow> bool) \<Rightarrow> 'db gateways \<Rightarrow> 'db gateways \<Rightarrow> bool"
  for reserve configure where
  gw_join: "gateway_step reserve configure s (s\<lparr>gw_pools := gw_pools s @ [[]]\<rparr>)"
| gw_restart: "g < length (gw_pools s) \<Longrightarrow>
    gateway_step reserve configure s
      (s\<lparr>gw_pools := (gw_pools s)[g := []],
         gw_calls := filter (\<lambda>c. rc_gateway c \<noteq> g) (gw_calls s)\<rparr>)"
| gw_configure: "configure (gw_db s) T limit db' \<Longrightarrow>
    gateway_step reserve configure s
      (s\<lparr>gw_db := db', gw_peak := (gw_peak s)(T := max (gw_peak s T) limit)\<rparr>)"
| gw_authorize: "g < length (gw_pools s) \<Longrightarrow>
    map_of (gw_pools s ! g) T = Some st \<Longrightarrow>
    Authorize (Some (gw_pools s ! g)) T = (None, Some p') \<Longrightarrow>
    gateway_step reserve configure s
      (s\<lparr>gw_pools := (gw_pools s)[g := p'], gw_served := bump T (ts_window st) 1 (gw_served s)\<rparr>)"
| gw_policies: "g < length (gw_pools s) \<Longrightarrow>
    gateway_step reserve configure s
      (s\<lparr>gw_pools := (gw_pools s)[g := apply_policies (gw_pools s ! g) window ps []]\<rparr>)"
| gw_refill_skip: "g < length (gw_pools s) \<Longrightarrow>
    refill_begin (gw_pools s ! g) T window now = (None, p') \<Longrightarrow>
    gateway_step reserve configure s (s\<lparr>gw_pools := (gw_pools s)[g := p']\<rparr>)"
| gw_refill_begin: "g < length (gw_pools s) \<Longrightarrow>
    refill_begin (gw_pools s ! g) T window now = (Some limit, p') \<Longrightarrow>
    gateway_step reserve configure s
      (s\<lparr>gw_pools := (gw_pools s)[g := p'],
         gw_calls := gw_calls s @ [\<lparr>rc_gateway = g, rc_tenant = T, rc_window = window,
                                     rc_limit = limit, rc_granted = None\<rparr>]\<rparr>)"
| gw_reserve: "i < length (gw_calls s) \<Longrightarrow> gw_calls s ! i = c \<Longrightarrow> rc_granted c = None \<Longrightarrow>
    gw_newest s - 2 * Minute \<le> rc_window c \<Longrightarrow>
    reserve (gw_db s) (rc_tenant c) (rc_window c) (leaseSize (rc_limit c)) = (Inr n, db') \<Longrightarrow>
    gateway_step reserve configure s
      (s\<lparr>gw_db := db', gw_calls := (gw_calls s)[i := c\<lparr>rc_granted := Some n\<rparr>],
         gw_granted := bump (rc_tenant c) (rc_window c) n (gw_granted s),
         gw_newest := max (gw_newest s) (rc_window c)\<rparr>)"
| gw_reserve_error: "i < length (gw_calls s) \<Longrightarrow> gw_calls s ! i = c \<Longrightarrow> rc_granted c = None \<Longrightarrow>
    reserve (gw_db s) (rc_tenant c) (rc_window c) (leaseSize (rc_limit c)) = (Inl e, db') \<Longrightarrow>
    gateway_step reserve configure s (s\<lparr>gw_db := db', gw_calls := drop_nth i (gw_calls s)\<rparr>)"
| gw_refill_finish: "i < length (gw_calls s) \<Longrightarrow> gw_calls s ! i = c \<Longrightarrow> rc_granted c = Some n \<Longrightarrow>
    rc_gateway c < length (gw_pools s) \<Longrightarrow>
    gateway_step reserve configure s
      (s\<lparr>gw_pools := (gw_pools s)[rc_gateway c :=
             refill_finish (gw_pools s ! rc_gateway c) (rc_tenant c) (rc_window c) (rc_limit c) n],
         gw_calls := drop_nth i (gw_calls s)\<rparr>)"

inductive gateways_reachable ::
  "('db \<Rightarrow> string \<Rightarrow> gotime \<Rightarrow> int \<Rightarrow> (store_error + int) \<times> 'db) \<Rightarrow>
   ('db \<Rightarrow> string \<Rightarrow> int \<Rightarrow> 'db \<Rightarrow> bool) \<Rightarrow> 'db gateways \<Rightarrow> 'db gateways \<Rightarrow> bool"
  for reserve configure s0 where
  gw_start: "gateways_reachable reserve configure s0 s0"
| gw_next: "gateways_reachable reserve configure s0 s \<Longrightarrow> gateway_step reserve configure s s' \<Longrightarrow>
    gateways_reachable reserve configure s0 s'"


section \<open>What the pools rely on\<close>

text \<open>
  \<open>accounts db G K h\<close>: the allocator's state accounts for grants \<open>G\<close> per tenant and window, under
  limits that never exceeded \<open>K\<close>, when no window newer than \<open>h\<close> has been reserved.
\<close>

locale quota_source =
  fixes reserve :: "'db \<Rightarrow> string \<Rightarrow> gotime \<Rightarrow> int \<Rightarrow> (store_error + int) \<times> 'db"
    and configure :: "'db \<Rightarrow> string \<Rightarrow> int \<Rightarrow> 'db \<Rightarrow> bool"
    and accounts :: "'db \<Rightarrow> (string \<Rightarrow> gotime \<Rightarrow> int) \<Rightarrow> (string \<Rightarrow> int) \<Rightarrow> gotime \<Rightarrow> bool"
  assumes accounts_bound: "accounts db G K h \<Longrightarrow> G T w \<le> K T"
    and accounts_small: "accounts db G K h \<Longrightarrow> K T < 2 ^ 31"
    and reserve_ok: "accounts db G K h \<Longrightarrow> reserve db T w n = (Inr m, db') \<Longrightarrow> h - 2 * Minute \<le> w \<Longrightarrow>
      0 \<le> m \<and> accounts db' (bump T w m G) K (max h w)"
    and reserve_error: "reserve db T w n = (Inl e, db') \<Longrightarrow> db' = db"
    and configure_ok: "accounts db G K h \<Longrightarrow> configure db T limit db' \<Longrightarrow>
      accounts db' G (K(T := max (K T) limit)) h"

definition held_tokens :: "string \<Rightarrow> gotime \<Rightarrow> quota_pool \<Rightarrow> int" where
  "held_tokens T w p =
     (case map_of p T of None \<Rightarrow> 0 | Some st \<Rightarrow> if ts_window st = w then ts_tokens st else 0)"

definition pending_tokens :: "string \<Rightarrow> gotime \<Rightarrow> refill_call \<Rightarrow> int" where
  "pending_tokens T w c =
     (if rc_tenant c = T \<and> rc_window c = w then (case rc_granted c of None \<Rightarrow> 0 | Some n \<Rightarrow> n) else 0)"

definition pool_ok :: "quota_pool \<Rightarrow> bool" where
  "pool_ok p \<longleftrightarrow> (\<forall>T st. map_of p T = Some st \<longrightarrow> 0 \<le> ts_tokens st)"

definition call_ok :: "refill_call \<Rightarrow> bool" where
  "call_ok c \<longleftrightarrow> (case rc_granted c of None \<Rightarrow> True | Some n \<Rightarrow> 0 \<le> n)"

definition in_circulation :: "'db gateways \<Rightarrow> string \<Rightarrow> gotime \<Rightarrow> int" where
  "in_circulation s T w =
     sum_list (map (held_tokens T w) (gw_pools s)) + sum_list (map (pending_tokens T w) (gw_calls s))"

definition tokens_inv :: "'db gateways \<Rightarrow> bool" where
  "tokens_inv s \<longleftrightarrow>
     (\<forall>p \<in> set (gw_pools s). pool_ok p) \<and> (\<forall>c \<in> set (gw_calls s). call_ok c) \<and>
     (\<forall>T w. 0 \<le> gw_served s T w \<and> in_circulation s T w + gw_served s T w \<le> gw_granted s T w)"


subsection \<open>One operation on one pool\<close>

lemma held_nonneg: "pool_ok p \<Longrightarrow> 0 \<le> held_tokens T w p"
  by (auto simp: pool_ok_def held_tokens_def split: option.splits)

lemma pending_nonneg: "call_ok c \<Longrightarrow> 0 \<le> pending_tokens T w c"
  by (auto simp: call_ok_def pending_tokens_def split: option.splits)

lemma pool_ok_update:
  "pool_ok p \<Longrightarrow> 0 \<le> ts_tokens st \<Longrightarrow> pool_ok (AList.update T st p)"
  by (auto simp: pool_ok_def update_conv' split: if_splits)

lemma held_update:
  "held_tokens T w (AList.update T' st p) =
     (if T = T' then (if ts_window st = w then ts_tokens st else 0) else held_tokens T w p)"
  by (simp add: held_tokens_def update_conv')

lemma pool_okD: "pool_ok p \<Longrightarrow> map_of p T = Some st \<Longrightarrow> 0 \<le> ts_tokens st"
  by (auto simp: pool_ok_def)

lemma move_window_tokens:
  "0 \<le> ts_tokens st \<Longrightarrow> 0 \<le> ts_tokens (move_window w st)"
  by (simp add: move_window_def)

lemma policy_state_tokens:
  assumes "pool_ok p"
  shows "0 \<le> ts_tokens (policy_state p w pol)"
    and "ts_window (policy_state p w pol) = w"
    and "ts_tokens (policy_state p w pol) \<le> held_tokens (pol_TenantID pol) w p"
  using assms
  by (auto simp: policy_state_def move_window_def zero_tenant_state_def held_tokens_def pool_ok_def
      Let_def split: option.splits)

text \<open>Reloading the policies never creates tokens.\<close>

lemma apply_policies_ok:
  assumes "pool_ok p" "pool_ok next" "\<And>T w'. held_tokens T w' next \<le> held_tokens T w' p"
  shows "pool_ok (apply_policies p w ps next) \<and>
     held_tokens T w' (apply_policies p w ps next) \<le> held_tokens T w' p"
  using assms(2,3)
proof (induction ps arbitrary: "next" T w')
  case (Cons pol ps)
  let ?n = "AList.update (pol_TenantID pol) (policy_state p w pol) next"
  have "pool_ok ?n" using Cons.prems(1) policy_state_tokens(1) [OF assms(1)] by (rule pool_ok_update)
  moreover have "held_tokens T w' ?n \<le> held_tokens T w' p" for T w'
    using Cons.prems(2) [of T w'] policy_state_tokens [OF assms(1), of w pol] held_nonneg [OF assms(1)]
    by (auto simp: held_update)
  ultimately show ?case using Cons by (simp del: One_nat_def)
qed simp

lemma refill_begin_ok:
  assumes "pool_ok p" "refill_begin p T w now = (r, p')"
  shows "pool_ok p' \<and> held_tokens T' w' p' \<le> held_tokens T' w' p"
proof (cases "map_of p T")
  case None
  then show ?thesis using assms by (simp add: refill_begin_def)
next
  case (Some st)
  have ge: "0 \<le> ts_tokens st" using assms(1) Some by (rule pool_okD)
  have held: "held_tokens T' w' (AList.update T (st'\<lparr>ts_lastAttempt := a\<rparr>) q) \<le> held_tokens T' w' p"
    if "st' = move_window w st" "\<And>x. x \<noteq> T \<Longrightarrow> map_of q x = map_of p x" for st' a q
    using that ge held_nonneg [OF assms(1), of T' w'] Some
    by (auto simp: update_conv' held_tokens_def move_window_def)
  have held0: "held_tokens T' w' (AList.update T (move_window w st) p) \<le> held_tokens T' w' p"
    using ge held_nonneg [OF assms(1), of T' w'] Some
    by (auto simp: update_conv' held_tokens_def move_window_def)
  show ?thesis
    using assms Some ge held held0
    by (auto simp: refill_begin_def Let_def update_conv' split: if_splits
        intro!: pool_ok_update move_window_tokens)
qed

lemma refill_finish_ok:
  assumes "pool_ok p" "0 \<le> n" "held_tokens T w p + n < 2 ^ 63"
  shows "pool_ok (refill_finish p T w limit n)"
    and "held_tokens T' w' (refill_finish p T w limit n) \<le>
         held_tokens T' w' p + (if T' = T \<and> w' = w then n else 0)"
proof -
  have i: "i64 (ts_tokens st + n) = ts_tokens st + n"
    if "map_of p T = Some st" "ts_window st = w" for st
    using assms that pool_okD [OF assms(1) that(1)]
    by (intro i64_id) (simp add: is_i64_def max_i64_def min_i64_def held_tokens_def)
  show "pool_ok (refill_finish p T w limit n)"
    using assms i pool_okD [OF assms(1)]
    by (auto simp: refill_finish_def split: option.splits intro!: pool_ok_update)
  show "held_tokens T' w' (refill_finish p T w limit n) \<le>
         held_tokens T' w' p + (if T' = T \<and> w' = w then n else 0)"
    using assms i
    by (auto simp: refill_finish_def update_conv' held_tokens_def split: option.splits)
qed

lemma Authorize_ok:
  assumes "pool_ok p" "map_of p T = Some st" "Authorize (Some p) T = (None, Some p')"
    "held_tokens T (ts_window st) p < 2 ^ 63"
  shows "pool_ok p'"
    and "held_tokens T' w' p' = held_tokens T' w' p - (if T' = T \<and> w' = ts_window st then 1 else 0)"
proof -
  have one: "1 \<le> ts_tokens st" and p': "p' = AList.update T (st\<lparr>ts_tokens := i64 (ts_tokens st - 1)\<rparr>) p"
    using assms(2,3) by (auto simp: Authorize_def split: if_splits)
  have "i64 (ts_tokens st - 1) = ts_tokens st - 1"
    using one assms(2,4) by (intro i64_id) (simp add: is_i64_def max_i64_def min_i64_def held_tokens_def)
  then show "pool_ok p'"
    and "held_tokens T' w' p' = held_tokens T' w' p - (if T' = T \<and> w' = ts_window st then 1 else 0)"
    using one assms(1,2) unfolding p' by (auto simp: update_conv' held_tokens_def intro!: pool_ok_update)
qed


subsection \<open>Sums over gateways and calls\<close>

lemma in_circulation_ge:
  assumes "tokens_inv s"
  shows "g < length (gw_pools s) \<Longrightarrow> held_tokens T w (gw_pools s ! g) \<le> gw_granted s T w"
    and "g < length (gw_pools s) \<Longrightarrow> i < length (gw_calls s) \<Longrightarrow>
      held_tokens T w (gw_pools s ! g) + pending_tokens T w (gw_calls s ! i) \<le> gw_granted s T w"
    and "gw_served s T w \<le> gw_granted s T w"
proof -
  have ok: "\<And>p. p \<in> set (gw_pools s) \<Longrightarrow> 0 \<le> held_tokens T w p"
    "\<And>c. c \<in> set (gw_calls s) \<Longrightarrow> 0 \<le> pending_tokens T w c"
    and le: "in_circulation s T w + gw_served s T w \<le> gw_granted s T w" "0 \<le> gw_served s T w"
    using assms held_nonneg pending_nonneg by (auto simp: tokens_inv_def)
  have nn: "0 \<le> sum_list (map (held_tokens T w) (gw_pools s))"
    "0 \<le> sum_list (map (pending_tokens T w) (gw_calls s))"
    using ok by (auto intro!: sum_list_nonneg)
  have H: "g < length (gw_pools s) \<Longrightarrow>
      held_tokens T w (gw_pools s ! g) \<le> sum_list (map (held_tokens T w) (gw_pools s))"
    using ok(1) by (intro sum_list_nonneg_ge) auto
  have P: "i < length (gw_calls s) \<Longrightarrow>
      pending_tokens T w (gw_calls s ! i) \<le> sum_list (map (pending_tokens T w) (gw_calls s))"
    using ok(2) by (intro sum_list_nonneg_ge) auto
  show "g < length (gw_pools s) \<Longrightarrow> held_tokens T w (gw_pools s ! g) \<le> gw_granted s T w"
    using H nn le by (simp add: in_circulation_def)
  show "g < length (gw_pools s) \<Longrightarrow> i < length (gw_calls s) \<Longrightarrow>
      held_tokens T w (gw_pools s ! g) + pending_tokens T w (gw_calls s ! i) \<le> gw_granted s T w"
    using H P le by (simp add: in_circulation_def)
  show "gw_served s T w \<le> gw_granted s T w"
    using nn le by (simp add: in_circulation_def)
qed

text \<open>Replacing one pool by one that holds no more keeps the invariant.\<close>

lemma tokens_inv_pool:
  assumes inv: "tokens_inv s" and g: "g < length (gw_pools s)" and ok: "pool_ok p'"
    and le: "\<And>T w. held_tokens T w p' \<le> held_tokens T w (gw_pools s ! g)"
  shows "tokens_inv (s\<lparr>gw_pools := (gw_pools s)[g := p']\<rparr>)"
proof -
  have "sum_list (map (held_tokens T w) ((gw_pools s)[g := p'])) \<le>
      sum_list (map (held_tokens T w) (gw_pools s))" for T w
    using sum_list_update_le [OF g, where d = 0] le by simp
  then show ?thesis
    using inv ok unfolding tokens_inv_def in_circulation_def
    by (auto dest!: set_update_subset_insert [THEN subsetD]) (meson add_mono order_trans order_refl)
qed


lemma tokens_inv_authorize:
  assumes inv: "tokens_inv s" and g: "g < length (gw_pools s)"
    and st: "map_of (gw_pools s ! g) T = Some st"
    and auth: "Authorize (Some (gw_pools s ! g)) T = (None, Some p')"
    and small: "gw_granted s T (ts_window st) < 2 ^ 63"
  shows "tokens_inv (s\<lparr>gw_pools := (gw_pools s)[g := p'],
    gw_served := bump T (ts_window st) 1 (gw_served s)\<rparr>)"
proof -
  have ok: "pool_ok (gw_pools s ! g)" using inv g by (auto simp: tokens_inv_def)
  have lt: "held_tokens T (ts_window st) (gw_pools s ! g) < 2 ^ 63"
    using in_circulation_ge(1) [OF inv g] small by (meson le_less_trans)
  note A = Authorize_ok [OF ok st auth lt]
  have sum: "sum_list (map (held_tokens T' w) ((gw_pools s)[g := p'])) =
      sum_list (map (held_tokens T' w) (gw_pools s)) - (if T' = T \<and> w = ts_window st then 1 else 0)"
    for T' w
    using g A(2) [of T' w] by (simp add: map_update sum_list_upd)
  have pools: "\<forall>p \<in> set ((gw_pools s)[g := p']). pool_ok p"
    using inv A(1) set_update_subset_insert [of "gw_pools s" g p'] by (auto simp: tokens_inv_def)
  have old: "\<And>T' w. 0 \<le> gw_served s T' w \<and> in_circulation s T' w + gw_served s T' w \<le> gw_granted s T' w"
    "\<forall>c \<in> set (gw_calls s). call_ok c"
    using inv by (auto simp: tokens_inv_def)
  show ?thesis
    unfolding tokens_inv_def
    using pools old(2) old(1) old(1) [of T "ts_window st"]
    by (auto simp: in_circulation_def sum bump_def add_nonneg_nonneg add.assoc)
qed

lemma tokens_inv_reserve:
  assumes inv: "tokens_inv s" and i: "i < length (gw_calls s)" and c: "gw_calls s ! i = c"
    and none: "rc_granted c = None" and n: "0 \<le> n"
  shows "tokens_inv (s\<lparr>gw_db := db', gw_calls := (gw_calls s)[i := c\<lparr>rc_granted := Some n\<rparr>],
     gw_granted := bump (rc_tenant c) (rc_window c) n (gw_granted s), gw_newest := h\<rparr>)"
proof -
  let ?c = "c\<lparr>rc_granted := Some n\<rparr>"
  have sum: "sum_list (map (pending_tokens T w) ((gw_calls s)[i := ?c])) =
      sum_list (map (pending_tokens T w) (gw_calls s)) +
      (if T = rc_tenant c \<and> w = rc_window c then n else 0)" for T w
    using i c none by (simp add: map_update sum_list_upd pending_tokens_def)
  have calls: "\<forall>c \<in> set ((gw_calls s)[i := ?c]). call_ok c"
    using inv n set_update_subset_insert [of "gw_calls s" i ?c]
    by (auto simp: tokens_inv_def call_ok_def)
  have old: "\<And>T w. 0 \<le> gw_served s T w \<and> in_circulation s T w + gw_served s T w \<le> gw_granted s T w"
    "\<forall>p \<in> set (gw_pools s). pool_ok p"
    using inv by (auto simp: tokens_inv_def)
  show ?thesis
    unfolding tokens_inv_def using calls old(2) old(1)
    by (auto simp: in_circulation_def sum bump_def) (smt (verit) old(1) in_circulation_def)+
qed

lemma tokens_inv_drop_call:
  assumes inv: "tokens_inv s" and i: "i < length (gw_calls s)"
  shows "tokens_inv (s\<lparr>gw_db := db', gw_calls := drop_nth i (gw_calls s)\<rparr>)"
proof -
  have "call_ok (gw_calls s ! i)" using inv i by (simp add: tokens_inv_def)
  then have "0 \<le> pending_tokens T w (gw_calls s ! i)" for T w by (rule pending_nonneg)
  then have "sum_list (map (pending_tokens T w) (drop_nth i (gw_calls s))) \<le>
      sum_list (map (pending_tokens T w) (gw_calls s))" for T w
    using i by (simp add: sum_list_drop_nth)
  then show ?thesis
    using inv set_drop_nth [of i "gw_calls s"] unfolding tokens_inv_def in_circulation_def
    by (auto; meson add_mono order_trans order_refl)
qed

lemma tokens_inv_finish:
  assumes inv: "tokens_inv s" and i: "i < length (gw_calls s)" and c: "gw_calls s ! i = c"
    and some: "rc_granted c = Some n" and g: "rc_gateway c < length (gw_pools s)"
    and small: "gw_granted s (rc_tenant c) (rc_window c) < 2 ^ 63"
  shows "tokens_inv (s\<lparr>gw_pools := (gw_pools s)[rc_gateway c :=
       refill_finish (gw_pools s ! rc_gateway c) (rc_tenant c) (rc_window c) (rc_limit c) n],
     gw_calls := drop_nth i (gw_calls s)\<rparr>)"
proof -
  let ?g = "rc_gateway c" and ?T = "rc_tenant c" and ?w = "rc_window c"
  let ?p = "refill_finish (gw_pools s ! ?g) ?T ?w (rc_limit c) n"
  have ok: "pool_ok (gw_pools s ! ?g)" and "call_ok c" using inv g i c by (auto simp: tokens_inv_def)
  then have n: "0 \<le> n" using some by (simp add: call_ok_def)
  have pend: "pending_tokens T w c = (if T = ?T \<and> w = ?w then n else 0)" for T w
    using some by (simp add: pending_tokens_def)
  have lt: "held_tokens ?T ?w (gw_pools s ! ?g) + n < 2 ^ 63"
    using in_circulation_ge(2) [OF inv g i, of ?T ?w] small pend [of ?T ?w] c by simp
  note F = refill_finish_ok [OF ok n lt]
  have H: "sum_list (map (held_tokens T w) ((gw_pools s)[?g := ?p])) \<le>
      sum_list (map (held_tokens T w) (gw_pools s)) + pending_tokens T w c" for T w
    unfolding pend using F(2) by (rule sum_list_update_le [OF g])
  have circ: "sum_list (map (held_tokens T w) ((gw_pools s)[?g := ?p])) +
      sum_list (map (pending_tokens T w) (drop_nth i (gw_calls s))) \<le> in_circulation s T w" for T w
    using H [of T w] i c by (simp add: in_circulation_def sum_list_drop_nth)
  have pools: "\<forall>p \<in> set ((gw_pools s)[?g := ?p]). pool_ok p"
    using inv F(1) set_update_subset_insert [of "gw_pools s" ?g ?p] by (auto simp: tokens_inv_def)
  show ?thesis
    using inv pools circ set_drop_nth [of i "gw_calls s"]
    unfolding tokens_inv_def by (auto simp: in_circulation_def; smt (verit))
qed

lemma tokens_inv_restart:
  assumes inv: "tokens_inv s" and g: "g < length (gw_pools s)"
  shows "tokens_inv (s\<lparr>gw_pools := (gw_pools s)[g := []],
     gw_calls := filter (\<lambda>c. rc_gateway c \<noteq> g) (gw_calls s)\<rparr>)"
proof -
  have ok: "pool_ok (gw_pools s ! g)" using inv g by (simp add: tokens_inv_def)
  have "pool_ok []" "\<And>T w. held_tokens T w [] \<le> held_tokens T w (gw_pools s ! g)"
    using held_nonneg [OF ok] by (simp_all add: pool_ok_def held_tokens_def)
  then have inv': "tokens_inv (s\<lparr>gw_pools := (gw_pools s)[g := []]\<rparr>)" (is "tokens_inv ?s")
    by (rule tokens_inv_pool [OF inv g])
  have "sum_list (map (pending_tokens T w) (filter (\<lambda>c. rc_gateway c \<noteq> g) (gw_calls s))) \<le>
      sum_list (map (pending_tokens T w) (gw_calls s))" for T w
    using inv pending_nonneg by (intro sum_list_filter_le) (auto simp: tokens_inv_def)
  then show ?thesis
    using inv' unfolding tokens_inv_def in_circulation_def
    by (auto; meson add_mono order_trans order_refl)
qed

lemma tokens_inv_other: "tokens_inv s \<Longrightarrow> tokens_inv (s\<lparr>gw_db := db', gw_peak := k\<rparr>)"
  by (simp add: tokens_inv_def in_circulation_def)

lemma tokens_inv_join: "tokens_inv s \<Longrightarrow> tokens_inv (s\<lparr>gw_pools := gw_pools s @ [[]]\<rparr>)"
  by (auto simp: tokens_inv_def in_circulation_def pool_ok_def held_tokens_def)

lemma tokens_inv_call:
  "tokens_inv s \<Longrightarrow> rc_granted c = None \<Longrightarrow> tokens_inv (s\<lparr>gw_calls := gw_calls s @ [c]\<rparr>)"
  by (auto simp: tokens_inv_def in_circulation_def call_ok_def pending_tokens_def)


subsection \<open>The contract's consequence\<close>

context quota_source
begin

definition accounted :: "'db gateways \<Rightarrow> bool" where
  "accounted s \<longleftrightarrow> tokens_inv s \<and> accounts (gw_db s) (gw_granted s) (gw_peak s) (gw_newest s)"

lemma granted_small: "accounted s \<Longrightarrow> gw_granted s T w < 2 ^ 63"
  using accounts_bound [of "gw_db s" "gw_granted s" "gw_peak s" "gw_newest s" T w]
    accounts_small [of "gw_db s" "gw_granted s" "gw_peak s" "gw_newest s" T]
  by (simp add: accounted_def)

lemma step_accounted: "gateway_step reserve configure s s' \<Longrightarrow> accounted s \<Longrightarrow> accounted s'"
proof (induction rule: gateway_step.induct)
  case (gw_join s)
  then show ?case by (simp add: accounted_def tokens_inv_join)
next
  case (gw_restart g s)
  then show ?case by (simp add: accounted_def tokens_inv_restart)
next
  case (gw_configure s T limit db')
  then show ?case by (auto simp: accounted_def tokens_inv_other intro: configure_ok)
next
  case (gw_authorize g s T st p')
  then show ?case
    using granted_small [OF gw_authorize(4)] by (simp add: accounted_def tokens_inv_authorize)
next
  case (gw_policies g s window ps)
  then have ok: "pool_ok (gw_pools s ! g)" by (simp add: accounted_def tokens_inv_def)
  have "pool_ok []" "\<And>T w. held_tokens T w [] \<le> held_tokens T w (gw_pools s ! g)"
    using held_nonneg [OF ok] by (simp_all add: pool_ok_def held_tokens_def)
  from apply_policies_ok [OF ok this] gw_policies show ?case
    by (simp add: accounted_def tokens_inv_pool)
next
  case (gw_refill_skip g s T window now p')
  then have "pool_ok (gw_pools s ! g)" by (simp add: accounted_def tokens_inv_def)
  from refill_begin_ok [OF this gw_refill_skip(2)] gw_refill_skip show ?case
    by (simp add: accounted_def tokens_inv_pool)
next
  case (gw_refill_begin g s T window now limit p')
  then have "pool_ok (gw_pools s ! g)" by (simp add: accounted_def tokens_inv_def)
  from refill_begin_ok [OF this gw_refill_begin(2)] gw_refill_begin
  have "tokens_inv (s\<lparr>gw_pools := (gw_pools s)[g := p']\<rparr>)"
    by (simp add: accounted_def tokens_inv_pool)
  from tokens_inv_call [OF this] gw_refill_begin show ?case by (simp add: accounted_def)
next
  case (gw_reserve i s c n db')
  then have "0 \<le> n \<and> accounts db' (bump (rc_tenant c) (rc_window c) n (gw_granted s)) (gw_peak s)
      (max (gw_newest s) (rc_window c))"
    by (intro reserve_ok) (simp_all add: accounted_def)
  then show ?case using gw_reserve by (simp add: accounted_def tokens_inv_reserve)
next
  case (gw_reserve_error i s c e db')
  then have "db' = gw_db s" using reserve_error by blast
  then show ?case
    using gw_reserve_error tokens_inv_drop_call [of s i "gw_db s"] by (simp add: accounted_def)
next
  case (gw_refill_finish i s c n)
  then show ?case
    using granted_small [OF gw_refill_finish(5)] by (simp add: accounted_def tokens_inv_finish)
qed

lemma reachable_accounted:
  "gateways_reachable reserve configure s0 s \<Longrightarrow> accounted s0 \<Longrightarrow> accounted s"
  by (induction rule: gateways_reachable.induct) (auto intro: step_accounted)

lemma served_within_peak:
  assumes "gateways_reachable reserve configure s0 s" "accounted s0"
  shows "gw_served s T w \<le> gw_peak s T"
proof -
  have "accounted s" using assms by (rule reachable_accounted)
  then have inv: "tokens_inv s"
    and acc: "accounts (gw_db s) (gw_granted s) (gw_peak s) (gw_newest s)"
    by (simp_all add: accounted_def)
  show ?thesis
    using in_circulation_ge(3) [OF inv, of T w] accounts_bound [OF acc, of T w] by simp
qed

end


section \<open>The store is such a source\<close>

definition quota_configure :: "quota_db \<Rightarrow> string \<Rightarrow> int \<Rightarrow> quota_db \<Rightarrow> bool" where
  "quota_configure db T limit db' \<longleftrightarrow>
     (\<exists>now maxDeployments maxReplicas.
        SetTenantQuota now db T maxDeployments maxReplicas limit = (Inr (), db'))"

definition store_accounts ::
  "quota_db \<Rightarrow> (string \<Rightarrow> gotime \<Rightarrow> int) \<Rightarrow> (string \<Rightarrow> int) \<Rightarrow> gotime \<Rightarrow> bool" where
  "store_accounts db G K h \<longleftrightarrow>
     (\<forall>T w. 0 \<le> G T w \<and> G T w \<le> K T) \<and> (\<forall>T. K T < 2 ^ 31) \<and>
     (\<forall>T row. map_of (q_quotas db) T = Some row \<longrightarrow>
        0 \<le> q_max_requests_per_minute row \<and> q_max_requests_per_minute row \<le> K T) \<and>
     (\<forall>T w. h - 2 * Minute \<le> w \<longrightarrow>
        G T w = (case map_of (q_windows db) (T, w) of None \<Rightarrow> 0 | Some r \<Rightarrow> r))"

lemma map_of_drop_windows:
  "map_of (drop_windows h ws) k = (if snd k < h then None else map_of ws k)"
  by (induction ws) (auto simp: drop_windows_def)

lemma ensure_window_lookup:
  "map_of (ensure_window k ws) k =
     Some (case map_of ws k of None \<Rightarrow> 0 | Some r \<Rightarrow> r)"
  "k' \<noteq> k \<Longrightarrow> map_of (ensure_window k ws) k' = map_of ws k'"
  by (simp_all add: ensure_window_def update_conv' split: option.splits)

lemma grant_size_bounds:
  assumes "0 \<le> limit" "limit < 2 ^ 31" "0 \<le> reserved" "reserved < 2 ^ 31" "0 \<le> requested"
  shows "grant_size limit reserved requested = min requested (max 0 (limit - reserved))"
proof -
  have "i64 (limit - reserved) = limit - reserved"
    using assms by (intro i64_id) (simp add: is_i64_def max_i64_def min_i64_def)
  then show ?thesis by (simp add: grant_size_def Let_def)
qed

lemma ReserveRequestQuota_success:
  assumes "ReserveRequestQuota db T w n = (Inr m, db')"
  obtains row r where "map_of (q_quotas db) T = Some row" "1 \<le> n"
    "r = (case map_of (q_windows db) (T, w) of None \<Rightarrow> 0 | Some r \<Rightarrow> r)"
    "m = grant_size (q_max_requests_per_minute row) r n" "q_quotas db' = q_quotas db"
    "\<And>T' w'. w - 2 * Minute \<le> w' \<Longrightarrow> map_of (q_windows db') (T', w') =
       (if (T', w') = (T, w) then Some (if m > 0 then r + m else r) else map_of (q_windows db) (T', w'))"
proof -
  from assms have n: "1 \<le> n" and tx: "reserve_tx db T w n = Inr (m, db')"
    by (auto simp: ReserveRequestQuota_def commit_tx_Inr split: if_splits)
  from tx obtain row where row: "map_of (q_quotas db) T = Some row"
    by (auto simp: reserve_tx_def split: option.splits)
  define r where "r = (case map_of (q_windows db) (T, w) of None \<Rightarrow> 0 | Some r \<Rightarrow> r)"
  define ws where "ws = ensure_window (T, w) (q_windows db)"
  have look: "map_of ws (T, w) = Some r" unfolding r_def ws_def by (rule ensure_window_lookup(1))
  have m: "m = grant_size (q_max_requests_per_minute row) r n"
    and db': "db' = db\<lparr>q_windows := drop_windows (w - 2 * Minute)
       (if m > 0 then AList.update (T, w) (r + m) ws else ws)\<rparr>"
    using tx row look by (auto simp: reserve_tx_def Let_def ws_def split: if_splits)
  have "map_of (q_windows db') (T', w') =
       (if (T', w') = (T, w) then Some (if m > 0 then r + m else r) else map_of (q_windows db) (T', w'))"
    if "w - 2 * Minute \<le> w'" for T' w'
    using that look ensure_window_lookup(2) [of "(T', w')" "(T, w)" "q_windows db"]
    by (auto simp: db' map_of_drop_windows update_conv' ws_def)
  then show thesis using that [OF row n r_def m] by (simp add: db')
qed

lemma store_reserve_ok:
  assumes acc: "store_accounts db G K h" and res: "ReserveRequestQuota db T w n = (Inr m, db')"
    and h: "h - 2 * Minute \<le> w"
  shows "0 \<le> m \<and> store_accounts db' (bump T w m G) K (max h w)"
proof -
  from res obtain row r where row: "map_of (q_quotas db) T = Some row" and n: "1 \<le> n"
    and r: "r = (case map_of (q_windows db) (T, w) of None \<Rightarrow> 0 | Some r \<Rightarrow> r)"
    and m: "m = grant_size (q_max_requests_per_minute row) r n" and quotas: "q_quotas db' = q_quotas db"
    and look: "\<And>T' w'. w - 2 * Minute \<le> w' \<Longrightarrow> map_of (q_windows db') (T', w') =
       (if (T', w') = (T, w) then Some (if m > 0 then r + m else r) else map_of (q_windows db) (T', w'))"
    by (elim ReserveRequestQuota_success) blast
  have G: "G T w = r" using acc h r by (simp add: store_accounts_def)
  have K: "0 \<le> q_max_requests_per_minute row" "q_max_requests_per_minute row \<le> K T" "K T < 2 ^ 31"
    "0 \<le> r" "r \<le> K T"
    using acc row G by (auto simp: store_accounts_def)
  have meq: "m = min n (max 0 (q_max_requests_per_minute row - r))"
    unfolding m using K n by (intro grant_size_bounds) linarith+
  then have m0: "0 \<le> m" "r + m \<le> K T" using K n by auto
  have "G T' w' = (case map_of (q_windows db) (T', w') of None \<Rightarrow> 0 | Some r \<Rightarrow> r)"
    if "max h w - 2 * Minute \<le> w'" for T' w'
    using acc that by (simp add: store_accounts_def)
  then have "bump T w m G T' w' = (case map_of (q_windows db') (T', w') of None \<Rightarrow> 0 | Some r \<Rightarrow> r)"
    if "max h w - 2 * Minute \<le> w'" for T' w'
    using that look [of w' T'] m0 G by (auto simp: bump_def)
  then show ?thesis
    using acc m0 G quotas by (auto simp: store_accounts_def bump_def)
qed

lemma store_reserve_error: "ReserveRequestQuota db T w n = (Inl e, db') \<Longrightarrow> db' = db"
  by (auto simp: ReserveRequestQuota_def commit_tx_Inl split: if_splits)

lemma store_configure_ok:
  assumes "store_accounts db G K h" "quota_configure db T limit db'"
  shows "store_accounts db' G (K(T := max (K T) limit)) h"
proof -
  from assms(2) have "0 \<le> limit" "limit < 2 ^ 31"
    and db': "q_windows db' = q_windows db"
      "\<exists>row. q_quotas db' = AList.update T row (q_quotas db) \<and> q_max_requests_per_minute row = limit"
    by (auto simp: quota_configure_def SetTenantQuota_def int4_def split: if_splits)
  then show ?thesis
    using assms(1) by (auto simp: store_accounts_def update_conv' le_max_iff_disj split: if_splits)
qed

interpretation quota: quota_source ReserveRequestQuota quota_configure store_accounts
proof (rule quota_source.intro)
  show "G T w \<le> K T" if "store_accounts db G K h" for db G K h T w
    using that by (simp add: store_accounts_def)
  show "K T < 2 ^ 31" if "store_accounts db G K h" for db G K h T
    using that by (simp add: store_accounts_def)
qed (erule store_reserve_ok store_reserve_error store_configure_ok; assumption)+

text \<open>The system before any gateway has joined and any quota is configured.\<close>

definition new_gateways :: "string list \<Rightarrow> quota_db gateways" where
  "new_gateways tenants =
     \<lparr>gw_db = \<lparr>q_tenants = tenants, q_quotas = [], q_windows = []\<rparr>, gw_pools = [], gw_calls = [],
      gw_served = (\<lambda>_ _. 0), gw_granted = (\<lambda>_ _. 0), gw_newest = 0, gw_peak = (\<lambda>_. 0)\<rparr>"

lemma new_gateways_accounted: "quota.accounted (new_gateways tenants)"
  by (simp add: quota.accounted_def new_gateways_def tokens_inv_def in_circulation_def store_accounts_def)

section \<open>Properties\<close>

text \<open>
  C5. A tenant's request quota holds across all gateways. Whatever the gateways do, in whatever
  interleaving (authorizations, policy reloads, refills cut in three by the released mutex,
  reservation errors, restarts, changes of the quota), and as long as a reservation's window is at
  most two minutes behind the newest reserved one, the requests served from one minute window never
  exceed the highest per-minute limit the tenant has had.
\<close>

theorem quota_never_exceeded:
  assumes "gateways_reachable ReserveRequestQuota quota_configure (new_gateways tenants) s"
  shows "gw_served s T w \<le> gw_peak s T"
  using assms new_gateways_accounted by (rule quota.served_within_peak)

definition example_quota :: quota_row where
  "example_quota = \<lparr>q_max_deployments = 1, q_max_replicas = 1, q_max_requests_per_minute = 9,
     q_updated_at = 0\<rparr>"

definition one_minute_db :: "string \<Rightarrow> int \<Rightarrow> quota_db" where
  "one_minute_db T r = \<lparr>q_tenants = [T], q_quotas = [(T, example_quota)], q_windows = [((T, 0), r)]\<rparr>"

definition acme_policy :: quota_policy where
  "acme_policy = \<lparr>pol_TenantID = ''acme'', pol_MaxRequestsPerMinute = 9\<rparr>"

definition acme_state :: "int \<Rightarrow> tenant_state" where
  "acme_state n = \<lparr>ts_limit = 9, ts_tokens = n, ts_window = 0, ts_lastAttempt = Second\<rparr>"

definition acme_call :: "int option \<Rightarrow> refill_call" where
  "acme_call r = \<lparr>rc_gateway = 0, rc_tenant = ''acme'', rc_window = 0, rc_limit = 9, rc_granted = r\<rparr>"

definition acme_gateways ::
  "quota_db \<Rightarrow> quota_pool list \<Rightarrow> refill_call list \<Rightarrow> int \<Rightarrow> int \<Rightarrow> int \<Rightarrow> quota_db gateways" where
  "acme_gateways db pools calls served granted peak =
     \<lparr>gw_db = db, gw_pools = pools, gw_calls = calls,
      gw_served = bump ''acme'' 0 served (\<lambda>_ _. 0), gw_granted = bump ''acme'' 0 granted (\<lambda>_ _. 0),
      gw_newest = 0, gw_peak = (\<lambda>_. 0)(''acme'' := peak)\<rparr>"

abbreviation (input) "acme_step \<equiv> gateway_step ReserveRequestQuota quota_configure"

abbreviation (input) "acme_db \<equiv> (one_minute_db ''acme'' 0)\<lparr>q_windows := []\<rparr>"
abbreviation (input) "acme_new \<equiv> gw_db (new_gateways [''acme''])"
abbreviation (input) "acme_pool n \<equiv> [(''acme'', acme_state n)]"
abbreviation (input) "acme_idle \<equiv> [(''acme'', (acme_state 0)\<lparr>ts_lastAttempt := 0\<rparr>)]"

lemma acme_start: "new_gateways [''acme''] = acme_gateways acme_new [] [] 0 0 0"
  by (simp add: new_gateways_def acme_gateways_def bump_def fun_eq_iff)

lemma acme_joined: "acme_step (acme_gateways acme_new [] [] 0 0 0) (acme_gateways acme_new [[]] [] 0 0 0)"
  using gw_join [where s = "acme_gateways acme_new [] [] 0 0 0"] by (simp add: acme_gateways_def)

lemma acme_configured:
  "acme_step (acme_gateways acme_new [[]] [] 0 0 0) (acme_gateways acme_db [[]] [] 0 0 9)"
proof -
  have "SetTenantQuota 0 acme_new ''acme'' 1 1 9 = (Inr (), acme_db)"
    by (simp add: SetTenantQuota_def new_gateways_def one_minute_db_def example_quota_def int4_def)
  then have "quota_configure (gw_db (acme_gateways acme_new [[]] [] 0 0 0)) ''acme'' 9 acme_db"
    unfolding quota_configure_def by (auto simp: acme_gateways_def)
  from gw_configure [where configure = quota_configure and T = "''acme''" and limit = 9 and db' = acme_db
      and s = "acme_gateways acme_new [[]] [] 0 0 0" and reserve = ReserveRequestQuota, OF this]
  show ?thesis by (simp add: acme_gateways_def)
qed

lemma acme_policies:
  "acme_step (acme_gateways acme_db [[]] [] 0 0 9) (acme_gateways acme_db [acme_idle] [] 0 0 9)"
  using gw_policies [where g = 0 and s = "acme_gateways acme_db [[]] [] 0 0 9" and window = 0
        and ps = "[acme_policy]"]
  by (simp add: acme_gateways_def acme_policy_def policy_state_def move_window_def zero_tenant_state_def
      acme_state_def)

lemma acme_begin:
  "acme_step (acme_gateways acme_db [acme_idle] [] 0 0 9)
     (acme_gateways acme_db [acme_pool 0] [acme_call None] 0 0 9)"
proof -
  have "refill_begin acme_idle ''acme'' 0 Second = (Some 9, acme_pool 0)"
    by (simp add: refill_begin_def move_window_def acme_state_def refillThreshold_def leaseSize_def
        quot_def time_sub_def max_i64_def min_i64_def)
  then show ?thesis
    using gw_refill_begin [where g = 0 and s = "acme_gateways acme_db [acme_idle] [] 0 0 9" and window = 0
        and T = "''acme''" and now = Second and limit = 9 and p' = "acme_pool 0"]
    by (simp add: acme_gateways_def acme_call_def)
qed

lemma acme_reserve:
  "acme_step (acme_gateways acme_db [acme_pool 0] [acme_call None] 0 0 9)
      (acme_gateways (one_minute_db ''acme'' 1) [acme_pool 0] [acme_call (Some 1)] 0 1 9)"
proof -
  have "ReserveRequestQuota acme_db ''acme'' 0 1 = (Inr 1, one_minute_db ''acme'' 1)"
    by (simp add: ReserveRequestQuota_def reserve_tx_def ensure_window_def one_minute_db_def
        example_quota_def grant_size_def time_truncate_def i64_def int4_def drop_windows_def
        commit_tx_def Let_def)
  moreover have "leaseSize 9 = 1" by (simp add: leaseSize_def quot_def)
  moreover have "bump ''acme'' 0 1 (bump ''acme'' 0 0 (\<lambda>_ _. 0)) = bump ''acme'' 0 1 (\<lambda>_ _. 0)"
    by (simp add: bump_def fun_eq_iff)
  ultimately show ?thesis
    using gw_reserve [where i = 0 and s = "acme_gateways acme_db [acme_pool 0] [acme_call None] 0 0 9"
        and n = 1 and c = "acme_call None" and db' = "one_minute_db ''acme'' 1"
        and reserve = ReserveRequestQuota]
    by (simp add: acme_gateways_def acme_call_def)
qed

lemma acme_finish:
  "acme_step (acme_gateways (one_minute_db ''acme'' 1) [acme_pool 0] [acme_call (Some 1)] 0 1 9)
     (acme_gateways (one_minute_db ''acme'' 1) [acme_pool 1] [] 0 1 9)"
proof -
  have "refill_finish (acme_pool 0) ''acme'' 0 9 1 = acme_pool 1"
    by (simp add: refill_finish_def acme_state_def i64_def)
  then show ?thesis
    using gw_refill_finish [where i = 0 and n = 1 and c = "acme_call (Some 1)" and
        s = "acme_gateways (one_minute_db ''acme'' 1) [acme_pool 0] [acme_call (Some 1)] 0 1 9"]
    by (simp add: acme_gateways_def acme_call_def drop_nth_def)
qed

lemma acme_authorized:
  "acme_step (acme_gateways (one_minute_db ''acme'' 1) [acme_pool 1] [] 0 1 9)
     (acme_gateways (one_minute_db ''acme'' 1) [acme_pool 0] [] 1 1 9)"
proof -
  have "Authorize (Some (acme_pool 1)) ''acme'' = (None, Some (acme_pool 0))"
    by (simp add: Authorize_def acme_state_def i64_def)
  moreover have "bump ''acme'' 0 1 (bump ''acme'' 0 0 (\<lambda>_ _. 0)) = bump ''acme'' 0 1 (\<lambda>_ _. 0)"
    by (simp add: bump_def fun_eq_iff)
  moreover have "ts_window (acme_state 1) = 0" by (simp add: acme_state_def)
  ultimately show ?thesis
    using gw_authorize [where g = 0 and T = "''acme''" and st = "acme_state 1" and p' = "acme_pool 0"
        and s = "acme_gateways (one_minute_db ''acme'' 1) [acme_pool 1] [] 0 1 9"]
    by (simp add: acme_gateways_def)
qed

lemma acme_one_request:
  "gateways_reachable ReserveRequestQuota quota_configure (new_gateways [''acme''])
     (acme_gateways (one_minute_db ''acme'' 1) [acme_pool 0] [] 1 1 9)"
  by (subst acme_start, rule gw_next [OF gw_next [OF gw_next [OF gw_next [OF gw_next [OF gw_next [OF gw_next
        [OF gw_start acme_joined] acme_configured] acme_policies] acme_begin] acme_reserve]
        acme_finish] acme_authorized])

theorem quota_never_exceeded_witness:
  "\<exists>s :: quota_db gateways. gw_served s ''acme'' 0 = 1 \<and> gw_served s ''acme'' 0 \<le> gw_peak s ''acme'' \<and> gw_peak s ''acme'' = 9"
  using quota_never_exceeded [OF acme_one_request, of "''acme''" 0]
  by (intro exI [where x = "acme_gateways (one_minute_db ''acme'' 1) [[(''acme'', acme_state 0)]] [] 1 1 9"])
    (simp add: acme_gateways_def bump_def)

text \<open>
  One reservation. The allocator grants the request or what the window has left of the
  current limit, whichever is smaller, never a negative amount, records it under that window only
  and keeps every window not more than two minutes older.
\<close>

theorem ReserveRequestQuota_exact:
  assumes "tenant \<noteq> ''''" "1 \<le> requested" "window = time_truncate window Minute"
    and "map_of (q_quotas db) tenant = Some row" "0 \<le> q_max_requests_per_minute row"
      "q_max_requests_per_minute row < 2 ^ 31"
    and "reserved = (case map_of (q_windows db) (tenant, window) of None \<Rightarrow> 0 | Some r \<Rightarrow> r)"
      "0 \<le> reserved" "reserved < 2 ^ 31"
  shows "\<exists>db'. ReserveRequestQuota db tenant window requested =
       (Inr (min requested (max 0 (q_max_requests_per_minute row - reserved))), db') \<and>
     q_quotas db' = q_quotas db \<and>
     (\<forall>T w. map_of (q_windows db') (T, w) =
        (if w < window - 2 * Minute then None
         else if (T, w) = (tenant, window)
         then Some (reserved + min requested (max 0 (q_max_requests_per_minute row - reserved)))
         else map_of (q_windows db) (T, w)))"
proof -
  define m where "m = min requested (max 0 (q_max_requests_per_minute row - reserved))"
  have m: "grant_size (q_max_requests_per_minute row) reserved requested = m"
    unfolding m_def using assms by (intro grant_size_bounds) auto
  have i4: "int4 (reserved + m)" and m0: "0 \<le> m"
    using assms by (auto simp: int4_def m_def)
  define ws where "ws = ensure_window (tenant, window) (q_windows db)"
  have look: "map_of ws (tenant, window) = Some reserved"
    unfolding assms(7) ws_def by (rule ensure_window_lookup(1))
  define db' where "db' = db\<lparr>q_windows := drop_windows (window - 2 * Minute)
       (if m > 0 then AList.update (tenant, window) (reserved + m) ws else ws)\<rparr>"
  have "reserve_tx db tenant window requested = Inr (m, db')"
    using assms(4) look m i4 by (simp add: reserve_tx_def Let_def ws_def db'_def)
  then have "ReserveRequestQuota db tenant window requested = (Inr m, db')"
    using assms(1-3) by (auto simp: ReserveRequestQuota_def commit_tx_Inr)
  moreover have "map_of (q_windows db') (T, w) =
        (if w < window - 2 * Minute then None
         else if (T, w) = (tenant, window) then Some (reserved + m)
         else map_of (q_windows db) (T, w))" for T w
    using look m0 ensure_window_lookup(2) [of "(T, w)" "(tenant, window)" "q_windows db"]
    by (auto simp: db'_def map_of_drop_windows update_conv' ws_def)
  ultimately show ?thesis unfolding m_def [symmetric] by (auto simp: db'_def)
qed

theorem ReserveRequestQuota_exact_witness:
  "\<exists>db'. ReserveRequestQuota (one_minute_db ''acme'' 7) ''acme'' 0 5 = (Inr 2, db') \<and>
     map_of (q_windows db') (''acme'', 0) = Some 9"
proof -
  have "\<exists>db'. ReserveRequestQuota (one_minute_db ''acme'' 7) ''acme'' 0 5 =
       (Inr (min 5 (max 0 (q_max_requests_per_minute example_quota - 7))), db') \<and>
     q_quotas db' = q_quotas (one_minute_db ''acme'' 7) \<and>
     (\<forall>T w. map_of (q_windows db') (T, w) =
        (if w < 0 - 2 * Minute then None
         else if (T, w) = (''acme'', 0)
         then Some (7 + min 5 (max 0 (q_max_requests_per_minute example_quota - 7)))
         else map_of (q_windows (one_minute_db ''acme'' 7)) (T, w)))"
    by (rule ReserveRequestQuota_exact)
      (simp_all add: one_minute_db_def example_quota_def time_truncate_def)
  then show ?thesis by (auto simp: example_quota_def)
qed

text \<open>
  The two-minute bound on clock skew is needed: once a reservation of any tenant in a window
  more than two minutes later has run, the row of the earlier window is gone, and a late
  reservation for that earlier window is granted from the full limit again, whatever had been
  handed out before.
\<close>

theorem late_window_regranted:
  assumes "ReserveRequestQuota db other later requested' = (Inr granted', db1)"
    and "window + 2 * Minute < later"
    and "tenant \<noteq> ''''" "1 \<le> requested" "window = time_truncate window Minute"
    and "map_of (q_quotas db) tenant = Some row" "0 \<le> q_max_requests_per_minute row"
      "q_max_requests_per_minute row < 2 ^ 31"
  shows "fst (ReserveRequestQuota db1 tenant window requested) =
    Inr (min requested (q_max_requests_per_minute row))"
proof -
  from assms(1) have tx: "reserve_tx db other later requested' = Inr (granted', db1)"
    by (auto simp: ReserveRequestQuota_def commit_tx_Inr split: if_splits)
  then have quotas: "q_quotas db1 = q_quotas db" and gone: "map_of (q_windows db1) (tenant, window) = None"
    using assms(2)
    by (auto simp: reserve_tx_def Let_def map_of_drop_windows split: option.splits if_splits)
  have g: "grant_size (q_max_requests_per_minute row) 0 requested =
      min requested (q_max_requests_per_minute row)"
    using assms grant_size_bounds [of "q_max_requests_per_minute row" 0 requested] by simp
  have "int4 (min requested (q_max_requests_per_minute row))"
    using assms(4,7,8) by (simp add: int4_def min_def)
  moreover have "map_of (ensure_window (tenant, window) (q_windows db1)) (tenant, window) = Some 0"
    using gone by (simp add: ensure_window_lookup(1))
  ultimately show ?thesis
    using assms(3-6) quotas g
    by (simp add: ReserveRequestQuota_def reserve_tx_def Let_def commit_tx_def)
qed

theorem late_window_regranted_witness:
  "fst (ReserveRequestQuota (snd (ReserveRequestQuota (one_minute_db ''acme'' 9) ''acme'' (3 * Minute) 1))
     ''acme'' 0 4) = Inr 4"
proof -
  have res: "ReserveRequestQuota (one_minute_db ''acme'' 9) ''acme'' (3 * Minute) 1 =
     (Inr 1, snd (ReserveRequestQuota (one_minute_db ''acme'' 9) ''acme'' (3 * Minute) 1))"
    by (simp add: ReserveRequestQuota_def reserve_tx_def commit_tx_def one_minute_db_def example_quota_def
        time_truncate_def ensure_window_def grant_size_def i64_def int4_def Let_def)
  have "fst (ReserveRequestQuota (snd (ReserveRequestQuota (one_minute_db ''acme'' 9) ''acme'' (3 * Minute) 1))
     ''acme'' 0 4) = Inr (min 4 (q_max_requests_per_minute example_quota))"
    by (rule late_window_regranted [OF res])
      (simp_all add: one_minute_db_def example_quota_def time_truncate_def)
  then show ?thesis by (simp add: example_quota_def)
qed

text \<open>
  The methods a gateway's loop calls are runs of the step relation, so the bound above applies to
  them: each refill is one or three steps, and a whole \<open>Refresh\<close> a sequence of them.
\<close>

definition reaches_pool ::
  "('db \<Rightarrow> string \<Rightarrow> gotime \<Rightarrow> int \<Rightarrow> (store_error + int) \<times> 'db) \<Rightarrow>
   ('db \<Rightarrow> string \<Rightarrow> int \<Rightarrow> 'db \<Rightarrow> bool) \<Rightarrow> nat \<Rightarrow> gotime \<Rightarrow> 'db gateways \<Rightarrow> quota_pool \<Rightarrow> 'db \<Rightarrow> 'db gateways \<Rightarrow> bool"
  where
  "reaches_pool reserve configure g w s p db s' \<longleftrightarrow>
     (gateway_step reserve configure)\<^sup>*\<^sup>* s s' \<and> gw_pools s' = (gw_pools s)[g := p] \<and> gw_db s' = db \<and>
     gw_calls s' = gw_calls s \<and> gw_newest s' \<le> max (gw_newest s) w"

lemma reaches_pool_trans:
  assumes "reaches_pool reserve configure g w s p db s'" "reaches_pool reserve configure g w s' p' db' s''"
  shows "reaches_pool reserve configure g w s p' db' s''"
  using assms unfolding reaches_pool_def by (auto intro: rtranclp_trans)

lemma reaches_poolI:
  "(gateway_step reserve configure)\<^sup>*\<^sup>* s s' \<Longrightarrow> gw_pools s' = (gw_pools s)[g := p] \<Longrightarrow> gw_db s' = db \<Longrightarrow>
   gw_calls s' = gw_calls s \<Longrightarrow> gw_newest s' \<le> max (gw_newest s) w \<Longrightarrow>
   \<exists>s'. reaches_pool reserve configure g w s p db s'"
  unfolding reaches_pool_def by blast

lemma refill_reaches:
  assumes g: "g < length (gw_pools s)" and w: "gw_newest s - 2 * Minute \<le> w"
    and run: "refill reserve (gw_pools s ! g) (gw_db s) T w now = (e, p1, db1)"
  shows "\<exists>s'. reaches_pool reserve configure g w s p1 db1 s'"
proof (cases "refill_begin (gw_pools s ! g) T w now")
  case (Pair r p)
  show ?thesis
  proof (cases r)
    case None
    then have "gateway_step reserve configure s (s\<lparr>gw_pools := (gw_pools s)[g := p]\<rparr>)"
      using g Pair by (intro gw_refill_skip) auto
    moreover have "p1 = p" "db1 = gw_db s" using run Pair None by (auto simp: refill_def)
    ultimately show ?thesis unfolding reaches_pool_def
      by (intro exI [where x = "s\<lparr>gw_pools := (gw_pools s)[g := p]\<rparr>"]) auto
  next
    case (Some limit)
    define c where "c = \<lparr>rc_gateway = g, rc_tenant = T, rc_window = w, rc_limit = limit, rc_granted = None\<rparr>"
    define s1 where "s1 = s\<lparr>gw_pools := (gw_pools s)[g := p], gw_calls := gw_calls s @ [c]\<rparr>"
    have b: "gateway_step reserve configure s s1"
      unfolding s1_def c_def using g Pair Some by (intro gw_refill_begin) auto
    have c1: "length (gw_calls s) < length (gw_calls s1)" "gw_calls s1 ! length (gw_calls s) = c"
      "rc_granted c = None" "rc_tenant c = T" "rc_window c = w" "rc_limit c = limit" "gw_db s1 = gw_db s"
      by (simp_all add: s1_def c_def)
    show ?thesis
    proof (cases "reserve (gw_db s) T w (leaseSize limit)")
      case res: (Pair a db2)
      show ?thesis
      proof (cases a)
        case (Inl err)
        then have r: "p1 = p" "db1 = db2" using run Pair Some res by (auto simp: refill_def)
        have "gateway_step reserve configure s1 (s1\<lparr>gw_db := db2, gw_calls := drop_nth (length (gw_calls s)) (gw_calls s1)\<rparr>)"
          using c1 res Inl by (intro gw_reserve_error [of _ _ c]) auto
        from rtranclp_two [where R = "gateway_step reserve configure", OF b this] show ?thesis
          by (rule reaches_poolI) (auto simp: s1_def r)
      next
        case (Inr n)
        then have r: "p1 = refill_finish p T w limit n" "db1 = db2"
          using run Pair Some res by (auto simp: refill_def)
        define c2 where "c2 = c\<lparr>rc_granted := Some n\<rparr>"
        define s2 where "s2 = s1\<lparr>gw_db := db2, gw_calls := (gw_calls s1)[length (gw_calls s) := c2],
            gw_granted := bump T w n (gw_granted s1), gw_newest := max (gw_newest s1) w\<rparr>"
        have two: "gateway_step reserve configure s1 s2"
          using gw_reserve [of "length (gw_calls s)" s1 c reserve n db2 configure] c1 res Inr w
          by (simp add: s2_def c2_def s1_def)
        have "gateway_step reserve configure s2
            (s2\<lparr>gw_pools := (gw_pools s2)[g := refill_finish (gw_pools s2 ! g) T w limit n],
               gw_calls := drop_nth (length (gw_calls s)) (gw_calls s2)\<rparr>)"
          using gw_refill_finish [of "length (gw_calls s)" s2 c2 n reserve configure] g
          by (simp add: s2_def s1_def c2_def c_def)
        from rtranclp_three [where R = "gateway_step reserve configure", OF b two this] show ?thesis
          by (rule reaches_poolI) (auto simp: s2_def s1_def c2_def r g)
      qed
    qed
  qed
qed

lemma refill_tenants_reaches:
  "refill_tenants reserve w now ts fs (gw_pools s ! g) (gw_db s) = (fs', p1, db1) \<Longrightarrow>
   g < length (gw_pools s) \<Longrightarrow> gw_newest s - 2 * Minute \<le> w \<Longrightarrow>
   \<exists>s'. reaches_pool reserve configure g w s p1 db1 s'"
proof (induction ts arbitrary: fs s)
  case Nil
  then show ?case by (intro exI [where x = s]) (auto simp: reaches_pool_def)
next
  case (Cons T ts)
  obtain e p db where ref: "refill reserve (gw_pools s ! g) (gw_db s) T w now = (e, p, db)"
    by (metis prod_cases3)
  obtain s1 where s1: "reaches_pool reserve configure g w s p db s1"
    using refill_reaches [OF Cons.prems(2,3) ref] by blast
  then have eq: "gw_pools s1 ! g = p" "gw_db s1 = db" and len: "g < length (gw_pools s1)"
    and w1: "gw_newest s1 - 2 * Minute \<le> w"
    using Cons.prems(2,3) by (auto simp: reaches_pool_def)
  have "\<exists>fs1. refill_tenants reserve w now ts fs1 (gw_pools s1 ! g) (gw_db s1) = (fs', p1, db1)"
    using Cons.prems(1) ref unfolding eq by (cases e) auto
  then obtain s2 where "reaches_pool reserve configure g w s1 p1 db1 s2"
    using Cons.IH len w1 by blast
  with s1 show ?case by (blast intro: reaches_pool_trans)
qed

text \<open>
  A gateway's whole \<open>Refresh\<close> (policies read, pool rebuilt, every tenant refilled in name order,
  failures collected) leaves its pool and the allocator in a state the step relation reaches, when
  its clock is not more than two minutes behind the newest reserved window: what holds of all
  interleavings holds of the method.
\<close>

theorem Refresh_refines_steps:
  assumes "g < length (gw_pools s)" "gw_newest s - 2 * Minute \<le> time_truncate now Minute"
    and "Refresh policies reserve (gw_pools s ! g) (gw_db s) now = (r, p1, db1)"
  shows "\<exists>s'. (gateway_step reserve configure)\<^sup>*\<^sup>* s s' \<and> gw_pools s' = (gw_pools s)[g := p1] \<and>
    gw_db s' = db1 \<and> gw_calls s' = gw_calls s"
proof (cases "policies (gw_db s)")
  case (Inl e)
  then show ?thesis using assms by (intro exI [where x = s]) (auto simp: Refresh_def)
next
  case (Inr ps)
  define w where "w = time_truncate now Minute"
  define s1 where "s1 = s\<lparr>gw_pools := (gw_pools s)[g := apply_policies (gw_pools s ! g) w ps []]\<rparr>"
  have step: "gateway_step reserve configure s s1" unfolding s1_def using assms(1) by (rule gw_policies)
  obtain fs where "refillAll reserve (gw_pools s1 ! g) (gw_db s1) w now = (fs, p1, db1)"
    using assms Inr by (auto simp: Refresh_def s1_def w_def Let_def split: prod.splits)
  then obtain s2 where "reaches_pool reserve configure g w s1 p1 db1 s2"
    using refill_tenants_reaches [of reserve w now _ _ s1 g fs p1 db1 configure] assms(1,2)
    by (auto simp: refillAll_def s1_def w_def)
  with step show ?thesis
    by (intro exI [where x = s2]) (auto simp: reaches_pool_def s1_def intro: converse_rtranclp_into_rtranclp)
qed

theorem Refresh_refines_steps_witness:
  "\<exists>s'. (gateway_step ReserveRequestQuota quota_configure)\<^sup>*\<^sup>*
       (acme_gateways acme_db [[]] [] 0 0 9) s' \<and> gw_pools s' = [acme_pool 1]"
proof -
  have run: "Refresh (\<lambda>db. Inr (RequestQuotaPolicies db)) ReserveRequestQuota
      (gw_pools (acme_gateways acme_db [[]] [] 0 0 9) ! 0)
      (gw_db (acme_gateways acme_db [[]] [] 0 0 9)) Second = (Inr [], acme_pool 1, one_minute_db ''acme'' 1)"
    by (simp add: Refresh_def RequestQuotaPolicies_def acme_gateways_def one_minute_db_def example_quota_def
        policy_state_def move_window_def zero_tenant_state_def acme_state_def refillAll_def refill_def
        refill_begin_def refill_finish_def refillThreshold_def leaseSize_def quot_def time_sub_def
        max_i64_def min_i64_def time_truncate_def ReserveRequestQuota_def reserve_tx_def ensure_window_def
        grant_size_def i64_def int4_def drop_windows_def commit_tx_def Let_def)
  show ?thesis
    using Refresh_refines_steps [OF _ _ run, of quota_configure]
    by (auto simp: acme_gateways_def time_truncate_def)
qed

end
