(* ===== verification/Admission.thy ===== *)
theory Admission
  imports Prelude "HOL-Library.AList"
begin

text \<open>
  The gateway's in-memory admission control (\<open>internal/admission/pool.go\<close>): a concurrency limit and
  a bounded queue per endpoint.

  The pool's map holds pointers to endpoint states, and leases and queued requests keep their
  pointer after a policy reload has dropped the key; so the states live in a heap (\<open>ap_heap\<close>, a list
  indexed by the pointer) and the map \<open>ap_states\<close> holds pointers. The \<open>notify\<close> channel is the number
  of times it has been closed and replaced: a request blocked on generation \<open>n\<close> is woken once the
  state's generation is larger.

  \<open>Acquire\<close> runs as separate critical sections: \<open>acquire_begin\<close>, one \<open>acquire_retry\<close> per turn of the
  waiting loop, and \<open>removeWaiter\<close> when the context or the timer ends the wait. The relation
  \<open>admission_step\<close> interleaves them with reloads and releases.
\<close>


section \<open>State\<close>

record admission_policy =
  ap_Key :: string
  ap_MaxConcurrency :: int
  ap_MaxQueueDepth :: int
  ap_QueueTimeout :: duration
  ap_RequestTimeout :: duration
  ap_MaxRequestBytes :: int
  ap_MaxOutputTokens :: int
  ap_AllowedPriorities :: "string list"
  ap_Enabled :: bool
  ap_RetryBudget :: int

record admission_request =
  ar_Key :: string
  ar_Priority :: string
  ar_RequestBytes :: int
  ar_OutputTokens :: int

record endpoint_state =
  es_policy :: admission_policy
  es_active :: int
  es_waiting :: int
  es_rejected :: int
  es_queueTimeouts :: int
  es_notify :: nat

record admission_pool =
  ap_states :: "(string \<times> nat) list"
  ap_heap :: "endpoint_state list"

record admission_state =
  as_CapacityState :: string
  as_Scope :: string
  as_Active :: int
  as_Waiting :: int
  as_MaxConcurrent :: int
  as_MaxQueueDepth :: int
  as_Rejected :: int
  as_QueueTimeouts :: int

datatype admission_error =
  ErrConcurrency | ErrQueueTimeout | ErrRequestSize | ErrOutputLimit | ErrPriority


section \<open>Publishing policies\<close>

definition admission_new :: admission_pool where
  "admission_new = \<lparr>ap_states = [], ap_heap = []\<rparr>"

definition policy_usable :: "admission_policy \<Rightarrow> bool" where
  "policy_usable policy \<longleftrightarrow>
     \<not> (ap_Key policy = '''' \<or> ap_MaxConcurrency policy < 1 \<or> ap_MaxQueueDepth policy < 0 \<or>
        ap_QueueTimeout policy \<le> 0 \<or> ap_MaxRequestBytes policy < 1 \<or> ap_MaxOutputTokens policy < 1)"

text \<open>The copied set of priorities has the same members.\<close>

definition clonePolicy :: "admission_policy \<Rightarrow> admission_policy" where
  "clonePolicy policy = policy\<lparr>ap_AllowedPriorities := remdups (ap_AllowedPriorities policy)\<rparr>"

definition fresh_state :: "admission_policy \<Rightarrow> endpoint_state" where
  "fresh_state policy =
     \<lparr>es_policy = policy, es_active = 0, es_waiting = 0, es_rejected = 0, es_queueTimeouts = 0,
      es_notify = 0\<rparr>"

text \<open>
  The loop of \<open>Replace\<close>: the pointer of a key is looked up in the old map, so a key that occurs
  twice in the new policies and not in the old map gets two states, the later one published.
\<close>

fun replace_loop ::
  "(string \<times> nat) list \<Rightarrow> admission_policy list \<Rightarrow> (string \<times> nat) list \<Rightarrow> endpoint_state list \<Rightarrow>
   admission_pool" where
  "replace_loop old [] next heap = \<lparr>ap_states = next, ap_heap = heap\<rparr>"
| "replace_loop old (policy # rest) next heap =
     (if \<not> policy_usable policy then replace_loop old rest next heap
      else case map_of old (ap_Key policy) of
             None \<Rightarrow>
               replace_loop old rest (AList.update (ap_Key policy) (length heap) next)
                 (heap @ [fresh_state (clonePolicy policy)])
           | Some r \<Rightarrow>
               replace_loop old rest (AList.update (ap_Key policy) r next)
                 (heap[r := (heap ! r)\<lparr>es_policy := clonePolicy policy\<rparr>]))"

definition Replace :: "admission_pool \<Rightarrow> admission_policy list \<Rightarrow> admission_pool" where
  "Replace p policies = replace_loop (ap_states p) policies [] (ap_heap p)"

definition admission_Refresh ::
  "admission_pool \<Rightarrow> (string + admission_policy list) option \<Rightarrow> string option \<times> admission_pool" where
  "admission_Refresh p source =
     (case source of
        None \<Rightarrow> (Some ''admission policy source is required'', p)
      | Some (Inl e) \<Rightarrow> (Some e, p)
      | Some (Inr policies) \<Rightarrow> (None, Replace p policies))"


section \<open>Acquire and release\<close>

datatype acquire_outcome =
  Unlimited
| Rejected admission_error
| Leased nat
| Queued nat

definition set_endpoint :: "nat \<Rightarrow> endpoint_state \<Rightarrow> admission_pool \<Rightarrow> admission_pool" where
  "set_endpoint r st p = p\<lparr>ap_heap := (ap_heap p)[r := st]\<rparr>"

definition reject_endpoint :: "nat \<Rightarrow> admission_pool \<Rightarrow> admission_pool" where
  "reject_endpoint r p =
     set_endpoint r ((ap_heap p ! r)\<lparr>es_rejected := u64 (es_rejected (ap_heap p ! r) + 1)\<rparr>) p"

definition effective_priority :: "admission_request \<Rightarrow> string" where
  "effective_priority request =
     (if ar_Priority request = '''' then ''normal'' else ar_Priority request)"

definition acquire_begin ::
  "admission_pool option \<Rightarrow> admission_request \<Rightarrow> acquire_outcome \<times> admission_pool option" where
  "acquire_begin pool request =
     (case pool of
        None \<Rightarrow> (Unlimited, None)
      | Some p \<Rightarrow>
          (case map_of (ap_states p) (ar_Key request) of
             None \<Rightarrow> (Unlimited, Some p)
           | Some r \<Rightarrow>
               (let state = ap_heap p ! r; policy = es_policy state
                in if \<not> ap_Enabled policy then (Unlimited, Some p)
                   else if ar_RequestBytes request > ap_MaxRequestBytes policy
                   then (Rejected ErrRequestSize, Some (reject_endpoint r p))
                   else if ar_OutputTokens request > ap_MaxOutputTokens policy
                   then (Rejected ErrOutputLimit, Some (reject_endpoint r p))
                   else if effective_priority request \<notin> set (ap_AllowedPriorities policy)
                   then (Rejected ErrPriority, Some (reject_endpoint r p))
                   else if es_active state < ap_MaxConcurrency policy
                   then (Leased r, Some (set_endpoint r (state\<lparr>es_active := i64 (es_active state + 1)\<rparr>) p))
                   else if es_waiting state \<ge> ap_MaxQueueDepth policy
                   then (Rejected ErrConcurrency, Some (reject_endpoint r p))
                   else (Queued r, Some (set_endpoint r (state\<lparr>es_waiting := i64 (es_waiting state + 1)\<rparr>) p)))))"

datatype retry_outcome = GoUnlimited | GoLeased | Block nat

definition acquire_retry ::
  "admission_pool \<Rightarrow> string \<Rightarrow> nat \<Rightarrow> retry_outcome \<times> admission_pool" where
  "acquire_retry p key r =
     (let state = ap_heap p ! r
      in if map_of (ap_states p) key \<noteq> Some r \<or> \<not> ap_Enabled (es_policy state)
         then (GoUnlimited, set_endpoint r (state\<lparr>es_waiting := i64 (es_waiting state - 1)\<rparr>) p)
         else if es_active state < ap_MaxConcurrency (es_policy state)
         then (GoLeased, set_endpoint r (state\<lparr>es_waiting := i64 (es_waiting state - 1),
                                              es_active := i64 (es_active state + 1)\<rparr>) p)
         else (Block (es_notify state), p))"

definition removeWaiter :: "admission_pool \<Rightarrow> nat \<Rightarrow> admission_pool" where
  "removeWaiter p r =
     (let state = ap_heap p ! r
      in if es_waiting state > 0
         then set_endpoint r (state\<lparr>es_waiting := i64 (es_waiting state - 1)\<rparr>) p else p)"

definition count_timeout :: "admission_pool \<Rightarrow> nat \<Rightarrow> admission_pool" where
  "count_timeout p r =
     (let state = ap_heap p ! r
      in set_endpoint r (state\<lparr>es_rejected := u64 (es_rejected state + 1),
                              es_queueTimeouts := u64 (es_queueTimeouts state + 1)\<rparr>) p)"

text \<open>The body of the function \<open>release\<close> returns, guarded by \<open>sync.Once\<close>.\<close>

definition release :: "admission_pool \<Rightarrow> nat \<Rightarrow> admission_pool" where
  "release p r =
     (let state = ap_heap p ! r;
          state = (if es_active state > 0 then state\<lparr>es_active := i64 (es_active state - 1)\<rparr> else state)
      in set_endpoint r (state\<lparr>es_notify := Suc (es_notify state)\<rparr>) p)"


section \<open>Observation\<close>

definition enabled_state :: "admission_pool option \<Rightarrow> string \<Rightarrow> endpoint_state option" where
  "enabled_state pool key =
     (case pool of
        None \<Rightarrow> None
      | Some p \<Rightarrow>
          (case map_of (ap_states p) key of
             None \<Rightarrow> None
           | Some r \<Rightarrow> if ap_Enabled (es_policy (ap_heap p ! r)) then Some (ap_heap p ! r) else None))"

definition capacity_state :: "endpoint_state \<Rightarrow> string" where
  "capacity_state state =
     (let busy = es_active state \<ge> ap_MaxConcurrency (es_policy state);
          capacity = (if busy then ''queueing'' else ''accepting'')
      in if busy \<and> es_waiting state \<ge> ap_MaxQueueDepth (es_policy state) then ''saturated'' else capacity)"

definition admission_State :: "admission_pool option \<Rightarrow> string \<Rightarrow> admission_state option" where
  "admission_State pool key =
     map_option (\<lambda>state.
       \<lparr>as_CapacityState = capacity_state state, as_Scope = ''gateway_instance'',
        as_Active = es_active state, as_Waiting = es_waiting state,
        as_MaxConcurrent = ap_MaxConcurrency (es_policy state),
        as_MaxQueueDepth = ap_MaxQueueDepth (es_policy state),
        as_Rejected = es_rejected state, as_QueueTimeouts = es_queueTimeouts state\<rparr>)
       (enabled_state pool key)"

definition RetryBudget :: "admission_pool option \<Rightarrow> string \<Rightarrow> int" where
  "RetryBudget pool key =
     (case enabled_state pool key of None \<Rightarrow> 0 | Some state \<Rightarrow> ap_RetryBudget (es_policy state))"

definition RequestTimeout :: "admission_pool option \<Rightarrow> string \<Rightarrow> duration" where
  "RequestTimeout pool key =
     (case enabled_state pool key of None \<Rightarrow> 0 | Some state \<Rightarrow> ap_RequestTimeout (es_policy state))"

fun aggregate_loop ::
  "endpoint_state list \<Rightarrow> int \<times> int \<times> int \<times> int \<Rightarrow> int \<times> int \<times> int \<times> int" where
  "aggregate_loop [] acc = acc"
| "aggregate_loop (state # rest) (active, waiting, rejected, queueTimeouts) =
     (if \<not> ap_Enabled (es_policy state)
      then aggregate_loop rest (active, waiting, rejected, queueTimeouts)
      else aggregate_loop rest (i64 (active + es_active state), i64 (waiting + es_waiting state),
             u64 (rejected + es_rejected state), u64 (queueTimeouts + es_queueTimeouts state)))"

definition metric_lines :: "string \<Rightarrow> string \<Rightarrow> int \<Rightarrow> string" where
  "metric_lines name kind v =
     ''# TYPE '' @ name @ '' '' @ kind @ [CHR 0x0A] @ name @ '' '' @ itoa v @ [CHR 0x0A]"

definition admission_WritePrometheus :: "admission_pool option \<Rightarrow> string" where
  "admission_WritePrometheus pool =
     (case pool of
        None \<Rightarrow> ''''
      | Some p \<Rightarrow>
          (case aggregate_loop (map (\<lambda>(_, r). ap_heap p ! r) (ap_states p)) (0, 0, 0, 0) of
             (active, waiting, rejected, queueTimeouts) \<Rightarrow>
               metric_lines ''infercrane_admission_active'' ''gauge'' active @
               metric_lines ''infercrane_admission_waiting'' ''gauge'' waiting @
               metric_lines ''infercrane_admission_rejected_total'' ''counter'' rejected @
               metric_lines ''infercrane_admission_queue_timeouts_total'' ''counter'' queueTimeouts))"

section \<open>Requests, leases and reloads interleaved\<close>

text \<open>
  Besides the pool the system knows the unreleased leases, the queued requests (each with the
  channel generation it is blocked on and the limit it saw when it blocked) and the requests whose
  timeout is not yet counted.
\<close>

record waiter =
  wt_key :: string
  wt_ref :: nat
  wt_blocked :: "(nat \<times> int) option"

record admission_system =
  sy_pool :: admission_pool
  sy_leases :: "nat list"
  sy_waiters :: "waiter list"
  sy_timedout :: "nat list"

definition waiter_ready :: "admission_pool \<Rightarrow> waiter \<Rightarrow> bool" where
  "waiter_ready p w = (case wt_blocked w of None \<Rightarrow> True | Some (g, _) \<Rightarrow> g < es_notify (ap_heap p ! wt_ref w))"

inductive admission_step :: "(admission_policy \<Rightarrow> bool) \<Rightarrow> admission_system \<Rightarrow> admission_system \<Rightarrow> bool"
  for allowed where
  ad_replace: "\<forall>policy \<in> set policies. allowed policy \<Longrightarrow>
    admission_step allowed s (s\<lparr>sy_pool := Replace (sy_pool s) policies\<rparr>)"
| ad_answer: "acquire_begin (Some (sy_pool s)) request = (res, Some p') \<Longrightarrow>
    res = Unlimited \<or> (\<exists>e. res = Rejected e) \<Longrightarrow>
    admission_step allowed s (s\<lparr>sy_pool := p'\<rparr>)"
| ad_lease: "acquire_begin (Some (sy_pool s)) request = (Leased r, Some p') \<Longrightarrow>
    admission_step allowed s (s\<lparr>sy_pool := p', sy_leases := sy_leases s @ [r]\<rparr>)"
| ad_queue: "acquire_begin (Some (sy_pool s)) request = (Queued r, Some p') \<Longrightarrow>
    admission_step allowed s (s\<lparr>sy_pool := p',
      sy_waiters := sy_waiters s @ [\<lparr>wt_key = ar_Key request, wt_ref = r, wt_blocked = None\<rparr>]\<rparr>)"
| ad_go_unlimited: "i < length (sy_waiters s) \<Longrightarrow> sy_waiters s ! i = w \<Longrightarrow> waiter_ready (sy_pool s) w \<Longrightarrow>
    acquire_retry (sy_pool s) (wt_key w) (wt_ref w) = (GoUnlimited, p') \<Longrightarrow>
    admission_step allowed s (s\<lparr>sy_pool := p', sy_waiters := drop_nth i (sy_waiters s)\<rparr>)"
| ad_go_leased: "i < length (sy_waiters s) \<Longrightarrow> sy_waiters s ! i = w \<Longrightarrow> waiter_ready (sy_pool s) w \<Longrightarrow>
    acquire_retry (sy_pool s) (wt_key w) (wt_ref w) = (GoLeased, p') \<Longrightarrow>
    admission_step allowed s (s\<lparr>sy_pool := p', sy_waiters := drop_nth i (sy_waiters s),
      sy_leases := sy_leases s @ [wt_ref w]\<rparr>)"
| ad_block: "i < length (sy_waiters s) \<Longrightarrow> sy_waiters s ! i = w \<Longrightarrow> waiter_ready (sy_pool s) w \<Longrightarrow>
    acquire_retry (sy_pool s) (wt_key w) (wt_ref w) = (Block g, p') \<Longrightarrow>
    limit = ap_MaxConcurrency (es_policy (ap_heap (sy_pool s) ! wt_ref w)) \<Longrightarrow>
    admission_step allowed s (s\<lparr>sy_pool := p',
      sy_waiters := (sy_waiters s)[i := w\<lparr>wt_blocked := Some (g, limit)\<rparr>]\<rparr>)"
| ad_cancel: "i < length (sy_waiters s) \<Longrightarrow> sy_waiters s ! i = w \<Longrightarrow>
    admission_step allowed s (s\<lparr>sy_pool := removeWaiter (sy_pool s) (wt_ref w),
      sy_waiters := drop_nth i (sy_waiters s)\<rparr>)"
| ad_timeout: "i < length (sy_waiters s) \<Longrightarrow> sy_waiters s ! i = w \<Longrightarrow>
    admission_step allowed s (s\<lparr>sy_pool := removeWaiter (sy_pool s) (wt_ref w),
      sy_waiters := drop_nth i (sy_waiters s), sy_timedout := sy_timedout s @ [wt_ref w]\<rparr>)"
| ad_count: "i < length (sy_timedout s) \<Longrightarrow>
    admission_step allowed s (s\<lparr>sy_pool := count_timeout (sy_pool s) (sy_timedout s ! i),
      sy_timedout := drop_nth i (sy_timedout s)\<rparr>)"
| ad_release: "i < length (sy_leases s) \<Longrightarrow>
    admission_step allowed s (s\<lparr>sy_pool := release (sy_pool s) (sy_leases s ! i),
      sy_leases := drop_nth i (sy_leases s)\<rparr>)"

inductive admission_reachable :: "(admission_policy \<Rightarrow> bool) \<Rightarrow> admission_system \<Rightarrow> bool"
  for allowed where
  ad_start: "admission_reachable allowed
    \<lparr>sy_pool = admission_new, sy_leases = [], sy_waiters = [], sy_timedout = []\<rparr>"
| ad_next: "admission_reachable allowed s \<Longrightarrow> admission_step allowed s s' \<Longrightarrow> admission_reachable allowed s'"


subsection \<open>The invariant\<close>

definition leased :: "admission_system \<Rightarrow> nat \<Rightarrow> int" where
  "leased s r = int (count_list (sy_leases s) r)"

definition queued :: "admission_system \<Rightarrow> nat \<Rightarrow> int" where
  "queued s r = int (count_list (map wt_ref (sy_waiters s)) r)"

definition policy_within :: "int \<Rightarrow> int \<Rightarrow> admission_policy \<Rightarrow> bool" where
  "policy_within N Q policy \<longleftrightarrow> ap_MaxConcurrency policy \<le> N \<and> ap_MaxQueueDepth policy \<le> Q"

definition endpoint_ok :: "int \<Rightarrow> int \<Rightarrow> endpoint_state \<Rightarrow> int \<Rightarrow> int \<Rightarrow> bool" where
  "endpoint_ok N Q st l q \<longleftrightarrow>
     es_active st = l \<and> es_waiting st = q \<and> l \<le> N \<and> q \<le> Q \<and> policy_within N Q (es_policy st)"

definition wake_ok :: "endpoint_state list \<Rightarrow> waiter \<Rightarrow> bool" where
  "wake_ok heap w \<longleftrightarrow>
     (case wt_blocked w of None \<Rightarrow> True
      | Some (g, limit) \<Rightarrow> g \<le> es_notify (heap ! wt_ref w) \<and>
          (g = es_notify (heap ! wt_ref w) \<longrightarrow> limit \<le> es_active (heap ! wt_ref w)))"

definition refs_ok :: "admission_system \<Rightarrow> bool" where
  "refs_ok s \<longleftrightarrow>
     (let n = length (ap_heap (sy_pool s))
      in (\<forall>k r. map_of (ap_states (sy_pool s)) k = Some r \<longrightarrow> r < n) \<and>
         (\<forall>r \<in> set (sy_leases s). r < n) \<and> (\<forall>w \<in> set (sy_waiters s). wt_ref w < n) \<and>
         (\<forall>r \<in> set (sy_timedout s). r < n))"

definition admission_inv :: "int \<Rightarrow> int \<Rightarrow> admission_system \<Rightarrow> bool" where
  "admission_inv N Q s \<longleftrightarrow>
     0 \<le> N \<and> N \<le> max_i64 \<and> 0 \<le> Q \<and> Q \<le> max_i64 \<and> refs_ok s \<and>
     (\<forall>r < length (ap_heap (sy_pool s)).
        endpoint_ok N Q (ap_heap (sy_pool s) ! r) (leased s r) (queued s r)) \<and>
     (\<forall>w \<in> set (sy_waiters s). wake_ok (ap_heap (sy_pool s)) w)"

lemma leased_nonneg [simp]: "0 \<le> leased s r"
  by (simp add: leased_def)

lemma queued_nonneg [simp]: "0 \<le> queued s r"
  by (simp add: queued_def)

text \<open>A step that rewrites one endpoint state keeps the invariant if that state does.\<close>

lemma admission_inv_set:
  assumes inv: "admission_inv N Q s" and r: "r < length (ap_heap (sy_pool s))"
    and s': "ap_heap (sy_pool s') = (ap_heap (sy_pool s))[r := st]"
      "ap_states (sy_pool s') = ap_states (sy_pool s)"
    and refs: "refs_ok s'"
    and here: "endpoint_ok N Q st (leased s' r) (queued s' r)"
    and others: "\<And>r'. r' \<noteq> r \<Longrightarrow> leased s' r' = leased s r' \<and> queued s' r' = queued s r'"
    and wake: "\<And>w. w \<in> set (sy_waiters s') \<Longrightarrow> wake_ok ((ap_heap (sy_pool s))[r := st]) w"
  shows "admission_inv N Q s'"
  using assms by (auto simp: admission_inv_def nth_list_update)

lemma wake_ok_mono:
  assumes "wake_ok heap w" "wt_ref w < length heap"
    and "es_notify (heap ! r) < es_notify st \<or>
         es_notify st = es_notify (heap ! r) \<and> es_active (heap ! r) \<le> es_active st"
  shows "wake_ok (heap[r := st]) w"
  using assms by (cases "r = wt_ref w") (auto simp: wake_ok_def split: option.splits)

lemma refs_okD:
  assumes "refs_ok s"
  shows "map_of (ap_states (sy_pool s)) k = Some r \<Longrightarrow> r < length (ap_heap (sy_pool s))"
    and "i < length (sy_leases s) \<Longrightarrow> sy_leases s ! i < length (ap_heap (sy_pool s))"
    and "i < length (sy_waiters s) \<Longrightarrow> wt_ref (sy_waiters s ! i) < length (ap_heap (sy_pool s))"
    and "i < length (sy_timedout s) \<Longrightarrow> sy_timedout s ! i < length (ap_heap (sy_pool s))"
  using assms by (auto simp: refs_ok_def Let_def)

lemma admission_invD:
  assumes "admission_inv N Q s" "r < length (ap_heap (sy_pool s))"
  shows "es_active (ap_heap (sy_pool s) ! r) = leased s r"
    "es_waiting (ap_heap (sy_pool s) ! r) = queued s r"
    "leased s r \<le> N" "queued s r \<le> Q" "policy_within N Q (es_policy (ap_heap (sy_pool s) ! r))"
  using assms by (auto simp: admission_inv_def endpoint_ok_def)

subsection \<open>Reloading policies\<close>

text \<open>
  A reload keeps every existing state except its policy; what it adds is idle. In particular it
  closes no channel.
\<close>

definition same_counts :: "endpoint_state \<Rightarrow> endpoint_state \<Rightarrow> bool" where
  "same_counts a b \<longleftrightarrow> es_active a = es_active b \<and> es_waiting a = es_waiting b \<and> es_notify a = es_notify b"

definition reload_ok ::
  "int \<Rightarrow> int \<Rightarrow> endpoint_state list \<Rightarrow> (string \<times> nat) list \<Rightarrow> endpoint_state list \<Rightarrow> bool" where
  "reload_ok N Q heap0 next heap \<longleftrightarrow>
     length heap0 \<le> length heap \<and> (\<forall>k r. map_of next k = Some r \<longrightarrow> r < length heap) \<and>
     (\<forall>r < length heap. policy_within N Q (es_policy (heap ! r))) \<and>
     (\<forall>r < length heap0. same_counts (heap ! r) (heap0 ! r)) \<and>
     (\<forall>r < length heap. length heap0 \<le> r \<longrightarrow> es_active (heap ! r) = 0 \<and> es_waiting (heap ! r) = 0)"

lemma reload_ok_fresh:
  assumes "reload_ok N Q heap0 next heap" "policy_within N Q policy"
  shows "reload_ok N Q heap0 (AList.update k (length heap) next) (heap @ [fresh_state policy])"
  using assms unfolding reload_ok_def
  by (auto simp: update_conv' nth_append fresh_state_def less_Suc_eq split: if_splits)

lemma reload_ok_policy:
  assumes "reload_ok N Q heap0 next heap" "policy_within N Q policy" "r < length heap"
  shows "reload_ok N Q heap0 (AList.update k r next) (heap[r := (heap ! r)\<lparr>es_policy := policy\<rparr>])"
  using assms unfolding reload_ok_def
  by (auto simp: update_conv' nth_list_update same_counts_def split: if_splits)

lemma replace_loop_ok:
  "\<forall>policy \<in> set policies. policy_within N Q policy \<Longrightarrow> reload_ok N Q heap0 next heap \<Longrightarrow>
   \<forall>k r. map_of old k = Some r \<longrightarrow> r < length heap0 \<Longrightarrow>
   reload_ok N Q heap0 (ap_states (replace_loop old policies next heap))
     (ap_heap (replace_loop old policies next heap))"
proof (induction old policies "next" heap rule: replace_loop.induct)
  case (2 old policy rest "next" heap)
  have within: "policy_within N Q (clonePolicy policy)"
    using 2(4) by (simp add: policy_within_def clonePolicy_def)
  show ?case
  proof (cases "policy_usable policy")
    case False
    then show ?thesis using 2 by simp
  next
    case usable: True
    show ?thesis
    proof (cases "map_of old (ap_Key policy)")
      case None
      then show ?thesis
        using usable 2(2) [OF _ None] reload_ok_fresh [OF 2(5) within] 2(4,6) by simp
    next
      case (Some r)
      then have "r < length heap" using 2(5,6) by (meson less_le_trans reload_ok_def)
      then show ?thesis
        using usable 2(3) [OF _ Some] reload_ok_policy [OF 2(5) within] 2(4,6) Some by simp
    qed
  qed
qed simp

lemma admission_inv_replace:
  assumes inv: "admission_inv N Q s" and pol: "\<forall>policy \<in> set policies. policy_within N Q policy"
  shows "admission_inv N Q (s\<lparr>sy_pool := Replace (sy_pool s) policies\<rparr>)"
proof -
  let ?h = "ap_heap (sy_pool s)" and ?p = "Replace (sy_pool s) policies"
  have refs: "refs_ok s" using inv by (simp add: admission_inv_def)
  have "reload_ok N Q ?h [] ?h"
    using inv by (simp add: reload_ok_def same_counts_def admission_inv_def endpoint_ok_def)
  from replace_loop_ok [OF pol this, of "ap_states (sy_pool s)"] refs
  have ok: "reload_ok N Q ?h (ap_states ?p) (ap_heap ?p)"
    by (simp add: Replace_def refs_ok_def Let_def)
  have cnt: "leased (s\<lparr>sy_pool := ?p\<rparr>) r = leased s r" "queued (s\<lparr>sy_pool := ?p\<rparr>) r = queued s r" for r
    by (simp_all add: leased_def queued_def)
  have zero: "leased s r = 0" "queued s r = 0" if "length ?h \<le> r" for r
    using refs that by (force simp: leased_def queued_def refs_ok_def Let_def count_list_0_iff)+
  have ep: "endpoint_ok N Q (ap_heap ?p ! r) (leased s r) (queued s r)"
    if r: "r < length (ap_heap ?p)" for r
  proof (cases "r < length ?h")
    case True
    then have "same_counts (ap_heap ?p ! r) (?h ! r)" using ok by (simp add: reload_ok_def)
    then show ?thesis
      using admission_invD [OF inv True] ok r by (simp add: endpoint_ok_def same_counts_def reload_ok_def)
  next
    case False
    then show ?thesis using ok r zero [of r] inv by (simp add: endpoint_ok_def reload_ok_def admission_inv_def)
  qed
  have wake: "wake_ok (ap_heap ?p) w" if w: "w \<in> set (sy_waiters s)" for w
  proof -
    have "wt_ref w < length ?h" "wake_ok ?h w"
      using inv w refs by (auto simp: admission_inv_def refs_ok_def Let_def)
    moreover from this(1) have "same_counts (ap_heap ?p ! wt_ref w) (?h ! wt_ref w)"
      using ok by (simp add: reload_ok_def)
    ultimately show ?thesis by (auto simp: wake_ok_def same_counts_def split: option.splits)
  qed
  have "refs_ok (s\<lparr>sy_pool := ?p\<rparr>)"
    using refs ok by (auto simp: refs_ok_def reload_ok_def Let_def)
  then show ?thesis using inv ep wake by (simp add: admission_inv_def cnt)
qed


subsection \<open>Every critical section\<close>

lemma inv_small:
  assumes "admission_inv N Q s"
  shows "leased s r < N \<Longrightarrow> i64 (leased s r + 1) = leased s r + 1"
    and "queued s r < Q \<Longrightarrow> i64 (queued s r + 1) = queued s r + 1"
    and "0 < x \<Longrightarrow> x \<le> N \<or> x \<le> Q \<Longrightarrow> i64 (x - 1) = x - 1"
  using assms by (auto simp: admission_inv_def is_i64_def min_i64_def max_i64_def intro!: i64_id
      intro: add_nonneg_nonneg order_trans [OF _ leased_nonneg] order_trans [OF _ queued_nonneg])

lemma refs_ok_set: "refs_ok s \<Longrightarrow> refs_ok (s\<lparr>sy_pool := set_endpoint r st (sy_pool s)\<rparr>)"
  by (simp add: refs_ok_def set_endpoint_def)

lemma count_simps:
  "leased (s\<lparr>sy_pool := p\<rparr>) r = leased s r" "queued (s\<lparr>sy_pool := p\<rparr>) r = queued s r"
  "leased (s\<lparr>sy_leases := sy_leases s @ [r']\<rparr>) r = leased s r + (if r' = r then 1 else 0)"
  "queued (s\<lparr>sy_leases := ls\<rparr>) r = queued s r" "leased (s\<lparr>sy_waiters := ws\<rparr>) r = leased s r"
  "queued (s\<lparr>sy_waiters := sy_waiters s @ [w]\<rparr>) r = queued s r + (if wt_ref w = r then 1 else 0)"
  "leased (s\<lparr>sy_timedout := ts\<rparr>) r = leased s r" "queued (s\<lparr>sy_timedout := ts\<rparr>) r = queued s r"
  by (simp_all add: leased_def queued_def)

lemma count_drop:
  "i < length (sy_leases s) \<Longrightarrow>
     leased (s\<lparr>sy_leases := drop_nth i (sy_leases s)\<rparr>) r = leased s r - (if sy_leases s ! i = r then 1 else 0)"
  "i < length (sy_waiters s) \<Longrightarrow>
     queued (s\<lparr>sy_waiters := drop_nth i (sy_waiters s)\<rparr>) r =
       queued s r - (if wt_ref (sy_waiters s ! i) = r then 1 else 0)"
  by (simp_all add: leased_def queued_def count_list_drop_nth map_drop_nth)

text \<open>A lease or a queued request is counted, so the guards against negative counters never fail.\<close>

lemma leased_pos: "i < length (sy_leases s) \<Longrightarrow> 0 < leased s (sy_leases s ! i)"
  by (metis count_list_0_iff leased_def nth_mem of_nat_0_less_iff bot_nat_0.not_eq_extremum)

lemma queued_pos: "i < length (sy_waiters s) \<Longrightarrow> 0 < queued s (wt_ref (sy_waiters s ! i))"
  unfolding queued_def
  by (metis count_list_0_iff length_map nth_map nth_mem of_nat_0_less_iff bot_nat_0.not_eq_extremum)

lemma acquire_begin_Leased:
  assumes "acquire_begin (Some p) request = (Leased r, Some p')"
  shows "map_of (ap_states p) (ar_Key request) = Some r" "ap_Enabled (es_policy (ap_heap p ! r))"
    "es_active (ap_heap p ! r) < ap_MaxConcurrency (es_policy (ap_heap p ! r))"
    "p' = set_endpoint r ((ap_heap p ! r)\<lparr>es_active := i64 (es_active (ap_heap p ! r) + 1)\<rparr>) p"
  using assms by (auto simp: acquire_begin_def Let_def split: option.splits if_splits)

lemma acquire_begin_Queued:
  assumes "acquire_begin (Some p) request = (Queued r, Some p')"
  shows "map_of (ap_states p) (ar_Key request) = Some r" "ap_Enabled (es_policy (ap_heap p ! r))"
    "es_active (ap_heap p ! r) \<ge> ap_MaxConcurrency (es_policy (ap_heap p ! r))"
    "es_waiting (ap_heap p ! r) < ap_MaxQueueDepth (es_policy (ap_heap p ! r))"
    "p' = set_endpoint r ((ap_heap p ! r)\<lparr>es_waiting := i64 (es_waiting (ap_heap p ! r) + 1)\<rparr>) p"
  using assms by (auto simp: acquire_begin_def Let_def split: option.splits if_splits)

lemma acquire_begin_answer:
  assumes "acquire_begin (Some p) request = (res, Some p')" "res = Unlimited \<or> (\<exists>e. res = Rejected e)"
  shows "p' = p \<or> (\<exists>r. map_of (ap_states p) (ar_Key request) = Some r \<and> p' = reject_endpoint r p)"
  using assms by (auto simp: acquire_begin_def Let_def split: option.splits if_splits)

lemma acquire_retry_cases:
  "acquire_retry p key r = (GoUnlimited, p') \<Longrightarrow>
     p' = set_endpoint r ((ap_heap p ! r)\<lparr>es_waiting := i64 (es_waiting (ap_heap p ! r) - 1)\<rparr>) p"
  "acquire_retry p key r = (GoLeased, p') \<Longrightarrow>
     es_active (ap_heap p ! r) < ap_MaxConcurrency (es_policy (ap_heap p ! r)) \<and>
     p' = set_endpoint r ((ap_heap p ! r)\<lparr>es_waiting := i64 (es_waiting (ap_heap p ! r) - 1),
                          es_active := i64 (es_active (ap_heap p ! r) + 1)\<rparr>) p"
  "acquire_retry p key r = (Block g, p') \<Longrightarrow>
     p' = p \<and> g = es_notify (ap_heap p ! r) \<and>
     ap_MaxConcurrency (es_policy (ap_heap p ! r)) \<le> es_active (ap_heap p ! r)"
  by (auto simp: acquire_retry_def Let_def split: if_splits)

lemma inv_wake:
  assumes "admission_inv N Q s" "w \<in> set (sy_waiters s)"
    and "es_notify (ap_heap (sy_pool s) ! r) < es_notify st \<or>
         es_notify st = es_notify (ap_heap (sy_pool s) ! r) \<and>
         es_active (ap_heap (sy_pool s) ! r) \<le> es_active st"
  shows "wake_ok ((ap_heap (sy_pool s))[r := st]) w"
  using assms by (intro wake_ok_mono) (auto simp: admission_inv_def refs_ok_def Let_def)

lemma inv_answer:
  assumes inv: "admission_inv N Q s" and r: "r < length (ap_heap (sy_pool s))"
    and st: "es_active st = es_active (ap_heap (sy_pool s) ! r)"
      "es_waiting st = es_waiting (ap_heap (sy_pool s) ! r)"
      "es_policy st = es_policy (ap_heap (sy_pool s) ! r)"
      "es_notify st = es_notify (ap_heap (sy_pool s) ! r)"
    and ts: "set ts \<subseteq> set (sy_timedout s)"
  shows "admission_inv N Q (s\<lparr>sy_pool := set_endpoint r st (sy_pool s), sy_timedout := ts\<rparr>)"
proof (rule admission_inv_set [OF inv r])
  show "refs_ok (s\<lparr>sy_pool := set_endpoint r st (sy_pool s), sy_timedout := ts\<rparr>)"
    using inv ts by (auto simp: admission_inv_def refs_ok_def set_endpoint_def Let_def)
  show "endpoint_ok N Q st (leased (s\<lparr>sy_pool := set_endpoint r st (sy_pool s), sy_timedout := ts\<rparr>) r)
     (queued (s\<lparr>sy_pool := set_endpoint r st (sy_pool s), sy_timedout := ts\<rparr>) r)"
    using admission_invD [OF inv r] st by (simp add: endpoint_ok_def leased_def queued_def)
  show "wake_ok ((ap_heap (sy_pool s))[r := st]) w"
    if "w \<in> set (sy_waiters (s\<lparr>sy_pool := set_endpoint r st (sy_pool s), sy_timedout := ts\<rparr>))" for w
    using that st by (intro inv_wake [OF inv]) auto
qed (simp_all add: set_endpoint_def leased_def queued_def)

lemma inv_lease:
  assumes inv: "admission_inv N Q s" and b: "acquire_begin (Some (sy_pool s)) request = (Leased r, Some p')"
  shows "admission_inv N Q (s\<lparr>sy_pool := p', sy_leases := sy_leases s @ [r]\<rparr>)" (is "admission_inv N Q ?s")
proof (rule admission_inv_set [OF inv])
  note B = acquire_begin_Leased [OF b]
  have refs: "refs_ok s" using inv by (simp add: admission_inv_def)
  show r: "r < length (ap_heap (sy_pool s))" using refs_okD(1) [OF refs B(1)] .
  note I = admission_invD [OF inv r]
  have lt: "leased s r < N" using B(3) I(1,5) by (simp add: policy_within_def)
  show "refs_ok ?s" using refs r by (auto simp: refs_ok_def B(4) set_endpoint_def Let_def)
  show "endpoint_ok N Q ((ap_heap (sy_pool s) ! r)\<lparr>es_active := i64 (es_active (ap_heap (sy_pool s) ! r) + 1)\<rparr>)
     (leased ?s r) (queued ?s r)"
    using I lt inv_small(1) [OF inv lt] by (simp add: endpoint_ok_def leased_def queued_def)
  show "wake_ok ((ap_heap (sy_pool s))[r := (ap_heap (sy_pool s) ! r)
      \<lparr>es_active := i64 (es_active (ap_heap (sy_pool s) ! r) + 1)\<rparr>]) w"
    if "w \<in> set (sy_waiters ?s)" for w
    using that I inv_small(1) [OF inv lt] by (intro inv_wake [OF inv]) auto
qed (simp_all add: acquire_begin_Leased(4) [OF b] set_endpoint_def leased_def queued_def)

lemma inv_queue:
  assumes inv: "admission_inv N Q s" and b: "acquire_begin (Some (sy_pool s)) request = (Queued r, Some p')"
  shows "admission_inv N Q (s\<lparr>sy_pool := p',
      sy_waiters := sy_waiters s @ [\<lparr>wt_key = key, wt_ref = r, wt_blocked = None\<rparr>]\<rparr>)"
    (is "admission_inv N Q ?s")
proof (rule admission_inv_set [OF inv])
  note B = acquire_begin_Queued [OF b]
  have refs: "refs_ok s" using inv by (simp add: admission_inv_def)
  show r: "r < length (ap_heap (sy_pool s))" using refs_okD(1) [OF refs B(1)] .
  note I = admission_invD [OF inv r]
  have lt: "queued s r < Q" using B(4) I(2,5) by (simp add: policy_within_def)
  show "refs_ok ?s" using refs r by (auto simp: refs_ok_def B(5) set_endpoint_def Let_def)
  show "endpoint_ok N Q ((ap_heap (sy_pool s) ! r)\<lparr>es_waiting := i64 (es_waiting (ap_heap (sy_pool s) ! r) + 1)\<rparr>)
     (leased ?s r) (queued ?s r)"
    using I lt inv_small(2) [OF inv lt] by (simp add: endpoint_ok_def leased_def queued_def)
  show "wake_ok ((ap_heap (sy_pool s))[r := (ap_heap (sy_pool s) ! r)
      \<lparr>es_waiting := i64 (es_waiting (ap_heap (sy_pool s) ! r) + 1)\<rparr>]) w"
    if "w \<in> set (sy_waiters ?s)" for w
  proof (cases "w \<in> set (sy_waiters s)")
    case True
    then show ?thesis by (intro inv_wake [OF inv]) auto
  next
    case False
    with that show ?thesis by (auto simp: wake_ok_def)
  qed
qed (simp_all add: acquire_begin_Queued(5) [OF b] set_endpoint_def leased_def queued_def)

text \<open>A request leaves the queue: given up, let through, or (with \<open>extra\<close> leases) admitted.\<close>

lemma inv_leave:
  assumes inv: "admission_inv N Q s" and i: "i < length (sy_waiters s)" and r: "wt_ref (sy_waiters s ! i) = r"
    and extra: "extra = [] \<or> extra = [r] \<and> leased s r < N"
    and ts: "\<forall>t \<in> set ts. t = r \<or> t \<in> set (sy_timedout s)"
    and p': "p' = set_endpoint r ((ap_heap (sy_pool s) ! r)
        \<lparr>es_waiting := i64 (es_waiting (ap_heap (sy_pool s) ! r) - 1),
         es_active := leased s r + int (length extra)\<rparr>) (sy_pool s)"
  shows "admission_inv N Q (s\<lparr>sy_pool := p', sy_waiters := drop_nth i (sy_waiters s),
     sy_leases := sy_leases s @ extra, sy_timedout := ts\<rparr>)" (is "admission_inv N Q ?s")
proof (rule admission_inv_set [OF inv])
  have refs: "refs_ok s" using inv by (simp add: admission_inv_def)
  show rl: "r < length (ap_heap (sy_pool s))" using refs_okD(3) [OF refs i] r by simp
  note I = admission_invD [OF inv rl]
  have pos: "0 < queued s r" using queued_pos [OF i] r by simp
  have dec: "i64 (queued s r - 1) = queued s r - 1" using pos I(4) by (intro inv_small(3) [OF inv]) auto
  have cnt: "queued ?s r' = queued s r' - (if r = r' then 1 else 0)"
    "leased ?s r' = leased s r' + (if r = r' then int (length extra) else 0)" for r'
    using i r extra by (auto simp: queued_def leased_def map_drop_nth count_list_drop_nth)
  show "refs_ok ?s"
    using refs rl extra ts set_drop_nth [of i "sy_waiters s"]
    by (auto simp: refs_ok_def p' set_endpoint_def Let_def)
  show "endpoint_ok N Q ((ap_heap (sy_pool s) ! r)
        \<lparr>es_waiting := i64 (es_waiting (ap_heap (sy_pool s) ! r) - 1),
         es_active := leased s r + int (length extra)\<rparr>) (leased ?s r) (queued ?s r)"
    using I pos dec extra by (auto simp: endpoint_ok_def cnt)
  show "wake_ok ((ap_heap (sy_pool s))[r := (ap_heap (sy_pool s) ! r)
        \<lparr>es_waiting := i64 (es_waiting (ap_heap (sy_pool s) ! r) - 1),
         es_active := leased s r + int (length extra)\<rparr>]) w"
    if "w \<in> set (sy_waiters ?s)" for w
    using that set_drop_nth [of i "sy_waiters s"] I(1) by (intro inv_wake [OF inv]) auto
  show "leased ?s r' = leased s r' \<and> queued ?s r' = queued s r'" if "r' \<noteq> r" for r'
    using that by (simp add: cnt)
qed (simp_all add: p' set_endpoint_def)

lemma inv_release:
  assumes inv: "admission_inv N Q s" and i: "i < length (sy_leases s)"
  shows "admission_inv N Q (s\<lparr>sy_pool := release (sy_pool s) (sy_leases s ! i),
     sy_leases := drop_nth i (sy_leases s)\<rparr>)" (is "admission_inv N Q ?s")
proof (rule admission_inv_set [OF inv])
  let ?r = "sy_leases s ! i"
  let ?st = "(ap_heap (sy_pool s) ! ?r)\<lparr>es_active := leased s ?r - 1,
      es_notify := Suc (es_notify (ap_heap (sy_pool s) ! ?r))\<rparr>"
  have refs: "refs_ok s" using inv by (simp add: admission_inv_def)
  show rl: "?r < length (ap_heap (sy_pool s))" using refs_okD(2) [OF refs i] .
  note I = admission_invD [OF inv rl]
  have pos: "0 < leased s ?r" by (rule leased_pos [OF i])
  have dec: "i64 (leased s ?r - 1) = leased s ?r - 1" using pos I(3) by (intro inv_small(3) [OF inv]) auto
  show heap: "ap_heap (sy_pool ?s) = (ap_heap (sy_pool s))[?r := ?st]"
    using pos dec I(1) by (simp add: release_def set_endpoint_def Let_def)
  show "ap_states (sy_pool ?s) = ap_states (sy_pool s)" by (simp add: release_def set_endpoint_def Let_def)
  then show "refs_ok ?s"
    using refs set_drop_nth [of i "sy_leases s"] heap by (auto simp: refs_ok_def Let_def)
  have cnt: "leased ?s r' = leased s r' - (if ?r = r' then 1 else 0)" "queued ?s r' = queued s r'" for r'
    using i by (simp_all add: leased_def queued_def count_list_drop_nth)
  show "endpoint_ok N Q ?st (leased ?s ?r) (queued ?s ?r)"
    using I by (auto simp: endpoint_ok_def cnt)
  show "leased ?s r' = leased s r' \<and> queued ?s r' = queued s r'" if "r' \<noteq> ?r" for r'
    using that by (simp add: cnt)
  show "wake_ok ((ap_heap (sy_pool s))[?r := ?st]) w" if "w \<in> set (sy_waiters ?s)" for w
    using that by (intro inv_wake [OF inv]) auto
qed

lemma inv_block:
  assumes inv: "admission_inv N Q s" and i: "i < length (sy_waiters s)" and w: "sy_waiters s ! i = w"
    and b: "acquire_retry (sy_pool s) (wt_key w) (wt_ref w) = (Block g, p')"
    and limit: "limit = ap_MaxConcurrency (es_policy (ap_heap (sy_pool s) ! wt_ref w))"
  shows "admission_inv N Q (s\<lparr>sy_pool := p', sy_waiters := (sy_waiters s)[i := w\<lparr>wt_blocked := Some (g, limit)\<rparr>]\<rparr>)"
    (is "admission_inv N Q ?s")
proof -
  note B = acquire_retry_cases(3) [OF b]
  have "map wt_ref (sy_waiters ?s) = map wt_ref (sy_waiters s)"
    using i w by (simp add: map_update list_update_same_conv)
  then have cnt: "queued ?s r = queued s r" "leased ?s r = leased s r" for r
    by (simp_all add: queued_def leased_def)
  have sub: "set (sy_waiters ?s) \<subseteq> insert (w\<lparr>wt_blocked := Some (g, limit)\<rparr>) (set (sy_waiters s))"
    by (simp add: set_update_subset_insert)
  have "wt_ref w < length (ap_heap (sy_pool s))"
    using inv i w refs_okD(3) by (force simp: admission_inv_def)
  then have "refs_ok ?s" using inv sub B by (fastforce simp: admission_inv_def refs_ok_def Let_def)
  moreover have "wake_ok (ap_heap p') v" if "v \<in> set (sy_waiters ?s)" for v
    using that sub inv B limit by (fastforce simp: wake_ok_def admission_inv_def)
  moreover have "ap_heap p' = ap_heap (sy_pool s)" using B by simp
  ultimately show ?thesis using inv unfolding admission_inv_def cnt by simp
qed

lemma es_active_same:
  "es_active st = a \<Longrightarrow> st\<lparr>es_waiting := x, es_active := a\<rparr> = st\<lparr>es_waiting := x\<rparr>"
  by simp

theorem admission_step_inv [step_inv]:
  "admission_step allowed s s' \<Longrightarrow> (\<And>policy. allowed policy \<Longrightarrow> policy_within N Q policy) \<Longrightarrow>
   admission_inv N Q s \<Longrightarrow> admission_inv N Q s'"
proof (induction rule: admission_step.induct)
  case (ad_replace policies s)
  then show ?case by (intro admission_inv_replace) auto
next
  case (ad_answer s request res p')
  have refs: "refs_ok s" using ad_answer(4) by (simp add: admission_inv_def)
  from acquire_begin_answer [OF ad_answer(1,2)] show ?case
  proof
    assume "p' = sy_pool s"
    then show ?thesis using ad_answer by simp
  next
    assume "\<exists>r. map_of (ap_states (sy_pool s)) (ar_Key request) = Some r \<and> p' = reject_endpoint r (sy_pool s)"
    then obtain r where r: "map_of (ap_states (sy_pool s)) (ar_Key request) = Some r"
      and p': "p' = reject_endpoint r (sy_pool s)" by blast
    show ?thesis
      using inv_answer [OF ad_answer(4) refs_okD(1) [OF refs r], of _ "sy_timedout s"]
      unfolding p' reject_endpoint_def by simp
  qed
next
  case (ad_lease s request r p')
  then show ?case by (intro inv_lease)
next
  case (ad_queue s request r p')
  then show ?case by (intro inv_queue)
next
  case (ad_go_unlimited i s w p')
  have "wt_ref w < length (ap_heap (sy_pool s))"
    using ad_go_unlimited refs_okD(3) by (force simp: admission_inv_def)
  note I = admission_invD [OF ad_go_unlimited(6) this]
  show ?case
    using inv_leave [OF ad_go_unlimited(6,1), of "wt_ref w" "[]" "sy_timedout s" p'] ad_go_unlimited(2)
      acquire_retry_cases(1) [OF ad_go_unlimited(4)]
    by (simp add: es_active_same [OF I(1)])
next
  case (ad_go_leased i s w p')
  have rl: "wt_ref w < length (ap_heap (sy_pool s))"
    using ad_go_leased refs_okD(3) by (force simp: admission_inv_def)
  note I = admission_invD [OF ad_go_leased(6) rl] and B = acquire_retry_cases(2) [OF ad_go_leased(4)]
  have lt: "leased s (wt_ref w) < N" using I B by (simp add: policy_within_def)
  show ?case
    using inv_leave [OF ad_go_leased(6,1), of "wt_ref w" "[wt_ref w]" "sy_timedout s" p'] lt B I(1)
      inv_small(1) [OF ad_go_leased(6) lt] ad_go_leased(2)
    by simp
next
  case (ad_block i s w g p' limit)
  then show ?case by (intro inv_block)
next
  case (ad_cancel i s w)
  have rl: "wt_ref w < length (ap_heap (sy_pool s))"
    using ad_cancel refs_okD(3) by (force simp: admission_inv_def)
  note I = admission_invD [OF ad_cancel(4) rl] and pos = queued_pos [OF ad_cancel(1)]
  show ?case
    using inv_leave [OF ad_cancel(4,1), of "wt_ref w" "[]" "sy_timedout s"] pos ad_cancel(2)
    by (simp add: removeWaiter_def Let_def I(2) es_active_same [OF I(1)])
next
  case (ad_timeout i s w)
  have rl: "wt_ref w < length (ap_heap (sy_pool s))"
    using ad_timeout refs_okD(3) by (force simp: admission_inv_def)
  note I = admission_invD [OF ad_timeout(4) rl] and pos = queued_pos [OF ad_timeout(1)]
  show ?case
    using inv_leave [OF ad_timeout(4,1), of "wt_ref w" "[]" "sy_timedout s @ [wt_ref w]"] pos ad_timeout(2)
    by (simp add: removeWaiter_def Let_def I(2) es_active_same [OF I(1)])
next
  case (ad_count i s)
  have "sy_timedout s ! i < length (ap_heap (sy_pool s))"
    using ad_count refs_okD(4) by (force simp: admission_inv_def)
  then show ?case
    using inv_answer [OF ad_count(3) _ _ _ _ _ set_drop_nth] by (simp add: count_timeout_def Let_def)
next
  case (ad_release i s)
  then show ?case by (intro inv_release)
qed

lemma admission_reachable_inv:
  assumes "admission_reachable (policy_within N Q) s" "0 \<le> N" "N \<le> max_i64" "0 \<le> Q" "Q \<le> max_i64"
  shows "admission_inv N Q s"
  using assms
proof (induction rule: admission_reachable.induct)
  case ad_start
  then show ?case by (simp add: admission_inv_def refs_ok_def admission_new_def)
next
  case (ad_next s s')
  then show ?case by (blast intro: admission_step_inv)
qed

lemma notify_list_update:
  "es_notify st = es_notify (heap ! x) \<Longrightarrow> r < length heap \<Longrightarrow> es_notify (heap[x := st] ! r) = es_notify (heap ! r)"
  by (cases "x = r") simp_all

lemma replace_loop_notify:
  "r < length heap \<Longrightarrow>
   es_notify (ap_heap (replace_loop old policies next heap) ! r) = es_notify (heap ! r)"
  by (induction old policies "next" heap rule: replace_loop.induct)
    (auto split: option.splits simp: nth_append notify_list_update)


section \<open>Properties\<close>

text \<open>
  C6. Admission is bounded and its counters are exact. If every published policy allows at most \<open>N\<close>
  concurrent and \<open>Q\<close> queued requests, then in every reachable state, over all interleavings of
  requests, releases, cancellations, timeouts and policy reloads (removed and re-added keys
  included), an endpoint state has exactly as many active requests as unreleased leases and as many
  waiting as queued requests, at most \<open>N\<close> and \<open>Q\<close>.
\<close>

theorem admission_bounds:
  assumes "admission_reachable (policy_within N Q) s" "0 \<le> N" "N \<le> max_i64" "0 \<le> Q" "Q \<le> max_i64"
    and "r < length (ap_heap (sy_pool s))"
  shows "es_active (ap_heap (sy_pool s) ! r) = leased s r \<and> leased s r \<le> N \<and>
    es_waiting (ap_heap (sy_pool s) ! r) = queued s r \<and> queued s r \<le> Q"
  using admission_invD [OF admission_reachable_inv [OF assms(1-5)] assms(6)] by simp

text \<open>
  C19. No lost wake-up. A queued request that is blocked on a channel not yet closed sees an endpoint
  that is still at the limit it read before blocking: every release since would have woken it. As
  long as the limit is unchanged there is no free slot it sleeps through.
\<close>

theorem no_lost_wakeup:
  assumes "admission_reachable (policy_within N Q) s" "0 \<le> N" "N \<le> max_i64" "0 \<le> Q" "Q \<le> max_i64"
    and "w \<in> set (sy_waiters s)" "wt_blocked w = Some (g, limit)" "\<not> waiter_ready (sy_pool s) w"
  shows "limit \<le> es_active (ap_heap (sy_pool s) ! wt_ref w)"
proof -
  have "wake_ok (ap_heap (sy_pool s)) w"
    using admission_reachable_inv [OF assms(1-5)] assms(6) by (simp add: admission_inv_def)
  then show ?thesis using assms(7,8) by (auto simp: wake_ok_def waiter_ready_def)
qed

text \<open>
  A policy reload wakes nobody: after \<open>Replace\<close> has raised, disabled or removed a policy, exactly
  the queued requests that were ready before are ready, so the others stay blocked, although the
  endpoint may have free slots or no limit at all, until some lease is released or their timer ends.
\<close>

theorem reload_wakes_nobody:
  assumes "wt_ref w < length (ap_heap p)"
  shows "waiter_ready (Replace p policies) w \<longleftrightarrow> waiter_ready p w"
  using replace_loop_notify [OF assms, of "ap_states p" policies "[]"]
  by (simp add: waiter_ready_def Replace_def split: option.split)


subsection \<open>An endpoint with one slot and one place in the queue\<close>

definition one_slot :: admission_policy where
  "one_slot = \<lparr>ap_Key = ''chat'', ap_MaxConcurrency = 1, ap_MaxQueueDepth = 1, ap_QueueTimeout = Second,
     ap_RequestTimeout = Minute, ap_MaxRequestBytes = 10, ap_MaxOutputTokens = 10,
     ap_AllowedPriorities = [''normal''], ap_Enabled = True, ap_RetryBudget = 0\<rparr>"

definition chat_request :: admission_request where
  "chat_request = \<lparr>ar_Key = ''chat'', ar_Priority = '''', ar_RequestBytes = 5, ar_OutputTokens = 5\<rparr>"

definition chat_pool :: "int \<Rightarrow> int \<Rightarrow> admission_pool" where
  "chat_pool a w = \<lparr>ap_states = [(''chat'', 0)],
     ap_heap = [(fresh_state one_slot)\<lparr>es_active := a, es_waiting := w\<rparr>]\<rparr>"

definition chat_waiter :: "(nat \<times> int) option \<Rightarrow> waiter" where
  "chat_waiter b = \<lparr>wt_key = ''chat'', wt_ref = 0, wt_blocked = b\<rparr>"

definition chat_system :: "int \<Rightarrow> int \<Rightarrow> nat list \<Rightarrow> waiter list \<Rightarrow> admission_system" where
  "chat_system a w ls ws =
     \<lparr>sy_pool = chat_pool a w, sy_leases = ls, sy_waiters = ws, sy_timedout = []\<rparr>"

lemma chat_blocked: "admission_reachable (policy_within 1 1) (chat_system 1 1 [0] [chat_waiter (Some (0, 1))])"
proof -
  let ?R = "admission_reachable (policy_within 1 1)" and ?S = "admission_step (policy_within 1 1)"
  let ?s0 = "\<lparr>sy_pool = admission_new, sy_leases = [], sy_waiters = [], sy_timedout = []\<rparr>"
  have "Replace admission_new [one_slot] = chat_pool 0 0"
    by (simp add: Replace_def admission_new_def one_slot_def policy_usable_def clonePolicy_def
        chat_pool_def fresh_state_def)
  moreover have "policy_within 1 1 one_slot" by (simp add: policy_within_def one_slot_def)
  ultimately have 1: "?S ?s0 (chat_system 0 0 [] [])"
    using ad_replace [of "[one_slot]" "policy_within 1 1" ?s0] by (simp add: chat_system_def)
  have "acquire_begin (Some (chat_pool 0 0)) chat_request = (Leased 0, Some (chat_pool 1 0))"
    by (simp add: acquire_begin_def chat_pool_def chat_request_def fresh_state_def one_slot_def
        effective_priority_def set_endpoint_def i64_def)
  then have 2: "?S (chat_system 0 0 [] []) (chat_system 1 0 [0] [])"
    using ad_lease [of "chat_system 0 0 [] []" chat_request 0 "chat_pool 1 0" "policy_within 1 1"]
    by (simp add: chat_system_def)
  have "acquire_begin (Some (chat_pool 1 0)) chat_request = (Queued 0, Some (chat_pool 1 1))"
    by (simp add: acquire_begin_def chat_pool_def chat_request_def fresh_state_def one_slot_def
        effective_priority_def set_endpoint_def i64_def)
  then have 3: "?S (chat_system 1 0 [0] []) (chat_system 1 1 [0] [chat_waiter None])"
    using ad_queue [of "chat_system 1 0 [0] []" chat_request 0 "chat_pool 1 1" "policy_within 1 1"]
    by (simp add: chat_system_def chat_waiter_def chat_request_def)
  have "acquire_retry (chat_pool 1 1) ''chat'' 0 = (Block 0, chat_pool 1 1)"
    by (simp add: acquire_retry_def chat_pool_def fresh_state_def one_slot_def)
  then have 4: "?S (chat_system 1 1 [0] [chat_waiter None]) (chat_system 1 1 [0] [chat_waiter (Some (0, 1))])"
    using ad_block [of 0 "chat_system 1 1 [0] [chat_waiter None]" "chat_waiter None" 0 "chat_pool 1 1" 1
        "policy_within 1 1"]
    by (simp add: chat_system_def chat_waiter_def waiter_ready_def chat_pool_def fresh_state_def one_slot_def)
  show ?thesis by (rule ad_next [OF ad_next [OF ad_next [OF ad_next [OF ad_start 1] 2] 3] 4])
qed

theorem admission_bounds_witness:
  "leased (chat_system 1 1 [0] [chat_waiter (Some (0, 1))]) 0 = 1 \<and>
   queued (chat_system 1 1 [0] [chat_waiter (Some (0, 1))]) 0 = 1"
  using admission_bounds [OF chat_blocked, of 0] by (simp add: chat_system_def chat_pool_def max_i64_def)

theorem no_lost_wakeup_witness:
  "(1::int) \<le> es_active (ap_heap (sy_pool (chat_system 1 1 [0] [chat_waiter (Some (0, 1))])) ! 0)"
  using no_lost_wakeup [OF chat_blocked, of "chat_waiter (Some (0, 1))" 0 1]
  by (simp add: chat_system_def chat_waiter_def max_i64_def waiter_ready_def chat_pool_def fresh_state_def)

theorem reload_wakes_nobody_witness:
  "\<not> waiter_ready (Replace (chat_pool 1 1) []) (chat_waiter (Some (0, 1)))"
  using reload_wakes_nobody [of "chat_waiter (Some (0, 1))" "chat_pool 1 1" "[]"]
  by (simp add: chat_pool_def chat_waiter_def waiter_ready_def fresh_state_def)

end
