(* ===== verification/Autoscale.thy ===== *)
theory Autoscale
  imports Float64 Go_Strings
begin

text \<open>
  Replica autoscaling (\<open>internal/autoscale\<close>): the queue and SLO evaluators of \<open>autoscale.go\<close>, the
  capacity envelope of \<open>capacity_envelope.go\<close>, and the control loops \<open>Controller.Once\<close> and
  \<open>CapacityController.Once\<close>.

  Thresholds and signals are \<open>float64\<close> values. The conversion of a \<open>float64\<close> outside the range of
  \<open>int\<close> is left to the implementation by the language, so it is a parameter (\<open>oob\<close>). The loops
  receive the repository, the signal source and the fleet as functions on an environment state.

  The locale \<open>bounded_evaluator\<close> states the contract shared by the two evaluators; what a control
  loop obtains over time from any such evaluator is proved in it once, and it is interpreted on
  both.
\<close>


section \<open>The queue evaluator\<close>

record as_policy =
  asp_Enabled :: bool
  asp_MinReplicas :: int
  asp_MaxReplicas :: int
  asp_QueueThreshold :: f64
  asp_LowLoadThreshold :: f64
  asp_ScaleUpIntervals :: int
  asp_ScaleDownIntervals :: int
  asp_Cooldown :: duration
  asp_MaxTTFTP95MS :: "f64 option"
  asp_MaxLatencyP95MS :: "f64 option"

record as_signals =
  sig_Waiting :: f64
  sig_Running :: f64
  sig_ObservedAt :: gotime

record slo_evidence =
  slo_RequestSamples :: int
  slo_RequestsPerSecond :: "f64 option"
  slo_P95TTFTMS :: "f64 option"
  slo_P95LatencyMS :: "f64 option"
  slo_BenchmarkID :: string
  slo_BenchmarkSamples :: int
  slo_GoodputPerReplica :: "f64 option"
  slo_Comparable :: bool
  slo_ComparisonBoundary :: string
  slo_RequestWindowSeconds :: int

record as_state =
  ast_Replicas :: int
  ast_ConsecutiveHigh :: int
  ast_ConsecutiveLow :: int
  ast_LastScaledAt :: gotime

record as_decision =
  dec_Action :: string
  dec_Reason :: string
  dec_OldReplicas :: int
  dec_NewReplicas :: int
  dec_NextConsecutiveHigh :: int
  dec_NextConsecutiveLow :: int

definition MinimumSLOSamples :: int where "MinimumSLOSamples = 20"

definition hold_decision :: "as_state \<Rightarrow> as_decision" where
  "hold_decision state =
     \<lparr>dec_Action = ''hold'', dec_Reason = '''', dec_OldReplicas = ast_Replicas state,
      dec_NewReplicas = ast_Replicas state, dec_NextConsecutiveHigh = 0, dec_NextConsecutiveLow = 0\<rparr>"

definition in_cooldown :: "as_policy \<Rightarrow> as_state \<Rightarrow> gotime \<Rightarrow> bool" where
  "in_cooldown policy state observedAt \<longleftrightarrow>
     \<not> is_zero_time (ast_LastScaledAt state) \<and>
     time_sub observedAt (ast_LastScaledAt state) < asp_Cooldown policy"

definition queue_high :: "as_policy \<Rightarrow> as_state \<Rightarrow> as_signals \<Rightarrow> as_decision" where
  "queue_high policy state signals =
     (let d = hold_decision state;
          high = i64 (ast_ConsecutiveHigh state + 1)
      in if high \<ge> asp_ScaleUpIntervals policy \<and> ast_Replicas state < asp_MaxReplicas policy
         then d\<lparr>dec_Action := ''scale_up'', dec_NewReplicas := i64 (ast_Replicas state + 1),
                dec_NextConsecutiveHigh := 0,
                dec_Reason := ''waiting '' @ fmt_fixed 2 (sig_Waiting signals) @ '' >= threshold '' @
                  fmt_fixed 2 (asp_QueueThreshold policy) @ '' for '' @
                  itoa (asp_ScaleUpIntervals policy) @ '' intervals''\<rparr>
         else if ast_Replicas state = asp_MaxReplicas policy
         then d\<lparr>dec_NextConsecutiveHigh := high, dec_Reason := ''maximum replicas reached''\<rparr>
         else d\<lparr>dec_NextConsecutiveHigh := high,
                dec_Reason := ''waiting for scale-up stability window''\<rparr>)"

definition queue_low :: "as_policy \<Rightarrow> as_state \<Rightarrow> f64 \<Rightarrow> as_decision" where
  "queue_low policy state load =
     (let d = hold_decision state;
          low = i64 (ast_ConsecutiveLow state + 1)
      in if low \<ge> asp_ScaleDownIntervals policy \<and> ast_Replicas state > asp_MinReplicas policy
         then d\<lparr>dec_Action := ''scale_down'', dec_NewReplicas := i64 (ast_Replicas state - 1),
                dec_NextConsecutiveLow := 0,
                dec_Reason := ''load '' @ fmt_fixed 2 load @ '' <= threshold '' @
                  fmt_fixed 2 (asp_LowLoadThreshold policy) @ '' for '' @
                  itoa (asp_ScaleDownIntervals policy) @ '' intervals''\<rparr>
         else if ast_Replicas state = asp_MinReplicas policy
         then d\<lparr>dec_NextConsecutiveLow := low, dec_Reason := ''minimum replicas reached''\<rparr>
         else d\<lparr>dec_NextConsecutiveLow := low,
                dec_Reason := ''waiting for scale-down stability window''\<rparr>)"

definition Evaluate :: "as_policy \<Rightarrow> as_state \<Rightarrow> as_signals \<Rightarrow> string + as_decision" where
  "Evaluate policy state signals =
     (if asp_MinReplicas policy < 1 \<or> asp_MaxReplicas policy < asp_MinReplicas policy
      then Inl ''invalid replica bounds''
      else if asp_ScaleUpIntervals policy < 1 \<or> asp_ScaleDownIntervals policy < 1 \<or>
              asp_Cooldown policy < 0
      then Inl ''invalid stability or cooldown settings''
      else if ast_Replicas state < asp_MinReplicas policy \<or>
              ast_Replicas state > asp_MaxReplicas policy
      then Inl ''current replicas are outside policy bounds''
      else let d = hold_decision state in
           if \<not> asp_Enabled policy then Inr (d\<lparr>dec_Reason := ''policy disabled''\<rparr>)
           else if in_cooldown policy state (sig_ObservedAt signals)
           then Inr (d\<lparr>dec_Reason := ''cooldown active''\<rparr>)
           else if f_ge (sig_Waiting signals) (asp_QueueThreshold policy)
           then Inr (queue_high policy state signals)
           else let load = f_add (sig_Running signals) (sig_Waiting signals) in
                if f_le load (asp_LowLoadThreshold policy) then Inr (queue_low policy state load)
                else Inr (d\<lparr>dec_Reason := ''signals are within policy thresholds''\<rparr>))"


section \<open>The SLO evaluator\<close>

definition queue_fallback ::
  "as_policy \<Rightarrow> as_state \<Rightarrow> as_signals \<Rightarrow> string \<Rightarrow> string + as_decision" where
  "queue_fallback policy state signals reason =
     (case Evaluate policy state signals of
        Inl e \<Rightarrow> Inl e
      | Inr d \<Rightarrow> Inr (d\<lparr>dec_Reason := TrimSpace (reason @ ''; queue policy: '' @ dec_Reason d)\<rparr>))"

definition evaluateEvidenceTarget ::
  "as_policy \<Rightarrow> as_state \<Rightarrow> gotime \<Rightarrow> int \<Rightarrow> bool \<Rightarrow> string + as_decision" where
  "evaluateEvidenceTarget policy state observedAt target breached =
     (if asp_MinReplicas policy < 1 \<or> asp_MaxReplicas policy < asp_MinReplicas policy \<or>
         target < asp_MinReplicas policy \<or> target > asp_MaxReplicas policy
      then Inl ''invalid replica bounds or evidence target''
      else let d = hold_decision state in
           if \<not> asp_Enabled policy then Inr (d\<lparr>dec_Reason := ''policy disabled''\<rparr>)
           else if in_cooldown policy state observedAt
           then Inr (d\<lparr>dec_Reason := ''cooldown active''\<rparr>)
           else if target > ast_Replicas state \<or> breached
           then let high = i64 (ast_ConsecutiveHigh state + 1) in
                if high \<ge> asp_ScaleUpIntervals policy \<and> ast_Replicas state < asp_MaxReplicas policy
                then Inr (d\<lparr>dec_Action := ''scale_up'',
                            dec_NewReplicas := min target (i64 (ast_Replicas state + 1)),
                            dec_NextConsecutiveHigh := 0\<rparr>)
                else Inr (d\<lparr>dec_NextConsecutiveHigh := high\<rparr>)
           else if target < ast_Replicas state
           then let low = i64 (ast_ConsecutiveLow state + 1) in
                if low \<ge> asp_ScaleDownIntervals policy \<and> ast_Replicas state > asp_MinReplicas policy
                then Inr (d\<lparr>dec_Action := ''scale_down'',
                            dec_NewReplicas := max target (i64 (ast_Replicas state - 1)),
                            dec_NextConsecutiveLow := 0\<rparr>)
                else Inr (d\<lparr>dec_NextConsecutiveLow := low\<rparr>)
           else Inr d)"

fun join_strings :: "string \<Rightarrow> string list \<Rightarrow> string" where
  "join_strings sep [] = ''''"
| "join_strings sep [s] = s"
| "join_strings sep (s # rest) = s @ sep @ join_strings sep rest"

definition evidenceStatus :: "string list \<Rightarrow> string" where
  "evidenceStatus breaches =
     (if breaches = [] then ''attained'' else ''breached ('' @ join_strings '', '' breaches @ '')'')"

text \<open>One objective: not set, unknown (fall back), or the breaches extended.\<close>

definition check_objective ::
  "string \<Rightarrow> string \<Rightarrow> f64 option \<Rightarrow> f64 option \<Rightarrow> string list \<Rightarrow> string + string list" where
  "check_objective name unknown limit observed breaches =
     (case limit of
        None \<Rightarrow> Inr breaches
      | Some l \<Rightarrow>
          (case observed of
             None \<Rightarrow> Inl unknown
           | Some v \<Rightarrow>
               Inr (if f_gt v l
                    then breaches @ [name @ '' '' @ fmt_fixed 2 v @ ''ms > '' @ fmt_fixed 2 l @ ''ms'']
                    else breaches)))"

definition clamp_target :: "as_policy \<Rightarrow> int \<Rightarrow> int" where
  "clamp_target policy target = max (asp_MinReplicas policy) (min (asp_MaxReplicas policy) target)"

definition evidence_target ::
  "(f64 \<Rightarrow> int) \<Rightarrow> as_policy \<Rightarrow> as_state \<Rightarrow> f64 \<Rightarrow> f64 \<Rightarrow> bool \<Rightarrow> int" where
  "evidence_target oob policy state rps goodput breached =
     (let target = clamp_target policy (f_to_int oob (f_ceil (f_div rps goodput)))
      in if breached \<and> target \<le> ast_Replicas state
         then min (asp_MaxReplicas policy) (i64 (ast_Replicas state + 1)) else target)"

definition target_decision ::
  "(f64 \<Rightarrow> int) \<Rightarrow> as_policy \<Rightarrow> as_state \<Rightarrow> as_signals \<Rightarrow> slo_evidence \<Rightarrow> f64 \<Rightarrow> f64 \<Rightarrow> string list \<Rightarrow>
   string + as_decision" where
  "target_decision oob policy state signals evidence rps goodput breaches =
     (let target = evidence_target oob policy state rps goodput (breaches \<noteq> [])
      in case evaluateEvidenceTarget policy state (sig_ObservedAt signals) target (breaches \<noteq> []) of
           Inl e \<Rightarrow> Inl e
         | Inr d \<Rightarrow>
             Inr (d\<lparr>dec_Reason := ''SLO evidence: '' @ evidenceStatus breaches @ ''; target '' @ itoa target @
                      '' from '' @ fmt_fixed 4 rps @ '' requests/s / '' @ fmt_fixed 4 goodput @
                      '' benchmark goodput/replica; benchmark='' @ slo_BenchmarkID evidence @
                      '' samples='' @ itoa (slo_BenchmarkSamples evidence)\<rparr>))"

definition EvaluateWithSLO ::
  "(f64 \<Rightarrow> int) \<Rightarrow> as_policy \<Rightarrow> as_state \<Rightarrow> as_signals \<Rightarrow> slo_evidence \<Rightarrow> string + as_decision" where
  "EvaluateWithSLO oob policy state signals evidence =
     (let fallback = queue_fallback policy state signals
      in if asp_MaxTTFTP95MS policy = None \<and> asp_MaxLatencyP95MS policy = None
         then fallback ''SLO policy absent; capacity evidence absent''
         else case slo_RequestsPerSecond evidence of
           None \<Rightarrow> fallback (''SLO attainment evidence insufficient: need '' @ itoa MinimumSLOSamples @
             '' persisted requests, have '' @ itoa (slo_RequestSamples evidence) @ ''; capacity evidence absent'')
         | Some rps \<Rightarrow>
           if slo_RequestSamples evidence < MinimumSLOSamples
           then fallback (''SLO attainment evidence insufficient: need '' @ itoa MinimumSLOSamples @
             '' persisted requests, have '' @ itoa (slo_RequestSamples evidence) @ ''; capacity evidence absent'')
           else case slo_GoodputPerReplica evidence of
             None \<Rightarrow> fallback ''capacity evidence absent for the comparable model/runtime/provider/accelerator tuple''
           | Some goodput \<Rightarrow>
             if \<not> slo_Comparable evidence \<or> slo_BenchmarkSamples evidence < MinimumSLOSamples \<or>
                f_le goodput f_zero
             then fallback ''capacity evidence absent for the comparable model/runtime/provider/accelerator tuple''
             else case check_objective ''p95 TTFT'' ''TTFT attainment is unknown; queue policy used''
                    (asp_MaxTTFTP95MS policy) (slo_P95TTFTMS evidence) [] of
               Inl reason \<Rightarrow> fallback reason
             | Inr breaches1 \<Rightarrow>
               (case check_objective ''p95 latency'' ''latency attainment is unknown; queue policy used''
                    (asp_MaxLatencyP95MS policy) (slo_P95LatencyMS evidence) breaches1 of
                  Inl reason \<Rightarrow> fallback reason
                | Inr breaches \<Rightarrow> target_decision oob policy state signals evidence rps goodput breaches))"


section \<open>The control loop\<close>

record as_deployment =
  asd_ID :: string
  asd_Policy :: as_policy
  asd_State :: as_state

text \<open>
  The repository, the signals, the fleet, the clock and the context, each call as a function on the
  state of the environment.
\<close>

record 's autoscale_env =
  ae_AutoscalingDeployments :: "'s \<Rightarrow> (string + as_deployment list) \<times> 's"
  ae_AutoscalingSLOEvidence :: "string \<Rightarrow> gotime \<Rightarrow> 's \<Rightarrow> (string + slo_evidence) \<times> 's"
  ae_RecordDecision :: "string \<Rightarrow> as_decision \<Rightarrow> string \<Rightarrow> 's \<Rightarrow> string option \<times> 's"
  ae_SaveState :: "string \<Rightarrow> as_state \<Rightarrow> 's \<Rightarrow> string option \<times> 's"
  ae_Signals :: "string \<Rightarrow> 's \<Rightarrow> (string + as_signals) \<times> 's"
  ae_ScaleTo :: "string \<Rightarrow> int \<Rightarrow> 's \<Rightarrow> string option \<times> 's"
  ae_now :: "'s \<Rightarrow> gotime \<times> 's"
  ae_ctxErr :: "'s \<Rightarrow> string option \<times> 's"
  ae_snapshot :: "as_signals \<Rightarrow> slo_evidence \<Rightarrow> string"
  ae_oob :: "f64 \<Rightarrow> int"

definition next_state :: "as_state \<Rightarrow> as_decision \<Rightarrow> gotime \<Rightarrow> as_state" where
  "next_state state d observedAt =
     (let state = (if dec_Action d \<noteq> ''hold''
                   then state\<lparr>ast_Replicas := dec_NewReplicas d, ast_LastScaledAt := observedAt\<rparr>
                   else state)
      in state\<lparr>ast_ConsecutiveHigh := dec_NextConsecutiveHigh d,
               ast_ConsecutiveLow := dec_NextConsecutiveLow d\<rparr>)"

text \<open>The end of the loop body, once the fleet has been scaled (or nothing had to be).\<close>

definition record_and_save ::
  "'s autoscale_env \<Rightarrow> as_deployment \<Rightarrow> as_signals \<Rightarrow> slo_evidence \<Rightarrow> as_decision \<Rightarrow> 's \<Rightarrow> string option \<times> 's" where
  "record_and_save env deployment signals evidence d s =
     (case ae_RecordDecision env (asd_ID deployment) d (ae_snapshot env signals evidence) s of
        (Some e, s1) \<Rightarrow> (Some (''record autoscaling decision for '' @ asd_ID deployment @ '': '' @ e), s1)
      | (None, s1) \<Rightarrow>
          (case ae_SaveState env (asd_ID deployment)
                  (next_state (asd_State deployment) d (sig_ObservedAt signals)) s1 of
             (Some e, s2) \<Rightarrow> (Some (''save autoscaling state for '' @ asd_ID deployment @ '': '' @ e), s2)
           | (None, s2) \<Rightarrow> (None, s2)))"

definition apply_decision ::
  "'s autoscale_env \<Rightarrow> as_deployment \<Rightarrow> as_signals \<Rightarrow> slo_evidence \<Rightarrow> as_decision \<Rightarrow> 's \<Rightarrow> string option \<times> 's" where
  "apply_decision env deployment signals evidence d s =
     (if dec_Action d \<noteq> ''hold''
      then case ae_ScaleTo env (asd_ID deployment) (dec_NewReplicas d) s of
             (Some e, s1) \<Rightarrow> (Some (''scale '' @ asd_ID deployment @ '': '' @ e), s1)
           | (None, s1) \<Rightarrow> record_and_save env deployment signals evidence d s1
      else record_and_save env deployment signals evidence d s)"

definition deployment_pass ::
  "'s autoscale_env \<Rightarrow> as_deployment \<Rightarrow> 's \<Rightarrow> string option \<times> 's" where
  "deployment_pass env deployment s =
     (case ae_Signals env (asd_ID deployment) s of
        (Inl e, s1) \<Rightarrow> (Some (''signals for '' @ asd_ID deployment @ '': '' @ e), s1)
      | (Inr signals0, s1) \<Rightarrow>
          (case ae_now env s1 of
             (t, s2) \<Rightarrow>
               (let signals = signals0\<lparr>sig_ObservedAt := t\<rparr>
                in case ae_AutoscalingSLOEvidence env (asd_ID deployment) t s2 of
                     (Inl e, s3) \<Rightarrow> (Some (''SLO evidence for '' @ asd_ID deployment @ '': '' @ e), s3)
                   | (Inr evidence, s3) \<Rightarrow>
                       (case EvaluateWithSLO (ae_oob env) (asd_Policy deployment) (asd_State deployment)
                               signals evidence of
                          Inl e \<Rightarrow> (Some (''evaluate '' @ asd_ID deployment @ '': '' @ e), s3)
                        | Inr d \<Rightarrow> apply_decision env deployment signals evidence d s3))))"

fun deployments_loop ::
  "'s autoscale_env \<Rightarrow> as_deployment list \<Rightarrow> string list \<Rightarrow> 's \<Rightarrow> string list \<times> 's" where
  "deployments_loop env [] failures s = (failures, s)"
| "deployments_loop env (deployment # rest) failures s =
     (case ae_ctxErr env s of
        (Some e, s1) \<Rightarrow> (failures @ [e], s1)
      | (None, s1) \<Rightarrow>
          (case deployment_pass env deployment s1 of
             (Some f, s2) \<Rightarrow> deployments_loop env rest (failures @ [f]) s2
           | (None, s2) \<Rightarrow> deployments_loop env rest failures s2))"

text \<open>The joined failures; the empty list is a nil error. \<open>None\<close> is a controller without its parts.\<close>

definition controller_Once :: "'s autoscale_env option \<Rightarrow> 's \<Rightarrow> string list \<times> 's" where
  "controller_Once c s =
     (case c of
        None \<Rightarrow> ([''autoscaling repository, signals, and fleet are required''], s)
      | Some env \<Rightarrow>
          (case ae_AutoscalingDeployments env s of
             (Inl e, s1) \<Rightarrow> ([e], s1)
           | (Inr deployments, s1) \<Rightarrow> deployments_loop env deployments [] s1))"

section \<open>What a control loop obtains from an evaluator\<close>

definition within_bounds :: "as_policy \<Rightarrow> as_state \<Rightarrow> bool" where
  "within_bounds p st \<longleftrightarrow>
     1 \<le> asp_MinReplicas p \<and> asp_MinReplicas p \<le> ast_Replicas st \<and>
     ast_Replicas st \<le> asp_MaxReplicas p \<and> asp_MaxReplicas p \<le> max_i64"

text \<open>
  A sound decision keeps the bounds and moves by one replica at most, and moves at all only outside
  the cooldown.
\<close>

definition sound_decision :: "as_policy \<Rightarrow> as_state \<Rightarrow> gotime \<Rightarrow> as_decision \<Rightarrow> bool" where
  "sound_decision p st t d \<longleftrightarrow>
     dec_OldReplicas d = ast_Replicas st \<and>
     asp_MinReplicas p \<le> dec_NewReplicas d \<and> dec_NewReplicas d \<le> asp_MaxReplicas p \<and>
     (dec_Action d = ''hold'' \<and> dec_NewReplicas d = ast_Replicas st \<or>
      \<not> in_cooldown p st t \<and> asp_Enabled p \<and>
      (dec_Action d = ''scale_up'' \<and> dec_NewReplicas d = ast_Replicas st + 1 \<or>
       dec_Action d = ''scale_down'' \<and> dec_NewReplicas d = ast_Replicas st - 1))"

text \<open>
  One deployment whose decisions are all applied and saved, as a function of the observations over
  time; \<open>Autoscale_Store\<close> has the controller on its store with its failures.
\<close>

fun control_run ::
  "(as_policy \<Rightarrow> as_state \<Rightarrow> gotime \<Rightarrow> 'o \<Rightarrow> string + as_decision) \<Rightarrow> as_policy \<Rightarrow> as_state \<Rightarrow>
   (gotime \<times> 'o) list \<Rightarrow> as_state" where
  "control_run decide p st [] = st"
| "control_run decide p st ((t, obs) # rest) =
     (case decide p st t obs of
        Inl e \<Rightarrow> control_run decide p st rest
      | Inr d \<Rightarrow> control_run decide p (next_state st d t) rest)"

text \<open>The times at which it scales.\<close>

fun scale_times ::
  "(as_policy \<Rightarrow> as_state \<Rightarrow> gotime \<Rightarrow> 'o \<Rightarrow> string + as_decision) \<Rightarrow> as_policy \<Rightarrow> as_state \<Rightarrow>
   (gotime \<times> 'o) list \<Rightarrow> gotime list" where
  "scale_times decide p st [] = []"
| "scale_times decide p st ((t, obs) # rest) =
     (case decide p st t obs of
        Inl e \<Rightarrow> scale_times decide p st rest
      | Inr d \<Rightarrow> (if dec_Action d = ''hold'' then [] else [t]) @
                scale_times decide p (next_state st d t) rest)"

locale bounded_evaluator =
  fixes decide :: "as_policy \<Rightarrow> as_state \<Rightarrow> gotime \<Rightarrow> 'o \<Rightarrow> string + as_decision"
  assumes decide_sound: "decide p st t obs = Inr d \<Longrightarrow> within_bounds p st \<Longrightarrow> sound_decision p st t d"
begin

lemma next_within:
  "decide p st t obs = Inr d \<Longrightarrow> within_bounds p st \<Longrightarrow> within_bounds p (next_state st d t)"
  using decide_sound [of p st t obs d]
  by (auto simp: sound_decision_def within_bounds_def next_state_def Let_def)

lemma run_within: "within_bounds p st \<Longrightarrow> within_bounds p (control_run decide p st obs)"
proof (induction decide\<equiv>decide p st obs rule: control_run.induct)
  case (2 p st t obs rest)
  then show ?case using next_within by (auto split: sum.splits)
qed simp

lemma last_scaled:
  "decide p st t obs = Inr d \<Longrightarrow> within_bounds p st \<Longrightarrow>
   ast_LastScaledAt (next_state st d t) = (if dec_Action d = ''hold'' then ast_LastScaledAt st else t)"
  by (simp add: next_state_def Let_def)

text \<open>The first scaling after a state respects that state's last one, and so each the one before.\<close>

lemma scale_times_spaced:
  assumes "within_bounds p st" "0 \<le> asp_Cooldown p" "asp_Cooldown p \<le> max_i64"
  shows "successively (\<lambda>a b. a = 0 \<or> asp_Cooldown p \<le> b - a) (scale_times decide p st obs) \<and>
    (case scale_times decide p st obs of [] \<Rightarrow> True
     | b # _ \<Rightarrow> ast_LastScaledAt st = 0 \<or> asp_Cooldown p \<le> b - ast_LastScaledAt st)"
  using assms
proof (induction decide\<equiv>decide p st obs rule: scale_times.induct)
  case (2 p st t obs rest)
  show ?case
  proof (cases "decide p st t obs")
    case (Inl e)
    then show ?thesis using 2 by simp
  next
    case (Inr d)
    note w = next_within [OF Inr 2(3)]
    show ?thesis
    proof (cases "dec_Action d = ''hold''")
      case True
      then show ?thesis
        using 2(2) [OF Inr w 2(4,5)] Inr last_scaled [OF Inr 2(3)] by (simp split: list.splits)
    next
      case False
      then have "\<not> in_cooldown p st t"
        using decide_sound [OF Inr 2(3)] by (auto simp: sound_decision_def)
      then have "ast_LastScaledAt st = 0 \<or> asp_Cooldown p \<le> t - ast_LastScaledAt st"
        using 2(4,5) time_sub_less_iff [of "asp_Cooldown p" t "ast_LastScaledAt st"]
        by (auto simp: in_cooldown_def is_zero_time_def min_i64_def)
      then show ?thesis
        using False 2(2) [OF Inr w 2(4,5)] Inr last_scaled [OF Inr 2(3)]
        by (auto simp: successively_Cons split: list.splits)
    qed
  qed
qed simp

end

definition queue_decide :: "as_policy \<Rightarrow> as_state \<Rightarrow> gotime \<Rightarrow> as_signals \<Rightarrow> string + as_decision" where
  "queue_decide p st t signals = Evaluate p st (signals\<lparr>sig_ObservedAt := t\<rparr>)"

definition slo_decide ::
  "(f64 \<Rightarrow> int) \<Rightarrow> as_policy \<Rightarrow> as_state \<Rightarrow> gotime \<Rightarrow> as_signals \<times> slo_evidence \<Rightarrow> string + as_decision" where
  "slo_decide oob p st t obs = EvaluateWithSLO oob p st ((fst obs)\<lparr>sig_ObservedAt := t\<rparr>) (snd obs)"

lemma i64_step:
  "1 \<le> n \<Longrightarrow> n \<le> m \<Longrightarrow> m \<le> max_i64 \<Longrightarrow> i64 (n - 1) = n - 1"
  "1 \<le> n \<Longrightarrow> n < m \<Longrightarrow> m \<le> max_i64 \<Longrightarrow> i64 (n + 1) = n + 1"
  by (rule i64_id, simp add: is_i64_def max_i64_def min_i64_def)+

lemma within_step:
  assumes "within_bounds p st"
  shows "i64 (ast_Replicas st - 1) = ast_Replicas st - 1"
    and "ast_Replicas st < asp_MaxReplicas p \<Longrightarrow> i64 (ast_Replicas st + 1) = ast_Replicas st + 1"
  using assms by (auto simp: within_bounds_def intro!: i64_step(1) [of _ "asp_MaxReplicas p"]
      i64_step(2) [of _ "asp_MaxReplicas p"])

lemma Evaluate_sound:
  assumes "Evaluate p st signals = Inr d" "within_bounds p st"
  shows "sound_decision p st (sig_ObservedAt signals) d"
  using assms within_step [OF assms(2)] unfolding sound_decision_def
  by (auto simp: Evaluate_def queue_high_def queue_low_def hold_decision_def within_bounds_def Let_def
      split: if_splits)

lemma evaluateEvidenceTarget_sound:
  assumes "evaluateEvidenceTarget p st t target breached = Inr d" "within_bounds p st"
    and "breached \<Longrightarrow> ast_Replicas st < asp_MaxReplicas p \<Longrightarrow> ast_Replicas st < target"
  shows "sound_decision p st t d"
  using assms within_step [OF assms(2)] unfolding sound_decision_def
  by (auto simp: evaluateEvidenceTarget_def hold_decision_def within_bounds_def Let_def
      split: if_splits)

lemma evidence_target_breached:
  "within_bounds p st \<Longrightarrow> ast_Replicas st < asp_MaxReplicas p \<Longrightarrow>
   ast_Replicas st < evidence_target oob p st rps goodput True"
  using within_step(2) [of p st] by (auto simp: evidence_target_def Let_def)

lemma sound_decision_reason: "sound_decision p st t (d\<lparr>dec_Reason := r\<rparr>) = sound_decision p st t d"
  by (simp add: sound_decision_def)

lemma queue_fallback_sound:
  "queue_fallback p st signals r = Inr d \<Longrightarrow> within_bounds p st \<Longrightarrow>
   sound_decision p st (sig_ObservedAt signals) d"
  using Evaluate_sound [of p st signals]
  by (auto simp: queue_fallback_def sound_decision_reason split: sum.splits)

lemma target_decision_sound:
  "target_decision oob p st signals ev rps g breaches = Inr d \<Longrightarrow> within_bounds p st \<Longrightarrow>
   sound_decision p st (sig_ObservedAt signals) d"
  using evaluateEvidenceTarget_sound [of p st "sig_ObservedAt signals"] evidence_target_breached [of p st]
  by (auto simp: target_decision_def sound_decision_reason Let_def split: sum.splits)

lemma EvaluateWithSLO_sound:
  assumes "EvaluateWithSLO oob p st signals ev = Inr d" "within_bounds p st"
  shows "sound_decision p st (sig_ObservedAt signals) d"
  using assms unfolding EvaluateWithSLO_def Let_def
  by (auto split: if_splits option.splits sum.splits intro: queue_fallback_sound target_decision_sound)

interpretation queue_loop: bounded_evaluator queue_decide
proof
  show "sound_decision p st t d" if "queue_decide p st t obs = Inr d" "within_bounds p st" for p st t obs d
    using Evaluate_sound that by (fastforce simp: queue_decide_def)
qed

interpretation slo_loop: bounded_evaluator "slo_decide oob"
proof
  show "sound_decision p st t d" if "slo_decide oob p st t obs = Inr d" "within_bounds p st" for p st t obs d
    using EvaluateWithSLO_sound that by (fastforce simp: slo_decide_def)
qed

section \<open>Sustained signals\<close>

text \<open>
  The consecutive counters never exceed the number of trailing observations that justified them;
  wrap-around could only make them smaller.
\<close>

definition obs_high :: "as_policy \<Rightarrow> gotime \<times> as_signals \<Rightarrow> bool" where
  "obs_high p x \<longleftrightarrow> f_ge (sig_Waiting (snd x)) (asp_QueueThreshold p)"

definition obs_low :: "as_policy \<Rightarrow> gotime \<times> as_signals \<Rightarrow> bool" where
  "obs_low p x \<longleftrightarrow> \<not> obs_high p x \<and>
     f_le (f_add (sig_Running (snd x)) (sig_Waiting (snd x))) (asp_LowLoadThreshold p)"

definition trailing :: "('a \<Rightarrow> bool) \<Rightarrow> 'a list \<Rightarrow> int" where
  "trailing P xs = int (length (takeWhile P (rev xs)))"

lemma trailing_snoc: "trailing P (xs @ [x]) = (if P x then trailing P xs + 1 else 0)"
  by (simp add: trailing_def)

lemma trailing_nonneg [simp]: "0 \<le> trailing P xs"
  by (simp add: trailing_def)

lemma trailing_suffix:
  assumes "int n \<le> trailing P xs"
  shows "n \<le> length xs \<and> (\<forall>x \<in> set (drop (length xs - n) xs). P x)"
proof -
  let ?t = "takeWhile P (rev xs)"
  have n: "n \<le> length ?t" using assms by (simp add: trailing_def)
  moreover have le: "length ?t \<le> length xs" using length_takeWhile_le [of P "rev xs"] by simp
  ultimately have "n \<le> length xs" by simp
  have "drop (length xs - n) xs = rev (take n (rev xs))" by (simp add: take_rev)
  also have "take n (rev xs) = take n ?t"
    using n by (metis append_take_drop_id take_all takeWhile_eq_take take_take min.absorb1)
  finally have "set (drop (length xs - n) xs) \<subseteq> set ?t" by (auto dest: in_set_takeD)
  then show ?thesis using \<open>n \<le> length xs\<close> by (auto dest: set_takeWhileD)
qed

lemma i64_le: "min_i64 \<le> x \<Longrightarrow> i64 x \<le> x"
proof -
  assume x: "min_i64 \<le> x"
  have "(x + 2 ^ 63) mod 2 ^ 64 \<le> x + 2 ^ 63"
    using x by (intro zmod_le_nonneg_dividend) (simp add: min_i64_def)
  then show ?thesis by (simp add: i64_def)
qed

text \<open>What one queue decision does to the counters, and what a scaling needs of them.\<close>

lemma queue_decide_counters:
  assumes "queue_decide p st t signals = Inr d"
  shows "dec_NextConsecutiveHigh d = 0 \<or>
      obs_high p (t, signals) \<and> dec_NextConsecutiveHigh d = i64 (ast_ConsecutiveHigh st + 1)"
    and "dec_NextConsecutiveLow d = 0 \<or>
      obs_low p (t, signals) \<and> dec_NextConsecutiveLow d = i64 (ast_ConsecutiveLow st + 1)"
    and "dec_Action d = ''scale_up'' \<Longrightarrow>
      obs_high p (t, signals) \<and> asp_ScaleUpIntervals p \<le> i64 (ast_ConsecutiveHigh st + 1)"
    and "dec_Action d = ''scale_down'' \<Longrightarrow>
      obs_low p (t, signals) \<and> asp_ScaleDownIntervals p \<le> i64 (ast_ConsecutiveLow st + 1)"
  using assms
  by (auto simp: queue_decide_def Evaluate_def queue_high_def queue_low_def hold_decision_def Let_def
      obs_high_def obs_low_def split: if_splits)

definition counters_ok :: "as_policy \<Rightarrow> as_state \<Rightarrow> (gotime \<times> as_signals) list \<Rightarrow> bool" where
  "counters_ok p st obs \<longleftrightarrow>
     min_i64 < ast_ConsecutiveHigh st + 1 \<and> min_i64 < ast_ConsecutiveLow st + 1 \<and>
     ast_ConsecutiveHigh st \<le> trailing (obs_high p) obs \<and>
     ast_ConsecutiveLow st \<le> trailing (obs_low p) obs"

lemma control_run_snoc:
  "control_run decide p st (obs @ [(t, x)]) =
     (let st' = control_run decide p st obs
      in case decide p st' t x of Inl e \<Rightarrow> st' | Inr d \<Rightarrow> next_state st' d t)"
  by (induction decide p st obs rule: control_run.induct) (auto split: sum.splits simp: Let_def)

lemma counters_ge: "min_i64 < i64 x + 1"
  using is_i64_i64 [of x] by (simp add: is_i64_def)

lemma decide_counters_ok:
  assumes "counters_ok p st obs" "queue_decide p st t signals = Inr d"
  shows "counters_ok p (next_state st d t) (obs @ [(t, signals)])"
proof -
  note C = queue_decide_counters [OF assms(2)]
  have h: "i64 (ast_ConsecutiveHigh st + 1) \<le> ast_ConsecutiveHigh st + 1"
    and l: "i64 (ast_ConsecutiveLow st + 1) \<le> ast_ConsecutiveLow st + 1"
    using assms(1) by (auto simp: counters_ok_def intro: i64_le)
  have up: "dec_NextConsecutiveHigh d \<le> trailing (obs_high p) (obs @ [(t, signals)])"
    using C(1) h assms(1) by (auto simp: trailing_snoc counters_ok_def)
  have low: "dec_NextConsecutiveLow d \<le> trailing (obs_low p) (obs @ [(t, signals)])"
    using C(2) l assms(1) by (auto simp: trailing_snoc counters_ok_def)
  have "min_i64 < dec_NextConsecutiveHigh d + 1" "min_i64 < dec_NextConsecutiveLow d + 1"
    using C(1,2) counters_ge by (auto simp: min_i64_def)
  with up low show ?thesis by (simp add: counters_ok_def next_state_def Let_def)
qed

lemma control_run_counters:
  assumes "\<forall>x \<in> set obs. \<forall>st. within_bounds p st \<longrightarrow> (\<exists>d. queue_decide p st (fst x) (snd x) = Inr d)"
    and "within_bounds p st" "ast_ConsecutiveHigh st = 0" "ast_ConsecutiveLow st = 0"
  shows "counters_ok p (control_run queue_decide p st obs) obs"
  using assms(1)
proof (induction obs rule: rev_induct)
  case Nil
  then show ?case using assms by (simp add: counters_ok_def trailing_def min_i64_def)
next
  case (snoc x obs)
  obtain t signals where x: "x = (t, signals)" by (cases x)
  let ?st = "control_run queue_decide p st obs"
  have "within_bounds p ?st" using assms(2) by (rule queue_loop.run_within)
  then obtain d where d: "queue_decide p ?st t signals = Inr d" using snoc.prems x by fastforce
  have "counters_ok p ?st obs" using snoc by simp
  from decide_counters_ok [OF this d] show ?case by (simp add: x control_run_snoc d Let_def)
qed

lemma queue_decide_total:
  "within_bounds p st \<Longrightarrow> 1 \<le> asp_ScaleUpIntervals p \<Longrightarrow> 1 \<le> asp_ScaleDownIntervals p \<Longrightarrow>
   0 \<le> asp_Cooldown p \<Longrightarrow> \<exists>d. queue_decide p st t signals = Inr d"
  by (auto simp: queue_decide_def Evaluate_def within_bounds_def Let_def)


section \<open>Only justified calls of the fleet\<close>

text \<open>
  An assertion that every call of the environment keeps, and that \<open>ScaleTo\<close> keeps when called as a
  policy allows, survives a pass of the controller: so \<open>ScaleTo\<close> is called in no other way.
\<close>

definition scale_allowed :: "as_deployment list \<Rightarrow> string \<Rightarrow> int \<Rightarrow> bool" where
  "scale_allowed ds deployment_id n \<longleftrightarrow>
     (\<exists>dep \<in> set ds. asd_ID dep = deployment_id \<and> asp_Enabled (asd_Policy dep) \<and>
        asp_MinReplicas (asd_Policy dep) \<le> n \<and> n \<le> asp_MaxReplicas (asd_Policy dep) \<and>
        \<bar>n - ast_Replicas (asd_State dep)\<bar> = 1)"

definition keeps :: "('s \<Rightarrow> bool) \<Rightarrow> ('s \<Rightarrow> 'a \<times> 's) \<Rightarrow> bool" where
  "keeps I f \<longleftrightarrow> (\<forall>s. I s \<longrightarrow> I (snd (f s)))"

lemma keepsD: "keeps I f \<Longrightarrow> I s \<Longrightarrow> f s = (x, s') \<Longrightarrow> I s'"
  unfolding keeps_def by (metis snd_conv)

definition env_keeps :: "('s \<Rightarrow> bool) \<Rightarrow> 's autoscale_env \<Rightarrow> bool" where
  "env_keeps I env \<longleftrightarrow>
     keeps I (ae_AutoscalingDeployments env) \<and> (\<forall>i t. keeps I (ae_AutoscalingSLOEvidence env i t)) \<and>
     (\<forall>i d e. keeps I (ae_RecordDecision env i d e)) \<and> (\<forall>i st. keeps I (ae_SaveState env i st)) \<and>
     (\<forall>i. keeps I (ae_Signals env i)) \<and> keeps I (ae_now env) \<and> keeps I (ae_ctxErr env)"

lemma env_keepsD:
  assumes "env_keeps I env" "I s"
  shows "ae_AutoscalingDeployments env s = (r1, s') \<Longrightarrow> I s'"
    and "ae_AutoscalingSLOEvidence env i t s = (r2, s') \<Longrightarrow> I s'"
    and "ae_RecordDecision env i d e s = (r3, s') \<Longrightarrow> I s'"
    and "ae_SaveState env i st s = (r3, s') \<Longrightarrow> I s'"
    and "ae_Signals env i s = (r4, s') \<Longrightarrow> I s'"
    and "ae_now env s = (t, s') \<Longrightarrow> I s'"
    and "ae_ctxErr env s = (r3, s') \<Longrightarrow> I s'"
  using assms keepsD unfolding env_keeps_def by metis+

lemma record_and_save_keeps:
  assumes "env_keeps I env" "I s"
  shows "I (snd (record_and_save env dep signals ev d s))"
proof -
  let ?st = "next_state (asd_State dep) d (sig_ObservedAt signals)"
  obtain r1 s1 where 1: "ae_RecordDecision env (asd_ID dep) d (ae_snapshot env signals ev) s = (r1, s1)"
    by fastforce
  then have I1: "I s1" using assms env_keepsD(3) by metis
  obtain r2 s2 where 2: "ae_SaveState env (asd_ID dep) ?st s1 = (r2, s2)" by fastforce
  then have "I s2" using assms(1) I1 env_keepsD(4) by metis
  then show ?thesis using 1 2 I1 by (cases r1; cases r2) (auto simp: record_and_save_def)
qed

lemma deployment_pass_keeps:
  assumes env: "env_keeps I env" and dep: "dep \<in> set ds" "within_bounds (asd_Policy dep) (asd_State dep)"
    and scale: "\<And>i n. scale_allowed ds i n \<Longrightarrow> keeps I (ae_ScaleTo env i n)" and I: "I s"
  shows "I (snd (deployment_pass env dep s))"
proof -
  have scaled: "I (snd (apply_decision env dep signals ev d s'))"
    if "I s'" "EvaluateWithSLO (ae_oob env) (asd_Policy dep) (asd_State dep) signals ev = Inr d"
    for s' signals ev d
  proof -
    have "sound_decision (asd_Policy dep) (asd_State dep) (sig_ObservedAt signals) d"
      using EvaluateWithSLO_sound [OF that(2) dep(2)] .
    then have "dec_Action d = ''hold'' \<or> scale_allowed ds (asd_ID dep) (dec_NewReplicas d)"
      using dep(1) by (auto simp: sound_decision_def scale_allowed_def)
    then have "dec_Action d = ''hold'' \<or> keeps I (ae_ScaleTo env (asd_ID dep) (dec_NewReplicas d))"
      using scale by blast
    then show ?thesis
      using that(1) record_and_save_keeps [OF env]
      by (auto simp: apply_decision_def split: prod.splits option.splits dest!: keepsD)
  qed
  obtain r1 s1 where 1: "ae_Signals env (asd_ID dep) s = (r1, s1)" by fastforce
  then have I1: "I s1" using env I env_keepsD(5) by metis
  obtain t s2 where 2: "ae_now env s1 = (t, s2)" by fastforce
  then have I2: "I s2" using env I1 env_keepsD(6) by metis
  obtain r3 s3 where 3: "ae_AutoscalingSLOEvidence env (asd_ID dep) t s2 = (r3, s3)" by fastforce
  then have "I s3" using env I2 env_keepsD(2) by metis
  then show ?thesis
    using 1 2 3 I1 scaled by (auto simp: deployment_pass_def Let_def split: sum.splits)
qed

lemma deployments_loop_keeps:
  assumes env: "env_keeps I env"
    and scale: "\<And>i n. scale_allowed ds i n \<Longrightarrow> keeps I (ae_ScaleTo env i n)"
  shows "set deps \<subseteq> set ds \<Longrightarrow> \<forall>dep \<in> set deps. within_bounds (asd_Policy dep) (asd_State dep) \<Longrightarrow> I s \<Longrightarrow>
    I (snd (deployments_loop env deps fs s))"
proof (induction deps arbitrary: fs s)
  case (Cons dep deps)
  obtain c s1 where c: "ae_ctxErr env s = (c, s1)" by fastforce
  then have I1: "I s1" using env Cons.prems(3) env_keepsD(7) by metis
  show ?case
  proof (cases c)
    case None
    obtain f s2 where p: "deployment_pass env dep s1 = (f, s2)" by fastforce
    have "I s2"
      using deployment_pass_keeps [OF env _ _ scale I1, of dep ds] Cons.prems p by fastforce
    then show ?thesis using Cons c None p by (cases f) auto
  qed (use c I1 in simp)
qed simp

section \<open>Properties\<close>

text \<open>
  The history of one deployment under the SLO evaluator when every decision is applied and saved: the
  replicas stay within the policy's bounds and scalings are a cooldown apart.
\<close>

lemma slo_history_spaced:
  assumes "within_bounds p st" "0 \<le> asp_Cooldown p" "asp_Cooldown p \<le> max_i64"
  shows "within_bounds p (control_run (slo_decide oob) p st obs)"
    and "successively (\<lambda>a b. a = 0 \<or> asp_Cooldown p \<le> b - a) (scale_times (slo_decide oob) p st obs)"
  using slo_loop.run_within [OF assms(1), of oob obs] slo_loop.scale_times_spaced [OF assms, of oob obs] by simp_all

definition example_policy :: as_policy where
  "example_policy = \<lparr>asp_Enabled = True, asp_MinReplicas = 1, asp_MaxReplicas = 3,
     asp_QueueThreshold = FNum 5, asp_LowLoadThreshold = FNum 1, asp_ScaleUpIntervals = 2,
     asp_ScaleDownIntervals = 2, asp_Cooldown = Minute, asp_MaxTTFTP95MS = None, asp_MaxLatencyP95MS = None\<rparr>"

definition example_state :: as_state where
  "example_state = \<lparr>ast_Replicas = 1, ast_ConsecutiveHigh = 0, ast_ConsecutiveLow = 0, ast_LastScaledAt = 0\<rparr>"

definition busy :: as_signals where
  "busy = \<lparr>sig_Waiting = FNum 9, sig_Running = FNum 1, sig_ObservedAt = 0\<rparr>"

definition no_evidence :: slo_evidence where
  "no_evidence = \<lparr>slo_RequestSamples = 0, slo_RequestsPerSecond = None, slo_P95TTFTMS = None,
     slo_P95LatencyMS = None, slo_BenchmarkID = '''', slo_BenchmarkSamples = 0, slo_GoodputPerReplica = None,
     slo_Comparable = False, slo_ComparisonBoundary = '''', slo_RequestWindowSeconds = 0\<rparr>"

text \<open>
  The queue evaluator scales only on sustained signals. If, after any observations, it decides to
  scale up (down), then each of the last \<open>ScaleUpIntervals\<close> (\<open>ScaleDownIntervals\<close>) observations, the
  deciding one included, was at or above the queue threshold (below it, with the load at or under
  the low-load threshold).
\<close>

theorem scaling_needs_sustained_signals:
  assumes "within_bounds p st" "ast_ConsecutiveHigh st = 0" "ast_ConsecutiveLow st = 0"
    and "1 \<le> asp_ScaleUpIntervals p" "1 \<le> asp_ScaleDownIntervals p" "0 \<le> asp_Cooldown p"
    and "queue_decide p (control_run queue_decide p st obs) t signals = Inr d"
  shows "(dec_Action d = ''scale_up'' \<longrightarrow> nat (asp_ScaleUpIntervals p) \<le> Suc (length obs) \<and>
      (\<forall>x \<in> set (drop (Suc (length obs) - nat (asp_ScaleUpIntervals p)) (obs @ [(t, signals)])). obs_high p x)) \<and>
    (dec_Action d = ''scale_down'' \<longrightarrow> nat (asp_ScaleDownIntervals p) \<le> Suc (length obs) \<and>
      (\<forall>x \<in> set (drop (Suc (length obs) - nat (asp_ScaleDownIntervals p)) (obs @ [(t, signals)])). obs_low p x))"
proof -
  let ?st = "control_run queue_decide p st obs" and ?xs = "obs @ [(t, signals)]"
  have "counters_ok p ?st obs"
    using assms by (intro control_run_counters) (auto intro: queue_decide_total)
  then have h: "i64 (ast_ConsecutiveHigh ?st + 1) \<le> trailing (obs_high p) obs + 1"
    and l: "i64 (ast_ConsecutiveLow ?st + 1) \<le> trailing (obs_low p) obs + 1"
    using i64_le [of "ast_ConsecutiveHigh ?st + 1"] i64_le [of "ast_ConsecutiveLow ?st + 1"]
    by (auto simp: counters_ok_def)
  note C = queue_decide_counters [OF assms(7)]
  have "int (nat (asp_ScaleUpIntervals p)) \<le> trailing (obs_high p) ?xs" if "dec_Action d = ''scale_up''"
    using C(3) [OF that] h assms(4) by (simp add: trailing_snoc)
  note up = trailing_suffix [OF this]
  have "int (nat (asp_ScaleDownIntervals p)) \<le> trailing (obs_low p) ?xs"
    if "dec_Action d = ''scale_down''"
    using C(4) [OF that] l assms(5) by (simp add: trailing_snoc)
  note down = trailing_suffix [OF this]
  have len: "length ?xs = Suc (length obs)" by simp
  show ?thesis using up down unfolding len by blast
qed

lemma example_scales_up:
  "\<exists>d. queue_decide example_policy (control_run queue_decide example_policy example_state [(Second, busy)])
      (2 * Second) busy = Inr d \<and> dec_Action d = ''scale_up''"
  by (simp add: queue_decide_def Evaluate_def example_policy_def example_state_def busy_def Let_def
      in_cooldown_def is_zero_time_def queue_high_def hold_decision_def next_state_def i64_def f_le_def)

theorem scaling_needs_sustained_signals_witness:
  "\<exists>d. queue_decide example_policy (control_run queue_decide example_policy example_state [(Second, busy)])
      (2 * Second) busy = Inr d \<and> dec_Action d = ''scale_up'' \<and> obs_high example_policy (Second, busy)"
proof -
  obtain d where d: "queue_decide example_policy
      (control_run queue_decide example_policy example_state [(Second, busy)]) (2 * Second) busy = Inr d"
    and up: "dec_Action d = ''scale_up''"
    using example_scales_up by blast
  have w: "within_bounds example_policy example_state"
    by (simp add: within_bounds_def example_policy_def example_state_def max_i64_def)
  from scaling_needs_sustained_signals [OF w _ _ _ _ _ d] up have "obs_high example_policy (Second, busy)"
    by (simp add: example_policy_def example_state_def)
  then show ?thesis using d up by blast
qed

text \<open>
  A pass of the controller asks the fleet only for what a policy allows. An assertion about the
  environment that every other call keeps, and that \<open>ScaleTo\<close> keeps when it is called for a listed,
  enabled deployment with a count inside its bounds and one away from its recorded count, holds
  after the pass: the controller calls \<open>ScaleTo\<close> in no other way, whatever the calls return.
\<close>

theorem controller_scales_within_policy:
  assumes "env_keeps I env" "I s"
    and "ae_AutoscalingDeployments env s = (Inr ds, s1)"
    and "\<And>dep. dep \<in> set ds \<Longrightarrow> within_bounds (asd_Policy dep) (asd_State dep)"
    and "\<And>i n. scale_allowed ds i n \<Longrightarrow> keeps I (ae_ScaleTo env i n)"
  shows "I (snd (controller_Once (Some env) s))"
proof -
  have "I s1" using env_keepsD(1) [OF assms(1,2,3)] .
  then have "I (snd (deployments_loop env ds [] s1))"
    using assms(4,5) by (intro deployments_loop_keeps [OF assms(1), of ds]) auto
  then show ?thesis using assms(3) by (simp add: controller_Once_def)
qed

definition example_deployment :: as_deployment where
  "example_deployment = \<lparr>asd_ID = ''chat'', asd_Policy = example_policy,
     asd_State = example_state\<lparr>ast_ConsecutiveHigh := 1\<rparr>\<rparr>"

text \<open>An environment whose state is the fleet's size: a busy deployment, everything else succeeds.\<close>

definition example_autoscale_env :: "int autoscale_env" where
  "example_autoscale_env =
     \<lparr>ae_AutoscalingDeployments = (\<lambda>s. (Inr [example_deployment], s)),
      ae_AutoscalingSLOEvidence = (\<lambda>_ _ s. (Inr no_evidence, s)), ae_RecordDecision = (\<lambda>_ _ _ s. (None, s)),
      ae_SaveState = (\<lambda>_ _ s. (None, s)), ae_Signals = (\<lambda>_ s. (Inr busy, s)),
      ae_ScaleTo = (\<lambda>_ n s. (None, n)), ae_now = (\<lambda>s. (Second, s)), ae_ctxErr = (\<lambda>s. (None, s)),
      ae_snapshot = (\<lambda>_ _. ''''), ae_oob = (\<lambda>_. 0)\<rparr>"

theorem controller_scales_within_policy_witness:
  "snd (controller_Once (Some example_autoscale_env) 1) \<in> {1..3}"
proof (rule controller_scales_within_policy)
  show "env_keeps (\<lambda>n. n \<in> {1..3}) example_autoscale_env"
    by (simp add: example_autoscale_env_def env_keeps_def keeps_def)
  show "ae_AutoscalingDeployments example_autoscale_env 1 = (Inr [example_deployment], 1)"
    by (simp add: example_autoscale_env_def)
  show "within_bounds (asd_Policy dep) (asd_State dep)" if "dep \<in> set [example_deployment]" for dep
    using that
    by (simp add: within_bounds_def example_deployment_def example_policy_def example_state_def max_i64_def)
  show "keeps (\<lambda>n. n \<in> {1..3}) (ae_ScaleTo example_autoscale_env i n)"
    if "scale_allowed [example_deployment] i n" for i n
    using that by (simp add: scale_allowed_def example_deployment_def example_policy_def keeps_def
        example_autoscale_env_def)
qed simp

end
