(* ===== verification/Autoscale_Store.thy ===== *)
theory Autoscale_Store
  imports Autoscale Sql_Table
begin

text \<open>
  The autoscaling controller on its store (\<open>internal/store/autoscaling.go\<close>): the deployments with
  policy, in-rotation targets and saved state as \<open>AutoscalingDeployments\<close> lists them, \<open>ScaleTo\<close> with
  its bounds check and its suppression of duplicate operations, \<open>RecordDecision\<close> and \<open>SaveState\<close>.
  Every call may fail, at any time. The store keeps, beside its tables, the history of the scale
  operations it has queued, about which the properties speak.
\<close>


section \<open>The store\<close>

text \<open>
  A queued scale operation: the deployment as listed, the requested count, the bounds of its
  deployment row, the time the controller decided by, and whether the rest of that iteration (the
  record of the decision and the save of the state) succeeds.
\<close>

record scale_op =
  so_ID :: string
  so_Listed :: "as_deployment option"
  so_Count :: int
  so_Min :: int
  so_Max :: int
  so_At :: gotime
  so_Saved :: bool

record scale_store =
  ss_rows :: "as_deployment list"
  ss_eligible :: "string \<Rightarrow> bool"
  ss_bounds :: "string \<rightharpoonup> int \<times> int"
  ss_unresolved :: "string \<rightharpoonup> int"
  ss_clock :: gotime
  ss_ops :: "scale_op list"

text \<open>
  How the calls of one pass end. The error of a call stands for every failure before its commit, for
  \<open>ScaleTo\<close> also a deployment without a cloud configuration; a call that fails has changed nothing.
\<close>

record pass_env =
  pe_list :: "string option"
  pe_ctx :: "scale_store \<Rightarrow> string option"
  pe_now :: "scale_store \<Rightarrow> gotime"
  pe_Signals :: "string \<Rightarrow> scale_store \<Rightarrow> string + as_signals"
  pe_Evidence :: "string \<Rightarrow> gotime \<Rightarrow> scale_store \<Rightarrow> string + slo_evidence"
  pe_scale :: "string \<Rightarrow> string option"
  pe_record :: "string \<Rightarrow> string option"
  pe_save :: "string \<Rightarrow> string option"
  pe_encode :: "as_signals \<Rightarrow> slo_evidence \<Rightarrow> string"
  pe_convert :: "f64 \<Rightarrow> int"

definition AutoscalingDeployments :: "pass_env \<Rightarrow> scale_store \<Rightarrow> (string + as_deployment list) \<times> scale_store" where
  "AutoscalingDeployments pe s =
     (case pe_list pe of Some e \<Rightarrow> (Inl e, s)
      | None \<Rightarrow> (Inr (filter (\<lambda>d. ss_eligible s (asd_ID d) \<and> asp_Enabled (asd_Policy d)) (ss_rows s)), s))"

definition listed_row :: "string \<Rightarrow> scale_store \<Rightarrow> as_deployment option" where
  "listed_row deploymentID s = find (\<lambda>d. asd_ID d = deploymentID) (ss_rows s)"

definition ScaleTo :: "pass_env \<Rightarrow> string \<Rightarrow> int \<Rightarrow> scale_store \<Rightarrow> string option \<times> scale_store" where
  "ScaleTo pe deploymentID desired s =
     (case pe_scale pe deploymentID of
        Some e \<Rightarrow> (Some e, s)
      | None \<Rightarrow>
          (case ss_bounds s deploymentID of
             None \<Rightarrow> (Some ''not found'', s)
           | Some (minReplicas, maxReplicas) \<Rightarrow>
               if desired < minReplicas \<or> desired > maxReplicas
                 then (Some (''desired replicas '' @ itoa desired @ '' outside '' @ itoa minReplicas @ ''..'' @ itoa maxReplicas), s)
               else case ss_unresolved s deploymentID of
                 Some existingDesired \<Rightarrow>
                   if existingDesired = desired then (None, s) else (Some ''conflict: another scaling operation is in progress'', s)
               | None \<Rightarrow>
                   (None, s\<lparr>ss_unresolved := (ss_unresolved s)(deploymentID \<mapsto> desired),
                     ss_ops := ss_ops s @ [\<lparr>so_ID = deploymentID, so_Listed = listed_row deploymentID s, so_Count = desired,
                       so_Min = minReplicas, so_Max = maxReplicas, so_At = ss_clock s,
                       so_Saved = (pe_record pe deploymentID = None \<and> pe_save pe deploymentID = None)\<rparr>]\<rparr>)))"

text \<open>\<open>last_scaled_at\<close> is \<open>NULL\<close> for the zero time, which is how it is read again.\<close>

definition saved_row :: "as_state \<Rightarrow> as_deployment \<Rightarrow> as_deployment" where
  "saved_row state d = d\<lparr>asd_State := (asd_State d)\<lparr>ast_ConsecutiveHigh := ast_ConsecutiveHigh state,
     ast_ConsecutiveLow := ast_ConsecutiveLow state, ast_LastScaledAt := ast_LastScaledAt state\<rparr>\<rparr>"

definition SaveState :: "pass_env \<Rightarrow> string \<Rightarrow> as_state \<Rightarrow> scale_store \<Rightarrow> string option \<times> scale_store" where
  "SaveState pe deploymentID state s =
     (case pe_save pe deploymentID of Some e \<Rightarrow> (Some e, s)
      | None \<Rightarrow> (None, s\<lparr>ss_rows := upd_where (\<lambda>d. asd_ID d = deploymentID) (saved_row state) (ss_rows s)\<rparr>))"

definition store_env :: "pass_env \<Rightarrow> scale_store autoscale_env" where
  "store_env pe =
     \<lparr>ae_AutoscalingDeployments = AutoscalingDeployments pe,
      ae_AutoscalingSLOEvidence = (\<lambda>i t s. (pe_Evidence pe i t s, s)),
      ae_RecordDecision = (\<lambda>i d e s. (pe_record pe i, s)),
      ae_SaveState = SaveState pe, ae_Signals = (\<lambda>i s. (pe_Signals pe i s, s)),
      ae_ScaleTo = ScaleTo pe, ae_now = (\<lambda>s. (pe_now pe s, s\<lparr>ss_clock := pe_now pe s\<rparr>)),
      ae_ctxErr = (\<lambda>s. (pe_ctx pe s, s)), ae_snapshot = pe_encode pe, ae_oob = pe_convert pe\<rparr>"

text \<open>The ranges of the columns: counts are not negative and below \<open>int64\<close>'s end, so is the cooldown.\<close>

definition row_ok :: "as_deployment \<Rightarrow> bool" where
  "row_ok d \<longleftrightarrow> 0 \<le> ast_Replicas (asd_State d) \<and> ast_Replicas (asd_State d) < max_i64 \<and>
     asp_MaxReplicas (asd_Policy d) < max_i64 \<and> 0 \<le> asp_Cooldown (asd_Policy d) \<and> asp_Cooldown (asd_Policy d) \<le> max_i64"

text \<open>
  Runs: passes of the controller, with whatever failures, and between them whatever else happens.
  Policies, bounds, targets and counters change, scale operations are resolved, deployments come and
  go. Only \<open>SaveState\<close> writes \<open>last_scaled_at\<close>, the identity of a deployment is not used again, and the
  clock of the controller is past the zero time. Passes do not overlap: there is one controller, and what
  others write becomes visible to it between two passes.
\<close>

inductive scaling_step :: "scale_store \<Rightarrow> scale_store \<Rightarrow> bool" where
  pass: "\<forall>s. 0 < pe_now pe s \<Longrightarrow> scaling_step s (snd (controller_Once (Some (store_env pe)) s))"
| outside: "distinct (map asd_ID rows) \<Longrightarrow> \<forall>d \<in> set rows. row_ok d \<Longrightarrow>
    \<forall>d \<in> set rows. (\<exists>d0 \<in> set (ss_rows s). asd_ID d0 = asd_ID d \<and> ast_LastScaledAt (asd_State d0) = ast_LastScaledAt (asd_State d)) \<or>
      (\<forall>e \<in> set (ss_ops s). so_ID e \<noteq> asd_ID d) \<Longrightarrow>
    scaling_step s (s\<lparr>ss_rows := rows, ss_eligible := eligible, ss_bounds := bounds, ss_unresolved := unresolved\<rparr>)"


section \<open>What an evaluator asks for\<close>








section \<open>What a pass does\<close>










section \<open>Operations stay a cooldown apart\<close>











section \<open>Properties\<close>



text \<open>A deployment of one to three replicas that scales at the first busy observation, with a cooldown of a minute.\<close>

definition chat_row :: "int \<Rightarrow> gotime \<Rightarrow> as_deployment" where
  "chat_row replicas since = \<lparr>asd_ID = ''chat'', asd_Policy = example_policy\<lparr>asp_ScaleUpIntervals := 1\<rparr>,
     asd_State = example_state\<lparr>ast_Replicas := replicas, ast_LastScaledAt := since\<rparr>\<rparr>"

definition chat_store :: "int \<Rightarrow> gotime \<Rightarrow> gotime \<Rightarrow> int option \<Rightarrow> scale_op list \<Rightarrow> scale_store" where
  "chat_store replicas since clock op ops = \<lparr>ss_rows = [chat_row replicas since], ss_eligible = (\<lambda>_. True),
     ss_bounds = (\<lambda>_. Some (1, 3)), ss_unresolved = (\<lambda>i. if i = ''chat'' then op else None), ss_clock = clock, ss_ops = ops\<rparr>"

definition busy_pass :: "gotime \<Rightarrow> bool \<Rightarrow> pass_env" where
  "busy_pass t saves = \<lparr>pe_list = None, pe_ctx = (\<lambda>_. None), pe_now = (\<lambda>_. t), pe_Signals = (\<lambda>_ _. Inr busy),
     pe_Evidence = (\<lambda>_ _ _. Inr no_evidence), pe_scale = (\<lambda>_. None), pe_record = (\<lambda>_. None),
     pe_save = (\<lambda>_. if saves then None else Some ''connection lost''), pe_encode = (\<lambda>_ _. ''{}''), pe_convert = (\<lambda>_. 0)\<rparr>"

definition chat_op :: "int \<Rightarrow> gotime \<Rightarrow> gotime \<Rightarrow> bool \<Rightarrow> scale_op" where
  "chat_op replicas since t saves = \<lparr>so_ID = ''chat'', so_Listed = Some (chat_row replicas since), so_Count = replicas + 1,
     so_Min = 1, so_Max = 3, so_At = t, so_Saved = saves\<rparr>"

lemma chat_decision:
  assumes "1 \<le> replicas" "replicas < 3" "since = 0 \<or> Minute \<le> time_sub t since"
  shows "\<exists>d. EvaluateWithSLO (\<lambda>_. 0) (asd_Policy (chat_row replicas since)) (asd_State (chat_row replicas since))
      (busy\<lparr>sig_ObservedAt := t\<rparr>) no_evidence = Inr d \<and> dec_Action d = ''scale_up'' \<and> dec_NewReplicas d = replicas + 1 \<and>
      dec_NextConsecutiveHigh d = 0 \<and> dec_NextConsecutiveLow d = 0"
proof -
  have "i64 (replicas + 1) = replicas + 1" using assms by (intro i64_id) (simp add: is_i64_def min_i64_def max_i64_def)
  then show ?thesis using assms
    by (auto simp: EvaluateWithSLO_def queue_fallback_def Evaluate_def queue_high_def hold_decision_def in_cooldown_def is_zero_time_def
        chat_row_def example_policy_def example_state_def busy_def f_le_def i64_def Let_def)
qed

lemma chat_pass:
  assumes "1 \<le> replicas" "replicas < 3" "since = 0 \<or> Minute \<le> time_sub t since"
  shows "snd (controller_Once (Some (store_env (busy_pass t saves))) (chat_store replicas since clock None ops)) =
    chat_store replicas (if saves then t else since) t (Some (replicas + 1)) (ops @ [chat_op replicas since t saves])"
proof -
  obtain d where d: "EvaluateWithSLO (\<lambda>_. 0) (asd_Policy (chat_row replicas since)) (asd_State (chat_row replicas since))
      (busy\<lparr>sig_ObservedAt := t\<rparr>) no_evidence = Inr d" "dec_Action d = ''scale_up''" "dec_NewReplicas d = replicas + 1"
      "dec_NextConsecutiveHigh d = 0" "dec_NextConsecutiveLow d = 0"
    using chat_decision [OF assms] by blast
  have row: "asd_ID (chat_row replicas since) = ''chat''" "asp_Enabled (asd_Policy (chat_row replicas since))"
    by (simp_all add: chat_row_def example_policy_def)
  have next_row: "saved_row (next_state (asd_State (chat_row replicas since)) d t) (chat_row replicas since) = chat_row replicas t"
    using d by (simp add: saved_row_def next_state_def chat_row_def example_state_def Let_def)
  show ?thesis
    using assms d(1,2,3) row next_row
    by (auto simp: controller_Once_def store_env_def AutoscalingDeployments_def busy_pass_def chat_store_def deployment_pass_def
        apply_decision_def record_and_save_def ScaleTo_def SaveState_def listed_row_def chat_op_def upd_where_def fun_eq_iff Let_def)
qed

lemma chat_resolved: "0 \<le> replicas' \<Longrightarrow> replicas' \<le> 3 \<Longrightarrow>
  scaling_step (chat_store replicas since clock op ops) (chat_store replicas' since clock None ops)"
proof -
  assume r: "0 \<le> replicas'" "replicas' \<le> 3"
  let ?s = "chat_store replicas since clock op ops"
  have "scaling_step ?s (?s\<lparr>ss_rows := [chat_row replicas' since], ss_eligible := \<lambda>_. True, ss_bounds := \<lambda>_. Some (1, 3),
      ss_unresolved := \<lambda>i. if i = ''chat'' then None else None\<rparr>)"
    by (rule scaling_step.outside)
      (use r in \<open>simp_all add: row_ok_def chat_row_def chat_store_def example_policy_def example_state_def max_i64_def\<close>)
  then show ?thesis by (simp add: chat_store_def)
qed

lemma chat_history:
  assumes "0 < t" "0 < u" "since' = (if saves then t else 0)" "since' = 0 \<or> Minute \<le> time_sub u since'"
  shows "scaling_step\<^sup>*\<^sup>* (chat_store 1 0 0 None []) (chat_store 2 (if saves' then u else since') u (Some 3) [chat_op 1 0 t saves, chat_op 2 since' u saves'])"
proof -
  have 1: "scaling_step (chat_store 1 0 0 None []) (chat_store 1 since' t (Some 2) [chat_op 1 0 t saves])"
    using scaling_step.pass [of "busy_pass t saves" "chat_store 1 0 0 None []"] chat_pass [of 1 0 t saves 0 "[]"] assms(1,3)
    by (simp add: busy_pass_def)
  have 2: "scaling_step (chat_store 1 since' t (Some 2) [chat_op 1 0 t saves]) (chat_store 2 since' t None [chat_op 1 0 t saves])"
    by (rule chat_resolved) simp_all
  have 3: "scaling_step (chat_store 2 since' t None [chat_op 1 0 t saves])
      (chat_store 2 (if saves' then u else since') u (Some 3) [chat_op 1 0 t saves, chat_op 2 since' u saves'])"
    using scaling_step.pass [of "busy_pass u saves'" "chat_store 2 since' t None [chat_op 1 0 t saves]"]
      chat_pass [of 2 since' u saves' t "[chat_op 1 0 t saves]"] assms(2,4)
    by (simp add: busy_pass_def)
  from 1 2 3 show ?thesis by (meson rtranclp.rtrancl_into_rtrancl rtranclp.rtrancl_refl)
qed



text \<open>
  A save that fails after \<open>ScaleTo\<close> loses the time of the scaling: as soon as the operation is
  resolved, the next pass scales again, here one second later under a cooldown of a minute.
\<close>

lemma lost_save_skips_cooldown:
  "\<exists>s a b. scaling_step\<^sup>*\<^sup>* (chat_store 1 0 0 None []) s \<and> ss_ops s = [a, b] \<and> so_ID a = so_ID b \<and>
     so_At b - so_At a = Second \<and> asp_Cooldown (asd_Policy (chat_row 1 0)) = Minute"
proof -
  let ?a = "chat_op 1 0 Second False" and ?b = "chat_op 2 0 (2 * Second) True"
  let ?s = "chat_store 2 (2 * Second) (2 * Second) (Some 3) [?a, ?b]"
  have "scaling_step\<^sup>*\<^sup>* (chat_store 1 0 0 None []) ?s"
    using chat_history [of Second "2 * Second" 0 False True] by simp
  moreover have "ss_ops ?s = [?a, ?b]" "so_ID ?a = so_ID ?b" "so_At ?b - so_At ?a = Second" "asp_Cooldown (asd_Policy (chat_row 1 0)) = Minute"
    by (simp_all add: chat_store_def chat_op_def chat_row_def example_policy_def)
  ultimately show ?thesis by blast
qed

end
