(* ===== verification/Capacity.thy ===== *)
theory Capacity
  imports Autoscale
begin

text \<open>
  Capacity planning of a fleet (\<open>internal/autoscale/capacity_envelope.go\<close> and
  \<open>capacity_controller.go\<close>): the replicas that let every demand dimension fit, a failure reserve on
  top, the cost, margin and supply gates, and the loop that bounds admission before it asks the
  fleet to change.
\<close>


section \<open>The envelope\<close>

record capacity_policy =
  cp_MinReplicas :: int
  cp_MaxReplicas :: int
  cp_FailureReserveReplicas :: int
  cp_MinimumFaultDomains :: int
  cp_MaximumScaleUpStep :: int
  cp_TargetProductiveUtilization :: f64
  cp_DemandForecastMultiplier :: f64
  cp_MaximumFleetHourlyCostUSD :: f64
  cp_MinimumContributionMargin :: f64
  cp_RequireAvailableSupply :: bool

record demand_envelope =
  de_RequestsPerSecond :: f64
  de_InputTokensPerSecond :: f64
  de_OutputTokensPerSecond :: f64
  de_ConcurrentRequests :: f64
  de_RevenuePerHourUSD :: f64

record replica_envelope =
  re_RequestsPerSecond :: f64
  re_InputTokensPerSecond :: f64
  re_OutputTokensPerSecond :: f64
  re_ConcurrentRequests :: f64
  re_HourlyCostUSD :: f64
  re_EvidenceClass :: string
  re_WorkloadDigest :: string
  re_SupplyAvailable :: bool
  re_AvailableFaultDomains :: int

record fleet_state =
  fs_ReadyReplicas :: int
  fs_PendingReplicas :: int
  fs_DrainingReplicas :: int

record capacity_decision =
  cd_Action :: string
  cd_CurrentReplicas :: int
  cd_TargetReplicas :: int
  cd_RequiredServingReplicas :: int
  cd_FailureReserveReplicas :: int
  cd_RequiredFaultDomains :: int
  cd_HighAvailabilityBlocked :: bool
  cd_ProjectedHourlyCostUSD :: f64
  cd_ProjectedContributionMargin :: f64
  cd_ShedExcessTraffic :: bool
  cd_ReadyServingReplicas :: int
  cd_BindingDimensions :: "string list"
  cd_Reasons :: "string list"

definition not_positive_finite :: "f64 \<Rightarrow> bool" where
  "not_positive_finite v \<longleftrightarrow> f_le v f_zero \<or> is_nan v \<or> is_inf v"

definition not_nonnegative_finite :: "f64 \<Rightarrow> bool" where
  "not_nonnegative_finite v \<longleftrightarrow> f_lt v f_zero \<or> is_nan v \<or> is_inf v"

definition validateCapacityInputs ::
  "capacity_policy \<Rightarrow> demand_envelope \<Rightarrow> replica_envelope \<Rightarrow> fleet_state \<Rightarrow> string option" where
  "validateCapacityInputs policy demand replica fleet =
     (if cp_MinReplicas policy < 1 \<or> cp_MaxReplicas policy < cp_MinReplicas policy \<or>
         cp_FailureReserveReplicas policy < 0 \<or> cp_FailureReserveReplicas policy \<ge> cp_MaxReplicas policy \<or>
         cp_MinimumFaultDomains policy < 1 \<or> cp_MinimumFaultDomains policy > cp_MaxReplicas policy \<or>
         cp_MaximumScaleUpStep policy < 1 \<or> f_le (cp_TargetProductiveUtilization policy) f_zero \<or>
         f_ge (cp_TargetProductiveUtilization policy) (FNum 1) \<or>
         f_lt (cp_DemandForecastMultiplier policy) (FNum 1) \<or>
         f_lt (cp_MaximumFleetHourlyCostUSD policy) f_zero \<or>
         f_lt (cp_MinimumContributionMargin policy) (FNum (- 1)) \<or>
         f_ge (cp_MinimumContributionMargin policy) (FNum 1)
      then Some ''capacity policy is outside safe bounds''
      else if re_EvidenceClass replica \<noteq> ''measured'' \<or> re_WorkloadDigest replica = ''''
      then Some ''autoscaling requires exact measured replica capacity and workload digest''
      else if re_AvailableFaultDomains replica < 1
      then Some ''at least one qualified fault domain is required''
      else if list_ex not_positive_finite
                [re_RequestsPerSecond replica, re_InputTokensPerSecond replica,
                 re_OutputTokensPerSecond replica, re_ConcurrentRequests replica, re_HourlyCostUSD replica]
      then Some ''replica capacity and cost must be positive finite values''
      else if list_ex not_nonnegative_finite
                [de_RequestsPerSecond demand, de_InputTokensPerSecond demand,
                 de_OutputTokensPerSecond demand, de_ConcurrentRequests demand, de_RevenuePerHourUSD demand]
      then Some ''demand and revenue must be non-negative finite values''
      else if fs_ReadyReplicas fleet < 0 \<or> fs_PendingReplicas fleet < 0 \<or> fs_DrainingReplicas fleet < 0 \<or>
              fs_DrainingReplicas fleet > fs_ReadyReplicas fleet
      then Some ''fleet replica counts are invalid''
      else None)"

definition dimensions :: "demand_envelope \<Rightarrow> replica_envelope \<Rightarrow> (string \<times> f64 \<times> f64) list" where
  "dimensions demand replica =
     [(''requests'', de_RequestsPerSecond demand, re_RequestsPerSecond replica),
      (''prefill_tokens'', de_InputTokensPerSecond demand, re_InputTokensPerSecond replica),
      (''decode_tokens'', de_OutputTokensPerSecond demand, re_OutputTokensPerSecond replica),
      (''concurrency'', de_ConcurrentRequests demand, re_ConcurrentRequests replica)]"

definition dimension_count :: "(f64 \<Rightarrow> int) \<Rightarrow> f64 \<Rightarrow> f64 \<Rightarrow> f64 \<Rightarrow> int" where
  "dimension_count oob forecast demand capacity =
     f_to_int oob (f_ceil (f_div (f_mul demand forecast) capacity))"

fun required_dimensions ::
  "(f64 \<Rightarrow> int) \<Rightarrow> f64 \<Rightarrow> (string \<times> f64 \<times> f64) list \<Rightarrow> int \<times> string list \<Rightarrow> int \<times> string list" where
  "required_dimensions oob forecast [] acc = acc"
| "required_dimensions oob forecast ((name, demand, capacity) # rest) (required, binding) =
     (if f_eq demand f_zero then required_dimensions oob forecast rest (required, binding)
      else let count = dimension_count oob forecast demand capacity in
           if count > required then required_dimensions oob forecast rest (count, [name])
           else if count = required then required_dimensions oob forecast rest (required, binding @ [name])
           else required_dimensions oob forecast rest (required, binding))"

definition append_reason :: "string \<Rightarrow> capacity_decision \<Rightarrow> capacity_decision" where
  "append_reason reason d = d\<lparr>cd_Reasons := cd_Reasons d @ [reason]\<rparr>"

definition shed :: "string \<Rightarrow> capacity_decision \<Rightarrow> capacity_decision" where
  "shed reason d = append_reason reason (d\<lparr>cd_ShedExcessTraffic := True\<rparr>)"

text \<open>The decision before the comparison of the target with the fleet.\<close>

definition capacity_target ::
  "capacity_policy \<Rightarrow> demand_envelope \<Rightarrow> replica_envelope \<Rightarrow> fleet_state \<Rightarrow> int \<Rightarrow> string list \<Rightarrow> capacity_decision"
  where
  "capacity_target policy demand replica fleet required0 binding =
     (let required = max required0 (cp_MinReplicas policy);
          target = i64 (required + cp_FailureReserveReplicas policy);
          target = max target (cp_MinimumFaultDomains policy);
          target = max (cp_MinReplicas policy) (min (cp_MaxReplicas policy) target);
          cost = f_mul (f_of_int target) (re_HourlyCostUSD replica);
          margin = (if f_gt (de_RevenuePerHourUSD demand) f_zero
                    then f_div (f_sub (de_RevenuePerHourUSD demand) cost) (de_RevenuePerHourUSD demand)
                    else f_zero)
      in \<lparr>cd_Action = ''hold'',
          cd_CurrentReplicas = i64 (fs_ReadyReplicas fleet + fs_PendingReplicas fleet),
          cd_TargetReplicas = target, cd_RequiredServingReplicas = required,
          cd_FailureReserveReplicas = cp_FailureReserveReplicas policy,
          cd_RequiredFaultDomains = cp_MinimumFaultDomains policy, cd_HighAvailabilityBlocked = False,
          cd_ProjectedHourlyCostUSD = cost, cd_ProjectedContributionMargin = margin,
          cd_ShedExcessTraffic = False, cd_ReadyServingReplicas = 0, cd_BindingDimensions = binding,
          cd_Reasons = []\<rparr>)"

definition ready_serving :: "capacity_policy \<Rightarrow> fleet_state \<Rightarrow> int" where
  "ready_serving policy fleet =
     (let readyServing = i64 (i64 (fs_ReadyReplicas fleet - fs_DrainingReplicas fleet) -
                              cp_FailureReserveReplicas policy)
      in if fs_ReadyReplicas fleet > 0 \<and> readyServing < 1 then 1 else readyServing)"

definition assess_fleet ::
  "capacity_policy \<Rightarrow> replica_envelope \<Rightarrow> fleet_state \<Rightarrow> capacity_decision \<Rightarrow> capacity_decision" where
  "assess_fleet policy replica fleet d0 =
     (let d1 = (if re_AvailableFaultDomains replica < cp_MinimumFaultDomains policy
                then append_reason (''only '' @ itoa (re_AvailableFaultDomains replica) @
                       '' qualified fault domains are available; policy requires '' @
                       itoa (cp_MinimumFaultDomains policy)) (d0\<lparr>cd_HighAvailabilityBlocked := True\<rparr>)
                else d0);
          d2 = d1\<lparr>cd_ReadyServingReplicas := ready_serving policy fleet\<rparr>;
          d3 = (if cd_RequiredServingReplicas d2 > ready_serving policy fleet
                then shed ''forecast demand exceeds currently ready SLO-qualified capacity; fail fast above the safe admission envelope until scale-up completes'' d2
                else d2)
      in if i64 (cd_RequiredServingReplicas d3 + cp_FailureReserveReplicas policy) > cp_MaxReplicas policy
         then shed ''forecast demand exceeds the configured fleet maximum'' d3 else d3)"

definition grow_fleet ::
  "capacity_policy \<Rightarrow> demand_envelope \<Rightarrow> replica_envelope \<Rightarrow> int \<Rightarrow> capacity_decision \<Rightarrow> capacity_decision" where
  "grow_fleet policy demand replica available d =
     (if cp_RequireAvailableSupply policy \<and> \<not> re_SupplyAvailable replica
      then shed ''qualified accelerator supply is unavailable; preserve the active fleet and fail fast above safe admission'' d
      else if f_gt (cp_MaximumFleetHourlyCostUSD policy) f_zero \<and>
              f_gt (cd_ProjectedHourlyCostUSD d) (cp_MaximumFleetHourlyCostUSD policy)
      then shed ''required fleet exceeds the operator-approved hourly cost ceiling'' d
      else if f_gt (de_RevenuePerHourUSD demand) f_zero \<and>
              f_lt (cd_ProjectedContributionMargin d) (cp_MinimumContributionMargin policy)
      then shed ''required fleet would violate contribution-margin policy; price, routing share, or recipe must change'' d
      else append_reason (join_strings '','' (cd_BindingDimensions d) @ '' requires '' @
             itoa (cd_RequiredServingReplicas d) @ '' serving replicas plus '' @
             itoa (cp_FailureReserveReplicas policy) @ '' failure reserve'')
             (d\<lparr>cd_Action := ''scale_up'',
                cd_TargetReplicas := min (cd_TargetReplicas d) (i64 (available + cp_MaximumScaleUpStep policy))\<rparr>))"

definition EvaluateCapacityEnvelope ::
  "(f64 \<Rightarrow> int) \<Rightarrow> capacity_policy \<Rightarrow> demand_envelope \<Rightarrow> replica_envelope \<Rightarrow> fleet_state \<Rightarrow>
   string + capacity_decision" where
  "EvaluateCapacityEnvelope oob policy demand replica fleet =
     (case validateCapacityInputs policy demand replica fleet of
        Some e \<Rightarrow> Inl e
      | None \<Rightarrow>
          (let forecast = f_div (cp_DemandForecastMultiplier policy) (cp_TargetProductiveUtilization policy)
           in case required_dimensions oob forecast (dimensions demand replica) (0, []) of
                (required0, binding) \<Rightarrow>
                  (let d = assess_fleet policy replica fleet
                             (capacity_target policy demand replica fleet required0 binding);
                       available = i64 (i64 (fs_ReadyReplicas fleet + fs_PendingReplicas fleet) -
                                        fs_DrainingReplicas fleet)
                   in if cd_TargetReplicas d > available then Inr (grow_fleet policy demand replica available d)
                      else if cd_TargetReplicas d < i64 (fs_ReadyReplicas fleet - fs_DrainingReplicas fleet)
                      then Inr (append_reason ''forecast demand and failure reserve fit on a smaller qualified fleet''
                                  (d\<lparr>cd_Action := ''scale_down''\<rparr>))
                      else Inr (append_reason ''ready and pending qualified capacity covers forecast demand plus failure reserve'' d))))"


section \<open>The controller\<close>

record capacity_deployment =
  cdp_ID :: string
  cdp_Policy :: capacity_policy
  cdp_Replica :: replica_envelope
  cdp_Fleet :: fleet_state

record 's capacity_env =
  ce_CapacityDeployments :: "'s \<Rightarrow> (string + capacity_deployment list) \<times> 's"
  ce_CapacityDemand :: "string \<Rightarrow> 's \<Rightarrow> (string + demand_envelope) \<times> 's"
  ce_RecordCapacityDecision :: "string \<Rightarrow> capacity_decision \<Rightarrow> string \<Rightarrow> 's \<Rightarrow> string option \<times> 's"
  ce_ScaleCapacityTo :: "string \<Rightarrow> int \<Rightarrow> 's \<Rightarrow> string option \<times> 's"
  ce_ApplyCapacityDecision :: "string \<Rightarrow> capacity_decision \<Rightarrow> 's \<Rightarrow> string option \<times> 's"
  ce_ctxErr :: "'s \<Rightarrow> string option \<times> 's"
  ce_evidence :: "demand_envelope \<Rightarrow> replica_envelope \<Rightarrow> fleet_state \<Rightarrow> string"
  ce_oob :: "f64 \<Rightarrow> int"

definition capacity_record ::
  "'s capacity_env \<Rightarrow> capacity_deployment \<Rightarrow> string \<Rightarrow> capacity_decision \<Rightarrow> 's \<Rightarrow> string option \<times> 's" where
  "capacity_record env deployment evidence d s =
     (case ce_RecordCapacityDecision env (cdp_ID deployment) d evidence s of
        (Some e, s1) \<Rightarrow> (Some (''record capacity decision for '' @ cdp_ID deployment @ '': '' @ e), s1)
      | (None, s1) \<Rightarrow> (None, s1))"

definition capacity_apply ::
  "'s capacity_env \<Rightarrow> capacity_deployment \<Rightarrow> string \<Rightarrow> capacity_decision \<Rightarrow> 's \<Rightarrow> string option \<times> 's" where
  "capacity_apply env deployment evidence d s =
     (case ce_ApplyCapacityDecision env (cdp_ID deployment) d s of
        (Some e, s1) \<Rightarrow> (Some (''apply admission envelope for '' @ cdp_ID deployment @ '': '' @ e), s1)
      | (None, s1) \<Rightarrow>
          if cd_Action d = ''scale_up'' \<or> cd_Action d = ''scale_down''
          then case ce_ScaleCapacityTo env (cdp_ID deployment) (cd_TargetReplicas d) s1 of
                 (Some e, s2) \<Rightarrow>
                   (let d' = append_reason ''provider mutation failed; admission remains bounded by ready capacity''
                               (d\<lparr>cd_Action := ''scale_failed''\<rparr>)
                    in case ce_RecordCapacityDecision env (cdp_ID deployment) d' evidence s2 of
                         (_, s3) \<Rightarrow> (Some (''scale capacity for '' @ cdp_ID deployment @ '': '' @ e), s3))
               | (None, s2) \<Rightarrow> capacity_record env deployment evidence d s2
          else capacity_record env deployment evidence d s1)"

definition capacity_pass ::
  "'s capacity_env \<Rightarrow> capacity_deployment \<Rightarrow> 's \<Rightarrow> string option \<times> 's" where
  "capacity_pass env deployment s =
     (case ce_CapacityDemand env (cdp_ID deployment) s of
        (Inl e, s1) \<Rightarrow> (Some (''capacity demand for '' @ cdp_ID deployment @ '': '' @ e), s1)
      | (Inr demand, s1) \<Rightarrow>
          (case EvaluateCapacityEnvelope (ce_oob env) (cdp_Policy deployment) demand (cdp_Replica deployment)
                  (cdp_Fleet deployment) of
             Inl e \<Rightarrow> (Some (''evaluate capacity for '' @ cdp_ID deployment @ '': '' @ e), s1)
           | Inr d \<Rightarrow>
               capacity_apply env deployment
                 (ce_evidence env demand (cdp_Replica deployment) (cdp_Fleet deployment)) d s1))"

fun capacity_loop ::
  "'s capacity_env \<Rightarrow> capacity_deployment list \<Rightarrow> string list \<Rightarrow> 's \<Rightarrow> string list \<times> 's" where
  "capacity_loop env [] failures s = (failures, s)"
| "capacity_loop env (deployment # rest) failures s =
     (case ce_ctxErr env s of
        (Some e, s1) \<Rightarrow> (failures @ [e], s1)
      | (None, s1) \<Rightarrow>
          (case capacity_pass env deployment s1 of
             (Some f, s2) \<Rightarrow> capacity_loop env rest (failures @ [f]) s2
           | (None, s2) \<Rightarrow> capacity_loop env rest failures s2))"

definition capacity_Once :: "'s capacity_env option \<Rightarrow> 's \<Rightarrow> string list \<times> 's" where
  "capacity_Once c s =
     (case c of
        None \<Rightarrow> ([''capacity repository, admission, and fleet are required''], s)
      | Some env \<Rightarrow>
          (case ce_CapacityDeployments env s of
             (Inl e, s1) \<Rightarrow> ([e], s1)
           | (Inr deployments, s1) \<Rightarrow> capacity_loop env deployments [] s1))"

section \<open>Lemmas\<close>

lemma required_dimensions_acc: "fst acc \<le> fst (required_dimensions oob forecast ds acc)"
  by (induction oob forecast ds acc rule: required_dimensions.induct) (fastforce simp: Let_def)+

lemma required_dimensions_ge:
  "(name, demand, capacity) \<in> set ds \<Longrightarrow> \<not> f_eq demand f_zero \<Longrightarrow>
   dimension_count oob forecast demand capacity \<le> fst (required_dimensions oob forecast ds acc)"
proof (induction oob forecast ds acc rule: required_dimensions.induct)
  case (2 oob forecast nm dm cap rest required binding)
  show ?case
  proof (cases "(name, demand, capacity) = (nm, dm, cap)")
    case True
    have acc: "x \<le> fst (required_dimensions oob forecast rest (x, y))" for x y
      using required_dimensions_acc [of "(x, y)"] by simp
    show ?thesis using True 2(6) by (auto simp: Let_def acc intro: order_trans [OF _ acc])
  next
    case False
    then have "(name, demand, capacity) \<in> set rest" using 2(5) by auto
    then show ?thesis using 2 by (auto simp: Let_def)
  qed
qed simp

lemma assess_fleet_simps [simp]:
  "cd_Action (assess_fleet p r f d) = cd_Action d"
  "cd_TargetReplicas (assess_fleet p r f d) = cd_TargetReplicas d"
  "cd_RequiredServingReplicas (assess_fleet p r f d) = cd_RequiredServingReplicas d"
  "cd_ProjectedHourlyCostUSD (assess_fleet p r f d) = cd_ProjectedHourlyCostUSD d"
  "cd_ProjectedContributionMargin (assess_fleet p r f d) = cd_ProjectedContributionMargin d"
  "cd_ReadyServingReplicas (assess_fleet p r f d) = ready_serving p f"
  by (simp_all add: assess_fleet_def Let_def shed_def append_reason_def)

lemma append_reason_simps [simp]:
  "cd_Action (append_reason x d) = cd_Action d"
  "cd_TargetReplicas (append_reason x d) = cd_TargetReplicas d"
  "cd_RequiredServingReplicas (append_reason x d) = cd_RequiredServingReplicas d"
  "cd_ShedExcessTraffic (append_reason x d) = cd_ShedExcessTraffic d"
  "cd_ReadyServingReplicas (append_reason x d) = cd_ReadyServingReplicas d"
  "cd_ProjectedHourlyCostUSD (append_reason x d) = cd_ProjectedHourlyCostUSD d"
  "cd_ProjectedContributionMargin (append_reason x d) = cd_ProjectedContributionMargin d"
  by (simp_all add: append_reason_def)

lemma shed_simps [simp]:
  "cd_Action (shed x d) = cd_Action d" "cd_TargetReplicas (shed x d) = cd_TargetReplicas d"
  "cd_RequiredServingReplicas (shed x d) = cd_RequiredServingReplicas d"
  "cd_ReadyServingReplicas (shed x d) = cd_ReadyServingReplicas d" "cd_ShedExcessTraffic (shed x d)"
  by (simp_all add: shed_def)

lemma assess_fleet_shed:
  "cd_RequiredServingReplicas d > ready_serving p f \<Longrightarrow> cd_ShedExcessTraffic (assess_fleet p r f d)"
  "i64 (cd_RequiredServingReplicas d + cp_FailureReserveReplicas p) > cp_MaxReplicas p \<Longrightarrow>
   cd_ShedExcessTraffic (assess_fleet p r f d)"
  by (simp_all add: assess_fleet_def Let_def shed_def append_reason_def)

lemma grow_fleet_simps [simp]:
  "cd_RequiredServingReplicas (grow_fleet p dm r a d) = cd_RequiredServingReplicas d"
  "cd_ReadyServingReplicas (grow_fleet p dm r a d) = cd_ReadyServingReplicas d"
  by (simp_all add: grow_fleet_def)

lemma grow_fleet_shed: "cd_ShedExcessTraffic d \<Longrightarrow> cd_ShedExcessTraffic (grow_fleet p dm r a d)"
  by (simp add: grow_fleet_def)

lemma validateCapacityInputs_None:
  assumes "validateCapacityInputs p dm r f = None"
  shows "1 \<le> cp_MinReplicas p" "cp_MinReplicas p \<le> cp_MaxReplicas p" "0 \<le> cp_FailureReserveReplicas p"
    "1 \<le> cp_MaximumScaleUpStep p" "0 \<le> fs_ReadyReplicas f" "0 \<le> fs_PendingReplicas f"
    "0 \<le> fs_DrainingReplicas f" "fs_DrainingReplicas f \<le> fs_ReadyReplicas f"
  using assms by (auto simp: validateCapacityInputs_def split: if_splits)

text \<open>A successful evaluation, taken apart.\<close>

lemma EvaluateCapacityEnvelope_cases:
  assumes "EvaluateCapacityEnvelope oob p dm r f = Inr d"
  obtains required0 binding base where
    "validateCapacityInputs p dm r f = None"
    "required_dimensions oob (f_div (cp_DemandForecastMultiplier p) (cp_TargetProductiveUtilization p))
       (dimensions dm r) (0, []) = (required0, binding)"
    "base = assess_fleet p r f (capacity_target p dm r f required0 binding)"
    "cd_TargetReplicas base > i64 (i64 (fs_ReadyReplicas f + fs_PendingReplicas f) - fs_DrainingReplicas f) \<and>
       d = grow_fleet p dm r (i64 (i64 (fs_ReadyReplicas f + fs_PendingReplicas f) - fs_DrainingReplicas f)) base \<or>
     \<not> cd_TargetReplicas base > i64 (i64 (fs_ReadyReplicas f + fs_PendingReplicas f) - fs_DrainingReplicas f) \<and>
       (\<exists>reason. cd_TargetReplicas base < i64 (fs_ReadyReplicas f - fs_DrainingReplicas f) \<and>
          d = append_reason reason (base\<lparr>cd_Action := ''scale_down''\<rparr>) \<or>
        \<not> cd_TargetReplicas base < i64 (fs_ReadyReplicas f - fs_DrainingReplicas f) \<and> d = append_reason reason base)"
proof -
  from assms have v: "validateCapacityInputs p dm r f = None"
    by (auto simp: EvaluateCapacityEnvelope_def split: option.splits)
  obtain required0 binding where req: "required_dimensions oob
      (f_div (cp_DemandForecastMultiplier p) (cp_TargetProductiveUtilization p)) (dimensions dm r) (0, []) =
      (required0, binding)" by fastforce
  show thesis
    by (rule that [OF v req refl])
      (use assms v req in \<open>auto simp: EvaluateCapacityEnvelope_def Let_def split: if_splits\<close>)
qed

lemma fleet_arith:
  assumes "0 \<le> ready" "0 \<le> pending" "0 \<le> draining" "draining \<le> ready" "0 \<le> step"
    "ready + pending + step \<le> max_i64"
  shows "i64 (i64 (ready + pending) - draining) = ready + pending - draining"
    and "i64 (ready + pending - draining + step) = ready + pending - draining + step"
    and "i64 (ready - draining) = ready - draining"
  using assms
  by (auto simp: is_i64_def min_i64_def max_i64_def i64_diff_left intro!: i64_id)

lemma capacity_target_bounds:
  assumes "cp_MinReplicas p \<le> cp_MaxReplicas p"
  shows "cp_MinReplicas p \<le> cd_TargetReplicas (capacity_target p dm r f n b)"
    and "cd_TargetReplicas (capacity_target p dm r f n b) \<le> cp_MaxReplicas p"
    and "cd_RequiredServingReplicas (capacity_target p dm r f n b) = max n (cp_MinReplicas p)"
    and "cd_Action (capacity_target p dm r f n b) = ''hold''"
  using assms by (auto simp: capacity_target_def Let_def)

lemma capacity_target_covers:
  assumes "is_i64 (max n (cp_MinReplicas p) + cp_FailureReserveReplicas p)"
  shows "min (cp_MaxReplicas p) (max n (cp_MinReplicas p) + cp_FailureReserveReplicas p) \<le>
    cd_TargetReplicas (capacity_target p dm r f n b)"
proof -
  have "min a b \<le> max c (min a (max b e))" for a b c e :: int by (simp add: min_def max_def)
  then show ?thesis by (simp add: capacity_target_def Let_def i64_id [OF assms])
qed

lemma grow_fleet_scale_up:
  assumes "cd_Action d = ''hold''" "cd_Action (grow_fleet p dm r a d) = ''scale_up''"
  shows "cd_TargetReplicas (grow_fleet p dm r a d) =
      min (cd_TargetReplicas d) (i64 (a + cp_MaximumScaleUpStep p))"
    and "cp_RequireAvailableSupply p \<longrightarrow> re_SupplyAvailable r"
    and "f_gt (cp_MaximumFleetHourlyCostUSD p) f_zero \<longrightarrow>
      \<not> f_gt (cd_ProjectedHourlyCostUSD d) (cp_MaximumFleetHourlyCostUSD p)"
    and "f_gt (de_RevenuePerHourUSD dm) f_zero \<longrightarrow>
      \<not> f_lt (cd_ProjectedContributionMargin d) (cp_MinimumContributionMargin p)"
  using assms by (auto simp: grow_fleet_def split: if_splits)

lemma grow_fleet_simps2 [simp]:
  "cd_ProjectedHourlyCostUSD (grow_fleet p dm r a d) = cd_ProjectedHourlyCostUSD d"
  "cd_ProjectedContributionMargin (grow_fleet p dm r a d) = cd_ProjectedContributionMargin d"
  by (simp_all add: grow_fleet_def shed_def)

lemma grow_fleet_Action: "cd_Action d = ''hold'' \<Longrightarrow> cd_Action (grow_fleet p dm r a d) \<in> {''hold'', ''scale_up''}"
  by (simp add: grow_fleet_def)


section \<open>Properties\<close>

text \<open>
  C16. Capacity decisions are safe. For a fleet whose counts do not overflow: a scale-up asks for more
  than the replicas at hand, for at most the policy's step beyond them and at most its maximum, and
  only if supply, hourly cost and contribution margin pass the policy's gates; a scale-down keeps the
  minimum, asks for less than is ready, and for no less than the required replicas and the failure
  reserve (up to the maximum); and traffic is shed whenever the required replicas exceed what is
  ready to serve.
\<close>

theorem capacity_decision_safe:
  assumes "EvaluateCapacityEnvelope oob p dm r f = Inr d"
    and "fs_ReadyReplicas f + fs_PendingReplicas f + cp_MaximumScaleUpStep p \<le> max_i64"
    and "is_i64 (cd_RequiredServingReplicas d + cp_FailureReserveReplicas p)"
  shows "(cd_Action d = ''scale_up'' \<longrightarrow>
      fs_ReadyReplicas f + fs_PendingReplicas f - fs_DrainingReplicas f < cd_TargetReplicas d \<and>
      cd_TargetReplicas d \<le> fs_ReadyReplicas f + fs_PendingReplicas f - fs_DrainingReplicas f + cp_MaximumScaleUpStep p \<and>
      cd_TargetReplicas d \<le> cp_MaxReplicas p \<and> (cp_RequireAvailableSupply p \<longrightarrow> re_SupplyAvailable r) \<and>
      (f_gt (cp_MaximumFleetHourlyCostUSD p) f_zero \<longrightarrow>
         \<not> f_gt (cd_ProjectedHourlyCostUSD d) (cp_MaximumFleetHourlyCostUSD p)) \<and>
      (f_gt (de_RevenuePerHourUSD dm) f_zero \<longrightarrow>
         \<not> f_lt (cd_ProjectedContributionMargin d) (cp_MinimumContributionMargin p))) \<and>
    (cd_Action d = ''scale_down'' \<longrightarrow>
      cp_MinReplicas p \<le> cd_TargetReplicas d \<and>
      cd_TargetReplicas d < fs_ReadyReplicas f - fs_DrainingReplicas f \<and>
      min (cp_MaxReplicas p) (cd_RequiredServingReplicas d + cp_FailureReserveReplicas p) \<le> cd_TargetReplicas d) \<and>
    (cd_ReadyServingReplicas d < cd_RequiredServingReplicas d \<longrightarrow> cd_ShedExcessTraffic d)"
proof -
  obtain n b base where v: "validateCapacityInputs p dm r f = None"
    and base: "base = assess_fleet p r f (capacity_target p dm r f n b)"
    and d: "cd_TargetReplicas base > i64 (i64 (fs_ReadyReplicas f + fs_PendingReplicas f) - fs_DrainingReplicas f) \<and>
       d = grow_fleet p dm r (i64 (i64 (fs_ReadyReplicas f + fs_PendingReplicas f) - fs_DrainingReplicas f)) base \<or>
     \<not> cd_TargetReplicas base > i64 (i64 (fs_ReadyReplicas f + fs_PendingReplicas f) - fs_DrainingReplicas f) \<and>
       (\<exists>reason. cd_TargetReplicas base < i64 (fs_ReadyReplicas f - fs_DrainingReplicas f) \<and>
          d = append_reason reason (base\<lparr>cd_Action := ''scale_down''\<rparr>) \<or>
        \<not> cd_TargetReplicas base < i64 (fs_ReadyReplicas f - fs_DrainingReplicas f) \<and> d = append_reason reason base)"
    using EvaluateCapacityEnvelope_cases [OF assms(1)] by metis
  note V = validateCapacityInputs_None [OF v]
  have "0 \<le> cp_MaximumScaleUpStep p" using V(4) by simp
  note A = fleet_arith [OF V(5-8) this assms(2)]
  note T = capacity_target_bounds [OF V(2), of dm r f n b]
  have req: "cd_RequiredServingReplicas d = max n (cp_MinReplicas p)"
    using d base T(3) by auto
  have cover: "min (cp_MaxReplicas p) (cd_RequiredServingReplicas d + cp_FailureReserveReplicas p) \<le>
      cd_TargetReplicas base"
    using capacity_target_covers [of n p] assms(3) unfolding req base by simp
  have hold: "cd_Action base = ''hold''" using base T(4) by simp
  have bounds: "cp_MinReplicas p \<le> cd_TargetReplicas base" "cd_TargetReplicas base \<le> cp_MaxReplicas p"
    using base T(1,2) by simp_all
  have shed: "cd_ReadyServingReplicas d < cd_RequiredServingReplicas d \<Longrightarrow> cd_ShedExcessTraffic d"
    using d base assess_fleet_shed(1) [of p f "capacity_target p dm r f n b" r] grow_fleet_shed
    by (auto simp: T(3))
  from d show ?thesis
  proof (elim disjE conjE exE, goal_cases)
    case 1
    let ?a = "fs_ReadyReplicas f + fs_PendingReplicas f - fs_DrainingReplicas f"
    have lt: "?a < cd_TargetReplicas base" and dg: "d = grow_fleet p dm r ?a base"
      using 1 unfolding A(1) by simp_all
    show ?thesis
    proof (cases "cd_Action d = ''scale_up''")
      case True
      note G = grow_fleet_scale_up [OF hold True [unfolded dg]]
      have "cd_TargetReplicas d = min (cd_TargetReplicas base) (?a + cp_MaximumScaleUpStep p)"
        unfolding dg using G(1) A(2) by simp
      then show ?thesis using G(2-4) lt V(4) bounds(2) True shed by (simp add: dg)
    next
      case False
      then show ?thesis using grow_fleet_Action [OF hold, of p dm r ?a] shed by (auto simp: dg)
    qed
  next
    case (2 reason)
    then show ?thesis using hold bounds cover shed by (simp add: A(3))
  next
    case (3 reason)
    then show ?thesis using hold shed by simp
  qed
qed

definition example_capacity_policy :: capacity_policy where
  "example_capacity_policy = \<lparr>cp_MinReplicas = 1, cp_MaxReplicas = 4, cp_FailureReserveReplicas = 1,
     cp_MinimumFaultDomains = 1, cp_MaximumScaleUpStep = 2, cp_TargetProductiveUtilization = FNum (1 / 2),
     cp_DemandForecastMultiplier = FNum 1, cp_MaximumFleetHourlyCostUSD = FNum 10,
     cp_MinimumContributionMargin = FNum 0, cp_RequireAvailableSupply = True\<rparr>"

definition example_demand :: demand_envelope where
  "example_demand = \<lparr>de_RequestsPerSecond = FNum 3, de_InputTokensPerSecond = f_zero,
     de_OutputTokensPerSecond = f_zero, de_ConcurrentRequests = f_zero, de_RevenuePerHourUSD = f_zero\<rparr>"

definition example_replica :: replica_envelope where
  "example_replica = \<lparr>re_RequestsPerSecond = FNum 2, re_InputTokensPerSecond = FNum 2,
     re_OutputTokensPerSecond = FNum 2, re_ConcurrentRequests = FNum 2, re_HourlyCostUSD = FNum 1,
     re_EvidenceClass = ''measured'', re_WorkloadDigest = ''w'', re_SupplyAvailable = True,
     re_AvailableFaultDomains = 1\<rparr>"

definition one_ready :: fleet_state where
  "one_ready = \<lparr>fs_ReadyReplicas = 1, fs_PendingReplicas = 0, fs_DrainingReplicas = 0\<rparr>"

lemma example_forecast:
  "f_div (cp_DemandForecastMultiplier example_capacity_policy)
     (cp_TargetProductiveUtilization example_capacity_policy) = FNum 2"
  by (simp add: example_capacity_policy_def f64_of_rat_numeral)

lemma example_valid: "validateCapacityInputs example_capacity_policy example_demand example_replica one_ready = None"
  by (simp add: validateCapacityInputs_def example_capacity_policy_def example_demand_def example_replica_def
      one_ready_def not_positive_finite_def not_nonnegative_finite_def f_le_def is_nan_def is_inf_def)

lemma example_required:
  "required_dimensions oob (FNum 2) (dimensions example_demand example_replica) (0, []) = (3, [''requests''])"
  by (simp add: dimensions_def example_demand_def example_replica_def dimension_count_def
      f64_of_rat_numeral f_to_int_def trunc_rat_def is_i64_def max_i64_def min_i64_def)

lemma example_target:
  "cd_TargetReplicas (capacity_target example_capacity_policy example_demand example_replica one_ready 3 b) = 4"
  "cd_ProjectedHourlyCostUSD (capacity_target example_capacity_policy example_demand example_replica one_ready 3 b) = FNum 4"
  "cd_RequiredServingReplicas (capacity_target example_capacity_policy example_demand example_replica one_ready 3 b) = 3"
  by (simp_all add: capacity_target_def Let_def example_capacity_policy_def example_replica_def i64_def
      f_of_int_def f64_of_rat_numeral)

lemma example_scale_up:
  "\<exists>d. EvaluateCapacityEnvelope oob example_capacity_policy example_demand example_replica one_ready = Inr d \<and>
     cd_Action d = ''scale_up'' \<and> cd_RequiredServingReplicas d = 3 \<and> cd_ReadyServingReplicas d = 1"
proof -
  let ?base = "assess_fleet example_capacity_policy example_replica one_ready
    (capacity_target example_capacity_policy example_demand example_replica one_ready 3 [''requests''])"
  let ?d = "grow_fleet example_capacity_policy example_demand example_replica 1 ?base"
  have avail: "i64 (i64 (fs_ReadyReplicas one_ready + fs_PendingReplicas one_ready) - fs_DrainingReplicas one_ready) = 1"
    by (simp add: one_ready_def i64_def)
  have "EvaluateCapacityEnvelope oob example_capacity_policy example_demand example_replica one_ready = Inr ?d"
    by (simp add: EvaluateCapacityEnvelope_def example_valid example_forecast example_required Let_def avail
        example_target)
  moreover have "cp_MaximumFleetHourlyCostUSD example_capacity_policy = FNum 10"
    "re_SupplyAvailable example_replica" "de_RevenuePerHourUSD example_demand = f_zero"
    by (simp_all add: example_capacity_policy_def example_replica_def example_demand_def)
  then have "cd_Action ?d = ''scale_up''" by (simp add: grow_fleet_def example_target)
  moreover have "ready_serving example_capacity_policy one_ready = 1"
    by (simp add: ready_serving_def one_ready_def example_capacity_policy_def i64_def Let_def)
  ultimately show ?thesis by (simp add: example_target)
qed

theorem capacity_decision_safe_witness:
  "\<exists>d. EvaluateCapacityEnvelope (\<lambda>_. 0) example_capacity_policy example_demand example_replica one_ready = Inr d \<and>
     cd_Action d = ''scale_up'' \<and> cd_TargetReplicas d \<le> 1 + cp_MaximumScaleUpStep example_capacity_policy \<and>
     cd_ShedExcessTraffic d"
proof -
  obtain d where d: "EvaluateCapacityEnvelope (\<lambda>_. 0) example_capacity_policy example_demand example_replica
      one_ready = Inr d" and up: "cd_Action d = ''scale_up''" "cd_RequiredServingReplicas d = 3"
      "cd_ReadyServingReplicas d = 1"
    using example_scale_up by blast
  from capacity_decision_safe [OF d] up show ?thesis
    using d by (simp add: one_ready_def example_capacity_policy_def is_i64_def max_i64_def min_i64_def)
qed

text \<open>
  Every demand dimension fits. For each of request rate, prefill tokens, decode tokens and
  concurrency with a demand, the forecast demand divided by one replica's capacity (as the
  floating-point arithmetic computes it, when the quotient fits an \<open>int\<close>) is at most the required
  serving replicas.
\<close>

theorem required_replicas_cover_demand:
  assumes "EvaluateCapacityEnvelope oob p demand replica f = Inr d"
    and "(name, dm, cap) \<in> set (dimensions demand replica)" "\<not> f_eq dm f_zero"
    and "f_div (f_mul dm (f_div (cp_DemandForecastMultiplier p) (cp_TargetProductiveUtilization p))) cap = FNum q"
    and "q \<le> of_int max_i64"
  shows "q \<le> of_int (cd_RequiredServingReplicas d)"
proof -
  let ?forecast = "f_div (cp_DemandForecastMultiplier p) (cp_TargetProductiveUtilization p)"
  obtain n b base where v: "validateCapacityInputs p demand replica f = None"
    and n: "required_dimensions oob ?forecast (dimensions demand replica) (0, []) = (n, b)"
    and req: "cd_RequiredServingReplicas d = max n (cp_MinReplicas p)"
    by (rule EvaluateCapacityEnvelope_cases [OF assms(1)])
      (auto simp: capacity_target_bounds(3) [OF validateCapacityInputs_None(2)])
  have pos: "1 \<le> cd_RequiredServingReplicas d" using req validateCapacityInputs_None(1) [OF v] by simp
  show ?thesis
  proof (cases "q \<le> 0")
    case True
    also have "(0::rat) \<le> of_int (cd_RequiredServingReplicas d)" using pos by simp
    finally show ?thesis .
  next
    case False
    have "\<lceil>q\<rceil> \<le> max_i64" using assms(5) by (simp add: ceiling_le_iff)
    moreover have "0 \<le> \<lceil>q\<rceil>" using False by simp
    ultimately have "dimension_count oob ?forecast dm cap = \<lceil>q\<rceil>"
      using assms(4) by (simp add: dimension_count_def f_to_int_def trunc_rat_def is_i64_def min_i64_def)
    then have "\<lceil>q\<rceil> \<le> n"
      using required_dimensions_ge [OF assms(2,3), of oob ?forecast "(0, [])"] n by simp
    then have "\<lceil>q\<rceil> \<le> cd_RequiredServingReplicas d" using req by simp
    then show ?thesis by (simp add: ceiling_le_iff)
  qed
qed

theorem required_replicas_cover_demand_witness:
  "\<exists>d. EvaluateCapacityEnvelope (\<lambda>_. 0) example_capacity_policy example_demand example_replica one_ready = Inr d \<and>
     (3::rat) \<le> of_int (cd_RequiredServingReplicas d)"
proof -
  obtain d where d: "EvaluateCapacityEnvelope (\<lambda>_. 0) example_capacity_policy example_demand example_replica
      one_ready = Inr d"
    using example_scale_up by blast
  have "(3::rat) \<le> of_int (cd_RequiredServingReplicas d)"
    by (rule required_replicas_cover_demand [OF d, of "''requests''" "FNum 3" "FNum 2"])
      (simp_all add: example_forecast f64_of_rat_numeral dimensions_def example_demand_def
        example_replica_def max_i64_def)
  then show ?thesis using d by blast
qed

subsection \<open>Admission before mutation\<close>

text \<open>
  Two assertions on the environment: \<open>I\<close> between calls, and \<open>J i n\<close> once admission has accepted a
  decision for deployment \<open>i\<close> with target \<open>n\<close>. Scaling needs \<open>J\<close>.
\<close>

definition capacity_env_ok ::
  "('s \<Rightarrow> bool) \<Rightarrow> (string \<Rightarrow> int \<Rightarrow> 's \<Rightarrow> bool) \<Rightarrow> 's capacity_env \<Rightarrow> bool" where
  "capacity_env_ok I J env \<longleftrightarrow>
     keeps I (ce_CapacityDeployments env) \<and> (\<forall>i. keeps I (ce_CapacityDemand env i)) \<and>
     (\<forall>i d e. keeps I (ce_RecordCapacityDecision env i d e)) \<and> keeps I (ce_ctxErr env) \<and>
     (\<forall>i d s. I s \<longrightarrow> (case ce_ApplyCapacityDecision env i d s of
        (None, s') \<Rightarrow> J i (cd_TargetReplicas d) s' \<and> I s' | (Some _, s') \<Rightarrow> I s')) \<and>
     (\<forall>i n s. J i n s \<longrightarrow> I (snd (ce_ScaleCapacityTo env i n s)))"

lemma capacity_env_okD:
  assumes "capacity_env_ok I J env"
  shows "I s \<Longrightarrow> ce_CapacityDeployments env s = (r1, s') \<Longrightarrow> I s'"
    and "I s \<Longrightarrow> ce_CapacityDemand env i s = (r2, s') \<Longrightarrow> I s'"
    and "I s \<Longrightarrow> ce_RecordCapacityDecision env i d e s = (r3, s') \<Longrightarrow> I s'"
    and "I s \<Longrightarrow> ce_ctxErr env s = (r3, s') \<Longrightarrow> I s'"
    and "I s \<Longrightarrow> ce_ApplyCapacityDecision env i d s = (Some x, s') \<Longrightarrow> I s'"
    and "I s \<Longrightarrow> ce_ApplyCapacityDecision env i d s = (None, s') \<Longrightarrow> J i (cd_TargetReplicas d) s' \<and> I s'"
    and "J i n s \<Longrightarrow> ce_ScaleCapacityTo env i n s = (r3, s') \<Longrightarrow> I s'"
proof -
  have K: "keeps I (ce_CapacityDeployments env)" "\<And>i. keeps I (ce_CapacityDemand env i)"
      "\<And>i d e. keeps I (ce_RecordCapacityDecision env i d e)" "keeps I (ce_ctxErr env)"
    and A: "\<And>i d s. I s \<Longrightarrow> case ce_ApplyCapacityDecision env i d s of
        (None, s') \<Rightarrow> J i (cd_TargetReplicas d) s' \<and> I s' | (Some _, s') \<Rightarrow> I s'"
    and S: "\<And>i n s. J i n s \<Longrightarrow> I (snd (ce_ScaleCapacityTo env i n s))"
    using assms unfolding capacity_env_ok_def by simp_all
  show "I s \<Longrightarrow> ce_CapacityDeployments env s = (r1, s') \<Longrightarrow> I s'" by (rule keepsD [OF K(1)])
  show "I s \<Longrightarrow> ce_CapacityDemand env i s = (r2, s') \<Longrightarrow> I s'" by (rule keepsD [OF K(2)])
  show "I s \<Longrightarrow> ce_RecordCapacityDecision env i d e s = (r3, s') \<Longrightarrow> I s'" by (rule keepsD [OF K(3)])
  show "I s \<Longrightarrow> ce_ctxErr env s = (r3, s') \<Longrightarrow> I s'" by (rule keepsD [OF K(4)])
  show "I s \<Longrightarrow> ce_ApplyCapacityDecision env i d s = (Some x, s') \<Longrightarrow> I s'" using A [of s i d] by simp
  show "I s \<Longrightarrow> ce_ApplyCapacityDecision env i d s = (None, s') \<Longrightarrow> J i (cd_TargetReplicas d) s' \<and> I s'"
    using A [of s i d] by simp
  show "J i n s \<Longrightarrow> ce_ScaleCapacityTo env i n s = (r3, s') \<Longrightarrow> I s'" using S [of i n s] by simp
qed

lemma capacity_apply_ok:
  assumes ok: "capacity_env_ok I J env" and I: "I s"
  shows "I (snd (capacity_apply env dep ev d s))"
proof -
  note D = capacity_env_okD [OF ok]
  have rec: "I (snd (capacity_record env dep ev d s'))" if "I s'" for s'
    using D(3) [OF that] by (auto simp: capacity_record_def split: prod.splits option.splits)
  obtain r1 s1 where 1: "ce_ApplyCapacityDecision env (cdp_ID dep) d s = (r1, s1)" by fastforce
  show ?thesis
  proof (cases r1)
    case (Some e)
    then show ?thesis using D(5) [OF I] 1 by (simp add: capacity_apply_def)
  next
    case None
    then have J: "J (cdp_ID dep) (cd_TargetReplicas d) s1" and I1: "I s1" using D(6) [OF I] 1 by auto
    obtain r2 s2 where 2: "ce_ScaleCapacityTo env (cdp_ID dep) (cd_TargetReplicas d) s1 = (r2, s2)" by fastforce
    have I2: "I s2" using D(7) [OF J 2] .
    show ?thesis
      using None 1 2 rec [OF I1] rec [OF I2] D(3) [OF I2]
      by (cases r2) (auto simp: capacity_apply_def Let_def split: prod.splits)
  qed
qed

lemma capacity_pass_ok:
  assumes ok: "capacity_env_ok I J env" and I: "I s"
  shows "I (snd (capacity_pass env dep s))"
proof -
  obtain r s1 where 1: "ce_CapacityDemand env (cdp_ID dep) s = (r, s1)" by fastforce
  have "I s1" using capacity_env_okD(2) [OF ok I 1] .
  then show ?thesis
    using 1 capacity_apply_ok [OF ok] by (auto simp: capacity_pass_def split: sum.splits)
qed

lemma capacity_loop_ok:
  assumes ok: "capacity_env_ok I J env"
  shows "I s \<Longrightarrow> I (snd (capacity_loop env deps fs s))"
proof (induction deps arbitrary: fs s)
  case (Cons dep deps)
  obtain c s1 where c: "ce_ctxErr env s = (c, s1)" by fastforce
  have I1: "I s1" using capacity_env_okD(4) [OF ok Cons.prems c] .
  obtain f s2 where p: "capacity_pass env dep s1 = (f, s2)" by fastforce
  have "I s2" using capacity_pass_ok [OF ok I1, of dep] p by simp
  then show ?case using Cons.IH c I1 p by (cases c; cases f) auto
qed simp

text \<open>
  Admission is bounded before the fleet changes. If scaling deployment \<open>i\<close> to \<open>n\<close> replicas is safe
  only in states where admission has accepted a decision with that target for that deployment, a
  pass of the capacity controller keeps the environment safe, whatever its calls return: it never
  scales before admission has accepted, and never to another target.
\<close>

theorem admission_before_mutation:
  assumes "capacity_env_ok I J env" "I s"
  shows "I (snd (capacity_Once (Some env) s))"
proof -
  obtain r s1 where 1: "ce_CapacityDeployments env s = (r, s1)" by fastforce
  have "I s1" using capacity_env_okD(1) [OF assms 1] .
  then show ?thesis
    using 1 capacity_loop_ok [OF assms(1)] by (auto simp: capacity_Once_def split: sum.splits)
qed

text \<open>
  An environment that remembers the accepted target and the fleet's size, and marks a scaling that
  was not accepted.
\<close>

definition example_capacity_env :: "(int option \<times> int \<times> bool) capacity_env" where
  "example_capacity_env =
     \<lparr>ce_CapacityDeployments = (\<lambda>s. (Inr [\<lparr>cdp_ID = ''chat'', cdp_Policy = example_capacity_policy,
        cdp_Replica = example_replica, cdp_Fleet = one_ready\<rparr>], s)),
      ce_CapacityDemand = (\<lambda>_ s. (Inr example_demand, s)),
      ce_RecordCapacityDecision = (\<lambda>_ _ _ s. (None, s)),
      ce_ScaleCapacityTo = (\<lambda>_ n (a, _, bad). (None, (None, n, bad \<or> a \<noteq> Some n))),
      ce_ApplyCapacityDecision = (\<lambda>_ d (_, m, bad). (None, (Some (cd_TargetReplicas d), m, bad))),
      ce_ctxErr = (\<lambda>s. (None, s)), ce_evidence = (\<lambda>_ _ _. ''''), ce_oob = (\<lambda>_. 0)\<rparr>"

theorem admission_before_mutation_witness:
  "\<not> snd (snd (snd (capacity_Once (Some example_capacity_env) (None, 1, False))))"
proof -
  have "capacity_env_ok (\<lambda>(a, m, bad). \<not> bad) (\<lambda>i n (a, m, bad). a = Some n \<and> \<not> bad) example_capacity_env"
    by (auto simp: capacity_env_ok_def keeps_def example_capacity_env_def)
  from admission_before_mutation [OF this, of "(None, 1, False)"] show ?thesis
    by (simp add: case_prod_beta)
qed

end
