(* ===== verification/Model_Api_Routing.thy ===== *)
theory Model_Api_Routing
  imports Go_Strings "HOL-Library.Char_ord" "HOL-Library.List_Lexorder" "HOL-Library.Multiset"
begin

text \<open>
  The request-path directory of the hosted Model API (\<open>internal/modelapirouting\<close>): published
  generations and leases (\<open>directory.go\<close>), deterministic weighted selection (\<open>selection.go\<close>), and
  the candidate circuit breaker (\<open>circuit.go\<close>).

  A generation is the association list of the Go map, in insertion order; \<open>ListForTenant\<close> sorts what
  it collects, so the order of the map does not matter. Values are immutable here, so \<open>cloneRoute\<close>
  and \<open>cloneRate\<close>, which only break sharing, are the identity and have no definition of their own.
  \<open>url.Parse\<close> is a parameter returning the parts of an address, and the first eight bytes of the SHA-256
  digest, read as a big-endian integer, are a parameter \<open>digest64\<close>.
\<close>


section \<open>Data\<close>

record retail_rate =
  rr_ID :: string
  rr_ProductID :: string
  rr_ContractDigest :: string
  rr_Version :: int
  rr_InputMicrousdPerMillion :: int
  rr_OutputMicrousdPerMillion :: int
  rr_CachedInputMicrousdPerMillion :: "int option"
  rr_ValidFrom :: gotime
  rr_ValidUntil :: gotime

definition rate_currentAt :: "retail_rate \<Rightarrow> gotime \<Rightarrow> bool" where
  "rate_currentAt r now =
     (rr_ID r \<noteq> '''' \<and> rr_ProductID r \<noteq> '''' \<and> 0 < rr_Version r \<and>
      HasPrefix (rr_ContractDigest r) ''sha256:'' \<and>
      0 < rr_InputMicrousdPerMillion r \<and> 0 < rr_OutputMicrousdPerMillion r \<and>
      \<not> now < rr_ValidFrom r \<and> now < rr_ValidUntil r)"

record entitlement =
  en_ID :: string
  en_CustomerTenantID :: string
  en_ProductID :: string
  en_OperatorTenantID :: string
  en_ServingPlanID :: string
  en_RetailRateID :: string
  en_RetailRateVersion :: int
  en_State :: string
  en_MaxRequestMicrousd :: int
  en_ValidFrom :: gotime
  en_ValidUntil :: "gotime option"

definition activeAt :: "entitlement \<Rightarrow> gotime \<Rightarrow> bool" where
  "activeAt e now =
     (en_ID e \<noteq> '''' \<and> en_CustomerTenantID e \<noteq> '''' \<and> en_ProductID e \<noteq> '''' \<and> en_OperatorTenantID e \<noteq> '''' \<and>
      en_CustomerTenantID e \<noteq> en_OperatorTenantID e \<and> en_ServingPlanID e \<noteq> '''' \<and> en_RetailRateID e \<noteq> '''' \<and>
      0 < en_RetailRateVersion e \<and> en_State e = ''active'' \<and> 0 < en_MaxRequestMicrousd e \<and>
      \<not> now < en_ValidFrom e \<and> (case en_ValidUntil e of None \<Rightarrow> True | Some until \<Rightarrow> now < until))"

record publication =
  pb_ProductID :: string
  pb_OperatorTenantID :: string
  pb_ServingPlanID :: string
  pb_SupplyPlanID :: string
  pb_CompatibilityKey :: string
  pb_EvidenceID :: string
  pb_EvidenceValidUntil :: gotime
  pb_ValidUntil :: gotime

definition publication_currentAt :: "publication \<Rightarrow> gotime \<Rightarrow> bool" where
  "publication_currentAt p now =
     (pb_ProductID p \<noteq> '''' \<and> pb_OperatorTenantID p \<noteq> '''' \<and> pb_ServingPlanID p \<noteq> '''' \<and>
      pb_SupplyPlanID p \<noteq> '''' \<and> pb_CompatibilityKey p \<noteq> '''' \<and>
      pb_EvidenceID p \<noteq> '''' \<and> now < pb_EvidenceValidUntil p \<and> now < pb_ValidUntil p)"

record candidate =
  ca_ID :: string
  ca_ProductID :: string
  ca_OperatorTenantID :: string
  ca_ServingPlanID :: string
  ca_SupplyPlanID :: string
  ca_OfferID :: string
  ca_QualificationEvidenceID :: string
  ca_CompatibilityKey :: string
  ca_OfferVersion :: int
  ca_Protocol :: string
  ca_Supplier :: string
  ca_SupplierModelID :: string
  ca_TargetBindingID :: string
  ca_TargetBindingDigest :: string
  ca_Operations :: "string list"
  ca_Endpoint :: string
  ca_Credential :: string
  ca_Adapter :: string
  ca_CredentialReference :: string
  ca_TrafficWeightBPS :: int
  ca_Qualified :: bool
  ca_Available :: bool
  ca_ValidUntil :: gotime

fun supports_loop :: "string \<Rightarrow> string list \<Rightarrow> bool" where
  "supports_loop operation [] = False"
| "supports_loop operation (supported # rest) =
     (if supported = operation then True else supports_loop operation rest)"

definition supports :: "candidate \<Rightarrow> string \<Rightarrow> bool" where
  "supports c operation = supports_loop operation (ca_Operations c)"

text \<open>What \<open>url.Parse\<close> returns: an error, or the parts of the parsed address the code reads.\<close>

record url_parts =
  url_Scheme :: string
  url_Host :: string
  url_HasUser :: bool
  url_RawQuery :: string
  url_Fragment :: string
  url_Path :: string

type_synonym url_parser = "string \<Rightarrow> url_parts option"

definition validFor :: "url_parser \<Rightarrow> candidate \<Rightarrow> publication \<Rightarrow> gotime \<Rightarrow> bool" where
  "validFor parse c p now =
     (if ca_ID c = '''' \<or> ca_ProductID c \<noteq> pb_ProductID p \<or> ca_OperatorTenantID c \<noteq> pb_OperatorTenantID p \<or>
         ca_ServingPlanID c \<noteq> pb_ServingPlanID p \<or> ca_SupplyPlanID c \<noteq> pb_SupplyPlanID p \<or>
         ca_OfferID c = '''' \<or> ca_OfferVersion c \<le> 0 \<or>
         ca_QualificationEvidenceID c = '''' \<or> ca_CompatibilityKey c = '''' \<or> ca_Protocol c \<noteq> ''openai'' \<or>
         ca_Supplier c = '''' \<or> ca_SupplierModelID c = '''' \<or> \<not> ca_Qualified c \<or> \<not> ca_Available c \<or>
         \<not> now < ca_ValidUntil c
      then False
      else (case parse (ca_Endpoint c) of None \<Rightarrow> False
            | Some parsed \<Rightarrow> url_Scheme parsed = ''https'' \<and> url_Host parsed \<noteq> ''''))"

record published_route =
  pr_Entitlement :: entitlement
  pr_Publication :: publication
  pr_Rate :: retail_rate
  pr_Candidates :: "candidate list"

record lease =
  le_Entitlement :: entitlement
  le_Publication :: publication
  le_Rate :: retail_rate
  le_Candidates :: "candidate list"

type_synonym snapshot = "(string \<times> published_route) list"

record directory =
  dir_state :: snapshot

datatype route_error = ErrRouteUnavailable | ErrUnauthorized


section \<open>Publication\<close>

definition NewDirectory :: directory where
  "NewDirectory = \<lparr>dir_state = []\<rparr>"

definition key :: "string \<Rightarrow> string \<Rightarrow> string" where
  "key tenant product = tenant @ bytes [0] @ product"

text \<open>
  The loop over the candidates of a route: the identities seen, the total weight and whether any
  weight is positive. A slice has fewer than \<open>2 ^ 48\<close> elements, so the total cannot wrap.
\<close>

fun candidates_loop :: "candidate list \<Rightarrow> string list \<Rightarrow> int \<Rightarrow> bool \<Rightarrow> string + (int \<times> bool)" where
  "candidates_loop [] seen totalWeight hasWeights = Inr (totalWeight, hasWeights)"
| "candidates_loop (c # rest) seen totalWeight hasWeights =
     (if ca_ID c \<in> set seen then Inl ''candidate identity is duplicated''
      else if ca_TrafficWeightBPS c < 0 \<or> ca_TrafficWeightBPS c > 10000
        then Inl ''candidate traffic weight must be between 0 and 10000 basis points''
      else if ca_TrafficWeightBPS c > 0
        then candidates_loop rest (ca_ID c # seen) (totalWeight + ca_TrafficWeightBPS c) True
      else candidates_loop rest (ca_ID c # seen) totalWeight hasWeights)"

definition validatePublishedRoute :: "published_route \<Rightarrow> string option" where
  "validatePublishedRoute route =
     (let e = pr_Entitlement route; p = pr_Publication route; rate = pr_Rate route in
      if en_ProductID e \<noteq> pb_ProductID p \<or> en_ProductID e \<noteq> rr_ProductID rate \<or>
         en_OperatorTenantID e \<noteq> pb_OperatorTenantID p \<or> en_ServingPlanID e \<noteq> pb_ServingPlanID p \<or>
         en_RetailRateID e \<noteq> rr_ID rate \<or> en_RetailRateVersion e \<noteq> rr_Version rate
        then Some ''entitlement, publication, and immutable retail rate do not match''
      else if pr_Candidates route = [] then Some ''route requires at least one candidate''
      else case candidates_loop (pr_Candidates route) [] 0 False of
          Inl err \<Rightarrow> Some err
        | Inr (totalWeight, hasWeights) \<Rightarrow>
            if hasWeights \<and> totalWeight \<noteq> 10000
              then Some ''weighted route candidates must total 10000 basis points''
            else None)"

fun publish_loop :: "nat \<Rightarrow> published_route list \<Rightarrow> snapshot \<Rightarrow> string + snapshot" where
  "publish_loop index [] next = Inr next"
| "publish_loop index (route # rest) next =
     (case validatePublishedRoute route of
        Some err \<Rightarrow> Inl (''route '' @ itoa (int index) @ '': '' @ err)
      | None \<Rightarrow>
        let entryKey = key (en_CustomerTenantID (pr_Entitlement route)) (en_ProductID (pr_Entitlement route))
        in if map_of next entryKey \<noteq> None
             then Inl (''route '' @ itoa (int index) @ '' duplicates customer product'')
           else publish_loop (Suc index) rest (next @ [(entryKey, route)]))"

text \<open>\<open>Publish\<close> replaces the snapshot pointer only after the whole generation has been compiled.\<close>

definition Publish :: "directory \<Rightarrow> published_route list \<Rightarrow> directory \<times> string option" where
  "Publish d routes =
     (case publish_loop 0 routes [] of
        Inl err \<Rightarrow> (d, Some err)
      | Inr next \<Rightarrow> (d\<lparr>dir_state := next\<rparr>, None))"


section \<open>Admission\<close>

fun valid_loop :: "url_parser \<Rightarrow> publication \<Rightarrow> gotime \<Rightarrow> candidate list \<Rightarrow> candidate list" where
  "valid_loop parse p now [] = []"
| "valid_loop parse p now (c # rest) =
     (if \<not> validFor parse c p now then valid_loop parse p now rest
      else if ca_CompatibilityKey c = pb_CompatibilityKey p then c # valid_loop parse p now rest
      else valid_loop parse p now rest)"

definition Acquire :: "url_parser \<Rightarrow> gotime \<Rightarrow> directory \<Rightarrow> string \<Rightarrow> string \<Rightarrow> route_error + lease" where
  "Acquire parse now d customerTenant productID =
     (if customerTenant = '''' \<or> productID = '''' then Inl ErrUnauthorized
      else case map_of (dir_state d) (key customerTenant productID) of
          None \<Rightarrow> Inl ErrUnauthorized
        | Some entry \<Rightarrow>
            if \<not> activeAt (pr_Entitlement entry) now then Inl ErrUnauthorized
            else if \<not> publication_currentAt (pr_Publication entry) now \<or> \<not> rate_currentAt (pr_Rate entry) now
              then Inl ErrRouteUnavailable
            else let valid = valid_loop parse (pr_Publication entry) now (pr_Candidates entry)
              in if valid = [] then Inl ErrRouteUnavailable
                 else Inr \<lparr>le_Entitlement = pr_Entitlement entry, le_Publication = pr_Publication entry,
                           le_Rate = pr_Rate entry, le_Candidates = valid\<rparr>)"

fun products_loop :: "string \<Rightarrow> gotime \<Rightarrow> snapshot \<Rightarrow> string list" where
  "products_loop tenant now [] = []"
| "products_loop tenant now ((k, route) # rest) =
     (if en_CustomerTenantID (pr_Entitlement route) = tenant \<and> activeAt (pr_Entitlement route) now \<and>
         publication_currentAt (pr_Publication route) now \<and> rate_currentAt (pr_Rate route) now
      then en_ProductID (pr_Entitlement route) # products_loop tenant now rest
      else products_loop tenant now rest)"

definition ListForTenant :: "gotime \<Rightarrow> directory \<Rightarrow> string \<Rightarrow> string list" where
  "ListForTenant now d tenant = sort (products_loop tenant now (dir_state d))"


section \<open>Weighted selection\<close>

fun selected_loop :: "int \<Rightarrow> int \<Rightarrow> nat \<Rightarrow> candidate list \<Rightarrow> nat" where
  "selected_loop bucket cumulative index [] = 0"
| "selected_loop bucket cumulative index (c # rest) =
     (if bucket < cumulative + ca_TrafficWeightBPS c then index
      else selected_loop bucket (cumulative + ca_TrafficWeightBPS c) (Suc index) rest)"

definition CandidatesForRequest :: "(string \<Rightarrow> int) \<Rightarrow> lease \<Rightarrow> string \<Rightarrow> string \<Rightarrow> candidate list" where
  "CandidatesForRequest digest64 l requestID operation =
     (let eligible = filter (\<lambda>c. supports c operation) (le_Candidates l) in
      if length eligible < 2 then eligible
      else let total = sum_list (map ca_TrafficWeightBPS eligible);
               selected =
                 (if total = 10000
                  then let bucket = digest64 (en_CustomerTenantID (le_Entitlement l) @ bytes [0] @
                              en_ProductID (le_Entitlement l) @ bytes [0] @
                              pb_SupplyPlanID (le_Publication l) @ bytes [0] @ requestID) mod 10000
                       in selected_loop bucket 0 0 eligible
                  else 0)
           in if selected = 0 then eligible
              else eligible ! selected # take selected eligible @ drop (Suc selected) eligible)"


section \<open>The candidate circuit\<close>

record circuit_state =
  cs_consecutiveFailures :: int
  cs_openUntil :: gotime

record circuit_breaker =
  cb_states :: "string \<rightharpoonup> circuit_state"
  cb_failureThreshold :: int
  cb_openFor :: duration

definition NewCircuitBreaker :: "int \<Rightarrow> duration \<Rightarrow> circuit_breaker" where
  "NewCircuitBreaker failureThreshold openFor =
     \<lparr>cb_states = (\<lambda>_. None),
      cb_failureThreshold = (if failureThreshold < 1 then 3 else failureThreshold),
      cb_openFor = (if openFor \<le> 0 then 30 * Second else openFor)\<rparr>"

text \<open>Reading a missing entry of the map gives the zero state.\<close>

definition state_of :: "circuit_breaker \<Rightarrow> string \<Rightarrow> circuit_state" where
  "state_of b candidateID =
     (case cb_states b candidateID of Some s \<Rightarrow> s
      | None \<Rightarrow> \<lparr>cs_consecutiveFailures = 0, cs_openUntil = 0\<rparr>)"

text \<open>The receiver may be a nil pointer, on which both operations have an answer.\<close>

definition Allow :: "circuit_breaker option \<Rightarrow> string \<Rightarrow> gotime \<Rightarrow> bool" where
  "Allow br candidateID now =
     (case br of None \<Rightarrow> True
      | Some b \<Rightarrow>
          if candidateID = '''' then True
          else let s = state_of b candidateID
               in is_zero_time (cs_openUntil s) \<or> \<not> now < cs_openUntil s)"

definition Observe :: "circuit_breaker option \<Rightarrow> string \<Rightarrow> bool \<Rightarrow> gotime \<Rightarrow> circuit_breaker option" where
  "Observe br candidateID success now =
     (case br of None \<Rightarrow> None
      | Some b \<Rightarrow>
          if candidateID = '''' then Some b
          else let s = state_of b candidateID in
            if success then Some (b\<lparr>cb_states := (cb_states b)(candidateID := None)\<rparr>)
            else let failed = s\<lparr>cs_consecutiveFailures := cs_consecutiveFailures s + 1\<rparr>;
                     s' = (if cs_consecutiveFailures failed \<ge> cb_failureThreshold b
                           then failed\<lparr>cs_openUntil := now + cb_openFor b, cs_consecutiveFailures := 0\<rparr>
                           else failed)
              in Some (b\<lparr>cb_states := (cb_states b)(candidateID \<mapsto> s')\<rparr>))"

section \<open>Generations and leases\<close>

definition route_key :: "published_route \<Rightarrow> string" where
  "route_key r = key (en_CustomerTenantID (pr_Entitlement r)) (en_ProductID (pr_Entitlement r))"

lemma key_split: "key t p = t @ CHR 0x00 # p"
  by (simp add: key_def bytes_def char_of_def)

lemma key_inj:
  assumes "CHR 0x00 \<notin> set t" "CHR 0x00 \<notin> set t'"
  shows "key t p = key t' p' \<longleftrightarrow> t = t' \<and> p = p'"
proof
  assume eq: "key t p = key t' p'"
  have split: "takeWhile (\<lambda>c. c \<noteq> CHR 0x00) (key s q) = s \<and> drop (Suc (length s)) (key s q) = q"
    if "CHR 0x00 \<notin> set s" for s q
    using that by (induction s) (auto simp: key_split)
  show "t = t' \<and> p = p'" using split [OF assms(1)] split [OF assms(2)] eq by metis
qed simp

lemma publish_loop_Inr:
  "publish_loop i routes acc = Inr gen \<longleftrightarrow>
     (\<forall>r \<in> set routes. validatePublishedRoute r = None) \<and>
     distinct (map route_key routes) \<and> route_key ` set routes \<inter> fst ` set acc = {} \<and>
     gen = acc @ map (\<lambda>r. (route_key r, r)) routes"
  by (induction i routes acc rule: publish_loop.induct)
    (auto simp: Let_def route_key_def map_of_eq_None_iff split: option.splits)

lemma Publish_ok:
  "Publish d routes = (d', None) \<longleftrightarrow>
     (\<forall>r \<in> set routes. validatePublishedRoute r = None) \<and> distinct (map route_key routes) \<and>
     d' = d\<lparr>dir_state := map (\<lambda>r. (route_key r, r)) routes\<rparr>"
proof (cases "publish_loop 0 routes []")
  case (Inl err)
  then have "\<not> ((\<forall>r \<in> set routes. validatePublishedRoute r = None) \<and> distinct (map route_key routes))"
    using publish_loop_Inr [of 0 routes "[]" "map (\<lambda>r. (route_key r, r)) routes"] by auto
  with Inl show ?thesis by (auto simp: Publish_def)
next
  case (Inr gen)
  with publish_loop_Inr [of 0 routes "[]" gen] show ?thesis by (auto simp: Publish_def)
qed

lemma Publish_failed: "snd (Publish d routes) = Some err \<Longrightarrow> fst (Publish d routes) = d"
  by (auto simp: Publish_def split: sum.splits)

text \<open>Whether a publication succeeds does not depend on the generation it replaces.\<close>

lemma Publish_independent: "snd (Publish d routes) = snd (Publish d' routes)"
  by (auto simp: Publish_def split: sum.splits)

definition publish_history :: "directory \<Rightarrow> published_route list list \<Rightarrow> directory" where
  "publish_history d generations = foldl (\<lambda>d routes. fst (Publish d routes)) d generations"

lemma publish_history_failed:
  "\<forall>routes \<in> set later. snd (Publish d routes) \<noteq> None \<Longrightarrow> publish_history d later = d"
  unfolding publish_history_def
proof (induction later)
  case (Cons routes later)
  then obtain err where "snd (Publish d routes) = Some err" by auto
  with Cons show ?case by (simp add: Publish_failed)
qed simp

lemma valid_loop_filter:
  "valid_loop parse p now cs =
     filter (\<lambda>c. validFor parse c p now \<and> ca_CompatibilityKey c = pb_CompatibilityKey p) cs"
  by (induction cs) auto

definition route_for :: "published_route list \<Rightarrow> string \<Rightarrow> string \<Rightarrow> published_route \<Rightarrow> bool" where
  "route_for routes t p r =
     (r \<in> set routes \<and> en_CustomerTenantID (pr_Entitlement r) = t \<and> en_ProductID (pr_Entitlement r) = p)"

lemma map_of_generation:
  assumes "distinct (map route_key routes)"
  shows "map_of (map (\<lambda>r. (route_key r, r)) routes) k = Some r \<longleftrightarrow> r \<in> set routes \<and> route_key r = k"
  using assms by (induction routes) (auto simp: image_iff)

lemma generation_lookup:
  assumes "Publish d routes = (d', None)" "CHR 0x00 \<notin> set t"
    "\<forall>r \<in> set routes. CHR 0x00 \<notin> set (en_CustomerTenantID (pr_Entitlement r))"
  shows "map_of (dir_state d') (key t p) = Some r \<longleftrightarrow> route_for routes t p r"
proof -
  have gen: "distinct (map route_key routes)" "dir_state d' = map (\<lambda>r. (route_key r, r)) routes"
    using assms(1) by (auto simp: Publish_ok)
  show ?thesis unfolding gen(2)
    unfolding map_of_generation [OF gen(1)]
    unfolding route_for_def route_key_def using assms(2,3) by (auto simp: key_inj)
qed

lemma Acquire_Inr:
  "Acquire parse now d t p = Inr l \<longleftrightarrow> t \<noteq> '''' \<and> p \<noteq> '''' \<and>
     (\<exists>r. map_of (dir_state d) (key t p) = Some r \<and> activeAt (pr_Entitlement r) now \<and>
        publication_currentAt (pr_Publication r) now \<and> rate_currentAt (pr_Rate r) now \<and>
        l = \<lparr>le_Entitlement = pr_Entitlement r, le_Publication = pr_Publication r, le_Rate = pr_Rate r,
             le_Candidates = valid_loop parse (pr_Publication r) now (pr_Candidates r)\<rparr> \<and>
        le_Candidates l \<noteq> [])"
  by (auto simp: Acquire_def Let_def split: option.splits if_splits)

lemma Acquire_unauthorized:
  "Acquire parse now d t p = Inl ErrUnauthorized \<longleftrightarrow> t = '''' \<or> p = '''' \<or>
     (\<forall>r. map_of (dir_state d) (key t p) = Some r \<longrightarrow> \<not> activeAt (pr_Entitlement r) now)"
  by (auto simp: Acquire_def Let_def split: option.splits if_splits)

lemma activeAt_nonempty:
  "activeAt e now \<Longrightarrow> en_CustomerTenantID e \<noteq> '''' \<and> en_ProductID e \<noteq> ''''"
  by (simp add: activeAt_def)

text \<open>C21.
  Leases come from the last generation that was published completely, and admission fails closed.
  After a successful publication, and any number of later publications that were rejected, a request
  of a tenant for a product obtains a lease exactly when that generation holds a route of this
  tenant and product whose entitlement is active, whose publication and price are current, and at
  least one of whose candidates is qualified, available and exactly compatible at that instant; the
  lease then carries the entitlement, publication and price of that route and precisely those
  candidates in publication order. It is refused as unauthorized exactly when there is no route of
  this tenant and product with an active entitlement. Tenant identifiers contain no NUL byte, which
  separates them from the product in the key (database text cannot contain one).
\<close>

theorem lease_of_current_generation:
  assumes published: "Publish d routes = (d1, None)"
    and rejected: "\<forall>rs \<in> set later. snd (Publish d1 rs) \<noteq> None"
    and nul: "CHR 0x00 \<notin> set t"
      "\<forall>r \<in> set routes. CHR 0x00 \<notin> set (en_CustomerTenantID (pr_Entitlement r))"
  shows "(Acquire parse now (publish_history d1 later) t p = Inr l \<longleftrightarrow>
      (\<exists>r. route_for routes t p r \<and> activeAt (pr_Entitlement r) now \<and>
         publication_currentAt (pr_Publication r) now \<and> rate_currentAt (pr_Rate r) now \<and>
         le_Entitlement l = pr_Entitlement r \<and> le_Publication l = pr_Publication r \<and>
         le_Rate l = pr_Rate r \<and>
         le_Candidates l = filter (\<lambda>c. validFor parse c (pr_Publication r) now \<and>
             ca_CompatibilityKey c = pb_CompatibilityKey (pr_Publication r)) (pr_Candidates r) \<and>
         le_Candidates l \<noteq> [])) \<and>
    (Acquire parse now (publish_history d1 later) t p = Inl ErrUnauthorized \<longleftrightarrow>
      \<not> (\<exists>r. route_for routes t p r \<and> activeAt (pr_Entitlement r) now))"
proof -
  have nonempty: "t \<noteq> [] \<and> p \<noteq> []" if "route_for routes t p r" "activeAt (pr_Entitlement r) now" for r
    using that by (auto simp: route_for_def dest: activeAt_nonempty)
  show ?thesis
    unfolding publish_history_failed [OF rejected] Acquire_Inr Acquire_unauthorized
      generation_lookup [OF published nul] valid_loop_filter
    by (cases l) (use nonempty in auto)
qed

lemma candidates_loop_Inr:
  "candidates_loop cs seen w0 h0 = Inr (w, h) \<Longrightarrow>
    distinct (map ca_ID cs) \<and> ca_ID ` set cs \<inter> set seen = {} \<and>
    (\<forall>c \<in> set cs. 0 \<le> ca_TrafficWeightBPS c \<and> ca_TrafficWeightBPS c \<le> 10000) \<and>
    w = w0 + sum_list (map ca_TrafficWeightBPS cs) \<and>
    (h \<longleftrightarrow> h0 \<or> (\<exists>c \<in> set cs. ca_TrafficWeightBPS c \<noteq> 0))"
proof (induction cs arbitrary: seen w0 h0)
  case (Cons c cs)
  let ?wt = "ca_TrafficWeightBPS c"
  have c: "ca_ID c \<notin> set seen" "0 \<le> ?wt" "?wt \<le> 10000" and
    rest: "candidates_loop cs (ca_ID c # seen) (w0 + ?wt) (h0 \<or> 0 < ?wt) = Inr (w, h)"
    using Cons.prems by (auto split: if_splits)
  show ?case using Cons.IH [OF rest] c by (auto simp: image_iff)
qed simp

lemma validatePublishedRoute_None:
  assumes "validatePublishedRoute r = None"
  shows "distinct (map ca_ID (pr_Candidates r)) \<and>
    (\<forall>c \<in> set (pr_Candidates r). 0 \<le> ca_TrafficWeightBPS c \<and> ca_TrafficWeightBPS c \<le> 10000) \<and>
    (sum_list (map ca_TrafficWeightBPS (pr_Candidates r)) = 10000 \<or>
     (\<forall>c \<in> set (pr_Candidates r). ca_TrafficWeightBPS c = 0))"
proof -
  obtain w h where "candidates_loop (pr_Candidates r) [] 0 False = Inr (w, h)" "\<not> (h \<and> w \<noteq> 10000)"
    using assms unfolding validatePublishedRoute_def Let_def
    by (simp split: if_split_asm sum.split_asm prod.split_asm)
  with candidates_loop_Inr [OF this(1)] show ?thesis by fastforce
qed


section \<open>Weighted shares\<close>

abbreviation weights :: "candidate list \<Rightarrow> int" where
  "weights cs \<equiv> sum_list (map ca_TrafficWeightBPS cs)"

definition eligible :: "lease \<Rightarrow> string \<Rightarrow> candidate list" where
  "eligible l operation = filter (\<lambda>c. supports c operation) (le_Candidates l)"

lemma supports_iff: "supports c operation \<longleftrightarrow> operation \<in> set (ca_Operations c)"
proof -
  have "supports_loop operation ops \<longleftrightarrow> operation \<in> set ops" for ops by (induction ops) auto
  then show ?thesis by (simp add: supports_def)
qed

text \<open>The loop selects the candidate whose interval of cumulated weights holds the bucket.\<close>

lemma selected_loop_interval:
  assumes "cum \<le> b" "b < cum + weights cs"
  shows "\<exists>j < length cs. selected_loop b cum i cs = i + j \<and>
    cum + weights (take j cs) \<le> b \<and> b < cum + weights (take (Suc j) cs)"
  using assms
proof (induction cs arbitrary: cum i)
  case (Cons c cs)
  show ?case
  proof (cases "b < cum + ca_TrafficWeightBPS c")
    case True
    with Cons.prems show ?thesis by (intro exI [of _ 0]) auto
  next
    case False
    with Cons.prems have "cum + ca_TrafficWeightBPS c \<le> b" "b < cum + ca_TrafficWeightBPS c + weights cs"
      by auto
    from Cons.IH [OF this, of "Suc i"] obtain j where "j < length cs"
      "selected_loop b (cum + ca_TrafficWeightBPS c) (Suc i) cs = Suc i + j"
      "cum + ca_TrafficWeightBPS c + weights (take j cs) \<le> b"
      "b < cum + ca_TrafficWeightBPS c + weights (take (Suc j) cs)" by blast
    with False show ?thesis by (intro exI [of _ "Suc j"]) (simp add: add.assoc)
  qed
qed simp

lemma weights_take_mono:
  assumes "\<forall>c \<in> set cs. 0 \<le> ca_TrafficWeightBPS c" "i \<le> j"
  shows "weights (take i cs) \<le> weights (take j cs)"
proof -
  have "take j cs = take i cs @ take (j - i) (drop i cs)"
    using assms(2) by (metis le_add_diff_inverse take_add)
  moreover have "0 \<le> weights (take (j - i) (drop i cs))"
    using assms(1) by (intro sum_list_nonneg) (auto dest!: in_set_takeD in_set_dropD)
  ultimately show ?thesis by simp
qed

lemma selected_loop_iff:
  assumes nonneg: "\<forall>c \<in> set cs. 0 \<le> ca_TrafficWeightBPS c" and b: "0 \<le> b" "b < weights cs"
    and j: "j < length cs"
  shows "selected_loop b 0 0 cs = j \<longleftrightarrow> weights (take j cs) \<le> b \<and> b < weights (take (Suc j) cs)"
proof -
  obtain k where k: "k < length cs" "selected_loop b 0 0 cs = k"
    "weights (take k cs) \<le> b" "b < weights (take (Suc k) cs)"
    using selected_loop_interval [of 0 b cs 0] b by auto
  have "k = j" if "weights (take j cs) \<le> b" "b < weights (take (Suc j) cs)"
    using weights_take_mono [OF nonneg, of "Suc j" k] weights_take_mono [OF nonneg, of "Suc k" j] that k
    by (cases j k rule: linorder_cases) auto
  with k show ?thesis by auto
qed

text \<open>The order for a request, given its selected index.\<close>

definition selected_first :: "'a list \<Rightarrow> nat \<Rightarrow> 'a list" where
  "selected_first cs i = (if i = 0 then cs else cs ! i # take i cs @ drop (Suc i) cs)"

definition bucket_of :: "(string \<Rightarrow> int) \<Rightarrow> lease \<Rightarrow> string \<Rightarrow> int" where
  "bucket_of digest64 l requestID =
     digest64 (en_CustomerTenantID (le_Entitlement l) @ bytes [0] @ en_ProductID (le_Entitlement l) @
       bytes [0] @ pb_SupplyPlanID (le_Publication l) @ bytes [0] @ requestID) mod 10000"

lemma selected_first_props:
  assumes "i < length cs"
  shows "mset (selected_first cs i) = mset cs" "hd (selected_first cs i) = cs ! i"
    "tl (selected_first cs i) = drop_nth i cs"
proof -
  have "mset cs = add_mset (cs ! i) (mset (take i cs) + mset (drop (Suc i) cs))"
    using arg_cong [OF id_take_nth_drop [OF assms], of mset] by simp
  then show "mset (selected_first cs i) = mset cs" by (simp add: selected_first_def)
  show "hd (selected_first cs i) = cs ! i" "tl (selected_first cs i) = drop_nth i cs"
    using assms by (cases cs; auto simp: selected_first_def drop_nth_def)+
qed

lemma selected_first_Cons: "i < length cs \<Longrightarrow> selected_first cs i = cs ! i # drop_nth i cs"
  by (cases cs) (auto simp: selected_first_def drop_nth_def)

lemma CandidatesForRequest_cases:
  "CandidatesForRequest digest64 l requestID operation =
     (let es = eligible l operation in
      if weights es = 10000 \<and> 2 \<le> length es
        then selected_first es (selected_loop (bucket_of digest64 l requestID) 0 0 es)
      else es)"
  unfolding CandidatesForRequest_def eligible_def bucket_of_def selected_first_def Let_def by simp

lemma candidates_selected:
  assumes nonneg: "\<forall>c \<in> set (le_Candidates l). 0 \<le> ca_TrafficWeightBPS c"
    and total: "weights (eligible l operation) = 10000"
  shows "\<exists>i < length (eligible l operation).
    CandidatesForRequest digest64 l requestID operation = selected_first (eligible l operation) i \<and>
    (\<forall>j < length (eligible l operation). i = j \<longleftrightarrow>
      weights (take j (eligible l operation)) \<le> bucket_of digest64 l requestID \<and>
      bucket_of digest64 l requestID < weights (take (Suc j) (eligible l operation)))"
proof -
  let ?es = "eligible l operation" and ?b = "bucket_of digest64 l requestID"
  have b: "0 \<le> ?b" "?b < 10000" by (auto simp: bucket_of_def)
  have nn: "\<forall>c \<in> set ?es. 0 \<le> ca_TrafficWeightBPS c" using nonneg by (auto simp: eligible_def)
  define i where "i = selected_loop ?b 0 0 ?es"
  have i: "i < length ?es" using selected_loop_interval [of 0 ?b ?es 0] b total by (auto simp: i_def)
  have "CandidatesForRequest digest64 l requestID operation = selected_first ?es i"
  proof (cases "2 \<le> length ?es")
    case False
    with i have "i = 0" by linarith
    with False show ?thesis by (simp add: CandidatesForRequest_cases selected_first_def Let_def)
  qed (simp add: CandidatesForRequest_cases total i_def Let_def)
  moreover have "\<forall>j < length ?es. i = j \<longleftrightarrow> weights (take j ?es) \<le> ?b \<and> ?b < weights (take (Suc j) ?es)"
    using selected_loop_iff [OF nn b(1)] b(2) total by (simp add: i_def)
  ultimately show ?thesis using i by blast
qed

lemma candidate_share:
  assumes distinct: "distinct (map ca_ID (le_Candidates l))"
    and nonneg: "\<forall>c \<in> set (le_Candidates l). 0 \<le> ca_TrafficWeightBPS c"
    and total: "weights (eligible l operation) = 10000" and c: "c \<in> set (eligible l operation)"
  shows "int (card {b. 0 \<le> b \<and> b < 10000 \<and>
      hd (CandidatesForRequest (\<lambda>_. b) l requestID operation) = c}) = ca_TrafficWeightBPS c"
proof -
  let ?es = "eligible l operation"
  have dist: "distinct ?es" using distinct by (simp add: eligible_def distinct_map)
  have nn: "\<forall>c \<in> set ?es. 0 \<le> ca_TrafficWeightBPS c" using nonneg by (auto simp: eligible_def)
  obtain j where j: "j < length ?es" "c = ?es ! j" using c by (auto simp: in_set_conv_nth)
  have first: "hd (CandidatesForRequest (\<lambda>_. b) l requestID operation) = c \<longleftrightarrow>
      weights (take j ?es) \<le> b \<and> b < weights (take (Suc j) ?es)" if "0 \<le> b" "b < 10000" for b
  proof -
    have "bucket_of (\<lambda>_. b) l requestID = b" using that by (simp add: bucket_of_def)
    with candidates_selected [OF nonneg total, of "\<lambda>_. b" requestID] j dist show ?thesis
      by (auto simp: selected_first_props nth_eq_iff_index_eq)
  qed
  have bounds: "0 \<le> weights (take j ?es)" "weights (take (Suc j) ?es) \<le> 10000"
    using weights_take_mono [OF nn, of 0 j] weights_take_mono [OF nn, of "Suc j" "length ?es"] j total
    by simp_all
  have "{b. 0 \<le> b \<and> b < 10000 \<and> hd (CandidatesForRequest (\<lambda>_. b) l requestID operation) = c} =
      {b. 0 \<le> b \<and> b < 10000 \<and> weights (take j ?es) \<le> b \<and> b < weights (take (Suc j) ?es)}"
    by (simp add: first cong: conj_cong)
  also have "\<dots> = {weights (take j ?es) ..< weights (take (Suc j) ?es)}" using bounds by auto
  finally show ?thesis using j nn by (simp add: take_Suc_conv_app_nth)
qed

lemma publication_order:
  "weights (eligible l operation) \<noteq> 10000 \<Longrightarrow> CandidatesForRequest digest64 l requestID operation = eligible l operation"
  by (simp add: CandidatesForRequest_cases Let_def)

text \<open>C15.
  Weighted selection is exact and loses nobody, as long as the candidates that support the operation
  carry the whole weight of their generation or none. Suppose the candidates of a lease have distinct
  identities and non-negative weights (every published route has), and the weights of those supporting
  the operation total 10000 basis points, so no weighted candidate has dropped out or lacks the
  operation, or are all zero, as in a legacy generation. Then the order computed for a request is one
  supporting candidate followed by the others in publication order. Of the 10000 buckets a digest can
  fall into, with weights exactly as many put a candidate first as its weight in basis points, so a
  zero-weight fallback is never first; without weights all of them put the first published candidate
  first.
\<close>

theorem weighted_share_exact:
  assumes distinct: "distinct (map ca_ID (le_Candidates l))"
    and nonneg: "\<forall>c \<in> set (le_Candidates l). 0 \<le> ca_TrafficWeightBPS c"
    and some: "eligible l operation \<noteq> []"
    and intact: "weights (eligible l operation) = 10000 \<or> (\<forall>c \<in> set (eligible l operation). ca_TrafficWeightBPS c = 0)"
  shows "(\<exists>i < length (eligible l operation).
      CandidatesForRequest digest64 l requestID operation = eligible l operation ! i # drop_nth i (eligible l operation)) \<and>
    (\<forall>c \<in> set (eligible l operation).
      int (card {b. 0 \<le> b \<and> b < 10000 \<and> hd (CandidatesForRequest (\<lambda>_. b) l requestID operation) = c}) =
        (if \<exists>x \<in> set (eligible l operation). ca_TrafficWeightBPS x \<noteq> 0 then ca_TrafficWeightBPS c
         else if c = hd (eligible l operation) then 10000 else 0))"
proof (cases "weights (eligible l operation) = 10000")
  case True
  let ?es = "eligible l operation"
  obtain i where i: "i < length ?es" "CandidatesForRequest digest64 l requestID operation = selected_first ?es i"
    using candidates_selected [OF nonneg True, of digest64 requestID] by blast
  then have "CandidatesForRequest digest64 l requestID operation = ?es ! i # drop_nth i ?es"
    by (simp add: selected_first_Cons)
  moreover have "\<exists>x \<in> set ?es. ca_TrafficWeightBPS x \<noteq> 0"
    using True by (metis (mono_tags, lifting) map_cong sum_list_0 zero_neq_numeral)
  ultimately show ?thesis using i(1) candidate_share [OF distinct nonneg True] by auto
next
  case False
  let ?es = "eligible l operation"
  have zero: "\<forall>c \<in> set ?es. ca_TrafficWeightBPS c = 0" using intact False by blast
  have order: "CandidatesForRequest d l requestID operation = ?es" for d by (rule publication_order [OF False])
  have "{b. 0 \<le> b \<and> b < (10000::int) \<and> hd ?es = c} = (if c = hd ?es then {0..<10000} else {})" for c by auto
  moreover have "?es = ?es ! 0 # drop_nth 0 ?es" using some by (cases ?es) (simp_all add: drop_nth_def)
  ultimately show ?thesis using some zero unfolding order by (auto intro!: exI [of _ 0])
qed

text \<open>
  Otherwise the weights are ignored: when a weighted candidate has dropped out of the lease or does
  not support the operation, every request goes to the first remaining candidate in publication
  order, here to a fallback of weight zero.
\<close>

lemma partial_weights_ignored:
  assumes "le_Candidates l = [fallback, main, canary]" "supports fallback operation" "supports main operation" "\<not> supports canary operation"
    and "ca_TrafficWeightBPS fallback = 0" "ca_TrafficWeightBPS main = 9000" "ca_TrafficWeightBPS canary = 1000"
  shows "CandidatesForRequest digest64 l requestID operation = [fallback, main]"
  using assms publication_order [of l operation] by (simp add: eligible_def)

section \<open>What the circuit decides\<close>

type_synonym observation = "string \<times> bool \<times> gotime"

definition observe_all :: "circuit_breaker option \<Rightarrow> observation list \<Rightarrow> circuit_breaker option" where
  "observe_all br events = foldl (\<lambda>br (candidateID, success, t). Observe br candidateID success t) br events"

text \<open>The reference: the times of a candidate's failures since its last success.\<close>

definition failures_since_success :: "string \<Rightarrow> observation list \<Rightarrow> gotime list" where
  "failures_since_success c events =
     foldl (\<lambda>fs (i, success, t). if i \<noteq> c then fs else if success then [] else fs @ [t]) [] events"

definition open_until :: "nat \<Rightarrow> duration \<Rightarrow> gotime list \<Rightarrow> gotime option" where
  "open_until threshold openFor fs =
     (if length fs < threshold then None
      else Some (fs ! (length fs div threshold * threshold - 1) + openFor))"

definition circuit_matches :: "string \<Rightarrow> circuit_breaker \<Rightarrow> gotime list \<Rightarrow> bool" where
  "circuit_matches c b fs =
     (cs_consecutiveFailures (state_of b c) = int (length fs mod nat (cb_failureThreshold b)) \<and>
      cs_openUntil (state_of b c) =
        (case open_until (nat (cb_failureThreshold b)) (cb_openFor b) fs of None \<Rightarrow> 0 | Some u \<Rightarrow> u))"

lemma open_until_snoc:
  assumes "0 < n"
  shows "open_until n d (fs @ [t]) =
    (if Suc (length fs) mod n = 0 then Some (t + d) else open_until n d fs)"
proof (cases "Suc (length fs) mod n = 0")
  case True
  then have "Suc (length fs) div n * n = Suc (length fs)" by (simp add: mod_0_imp_dvd)
  moreover have "n \<le> Suc (length fs)" using True by (metis Suc_neq_Zero mod_less not_le)
  ultimately show ?thesis using True by (simp add: open_until_def nth_append)
next
  case False
  then have "Suc (length fs) div n = length fs div n" by (simp add: div_Suc)
  moreover have "Suc (length fs) < n \<longleftrightarrow> length fs < n" using False by (metis Suc_lessD Suc_lessI mod_self)
  moreover have "length fs div n * n - 1 < length fs" if "n \<le> length fs"
    using that assms div_times_less_eq_dividend [of "length fs" n]
    by linarith
  ultimately show ?thesis using False assms
    by (auto simp: open_until_def nth_append)
qed

lemma mod_Suc_zero:
  assumes "0 < n"
  shows "Suc k mod n = 0 \<longleftrightarrow> n \<le> Suc (k mod n)"
proof -
  from assms have "k mod n < n" by simp
  then have "n \<le> Suc (k mod n) \<longleftrightarrow> Suc (k mod n) = n" by linarith
  then show ?thesis by (simp add: mod_Suc)
qed

lemma Observe_matches:
  assumes "circuit_matches c b fs" "0 < cb_failureThreshold b" "c \<noteq> ''''"
  shows "\<exists>b'. Observe (Some b) i success t = Some b' \<and> cb_failureThreshold b' = cb_failureThreshold b \<and>
    cb_openFor b' = cb_openFor b \<and>
    circuit_matches c b' (if i \<noteq> c then fs else if success then [] else fs @ [t])"
proof -
  let ?n = "nat (cb_failureThreshold b)"
  have n: "0 < ?n" using assms(2) by simp
  show ?thesis
  proof (cases "i = c \<and> \<not> success")
    case True
    have "cs_consecutiveFailures (state_of b c) + 1 \<ge> cb_failureThreshold b \<longleftrightarrow> Suc (length fs) mod ?n = 0"
      using assms(1,2) mod_Suc_zero [OF n, of "length fs"] by (auto simp: circuit_matches_def)
    with True assms n show ?thesis
      by (auto simp: Observe_def Let_def circuit_matches_def state_of_def open_until_snoc mod_Suc)
  next
    case False
    with assms n show ?thesis
      by (auto simp: Observe_def Let_def circuit_matches_def state_of_def open_until_def)
  qed
qed

lemma observe_all_matches:
  assumes "c \<noteq> ''''" "0 < cb_failureThreshold b" "circuit_matches c b []"
  shows "\<exists>b'. observe_all (Some b) events = Some b' \<and> cb_failureThreshold b' = cb_failureThreshold b \<and>
    cb_openFor b' = cb_openFor b \<and> circuit_matches c b' (failures_since_success c events)"
proof (induction events rule: rev_induct)
  case Nil
  with assms(3) show ?case by (simp add: observe_all_def failures_since_success_def)
next
  case (snoc ev events)
  obtain i success t where ev: "ev = (i, success, t)" by (cases ev)
  from snoc obtain b' where "observe_all (Some b) events = Some b'"
    "cb_failureThreshold b' = cb_failureThreshold b" "cb_openFor b' = cb_openFor b"
    "circuit_matches c b' (failures_since_success c events)" by blast
  with Observe_matches [OF this(4), of i success t] assms ev show ?case
    by (auto simp: observe_all_def failures_since_success_def)
qed

text \<open>C14.
  The circuit breaker computes its reference: after any sequence of observed outcomes of any
  candidates, a candidate is refused exactly while the opening caused by its failures lasts. Its
  failures since its last success are grouped by the failure threshold; the last failure of the last
  complete group opens the circuit for the configured duration, and there is no opening before the
  first complete group. Outcomes of other candidates have no influence, and the breaker always has
  a positive threshold and duration, whatever it was created with.
\<close>

theorem circuit_reference:
  assumes "candidateID \<noteq> ''''" "0 \<le> now"
  shows "Allow (observe_all (Some (NewCircuitBreaker failureThreshold openFor)) events) candidateID now =
      (case open_until (if failureThreshold < 1 then 3 else nat failureThreshold)
             (if openFor \<le> 0 then 30 * Second else openFor)
             (failures_since_success candidateID events) of
         None \<Rightarrow> True
       | Some until \<Rightarrow> until \<le> now)"
proof -
  let ?b = "NewCircuitBreaker failureThreshold openFor"
  have start: "circuit_matches candidateID ?b []"
    by (auto simp: circuit_matches_def state_of_def NewCircuitBreaker_def open_until_def)
  have thr: "0 < cb_failureThreshold ?b" by (simp add: NewCircuitBreaker_def)
  obtain b' where b': "observe_all (Some ?b) events = Some b'"
    "cb_failureThreshold b' = cb_failureThreshold ?b" "cb_openFor b' = cb_openFor ?b"
    "circuit_matches candidateID b' (failures_since_success candidateID events)"
    using observe_all_matches [OF assms(1) thr start] by blast
  have "nat (cb_failureThreshold ?b) = (if failureThreshold < 1 then 3 else nat failureThreshold)"
    by (simp add: NewCircuitBreaker_def)
  moreover have "cb_openFor ?b = (if openFor \<le> 0 then 30 * Second else openFor)"
    by (simp add: NewCircuitBreaker_def)
  ultimately show ?thesis using b' assms
    by (auto simp: Allow_def Let_def circuit_matches_def is_zero_time_def split: option.splits)
qed

text \<open>The catalog a tenant sees lists, in order, the products it could acquire up to candidate health.\<close>

lemma ListForTenant_set:
  assumes "Publish d routes = (d1, None)"
  shows "sorted (ListForTenant now d1 t) \<and>
    set (ListForTenant now d1 t) = {p. \<exists>r. route_for routes t p r \<and> activeAt (pr_Entitlement r) now \<and>
      publication_currentAt (pr_Publication r) now \<and> rate_currentAt (pr_Rate r) now}"
proof -
  have loop: "set (products_loop t now gen) = {p. \<exists>r \<in> snd ` set gen.
      en_CustomerTenantID (pr_Entitlement r) = t \<and> en_ProductID (pr_Entitlement r) = p \<and>
      activeAt (pr_Entitlement r) now \<and> publication_currentAt (pr_Publication r) now \<and>
      rate_currentAt (pr_Rate r) now}" for gen
    by (induction t now gen rule: products_loop.induct) auto
  have gen: "dir_state d1 = map (\<lambda>r. (route_key r, r)) routes" using assms by (simp add: Publish_ok)
  show ?thesis unfolding ListForTenant_def sorted_sort set_sort loop gen
    by (auto simp: route_for_def image_image)
qed


section \<open>An example\<close>

definition example_candidate :: "string \<Rightarrow> int \<Rightarrow> candidate" where
  "example_candidate ident weight =
     \<lparr>ca_ID = ident, ca_ProductID = ''llama'', ca_OperatorTenantID = ''op'', ca_ServingPlanID = ''plan'',
      ca_SupplyPlanID = ''supply'', ca_OfferID = ''offer'', ca_QualificationEvidenceID = ''evidence'',
      ca_CompatibilityKey = ''k'', ca_OfferVersion = 1, ca_Protocol = ''openai'', ca_Supplier = ''acme'',
      ca_SupplierModelID = ''m'', ca_TargetBindingID = [], ca_TargetBindingDigest = [],
      ca_Operations = [''chat''], ca_Endpoint = ''https://acme.test'', ca_Credential = ''secret'',
      ca_Adapter = [], ca_CredentialReference = [], ca_TrafficWeightBPS = weight,
      ca_Qualified = True, ca_Available = True, ca_ValidUntil = 1000\<rparr>"

definition example_route :: published_route where
  "example_route =
     \<lparr>pr_Entitlement =
        \<lparr>en_ID = ''e1'', en_CustomerTenantID = ''cust'', en_ProductID = ''llama'', en_OperatorTenantID = ''op'',
         en_ServingPlanID = ''plan'', en_RetailRateID = ''rate'', en_RetailRateVersion = 1,
         en_State = ''active'', en_MaxRequestMicrousd = 500, en_ValidFrom = 1, en_ValidUntil = None\<rparr>,
      pr_Publication =
        \<lparr>pb_ProductID = ''llama'', pb_OperatorTenantID = ''op'', pb_ServingPlanID = ''plan'',
         pb_SupplyPlanID = ''supply'', pb_CompatibilityKey = ''k'', pb_EvidenceID = ''evidence'',
         pb_EvidenceValidUntil = 1000, pb_ValidUntil = 1000\<rparr>,
      pr_Rate =
        \<lparr>rr_ID = ''rate'', rr_ProductID = ''llama'', rr_ContractDigest = ''sha256:0'', rr_Version = 1,
         rr_InputMicrousdPerMillion = 100, rr_OutputMicrousdPerMillion = 200,
         rr_CachedInputMicrousdPerMillion = None, rr_ValidFrom = 1, rr_ValidUntil = 1000\<rparr>,
      pr_Candidates = [example_candidate ''stable'' 9000, example_candidate ''canary'' 1000]\<rparr>"

definition example_parse_url :: url_parser where
  "example_parse_url s =
     Some \<lparr>url_Scheme = ''https'', url_Host = ''acme.test'', url_HasUser = False, url_RawQuery = [],
           url_Fragment = [], url_Path = []\<rparr>"

definition example_lease :: lease where
  "example_lease =
     \<lparr>le_Entitlement = pr_Entitlement example_route, le_Publication = pr_Publication example_route,
      le_Rate = pr_Rate example_route, le_Candidates = pr_Candidates example_route\<rparr>"

lemma example_published:
  "Publish NewDirectory [example_route] =
     (NewDirectory\<lparr>dir_state := [(route_key example_route, example_route)]\<rparr>, None)"
  by (simp add: Publish_ok validatePublishedRoute_def example_route_def example_candidate_def Let_def)

lemma example_validity:
  "activeAt (pr_Entitlement example_route) 5" "publication_currentAt (pr_Publication example_route) 5"
  "rate_currentAt (pr_Rate example_route) 5"
  "validFor example_parse_url (example_candidate i w) (pr_Publication example_route) 5 \<longleftrightarrow> i \<noteq> ''''"
  by (simp_all add: activeAt_def publication_currentAt_def rate_currentAt_def validFor_def HasPrefix_def
      example_route_def example_candidate_def example_parse_url_def)

lemma example_acquired:
  "Acquire example_parse_url 5 (fst (Publish NewDirectory [example_route])) ''cust'' ''llama'' = Inr example_lease"
proof -
  have key: "key ''cust'' ''llama'' = route_key example_route" by (simp add: route_key_def example_route_def)
  have "le_Candidates example_lease = valid_loop example_parse_url (pr_Publication example_route) 5 (pr_Candidates example_route)"
    unfolding valid_loop_filter example_lease_def
    by (simp add: example_validity [unfolded example_route_def, simplified] example_route_def)
      (simp add: example_candidate_def)
  then show ?thesis unfolding Acquire_Inr
    by (auto simp: example_published key example_validity example_lease_def) (simp add: example_route_def)
qed

theorem lease_of_current_generation_witness:
  "Acquire example_parse_url 5
     (publish_history (fst (Publish NewDirectory [example_route])) [[example_route, example_route]])
     ''cust'' ''llama'' = Inr example_lease"
proof -
  have dup: "snd (Publish d [example_route, example_route]) \<noteq> None" for d
    using Publish_ok [of d "[example_route, example_route]" "fst (Publish d [example_route, example_route])"]
    by (cases "Publish d [example_route, example_route]") auto
  note claim = lease_of_current_generation [OF example_published, of "[[example_route, example_route]]"
      "''cust''" example_parse_url 5 "''llama''" example_lease]
  show ?thesis unfolding example_published fst_conv
    by (rule claim [THEN conjunct1, THEN iffD2])
      (use dup in \<open>simp_all add: route_for_def example_validity example_lease_def\<close>,
       simp_all add: example_route_def example_validity [unfolded example_route_def, simplified],
       simp add: example_candidate_def)
qed

theorem weighted_share_exact_witness:
  "int (card {b. 0 \<le> b \<and> b < 10000 \<and>
     hd (CandidatesForRequest (\<lambda>_. b) example_lease ''req-1'' ''chat'') = example_candidate ''canary'' 1000}) = 1000"
proof -
  have es: "eligible example_lease ''chat'' = [example_candidate ''stable'' 9000, example_candidate ''canary'' 1000]"
    by (simp add: eligible_def example_lease_def example_route_def supports_iff example_candidate_def)
  have "distinct (map ca_ID (le_Candidates example_lease))"
    "\<forall>c \<in> set (le_Candidates example_lease). 0 \<le> ca_TrafficWeightBPS c"
    by (simp_all add: example_lease_def example_route_def example_candidate_def)
  from weighted_share_exact [OF this, of "''chat''" "\<lambda>_. 0" "''req-1''"] show ?thesis
    by (simp add: es example_candidate_def)
qed

theorem circuit_reference_witness:
  "\<not> Allow (observe_all (Some (NewCircuitBreaker 2 100))
       [(''a'', False, 10), (''b'', True, 11), (''a'', False, 20), (''a'', False, 30)]) ''a'' 119 \<and>
   Allow (observe_all (Some (NewCircuitBreaker 2 100))
       [(''a'', False, 10), (''b'', True, 11), (''a'', False, 20), (''a'', False, 30)]) ''a'' 120"
  by (simp add: circuit_reference failures_since_success_def open_until_def)

end
