(* ===== verification/Sse_Stream.thy ===== *)
theory Sse_Stream
  imports Go_Strings
begin

text \<open>
  The server-sent-event stream of a supplier, as the hosted Model API copies it to the customer
  (\<open>internal/modelapirouting/runtime.go\<close>): the line splitter, the \<open>bufio.Scanner\<close> that drives it,
  the rewriting of an event and the copy loop.

  The body of the response arrives as the list of the chunks its \<open>Read\<close> calls return, followed by
  the end of the stream or a read error. The scanner offers a read the space left in its buffer of
  \<open>maxSSELineBytes + 1\<close> bytes (it grows to that size by doubling, which only changes the sizes of the
  reads) and fails when the buffer is full and holds no complete line. A read that returns nothing is
  repeated; that the scanner gives up after a hundred of them in a row is not modelled. Decoding and encoding of JSON
  are parameters: \<open>rewrite_json\<close> stands for \<open>rewriteJSONModel\<close>, which decodes an object, replaces the
  member \<open>model\<close> and encodes the result.
\<close>


section \<open>Lines\<close>

abbreviation "LF \<equiv> CHR 0x0A"
abbreviation "CR \<equiv> CHR 0x0D"
abbreviation "NUL \<equiv> CHR 0x00"

text \<open>
  The loop of \<open>splitSSELines\<close>: the scanned prefix, in reverse, and the rest of the data. The result
  is the advance and the token; no token asks for more data.
\<close>

fun split_loop :: "string \<Rightarrow> string \<Rightarrow> bool \<Rightarrow> nat \<times> string option" where
  "split_loop pre [] atEOF =
     (if atEOF \<and> pre \<noteq> [] then (length pre, Some (rev pre)) else (0, None))"
| "split_loop pre (c # rest) atEOF =
     (if c = LF then (Suc (length pre), Some (rev pre))
      else if c = CR then
        (if rest = [] \<and> \<not> atEOF then (0, None)
         else let advance = Suc (length pre);
                  advance' = (case rest of [] \<Rightarrow> advance | d # _ \<Rightarrow> if d = LF then Suc advance else advance)
              in (advance', Some (rev pre)))
      else split_loop (c # pre) rest atEOF)"

definition splitSSELines :: "string \<Rightarrow> bool \<Rightarrow> nat \<times> string option" where
  "splitSSELines data atEOF = split_loop [] data atEOF"

definition maxSSELineBytes :: nat where "maxSSELineBytes = 262144"
definition maxSSEEventBytes :: int where "maxSSEEventBytes = 2097152"

text \<open>The end of the body: its end was reached, or a read failed.\<close>

datatype scan_end = Scan_EOF | Scan_ReadError | Scan_TooLong

lemma split_advance:
  "split_loop pre data atEOF = (n, Some token) \<Longrightarrow> 0 < n \<and> n \<le> length pre + length data"
  by (induction pre data atEOF rule: split_loop.induct)
    (auto simp: Let_def split: if_splits list.splits)

lemma splitSSELines_advance:
  "splitSSELines data atEOF = (n, Some token) \<Longrightarrow> 0 < n \<and> n \<le> length data"
  using split_advance [of "[]"] by (simp add: splitSSELines_def)

text \<open>The tokens at the end of the stream, once no more data can be read.\<close>

function scan_rest :: "string \<Rightarrow> string list" where
  "scan_rest buf =
     (case splitSSELines buf True of
        (n, Some token) \<Rightarrow> token # scan_rest (drop n buf)
      | (n, None) \<Rightarrow> [])"
  by auto
termination
  by (relation "measure length") (auto dest!: sym [THEN splitSSELines_advance])

function scan :: "nat \<Rightarrow> bool \<Rightarrow> string \<Rightarrow> string list \<Rightarrow> string list \<times> scan_end" where
  "scan limit failed buf chunks =
     (case splitSSELines buf False of
        (n, Some token) \<Rightarrow>
          (let (tokens, ending) = scan limit failed (drop n buf) chunks in (token # tokens, ending))
      | (n, None) \<Rightarrow>
          if limit \<le> length buf then ([], Scan_TooLong)
          else case chunks of
              [] \<Rightarrow> (scan_rest buf, if failed then Scan_ReadError else Scan_EOF)
            | c # cs \<Rightarrow>
                let space = limit - length buf in
                if length c \<le> space then scan limit failed (buf @ c) cs
                else scan limit failed (buf @ take space c) (drop space c # cs))"
  by pat_completeness auto
termination
  by (relation "measure (\<lambda>(limit, failed, buf, chunks).
        length buf + 2 * length (concat chunks) + length chunks)")
    (auto dest!: sym [THEN splitSSELines_advance])

declare scan_rest.simps [simp del] scan.simps [simp del]

text \<open>The reference: a line ends with LF, CR LF or CR, and the last one may be unterminated.\<close>

fun lines_from :: "string \<Rightarrow> string \<Rightarrow> string list" where
  "lines_from pre [] = (if pre = [] then [] else [rev pre])"
| "lines_from pre (c # rest) =
     (if c = LF then rev pre # lines_from [] rest
      else if c = CR then rev pre # lines_from [] (if rest \<noteq> [] \<and> hd rest = LF then tl rest else rest)
      else lines_from (c # pre) rest)"

definition sse_lines :: "string \<Rightarrow> string list" where
  "sse_lines body = lines_from [] body"

lemma split_loop_ge: "split_loop pre data atEOF = (n, Some token) \<Longrightarrow> length pre \<le> n"
  by (induction pre data atEOF rule: split_loop.induct)
    (auto simp: Let_def split: if_splits list.splits)

lemma split_loop_Some:
  "split_loop pre data atEOF = (n, Some token) \<Longrightarrow> atEOF \<longrightarrow> more = [] \<Longrightarrow>
   lines_from pre (data @ more) = token # lines_from [] (drop (n - length pre) data @ more)"
proof (induction pre data atEOF rule: split_loop.induct)
  case (2 pre c rest atEOF)
  show ?case
  proof (cases "c = LF \<or> c = CR")
    case True
    with 2(2,3) show ?thesis by (cases rest) (auto simp: Let_def split: if_splits)
  next
    case False
    then have rec: "split_loop (c # pre) rest atEOF = (n, Some token)" using 2(2) by simp
    have "n - length pre = Suc (n - Suc (length pre))" using split_loop_ge [OF rec] by simp
    with False 2(1) [OF _ _ rec 2(3)] show ?thesis by simp
  qed
qed (auto split: if_splits)

lemma split_loop_EOF: "split_loop pre data True = (n, None) \<Longrightarrow> pre = [] \<and> data = []"
proof -
  have "atEOF \<Longrightarrow> split_loop pre data atEOF = (n, None) \<Longrightarrow> pre = [] \<and> data = []" for atEOF
    by (induction pre data atEOF rule: split_loop.induct) (auto simp: Let_def split: if_splits)
  then show "split_loop pre data True = (n, None) \<Longrightarrow> pre = [] \<and> data = []" by simp
qed

lemma lines_from_prefix: "\<exists>l ls. lines_from pre data = l # ls \<and> length pre \<le> length l" if "pre \<noteq> []"
  using that
proof (induction data arbitrary: pre)
  case (Cons c rest)
  show ?case using Cons.IH [of "c # pre"] Cons.prems by auto
qed simp

text \<open>While the splitter asks for more data, the buffer is one line, perhaps with a CR at its end.\<close>

lemma split_loop_None:
  "split_loop pre data False = (n, None) \<Longrightarrow> pre @ data \<noteq> [] \<Longrightarrow>
   \<exists>l ls. lines_from pre (data @ more) = l # ls \<and> length pre + length data \<le> Suc (length l)"
proof (induction data arbitrary: pre)
  case Nil
  with lines_from_prefix [of pre more] show ?case by (auto intro: le_SucI)
next
  case (Cons c rest)
  show ?case
  proof (cases "c = CR")
    case True
    with Cons.prems have "rest = []" by (auto simp: Let_def split: if_splits)
    with True show ?thesis by simp
  next
    case False
    with Cons.prems Cons.IH [of "c # pre"] show ?thesis by (auto split: if_splits)
  qed
qed

lemma scan_rest_lines: "scan_rest buf = sse_lines buf"
proof (induction buf rule: scan_rest.induct)
  case (1 buf)
  show ?case
  proof (cases "splitSSELines buf True")
    case (Pair n t)
    show ?thesis
    proof (cases t)
      case None
      with Pair split_loop_EOF [of "[]" buf n] show ?thesis
        by (subst scan_rest.simps) (simp add: splitSSELines_def sse_lines_def)
    next
      case (Some token)
      with Pair split_loop_Some [of "[]" buf True n token "[]"] 1 [OF Pair [symmetric] Some] show ?thesis
        by (subst scan_rest.simps) (simp add: splitSSELines_def sse_lines_def)
    qed
  qed
qed

lemma scan_lines:
  assumes "\<forall>l \<in> set (sse_lines (buf @ concat chunks)). Suc (length l) < limit" "0 < limit"
  shows "scan limit failed buf chunks =
    (sse_lines (buf @ concat chunks), if failed then Scan_ReadError else Scan_EOF)"
  using assms
proof (induction limit failed buf chunks rule: scan.induct)
  case (1 limit failed buf chunks)
  obtain n t where split: "splitSSELines buf False = (n, t)" by (cases "splitSSELines buf False")
  show ?case
  proof (cases t)
    case (Some token)
    have lines: "sse_lines (buf @ concat chunks) = token # sse_lines (drop n buf @ concat chunks)"
      using split_loop_Some [of "[]" buf False n token "concat chunks"] split Some
      by (simp add: splitSSELines_def sse_lines_def)
    have "scan limit failed (drop n buf) chunks =
        (sse_lines (drop n buf @ concat chunks), if failed then Scan_ReadError else Scan_EOF)"
      using 1(3) [OF split [symmetric] Some] 1(4,5) lines by simp
    with split Some lines show ?thesis by (subst scan.simps) simp
  next
    case None
    have space: "length buf < limit"
    proof (cases "buf = []")
      case False
      with split_loop_None [of "[]" buf n "concat chunks"] split None 1(4) show ?thesis
        by (force simp: splitSSELines_def sse_lines_def)
    qed (use 1(5) in simp)
    show ?thesis
    proof (cases chunks)
      case Nil
      with split None space show ?thesis by (subst scan.simps) (simp add: scan_rest_lines)
    next
      case (Cons c cs)
      let ?space = "limit - length buf"
      have cut: "take ?space c @ drop ?space c @ concat cs = concat chunks" using Cons by simp
      show ?thesis
        using 1(1,2) [OF split [symmetric] None _ Cons refl]
          split None space Cons 1(4,5) cut
        by (subst scan.simps) (simp add: Let_def)
    qed
  qed
qed

text \<open>C13.
  Scanning a supplier's event stream gives the lines of the stream, however the network cuts it into
  reads. For any sequence of reads, with cuts anywhere (between a CR and its LF too),
  the scanner driven by the line splitter returns exactly the reference lines of the
  concatenated stream and reports its end, provided every line is shorter than the line limit.
\<close>

theorem sse_scan_chunking:
  assumes "\<forall>l \<in> set (sse_lines (concat chunks)). length l < maxSSELineBytes"
  shows "scan (Suc maxSSELineBytes) failed [] chunks =
    (sse_lines (concat chunks), if failed then Scan_ReadError else Scan_EOF)"
  using scan_lines [of "[]" chunks "Suc maxSSELineBytes"] assms by simp

theorem sse_scan_chunking_witness:
  "scan (Suc maxSSELineBytes) False []
      [''data: a'' @ [CR], LF # ''data: b'' @ [CR], ''data: c'' @ [LF, LF], ''tail''] =
     ([''data: a'', ''data: b'', ''data: c'', [], ''tail''], Scan_EOF)"
proof -
  have lines: "sse_lines (concat [''data: a'' @ [CR], LF # ''data: b'' @ [CR], ''data: c'' @ [LF, LF], ''tail'']) =
      [''data: a'', ''data: b'', ''data: c'', [], ''tail'']"
    by (simp add: sse_lines_def)
  show ?thesis
    using sse_scan_chunking [of "[''data: a'' @ [CR], LF # ''data: b'' @ [CR], ''data: c'' @ [LF, LF], ''tail'']" False]
    unfolding lines by (simp add: maxSSELineBytes_def)
qed


section \<open>Events\<close>

definition IndexByte :: "string \<Rightarrow> char \<Rightarrow> nat option" where
  "IndexByte s c = (let i = length (takeWhile (\<lambda>d. d \<noteq> c) s) in if i < length s then Some i else None)"

definition sseField :: "string \<Rightarrow> string \<times> string" where
  "sseField line =
     (if line = [] \<or> hd line = CHR '':'' then ([], [])
      else case IndexByte line (CHR '':'') of
          None \<Rightarrow> (line, [])
        | Some separator \<Rightarrow>
            let field = take separator line; v = drop (Suc separator) line
            in (field, if v \<noteq> [] \<and> hd v = CHR '' '' then tl v else v))"

fun data_values :: "nat \<Rightarrow> string list \<Rightarrow> nat option \<Rightarrow> string list \<Rightarrow> nat option \<times> string list" where
  "data_values index [] firstDataLine dataValues = (firstDataLine, dataValues)"
| "data_values index (line # rest) firstDataLine dataValues =
     (let (field, v) = sseField line in
      if field = ''data''
      then data_values (Suc index) rest
             (case firstDataLine of None \<Rightarrow> Some index | Some i \<Rightarrow> Some i) (dataValues @ [v])
      else data_values (Suc index) rest firstDataLine dataValues)"

fun join_lf :: "string list \<Rightarrow> string" where
  "join_lf [] = []"
| "join_lf [v] = v"
| "join_lf (v # rest) = v @ [LF] @ join_lf rest"

fun write_lines :: "nat \<Rightarrow> string list \<Rightarrow> nat option \<Rightarrow> string \<Rightarrow> string" where
  "write_lines index [] firstDataLine data = []"
| "write_lines index (line # rest) firstDataLine data =
     (if fst (sseField line) = ''data''
      then (if firstDataLine = Some index then ''data: '' @ data @ [LF] else []) @
           write_lines (Suc index) rest firstDataLine data
      else line @ [LF] @ write_lines (Suc index) rest firstDataLine data)"

record sse_event_result =
  ev_rewritten :: string
  ev_terminal :: bool
  ev_observed :: "string option"

text \<open>The rewriting of one event; the Left values are its errors.\<close>

definition rewriteSSEEvent :: "(string \<Rightarrow> string + string) \<Rightarrow> string list \<Rightarrow> string + sse_event_result" where
  "rewriteSSEEvent rewrite_json lines =
     (let (firstDataLine, dataValues) = data_values 0 lines None [] in
      if firstDataLine = None
      then Inr \<lparr>ev_rewritten = concat (map (\<lambda>line. line @ [LF]) lines) @ [LF],
                ev_terminal = False, ev_observed = None\<rparr>
      else let data = join_lf dataValues in
        if TrimSpace data = ''[DONE]''
        then Inr \<lparr>ev_rewritten = write_lines 0 lines firstDataLine data @ [LF],
                  ev_terminal = True, ev_observed = None\<rparr>
        else if TrimSpace data = [] then Inl ''supplier SSE event has empty data''
        else case rewrite_json data of
            Inl err \<Rightarrow> Inl (''malformed supplier SSE data: '' @ err)
          | Inr data' \<Rightarrow>
              Inr \<lparr>ev_rewritten = write_lines 0 lines firstDataLine data' @ [LF],
                   ev_terminal = False, ev_observed = Some data\<rparr>)"


section \<open>The copy loop\<close>

record token_usage =
  tu_PromptTokens :: "int option"
  tu_CompletionTokens :: "int option"
  tu_InputTokens :: "int option"
  tu_OutputTokens :: "int option"

text \<open>What decoding a body for its usage gives: the usage at the top level and under \<open>response\<close>.\<close>

record usage_body =
  ub_Usage :: "token_usage option"
  ub_Response :: "token_usage option option"

record usage_observer =
  uo_input :: "int option"
  uo_output :: "int option"

definition observeJSON :: "(string \<Rightarrow> usage_body option) \<Rightarrow> string \<Rightarrow> usage_observer \<Rightarrow> usage_observer" where
  "observeJSON decode body o0 =
     (case decode body of None \<Rightarrow> o0
      | Some raw \<Rightarrow>
          let usage = (case ub_Usage raw of Some u \<Rightarrow> Some u
                       | None \<Rightarrow> (case ub_Response raw of None \<Rightarrow> None | Some u \<Rightarrow> u)) in
          case usage of None \<Rightarrow> o0
          | Some u \<Rightarrow>
              let inp = (case tu_InputTokens u of None \<Rightarrow> tu_PromptTokens u | Some i \<Rightarrow> Some i);
                  out = (case tu_OutputTokens u of None \<Rightarrow> tu_CompletionTokens u | Some i \<Rightarrow> Some i);
                  o1 = (case inp of None \<Rightarrow> o0 | Some i \<Rightarrow> o0\<lparr>uo_input := Some i\<rparr>)
              in (case out of None \<Rightarrow> o1 | Some i \<Rightarrow> o1\<lparr>uo_output := Some i\<rparr>))"

record sse_env =
  se_rewrite_json :: "string \<Rightarrow> string + string"
  se_decode_usage :: "string \<Rightarrow> usage_body option"
  se_write :: "nat \<Rightarrow> string option"

text \<open>
  The state of the loop: the lines and bytes of the current event, the observer, and the events
  written to the customer so far. \<open>se_write n\<close> is the error of writing or flushing the event
  number \<open>n\<close>, if any; a failed write reaches the customer in part at most.
\<close>

record sse_state =
  ss_event :: "string list"
  ss_eventBytes :: int
  ss_observer :: usage_observer
  ss_written :: "string list"

definition end_of_stream :: "scan_end \<Rightarrow> sse_state \<Rightarrow> string option" where
  "end_of_stream ending s =
     (case ending of
        Scan_TooLong \<Rightarrow> Some ''read supplier SSE stream: token too long''
      | Scan_ReadError \<Rightarrow> Some ''read supplier SSE stream''
      | Scan_EOF \<Rightarrow>
          if ss_event s \<noteq> [] then Some ''supplier SSE stream ended with an unterminated event'' else None)"

fun copy_loop :: "sse_env \<Rightarrow> scan_end \<Rightarrow> string list \<Rightarrow> sse_state \<Rightarrow> sse_state \<times> string option" where
  "copy_loop env ending [] s = (s, end_of_stream ending s)"
| "copy_loop env ending (line # rest) s =
     (if length line > maxSSELineBytes then (s, Some ''supplier SSE line exceeds limit'')
      else if line \<noteq> [] then
        (if NUL \<in> set line then (s, Some ''supplier SSE line contains NUL'')
         else let eventBytes = ss_eventBytes s + int (length line) + 1 in
           if eventBytes > maxSSEEventBytes
             then (s\<lparr>ss_eventBytes := eventBytes\<rparr>, Some ''supplier SSE event exceeds limit'')
           else copy_loop env ending rest
                  (s\<lparr>ss_eventBytes := eventBytes, ss_event := ss_event s @ [line]\<rparr>))
      else if ss_event s = [] then copy_loop env ending rest s
      else case rewriteSSEEvent (se_rewrite_json env) (ss_event s) of
          Inl err \<Rightarrow> (s, Some err)
        | Inr r \<Rightarrow>
            let s1 = (case ev_observed r of None \<Rightarrow> s
                      | Some data \<Rightarrow> if data = [] then s
                          else s\<lparr>ss_observer := observeJSON (se_decode_usage env) data (ss_observer s)\<rparr>) in
            case se_write env (length (ss_written s1)) of
              Some err \<Rightarrow> (s1, Some err)
            | None \<Rightarrow>
                let s2 = s1\<lparr>ss_written := ss_written s1 @ [ev_rewritten r]\<rparr> in
                if ev_terminal r then (s2, None)
                else copy_loop env ending rest (s2\<lparr>ss_event := [], ss_eventBytes := 0\<rparr>))"

definition copyPublicSSE ::
  "sse_env \<Rightarrow> bool \<Rightarrow> string list \<Rightarrow> string list \<times> int option \<times> int option \<times> string option" where
  "copyPublicSSE env failed chunks =
     (let (lines, ending) = scan (Suc maxSSELineBytes) failed [] chunks;
          (s, err) = copy_loop env ending lines
            \<lparr>ss_event = [], ss_eventBytes = 0, ss_observer = \<lparr>uo_input = None, uo_output = None\<rparr>, ss_written = []\<rparr>
      in (ss_written s, uo_input (ss_observer s), uo_output (ss_observer s), err))"

section \<open>Reading back what was written\<close>

abbreviation is_data :: "string \<Rightarrow> bool" where
  "is_data line \<equiv> fst (sseField line) = ''data''"

definition clean :: "string \<Rightarrow> bool" where
  "clean l = (LF \<notin> set l \<and> CR \<notin> set l)"

definition print_lines :: "string list \<Rightarrow> string" where
  "print_lines ls = concat (map (\<lambda>l. l @ [LF]) ls)"

lemma print_lines_simps [simp]:
  "print_lines [] = []" "print_lines (l # ls) = l @ LF # print_lines ls"
  by (simp_all add: print_lines_def)

lemma lines_from_clean: "clean l \<Longrightarrow> lines_from pre (l @ LF # rest) = (rev pre @ l) # lines_from [] rest"
  by (induction l arbitrary: pre) (auto simp: clean_def)

text \<open>Printing lines with LF and splitting them again is the identity.\<close>

lemma lines_print: "\<forall>l \<in> set ls. clean l \<Longrightarrow> sse_lines (print_lines ls) = ls"
  by (induction ls) (auto simp: sse_lines_def lines_from_clean)

lemma lines_print_event: "\<forall>l \<in> set ls. clean l \<Longrightarrow> sse_lines (print_lines ls @ [LF]) = ls @ [[]]"
  by (induction ls) (auto simp: sse_lines_def lines_from_clean)

lemma data_values_started: "fst (data_values i lines (Some k) vs) = Some k"
  by (induction lines arbitrary: i vs) (auto simp: Let_def split: prod.splits)

lemma data_values_values:
  "snd (data_values i lines f vs) = vs @ map (snd \<circ> sseField) (filter is_data lines)"
  by (induction i lines f vs rule: data_values.induct) (auto simp: Let_def split: prod.splits)

lemma data_values_none: "fst (data_values i lines None vs) = None \<longleftrightarrow> filter is_data lines = []"
  by (induction lines arbitrary: i vs)
    (auto simp: Let_def data_values_started split: prod.splits)

fun merged_lines :: "string \<Rightarrow> string list \<Rightarrow> string list" where
  "merged_lines data [] = []"
| "merged_lines data (l # ls) =
     (if is_data l then (''data: '' @ data) # filter (\<lambda>l. \<not> is_data l) ls else l # merged_lines data ls)"

lemma write_lines_later:
  "k < i \<Longrightarrow> write_lines i lines (Some k) data = print_lines (filter (\<lambda>l. \<not> is_data l) lines)"
  by (induction lines arbitrary: i) auto

lemma write_lines_merged:
  "write_lines i lines (fst (data_values i lines None vs)) data = print_lines (merged_lines data lines)"
proof (induction lines arbitrary: i vs)
  case (Cons l ls)
  obtain field v where "sseField l = (field, v)" by (cases "sseField l")
  with Cons.IH [of "Suc i" vs] show ?case
    by (cases "field = ''data''") (simp_all add: data_values_started write_lines_later)
qed simp

lemma sseField_data: "sseField (''data: '' @ d) = (''data'', d)"
  by (simp add: sseField_def IndexByte_def Let_def)

lemma merged_lines_fields:
  "filter (\<lambda>l. \<not> is_data l) (merged_lines d ls) = filter (\<lambda>l. \<not> is_data l) ls"
  "map (snd \<circ> sseField) (filter is_data (merged_lines d ls)) = (if filter is_data ls = [] then [] else [d])"
  by (induction ls) (auto simp: sseField_data [simplified] filter_empty_conv)

lemma merged_lines_clean:
  "\<forall>l \<in> set ls. clean l \<and> l \<noteq> [] \<Longrightarrow> clean d \<Longrightarrow> \<forall>l \<in> set (merged_lines d ls). clean l \<and> l \<noteq> []"
proof (induction ls)
  case (Cons l ls)
  have "clean (''data: '' @ d)" using Cons.prems(2) by (simp add: clean_def)
  with Cons show ?case by (cases "is_data l") auto
qed simp

text \<open>The data a rewritten event carries: the \<open>[DONE]\<close> marker as it came, everything else rewritten.\<close>

abbreviation event_data :: "string list \<Rightarrow> string" where
  "event_data ls \<equiv> join_lf (map (snd \<circ> sseField) (filter is_data ls))"

lemma rewriteSSEEvent_shape:
  assumes "rewriteSSEEvent rewrite_json ls = Inr r"
  shows "(filter is_data ls = [] \<and> \<not> ev_terminal r \<and> ev_observed r = None \<and> ev_rewritten r = print_lines ls @ [LF]) \<or>
    (filter is_data ls \<noteq> [] \<and>
     (\<exists>d'. (if ev_terminal r then d' = event_data ls \<and> TrimSpace d' = ''[DONE]'' \<and> ev_observed r = None
         else rewrite_json (event_data ls) = Inr d' \<and> ev_observed r = Some (event_data ls)) \<and>
       ev_rewritten r = print_lines (merged_lines d' ls) @ [LF]))"
proof -
  obtain f vs where dv: "data_values 0 ls None [] = (f, vs)" by (cases "data_values 0 ls None []")
  then have vs: "vs = map (snd \<circ> sseField) (filter is_data ls)" and none: "f = None \<longleftrightarrow> filter is_data ls = []"
    and wr: "write_lines 0 ls f d = print_lines (merged_lines d ls)" for d
    using data_values_values [of 0 ls None "[]"] data_values_none [of 0 ls "[]"]
      write_lines_merged [of 0 ls "[]" d] by simp_all
  show ?thesis
  proof (cases "f = None")
    case True
    then show ?thesis using assms(1) none by (auto simp: rewriteSSEEvent_def dv print_lines_def)
  next
    case False
    then obtain y where y: "f = Some y" by blast
    show ?thesis using assms none
      by (auto simp: rewriteSSEEvent_def dv Let_def y wr [unfolded y] vs split: if_splits sum.splits)
  qed
qed

lemma clean_value: "clean l \<Longrightarrow> clean (snd (sseField l))"
proof -
  have "set (tl (drop n l)) \<subseteq> set l" "set (drop n l) \<subseteq> set l" for n
    using set_drop_subset [of "Suc n" l] set_drop_subset [of n l] by (simp_all add: drop_Suc tl_drop)
  then show "clean l \<Longrightarrow> clean (snd (sseField l))"
    unfolding sseField_def by (auto simp: clean_def Let_def split: option.splits)
qed

lemma clean_single_data:
  assumes "\<forall>l \<in> set ls. clean l" "length (filter is_data ls) = 1"
  shows "clean (event_data ls)"
proof -
  obtain x where x: "filter is_data ls = [x]" using assms(2) by (cases "filter is_data ls") auto
  then have "x \<in> set ls" by (metis filter_eq_ConsD in_set_conv_decomp)
  then show ?thesis using assms(1) clean_value [of x] by (simp add: x)
qed

text \<open>C22.
  What the customer reads is the supplier's event with its data rewritten and nothing else changed.
  Take an event of non-empty lines without line breaks, as the scanner delivers them, a JSON encoder
  whose output has no raw line break, as the one of the standard library, and any rewritten event but a
  final \<open>[DONE]\<close> whose data is split over several data lines. If it is read again by the same line
  rules, it is one event: its lines, followed by one empty line. The lines that are not data are the
  original ones in order, and there is exactly one data field, or none if the event had none: the
  original \<open>[DONE]\<close> data of a final event, and the rewriting of the event's joined data otherwise.
\<close>

theorem sse_event_roundtrip:
  assumes ls: "\<forall>l \<in> set ls. clean l \<and> l \<noteq> []"
    and json: "\<forall>d d'. rewrite_json d = Inr d' \<longrightarrow> clean d'"
    and r: "rewriteSSEEvent rewrite_json ls = Inr r"
    and whole: "ev_terminal r \<longrightarrow> length (filter is_data ls) = 1"
  shows "\<exists>out. sse_lines (ev_rewritten r) = out @ [[]] \<and> [] \<notin> set out \<and>
    filter (\<lambda>l. \<not> is_data l) out = filter (\<lambda>l. \<not> is_data l) ls \<and>
    map Inr (map (snd \<circ> sseField) (filter is_data out)) =
      (if filter is_data ls = [] then []
       else [if ev_terminal r then Inr (event_data ls) else rewrite_json (event_data ls)])"
proof (cases "filter is_data ls = []")
  case True
  with rewriteSSEEvent_shape [OF r] have "ev_rewritten r = print_lines ls @ [LF]" by blast
  with True ls show ?thesis by (intro exI [of _ ls]) (auto simp: lines_print_event)
next
  case False
  with rewriteSSEEvent_shape [OF r] obtain d' where
    d': "if ev_terminal r then d' = event_data ls else rewrite_json (event_data ls) = Inr d'"
    and out: "ev_rewritten r = print_lines (merged_lines d' ls) @ [LF]" by (auto split: if_splits)
  have "clean d'" using d' json whole clean_single_data [of ls] ls by (auto split: if_splits)
  then have "\<forall>l \<in> set (merged_lines d' ls). clean l \<and> l \<noteq> []" using merged_lines_clean [OF ls] by blast
  with out have "sse_lines (ev_rewritten r) = merged_lines d' ls @ [[]]" "[] \<notin> set (merged_lines d' ls)"
    by (auto simp: lines_print_event)
  with False d' merged_lines_fields [of d' ls] show ?thesis
    by (intro exI [of _ "merged_lines d' ls"]) (auto split: if_splits)
qed

definition example_json :: "string \<Rightarrow> string + string" where
  "example_json d = (if d = ''{a}'' then Inr ''{b}'' else Inl ''invalid'')"

lemma example_event:
  "rewriteSSEEvent example_json [''event: x'', ''data: {a}''] =
     Inr \<lparr>ev_rewritten = print_lines [''event: x'', ''data: {b}''] @ [LF], ev_terminal = False,
          ev_observed = Some ''{a}''\<rparr>"
proof -
  have "TrimSpace ''{a}'' = ''{a}''" using canonicalI [of "''{a}''"] by (simp add: canonical_def)
  then show ?thesis
    by (simp add: rewriteSSEEvent_def sseField_def IndexByte_def Let_def example_json_def)
qed

theorem sse_event_roundtrip_witness:
  "\<exists>out. sse_lines (print_lines [''event: x'', ''data: {b}''] @ [LF]) = out @ [[]] \<and> [] \<notin> set out \<and>
    filter (\<lambda>l. \<not> is_data l) out = [''event: x''] \<and>
    map Inr (map (snd \<circ> sseField) (filter is_data out)) = [example_json ''{a}'']"
proof -
  have "\<forall>l \<in> set [''event: x'', ''data: {a}'']. clean l \<and> l \<noteq> []"
    "\<forall>d d'. example_json d = Inr d' \<longrightarrow> clean d'"
    by (auto simp: clean_def example_json_def split: if_splits)
  from sse_event_roundtrip [OF this example_event] show ?thesis
    by (simp add: sseField_def IndexByte_def Let_def)
qed

text \<open>
  A final event whose data has several lines is not covered: it is written with the raw line breaks
  of its joined data, so its \<open>[DONE]\<close> is not in a data field any more.
\<close>

lemma TrimSpace_LF: "TrimSpace (LF # s) = TrimSpace s"
proof -
  obtain rest where enc: "space_encodings = bytes [9] # bytes [10] # rest" by (simp add: space_encodings_def)
  have tab: "\<not> HasPrefix (LF # s) (bytes [9])" and lf: "HasPrefix (LF # s) (bytes [10])"
    by (simp_all add: HasPrefix_def bytes_def char_of_def bit_0)
  have "find (HasPrefix (LF # s)) space_encodings = Some (bytes [10])"
    unfolding enc by (simp only: find.simps tab lf if_True if_False)
  then have "trim_front (length (LF # s)) space_encodings (LF # s) = trim_front (length s) space_encodings s"
    by (simp add: bytes_def)
  then show ?thesis by (simp only: TrimSpace_def)
qed

lemma split_done_event:
  "rewriteSSEEvent rewrite_json [''data:'', ''data: [DONE]''] =
     Inr \<lparr>ev_rewritten = print_lines [''data: '', ''[DONE]''] @ [LF], ev_terminal = True, ev_observed = None\<rparr> \<and>
   sseField ''[DONE]'' = (''[DONE]'', [])"
proof -
  have "TrimSpace ''[DONE]'' = ''[DONE]''" using canonicalI [of "''[DONE]''"] by (simp add: canonical_def)
  then show ?thesis
    by (simp add: rewriteSSEEvent_def sseField_def IndexByte_def Let_def TrimSpace_LF)
qed

end
