(* ===== verification/Supplier_Contract.thy ===== *)
theory Supplier_Contract
  imports Go_Strings Float64
begin

text \<open>
  The supplier-neutral contract of \<open>internal/supplieradapter\<close> (\<open>contracts.go\<close>, \<open>registry.go\<close>): the
  normalized request and its validation, the usage and error classifications, and the adapter
  registry. An adapter is known only through this contract, so the registry is polymorphic in it.
\<close>

record content_part =
  cp_Type :: string
  cp_Text :: string
  cp_ImageURL :: string

record message =
  msg_Role :: string
  msg_Name :: string
  msg_Content :: "content_part list"

record tool =
  tl_Name :: string
  tl_Description :: string
  tl_InputSchema :: string

record adapter_request =
  ar_ID :: string
  ar_Operation :: string
  ar_ModelID :: string
  ar_Messages :: "message list"
  ar_Tools :: "tool list"
  ar_ResponseFormat :: string
  ar_MaxOutputTokens :: "int option"
  ar_Temperature :: "f64 option"
  ar_Stream :: bool

definition OperationChatCompletions :: string where "OperationChatCompletions = ''chat.completions''"
definition OperationResponses :: string where "OperationResponses = ''responses''"

fun messages_loop :: "nat \<Rightarrow> message list \<Rightarrow> string option" where
  "messages_loop index [] = None"
| "messages_loop index (m # rest) =
     (if TrimSpace (msg_Role m) = [] \<or> msg_Content m = []
      then Some (''message '' @ itoa (int index) @ '' requires a role and content'')
      else messages_loop (Suc index) rest)"

fun tools_loop :: "(string \<Rightarrow> bool) \<Rightarrow> nat \<Rightarrow> tool list \<Rightarrow> string option" where
  "tools_loop json_valid index [] = None"
| "tools_loop json_valid index (t # rest) =
     (if TrimSpace (tl_Name t) = [] \<or> tl_InputSchema t = [] \<or> \<not> json_valid (tl_InputSchema t)
      then Some (''tool '' @ itoa (int index) @ '' requires a name and valid input schema'')
      else tools_loop json_valid (Suc index) rest)"

text \<open>\<open>json.Valid\<close> is a parameter.\<close>

definition Request_Validate :: "(string \<Rightarrow> bool) \<Rightarrow> adapter_request \<Rightarrow> string option" where
  "Request_Validate json_valid r =
     (if TrimSpace (ar_ID r) = [] \<or> TrimSpace (ar_ModelID r) = []
        then Some ''request id and model id are required''
      else if ar_Operation r \<noteq> OperationChatCompletions \<and> ar_Operation r \<noteq> OperationResponses
        then Some (''unsupported normalized operation '' @ ar_Operation r)
      else if ar_Messages r = [] then Some ''at least one message is required''
      else if (case ar_MaxOutputTokens r of None \<Rightarrow> False | Some m \<Rightarrow> m \<le> 0)
        then Some ''max output tokens must be positive''
      else if (case ar_Temperature r of None \<Rightarrow> False
               | Some t \<Rightarrow> f_lt t (f_of_int 0) \<or> f_lt (f_of_int 2) t)
        then Some ''temperature must be between 0 and 2''
      else case messages_loop 0 (ar_Messages r) of Some err \<Rightarrow> Some err
      | None \<Rightarrow>
        case tools_loop json_valid 0 (ar_Tools r) of Some err \<Rightarrow> Some err
        | None \<Rightarrow>
          if ar_ResponseFormat r \<noteq> [] \<and> \<not> json_valid (ar_ResponseFormat r)
            then Some ''response format must be valid JSON''
          else None)"

record supplier_usage =
  spu_State :: string
  spu_InputTokens :: "int option"
  spu_OutputTokens :: "int option"
  spu_CachedInput :: "int option"
  spu_ReasoningTokens :: "int option"

definition Usage_Validate :: "supplier_usage \<Rightarrow> string option" where
  "Usage_Validate u =
     (if spu_State u \<noteq> ''complete'' \<and> spu_State u \<noteq> ''partial'' \<and> spu_State u \<noteq> ''absent''
        then Some (''unknown usage state '' @ spu_State u)
      else if list_ex (\<lambda>v. case v of None \<Rightarrow> False | Some n \<Rightarrow> n < 0)
          [spu_InputTokens u, spu_OutputTokens u, spu_CachedInput u, spu_ReasoningTokens u]
        then Some ''usage token counts cannot be negative''
      else if spu_State u = ''complete'' \<and> (spu_InputTokens u = None \<or> spu_OutputTokens u = None)
        then Some ''complete usage requires input and output tokens''
      else if spu_State u = ''absent'' \<and> (spu_InputTokens u \<noteq> None \<or> spu_OutputTokens u \<noteq> None \<or>
          spu_CachedInput u \<noteq> None \<or> spu_ReasoningTokens u \<noteq> None)
        then Some ''absent usage cannot carry token counts''
      else None)"

record choice =
  ch_Index :: int
  ch_Message :: "message option"
  ch_Text :: string
  ch_FinishReason :: string

record adapter_response =
  arp_ID :: string
  arp_ModelID :: string
  arp_SupplierRequestID :: string
  arp_Choices :: "choice list"
  arp_Usage :: supplier_usage

record stream_event =
  sev_Type :: string
  sev_ChoiceIndex :: int
  sev_TextDelta :: string
  sev_FinishReason :: string
  sev_Usage :: "supplier_usage option"
  sev_SupplierRequestID :: string

record supplier_error =
  spe_Code :: string
  spe_Message :: string
  spe_HTTPStatus :: int
  spe_SupplierRequestID :: string
  spe_Retry :: string
  spe_RetryAfter :: duration
  spe_Billing :: string
  spe_ResponseStarted :: bool

definition oneOf :: "string \<Rightarrow> string list \<Rightarrow> bool" where
  "oneOf v allowed = list_ex (\<lambda>item. v = item) allowed"

text \<open>The receiver of the methods of \<open>Error\<close> may be nil.\<close>

definition Error_Validate :: "supplier_error option \<Rightarrow> string option" where
  "Error_Validate er =
     (case er of None \<Rightarrow> Some ''supplier error is required''
      | Some e \<Rightarrow>
        if \<not> oneOf (spe_Code e) [''invalid_request'', ''authentication_failed'', ''authorization_failed'',
             ''rate_limited'', ''unavailable'', ''timeout'', ''transport'', ''protocol_error'', ''cancelled'', ''internal'']
          then Some (''unknown supplier error code '' @ spe_Code e)
        else if \<not> oneOf (spe_Retry e) [''never'', ''same_offer'', ''other_offer'']
          then Some (''unknown retry hint '' @ spe_Retry e)
        else if \<not> oneOf (spe_Billing e) [''not_transmitted'', ''no_charge_confirmed'', ''charge_known'', ''ambiguous'']
          then Some (''unknown billing outcome '' @ spe_Billing e)
        else if spe_RetryAfter e < 0 then Some ''retry delay cannot be negative''
        else None)"

definition SafeToRetry :: "supplier_error option \<Rightarrow> bool" where
  "SafeToRetry er =
     (case er of None \<Rightarrow> False
      | Some e \<Rightarrow>
        if spe_ResponseStarted e \<or> (spe_Retry e \<noteq> ''same_offer'' \<and> spe_Retry e \<noteq> ''other_offer'') then False
        else spe_Billing e = ''not_transmitted'' \<or> spe_Billing e = ''no_charge_confirmed'')"


section \<open>The adapter registry\<close>

text \<open>The first parameter gives the name of an adapter; a missing adapter is a nil interface.\<close>

fun registry_loop :: "('a \<Rightarrow> string) \<Rightarrow> 'a option list \<Rightarrow> (string \<times> 'a) list \<Rightarrow> string + (string \<times> 'a) list" where
  "registry_loop name_of [] reg = Inr reg"
| "registry_loop name_of (a # rest) reg =
     (case a of None \<Rightarrow> Inl ''supplier adapter is required''
      | Some adapter \<Rightarrow>
          let name = TrimSpace (name_of adapter) in
          if name = [] then Inl ''supplier adapter name is required''
          else if map_of reg name \<noteq> None then Inl (''supplier adapter '' @ name @ '' is duplicated'')
          else registry_loop name_of rest (reg @ [(name, adapter)]))"

definition NewRegistry :: "('a \<Rightarrow> string) \<Rightarrow> 'a option list \<Rightarrow> string + (string \<times> 'a) list" where
  "NewRegistry name_of adapters = registry_loop name_of adapters []"

definition Registry_Lookup :: "(string \<times> 'a) list option \<Rightarrow> string \<Rightarrow> 'a option" where
  "Registry_Lookup r name = (case r of None \<Rightarrow> None | Some reg \<Rightarrow> map_of reg (TrimSpace name))"

definition registry_ok :: "('a \<Rightarrow> string) \<Rightarrow> (string \<times> 'a) list \<Rightarrow> bool" where
  "registry_ok name_of reg = (list_all (\<lambda>e. fst e = TrimSpace (name_of (snd e))) reg \<and> distinct (map fst reg))"

lemma registry_loop_Inr:
  "registry_loop name_of adapters reg = Inr reg' \<Longrightarrow> registry_ok name_of reg \<Longrightarrow>
     registry_ok name_of reg' \<and> set reg \<subseteq> set reg' \<and> (\<forall>a. Some a \<in> set adapters \<longrightarrow> a \<in> snd ` set reg')"
proof (induction adapters arbitrary: reg)
  case (Cons x rest)
  obtain a where x: "x = Some a" using Cons.prems(1) by (cases x) simp_all
  let ?reg = "reg @ [(TrimSpace (name_of a), a)]"
  have new: "map_of reg (TrimSpace (name_of a)) = None" and rec: "registry_loop name_of rest ?reg = Inr reg'"
    using Cons.prems(1) by (simp_all add: x Let_def split: if_split_asm)
  have ok: "registry_ok name_of ?reg"
    using Cons.prems(2) new by (simp add: registry_ok_def map_of_eq_None_iff)
  have "a \<in> snd ` set reg'" using Cons.IH [OF rec ok] by force
  with Cons.IH [OF rec ok] x show ?case by simp
qed simp

text \<open>
  Looking up a name, with or without surrounding white space, returns the registered adapter of
  that name: a registry never maps a name to another adapter.
\<close>

lemma Lookup_registered:
  assumes "NewRegistry name_of adapters = Inr reg" "Some a \<in> set adapters"
    and "TrimSpace name = TrimSpace (name_of a)"
  shows "Registry_Lookup (Some reg) name = Some a"
proof -
  have reg: "registry_ok name_of reg" "a \<in> snd ` set reg"
    using registry_loop_Inr [of name_of adapters "[]" reg] assms(1,2)
    by (simp_all add: NewRegistry_def registry_ok_def)
  from reg(2) obtain k where k: "(k, a) \<in> set reg" by force
  with reg(1) have "k = TrimSpace (name_of a)" by (force simp: registry_ok_def list_all_iff)
  with k reg(1) have "map_of reg (TrimSpace (name_of a)) = Some a"
    by (simp add: registry_ok_def map_of_is_SomeI)
  then show ?thesis by (simp add: Registry_Lookup_def assms(3))
qed

end
