(* ===== verification/Model_Api_Runtime.thy ===== *)
theory Model_Api_Runtime
  imports Model_Api_Routing Sse_Stream Supplier_Contract "HOL-Library.AList"
begin

text \<open>
  The request path of the hosted Model API (\<open>internal/modelapirouting/runtime.go\<close> and
  \<open>strict_runtime.go\<close>): the whole handler \<open>Runtime.ServeHTTP\<close> with both of its supplier paths.

  A run of the handler is the list of the effects it performs, in order: calls of the billing
  interface, the transmission to the supplier, observations of the circuit and what is written to
  the customer. What those calls return, the clock, the random identifiers, the JSON and URL
  functions and the supplier adapters are fields of the environment. Logging has no effect on the
  run and is left out. Header names are compared as written (they are spelled the same everywhere).
\<close>


section \<open>Requests and reservations\<close>

datatype json =
    JNull
  | JBool bool
  | JNumber string
  | JString string
  | JArray "json list"
  | JObject "(string \<times> json) list"

type_synonym payload = "(string \<times> json) list"
type_synonym header = "string \<Rightarrow> string list"

record proxy_request =
  px_TenantID :: string
  px_ProductID :: string
  px_PublicModelID :: string
  px_Operation :: string
  px_Resource :: string
  px_RequestID :: string
  px_TraceParent :: string
  px_Payload :: payload
  px_Header :: header

definition publicModelID :: "proxy_request \<Rightarrow> string" where
  "publicModelID r = (if px_PublicModelID r \<noteq> '''' then px_PublicModelID r else px_ProductID r)"

record reservation_request =
  rq_ID :: string
  rq_RequestID :: string
  rq_TenantID :: string
  rq_ProductID :: string
  rq_EntitlementID :: string
  rq_OperatorTenantID :: string
  rq_ServingPlanID :: string
  rq_SupplyPlanID :: string
  rq_RetailRate :: retail_rate
  rq_MaxRequestMicrousd :: int
  rq_CandidateID :: string
  rq_OfferID :: string
  rq_Supplier :: string
  rq_SupplierModelID :: string
  rq_TargetBindingID :: string
  rq_TargetBindingDigest :: string
  rq_OfferVersion :: int
  rq_CreatedAt :: gotime

definition ReservationRequest_Validate :: "reservation_request \<Rightarrow> string option" where
  "ReservationRequest_Validate r =
     (if rq_ID r = '''' \<or> rq_RequestID r = '''' \<or> rq_TenantID r = '''' \<or> rq_ProductID r = '''' \<or>
         rq_EntitlementID r = '''' \<or> rq_OperatorTenantID r = '''' \<or> rq_ServingPlanID r = '''' \<or>
         rq_SupplyPlanID r = '''' \<or> rq_CandidateID r = '''' \<or> rq_OfferID r = '''' \<or> rq_Supplier r = '''' \<or>
         rq_SupplierModelID r = '''' \<or> rq_OfferVersion r \<le> 0 \<or> rq_MaxRequestMicrousd r \<le> 0 \<or>
         is_zero_time (rq_CreatedAt r)
        then Some ''hosted reservation identity, route, supplier, limit, and timestamp are required''
      else if length (rq_RequestID r) > 255
        then Some ''hosted reservation request id exceeds its safe bound''
      else if rr_ProductID (rq_RetailRate r) \<noteq> rq_ProductID r \<or> \<not> rate_currentAt (rq_RetailRate r) (rq_CreatedAt r)
        then Some ''hosted reservation requires the exact current immutable retail rate''
      else if (rq_TargetBindingID r = '''') \<noteq> (rq_TargetBindingDigest r = '''')
        then Some ''hosted reservation target binding id and digest must be supplied together''
      else None)"

record routing_usage =
  ru_StatusCode :: int
  ru_InputTokens :: "int option"
  ru_CachedInputTokens :: "int option"
  ru_OutputTokens :: "int option"

definition no_usage :: "int \<Rightarrow> routing_usage" where
  "no_usage status =
     \<lparr>ru_StatusCode = status, ru_InputTokens = None, ru_CachedInputTokens = None, ru_OutputTokens = None\<rparr>"

record evidence =
  ed_ReservationID :: string
  ed_TenantID :: string
  ed_Supplier :: string
  ed_SupplierRequestID :: string
  ed_Outcome :: string
  ed_Authority :: string
  ed_Reference :: string
  ed_RecordedBy :: string
  ed_InputTokens :: "int option"
  ed_CachedInputTokens :: "int option"
  ed_OutputTokens :: "int option"
  ed_ObservedAt :: gotime
  ed_RecordedAt :: gotime


section \<open>Errors, responses and effects\<close>

text \<open>An error value: what \<open>errors.Is\<close> and \<open>errors.As\<close> find in its chain.\<close>

record go_error =
  ge_IsCanceled :: bool
  ge_Supplier :: "supplier_error option"

record upstream_request =
  ur_URL :: string
  ur_Body :: string
  ur_Header :: header

record http_response =
  hr_StatusCode :: int
  hr_IsEventStream :: bool
  hr_Header :: header
  hr_Chunks :: "string list"
  hr_Failed :: bool

datatype reserve_error = InsufficientPrepaidBalance | ReserveFailed

datatype effect =
    Reserve reservation_request
  | MarkTransmitted string string gotime
  | Transmit string upstream_request
  | MarkResponseStarted string string gotime
  | Settle string string routing_usage
  | ReleaseUnsent string string string
  | RecordEvidence string string evidence
  | ObserveCandidate string bool
  | WriteError int string string
  | Deliver int header "string list"

text \<open>A supplier stream: the results of \<open>Next\<close> before its end, and the error that ends it, if any.\<close>

type_synonym supplier_stream = "stream_event list \<times> go_error option"

record adapter =
  ad_Name :: string
  ad_BuildRequest :: "candidate \<Rightarrow> adapter_request \<Rightarrow> go_error + upstream_request"
  ad_DecodeResponse :: "http_response \<Rightarrow> go_error + adapter_response"
  ad_OpenStream :: "http_response \<Rightarrow> go_error + supplier_stream"

record strict_payload =
  sp_Model :: string
  sp_Messages :: "(string \<times> string) list"
  sp_MaxTokens :: "int option"
  sp_Temperature :: "f64 option"
  sp_Stream :: bool

record runtime_env =
  re_Routes :: "directory option"
  re_HasBilling :: bool
  re_Circuit :: "circuit_breaker option"
  re_Adapters :: "(string \<times> adapter) list option"
  re_parse_url :: url_parser
  re_join_path :: "string list \<Rightarrow> string option"
  re_digest64 :: "string \<Rightarrow> int"
  re_now :: "string \<Rightarrow> gotime"
  re_allow_now :: "nat \<Rightarrow> gotime"
  re_reservation_id :: string
  re_reserve :: "reservation_request \<Rightarrow> reserve_error + string"
  re_marshal :: "json \<Rightarrow> string option"
  re_decode_strict :: "payload \<Rightarrow> string + strict_payload"
  re_json_valid :: "string \<Rightarrow> bool"
  re_new_request :: "string \<Rightarrow> bool"
  re_mark_transmitted :: "string \<Rightarrow> bool"
  re_do :: "upstream_request \<Rightarrow> http_response option"
  re_rewrite_model :: "string \<Rightarrow> string \<Rightarrow> string + string"
  re_decode_usage :: "string \<Rightarrow> usage_body option"
  re_write :: "nat \<Rightarrow> string option"


section \<open>Headers\<close>

definition safeHeaderValue :: "string \<Rightarrow> bool" where
  "safeHeaderValue v = list_all (\<lambda>c. \<not> ((of_char c < (0x20 :: nat) \<and> of_char c \<noteq> (9 :: nat)) \<or> of_char c = (0x7f :: nat))) v"

definition header_set :: "string \<Rightarrow> string \<Rightarrow> header \<Rightarrow> header" where
  "header_set name v h = h(name := [v])"

definition header_add :: "string \<Rightarrow> string \<Rightarrow> header \<Rightarrow> header" where
  "header_add name v h = h(name := h name @ [v])"

fun copy_values :: "string \<Rightarrow> string list \<Rightarrow> nat \<Rightarrow> header \<Rightarrow> nat \<times> header" where
  "copy_values name [] forwarded destination = (forwarded, destination)"
| "copy_values name (raw # rest) forwarded destination =
     (let v = TrimSpace raw in
      if v = [] \<or> \<not> safeHeaderValue v \<or> forwarded + length name + length v > 8192
      then copy_values name rest forwarded destination
      else copy_values name rest (forwarded + length name + length v) (header_add name v destination))"

fun copy_names :: "string list \<Rightarrow> header \<Rightarrow> nat \<Rightarrow> header \<Rightarrow> header" where
  "copy_names [] source forwarded destination = destination"
| "copy_names (name # rest) source forwarded destination =
     (let (forwarded', destination') = copy_values name (source name) forwarded destination
      in copy_names rest source forwarded' destination')"

definition copyAllowedHeaders :: "header \<Rightarrow> header \<Rightarrow> string list \<Rightarrow> header" where
  "copyAllowedHeaders destination source allowlist = copy_names allowlist source 0 destination"

definition copyRequestHeaders :: "header \<Rightarrow> header \<Rightarrow> header" where
  "copyRequestHeaders destination source = copyAllowedHeaders destination source [''Accept'', ''OpenAI-Beta'']"

definition copyResponseHeaders :: "header \<Rightarrow> header \<Rightarrow> bool \<Rightarrow> header" where
  "copyResponseHeaders destination source eventStream =
     (let h = copyAllowedHeaders destination source [''Cache-Control''] in
      if eventStream then header_set ''Content-Type'' ''text/event-stream; charset=utf-8'' h
      else header_set ''Content-Type'' ''application/json'' h)"

definition no_header :: header where "no_header = (\<lambda>_. [])"

definition public_header :: "proxy_request \<Rightarrow> http_response \<Rightarrow> header" where
  "public_header request response =
     header_set ''traceparent'' (px_TraceParent request)
       (header_set ''X-Request-ID'' (px_RequestID request)
         (copyResponseHeaders no_header (hr_Header response) (hr_IsEventStream response)))"


section \<open>The supplier request\<close>

definition forceStreamUsage :: "payload \<Rightarrow> payload" where
  "forceStreamUsage payload =
     (if map_of payload ''stream'' \<noteq> Some (JBool True) then payload
      else let options = (case map_of payload ''stream_options'' of Some (JObject supplied) \<Rightarrow> supplied | _ \<Rightarrow> [])
           in AList.update ''stream_options'' (JObject (AList.update ''include_usage'' (JBool True) options)) payload)"

definition Trim_slashes :: "string \<Rightarrow> string" where
  "Trim_slashes s = dropWhile (\<lambda>c. c = CHR ''/'') (rev (dropWhile (\<lambda>c. c = CHR ''/'') (rev s)))"

definition TrimRight_slashes :: "string \<Rightarrow> string" where
  "TrimRight_slashes s = rev (dropWhile (\<lambda>c. c = CHR ''/'') (rev s))"

text \<open>\<open>openaicompat.Endpoint\<close>; \<open>url.JoinPath\<close> is the parameter \<open>join_path\<close>, on the base and the elements.\<close>

definition Endpoint :: "url_parser \<Rightarrow> (string list \<Rightarrow> string option) \<Rightarrow> string \<Rightarrow> string \<Rightarrow> string option" where
  "Endpoint parse join_path base resource =
     (case parse base of None \<Rightarrow> None
      | Some parsed \<Rightarrow>
          if (url_Scheme parsed \<noteq> ''http'' \<and> url_Scheme parsed \<noteq> ''https'') \<or> url_Host parsed = '''' \<or>
             url_HasUser parsed \<or> url_RawQuery parsed \<noteq> '''' \<or> url_Fragment parsed \<noteq> '''' then None
          else let resource = Trim_slashes resource in
            if resource = '''' then None
            else if HasSuffix (TrimRight_slashes (url_Path parsed)) ''/v1'' then join_path [base, resource]
            else join_path [base, ''v1'', resource])"

definition upstream_header :: "proxy_request \<Rightarrow> candidate \<Rightarrow> header" where
  "upstream_header request c =
     header_set ''X-InferCrane-Attempt'' ''1''
       (header_set ''traceparent'' (px_TraceParent request)
         (header_set ''X-Request-ID'' (px_RequestID request)
           (header_set ''Content-Type'' ''application/json''
             (header_set ''Authorization'' (''Bearer '' @ ca_Credential c)
               (header_set ''Accept-Encoding'' ''identity''
                 (copyRequestHeaders no_header (px_Header request)))))))"

definition reservation_request_of :: "runtime_env \<Rightarrow> proxy_request \<Rightarrow> lease \<Rightarrow> candidate \<Rightarrow> reservation_request" where
  "reservation_request_of env request l c =
     \<lparr>rq_ID = re_reservation_id env, rq_RequestID = px_RequestID request, rq_TenantID = px_TenantID request,
      rq_ProductID = px_ProductID request, rq_EntitlementID = en_ID (le_Entitlement l),
      rq_OperatorTenantID = en_OperatorTenantID (le_Entitlement l),
      rq_ServingPlanID = en_ServingPlanID (le_Entitlement l), rq_SupplyPlanID = pb_SupplyPlanID (le_Publication l),
      rq_RetailRate = le_Rate l, rq_MaxRequestMicrousd = en_MaxRequestMicrousd (le_Entitlement l),
      rq_CandidateID = ca_ID c, rq_OfferID = ca_OfferID c, rq_Supplier = ca_Supplier c,
      rq_SupplierModelID = ca_SupplierModelID c, rq_TargetBindingID = ca_TargetBindingID c,
      rq_TargetBindingDigest = ca_TargetBindingDigest c, rq_OfferVersion = ca_OfferVersion c,
      rq_CreatedAt = re_now env ''created''\<rparr>"

section \<open>Copying the response\<close>

definition maxBufferedBytes :: nat where "maxBufferedBytes = 33554432"

text \<open>The bytes written to the customer, the observed token counts, and the error, if any.\<close>

definition copyPublicResponse ::
  "runtime_env \<Rightarrow> string \<Rightarrow> http_response \<Rightarrow> string list \<times> int option \<times> int option \<times> string option" where
  "copyPublicResponse env publicModel response =
     (if hr_IsEventStream response
      then copyPublicSSE \<lparr>se_rewrite_json = (\<lambda>body. re_rewrite_model env body publicModel),
              se_decode_usage = re_decode_usage env, se_write = re_write env\<rparr>
            (hr_Failed response) (hr_Chunks response)
      else let sent = concat (hr_Chunks response); body = take (Suc maxBufferedBytes) sent in
        if hr_Failed response \<and> length sent \<le> maxBufferedBytes then ([], None, None, Some ''read'')
        else if length body > maxBufferedBytes
          then ([], None, None, Some ''supplier response exceeds the 32 MiB limit'')
        else let ob = observeJSON (re_decode_usage env) body \<lparr>uo_input = None, uo_output = None\<rparr> in
          case re_rewrite_model env body publicModel of
            Inl err \<Rightarrow> ([], uo_input ob, uo_output ob, Some (''malformed supplier JSON response: '' @ err))
          | Inr body' \<Rightarrow>
              (case re_write env 0 of
                 Some err \<Rightarrow> ([], uo_input ob, uo_output ob, Some err)
               | None \<Rightarrow> ([body'], uo_input ob, uo_output ob, None)))"


section \<open>The plain supplier path\<close>

text \<open>What \<open>observeCandidate\<close> does where a circuit is configured.\<close>

definition observe :: "runtime_env \<Rightarrow> string \<Rightarrow> bool \<Rightarrow> effect list" where
  "observe env candidateID success =
     (case re_Circuit env of None \<Rightarrow> [] | Some b \<Rightarrow> [ObserveCandidate candidateID success])"

definition plain_response ::
  "runtime_env \<Rightarrow> proxy_request \<Rightarrow> candidate \<Rightarrow> string \<Rightarrow> http_response \<Rightarrow> effect list" where
  "plain_response env request c reservation response =
     (let tenant = px_TenantID request; status = hr_StatusCode response in
      [MarkResponseStarted tenant reservation (re_now env ''started'')] @
      (if status < 200 \<or> status \<ge> 300
       then observe env (ca_ID c) False @
            [Settle tenant reservation (no_usage status),
             WriteError status ''Inference supplier could not serve the request'' ''upstream_error'']
       else let (written, inp, out, copyErr) = copyPublicResponse env (publicModelID request) response in
            [Deliver status (public_header request response) written] @
            observe env (ca_ID c) (copyErr = None) @
            [Settle tenant reservation \<lparr>ru_StatusCode = status, ru_InputTokens = inp,
               ru_CachedInputTokens = None, ru_OutputTokens = out\<rparr>]))"

text \<open>Mark first, then transmit: after the transmission the reservation is settled, never released.\<close>

definition plain_transmit ::
  "runtime_env \<Rightarrow> proxy_request \<Rightarrow> candidate \<Rightarrow> string \<Rightarrow> upstream_request \<Rightarrow> effect list" where
  "plain_transmit env request c reservation upstream =
     (let tenant = px_TenantID request in
      [MarkTransmitted tenant reservation (re_now env ''transmitted'')] @
      (if \<not> re_mark_transmitted env reservation
       then [ReleaseUnsent tenant reservation ''billing transmission fence failed'',
             WriteError 503 ''Usage authorization could not be fenced'' ''billing_error'']
       else [Transmit (ca_ID c) upstream] @
         (case re_do env upstream of
            None \<Rightarrow> observe env (ca_ID c) False @
              [Settle tenant reservation (no_usage 0),
               WriteError 503 ''Inference upstream is unavailable'' ''server_error'']
          | Some response \<Rightarrow> plain_response env request c reservation response)))"

definition serve_plain :: "runtime_env \<Rightarrow> proxy_request \<Rightarrow> candidate \<Rightarrow> string \<Rightarrow> effect list" where
  "serve_plain env request c reservation =
     (let tenant = px_TenantID request;
          payload = forceStreamUsage (AList.update ''model'' (JString (ca_SupplierModelID c)) (px_Payload request)) in
      case re_marshal env (JObject payload) of
        None \<Rightarrow> [ReleaseUnsent tenant reservation ''request encoding failed before supplier transmission'',
                 WriteError 400 ''Invalid JSON body'' ''invalid_request_error'']
      | Some body \<Rightarrow>
          case Endpoint (re_parse_url env) (re_join_path env) (ca_Endpoint c) (px_Resource request) of
            None \<Rightarrow> [ReleaseUnsent tenant reservation ''qualified endpoint became invalid before supplier transmission'',
                     WriteError 503 ''Inference upstream is unavailable'' ''server_error'']
          | Some target \<Rightarrow>
              if \<not> re_new_request env target
              then [ReleaseUnsent tenant reservation ''request construction failed before supplier transmission'',
                    WriteError 503 ''Inference upstream is unavailable'' ''server_error'']
              else plain_transmit env request c reservation
                     \<lparr>ur_URL = target, ur_Body = body, ur_Header = upstream_header request c\<rparr>)"


section \<open>The strict supplier path\<close>

definition strictDefaultMaxOutputTokens :: int where "strictDefaultMaxOutputTokens = 512"

text \<open>Encoding the payload and decoding it into the strict structure is \<open>re_decode_strict\<close>.\<close>

definition normalizeStrictRequest :: "runtime_env \<Rightarrow> proxy_request \<Rightarrow> string + adapter_request" where
  "normalizeStrictRequest env request =
     (case re_decode_strict env (px_Payload request) of
        Inl err \<Rightarrow> Inl err
      | Inr payload \<Rightarrow>
          if px_Operation request \<noteq> ''chat'' \<or> sp_Model payload \<noteq> px_ProductID request
          then Inl ''request operation or public model does not match the strict route''
          else let normalized =
              \<lparr>ar_ID = px_RequestID request, ar_Operation = OperationChatCompletions,
               ar_ModelID = px_ProductID request,
               ar_Messages = map (\<lambda>(role, content). \<lparr>msg_Role = role, msg_Name = [],
                   msg_Content = [\<lparr>cp_Type = ''text'', cp_Text = content, cp_ImageURL = []\<rparr>]\<rparr>) (sp_Messages payload),
               ar_Tools = [], ar_ResponseFormat = [],
               ar_MaxOutputTokens = (case sp_MaxTokens payload of
                   None \<Rightarrow> Some strictDefaultMaxOutputTokens | Some m \<Rightarrow> Some m),
               ar_Temperature = sp_Temperature payload, ar_Stream = sp_Stream payload\<rparr>
            in case Request_Validate (re_json_valid env) normalized of
                 Some err \<Rightarrow> Inl err | None \<Rightarrow> Inr normalized)"

definition tripsCandidateCircuit :: "go_error option \<Rightarrow> bool" where
  "tripsCandidateCircuit er =
     (case er of None \<Rightarrow> False
      | Some e \<Rightarrow>
          if ge_IsCanceled e then False
          else case ge_Supplier e of None \<Rightarrow> True
            | Some se \<Rightarrow> \<not> (spe_Code se = ''invalid_request'' \<or> spe_Code se = ''cancelled''))"

definition observe_failure :: "runtime_env \<Rightarrow> string \<Rightarrow> go_error \<Rightarrow> effect list" where
  "observe_failure env candidateID e =
     (if tripsCandidateCircuit (Some e) then observe env candidateID False else [])"

definition writeStrictError :: "go_error \<Rightarrow> effect list" where
  "writeStrictError e =
     (case ge_Supplier e of
        None \<Rightarrow> [WriteError 503 ''Inference upstream is unavailable'' ''server_error'']
      | Some se \<Rightarrow>
          if spe_Code se = ''invalid_request''
            then [WriteError 400 ''Request is outside the qualified model contract'' ''invalid_request_error'']
          else if spe_Code se = ''rate_limited''
            then [WriteError 429 ''Inference capacity is temporarily limited'' ''upstream_error'']
          else if spe_Code se = ''protocol_error''
            then [WriteError 502 ''Inference supplier returned an invalid response'' ''upstream_error'']
          else if spe_Code se = ''timeout''
            then [WriteError 504 ''Inference upstream timed out'' ''upstream_error'']
          else [WriteError 503 ''Inference upstream is unavailable'' ''upstream_error''])"

text \<open>Only an adapter's explicit no-charge classification becomes evidence.\<close>

definition recordStrictReconciliationEvidence ::
  "runtime_env \<Rightarrow> proxy_request \<Rightarrow> string \<Rightarrow> string \<Rightarrow> go_error \<Rightarrow> effect list" where
  "recordStrictReconciliationEvidence env request reservation adapterName e =
     (case ge_Supplier e of None \<Rightarrow> []
      | Some se \<Rightarrow>
          if spe_Billing se \<noteq> ''no_charge_confirmed'' \<or> spe_ResponseStarted se \<or> TrimSpace (spe_SupplierRequestID se) = []
          then []
          else [RecordEvidence (px_TenantID request) reservation
            \<lparr>ed_ReservationID = [], ed_TenantID = [], ed_Supplier = [],
             ed_SupplierRequestID = spe_SupplierRequestID se, ed_Outcome = ''no_charge'',
             ed_Authority = ''supplier_adapter'',
             ed_Reference = ''supplier-adapter:'' @ adapterName @ '':'' @ spe_Code se @ '':'' @ spe_SupplierRequestID se,
             ed_RecordedBy = ''supplier-adapter:'' @ adapterName, ed_InputTokens = None,
             ed_CachedInputTokens = None, ed_OutputTokens = None,
             ed_ObservedAt = re_now env ''observed'', ed_RecordedAt = 0\<rparr>])"

definition intToken :: "int option \<Rightarrow> int option" where
  "intToken v = (case v of None \<Rightarrow> None | Some n \<Rightarrow> if n < 0 \<or> u64 n > max_i64 then None else Some n)"

definition routingUsage :: "int \<Rightarrow> supplier_usage \<Rightarrow> routing_usage" where
  "routingUsage status usage =
     \<lparr>ru_StatusCode = status, ru_InputTokens = intToken (spu_InputTokens usage),
      ru_CachedInputTokens = intToken (spu_CachedInput usage), ru_OutputTokens = intToken (spu_OutputTokens usage)\<rparr>"

definition publicUsage :: "supplier_usage \<Rightarrow> json" where
  "publicUsage usage =
     (let prompt = (case spu_InputTokens usage of None \<Rightarrow> 0 | Some n \<Rightarrow> n);
          completion = (case spu_OutputTokens usage of None \<Rightarrow> 0 | Some n \<Rightarrow> n) in
      JObject ([(''prompt_tokens'', JNumber (itoa prompt)), (''completion_tokens'', JNumber (itoa completion)),
                (''total_tokens'', JNumber (itoa (i64 (prompt + completion))))] @
        (case spu_CachedInput usage of None \<Rightarrow> []
         | Some n \<Rightarrow> [(''prompt_tokens_details'', JObject [(''cached_tokens'', JNumber (itoa n))])]) @
        (case spu_ReasoningTokens usage of None \<Rightarrow> []
         | Some n \<Rightarrow> [(''completion_tokens_details'', JObject [(''reasoning_tokens'', JNumber (itoa n))])])))"

fun public_choices :: "choice list \<Rightarrow> json list option" where
  "public_choices [] = Some []"
| "public_choices (ch # rest) =
     (case ch_Message ch of None \<Rightarrow> None
      | Some m \<Rightarrow>
          (case msg_Content m of
             [part] \<Rightarrow>
               if cp_Type part \<noteq> ''text'' then None
               else (case public_choices rest of None \<Rightarrow> None
                 | Some js \<Rightarrow> Some (JObject [(''index'', JNumber (itoa (ch_Index ch))),
                     (''message'', JObject [(''role'', JString (msg_Role m)), (''content'', JString (cp_Text part))]),
                     (''finish_reason'', JString (ch_FinishReason ch))] # js))
           | _ \<Rightarrow> None))"

definition publicBufferedResponse :: "runtime_env \<Rightarrow> string \<Rightarrow> adapter_response \<Rightarrow> string option" where
  "publicBufferedResponse env publicModel response =
     (case public_choices (arp_Choices response) of None \<Rightarrow> None
      | Some choices \<Rightarrow> re_marshal env (JObject [(''id'', JString (arp_ID response)),
          (''object'', JString ''chat.completion''), (''model'', JString publicModel),
          (''choices'', JArray choices), (''usage'', publicUsage (arp_Usage response))]))"

definition publicStreamEvent :: "runtime_env \<Rightarrow> string \<Rightarrow> string \<Rightarrow> stream_event \<Rightarrow> string option" where
  "publicStreamEvent env requestID publicModel event =
     (let choices = (if sev_Type event \<noteq> ''usage''
            then [JObject [(''index'', JNumber (itoa (sev_ChoiceIndex event))),
                   (''delta'', JObject (if sev_TextDelta event \<noteq> [] then [(''content'', JString (sev_TextDelta event))] else [])),
                   (''finish_reason'', if sev_FinishReason event \<noteq> [] then JString (sev_FinishReason event) else JNull)]]
            else []) in
      re_marshal env (JObject ([(''id'', JString requestID), (''object'', JString ''chat.completion.chunk''),
        (''model'', JString publicModel), (''choices'', JArray choices)] @
        (case sev_Usage event of None \<Rightarrow> [] | Some u \<Rightarrow> [(''usage'', publicUsage u)]))))"

text \<open>A failed encoding or write is neither a cancellation nor a supplier error.\<close>

definition local_error :: go_error where
  "local_error = \<lparr>ge_IsCanceled = False, ge_Supplier = None\<rparr>"

definition serveStrictBuffered ::
  "runtime_env \<Rightarrow> proxy_request \<Rightarrow> string \<Rightarrow> string \<Rightarrow> http_response \<Rightarrow> adapter \<Rightarrow> effect list" where
  "serveStrictBuffered env request reservation candidateID upstream adapter =
     (let tenant = px_TenantID request; status = hr_StatusCode upstream in
      case ad_DecodeResponse adapter upstream of
        Inl e \<Rightarrow> observe_failure env candidateID e @
          [Settle tenant reservation (no_usage status)] @
          recordStrictReconciliationEvidence env request reservation (ad_Name adapter) e @
          writeStrictError e
      | Inr response \<Rightarrow>
          let usage = routingUsage status (arp_Usage response) in
          case publicBufferedResponse env (publicModelID request) response of
            None \<Rightarrow> observe env candidateID False @
              [Settle tenant reservation usage,
               WriteError 502 ''Inference supplier returned an invalid response'' ''upstream_error'']
          | Some body \<Rightarrow> observe env candidateID True @
              [Deliver 200 (public_header request upstream) (if re_write env 0 = None then [body] else []),
               Settle tenant reservation usage])"

text \<open>The events of the stream: the usage observed last, what was written, and the error.\<close>

fun stream_loop ::
  "runtime_env \<Rightarrow> proxy_request \<Rightarrow> int \<Rightarrow> stream_event list \<Rightarrow> go_error option \<Rightarrow> routing_usage \<Rightarrow> string list \<Rightarrow>
   routing_usage \<times> string list \<times> go_error option" where
  "stream_loop env request status [] ending usage written =
     (case ending of
        Some e \<Rightarrow> (usage, written, Some e)
      | None \<Rightarrow>
          if re_write env (length written) = None
          then (usage, written @ [''data: [DONE]'' @ [LF, LF]], None)
          else (usage, written, Some local_error))"
| "stream_loop env request status (event # rest) ending usage written =
     (let usage' = (case sev_Usage event of None \<Rightarrow> usage | Some u \<Rightarrow> routingUsage status u) in
      case publicStreamEvent env (px_RequestID request) (publicModelID request) event of
        None \<Rightarrow> (usage', written, Some local_error)
      | Some body \<Rightarrow>
          if re_write env (length written) \<noteq> None then (usage', written, Some local_error)
          else stream_loop env request status rest ending usage' (written @ [''data: '' @ body @ [LF, LF]]))"

definition serveStrictStream ::
  "runtime_env \<Rightarrow> proxy_request \<Rightarrow> string \<Rightarrow> string \<Rightarrow> http_response \<Rightarrow> adapter \<Rightarrow> effect list" where
  "serveStrictStream env request reservation candidateID upstream adapter =
     (let tenant = px_TenantID request; status = hr_StatusCode upstream in
      case ad_OpenStream adapter upstream of
        Inl e \<Rightarrow> observe_failure env candidateID e @
          [Settle tenant reservation (no_usage status)] @
          recordStrictReconciliationEvidence env request reservation (ad_Name adapter) e @
          writeStrictError e
      | Inr (events, ending) \<Rightarrow>
          let (usage, written, copyErr) = stream_loop env request status events ending (no_usage status) [] in
          [Deliver 200 (header_set ''Content-Type'' ''text/event-stream; charset=utf-8'' (public_header request upstream)) written] @
          (case copyErr of None \<Rightarrow> observe env candidateID True | Some e \<Rightarrow> observe_failure env candidateID e) @
          [Settle tenant reservation usage] @
          (case copyErr of None \<Rightarrow> []
           | Some e \<Rightarrow> recordStrictReconciliationEvidence env request reservation (ad_Name adapter) e))"

definition serveStrictCandidate ::
  "runtime_env \<Rightarrow> proxy_request \<Rightarrow> candidate \<Rightarrow> string \<Rightarrow> adapter \<Rightarrow> adapter_request \<Rightarrow> effect list" where
  "serveStrictCandidate env request c reservation adapter normalized =
     (let tenant = px_TenantID request in
      case ad_BuildRequest adapter c normalized of
        Inl e \<Rightarrow> observe_failure env (ca_ID c) e @
          [ReleaseUnsent tenant reservation ''strict supplier request failed before transmission''] @
          writeStrictError e
      | Inr built \<Rightarrow>
          let upstream = built\<lparr>ur_Header := header_set ''X-InferCrane-Attempt'' ''1''
                (header_set ''traceparent'' (px_TraceParent request) (ur_Header built))\<rparr> in
          [MarkTransmitted tenant reservation (re_now env ''transmitted'')] @
          (if \<not> re_mark_transmitted env reservation
           then [ReleaseUnsent tenant reservation ''billing transmission fence failed'',
                 WriteError 503 ''Usage authorization could not be fenced'' ''billing_error'']
           else [Transmit (ca_ID c) upstream] @
             (case re_do env upstream of
                None \<Rightarrow> observe env (ca_ID c) False @
                  [Settle tenant reservation (no_usage 0),
                   WriteError 503 ''Inference upstream is unavailable'' ''server_error'']
              | Some response \<Rightarrow>
                  [MarkResponseStarted tenant reservation (re_now env ''started'')] @
                  (if ar_Stream normalized
                   then serveStrictStream env request reservation (ca_ID c) response adapter
                   else serveStrictBuffered env request reservation (ca_ID c) response adapter))))"


section \<open>The handler\<close>

fun first_allowed :: "runtime_env \<Rightarrow> nat \<Rightarrow> candidate list \<Rightarrow> candidate option" where
  "first_allowed env index [] = None"
| "first_allowed env index (c # rest) =
     (if Allow (re_Circuit env) (ca_ID c) (re_allow_now env index) then Some c
      else first_allowed env (Suc index) rest)"

text \<open>The adapter and normalized request of a candidate; \<open>Inr None\<close> is the plain path.\<close>

definition strict_plan ::
  "runtime_env \<Rightarrow> proxy_request \<Rightarrow> candidate \<Rightarrow> effect + (adapter \<times> adapter_request) option" where
  "strict_plan env request c =
     (if ca_Adapter c = '''' then Inr None
      else case Registry_Lookup (re_Adapters env) (ca_Adapter c) of
          None \<Rightarrow> Inl (WriteError 503 ''Inference upstream is unavailable'' ''server_error'')
        | Some adapter \<Rightarrow>
            (case normalizeStrictRequest env request of
               Inl err \<Rightarrow> Inl (WriteError 400 ''Request is outside the qualified model contract'' ''invalid_request_error'')
             | Inr normalized \<Rightarrow> Inr (Some (adapter, normalized))))"

definition serve_candidate :: "runtime_env \<Rightarrow> proxy_request \<Rightarrow> lease \<Rightarrow> candidate \<Rightarrow> effect list" where
  "serve_candidate env request l c =
     (case strict_plan env request c of
        Inl answer \<Rightarrow> [answer]
      | Inr plan \<Rightarrow>
          let reservationRequest = reservation_request_of env request l c in
          [Reserve reservationRequest] @
          (case re_reserve env reservationRequest of
             Inl InsufficientPrepaidBalance \<Rightarrow>
               [WriteError 402 ''Prepaid Model API balance is insufficient'' ''billing_error'']
           | Inl ReserveFailed \<Rightarrow>
               [WriteError 503 ''Usage authorization is temporarily unavailable'' ''billing_error'']
           | Inr reservation \<Rightarrow>
               (case plan of
                  Some (adapter, normalized) \<Rightarrow> serveStrictCandidate env request c reservation adapter normalized
                | None \<Rightarrow> serve_plain env request c reservation)))"

definition ServeHTTP :: "runtime_env \<Rightarrow> proxy_request \<Rightarrow> effect list" where
  "ServeHTTP env request =
     (case re_Routes env of
        None \<Rightarrow> [WriteError 503 ''Hosted Model API routing is unavailable'' ''server_error'']
      | Some routes \<Rightarrow>
          if \<not> re_HasBilling env
          then [WriteError 503 ''Hosted Model API routing is unavailable'' ''server_error'']
          else case Acquire (re_parse_url env) (re_now env ''acquire'') routes (px_TenantID request) (px_ProductID request) of
              Inl ErrUnauthorized \<Rightarrow> [WriteError 403 ''API key is not entitled to this model'' ''permission_error'']
            | Inl ErrRouteUnavailable \<Rightarrow>
                [WriteError 404 (''Unknown or unavailable model: '' @ px_ProductID request) ''invalid_request_error'']
            | Inr l \<Rightarrow>
                (case first_allowed env 0
                    (CandidatesForRequest (re_digest64 env) l (px_RequestID request) (px_Operation request)) of
                   None \<Rightarrow> [WriteError 422 ''Model does not support this API operation'' ''unsupported_protocol'']
                 | Some c \<Rightarrow> serve_candidate env request l c))"

section \<open>The billing protocol\<close>

text \<open>
  The protocol the billing interface demands of a caller, as an automaton over effects. It knows
  what the reservation and the transmission fence answered: a refused reservation allows nothing, an
  acknowledged fence allows exactly one transmission and then a settlement, a failed fence a release.
\<close>

datatype phase =
    Unreserved
  | Refused
  | Held string string
  | Fenced string string
  | Sent string string
  | Settled string string
  | Released string string

fun billing_step :: "runtime_env \<Rightarrow> phase \<Rightarrow> effect \<Rightarrow> phase option" where
  "billing_step env Unreserved (Reserve r) =
     (case re_reserve env r of Inl _ \<Rightarrow> Some Refused | Inr reservation \<Rightarrow> Some (Held (rq_TenantID r) reservation))"
| "billing_step env (Held t i) (MarkTransmitted t' i' at_time) = (if t' = t \<and> i' = i then Some (Fenced t i) else None)"
| "billing_step env (Held t i) (ReleaseUnsent t' i' reason) = (if t' = t \<and> i' = i then Some (Released t i) else None)"
| "billing_step env (Fenced t i) (Transmit c up) = (if re_mark_transmitted env i then Some (Sent t i) else None)"
| "billing_step env (Fenced t i) (ReleaseUnsent t' i' reason) =
     (if t' = t \<and> i' = i \<and> \<not> re_mark_transmitted env i then Some (Released t i) else None)"
| "billing_step env (Sent t i) (MarkResponseStarted t' i' at_time) = (if t' = t \<and> i' = i then Some (Sent t i) else None)"
| "billing_step env (Sent t i) (Settle t' i' usage) = (if t' = t \<and> i' = i then Some (Settled t i) else None)"
| "billing_step env (Settled t i) (RecordEvidence t' i' ev) = (if t' = t \<and> i' = i then Some (Settled t i) else None)"
| "billing_step env p (ObserveCandidate c success) = Some p"
| "billing_step env p (WriteError status message kind) = Some p"
| "billing_step env p (Deliver status h body) = Some p"
| "billing_step env p e = None"

fun billing_run :: "runtime_env \<Rightarrow> phase \<Rightarrow> effect list \<Rightarrow> phase option" where
  "billing_run env p [] = Some p"
| "billing_run env p (e # es) = (case billing_step env p e of None \<Rightarrow> None | Some q \<Rightarrow> billing_run env q es)"

text \<open>Nothing is left open: no reservation is held, fenced or sent without its resolution.\<close>

fun resolved :: "phase \<Rightarrow> bool" where
  "resolved (Held t i) = False"
| "resolved (Fenced t i) = False"
| "resolved (Sent t i) = False"
| "resolved p = True"

fun is_transmit :: "effect \<Rightarrow> bool" where
  "is_transmit (Transmit c up) = True"
| "is_transmit e = False"

fun is_answer :: "effect \<Rightarrow> bool" where
  "is_answer (WriteError status message kind) = True"
| "is_answer (Deliver status h body) = True"
| "is_answer e = False"

abbreviation count_of :: "(effect \<Rightarrow> bool) \<Rightarrow> effect list \<Rightarrow> nat" where
  "count_of P es \<equiv> length (filter P es)"

lemma billing_run_append:
  "billing_run env p (xs @ ys) = (case billing_run env p xs of None \<Rightarrow> None | Some q \<Rightarrow> billing_run env q ys)"
  by (induction xs arbitrary: p) (auto split: option.splits)

lemma neutral_step [simp]:
  "billing_step env p (ObserveCandidate c success) = Some p"
  "billing_step env p (WriteError status message kind) = Some p"
  "billing_step env p (Deliver status h body) = Some p"
  by (cases p; simp)+

lemma observe_run [simp]:
  "billing_run env' p (observe env c success) = Some p" "filter is_transmit (observe env c success) = []"
  "filter is_answer (observe env c success) = []"
  "billing_run env' p (observe_failure env c e) = Some p" "filter is_transmit (observe_failure env c e) = []"
  "filter is_answer (observe_failure env c e) = []"
  by (simp_all add: observe_def observe_failure_def split: option.split)

lemma writeStrictError_run [simp]:
  "billing_run env p (writeStrictError e) = Some p" "filter is_transmit (writeStrictError e) = []"
  "count_of is_answer (writeStrictError e) = Suc 0"
  by (simp_all add: writeStrictError_def split: option.split)

lemma evidence_run [simp]:
  "billing_run env' (Settled (px_TenantID request) i) (recordStrictReconciliationEvidence env request i n e) =
     Some (Settled (px_TenantID request) i)"
  "filter is_transmit (recordStrictReconciliationEvidence env request i n e) = []"
  "filter is_answer (recordStrictReconciliationEvidence env request i n e) = []"
  by (simp_all add: recordStrictReconciliationEvidence_def split: option.split)

text \<open>A trace that takes the protocol from a phase to a resolved one, with its transmissions and one answer.\<close>

definition completes :: "runtime_env \<Rightarrow> phase \<Rightarrow> effect list \<Rightarrow> phase \<Rightarrow> nat \<Rightarrow> bool" where
  "completes env p es q transmissions =
     (billing_run env p es = Some q \<and> count_of is_transmit es = transmissions \<and> count_of is_answer es = 1)"

lemma completes_Cons:
  assumes "billing_step env p e = Some p'" "\<not> is_answer e" "completes env p' es q n"
  shows "completes env p (e # es) q (if is_transmit e then Suc n else n)"
  using assms by (simp add: completes_def)

lemma plain_response_completes:
  "completes env (Sent (px_TenantID request) i) (plain_response env request c i response)
     (Settled (px_TenantID request) i) 0"
  by (simp add: completes_def plain_response_def Let_def billing_run_append split: prod.split)

lemma serveStrictBuffered_completes:
  "completes env (Sent (px_TenantID request) i) (serveStrictBuffered env request i c response adapter)
     (Settled (px_TenantID request) i) 0"
  by (simp add: completes_def serveStrictBuffered_def Let_def billing_run_append split: sum.split option.split)

lemma serveStrictStream_completes:
  "completes env (Sent (px_TenantID request) i) (serveStrictStream env request i c response adapter)
     (Settled (px_TenantID request) i) 0"
  by (simp add: completes_def serveStrictStream_def Let_def billing_run_append split: sum.split prod.split option.split)

text \<open>After a reservation both paths end settled with one transmission, or released with none.\<close>

definition outcome :: "runtime_env \<Rightarrow> string \<Rightarrow> string \<Rightarrow> effect list \<Rightarrow> bool" where
  "outcome env tenant i es =
     (completes env (Held tenant i) es (Settled tenant i) 1 \<or> completes env (Held tenant i) es (Released tenant i) 0)"

lemma plain_transmit_outcome: "outcome env (px_TenantID request) i (plain_transmit env request c i up)"
proof (cases "re_mark_transmitted env i")
  case True
  have "completes env (Sent (px_TenantID request) i)
      (case re_do env up of
         None \<Rightarrow> observe env (ca_ID c) False @ [Settle (px_TenantID request) i (no_usage 0),
           WriteError 503 ''Inference upstream is unavailable'' ''server_error'']
       | Some response \<Rightarrow> plain_response env request c i response) (Settled (px_TenantID request) i) 0"
    using plain_response_completes
    by (cases "re_do env up") (simp_all add: completes_def billing_run_append)
  with True show ?thesis by (simp add: outcome_def plain_transmit_def Let_def completes_def)
next
  case False
  then show ?thesis by (simp add: outcome_def plain_transmit_def Let_def completes_def)
qed

lemma serve_plain_outcome: "outcome env (px_TenantID request) i (serve_plain env request c i)"
  using plain_transmit_outcome
  by (simp add: serve_plain_def Let_def split: option.split) (simp add: outcome_def completes_def)

lemma serveStrictCandidate_outcome:
  "outcome env (px_TenantID request) i (serveStrictCandidate env request c i adapter normalized)"
proof (cases "ad_BuildRequest adapter c normalized")
  case (Inl e)
  then show ?thesis
    by (simp add: serveStrictCandidate_def Let_def outcome_def completes_def billing_run_append)
next
  case (Inr built)
  show ?thesis
  proof (cases "re_mark_transmitted env i")
    case False
    with Inr show ?thesis by (simp add: serveStrictCandidate_def Let_def outcome_def completes_def)
  next
    case True
    have "completes env (Sent (px_TenantID request) i)
        (MarkResponseStarted (px_TenantID request) i (re_now env ''started'') #
          (if ar_Stream normalized then serveStrictStream env request i (ca_ID c) response adapter
           else serveStrictBuffered env request i (ca_ID c) response adapter))
        (Settled (px_TenantID request) i) 0" for response
      using serveStrictStream_completes serveStrictBuffered_completes by (simp add: completes_def)
    with Inr True show ?thesis
      by (simp add: serveStrictCandidate_def Let_def outcome_def completes_def billing_run_append split: option.split)
  qed
qed

definition protocol_result :: "runtime_env \<Rightarrow> proxy_request \<Rightarrow> effect list \<Rightarrow> phase \<Rightarrow> bool" where
  "protocol_result env request es p =
     (billing_run env Unreserved es = Some p \<and> resolved p \<and>
      (case p of Settled t i \<Rightarrow> t = px_TenantID request | Released t i \<Rightarrow> t = px_TenantID request | _ \<Rightarrow> True) \<and>
      count_of is_transmit es = (case p of Settled t i \<Rightarrow> 1 | _ \<Rightarrow> 0) \<and> count_of is_answer es = 1)"

lemma protocol_error: "protocol_result env request [WriteError status message kind] Unreserved"
  by (simp add: protocol_result_def)

lemma strict_plan_error: "strict_plan env request c = Inl e \<Longrightarrow> \<exists>status message kind. e = WriteError status message kind"
  by (auto simp: strict_plan_def split: if_splits option.splits sum.splits)

lemma protocol_reserved:
  assumes "re_reserve env r = Inr i" "rq_TenantID r = px_TenantID request" "outcome env (px_TenantID request) i es"
  shows "\<exists>p. protocol_result env request (Reserve r # es) p"
  using assms unfolding outcome_def
proof (elim disjE)
  assume "completes env (Held (px_TenantID request) i) es (Settled (px_TenantID request) i) 1"
  with assms(1,2) show ?thesis
    by (intro exI [of _ "Settled (px_TenantID request) i"]) (simp add: protocol_result_def completes_def)
next
  assume "completes env (Held (px_TenantID request) i) es (Released (px_TenantID request) i) 0"
  with assms(1,2) show ?thesis
    by (intro exI [of _ "Released (px_TenantID request) i"]) (simp add: protocol_result_def completes_def)
qed

lemma serve_candidate_protocol: "\<exists>p. protocol_result env request (serve_candidate env request l c) p"
proof (cases "strict_plan env request c")
  case (Inl e)
  with strict_plan_error [OF Inl] show ?thesis
    by (auto simp: serve_candidate_def intro: protocol_error)
next
  case (Inr plan)
  let ?r = "reservation_request_of env request l c"
  have tenant: "rq_TenantID ?r = px_TenantID request" by (simp add: reservation_request_of_def)
  show ?thesis
  proof (cases "re_reserve env ?r")
    case (Inl e)
    with Inr show ?thesis
      by (intro exI [of _ Refused])
        (cases e; simp add: serve_candidate_def Let_def protocol_result_def)
  next
    case (Inr i)
    let ?es = "case plan of Some (adapter, normalized) \<Rightarrow> serveStrictCandidate env request c i adapter normalized
        | None \<Rightarrow> serve_plain env request c i"
    have "outcome env (px_TenantID request) i ?es"
      using serve_plain_outcome serveStrictCandidate_outcome by (simp split: option.split prod.split)
    from protocol_reserved [OF Inr tenant this] show ?thesis
      using Inr \<open>strict_plan env request c = Inr plan\<close> by (simp add: serve_candidate_def Let_def)
  qed
qed

lemma ServeHTTP_protocol: "\<exists>p. protocol_result env request (ServeHTTP env request) p"
  unfolding ServeHTTP_def
  by (auto split: option.split sum.split route_error.split intro: protocol_error serve_candidate_protocol)

text \<open>C1.
  Every request the hosted Model API serves follows the billing protocol to its end, on every path
  through the handler and whatever its environment answers. No request transmits more than once; it
  transmits only after a granted reservation and an acknowledged transmission fence of the
  requesting tenant, and then settles that reservation; a reservation that was not transmitted is
  released, never settled, and a transmitted one is settled, never released. Whether admission, the
  encoding of the request, the fence, the supplier, its response or the customer's connection fails,
  no reservation is left open, and the customer gets exactly one answer.
\<close>

theorem request_follows_billing_protocol:
  "\<exists>p. billing_run env Unreserved (ServeHTTP env request) = Some p \<and> resolved p \<and>
     (case p of Settled t i \<Rightarrow> t = px_TenantID request | Released t i \<Rightarrow> t = px_TenantID request | _ \<Rightarrow> True) \<and>
     count_of is_transmit (ServeHTTP env request) = (case p of Settled t i \<Rightarrow> 1 | _ \<Rightarrow> 0) \<and>
     count_of is_answer (ServeHTTP env request) = 1"
  using ServeHTTP_protocol unfolding protocol_result_def .

section \<open>What precedes a transmission\<close>

fun owner :: "phase \<Rightarrow> (string \<times> string) option" where
  "owner (Held t i) = Some (t, i)"
| "owner (Fenced t i) = Some (t, i)"
| "owner (Sent t i) = Some (t, i)"
| "owner (Settled t i) = Some (t, i)"
| "owner (Released t i) = Some (t, i)"
| "owner p = None"

lemma billing_step_owner: "billing_step env p e = Some q \<Longrightarrow> owner p = Some x \<Longrightarrow> owner q = Some x"
  by (cases "(env, p, e)" rule: billing_step.cases) (auto split: if_splits sum.splits)

lemma billing_run_owner: "billing_run env p es = Some q \<Longrightarrow> owner p = Some x \<Longrightarrow> owner q = Some x"
  by (induction es arbitrary: p) (auto split: option.splits dest: billing_step_owner)

lemma fenced_has_mark:
  "billing_run env p es = Some (Fenced t i) \<Longrightarrow> p \<noteq> Fenced t i \<Longrightarrow> \<exists>now. MarkTransmitted t i now \<in> set es"
proof (induction es arbitrary: p)
  case (Cons e es)
  then obtain q where q: "billing_step env p e = Some q" "billing_run env q es = Some (Fenced t i)"
    by (auto split: option.splits)
  show ?case
  proof (cases "q = Fenced t i")
    case True
    have "\<exists>now. e = MarkTransmitted t i now"
      using q(1) Cons.prems(2) unfolding True
      by (cases "(env, p, e)" rule: billing_step.cases) (auto split: if_splits sum.splits)
    then show ?thesis by auto
  next
    case False
    with Cons.IH [OF q(2)] show ?thesis by auto
  qed
qed simp

lemma transmit_after_fence:
  assumes "ServeHTTP env request = pre @ Transmit c up # post"
  shows "\<exists>i now. MarkTransmitted (px_TenantID request) i now \<in> set pre \<and> re_mark_transmitted env i"
proof -
  obtain p where p: "protocol_result env request (ServeHTTP env request) p"
    using ServeHTTP_protocol by blast
  then have run: "billing_run env Unreserved (pre @ Transmit c up # post) = Some p"
    by (simp add: protocol_result_def assms)
  then obtain q q' where q: "billing_run env Unreserved pre = Some q" "billing_step env q (Transmit c up) = Some q'"
    "billing_run env q' post = Some p"
    by (auto simp: billing_run_append split: option.splits)
  then obtain t i where ti: "q = Fenced t i" "re_mark_transmitted env i" "q' = Sent t i"
    by (cases "(env, q, Transmit c up)" rule: billing_step.cases) (auto split: if_splits)
  have "owner p = Some (t, i)" using billing_run_owner [OF q(3)] ti(3) by simp
  then have "t = px_TenantID request" using p by (cases p) (auto simp: protocol_result_def)
  with fenced_has_mark [OF q(1) [unfolded ti(1)]] ti(2) show ?thesis by blast
qed


section \<open>An example\<close>

definition serve_env :: runtime_env where
  "serve_env =
     \<lparr>re_Routes = Some (fst (Publish NewDirectory [example_route])), re_HasBilling = True,
      re_Circuit = Some (NewCircuitBreaker 3 0), re_Adapters = None, re_parse_url = example_parse_url,
      re_join_path = (\<lambda>parts. Some (concat parts)), re_digest64 = (\<lambda>_. 0), re_now = (\<lambda>_. 5),
      re_allow_now = (\<lambda>_. 5), re_reservation_id = ''r1'', re_reserve = (\<lambda>r. Inr (rq_ID r)),
      re_marshal = (\<lambda>_. Some ''{}''), re_decode_strict = (\<lambda>_. Inl ''unused''), re_json_valid = (\<lambda>_. True),
      re_new_request = (\<lambda>_. True), re_mark_transmitted = (\<lambda>_. True), re_do = (\<lambda>_. None),
      re_rewrite_model = (\<lambda>body model. Inl ''unused''), re_decode_usage = (\<lambda>_. None), re_write = (\<lambda>_. None)\<rparr>"

definition serve_request :: proxy_request where
  "serve_request =
     \<lparr>px_TenantID = ''cust'', px_ProductID = ''llama'', px_PublicModelID = [], px_Operation = ''chat'',
      px_Resource = ''chat/completions'', px_RequestID = ''req-1'', px_TraceParent = [],
      px_Payload = [(''model'', JString ''llama'')], px_Header = no_header\<rparr>"

lemma serve_selected:
  "first_allowed serve_env 0 (CandidatesForRequest (re_digest64 serve_env) example_lease ''req-1'' ''chat'') =
     Some (example_candidate ''stable'' 9000)"
  by (simp add: CandidatesForRequest_cases eligible_def example_lease_def example_route_def supports_iff
      example_candidate_def selected_first_def bucket_of_def serve_env_def Allow_def state_of_def
      NewCircuitBreaker_def is_zero_time_def Let_def)

lemma serve_trace:
  "\<exists>r up usage m. ServeHTTP serve_env serve_request =
     [Reserve r, MarkTransmitted ''cust'' ''r1'' 5] @
     Transmit ''stable'' up # [ObserveCandidate ''stable'' False, Settle ''cust'' ''r1'' usage, m] \<and> is_answer m"
proof -
  have "ServeHTTP serve_env serve_request =
      serve_candidate serve_env serve_request example_lease (example_candidate ''stable'' 9000)"
    using serve_selected example_acquired
    by (simp add: ServeHTTP_def serve_env_def serve_request_def)
  then show ?thesis
    by (simp add: serve_candidate_def strict_plan_def serve_plain_def plain_transmit_def Let_def
        serve_env_def serve_request_def example_candidate_def Endpoint_def example_parse_url_def
        Trim_slashes_def reservation_request_of_def observe_def TrimRight_slashes_def HasSuffix_def)
qed

theorem request_follows_billing_protocol_witness:
  "\<exists>t i. billing_run serve_env Unreserved (ServeHTTP serve_env serve_request) = Some (Settled t i) \<and>
     t = ''cust'' \<and> count_of is_answer (ServeHTTP serve_env serve_request) = 1"
proof -
  have tenant: "px_TenantID serve_request = ''cust''" by (simp add: serve_request_def)
  show ?thesis
    using request_follows_billing_protocol [of serve_env serve_request] serve_trace tenant
    by (auto split: phase.splits)
qed

end
