(* ===== verification/Hosted_Usage.thy ===== *)
theory Hosted_Usage
  imports Model_Api_Runtime Payments Reconciliation
begin

text \<open>
  The money fence of the hosted Model API (\<open>internal/store/model_api_routes.go\<close>): reservations,
  the transmission fence, settlement with its supplier cost record, release, confirmed no-charge and
  reconciliation evidence, on the same wallets as \<open>Wallet\<close> and \<open>Payments\<close>.

  The state is the wallet database with the tables of the hosted runtime beside it. What the
  reservation reads of the catalog (entitlements, rate cards, supply plans, offers and bindings) is
  given as functions. The columns a nullable text leaves empty are empty strings, as the scan
  returns them. The pattern checks on digests and the foreign keys are not modelled: a statement
  they reject fails the whole transaction, which changes nothing.
\<close>


section \<open>Tables\<close>

datatype hosted_state = HsReserved | HsTransmitted | HsResponseStarted | HsPending | HsSettled | HsReleased

record hosted_row =
  ho_ID :: string
  ho_RequestID :: string
  ho_TenantID :: string
  ho_ProductID :: string
  ho_EntitlementID :: string
  ho_OperatorTenantID :: string
  ho_ServingPlanID :: string
  ho_SupplyPlanID :: string
  ho_CandidateID :: string
  ho_OfferID :: string
  ho_OfferVersion :: int
  ho_Supplier :: string
  ho_SupplierModelID :: string
  ho_TargetBindingID :: string
  ho_TargetBindingDigest :: string
  ho_SupplierRateID :: string
  ho_SupplierRateVersion :: int
  ho_SupplierRateDigest :: string
  ho_RetailRateID :: string
  ho_RetailRateVersion :: int
  ho_RetailRateDigest :: string
  ho_InputMicrousdPerMillion :: int
  ho_OutputMicrousdPerMillion :: int
  ho_ReservedMicrousd :: int
  ho_ActualMicrousd :: "int option"
  ho_InputTokens :: "int option"
  ho_CachedInputTokens :: "int option"
  ho_OutputTokens :: "int option"
  ho_State :: hosted_state
  ho_Resolution :: string
  ho_TransmittedAt :: "gotime option"
  ho_ResponseStartedAt :: "gotime option"
  ho_CreatedAt :: gotime
  ho_UpdatedAt :: gotime
  ho_Attempts :: int
  ho_LastAttemptedAt :: "gotime option"

record hosted_ledger_row =
  hl_id :: string
  hl_tenant_id :: string
  hl_reservation_id :: string
  hl_amount :: int
  hl_description :: string
  hl_created_at :: gotime

record cogs_row =
  cg_reservation_id :: string
  cg_customer_tenant_id :: string
  cg_operator_tenant_id :: string
  cg_reconciliation :: reconciliation
  cg_created_at :: gotime

record hosted_db =
  hd_reservations :: "hosted_row list"
  hd_ledger :: "hosted_ledger_row list"
  hd_cogs :: "cogs_row list"
  hd_evidence :: "evidence list"

type_synonym 'a hosted = "'a wallet_db_scheme \<times> hosted_db"


section \<open>The catalog\<close>

record entitlement_row =
  er_operator_tenant_id :: string
  er_serving_plan_id :: string
  er_supply_plan_id :: string
  er_retail_rate_card_id :: string
  er_retail_rate_version :: int
  er_state :: string
  er_requests_per_minute :: "int option"
  er_tokens_per_minute :: "int option"
  er_monthly_spend_microusd :: "int option"
  er_max_request_microusd :: int
  er_valid_from :: gotime
  er_valid_until :: "gotime option"

record rate_card_row =
  rcr_contract_digest :: string
  rcr_input :: int
  rcr_cached_input :: "int option"
  rcr_output :: int
  rcr_valid_from :: gotime
  rcr_valid_until :: gotime

text \<open>The fields of a supplier offer the billing code reads.\<close>

record supplier_offer =
  of_ID :: string
  of_Version :: int
  of_Supplier :: string
  of_Adapter :: string
  of_SupplierModelID :: string
  of_TupleKey :: string
  of_Region :: string
  of_Currency :: string
  of_InputMicrousdPerMTok :: "int option"
  of_OutputMicrousdPerMTok :: "int option"
  of_CachedInputMicrousdPerMTok :: "int option"
  of_Provenance :: string
  of_CostValidFrom :: gotime
  of_CostValidUntil :: gotime

record catalog =
  ct_entitlement :: "string \<Rightarrow> string \<Rightarrow> string \<Rightarrow> entitlement_row option"
  ct_rate_card :: "string \<Rightarrow> string \<Rightarrow> int \<Rightarrow> rate_card_row option"
  ct_candidate :: "string \<Rightarrow> string \<Rightarrow> string \<Rightarrow> string \<Rightarrow> int \<Rightarrow> (string \<times> string \<times> int) option"
  ct_offer :: "string \<Rightarrow> string \<Rightarrow> int \<Rightarrow> store_error + supplier_offer"
  ct_binding_count :: "reservation_request \<Rightarrow> supplier_offer \<Rightarrow> gotime \<Rightarrow> nat"
  ct_digest_rate :: "supplier_rate_draft \<Rightarrow> string + string"
  ct_digest_result :: "reconciliation \<Rightarrow> string + string"

definition supplierRateForOffer :: "(supplier_rate_draft \<Rightarrow> string + string) \<Rightarrow> supplier_offer \<Rightarrow> string + supplier_rate" where
  "supplierRateForOffer digest_rate offer =
     (case (of_InputMicrousdPerMTok offer, of_OutputMicrousdPerMTok offer) of
        (Some inp, Some out) \<Rightarrow>
          NewSupplierRate digest_rate
            \<lparr>rd_ID = of_ID offer @ ''/supplier-cost'', rd_Version = of_Version offer, rd_OfferID = of_ID offer,
             rd_OfferVersion = of_Version offer, rd_TupleKey = of_TupleKey offer, rd_Supplier = of_Supplier offer,
             rd_SupplierModelID = of_SupplierModelID offer, rd_Currency = of_Currency offer,
             rd_InputMicrousdPerMillion = inp, rd_OutputMicrousdPerMillion = out,
             rd_HasCachedInputRate = (of_CachedInputMicrousdPerMTok offer \<noteq> None),
             rd_CachedInputMicrousdPerMillion = (case of_CachedInputMicrousdPerMTok offer of None \<Rightarrow> 0 | Some c \<Rightarrow> c),
             rd_Provenance = of_Provenance offer, rd_ValidFrom = of_CostValidFrom offer,
             rd_ValidUntil = of_CostValidUntil offer\<rparr>
      | _ \<Rightarrow> Inl ''supplier offer has no complete cost rate'')"

definition requiresModelAPITargetBinding :: "string \<Rightarrow> bool" where
  "requiresModelAPITargetBinding adapter =
     (adapter = ''runpod-vllm-openai'' \<or> adapter = ''runpod-sglang-openai-lb'' \<or> adapter = ''zai-openai'')"


section \<open>Statements\<close>

definition hosted_key :: "string \<Rightarrow> string \<Rightarrow> hosted_row \<Rightarrow> bool" where
  "hosted_key tenant rid r = (ho_TenantID r = tenant \<and> ho_ID r = rid)"

definition modelAPIReservationMaybe :: "hosted_db \<Rightarrow> string \<Rightarrow> string \<Rightarrow> hosted_row option" where
  "modelAPIReservationMaybe h tenant rid = find (hosted_key tenant rid) (hd_reservations h)"

definition modelAPIReservationForUpdate :: "hosted_db \<Rightarrow> string \<Rightarrow> string \<Rightarrow> store_error + hosted_row" where
  "modelAPIReservationForUpdate h tenant rid =
     (case modelAPIReservationMaybe h tenant rid of None \<Rightarrow> Inl ErrNotFound | Some r \<Rightarrow> Inr r)"

text \<open>The \<open>CHECK\<close> constraints on a reservation.\<close>

definition hosted_check :: "hosted_row \<Rightarrow> bool" where
  "hosted_check r =
     (0 < ho_ReservedMicrousd r \<and> (case ho_ActualMicrousd r of None \<Rightarrow> True | Some a \<Rightarrow> 0 \<le> a) \<and>
      (case ho_InputTokens r of None \<Rightarrow> True | Some n \<Rightarrow> 0 \<le> n) \<and>
      (case ho_CachedInputTokens r of None \<Rightarrow> True | Some n \<Rightarrow> 0 \<le> n) \<and>
      (case ho_OutputTokens r of None \<Rightarrow> True | Some n \<Rightarrow> 0 \<le> n) \<and>
      ho_TenantID r \<noteq> ho_OperatorTenantID r \<and> ho_CreatedAt r \<le> ho_UpdatedAt r \<and>
      (case ho_TransmittedAt r of None \<Rightarrow> True | Some t \<Rightarrow> ho_CreatedAt r \<le> t) \<and>
      (case ho_ResponseStartedAt r of None \<Rightarrow> True
       | Some s \<Rightarrow> (case ho_TransmittedAt r of None \<Rightarrow> False | Some t \<Rightarrow> t \<le> s)))"

definition set_hosted :: "string \<Rightarrow> string \<Rightarrow> (hosted_row \<Rightarrow> hosted_row) \<Rightarrow> hosted_db \<Rightarrow> store_error + hosted_db" where
  "set_hosted tenant rid f h =
     (let rows = upd_where (hosted_key tenant rid) f (hd_reservations h) in
      if list_all (\<lambda>r. \<not> hosted_key tenant rid r \<or> hosted_check (f r)) (hd_reservations h)
      then Inr (h\<lparr>hd_reservations := rows\<rparr>) else Inl check_error)"

definition insert_hosted :: "hosted_row \<Rightarrow> hosted_db \<Rightarrow> store_error + hosted_db" where
  "insert_hosted r h =
     (if \<exists>x \<in> set (hd_reservations h). ho_ID x = ho_ID r then Inl (ErrOther ''violates unique constraint'')
      else if \<not> hosted_check r then Inl check_error
      else Inr (h\<lparr>hd_reservations := hd_reservations h @ [r]\<rparr>))"

text \<open>\<open>ON CONFLICT(customer_tenant_id,reservation_id,kind) DO NOTHING\<close>; the primary key still fails.\<close>

definition insert_hosted_ledger :: "hosted_ledger_row \<Rightarrow> hosted_db \<Rightarrow> store_error + hosted_db" where
  "insert_hosted_ledger l h =
     (if \<exists>x \<in> set (hd_ledger h). hl_tenant_id x = hl_tenant_id l \<and> hl_reservation_id x = hl_reservation_id l
      then Inr h
      else if \<exists>x \<in> set (hd_ledger h). hl_id x = hl_id l then Inl (ErrOther ''violates unique constraint'')
      else if hl_amount l > 0 then Inl check_error
      else Inr (h\<lparr>hd_ledger := hd_ledger h @ [l]\<rparr>))"

definition insert_cogs :: "cogs_row \<Rightarrow> hosted_db \<Rightarrow> hosted_db" where
  "insert_cogs c h =
     (if \<exists>x \<in> set (hd_cogs h). cg_reservation_id x = cg_reservation_id c then h
      else h\<lparr>hd_cogs := hd_cogs h @ [c]\<rparr>)"

definition modelAPIUsageMutationTime :: "hosted_row \<Rightarrow> gotime \<Rightarrow> gotime" where
  "modelAPIUsageMutationTime row now = (if ho_UpdatedAt row > now then ho_UpdatedAt row else now)"


section \<open>Reserving\<close>

definition ErrInsufficientPrepaidBalance :: store_error where
  "ErrInsufficientPrepaidBalance = ErrOther ''prepaid Model API balance is insufficient''"

definition same_reservation :: "hosted_row \<Rightarrow> reservation_request \<Rightarrow> bool" where
  "same_reservation existing request =
     (\<not> (ho_RequestID existing \<noteq> rq_RequestID request \<or> ho_ProductID existing \<noteq> rq_ProductID request \<or>
         ho_EntitlementID existing \<noteq> rq_EntitlementID request \<or>
         ho_RetailRateDigest existing \<noteq> rr_ContractDigest (rq_RetailRate request) \<or>
         ho_SupplyPlanID existing \<noteq> rq_SupplyPlanID request \<or> ho_CandidateID existing \<noteq> rq_CandidateID request \<or>
         ho_OfferID existing \<noteq> rq_OfferID request \<or> ho_OfferVersion existing \<noteq> rq_OfferVersion request \<or>
         ho_Supplier existing \<noteq> rq_Supplier request \<or> ho_SupplierModelID existing \<noteq> rq_SupplierModelID request \<or>
         ho_TargetBindingID existing \<noteq> rq_TargetBindingID request \<or>
         ho_TargetBindingDigest existing \<noteq> rq_TargetBindingDigest request))"

definition entitlement_matches :: "entitlement_row \<Rightarrow> reservation_request \<Rightarrow> bool" where
  "entitlement_matches e request =
     (let now = rq_CreatedAt request;
          active = (er_state e = ''active'' \<and> \<not> now < er_valid_from e \<and>
             (case er_valid_until e of None \<Rightarrow> True | Some until \<Rightarrow> now < until)) in
      \<not> (\<not> active \<or> er_requests_per_minute e \<noteq> None \<or> er_tokens_per_minute e \<noteq> None \<or>
         er_monthly_spend_microusd e \<noteq> None \<or> rr_CachedInputMicrousdPerMillion (rq_RetailRate request) \<noteq> None \<or>
         er_operator_tenant_id e \<noteq> rq_OperatorTenantID request \<or> er_serving_plan_id e \<noteq> rq_ServingPlanID request \<or>
         er_supply_plan_id e \<noteq> rq_SupplyPlanID request \<or>
         er_retail_rate_card_id e \<noteq> rr_ID (rq_RetailRate request) \<or>
         er_retail_rate_version e \<noteq> rr_Version (rq_RetailRate request) \<or>
         er_max_request_microusd e \<noteq> rq_MaxRequestMicrousd request))"

definition rate_card_matches :: "rate_card_row \<Rightarrow> reservation_request \<Rightarrow> bool" where
  "rate_card_matches c request =
     (let now = rq_CreatedAt request; rate = rq_RetailRate request in
      \<not> (rcr_cached_input c \<noteq> None \<or> rcr_contract_digest c \<noteq> rr_ContractDigest rate \<or>
         rcr_input c \<noteq> rr_InputMicrousdPerMillion rate \<or> rcr_output c \<noteq> rr_OutputMicrousdPerMillion rate \<or>
         now < rcr_valid_from c \<or> \<not> now < rcr_valid_until c))"

text \<open>The checks of the immutable route and supplier contract; the supplier rate is pinned by them.\<close>

definition reservation_contract :: "catalog \<Rightarrow> reservation_request \<Rightarrow> store_error + supplier_rate" where
  "reservation_contract cat request =
     (case ct_entitlement cat (rq_EntitlementID request) (rq_TenantID request) (rq_ProductID request) of
        None \<Rightarrow> Inl ErrNotFound
      | Some e \<Rightarrow>
        if \<not> entitlement_matches e request
          then Inl (ErrConflict ''hosted entitlement changed before billing authorization'')
        else case ct_rate_card cat (rq_ProductID request) (er_retail_rate_card_id e) (er_retail_rate_version e) of
          None \<Rightarrow> Inl ErrNotFound
        | Some stored \<Rightarrow>
          if \<not> rate_card_matches stored request
            then Inl (ErrConflict ''immutable retail rate changed or expired before billing authorization'')
          else case ct_candidate cat (er_supply_plan_id e) (rq_ProductID request) (rq_CandidateID request)
              (rq_OfferID request) (rq_OfferVersion request) of
            None \<Rightarrow> Inl ErrNotFound
          | Some (supplier, supplierModel, offerVersion) \<Rightarrow>
            if supplier \<noteq> rq_Supplier request \<or> supplierModel \<noteq> rq_SupplierModelID request \<or>
               offerVersion \<noteq> rq_OfferVersion request
              then Inl (ErrConflict ''hosted supplier candidate changed before billing authorization'')
            else bind_err (ct_offer cat (rq_OperatorTenantID request) (rq_OfferID request) (rq_OfferVersion request))
              (\<lambda>offer.
                case supplierRateForOffer (ct_digest_rate cat) offer of
                  Inl _ \<Rightarrow> Inl (ErrConflict ''supplier cost rate is incomplete or expired before billing authorization'')
                | Inr supplierRate \<Rightarrow>
                  if rq_CreatedAt request < rd_ValidFrom (sr_Draft supplierRate) \<or>
                     \<not> rq_CreatedAt request < rd_ValidUntil (sr_Draft supplierRate)
                    then Inl (ErrConflict ''supplier cost rate is incomplete or expired before billing authorization'')
                  else if rq_TargetBindingID request \<noteq> '''' then
                    (if ct_binding_count cat request offer (rq_CreatedAt request) \<noteq> 1
                     then Inl (ErrConflict ''immutable target binding changed before billing authorization'')
                     else Inr supplierRate)
                  else if requiresModelAPITargetBinding (of_Adapter offer)
                    then Inl (ErrConflict ''hosted usage requires an immutable target binding'')
                  else Inr supplierRate))"

definition new_hosted_row :: "reservation_request \<Rightarrow> supplier_rate \<Rightarrow> hosted_row" where
  "new_hosted_row request rate =
     \<lparr>ho_ID = rq_ID request, ho_RequestID = rq_RequestID request, ho_TenantID = rq_TenantID request,
      ho_ProductID = rq_ProductID request, ho_EntitlementID = rq_EntitlementID request,
      ho_OperatorTenantID = rq_OperatorTenantID request, ho_ServingPlanID = rq_ServingPlanID request,
      ho_SupplyPlanID = rq_SupplyPlanID request, ho_CandidateID = rq_CandidateID request,
      ho_OfferID = rq_OfferID request, ho_OfferVersion = rq_OfferVersion request,
      ho_Supplier = rq_Supplier request, ho_SupplierModelID = rq_SupplierModelID request,
      ho_TargetBindingID = rq_TargetBindingID request, ho_TargetBindingDigest = rq_TargetBindingDigest request,
      ho_SupplierRateID = rd_ID (sr_Draft rate), ho_SupplierRateVersion = rd_Version (sr_Draft rate),
      ho_SupplierRateDigest = sr_Digest rate, ho_RetailRateID = rr_ID (rq_RetailRate request),
      ho_RetailRateVersion = rr_Version (rq_RetailRate request),
      ho_RetailRateDigest = rr_ContractDigest (rq_RetailRate request),
      ho_InputMicrousdPerMillion = rr_InputMicrousdPerMillion (rq_RetailRate request),
      ho_OutputMicrousdPerMillion = rr_OutputMicrousdPerMillion (rq_RetailRate request),
      ho_ReservedMicrousd = rq_MaxRequestMicrousd request, ho_ActualMicrousd = None, ho_InputTokens = None,
      ho_CachedInputTokens = None, ho_OutputTokens = None, ho_State = HsReserved, ho_Resolution = '''',
      ho_TransmittedAt = None, ho_ResponseStartedAt = None, ho_CreatedAt = rq_CreatedAt request,
      ho_UpdatedAt = rq_CreatedAt request, ho_Attempts = 0, ho_LastAttemptedAt = None\<rparr>"

definition reserve_funds ::
  "'a hosted \<Rightarrow> reservation_request \<Rightarrow> supplier_rate \<Rightarrow> store_error + (hosted_row \<times> 'a hosted)" where
  "reserve_funds st request rate =
     (case st of (db, h) \<Rightarrow>
      case wd_wallets db (rq_TenantID request) of
        None \<Rightarrow> Inl ErrInsufficientPrepaidBalance
      | Some w \<Rightarrow>
        if i64 (i64 (wl_balance w - wl_reserved w) - wl_debt w) < rq_MaxRequestMicrousd request
          then Inl ErrInsufficientPrepaidBalance
        else bind_err (insert_hosted (new_hosted_row request rate) h) (\<lambda>h'.
          bind_err (update_wallet (rq_TenantID request)
              (\<lambda>w. w\<lparr>wl_reserved := wl_reserved w + rq_MaxRequestMicrousd request,
                 wl_updated_at := rq_CreatedAt request\<rparr>) db) (\<lambda>db'.
            Inr (new_hosted_row request rate, (db', h')))))"

definition ReserveModelAPIUsage ::
  "catalog \<Rightarrow> 'a hosted \<Rightarrow> reservation_request \<Rightarrow> (store_error + hosted_row) \<times> 'a hosted" where
  "ReserveModelAPIUsage cat st request =
     (case ReservationRequest_Validate request of
        Some err \<Rightarrow> (Inl (ErrOther err), st)
      | None \<Rightarrow> commit_tx st
          (case modelAPIReservationMaybe (snd st) (rq_TenantID request) (rq_ID request) of
             Some existing \<Rightarrow>
               if \<not> same_reservation existing request
                 then Inl (ErrConflict ''hosted reservation identity belongs to a different contract'')
               else Inr (existing, st)
           | None \<Rightarrow> bind_err (reservation_contract cat request) (reserve_funds st request)))"


section \<open>Transmission\<close>

definition mark_transmitted :: "gotime \<Rightarrow> hosted_row \<Rightarrow> hosted_row" where
  "mark_transmitted now r = r\<lparr>ho_State := HsTransmitted, ho_TransmittedAt := Some now, ho_UpdatedAt := now\<rparr>"

definition mark_response_started :: "gotime \<Rightarrow> hosted_row \<Rightarrow> hosted_row" where
  "mark_response_started now r =
     r\<lparr>ho_State := HsResponseStarted, ho_ResponseStartedAt := Some now, ho_UpdatedAt := now\<rparr>"

text \<open>\<open>target\<close> is the state to advance to; the two callers pass the two valid ones.\<close>

definition advanceModelAPIUsage ::
  "'a hosted \<Rightarrow> string \<Rightarrow> string \<Rightarrow> string \<Rightarrow> gotime \<Rightarrow> (store_error + unit) \<times> 'a hosted" where
  "advanceModelAPIUsage st tenant rid target now =
     (if tenant = '''' \<or> rid = '''' \<or> is_zero_time now \<or> (target \<noteq> ''transmitted'' \<and> target \<noteq> ''response_started'')
        then (Inl (ErrOther ''tenant, reservation, valid state, and timestamp are required''), st)
      else commit_tx st
        (bind_err (modelAPIReservationForUpdate (snd st) tenant rid) (\<lambda>row.
          if target = ''transmitted'' then
            (if ho_State row \<in> {HsTransmitted, HsResponseStarted, HsPending, HsSettled} then Inr ((), st)
             else if ho_State row \<noteq> HsReserved
               then Inl (ErrConflict ''only an unsent reservation can be marked transmitted'')
             else bind_err (set_hosted tenant rid (mark_transmitted now) (snd st)) (\<lambda>h. Inr ((), (fst st, h))))
          else
            (if ho_State row \<in> {HsResponseStarted, HsPending, HsSettled} then Inr ((), st)
             else if ho_State row \<noteq> HsTransmitted
               then Inl (ErrConflict ''response start requires a transmitted reservation'')
             else bind_err (set_hosted tenant rid (mark_response_started now) (snd st))
               (\<lambda>h. Inr ((), (fst st, h)))))))"

definition MarkModelAPIUsageTransmitted ::
  "'a hosted \<Rightarrow> string \<Rightarrow> string \<Rightarrow> gotime \<Rightarrow> (store_error + unit) \<times> 'a hosted" where
  "MarkModelAPIUsageTransmitted st tenant rid now = advanceModelAPIUsage st tenant rid ''transmitted'' now"

definition MarkModelAPIUsageResponseStarted ::
  "'a hosted \<Rightarrow> string \<Rightarrow> string \<Rightarrow> gotime \<Rightarrow> (store_error + unit) \<times> 'a hosted" where
  "MarkModelAPIUsageResponseStarted st tenant rid now = advanceModelAPIUsage st tenant rid ''response_started'' now"

section \<open>Settlement\<close>

definition hosted_pending :: "gotime \<Rightarrow> hosted_row \<Rightarrow> hosted_row" where
  "hosted_pending stamp r =
     r\<lparr>ho_State := HsPending, ho_Resolution := ''supplier usage absent; reservation retained'', ho_UpdatedAt := stamp\<rparr>"

definition hosted_settled :: "int \<Rightarrow> int \<Rightarrow> int option \<Rightarrow> int \<Rightarrow> string \<Rightarrow> gotime \<Rightarrow> hosted_row \<Rightarrow> hosted_row" where
  "hosted_settled actual it cached ot resolution stamp r =
     r\<lparr>ho_ActualMicrousd := Some actual, ho_InputTokens := Some it, ho_CachedInputTokens := cached,
       ho_OutputTokens := Some ot, ho_State := HsSettled, ho_Resolution := resolution, ho_UpdatedAt := stamp\<rparr>"

definition hosted_charge :: "int \<Rightarrow> int \<Rightarrow> int \<times> string" where
  "hosted_charge actual reserved =
     (if actual > reserved
      then (reserved, ''observed cost exceeded request ceiling; charged reservation ceiling'')
      else (actual, ''observed token usage at reserved retail rate''))"

text \<open>
  The usage to reconcile against the pinned supplier rate; a reservation from before the pin takes
  the rate of its immutable offer revision.
\<close>

definition settled_usage_of ::
  "hosted_row \<Rightarrow> supplier_offer \<Rightarrow> supplier_rate \<Rightarrow> int \<Rightarrow> int option \<Rightarrow> int \<Rightarrow> int \<Rightarrow> gotime \<Rightarrow> settled_usage" where
  "settled_usage_of row offer rate it cached ot actual stamp =
     (let unpinned = (ho_SupplierRateID row = '''' \<and> ho_SupplierRateVersion row = 0 \<and> ho_SupplierRateDigest row = '''') in
      \<lparr>su_ReservationID = ho_ID row, su_State = ''settled'', su_OfferID = ho_OfferID row,
       su_OfferVersion = ho_OfferVersion row, su_TupleKey = of_TupleKey offer, su_Supplier = ho_Supplier row,
       su_SupplierModelID = ho_SupplierModelID row,
       su_SupplierRateID = (if unpinned then rd_ID (sr_Draft rate) else ho_SupplierRateID row),
       su_SupplierRateVersion = (if unpinned then rd_Version (sr_Draft rate) else ho_SupplierRateVersion row),
       su_SupplierRateDigest = (if unpinned then sr_Digest rate else ho_SupplierRateDigest row),
       su_Currency = ''USD'', su_InputTokens = it,
       su_CachedInputTokens = (case cached of None \<Rightarrow> 0
         | Some c \<Rightarrow> if rd_HasCachedInputRate (sr_Draft rate) then c else 0),
       su_OutputTokens = ot, su_RetailMicrousd = actual, su_ReservedAt = ho_CreatedAt row, su_SettledAt = stamp\<rparr>)"

text \<open>The statements of a settlement, in the order of the code.\<close>

definition book_settlement ::
  "'a hosted \<Rightarrow> string \<Rightarrow> hosted_row \<Rightarrow> int \<Rightarrow> int option \<Rightarrow> int \<Rightarrow> int \<Rightarrow> string \<Rightarrow> reconciliation \<Rightarrow> gotime \<Rightarrow>
   store_error + (hosted_row \<times> 'a hosted)" where
  "book_settlement st tenant row it cached ot actual resolution cogs stamp =
     bind_err (update_wallet tenant
         (\<lambda>w. w\<lparr>wl_balance := wl_balance w - actual, wl_reserved := wl_reserved w - ho_ReservedMicrousd row,
            wl_updated_at := stamp\<rparr>) (fst st)) (\<lambda>db1.
     bind_err (insert_hosted_ledger \<lparr>hl_id = ''settlement_'' @ ho_ID row, hl_tenant_id = tenant,
         hl_reservation_id = ho_ID row, hl_amount = - actual, hl_description = resolution, hl_created_at = stamp\<rparr>
         (snd st)) (\<lambda>h1.
     bind_err (set_hosted tenant (ho_ID row) (hosted_settled actual it cached ot resolution stamp) h1) (\<lambda>h2.
     bind_err (reconcileManagedDebtTx tenant stamp db1) (\<lambda>db2.
     Inr (hosted_settled actual it cached ot resolution stamp row,
       (db2, insert_cogs \<lparr>cg_reservation_id = ho_ID row, cg_customer_tenant_id = tenant,
          cg_operator_tenant_id = ho_OperatorTenantID row, cg_reconciliation = cogs, cg_created_at = stamp\<rparr> h2))))))"

definition settle_transmitted ::
  "catalog \<Rightarrow> gotime \<Rightarrow> 'a hosted \<Rightarrow> string \<Rightarrow> routing_usage \<Rightarrow> hosted_row \<Rightarrow> store_error + (hosted_row \<times> 'a hosted)" where
  "settle_transmitted cat stamp st tenant usage row =
     (case (ru_InputTokens usage, ru_OutputTokens usage) of
        (Some it, Some ot) \<Rightarrow>
          if (case ru_CachedInputTokens usage of None \<Rightarrow> False | Some c \<Rightarrow> c < 0 \<or> c > it)
            then Inl (ErrOther ''cached input usage must be non-negative and no greater than input usage'')
          else (case TokenCostMicrousd it ot (ho_InputMicrousdPerMillion row) (ho_OutputMicrousdPerMillion row) of
              Inl err \<Rightarrow> Inl (ErrOther err)
            | Inr cost \<Rightarrow>
              (case hosted_charge cost (ho_ReservedMicrousd row) of (actual, resolution) \<Rightarrow>
                bind_err (ct_offer cat (ho_OperatorTenantID row) (ho_OfferID row) (ho_OfferVersion row)) (\<lambda>offer.
                case supplierRateForOffer (ct_digest_rate cat) offer of
                  Inl err \<Rightarrow> Inl (ErrOther err)
                | Inr rate \<Rightarrow>
                  (case Reconcile (ct_digest_rate cat) (ct_digest_result cat)
                      (settled_usage_of row offer rate it (ru_CachedInputTokens usage) ot actual stamp) rate of
                     Inl err \<Rightarrow> Inl (ErrOther (''reconcile supplier COGS: '' @ err))
                   | Inr cogs \<Rightarrow> book_settlement st tenant row it (ru_CachedInputTokens usage) ot actual resolution cogs stamp))))
      | _ \<Rightarrow> bind_err (set_hosted tenant (ho_ID row) (hosted_pending stamp) (snd st))
               (\<lambda>h. Inr (hosted_pending stamp row, (fst st, h))))"

definition SettleModelAPIUsage ::
  "catalog \<Rightarrow> gotime \<Rightarrow> 'a hosted \<Rightarrow> string \<Rightarrow> string \<Rightarrow> routing_usage \<Rightarrow> (store_error + hosted_row) \<times> 'a hosted" where
  "SettleModelAPIUsage cat now st tenant rid usage =
     commit_tx st
       (bind_err (modelAPIReservationForUpdate (snd st) tenant rid) (\<lambda>row.
          if ho_State row = HsSettled \<or> ho_State row = HsReleased then Inr (row, st)
          else if ho_State row = HsReserved then Inl (ErrConflict ''unsent hosted usage cannot be settled'')
          else settle_transmitted cat (modelAPIUsageMutationTime row now) st tenant usage row))"


section \<open>Release\<close>

definition hosted_released :: "string \<Rightarrow> gotime \<Rightarrow> hosted_row \<Rightarrow> hosted_row" where
  "hosted_released reason stamp r = r\<lparr>ho_State := HsReleased, ho_Resolution := reason, ho_UpdatedAt := stamp\<rparr>"

definition free_reservation ::
  "'a hosted \<Rightarrow> string \<Rightarrow> hosted_row \<Rightarrow> string \<Rightarrow> gotime \<Rightarrow> store_error + (unit \<times> 'a hosted)" where
  "free_reservation st tenant row reason stamp =
     bind_err (update_wallet tenant
         (\<lambda>w. w\<lparr>wl_reserved := wl_reserved w - ho_ReservedMicrousd row, wl_updated_at := stamp\<rparr>) (fst st)) (\<lambda>db1.
     bind_err (set_hosted tenant (ho_ID row) (hosted_released reason stamp) (snd st)) (\<lambda>h1.
     bind_err (reconcileManagedDebtTx tenant stamp db1) (\<lambda>db2. Inr ((), (db2, h1)))))"

definition ReleaseUnsentModelAPIUsage ::
  "gotime \<Rightarrow> 'a hosted \<Rightarrow> string \<Rightarrow> string \<Rightarrow> string \<Rightarrow> (store_error + unit) \<times> 'a hosted" where
  "ReleaseUnsentModelAPIUsage now st tenant rid reason =
     (if tenant = '''' \<or> rid = '''' \<or> reason = ''''
        then (Inl (ErrOther ''tenant, reservation, and reason are required''), st)
      else commit_tx st
        (bind_err (modelAPIReservationForUpdate (snd st) tenant rid) (\<lambda>row.
           if ho_State row = HsReleased then Inr ((), st)
           else if ho_State row \<noteq> HsReserved \<or> ho_TransmittedAt row \<noteq> None
             then Inl (ErrConflict ''transmitted or response-started usage must be reconciled, not released'')
           else free_reservation st tenant row reason (modelAPIUsageMutationTime row now))))"

definition ConfirmNoChargeModelAPIUsage ::
  "gotime \<Rightarrow> 'a hosted \<Rightarrow> string \<Rightarrow> string \<Rightarrow> string \<Rightarrow> (store_error + unit) \<times> 'a hosted" where
  "ConfirmNoChargeModelAPIUsage now st tenant rid proof_text =
     (if tenant = '''' \<or> rid = '''' \<or> proof_text = ''''
        then (Inl (ErrOther ''tenant, reservation, and no-charge evidence are required''), st)
      else commit_tx st
        (bind_err (modelAPIReservationForUpdate (snd st) tenant rid) (\<lambda>row.
           if ho_State row = HsReleased then Inr ((), st)
           else if ho_State row \<noteq> HsPending \<and> ho_State row \<noteq> HsTransmitted \<and> ho_State row \<noteq> HsResponseStarted
             then Inl (ErrConflict ''only ambiguous hosted usage can be confirmed uncharged'')
           else free_reservation st tenant row (''supplier confirmed no charge: '' @ proof_text)
                  (modelAPIUsageMutationTime row now))))"


section \<open>Reconciliation\<close>

definition ambiguous :: "hosted_state \<Rightarrow> bool" where
  "ambiguous s = (s = HsTransmitted \<or> s = HsResponseStarted \<or> s = HsPending)"

definition reservation_limit :: "int \<Rightarrow> nat" where
  "reservation_limit limit = nat (if limit < 1 \<or> limit > 500 then 100 else limit)"

text \<open>
  \<open>ORDER BY\<close> with several keys is a stable sort per key, the last key first; texts are compared bytewise
  (the database may use another collation).
\<close>

definition unix_epoch :: gotime where
  "unix_epoch = 62135596800 * Second"

definition PendingModelAPIUsageReservations :: "hosted_db \<Rightarrow> int \<Rightarrow> hosted_row list" where
  "PendingModelAPIUsageReservations h limit =
     take (reservation_limit limit)
       (sort_key ho_UpdatedAt (sort_key ho_ID (filter (\<lambda>r. ho_State r = HsPending) (hd_reservations h))))"

definition reconcile_order :: "hosted_db \<Rightarrow> hosted_row \<Rightarrow> int \<times> int \<times> int" where
  "reconcile_order h r =
     ((if \<exists>e \<in> set (hd_evidence h). ed_ReservationID e = ho_ID r then 0 else 1),
      (case ho_LastAttemptedAt r of None \<Rightarrow> unix_epoch | Some t \<Rightarrow> t), ho_UpdatedAt r)"

definition ReconcileableModelAPIUsageReservations ::
  "hosted_db \<Rightarrow> gotime \<Rightarrow> int \<Rightarrow> store_error + hosted_row list" where
  "ReconcileableModelAPIUsageReservations h staleBefore limit =
     (if is_zero_time staleBefore then Inl (ErrOther ''stale in-flight cutoff is required'')
      else Inr (take (reservation_limit limit)
        (sort_key (fst \<circ> reconcile_order h) (sort_key (fst \<circ> snd \<circ> reconcile_order h)
          (sort_key (snd \<circ> snd \<circ> reconcile_order h)
            (sort_key ho_ID (filter (\<lambda>r. ho_State r = HsPending \<or>
               ((ho_State r = HsTransmitted \<or> ho_State r = HsResponseStarted) \<and> ho_UpdatedAt r \<le> staleBefore))
              (hd_reservations h))))))))"

definition RecordModelAPIUsageReconciliationAttempt ::
  "'a hosted \<Rightarrow> string \<Rightarrow> string \<Rightarrow> gotime \<Rightarrow> (store_error + unit) \<times> 'a hosted" where
  "RecordModelAPIUsageReconciliationAttempt st tenant rid now =
     (if tenant = '''' \<or> rid = '''' \<or> is_zero_time now
        then (Inl (ErrOther ''tenant, reservation, and attempt time are required''), st)
      else (Inr (), (fst st, (snd st)\<lparr>hd_reservations :=
        upd_where (\<lambda>r. hosted_key tenant rid r \<and> ambiguous (ho_State r))
          (\<lambda>r. r\<lparr>ho_Attempts := ho_Attempts r + 1, ho_LastAttemptedAt := Some now\<rparr>) (hd_reservations (snd st))\<rparr>)))"

definition ModelAPIUsageReconciliationBacklog :: "hosted_db \<Rightarrow> nat \<times> gotime option" where
  "ModelAPIUsageReconciliationBacklog h =
     (let pending = map ho_UpdatedAt (filter (\<lambda>r. ho_State r = HsPending) (hd_reservations h))
      in (length pending, if pending = [] then None else Some (Min (set pending))))"

definition sameModelAPIUsageReconciliationEvidence :: "evidence \<Rightarrow> evidence \<Rightarrow> bool" where
  "sameModelAPIUsageReconciliationEvidence left right =
     (ed_ReservationID left = ed_ReservationID right \<and> ed_TenantID left = ed_TenantID right \<and>
      ed_SupplierRequestID left = ed_SupplierRequestID right \<and> ed_Outcome left = ed_Outcome right \<and>
      ed_Authority left = ed_Authority right \<and> ed_Reference left = ed_Reference right \<and>
      ed_RecordedBy left = ed_RecordedBy right \<and> ed_ObservedAt left = ed_ObservedAt right \<and>
      ed_InputTokens left = ed_InputTokens right \<and> ed_CachedInputTokens left = ed_CachedInputTokens right \<and>
      ed_OutputTokens left = ed_OutputTokens right)"

definition trim_evidence :: "evidence \<Rightarrow> evidence" where
  "trim_evidence e =
     e\<lparr>ed_ReservationID := TrimSpace (ed_ReservationID e), ed_TenantID := TrimSpace (ed_TenantID e),
       ed_SupplierRequestID := TrimSpace (ed_SupplierRequestID e), ed_Reference := TrimSpace (ed_Reference e),
       ed_RecordedBy := TrimSpace (ed_RecordedBy e)\<rparr>"

definition evidence_error :: "evidence \<Rightarrow> string option" where
  "evidence_error e =
     (if ed_ReservationID e = '''' \<or> ed_TenantID e = '''' \<or> ed_Reference e = '''' \<or> ed_RecordedBy e = '''' \<or>
         is_zero_time (ed_ObservedAt e)
        then Some ''reservation, customer tenant, evidence reference, actor, and observation time are required''
      else if length (ed_SupplierRequestID e) > 256 \<or> length (ed_Reference e) > 512 \<or> length (ed_RecordedBy e) > 255
        then Some ''supplier request id or evidence reference exceeds its safe bound''
      else if ed_Authority e \<noteq> ''supplier_adapter'' \<and> ed_Authority e \<noteq> ''operator_verified''
        then Some ''unsupported reconciliation evidence authority''
      else if ed_Outcome e = ''usage'' then
        (case (ed_InputTokens e, ed_OutputTokens e) of
           (Some it, Some ot) \<Rightarrow>
             if it < 0 \<or> ot < 0 \<or> (case ed_CachedInputTokens e of None \<Rightarrow> False | Some c \<Rightarrow> c < 0 \<or> c > it)
             then Some ''usage evidence requires complete non-negative token counts'' else None
         | _ \<Rightarrow> Some ''usage evidence requires complete non-negative token counts'')
      else if ed_Outcome e = ''no_charge'' then
        (if ed_InputTokens e \<noteq> None \<or> ed_CachedInputTokens e \<noteq> None \<or> ed_OutputTokens e \<noteq> None
         then Some ''no-charge evidence cannot include token counts'' else None)
      else Some ''unsupported reconciliation evidence outcome'')"

definition recordModelAPIUsageReconciliationEvidence ::
  "gotime \<Rightarrow> 'a hosted \<Rightarrow> string \<Rightarrow> evidence \<Rightarrow> (store_error + (evidence \<times> bool)) \<times> 'a hosted" where
  "recordModelAPIUsageReconciliationEvidence now st operatorTenant raw =
     (let e = trim_evidence raw in
      case evidence_error e of
        Some err \<Rightarrow> (Inl (ErrOther err), st)
      | None \<Rightarrow> commit_tx st
          (bind_err (modelAPIReservationForUpdate (snd st) (ed_TenantID e) (ed_ReservationID e)) (\<lambda>row.
             if operatorTenant \<noteq> '''' \<and> ho_OperatorTenantID row \<noteq> operatorTenant then Inl ErrNotFound
             else case find (\<lambda>x. ed_TenantID x = ed_TenantID e \<and> ed_ReservationID x = ed_ReservationID e)
                 (hd_evidence (snd st)) of
               Some existing \<Rightarrow>
                 if \<not> sameModelAPIUsageReconciliationEvidence existing e
                   then Inl (ErrConflict ''reconciliation evidence already exists with different authority or values'')
                 else Inr ((existing, False), st)
             | None \<Rightarrow>
                 if \<not> ambiguous (ho_State row)
                   then Inl (ErrConflict ''only ambiguous transmitted usage accepts reconciliation evidence'')
                 else let recorded = e\<lparr>ed_Supplier := ho_Supplier row, ed_RecordedAt := now\<rparr>
                   in Inr ((recorded, True), (fst st, (snd st)\<lparr>hd_evidence := hd_evidence (snd st) @ [recorded]\<rparr>)))))"

definition RecordModelAPIUsageReconciliationEvidence ::
  "gotime \<Rightarrow> 'a hosted \<Rightarrow> evidence \<Rightarrow> (store_error + (evidence \<times> bool)) \<times> 'a hosted" where
  "RecordModelAPIUsageReconciliationEvidence now st e =
     recordModelAPIUsageReconciliationEvidence now st ''''
       (if ed_RecordedBy e = '''' then e\<lparr>ed_RecordedBy := ''supplier-adapter''\<rparr> else e)"

definition RecordOperatorModelAPIUsageReconciliationEvidence ::
  "gotime \<Rightarrow> 'a hosted \<Rightarrow> string \<Rightarrow> string \<Rightarrow> evidence \<Rightarrow> (store_error + (evidence \<times> bool)) \<times> 'a hosted" where
  "RecordOperatorModelAPIUsageReconciliationEvidence now st operatorTenant actor e =
     (let e' = e\<lparr>ed_RecordedBy := TrimSpace actor\<rparr> in
      if TrimSpace operatorTenant = '''' \<or> ed_RecordedBy e' = ''''
        then (Inl (ErrOther ''operator tenant and actor are required''), st)
      else recordModelAPIUsageReconciliationEvidence now st operatorTenant e')"

end
