(* ===== verification/Hosted_Accounts.thy ===== *)
theory Hosted_Accounts
  imports Hosted_Usage
begin

text \<open>
  The hosted Model API and the managed wallet operations on one set of wallets: the combined step
  relation of both stores, the accounts they keep between them, and what a hosted reservation can
  and cannot become along every interleaving.
\<close>


section \<open>What the hosted tables hold\<close>

definition hosted_open :: "hosted_row \<Rightarrow> bool" where
  "hosted_open r = (ho_State r \<noteq> HsSettled \<and> ho_State r \<noteq> HsReleased)"

definition hosted_held :: "string \<Rightarrow> hosted_row \<Rightarrow> int" where
  "hosted_held t r = (if ho_TenantID r = t \<and> hosted_open r then ho_ReservedMicrousd r else 0)"

definition hosted_outstanding :: "hosted_db \<Rightarrow> string \<Rightarrow> int" where
  "hosted_outstanding h t = sum_list (map (hosted_held t) (hd_reservations h))"

definition hosted_ledger_sum :: "hosted_db \<Rightarrow> string \<Rightarrow> int" where
  "hosted_ledger_sum h t = sum_list (map (\<lambda>l. if hl_tenant_id l = t then hl_amount l else 0) (hd_ledger h))"

text \<open>Identifiers are unique, a reservation not yet sent was never sent, and ledger entries charge settled rows.\<close>

definition hosted_table_ok :: "hosted_db \<Rightarrow> bool" where
  "hosted_table_ok h \<longleftrightarrow>
     distinct (map ho_ID (hd_reservations h)) \<and>
     (\<forall>r \<in> set (hd_reservations h). 0 < ho_ReservedMicrousd r \<and>
       (ho_State r = HsReserved \<longleftrightarrow> ho_TransmittedAt r = None \<and> ho_State r \<noteq> HsReleased)) \<and>
     (\<forall>l \<in> set (hd_ledger h). hl_id l = ''settlement_'' @ hl_reservation_id l \<and>
       (\<exists>r \<in> set (hd_reservations h). ho_ID r = hl_reservation_id l \<and> ho_TenantID r = hl_tenant_id l \<and>
          ho_State r = HsSettled \<and> ho_ActualMicrousd r = Some (- hl_amount l)))"

lemma hosted_rowD:
  assumes "hosted_table_ok h" "r \<in> set (hd_reservations h)"
  shows "0 < ho_ReservedMicrousd r" "ho_State r = HsReserved \<longleftrightarrow> ho_TransmittedAt r = None \<and> ho_State r \<noteq> HsReleased"
  using assms unfolding hosted_table_ok_def by (metis (no_types))+

lemma hosted_ledgerE:
  assumes "hosted_table_ok h" "l \<in> set (hd_ledger h)"
  obtains r where "hl_id l = ''settlement_'' @ hl_reservation_id l" "r \<in> set (hd_reservations h)"
    "ho_ID r = hl_reservation_id l" "ho_TenantID r = hl_tenant_id l" "ho_State r = HsSettled"
    "ho_ActualMicrousd r = Some (- hl_amount l)"
  using assms unfolding hosted_table_ok_def by (metis (no_types))

definition hosted_inv :: "(string \<Rightarrow> int) \<Rightarrow> (string \<Rightarrow> int) \<Rightarrow> 'a hosted \<Rightarrow> bool" where
  "hosted_inv other drift st \<longleftrightarrow>
     (\<forall>t. 0 \<le> other t) \<and> hosted_table_ok (snd st) \<and>
     wallet_inv (\<lambda>t. hosted_outstanding (snd st) t + other t)
       (\<lambda>t. hosted_ledger_sum (snd st) t + drift t) (fst st)"

lemma hosted_outstanding_nonneg: "hosted_table_ok h \<Longrightarrow> 0 \<le> hosted_outstanding h t"
  unfolding hosted_outstanding_def hosted_table_ok_def hosted_held_def by (intro sum_list_nonneg) fastforce

lemma hosted_key_unique:
  "hosted_table_ok h \<Longrightarrow> r \<in> set (hd_reservations h) \<Longrightarrow> hosted_key tenant rid r \<Longrightarrow>
   \<forall>x \<in> set (hd_reservations h). hosted_key tenant rid x \<longrightarrow> x = r"
  by (auto simp: hosted_table_ok_def hosted_key_def distinct_map inj_on_def)

lemma reservation_found:
  assumes "modelAPIReservationForUpdate h tenant rid = Inr r"
  shows "r \<in> set (hd_reservations h)" "hosted_key tenant rid r" "ho_ID r = rid" "ho_TenantID r = tenant"
  using assms
  by (auto simp: modelAPIReservationForUpdate_def modelAPIReservationMaybe_def hosted_key_def find_Some_iff
      split: option.splits)

lemma set_hosted_Inr:
  assumes "set_hosted tenant rid f h = Inr h'"
  shows "h' = h\<lparr>hd_reservations := upd_where (hosted_key tenant rid) f (hd_reservations h)\<rparr>"
  using assms by (auto simp: set_hosted_def Let_def split: if_splits)

lemma hosted_outstanding_update:
  assumes ok: "hosted_table_ok h" and r: "r \<in> set (hd_reservations h)" "hosted_key tenant rid r"
    and h': "hd_reservations h' = upd_where (hosted_key tenant rid) f (hd_reservations h)"
  shows "hosted_outstanding h' t = hosted_outstanding h t - hosted_held t r + hosted_held t (f r)"
proof -
  have "distinct (hd_reservations h)" using ok by (simp add: hosted_table_ok_def distinct_map)
  then show ?thesis
    unfolding hosted_outstanding_def h'
    using sum_upd_where_unique [OF r hosted_key_unique [OF ok r]] by blast
qed

text \<open>A row update that keeps the identity, the tenant and the amount.\<close>

definition keeps_identity :: "(hosted_row \<Rightarrow> hosted_row) \<Rightarrow> bool" where
  "keeps_identity f \<longleftrightarrow> (\<forall>r. ho_ID (f r) = ho_ID r \<and> ho_TenantID (f r) = ho_TenantID r \<and>
     ho_ReservedMicrousd (f r) = ho_ReservedMicrousd r)"

lemma hosted_table_update:
  assumes ok: "hosted_table_ok h" and r: "r \<in> set (hd_reservations h)" "hosted_key tenant rid r"
    and f: "keeps_identity f" and open_r: "hosted_open r"
    and sent: "ho_State (f r) = HsReserved \<longleftrightarrow> ho_TransmittedAt (f r) = None \<and> ho_State (f r) \<noteq> HsReleased"
    and h': "hd_reservations h' = upd_where (hosted_key tenant rid) f (hd_reservations h)"
    and ledger: "\<forall>l \<in> set (hd_ledger h'). l \<in> set (hd_ledger h) \<or>
      (hl_id l = ''settlement_'' @ hl_reservation_id l \<and> hl_reservation_id l = ho_ID r \<and>
       hl_tenant_id l = ho_TenantID r \<and> ho_State (f r) = HsSettled \<and> ho_ActualMicrousd (f r) = Some (- hl_amount l))"
  shows "hosted_table_ok h'"
proof -
  note uniq = hosted_key_unique [OF ok r]
  have ids: "map ho_ID (hd_reservations h') = map ho_ID (hd_reservations h)"
    unfolding h' using f by (simp add: map_upd_where keeps_identity_def)
  have rows: "set (hd_reservations h') = insert (f r) (set (hd_reservations h) - {r})"
    unfolding h' by (rule set_upd_unique [OF r uniq])
  have row: "0 < ho_ReservedMicrousd x \<and> (ho_State x = HsReserved \<longleftrightarrow> ho_TransmittedAt x = None \<and> ho_State x \<noteq> HsReleased)"
    if "x \<in> set (hd_reservations h')" for x
  proof (cases "x = f r")
    case True
    have "0 < ho_ReservedMicrousd r" using ok r(1) by (simp add: hosted_table_ok_def)
    with True f sent show ?thesis by (simp add: keeps_identity_def)
  next
    case False
    with that have "x \<in> set (hd_reservations h)" unfolding rows by blast
    with ok show ?thesis unfolding hosted_table_ok_def by blast
  qed
  have led: "hl_id l = ''settlement_'' @ hl_reservation_id l \<and>
      (\<exists>x \<in> set (hd_reservations h'). ho_ID x = hl_reservation_id l \<and> ho_TenantID x = hl_tenant_id l \<and>
        ho_State x = HsSettled \<and> ho_ActualMicrousd x = Some (- hl_amount l))" if l: "l \<in> set (hd_ledger h')" for l
  proof (cases "l \<in> set (hd_ledger h)")
    case True
    then obtain x where "x \<in> set (hd_reservations h)" "ho_ID x = hl_reservation_id l"
      "ho_TenantID x = hl_tenant_id l" "ho_State x = HsSettled" "ho_ActualMicrousd x = Some (- hl_amount l)"
      and "hl_id l = ''settlement_'' @ hl_reservation_id l"
      using ok unfolding hosted_table_ok_def by blast
    moreover have "x \<noteq> r" using open_r \<open>ho_State x = HsSettled\<close> by (auto simp: hosted_open_def)
    ultimately show ?thesis unfolding rows by blast
  next
    case False
    with ledger l f show ?thesis unfolding rows keeps_identity_def by auto
  qed
  have "distinct (map ho_ID (hd_reservations h'))" unfolding ids using ok by (simp add: hosted_table_ok_def)
  with row led show ?thesis unfolding hosted_table_ok_def by blast
qed

text \<open>A wallet update that moves what the other holders account for.\<close>

lemma wallet_inv_shift:
  assumes inv: "wallet_inv other drift db" and upd: "update_wallet tenant f db = Inr db'"
    and w: "wd_wallets db tenant = Some w"
    and nonneg: "\<forall>t. 0 \<le> other' t"
    and frame: "\<forall>t. t \<noteq> tenant \<longrightarrow> other' t = other t \<and> drift' t = drift t"
    and booked: "wl_balance (f w) - wl_debt (f w) = wl_balance w - wl_debt w + (drift' tenant - drift tenant)"
    and held: "wl_reserved (f w) = wl_reserved w + (other' tenant - other tenant)"
  shows "wallet_inv other' drift' db'"
proof -
  note fr = update_wallet_frame [OF upd]
  have w': "wd_wallets db' tenant = Some (f w)" "wallet_check (f w)" "is_i64 (wl_balance (f w))" "is_i64 (wl_debt (f w))"
    by (rule update_wallet_Inr [OF upd]; use w in auto)+
  have "account_ok (other' t) (drift' t) (wd_wallets db' t) (ledger_sum db' t) (outstanding db' t)" for t
  proof (cases "t = tenant")
    case True
    with wallet_invD(1) [OF inv, of tenant] w w' booked held show ?thesis
      by (auto simp: account_ok_def fr)
  next
    case False
    with wallet_invD(1) [OF inv, of t] frame fr(5) [OF False] show ?thesis by (simp add: fr)
  qed
  moreover have "usage_table_ok db'"
    using wallet_invD(2) [OF inv] by (rule usage_table_ok_cong) (simp_all add: fr)
  ultimately show ?thesis using nonneg by (simp add: wallet_inv_def)
qed

section \<open>Every hosted operation keeps the accounts\<close>

lemma hosted_invD:
  assumes "hosted_inv other drift (db, h)"
  shows "hosted_table_ok h" "0 \<le> other t"
    "wallet_inv (\<lambda>t. hosted_outstanding h t + other t) (\<lambda>t. hosted_ledger_sum h t + drift t) db"
  using assms by (simp_all add: hosted_inv_def)

lemma hosted_invI:
  assumes "\<forall>t. 0 \<le> other t" "hosted_table_ok h"
    "wallet_inv (\<lambda>t. hosted_outstanding h t + other t) (\<lambda>t. hosted_ledger_sum h t + drift t) db"
  shows "hosted_inv other drift (db, h)"
  using assms by (simp add: hosted_inv_def)

lemma held_le_outstanding:
  assumes "hosted_table_ok h" "r \<in> set (hd_reservations h)"
  shows "hosted_held t r \<le> hosted_outstanding h t"
proof -
  have "\<And>x. x \<in> set (map (hosted_held t) (hd_reservations h)) \<Longrightarrow> 0 \<le> x"
    using assms(1) by (force simp: hosted_held_def hosted_table_ok_def)
  then show ?thesis unfolding hosted_outstanding_def using assms(2)
    by (intro member_le_sum_list) auto
qed

lemma open_row_has_wallet:
  assumes inv: "hosted_inv other drift (db, h)" and r: "r \<in> set (hd_reservations h)" "hosted_open r"
  obtains w where "wd_wallets db (ho_TenantID r) = Some w"
proof (cases "wd_wallets db (ho_TenantID r)")
  case None
  let ?t = "ho_TenantID r"
  have "outstanding db ?t + (hosted_outstanding h ?t + other ?t) = 0"
    using wallet_invD(1) [OF hosted_invD(3) [OF inv], of ?t] None by (simp add: account_ok_def)
  moreover have "0 < ho_ReservedMicrousd r"
    using hosted_invD(1) [OF inv] r(1) by (simp add: hosted_table_ok_def)
  then have "0 < hosted_outstanding h ?t"
    using held_le_outstanding [OF hosted_invD(1) [OF inv] r(1), of ?t] r(2) by (simp add: hosted_held_def)
  ultimately show ?thesis
    using outstanding_nonneg [OF wallet_invD(2) [OF hosted_invD(3) [OF inv]], of ?t] hosted_invD(2) [OF inv, of ?t]
    by simp
qed (use that in blast)

text \<open>An update that neither opens nor closes a row leaves the accounts as they were.\<close>

lemma hosted_inv_same:
  assumes inv: "hosted_inv other drift (db, h)" and r: "r \<in> set (hd_reservations h)" "hosted_key tenant rid r"
    and f: "keeps_identity f" "hosted_open r" "hosted_open (f r)"
    and sent: "ho_State (f r) = HsReserved \<longleftrightarrow> ho_TransmittedAt (f r) = None \<and> ho_State (f r) \<noteq> HsReleased"
    and h': "set_hosted tenant rid f h = Inr h'"
  shows "hosted_inv other drift (db, h')"
proof -
  note ok = hosted_invD(1) [OF inv]
  note h' = set_hosted_Inr [OF h']
  have tab: "hosted_table_ok h'"
    by (rule hosted_table_update [OF ok r f(1,2) sent]) (simp_all add: h')
  have "hosted_held t (f r) = hosted_held t r" for t
    using f by (simp add: hosted_held_def keeps_identity_def)
  then have "hosted_outstanding h' = hosted_outstanding h"
    using hosted_outstanding_update [OF ok r, of h' f] by (simp add: fun_eq_iff h')
  moreover have "hosted_ledger_sum h' = hosted_ledger_sum h" by (simp add: hosted_ledger_sum_def h' fun_eq_iff)
  ultimately show ?thesis using inv tab by (simp add: hosted_inv_def)
qed

text \<open>Closing a row frees its reservation and books the charge.\<close>

lemma hosted_inv_close:
  assumes inv: "hosted_inv other drift (db, h)" and r: "r \<in> set (hd_reservations h)" "hosted_key tenant rid r" "hosted_open r"
    and f: "keeps_identity f" "\<not> hosted_open (f r)"
    and upd: "update_wallet tenant (\<lambda>w. w\<lparr>wl_balance := wl_balance w - a,
        wl_reserved := wl_reserved w - ho_ReservedMicrousd r, wl_updated_at := stamp\<rparr>) db = Inr db1"
    and rows: "hd_reservations h' = upd_where (hosted_key tenant rid) f (hd_reservations h)"
    and tab: "hosted_table_ok h'"
    and led: "\<And>t. hosted_ledger_sum h' t = hosted_ledger_sum h t - (if t = tenant then a else 0)"
  shows "hosted_inv other drift (db1, h')"
proof -
  note ok = hosted_invD(1) [OF inv]
  have tenant: "ho_TenantID r = tenant" using r(2) by (simp add: hosted_key_def)
  obtain w where w: "wd_wallets db tenant = Some w"
    using open_row_has_wallet [OF inv r(1,3)] tenant by auto
  have out: "hosted_outstanding h' t = hosted_outstanding h t - (if t = tenant then ho_ReservedMicrousd r else 0)" for t
    using hosted_outstanding_update [OF ok r(1,2) rows, of t] r(3) f tenant
    by (auto simp: hosted_held_def keeps_identity_def)
  have "wallet_inv (\<lambda>t. hosted_outstanding h' t + other t) (\<lambda>t. hosted_ledger_sum h' t + drift t) db1"
  proof (rule wallet_inv_shift [OF hosted_invD(3) [OF inv] upd w])
    show "\<forall>t. 0 \<le> hosted_outstanding h' t + other t"
      using hosted_outstanding_nonneg [OF tab] hosted_invD(2) [OF inv] by (simp add: add_nonneg_nonneg)
  qed (simp_all add: out led)
  then show ?thesis using tab hosted_invD(2) [OF inv] by (intro hosted_invI) auto
qed

lemma hosted_inv_debt:
  assumes "hosted_inv other drift (db, h)" "reconcileManagedDebtTx tenant stamp db = Inr db'"
  shows "hosted_inv other drift (db', h)"
  using reconcile_debt_inv [OF assms(2) hosted_invD(3) [OF assms(1)]] assms(1) by (simp add: hosted_inv_def)

lemma free_reservation_inv:
  assumes inv: "hosted_inv other drift (db, h)" and r: "r \<in> set (hd_reservations h)" "hosted_key tenant (ho_ID r) r" "hosted_open r"
    and free: "free_reservation (db, h) tenant r reason stamp = Inr (u, (db', h'))"
  shows "hosted_inv other drift (db', h')"
proof -
  obtain db1 where upd: "update_wallet tenant (\<lambda>w. w\<lparr>wl_reserved := wl_reserved w - ho_ReservedMicrousd r, wl_updated_at := stamp\<rparr>) db = Inr db1"
    and h': "set_hosted tenant (ho_ID r) (hosted_released reason stamp) h = Inr h'"
    and debt: "reconcileManagedDebtTx tenant stamp db1 = Inr db'"
    using free by (auto simp: free_reservation_def bind_err_Inr)
  note h'' = set_hosted_Inr [OF h']
  have keep: "keeps_identity (hosted_released reason stamp)" by (simp add: keeps_identity_def hosted_released_def)
  have tab: "hosted_table_ok h'"
    by (rule hosted_table_update [OF hosted_invD(1) [OF inv] r(1,2) keep r(3)])
      (simp_all add: h'' hosted_released_def)
  have "hosted_inv other drift (db1, h')"
    by (rule hosted_inv_close [OF inv r keep, of stamp 0])
      (use upd tab in \<open>simp_all add: h'' hosted_released_def hosted_open_def hosted_ledger_sum_def\<close>)
  from hosted_inv_debt [OF this debt] show ?thesis .
qed

text \<open>A settlement finds no earlier ledger entry of its open reservation, so it books exactly one.\<close>

lemma settlement_fresh:
  assumes ok: "hosted_table_ok h" and r: "r \<in> set (hd_reservations h)" "hosted_open r"
    and ins: "insert_hosted_ledger l h = Inr h1" and l: "hl_reservation_id l = ho_ID r"
      "hl_id l = ''settlement_'' @ ho_ID r"
  shows "h1 = h\<lparr>hd_ledger := hd_ledger h @ [l]\<rparr>"
proof -
  have "hl_reservation_id x \<noteq> ho_ID r" if x: "x \<in> set (hd_ledger h)" for x
  proof
    assume "hl_reservation_id x = ho_ID r"
    then obtain y where "y \<in> set (hd_reservations h)" "ho_ID y = ho_ID r" "ho_State y = HsSettled"
      using ok x unfolding hosted_table_ok_def by metis
    moreover from this have "y = r" using ok r(1) by (auto simp: hosted_table_ok_def distinct_map inj_on_def)
    ultimately show False using r(2) by (simp add: hosted_open_def)
  qed
  then have "\<not> (\<exists>x \<in> set (hd_ledger h). hl_tenant_id x = hl_tenant_id l \<and> hl_reservation_id x = hl_reservation_id l)"
    using l(1) by auto
  with ins show ?thesis unfolding insert_hosted_ledger_def by (simp split: if_splits)
qed

lemma insert_cogs_sel [simp]:
  "hd_reservations (insert_cogs c h) = hd_reservations h" "hd_ledger (insert_cogs c h) = hd_ledger h"
  "hd_evidence (insert_cogs c h) = hd_evidence h"
  by (simp_all add: insert_cogs_def)

lemma hosted_inv_cogs [simp]: "hosted_inv other drift (db, insert_cogs c h) = hosted_inv other drift (db, h)"
  by (simp add: hosted_inv_def hosted_table_ok_def hosted_outstanding_def hosted_ledger_sum_def)

lemma book_settlement_inv:
  assumes inv: "hosted_inv other drift (db, h)" and r: "r \<in> set (hd_reservations h)" "hosted_key tenant (ho_ID r) r"
    "hosted_open r" "ho_TransmittedAt r \<noteq> None"
    and book: "book_settlement (db, h) tenant r it cached ot a resolution cogs stamp = Inr (out, (db', h'))"
  shows "hosted_inv other drift (db', h')"
proof -
  let ?l = "\<lparr>hl_id = ''settlement_'' @ ho_ID r, hl_tenant_id = tenant, hl_reservation_id = ho_ID r, hl_amount = - a,
      hl_description = resolution, hl_created_at = stamp\<rparr>" and ?f = "hosted_settled a it cached ot resolution stamp"
  obtain db1 h1 h2 c where upd: "update_wallet tenant (\<lambda>w. w\<lparr>wl_balance := wl_balance w - a,
        wl_reserved := wl_reserved w - ho_ReservedMicrousd r, wl_updated_at := stamp\<rparr>) db = Inr db1"
    and led: "insert_hosted_ledger ?l h = Inr h1" and row: "set_hosted tenant (ho_ID r) ?f h1 = Inr h2"
    and debt: "reconcileManagedDebtTx tenant stamp db1 = Inr db'" and h': "h' = insert_cogs c h2"
    using book by (auto simp: book_settlement_def bind_err_Inr)
  have h1: "h1 = h\<lparr>hd_ledger := hd_ledger h @ [?l]\<rparr>"
    by (rule settlement_fresh [OF hosted_invD(1) [OF inv] r(1,3) led]) simp_all
  note h2 = set_hosted_Inr [OF row]
  have keep: "keeps_identity ?f" by (simp add: keeps_identity_def hosted_settled_def)
  have rows: "hd_reservations h2 = upd_where (hosted_key tenant (ho_ID r)) ?f (hd_reservations h)"
    by (simp add: h2 h1)
  have tab: "hosted_table_ok h2"
    by (rule hosted_table_update [OF hosted_invD(1) [OF inv] r(1,2) keep r(3) _ rows])
      (use r(2,4) in \<open>auto simp: h2 h1 hosted_settled_def hosted_key_def\<close>)
  have "hosted_inv other drift (db1, h2)"
    by (rule hosted_inv_close [OF inv r(1-3) keep _ upd rows tab])
      (auto simp: h2 h1 hosted_settled_def hosted_open_def hosted_ledger_sum_def)
  from hosted_inv_debt [OF this debt] show ?thesis by (simp add: h')
qed

lemma pending_inv:
  assumes "hosted_inv other drift (db, h)" "r \<in> set (hd_reservations h)" "hosted_key tenant rid r"
    "hosted_open r" "ho_TransmittedAt r \<noteq> None" "set_hosted tenant rid (hosted_pending stamp) h = Inr h'"
  shows "hosted_inv other drift (db, h')"
  by (rule hosted_inv_same [OF assms(1-3) _ assms(4) _ _ assms(6)])
    (use assms(5) in \<open>simp_all add: keeps_identity_def hosted_pending_def hosted_open_def\<close>)

text \<open>What a settlement does: nothing, the pending mark, or the booking.\<close>

lemma settle_transmitted_cases:
  assumes "settle_transmitted cat stamp (db, h) tenant usage row = Inr (out, st')"
  obtains (pending) h' where "set_hosted tenant (ho_ID row) (hosted_pending stamp) h = Inr h'" "st' = (db, h')"
      "out = hosted_pending stamp row" "ru_InputTokens usage = None \<or> ru_OutputTokens usage = None"
  | (booked) it ot cost actual resolution offer rate cogs where "ru_InputTokens usage = Some it" "ru_OutputTokens usage = Some ot"
      "TokenCostMicrousd it ot (ho_InputMicrousdPerMillion row) (ho_OutputMicrousdPerMillion row) = Inr cost"
      "hosted_charge cost (ho_ReservedMicrousd row) = (actual, resolution)"
      "supplierRateForOffer (ct_digest_rate cat) offer = Inr rate"
      "Reconcile (ct_digest_rate cat) (ct_digest_result cat)
         (settled_usage_of row offer rate it (ru_CachedInputTokens usage) ot actual stamp) rate = Inr cogs"
      "book_settlement (db, h) tenant row it (ru_CachedInputTokens usage) ot actual resolution cogs stamp = Inr (out, st')"
proof (cases "ru_InputTokens usage = None \<or> ru_OutputTokens usage = None")
  case True
  then have "bind_err (set_hosted tenant (ho_ID row) (hosted_pending stamp) h)
      (\<lambda>h. Inr (hosted_pending stamp row, (db, h))) = Inr (out, st')"
    using assms unfolding settle_transmitted_def by (cases "ru_InputTokens usage"; cases "ru_OutputTokens usage"; simp)
  with pending True show ?thesis by (auto simp: bind_err_Inr)
next
  case False
  then obtain it ot where tok: "ru_InputTokens usage = Some it" "ru_OutputTokens usage = Some ot" by auto
  obtain cost where cost: "TokenCostMicrousd it ot (ho_InputMicrousdPerMillion row) (ho_OutputMicrousdPerMillion row) = Inr cost"
    using assms tok unfolding settle_transmitted_def by (auto split: if_split_asm sum.split_asm)
  obtain actual resolution where charge: "hosted_charge cost (ho_ReservedMicrousd row) = (actual, resolution)"
    by (cases "hosted_charge cost (ho_ReservedMicrousd row)")
  have rest: "bind_err (ct_offer cat (ho_OperatorTenantID row) (ho_OfferID row) (ho_OfferVersion row)) (\<lambda>offer.
      case supplierRateForOffer (ct_digest_rate cat) offer of
        Inl err \<Rightarrow> Inl (ErrOther err)
      | Inr rate \<Rightarrow>
        (case Reconcile (ct_digest_rate cat) (ct_digest_result cat)
            (settled_usage_of row offer rate it (ru_CachedInputTokens usage) ot actual stamp) rate of
           Inl err \<Rightarrow> Inl (ErrOther (''reconcile supplier COGS: '' @ err))
         | Inr cogs \<Rightarrow> book_settlement (db, h) tenant row it (ru_CachedInputTokens usage) ot actual resolution cogs stamp)) =
      Inr (out, st')"
    using assms unfolding settle_transmitted_def by (simp add: tok cost charge split: if_split_asm)
  then obtain offer where offer: "(case supplierRateForOffer (ct_digest_rate cat) offer of
        Inl err \<Rightarrow> Inl (ErrOther err)
      | Inr rate \<Rightarrow>
        (case Reconcile (ct_digest_rate cat) (ct_digest_result cat)
            (settled_usage_of row offer rate it (ru_CachedInputTokens usage) ot actual stamp) rate of
           Inl err \<Rightarrow> Inl (ErrOther (''reconcile supplier COGS: '' @ err))
         | Inr cogs \<Rightarrow> book_settlement (db, h) tenant row it (ru_CachedInputTokens usage) ot actual resolution cogs stamp)) =
      Inr (out, st')"
    by (auto simp: bind_err_Inr)
  then obtain rate where rate: "supplierRateForOffer (ct_digest_rate cat) offer = Inr rate"
    by (cases "supplierRateForOffer (ct_digest_rate cat) offer") simp_all
  with offer obtain cogs where "Reconcile (ct_digest_rate cat) (ct_digest_result cat)
      (settled_usage_of row offer rate it (ru_CachedInputTokens usage) ot actual stamp) rate = Inr cogs"
    "book_settlement (db, h) tenant row it (ru_CachedInputTokens usage) ot actual resolution cogs stamp = Inr (out, st')"
    by (auto split: sum.split_asm)
  with booked tok cost charge rate show ?thesis by blast
qed

lemma row_sent:
  assumes "hosted_table_ok h" "r \<in> set (hd_reservations h)" "hosted_open r" "ho_State r \<noteq> HsReserved"
  shows "ho_TransmittedAt r \<noteq> None"
  using assms by (auto simp: hosted_table_ok_def hosted_open_def)

lemma SettleModelAPIUsage_inv [step_inv]:
  assumes "SettleModelAPIUsage cat now st tenant rid usage = (res, st')" "hosted_inv other drift st"
  shows "hosted_inv other drift st'"
  using assms(1) unfolding SettleModelAPIUsage_def
proof (rule commit_txI)
  fix out
  obtain db h where st: "st = (db, h)" by (cases st)
  assume body: "bind_err (modelAPIReservationForUpdate (snd st) tenant rid) (\<lambda>row.
      if ho_State row = HsSettled \<or> ho_State row = HsReleased then Inr (row, st)
      else if ho_State row = HsReserved then Inl (ErrConflict ''unsent hosted usage cannot be settled'')
      else settle_transmitted cat (modelAPIUsageMutationTime row now) st tenant usage row) = Inr (out, st')"
  then obtain r where found: "modelAPIReservationForUpdate h tenant rid = Inr r" by (auto simp: bind_err_Inr st)
  note r = reservation_found [OF found]
  have inv: "hosted_inv other drift (db, h)" using assms(2) st by simp
  consider "st' = st" | "hosted_open r" "ho_State r \<noteq> HsReserved"
    "settle_transmitted cat (modelAPIUsageMutationTime r now) (db, h) tenant usage r = Inr (out, st')"
    using body found by (auto simp: bind_err_Inr st hosted_open_def split: if_splits)
  then show "hosted_inv other drift st'"
  proof cases
    case 2
    have key: "hosted_key tenant (ho_ID r) r" using r by simp
    note sent = row_sent [OF hosted_invD(1) [OF inv] r(1) 2(1,2)]
    from 2(3) show ?thesis
    proof (cases rule: settle_transmitted_cases)
      case (pending h')
      then show ?thesis using pending_inv [OF inv r(1) key 2(1) sent] by simp
    next
      case (booked it ot cost actual resolution offer rate cogs)
      then show ?thesis using book_settlement_inv [OF inv r(1) key 2(1) sent] by (cases st') simp
    qed
  qed (use assms(2) in simp)
qed (use assms(2) in simp)

lemma ReleaseUnsent_inv [step_inv]:
  assumes "ReleaseUnsentModelAPIUsage now st tenant rid reason = (res, st')" "hosted_inv other drift st"
  shows "hosted_inv other drift st'"
proof -
  obtain db h db' h' where st: "st = (db, h)" "st' = (db', h')" by (cases st; cases st')
  consider "st' = st" | r where "modelAPIReservationForUpdate h tenant rid = Inr r" "ho_State r = HsReserved"
    "free_reservation (db, h) tenant r reason (modelAPIUsageMutationTime r now) = Inr ((), (db', h'))"
    using assms(1) unfolding ReleaseUnsentModelAPIUsage_def st
    by (auto simp: commit_tx_def bind_err_def split: if_splits sum.splits)
  then show ?thesis
  proof cases
    case (2 r)
    note r = reservation_found [OF 2(1)]
    show ?thesis using free_reservation_inv [OF _ r(1) _ _ 2(3)] assms(2) r 2(2) st by (simp add: hosted_open_def)
  qed (use assms(2) in simp)
qed

lemma ConfirmNoCharge_inv [step_inv]:
  assumes "ConfirmNoChargeModelAPIUsage now st tenant rid reason = (res, st')" "hosted_inv other drift st"
  shows "hosted_inv other drift st'"
proof -
  obtain db h db' h' where st: "st = (db, h)" "st' = (db', h')" by (cases st; cases st')
  consider "st' = st" | r where "modelAPIReservationForUpdate h tenant rid = Inr r" "hosted_open r"
    "free_reservation (db, h) tenant r (''supplier confirmed no charge: '' @ reason)
       (modelAPIUsageMutationTime r now) = Inr ((), (db', h'))"
    using assms(1) unfolding ConfirmNoChargeModelAPIUsage_def st
    by (auto simp: commit_tx_def bind_err_def hosted_open_def split: if_splits sum.splits)
  then show ?thesis
  proof cases
    case (2 r)
    note r = reservation_found [OF 2(1)]
    show ?thesis using free_reservation_inv [OF _ r(1) _ _ 2(3)] assms(2) r 2(2) st by simp
  qed (use assms(2) in simp)
qed

lemma reserve_funds_inv:
  assumes inv: "hosted_inv other drift (db, h)" and res: "reserve_funds (db, h) request rate = Inr (out, (db', h'))"
  shows "hosted_inv other drift (db', h')"
proof -
  let ?t = "rq_TenantID request" and ?r = "new_hosted_row request rate"
  obtain w where w: "wd_wallets db ?t = Some w" and ins: "insert_hosted ?r h = Inr h'"
    and upd: "update_wallet ?t (\<lambda>w. w\<lparr>wl_reserved := wl_reserved w + rq_MaxRequestMicrousd request,
      wl_updated_at := rq_CreatedAt request\<rparr>) db = Inr db'"
    using res by (auto simp: reserve_funds_def bind_err_Inr split: option.splits if_splits)
  have h': "h' = h\<lparr>hd_reservations := hd_reservations h @ [?r]\<rparr>"
    and fresh: "ho_ID ?r \<notin> ho_ID ` set (hd_reservations h)" and check: "hosted_check ?r"
    using ins by (auto simp: insert_hosted_def split: if_splits)
  have new: "ho_State ?r = HsReserved" "ho_TransmittedAt ?r = None" "ho_TenantID ?r = ?t"
    "ho_ReservedMicrousd ?r = rq_MaxRequestMicrousd request" by (simp_all add: new_hosted_row_def)
  have pos: "0 < rq_MaxRequestMicrousd request" using check by (simp add: hosted_check_def new(4))
  have tab: "hosted_table_ok h'"
    using hosted_invD(1) [OF inv] fresh new pos unfolding hosted_table_ok_def h' by auto
  have out: "hosted_outstanding h' t = hosted_outstanding h t + (if t = ?t then rq_MaxRequestMicrousd request else 0)" for t
    by (simp add: hosted_outstanding_def h' hosted_held_def new hosted_open_def)
  have led: "hosted_ledger_sum h' t = hosted_ledger_sum h t" for t by (simp add: hosted_ledger_sum_def h')
  have "wallet_inv (\<lambda>t. hosted_outstanding h' t + other t) (\<lambda>t. hosted_ledger_sum h' t + drift t) db'"
  proof (rule wallet_inv_shift [OF hosted_invD(3) [OF inv] upd w])
    show "\<forall>t. 0 \<le> hosted_outstanding h' t + other t"
      using hosted_outstanding_nonneg [OF tab] hosted_invD(2) [OF inv] by (simp add: add_nonneg_nonneg)
  qed (simp_all add: out led)
  then show ?thesis using tab hosted_invD(2) [OF inv] by (intro hosted_invI) auto
qed

lemma ReserveModelAPIUsage_cases:
  assumes "ReserveModelAPIUsage cat st request = (res, st')"
  obtains (unchanged) "st' = st"
  | (reserved) rate out where "reservation_contract cat request = Inr rate" "reserve_funds st request rate = Inr (out, st')"
      "res = Inr out"
  using assms
  by (auto simp: ReserveModelAPIUsage_def commit_tx_def bind_err_def split: option.splits if_splits sum.splits prod.splits)

lemma Reserve_inv [step_inv]:
  assumes "ReserveModelAPIUsage cat st request = (res, st')" "hosted_inv other drift st"
  shows "hosted_inv other drift st'"
  using assms(1)
proof (cases rule: ReserveModelAPIUsage_cases)
  case (reserved rate out)
  obtain db h db' h' where "st = (db, h)" "st' = (db', h')" by (cases st; cases st')
  with reserved reserve_funds_inv [of other drift db h request rate out db' h'] assms(2) show ?thesis by simp
qed (use assms(2) in simp)

lemma advance_cases:
  assumes "advanceModelAPIUsage (db, h) tenant rid target now = (res, st')"
  obtains (unchanged) "st' = (db, h)"
  | (transmitted) r h' where "modelAPIReservationForUpdate h tenant rid = Inr r" "ho_State r = HsReserved"
      "set_hosted tenant rid (mark_transmitted now) h = Inr h'" "st' = (db, h')"
  | (started) r h' where "modelAPIReservationForUpdate h tenant rid = Inr r" "ho_State r = HsTransmitted"
      "set_hosted tenant rid (mark_response_started now) h = Inr h'" "st' = (db, h')"
  using assms
  by (auto simp: advanceModelAPIUsage_def commit_tx_def bind_err_def split: if_splits sum.splits)

lemma advance_inv [step_inv]:
  assumes "advanceModelAPIUsage st tenant rid target now = (res, st')" "hosted_inv other drift st"
  shows "hosted_inv other drift st'"
proof -
  obtain db h where st: "st = (db, h)" by (cases st)
  have inv: "hosted_inv other drift (db, h)" using assms(2) st by simp
  from assms(1) [unfolded st] show ?thesis
  proof (cases rule: advance_cases)
    case (transmitted r h')
    note r = reservation_found [OF transmitted(1)]
    show ?thesis unfolding transmitted(4)
      by (rule hosted_inv_same [OF inv r(1,2) _ _ _ _ transmitted(3)])
        (use transmitted(2) in \<open>simp_all add: keeps_identity_def mark_transmitted_def hosted_open_def\<close>)
  next
    case (started r h')
    note r = reservation_found [OF started(1)]
    have "ho_TransmittedAt r \<noteq> None"
      using row_sent [OF hosted_invD(1) [OF inv] r(1)] started(2) by (simp add: hosted_open_def)
    then show ?thesis unfolding started(4)
      by (intro hosted_inv_same [OF inv r(1,2) _ _ _ _ started(3)])
        (use started(2) in \<open>simp_all add: keeps_identity_def mark_response_started_def hosted_open_def\<close>)
  qed (use inv in simp)
qed

definition accounting_same :: "(hosted_row \<Rightarrow> hosted_row) \<Rightarrow> bool" where
  "accounting_same g \<longleftrightarrow> (\<forall>r. ho_ID (g r) = ho_ID r \<and> ho_TenantID (g r) = ho_TenantID r \<and> ho_State (g r) = ho_State r \<and>
     ho_ReservedMicrousd (g r) = ho_ReservedMicrousd r \<and> ho_TransmittedAt (g r) = ho_TransmittedAt r \<and>
     ho_ActualMicrousd (g r) = ho_ActualMicrousd r)"

lemma hosted_inv_map:
  assumes inv: "hosted_inv other drift (db, h)" and g: "accounting_same g"
  shows "hosted_inv other drift (db, h\<lparr>hd_reservations := map g (hd_reservations h)\<rparr>)"
proof -
  let ?h = "h\<lparr>hd_reservations := map g (hd_reservations h)\<rparr>"
  note ok = hosted_invD(1) [OF inv]
  have same: "ho_ID (g r) = ho_ID r" "ho_TenantID (g r) = ho_TenantID r" "ho_State (g r) = ho_State r"
    "ho_ReservedMicrousd (g r) = ho_ReservedMicrousd r" "ho_TransmittedAt (g r) = ho_TransmittedAt r"
    "ho_ActualMicrousd (g r) = ho_ActualMicrousd r" for r
    using g unfolding accounting_same_def by blast+
  have ids: "map ho_ID (hd_reservations ?h) = map ho_ID (hd_reservations h)"
    by (simp add: same)
  have rows: "\<forall>r \<in> set (hd_reservations ?h). 0 < ho_ReservedMicrousd r \<and>
      (ho_State r = HsReserved \<longleftrightarrow> ho_TransmittedAt r = None \<and> ho_State r \<noteq> HsReleased)"
  proof
    fix r
    assume "r \<in> set (hd_reservations ?h)"
    then obtain x where x: "x \<in> set (hd_reservations h)" "r = g x" by auto
    have "0 < ho_ReservedMicrousd x \<and>
        (ho_State x = HsReserved \<longleftrightarrow> ho_TransmittedAt x = None \<and> ho_State x \<noteq> HsReleased)"
      using hosted_rowD [OF ok x(1)] by (rule conjI)
    then show "0 < ho_ReservedMicrousd r \<and>
        (ho_State r = HsReserved \<longleftrightarrow> ho_TransmittedAt r = None \<and> ho_State r \<noteq> HsReleased)"
      unfolding x(2) same .
  qed
  have led: "hl_id l = ''settlement_'' @ hl_reservation_id l \<and>
      (\<exists>x \<in> set (hd_reservations ?h). ho_ID x = hl_reservation_id l \<and> ho_TenantID x = hl_tenant_id l \<and>
        ho_State x = HsSettled \<and> ho_ActualMicrousd x = Some (- hl_amount l))" if l: "l \<in> set (hd_ledger h)" for l
  proof -
    obtain r where r: "r \<in> set (hd_reservations h)" "ho_ID r = hl_reservation_id l" "ho_TenantID r = hl_tenant_id l"
      "ho_State r = HsSettled" "ho_ActualMicrousd r = Some (- hl_amount l)"
      and id: "hl_id l = ''settlement_'' @ hl_reservation_id l"
      by (rule hosted_ledgerE [OF ok l])
    have "g r \<in> set (hd_reservations ?h)" using r(1) by simp
    with id r(2-5) same [of r] show ?thesis by metis
  qed
  have "hosted_table_ok ?h"
    using ok rows led unfolding hosted_table_ok_def ids by simp
  moreover have "hosted_held t (g r) = hosted_held t r" for t r
    unfolding hosted_held_def hosted_open_def same ..
  then have "hosted_outstanding ?h = hosted_outstanding h"
    by (simp add: hosted_outstanding_def o_def fun_eq_iff)
  moreover have "hosted_ledger_sum ?h = hosted_ledger_sum h" by (simp add: hosted_ledger_sum_def fun_eq_iff)
  ultimately show ?thesis using inv by (simp add: hosted_inv_def)
qed

lemma attempt_inv [step_inv]:
  assumes "RecordModelAPIUsageReconciliationAttempt st tenant rid now = (res, st')" "hosted_inv other drift st"
  shows "hosted_inv other drift st'"
proof -
  obtain db h where st: "st = (db, h)" by (cases st)
  have "accounting_same (\<lambda>r. if hosted_key tenant rid r \<and> ambiguous (ho_State r)
      then r\<lparr>ho_Attempts := ho_Attempts r + 1, ho_LastAttemptedAt := Some now\<rparr> else r)"
    by (simp add: accounting_same_def)
  from hosted_inv_map [OF _ this, of other drift db h] show ?thesis
    using assms st by (auto simp: RecordModelAPIUsageReconciliationAttempt_def upd_where_def split: if_splits)
qed

lemma evidence_shape:
  "recordModelAPIUsageReconciliationEvidence now st op e = (res, st') \<Longrightarrow>
     \<exists>ev. st' = (fst st, (snd st)\<lparr>hd_evidence := ev\<rparr>)"
proof -
  assume ev: "recordModelAPIUsageReconciliationEvidence now st op e = (res, st')"
  have same: "\<exists>ev. st = (fst st, (snd st)\<lparr>hd_evidence := ev\<rparr>)"
    by (rule exI [of _ "hd_evidence (snd st)"]) simp
  show ?thesis using ev same
    unfolding recordModelAPIUsageReconciliationEvidence_def Let_def
    by (auto simp: commit_tx_def bind_err_def split: option.splits if_splits sum.splits)
qed

section \<open>Both stores on one set of wallets\<close>

inductive hosted_step :: "payment_db \<times> hosted_db \<Rightarrow> payment_db \<times> hosted_db \<Rightarrow> bool" where
  managed: "billing_step db db' \<Longrightarrow> hosted_step (db, h) (db', h)"
| reserve: "ReserveModelAPIUsage cat st request = (res, st') \<Longrightarrow> hosted_step st st'"
| transmitted: "MarkModelAPIUsageTransmitted st tenant rid now = (res, st') \<Longrightarrow> hosted_step st st'"
| started: "MarkModelAPIUsageResponseStarted st tenant rid now = (res, st') \<Longrightarrow> hosted_step st st'"
| settle: "SettleModelAPIUsage cat now st tenant rid usage = (res, st') \<Longrightarrow> hosted_step st st'"
| release: "ReleaseUnsentModelAPIUsage now st tenant rid reason = (res, st') \<Longrightarrow> hosted_step st st'"
| no_charge: "ConfirmNoChargeModelAPIUsage now st tenant rid reason = (res, st') \<Longrightarrow> hosted_step st st'"
| attempt: "RecordModelAPIUsageReconciliationAttempt st tenant rid now = (res, st') \<Longrightarrow> hosted_step st st'"
| adapter_evidence: "RecordModelAPIUsageReconciliationEvidence now st ev = (res, st') \<Longrightarrow> hosted_step st st'"
| operator_evidence: "RecordOperatorModelAPIUsageReconciliationEvidence now st op actor ev = (res, st') \<Longrightarrow> hosted_step st st'"

lemma evidence_step_shape:
  "RecordModelAPIUsageReconciliationEvidence now st ev = (res, st') \<Longrightarrow> \<exists>e. st' = (fst st, (snd st)\<lparr>hd_evidence := e\<rparr>)"
  "RecordOperatorModelAPIUsageReconciliationEvidence now st op actor ev = (res, st') \<Longrightarrow>
     \<exists>e. st' = (fst st, (snd st)\<lparr>hd_evidence := e\<rparr>)"
proof -
  show "RecordModelAPIUsageReconciliationEvidence now st ev = (res, st') \<Longrightarrow> \<exists>e. st' = (fst st, (snd st)\<lparr>hd_evidence := e\<rparr>)"
    unfolding RecordModelAPIUsageReconciliationEvidence_def by (rule evidence_shape)
  show "RecordOperatorModelAPIUsageReconciliationEvidence now st op actor ev = (res, st') \<Longrightarrow>
      \<exists>e. st' = (fst st, (snd st)\<lparr>hd_evidence := e\<rparr>)"
    unfolding RecordOperatorModelAPIUsageReconciliationEvidence_def Let_def
    by (auto split: if_splits dest: evidence_shape intro: exI [of _ "hd_evidence (snd st)"])
qed

lemma hosted_inv_evidence: "hosted_inv other drift (db, h\<lparr>hd_evidence := e\<rparr>) = hosted_inv other drift (db, h)"
  by (simp add: hosted_inv_def hosted_table_ok_def hosted_outstanding_def hosted_ledger_sum_def)

lemma hosted_step_inv [step_inv]:
  "hosted_step st st' \<Longrightarrow> hosted_inv other drift st \<Longrightarrow> hosted_inv other drift st'"
proof (induction rule: hosted_step.induct)
  case (managed db db' h)
  then show ?case by (simp add: hosted_inv_def billing_step_inv)
next
  case (adapter_evidence now st ev res st')
  then show ?case using evidence_step_shape(1) hosted_inv_evidence by (metis prod.collapse)
next
  case (operator_evidence now st op actor ev res st')
  then show ?case using evidence_step_shape(2) hosted_inv_evidence by (metis prod.collapse)
qed (unfold MarkModelAPIUsageTransmitted_def MarkModelAPIUsageResponseStarted_def, (rule step_inv; assumption)+)

lemma hosted_steps_inv: "hosted_step\<^sup>*\<^sup>* st st' \<Longrightarrow> hosted_inv other drift st \<Longrightarrow> hosted_inv other drift st'"
  by (induction rule: rtranclp_induct) (auto intro: hosted_step_inv)

text \<open>How a reservation may develop: closed rows are final, and the sent mark is set once.\<close>

definition row_evolves :: "hosted_row \<Rightarrow> hosted_row \<Rightarrow> bool" where
  "row_evolves r r' \<longleftrightarrow>
     ho_ID r' = ho_ID r \<and> ho_TenantID r' = ho_TenantID r \<and> ho_ReservedMicrousd r' = ho_ReservedMicrousd r \<and>
     ho_InputMicrousdPerMillion r' = ho_InputMicrousdPerMillion r \<and>
     ho_OutputMicrousdPerMillion r' = ho_OutputMicrousdPerMillion r \<and>
     (\<not> hosted_open r \<longrightarrow> r' = r) \<and>
     (ho_TransmittedAt r \<noteq> None \<longrightarrow> ho_TransmittedAt r' = ho_TransmittedAt r)"

definition hosted_evolves :: "hosted_db \<Rightarrow> hosted_db \<Rightarrow> bool" where
  "hosted_evolves h h' \<longleftrightarrow> (\<forall>r \<in> set (hd_reservations h). \<exists>r' \<in> set (hd_reservations h'). row_evolves r r')"

lemma row_evolves_refl [simp]: "row_evolves r r"
  by (simp add: row_evolves_def)

lemma row_evolves_trans: "row_evolves a b \<Longrightarrow> row_evolves b c \<Longrightarrow> row_evolves a c"
  unfolding row_evolves_def by (metis (no_types))

lemma hosted_evolves_same: "hd_reservations h' = hd_reservations h \<Longrightarrow> hosted_evolves h h'"
  unfolding hosted_evolves_def by (metis row_evolves_refl)

lemma hosted_evolves_trans: "hosted_evolves a b \<Longrightarrow> hosted_evolves b c \<Longrightarrow> hosted_evolves a c"
  unfolding hosted_evolves_def by (meson row_evolves_trans)

lemma hosted_evolves_update:
  assumes "hosted_table_ok h" "r \<in> set (hd_reservations h)" "hosted_key tenant rid r"
    "hd_reservations h' = upd_where (hosted_key tenant rid) f (hd_reservations h)" "row_evolves r (f r)"
  shows "hosted_evolves h h'"
proof -
  have rows: "set (hd_reservations h') = insert (f r) (set (hd_reservations h) - {r})"
    unfolding assms(4) by (rule set_upd_unique [OF assms(2,3) hosted_key_unique [OF assms(1-3)]])
  have "\<exists>r' \<in> set (hd_reservations h'). row_evolves x r'" if "x \<in> set (hd_reservations h)" for x
  proof (cases "x = r")
    case False
    with that have "x \<in> set (hd_reservations h')" unfolding rows by blast
    then show ?thesis using row_evolves_refl by blast
  qed (use assms(5) rows in blast)
  then show ?thesis by (simp add: hosted_evolves_def)
qed

lemma free_reservation_rows:
  assumes "free_reservation (db, h) tenant r reason stamp = Inr (u, (db', h'))"
  shows "hd_reservations h' = upd_where (hosted_key tenant (ho_ID r)) (hosted_released reason stamp) (hd_reservations h)"
  using assms by (auto simp: free_reservation_def bind_err_Inr dest!: set_hosted_Inr)

lemma book_settlement_rows:
  assumes "book_settlement (db, h) tenant r it cached ot a resolution cogs stamp = Inr (out, (db', h'))"
  shows "hd_reservations h' = upd_where (hosted_key tenant (ho_ID r))
    (hosted_settled a it cached ot resolution stamp) (hd_reservations h)"
proof -
  have "hd_reservations h1 = hd_reservations h" if "insert_hosted_ledger l h = Inr h1" for l h1
    using that by (auto simp: insert_hosted_ledger_def split: if_splits)
  with assms show ?thesis by (auto simp: book_settlement_def bind_err_Inr dest!: set_hosted_Inr)
qed

lemma settle_transmitted_rows:
  assumes "settle_transmitted cat stamp (db, h) tenant usage r = Inr (out, (db', h'))"
  shows "\<exists>f. hd_reservations h' = upd_where (hosted_key tenant (ho_ID r)) f (hd_reservations h) \<and>
    (hosted_open r \<longrightarrow> row_evolves r (f r))"
  using assms
proof (cases rule: settle_transmitted_cases)
  case (pending h1)
  then show ?thesis using set_hosted_Inr [OF pending(1)]
    by (intro exI [of _ "hosted_pending stamp"]) (simp add: hosted_pending_def row_evolves_def)
next
  case (booked it ot cost actual resolution offer rate cogs)
  then show ?thesis using book_settlement_rows [OF booked(7)]
    by (intro exI [of _ "hosted_settled actual it (ru_CachedInputTokens usage) ot resolution stamp"])
      (simp add: hosted_settled_def row_evolves_def)
qed

lemma settle_evolves:
  assumes "SettleModelAPIUsage cat now (db, h) tenant rid usage = (res, (db', h'))" "hosted_table_ok h"
  shows "hosted_evolves h h'"
proof -
  consider "h' = h" | r out where "modelAPIReservationForUpdate h tenant rid = Inr r" "hosted_open r"
    "settle_transmitted cat (modelAPIUsageMutationTime r now) (db, h) tenant usage r = Inr (out, (db', h'))"
    using assms(1) unfolding SettleModelAPIUsage_def
    by (auto simp: commit_tx_def bind_err_def hosted_open_def split: if_splits sum.splits)
  then show ?thesis
  proof cases
    case (2 r out)
    note r = reservation_found [OF 2(1)]
    from settle_transmitted_rows [OF 2(3)] obtain f where
      "hd_reservations h' = upd_where (hosted_key tenant (ho_ID r)) f (hd_reservations h)" "row_evolves r (f r)"
      using 2(2) by blast
    then show ?thesis using hosted_evolves_update [OF assms(2) r(1)] r by blast
  qed (simp add: hosted_evolves_same)
qed

lemma free_evolves:
  assumes "free_reservation (db, h) tenant r reason stamp = Inr (u, (db', h'))" "hosted_table_ok h"
    "modelAPIReservationForUpdate h tenant rid = Inr r" "hosted_open r"
  shows "hosted_evolves h h'"
proof -
  note r = reservation_found [OF assms(3)]
  have "row_evolves r (hosted_released reason stamp r)"
    using assms(4) by (simp add: row_evolves_def hosted_released_def)
  with hosted_evolves_update [OF assms(2) r(1) _ free_reservation_rows [OF assms(1)]] r show ?thesis by simp
qed

lemma release_evolves:
  assumes "ReleaseUnsentModelAPIUsage now (db, h) tenant rid reason = (res, (db', h'))" "hosted_table_ok h"
  shows "hosted_evolves h h'"
proof -
  consider "h' = h" | r where "modelAPIReservationForUpdate h tenant rid = Inr r" "hosted_open r"
    "free_reservation (db, h) tenant r reason (modelAPIUsageMutationTime r now) = Inr ((), (db', h'))"
    using assms(1) unfolding ReleaseUnsentModelAPIUsage_def
    by (auto simp: commit_tx_def bind_err_def hosted_open_def split: if_splits sum.splits)
  then show ?thesis using free_evolves assms(2) hosted_evolves_same by cases blast+
qed

lemma no_charge_evolves:
  assumes "ConfirmNoChargeModelAPIUsage now (db, h) tenant rid reason = (res, (db', h'))" "hosted_table_ok h"
  shows "hosted_evolves h h'"
proof -
  consider "h' = h" | r where "modelAPIReservationForUpdate h tenant rid = Inr r" "hosted_open r"
    "free_reservation (db, h) tenant r (''supplier confirmed no charge: '' @ reason)
       (modelAPIUsageMutationTime r now) = Inr ((), (db', h'))"
    using assms(1) unfolding ConfirmNoChargeModelAPIUsage_def
    by (auto simp: commit_tx_def bind_err_def hosted_open_def split: if_splits sum.splits)
  then show ?thesis using free_evolves assms(2) hosted_evolves_same by cases blast+
qed

lemma advance_evolves:
  assumes "advanceModelAPIUsage (db, h) tenant rid target now = (res, (db', h'))" "hosted_table_ok h"
  shows "hosted_evolves h h'"
  using assms(1)
proof (cases rule: advance_cases)
  case (transmitted r h1)
  note r = reservation_found [OF transmitted(1)]
  have "ho_TransmittedAt r = None" using hosted_rowD(2) [OF assms(2) r(1)] transmitted(2) by simp
  then have "row_evolves r (mark_transmitted now r)"
    using transmitted(2) by (simp add: row_evolves_def mark_transmitted_def hosted_open_def)
  with hosted_evolves_update [OF assms(2) r(1,2)] set_hosted_Inr [OF transmitted(3)] transmitted(4)
  show ?thesis by simp
next
  case (started r h1)
  note r = reservation_found [OF started(1)]
  have "row_evolves r (mark_response_started now r)"
    using started(2) by (simp add: row_evolves_def mark_response_started_def hosted_open_def)
  with hosted_evolves_update [OF assms(2) r(1,2)] set_hosted_Inr [OF started(3)] started(4)
  show ?thesis by simp
qed (simp add: hosted_evolves_same)

lemma reserve_evolves:
  assumes "ReserveModelAPIUsage cat (db, h) request = (res, (db', h'))"
  shows "hosted_evolves h h'"
  using assms
proof (cases rule: ReserveModelAPIUsage_cases)
  case (reserved rate out)
  then have "hd_reservations h' = hd_reservations h @ [new_hosted_row request rate]"
    by (auto simp: reserve_funds_def bind_err_Inr insert_hosted_def split: option.splits if_splits)
  then show ?thesis unfolding hosted_evolves_def using row_evolves_refl by (metis Un_iff set_append)
qed (simp add: hosted_evolves_same)

lemma attempt_evolves:
  assumes "RecordModelAPIUsageReconciliationAttempt (db, h) tenant rid now = (res, (db', h'))"
  shows "hosted_evolves h h'"
proof -
  let ?g = "\<lambda>r. if hosted_key tenant rid r \<and> ambiguous (ho_State r)
      then r\<lparr>ho_Attempts := ho_Attempts r + 1, ho_LastAttemptedAt := Some now\<rparr> else r"
  have evolve: "row_evolves r (?g r)" for r by (simp add: row_evolves_def hosted_open_def ambiguous_def)
  consider "h' = h" | "hd_reservations h' = map ?g (hd_reservations h)"
    using assms by (auto simp: RecordModelAPIUsageReconciliationAttempt_def upd_where_def split: if_splits)
  then show ?thesis
  proof cases
    case 2
    show ?thesis unfolding hosted_evolves_def 2 set_map using evolve by blast
  qed (simp add: hosted_evolves_same)
qed

lemma hosted_step_evolves:
  assumes "hosted_step st st'" "hosted_table_ok (snd st)"
  shows "hosted_evolves (snd st) (snd st')"
  using assms
proof (induction rule: hosted_step.induct)
  case (adapter_evidence now st ev res st')
  then show ?case using evidence_step_shape(1) hosted_evolves_same by fastforce
next
  case (operator_evidence now st op actor ev res st')
  then show ?case using evidence_step_shape(2) hosted_evolves_same by fastforce
qed (unfold MarkModelAPIUsageTransmitted_def MarkModelAPIUsageResponseStarted_def,
    (metis prod.collapse reserve_evolves advance_evolves settle_evolves release_evolves no_charge_evolves
      attempt_evolves hosted_evolves_same snd_conv)+)

lemma hosted_steps_evolve:
  "hosted_step\<^sup>*\<^sup>* st st' \<Longrightarrow> hosted_inv other drift st \<Longrightarrow> hosted_evolves (snd st) (snd st')"
proof (induction rule: rtranclp_induct)
  case (step y z)
  have "hosted_table_ok (snd y)" using hosted_steps_inv [OF step(1,4)] by (simp add: hosted_inv_def)
  with step show ?case using hosted_step_evolves hosted_evolves_trans by blast
qed (simp add: hosted_evolves_same)

section \<open>Properties\<close>

lemma reservation_lookup:
  assumes "hosted_table_ok h" "r \<in> set (hd_reservations h)"
  shows "modelAPIReservationForUpdate h (ho_TenantID r) (ho_ID r) = Inr r"
proof -
  have key: "hosted_key (ho_TenantID r) (ho_ID r) r" by (simp add: hosted_key_def)
  from find_unique [OF assms(2) key hosted_key_unique [OF assms key]]
  show ?thesis by (simp add: modelAPIReservationForUpdate_def modelAPIReservationMaybe_def)
qed

lemma sent_never_released_unsent:
  assumes "hosted_table_ok (snd st)" "r \<in> set (hd_reservations (snd st))" "ho_TransmittedAt r \<noteq> None"
  shows "snd (ReleaseUnsentModelAPIUsage now st (ho_TenantID r) (ho_ID r) reason) = st"
  using reservation_lookup [OF assms(1,2)] assms(3)
  by (simp add: ReleaseUnsentModelAPIUsage_def commit_tx_def)

text \<open>Money is conserved across both billing stores. Along every interleaving of managed usage, credits,
  payments and refunds with hosted reservations, transmission marks, settlements, releases,
  no-charge confirmations and evidence, each wallet stays consistent: what it holds in reserve is
  exactly what the open managed and hosted reservations (and other stores) hold, never more than the
  balance, and the balance less the debt is exactly the sum of the managed and the hosted ledger
  (plus what is booked elsewhere).
\<close>

theorem hosted_conservation:
  assumes "hosted_step\<^sup>*\<^sup>* (db0, h0) (db, h)" "hosted_inv other drift (db0, h0)" "wd_wallets db tenant = Some w"
  shows "0 \<le> wl_reserved w \<and> wl_reserved w \<le> wl_balance w \<and> 0 \<le> wl_debt w \<and>
    wl_reserved w = outstanding db tenant + hosted_outstanding h tenant + other tenant \<and>
    wl_balance w - wl_debt w = ledger_sum db tenant + hosted_ledger_sum h tenant + drift tenant"
  using wallet_invD(1) [OF hosted_invD(3) [OF hosted_steps_inv [OF assms(1,2)]], of tenant] assms(3)
  by (simp add: account_ok_def wallet_check_def)

text \<open>C7.
  The life of a hosted reservation, along every interleaving of both stores. It is never lost, keeps
  its identity, tenant, amount and prices, and once settled or released it never changes again. Once
  it has been marked transmitted, the mark and its time stay for ever, and releasing it as unsent has
  no effect on any table in any later state: money behind a request that may have reached the
  supplier is freed only by settlement or by confirmed evidence that nothing was charged.
\<close>

theorem hosted_reservation_final:
  assumes "hosted_step\<^sup>*\<^sup>* st st'" "hosted_inv other drift st" "r \<in> set (hd_reservations (snd st))"
  shows "\<exists>r' \<in> set (hd_reservations (snd st')).
    ho_ID r' = ho_ID r \<and> ho_TenantID r' = ho_TenantID r \<and> ho_ReservedMicrousd r' = ho_ReservedMicrousd r \<and>
    ho_InputMicrousdPerMillion r' = ho_InputMicrousdPerMillion r \<and>
    ho_OutputMicrousdPerMillion r' = ho_OutputMicrousdPerMillion r \<and>
    (\<not> hosted_open r \<longrightarrow> r' = r) \<and>
    (ho_TransmittedAt r \<noteq> None \<longrightarrow> ho_TransmittedAt r' = ho_TransmittedAt r \<and>
       (\<forall>now reason. snd (ReleaseUnsentModelAPIUsage now st' (ho_TenantID r) (ho_ID r) reason) = st'))"
proof -
  obtain r' where r': "r' \<in> set (hd_reservations (snd st'))" "row_evolves r r'"
    using hosted_steps_evolve [OF assms(1,2)] assms(3) by (auto simp: hosted_evolves_def)
  have ok: "hosted_table_ok (snd st')" using hosted_steps_inv [OF assms(1,2)] by (simp add: hosted_inv_def)
  have "snd (ReleaseUnsentModelAPIUsage now st' (ho_TenantID r) (ho_ID r) reason) = st'"
    if "ho_TransmittedAt r \<noteq> None" for now reason
    using sent_never_released_unsent [OF ok r'(1)] r'(2) that by (simp add: row_evolves_def)
  with r' show ?thesis unfolding row_evolves_def by (intro bexI [OF _ r'(1)]) blast
qed

section \<open>An example\<close>

definition example_reservation :: reservation_request where
  "example_reservation = reservation_request_of serve_env serve_request example_lease (example_candidate ''stable'' 9000)"

definition example_offer :: supplier_offer where
  "example_offer =
     \<lparr>of_ID = ''offer'', of_Version = 1, of_Supplier = ''acme'', of_Adapter = ''plain'', of_SupplierModelID = ''m'',
      of_TupleKey = ''tuple'', of_Region = ''global'', of_Currency = ''USD'', of_InputMicrousdPerMTok = Some 50,
      of_OutputMicrousdPerMTok = Some 90, of_CachedInputMicrousdPerMTok = None, of_Provenance = ''invoice'',
      of_CostValidFrom = 1, of_CostValidUntil = 1000\<rparr>"

definition example_catalog :: catalog where
  "example_catalog =
     \<lparr>ct_entitlement = (\<lambda>_ _ _. Some \<lparr>er_operator_tenant_id = ''op'', er_serving_plan_id = ''plan'',
        er_supply_plan_id = ''supply'', er_retail_rate_card_id = ''rate'', er_retail_rate_version = 1,
        er_state = ''active'', er_requests_per_minute = None, er_tokens_per_minute = None,
        er_monthly_spend_microusd = None, er_max_request_microusd = 500, er_valid_from = 1, er_valid_until = None\<rparr>),
      ct_rate_card = (\<lambda>_ _ _. Some \<lparr>rcr_contract_digest = ''sha256:0'', rcr_input = 100, rcr_cached_input = None,
        rcr_output = 200, rcr_valid_from = 1, rcr_valid_until = 1000\<rparr>),
      ct_candidate = (\<lambda>_ _ _ _ _. Some (''acme'', ''m'', 1)), ct_offer = (\<lambda>_ _ _. Inr example_offer),
      ct_binding_count = (\<lambda>_ _ _. 0), ct_digest_rate = (\<lambda>_. Inr ''sha256:r''), ct_digest_result = (\<lambda>_. Inr ''sha256:x'')\<rparr>"

definition example_funded :: payment_db where
  "example_funded = snd (CreditManagedWallet (\<lambda>_. True) 4 empty_billing ''cust'' ''grant-1'' ''promo'' 5000000)"

definition empty_hosted :: hosted_db where
  "empty_hosted = \<lparr>hd_reservations = [], hd_ledger = [], hd_cogs = [], hd_evidence = []\<rparr>"

definition example_reserved :: "(store_error + hosted_row) \<times> payment_db \<times> hosted_db" where
  "example_reserved = ReserveModelAPIUsage example_catalog (example_funded, empty_hosted) example_reservation"

definition example_sent :: "(store_error + unit) \<times> payment_db \<times> hosted_db" where
  "example_sent = MarkModelAPIUsageTransmitted (snd example_reserved) ''cust'' ''r1'' 6"

lemma example_reservation_sel:
  "ReservationRequest_Validate example_reservation = None"
  "rq_TenantID example_reservation = ''cust''" "rq_ID example_reservation = ''r1''"
  "rq_MaxRequestMicrousd example_reservation = 500" "rq_CreatedAt example_reservation = 5"
  "rq_OperatorTenantID example_reservation = ''op''" "rq_Supplier example_reservation = ''acme''"
  by (simp_all add: example_reservation_def reservation_request_of_def serve_env_def serve_request_def
      example_lease_def example_route_def example_candidate_def ReservationRequest_Validate_def is_zero_time_def
      rate_currentAt_def HasPrefix_def)

lemma example_supplier_rate: "\<exists>rate. reservation_contract example_catalog example_reservation = Inr rate"
proof -
  have "canonical ''offer/supplier-cost''" "canonical ''offer''" by (rule canonicalI; simp)+
  note canon = this example_canonical
  have trim: "TrimSpace ''offer/supplier-cost'' = ''offer/supplier-cost''" "TrimSpace ''offer'' = ''offer''"
    "TrimSpace ''tuple'' = ''tuple''" "TrimSpace ''acme'' = ''acme''" "TrimSpace ''m'' = ''m''"
    "TrimSpace ''invoice'' = ''invoice''"
    using canon unfolding canonical_def by metis+
  have rate: "\<exists>rate. supplierRateForOffer (\<lambda>_. Inr ''sha256:r'') example_offer = Inr rate \<and>
      rd_ValidFrom (sr_Draft rate) = 1 \<and> rd_ValidUntil (sr_Draft rate) = 1000"
    by (simp add: supplierRateForOffer_def NewSupplierRate_def validateRateDraft_def example_offer_def trim is_zero_time_def)
  then obtain rate where "supplierRateForOffer (\<lambda>_. Inr ''sha256:r'') example_offer = Inr rate"
    "rd_ValidFrom (sr_Draft rate) = 1" "rd_ValidUntil (sr_Draft rate) = 1000" by blast
  then show ?thesis
    by (simp add: reservation_contract_def example_catalog_def example_reservation_def reservation_request_of_def
        serve_env_def serve_request_def example_lease_def example_route_def example_candidate_def
        entitlement_matches_def rate_card_matches_def requiresModelAPITargetBinding_def)
      (simp add: example_offer_def)
qed

lemma example_funded_wallet:
  "wd_wallets example_funded ''cust'' = Some \<lparr>wl_balance = 5000000, wl_reserved = 0, wl_debt = 0, wl_updated_at = 4\<rparr>"
  by (simp add: example_funded_def example_credit_defs)

lemma example_reserved_shape:
  "\<exists>r db. example_reserved = (Inr r, (db, empty_hosted\<lparr>hd_reservations := [r]\<rparr>)) \<and>
     ho_ID r = ''r1'' \<and> ho_TenantID r = ''cust'' \<and> ho_State r = HsReserved \<and> ho_TransmittedAt r = None \<and>
     ho_ReservedMicrousd r = 500 \<and> hosted_check r \<and> ho_CreatedAt r = 5 \<and> ho_Supplier r = ''acme'' \<and> (\<exists>w. wd_wallets db ''cust'' = Some w)"
proof -
  obtain rate where rate: "reservation_contract example_catalog example_reservation = Inr rate"
    using example_supplier_rate by blast
  let ?r = "new_hosted_row example_reservation rate"
  have check: "hosted_check ?r"
    by (simp add: hosted_check_def new_hosted_row_def example_reservation_sel)
  show ?thesis
    unfolding example_reserved_def ReserveModelAPIUsage_def example_reservation_sel option.case
    using check
    by (simp add: modelAPIReservationMaybe_def empty_hosted_def rate reserve_funds_def example_reservation_sel
        example_funded_wallet insert_hosted_def update_wallet_def wallet_check_def commit_tx_def Let_def
        i64_def is_i64_def min_i64_def max_i64_def)
      (simp add: new_hosted_row_def example_reservation_sel)
qed

lemma example_hosted_run:
  "hosted_step\<^sup>*\<^sup>* (empty_billing, empty_hosted) (snd example_reserved)"
  "hosted_step\<^sup>*\<^sup>* (empty_billing, empty_hosted) (snd example_sent)"
proof -
  have "billing_step empty_billing example_funded"
    unfolding example_funded_def by (rule billing_step.credit [OF prod.collapse [symmetric]])
  then have "hosted_step (empty_billing, empty_hosted) (example_funded, empty_hosted)" by (rule hosted_step.managed)
  moreover have "hosted_step (example_funded, empty_hosted) (snd example_reserved)"
    unfolding example_reserved_def by (rule hosted_step.reserve [OF prod.collapse [symmetric]])
  ultimately show reserved: "hosted_step\<^sup>*\<^sup>* (empty_billing, empty_hosted) (snd example_reserved)"
    by (rule rtranclp_two)
  have "hosted_step (snd example_reserved) (snd example_sent)"
    unfolding example_sent_def by (rule hosted_step.transmitted [OF prod.collapse [symmetric]])
  with reserved show "hosted_step\<^sup>*\<^sup>* (empty_billing, empty_hosted) (snd example_sent)" by simp
qed

lemma empty_hosted_inv: "hosted_inv (\<lambda>_. 0) (\<lambda>_. 0) (empty_billing, empty_hosted)"
  using empty_billing_inv
  by (simp add: hosted_inv_def empty_hosted_def hosted_table_ok_def hosted_outstanding_def hosted_ledger_sum_def)

theorem hosted_conservation_witness:
  "\<exists>w. wd_wallets (fst (snd example_reserved)) ''cust'' = Some w \<and>
     wl_reserved w = outstanding (fst (snd example_reserved)) ''cust'' + 500 \<and> wl_reserved w \<le> wl_balance w"
proof -
  obtain r db w where ex: "example_reserved = (Inr r, (db, empty_hosted\<lparr>hd_reservations := [r]\<rparr>))"
    "ho_TenantID r = ''cust''" "ho_State r = HsReserved" "ho_ReservedMicrousd r = 500" "wd_wallets db ''cust'' = Some w"
    using example_reserved_shape by blast
  have "hosted_outstanding (empty_hosted\<lparr>hd_reservations := [r]\<rparr>) ''cust'' = 500"
    using ex by (simp add: hosted_outstanding_def hosted_held_def hosted_open_def)
  with hosted_conservation [OF example_hosted_run(1) [unfolded ex(1) snd_conv] empty_hosted_inv ex(5)] ex(5)
  show ?thesis unfolding ex(1) by simp
qed

text \<open>Marking the example reservation at any time from its creation on.\<close>

lemma example_marked:
  assumes "5 \<le> now"
  shows "\<exists>r. fst (MarkModelAPIUsageTransmitted (snd example_reserved) ''cust'' ''r1'' now) = Inr () \<and>
    snd (snd (MarkModelAPIUsageTransmitted (snd example_reserved) ''cust'' ''r1'' now)) =
      empty_hosted\<lparr>hd_reservations := [r]\<rparr> \<and>
    ho_ID r = ''r1'' \<and> ho_TenantID r = ''cust'' \<and> ho_TransmittedAt r = Some now \<and>
    ho_Supplier r = ''acme'' \<and> ho_State r = HsTransmitted \<and> hosted_check r \<and> ho_UpdatedAt r = now"
proof -
  obtain r db where ex: "example_reserved = (Inr r, (db, empty_hosted\<lparr>hd_reservations := [r]\<rparr>))"
    "ho_ID r = ''r1''" "ho_TenantID r = ''cust''" "ho_State r = HsReserved" "hosted_check r" "ho_CreatedAt r = 5"
    "ho_TransmittedAt r = None" "ho_Supplier r = ''acme''"
    using example_reserved_shape by blast
  let ?r = "mark_transmitted now r"
  have find: "modelAPIReservationForUpdate (empty_hosted\<lparr>hd_reservations := [r]\<rparr>) ''cust'' ''r1'' = Inr r"
    using ex(2,3) by (simp add: modelAPIReservationForUpdate_def modelAPIReservationMaybe_def hosted_key_def)
  have check: "hosted_check ?r"
    using ex(5,6,7) assms by (simp add: hosted_check_def mark_transmitted_def split: option.splits)
  then have "set_hosted ''cust'' ''r1'' (mark_transmitted now) (empty_hosted\<lparr>hd_reservations := [r]\<rparr>) =
      Inr (empty_hosted\<lparr>hd_reservations := [?r]\<rparr>)"
    using ex(2,3) by (simp add: set_hosted_def hosted_key_def upd_where_def)
  with find ex(4) assms have "MarkModelAPIUsageTransmitted (snd example_reserved) ''cust'' ''r1'' now =
      (Inr (), (db, empty_hosted\<lparr>hd_reservations := [?r]\<rparr>))"
    by (simp add: ex(1) MarkModelAPIUsageTransmitted_def advanceModelAPIUsage_def is_zero_time_def commit_tx_def)
  moreover have "ho_ID ?r = ''r1''" "ho_TenantID ?r = ''cust''" "ho_TransmittedAt ?r = Some now"
    "ho_Supplier ?r = ''acme''" "ho_State ?r = HsTransmitted" "ho_UpdatedAt ?r = now"
    using ex by (simp_all add: mark_transmitted_def)
  ultimately show ?thesis using check by (intro exI [of _ ?r]) simp
qed

lemma example_mark: "fst (MarkModelAPIUsageTransmitted (snd example_reserved) ''cust'' ''r1'' 5) = Inr ()"
  using example_marked [of 5] by auto

theorem hosted_reservation_final_witness:
  "\<exists>r. hd_reservations (snd (snd example_sent)) = [r] \<and> ho_TransmittedAt r = Some 6 \<and>
     snd (ReleaseUnsentModelAPIUsage 9 (snd example_sent) ''cust'' ''r1'' ''client gone'') = snd example_sent"
proof -
  obtain r where r: "snd (snd example_sent) = empty_hosted\<lparr>hd_reservations := [r]\<rparr>"
    "ho_ID r = ''r1''" "ho_TenantID r = ''cust''" "ho_TransmittedAt r = Some 6"
    using example_marked [of 6] by (auto simp: example_sent_def)
  have "r \<in> set (hd_reservations (snd (snd example_sent)))" by (simp add: r(1))
  from hosted_reservation_final [OF rtranclp.rtrancl_refl hosted_steps_inv [OF example_hosted_run(2) empty_hosted_inv] this]
  show ?thesis using r by auto
qed


section \<open>The transmission fence as an interface\<close>

text \<open>
  What the request path relies on when it transmits: an acknowledged mark makes a reservation sent,
  a sent reservation stays sent whatever any client does, and releasing it as unsent is refused.
\<close>

locale transmission_fence =
  fixes mark :: "'s \<Rightarrow> string \<Rightarrow> string \<Rightarrow> gotime \<Rightarrow> ('e + unit) \<times> 's"
    and release_unsent :: "gotime \<Rightarrow> 's \<Rightarrow> string \<Rightarrow> string \<Rightarrow> string \<Rightarrow> ('e + unit) \<times> 's"
    and step :: "'s \<Rightarrow> 's \<Rightarrow> bool"
    and ok :: "'s \<Rightarrow> bool"
    and sent :: "'s \<Rightarrow> string \<Rightarrow> string \<Rightarrow> bool"
  assumes mark_step: "step s (snd (mark s t i now))"
    and ok_step: "ok s \<Longrightarrow> step s s' \<Longrightarrow> ok s'"
    and mark_sent: "ok s \<Longrightarrow> fst (mark s t i now) = Inr () \<Longrightarrow> sent (snd (mark s t i now)) t i"
    and sent_step: "ok s \<Longrightarrow> sent s t i \<Longrightarrow> step s s' \<Longrightarrow> sent s' t i"
    and sent_kept: "ok s \<Longrightarrow> sent s t i \<Longrightarrow> snd (release_unsent now s t i reason) = s"
begin

lemma fence_steps: "step\<^sup>*\<^sup>* s s' \<Longrightarrow> ok s \<Longrightarrow> sent s t i \<Longrightarrow> ok s' \<and> sent s' t i"
  by (induction rule: rtranclp_induct) (auto intro: ok_step sent_step)

lemma fence_holds:
  assumes "ok s" "fst (mark s t i now) = Inr ()" "step\<^sup>*\<^sup>* (snd (mark s t i now)) s'"
  shows "sent s' t i \<and> snd (release_unsent now' s' t i reason) = s'"
  using fence_steps [OF assms(3) ok_step [OF assms(1) mark_step] mark_sent [OF assms(1,2)]] sent_kept by blast

end

definition hosted_sent :: "payment_db \<times> hosted_db \<Rightarrow> string \<Rightarrow> string \<Rightarrow> bool" where
  "hosted_sent st tenant rid \<longleftrightarrow>
     (\<exists>r \<in> set (hd_reservations (snd st)). hosted_key tenant rid r \<and> ho_TransmittedAt r \<noteq> None)"

lemma mark_transmitted_sent:
  assumes "hosted_inv other drift st" "fst (MarkModelAPIUsageTransmitted st tenant rid now) = Inr ()"
  shows "hosted_sent (snd (MarkModelAPIUsageTransmitted st tenant rid now)) tenant rid"
proof -
  obtain db h where st: "st = (db, h)" by (cases st)
  have ok: "hosted_table_ok h" using assms(1) by (simp add: st hosted_inv_def)
  obtain r where found: "modelAPIReservationForUpdate h tenant rid = Inr r" and
    mark: "(ho_State r \<noteq> HsReserved \<and> ho_State r \<noteq> HsReleased \<and>
        snd (MarkModelAPIUsageTransmitted st tenant rid now) = (db, h)) \<or>
      (ho_State r = HsReserved \<and> (\<exists>h'. set_hosted tenant rid (mark_transmitted now) h = Inr h' \<and>
        snd (MarkModelAPIUsageTransmitted st tenant rid now) = (db, h')))"
    using assms(2) unfolding MarkModelAPIUsageTransmitted_def advanceModelAPIUsage_def st
    by (auto simp: commit_tx_def bind_err_def split: if_splits sum.splits)
  note r = reservation_found [OF found]
  from mark show ?thesis
  proof (elim disjE conjE exE)
    assume state: "ho_State r \<noteq> HsReserved" "ho_State r \<noteq> HsReleased"
      and same: "snd (MarkModelAPIUsageTransmitted st tenant rid now) = (db, h)"
    have "ho_TransmittedAt r \<noteq> None" using hosted_rowD(2) [OF ok r(1)] state by simp
    then show ?thesis unfolding hosted_sent_def same using r by auto
  next
    fix h'
    assume "set_hosted tenant rid (mark_transmitted now) h = Inr h'"
      and new: "snd (MarkModelAPIUsageTransmitted st tenant rid now) = (db, h')"
    then have "mark_transmitted now r \<in> set (hd_reservations h')"
      using set_hosted_Inr set_upd_where r by fastforce
    moreover have "hosted_key tenant rid (mark_transmitted now r)" "ho_TransmittedAt (mark_transmitted now r) \<noteq> None"
      using r(2) by (simp_all add: mark_transmitted_def hosted_key_def)
    ultimately show ?thesis unfolding hosted_sent_def new by auto
  qed
qed

lemma hosted_sent_step:
  assumes "hosted_inv other drift st" "hosted_sent st tenant rid" "hosted_step st st'"
  shows "hosted_sent st' tenant rid"
proof -
  obtain r where r: "r \<in> set (hd_reservations (snd st))" "hosted_key tenant rid r" "ho_TransmittedAt r \<noteq> None"
    using assms(2) by (auto simp: hosted_sent_def)
  have "hosted_evolves (snd st) (snd st')"
    using hosted_step_evolves [OF assms(3)] assms(1) by (simp add: hosted_inv_def)
  then obtain r' where "r' \<in> set (hd_reservations (snd st'))" "row_evolves r r'"
    using r(1) by (auto simp: hosted_evolves_def)
  with r show ?thesis by (auto simp: hosted_sent_def row_evolves_def hosted_key_def)
qed

lemma hosted_sent_kept:
  assumes "hosted_inv other drift st" "hosted_sent st tenant rid"
  shows "snd (ReleaseUnsentModelAPIUsage now st tenant rid reason) = st"
proof -
  obtain r where "r \<in> set (hd_reservations (snd st))" "hosted_key tenant rid r" "ho_TransmittedAt r \<noteq> None"
    using assms(2) by (auto simp: hosted_sent_def)
  with sent_never_released_unsent [of st r now reason] assms(1) show ?thesis
    by (simp add: hosted_inv_def hosted_key_def)
qed

interpretation hosted_fence: transmission_fence MarkModelAPIUsageTransmitted ReleaseUnsentModelAPIUsage hosted_step
  "hosted_inv other drift" hosted_sent for other drift
proof (unfold_locales, goal_cases)
  case (1 s t i now)
  show ?case by (rule hosted_step.transmitted [OF prod.collapse [symmetric]])
qed (auto intro: hosted_step_inv mark_transmitted_sent hosted_sent_step simp: hosted_sent_kept)

end
