(* ===== verification/Usage_Reconciler.thy ===== *)
theory Usage_Reconciler
  imports Hosted_Accounts Admission
begin

text \<open>
  The background pass that resolves ambiguous usage of the hosted Model API
  (\<open>internal/reconcile/model_api_usage.go\<close>): the resolvers of stored supplier evidence, their
  registry, the telemetry, and one pass over the reservations of the billing store
  (\<open>Hosted_Usage\<close>). The properties say when a pass may move money: only on authoritative evidence
  recorded for exactly that reservation, and then as the evidence says.
\<close>


section \<open>Evidence and resolvers\<close>

datatype usage_error = ErrUsageNotReady string | UsageErr string | UsageStoreErr store_error

record usage_evidence =
  ue_Usage :: "routing_usage option"
  ue_NoChargeConfirmed :: bool
  ue_Evidence :: string

type_synonym evidence_source = "string \<Rightarrow> string \<Rightarrow> store_error + evidence option"

record stored_resolver =
  sv_Supplier :: string
  sv_Source :: "evidence_source option"

definition ModelAPIUsageReconciliationEvidence :: "hosted_db \<Rightarrow> string \<Rightarrow> string \<Rightarrow> evidence option" where
  "ModelAPIUsageReconciliationEvidence h tenant reservationID =
     find (\<lambda>e. ed_TenantID e = tenant \<and> ed_ReservationID e = reservationID) (hd_evidence h)"

definition evidence_reference :: "evidence \<Rightarrow> string" where
  "evidence_reference e =
     ed_Authority e @ '':'' @ ed_Reference e @
     (if ed_SupplierRequestID e \<noteq> '''' then '':supplier_request='' @ ed_SupplierRequestID e else '''')"

definition evidence_outcome :: "evidence \<Rightarrow> usage_error + usage_evidence" where
  "evidence_outcome e =
     (if ed_Outcome e = ''no_charge''
        then Inr \<lparr>ue_Usage = None, ue_NoChargeConfirmed = True, ue_Evidence = evidence_reference e\<rparr>
      else if ed_Outcome e = ''usage'' then
        (if ed_InputTokens e = None \<or> ed_OutputTokens e = None
           then Inl (UsageErr ''supplier usage evidence is incomplete'')
         else Inr \<lparr>ue_Usage = Some \<lparr>ru_StatusCode = 0, ru_InputTokens = ed_InputTokens e,
                ru_CachedInputTokens = ed_CachedInputTokens e, ru_OutputTokens = ed_OutputTokens e\<rparr>,
              ue_NoChargeConfirmed = False, ue_Evidence = evidence_reference e\<rparr>)
      else Inl (UsageErr ''supplier usage evidence has an unsupported outcome''))"

definition stored_ResolveModelAPIUsage :: "stored_resolver \<Rightarrow> hosted_row \<Rightarrow> usage_error + usage_evidence" where
  "stored_ResolveModelAPIUsage r reservation =
     (if TrimSpace (sv_Supplier r) = '''' then Inl (UsageErr ''supplier usage resolver is not configured'')
      else case sv_Source r of
        None \<Rightarrow> Inl (UsageErr ''supplier usage resolver is not configured'')
      | Some source \<Rightarrow>
        if ho_Supplier reservation \<noteq> sv_Supplier r then Inl (UsageErr ''supplier resolver cannot resolve this supplier'')
        else (case source (ho_TenantID reservation) (ho_ID reservation) of
            Inl err \<Rightarrow> Inl (UsageStoreErr err)
          | Inr None \<Rightarrow> Inl (ErrUsageNotReady ''supplier usage is not ready'')
          | Inr (Some e) \<Rightarrow>
              if ed_Supplier e \<noteq> ho_Supplier reservation \<or> ed_ReservationID e \<noteq> ho_ID reservation \<or>
                 ed_TenantID e \<noteq> ho_TenantID reservation
                then Inl (UsageErr ''reconciliation evidence does not match the reserved supplier attempt'')
              else if ed_Authority e \<noteq> ''supplier_adapter'' \<and> ed_Authority e \<noteq> ''operator_verified''
                then Inl (UsageErr ''reconciliation evidence has no supported authority'')
              else evidence_outcome e))"

type_synonym resolver_registry = "string \<rightharpoonup> stored_resolver"

fun resolvers_loop :: "resolver_registry \<Rightarrow> stored_resolver list \<Rightarrow> string + resolver_registry" where
  "resolvers_loop registry [] = Inr registry"
| "resolvers_loop registry (resolver # rest) =
     (let name = TrimSpace (sv_Supplier resolver) in
      if name = '''' \<or> sv_Source resolver = None
        then Inl ''supplier reconciliation resolver requires a supplier and evidence source''
      else if registry name \<noteq> None then Inl ''supplier reconciliation resolver is duplicated''
      else resolvers_loop (registry(name \<mapsto> resolver\<lparr>sv_Supplier := name\<rparr>)) rest)"

definition NewSupplierUsageResolverRegistry :: "stored_resolver list \<Rightarrow> string + resolver_registry" where
  "NewSupplierUsageResolverRegistry resolvers = resolvers_loop (\<lambda>_. None) resolvers"

definition registry_ResolveModelAPIUsage ::
  "resolver_registry option \<Rightarrow> hosted_row \<Rightarrow> usage_error + usage_evidence" where
  "registry_ResolveModelAPIUsage registry reservation =
     (case registry of
        None \<Rightarrow> Inl (UsageErr ''supplier reconciliation registry is unavailable'')
      | Some resolvers \<Rightarrow>
          (case resolvers (ho_Supplier reservation) of
             None \<Rightarrow> Inl (ErrUsageNotReady ''supplier has no authoritative resolver'')
           | Some resolver \<Rightarrow> stored_ResolveModelAPIUsage resolver reservation))"


section \<open>Telemetry\<close>

record usage_telemetry =
  tl_runs :: int
  tl_failures :: int
  tl_settled :: int
  tl_released :: int
  tl_waiting :: int
  tl_backlog :: int
  tl_oldestAgeSeconds :: int

definition observeRun :: "usage_telemetry \<Rightarrow> usage_telemetry" where
  "observeRun t = t\<lparr>tl_runs := u64 (tl_runs t + 1)\<rparr>"

definition observeFailure :: "usage_telemetry \<Rightarrow> usage_telemetry" where
  "observeFailure t = t\<lparr>tl_failures := u64 (tl_failures t + 1)\<rparr>"

definition observeSettled :: "usage_telemetry \<Rightarrow> usage_telemetry" where
  "observeSettled t = t\<lparr>tl_settled := u64 (tl_settled t + 1)\<rparr>"

definition observeReleased :: "usage_telemetry \<Rightarrow> usage_telemetry" where
  "observeReleased t = t\<lparr>tl_released := u64 (tl_released t + 1)\<rparr>"

definition observeWaiting :: "usage_telemetry \<Rightarrow> usage_telemetry" where
  "observeWaiting t = t\<lparr>tl_waiting := u64 (tl_waiting t + 1)\<rparr>"

definition observeBacklog :: "int \<Rightarrow> gotime \<Rightarrow> gotime \<Rightarrow> usage_telemetry \<Rightarrow> usage_telemetry" where
  "observeBacklog backlog oldest now t =
     (let age = (if \<not> is_zero_time oldest \<and> now > oldest then quot (time_sub now oldest) Second else 0)
      in t\<lparr>tl_backlog := backlog, tl_oldestAgeSeconds := age\<rparr>)"

definition usage_WritePrometheus :: "usage_telemetry option \<Rightarrow> string" where
  "usage_WritePrometheus telemetry =
     (case telemetry of None \<Rightarrow> ''''
      | Some t \<Rightarrow>
          metric_lines ''infercrane_model_api_reconciliation_runs_total'' ''counter'' (tl_runs t) @
          metric_lines ''infercrane_model_api_reconciliation_failures_total'' ''counter'' (tl_failures t) @
          metric_lines ''infercrane_model_api_reconciliation_settled_total'' ''counter'' (tl_settled t) @
          metric_lines ''infercrane_model_api_reconciliation_released_total'' ''counter'' (tl_released t) @
          metric_lines ''infercrane_model_api_reconciliation_waiting_total'' ''counter'' (tl_waiting t) @
          metric_lines ''infercrane_model_api_reconciliation_backlog'' ''gauge'' (tl_backlog t) @
          metric_lines ''infercrane_model_api_reconciliation_oldest_age_seconds'' ''gauge'' (tl_oldestAgeSeconds t))"


section \<open>A pass\<close>

text \<open>
  The resolver reads the billing store while the pass runs, so it is a function of the store's
  current state. \<open>rn_dbnow\<close> gives the time the store reads in a call for a reservation. A missing
  telemetry is \<open>None\<close>; whether storage is configured is a flag.
\<close>

type_synonym billing_store = "payment_db \<times> hosted_db"

record usage_reconciler =
  rn_HasStore :: bool
  rn_Resolver :: "(billing_store \<Rightarrow> hosted_row \<Rightarrow> usage_error + usage_evidence) option"
  rn_Limit :: int
  rn_InFlightGrace :: duration
  rn_now :: gotime
  rn_dbnow :: "string \<Rightarrow> string \<Rightarrow> gotime"
  rn_catalog :: catalog

type_synonym pass_state = "usage_error list \<times> billing_store \<times> usage_telemetry option"

text \<open>What the pass does once the reservation is retained and the attempt is recorded.\<close>

definition apply_evidence ::
  "usage_reconciler \<Rightarrow> (billing_store \<Rightarrow> hosted_row \<Rightarrow> usage_error + usage_evidence) \<Rightarrow> hosted_row \<Rightarrow>
   pass_state \<Rightarrow> pass_state" where
  "apply_evidence r resolve reservation s =
     (case s of (failures, st, tel) \<Rightarrow>
        (case resolve st reservation of
           Inl err \<Rightarrow>
             (case err of ErrUsageNotReady _ \<Rightarrow> (failures, st, map_option observeWaiting tel)
              | _ \<Rightarrow> (failures @ [err], st, tel))
         | Inr evidence \<Rightarrow>
             if ue_NoChargeConfirmed evidence then
               (if ue_Evidence evidence = ''''
                  then (failures @ [UsageErr ''supplier no-charge result omitted evidence''], st, tel)
                else (case ConfirmNoChargeModelAPIUsage (rn_dbnow r ''no_charge'' (ho_ID reservation)) st
                    (ho_TenantID reservation) (ho_ID reservation) (ue_Evidence evidence) of
                  (Inl err, st') \<Rightarrow> (failures @ [UsageStoreErr err], st', tel)
                | (Inr _, st') \<Rightarrow> (failures, st', map_option observeReleased tel)))
             else (case ue_Usage evidence of
                 None \<Rightarrow> (failures, st, map_option observeWaiting tel)
               | Some usage \<Rightarrow>
                   if ru_InputTokens usage = None \<or> ru_OutputTokens usage = None
                     then (failures, st, map_option observeWaiting tel)
                   else (case SettleModelAPIUsage (rn_catalog r) (rn_dbnow r ''settle'' (ho_ID reservation)) st
                       (ho_TenantID reservation) (ho_ID reservation) usage of
                     (Inl err, st') \<Rightarrow> (failures @ [UsageStoreErr err], st', tel)
                   | (Inr _, st') \<Rightarrow> (failures, st', map_option observeSettled tel)))))"

definition reconcile_reservation ::
  "usage_reconciler \<Rightarrow> (billing_store \<Rightarrow> hosted_row \<Rightarrow> usage_error + usage_evidence) \<Rightarrow> hosted_row \<Rightarrow>
   pass_state \<Rightarrow> pass_state" where
  "reconcile_reservation r resolve reservation s =
     (case s of (failures, st, tel) \<Rightarrow>
        (case (if ho_State reservation \<noteq> HsPending
               then SettleModelAPIUsage (rn_catalog r) (rn_dbnow r ''retain'' (ho_ID reservation)) st
                  (ho_TenantID reservation) (ho_ID reservation) (no_usage 0)
               else (Inr reservation, st)) of
           (Inl err, st1) \<Rightarrow> (failures @ [UsageStoreErr err], st1, tel)
         | (Inr retained, st1) \<Rightarrow>
             (case RecordModelAPIUsageReconciliationAttempt st1 (ho_TenantID retained) (ho_ID retained) (rn_now r) of
                (Inl err, st2) \<Rightarrow> (failures @ [UsageStoreErr err], st2, tel)
              | (Inr _, st2) \<Rightarrow> apply_evidence r resolve retained (failures, st2, tel))))"

definition default_grace :: "duration \<Rightarrow> duration" where
  "default_grace grace = (if grace \<le> 0 then 10 * Minute else grace)"

definition backlog_oldest :: "gotime option \<Rightarrow> gotime" where
  "backlog_oldest oldest = (case oldest of None \<Rightarrow> 0 | Some t \<Rightarrow> t)"

text \<open>The result is the joined list of failures; the pass succeeds when it is empty.\<close>

definition usage_Once :: "usage_reconciler \<Rightarrow> billing_store \<Rightarrow> usage_telemetry option \<Rightarrow> pass_state" where
  "usage_Once r st tel =
     (case (rn_HasStore r, rn_Resolver r) of
        (True, Some resolve) \<Rightarrow>
          (let tel1 = map_option observeRun tel in
           case ReconcileableModelAPIUsageReservations (snd st) (rn_now r - default_grace (rn_InFlightGrace r)) (rn_Limit r) of
             Inl err \<Rightarrow> ([UsageStoreErr err], st, map_option observeFailure tel1)
           | Inr reservations \<Rightarrow>
               (case fold (reconcile_reservation r resolve) reservations ([], st, tel1) of
                  (failures, st', tel2) \<Rightarrow>
                    (case ModelAPIUsageReconciliationBacklog (snd st') of
                       (n, oldest) \<Rightarrow>
                         let tel3 = map_option (observeBacklog (int n) (backlog_oldest oldest) (rn_now r)) tel2
                         in (failures, st', if failures \<noteq> [] then map_option observeFailure tel3 else tel3))))
      | _ \<Rightarrow> ([UsageErr ''hosted Model API usage reconciler requires storage and a supplier resolver''], st, tel))"

text \<open>The resolver the program installs: the registry, reading the evidence of the store itself.\<close>

definition stored_resolver_at :: "string \<Rightarrow> billing_store \<Rightarrow> stored_resolver" where
  "stored_resolver_at supplier st =
     \<lparr>sv_Supplier = supplier,
      sv_Source = Some (\<lambda>tenant rid. Inr (ModelAPIUsageReconciliationEvidence (snd st) tenant rid))\<rparr>"

definition resolve_from_store :: "string list \<Rightarrow> billing_store \<Rightarrow> hosted_row \<Rightarrow> usage_error + usage_evidence" where
  "resolve_from_store suppliers st reservation =
     (case NewSupplierUsageResolverRegistry (map (\<lambda>s. stored_resolver_at s st) suppliers) of
        Inl err \<Rightarrow> Inl (UsageErr err)
      | Inr registry \<Rightarrow> registry_ResolveModelAPIUsage (Some registry) reservation)"

section \<open>What a pass changes\<close>

text \<open>When a reservation may be closed, and what the closed row must then show.\<close>

definition evidence_for :: "string list \<Rightarrow> hosted_row \<Rightarrow> evidence \<Rightarrow> bool" where
  "evidence_for suppliers r e \<longleftrightarrow>
     ed_ReservationID e = ho_ID r \<and> ed_TenantID e = ho_TenantID r \<and> ed_Supplier e = ho_Supplier r \<and>
     ho_Supplier r \<in> TrimSpace ` set suppliers \<and> ed_Authority e \<in> {''supplier_adapter'', ''operator_verified''}"

definition closed_as :: "hosted_row \<Rightarrow> evidence \<Rightarrow> hosted_row \<Rightarrow> bool" where
  "closed_as r e r' \<longleftrightarrow>
     (ed_Outcome e = ''no_charge'' \<and> ho_State r' = HsReleased) \<or>
     (ed_Outcome e = ''usage'' \<and> ho_State r' = HsSettled \<and>
      (\<exists>it ot cost. ed_InputTokens e = Some it \<and> ed_OutputTokens e = Some ot \<and>
         ho_InputTokens r' = Some it \<and> ho_OutputTokens r' = Some ot \<and>
         TokenCostMicrousd it ot (ho_InputMicrousdPerMillion r) (ho_OutputMicrousdPerMillion r) = Inr cost \<and>
         ho_ActualMicrousd r' = Some (min cost (ho_ReservedMicrousd r))))"

definition same_contract :: "hosted_row \<Rightarrow> hosted_row \<Rightarrow> bool" where
  "same_contract r r' \<longleftrightarrow>
     ho_ID r' = ho_ID r \<and> ho_TenantID r' = ho_TenantID r \<and> ho_Supplier r' = ho_Supplier r \<and>
     ho_ReservedMicrousd r' = ho_ReservedMicrousd r \<and>
     ho_InputMicrousdPerMillion r' = ho_InputMicrousdPerMillion r \<and>
     ho_OutputMicrousdPerMillion r' = ho_OutputMicrousdPerMillion r"

definition reconciled :: "string list \<Rightarrow> evidence list \<Rightarrow> hosted_row \<Rightarrow> hosted_row \<Rightarrow> bool" where
  "reconciled suppliers E r r' \<longleftrightarrow>
     same_contract r r' \<and> (\<not> hosted_open r \<longrightarrow> r' = r) \<and> (ho_State r \<noteq> HsReserved \<longrightarrow> ho_State r' \<noteq> HsReserved) \<and>
     (hosted_open r \<and> \<not> hosted_open r' \<longrightarrow> (\<exists>e \<in> set E. evidence_for suppliers r e \<and> closed_as r e r'))"

lemma same_contract_refl [simp]: "same_contract r r"
  by (simp add: same_contract_def)

lemma same_contract_trans: "same_contract a b \<Longrightarrow> same_contract b c \<Longrightarrow> same_contract a c"
  by (simp add: same_contract_def)

lemma contract_evidence: "same_contract a b \<Longrightarrow> evidence_for suppliers b e = evidence_for suppliers a e"
  by (simp add: same_contract_def evidence_for_def)

lemma contract_closed: "same_contract a b \<Longrightarrow> closed_as b e c = closed_as a e c"
  by (simp add: same_contract_def closed_as_def)

lemma reconciled_refl [simp]: "reconciled suppliers E r r"
  by (simp add: reconciled_def)

lemma reconciled_trans: "reconciled suppliers E a b \<Longrightarrow> reconciled suppliers E b c \<Longrightarrow> reconciled suppliers E a c"
  unfolding reconciled_def
  using same_contract_trans [of a b c] contract_evidence [of a b] contract_closed [of a b] by metis

lemma rows_reconciled_trans:
  "list_all2 (reconciled S E) xs ys \<Longrightarrow> list_all2 (reconciled S E) ys zs \<Longrightarrow> list_all2 (reconciled S E) xs zs"
  by (rule list_all2_trans) (rule reconciled_trans)

lemma rows_reconciled_refl [simp]: "list_all2 (reconciled S E) xs xs"
  by (simp add: list_all2_same)

lemma upd_where_related:
  assumes "\<And>x. R x x" "\<And>x. x \<in> set xs \<Longrightarrow> P x \<Longrightarrow> R x (f x)"
  shows "list_all2 R xs (upd_where P f xs)"
  using assms unfolding upd_where_def list_all2_map2 by (simp add: list_all2_same)

lemma contract_key: "same_contract r r' \<Longrightarrow> hosted_key tenant rid r' = hosted_key tenant rid r"
  by (simp add: same_contract_def hosted_key_def)


subsection \<open>The registry\<close>

lemma resolvers_loop_sound:
  assumes "resolvers_loop registry resolvers = Inr result" "result k = Some x"
    and "\<And>k x. registry k = Some x \<Longrightarrow> sv_Supplier x = k \<and> P k (sv_Source x)"
    and "\<And>y. y \<in> set resolvers \<Longrightarrow> P (TrimSpace (sv_Supplier y)) (sv_Source y)"
  shows "sv_Supplier x = k \<and> P k (sv_Source x)"
  using assms
proof (induction resolvers arbitrary: registry)
  case (Cons y ys)
  let ?name = "TrimSpace (sv_Supplier y)"
  have loop: "resolvers_loop (registry(?name \<mapsto> y\<lparr>sv_Supplier := ?name\<rparr>)) ys = Inr result"
    using Cons.prems(1) by (simp add: Let_def split: if_splits)
  show ?case
    by (rule Cons.IH [OF loop Cons.prems(2)]) (use Cons.prems(3,4) in \<open>auto split: if_splits\<close>)
qed simp

lemma evidence_found:
  "ModelAPIUsageReconciliationEvidence h tenant rid = Some e \<Longrightarrow>
   e \<in> set (hd_evidence h) \<and> ed_TenantID e = tenant \<and> ed_ReservationID e = rid"
  unfolding ModelAPIUsageReconciliationEvidence_def by (auto simp: find_Some_iff)

text \<open>The registry resolves a reservation only from evidence recorded for it.\<close>

lemma resolve_sound:
  assumes "resolve_from_store suppliers st r = Inr ev"
  shows "\<exists>e \<in> set (hd_evidence (snd st)). evidence_for suppliers r e \<and> evidence_outcome e = Inr ev"
proof -
  let ?source = "\<lambda>tenant rid. Inr (ModelAPIUsageReconciliationEvidence (snd st) tenant rid) :: store_error + evidence option"
  obtain registry where reg: "resolvers_loop (\<lambda>_. None) (map (\<lambda>s. stored_resolver_at s st) suppliers) = Inr registry"
    and res: "registry_ResolveModelAPIUsage (Some registry) r = Inr ev"
    using assms by (auto simp: resolve_from_store_def NewSupplierUsageResolverRegistry_def split: sum.splits)
  then obtain x where x: "registry (ho_Supplier r) = Some x" "stored_ResolveModelAPIUsage x r = Inr ev"
    by (auto simp: registry_ResolveModelAPIUsage_def split: option.splits)
  have "sv_Supplier x = ho_Supplier r \<and> (ho_Supplier r \<in> TrimSpace ` set suppliers \<and> sv_Source x = Some ?source)"
    by (rule resolvers_loop_sound [OF reg x(1), where P = "\<lambda>k s. k \<in> TrimSpace ` set suppliers \<and> s = Some ?source"])
      (auto simp: stored_resolver_at_def)
  with x(2) obtain e where "ModelAPIUsageReconciliationEvidence (snd st) (ho_TenantID r) (ho_ID r) = Some e"
    "ed_Supplier e = ho_Supplier r" "ed_Authority e \<in> {''supplier_adapter'', ''operator_verified''}"
    "evidence_outcome e = Inr ev" "ho_Supplier r \<in> TrimSpace ` set suppliers"
    by (auto simp: stored_ResolveModelAPIUsage_def split: if_splits option.splits)
  with evidence_found show ?thesis unfolding evidence_for_def by blast
qed

lemma outcome_no_charge:
  "evidence_outcome e = Inr ev \<Longrightarrow> ue_NoChargeConfirmed ev \<Longrightarrow> ed_Outcome e = ''no_charge''"
  by (auto simp: evidence_outcome_def split: if_splits)

lemma outcome_usage:
  "evidence_outcome e = Inr ev \<Longrightarrow> \<not> ue_NoChargeConfirmed ev \<Longrightarrow> ue_Usage ev = Some usage \<Longrightarrow>
   ed_Outcome e = ''usage'' \<and> ru_InputTokens usage = ed_InputTokens e \<and> ru_OutputTokens usage = ed_OutputTokens e"
  by (auto simp: evidence_outcome_def split: if_splits)

subsection \<open>The calls of a pass\<close>

lemma settle_effect:
  assumes "SettleModelAPIUsage cat now (db, h) tenant rid usage = (res, (db', h'))" "hosted_table_ok h"
  obtains (nothing) "h' = h" "\<And>out. res = Inr out \<Longrightarrow> modelAPIReservationForUpdate h tenant rid = Inr out"
  | (pending) r stamp where "modelAPIReservationForUpdate h tenant rid = Inr r" "hosted_open r"
      "ru_InputTokens usage = None \<or> ru_OutputTokens usage = None" "res = Inr (hosted_pending stamp r)"
      "hd_reservations h' = upd_where (hosted_key tenant rid) (hosted_pending stamp) (hd_reservations h)"
      "hd_evidence h' = hd_evidence h"
  | (settled) r it ot cost resolution stamp where "modelAPIReservationForUpdate h tenant rid = Inr r" "hosted_open r"
      "ru_InputTokens usage = Some it" "ru_OutputTokens usage = Some ot"
      "TokenCostMicrousd it ot (ho_InputMicrousdPerMillion r) (ho_OutputMicrousdPerMillion r) = Inr cost"
      "hd_reservations h' = upd_where (hosted_key tenant rid)
        (hosted_settled (min cost (ho_ReservedMicrousd r)) it (ru_CachedInputTokens usage) ot resolution stamp) (hd_reservations h)"
      "hd_evidence h' = hd_evidence h"
proof -
  consider "h' = h" "\<And>out. res = Inr out \<Longrightarrow> modelAPIReservationForUpdate h tenant rid = Inr out"
    | r out where "modelAPIReservationForUpdate h tenant rid = Inr r" "hosted_open r" "res = Inr out"
    "settle_transmitted cat (modelAPIUsageMutationTime r now) (db, h) tenant usage r = Inr (out, (db', h'))"
    using assms(1) unfolding SettleModelAPIUsage_def
    by (auto simp: commit_tx_def bind_err_def hosted_open_def split: if_splits sum.splits)
  then show thesis
  proof cases
    case (2 r out)
    note r = reservation_found [OF 2(1)]
    from 2(4) show thesis
    proof (cases rule: settle_transmitted_cases)
      case (pending h1)
      then show thesis using set_hosted_Inr [OF pending(1)] r that(2) [OF 2(1,2) pending(4)] 2(3) by simp
    next
      case (booked it ot cost actual resolution offer rate cogs)
      have actual: "actual = min cost (ho_ReservedMicrousd r)"
        using booked(4) by (auto simp: hosted_charge_def split: if_splits)
      have "hd_evidence h1 = hd_evidence h" if "insert_hosted_ledger l h = Inr h1" for l h1
        using that by (auto simp: insert_hosted_ledger_def split: if_splits)
      then have "hd_evidence h' = hd_evidence h"
        using booked(7) by (auto simp: book_settlement_def bind_err_Inr dest!: set_hosted_Inr)
      then show thesis using that(3) [OF 2(1,2) booked(1-3)] book_settlement_rows [OF booked(7)] r actual by simp
    qed
  qed (use that(1) in blast)
qed

lemma no_charge_effect:
  assumes "ConfirmNoChargeModelAPIUsage now (db, h) tenant rid reason = (res, (db', h'))"
  obtains (nothing) "h' = h"
  | (released) r msg stamp where "modelAPIReservationForUpdate h tenant rid = Inr r" "hosted_open r"
      "hd_reservations h' = upd_where (hosted_key tenant rid) (hosted_released msg stamp) (hd_reservations h)"
      "hd_evidence h' = hd_evidence h"
proof -
  consider "h' = h" | r where "modelAPIReservationForUpdate h tenant rid = Inr r" "hosted_open r"
    "free_reservation (db, h) tenant r (''supplier confirmed no charge: '' @ reason)
       (modelAPIUsageMutationTime r now) = Inr ((), (db', h'))"
    using assms(1) unfolding ConfirmNoChargeModelAPIUsage_def
    by (auto simp: commit_tx_def bind_err_def hosted_open_def split: if_splits sum.splits)
  then show thesis
  proof cases
    case (2 r)
    have "hd_evidence h' = hd_evidence h"
      using 2(3) by (auto simp: free_reservation_def bind_err_Inr dest!: set_hosted_Inr)
    then show thesis using that(2) [OF 2(1,2)] free_reservation_rows [OF 2(3)] reservation_found [OF 2(1)] by simp
  qed (use that(1) in blast)
qed

lemma list_all2_in_set1: "list_all2 P xs ys \<Longrightarrow> x \<in> set xs \<Longrightarrow> \<exists>y \<in> set ys. P x y"
  by (metis in_set_conv_nth list_all2_conv_all_nth)

text \<open>The row a call addresses is the one that developed from the listed reservation.\<close>

lemma current_row:
  assumes "list_all2 (reconciled S E) rows (hd_reservations h)" "row \<in> set rows" "hosted_table_ok h"
    "modelAPIReservationForUpdate h (ho_TenantID row) (ho_ID row) = Inr r"
  shows "same_contract row r"
proof -
  obtain r' where r': "r' \<in> set (hd_reservations h)" "reconciled S E row r'"
    using assms(1,2) by (metis list_all2_in_set1)
  then have same: "same_contract row r'" by (simp add: reconciled_def)
  then have "hosted_key (ho_TenantID row) (ho_ID row) r'" by (simp add: same_contract_def hosted_key_def)
  then have "r = r'"
    using hosted_key_unique [OF assms(3) r'(1)] reservation_found [OF assms(4)] by metis
  with same show ?thesis by simp
qed

lemma reconciled_update:
  assumes "hosted_table_ok h" "modelAPIReservationForUpdate h tenant rid = Inr r"
    "reconciled S E r (f r)"
  shows "list_all2 (reconciled S E) (hd_reservations h) (upd_where (hosted_key tenant rid) f (hd_reservations h))"
proof (rule upd_where_related)
  fix x
  assume "x \<in> set (hd_reservations h)" "hosted_key tenant rid x"
  then have "x = r" using hosted_key_unique [OF assms(1)] reservation_found [OF assms(2)] by blast
  then show "reconciled S E x (f x)" using assms(3) by simp
qed simp

subsection \<open>Every pass is a run of the store\<close>

definition pass_ok ::
  "(string \<Rightarrow> int) \<Rightarrow> (string \<Rightarrow> int) \<Rightarrow> string list \<Rightarrow> billing_store \<Rightarrow> billing_store \<Rightarrow> bool" where
  "pass_ok other drift suppliers st st' \<longleftrightarrow>
     hosted_step\<^sup>*\<^sup>* st st' \<and> hosted_inv other drift st' \<and> hd_evidence (snd st') = hd_evidence (snd st) \<and>
     list_all2 (reconciled suppliers (hd_evidence (snd st))) (hd_reservations (snd st)) (hd_reservations (snd st'))"

lemma pass_ok_refl: "hosted_inv other drift st \<Longrightarrow> pass_ok other drift S st st"
  by (simp add: pass_ok_def)

lemma pass_ok_trans: "pass_ok other drift S a b \<Longrightarrow> pass_ok other drift S b c \<Longrightarrow> pass_ok other drift S a c"
  unfolding pass_ok_def by (metis rows_reconciled_trans rtranclp_trans)

lemma pass_okI:
  assumes "hosted_inv other drift st" "hosted_step st st'" "hd_evidence (snd st') = hd_evidence (snd st)"
    "list_all2 (reconciled S (hd_evidence (snd st))) (hd_reservations (snd st)) (hd_reservations (snd st'))"
  shows "pass_ok other drift S st st'"
  using assms hosted_step_inv [OF assms(2,1)] by (simp add: pass_ok_def r_into_rtranclp)

lemma retain_ok:
  assumes "SettleModelAPIUsage cat now st tenant rid (no_usage 0) = (res, st')" "hosted_inv other drift st"
  shows "pass_ok other drift S st st'"
proof -
  obtain db h db' h' where st: "st = (db, h)" "st' = (db', h')" by (cases st; cases st')
  have tab: "hosted_table_ok h" using assms(2) by (simp add: hosted_inv_def st)
  have step: "hosted_step st st'" using assms(1) by (rule hosted_step.settle)
  from assms(1) [unfolded st] tab show ?thesis
  proof (cases rule: settle_effect)
    case nothing
    then show ?thesis using pass_okI [OF assms(2) step] by (simp add: st)
  next
    case (pending r stamp)
    have "reconciled S (hd_evidence h) r (hosted_pending stamp r)"
      using pending(2) by (simp add: reconciled_def same_contract_def hosted_pending_def hosted_open_def)
    with reconciled_update [OF tab pending(1)] show ?thesis
      by (intro pass_okI [OF assms(2) step]) (simp_all add: st pending(5,6))
  qed (simp add: no_usage_def)
qed

lemma attempt_ok:
  assumes "RecordModelAPIUsageReconciliationAttempt st tenant rid now = (res, st')" "hosted_inv other drift st"
  shows "pass_ok other drift S st st'"
proof (rule pass_okI [OF assms(2) hosted_step.attempt [OF assms(1)]])
  show "hd_evidence (snd st') = hd_evidence (snd st)"
    using assms(1) by (auto simp: RecordModelAPIUsageReconciliationAttempt_def split: if_splits)
  have "list_all2 (reconciled S E) rows (upd_where (\<lambda>r. hosted_key tenant rid r \<and> ambiguous (ho_State r))
      (\<lambda>r. r\<lparr>ho_Attempts := ho_Attempts r + 1, ho_LastAttemptedAt := Some now\<rparr>) rows)" for E rows
    by (rule upd_where_related) (auto simp: reconciled_def same_contract_def hosted_open_def ambiguous_def)
  then show "list_all2 (reconciled S (hd_evidence (snd st))) (hd_reservations (snd st)) (hd_reservations (snd st'))"
    using assms(1) by (auto simp: RecordModelAPIUsageReconciliationAttempt_def split: if_splits)
qed

text \<open>
  Applying evidence to a reservation: the row closed is justified by the evidence the resolver
  returned for a row with the same contract.
\<close>

lemma settle_on_evidence_ok:
  assumes "SettleModelAPIUsage cat now st (ho_TenantID row) (ho_ID row) usage = (res, st')" "hosted_inv other drift st"
    and current: "\<And>r. modelAPIReservationForUpdate (snd st) (ho_TenantID row) (ho_ID row) = Inr r \<Longrightarrow> same_contract row r"
    and e: "e \<in> set (hd_evidence (snd st))" "evidence_for S row e" "ed_Outcome e = ''usage''"
      "ru_InputTokens usage = ed_InputTokens e" "ru_OutputTokens usage = ed_OutputTokens e"
  shows "pass_ok other drift S st st'"
proof -
  obtain db h db' h' where st: "st = (db, h)" "st' = (db', h')" by (cases st; cases st')
  have tab: "hosted_table_ok h" using assms(2) by (simp add: hosted_inv_def st)
  note ok = pass_okI [OF assms(2) hosted_step.settle [OF assms(1)]]
  from assms(1) [unfolded st] tab show ?thesis
  proof (cases rule: settle_effect)
    case nothing
    then show ?thesis using ok by (simp add: st)
  next
    case (pending r stamp)
    have "reconciled S (hd_evidence h) r (hosted_pending stamp r)"
      using pending(2) by (simp add: reconciled_def same_contract_def hosted_pending_def hosted_open_def)
    with reconciled_update [OF tab pending(1)] show ?thesis by (intro ok) (simp_all add: st pending(5,6))
  next
    case (settled r it ot cost resolution stamp)
    let ?f = "hosted_settled (min cost (ho_ReservedMicrousd r)) it (ru_CachedInputTokens usage) ot resolution stamp"
    have same: "same_contract row r" using current settled(1) by (simp add: st)
    have "closed_as r e (?f r)"
      using e(3) e(4,5) [symmetric] settled(3-5) by (simp add: closed_as_def hosted_settled_def)
    then have "reconciled S (hd_evidence h) r (?f r)"
      using settled(2) e(1,2) contract_evidence [OF same]
      by (auto simp: reconciled_def same_contract_def hosted_settled_def hosted_open_def st)
    with reconciled_update [OF tab settled(1)] show ?thesis by (intro ok) (simp_all add: st settled(6,7))
  qed
qed

lemma no_charge_on_evidence_ok:
  assumes "ConfirmNoChargeModelAPIUsage now st (ho_TenantID row) (ho_ID row) reason = (res, st')" "hosted_inv other drift st"
    and current: "\<And>r. modelAPIReservationForUpdate (snd st) (ho_TenantID row) (ho_ID row) = Inr r \<Longrightarrow> same_contract row r"
    and e: "e \<in> set (hd_evidence (snd st))" "evidence_for S row e" "ed_Outcome e = ''no_charge''"
  shows "pass_ok other drift S st st'"
proof -
  obtain db h db' h' where st: "st = (db, h)" "st' = (db', h')" by (cases st; cases st')
  have tab: "hosted_table_ok h" using assms(2) by (simp add: hosted_inv_def st)
  note ok = pass_okI [OF assms(2) hosted_step.no_charge [OF assms(1)]]
  from assms(1) [unfolded st] show ?thesis
  proof (cases rule: no_charge_effect)
    case nothing
    then show ?thesis using ok by (simp add: st)
  next
    case (released r msg stamp)
    have same: "same_contract row r" using current released(1) by (simp add: st)
    have "closed_as r e (hosted_released msg stamp r)"
      using e(3) by (simp add: closed_as_def hosted_released_def)
    then have "reconciled S (hd_evidence h) r (hosted_released msg stamp r)"
      using released(2) e(1,2) contract_evidence [OF same]
      by (auto simp: reconciled_def same_contract_def hosted_released_def hosted_open_def st)
    with reconciled_update [OF tab released(1)] show ?thesis by (intro ok) (simp_all add: st released(3,4))
  qed
qed

lemma apply_evidence_ok:
  assumes "apply_evidence r (resolve_from_store S) row (failures, st, tel) = (failures', st', tel')"
    "hosted_inv other drift st"
    "\<And>x. modelAPIReservationForUpdate (snd st) (ho_TenantID row) (ho_ID row) = Inr x \<Longrightarrow> same_contract row x"
  shows "pass_ok other drift S st st'"
proof (cases "st' = st")
  case True
  then show ?thesis using pass_ok_refl [OF assms(2)] by simp
next
  case False
  then obtain ev where ev: "resolve_from_store S st row = Inr ev"
    using assms(1) by (auto simp: apply_evidence_def split: sum.splits usage_error.splits)
  then obtain e where e: "e \<in> set (hd_evidence (snd st))" "evidence_for S row e" "evidence_outcome e = Inr ev"
    using resolve_sound by blast
  show ?thesis
  proof (cases "ue_NoChargeConfirmed ev")
    case True
    then obtain res where "ConfirmNoChargeModelAPIUsage (rn_dbnow r ''no_charge'' (ho_ID row)) st (ho_TenantID row) (ho_ID row)
        (ue_Evidence ev) = (res, st')"
      using assms(1) False ev by (auto simp: apply_evidence_def split: if_splits prod.splits sum.splits)
    from no_charge_on_evidence_ok [OF this assms(2,3) e(1,2) outcome_no_charge [OF e(3) True]] show ?thesis .
  next
    case charged: False
    then obtain usage res where u: "ue_Usage ev = Some usage"
      "SettleModelAPIUsage (rn_catalog r) (rn_dbnow r ''settle'' (ho_ID row)) st (ho_TenantID row) (ho_ID row) usage = (res, st')"
      using assms(1) False ev by (auto simp: apply_evidence_def split: if_splits prod.splits sum.splits option.splits)
    from settle_on_evidence_ok [OF u(2) assms(2,3) e(1,2)] outcome_usage [OF e(3) charged u(1)] show ?thesis by simp
  qed
qed

lemma retained_contract:
  assumes "SettleModelAPIUsage cat now st tenant rid usage = (Inr out, st')" "hosted_table_ok (snd st)"
    "ru_InputTokens usage = None"
  shows "\<exists>r. modelAPIReservationForUpdate (snd st) tenant rid = Inr r \<and> same_contract r out"
proof -
  obtain db h db' h' where st: "st = (db, h)" "st' = (db', h')" by (cases st; cases st')
  from assms(1) [unfolded st] assms(2) [unfolded st snd_conv] show ?thesis
  proof (cases rule: settle_effect)
    case nothing
    then show ?thesis by (simp add: st)
  next
    case (pending r stamp)
    then show ?thesis by (simp add: st same_contract_def hosted_pending_def)
  qed (use assms(3) in simp)
qed

text \<open>Along a pass the row of a listed reservation keeps its contract.\<close>

lemma pass_ok_current:
  assumes "pass_ok other drift S st st'" "row \<in> set (hd_reservations (snd st))" "same_contract row row'"
    "modelAPIReservationForUpdate (snd st') (ho_TenantID row') (ho_ID row') = Inr x"
  shows "same_contract row' x"
proof -
  have key: "ho_TenantID row' = ho_TenantID row" "ho_ID row' = ho_ID row" using assms(3) by (simp_all add: same_contract_def)
  have "same_contract row x"
    by (rule current_row [of S "hd_evidence (snd st)" "hd_reservations (snd st)" "snd st'"])
      (use assms(1,2,4) in \<open>simp_all add: pass_ok_def hosted_inv_def key\<close>)
  with assms(3) show ?thesis by (simp add: same_contract_def)
qed

lemma reconcile_reservation_ok:
  assumes run: "reconcile_reservation r (resolve_from_store S) row (failures, st, tel) = (failures', st', tel')"
    and ok: "pass_ok other drift S st0 st" and row: "row \<in> set (hd_reservations (snd st0))"
  shows "pass_ok other drift S st st'"
proof -
  have inv: "hosted_inv other drift st" using ok by (simp add: pass_ok_def)
  obtain res1 st1 where first: "(if ho_State row \<noteq> HsPending
      then SettleModelAPIUsage (rn_catalog r) (rn_dbnow r ''retain'' (ho_ID row)) st (ho_TenantID row) (ho_ID row) (no_usage 0)
      else (Inr row, st)) = (res1, st1)" by (rule prod.exhaust)
  have ok1: "pass_ok other drift S st st1"
    using first retain_ok [OF _ inv] pass_ok_refl [OF inv] by (auto split: if_splits)
  show ?thesis
  proof (cases res1)
    case (Inl err)
    then show ?thesis using run first ok1 by (auto simp: reconcile_reservation_def)
  next
    case (Inr retained)
    have same: "same_contract row retained"
    proof (cases "ho_State row = HsPending")
      case False
      then obtain x where "modelAPIReservationForUpdate (snd st) (ho_TenantID row) (ho_ID row) = Inr x" "same_contract x retained"
        using retained_contract first Inr inv by (fastforce simp: hosted_inv_def no_usage_def)
      with pass_ok_current [OF ok row, of row] show ?thesis using same_contract_trans by auto
    qed (use first Inr in simp)
    obtain res2 st2 where second: "RecordModelAPIUsageReconciliationAttempt st1 (ho_TenantID retained) (ho_ID retained) (rn_now r)
      = (res2, st2)" by (rule prod.exhaust)
    have here: "pass_ok other drift S st st2"
      using ok1 attempt_ok [OF second] pass_ok_trans by (metis pass_ok_def)
    note ok2 = pass_ok_trans [OF ok here]
    show ?thesis
    proof (cases res2)
      case (Inl err)
      then show ?thesis using run first second Inr here by (simp add: reconcile_reservation_def)
    next
      case res2: (Inr u)
      then have last: "apply_evidence r (resolve_from_store S) retained (failures, st2, tel) = (failures', st', tel')"
        using run first second Inr by (simp add: reconcile_reservation_def)
      have "pass_ok other drift S st2 st'"
        by (rule apply_evidence_ok [OF last]) (use ok2 pass_ok_current [OF ok2 row same] in \<open>simp_all add: pass_ok_def\<close>)
      with here pass_ok_trans show ?thesis by blast
    qed
  qed
qed

lemma reconcile_fold_ok:
  assumes "fold (reconcile_reservation r (resolve_from_store S)) rows (failures, st, tel) = (failures', st', tel')"
    "pass_ok other drift S st0 st" "set rows \<subseteq> set (hd_reservations (snd st0))"
  shows "pass_ok other drift S st st'"
  using assms
proof (induction rows arbitrary: failures st tel)
  case (Cons row rows)
  obtain f1 st1 tel1 where one: "reconcile_reservation r (resolve_from_store S) row (failures, st, tel) = (f1, st1, tel1)"
    by (rule prod_cases3)
  have here: "pass_ok other drift S st st1"
    by (rule reconcile_reservation_ok [OF one Cons.prems(2)]) (use Cons.prems(3) in simp)
  have "pass_ok other drift S st1 st'"
    by (rule Cons.IH [of f1 st1 tel1]) (use Cons.prems one pass_ok_trans [OF Cons.prems(2) here] in simp_all)
  with here pass_ok_trans show ?case by blast
qed (simp add: pass_ok_def)

lemma listed_rows:
  "ReconcileableModelAPIUsageReservations h staleBefore limit = Inr rows \<Longrightarrow> set rows \<subseteq> set (hd_reservations h)"
  by (auto simp: ReconcileableModelAPIUsageReservations_def split: if_splits dest!: in_set_takeD)

theorem usage_Once_ok:
  assumes "usage_Once r st tel = (failures, st', tel')" "rn_Resolver r = Some (resolve_from_store S)"
    "hosted_inv other drift st"
  shows "pass_ok other drift S st st'"
proof -
  consider "st' = st" | rows failures2 tel1 tel2 where
    "ReconcileableModelAPIUsageReservations (snd st) (rn_now r - default_grace (rn_InFlightGrace r)) (rn_Limit r) = Inr rows"
    "fold (reconcile_reservation r (resolve_from_store S)) rows ([], st, tel1) = (failures2, st', tel2)"
    using assms(1,2) unfolding usage_Once_def by (auto simp: Let_def split: bool.splits sum.splits prod.splits if_splits)
  then show ?thesis
  proof cases
    case 2
    from reconcile_fold_ok [OF 2(2) pass_ok_refl [OF assms(3)] listed_rows [OF 2(1)]] show ?thesis .
  qed (use pass_ok_refl [OF assms(3)] in simp)
qed

section \<open>Properties\<close>

text \<open>C23.
  The reconciler never guesses. A pass of the usage reconciler over the billing store is a run of the
  store's own operations, and an open reservation comes out of it either still open, with its money
  still held, or closed on authoritative evidence that was recorded for exactly this reservation,
  tenant and supplier, a supplier with a registered resolver: released if the evidence confirms that
  nothing was charged, or settled with exactly the recorded token counts, for their cost at the
  reserved prices but at most the reservation.
\<close>

theorem reconciler_never_guesses:
  assumes "usage_Once r st tel = (failures, st', tel')" "rn_Resolver r = Some (resolve_from_store suppliers)"
    "hosted_inv other drift st" "row \<in> set (hd_reservations (snd st))" "hosted_open row"
  shows "hosted_step\<^sup>*\<^sup>* st st' \<and> (\<exists>row' \<in> set (hd_reservations (snd st')). same_contract row row' \<and>
    (hosted_open row' \<or>
     (\<exists>e \<in> set (hd_evidence (snd st)). evidence_for suppliers row e \<and> closed_as row e row')))"
proof -
  note ok = usage_Once_ok [OF assms(1-3)]
  obtain row' where "row' \<in> set (hd_reservations (snd st'))"
    "reconciled suppliers (hd_evidence (snd st)) row row'"
    using ok list_all2_in_set1 [OF _ assms(4)] unfolding pass_ok_def by blast
  then show ?thesis using ok assms(5) unfolding pass_ok_def reconciled_def by blast
qed

section \<open>Evidence is acted on\<close>

text \<open>Every row meets the constraints of its table; the calls of a pass keep it so.\<close>

definition hosted_checked :: "hosted_db \<Rightarrow> bool" where
  "hosted_checked h \<longleftrightarrow> (\<forall>r \<in> set (hd_reservations h). hosted_check r)"

lemma set_hosted_checked: "set_hosted tenant rid f h = Inr h' \<Longrightarrow> hosted_checked h \<Longrightarrow> hosted_checked h'"
  by (auto simp: set_hosted_def Let_def hosted_checked_def upd_where_def list_all_iff split: if_splits)

lemma ledger_checked: "insert_hosted_ledger l h = Inr h' \<Longrightarrow> hosted_checked h' = hosted_checked h"
  by (auto simp: insert_hosted_ledger_def hosted_checked_def split: if_splits)

lemma cogs_checked [simp]: "hosted_checked (insert_cogs c h) = hosted_checked h"
  by (simp add: hosted_checked_def)

lemma book_settlement_checked:
  "book_settlement st tenant row it cached ot actual resolution cogs stamp = Inr (out, st') \<Longrightarrow>
   hosted_checked (snd st) \<Longrightarrow> hosted_checked (snd st')"
  by (auto simp: book_settlement_def bind_err_Inr ledger_checked dest!: set_hosted_checked)

lemma settle_checked:
  assumes "SettleModelAPIUsage cat now st tenant rid usage = (res, st')" "hosted_checked (snd st)"
  shows "hosted_checked (snd st')"
  using assms(1) unfolding SettleModelAPIUsage_def
proof (rule commit_txI)
  fix out
  assume body: "bind_err (modelAPIReservationForUpdate (snd st) tenant rid) (\<lambda>row.
      if ho_State row = HsSettled \<or> ho_State row = HsReleased then Inr (row, st)
      else if ho_State row = HsReserved then Inl (ErrConflict ''unsent hosted usage cannot be settled'')
      else settle_transmitted cat (modelAPIUsageMutationTime row now) st tenant usage row) = Inr (out, st')"
  obtain db h where st: "st = (db, h)" by (cases st)
  consider "st' = st" | r where
    "settle_transmitted cat (modelAPIUsageMutationTime r now) (db, h) tenant usage r = Inr (out, st')"
    using body by (auto simp: bind_err_Inr st split: if_splits)
  then show "hosted_checked (snd st')"
  proof cases
    case (2 r)
    then show ?thesis
    proof (cases rule: settle_transmitted_cases)
      case (pending h')
      then show ?thesis using set_hosted_checked [OF pending(1)] assms(2) by (simp add: st)
    next
      case (booked it ot cost actual resolution offer rate cogs)
      then show ?thesis using book_settlement_checked [OF booked(7)] assms(2) by (simp add: st)
    qed
  qed (use assms(2) in simp)
qed (use assms(2) in simp)

lemma no_charge_checked:
  assumes "ConfirmNoChargeModelAPIUsage now st tenant rid reason = (res, st')" "hosted_checked (snd st)"
  shows "hosted_checked (snd st')"
proof -
  have "hosted_checked (snd st')" if "free_reservation st t r m s = Inr (u, st')" for t r m s u
    using that assms(2) by (auto simp: free_reservation_def bind_err_Inr dest: set_hosted_checked)
  then show ?thesis using assms unfolding ConfirmNoChargeModelAPIUsage_def
    by (auto simp: commit_tx_def bind_err_def split: if_splits sum.splits)
qed

lemma hosted_check_attempt [simp]:
  "hosted_check (r\<lparr>ho_Attempts := n, ho_LastAttemptedAt := t\<rparr>) = hosted_check r"
  by (simp add: hosted_check_def split: option.split)

lemma attempt_checked:
  "RecordModelAPIUsageReconciliationAttempt st tenant rid now = (res, st') \<Longrightarrow> hosted_checked (snd st) \<Longrightarrow>
   hosted_checked (snd st')"
  by (auto simp: RecordModelAPIUsageReconciliationAttempt_def hosted_checked_def upd_where_def split: if_splits)

lemma reconcile_reservation_checked:
  assumes "reconcile_reservation r resolve row (failures, st, tel) = (failures', st', tel')" "hosted_checked (snd st)"
  shows "hosted_checked (snd st')"
proof -
  have last: "hosted_checked (snd st2)"
    if "apply_evidence r resolve x (f, st1, t) = (f', st2, t')" "hosted_checked (snd st1)" for x f st1 t f' st2 t'
    using that unfolding apply_evidence_def
    by (auto split: sum.splits usage_error.splits if_splits prod.splits option.splits
        dest: settle_checked no_charge_checked)
  show ?thesis using assms unfolding reconcile_reservation_def
    by (auto split: if_splits prod.splits sum.splits dest: settle_checked attempt_checked last)
qed

lemma reconcile_fold_checked:
  "fold (reconcile_reservation r resolve) rows s = (failures', st', tel') \<Longrightarrow> hosted_checked (snd (fst (snd s))) \<Longrightarrow>
   hosted_checked (snd st')"
proof (induction rows arbitrary: s)
  case (Cons row rows)
  obtain f st t where s: "s = (f, st, t)" by (rule prod_cases3)
  obtain f1 st1 t1 where one: "reconcile_reservation r resolve row (f, st, t) = (f1, st1, t1)" by (rule prod_cases3)
  show ?case using Cons.IH [of "(f1, st1, t1)"] Cons.prems reconcile_reservation_checked [OF one] by (simp add: s one)
qed simp

text \<open>Freeing the hold of an open reservation cannot fail.\<close>

lemma debt_succeeds:
  assumes "wd_wallets db tenant = Some w" "wallet_check w" "is_i64 (wl_balance w)" "is_i64 (wl_debt w)"
  shows "\<exists>db'. reconcileManagedDebtTx tenant stamp db = Inr db'"
proof -
  have range: "0 \<le> wl_reserved w" "0 \<le> wl_debt w" "wl_reserved w \<le> wl_balance w" "wl_balance w \<le> max_i64" "wl_debt w \<le> max_i64"
    using assms(2-4) by (auto simp: wallet_check_def is_i64_def)
  then have avail: "i64 (wl_balance w - wl_reserved w) = wl_balance w - wl_reserved w"
    by (intro i64_id) (simp add: is_i64_def min_i64_def max_i64_def)
  show ?thesis using range assms(1)
    by (auto simp: reconcileManagedDebtTx_def avail Let_def update_wallet_def wallet_check_def is_i64_def min_i64_def
        split: if_split)
qed

lemma free_succeeds:
  assumes inv: "hosted_inv other drift (db, h)" and r: "r \<in> set (hd_reservations h)" "hosted_open r"
    and check: "hosted_check r" and stamp: "ho_UpdatedAt r \<le> stamp"
  shows "\<exists>s. free_reservation (db, h) (ho_TenantID r) r msg stamp = Inr ((), s)"
proof -
  let ?t = "ho_TenantID r" and ?f = "\<lambda>w. w\<lparr>wl_reserved := wl_reserved w - ho_ReservedMicrousd r, wl_updated_at := stamp\<rparr>"
  note tab = hosted_invD(1) [OF inv]
  obtain w where w: "wd_wallets db ?t = Some w" by (rule open_row_has_wallet [OF inv r])
  then have acc: "wallet_check w" "is_i64 (wl_balance w)" "is_i64 (wl_debt w)"
    "wl_reserved w = outstanding db ?t + (hosted_outstanding h ?t + other ?t)"
    using wallet_invD(1) [OF hosted_invD(3) [OF inv], of ?t] by (simp_all add: account_ok_def)
  have "ho_ReservedMicrousd r \<le> hosted_outstanding h ?t"
    using held_le_outstanding [OF tab r(1), of ?t] r(2) by (simp add: hosted_held_def)
  then have le: "ho_ReservedMicrousd r \<le> wl_reserved w"
    using acc(4) outstanding_nonneg [OF wallet_invD(2) [OF hosted_invD(3) [OF inv]], of ?t] hosted_invD(2) [OF inv, of ?t] by simp
  have pos: "0 < ho_ReservedMicrousd r" by (rule hosted_rowD [OF tab r(1)])
  have good: "wallet_check (?f w)" "is_i64 (wl_balance (?f w))" "is_i64 (wl_debt (?f w))" "is_i64 (wl_reserved (?f w))"
    using acc(1-3) le pos by (auto simp: wallet_check_def is_i64_def min_i64_def)
  then have upd: "update_wallet ?t ?f db = Inr (db\<lparr>wd_wallets := (wd_wallets db)(?t \<mapsto> ?f w)\<rparr>)"
    by (simp add: update_wallet_def w)
  have "hosted_check (hosted_released msg stamp r)"
    using check stamp by (simp add: hosted_check_def hosted_released_def split: option.splits)
  then have "list_all (\<lambda>x. \<not> hosted_key ?t (ho_ID r) x \<or> hosted_check (hosted_released msg stamp x)) (hd_reservations h)"
    using hosted_key_unique [OF tab r(1), of ?t "ho_ID r"] by (auto simp: list_all_iff hosted_key_def)
  then obtain h1 where "set_hosted ?t (ho_ID r) (hosted_released msg stamp) h = Inr h1"
    by (simp add: set_hosted_def Let_def)
  moreover obtain db2 where "reconcileManagedDebtTx ?t stamp (db\<lparr>wd_wallets := (wd_wallets db)(?t \<mapsto> ?f w)\<rparr>) = Inr db2"
    using debt_succeeds [OF _ good(1-3)] by (metis fun_upd_same wallet_db.select_convs(1) wallet_db.surjective wallet_db.update_convs(1))
  ultimately show ?thesis by (simp add: free_reservation_def upd bind_err_def)
qed

lemma no_charge_closes:
  assumes inv: "hosted_inv other drift st" and checked: "hosted_checked (snd st)"
    and r: "r \<in> set (hd_reservations (snd st))" "ho_State r \<noteq> HsReserved" "ho_State r \<noteq> HsSettled"
    and call: "ConfirmNoChargeModelAPIUsage now st (ho_TenantID r) (ho_ID r) reason = (res, st')"
    and args: "ho_TenantID r \<noteq> ''''" "ho_ID r \<noteq> ''''" "reason \<noteq> ''''"
  shows "\<exists>r' \<in> set (hd_reservations (snd st')). hosted_key (ho_TenantID r) (ho_ID r) r' \<and> \<not> hosted_open r'"
proof -
  obtain db h db' h' where st: "st = (db, h)" "st' = (db', h')" by (cases st; cases st')
  have tab: "hosted_table_ok h" using inv by (simp add: hosted_inv_def st)
  have rh: "r \<in> set (hd_reservations h)" using r(1) by (simp add: st)
  note found = reservation_lookup [OF tab rh]
  show ?thesis
  proof (cases "ho_State r = HsReleased")
    case True
    then have "st' = st" using call args found by (simp add: ConfirmNoChargeModelAPIUsage_def commit_tx_def bind_err_def st)
    then show ?thesis using True r(1) by (auto simp: hosted_open_def hosted_key_def)
  next
    case False
    have state: "ho_State r = HsPending \<or> ho_State r = HsTransmitted \<or> ho_State r = HsResponseStarted"
      using False r(2,3) by (cases "ho_State r") simp_all
    have stamp: "ho_UpdatedAt r \<le> modelAPIUsageMutationTime r now" by (simp add: modelAPIUsageMutationTime_def)
    have "hosted_open r" using False r(3) by (simp add: hosted_open_def)
    then obtain s where s: "free_reservation (db, h) (ho_TenantID r) r (''supplier confirmed no charge: '' @ reason)
        (modelAPIUsageMutationTime r now) = Inr ((), s)"
      using free_succeeds [OF inv [unfolded st] rh _ bspec [OF checked [unfolded hosted_checked_def st snd_conv] rh] stamp] by blast
    then have "st' = s" using call args found state False r(3)
      by (auto simp: ConfirmNoChargeModelAPIUsage_def commit_tx_def bind_err_def st)
    then have rows: "hd_reservations h' = upd_where (hosted_key (ho_TenantID r) (ho_ID r))
        (hosted_released (''supplier confirmed no charge: '' @ reason) (modelAPIUsageMutationTime r now)) (hd_reservations h)"
      using free_reservation_rows [of db h] s st by blast
    have key: "hosted_key (ho_TenantID r) (ho_ID r) r" by (simp add: hosted_key_def)
    let ?r' = "hosted_released (''supplier confirmed no charge: '' @ reason) (modelAPIUsageMutationTime r now) r"
    have "?r' \<in> set (hd_reservations h')"
      unfolding rows using set_upd_unique [OF rh key hosted_key_unique [OF tab rh key]] by blast
    then show ?thesis
      by (intro bexI [of _ ?r']) (simp_all add: st hosted_released_def hosted_key_def hosted_open_def)
  qed
qed

text \<open>Registered suppliers resolve, and the evidence of a reservation decides.\<close>

lemma resolvers_loop_complete:
  assumes "distinct (map (\<lambda>y. TrimSpace (sv_Supplier y)) ys)" "\<forall>y \<in> set ys. TrimSpace (sv_Supplier y) \<noteq> '''' \<and> sv_Source y \<noteq> None"
    "\<forall>y \<in> set ys. registry (TrimSpace (sv_Supplier y)) = None"
  shows "\<exists>result. resolvers_loop registry ys = Inr result \<and>
    (\<forall>k. k \<notin> (\<lambda>y. TrimSpace (sv_Supplier y)) ` set ys \<longrightarrow> result k = registry k) \<and>
    (\<forall>y \<in> set ys. result (TrimSpace (sv_Supplier y)) = Some (y\<lparr>sv_Supplier := TrimSpace (sv_Supplier y)\<rparr>))"
  using assms
proof (induction ys arbitrary: registry)
  case (Cons y ys)
  let ?name = "\<lambda>y. TrimSpace (sv_Supplier y)"
  let ?registry = "registry(?name y \<mapsto> y\<lparr>sv_Supplier := ?name y\<rparr>)"
  have fresh: "?name y \<notin> ?name ` set ys" using Cons.prems(1) by auto
  then have "\<forall>z \<in> set ys. ?registry (?name z) = None" using Cons.prems(3) by (auto simp: image_iff)
  then obtain result where result: "resolvers_loop ?registry ys = Inr result"
    "\<forall>k. k \<notin> ?name ` set ys \<longrightarrow> result k = ?registry k"
    "\<forall>z \<in> set ys. result (?name z) = Some (z\<lparr>sv_Supplier := ?name z\<rparr>)"
    using Cons.IH [of ?registry] Cons.prems(1,2) by (simp del: fun_upd_apply) blast
  have "resolvers_loop registry (y # ys) = Inr result" using Cons.prems(2,3) result(1) by (simp add: Let_def)
  with result fresh show ?case by (intro exI [of _ result]) simp
qed simp

lemma resolve_complete:
  assumes "distinct (map TrimSpace suppliers)" "'''' \<notin> TrimSpace ` set suppliers" "evidence_for suppliers r e"
    "ModelAPIUsageReconciliationEvidence (snd st) (ho_TenantID r) (ho_ID r) = Some e"
    "TrimSpace (ho_Supplier r) = ho_Supplier r"
  shows "resolve_from_store suppliers st r = evidence_outcome e"
proof -
  let ?ys = "map (\<lambda>s. stored_resolver_at s st) suppliers"
  have "distinct (map (\<lambda>y. TrimSpace (sv_Supplier y)) ?ys)"
    "\<forall>y \<in> set ?ys. TrimSpace (sv_Supplier y) \<noteq> '''' \<and> sv_Source y \<noteq> None"
    using assms(1,2) by (force simp: stored_resolver_at_def comp_def)+
  from resolvers_loop_complete [OF this, of "\<lambda>_. None"] obtain registry where reg: "resolvers_loop (\<lambda>_. None) ?ys = Inr registry"
    "\<forall>y \<in> set ?ys. registry (TrimSpace (sv_Supplier y)) = Some (y\<lparr>sv_Supplier := TrimSpace (sv_Supplier y)\<rparr>)"
    by blast
  obtain s where s: "s \<in> set suppliers" "ho_Supplier r = TrimSpace s"
    using assms(3) by (auto simp: evidence_for_def)
  have "registry (ho_Supplier r) = Some ((stored_resolver_at s st)\<lparr>sv_Supplier := TrimSpace s\<rparr>)"
    using bspec [OF reg(2), of "stored_resolver_at s st"] s by (simp add: stored_resolver_at_def)
  moreover have "ho_Supplier r \<noteq> ''''" using assms(2) s by (metis imageI)
  ultimately show ?thesis using assms(3,4,5) s(2) reg(1)
    by (auto simp: resolve_from_store_def NewSupplierUsageResolverRegistry_def registry_ResolveModelAPIUsage_def
        stored_ResolveModelAPIUsage_def stored_resolver_at_def evidence_for_def)
qed

text \<open>Reservations with evidence come first, so they do not wait behind those without.\<close>

lemma sort_key_two:
  assumes "\<And>x. x \<in> set xs \<Longrightarrow> f x = (0 :: int) \<or> f x = 1"
  shows "sort_key f xs = filter (\<lambda>x. f x = 0) xs @ filter (\<lambda>x. f x = 1) xs"
  using assms
proof (induction xs)
  case (Cons a xs)
  let ?zs = "filter (\<lambda>x. f x = 0) xs" and ?os = "filter (\<lambda>x. f x = 1) xs"
  have IH: "sort_key f xs = ?zs @ ?os" using Cons by simp
  consider "f a = 0" | "f a = 1" using Cons.prems by force
  then show ?case
  proof cases
    case 1
    have "insort_key f a (?zs @ ?os) = a # ?zs @ ?os"
      by (rule insort_is_Cons) (use 1 in auto)
    with 1 IH show ?thesis by simp
  next
    case 2
    have "insort_key f a (zs @ ?os) = zs @ a # ?os" if "\<forall>z \<in> set zs. f z = 0" for zs
      using that by (induction zs) (use 2 in \<open>auto intro: insort_is_Cons\<close>)
    with 2 IH show ?thesis by simp
  qed
qed simp

definition due :: "gotime \<Rightarrow> hosted_row \<Rightarrow> bool" where
  "due staleBefore r = (ho_State r = HsPending \<or>
     ((ho_State r = HsTransmitted \<or> ho_State r = HsResponseStarted) \<and> ho_UpdatedAt r \<le> staleBefore))"

definition evidenced :: "hosted_db \<Rightarrow> hosted_row \<Rightarrow> bool" where
  "evidenced h r = (\<exists>e \<in> set (hd_evidence h). ed_ReservationID e = ho_ID r)"

lemma evidenced_listed:
  assumes "ReconcileableModelAPIUsageReservations h staleBefore limit = Inr rows" "row \<in> set (hd_reservations h)"
    "due staleBefore row" "evidenced h row"
    "length (filter (\<lambda>x. due staleBefore x \<and> evidenced h x) (hd_reservations h)) \<le> reservation_limit limit"
  shows "row \<in> set rows"
proof -
  let ?f = "fst \<circ> reconcile_order h"
  obtain ys where ys: "rows = take (reservation_limit limit) (sort_key ?f ys)" "mset ys = mset (filter (due staleBefore) (hd_reservations h))"
    using assms(1) by (auto simp: ReconcileableModelAPIUsageReservations_def due_def [abs_def] split: if_splits)
  have key: "fst (reconcile_order h x) = (if evidenced h x then 0 else 1)" for x
    by (simp add: reconcile_order_def evidenced_def)
  have split: "sort_key ?f ys = filter (evidenced h) ys @ filter (\<lambda>x. \<not> evidenced h x) ys"
    using sort_key_two [of ys ?f] by (simp add: key)
  have "mset (filter (evidenced h) ys) = mset (filter (\<lambda>x. due staleBefore x \<and> evidenced h x) (hd_reservations h))"
    using ys(2) by (simp add: filter_filter_mset)
  then have "length (filter (evidenced h) ys) \<le> reservation_limit limit" using assms(5) by (metis size_mset)
  then have "set (filter (evidenced h) ys) \<subseteq> set rows" unfolding ys(1) split by auto
  moreover have "row \<in># mset ys" unfolding ys(2) using assms(2,3) by simp
  ultimately show ?thesis using assms(4) by auto
qed

lemma find_evidence:
  assumes "e \<in> set (hd_evidence h)" "ed_TenantID e = tenant" "ed_ReservationID e = rid"
    "\<forall>x \<in> set (hd_evidence h). ed_ReservationID x = rid \<longrightarrow> x = e"
  shows "ModelAPIUsageReconciliationEvidence h tenant rid = Some e"
  unfolding ModelAPIUsageReconciliationEvidence_def by (rule find_unique [OF assms(1)]) (simp_all add: assms(2-4))

text \<open>Handling a pending reservation with evidence of no charge closes it.\<close>

lemma reconcile_reservation_closes:
  assumes run: "reconcile_reservation r (resolve_from_store S) row (failures, st, tel) = (failures', st', tel')"
    and ok: "pass_ok other drift S st0 st" "hosted_checked (snd st)"
    and row: "row \<in> set (hd_reservations (snd st0))" "ho_State row = HsPending"
    and names: "ho_TenantID row \<noteq> ''''" "ho_ID row \<noteq> ''''" "TrimSpace (ho_Supplier row) = ho_Supplier row" "\<not> is_zero_time (rn_now r)"
    and suppliers: "distinct (map TrimSpace S)" "'''' \<notin> TrimSpace ` set S"
    and e: "e \<in> set (hd_evidence (snd st0))" "evidence_for S row e" "ed_Outcome e = ''no_charge''"
      "\<forall>x \<in> set (hd_evidence (snd st0)). ed_ReservationID x = ho_ID row \<longrightarrow> x = e"
  shows "\<exists>x \<in> set (hd_reservations (snd st')). hosted_key (ho_TenantID row) (ho_ID row) x \<and> \<not> hosted_open x"
proof -
  obtain res2 st2 where attempt: "RecordModelAPIUsageReconciliationAttempt st (ho_TenantID row) (ho_ID row) (rn_now r) = (res2, st2)"
    by (rule prod.exhaust)
  have res2: "res2 = Inr ()" using attempt names by (auto simp: RecordModelAPIUsageReconciliationAttempt_def)
  have inv: "hosted_inv other drift st" using ok(1) by (simp add: pass_ok_def)
  have ok2: "pass_ok other drift S st0 st2" "hosted_checked (snd st2)"
    using pass_ok_trans [OF ok(1) attempt_ok [OF attempt inv]] attempt_checked [OF attempt ok(2)] .
  then have inv2: "hosted_inv other drift st2" and ev2: "hd_evidence (snd st2) = hd_evidence (snd st0)"
    and rel: "list_all2 (reconciled S (hd_evidence (snd st0))) (hd_reservations (snd st0)) (hd_reservations (snd st2))"
    and steps: "hosted_step\<^sup>*\<^sup>* st0 st2"
    by (simp_all add: pass_ok_def)
  have tab2: "hosted_table_ok (snd st2)" using inv2 by (simp add: hosted_inv_def)
  obtain x where x: "x \<in> set (hd_reservations (snd st2))" "reconciled S (hd_evidence (snd st0)) row x"
    using list_all2_in_set1 [OF rel row(1)] by blast
  then have same: "same_contract row x" by (simp add: reconciled_def)
  have for_e: "ed_TenantID e = ho_TenantID row" "ed_ReservationID e = ho_ID row"
    using e(2) by (simp_all add: evidence_for_def)
  have "resolve_from_store S st2 row = evidence_outcome e"
    by (rule resolve_complete [OF suppliers e(2) find_evidence names(3)])
      (unfold ev2, (rule e(1) for_e e(4))+)
  then have out: "resolve_from_store S st2 row = Inr \<lparr>ue_Usage = None, ue_NoChargeConfirmed = True, ue_Evidence = evidence_reference e\<rparr>"
    using e(3) by (simp add: evidence_outcome_def)
  have ref: "evidence_reference e \<noteq> ''''" by (simp add: evidence_reference_def)
  obtain res3 where call: "ConfirmNoChargeModelAPIUsage (rn_dbnow r ''no_charge'' (ho_ID row)) st2 (ho_TenantID row) (ho_ID row)
      (evidence_reference e) = (res3, st')"
    using run attempt res2 row(2) out
    by (simp add: reconcile_reservation_def apply_evidence_def ref split: prod.splits sum.splits)
  show ?thesis
  proof (cases "ho_State x = HsSettled")
    case True
    obtain y where y: "y \<in> set (hd_evidence (snd st0))" "evidence_for S row y" "closed_as row y x"
      using x(2) True row(2) by (auto simp: reconciled_def hosted_open_def)
    then have "y = e" using e(4) by (simp add: evidence_for_def)
    with y(3) e(3) True show ?thesis by (simp add: closed_as_def)
  next
    case False
    have "ho_State x \<noteq> HsReserved" using x(2) row(2) by (simp add: reconciled_def)
    from no_charge_closes [OF inv2 ok2(2) x(1) this False] call names same show ?thesis
      by (simp add: same_contract_def ref)
  qed
qed

lemma fold_closes:
  assumes "fold (reconcile_reservation r (resolve_from_store S)) rows ([], st0, tel) = (failures', st', tel')"
    and inv: "hosted_inv other drift st0" "hosted_checked (snd st0)"
    and listed: "set rows \<subseteq> set (hd_reservations (snd st0))"
    and row: "row \<in> set rows" "ho_State row = HsPending"
    and names: "ho_TenantID row \<noteq> ''''" "ho_ID row \<noteq> ''''" "TrimSpace (ho_Supplier row) = ho_Supplier row" "\<not> is_zero_time (rn_now r)"
    and suppliers: "distinct (map TrimSpace S)" "'''' \<notin> TrimSpace ` set S"
    and e: "e \<in> set (hd_evidence (snd st0))" "evidence_for S row e" "ed_Outcome e = ''no_charge''"
      "\<forall>x \<in> set (hd_evidence (snd st0)). ed_ReservationID x = ho_ID row \<longrightarrow> x = e"
  shows "\<exists>x \<in> set (hd_reservations (snd st')). hosted_key (ho_TenantID row) (ho_ID row) x \<and> \<not> hosted_open x"
proof -
  let ?fold = "fold (reconcile_reservation r (resolve_from_store S))"
  obtain pre post where rows: "rows = pre @ row # post" using row(1) by (meson split_list)
  obtain f1 st1 t1 where s1: "?fold pre ([], st0, tel) = (f1, st1, t1)" by (rule prod_cases3)
  obtain f2 st2 t2 where s2: "reconcile_reservation r (resolve_from_store S) row (f1, st1, t1) = (f2, st2, t2)" by (rule prod_cases3)
  have s3: "?fold post (f2, st2, t2) = (failures', st', tel')" using assms(1) by (simp add: rows s1 s2)
  have ok1: "pass_ok other drift S st0 st1"
    by (rule reconcile_fold_ok [OF s1 pass_ok_refl [OF inv(1)]]) (use listed rows in simp)
  have in0: "row \<in> set (hd_reservations (snd st0))" using listed row(1) by blast
  have checked1: "hosted_checked (snd st1)" using reconcile_fold_checked [OF s1] inv(2) by simp
  from reconcile_reservation_closes [OF s2 ok1 checked1 in0 row(2) names suppliers e]
  obtain x where x: "x \<in> set (hd_reservations (snd st2))" "hosted_key (ho_TenantID row) (ho_ID row) x" "\<not> hosted_open x" by blast
  have "pass_ok other drift S st2 st'"
    by (rule reconcile_fold_ok [OF s3 pass_ok_trans [OF ok1 reconcile_reservation_ok [OF s2 ok1 in0]]])
      (use listed rows in simp)
  then obtain y where "y \<in> set (hd_reservations (snd st'))" "reconciled S (hd_evidence (snd st2)) x y"
    using list_all2_in_set1 [OF _ x(1)] unfolding pass_ok_def by blast
  with x show ?thesis unfolding reconciled_def by blast
qed

text \<open>Evidence of no charge frees the customer's money in the next pass. Suppose the registry names each
  supplier once, a pending reservation has its one piece of evidence, with a supported authority and
  the outcome that nothing was charged, and the reservations with evidence fit in one batch. Then the
  pass releases this reservation, whatever it does with the others, however many reservations without
  evidence there are and whichever of the other steps fail.
\<close>

theorem evidence_frees_reservation:
  assumes run: "usage_Once r st tel = (failures, st', tel')" and config: "rn_HasStore r" "rn_Resolver r = Some (resolve_from_store S)"
    and clock: "\<not> is_zero_time (rn_now r)" "\<not> is_zero_time (rn_now r - default_grace (rn_InFlightGrace r))"
    and inv: "hosted_inv other drift st" "hosted_checked (snd st)"
    and row: "row \<in> set (hd_reservations (snd st))" "ho_State row = HsPending"
    and names: "ho_TenantID row \<noteq> ''''" "ho_ID row \<noteq> ''''" "TrimSpace (ho_Supplier row) = ho_Supplier row"
    and suppliers: "distinct (map TrimSpace S)" "'''' \<notin> TrimSpace ` set S"
    and e: "e \<in> set (hd_evidence (snd st))" "evidence_for S row e" "ed_Outcome e = ''no_charge''"
      "\<forall>x \<in> set (hd_evidence (snd st)). ed_ReservationID x = ho_ID row \<longrightarrow> x = e"
    and batch: "length (filter (\<lambda>x. due (rn_now r - default_grace (rn_InFlightGrace r)) x \<and> evidenced (snd st) x)
      (hd_reservations (snd st))) \<le> reservation_limit (rn_Limit r)"
  shows "\<exists>row' \<in> set (hd_reservations (snd st')). same_contract row row' \<and> ho_State row' = HsReleased"
proof -
  obtain rows where rows: "ReconcileableModelAPIUsageReservations (snd st) (rn_now r - default_grace (rn_InFlightGrace r)) (rn_Limit r) = Inr rows"
    using clock(2) by (simp add: ReconcileableModelAPIUsageReservations_def)
  obtain f1 st1 t1 where fold: "fold (reconcile_reservation r (resolve_from_store S)) rows ([], st, map_option observeRun tel) = (f1, st1, t1)"
    by (rule prod_cases3)
  have st1: "st1 = st'" using run config rows fold by (auto simp: usage_Once_def Let_def split: prod.splits)
  have "evidenced (snd st) row" using e(1,2) by (auto simp: evidenced_def evidence_for_def)
  from evidenced_listed [OF rows row(1) _ this batch] have listed: "row \<in> set rows" by (simp add: due_def row(2))
  obtain x where x: "x \<in> set (hd_reservations (snd st'))" "hosted_key (ho_TenantID row) (ho_ID row) x" "\<not> hosted_open x"
    using fold_closes [OF fold inv listed_rows [OF rows] listed row(2) names clock(1) suppliers e] st1 by blast
  have ok: "pass_ok other drift S st st'" by (rule usage_Once_ok [OF run config(2) inv(1)])
  obtain y where y: "y \<in> set (hd_reservations (snd st'))" "reconciled S (hd_evidence (snd st)) row y"
    using ok list_all2_in_set1 [OF _ row(1)] unfolding pass_ok_def by blast
  have tab: "hosted_table_ok (snd st')" using ok by (simp add: pass_ok_def hosted_inv_def)
  have "hosted_key (ho_TenantID row) (ho_ID row) y" using y(2) by (simp add: reconciled_def same_contract_def hosted_key_def)
  then have "x = y" using hosted_key_unique [OF tab y(1)] x by blast
  then obtain e' where "e' \<in> set (hd_evidence (snd st))" "evidence_for S row e'" "closed_as row e' y"
    using y(2) x(3) row(2) by (auto simp: reconciled_def hosted_open_def)
  moreover from this have "e' = e" using e(4) by (simp add: evidence_for_def)
  ultimately have "ho_State y = HsReleased" using e(3) by (simp add: closed_as_def)
  then show ?thesis using y by (auto simp: reconciled_def)
qed

section \<open>An example\<close>

definition example_evidence :: evidence where
  "example_evidence =
     \<lparr>ed_ReservationID = ''r1'', ed_TenantID = ''cust'', ed_Supplier = ''acme'', ed_SupplierRequestID = '''',
      ed_Outcome = ''no_charge'', ed_Authority = ''operator_verified'', ed_Reference = ''ticket'', ed_RecordedBy = ''ops'',
      ed_InputTokens = None, ed_CachedInputTokens = None, ed_OutputTokens = None, ed_ObservedAt = 8, ed_RecordedAt = 9\<rparr>"

definition example_reconciler :: usage_reconciler where
  "example_reconciler =
     \<lparr>rn_HasStore = True, rn_Resolver = Some (resolve_from_store [''acme'', ''other'']), rn_Limit = 0, rn_InFlightGrace = 5,
      rn_now = 20, rn_dbnow = (\<lambda>_ _. 21), rn_catalog = example_catalog\<rparr>"

text \<open>The reservation sent in \<open>example_sent\<close>, without usage and with the evidence of an operator.\<close>

definition example_ambiguous :: billing_store where
  "example_ambiguous =
     (let st = snd (SettleModelAPIUsage example_catalog 7 (snd example_sent) ''cust'' ''r1'' (no_usage 0))
      in (fst st, (snd st)\<lparr>hd_evidence := [example_evidence]\<rparr>))"

lemma example_ambiguous_shape:
  "\<exists>r. snd example_ambiguous = empty_hosted\<lparr>hd_reservations := [r], hd_evidence := [example_evidence]\<rparr> \<and>
     ho_ID r = ''r1'' \<and> ho_TenantID r = ''cust'' \<and> ho_Supplier r = ''acme'' \<and> ho_State r = HsPending \<and> hosted_check r"
proof -
  obtain r where sent: "snd (snd example_sent) = empty_hosted\<lparr>hd_reservations := [r]\<rparr>" and r: "ho_ID r = ''r1''"
    "ho_TenantID r = ''cust''" "ho_Supplier r = ''acme''" "ho_State r = HsTransmitted" "hosted_check r" "ho_UpdatedAt r = 6"
    using example_marked [of 6] by (auto simp: example_sent_def)
  obtain db where db: "snd example_sent = (db, empty_hosted\<lparr>hd_reservations := [r]\<rparr>)"
    using sent by (cases "snd example_sent") simp
  let ?h = "empty_hosted\<lparr>hd_reservations := [r]\<rparr>"
  have check: "hosted_check (hosted_pending 7 r)"
    using r(5,6) by (simp add: hosted_check_def hosted_pending_def split: option.splits)
  have "set_hosted ''cust'' ''r1'' (hosted_pending 7) ?h = Inr (?h\<lparr>hd_reservations := [hosted_pending 7 r]\<rparr>)"
    using r(1,2) check by (simp add: set_hosted_def hosted_key_def upd_where_def)
  moreover have "modelAPIReservationForUpdate ?h ''cust'' ''r1'' = Inr r"
    using r(1,2) by (simp add: modelAPIReservationForUpdate_def modelAPIReservationMaybe_def hosted_key_def)
  ultimately have "SettleModelAPIUsage example_catalog 7 (snd example_sent) ''cust'' ''r1'' (no_usage 0) =
      (Inr (hosted_pending 7 r), (db, ?h\<lparr>hd_reservations := [hosted_pending 7 r]\<rparr>))"
    using r(1,4,6) by (simp add: SettleModelAPIUsage_def db settle_transmitted_def no_usage_def commit_tx_def
        modelAPIUsageMutationTime_def)
  then show ?thesis using r(1-3) check by (intro exI [of _ "hosted_pending 7 r"]) (simp add: example_ambiguous_def hosted_pending_def)
qed

lemma example_ambiguous_inv: "hosted_inv (\<lambda>_. 0) (\<lambda>_. 0) example_ambiguous"
proof -
  have "hosted_inv (\<lambda>_. 0) (\<lambda>_. 0) (snd example_sent)"
    by (rule hosted_steps_inv [OF example_hosted_run(2) empty_hosted_inv])
  from SettleModelAPIUsage_inv [OF prod.collapse [symmetric] this] show ?thesis
    by (simp add: example_ambiguous_def Let_def hosted_inv_evidence)
qed

lemma example_suppliers: "map TrimSpace [''acme'', ''other''] = [''acme'', ''other'']"
  "TrimSpace ''acme'' = ''acme''"
proof -
  have "canonical ''acme''" "canonical ''other''" by (rule canonicalI; simp)+
  then show "map TrimSpace [''acme'', ''other''] = [''acme'', ''other'']" "TrimSpace ''acme'' = ''acme''"
    by (simp_all add: canonical_def)
qed

lemma example_evidence_for:
  "ho_ID r = ''r1'' \<Longrightarrow> ho_TenantID r = ''cust'' \<Longrightarrow> ho_Supplier r = ''acme'' \<Longrightarrow>
   evidence_for [''acme'', ''other''] r example_evidence"
  using example_suppliers by (simp add: evidence_for_def example_evidence_def)

theorem evidence_frees_reservation_witness:
  "\<exists>row'. row' \<in> set (hd_reservations (snd (fst (snd (usage_Once example_reconciler example_ambiguous None))))) \<and>
     ho_ID row' = ''r1'' \<and> ho_State row' = HsReleased"
proof -
  obtain r where r: "snd example_ambiguous = empty_hosted\<lparr>hd_reservations := [r], hd_evidence := [example_evidence]\<rparr>"
    "ho_ID r = ''r1''" "ho_TenantID r = ''cust''" "ho_Supplier r = ''acme''" "ho_State r = HsPending" "hosted_check r"
    using example_ambiguous_shape by blast
  obtain f st' t where run: "usage_Once example_reconciler example_ambiguous None = (f, st', t)" by (rule prod_cases3)
  have "\<exists>row' \<in> set (hd_reservations (snd st')). same_contract r row' \<and> ho_State row' = HsReleased"
    by (rule evidence_frees_reservation [OF run, where S = "[''acme'', ''other'']" and e = example_evidence])
      (use r example_ambiguous_inv example_suppliers example_evidence_for [OF r(2-4)] in
        \<open>simp_all add: example_reconciler_def is_zero_time_def default_grace_def hosted_checked_def
          example_evidence_def reservation_limit_def\<close>)
  then show ?thesis using run r(2) by (auto simp: same_contract_def)
qed

theorem reconciler_never_guesses_witness:
  "\<exists>row'. row' \<in> set (hd_reservations (snd (fst (snd (usage_Once example_reconciler example_ambiguous None))))) \<and>
     ho_ID row' = ''r1'' \<and> (hosted_open row' \<or> ho_State row' = HsReleased)"
proof -
  obtain r where r: "snd example_ambiguous = empty_hosted\<lparr>hd_reservations := [r], hd_evidence := [example_evidence]\<rparr>"
    "ho_ID r = ''r1''" "ho_State r = HsPending"
    using example_ambiguous_shape by blast
  obtain f st' t where run: "usage_Once example_reconciler example_ambiguous None = (f, st', t)" by (rule prod_cases3)
  have "rn_Resolver example_reconciler = Some (resolve_from_store [''acme'', ''other''])" by (simp add: example_reconciler_def)
  from reconciler_never_guesses [OF run this example_ambiguous_inv, of r]
  obtain row' where "row' \<in> set (hd_reservations (snd st'))" "same_contract r row'"
    "hosted_open row' \<or> closed_as r example_evidence row'"
    using r by (auto simp: hosted_open_def)
  then show ?thesis using run r(2) by (auto simp: same_contract_def closed_as_def example_evidence_def)
qed

end
