(* ===== verification/Overflow.thy ===== *)
theory Overflow
  imports Autoscale
begin

text \<open>
  When traffic may leave the primary capacity of a deployment: the overflow engine
  (\<open>internal/overflow\<close>), a state machine with hysteresis and cooldown that the external fallback and
  the health decay of weighted routes share, and the stateless burst guard
  (\<open>internal/burstguard\<close>). The lemmas say what a change of route requires of the observations
  before it, over whole histories.
\<close>


section \<open>The overflow engine\<close>

record overflow_policy =
  ovp_Mode :: string
  ovp_QueueThreshold :: f64
  ovp_BreachIntervals :: int
  ovp_RecoveryIntervals :: int
  ovp_Cooldown :: duration
  ovp_SignalMaxAge :: duration
  ovp_PrivacyAcknowledged :: bool
  ovp_BudgetAvailable :: bool

record overflow_state =
  ovs_External :: bool
  ovs_ConsecutiveHigh :: int
  ovs_ConsecutiveLow :: int
  ovs_LastChangedAt :: gotime

record overflow_signal =
  ovg_PrimaryHealthy :: bool
  ovg_Waiting :: "f64 option"
  ovg_ObservedAt :: gotime

record overflow_decision =
  ovd_Route :: string
  ovd_Action :: string
  ovd_Reason :: string
  ovd_ConsecutiveHigh :: int
  ovd_ConsecutiveLow :: int

definition overflow_Validate :: "overflow_policy \<Rightarrow> string option" where
  "overflow_Validate p =
     (if ovp_Mode p \<noteq> ''health'' \<and> ovp_Mode p \<noteq> ''health_and_queue''
        then Some ''overflow mode must be health or health_and_queue''
      else if \<not> ovp_PrivacyAcknowledged p then Some ''overflow requires explicit privacy acknowledgement''
      else if ovp_BreachIntervals p < 1 \<or> ovp_RecoveryIntervals p < 1 \<or> ovp_BreachIntervals p > 100 \<or> ovp_RecoveryIntervals p > 100
        then Some ''overflow breach and recovery intervals must be between 1 and 100''
      else if ovp_Cooldown p < 0 \<or> ovp_Cooldown p > 24 * Hour
        then Some ''overflow cooldown must be between zero and 24 hours''
      else if ovp_Mode p = ''health_and_queue'' \<and>
          (f_le (ovp_QueueThreshold p) (FNum 0) \<or> is_nan (ovp_QueueThreshold p) \<or> is_inf (ovp_QueueThreshold p) \<or>
           ovp_SignalMaxAge p \<le> 0 \<or> ovp_SignalMaxAge p > 10 * Minute)
        then Some ''queue overflow requires positive threshold and signal max age no greater than ten minutes''
      else None)"

definition overflow_cooling :: "overflow_policy \<Rightarrow> overflow_state \<Rightarrow> gotime \<Rightarrow> bool" where
  "overflow_cooling p s now = (\<not> is_zero_time (ovs_LastChangedAt s) \<and> time_sub now (ovs_LastChangedAt s) < ovp_Cooldown p)"

definition hold_primary :: "overflow_state \<Rightarrow> overflow_decision" where
  "hold_primary s =
     \<lparr>ovd_Route = ''primary'', ovd_Action = ''hold'', ovd_Reason = ''primary is healthy and no overflow threshold is active'',
      ovd_ConsecutiveHigh = ovs_ConsecutiveHigh s, ovd_ConsecutiveLow = ovs_ConsecutiveLow s\<rparr>"

definition without_budget :: "overflow_state \<Rightarrow> overflow_signal \<Rightarrow> overflow_decision" where
  "without_budget s signal =
     (let d = (hold_primary s)\<lparr>ovd_Reason := ''external hard budget is unavailable; overflow is denied''\<rparr> in
      if \<not> ovg_PrimaryHealthy signal then d\<lparr>ovd_Route := ''unavailable'', ovd_Action := ''deny''\<rparr>
      else if ovs_External s then d\<lparr>ovd_Action := ''recover''\<rparr>
      else d)"

definition health_decision :: "overflow_policy \<Rightarrow> overflow_state \<Rightarrow> overflow_signal \<Rightarrow> gotime \<Rightarrow> overflow_decision" where
  "health_decision p s signal now =
     (let cooldown = overflow_cooling p s now in
      if \<not> ovg_PrimaryHealthy signal then
        (let high = min (ovp_BreachIntervals p) (i64 (ovs_ConsecutiveHigh s + 1));
             d = (hold_primary s)\<lparr>ovd_ConsecutiveHigh := high, ovd_ConsecutiveLow := 0\<rparr> in
         if ovs_External s
           then d\<lparr>ovd_Route := ''external'', ovd_Reason := ''unhealthy capacity remains decayed''\<rparr>
         else if high \<ge> ovp_BreachIntervals p \<and> \<not> cooldown
           then d\<lparr>ovd_Route := ''external'', ovd_Action := ''overflow'',
                  ovd_Reason := ''capacity was unhealthy for the required consecutive observations''\<rparr>
         else d\<lparr>ovd_Reason := ''waiting for unhealthy-capacity hysteresis''\<rparr>)
      else
        (let low = min (ovp_RecoveryIntervals p) (i64 (ovs_ConsecutiveLow s + 1));
             d = (hold_primary s)\<lparr>ovd_ConsecutiveHigh := 0, ovd_ConsecutiveLow := low\<rparr> in
         if ovs_External s then
           (if low \<ge> ovp_RecoveryIntervals p \<and> \<not> cooldown
            then d\<lparr>ovd_Route := ''primary'', ovd_Action := ''recover'',
                   ovd_Reason := ''capacity recovered for the required consecutive observations''\<rparr>
            else d\<lparr>ovd_Route := ''external'', ovd_Reason := ''decayed capacity awaits bounded recovery''\<rparr>)
         else d))"

definition queue_evidence_stale :: "overflow_policy \<Rightarrow> overflow_signal \<Rightarrow> gotime \<Rightarrow> bool" where
  "queue_evidence_stale p signal now =
     (case ovg_Waiting signal of None \<Rightarrow> True
      | Some waiting \<Rightarrow> is_nan waiting \<or> is_inf waiting \<or> is_zero_time (ovg_ObservedAt signal) \<or>
          time_sub now (ovg_ObservedAt signal) < 0 \<or> time_sub now (ovg_ObservedAt signal) > ovp_SignalMaxAge p)"

definition queue_decision :: "overflow_policy \<Rightarrow> overflow_state \<Rightarrow> bool \<Rightarrow> gotime \<Rightarrow> overflow_decision" where
  "queue_decision p s high now =
     (let up = (if high then (if ovs_ConsecutiveHigh s < ovp_BreachIntervals p then i64 (ovs_ConsecutiveHigh s + 1) else ovs_ConsecutiveHigh s) else 0);
          down = (if high then 0 else (if ovs_ConsecutiveLow s < ovp_RecoveryIntervals p then i64 (ovs_ConsecutiveLow s + 1) else ovs_ConsecutiveLow s));
          d = (hold_primary s)\<lparr>ovd_ConsecutiveHigh := up, ovd_ConsecutiveLow := down\<rparr>;
          cooldown = overflow_cooling p s now in
      if ovs_External s then
        (if \<not> high \<and> down \<ge> ovp_RecoveryIntervals p \<and> \<not> cooldown
         then d\<lparr>ovd_Route := ''primary'', ovd_Action := ''recover'',
                ovd_Reason := ''primary queue recovered for the required consecutive observations''\<rparr>
         else d\<lparr>ovd_Route := ''external'', ovd_Reason := ''external overflow remains active until bounded recovery''\<rparr>)
      else if high \<and> up \<ge> ovp_BreachIntervals p \<and> \<not> cooldown
        then d\<lparr>ovd_Route := ''external'', ovd_Action := ''overflow'',
               ovd_Reason := ''primary queue exceeded the threshold for the required consecutive observations''\<rparr>
      else d)"

definition overflow_Evaluate ::
  "overflow_policy \<Rightarrow> overflow_state \<Rightarrow> overflow_signal \<Rightarrow> gotime \<Rightarrow> string + overflow_decision" where
  "overflow_Evaluate p s signal now =
     (case overflow_Validate p of
        Some err \<Rightarrow> Inl err
      | None \<Rightarrow>
          if \<not> ovp_BudgetAvailable p then Inr (without_budget s signal)
          else if ovp_Mode p = ''health'' then Inr (health_decision p s signal now)
          else if \<not> ovg_PrimaryHealthy signal
            then Inr \<lparr>ovd_Route = ''external'', ovd_Action = ''overflow'', ovd_Reason = ''all primary capacity is unhealthy'',
                      ovd_ConsecutiveHigh = 0, ovd_ConsecutiveLow = 0\<rparr>
          else if queue_evidence_stale p signal now
            then Inr ((hold_primary s)\<lparr>ovd_Reason := ''queue evidence is missing or stale; preserve the current bounded route'',
                      ovd_Route := (if ovs_External s then ''external'' else ''primary'')\<rparr>)
          else Inr (queue_decision p s (f_le (ovp_QueueThreshold p) (the (ovg_Waiting signal))) now))"


section \<open>The burst guard\<close>

record burst_policy =
  bup_Enabled :: bool
  bup_QueueThreshold :: int
  bup_BreachIntervals :: int
  bup_RecoveryIntervals :: int
  bup_SignalMaxAge :: duration
  bup_MaxIncrementalCostMicrousdHour :: int

record burst_signal =
  bus_QueueDepth :: int
  bus_ConsecutiveBreaches :: int
  bus_ConsecutiveRecovery :: int
  bus_IncrementalCostMicrousdHour :: int
  bus_ObservedAt :: gotime
  bus_ExternalHealthy :: bool

record burst_decision =
  bud_Action :: string
  bud_Reason :: string
  bud_Cost :: int

definition burst_Evaluate :: "burst_policy \<Rightarrow> burst_signal \<Rightarrow> gotime \<Rightarrow> burst_decision" where
  "burst_Evaluate p s now =
     (let cost = bus_IncrementalCostMicrousdHour s;
          d = \<lparr>bud_Action = ''hold'', bud_Reason = ''burst threshold not sustained'', bud_Cost = cost\<rparr> in
      if \<not> bup_Enabled p then d
      else if is_zero_time (bus_ObservedAt s) \<or> time_sub now (bus_ObservedAt s) < 0 \<or>
          time_sub now (bus_ObservedAt s) > bup_SignalMaxAge p
        then \<lparr>bud_Action = ''unknown'', bud_Reason = ''fresh queue and capacity evidence required'', bud_Cost = 0\<rparr>
      else if \<not> bus_ExternalHealthy s
        then \<lparr>bud_Action = ''hold'', bud_Reason = ''overflow capacity is not healthy'', bud_Cost = 0\<rparr>
      else if cost < 0 \<or> cost > bup_MaxIncrementalCostMicrousdHour p
        then \<lparr>bud_Action = ''hold'', bud_Reason = ''incremental hourly cost exceeds hard policy budget'', bud_Cost = cost\<rparr>
      else if bus_QueueDepth s \<ge> bup_QueueThreshold p \<and> bus_ConsecutiveBreaches s \<ge> bup_BreachIntervals p
        then \<lparr>bud_Action = ''overflow'', bud_Reason = ''fresh queue breach sustained within cost budget'', bud_Cost = cost\<rparr>
      else if bus_QueueDepth s < bup_QueueThreshold p \<and> bus_ConsecutiveRecovery s \<ge> bup_RecoveryIntervals p
        then \<lparr>bud_Action = ''recover'', bud_Reason = ''queue recovered for the required intervals'', bud_Cost = cost\<rparr>
      else d)"

section \<open>Histories\<close>

text \<open>
  The state after a decision, as the store keeps it, and after a history of observations. A policy
  that is refused leaves the state alone.
\<close>

definition overflow_next :: "overflow_state \<Rightarrow> overflow_decision \<Rightarrow> gotime \<Rightarrow> overflow_state" where
  "overflow_next s d now =
     (let external = (ovd_Route d = ''external'') in
      \<lparr>ovs_External = external, ovs_ConsecutiveHigh = ovd_ConsecutiveHigh d, ovs_ConsecutiveLow = ovd_ConsecutiveLow d,
       ovs_LastChangedAt = (if external \<noteq> ovs_External s then now else ovs_LastChangedAt s)\<rparr>)"

definition overflow_observe :: "overflow_policy \<Rightarrow> overflow_signal \<times> gotime \<Rightarrow> overflow_state \<Rightarrow> overflow_state" where
  "overflow_observe p obs s =
     (case overflow_Evaluate p s (fst obs) (snd obs) of Inl _ \<Rightarrow> s | Inr d \<Rightarrow> overflow_next s d (snd obs))"

definition zero_overflow :: overflow_state where
  "zero_overflow = \<lparr>ovs_External = False, ovs_ConsecutiveHigh = 0, ovs_ConsecutiveLow = 0, ovs_LastChangedAt = 0\<rparr>"

definition overflow_run :: "overflow_policy \<Rightarrow> (overflow_signal \<times> gotime) list \<Rightarrow> overflow_state" where
  "overflow_run p obs = fold (overflow_observe p) obs zero_overflow"

definition healthy_obs :: "overflow_signal \<times> gotime \<Rightarrow> bool" where
  "healthy_obs obs = ovg_PrimaryHealthy (fst obs)"

lemma overflow_run_nil [simp]: "overflow_run p [] = zero_overflow"
  by (simp add: overflow_run_def)

lemma overflow_run_snoc: "overflow_run p (obs @ [x]) = overflow_observe p x (overflow_run p obs)"
  by (simp add: overflow_run_def)

lemma overflow_intervals:
  "overflow_Validate p = None \<Longrightarrow> 1 \<le> ovp_BreachIntervals p \<and> ovp_BreachIntervals p \<le> 100 \<and>
     1 \<le> ovp_RecoveryIntervals p \<and> ovp_RecoveryIntervals p \<le> 100"
  by (simp add: overflow_Validate_def split: if_splits)

lemma cut_step:
  assumes "1 \<le> n" "n \<le> 100" "0 \<le> t"
  shows "min n (i64 (min n t + 1)) = min n (t + 1)"
proof -
  have "i64 (min n t + 1) = min n t + 1"
    using assms by (intro i64_id) (auto simp: is_i64_def min_i64_def max_i64_def)
  then show ?thesis by simp
qed

lemma health_step:
  assumes "overflow_Validate p = None" "ovp_Mode p = ''health''" "ovp_BudgetAvailable p"
  shows "overflow_observe p x s = overflow_next s (health_decision p s (fst x) (snd x)) (snd x)"
  by (simp add: overflow_observe_def overflow_Evaluate_def assms)

text \<open>The counters of the health mode are the trailing observations, cut at the thresholds.\<close>

lemma health_counters:
  assumes "overflow_Validate p = None" "ovp_Mode p = ''health''" "ovp_BudgetAvailable p"
  shows "ovs_ConsecutiveHigh (overflow_run p obs) = min (ovp_BreachIntervals p) (trailing (\<lambda>x. \<not> healthy_obs x) obs) \<and>
    ovs_ConsecutiveLow (overflow_run p obs) = min (ovp_RecoveryIntervals p) (trailing healthy_obs obs)"
proof (induction obs rule: rev_induct)
  case Nil
  then show ?case using overflow_intervals [OF assms(1)] by (simp add: zero_overflow_def trailing_def)
next
  case (snoc x obs)
  show ?case using overflow_intervals [OF assms(1)] snoc
    by (cases "healthy_obs x")
      (simp_all add: overflow_run_snoc health_step [OF assms] health_decision_def Let_def overflow_next_def hold_primary_def
        trailing_snoc healthy_obs_def [symmetric] cut_step)
qed

text \<open>C24.
  The hysteresis of the overflow engine in health mode, exactly. After any history of observations
  under a valid policy with budget, the next observation moves traffic to external capacity if and
  only if the primary capacity has been unhealthy in each of the last \<open>BreachIntervals\<close> observations,
  and back if and only if it has been healthy in each of the last \<open>RecoveryIntervals\<close>, in both cases
  outside the cooldown of the last change; the time of the last change is then the observation's.
\<close>

theorem overflow_hysteresis:
  assumes "overflow_Validate p = None" "ovp_Mode p = ''health''" "ovp_BudgetAvailable p"
    and s: "s = overflow_run p obs" and s': "s' = overflow_run p (obs @ [x])"
  shows "(ovs_External s' \<longleftrightarrow>
      (if ovs_External s
       then \<not> (ovp_RecoveryIntervals p \<le> trailing healthy_obs (obs @ [x]) \<and> \<not> overflow_cooling p s (snd x))
       else ovp_BreachIntervals p \<le> trailing (\<lambda>y. \<not> healthy_obs y) (obs @ [x]) \<and> \<not> overflow_cooling p s (snd x))) \<and>
    ovs_LastChangedAt s' = (if ovs_External s' \<noteq> ovs_External s then snd x else ovs_LastChangedAt s)"
proof -
  note counters = health_counters [OF assms(1-3), of obs, folded s]
  have step: "s' = overflow_next s (health_decision p s (fst x) (snd x)) (snd x)"
    unfolding s' s overflow_run_snoc by (rule health_step [OF assms(1-3)])
  show ?thesis using overflow_intervals [OF assms(1)] counters
    by (cases "healthy_obs x")
      (auto simp: step health_decision_def Let_def overflow_next_def hold_primary_def trailing_snoc
        healthy_obs_def [symmetric] cut_step)
qed

text \<open>Whatever the mode, the state and the evidence, traffic goes to external capacity only under a valid
  policy with privacy acknowledged and budget available; without budget it stays on healthy primary
  capacity and is refused otherwise, and with stale queue evidence the route does not change.
\<close>

theorem overflow_needs_authority:
  assumes "overflow_Evaluate p s signal now = Inr d"
  shows "ovd_Route d \<in> {''primary'', ''external'', ''unavailable''} \<and>
    (ovd_Route d = ''external'' \<longrightarrow> ovp_BudgetAvailable p \<and> ovp_PrivacyAcknowledged p \<and> overflow_Validate p = None) \<and>
    (\<not> ovp_BudgetAvailable p \<longrightarrow> ovd_Route d = (if ovg_PrimaryHealthy signal then ''primary'' else ''unavailable'')) \<and>
    (ovp_BudgetAvailable p \<and> ovp_Mode p \<noteq> ''health'' \<and> ovg_PrimaryHealthy signal \<and> queue_evidence_stale p signal now \<longrightarrow>
       (ovd_Route d = ''external'') = ovs_External s)"
proof -
  have valid: "overflow_Validate p = None" using assms by (auto simp: overflow_Evaluate_def split: option.splits)
  then have "ovp_PrivacyAcknowledged p" by (simp add: overflow_Validate_def split: if_splits)
  with valid assms show ?thesis
    by (auto simp: overflow_Evaluate_def without_budget_def health_decision_def queue_decision_def hold_primary_def Let_def
        split: if_splits)
qed

definition example_overflow :: overflow_policy where
  "example_overflow =
     \<lparr>ovp_Mode = ''health'', ovp_QueueThreshold = FNum 0, ovp_BreachIntervals = 2, ovp_RecoveryIntervals = 2, ovp_Cooldown = 10,
      ovp_SignalMaxAge = 0, ovp_PrivacyAcknowledged = True, ovp_BudgetAvailable = True\<rparr>"

definition example_observation :: "bool \<Rightarrow> gotime \<Rightarrow> overflow_signal \<times> gotime" where
  "example_observation healthy now = (\<lparr>ovg_PrimaryHealthy = healthy, ovg_Waiting = None, ovg_ObservedAt = 0\<rparr>, now)"

theorem overflow_hysteresis_witness:
  "\<not> ovs_External (overflow_run example_overflow [example_observation False 5]) \<and>
   ovs_External (overflow_run example_overflow [example_observation False 5, example_observation False 6])"
proof -
  have valid: "overflow_Validate example_overflow = None" "ovp_Mode example_overflow = ''health''" "ovp_BudgetAvailable example_overflow"
    by (simp_all add: overflow_Validate_def example_overflow_def)
  note H = overflow_hysteresis [OF valid refl refl]
  have "\<not> ovs_External (overflow_run example_overflow [example_observation False 5])"
    using H [of "[]" "example_observation False 5"]
    by (simp add: zero_overflow_def trailing_def example_overflow_def)
  moreover from this have "ovs_External (overflow_run example_overflow ([example_observation False 5] @ [example_observation False 6]))"
    using H [of "[]" "example_observation False 5"] H [of "[example_observation False 5]" "example_observation False 6"]
    by (simp add: trailing_def example_overflow_def example_observation_def healthy_obs_def overflow_cooling_def zero_overflow_def is_zero_time_def)
  ultimately show ?thesis by simp
qed

theorem overflow_needs_authority_witness:
  "\<exists>d. overflow_Evaluate (example_overflow\<lparr>ovp_BudgetAvailable := False\<rparr>) zero_overflow
      (fst (example_observation False 5)) 5 = Inr d \<and> ovd_Route d = ''unavailable''"
proof -
  let ?p = "example_overflow\<lparr>ovp_BudgetAvailable := False\<rparr>"
  obtain d where d: "overflow_Evaluate ?p zero_overflow (fst (example_observation False 5)) 5 = Inr d"
    by (simp add: overflow_Evaluate_def overflow_Validate_def example_overflow_def)
  from overflow_needs_authority [OF d] d show ?thesis by (simp add: example_observation_def)
qed

end
