(* ===== verification/Route_Directory.thy ===== *)
theory Route_Directory
  imports Overflow "HOL-Library.AList" "HOL-Library.Multiset" "HOL-Library.List_Lexorder" "HOL-Library.Char_ord"
begin

text \<open>
  The data-plane route directory (\<open>internal/routes/routes.go\<close>): concrete deployment routes, endpoint
  routes with weighted selection and health decay, requests pinned to the route they acquired, and
  the retirement of withdrawn generations. Every method holds the directory's lock for its whole
  body, so it is one step; a request is an acquisition and a later release.

  Maps the code iterates over are association lists (the order stands for Go's unspecified iteration
  order), the others are functions with the zero value as default.
\<close>


section \<open>Routes\<close>

record protocol_capabilities =
  pcap_ChatCompletions :: bool
  pcap_Responses :: bool
  pcap_Embeddings :: bool
  pcap_Batch :: bool
  pcap_Completions :: bool
  pcap_Streaming :: bool
  pcap_ToolCalling :: bool

definition protocol_Supports :: "protocol_capabilities \<Rightarrow> string \<Rightarrow> bool" where
  "protocol_Supports c operation =
     (if operation = ''chat'' then pcap_ChatCompletions c
      else if operation = ''responses'' then pcap_Responses c
      else if operation = ''embeddings'' then pcap_Embeddings c
      else if operation = ''completions'' then pcap_Completions c
      else if operation = ''batch'' then pcap_Batch c
      else False)"

record snapshot =
  sn_DeploymentID :: string
  sn_TargetID :: string
  sn_RevisionID :: string
  sn_TenantID :: string
  sn_Alias :: string
  sn_UpstreamModel :: string
  sn_RouterURL :: string
  sn_RouterProcessID :: string
  sn_Provider :: string
  sn_ProviderResourceID :: string
  sn_Runtime :: string
  sn_ComputeMode :: string
  sn_UpstreamAPIKey :: string
  sn_ExternalPolicyID :: string
  sn_SelectionReason :: string
  sn_ProviderWorkers :: "int option"
  sn_ProviderObservedAt :: gotime
  sn_LogicalModelID :: string
  sn_EnvironmentID :: string
  sn_EndpointID :: string
  sn_ServingPlanID :: string
  sn_BindingID :: string
  sn_RoutingWeight :: int
  sn_ProtocolCapabilities :: protocol_capabilities

record endpoint_route =
  ep_TenantID :: string
  ep_Alias :: string
  ep_RoutingPolicy :: string
  ep_Routes :: "snapshot list"
  ep_PlannedBindingIDs :: "string list"

record route_directory =
  rd_items :: "(string \<times> snapshot) list"
  rd_endpoints :: "(string \<times> endpoint_route) list"
  rd_selections :: "string \<Rightarrow> int"
  rd_blocked :: "string \<Rightarrow> bool"
  rd_inflight :: "string \<Rightarrow> int"
  rd_retired :: "(string \<times> snapshot) list"
  rd_health :: "string \<Rightarrow> overflow_state"

definition routes_New :: route_directory where
  "routes_New = \<lparr>rd_items = [], rd_endpoints = [], rd_selections = (\<lambda>_. 0), rd_blocked = (\<lambda>_. False),
     rd_inflight = (\<lambda>_. 0), rd_retired = [], rd_health = (\<lambda>_. zero_overflow)\<rparr>"

definition NUL :: char where "NUL = CHR 0x00"

definition routeID :: "snapshot \<Rightarrow> string" where
  "routeID route =
     (if sn_RouterProcessID route \<noteq> '''' then ''router:'' @ sn_RouterProcessID route
      else ''route:'' @ sn_DeploymentID route @ [NUL] @ sn_RevisionID route @ [NUL] @ sn_RouterURL route)"

definition dir_key :: "string \<Rightarrow> string \<Rightarrow> string" where
  "dir_key tenant alias = tenant @ [NUL] @ alias"


section \<open>Reading\<close>

definition routes_GetForTenant :: "route_directory \<Rightarrow> string \<Rightarrow> string \<Rightarrow> snapshot option" where
  "routes_GetForTenant d tenant alias =
     (let key = dir_key tenant alias in
      if rd_blocked d key then None
      else case map_of (rd_endpoints d) key of
          Some e \<Rightarrow> if ep_Routes e \<noteq> [] then Some (hd (ep_Routes e)) else map_of (rd_items d) key
        | None \<Rightarrow> map_of (rd_items d) key)"

definition routes_Get :: "route_directory \<Rightarrow> string \<Rightarrow> snapshot option" where
  "routes_Get d alias = routes_GetForTenant d ''global'' alias"

definition GetDeployment :: "route_directory \<Rightarrow> string \<Rightarrow> snapshot option" where
  "GetDeployment d deploymentID = find (\<lambda>r. sn_DeploymentID r = deploymentID) (map snd (rd_items d))"

definition HasCurrentDeployment :: "route_directory \<Rightarrow> string \<Rightarrow> bool" where
  "HasCurrentDeployment d deploymentID = list_ex (\<lambda>r. sn_DeploymentID r = deploymentID) (map snd (rd_items d))"

definition EndpointAliasesForTenant :: "route_directory \<Rightarrow> string \<Rightarrow> string list" where
  "EndpointAliasesForTenant d tenant =
     sort (map ep_Alias (filter (\<lambda>e. ep_TenantID e = tenant) (map snd (rd_endpoints d))))"

definition ConcreteRoutes :: "route_directory \<Rightarrow> snapshot list" where
  "ConcreteRoutes d = sort_key sn_Alias (map snd (rd_items d))"

definition routes_List :: "route_directory \<Rightarrow> snapshot list" where
  "routes_List d =
     (let served = filter (\<lambda>(k, e). ep_Routes e \<noteq> []) (rd_endpoints d);
          seen = map fst served in
      sort_key sn_Alias
        (map (\<lambda>(k, e). hd (ep_Routes e)) served @
         map snd (filter (\<lambda>(k, r). k \<notin> set seen \<and> \<not> rd_blocked d k) (rd_items d))))"

definition routes_ListForTenant :: "route_directory \<Rightarrow> string \<Rightarrow> snapshot list" where
  "routes_ListForTenant d tenant = filter (\<lambda>r. sn_TenantID r = tenant) (routes_List d)"

definition RetiringInFlight :: "route_directory \<Rightarrow> string \<Rightarrow> int" where
  "RetiringInFlight d deploymentID =
     sum_list (map (\<lambda>(i, r). if sn_DeploymentID r = deploymentID then rd_inflight d i else 0) (rd_retired d))"

definition current_ids :: "route_directory \<Rightarrow> string set" where
  "current_ids d =
     routeID ` set (map snd (rd_items d)) \<union> (\<Union>e \<in> set (map snd (rd_endpoints d)). routeID ` set (ep_Routes e))"

definition RetiredReady :: "route_directory \<Rightarrow> snapshot list" where
  "RetiredReady d = map snd (filter (\<lambda>(i, r). i \<notin> current_ids d \<and> rd_inflight d i = 0) (rd_retired d))"


section \<open>Selecting and pinning\<close>

definition routeWeight :: "snapshot \<Rightarrow> int" where
  "routeWeight route = (if sn_RoutingWeight route > 0 then sn_RoutingWeight route else 1)"

fun select_loop :: "snapshot list \<Rightarrow> int \<Rightarrow> snapshot option" where
  "select_loop [] point = None"
| "select_loop (route # rest) point =
     (if point < routeWeight route then Some route else select_loop rest (u64 (point - routeWeight route)))"

definition weight_total :: "snapshot list \<Rightarrow> int" where
  "weight_total routes = u64 (sum_list (map routeWeight routes))"

text \<open>A total that wraps to zero, which would divide by zero, needs weights beyond any plan.\<close>

definition selectLocked :: "route_directory \<Rightarrow> string \<Rightarrow> snapshot option \<times> route_directory" where
  "selectLocked d key =
     (if rd_blocked d key then (None, d)
      else case map_of (rd_endpoints d) key of
          None \<Rightarrow> (map_of (rd_items d) key, d)
        | Some e \<Rightarrow>
            if ep_Routes e = [] then (map_of (rd_items d) key, d)
            else if ep_RoutingPolicy e \<noteq> ''weighted'' \<or> length (ep_Routes e) = 1 then (Some (hd (ep_Routes e)), d)
            else let ordinal = rd_selections d key;
                     d' = d\<lparr>rd_selections := (rd_selections d)(key := u64 (ordinal + 1))\<rparr>
                 in (case select_loop (ep_Routes e) (ordinal mod weight_total (ep_Routes e)) of
                       Some route \<Rightarrow> (Some route, d')
                     | None \<Rightarrow> (Some (hd (ep_Routes e)), d')))"

definition preferred_route :: "route_directory \<Rightarrow> string \<Rightarrow> string \<Rightarrow> string \<Rightarrow> snapshot option" where
  "preferred_route d key bindingID targetID =
     (case map_of (rd_endpoints d) key of
        None \<Rightarrow> None
      | Some e \<Rightarrow> find (\<lambda>c. (bindingID \<noteq> '''' \<and> sn_BindingID c = bindingID) \<or> (targetID \<noteq> '''' \<and> sn_TargetID c = targetID)) (ep_Routes e))"

definition pin :: "snapshot \<Rightarrow> route_directory \<Rightarrow> route_directory" where
  "pin route d = d\<lparr>rd_inflight := (rd_inflight d)(routeID route := rd_inflight d (routeID route) + 1)\<rparr>"

definition AcquirePreferredForTenant ::
  "route_directory \<Rightarrow> string \<Rightarrow> string \<Rightarrow> string \<Rightarrow> string \<Rightarrow> snapshot option \<times> route_directory" where
  "AcquirePreferredForTenant d tenant alias bindingID targetID =
     (let key = dir_key tenant alias in
      case preferred_route d key bindingID targetID of
        Some route \<Rightarrow> (Some route, pin route d)
      | None \<Rightarrow>
          (case selectLocked d key of
             (None, d') \<Rightarrow> (None, d')
           | (Some route, d') \<Rightarrow> (Some route, pin route d')))"

definition AcquireForTenant :: "route_directory \<Rightarrow> string \<Rightarrow> string \<Rightarrow> snapshot option \<times> route_directory" where
  "AcquireForTenant d tenant alias = AcquirePreferredForTenant d tenant alias '''' ''''"

text \<open>The release function of an acquisition; \<open>sync.Once\<close> makes it run at most once.\<close>

definition unpin :: "snapshot \<Rightarrow> route_directory \<Rightarrow> route_directory" where
  "unpin route d =
     (let i = routeID route in
      d\<lparr>rd_inflight := (rd_inflight d)(i := (if rd_inflight d i \<le> 1 then 0 else rd_inflight d i - 1))\<rparr>)"


section \<open>Publishing\<close>

definition decay_policy :: overflow_policy where
  "decay_policy =
     \<lparr>ovp_Mode = ''health'', ovp_QueueThreshold = FNum 0, ovp_BreachIntervals = 2, ovp_RecoveryIntervals = 2,
      ovp_Cooldown = 0, ovp_SignalMaxAge = 0, ovp_PrivacyAcknowledged = True, ovp_BudgetAvailable = True\<rparr>"

definition decay_next :: "overflow_state \<Rightarrow> overflow_decision \<Rightarrow> gotime \<Rightarrow> overflow_state" where
  "decay_next s decision now =
     \<lparr>ovs_External = (ovd_Route decision = ''external''), ovs_ConsecutiveHigh = ovd_ConsecutiveHigh decision,
      ovs_ConsecutiveLow = ovd_ConsecutiveLow decision,
      ovs_LastChangedAt = (if ovd_Action decision = ''overflow'' \<or> ovd_Action decision = ''recover'' then now else ovs_LastChangedAt s)\<rparr>"

definition available_route :: "snapshot list \<Rightarrow> string \<Rightarrow> snapshot option" where
  "available_route routes bindingID = find (\<lambda>r. sn_BindingID r = bindingID) (rev routes)"

fun decay_loop ::
  "gotime \<Rightarrow> string \<Rightarrow> snapshot list \<Rightarrow> string list \<Rightarrow> (string \<Rightarrow> overflow_state) \<Rightarrow> snapshot list \<Rightarrow>
   snapshot list \<times> (string \<Rightarrow> overflow_state)" where
  "decay_loop now key routes [] health effective = (effective, health)"
| "decay_loop now key routes (bindingID # rest) health effective =
     (let stateKey = key @ [NUL] @ bindingID;
          state = health stateKey;
          available = available_route routes bindingID;
          signal = \<lparr>ovg_PrimaryHealthy = (available \<noteq> None), ovg_Waiting = None, ovg_ObservedAt = 0\<rparr> in
      case overflow_Evaluate decay_policy state signal now of
        Inl _ \<Rightarrow> decay_loop now key routes rest health effective
      | Inr decision \<Rightarrow>
          let state' = decay_next state decision now in
          decay_loop now key routes rest (health(stateKey := state'))
            (case available of
               Some route \<Rightarrow> if ovs_External state' then effective else effective @ [route]
             | None \<Rightarrow> effective))"

definition applyHealthDecayLocked ::
  "gotime \<Rightarrow> route_directory \<Rightarrow> string \<Rightarrow> endpoint_route \<Rightarrow> snapshot list \<times> route_directory" where
  "applyHealthDecayLocked now d key endpoint =
     (let planned = (if ep_PlannedBindingIDs endpoint = [] then map sn_BindingID (ep_Routes endpoint)
                     else ep_PlannedBindingIDs endpoint)
      in case decay_loop now key (ep_Routes endpoint) planned (rd_health d) [] of
           (effective, health) \<Rightarrow> (effective, d\<lparr>rd_health := health\<rparr>))"

fun retire_loop :: "string set \<Rightarrow> snapshot list \<Rightarrow> (string \<times> snapshot) list \<Rightarrow> (string \<times> snapshot) list" where
  "retire_loop retained [] retired = retired"
| "retire_loop retained (route # rest) retired =
     retire_loop retained rest (if routeID route \<in> retained then retired else AList.update (routeID route) route retired)"

definition retireEndpointRoutesLocked :: "snapshot list \<Rightarrow> snapshot list \<Rightarrow> route_directory \<Rightarrow> route_directory" where
  "retireEndpointRoutesLocked previous new d =
     d\<lparr>rd_retired := retire_loop (routeID ` set new) previous (rd_retired d)\<rparr>"

definition PublishEndpoint :: "gotime \<Rightarrow> route_directory \<Rightarrow> endpoint_route \<Rightarrow> nat \<times> route_directory" where
  "PublishEndpoint now d endpoint0 =
     (let endpoint = (if ep_TenantID endpoint0 = '''' then endpoint0\<lparr>ep_TenantID := ''global''\<rparr> else endpoint0);
          key = dir_key (ep_TenantID endpoint) (ep_Alias endpoint);
          (routes, d1) = (if ep_RoutingPolicy endpoint = ''weighted'' then applyHealthDecayLocked now d key endpoint
                          else (ep_Routes endpoint, d));
          d2 = (case map_of (rd_endpoints d1) key of None \<Rightarrow> d1
                | Some previous \<Rightarrow> retireEndpointRoutesLocked (ep_Routes previous) routes d1)
      in (length routes,
          d2\<lparr>rd_endpoints := AList.update key
               \<lparr>ep_TenantID = ep_TenantID endpoint, ep_Alias = ep_Alias endpoint, ep_RoutingPolicy = ep_RoutingPolicy endpoint,
                ep_Routes = routes, ep_PlannedBindingIDs = []\<rparr> (rd_endpoints d2),
             rd_blocked := (rd_blocked d2)(key := False)\<rparr>))"

definition RemoveEndpointForTenant :: "route_directory \<Rightarrow> string \<Rightarrow> string \<Rightarrow> route_directory" where
  "RemoveEndpointForTenant d tenant alias =
     (let key = dir_key tenant alias;
          d1 = (case map_of (rd_endpoints d) key of None \<Rightarrow> d
                | Some previous \<Rightarrow> retireEndpointRoutesLocked (ep_Routes previous) [] d)
      in d1\<lparr>rd_endpoints := AList.delete key (rd_endpoints d1),
            rd_selections := (rd_selections d1)(key := 0),
            rd_health := (\<lambda>k. if length k > length key \<and> take (length key + 1) k = key @ [NUL] then zero_overflow else rd_health d1 k),
            rd_blocked := (rd_blocked d1)(key := True)\<rparr>)"

definition routes_Put :: "route_directory \<Rightarrow> snapshot \<Rightarrow> route_directory" where
  "routes_Put d route0 =
     (let route = (if sn_TenantID route0 = '''' then route0\<lparr>sn_TenantID := ''global''\<rparr> else route0);
          key = dir_key (sn_TenantID route) (sn_Alias route);
          d1 = (case map_of (rd_items d) key of
                  Some previous \<Rightarrow>
                    if routeID previous \<noteq> routeID route
                    then d\<lparr>rd_retired := AList.update (routeID previous) previous (rd_retired d)\<rparr> else d
                | None \<Rightarrow> d)
      in d1\<lparr>rd_items := AList.update key route (rd_items d1)\<rparr>)"

definition RemoveForTenant :: "route_directory \<Rightarrow> string \<Rightarrow> string \<Rightarrow> route_directory" where
  "RemoveForTenant d tenant alias =
     (let key = dir_key tenant alias;
          d1 = (case map_of (rd_items d) key of
                  Some previous \<Rightarrow> d\<lparr>rd_retired := AList.update (routeID previous) previous (rd_retired d)\<rparr>
                | None \<Rightarrow> d)
      in d1\<lparr>rd_items := AList.delete key (rd_items d1)\<rparr>)"

definition routes_Remove :: "route_directory \<Rightarrow> string \<Rightarrow> route_directory" where
  "routes_Remove d alias = RemoveForTenant d ''global'' alias"

definition ForgetRetired :: "route_directory \<Rightarrow> snapshot \<Rightarrow> route_directory" where
  "ForgetRetired d route = d\<lparr>rd_retired := AList.delete (routeID route) (rd_retired d)\<rparr>"

section \<open>Requests and publications, interleaved\<close>

text \<open>
  The state is the directory and the routes of the requests in flight. A route belongs to one
  deployment, the owner of its generation's identity: process identifiers carry the deployment, and
  the identity of a route without a router process contains it. The reconciler publishes nothing
  between asking for drained generations and forgetting them, so reaping one is one step.
\<close>

definition owned :: "(string \<Rightarrow> string) \<Rightarrow> snapshot \<Rightarrow> bool" where
  "owned owner r \<longleftrightarrow> sn_DeploymentID r = owner (routeID r)"

inductive route_step ::
  "(string \<Rightarrow> string) \<Rightarrow> route_directory \<times> snapshot multiset \<Rightarrow> route_directory \<times> snapshot multiset \<Rightarrow> bool"
  for owner where
  put: "owned owner r \<Longrightarrow> route_step owner (d, L) (routes_Put d r, L)"
| remove: "route_step owner (d, L) (RemoveForTenant d tenant alias, L)"
| publish: "\<forall>r \<in> set (ep_Routes e). owned owner r \<Longrightarrow> PublishEndpoint now d e = (n, d') \<Longrightarrow> route_step owner (d, L) (d', L)"
| withdraw: "route_step owner (d, L) (RemoveEndpointForTenant d tenant alias, L)"
| acquire: "AcquirePreferredForTenant d tenant alias bindingID targetID = (Some r, d') \<Longrightarrow>
    route_step owner (d, L) (d', add_mset r L)"
| turned_away: "AcquirePreferredForTenant d tenant alias bindingID targetID = (None, d') \<Longrightarrow> route_step owner (d, L) (d', L)"
| finish: "r \<in># L \<Longrightarrow> route_step owner (d, L) (unpin r d, L - {#r#})"
| reap: "r \<in> set (RetiredReady d) \<Longrightarrow> route_step owner (d, L) (ForgetRetired d r, L)"

definition published :: "route_directory \<Rightarrow> snapshot set" where
  "published d = set (map snd (rd_items d)) \<union> (\<Union>e \<in> set (map snd (rd_endpoints d)). set (ep_Routes e))"

lemma current_ids_published: "current_ids d = routeID ` published d"
  by (auto simp: current_ids_def published_def)

definition retired_ids :: "route_directory \<Rightarrow> string set" where
  "retired_ids d = fst ` set (rd_retired d)"

text \<open>What holds of the directory alone.\<close>

definition dir_ok :: "(string \<Rightarrow> string) \<Rightarrow> route_directory \<Rightarrow> bool" where
  "dir_ok owner d \<longleftrightarrow>
     distinct (map fst (rd_items d)) \<and> distinct (map fst (rd_endpoints d)) \<and> distinct (map fst (rd_retired d)) \<and>
     (\<forall>(i, r) \<in> set (rd_retired d). i = routeID r \<and> owned owner r) \<and> (\<forall>r \<in> published d. owned owner r)"

text \<open>The counters are the requests in flight, and every request uses a published or a retired generation.\<close>

definition pins_ok :: "(string \<Rightarrow> string) \<Rightarrow> route_directory \<Rightarrow> snapshot multiset \<Rightarrow> bool" where
  "pins_ok owner d L \<longleftrightarrow>
     (\<forall>i. rd_inflight d i = int (size (filter_mset (\<lambda>r. routeID r = i) L))) \<and>
     (\<forall>r \<in># L. owned owner r \<and> routeID r \<in> current_ids d \<union> retired_ids d)"

definition route_inv :: "(string \<Rightarrow> string) \<Rightarrow> route_directory \<times> snapshot multiset \<Rightarrow> bool" where
  "route_inv owner s \<longleftrightarrow> dir_ok owner (fst s) \<and> pins_ok owner (fst s) (snd s)"

lemma values_update: "snd ` set (AList.update k v al) \<subseteq> insert v (snd ` set al)"
  by (induction al) (auto split: if_splits)

lemma update_keeps_values:
  "distinct (map fst al) \<Longrightarrow> x \<in> snd ` set al \<Longrightarrow> x \<in> snd ` set (AList.update k v al) \<or> map_of al k = Some x"
  by (induction al) (auto split: if_splits)

lemma update_value: "v \<in> snd ` set (AList.update k v al)"
  by (induction al) auto

lemma values_delete: "snd ` set (AList.delete k al) \<subseteq> snd ` set al"
  by (auto simp: AList.delete_eq)

lemma delete_keeps_values:
  "distinct (map fst al) \<Longrightarrow> x \<in> snd ` set al \<Longrightarrow> x \<in> snd ` set (AList.delete k al) \<or> map_of al k = Some x"
  by (auto simp: AList.delete_eq image_iff)

lemma keys_update: "fst ` set (AList.update k v al) = insert k (fst ` set al)"
  by (induction al) auto

lemma keys_delete: "fst ` set (AList.delete k al) = fst ` set al - {k}"
  by (auto simp: AList.delete_eq image_iff)

lemma entries_update: "set (AList.update k v al) \<subseteq> insert (k, v) (set al)"
  by (induction al) auto

lemma retire_loop_keys:
  "fst ` set (retire_loop retained routes retired) = fst ` set retired \<union> (routeID ` set routes - retained)"
  by (induction routes arbitrary: retired) (auto simp: keys_update)

lemma retire_loop_entries:
  "set (retire_loop retained routes retired) \<subseteq> set retired \<union> (\<lambda>r. (routeID r, r)) ` set routes"
proof (induction routes arbitrary: retired)
  case (Cons r routes)
  show ?case using Cons [of "AList.update (routeID r) r retired"] Cons [of retired] entries_update [of "routeID r" r retired]
    by auto
qed simp

lemma retire_loop_distinct: "distinct (map fst retired) \<Longrightarrow> distinct (map fst (retire_loop retained routes retired))"
  by (induction routes arbitrary: retired) (auto simp: distinct_update)

lemma decay_loop_routes:
  "decay_loop now key routes planned health effective = (out, health') \<Longrightarrow> set effective \<subseteq> set routes \<Longrightarrow> set out \<subseteq> set routes"
proof (induction planned arbitrary: health effective)
  case (Cons b rest)
  let ?next = "\<lambda>s. case available_route routes b of Some r \<Rightarrow> if ovs_External s then effective else effective @ [r] | None \<Rightarrow> effective"
  have sub: "set (?next s) \<subseteq> set routes" for s
    using Cons.prems(2) by (auto simp: available_route_def find_Some_iff split: option.splits) (metis nth_mem set_rev length_rev)
  show ?case using Cons.prems Cons.IH [OF _ sub] Cons.IH by (auto simp: Let_def split: sum.splits)
qed simp

text \<open>
  How a publication may change the directory: what it withdraws is retired, what it adds is owned,
  and the requests in flight are not touched.
\<close>

definition republished :: "(string \<Rightarrow> string) \<Rightarrow> route_directory \<Rightarrow> route_directory \<Rightarrow> bool" where
  "republished owner d d' \<longleftrightarrow> dir_ok owner d' \<and> rd_inflight d' = rd_inflight d \<and>
     current_ids d \<union> retired_ids d \<subseteq> current_ids d' \<union> retired_ids d'"

lemma republished_inv:
  "republished owner d d' \<Longrightarrow> route_inv owner (d, L) \<Longrightarrow> route_inv owner (d', L)"
  by (auto simp: republished_def route_inv_def pins_ok_def)

lemma published_owned: "dir_ok owner d \<Longrightarrow> r \<in> published d \<Longrightarrow> owned owner r"
  by (simp add: dir_ok_def)

lemma items_published: "map_of (rd_items d) k = Some r \<Longrightarrow> r \<in> published d"
  using map_of_SomeD [of "rd_items d" k r] by (force simp: published_def)

lemma endpoint_published: "map_of (rd_endpoints d) k = Some e \<Longrightarrow> r \<in> set (ep_Routes e) \<Longrightarrow> r \<in> published d"
  using map_of_SomeD [of "rd_endpoints d" k e] by (force simp: published_def)

lemma routeID_tenant [simp]: "routeID (r\<lparr>sn_TenantID := t\<rparr>) = routeID r"
  by (simp add: routeID_def)

lemma retire_item_entries:
  assumes "map_of (rd_items d) k = Some p"
  shows "set (AList.update (routeID p) p (rd_retired d)) \<subseteq> set (rd_retired d) \<union> (\<lambda>r. (routeID r, r)) ` published d"
  using entries_update [of "routeID p" p "rd_retired d"] items_published [OF assms] by blast

text \<open>What has to be checked of a publication that only adds to the retired generations.\<close>

lemma republishedI:
  assumes "dir_ok owner d" "rd_inflight d' = rd_inflight d"
    and "distinct (map fst (rd_items d'))" "distinct (map fst (rd_endpoints d'))" "distinct (map fst (rd_retired d'))"
    and new: "\<And>r. r \<in> published d' \<Longrightarrow> r \<in> published d \<or> owned owner r"
    and entries: "set (rd_retired d') \<subseteq> set (rd_retired d) \<union> (\<lambda>r. (routeID r, r)) ` published d"
    and retired: "retired_ids d \<subseteq> retired_ids d'"
    and kept: "\<And>r. r \<in> published d \<Longrightarrow> routeID r \<in> current_ids d' \<union> retired_ids d'"
  shows "republished owner d d'"
proof -
  have "dir_ok owner d'"
    using assms published_owned [OF assms(1)] unfolding dir_ok_def by blast
  then show ?thesis using assms(2) retired kept by (auto simp: republished_def current_ids_published [of d])
qed

lemma published_split:
  "r \<in> published d \<longleftrightarrow> r \<in> snd ` set (rd_items d) \<or> (\<exists>e \<in> snd ` set (rd_endpoints d). r \<in> set (ep_Routes e))"
  by (auto simp: published_def)

lemma current_idsI: "r \<in> published d \<Longrightarrow> routeID r \<in> current_ids d"
  by (simp add: current_ids_published)

lemma put_republished:
  assumes ok: "dir_ok owner d" and own: "owned owner r"
  shows "republished owner d (routes_Put d r)"
proof -
  define route where "route = (if sn_TenantID r = '''' then r\<lparr>sn_TenantID := ''global''\<rparr> else r)"
  define k where "k = dir_key (sn_TenantID route) (sn_Alias route)"
  define retired' where "retired' = (case map_of (rd_items d) k of
      Some previous \<Rightarrow> if routeID previous \<noteq> routeID route then AList.update (routeID previous) previous (rd_retired d) else rd_retired d
    | None \<Rightarrow> rd_retired d)"
  let ?d' = "d\<lparr>rd_retired := retired', rd_items := AList.update k route (rd_items d)\<rparr>"
  have d': "routes_Put d r = ?d'"
    unfolding routes_Put_def Let_def route_def [symmetric] k_def [symmetric] retired'_def
    by (auto split: option.splits)
  have route: "owned owner route" using own by (simp add: route_def owned_def)
  have pub: "route \<in> published ?d'" using update_value [of route k "rd_items d"] by (simp add: published_split)
  show ?thesis unfolding d'
  proof (rule republishedI [OF ok])
    fix x
    assume "x \<in> published ?d'"
    then show "x \<in> published d \<or> owned owner x"
      using route values_update [of k route "rd_items d"] by (auto simp: published_split)
  next
    fix x
    assume "x \<in> published d"
    then consider "x \<in> published ?d'" | "map_of (rd_items d) k = Some x"
      using ok update_keeps_values [of "rd_items d" x k route] by (auto simp: published_split dir_ok_def)
    then show "routeID x \<in> current_ids ?d' \<union> retired_ids ?d'"
      using current_idsI [OF pub] by cases (auto simp: retired_ids_def retired'_def keys_update intro: current_idsI)
  next
    show "set (rd_retired ?d') \<subseteq> set (rd_retired d) \<union> (\<lambda>r. (routeID r, r)) ` published d"
      using retire_item_entries [of d k] by (simp add: retired'_def split: option.splits)
  qed (use ok in \<open>auto simp: dir_ok_def distinct_update retired'_def retired_ids_def keys_update split: option.splits\<close>)
qed

lemma remove_republished:
  assumes ok: "dir_ok owner d"
  shows "republished owner d (RemoveForTenant d tenant alias)"
proof -
  define k where "k = dir_key tenant alias"
  define retired' where "retired' = (case map_of (rd_items d) k of
      Some previous \<Rightarrow> AList.update (routeID previous) previous (rd_retired d) | None \<Rightarrow> rd_retired d)"
  let ?d' = "d\<lparr>rd_retired := retired', rd_items := AList.delete k (rd_items d)\<rparr>"
  have d': "RemoveForTenant d tenant alias = ?d'"
    unfolding RemoveForTenant_def Let_def k_def [symmetric] retired'_def by (auto split: option.splits)
  show ?thesis unfolding d'
  proof (rule republishedI [OF ok])
    fix x
    assume "x \<in> published ?d'"
    then show "x \<in> published d \<or> owned owner x"
      using values_delete [of k "rd_items d"] by (auto simp: published_split)
  next
    fix x
    assume "x \<in> published d"
    then consider "x \<in> published ?d'" | "map_of (rd_items d) k = Some x"
      using ok delete_keeps_values [of "rd_items d" x k] by (auto simp: published_split dir_ok_def)
    then show "routeID x \<in> current_ids ?d' \<union> retired_ids ?d'"
      by cases (auto simp: retired_ids_def retired'_def keys_update intro: current_idsI)
  next
    show "set (rd_retired ?d') \<subseteq> set (rd_retired d) \<union> (\<lambda>r. (routeID r, r)) ` published d"
      using retire_item_entries [of d k] by (simp add: retired'_def split: option.splits)
  qed (use ok in \<open>auto simp: dir_ok_def distinct_update distinct_delete retired'_def retired_ids_def keys_update split: option.splits\<close>)
qed

text \<open>Publishing an endpoint and withdrawing it share one shape: its previous routes are retired, unless they are retained.\<close>

lemma endpoint_republished:
  assumes ok: "dir_ok owner d"
    and inflight: "rd_inflight d' = rd_inflight d" and items: "rd_items d' = rd_items d"
    and ends: "distinct (map fst (rd_endpoints d'))"
      "\<And>r. r \<in> set new \<Longrightarrow> \<exists>e \<in> snd ` set (rd_endpoints d'). r \<in> set (ep_Routes e)"
      "\<And>e. e \<in> snd ` set (rd_endpoints d') \<Longrightarrow> e \<in> snd ` set (rd_endpoints d) \<or> set (ep_Routes e) \<subseteq> set new"
      "\<And>e. e \<in> snd ` set (rd_endpoints d) \<Longrightarrow> e \<in> snd ` set (rd_endpoints d') \<or> map_of (rd_endpoints d) k = Some e"
    and retired: "rd_retired d' = (case map_of (rd_endpoints d) k of None \<Rightarrow> rd_retired d
      | Some previous \<Rightarrow> retire_loop (routeID ` set new) (ep_Routes previous) (rd_retired d))"
    and own: "\<forall>r \<in> set new. owned owner r"
  shows "republished owner d d'"
proof (rule republishedI [OF ok inflight])
  fix x
  assume "x \<in> published d'"
  then show "x \<in> published d \<or> owned owner x" using ends(3) own unfolding published_split items by blast
next
  fix x
  assume "x \<in> published d"
  then consider "x \<in> published d'" | e where "map_of (rd_endpoints d) k = Some e" "x \<in> set (ep_Routes e)"
    using ends(4) unfolding published_split items by blast
  then show "routeID x \<in> current_ids d' \<union> retired_ids d'"
  proof cases
    case 2
    show ?thesis
    proof (cases "routeID x \<in> routeID ` set new")
      case True
      then obtain y where y: "routeID x = routeID y" "y \<in> set new" by blast
      then have "y \<in> published d'" using ends(2) by (simp add: published_split)
      then show ?thesis unfolding y(1) by (blast intro: current_idsI)
    next
      case False
      then show ?thesis using 2 by (auto simp: retired_ids_def retired retire_loop_keys)
    qed
  qed (blast intro: current_idsI)
next
  show "set (rd_retired d') \<subseteq> set (rd_retired d) \<union> (\<lambda>r. (routeID r, r)) ` published d"
  proof (cases "map_of (rd_endpoints d) k")
    case (Some e)
    have "set (ep_Routes e) \<subseteq> published d" using endpoint_published [OF Some] by blast
    then show ?thesis
      using retire_loop_entries [of "routeID ` set new" "ep_Routes e" "rd_retired d"] by (auto simp: retired Some)
  qed (simp add: retired)
qed (use ok ends(1) in \<open>auto simp: dir_ok_def items retired retired_ids_def retire_loop_keys retire_loop_distinct split: option.splits\<close>)

lemma decay_directory:
  assumes "applyHealthDecayLocked now d key e = (routes, d1)"
  shows "set routes \<subseteq> set (ep_Routes e)" "\<exists>h. d1 = d\<lparr>rd_health := h\<rparr>"
  using assms decay_loop_routes [of now key "ep_Routes e" _ "rd_health d" "[]"]
  by (auto simp: applyHealthDecayLocked_def Let_def split: prod.splits if_splits)

lemma update_entries_or_previous:
  "e \<in> snd ` set (AList.update k v al) \<Longrightarrow> e \<in> snd ` set al \<or> e = v"
  using values_update [of k v al] by blast

lemma publish_republished:
  assumes ok: "dir_ok owner d" and own: "\<forall>r \<in> set (ep_Routes e). owned owner r" and pub: "PublishEndpoint now d e = (n, d')"
  shows "republished owner d d'"
proof -
  define e1 where "e1 = (if ep_TenantID e = '''' then e\<lparr>ep_TenantID := ''global''\<rparr> else e)"
  define k where "k = dir_key (ep_TenantID e1) (ep_Alias e1)"
  obtain routes d1 where r: "(if ep_RoutingPolicy e1 = ''weighted'' then applyHealthDecayLocked now d k e1 else (ep_Routes e1, d)) = (routes, d1)"
    by fastforce
  have sub: "set routes \<subseteq> set (ep_Routes e)"
    using r decay_directory(1) [of now d k e1 routes d1] by (auto simp: e1_def split: if_splits)
  obtain h where d1: "d1 = d\<lparr>rd_health := h\<rparr>"
    using r decay_directory(2) [of now d k e1 routes d1] by (cases "ep_RoutingPolicy e1 = ''weighted''") (auto intro: that [of "rd_health d"])
  define new where "new = \<lparr>ep_TenantID = ep_TenantID e1, ep_Alias = ep_Alias e1, ep_RoutingPolicy = ep_RoutingPolicy e1,
    ep_Routes = routes, ep_PlannedBindingIDs = []\<rparr>"
  have d': "rd_endpoints d' = AList.update k new (rd_endpoints d)" "rd_inflight d' = rd_inflight d" "rd_items d' = rd_items d"
    "rd_retired d' = (case map_of (rd_endpoints d) k of None \<Rightarrow> rd_retired d
      | Some previous \<Rightarrow> retire_loop (routeID ` set routes) (ep_Routes previous) (rd_retired d))"
    using pub [symmetric] unfolding PublishEndpoint_def Let_def e1_def [symmetric] k_def [symmetric] r prod.case new_def [symmetric]
    by (auto simp: d1 new_def retireEndpointRoutesLocked_def split: option.splits)
  have routes: "ep_Routes new = routes" by (simp add: new_def)
  show ?thesis
  proof (rule endpoint_republished [where new = routes and k = k, OF ok d'(2,3)])
    fix f
    show "f \<in> snd ` set (rd_endpoints d') \<Longrightarrow> f \<in> snd ` set (rd_endpoints d) \<or> set (ep_Routes f) \<subseteq> set routes"
      unfolding d'(1) using routes update_entries_or_previous [of f k new "rd_endpoints d"] by auto
    show "f \<in> snd ` set (rd_endpoints d) \<Longrightarrow> f \<in> snd ` set (rd_endpoints d') \<or> map_of (rd_endpoints d) k = Some f"
      unfolding d'(1) using update_keeps_values [of "rd_endpoints d" f k new] ok by (simp add: dir_ok_def)
  next
    fix x
    assume "x \<in> set routes"
    then show "\<exists>f \<in> snd ` set (rd_endpoints d'). x \<in> set (ep_Routes f)"
      unfolding d'(1) using routes update_value [of new k "rd_endpoints d"] by blast
  qed (use ok own sub in \<open>auto simp: d' dir_ok_def distinct_update\<close>)
qed

lemma withdraw_republished:
  assumes ok: "dir_ok owner d"
  shows "republished owner d (RemoveEndpointForTenant d tenant alias)"
proof -
  let ?d' = "RemoveEndpointForTenant d tenant alias"
  define k where "k = dir_key tenant alias"
  have d': "rd_endpoints ?d' = AList.delete k (rd_endpoints d)" "rd_inflight ?d' = rd_inflight d" "rd_items ?d' = rd_items d"
    "rd_retired ?d' = (case map_of (rd_endpoints d) k of None \<Rightarrow> rd_retired d
      | Some previous \<Rightarrow> retire_loop (routeID ` set []) (ep_Routes previous) (rd_retired d))"
    unfolding RemoveEndpointForTenant_def Let_def k_def [symmetric]
    by (auto simp: retireEndpointRoutesLocked_def split: option.splits)
  show ?thesis
  proof (rule endpoint_republished [where new = "[]" and k = k, OF ok d'(2,3)])
    fix f
    show "f \<in> snd ` set (rd_endpoints ?d') \<Longrightarrow> f \<in> snd ` set (rd_endpoints d) \<or> set (ep_Routes f) \<subseteq> set []"
      unfolding d'(1) using values_delete [of k "rd_endpoints d"] by blast
    show "f \<in> snd ` set (rd_endpoints d) \<Longrightarrow> f \<in> snd ` set (rd_endpoints ?d') \<or> map_of (rd_endpoints d) k = Some f"
      unfolding d'(1) using delete_keeps_values [of "rd_endpoints d" f k] ok by (simp add: dir_ok_def)
  qed (use ok in \<open>auto simp: d' dir_ok_def distinct_delete\<close>)
qed

text \<open>Acquiring: the route handed out is published, and its generation counts one more request.\<close>

lemma select_loop_mem: "select_loop routes p = Some r \<Longrightarrow> r \<in> set routes"
  by (induction routes p rule: select_loop.induct) (auto split: if_splits)

lemma selectLocked_sound:
  assumes "selectLocked d key = (res, d')"
  shows "\<exists>s. d' = d\<lparr>rd_selections := s\<rparr>" "\<And>r. res = Some r \<Longrightarrow> r \<in> published d"
proof -
  show "\<exists>s. d' = d\<lparr>rd_selections := s\<rparr>"
    using assms by (auto simp: selectLocked_def Let_def split: if_splits option.splits intro: exI [of _ "rd_selections d"])
  fix r
  assume "res = Some r"
  then show "r \<in> published d"
    using assms
    by (auto simp: selectLocked_def Let_def split: if_splits option.splits
        intro: items_published endpoint_published dest: select_loop_mem)
qed

lemma acquire_sound:
  assumes "AcquirePreferredForTenant d tenant alias b t = (res, d')"
  shows "\<exists>s. d' = d\<lparr>rd_selections := s, rd_inflight :=
      (case res of None \<Rightarrow> rd_inflight d | Some r \<Rightarrow> (rd_inflight d)(routeID r := rd_inflight d (routeID r) + 1))\<rparr>"
    "\<And>r. res = Some r \<Longrightarrow> r \<in> published d"
proof -
  let ?k = "dir_key tenant alias"
  obtain res1 d1 where sel: "selectLocked d ?k = (res1, d1)" by fastforce
  obtain s where d1: "d1 = d\<lparr>rd_selections := s\<rparr>" using selectLocked_sound(1) [OF sel] by blast
  have pref: "r \<in> published d" if "preferred_route d ?k b t = Some r" for r
    using that endpoint_published by (fastforce simp: preferred_route_def find_Some_iff split: option.splits)
  show "\<exists>s. d' = d\<lparr>rd_selections := s, rd_inflight :=
      (case res of None \<Rightarrow> rd_inflight d | Some r \<Rightarrow> (rd_inflight d)(routeID r := rd_inflight d (routeID r) + 1))\<rparr>"
    using assms by (auto simp: AcquirePreferredForTenant_def Let_def sel d1 pin_def split: option.splits
        intro: exI [of _ s] exI [of _ "rd_selections d"])
  fix r
  assume "res = Some r"
  then show "r \<in> published d"
    using assms pref selectLocked_sound(2) [OF sel]
    by (auto simp: AcquirePreferredForTenant_def Let_def sel split: option.splits)
qed

lemma dir_ok_cong:
  "rd_items d' = rd_items d \<Longrightarrow> rd_endpoints d' = rd_endpoints d \<Longrightarrow> rd_retired d' = rd_retired d \<Longrightarrow>
   dir_ok owner d' = dir_ok owner d \<and> current_ids d' = current_ids d \<and> retired_ids d' = retired_ids d"
  by (simp add: dir_ok_def published_def current_ids_def retired_ids_def)

lemma ready_retired:
  assumes "dir_ok owner d" "r \<in> set (RetiredReady d)"
  shows "routeID r \<notin> current_ids d" "rd_inflight d (routeID r) = 0"
  using assms by (auto simp: RetiredReady_def dir_ok_def)

lemma ready_unused:
  assumes "dir_ok owner d" "pins_ok owner d L" "r \<in> set (RetiredReady d)"
  shows "\<forall>x \<in># L. routeID x \<noteq> routeID r"
proof -
  have "filter_mset (\<lambda>x. routeID x = routeID r) L = {#}"
    using assms(2) ready_retired(2) [OF assms(1,3)] by (simp add: pins_ok_def)
  then show ?thesis by (auto dest: arg_cong [where f = set_mset])
qed

lemma route_inv_dir: "route_inv owner (d, L) \<Longrightarrow> dir_ok owner d"
  by (simp add: route_inv_def)

theorem route_step_inv:
  "route_step owner s s' \<Longrightarrow> route_inv owner s \<Longrightarrow> route_inv owner s'"
proof (induction rule: route_step.induct)
  case (acquire d tenant al b t r d' L)
  obtain sel where d': "d' = d\<lparr>rd_selections := sel, rd_inflight := (rd_inflight d)(routeID r := rd_inflight d (routeID r) + 1)\<rparr>"
    using acquire_sound(1) [OF acquire.hyps] by auto
  have "r \<in> published d" by (rule acquire_sound(2) [OF acquire.hyps refl])
  then have "owned owner r" "routeID r \<in> current_ids d"
    using acquire.prems published_owned current_idsI by (auto simp: route_inv_def)
  then show ?case using acquire.prems dir_ok_cong [of d' d] by (auto simp: route_inv_def pins_ok_def d')
next
  case (turned_away d tenant al b t d' L)
  then show ?case using acquire_sound(1) [OF turned_away.hyps] dir_ok_cong [of d' d]
    by (auto simp: route_inv_def pins_ok_def)
next
  case (finish r L d)
  then have "rd_inflight d (routeID r) = int (size (filter_mset (\<lambda>x. routeID x = routeID r) L))"
    by (simp add: route_inv_def pins_ok_def)
  moreover have "r \<in># filter_mset (\<lambda>x. routeID x = routeID r) L" using finish.hyps by simp
  ultimately show ?case using finish dir_ok_cong [of "unpin r d" d]
    by (auto simp: route_inv_def pins_ok_def unpin_def Let_def filter_diff_mset size_Diff_singleton dest: in_diffD)
next
  case (reap r d L)
  have "\<forall>x \<in># L. routeID x \<noteq> routeID r" using ready_unused [of owner d L r] reap by (simp add: route_inv_def)
  then have "pins_ok owner (ForgetRetired d r) L"
    using reap.prems by (auto simp: route_inv_def pins_ok_def ForgetRetired_def retired_ids_def current_ids_def keys_delete)
  moreover have "dir_ok owner (ForgetRetired d r)"
    using reap.prems by (auto simp: route_inv_def dir_ok_def ForgetRetired_def published_def distinct_map_filter AList.delete_eq)
  ultimately show ?case by (simp add: route_inv_def)
qed (use republished_inv route_inv_dir put_republished remove_republished publish_republished withdraw_republished in metis)+

lemma route_inv_start: "route_inv owner (routes_New, {#})"
  by (simp add: route_inv_def dir_ok_def pins_ok_def routes_New_def published_def)

lemma route_reachable_inv:
  assumes "(route_step owner)\<^sup>*\<^sup>* (routes_New, {#}) s"
  shows "route_inv owner s"
  using assms by (induction rule: rtranclp_induct) (auto intro: route_inv_start route_step_inv)

lemma inflight_count:
  "pins_ok owner d L \<Longrightarrow> rd_inflight d i = 0 \<longleftrightarrow> (\<forall>x \<in># L. routeID x \<noteq> i)"
  by (auto simp: pins_ok_def filter_mset_eq_conv dest: arg_cong [where f = set_mset])

text \<open>C25.
  Draining, exactly. In every interleaving of requests with publications, withdrawals and reaping,
  the generations handed out for teardown are the retired ones that no request in flight uses and
  nothing published refers to; no later request can acquire one of them. A request in flight always
  uses a generation that is published or kept as retired, so none is ever lost before its teardown.
\<close>

theorem drained_generations_exact:
  assumes "(route_step owner)\<^sup>*\<^sup>* (routes_New, {#}) (d, L)"
  shows "(r \<in> set (RetiredReady d) \<longleftrightarrow>
      r \<in> snd ` set (rd_retired d) \<and> (\<forall>x \<in> published d. routeID x \<noteq> routeID r) \<and> (\<forall>x \<in># L. routeID x \<noteq> routeID r)) \<and>
    (r \<in> set (RetiredReady d) \<longrightarrow> AcquirePreferredForTenant d tenant al b t = (Some x, d') \<longrightarrow> routeID x \<noteq> routeID r) \<and>
    (\<forall>x \<in># L. routeID x \<in> routeID ` published d \<or> routeID x \<in> routeID ` snd ` set (rd_retired d))"
proof -
  have inv: "dir_ok owner d" "pins_ok owner d L" using route_reachable_inv [OF assms] by (simp_all add: route_inv_def)
  have ids: "i = routeID y" if "(i, y) \<in> set (rd_retired d)" for i y using inv(1) that by (auto simp: dir_ok_def)
  have retired: "retired_ids d = routeID ` snd ` set (rd_retired d)" using ids by (force simp: retired_ids_def)
  have ready: "r \<in> set (RetiredReady d) \<longleftrightarrow>
      r \<in> snd ` set (rd_retired d) \<and> routeID r \<notin> current_ids d \<and> rd_inflight d (routeID r) = 0"
    using ids by (force simp: RetiredReady_def)
  have outside: "routeID r \<notin> current_ids d \<longleftrightarrow> (\<forall>x \<in> published d. routeID x \<noteq> routeID r)"
    unfolding current_ids_published image_iff by metis
  show ?thesis unfolding ready inflight_count [OF inv(2)] outside
    using acquire_sound(2) [of d tenant al b t "Some x" d'] inv(2)
    by (auto simp: pins_ok_def retired current_ids_published)
qed

lemma sum_list_nonneg_zero:
  assumes "\<forall>x \<in> set xs. (0::int) \<le> f x" "sum_list (map f xs) = 0" "x \<in> set xs"
  shows "f x = 0"
proof -
  have "\<forall>y \<in> set (map f xs). y = 0" using assms(1,2) by (subst sum_list_nonneg_eq_0_iff [symmetric]) auto
  then show ?thesis using assms(3) by simp
qed

text \<open>C26.
  The fence of a deletion. A deletion tears a deployment's capacity down once no concrete route of
  it is published and none of its retired generations has requests. If at that moment no endpoint
  publishes the deployment either, then no request in flight uses it and no request can acquire it.
\<close>

theorem deletion_fence:
  assumes "(route_step owner)\<^sup>*\<^sup>* (routes_New, {#}) (d, L)"
    and "\<not> HasCurrentDeployment d dep" "RetiringInFlight d dep = 0"
    and ends: "\<forall>(k, e) \<in> set (rd_endpoints d). \<forall>r \<in> set (ep_Routes e). sn_DeploymentID r \<noteq> dep"
  shows "(\<forall>x \<in># L. sn_DeploymentID x \<noteq> dep) \<and>
    (AcquirePreferredForTenant d tenant al b t = (Some x, d') \<longrightarrow> sn_DeploymentID x \<noteq> dep)"
proof -
  have inv: "dir_ok owner d" "pins_ok owner d L" using route_reachable_inv [OF assms(1)] by (simp_all add: route_inv_def)
  have pub: "sn_DeploymentID r \<noteq> dep" if "r \<in> published d" for r
    using that assms(2) ends by (fastforce simp: published_def HasCurrentDeployment_def list_ex_iff)
  have "sn_DeploymentID y \<noteq> dep" if y: "y \<in># L" for y
  proof
    assume dep: "sn_DeploymentID y = dep"
    have own: "owned owner y" and use: "routeID y \<in> current_ids d \<union> retired_ids d"
      using inv(2) y by (auto simp: pins_ok_def)
    have nonneg: "0 \<le> rd_inflight d i" for i using inv(2) by (simp add: pins_ok_def)
    have "routeID y \<notin> current_ids d"
    proof
      assume "routeID y \<in> current_ids d"
      then obtain z where "z \<in> published d" "routeID z = routeID y" by (auto simp: current_ids_published)
      then show False using pub [of z] published_owned [OF inv(1)] own dep by (simp add: owned_def)
    qed
    then obtain z where z: "(routeID y, z) \<in> set (rd_retired d)" using use by (auto simp: retired_ids_def)
    then have "routeID z = routeID y" "owned owner z" using inv(1) by (auto simp: dir_ok_def)
    then have "sn_DeploymentID z = dep" using own dep by (simp add: owned_def)
    moreover have "\<forall>p \<in> set (rd_retired d). 0 \<le> (case p of (i, r) \<Rightarrow> if sn_DeploymentID r = dep then rd_inflight d i else 0)"
      using nonneg by auto
    ultimately have "rd_inflight d (routeID y) = 0"
      using sum_list_nonneg_zero [OF _ assms(3) [unfolded RetiringInFlight_def] z] by simp
    then show False using inflight_count [OF inv(2)] y by blast
  qed
  then show ?thesis using pub acquire_sound(2) [of d tenant al b t "Some x" d'] by blast
qed

section \<open>Weighted selection\<close>

fun acquire_many :: "nat \<Rightarrow> route_directory \<Rightarrow> string \<Rightarrow> string \<Rightarrow> snapshot list" where
  "acquire_many 0 d tenant alias = []"
| "acquire_many (Suc n) d tenant alias =
     (case AcquireForTenant d tenant alias of
        (None, d') \<Rightarrow> acquire_many n d' tenant alias
      | (Some r, d') \<Rightarrow> r # acquire_many n d' tenant alias)"

lemma routeWeight_pos: "0 < routeWeight r"
  by (simp add: routeWeight_def)

lemma weights_nonneg: "0 \<le> sum_list (map routeWeight routes)"
  by (rule sum_list_nonneg) (auto simp: routeWeight_def)

lemma select_loop_shift:
  assumes "routeWeight r \<le> p" "p < 2 ^ 64"
  shows "select_loop (r # routes) p = select_loop routes (p - routeWeight r)"
  using assms routeWeight_pos [of r] by (simp add: u64_def)

lemma upt_split: "[0..<m + n] = [0..<m] @ map (\<lambda>j. m + j) [0..<n]"
  by (rule nth_equalityI) (auto simp: nth_append)

text \<open>The points of one round select every route as often as it weighs.\<close>

lemma select_round:
  assumes "sum_list (map routeWeight routes) < 2 ^ 64"
  shows "mset (map (\<lambda>j. select_loop routes (int j)) [0..<nat (sum_list (map routeWeight routes))]) =
    (\<Sum>r \<leftarrow> routes. replicate_mset (nat (routeWeight r)) (Some r))"
  using assms
proof (induction routes)
  case (Cons r routes)
  let ?w = "nat (routeWeight r)" and ?n = "nat (sum_list (map routeWeight routes))"
  have nonneg: "0 \<le> sum_list (map routeWeight routes)"
    by (rule weights_nonneg)
  have w: "int ?w = routeWeight r" using routeWeight_pos [of r] by simp
  have total: "nat (sum_list (map routeWeight (r # routes))) = ?w + ?n"
    using nonneg routeWeight_pos [of r] by (simp add: nat_add_distrib)
  have first: "map (\<lambda>j. select_loop (r # routes) (int j)) [0..<?w] = replicate ?w (Some r)"
    by (rule nth_equalityI) auto
  have shift: "select_loop (r # routes) (int (?w + j)) = select_loop routes (int j)" if "j < ?n" for j
    using that Cons.prems w nonneg by (subst select_loop_shift) (auto simp: nat_less_iff)
  have rest: "map (\<lambda>j. select_loop (r # routes) (int j)) (map (\<lambda>j. ?w + j) [0..<?n]) = map (\<lambda>j. select_loop routes (int j)) [0..<?n]"
    unfolding map_map by (rule map_cong [OF refl]) (use shift in auto)
  have "sum_list (map routeWeight routes) < 2 ^ 64" using Cons.prems routeWeight_pos [of r] by simp
  note IH = Cons.IH [OF this]
  show ?case unfolding total upt_split map_append first rest
    using IH by (simp del: mset_map mset_upt)
qed simp

lemma rotate_mod:
  assumes "0 < W"
  shows "map (\<lambda>j. f ((n + j) mod W)) [0..<W] = map f (rotate n [0..<W])"
  by (rule nth_equalityI) (use assms in \<open>auto simp: nth_rotate\<close>)

lemma mset_rotate: "mset (rotate n xs) = mset xs"
proof (induction n)
  case (Suc n)
  then show ?case by (cases "rotate n xs") auto
qed simp

lemma mset_rotate_points: "0 < W \<Longrightarrow> mset (map (\<lambda>j. f ((n + j) mod W)) [0..<W]) = mset (map f [0..<W])"
  by (simp add: rotate_mod mset_rotate del: map_map mset_map) (simp add: mset_rotate)

definition weighted_at :: "route_directory \<Rightarrow> string \<Rightarrow> snapshot list \<Rightarrow> nat \<Rightarrow> bool" where
  "weighted_at d key routes n \<longleftrightarrow> \<not> rd_blocked d key \<and> rd_selections d key = int n \<and> 2 \<le> length routes \<and>
     (\<exists>e. map_of (rd_endpoints d) key = Some e \<and> ep_RoutingPolicy e = ''weighted'' \<and> ep_Routes e = routes)"

lemma select_loop_total: "0 \<le> p \<Longrightarrow> p < sum_list (map routeWeight routes) \<Longrightarrow> sum_list (map routeWeight routes) < 2 ^ 64 \<Longrightarrow>
  \<exists>r. select_loop routes p = Some r"
proof (induction routes arbitrary: p)
  case (Cons r routes)
  show ?case
  proof (cases "p < routeWeight r")
    case False
    have "u64 (p - routeWeight r) = p - routeWeight r"
      using False Cons.prems routeWeight_pos [of r] weights_nonneg [of routes] by (simp add: u64_def)
    then show ?thesis using False Cons.prems Cons.IH [of "p - routeWeight r"] routeWeight_pos [of r] by simp
  qed simp
qed simp

lemma weighted_acquire:
  assumes at: "weighted_at d (dir_key tenant al) routes n" and W: "sum_list (map routeWeight routes) = int W" "W < 2 ^ 64"
    and n: "n + 1 < 2 ^ 64"
  shows "\<exists>r d'. AcquireForTenant d tenant al = (Some r, d') \<and> select_loop routes (int (n mod W)) = Some r \<and>
    weighted_at d' (dir_key tenant al) routes (n + 1)"
proof -
  let ?k = "dir_key tenant al"
  obtain e where e: "map_of (rd_endpoints d) ?k = Some e" "ep_RoutingPolicy e = ''weighted''" "ep_Routes e = routes"
    and st: "\<not> rd_blocked d ?k" "rd_selections d ?k = int n" "2 \<le> length routes"
    using at by (auto simp: weighted_at_def)
  have "0 < W"
  proof (rule ccontr)
    assume "\<not> 0 < W"
    then have "sum_list (map routeWeight routes) = 0" using W by simp
    moreover obtain r rs where "routes = r # rs" using st(3) by (cases routes) auto
    ultimately show False using routeWeight_pos [of r] weights_nonneg [of rs] by simp
  qed
  have total: "weight_total routes = int W" using W by (simp add: weight_total_def u64_def)
  obtain r where r: "select_loop routes (int (n mod W)) = Some r"
    using select_loop_total [of "int (n mod W)" routes] W \<open>0 < W\<close> by auto
  have pref: "preferred_route d ?k '''' '''' = None" using e by (simp add: preferred_route_def find_None_iff)
  have nxt: "u64 (int n + 1) = int (n + 1)" using n by (simp add: u64_def)
  let ?d = "d\<lparr>rd_selections := (rd_selections d)(?k := int (n + 1))\<rparr>"
  have "selectLocked d ?k = (Some r, ?d)"
    using st(3) by (auto simp: selectLocked_def st(1,2) e total r nxt zmod_int [symmetric])
  then have "AcquireForTenant d tenant al = (Some r, pin r ?d)"
    by (simp add: AcquireForTenant_def AcquirePreferredForTenant_def Let_def pref)
  moreover have "weighted_at (pin r ?d) ?k routes (n + 1)"
    using st e by (simp add: weighted_at_def pin_def)
  ultimately show ?thesis using r by blast
qed

lemma inj_image_mset_Some: "inj (image_mset Some)"
  by (intro multiset.inj_map) simp

lemma acquire_many_points:
  assumes "weighted_at d (dir_key tenant al) routes n" "sum_list (map routeWeight routes) = int W" "W < 2 ^ 64" "n + m < 2 ^ 64"
  shows "map Some (acquire_many m d tenant al) = map (\<lambda>j. select_loop routes (int ((n + j) mod W))) [0..<m]"
  using assms
proof (induction m arbitrary: d n)
  case (Suc m)
  then obtain r d' where r: "AcquireForTenant d tenant al = (Some r, d')" "select_loop routes (int (n mod W)) = Some r"
    "weighted_at d' (dir_key tenant al) routes (n + 1)"
    using weighted_acquire [of d tenant al routes n W] by auto
  show ?case using Suc.IH [OF r(3) Suc.prems(2,3)] Suc.prems(4) r(1,2) by (simp add: map_upt_Suc del: upt_Suc)
qed simp

text \<open>Weighted selection is exact. While an endpoint's publication stands, as many consecutive
  acquisitions as its weights add up to select every route exactly as often as it weighs (a weight
  that is not positive counts as one), from whatever ordinal the round starts.
\<close>

theorem weighted_selection_exact:
  assumes "weighted_at d (dir_key tenant al) routes n" and W: "sum_list (map routeWeight routes) = int W"
    and "n + W < 2 ^ 64"
  shows "mset (acquire_many W d tenant al) = (\<Sum>r \<leftarrow> routes. replicate_mset (nat (routeWeight r)) r)"
proof -
  have "0 < W"
  proof -
    obtain r rs where "routes = r # rs" using assms(1) by (cases routes) (auto simp: weighted_at_def)
    then show ?thesis using W routeWeight_pos [of r] weights_nonneg [of rs] by simp
  qed
  have "image_mset Some (mset (acquire_many W d tenant al)) = mset (map (\<lambda>j. select_loop routes (int ((n + j) mod W))) [0..<W])"
    using acquire_many_points [OF assms(1) W, of W] assms(3) by (metis mset_map le_add2 le_less_trans)
  also have "\<dots> = mset (map (\<lambda>j. select_loop routes (int j)) [0..<W])" by (rule mset_rotate_points [OF \<open>0 < W\<close>])
  also have "\<dots> = (\<Sum>r \<leftarrow> routes. replicate_mset (nat (routeWeight r)) (Some r))"
    using select_round [of routes] W assms(3) by simp
  also have "\<dots> = image_mset Some (\<Sum>r \<leftarrow> routes. replicate_mset (nat (routeWeight r)) r)"
    by (induction routes) simp_all
  finally show ?thesis by (rule injD [OF inj_image_mset_Some])
qed

section \<open>Health decay\<close>

lemma decay_valid: "overflow_Validate decay_policy = None"
  by (simp add: overflow_Validate_def decay_policy_def)

lemma decay_evaluate:
  "overflow_Evaluate decay_policy s g now = Inr (health_decision decay_policy s g now)"
  using decay_valid by (simp add: overflow_Evaluate_def decay_policy_def)

lemma decay_thresholds: "ovp_BreachIntervals decay_policy = 2" "ovp_RecoveryIntervals decay_policy = 2"
  by (simp_all add: decay_policy_def)

lemma decay_stays_out:
  assumes "\<not> ovs_External s" "ovg_PrimaryHealthy g \<or> ovs_ConsecutiveHigh s = 0"
  shows "\<not> ovs_External (decay_next s (health_decision decay_policy s g now) now)"
  using assms by (auto simp: decay_next_def health_decision_def hold_primary_def decay_thresholds Let_def i64_def)

text \<open>
  A binding that misses one publication is back in rotation with the next one that has it: the
  decay needs two misses to start, and only a decayed binding waits for two publications.
\<close>

lemma single_miss_restored_at_once:
  assumes "\<not> ovs_External (health (key @ [NUL] @ b))" "ovs_ConsecutiveHigh (health (key @ [NUL] @ b)) = 0" "sn_BindingID r = b"
    and "decay_loop t1 key [] [b] health [] = (out1, h1)" "decay_loop t2 key [r] [b] h1 [] = (out2, h2)"
  shows "out1 = [] \<and> out2 = [r]"
  using assms(3-5) decay_stays_out [OF assms(1)] decay_stays_out assms(1,2)
  by (auto simp: decay_evaluate available_route_def Let_def split: if_splits)


section \<open>Examples\<close>

definition no_protocols :: protocol_capabilities where
  "no_protocols = \<lparr>pcap_ChatCompletions = False, pcap_Responses = False, pcap_Embeddings = False, pcap_Batch = False,
     pcap_Completions = False, pcap_Streaming = False, pcap_ToolCalling = False\<rparr>"

definition example_route :: "string \<Rightarrow> string \<Rightarrow> string \<Rightarrow> int \<Rightarrow> snapshot" where
  "example_route dep process binding weight =
     \<lparr>sn_DeploymentID = dep, sn_TargetID = '''', sn_RevisionID = '''', sn_TenantID = ''t'', sn_Alias = ''m'', sn_UpstreamModel = '''',
      sn_RouterURL = '''', sn_RouterProcessID = process, sn_Provider = '''', sn_ProviderResourceID = '''', sn_Runtime = '''',
      sn_ComputeMode = '''', sn_UpstreamAPIKey = '''', sn_ExternalPolicyID = '''', sn_SelectionReason = '''', sn_ProviderWorkers = None,
      sn_ProviderObservedAt = 0, sn_LogicalModelID = '''', sn_EnvironmentID = '''', sn_EndpointID = '''', sn_ServingPlanID = '''',
      sn_BindingID = binding, sn_RoutingWeight = weight, sn_ProtocolCapabilities = no_protocols\<rparr>"

definition example_owner :: "string \<Rightarrow> string" where
  "example_owner i = (if i = ''router:b-g1'' then ''b'' else ''a'')"

definition example_endpoint :: "string \<Rightarrow> snapshot list \<Rightarrow> endpoint_route" where
  "example_endpoint policy routes =
     \<lparr>ep_TenantID = ''t'', ep_Alias = ''e'', ep_RoutingPolicy = policy, ep_Routes = routes, ep_PlannedBindingIDs = []\<rparr>"

lemmas route_example_defs = example_route_def example_endpoint_def routes_New_def routes_Put_def RemoveForTenant_def dir_key_def routeID_def
  RetiredReady_def current_ids_def HasCurrentDeployment_def RetiringInFlight_def

lemma example_put: "owned example_owner (example_route ''a'' ''a-g1'' b w)" "owned example_owner (example_route ''a'' ''a-g2'' b w)"
  "owned example_owner (example_route ''b'' ''b-g1'' b w)"
  by (simp_all add: owned_def example_owner_def example_route_def routeID_def)

text \<open>A new generation replaces the first while nothing uses it.\<close>

definition example_drained :: route_directory where
  "example_drained = routes_Put (routes_Put routes_New (example_route ''a'' ''a-g1'' '''' 0)) (example_route ''a'' ''a-g2'' '''' 0)"

lemma example_drained_reached: "(route_step example_owner)\<^sup>*\<^sup>* (routes_New, {#}) (example_drained, {#})"
  unfolding example_drained_def
  by (rule rtranclp.rtrancl_into_rtrancl [OF rtranclp.rtrancl_into_rtrancl [OF rtranclp.rtrancl_refl]])
    (rule route_step.put, rule example_put)+

theorem drained_generations_exact_witness:
  "\<exists>r. r \<in> set (RetiredReady example_drained) \<and> r \<in> snd ` set (rd_retired example_drained) \<and>
     (\<forall>x \<in> published example_drained. routeID x \<noteq> routeID r)"
proof -
  let ?r = "example_route ''a'' ''a-g1'' '''' 0"
  have "?r \<in> set (RetiredReady example_drained)"
    by (simp add: example_drained_def route_example_defs)
  then have "?r \<in> set (RetiredReady example_drained) \<and> ?r \<in> snd ` set (rd_retired example_drained) \<and>
     (\<forall>x \<in> published example_drained. routeID x \<noteq> routeID ?r)"
    using drained_generations_exact [OF example_drained_reached, of ?r, THEN conjunct1] by simp
  then show ?thesis by (rule exI)
qed

text \<open>The whole deployment is withdrawn.\<close>

theorem deletion_fence_witness:
  "fst (AcquirePreferredForTenant (RemoveForTenant example_drained ''t'' ''m'') ''t'' ''m'' '''' '''') \<noteq>
     Some (example_route ''a'' ''a-g2'' '''' 0)"
proof
  let ?d = "RemoveForTenant example_drained ''t'' ''m''"
  assume fst: "fst (AcquirePreferredForTenant ?d ''t'' ''m'' '''' '''') = Some (example_route ''a'' ''a-g2'' '''' 0)"
  have reach: "(route_step example_owner)\<^sup>*\<^sup>* (routes_New, {#}) (?d, {#})"
    by (rule rtranclp.rtrancl_into_rtrancl [OF example_drained_reached route_step.remove])
  have gone: "\<not> HasCurrentDeployment ?d ''a''" "RetiringInFlight ?d ''a'' = 0"
    "\<forall>(k, e) \<in> set (rd_endpoints ?d). \<forall>r \<in> set (ep_Routes e). sn_DeploymentID r \<noteq> ''a''"
    by (simp_all add: example_drained_def route_example_defs)
  obtain d' where acq: "AcquirePreferredForTenant ?d ''t'' ''m'' '''' '''' = (Some (example_route ''a'' ''a-g2'' '''' 0), d')"
    using fst by (cases "AcquirePreferredForTenant ?d ''t'' ''m'' '''' ''''") simp
  have "sn_DeploymentID (example_route ''a'' ''a-g2'' '''' 0) \<noteq> ''a''"
    using deletion_fence [OF reach gone, THEN conjunct2] acq by metis
  then show False by (simp add: example_route_def)
qed

text \<open>
  The third condition of the fence is not checked by the deletion: between the withdrawal of the
  concrete route and the next compilation of the endpoints, both checks pass while an endpoint still
  hands out the deployment.
\<close>

definition example_race :: route_directory where
  "example_race = RemoveForTenant
     (snd (PublishEndpoint 5 (routes_Put routes_New (example_route ''a'' ''a-g1'' '''' 0)) (example_endpoint ''manual'' [example_route ''a'' ''a-g1'' ''b'' 1])))
     ''t'' ''m''"

theorem fence_misses_endpoints:
  "(route_step example_owner)\<^sup>*\<^sup>* (routes_New, {#}) (example_race, {#}) \<and>
   \<not> HasCurrentDeployment example_race ''a'' \<and> RetiringInFlight example_race ''a'' = 0 \<and>
   map_option sn_DeploymentID (fst (AcquireForTenant example_race ''t'' ''e'')) = Some ''a''"
proof (intro conjI)
  let ?d = "routes_Put routes_New (example_route ''a'' ''a-g1'' '''' 0)"
  let ?e = "example_endpoint ''manual'' [example_route ''a'' ''a-g1'' ''b'' 1]"
  have pub: "route_step example_owner (?d, {#}) (snd (PublishEndpoint 5 ?d ?e), {#})"
    using example_put(1) [of "''b''" 1] by (intro route_step.publish [of ?e _ 5]) (auto simp: example_endpoint_def prod_eq_iff)
  have put: "route_step example_owner (routes_New, {#}) (?d, {#})" by (rule route_step.put) (rule example_put)
  have remove: "route_step example_owner (snd (PublishEndpoint 5 ?d ?e), {#}) (example_race, {#})"
    unfolding example_race_def by (rule route_step.remove)
  show "(route_step example_owner)\<^sup>*\<^sup>* (routes_New, {#}) (example_race, {#})"
    using put pub remove by (meson rtranclp.rtrancl_into_rtrancl rtranclp.rtrancl_refl)
qed (simp_all add: example_race_def route_example_defs PublishEndpoint_def AcquireForTenant_def AcquirePreferredForTenant_def
      preferred_route_def selectLocked_def pin_def NUL_def Let_def)

definition example_weighted :: route_directory where
  "example_weighted = routes_New\<lparr>rd_endpoints := [(dir_key ''t'' ''e'',
     example_endpoint ''weighted'' [example_route ''a'' ''a-g1'' ''x'' 3, example_route ''b'' ''b-g1'' ''y'' 1])]\<rparr>"

theorem weighted_selection_exact_witness:
  "mset (acquire_many 4 example_weighted ''t'' ''e'') =
     replicate_mset 3 (example_route ''a'' ''a-g1'' ''x'' 3) + {#example_route ''b'' ''b-g1'' ''y'' 1#}"
proof -
  let ?routes = "[example_route ''a'' ''a-g1'' ''x'' 3, example_route ''b'' ''b-g1'' ''y'' 1]"
  have "weighted_at example_weighted (dir_key ''t'' ''e'') ?routes 0"
    by (simp add: weighted_at_def example_weighted_def example_endpoint_def routes_New_def)
  moreover have "sum_list (map routeWeight ?routes) = int 4" by (simp add: routeWeight_def example_route_def)
  ultimately show ?thesis using weighted_selection_exact [of example_weighted "''t''" "''e''" ?routes 0 4]
    by (simp add: routeWeight_def) (simp add: example_route_def numeral_eq_Suc)
qed

end
