(* ===== verification/External_Budget.thy ===== *)
theory External_Budget
  imports Route_Directory Wallet
begin

text \<open>
  External capacity under a hard budget. The store (\<open>internal/store/external_policies.go\<close>,
  \<open>external_bindings.go\<close>) keeps the policies and reserves batches of requests against their limits;
  each gateway process consumes a batch from memory (\<open>internal/external/budget.go\<close>) and refills it in
  the background; the coordinator (\<open>internal/external/coordinator.go\<close>) turns a policy into a route once
  credential, health and budget are there. The locale \<open>budget_source\<close> states what the pool relies on;
  it is interpreted on the two tables of the store.
\<close>


section \<open>Deployments, targets and bindings\<close>

record dep =
  dp_ID :: string
  dp_TenantID :: string
  dp_Name :: string
  dp_Model :: string
  dp_Runtime :: string
  dp_RoutingStrategy :: string
  dp_ComputeMode :: string
  dp_ComputeConnectionID :: string
  dp_ActiveRevisionID :: string
  dp_CandidateRevisionID :: string
  dp_DesiredState :: string
  dp_ObservedState :: string

record target =
  tg_ID :: string
  tg_Name :: string
  tg_URL :: string
  tg_Provider :: string
  tg_Runtime :: string
  tg_Health :: string
  tg_UpstreamModel :: string
  tg_ProviderResourceID :: string
  tg_ProviderDetails :: string

record endpoint =
  en_ID :: string
  en_TenantID :: string
  en_LogicalModelID :: string
  en_EnvironmentID :: string
  en_Name :: string
  en_DesiredState :: string
  en_ObservedState :: string
  en_ActiveServingPlanID :: string

record backend_binding =
  bb_ID :: string
  bb_TenantID :: string
  bb_EndpointID :: string
  bb_Name :: string
  bb_Kind :: string
  bb_OwnershipMode :: string
  bb_DeploymentID :: string
  bb_TargetID :: string
  bb_ConfigJSON :: string


section \<open>The store\<close>

record ext_policy =
  xp_ID :: string
  xp_TenantID :: string
  xp_DeploymentID :: string
  xp_TargetID :: string
  xp_Adapter :: string
  xp_SecretReferenceID :: string
  xp_Enabled :: bool
  xp_PrivacyAcknowledged :: bool
  xp_RequestLimit :: int
  xp_RequestsReserved :: int
  xp_CostLimitMicrousd :: int
  xp_MaxRequestCostMicrousd :: int
  xp_CostReservedMicrousd :: int
  xp_OverflowMode :: string
  xp_QueueThreshold :: "f64 option"
  xp_BreachIntervals :: int
  xp_RecoveryIntervals :: int
  xp_CooldownSeconds :: int
  xp_SignalMaxAgeSeconds :: int
  xp_CreatedAt :: gotime
  xp_UpdatedAt :: gotime

record budget_lease =
  bl_PolicyID :: string
  bl_Requests :: int
  bl_ReservedCostMicrousd :: int
  bl_MaxRequestCostMicrousd :: int

record binding_budget =
  bg_binding_id :: string
  bg_tenant_id :: string
  bg_requests_reserved :: int
  bg_cost_reserved_microusd :: int
  bg_updated_at :: gotime

record overflow_state_row =
  os_deployment_id :: string
  os_tenant_id :: string
  os_state :: overflow_state

record overflow_decision_row =
  od_id :: string
  od_tenant_id :: string
  od_deployment_id :: string
  od_route :: string
  od_action :: string
  od_reason :: string
  od_created_at :: gotime

record external_db =
  xd_policies :: "ext_policy list"
  xd_bindings :: "backend_binding list"
  xd_binding_budgets :: "binding_budget list"
  xd_overflow_states :: "overflow_state_row list"
  xd_overflow_decisions :: "overflow_decision_row list"

text \<open>What the store reads elsewhere: the other tables of the tenant, fresh identifiers, and the decoder of binding configurations.\<close>

record external_env =
  xe_deployment :: "string \<Rightarrow> string \<Rightarrow> bool"
  xe_target :: "string \<Rightarrow> string \<Rightarrow> string \<Rightarrow> bool"
  xe_secret :: "string \<Rightarrow> string \<Rightarrow> bool"
  xe_decode :: "string \<Rightarrow> string + managed_binding_config"
  xe_parse_time :: "string \<Rightarrow> gotime option"

definition valueOrZero :: "f64 option \<Rightarrow> f64" where
  "valueOrZero v = (case v of None \<Rightarrow> FNum 0 | Some x \<Rightarrow> x)"

definition policy_defaults :: "ext_policy \<Rightarrow> ext_policy" where
  "policy_defaults p = p\<lparr>xp_OverflowMode := (if xp_OverflowMode p = '''' then ''health'' else xp_OverflowMode p),
     xp_BreachIntervals := (if xp_BreachIntervals p = 0 then 1 else xp_BreachIntervals p),
     xp_RecoveryIntervals := (if xp_RecoveryIntervals p = 0 then 2 else xp_RecoveryIntervals p),
     xp_CooldownSeconds := (if xp_CooldownSeconds p = 0 then 60 else xp_CooldownSeconds p),
     xp_SignalMaxAgeSeconds := (if xp_SignalMaxAgeSeconds p = 0 then 30 else xp_SignalMaxAgeSeconds p)\<rparr>"

definition engine_policy :: "ext_policy \<Rightarrow> bool \<Rightarrow> bool \<Rightarrow> overflow_policy" where
  "engine_policy p privacy budget =
     \<lparr>ovp_Mode = xp_OverflowMode p, ovp_QueueThreshold = valueOrZero (xp_QueueThreshold p),
      ovp_BreachIntervals = xp_BreachIntervals p, ovp_RecoveryIntervals = xp_RecoveryIntervals p,
      ovp_Cooldown = i64 (xp_CooldownSeconds p * Second), ovp_SignalMaxAge = i64 (xp_SignalMaxAgeSeconds p * Second),
      ovp_PrivacyAcknowledged = privacy, ovp_BudgetAvailable = budget\<rparr>"

text \<open>The constraints of the table (migrations 023 and 024).\<close>

definition policy_check :: "ext_policy \<Rightarrow> bool" where
  "policy_check p \<longleftrightarrow> xp_Adapter p \<in> {''openai-compatible-external'', ''openrouter''} \<and>
     0 < xp_RequestLimit p \<and> 0 \<le> xp_RequestsReserved p \<and> 0 < xp_CostLimitMicrousd p \<and> 0 < xp_MaxRequestCostMicrousd p \<and>
     0 \<le> xp_CostReservedMicrousd p \<and> (xp_Enabled p \<longrightarrow> xp_PrivacyAcknowledged p) \<and>
     xp_MaxRequestCostMicrousd p \<le> xp_CostLimitMicrousd p \<and> xp_RequestsReserved p \<le> xp_RequestLimit p \<and>
     xp_CostReservedMicrousd p \<le> xp_CostLimitMicrousd p \<and> xp_OverflowMode p \<in> {''health'', ''health_and_queue''} \<and>
     1 \<le> xp_BreachIntervals p \<and> xp_BreachIntervals p \<le> 100 \<and> 1 \<le> xp_RecoveryIntervals p \<and> xp_RecoveryIntervals p \<le> 100 \<and>
     0 \<le> xp_CooldownSeconds p \<and> xp_CooldownSeconds p \<le> 86400 \<and> 1 \<le> xp_SignalMaxAgeSeconds p \<and> xp_SignalMaxAgeSeconds p \<le> 600 \<and>
     (xp_OverflowMode p = ''health'' \<or> (case xp_QueueThreshold p of None \<Rightarrow> False | Some q \<Rightarrow> \<not> f_le q (FNum 0)))"

definition same_deployment :: "string \<Rightarrow> string \<Rightarrow> ext_policy \<Rightarrow> bool" where
  "same_deployment tenant deploymentID r \<longleftrightarrow> xp_TenantID r = tenant \<and> xp_DeploymentID r = deploymentID"

definition ExternalTargetPolicyForDeployment :: "external_db \<Rightarrow> string \<Rightarrow> string \<Rightarrow> store_error + ext_policy" where
  "ExternalTargetPolicyForDeployment db tenant deploymentID =
     (case find (same_deployment tenant deploymentID) (xd_policies db) of
        None \<Rightarrow> Inl ErrNotFound
      | Some r \<Rightarrow> Inr r)"

definition policy_refusal :: "ext_policy \<Rightarrow> store_error option" where
  "policy_refusal p =
     (if xp_TenantID p = '''' \<or> xp_DeploymentID p = '''' \<or> xp_TargetID p = '''' \<or> xp_SecretReferenceID p = '''' \<or>
         xp_Adapter p = '''' \<or> xp_RequestLimit p < 1
        then Some (ErrOther ''tenant, deployment, target, adapter, secret reference, and positive request limit are required'')
      else if \<not> SupportedAdapter (xp_Adapter p) then Some (ErrOther ''unsupported external adapter'')
      else if xp_Enabled p \<and> \<not> xp_PrivacyAcknowledged p
        then Some (ErrOther ''enabled external capacity requires explicit privacy acknowledgement'')
      else if xp_CostLimitMicrousd p < 1 \<or> xp_MaxRequestCostMicrousd p < 1 \<or> xp_MaxRequestCostMicrousd p > xp_CostLimitMicrousd p
        then Some (ErrOther ''cost budget and a bounded worst-case per-request reservation are required'')
      else map_option ErrOther (overflow_Validate (engine_policy p (xp_PrivacyAcknowledged p \<or> \<not> xp_Enabled p) True)))"

text \<open>\<open>ON CONFLICT(tenant_id,deployment_id) DO UPDATE\<close> keeps the identity and what is reserved of the row that is there.\<close>

definition upsert_policy :: "ext_policy \<Rightarrow> gotime \<Rightarrow> ext_policy list \<Rightarrow> store_error + ext_policy list" where
  "upsert_policy p stamp rows =
     (let here = same_deployment (xp_TenantID p) (xp_DeploymentID p);
          renew = (\<lambda>r. p\<lparr>xp_ID := xp_ID r, xp_RequestsReserved := xp_RequestsReserved r,
                        xp_CostReservedMicrousd := xp_CostReservedMicrousd r, xp_CreatedAt := xp_CreatedAt r, xp_UpdatedAt := stamp\<rparr>);
          new = p\<lparr>xp_RequestsReserved := 0, xp_CostReservedMicrousd := 0, xp_CreatedAt := stamp, xp_UpdatedAt := stamp\<rparr> in
      if list_ex here rows
        then (if list_all policy_check (upd_where here renew rows) then Inr (upd_where here renew rows) else Inl (ErrOther ''check constraint''))
      else if list_ex (\<lambda>r. xp_ID r = xp_ID p) rows then Inl (ErrOther ''duplicate key'')
      else if \<not> policy_check new then Inl (ErrOther ''check constraint'')
      else Inr (rows @ [new]))"

definition SetExternalTargetPolicyForTenant ::
  "external_env \<Rightarrow> string option \<Rightarrow> gotime \<Rightarrow> external_db \<Rightarrow> ext_policy \<Rightarrow> (store_error + ext_policy) \<times> external_db" where
  "SetExternalTargetPolicyForTenant env new_id stamp db policy0 =
     (let policy = policy_defaults policy0 in
      case policy_refusal policy of Some e \<Rightarrow> (Inl e, db)
      | None \<Rightarrow>
          (case commit_tx db
             (if \<not> xe_deployment env (xp_TenantID policy) (xp_DeploymentID policy) \<or>
                 \<not> xe_target env (xp_TenantID policy) (xp_TargetID policy) (xp_Adapter policy) \<or>
                 \<not> xe_secret env (xp_TenantID policy) (xp_SecretReferenceID policy) then Inl ErrNotFound
              else bind_err (if xp_ID policy \<noteq> '''' then Inr (xp_ID policy)
                             else case new_id of None \<Rightarrow> Inl (ErrOther ''generate ID'') | Some i \<Rightarrow> Inr i)
                (\<lambda>i. bind_err (upsert_policy (policy\<lparr>xp_ID := i\<rparr>) stamp (xd_policies db))
                  (\<lambda>rows. Inr ((), db\<lparr>xd_policies := rows\<rparr>)))) of
             (Inl e, db') \<Rightarrow> (Inl e, db')
           | (Inr _, db') \<Rightarrow> (ExternalTargetPolicyForDeployment db' (xp_TenantID policy) (xp_DeploymentID policy), db')))"

text \<open>How many requests of a batch the two limits leave.\<close>

definition lease_size :: "int \<Rightarrow> int \<Rightarrow> int \<Rightarrow> int \<Rightarrow> int \<Rightarrow> int \<Rightarrow> int" where
  "lease_size requested limit used costLimit costUsed perRequest =
     (let available = i64 (limit - used);
          requested1 = (if requested > available then available else requested);
          costAvailable = quot (i64 (costLimit - costUsed)) perRequest
      in if requested1 > costAvailable then costAvailable else requested1)"

definition by_id :: "string \<Rightarrow> string \<Rightarrow> ext_policy \<Rightarrow> bool" where
  "by_id tenant policyID r \<longleftrightarrow> xp_TenantID r = tenant \<and> xp_ID r = policyID"

definition LeaseExternalBudget ::
  "gotime \<Rightarrow> external_db \<Rightarrow> string \<Rightarrow> string \<Rightarrow> int \<Rightarrow> (store_error + budget_lease) \<times> external_db" where
  "LeaseExternalBudget stamp db tenant policyID requested =
     (if tenant = '''' \<or> policyID = '''' \<or> requested < 1 \<or> requested > 256
        then (Inl (ErrOther ''tenant, policy, and lease size 1..256 are required''), db)
      else commit_tx db
        (case find (by_id tenant policyID) (xd_policies db) of None \<Rightarrow> Inl ErrNotFound
         | Some p \<Rightarrow>
             if \<not> xp_Enabled p \<or> \<not> xp_PrivacyAcknowledged p
               then Inl (ErrConflict ''external policy is disabled or lacks privacy acknowledgement'')
             else let perRequest = xp_MaxRequestCostMicrousd p;
                      n = lease_size requested (xp_RequestLimit p) (xp_RequestsReserved p) (xp_CostLimitMicrousd p)
                            (xp_CostReservedMicrousd p) perRequest;
                      reservedCost = i64 (n * perRequest);
                      rows = upd_where (by_id tenant policyID)
                        (\<lambda>r. r\<lparr>xp_RequestsReserved := xp_RequestsReserved r + n,
                              xp_CostReservedMicrousd := xp_CostReservedMicrousd r + reservedCost, xp_UpdatedAt := stamp\<rparr>) (xd_policies db)
                  in if n < 1 then Inl (ErrConflict ''external hard budget is exhausted'')
                     else if \<not> list_all policy_check rows then Inl (ErrOther ''check constraint'')
                     else Inr (\<lparr>bl_PolicyID = policyID, bl_Requests = n, bl_ReservedCostMicrousd = reservedCost,
                                bl_MaxRequestCostMicrousd = perRequest\<rparr>, db\<lparr>xd_policies := rows\<rparr>)))"

definition by_binding :: "string \<Rightarrow> string \<Rightarrow> binding_budget \<Rightarrow> bool" where
  "by_binding tenant bindingID x \<longleftrightarrow> bg_tenant_id x = tenant \<and> bg_binding_id x = bindingID"

text \<open>The join of a budget with its binding; a budget without its binding is not found.\<close>

definition budget_join :: "external_db \<Rightarrow> string \<Rightarrow> string \<Rightarrow> (binding_budget \<times> backend_binding) option" where
  "budget_join db tenant bindingID =
     (case find (by_binding tenant bindingID) (xd_binding_budgets db) of None \<Rightarrow> None
      | Some x \<Rightarrow> map_option (Pair x) (find (\<lambda>b. bb_ID b = bindingID \<and> bb_TenantID b = tenant) (xd_bindings db)))"

definition LeaseManagedExternalBindingBudget ::
  "external_env \<Rightarrow> gotime \<Rightarrow> external_db \<Rightarrow> string \<Rightarrow> string \<Rightarrow> int \<Rightarrow> (store_error + budget_lease) \<times> external_db" where
  "LeaseManagedExternalBindingBudget env stamp db tenant bindingID requested =
     (if tenant = '''' \<or> bindingID = '''' \<or> requested < 1 \<or> requested > 256
        then (Inl (ErrOther ''tenant, binding, and lease size 1..256 are required''), db)
      else commit_tx db
        (case budget_join db tenant bindingID of None \<Rightarrow> Inl ErrNotFound
         | Some (x, b) \<Rightarrow>
             (case ParseManagedBindingConfig (xe_decode env) (xe_parse_time env) (bb_ConfigJSON b) of
                Inr (Some config) \<Rightarrow>
                  if \<not> bc_Enabled config \<or> \<not> bc_PrivacyAcknowledged config
                    then Inl (ErrConflict ''managed external binding is disabled or lacks privacy acknowledgement'')
                  else let perRequest = bc_MaxRequestCostMicrousd config;
                           n = lease_size requested (bc_RequestLimit config) (bg_requests_reserved x) (bc_CostLimitMicrousd config)
                                 (bg_cost_reserved_microusd x) perRequest;
                           reservedCost = i64 (n * perRequest)
                       in if n < 1 then Inl (ErrConflict ''managed external binding hard budget is exhausted'')
                          else Inr (\<lparr>bl_PolicyID = bindingID, bl_Requests = n, bl_ReservedCostMicrousd = reservedCost,
                                     bl_MaxRequestCostMicrousd = perRequest\<rparr>,
                            db\<lparr>xd_binding_budgets := upd_where (by_binding tenant bindingID)
                              (\<lambda>r. r\<lparr>bg_requests_reserved := bg_requests_reserved r + n,
                                    bg_cost_reserved_microusd := bg_cost_reserved_microusd r + reservedCost, bg_updated_at := stamp\<rparr>)
                              (xd_binding_budgets db)\<rparr>)
              | _ \<Rightarrow> Inl (ErrConflict ''managed external binding policy is invalid''))))"

definition ManagedExternalBindingPolicy ::
  "external_env \<Rightarrow> external_db \<Rightarrow> string \<Rightarrow> string \<Rightarrow> store_error + ext_policy" where
  "ManagedExternalBindingPolicy env db tenant bindingID =
     (case budget_join db tenant bindingID of None \<Rightarrow> Inl ErrNotFound
      | Some (x, b) \<Rightarrow>
          (case ParseManagedBindingConfig (xe_decode env) (xe_parse_time env) (bb_ConfigJSON b) of
             Inl e \<Rightarrow> Inl (ErrOther (''managed external binding policy is invalid: '' @ e))
           | Inr None \<Rightarrow> Inl (ErrOther ''managed external binding policy is missing'')
           | Inr (Some c) \<Rightarrow>
               Inr \<lparr>xp_ID = bb_ID b, xp_TenantID = bb_TenantID b, xp_DeploymentID = '''', xp_TargetID = bb_TargetID b,
                 xp_Adapter = bc_Adapter c, xp_SecretReferenceID = bc_SecretReferenceID c, xp_Enabled = bc_Enabled c,
                 xp_PrivacyAcknowledged = bc_PrivacyAcknowledged c, xp_RequestLimit = bc_RequestLimit c,
                 xp_RequestsReserved = bg_requests_reserved x, xp_CostLimitMicrousd = bc_CostLimitMicrousd c,
                 xp_MaxRequestCostMicrousd = bc_MaxRequestCostMicrousd c, xp_CostReservedMicrousd = bg_cost_reserved_microusd x,
                 xp_OverflowMode = '''', xp_QueueThreshold = None, xp_BreachIntervals = 0, xp_RecoveryIntervals = 0,
                 xp_CooldownSeconds = 0, xp_SignalMaxAgeSeconds = 0, xp_CreatedAt = 0, xp_UpdatedAt = bg_updated_at x\<rparr>))"

text \<open>The evaluation of the overflow engine on the persisted state, with the journal of material decisions.\<close>

definition overflow_row :: "external_db \<Rightarrow> string \<Rightarrow> string \<Rightarrow> overflow_state option" where
  "overflow_row db tenant deploymentID =
     map_option os_state (find (\<lambda>r. os_tenant_id r = tenant \<and> os_deployment_id r = deploymentID) (xd_overflow_states db))"

definition last_reason :: "external_db \<Rightarrow> string \<Rightarrow> string \<Rightarrow> string" where
  "last_reason db tenant deploymentID =
     (case first_by (\<lambda>a b. od_created_at a > od_created_at b \<or> (od_created_at a = od_created_at b \<and> od_id a > od_id b))
             (filter (\<lambda>r. od_tenant_id r = tenant \<and> od_deployment_id r = deploymentID) (xd_overflow_decisions db)) of
        None \<Rightarrow> '''' | Some r \<Rightarrow> od_reason r)"

definition put_overflow_state ::
  "string \<Rightarrow> string \<Rightarrow> overflow_state \<Rightarrow> overflow_state_row list \<Rightarrow> overflow_state_row list" where
  "put_overflow_state tenant deploymentID s rows =
     (if list_ex (\<lambda>r. os_deployment_id r = deploymentID) rows
      then upd_where (\<lambda>r. os_deployment_id r = deploymentID \<and> os_tenant_id r = tenant) (\<lambda>r. r\<lparr>os_state := s\<rparr>) rows
      else rows @ [\<lparr>os_deployment_id = deploymentID, os_tenant_id = tenant, os_state = s\<rparr>])"

definition material_decision :: "overflow_state option \<Rightarrow> overflow_decision \<Rightarrow> string \<Rightarrow> bool" where
  "material_decision row d lastReason =
     (case row of None \<Rightarrow> True
      | Some s \<Rightarrow> ovd_Action d \<noteq> ''hold'' \<or> (ovd_Route d = ''external'') \<noteq> ovs_External s \<or>
          ovd_ConsecutiveHigh d \<noteq> ovs_ConsecutiveHigh s \<or> ovd_ConsecutiveLow d \<noteq> ovs_ConsecutiveLow s \<or> ovd_Reason d \<noteq> lastReason)"

definition EvaluateOverflow ::
  "string option \<Rightarrow> external_db \<Rightarrow> string \<Rightarrow> string \<Rightarrow> overflow_signal \<Rightarrow> bool \<Rightarrow> gotime \<Rightarrow>
   (store_error + overflow_decision) \<times> external_db" where
  "EvaluateOverflow new_id db tenant deploymentID signal budgetAvailable evaluatedAt =
     commit_tx db
       (case find (same_deployment tenant deploymentID) (xd_policies db) of None \<Rightarrow> Inl ErrNotFound
        | Some p \<Rightarrow>
            if \<not> xp_Enabled p then Inl (ErrConflict ''external policy is disabled'')
            else let row = overflow_row db tenant deploymentID;
                     s = (case row of None \<Rightarrow> zero_overflow | Some s \<Rightarrow> s)
                 in (case overflow_Evaluate (engine_policy p (xp_PrivacyAcknowledged p) budgetAvailable) s signal evaluatedAt of
                       Inl e \<Rightarrow> Inl (ErrOther e)
                     | Inr d \<Rightarrow>
                         let db1 = db\<lparr>xd_overflow_states := put_overflow_state tenant deploymentID (overflow_next s d evaluatedAt) (xd_overflow_states db)\<rparr>
                         in if \<not> material_decision row d (last_reason db tenant deploymentID) then Inr (d, db1)
                            else case new_id of None \<Rightarrow> Inl (ErrOther ''generate ID'')
                              | Some i \<Rightarrow> Inr (d, db1\<lparr>xd_overflow_decisions := xd_overflow_decisions db1 @
                                  [\<lparr>od_id = i, od_tenant_id = tenant, od_deployment_id = deploymentID, od_route = ovd_Route d, od_action = ovd_Action d,
                                    od_reason = ovd_Reason d, od_created_at = evaluatedAt\<rparr>]\<rparr>)))"


section \<open>The pool of a process\<close>

text \<open>A refill is the closure a resolver registers: the store method, the tenant, the policy and the batch it asks for.\<close>

datatype refill =
  Refill_Policy string string int
| Refill_Binding string string int

definition run_refill :: "external_env \<Rightarrow> gotime \<Rightarrow> refill \<Rightarrow> external_db \<Rightarrow> (store_error + budget_lease) \<times> external_db" where
  "run_refill env stamp r db =
     (case r of Refill_Policy tenant policyID batch \<Rightarrow> LeaseExternalBudget stamp db tenant policyID batch
      | Refill_Binding tenant bindingID batch \<Rightarrow> LeaseManagedExternalBindingBudget env stamp db tenant bindingID batch)"

record 'r budget_pool =
  bp_leases :: "string \<Rightarrow> budget_lease"
  bp_refill :: "string \<Rightarrow> 'r option"
  bp_threshold :: "string \<Rightarrow> int"
  bp_refilling :: "string \<Rightarrow> bool"

definition no_lease :: budget_lease where
  "no_lease = \<lparr>bl_PolicyID = '''', bl_Requests = 0, bl_ReservedCostMicrousd = 0, bl_MaxRequestCostMicrousd = 0\<rparr>"

definition NewBudgetPool :: "'r budget_pool" where
  "NewBudgetPool = \<lparr>bp_leases = (\<lambda>_. no_lease), bp_refill = (\<lambda>_. None), bp_threshold = (\<lambda>_. 0), bp_refilling = (\<lambda>_. False)\<rparr>"

definition RegisterRefill :: "string \<Rightarrow> int \<Rightarrow> 'r option \<Rightarrow> 'r budget_pool \<Rightarrow> 'r budget_pool" where
  "RegisterRefill policyID threshold refill p =
     (if policyID = '''' \<or> refill = None then p
      else p\<lparr>bp_refill := (bp_refill p)(policyID := refill), bp_threshold := (bp_threshold p)(policyID := threshold)\<rparr>)"

definition budget_Add :: "budget_lease \<Rightarrow> 'r budget_pool \<Rightarrow> string option \<times> 'r budget_pool" where
  "budget_Add lease p =
     (if bl_PolicyID lease = '''' \<or> bl_Requests lease < 1 \<or> bl_MaxRequestCostMicrousd lease < 1 \<or>
         bl_ReservedCostMicrousd lease \<noteq> i64 (bl_Requests lease * bl_MaxRequestCostMicrousd lease)
        then (Some ''valid external budget lease is required'', p)
      else let current = bp_leases p (bl_PolicyID lease);
               current' = \<lparr>bl_PolicyID = bl_PolicyID lease, bl_Requests = i64 (bl_Requests current + bl_Requests lease),
                 bl_ReservedCostMicrousd = i64 (bl_ReservedCostMicrousd current + bl_ReservedCostMicrousd lease),
                 bl_MaxRequestCostMicrousd = bl_MaxRequestCostMicrousd lease\<rparr>
           in (None, p\<lparr>bp_leases := (bp_leases p)(bl_PolicyID lease := current')\<rparr>))"

definition prefetchLocked :: "string \<Rightarrow> int \<Rightarrow> 'r budget_pool \<Rightarrow> 'r option \<times> 'r budget_pool" where
  "prefetchLocked policyID remaining p =
     (case bp_refill p policyID of None \<Rightarrow> (None, p)
      | Some r \<Rightarrow>
          if bp_refilling p policyID \<or> remaining > bp_threshold p policyID then (None, p)
          else (Some r, p\<lparr>bp_refilling := (bp_refilling p)(policyID := True)\<rparr>))"

text \<open>The result of an authorization: the lease of one request or the exhaustion error, the refill it starts, and the pool.\<close>

definition budget_Authorize :: "string \<Rightarrow> 'r budget_pool \<Rightarrow> budget_lease option \<times> 'r option \<times> 'r budget_pool" where
  "budget_Authorize policyID p =
     (if policyID = '''' then (None, None, p)
      else let lease = bp_leases p policyID;
               price = bl_MaxRequestCostMicrousd lease in
        if bl_Requests lease < 1 \<or> bl_ReservedCostMicrousd lease < price \<or> price < 1 then (None, None, p)
        else let lease' = lease\<lparr>bl_Requests := bl_Requests lease - 1, bl_ReservedCostMicrousd := bl_ReservedCostMicrousd lease - price\<rparr>;
                 (spawned, p') = prefetchLocked policyID (bl_Requests lease') (p\<lparr>bp_leases := (bp_leases p)(policyID := lease')\<rparr>)
             in (Some \<lparr>bl_PolicyID = policyID, bl_Requests = 1, bl_ReservedCostMicrousd = price, bl_MaxRequestCostMicrousd = price\<rparr>, spawned, p'))"

definition prefetch_done :: "string \<Rightarrow> 'r budget_pool \<Rightarrow> 'r budget_pool" where
  "prefetch_done policyID p = p\<lparr>bp_refilling := (bp_refilling p)(policyID := False)\<rparr>"

definition budget_Remaining :: "'r budget_pool \<Rightarrow> string \<Rightarrow> int" where
  "budget_Remaining p policyID = bl_Requests (bp_leases p policyID)"

section \<open>Processes sharing a budget\<close>

text \<open>
  A process has its pool and the leases the store granted it that are not added yet. The store may
  be reconfigured at any time, a process may lose its memory at any time, and a refill may run at
  any time. The last two components count what authorized requests cost and how many they are.
\<close>

record 'r budget_process =
  pr_pool :: "'r budget_pool"
  pr_leased :: "budget_lease multiset"

definition fresh_process :: "'r budget_process" where
  "fresh_process = \<lparr>pr_pool = NewBudgetPool, pr_leased = {#}\<rparr>"

type_synonym ('db, 'r) budget_system = "'db \<times> 'r budget_process list \<times> (string \<Rightarrow> int) \<times> (string \<Rightarrow> int)"

definition bump_at :: "string \<Rightarrow> int \<Rightarrow> (string \<Rightarrow> int) \<Rightarrow> string \<Rightarrow> int" where
  "bump_at i n f = f(i := f i + n)"

inductive budget_step ::
  "('db \<Rightarrow> budget_lease \<Rightarrow> 'db \<Rightarrow> bool) \<Rightarrow> ('db \<Rightarrow> 'db \<Rightarrow> bool) \<Rightarrow> ('db, 'r) budget_system \<Rightarrow> ('db, 'r) budget_system \<Rightarrow> bool"
  for grant configure where
  authorize: "k < length ps \<Longrightarrow> budget_Authorize i (pr_pool (ps ! k)) = (Some l, spawned, p') \<Longrightarrow>
    budget_step grant configure (db, ps, C, R) (db, ps[k := (ps ! k)\<lparr>pr_pool := p'\<rparr>], bump_at i (bl_ReservedCostMicrousd l) C, bump_at i 1 R)"
| register: "k < length ps \<Longrightarrow>
    budget_step grant configure (db, ps, C, R) (db, ps[k := (ps ! k)\<lparr>pr_pool := RegisterRefill i threshold refill (pr_pool (ps ! k))\<rparr>], C, R)"
| lease: "k < length ps \<Longrightarrow> grant db l db' \<Longrightarrow>
    budget_step grant configure (db, ps, C, R) (db', ps[k := (ps ! k)\<lparr>pr_leased := add_mset l (pr_leased (ps ! k))\<rparr>], C, R)"
| add: "k < length ps \<Longrightarrow> l \<in># pr_leased (ps ! k) \<Longrightarrow> budget_Add l (pr_pool (ps ! k)) = (res, p') \<Longrightarrow>
    budget_step grant configure (db, ps, C, R) (db, ps[k := \<lparr>pr_pool = p', pr_leased = pr_leased (ps ! k) - {#l#}\<rparr>], C, R)"
| prefetched: "k < length ps \<Longrightarrow>
    budget_step grant configure (db, ps, C, R) (db, ps[k := (ps ! k)\<lparr>pr_pool := prefetch_done i (pr_pool (ps ! k))\<rparr>], C, R)"
| restart: "k < length ps \<Longrightarrow> budget_step grant configure (db, ps, C, R) (db, ps[k := fresh_process], C, R)"
| start: "budget_step grant configure (db, ps, C, R) (db, ps @ [fresh_process], C, R)"
| configure: "configure db db' \<Longrightarrow> budget_step grant configure (db, ps, C, R) (db', ps, C, R)"

text \<open>What a process holds of a policy's budget: the pool and the leases on their way into it.\<close>

definition holding :: "(budget_lease \<Rightarrow> int) \<Rightarrow> string \<Rightarrow> 'r budget_process \<Rightarrow> int" where
  "holding f i p = f (bp_leases (pr_pool p) i) + (\<Sum>l \<in># pr_leased p. if bl_PolicyID l = i then f l else 0)"

definition valid_lease :: "budget_lease \<Rightarrow> bool" where
  "valid_lease l \<longleftrightarrow> bl_PolicyID l \<noteq> '''' \<and> 1 \<le> bl_Requests l \<and> 1 \<le> bl_MaxRequestCostMicrousd l \<and>
     bl_ReservedCostMicrousd l = bl_Requests l * bl_MaxRequestCostMicrousd l"

definition process_ok :: "'r budget_process \<Rightarrow> bool" where
  "process_ok p \<longleftrightarrow> (\<forall>l \<in># pr_leased p. valid_lease l) \<and>
     (\<forall>i. 0 \<le> bl_Requests (bp_leases (pr_pool p) i) \<and> 0 \<le> bl_ReservedCostMicrousd (bp_leases (pr_pool p) i))"

lemma holding_fresh [simp]: "f no_lease = 0 \<Longrightarrow> holding f i fresh_process = 0" "process_ok fresh_process"
  by (simp_all add: holding_def process_ok_def fresh_process_def NewBudgetPool_def no_lease_def)

lemma sum_mset_ge0: "\<forall>x \<in># M. (0::int) \<le> f x \<Longrightarrow> 0 \<le> (\<Sum>x \<in># M. f x)"
  by (induction M) auto

lemma sum_list_replace: "k < length xs \<Longrightarrow> sum_list (xs[k := x]) = sum_list xs + x - xs ! k" for x :: int
  by (induction xs arbitrary: k) (auto split: nat.splits)

lemma holding_nonneg:
  assumes "process_ok p"
  shows "0 \<le> holding bl_ReservedCostMicrousd i p" "0 \<le> holding bl_Requests i p"
  using assms by (auto simp: holding_def process_ok_def valid_lease_def intro!: add_nonneg_nonneg sum_mset_ge0)

lemma prefetch_leases: "prefetchLocked i n p = (s, p') \<Longrightarrow> bp_leases p' = bp_leases p"
  by (auto simp: prefetchLocked_def split: option.splits if_splits)

lemma authorize_effect:
  assumes "budget_Authorize i p = (Some l, spawned, p')"
  shows "bp_leases p' = (bp_leases p)(i := (bp_leases p i)\<lparr>bl_Requests := bl_Requests (bp_leases p i) - 1,
      bl_ReservedCostMicrousd := bl_ReservedCostMicrousd (bp_leases p i) - bl_ReservedCostMicrousd l\<rparr>)"
    "1 \<le> bl_Requests (bp_leases p i)" "bl_ReservedCostMicrousd l \<le> bl_ReservedCostMicrousd (bp_leases p i)" "1 \<le> bl_ReservedCostMicrousd l"
  using assms by (auto simp: budget_Authorize_def Let_def split: if_splits prod.splits dest: prefetch_leases)

text \<open>What the pool relies on: the store counts every lease it grants against a limit it never exceeds.\<close>

locale budget_source =
  fixes grant :: "'db \<Rightarrow> budget_lease \<Rightarrow> 'db \<Rightarrow> bool" and configure :: "'db \<Rightarrow> 'db \<Rightarrow> bool" and ok :: "'db \<Rightarrow> bool"
    and cost :: "'db \<Rightarrow> string \<Rightarrow> int" and requests :: "'db \<Rightarrow> string \<Rightarrow> int"
    and cost_limit :: "'db \<Rightarrow> string \<Rightarrow> int" and request_limit :: "'db \<Rightarrow> string \<Rightarrow> int"
  assumes within_limits: "ok db \<Longrightarrow> 0 \<le> cost db i \<and> cost db i \<le> cost_limit db i \<and> cost_limit db i \<le> max_i64 \<and>
      0 \<le> requests db i \<and> requests db i \<le> request_limit db i \<and> request_limit db i \<le> max_i64"
    and grant_counted: "ok db \<Longrightarrow> grant db l db' \<Longrightarrow> ok db' \<and> valid_lease l \<and>
      cost db' = bump_at (bl_PolicyID l) (bl_ReservedCostMicrousd l) (cost db) \<and>
      requests db' = bump_at (bl_PolicyID l) (bl_Requests l) (requests db)"
    and configure_keeps: "ok db \<Longrightarrow> configure db db' \<Longrightarrow> ok db' \<and> cost db' = cost db \<and> requests db' = requests db"
begin

definition budget_inv :: "('db, 'r) budget_system \<Rightarrow> bool" where
  "budget_inv s = (case s of (db, ps, C, R) \<Rightarrow> ok db \<and> list_all process_ok ps \<and>
     (\<forall>i. 0 \<le> C i \<and> 0 \<le> R i \<and> C i + (\<Sum>p \<leftarrow> ps. holding bl_ReservedCostMicrousd i p) \<le> cost db i \<and>
          R i + (\<Sum>p \<leftarrow> ps. holding bl_Requests i p) \<le> requests db i))"

lemma holding_update:
  assumes "k < length ps"
  shows "(\<Sum>p \<leftarrow> ps[k := q]. holding f i p) = (\<Sum>p \<leftarrow> ps. holding f i p) + holding f i q - holding f i (ps ! k)"
  using assms by (simp add: map_update sum_list_replace)

lemma inv_replace:
  assumes "budget_inv (db, ps, C, R)" "k < length ps" "ok db'" "process_ok q" "\<forall>i. 0 \<le> C' i \<and> 0 \<le> R' i"
    and "\<And>i. C' i - C i + holding bl_ReservedCostMicrousd i q - holding bl_ReservedCostMicrousd i (ps ! k) \<le> cost db' i - cost db i"
    and "\<And>i. R' i - R i + holding bl_Requests i q - holding bl_Requests i (ps ! k) \<le> requests db' i - requests db i"
  shows "budget_inv (db', ps[k := q], C', R')"
proof -
  have "list_all process_ok (ps[k := q])"
    using assms(1,4) by (auto simp: budget_inv_def list_all_iff dest: set_update_subset_insert [THEN subsetD])
  moreover have "C' i + (\<Sum>p \<leftarrow> ps[k := q]. holding bl_ReservedCostMicrousd i p) \<le> cost db' i" for i
  proof -
    have "C i + (\<Sum>p \<leftarrow> ps. holding bl_ReservedCostMicrousd i p) \<le> cost db i" using assms(1) by (simp add: budget_inv_def)
    then show ?thesis using assms(6) [of i] unfolding holding_update [OF assms(2)] by linarith
  qed
  moreover have "R' i + (\<Sum>p \<leftarrow> ps[k := q]. holding bl_Requests i p) \<le> requests db' i" for i
  proof -
    have "R i + (\<Sum>p \<leftarrow> ps. holding bl_Requests i p) \<le> requests db i" using assms(1) by (simp add: budget_inv_def)
    then show ?thesis using assms(7) [of i] unfolding holding_update [OF assms(2)] by linarith
  qed
  ultimately show ?thesis using assms(3,5) by (simp add: budget_inv_def)
qed

text \<open>A process never holds more than the store counts, so the additions of the pool do not wrap.\<close>

lemma holding_bounded:
  assumes inv: "budget_inv (db, ps, C, R)" and k: "k < length ps"
  shows "holding bl_ReservedCostMicrousd i (ps ! k) \<le> max_i64" "holding bl_Requests i (ps ! k) \<le> max_i64" "process_ok (ps ! k)"
proof -
  have ok: "ok db" and ps: "\<And>p. p \<in> set ps \<Longrightarrow> process_ok p" using inv by (auto simp: budget_inv_def list_all_iff)
  have one: "f (ps ! k) \<le> (\<Sum>p \<leftarrow> ps. f p)" if "\<And>p. p \<in> set ps \<Longrightarrow> 0 \<le> f p" for f :: "_ \<Rightarrow> int"
    using that k by (intro member_le_sum_list) auto
  have cost: "holding bl_ReservedCostMicrousd i (ps ! k) \<le> (\<Sum>p \<leftarrow> ps. holding bl_ReservedCostMicrousd i p)"
    by (rule one) (use ps holding_nonneg in blast)
  have requests: "holding bl_Requests i (ps ! k) \<le> (\<Sum>p \<leftarrow> ps. holding bl_Requests i p)"
    by (rule one) (use ps holding_nonneg in blast)
  have "0 \<le> C i" "0 \<le> R i" "C i + (\<Sum>p \<leftarrow> ps. holding bl_ReservedCostMicrousd i p) \<le> cost db i"
    "R i + (\<Sum>p \<leftarrow> ps. holding bl_Requests i p) \<le> requests db i"
    using inv by (simp_all add: budget_inv_def)
  then show "holding bl_ReservedCostMicrousd i (ps ! k) \<le> max_i64" "holding bl_Requests i (ps ! k) \<le> max_i64"
    using within_limits [OF ok, of i] cost requests by linarith+
  show "process_ok (ps ! k)" using ps k by simp
qed

end

context budget_source
begin

lemma inv_add:
  assumes inv: "budget_inv (db, ps, C, R)" and k: "k < length ps" and l: "l \<in># pr_leased (ps ! k)"
    and add: "budget_Add l (pr_pool (ps ! k)) = (res, p')"
  shows "budget_inv (db, ps[k := \<lparr>pr_pool = p', pr_leased = pr_leased (ps ! k) - {#l#}\<rparr>], C, R)"
proof -
  let ?p = "ps ! k" and ?i = "bl_PolicyID l"
  let ?cur = "bp_leases (pr_pool ?p) ?i"
  have ok: "process_ok ?p" by (rule holding_bounded(3) [OF inv k])
  then have v: "valid_lease l" using l by (simp add: process_ok_def)
  obtain M where M: "pr_leased ?p = add_mset l M" using l by (metis mset_add)
  have parts: "holding f i ?p = f (bp_leases (pr_pool ?p) i) + (if ?i = i then f l else 0) +
      (\<Sum>x \<in># M. if bl_PolicyID x = i then f x else 0)" for f i
    by (simp add: holding_def M)
  have rest: "0 \<le> (\<Sum>x \<in># M. if bl_PolicyID x = ?i then bl_ReservedCostMicrousd x else 0)"
    "0 \<le> (\<Sum>x \<in># M. if bl_PolicyID x = ?i then bl_Requests x else 0)"
    using ok by (auto intro!: sum_mset_ge0 simp: process_ok_def M valid_lease_def)
  have nonneg: "0 \<le> bl_Requests ?cur" "0 \<le> bl_ReservedCostMicrousd ?cur" using ok by (simp_all add: process_ok_def)
  have positive: "0 \<le> bl_ReservedCostMicrousd l" "1 \<le> bl_Requests l"
    and product: "bl_Requests l * bl_MaxRequestCostMicrousd l = bl_ReservedCostMicrousd l"
    using v by (auto simp: valid_lease_def)
  have small: "is_i64 (bl_ReservedCostMicrousd ?cur + bl_ReservedCostMicrousd l)" "is_i64 (bl_Requests ?cur + bl_Requests l)"
    "is_i64 (bl_Requests l * bl_MaxRequestCostMicrousd l)"
    using holding_bounded(1,2) [OF inv k, of ?i] rest nonneg positive unfolding parts product
    by (auto simp: is_i64_def min_i64_def)
  have p': "bp_leases p' = (bp_leases (pr_pool ?p))(?i := \<lparr>bl_PolicyID = ?i, bl_Requests = bl_Requests ?cur + bl_Requests l,
      bl_ReservedCostMicrousd = bl_ReservedCostMicrousd ?cur + bl_ReservedCostMicrousd l,
      bl_MaxRequestCostMicrousd = bl_MaxRequestCostMicrousd l\<rparr>)"
    using add v small by (auto simp: budget_Add_def valid_lease_def Let_def i64_id)
  have same: "holding f i \<lparr>pr_pool = p', pr_leased = M\<rparr> = holding f i ?p"
    if "f = bl_ReservedCostMicrousd \<or> f = bl_Requests" for f i
    using that unfolding parts by (auto simp: holding_def p')
  show ?thesis unfolding M
  proof (rule inv_replace [OF inv k])
    show "process_ok \<lparr>pr_pool = p', pr_leased = add_mset l M - {#l#}\<rparr>"
      using ok v nonneg by (auto simp: process_ok_def M p' valid_lease_def)
  qed (use inv same in \<open>auto simp: budget_inv_def\<close>)
qed

lemma inv_authorize:
  assumes inv: "budget_inv (db, ps, C, R)" and k: "k < length ps"
    and auth: "budget_Authorize i (pr_pool (ps ! k)) = (Some l, spawned, p')"
  shows "budget_inv (db, ps[k := (ps ! k)\<lparr>pr_pool := p'\<rparr>], bump_at i (bl_ReservedCostMicrousd l) C, bump_at i 1 R)"
proof -
  note eff = authorize_effect [OF auth]
  have ok: "process_ok (ps ! k)" by (rule holding_bounded(3) [OF inv k])
  show ?thesis
  proof (rule inv_replace [OF inv k])
    show "process_ok ((ps ! k)\<lparr>pr_pool := p'\<rparr>)" using ok eff by (auto simp: process_ok_def)
  qed (use inv eff in \<open>auto simp: budget_inv_def bump_at_def holding_def\<close>)
qed

lemma inv_leased:
  assumes inv: "budget_inv (db, ps, C, R)" and k: "k < length ps" and grant: "grant db l db'"
  shows "budget_inv (db', ps[k := (ps ! k)\<lparr>pr_leased := add_mset l (pr_leased (ps ! k))\<rparr>], C, R)"
proof -
  have "ok db" using inv by (simp add: budget_inv_def)
  note counted = grant_counted [OF this grant]
  have ok: "process_ok (ps ! k)" by (rule holding_bounded(3) [OF inv k])
  show ?thesis
  proof (rule inv_replace [OF inv k])
    show "process_ok ((ps ! k)\<lparr>pr_leased := add_mset l (pr_leased (ps ! k))\<rparr>)" using ok counted by (simp add: process_ok_def)
  qed (use inv counted in \<open>auto simp: budget_inv_def bump_at_def holding_def\<close>)
qed

lemma inv_same_leases:
  assumes inv: "budget_inv (db, ps, C, R)" and k: "k < length ps" and same: "bp_leases p' = bp_leases (pr_pool (ps ! k))"
  shows "budget_inv (db, ps[k := (ps ! k)\<lparr>pr_pool := p'\<rparr>], C, R)"
  by (rule inv_replace [OF inv k]) (use inv same holding_bounded(3) [OF inv k] in \<open>auto simp: budget_inv_def process_ok_def holding_def\<close>)

lemma inv_restart:
  assumes inv: "budget_inv (db, ps, C, R)" and k: "k < length ps"
  shows "budget_inv (db, ps[k := fresh_process], C, R)"
  by (rule inv_replace [OF inv k])
    (use inv holding_nonneg [OF holding_bounded(3) [OF inv k]] in \<open>auto simp: budget_inv_def no_lease_def\<close>)

theorem budget_step_inv: "budget_step grant configure s s' \<Longrightarrow> budget_inv s \<Longrightarrow> budget_inv s'"
proof (induction rule: budget_step.induct)
  case (start db ps C R)
  then show ?case by (simp add: budget_inv_def no_lease_def)
next
  case (configure db db' ps C R)
  then show ?case using configure_keeps [of db db'] by (simp add: budget_inv_def)
qed (auto intro: inv_authorize inv_leased inv_add inv_restart inv_same_leases simp: RegisterRefill_def prefetch_done_def)

lemma spending_within_limits:
  assumes "(budget_step grant configure)\<^sup>*\<^sup>* (db0, [], (\<lambda>_. 0), (\<lambda>_. 0)) (db, ps, C, R)" "ok db0"
  shows "ok db" "C i \<le> cost db i" "R i \<le> requests db i" "cost db i \<le> cost_limit db i" "requests db i \<le> request_limit db i"
proof -
  have "budget_inv (db0, [], (\<lambda>_. 0), (\<lambda>_. 0))" using assms(2) within_limits by (simp add: budget_inv_def)
  with assms(1) have inv: "budget_inv (db, ps, C, R)"
    by (induction rule: rtranclp_induct) (auto intro: budget_step_inv)
  then show ok: "ok db" by (simp add: budget_inv_def)
  have "0 \<le> (\<Sum>p \<leftarrow> ps. holding bl_ReservedCostMicrousd i p)" "0 \<le> (\<Sum>p \<leftarrow> ps. holding bl_Requests i p)"
    using inv by (auto intro!: sum_list_nonneg holding_nonneg simp: budget_inv_def list_all_iff)
  then show "C i \<le> cost db i" "R i \<le> requests db i" using inv by (simp_all add: budget_inv_def) (smt (verit))+
  show "cost db i \<le> cost_limit db i" "requests db i \<le> request_limit db i" using within_limits [OF ok, of i] by simp_all
qed

end

section \<open>The store as a source of budget\<close>

definition binding_config :: "external_env \<Rightarrow> external_db \<Rightarrow> binding_budget \<Rightarrow> managed_binding_config option" where
  "binding_config env db x =
     (case find (\<lambda>b. bb_ID b = bg_binding_id x \<and> bb_TenantID b = bg_tenant_id x) (xd_bindings db) of None \<Rightarrow> None
      | Some b \<Rightarrow> (case ParseManagedBindingConfig (xe_decode env) (xe_parse_time env) (bb_ConfigJSON b) of Inr c \<Rightarrow> c | Inl _ \<Rightarrow> None))"

definition binding_limit :: "(managed_binding_config \<Rightarrow> int) \<Rightarrow> external_env \<Rightarrow> external_db \<Rightarrow> binding_budget \<Rightarrow> int" where
  "binding_limit f env db x = (case binding_config env db x of None \<Rightarrow> 0 | Some c \<Rightarrow> f c)"

definition budget_of :: "(ext_policy \<Rightarrow> int) \<Rightarrow> (binding_budget \<Rightarrow> int) \<Rightarrow> external_db \<Rightarrow> string \<Rightarrow> int" where
  "budget_of f g db i =
     (case find (\<lambda>p. xp_ID p = i) (xd_policies db) of Some p \<Rightarrow> f p
      | None \<Rightarrow> (case find (\<lambda>x. bg_binding_id x = i) (xd_binding_budgets db) of Some x \<Rightarrow> g x | None \<Rightarrow> 0))"

definition external_cost :: "external_db \<Rightarrow> string \<Rightarrow> int" where
  "external_cost = budget_of xp_CostReservedMicrousd bg_cost_reserved_microusd"

definition external_requests :: "external_db \<Rightarrow> string \<Rightarrow> int" where
  "external_requests = budget_of xp_RequestsReserved bg_requests_reserved"

definition external_cost_limit :: "external_env \<Rightarrow> external_db \<Rightarrow> string \<Rightarrow> int" where
  "external_cost_limit env db = budget_of xp_CostLimitMicrousd (binding_limit bc_CostLimitMicrousd env db) db"

definition external_request_limit :: "external_env \<Rightarrow> external_db \<Rightarrow> string \<Rightarrow> int" where
  "external_request_limit env db = budget_of xp_RequestLimit (binding_limit bc_RequestLimit env db) db"

definition policy_row_ok :: "ext_policy \<Rightarrow> bool" where
  "policy_row_ok p \<longleftrightarrow> policy_check p \<and> xp_CostLimitMicrousd p \<le> max_i64 \<and> xp_RequestLimit p \<le> max_i64"

definition budget_row_ok :: "external_env \<Rightarrow> external_db \<Rightarrow> binding_budget \<Rightarrow> bool" where
  "budget_row_ok env db x \<longleftrightarrow> 0 \<le> bg_requests_reserved x \<and> bg_requests_reserved x \<le> binding_limit bc_RequestLimit env db x \<and>
     binding_limit bc_RequestLimit env db x \<le> max_i64 \<and> 0 \<le> bg_cost_reserved_microusd x \<and>
     bg_cost_reserved_microusd x \<le> binding_limit bc_CostLimitMicrousd env db x \<and> binding_limit bc_CostLimitMicrousd env db x \<le> max_i64"

text \<open>Identifiers are random, so a policy and a binding never share one.\<close>

definition external_db_ok :: "external_env \<Rightarrow> external_db \<Rightarrow> bool" where
  "external_db_ok env db \<longleftrightarrow> distinct (map xp_ID (xd_policies db)) \<and> distinct (map bg_binding_id (xd_binding_budgets db)) \<and>
     (\<forall>p \<in> set (xd_policies db). policy_row_ok p) \<and> (\<forall>x \<in> set (xd_binding_budgets db). budget_row_ok env db x) \<and>
     xp_ID ` set (xd_policies db) \<inter> bg_binding_id ` set (xd_binding_budgets db) = {}"

definition external_grant :: "external_env \<Rightarrow> external_db \<Rightarrow> budget_lease \<Rightarrow> external_db \<Rightarrow> bool" where
  "external_grant env db l db' \<longleftrightarrow> (\<exists>stamp r. run_refill env stamp r db = (Inr l, db'))"

text \<open>A policy is set without an identity of its own, and an evaluation of the overflow engine writes its state.\<close>

definition external_configure :: "external_env \<Rightarrow> external_db \<Rightarrow> external_db \<Rightarrow> bool" where
  "external_configure env db db' \<longleftrightarrow>
     (\<exists>i stamp p res. xp_ID p = '''' \<and> xp_CostLimitMicrousd p \<le> max_i64 \<and> xp_RequestLimit p \<le> max_i64 \<and>
        i \<notin> bg_binding_id ` set (xd_binding_budgets db) \<and> SetExternalTargetPolicyForTenant env (Some i) stamp db p = (res, db')) \<or>
     (\<exists>new_id tenant deploymentID signal budget now res. EvaluateOverflow new_id db tenant deploymentID signal budget now = (res, db'))"

lemma find_upd_where:
  assumes "\<And>r. key (f r) = key r"
  shows "find (\<lambda>r. key r = i) (upd_where P f rows) = map_option (\<lambda>r. if P r then f r else r) (find (\<lambda>r. key r = i) rows)"
  by (induction rows) (auto simp: upd_where_def assms)

lemma find_key: "distinct (map key rows) \<Longrightarrow> r \<in> set rows \<Longrightarrow> find (\<lambda>x. key x = key r) rows = Some r"
  by (induction rows) force+

lemma find_SomeD: "find P rows = Some r \<Longrightarrow> r \<in> set rows \<and> P r"
  by (auto simp: find_Some_iff)

lemma lease_size_bounds:
  assumes "0 \<le> used" "used \<le> limit" "limit \<le> max_i64" "0 \<le> costUsed" "costUsed \<le> costLimit" "costLimit \<le> max_i64" "1 \<le> price"
    and n: "n = lease_size requested limit used costLimit costUsed price" "1 \<le> n"
  shows "used + n \<le> limit" "costUsed + n * price \<le> costLimit" "i64 (n * price) = n * price" "1 \<le> n * price" "n \<le> requested"
proof -
  have small: "is_i64 (limit - used)" "is_i64 (costLimit - costUsed)"
    using assms by (auto simp: is_i64_def min_i64_def max_i64_def)
  have le: "n \<le> requested" "n \<le> limit - used" "n \<le> (costLimit - costUsed) div price"
    using assms(5,7) n(1) by (auto simp: lease_size_def Let_def i64_id [OF small(1)] i64_id [OF small(2)] quot_nonneg split: if_splits)
  then show "n \<le> requested" "used + n \<le> limit" by simp_all
  have "n * price \<le> (costLimit - costUsed) div price * price" using le(3) assms(7) by (intro mult_right_mono) auto
  also have "\<dots> \<le> costLimit - costUsed" using assms(7) by (metis add_le_same_cancel1 div_mult_mod_eq pos_mod_sign zero_less_one_class.zero_less_one less_le_trans le_add_same_cancel1)
  finally show cost: "costUsed + n * price \<le> costLimit" by simp
  show pos: "1 \<le> n * price" using n(2) assms(7) by (metis mult_mono mult_1 zero_le_one order_trans)
  show "i64 (n * price) = n * price" using cost pos assms by (intro i64_id) (auto simp: is_i64_def min_i64_def)
qed

lemma budget_row_ok_cong: "xd_bindings db' = xd_bindings db \<Longrightarrow> budget_row_ok env db' = budget_row_ok env db"
  by (simp add: fun_eq_iff budget_row_ok_def binding_limit_def binding_config_def)

text \<open>Updating the row with a key changes what is found under that key and nothing else.\<close>

lemma find_update_at:
  assumes "distinct (map key rows)" "p \<in> set rows" "key p = i" "P p" "\<And>r. P r \<Longrightarrow> key r = i" "\<And>r. key (f r) = key r"
  shows "find (\<lambda>r. key r = j) (upd_where P f rows) = (if j = i then Some (f p) else find (\<lambda>r. key r = j) rows)"
proof (cases "find (\<lambda>r. key r = j) rows")
  case None
  then have "j \<noteq> i" using assms(2,3) by (auto simp: find_None_iff)
  then show ?thesis using None by (simp add: find_upd_where [where key = key and f = f, OF assms(6)])
next
  case (Some r)
  have r: "r \<in> set rows" "key r = j" using find_SomeD [OF Some] by simp_all
  have "r = p" if "key r = i" using r that assms(1-3) by (auto simp: distinct_map inj_on_def)
  then show ?thesis using r assms(3-5) by (auto simp: find_upd_where [where key = key and f = f, OF assms(6)] Some)
qed

lemma lease_policy_grant:
  assumes ok: "external_db_ok env db" and lease: "LeaseExternalBudget stamp db tenant i requested = (Inr l, db')"
  shows "external_db_ok env db' \<and> valid_lease l \<and>
    external_cost db' = bump_at (bl_PolicyID l) (bl_ReservedCostMicrousd l) (external_cost db) \<and>
    external_requests db' = bump_at (bl_PolicyID l) (bl_Requests l) (external_requests db)"
proof -
  obtain p where p: "find (by_id tenant i) (xd_policies db) = Some p"
    using lease by (auto simp: LeaseExternalBudget_def commit_tx_Inr split: if_splits option.splits)
  then have mem: "p \<in> set (xd_policies db)" "by_id tenant i p" "xp_ID p = i" using find_SomeD [OF p] by (auto simp: by_id_def)
  define price where "price = xp_MaxRequestCostMicrousd p"
  define n where "n = lease_size requested (xp_RequestLimit p) (xp_RequestsReserved p) (xp_CostLimitMicrousd p) (xp_CostReservedMicrousd p) price"
  define f where "f = (\<lambda>r :: ext_policy. r\<lparr>xp_RequestsReserved := xp_RequestsReserved r + n,
    xp_CostReservedMicrousd := xp_CostReservedMicrousd r + i64 (n * price), xp_UpdatedAt := stamp\<rparr>)"
  let ?rows = "upd_where (by_id tenant i) f (xd_policies db)"
  have out: "1 \<le> n" "list_all policy_check ?rows" "db' = db\<lparr>xd_policies := ?rows\<rparr>" "i \<noteq> ''''"
    "l = \<lparr>bl_PolicyID = i, bl_Requests = n, bl_ReservedCostMicrousd = i64 (n * price), bl_MaxRequestCostMicrousd = price\<rparr>"
    using lease p by (auto simp: LeaseExternalBudget_def commit_tx_Inr Let_def price_def n_def f_def not_less split: if_splits)
  have keep: "xp_ID (f r) = xp_ID r" "xp_CostLimitMicrousd (f r) = xp_CostLimitMicrousd r" "xp_RequestLimit (f r) = xp_RequestLimit r" for r
    by (simp_all add: f_def)
  have row: "policy_row_ok p" using ok mem(1) by (simp add: external_db_ok_def)
  have b: "i64 (n * price) = n * price" "1 \<le> price"
    using lease_size_bounds(3) [OF _ _ _ _ _ _ _ n_def out(1)] row by (auto simp: policy_row_ok_def policy_check_def price_def)
  have keys: "map xp_ID ?rows = map xp_ID (xd_policies db)" by (rule map_upd_where) (rule keep)
  have dist: "distinct (map xp_ID (xd_policies db))" using ok by (simp add: external_db_ok_def)
  have found: "find (\<lambda>r. xp_ID r = j) ?rows = (if j = i then Some (f p) else find (\<lambda>r. xp_ID r = j) (xd_policies db))" for j
    by (rule find_update_at [where key = xp_ID and P = "by_id tenant i", OF dist mem(1,3,2)]) (simp_all add: by_id_def keep)
  have mine: "find (\<lambda>r. xp_ID r = i) (xd_policies db) = Some p" using find_key [OF dist mem(1)] mem(3) by simp
  have counted: "budget_of a g db' = bump_at i (a (f p) - a p) (budget_of a g db)" for a g
    by (rule ext) (auto simp: budget_of_def out(3) found bump_at_def mine split: option.splits)
  have "policy_row_ok r" if "r \<in> set ?rows" for r
    using that ok out(2) by (auto simp: external_db_ok_def policy_row_ok_def list_all_iff set_upd_where keep)
  moreover have "xp_ID ` set ?rows = xp_ID ` set (xd_policies db)" using keys by (metis set_map)
  ultimately have "external_db_ok env db'"
    using ok keys budget_row_ok_cong [of db' db env] by (simp add: external_db_ok_def out(3))
  moreover have "valid_lease l" using out b by (simp add: valid_lease_def)
  ultimately show ?thesis by (simp add: external_cost_def external_requests_def counted out(5)) (simp add: f_def)
qed

lemma budget_join_config:
  assumes "budget_join db tenant i = Some (x, b)"
  shows "find (by_binding tenant i) (xd_binding_budgets db) = Some x"
    "binding_config env db x = (case ParseManagedBindingConfig (xe_decode env) (xe_parse_time env) (bb_ConfigJSON b) of Inr c \<Rightarrow> c | Inl _ \<Rightarrow> None)"
proof -
  show x: "find (by_binding tenant i) (xd_binding_budgets db) = Some x"
    using assms by (auto simp: budget_join_def split: option.splits)
  have "bg_binding_id x = i" "bg_tenant_id x = tenant" using find_SomeD [OF x] by (simp_all add: by_binding_def)
  moreover have "find (\<lambda>b. bb_ID b = i \<and> bb_TenantID b = tenant) (xd_bindings db) = Some b"
    using assms x by (auto simp: budget_join_def)
  ultimately show "binding_config env db x =
      (case ParseManagedBindingConfig (xe_decode env) (xe_parse_time env) (bb_ConfigJSON b) of Inr c \<Rightarrow> c | Inl _ \<Rightarrow> None)"
    by (simp add: binding_config_def)
qed

lemma parsed_config_valid:
  assumes "binding_config env db x = Some c"
  shows "1 \<le> bc_MaxRequestCostMicrousd c"
  using assms
  by (auto simp: binding_config_def ParseManagedBindingConfig_def ValidateManagedBindingConfig_def Let_def
      split: option.splits sum.splits if_splits)

lemma lease_binding_grant:
  assumes ok: "external_db_ok env db" and lease: "LeaseManagedExternalBindingBudget env stamp db tenant i requested = (Inr l, db')"
  shows "external_db_ok env db' \<and> valid_lease l \<and>
    external_cost db' = bump_at (bl_PolicyID l) (bl_ReservedCostMicrousd l) (external_cost db) \<and>
    external_requests db' = bump_at (bl_PolicyID l) (bl_Requests l) (external_requests db)"
proof -
  obtain x b c where join: "budget_join db tenant i = Some (x, b)"
    and parse: "ParseManagedBindingConfig (xe_decode env) (xe_parse_time env) (bb_ConfigJSON b) = Inr (Some c)"
    using lease by (auto simp: LeaseManagedExternalBindingBudget_def commit_tx_Inr split: if_splits option.splits sum.splits)
  note x = budget_join_config(1) [OF join]
  have c: "binding_config env db x = Some c" using budget_join_config(2) [OF join, of env] parse by simp
  have mem: "x \<in> set (xd_binding_budgets db)" "by_binding tenant i x" "bg_binding_id x = i" using find_SomeD [OF x] by (auto simp: by_binding_def)
  define price where "price = bc_MaxRequestCostMicrousd c"
  define n where "n = lease_size requested (bc_RequestLimit c) (bg_requests_reserved x) (bc_CostLimitMicrousd c) (bg_cost_reserved_microusd x) price"
  define f where "f = (\<lambda>r :: binding_budget. r\<lparr>bg_requests_reserved := bg_requests_reserved r + n,
    bg_cost_reserved_microusd := bg_cost_reserved_microusd r + i64 (n * price), bg_updated_at := stamp\<rparr>)"
  let ?rows = "upd_where (by_binding tenant i) f (xd_binding_budgets db)"
  have out: "1 \<le> n" "db' = db\<lparr>xd_binding_budgets := ?rows\<rparr>" "i \<noteq> ''''"
    "l = \<lparr>bl_PolicyID = i, bl_Requests = n, bl_ReservedCostMicrousd = i64 (n * price), bl_MaxRequestCostMicrousd = price\<rparr>"
    using lease join parse
    by (auto simp: LeaseManagedExternalBindingBudget_def commit_tx_Inr Let_def price_def n_def f_def not_less split: if_splits)
  have row: "budget_row_ok env db x" using ok mem(1) by (simp add: external_db_ok_def)
  have price: "1 \<le> price" using parsed_config_valid [OF c] by (simp add: price_def)
  have lims: "0 \<le> bg_requests_reserved x" "bg_requests_reserved x \<le> bc_RequestLimit c" "bc_RequestLimit c \<le> max_i64"
    "0 \<le> bg_cost_reserved_microusd x" "bg_cost_reserved_microusd x \<le> bc_CostLimitMicrousd c" "bc_CostLimitMicrousd c \<le> max_i64"
    using row c by (simp_all add: budget_row_ok_def binding_limit_def)
  note size = lease_size_bounds [OF lims price n_def out(1)]
  have dist: "distinct (map bg_binding_id (xd_binding_budgets db))" using ok by (simp add: external_db_ok_def)
  have keys: "map bg_binding_id ?rows = map bg_binding_id (xd_binding_budgets db)" by (rule map_upd_where) (simp add: f_def)
  have found: "find (\<lambda>r. bg_binding_id r = j) ?rows = (if j = i then Some (f x) else find (\<lambda>r. bg_binding_id r = j) (xd_binding_budgets db))" for j
    by (rule find_update_at [where key = bg_binding_id and P = "by_binding tenant i", OF dist mem(1,3,2)]) (simp_all add: by_binding_def f_def)
  have mine: "find (\<lambda>r. bg_binding_id r = i) (xd_binding_budgets db) = Some x" using find_key [OF dist mem(1)] mem(3) by simp
  have nopol: "find (\<lambda>r. xp_ID r = i) (xd_policies db) = None"
    using ok mem by (auto simp: external_db_ok_def find_None_iff)
  have counted: "budget_of a g db' = bump_at i (g (f x) - g x) (budget_of a g db)" for a g
    by (rule ext) (simp add: budget_of_def out(2) found bump_at_def mine nopol split: option.splits)
  have fx: "budget_row_ok env db (f x)"
    using lims size out(1) c by (simp add: budget_row_ok_def binding_limit_def binding_config_def f_def)
  have "budget_row_ok env db r" if "r \<in> set ?rows" for r
    using that
  proof (rule upd_where_cases)
    fix q
    assume q: "q \<in> set (xd_binding_budgets db)" "by_binding tenant i q" "r = f q"
    then have "q = x" using mem dist by (auto simp: by_binding_def distinct_map inj_on_def)
    then show ?thesis using q fx by simp
  qed (use ok in \<open>simp add: external_db_ok_def\<close>)
  moreover have "bg_binding_id ` set ?rows = bg_binding_id ` set (xd_binding_budgets db)" using keys by (metis set_map)
  ultimately have "external_db_ok env db'"
    using ok keys budget_row_ok_cong [of db' db env] by (simp add: external_db_ok_def out(2))
  moreover have "valid_lease l" using out price size by (simp add: valid_lease_def)
  ultimately show ?thesis by (simp add: external_cost_def external_requests_def counted out(4)) (simp add: f_def)
qed

lemma EvaluateOverflow_frame:
  assumes "EvaluateOverflow new_id db tenant deploymentID signal budget now = (res, db')"
  shows "xd_policies db' = xd_policies db" "xd_bindings db' = xd_bindings db" "xd_binding_budgets db' = xd_binding_budgets db"
  using assms by (auto simp: EvaluateOverflow_def commit_tx_def Let_def split: option.splits sum.splits if_splits prod.splits)

definition reserved_in :: "(ext_policy \<Rightarrow> int) \<Rightarrow> ext_policy list \<Rightarrow> string \<Rightarrow> int" where
  "reserved_in a rows i = (case find (\<lambda>r. xp_ID r = i) rows of None \<Rightarrow> 0 | Some r \<Rightarrow> a r)"

lemma find_append: "find P (xs @ ys) = (case find P xs of None \<Rightarrow> find P ys | Some x \<Rightarrow> Some x)"
  by (induction xs) auto

lemma upsert_policy_rows:
  assumes up: "upsert_policy p stamp rows = Inr rows'" and dist: "distinct (map xp_ID rows)" and old: "\<forall>r \<in> set rows. policy_row_ok r"
    and lim: "xp_CostLimitMicrousd p \<le> max_i64" "xp_RequestLimit p \<le> max_i64"
  shows "distinct (map xp_ID rows') \<and> (\<forall>r \<in> set rows'. policy_row_ok r) \<and> xp_ID ` set rows' \<subseteq> insert (xp_ID p) (xp_ID ` set rows) \<and>
    (\<forall>i. reserved_in xp_CostReservedMicrousd rows' i = reserved_in xp_CostReservedMicrousd rows i \<and>
         reserved_in xp_RequestsReserved rows' i = reserved_in xp_RequestsReserved rows i)"
proof -
  define here where "here = same_deployment (xp_TenantID p) (xp_DeploymentID p)"
  define renew where "renew = (\<lambda>r :: ext_policy. p\<lparr>xp_ID := xp_ID r, xp_RequestsReserved := xp_RequestsReserved r,
    xp_CostReservedMicrousd := xp_CostReservedMicrousd r, xp_CreatedAt := xp_CreatedAt r, xp_UpdatedAt := stamp\<rparr>)"
  define new where "new = p\<lparr>xp_RequestsReserved := 0, xp_CostReservedMicrousd := 0, xp_CreatedAt := stamp, xp_UpdatedAt := stamp\<rparr>"
  have up': "(if list_ex here rows
        then (if list_all policy_check (upd_where here renew rows) then Inr (upd_where here renew rows) else Inl (ErrOther ''check constraint''))
      else if list_ex (\<lambda>r. xp_ID r = xp_ID p) rows then Inl (ErrOther ''duplicate key'')
      else if \<not> policy_check new then Inl (ErrOther ''check constraint'')
      else Inr (rows @ [new])) = Inr rows'"
    using up unfolding upsert_policy_def Let_def here_def renew_def new_def .
  show ?thesis
  proof (cases "list_ex here rows")
    case True
    then have rows': "rows' = upd_where here renew rows" "list_all policy_check rows'" using up' by (auto split: if_splits)
    have keys: "map xp_ID rows' = map xp_ID rows" unfolding rows'(1) by (rule map_upd_where) (simp add: renew_def)
    have found: "find (\<lambda>r. xp_ID r = i) rows' = map_option (\<lambda>r. if here r then renew r else r) (find (\<lambda>r. xp_ID r = i) rows)" for i
      unfolding rows'(1) by (rule find_upd_where) (simp add: renew_def)
    have "policy_row_ok r" if "r \<in> set rows'" for r
      using that rows' old lim by (auto simp: policy_row_ok_def list_all_iff renew_def elim!: upd_where_cases)
    moreover have "xp_ID ` set rows' = xp_ID ` set rows" using keys by (metis set_map)
    moreover have "reserved_in a rows' i = reserved_in a rows i" if "\<And>r. a (renew r) = a r" for a i
      using that by (auto simp: reserved_in_def found split: option.splits)
    ultimately show ?thesis using dist keys by (auto simp: renew_def)
  next
    case False
    then have rows': "rows' = rows @ [new]" "policy_check new" "xp_ID p \<notin> xp_ID ` set rows"
      using up' by (auto simp: list_ex_iff split: if_splits)
    have id: "xp_ID new = xp_ID p" by (simp add: new_def)
    moreover have "reserved_in a rows' i = reserved_in a rows i" if "a new = 0" for a i
      using that by (auto simp: reserved_in_def rows'(1) find_append split: option.splits)
    ultimately show ?thesis using rows' dist old lim by (auto simp: policy_row_ok_def new_def)
  qed
qed

lemma upsert_keeps_ids: "upsert_policy p stamp rows = Inr rows' \<Longrightarrow> xp_ID ` set rows \<subseteq> xp_ID ` set rows'"
proof -
  assume up: "upsert_policy p stamp rows = Inr rows'"
  have "map xp_ID (upd_where P (\<lambda>r. p\<lparr>xp_ID := xp_ID r, xp_RequestsReserved := xp_RequestsReserved r,
      xp_CostReservedMicrousd := xp_CostReservedMicrousd r, xp_CreatedAt := xp_CreatedAt r, xp_UpdatedAt := stamp\<rparr>) rows) = map xp_ID rows" for P
    by (rule map_upd_where) simp
  from this [THEN arg_cong [where f = set]] show ?thesis
    using up by (auto simp: upsert_policy_def Let_def split: if_splits)
qed

lemma budget_of_reserved:
  "budget_of a g db i = (if i \<in> xp_ID ` set (xd_policies db) then reserved_in a (xd_policies db) i
     else case find (\<lambda>x. bg_binding_id x = i) (xd_binding_budgets db) of Some x \<Rightarrow> g x | None \<Rightarrow> 0)"
proof (cases "find (\<lambda>p. xp_ID p = i) (xd_policies db)")
  case None
  then have "i \<notin> xp_ID ` set (xd_policies db)" by (auto simp: find_None_iff)
  then show ?thesis using None by (simp add: budget_of_def)
next
  case (Some p)
  have "p \<in> set (xd_policies db)" "xp_ID p = i" using find_SomeD [OF Some] by simp_all
  then show ?thesis by (auto simp: budget_of_def reserved_in_def Some)
qed

lemma reserved_in_absent: "i \<notin> xp_ID ` set rows \<Longrightarrow> reserved_in a rows i = 0"
proof -
  assume "i \<notin> xp_ID ` set rows"
  then have "find (\<lambda>r. xp_ID r = i) rows = None" by (auto simp: find_None_iff)
  then show ?thesis by (simp add: reserved_in_def)
qed

lemma budget_of_cong:
  "xd_policies db' = xd_policies db \<Longrightarrow> xd_binding_budgets db' = xd_binding_budgets db \<Longrightarrow> budget_of a g db' = budget_of a g db"
  by (rule ext) (simp add: budget_of_def cong: option.case_cong)

lemma set_policy_db:
  assumes "SetExternalTargetPolicyForTenant env (Some i) stamp db p = (res, db')" "xp_ID p = ''''"
  shows "db' = db \<or> (\<exists>rows. upsert_policy ((policy_defaults p)\<lparr>xp_ID := i\<rparr>) stamp (xd_policies db) = Inr rows \<and> db' = db\<lparr>xd_policies := rows\<rparr>)"
proof (cases "policy_refusal (policy_defaults p)")
  case None
  have id: "xp_ID (policy_defaults p) = ''''" using assms(2) by (simp add: policy_defaults_def)
  show ?thesis
    using assms(1) id None
    by (cases "upsert_policy ((policy_defaults p)\<lparr>xp_ID := i\<rparr>) stamp (xd_policies db)")
      (simp_all add: SetExternalTargetPolicyForTenant_def Let_def commit_tx_def split: if_splits)
qed (use assms in \<open>simp add: SetExternalTargetPolicyForTenant_def Let_def\<close>)

lemma set_policy_configures:
  assumes ok: "external_db_ok env db" and new: "xp_ID p = ''''" "i \<notin> bg_binding_id ` set (xd_binding_budgets db)"
    and lim: "xp_CostLimitMicrousd p \<le> max_i64" "xp_RequestLimit p \<le> max_i64"
    and set: "SetExternalTargetPolicyForTenant env (Some i) stamp db p = (res, db')"
  shows "external_db_ok env db' \<and> external_cost db' = external_cost db \<and> external_requests db' = external_requests db"
proof -
  define q where "q = (policy_defaults p)\<lparr>xp_ID := i\<rparr>"
  have q: "xp_ID q = i" "xp_CostLimitMicrousd q \<le> max_i64" "xp_RequestLimit q \<le> max_i64"
    using lim by (simp_all add: q_def policy_defaults_def)
  consider "db' = db" | rows where "upsert_policy q stamp (xd_policies db) = Inr rows" "db' = db\<lparr>xd_policies := rows\<rparr>"
    using set_policy_db [OF set new(1)] unfolding q_def by blast
  then show ?thesis
  proof cases
    case (2 rows)
    have old: "distinct (map xp_ID (xd_policies db))" "\<forall>r \<in> set (xd_policies db). policy_row_ok r"
      using ok by (simp_all add: external_db_ok_def)
    note rows = upsert_policy_rows [OF 2(1) old q(2,3)]
    have same: "budget_of a g db' = budget_of a g db"
      if r: "\<And>j. reserved_in a rows j = reserved_in a (xd_policies db) j" for a g
    proof
      fix j
      have "find (\<lambda>x. bg_binding_id x = j) (xd_binding_budgets db) = None" if "j \<in> xp_ID ` set rows" "j \<notin> xp_ID ` set (xd_policies db)"
      proof -
        have "j = i" using that rows q(1) by blast
        then show ?thesis using new(2) by (auto simp: find_None_iff)
      qed
      moreover have "xp_ID ` set rows \<supseteq> xp_ID ` set (xd_policies db)"
        using upsert_keeps_ids [OF 2(1)] .
      ultimately show "budget_of a g db' j = budget_of a g db j"
        using r reserved_in_absent [of j "xd_policies db" a] by (auto simp: budget_of_reserved 2(2))
    qed
    have "xp_ID ` set rows \<inter> bg_binding_id ` set (xd_binding_budgets db) = {}"
      using ok rows new(2) unfolding q(1) external_db_ok_def by blast
    then have "external_db_ok env db'"
      using ok rows budget_row_ok_cong [of db' db env] by (simp add: external_db_ok_def 2(2))
    then show ?thesis using rows same by (simp add: external_cost_def external_requests_def)
  qed (use ok in simp)
qed

interpretation external: budget_source "external_grant env" "external_configure env" "external_db_ok env" external_cost external_requests
    "external_cost_limit env" "external_request_limit env" for env
proof
  fix db i
  assume ok: "external_db_ok env db"
  show "0 \<le> external_cost db i \<and> external_cost db i \<le> external_cost_limit env db i \<and> external_cost_limit env db i \<le> max_i64 \<and>
      0 \<le> external_requests db i \<and> external_requests db i \<le> external_request_limit env db i \<and> external_request_limit env db i \<le> max_i64"
    using ok unfolding external_cost_def external_requests_def external_cost_limit_def external_request_limit_def budget_of_def
    by (auto simp: external_db_ok_def policy_row_ok_def policy_check_def budget_row_ok_def max_i64_def split: option.splits dest!: find_SomeD)
next
  fix db l db'
  assume "external_db_ok env db" "external_grant env db l db'"
  then show "external_db_ok env db' \<and> valid_lease l \<and>
      external_cost db' = bump_at (bl_PolicyID l) (bl_ReservedCostMicrousd l) (external_cost db) \<and>
      external_requests db' = bump_at (bl_PolicyID l) (bl_Requests l) (external_requests db)"
    unfolding external_grant_def run_refill_def
    by (elim exE, split refill.split_asm) (blast dest: lease_policy_grant lease_binding_grant)+
next
  fix db db'
  assume ok: "external_db_ok env db" and "external_configure env db db'"
  then consider i stamp p res where "xp_ID p = ''''" "xp_CostLimitMicrousd p \<le> max_i64" "xp_RequestLimit p \<le> max_i64"
      "i \<notin> bg_binding_id ` set (xd_binding_budgets db)" "SetExternalTargetPolicyForTenant env (Some i) stamp db p = (res, db')"
    | new_id tenant dep signal budget now res where "EvaluateOverflow new_id db tenant dep signal budget now = (res, db')"
    by (auto simp: external_configure_def)
  then show "external_db_ok env db' \<and> external_cost db' = external_cost db \<and> external_requests db' = external_requests db"
  proof cases
    case 1
    then show ?thesis using set_policy_configures [OF ok] by blast
  next
    case 2
    note frame = EvaluateOverflow_frame [OF 2]
    show ?thesis using ok budget_row_ok_cong [OF frame(2), of env]
      by (simp add: external_db_ok_def external_cost_def external_requests_def budget_of_cong [OF frame(1,3)] frame)
  qed
qed

text \<open>C27.
  The hard budget. However many processes share a policy, whenever they refill, restart or lose
  leases, and however the policy is reconfigured meanwhile, the requests authorized under a policy
  never cost more than its limit and never are more than its limit on requests, both as they stand
  now; the same holds for a managed external binding.
\<close>

theorem hard_budget_never_exceeded:
  assumes "(budget_step (external_grant env) (external_configure env))\<^sup>*\<^sup>* (db0, [], (\<lambda>_. 0), (\<lambda>_. 0)) (db, processes, C, R)"
    and "external_db_ok env db0"
  shows "(\<forall>p \<in> set (xd_policies db). C (xp_ID p) \<le> xp_CostReservedMicrousd p \<and> xp_CostReservedMicrousd p \<le> xp_CostLimitMicrousd p \<and>
      R (xp_ID p) \<le> xp_RequestsReserved p \<and> xp_RequestsReserved p \<le> xp_RequestLimit p) \<and>
    (\<forall>x \<in> set (xd_binding_budgets db). \<forall>c. binding_config env db x = Some c \<longrightarrow>
      C (bg_binding_id x) \<le> bc_CostLimitMicrousd c \<and> R (bg_binding_id x) \<le> bc_RequestLimit c)"
proof -
  note spent = external.spending_within_limits [OF assms]
  have ok: "external_db_ok env db" by (rule spent(1))
  have "C (xp_ID p) \<le> xp_CostReservedMicrousd p \<and> R (xp_ID p) \<le> xp_RequestsReserved p \<and> policy_row_ok p" if "p \<in> set (xd_policies db)" for p
    using spent(2,3) [of "xp_ID p"] ok that find_key [of xp_ID "xd_policies db" p]
    by (simp add: external_db_ok_def external_cost_def external_requests_def budget_of_def)
  moreover have "C (bg_binding_id x) \<le> bc_CostLimitMicrousd c \<and> R (bg_binding_id x) \<le> bc_RequestLimit c"
    if "x \<in> set (xd_binding_budgets db)" "binding_config env db x = Some c" for x c
  proof -
    have found: "find (\<lambda>y. bg_binding_id y = bg_binding_id x) (xd_binding_budgets db) = Some x"
      using find_key [of bg_binding_id "xd_binding_budgets db" x] ok that(1) by (simp add: external_db_ok_def)
    have "find (\<lambda>p. xp_ID p = bg_binding_id x) (xd_policies db) = None"
      using ok that(1) by (auto simp: external_db_ok_def find_None_iff)
    then show ?thesis using spent(2,3) [of "bg_binding_id x"] ok that found
      by (auto simp: external_cost_def external_requests_def budget_of_def external_db_ok_def budget_row_ok_def binding_limit_def)
  qed
  ultimately show ?thesis by (auto simp: policy_row_ok_def policy_check_def)
qed

section \<open>The coordinator\<close>

definition zero_snapshot :: snapshot where
  "zero_snapshot =
     \<lparr>sn_DeploymentID = '''', sn_TargetID = '''', sn_RevisionID = '''', sn_TenantID = '''', sn_Alias = '''', sn_UpstreamModel = '''',
      sn_RouterURL = '''', sn_RouterProcessID = '''', sn_Provider = '''', sn_ProviderResourceID = '''', sn_Runtime = '''',
      sn_ComputeMode = '''', sn_UpstreamAPIKey = '''', sn_ExternalPolicyID = '''', sn_SelectionReason = '''', sn_ProviderWorkers = None,
      sn_ProviderObservedAt = 0, sn_LogicalModelID = '''', sn_EnvironmentID = '''', sn_EndpointID = '''', sn_ServingPlanID = '''',
      sn_BindingID = '''', sn_RoutingWeight = 0,
      sn_ProtocolCapabilities = \<lparr>pcap_ChatCompletions = False, pcap_Responses = False, pcap_Embeddings = False, pcap_Batch = False,
        pcap_Completions = False, pcap_Streaming = False, pcap_ToolCalling = False\<rparr>\<rparr>"

text \<open>
  The coordinator's configuration, with the secret store and the health probe it asks as functions:
  \<open>co_secret\<close> is the stored reference of a secret, \<open>co_credential\<close> its resolution, \<open>co_health\<close> the check of
  a target with a credential (an error or nothing).
\<close>

record coordinator =
  co_Store :: bool
  co_Secrets :: bool
  co_Budgets :: bool
  co_Adapters :: "string list"
  co_LeaseBatch :: int
  co_secret :: "string \<Rightarrow> string \<Rightarrow> store_error + string"
  co_credential :: "string \<Rightarrow> store_error + string"
  co_health :: "target \<Rightarrow> string \<Rightarrow> store_error option"

definition co_adapters :: "coordinator \<Rightarrow> string list" where
  "co_adapters c = (if co_Adapters c \<noteq> [] then co_Adapters c
     else [''openai-compatible-external'', ''openrouter'', ''modal'', ''runpod-serverless-api'', ''fly-io''])"

definition Owns :: "coordinator \<Rightarrow> string \<Rightarrow> bool" where
  "Owns c provider \<longleftrightarrow> provider \<in> set (co_adapters c)"

definition lease_batch :: "coordinator \<Rightarrow> int" where
  "lease_batch c = (if co_LeaseBatch c < 1 \<or> co_LeaseBatch c > 256 then 256 else co_LeaseBatch c)"

text \<open>Registering the refill and, with an empty pool, leasing a first batch.\<close>

definition ensure_budget ::
  "external_env \<Rightarrow> gotime \<Rightarrow> coordinator \<Rightarrow> string \<Rightarrow> refill \<Rightarrow> external_db \<Rightarrow> refill budget_pool \<Rightarrow>
   store_error option \<times> external_db \<times> refill budget_pool" where
  "ensure_budget env stamp c policyID r db pool =
     (let pool1 = RegisterRefill policyID (quot (lease_batch c) 2) (Some r) pool in
      if budget_Remaining pool1 policyID \<noteq> 0 then (None, db, pool1)
      else case run_refill env stamp r db of
          (Inl e, db') \<Rightarrow> (Some e, db', pool1)
        | (Inr lease, db') \<Rightarrow>
            (case budget_Add lease pool1 of
               (Some e, pool2) \<Rightarrow> (Some (ErrOther e), db', pool2)
             | (None, pool2) \<Rightarrow> (None, db', pool2)))"

definition with_credential :: "coordinator \<Rightarrow> string \<Rightarrow> string \<Rightarrow> target \<Rightarrow> store_error + string" where
  "with_credential c tenant secretID target =
     bind_err (co_secret c tenant secretID) (\<lambda>reference.
     bind_err (co_credential c reference) (\<lambda>apiKey.
     case co_health c target apiKey of Some e \<Rightarrow> Inl e | None \<Rightarrow> Inr apiKey))"

definition co_Resolve ::
  "external_env \<Rightarrow> gotime \<Rightarrow> coordinator \<Rightarrow> dep \<Rightarrow> target list \<Rightarrow> external_db \<Rightarrow> refill budget_pool \<Rightarrow>
   (store_error + snapshot) \<times> external_db \<times> refill budget_pool" where
  "co_Resolve env stamp c deployment targets db pool =
     (if \<not> co_Store c \<or> \<not> co_Secrets c \<or> \<not> co_Budgets c
        then (Inl (ErrOther ''external fallback coordinator is not configured''), db, pool)
      else case ExternalTargetPolicyForDeployment db (dp_TenantID deployment) (dp_ID deployment) of
          Inl e \<Rightarrow> (Inl e, db, pool)
        | Inr policy \<Rightarrow>
            if \<not> xp_Enabled policy \<or> \<not> xp_PrivacyAcknowledged policy \<or> \<not> Owns c (xp_Adapter policy)
              then (Inl (ErrOther ''external fallback policy is disabled, unacknowledged, or unsupported''), db, pool)
            else case find (\<lambda>t. tg_ID t = xp_TargetID policy \<and> tg_Provider t = xp_Adapter policy) targets of
                None \<Rightarrow> (Inl (ErrOther ''external fallback target is not attached to the deployment''), db, pool)
              | Some target \<Rightarrow>
                  if tg_ID target = '''' then (Inl (ErrOther ''external fallback target is not attached to the deployment''), db, pool)
                  else case with_credential c (dp_TenantID deployment) (xp_SecretReferenceID policy) target of
                      Inl e \<Rightarrow> (Inl e, db, pool)
                    | Inr apiKey \<Rightarrow>
                        (case ensure_budget env stamp c (xp_ID policy)
                                (Refill_Policy (dp_TenantID deployment) (xp_ID policy) (lease_batch c)) db pool of
                           (Some e, db', pool') \<Rightarrow> (Inl e, db', pool')
                         | (None, db', pool') \<Rightarrow>
                             (Inr (zero_snapshot\<lparr>sn_DeploymentID := dp_ID deployment, sn_TargetID := tg_ID target,
                                sn_RevisionID := dp_ActiveRevisionID deployment, sn_TenantID := dp_TenantID deployment,
                                sn_Alias := dp_Name deployment,
                                sn_UpstreamModel := (if tg_UpstreamModel target = '''' then dp_Model deployment else tg_UpstreamModel target),
                                sn_RouterURL := tg_URL target, sn_Provider := xp_Adapter policy,
                                sn_ProviderResourceID := tg_ProviderResourceID target, sn_Runtime := tg_Runtime target,
                                sn_ComputeMode := ''external'', sn_UpstreamAPIKey := apiKey, sn_ExternalPolicyID := xp_ID policy,
                                sn_SelectionReason := ''all primary targets are unhealthy; explicit external fallback policy selected''\<rparr>),
                              db', pool')))"

definition co_ResolveBinding ::
  "external_env \<Rightarrow> gotime \<Rightarrow> coordinator \<Rightarrow> endpoint \<Rightarrow> backend_binding \<Rightarrow> target \<Rightarrow> external_db \<Rightarrow> refill budget_pool \<Rightarrow>
   (store_error + snapshot) \<times> external_db \<times> refill budget_pool" where
  "co_ResolveBinding env stamp c endpoint binding target db pool =
     (if \<not> co_Store c \<or> \<not> co_Secrets c \<or> \<not> co_Budgets c
        then (Inl (ErrOther ''managed external binding coordinator is not configured''), db, pool)
      else case ManagedExternalBindingPolicy env db (en_TenantID endpoint) (bb_ID binding) of
          Inl e \<Rightarrow> (Inl e, db, pool)
        | Inr policy \<Rightarrow>
            if \<not> xp_Enabled policy \<or> \<not> xp_PrivacyAcknowledged policy \<or> \<not> Owns c (xp_Adapter policy)
              then (Inl (ErrOther ''managed external binding is disabled, unacknowledged, or unsupported''), db, pool)
            else if xp_TargetID policy \<noteq> tg_ID target \<or> xp_Adapter policy \<noteq> tg_Provider target
              then (Inl (ErrOther ''managed external binding target does not match its immutable policy''), db, pool)
            else case with_credential c (en_TenantID endpoint) (xp_SecretReferenceID policy) target of
                Inl e \<Rightarrow> (Inl e, db, pool)
              | Inr apiKey \<Rightarrow>
                  (case ensure_budget env stamp c (bb_ID binding)
                          (Refill_Binding (en_TenantID endpoint) (bb_ID binding) (lease_batch c)) db pool of
                     (Some e, db', pool') \<Rightarrow> (Inl e, db', pool')
                   | (None, db', pool') \<Rightarrow>
                       (Inr (zero_snapshot\<lparr>sn_TenantID := en_TenantID endpoint, sn_Alias := en_Name endpoint, sn_TargetID := tg_ID target,
                          sn_UpstreamModel := tg_UpstreamModel target, sn_RouterURL := tg_URL target, sn_Provider := xp_Adapter policy,
                          sn_ProviderResourceID := tg_ProviderResourceID target, sn_Runtime := tg_Runtime target,
                          sn_ComputeMode := ''external'', sn_UpstreamAPIKey := apiKey, sn_ExternalPolicyID := bb_ID binding,
                          sn_SelectionReason := ''explicit authenticated external endpoint binding selected''\<rparr>), db', pool')))"

definition budget_available :: "coordinator \<Rightarrow> refill budget_pool \<Rightarrow> ext_policy \<Rightarrow> bool" where
  "budget_available c pool policy \<longleftrightarrow> co_Budgets c \<and> budget_Remaining pool (xp_ID policy) > 0 \<or>
     xp_RequestsReserved policy < xp_RequestLimit policy \<and> xp_CostReservedMicrousd policy < xp_CostLimitMicrousd policy"

definition co_ResolveHybrid ::
  "external_env \<Rightarrow> string option \<Rightarrow> coordinator \<Rightarrow> dep \<Rightarrow> target list \<Rightarrow> overflow_signal \<Rightarrow> gotime \<Rightarrow> external_db \<Rightarrow> refill budget_pool \<Rightarrow>
   (store_error + snapshot \<times> overflow_decision) \<times> external_db \<times> refill budget_pool" where
  "co_ResolveHybrid env new_id c deployment targets signal now db pool =
     (case ExternalTargetPolicyForDeployment db (dp_TenantID deployment) (dp_ID deployment) of
        Inl e \<Rightarrow> (Inl e, db, pool)
      | Inr policy \<Rightarrow>
          (case EvaluateOverflow new_id db (dp_TenantID deployment) (dp_ID deployment) signal (budget_available c pool policy) now of
             (Inl e, db1) \<Rightarrow> (Inl e, db1, pool)
           | (Inr decision, db1) \<Rightarrow>
               if ovd_Route decision \<noteq> ''external'' then (Inr (zero_snapshot, decision), db1, pool)
               else case co_Resolve env now c deployment targets db1 pool of
                   (Inl e, db2, pool2) \<Rightarrow> (Inl e, db2, pool2)
                 | (Inr route, db2, pool2) \<Rightarrow> (Inr (route\<lparr>sn_SelectionReason := ovd_Reason decision\<rparr>, decision), db2, pool2)))"

definition co_OverflowMode :: "external_db \<Rightarrow> dep \<Rightarrow> store_error + string" where
  "co_OverflowMode db deployment =
     (case ExternalTargetPolicyForDeployment db (dp_TenantID deployment) (dp_ID deployment) of
        Inl e \<Rightarrow> Inl e
      | Inr policy \<Rightarrow> if \<not> xp_Enabled policy then Inl (ErrOther ''external fallback policy is disabled'') else Inr (xp_OverflowMode policy))"

text \<open>
  The health check behind \<open>co_health\<close>, once the key of its cache could be drawn at random: a cache of recent successes, keyed by the target and the
  credential, in front of the inventory probe. The probe answers with a status and the models it
  decodes; \<open>cache\<close> maps keys to the time they are good until.
\<close>

datatype inventory = Probe_Failed string | Probe_Answer int "string list option"

definition cache_room :: "gotime \<Rightarrow> (string \<times> gotime) list \<Rightarrow> (string \<times> gotime) list" where
  "cache_room now cache = (if length cache \<ge> 4096 then filter (\<lambda>(k, until). until > now) cache else cache)"

definition co_healthy ::
  "bool \<Rightarrow> (target \<Rightarrow> string \<Rightarrow> inventory) \<Rightarrow> duration \<Rightarrow> gotime \<Rightarrow> target \<Rightarrow> string \<Rightarrow> (string \<times> gotime) list \<Rightarrow>
   store_error option \<times> (string \<times> gotime) list" where
  "co_healthy random probe ttl now target apiKey cache =
     (let key = tg_ID target @ [NUL] @ tg_URL target @ [NUL] @ tg_UpstreamModel target @ [NUL] @ apiKey in
      if \<not> random then (Some (ErrOther ''initialize external health cache: secure randomness is unavailable''), cache)
      else if (case map_of cache key of Some until \<Rightarrow> until > now | None \<Rightarrow> False) then (None, cache)
      else case probe target apiKey of
          Probe_Failed e \<Rightarrow> (Some (ErrOther e), cache)
        | Probe_Answer status models \<Rightarrow>
            if status < 200 \<or> status \<ge> 300 then (Some (ErrOther ''external target health check returned status''), cache)
            else case models of
                None \<Rightarrow> (Some (ErrOther ''external target returned an invalid model inventory''), cache)
              | Some ms \<Rightarrow>
                  if tg_UpstreamModel target = '''' then (Some (ErrOther ''external target requires an explicit upstream model mapping''), cache)
                  else if tg_UpstreamModel target \<notin> set ms then (Some (ErrOther ''external target does not expose configured model''), cache)
                  else let cache1 = cache_room now cache in
                    if length cache1 \<ge> 4096 then (None, cache1)
                    else (None, AList.update key (now + (if ttl \<le> 0 then 30 * Second else ttl)) cache1))"

lemma run_refill_refused: "run_refill env stamp r db = (Inl e, db') \<Longrightarrow> db' = db"
  by (auto simp: run_refill_def LeaseExternalBudget_def LeaseManagedExternalBindingBudget_def commit_tx_Inl
      split: refill.splits if_splits)

lemma run_refill_id:
  "run_refill env stamp r db = (Inr l, db') \<Longrightarrow> bl_PolicyID l = (case r of Refill_Policy t i n \<Rightarrow> i | Refill_Binding t i n \<Rightarrow> i)"
  by (auto simp: run_refill_def LeaseExternalBudget_def LeaseManagedExternalBindingBudget_def commit_tx_Inr Let_def
      split: refill.splits if_splits option.splits sum.splits)

definition idle_process :: "refill budget_pool \<Rightarrow> refill budget_process" where
  "idle_process pool = \<lparr>pr_pool = pool, pr_leased = {#}\<rparr>"

abbreviation external_step ::
  "external_env \<Rightarrow> (external_db, refill) budget_system \<Rightarrow> (external_db, refill) budget_system \<Rightarrow> bool" where
  "external_step env \<equiv> budget_step (external_grant env) (external_configure env)"

lemma single_add:
  "budget_Add l pool = (out, pool') \<Longrightarrow>
   budget_step grant configure (db, [\<lparr>pr_pool = pool, pr_leased = {#l#}\<rparr>], C, R) (db, [\<lparr>pr_pool = pool', pr_leased = {#}\<rparr>], C, R)"
  using budget_step.add [of 0 "[\<lparr>pr_pool = pool, pr_leased = {#l#}\<rparr>]" l out pool' grant configure db C R] by simp

lemma leased_pool:
  assumes ok: "external_db_ok env db" and lease: "run_refill env stamp r db = (Inr l, db')"
    and empty: "bl_Requests (bp_leases pool (bl_PolicyID l)) = 0" and add: "budget_Add l pool = (out, pool')"
  shows "out = None" "1 \<le> budget_Remaining pool' (bl_PolicyID l)"
proof -
  have grant: "external_grant env db l db'" using lease by (auto simp: external_grant_def)
  note counted = external.grant_counted [OF ok grant]
  have v: "valid_lease l" "external_db_ok env db'" using counted by simp_all
  have req: "external_requests db' (bl_PolicyID l) = external_requests db (bl_PolicyID l) + bl_Requests l"
    and cost: "external_cost db' (bl_PolicyID l) = external_cost db (bl_PolicyID l) + bl_ReservedCostMicrousd l"
    using counted by (simp_all add: bump_at_def)
  have product: "bl_Requests l * bl_MaxRequestCostMicrousd l = bl_ReservedCostMicrousd l" "1 \<le> bl_Requests l" "1 \<le> bl_MaxRequestCostMicrousd l"
    using v(1) by (simp_all add: valid_lease_def)
  have "1 \<le> bl_Requests l * bl_MaxRequestCostMicrousd l" using product(2,3) by (metis mult_mono mult_1 zero_le_one order_trans)
  then have small: "is_i64 (bl_Requests l)" "is_i64 (bl_ReservedCostMicrousd l)"
    using external.within_limits [OF ok, of "bl_PolicyID l"] external.within_limits [OF v(2), of "bl_PolicyID l"] req cost product
    by (auto simp: is_i64_def min_i64_def)
  show "out = None" "1 \<le> budget_Remaining pool' (bl_PolicyID l)"
    using add v(1) small product empty
    by (auto simp: budget_Add_def budget_Remaining_def Let_def i64_id valid_lease_def split: if_splits)
qed

text \<open>Ensuring the budget is a run of the shared system (register, lease, add), and leaves something in the pool.\<close>

lemma ensure_budget_run:
  assumes e: "ensure_budget env stamp c i r db pool = (res, db', pool')" and ok: "external_db_ok env db"
    and r: "i = (case r of Refill_Policy t i n \<Rightarrow> i | Refill_Binding t i n \<Rightarrow> i)"
  shows "(external_step env)\<^sup>*\<^sup>* (db, [idle_process pool], C, R) (db', [idle_process pool'], C, R) \<and>
    (res = None \<longrightarrow> budget_Remaining pool' i \<noteq> 0)"
proof -
  let ?pool1 = "RegisterRefill i (quot (lease_batch c) 2) (Some r) pool"
  have reg: "external_step env (db, [idle_process pool], C, R) (db, [idle_process ?pool1], C, R)"
    using budget_step.register [of 0 "[idle_process pool]"] by (simp add: idle_process_def)
  consider (full) "budget_Remaining ?pool1 i \<noteq> 0" "db' = db" "pool' = ?pool1"
    | (refused) err where "run_refill env stamp r db = (Inl err, db')" "pool' = ?pool1" "res \<noteq> None"
    | (leased) l out where "run_refill env stamp r db = (Inr l, db')" "budget_Add l ?pool1 = (out, pool')" "budget_Remaining ?pool1 i = 0"
    using e by (auto simp: ensure_budget_def Let_def split: if_splits prod.splits sum.splits option.splits)
  then show ?thesis
  proof cases
    case full
    then show ?thesis using reg by (auto intro: r_into_rtranclp)
  next
    case refused
    then show ?thesis using reg run_refill_refused [OF refused(1)] by (auto intro: r_into_rtranclp)
  next
    case leased
    have id: "bl_PolicyID l = i" using run_refill_id [OF leased(1)] r by simp
    have grant: "external_grant env db l db'" using leased(1) by (auto simp: external_grant_def)
    have "external_step env (db, [idle_process ?pool1], C, R) (db', [\<lparr>pr_pool = ?pool1, pr_leased = {#l#}\<rparr>], C, R)"
      using budget_step.lease [where grant = "external_grant env" and k = 0 and ps = "[idle_process ?pool1]"] grant
      by (simp add: idle_process_def)
    moreover have "external_step env (db', [\<lparr>pr_pool = ?pool1, pr_leased = {#l#}\<rparr>], C, R) (db', [idle_process pool'], C, R)"
      unfolding idle_process_def by (rule single_add [OF leased(2)])
    moreover have "1 \<le> budget_Remaining pool' i"
      using leased_pool(2) [OF ok leased(1) _ leased(2)] leased(3) id by (simp add: budget_Remaining_def)
    ultimately show ?thesis using reg by (auto intro: converse_rtranclp_into_rtranclp)
  qed
qed

text \<open>C28.
  Traffic leaves for external capacity only with authority. When the hybrid resolution selects an
  external route, the deployment has an enabled policy with privacy acknowledged, whose adapter this
  process owns; the route goes to the target of the policy, which is attached to the deployment and
  passed its health check with the credential the route carries; the pool has budget for the policy
  the route names; and what the resolution did to store and pool is a run of the shared budget system,
  so it counts against the hard budget.
\<close>

theorem external_route_has_authority:
  assumes run: "co_ResolveHybrid env new_id c deployment targets signal now db pool = (Inr (route, decision), db', pool')"
    and ext: "ovd_Route decision = ''external''" and ok: "external_db_ok env db"
  shows "\<exists>policy t. ExternalTargetPolicyForDeployment db (dp_TenantID deployment) (dp_ID deployment) = Inr policy \<and>
    xp_Enabled policy \<and> xp_PrivacyAcknowledged policy \<and> Owns c (xp_Adapter policy) \<and>
    t \<in> set targets \<and> tg_ID t = xp_TargetID policy \<and> tg_Provider t = xp_Adapter policy \<and> sn_RouterURL route = tg_URL t \<and>
    co_health c t (sn_UpstreamAPIKey route) = None \<and>
    sn_ExternalPolicyID route = xp_ID policy \<and> budget_Remaining pool' (xp_ID policy) \<noteq> 0 \<and>
    (external_step env)\<^sup>*\<^sup>* (db, [idle_process pool], C, R) (db', [idle_process pool'], C, R)"
proof -
  obtain policy db1 where pol: "ExternalTargetPolicyForDeployment db (dp_TenantID deployment) (dp_ID deployment) = Inr policy"
    and ev: "EvaluateOverflow new_id db (dp_TenantID deployment) (dp_ID deployment) signal (budget_available c pool policy) now = (Inr decision, db1)"
    and res: "\<exists>r. co_Resolve env now c deployment targets db1 pool = (Inr r, db', pool') \<and> route = r\<lparr>sn_SelectionReason := ovd_Reason decision\<rparr>"
    using run ext by (auto simp: co_ResolveHybrid_def split: sum.splits prod.splits if_splits)
  note frame = EvaluateOverflow_frame [OF ev]
  have conf: "external_configure env db db1" using ev by (auto simp: external_configure_def)
  have ok1: "external_db_ok env db1" using external.configure_keeps [OF ok conf] by simp
  have pol1: "ExternalTargetPolicyForDeployment db1 (dp_TenantID deployment) (dp_ID deployment) = Inr policy"
    using pol by (simp add: ExternalTargetPolicyForDeployment_def frame)
  obtain t key where t: "xp_Enabled policy" "xp_PrivacyAcknowledged policy" "Owns c (xp_Adapter policy)"
      "find (\<lambda>t. tg_ID t = xp_TargetID policy \<and> tg_Provider t = xp_Adapter policy) targets = Some t"
      "with_credential c (dp_TenantID deployment) (xp_SecretReferenceID policy) t = Inr key"
      "ensure_budget env now c (xp_ID policy) (Refill_Policy (dp_TenantID deployment) (xp_ID policy) (lease_batch c)) db1 pool = (None, db', pool')"
      "sn_RouterURL route = tg_URL t" "sn_UpstreamAPIKey route = key" "sn_ExternalPolicyID route = xp_ID policy"
    using res pol1 by (auto simp: co_Resolve_def split: if_splits option.splits sum.splits prod.splits)
  have health: "co_health c t key = None" using t(5) by (auto simp: with_credential_def bind_err_Inr split: option.splits)
  have "external_step env (db, [idle_process pool], C, R) (db1, [idle_process pool], C, R)" by (rule budget_step.configure) (rule conf)
  moreover have "(external_step env)\<^sup>*\<^sup>* (db1, [idle_process pool], C, R) (db', [idle_process pool'], C, R)"
      "budget_Remaining pool' (xp_ID policy) \<noteq> 0"
    using ensure_budget_run [OF t(6) ok1] by simp_all
  ultimately show ?thesis using pol t health find_SomeD [OF t(4)] by (blast intro: converse_rtranclp_into_rtranclp)
qed

section \<open>A pool can strand its requests\<close>

text \<open>
  The pool adds leases of different prices to one balance and then charges the newest price. After
  a rise of the price the balance may no longer cover one request while requests are still counted;
  then no authorization succeeds or starts a refill, and the coordinator, which leases only for an
  empty pool, does not lease either.
\<close>

lemma stranded_pool_stays:
  assumes "1 \<le> bl_Requests (bp_leases pool i)" "bl_ReservedCostMicrousd (bp_leases pool i) < bl_MaxRequestCostMicrousd (bp_leases pool i)"
  shows "budget_Authorize i pool = (None, None, pool)"
    "ensure_budget env stamp c i r db pool = (res, db', pool') \<Longrightarrow> res = None \<and> db' = db \<and> bp_leases pool' = bp_leases pool"
  using assms by (auto simp: budget_Authorize_def Let_def ensure_budget_def budget_Remaining_def RegisterRefill_def split: if_splits)

definition example_lease :: "int \<Rightarrow> int \<Rightarrow> budget_lease" where
  "example_lease n price = \<lparr>bl_PolicyID = ''p'', bl_Requests = n, bl_ReservedCostMicrousd = n * price, bl_MaxRequestCostMicrousd = price\<rparr>"

definition authorized :: "refill budget_pool \<Rightarrow> refill budget_pool" where
  "authorized pool = snd (snd (budget_Authorize ''p'' pool))"

definition added :: "budget_lease \<Rightarrow> refill budget_pool \<Rightarrow> refill budget_pool" where
  "added l pool = snd (budget_Add l pool)"

lemma price_rise_strands_requests:
  "bp_leases (authorized (authorized (added (example_lease 2 1000) (authorized (added (example_lease 2 10) NewBudgetPool))))) ''p'' =
     \<lparr>bl_PolicyID = ''p'', bl_Requests = 1, bl_ReservedCostMicrousd = 10, bl_MaxRequestCostMicrousd = 1000\<rparr>"
  by (simp add: authorized_def added_def budget_Authorize_def budget_Add_def example_lease_def NewBudgetPool_def no_lease_def
      prefetchLocked_def i64_def Let_def)

text \<open>The constraint of the policy table admits two of the adapters the store accepts; a policy for another is never stored.\<close>

lemma schema_rejects_supported_adapters:
  assumes "xp_Adapter p \<notin> {''openai-compatible-external'', ''openrouter''}"
  shows "\<exists>e. SetExternalTargetPolicyForTenant env new_id stamp db p = (Inl e, db)"
proof -
  have bad: "\<not> policy_check q" if "xp_Adapter q = xp_Adapter p" for q using that assms by (simp add: policy_check_def)
  have rows: "\<not> list_all policy_check (upd_where P f rows)" if "list_ex P rows" "\<And>r. xp_Adapter (f r) = xp_Adapter p" for P f rows
    using that bad by (force simp: list_all_iff list_ex_iff set_upd_where)
  have "\<exists>e. upsert_policy q stamp rows = Inl e" if "xp_Adapter q = xp_Adapter p" for q rows
    using bad rows [where f = "\<lambda>r :: ext_policy. q\<lparr>xp_ID := xp_ID r, xp_RequestsReserved := xp_RequestsReserved r,
      xp_CostReservedMicrousd := xp_CostReservedMicrousd r, xp_CreatedAt := xp_CreatedAt r, xp_UpdatedAt := stamp\<rparr>"] that
    by (simp add: upsert_policy_def Let_def)
  then obtain err where "\<And>q rows. xp_Adapter q = xp_Adapter p \<Longrightarrow> upsert_policy q stamp rows = Inl (err q rows)" by metis
  then have err: "upsert_policy ((policy_defaults p)\<lparr>xp_ID := i\<rparr>) stamp rows = Inl (err ((policy_defaults p)\<lparr>xp_ID := i\<rparr>) rows)"
    "upsert_policy (policy_defaults p) stamp rows = Inl (err (policy_defaults p) rows)" for i rows
    by (simp_all add: policy_defaults_def)
  show ?thesis
    by (cases "policy_refusal (policy_defaults p)"; cases new_id; cases "xp_ID (policy_defaults p) = ''''")
      (simp_all add: SetExternalTargetPolicyForTenant_def Let_def commit_tx_def err)
qed


section \<open>Examples\<close>

definition example_external_env :: external_env where
  "example_external_env = \<lparr>xe_deployment = (\<lambda>t d. True), xe_target = (\<lambda>t i a. True), xe_secret = (\<lambda>t s. True),
     xe_decode = (\<lambda>_. Inl ''''), xe_parse_time = (\<lambda>_. None)\<rparr>"

definition example_policy :: ext_policy where
  "example_policy =
     \<lparr>xp_ID = ''p'', xp_TenantID = ''t'', xp_DeploymentID = ''d'', xp_TargetID = ''x'', xp_Adapter = ''openrouter'',
      xp_SecretReferenceID = ''s'', xp_Enabled = True, xp_PrivacyAcknowledged = True, xp_RequestLimit = 3, xp_RequestsReserved = 0,
      xp_CostLimitMicrousd = 100, xp_MaxRequestCostMicrousd = 10, xp_CostReservedMicrousd = 0, xp_OverflowMode = ''health'',
      xp_QueueThreshold = None, xp_BreachIntervals = 1, xp_RecoveryIntervals = 2, xp_CooldownSeconds = 60, xp_SignalMaxAgeSeconds = 30,
      xp_CreatedAt = 1, xp_UpdatedAt = 1\<rparr>"

definition example_external_db :: external_db where
  "example_external_db = \<lparr>xd_policies = [example_policy], xd_bindings = [], xd_binding_budgets = [], xd_overflow_states = [],
     xd_overflow_decisions = []\<rparr>"

lemma example_external_ok: "external_db_ok example_external_env example_external_db"
  by (simp add: external_db_ok_def example_external_db_def policy_row_ok_def policy_check_def example_policy_def max_i64_def)

definition example_coordinator :: coordinator where
  "example_coordinator = \<lparr>co_Store = True, co_Secrets = True, co_Budgets = True, co_Adapters = [], co_LeaseBatch = 2,
     co_secret = (\<lambda>t s. Inr ''ref''), co_credential = (\<lambda>r. Inr ''key''), co_health = (\<lambda>t k. None)\<rparr>"

definition example_dep :: dep where
  "example_dep = \<lparr>dp_ID = ''d'', dp_TenantID = ''t'', dp_Name = ''m'', dp_Model = ''model'', dp_Runtime = ''vllm'', dp_RoutingStrategy = '''',
     dp_ComputeMode = '''', dp_ComputeConnectionID = '''', dp_ActiveRevisionID = ''r'', dp_CandidateRevisionID = '''',
     dp_DesiredState = '''', dp_ObservedState = ''''\<rparr>"

definition example_target :: target where
  "example_target = \<lparr>tg_ID = ''x'', tg_Name = ''x'', tg_URL = ''https://x'', tg_Provider = ''openrouter'', tg_Runtime = '''', tg_Health = '''',
     tg_UpstreamModel = ''model'', tg_ProviderResourceID = '''', tg_ProviderDetails = ''''\<rparr>"

definition example_hybrid :: "(store_error + snapshot \<times> overflow_decision) \<times> external_db \<times> refill budget_pool" where
  "example_hybrid = co_ResolveHybrid example_external_env (Some ''o'') example_coordinator example_dep [example_target]
     \<lparr>ovg_PrimaryHealthy = False, ovg_Waiting = None, ovg_ObservedAt = 0\<rparr> 5 example_external_db NewBudgetPool"

lemmas example_external_defs = example_hybrid_def example_external_env_def example_policy_def example_external_db_def example_coordinator_def
  example_dep_def example_target_def co_ResolveHybrid_def ExternalTargetPolicyForDeployment_def same_deployment_def EvaluateOverflow_def
  commit_tx_def overflow_row_def overflow_Evaluate_def overflow_Validate_def engine_policy_def health_decision_def hold_primary_def
  zero_overflow_def overflow_cooling_def is_zero_time_def budget_available_def material_decision_def co_Resolve_def Owns_def co_adapters_def
  with_credential_def ensure_budget_def run_refill_def LeaseExternalBudget_def by_id_def lease_size_def lease_batch_def upd_where_def
  policy_check_def budget_Add_def RegisterRefill_def budget_Remaining_def NewBudgetPool_def no_lease_def i64_def quot_def Let_def

lemma example_hybrid_external:
  "\<exists>route decision db pool. example_hybrid = (Inr (route, decision), db, pool) \<and> ovd_Route decision = ''external'' \<and>
     sn_RouterURL route = ''https://x'' \<and> map xp_RequestsReserved (xd_policies db) = [2] \<and> budget_Remaining pool ''p'' = 2"
  by (simp add: example_external_defs)

theorem external_route_has_authority_witness:
  "\<exists>route decision db pool policy. example_hybrid = (Inr (route, decision), db, pool) \<and>
     ExternalTargetPolicyForDeployment example_external_db ''t'' ''d'' = Inr policy \<and> xp_Enabled policy \<and>
     sn_ExternalPolicyID route = xp_ID policy \<and> budget_Remaining pool (xp_ID policy) \<noteq> 0"
proof -
  obtain route decision db pool where run: "example_hybrid = (Inr (route, decision), db, pool)" and ext: "ovd_Route decision = ''external''"
    using example_hybrid_external by blast
  have "dp_TenantID example_dep = ''t''" "dp_ID example_dep = ''d''" by (simp_all add: example_dep_def)
  then show ?thesis
    using external_route_has_authority [OF run [unfolded example_hybrid_def] ext example_external_ok] run by force
qed

text \<open>One process leases two requests and spends one.\<close>

lemma example_spending:
  "\<exists>db ps C. (external_step example_external_env)\<^sup>*\<^sup>* (example_external_db, [], (\<lambda>_. 0), (\<lambda>_. 0)) (db, ps, C, bump_at ''p'' 1 (\<lambda>_. 0)) \<and>
     C ''p'' = 10 \<and> map xp_RequestLimit (xd_policies db) = [3]"
proof -
  let ?step = "external_step example_external_env" and ?zero = "\<lambda>_. 0 :: int"
  obtain db pool where lease: "run_refill example_external_env 5 (Refill_Policy ''t'' ''p'' 2) example_external_db = (Inr (example_lease 2 10), db)"
    and db: "map xp_RequestLimit (xd_policies db) = [3]"
    by (simp add: example_external_defs example_lease_def)
  have grant: "external_grant example_external_env example_external_db (example_lease 2 10) db" using lease by (auto simp: external_grant_def)
  let ?pool = "added (example_lease 2 10) NewBudgetPool"
  have s1: "?step (example_external_db, [], ?zero, ?zero) (example_external_db, [idle_process NewBudgetPool], ?zero, ?zero)"
    using budget_step.start [of _ _ example_external_db "[]" ?zero ?zero] by (simp add: fresh_process_def idle_process_def)
  have s2: "?step (example_external_db, [idle_process NewBudgetPool], ?zero, ?zero)
      (db, [\<lparr>pr_pool = NewBudgetPool, pr_leased = {#example_lease 2 10#}\<rparr>], ?zero, ?zero)"
    using budget_step.lease [where grant = "external_grant example_external_env" and k = 0 and ps = "[idle_process NewBudgetPool]"] grant
    by (simp add: idle_process_def)
  have s3: "?step (db, [\<lparr>pr_pool = NewBudgetPool, pr_leased = {#example_lease 2 10#}\<rparr>], ?zero, ?zero) (db, [idle_process ?pool], ?zero, ?zero)"
    unfolding idle_process_def by (rule single_add) (simp add: added_def prod_eq_iff)
  obtain l spawned pool' where auth: "budget_Authorize ''p'' ?pool = (Some l, spawned, pool')" "bl_ReservedCostMicrousd l = 10"
    by (simp add: added_def budget_Authorize_def budget_Add_def example_lease_def NewBudgetPool_def no_lease_def prefetchLocked_def i64_def Let_def)
  have "?step (db, [idle_process ?pool], ?zero, ?zero) (db, [idle_process pool'], bump_at ''p'' 10 ?zero, bump_at ''p'' 1 ?zero)"
    using budget_step.authorize [of 0 "[idle_process ?pool]" "''p''" l spawned pool'] auth by (simp add: idle_process_def)
  with s1 s2 s3 have "?step\<^sup>*\<^sup>* (example_external_db, [], ?zero, ?zero) (db, [idle_process pool'], bump_at ''p'' 10 ?zero, bump_at ''p'' 1 ?zero)"
    by (meson rtranclp.rtrancl_into_rtrancl rtranclp.rtrancl_refl)
  then show ?thesis using db by (force simp: bump_at_def)
qed

theorem hard_budget_never_exceeded_witness:
  "\<exists>db ps C R. (external_step example_external_env)\<^sup>*\<^sup>* (example_external_db, [], (\<lambda>_. 0), (\<lambda>_. 0)) (db, ps, C, R) \<and>
     C ''p'' = 10 \<and> (\<forall>p \<in> set (xd_policies db). C (xp_ID p) \<le> xp_CostLimitMicrousd p)"
proof -
  obtain db ps C where run: "(external_step example_external_env)\<^sup>*\<^sup>* (example_external_db, [], (\<lambda>_. 0), (\<lambda>_. 0)) (db, ps, C, bump_at ''p'' 1 (\<lambda>_. 0))"
    and C: "C ''p'' = 10" using example_spending by blast
  have "\<forall>p \<in> set (xd_policies db). C (xp_ID p) \<le> xp_CostLimitMicrousd p"
    using hard_budget_never_exceeded [OF run example_external_ok] by force
  then show ?thesis using run C by blast
qed

end
