(* ===== verification/Campaign.thy ===== *)
theory Campaign
  imports Operation_Worker Go_Strings Float64
begin

text \<open>
  Optimization campaigns (\<open>internal/optimizationcampaign\<close> and their store in
  \<open>internal/store/optimization_campaigns.go\<close>): the state machine of a candidate and the summary of a
  campaign, the fenced transition of the store, the coordinator that advances a candidate by one durable
  boundary at a time, the ranking of the measured set, and the handlers that drive a whole campaign.
  The driver behind the coordinator (provisioning, benchmarks, quality, release guard, cleanup), the
  clock and whatever else happens between two boundaries are parameters.
\<close>


section \<open>States\<close>

definition candidateTransitions :: "(string \<times> string list) list" where
  "candidateTransitions =
     [(''proposed'', [''provisioning'', ''rejected'', ''cancelled'', ''failed'']),
      (''provisioning'', [''ready'', ''rejected'', ''cancelled'', ''failed'']),
      (''ready'', [''measuring'', ''rejected'', ''cancelled'', ''failed'']),
      (''measuring'', [''validating'', ''inconclusive'', ''rejected'', ''cancelled'', ''failed'']),
      (''validating'', [''ranked'', ''rejected'', ''inconclusive'', ''cancelled'', ''failed'']),
      (''ranked'', [''qualified'', ''guarding'', ''rejected'', ''inconclusive'', ''cancelled'', ''failed'']),
      (''qualified'', [''promoted'', ''rejected'', ''cancelled'', ''failed'']),
      (''guarding'', [''guard_passed'', ''rejected'', ''inconclusive'', ''cancelled'', ''failed'']),
      (''guard_passed'', [''promoted'', ''rejected'', ''cancelled'', ''failed'']),
      (''promoted'', [''observed'', ''failed'']),
      (''observed'', [''cleaned'']),
      (''rejected'', [''cleaned'']),
      (''inconclusive'', [''cleaned'']),
      (''failed'', [''cleaned'']),
      (''cancelled'', [''cleaned'']),
      (''cleaned'', [])]"

definition ValidateCandidateTransition :: "string \<Rightarrow> string \<Rightarrow> string option" where
  "ValidateCandidateTransition from to =
     (if from = to then None
      else case map_of candidateTransitions from of
          None \<Rightarrow> Some (''unknown candidate state '' @ from)
        | Some allowed \<Rightarrow>
            if to \<in> set allowed then None
            else Some (''illegal optimization candidate transition '' @ from @ '' -> '' @ to))"

definition EvidenceForState :: "string \<Rightarrow> string + string" where
  "EvidenceForState state =
     (if state \<in> set [''proposed'', ''provisioning'', ''ready'', ''measuring''] then Inr ''unmeasured''
      else if state \<in> set [''validating'', ''ranked'', ''guarding''] then Inr ''measured''
      else if state \<in> set [''qualified'', ''guard_passed'', ''promoted'', ''observed''] then Inr ''qualified''
      else if state = ''rejected'' then Inr ''rejected''
      else if state \<in> set [''inconclusive'', ''failed'', ''cancelled'', ''cleaned''] then Inr ''stale''
      else Inl ''unknown candidate state'')"

definition TerminalCandidate :: "string \<Rightarrow> bool" where
  "TerminalCandidate state \<longleftrightarrow>
     state \<in> set [''rejected'', ''inconclusive'', ''failed'', ''cancelled'', ''cleaned'', ''observed'']"

definition terminalWithoutCleanup :: "string \<Rightarrow> bool" where
  "terminalWithoutCleanup state \<longleftrightarrow> state \<in> set [''rejected'', ''inconclusive'', ''failed'', ''cancelled'']"

definition AggregateState :: "string list \<Rightarrow> string + string" where
  "AggregateState states =
     (if states = [] then Inl ''optimization campaign requires candidate state''
      else if list_ex (\<lambda>s. map_of candidateTransitions s = None) states then Inl ''unknown candidate state''
      else if ''promoted'' \<in> set states then Inr ''promoted''
      else if ''observed'' \<in> set states then Inr ''observed''
      else if ''guard_passed'' \<in> set states then Inr ''guard_passed''
      else if ''qualified'' \<in> set states then Inr ''qualified''
      else if ''ranked'' \<in> set states \<or> ''guarding'' \<in> set states then Inr ''ranked''
      else if list_all (\<lambda>s. s = ''cleaned'') states then Inr ''cleaned''
      else if \<not> list_all TerminalCandidate states then Inr ''running''
      else if ''failed'' \<in> set states then Inr ''failed''
      else if ''inconclusive'' \<in> set states then Inr ''inconclusive''
      else if list_all (\<lambda>s. s = ''cancelled'') states then Inr ''cancelled''
      else Inr ''rejected'')"


section \<open>The store\<close>

record candidate =
  cr_ID :: string
  cr_TenantID :: string
  cr_CampaignID :: string
  cr_ProposalCandidateID :: string
  cr_State :: string
  cr_EvidenceState :: string
  cr_DeploymentSpecJSON :: string
  cr_PredictedEvidenceJSON :: string
  cr_ActualEvidenceJSON :: string
  cr_DeploymentName :: string
  cr_RevisionID :: string
  cr_BenchmarkID :: string
  cr_QualityEvidenceID :: string
  cr_LabEvaluationID :: string
  cr_ReleaseGuardEvaluationID :: string
  cr_FailureCode :: string
  cr_OptimizedArtifactID :: string
  cr_Rank :: int
  cr_UpdatedAt :: gotime

record campaign =
  cg_ID :: string
  cg_TenantID :: string
  cg_IdempotencyKey :: string
  cg_InputDigest :: string
  cg_ModelIdentity :: string
  cg_Objective :: string
  cg_Source :: string
  cg_Intent :: string
  cg_TargetDeployment :: string
  cg_State :: string
  cg_ProposalJSON :: string
  cg_ApprovedBy :: string
  cg_MaxCandidates :: int
  cg_ApprovedMaxCostUSD :: "f64 option"
  cg_ApprovalExpiresAt :: "gotime option"
  cg_CancelRequested :: bool

record campaign_db =
  gd_campaigns :: "campaign list"
  gd_candidates :: "candidate list"

text \<open>A candidate with nothing set: the zero value the callers pass as updates.\<close>

definition no_updates :: candidate where
  "no_updates = \<lparr>cr_ID = '''', cr_TenantID = '''', cr_CampaignID = '''', cr_ProposalCandidateID = '''', cr_State = '''',
     cr_EvidenceState = '''', cr_DeploymentSpecJSON = '''', cr_PredictedEvidenceJSON = '''', cr_ActualEvidenceJSON = '''',
     cr_DeploymentName = '''', cr_RevisionID = '''', cr_BenchmarkID = '''', cr_QualityEvidenceID = '''', cr_LabEvaluationID = '''',
     cr_ReleaseGuardEvaluationID = '''', cr_FailureCode = '''', cr_OptimizedArtifactID = '''', cr_Rank = 0, cr_UpdatedAt = 0\<rparr>"

text \<open>What the store looks up elsewhere: the JSON check, deployment revisions, built artifacts, and deployments.\<close>

record artifact =
  at_State :: string
  at_BaseModelArtifactID :: string
  at_EvidenceState :: string
  at_QualityEvidenceID :: string

record campaign_env =
  ce_json :: "string \<Rightarrow> bool"
  ce_revision :: "string \<Rightarrow> string \<Rightarrow> (string \<times> string) option"
  ce_artifact :: "string \<Rightarrow> string \<Rightarrow> store_error + artifact"
  ce_deployment_model :: "string \<Rightarrow> string \<Rightarrow> string option"
  ce_same_json :: "string \<Rightarrow> string \<Rightarrow> bool"

definition boundedJSON :: "campaign_env \<Rightarrow> string \<Rightarrow> bool" where
  "boundedJSON env value \<longleftrightarrow> length value > 0 \<and> length value \<le> 2 ^ 20 \<and> ce_json env value"

definition campaign_at :: "string \<Rightarrow> string \<Rightarrow> campaign \<Rightarrow> bool" where
  "campaign_at tenant campaignID g \<longleftrightarrow> cg_TenantID g = tenant \<and> cg_ID g = campaignID"

definition candidates_of :: "campaign_db \<Rightarrow> string \<Rightarrow> string \<Rightarrow> candidate list" where
  "candidates_of db tenant campaignID =
     sort_key cr_Rank (filter (\<lambda>c. cr_TenantID c = tenant \<and> cr_CampaignID c = campaignID) (gd_candidates db))"

definition OptimizationCampaign :: "campaign_db \<Rightarrow> string \<Rightarrow> string \<Rightarrow> store_error + campaign \<times> candidate list" where
  "OptimizationCampaign db tenant campaignID =
     (case find (campaign_at tenant campaignID) (gd_campaigns db) of
        None \<Rightarrow> Inl ErrNotFound
      | Some g \<Rightarrow> Inr (g, candidates_of db tenant campaignID))"

text \<open>The evidence a transition has to bring, before the store looks at the candidate.\<close>

definition transition_refusal :: "campaign_env \<Rightarrow> string \<Rightarrow> string \<Rightarrow> candidate \<Rightarrow> string option" where
  "transition_refusal env from to updates =
     (case ValidateCandidateTransition from to of Some e \<Rightarrow> Some e
      | None \<Rightarrow>
          if cr_ActualEvidenceJSON updates \<noteq> '''' \<and> \<not> boundedJSON env (cr_ActualEvidenceJSON updates)
            then Some ''actual evidence must be bounded valid JSON''
          else case EvidenceForState to of Inl e \<Rightarrow> Some e
          | Inr _ \<Rightarrow>
              if to = ''ready'' \<and> (cr_DeploymentName updates = '''' \<or> cr_RevisionID updates = '''')
                then Some ''ready candidate requires deployment and immutable revision identity''
              else if (to = ''validating'' \<or> to = ''ranked'') \<and> cr_BenchmarkID updates = ''''
                then Some ''measured candidate requires benchmark evidence''
              else if to = ''ranked'' \<and> cr_QualityEvidenceID updates = '''' then Some ''ranked candidate requires quality evidence''
              else if to \<in> set [''qualified'', ''guarding'', ''rejected'', ''inconclusive''] \<and> from = ''ranked'' \<and> cr_LabEvaluationID updates = ''''
                then Some ''rank decision requires persisted Lab evaluation evidence''
              else if to = ''guard_passed'' \<and> cr_ReleaseGuardEvaluationID updates = ''''
                then Some ''qualified candidate requires Release Guard evidence''
              else None)"

definition keep_or :: "string \<Rightarrow> string \<Rightarrow> string" where
  "keep_or current new = (if new = '''' then current else new)"

text \<open>The identities that may not change, and the artifact and revision a candidate must match.\<close>

definition identity_refusal :: "campaign_env \<Rightarrow> string \<Rightarrow> string \<Rightarrow> string \<Rightarrow> candidate \<Rightarrow> candidate \<Rightarrow> store_error option" where
  "identity_refusal env tenant intent to current updates =
     (let changed = (\<lambda>field. field current \<noteq> '''' \<and> field updates \<noteq> '''' \<and> field current \<noteq> field updates);
          artifactID = keep_or (cr_OptimizedArtifactID current) (cr_OptimizedArtifactID updates);
          qualityID = keep_or (cr_QualityEvidenceID current) (cr_QualityEvidenceID updates);
          deploymentName = keep_or (cr_DeploymentName current) (cr_DeploymentName updates);
          revision = (if to = ''ready'' then ce_revision env tenant (keep_or (cr_RevisionID current) (cr_RevisionID updates)) else Some (deploymentName, '''')) in
      if to = ''qualified'' \<and> intent \<noteq> ''new_endpoint'' then Some (ErrOther ''only a new-endpoint campaign may qualify without Release Guard'')
      else if to = ''guarding'' \<and> intent \<noteq> ''evolve_endpoint'' then Some (ErrOther ''only an evolve-endpoint campaign may enter Release Guard'')
      else if changed cr_OptimizedArtifactID then Some (ErrOther ''optimized artifact identity is immutable once attached to a candidate'')
      else if changed cr_QualityEvidenceID then Some (ErrOther ''quality evidence identity is immutable once attached to a candidate'')
      else if changed cr_LabEvaluationID then Some (ErrOther ''Lab evaluation identity is immutable once attached to a candidate'')
      else if to = ''qualified'' \<and> qualityID = '''' then Some (ErrOther ''qualified new-endpoint candidate requires quality evidence'')
      else case revision of None \<Rightarrow> Some ErrNotFound
      | Some (name, revisionArtifactID) \<Rightarrow>
          if name \<noteq> deploymentName then Some (ErrOther ''candidate deployment and revision identity do not match'')
          else if artifactID = '''' then None
          else case ce_artifact env tenant artifactID of Inl e \<Rightarrow> Some e
          | Inr a \<Rightarrow>
              if at_State a \<noteq> ''ready'' then Some (ErrOther ''candidate optimized artifact must have an immutable ready build attestation'')
              else if to = ''ready'' \<and> (revisionArtifactID = '''' \<or> at_BaseModelArtifactID a \<noteq> revisionArtifactID)
                then Some (ErrOther ''candidate optimized artifact base model does not match the immutable deployment revision artifact'')
              else if to \<in> set [''qualified'', ''guard_passed'', ''promoted''] \<and>
                  (qualityID = '''' \<or> at_EvidenceState a \<noteq> ''qualified'' \<or> at_QualityEvidenceID a \<noteq> qualityID)
                then Some (ErrOther ''optimized artifact candidate requires matching qualified semantic evidence before Release Guard can pass'')
              else None)"

text \<open>When the fenced update applies: what the campaign must be in for a cleanup and for every other transition.\<close>

definition fence_open :: "gotime \<Rightarrow> bool \<Rightarrow> campaign \<Rightarrow> bool" where
  "fence_open now cleanup g \<longleftrightarrow>
     (if cleanup
      then cg_State g \<in> set [''running'', ''ranked'', ''qualified'', ''guard_passed'', ''rejected'', ''inconclusive'', ''promoted'', ''observed'',
             ''cancelled'', ''failed'', ''cleaned'']
      else cg_State g \<in> set [''approved'', ''running'', ''ranked'', ''qualified'', ''guard_passed'', ''rejected'', ''inconclusive'', ''promoted'', ''observed''] \<and>
           \<not> cg_CancelRequested g \<and> (case cg_ApprovalExpiresAt g of None \<Rightarrow> False | Some t \<Rightarrow> t > now))"

definition apply_updates :: "gotime \<Rightarrow> string \<Rightarrow> string \<Rightarrow> candidate \<Rightarrow> candidate \<Rightarrow> candidate" where
  "apply_updates now to evidence updates c =
     c\<lparr>cr_State := to,
       cr_EvidenceState := (if cr_EvidenceState c = ''modeled'' \<and> evidence = ''unmeasured'' then ''modeled'' else evidence),
       cr_ActualEvidenceJSON := keep_or (cr_ActualEvidenceJSON c) (cr_ActualEvidenceJSON updates),
       cr_DeploymentName := keep_or (cr_DeploymentName c) (cr_DeploymentName updates),
       cr_RevisionID := keep_or (cr_RevisionID c) (cr_RevisionID updates),
       cr_BenchmarkID := keep_or (cr_BenchmarkID c) (cr_BenchmarkID updates),
       cr_QualityEvidenceID := keep_or (cr_QualityEvidenceID c) (cr_QualityEvidenceID updates),
       cr_LabEvaluationID := keep_or (cr_LabEvaluationID c) (cr_LabEvaluationID updates),
       cr_ReleaseGuardEvaluationID := keep_or (cr_ReleaseGuardEvaluationID c) (cr_ReleaseGuardEvaluationID updates),
       cr_OptimizedArtifactID := keep_or (cr_OptimizedArtifactID c) (cr_OptimizedArtifactID updates),
       cr_FailureCode := keep_or (cr_FailureCode c) (cr_FailureCode updates),
       cr_UpdatedAt := now\<rparr>"

definition fenced_candidate :: "string \<Rightarrow> string \<Rightarrow> string \<Rightarrow> string \<Rightarrow> candidate \<Rightarrow> bool" where
  "fenced_candidate tenant campaignID candidateID from c \<longleftrightarrow>
     cr_TenantID c = tenant \<and> cr_CampaignID c = campaignID \<and> cr_ID c = candidateID \<and> cr_State c = from"

definition TransitionOptimizationCandidate ::
  "campaign_env \<Rightarrow> gotime \<Rightarrow> campaign_db \<Rightarrow> string \<Rightarrow> string \<Rightarrow> string \<Rightarrow> string \<Rightarrow> string \<Rightarrow> candidate \<Rightarrow>
   (store_error + candidate) \<times> campaign_db" where
  "TransitionOptimizationCandidate env now db tenant campaignID candidateID from to updates =
     (case transition_refusal env from to updates of Some e \<Rightarrow> (Inl (ErrOther e), db)
      | None \<Rightarrow>
          (case find (\<lambda>c. cr_ID c = candidateID) (candidates_of db tenant campaignID) of None \<Rightarrow> (Inl ErrNotFound, db)
           | Some current \<Rightarrow>
               if cr_State current \<noteq> from then (Inl (ErrConflict ''''), db)
               else case find (campaign_at tenant campaignID) (gd_campaigns db) of None \<Rightarrow> (Inl (ErrOther ''no rows''), db)
               | Some g \<Rightarrow>
                   (case identity_refusal env tenant (cg_Intent g) to current updates of Some e \<Rightarrow> (Inl e, db)
                    | None \<Rightarrow>
                        if \<not> fence_open now (to = ''cleaned'') g then (Inl (ErrConflict ''''), db)
                        else case EvidenceForState to of Inl e \<Rightarrow> (Inl (ErrOther e), db)
                        | Inr evidence \<Rightarrow>
                            let db1 = db\<lparr>gd_candidates := upd_where (fenced_candidate tenant campaignID candidateID from)
                                        (apply_updates now to evidence updates) (gd_candidates db)\<rparr>;
                                rows = candidates_of db1 tenant campaignID
                            in (case AggregateState (map cr_State rows) of Inl e \<Rightarrow> (Inl (ErrOther e), db1)
                                | Inr s \<Rightarrow>
                                    let db2 = db1\<lparr>gd_campaigns := upd_where (campaign_at tenant campaignID) (\<lambda>g. g\<lparr>cg_State := s\<rparr>) (gd_campaigns db1)\<rparr>
                                    in (case find (\<lambda>c. cr_ID c = candidateID) rows of None \<Rightarrow> (Inl ErrNotFound, db2)
                                        | Some row \<Rightarrow> (Inr row, db2))))))"

fun candidates_loop :: "campaign_env \<Rightarrow> int \<Rightarrow> candidate list \<Rightarrow> string list \<Rightarrow> int list \<Rightarrow> string option" where
  "candidates_loop env n [] seenIDs seenRanks = None"
| "candidates_loop env n (c # cs) seenIDs seenRanks =
     (if cr_ProposalCandidateID c = '''' \<or> cr_Rank c < 1 \<or> cr_Rank c > n \<or> \<not> boundedJSON env (cr_DeploymentSpecJSON c) \<or>
         \<not> boundedJSON env (cr_PredictedEvidenceJSON c) \<or> \<not> boundedJSON env (cr_ActualEvidenceJSON c)
        then Some ''complete bounded candidate identity, rank, deployment spec, and evidence are required''
      else if cr_EvidenceState c \<noteq> ''unmeasured'' \<and> cr_EvidenceState c \<noteq> ''modeled''
        then Some ''new candidates must start with unmeasured or modeled evidence''
      else if cr_ProposalCandidateID c \<in> set seenIDs then Some ''candidate IDs must be unique''
      else if cr_Rank c \<in> set seenRanks then Some ''candidate ranks must be unique''
      else candidates_loop env n cs (cr_ProposalCandidateID c # seenIDs) (cr_Rank c # seenRanks))"

definition validateOptimizationCampaign :: "campaign_env \<Rightarrow> campaign \<Rightarrow> candidate list \<Rightarrow> string option" where
  "validateOptimizationCampaign env g cs =
     (if cg_TenantID g = '''' \<or> cg_IdempotencyKey g = '''' \<or> length (cg_IdempotencyKey g) > 128 \<or> length (cg_InputDigest g) \<noteq> 64 \<or>
         cg_ModelIdentity g = '''' \<or> cg_Objective g = '''' \<or> cg_Source g = '''' \<or> \<not> boundedJSON env (cg_ProposalJSON g)
        then Some ''complete immutable optimization campaign identity and proposal are required''
      else if cg_Intent g \<noteq> ''new_endpoint'' \<and> cg_Intent g \<noteq> ''evolve_endpoint''
        then Some ''optimization campaign intent must be new_endpoint or evolve_endpoint''
      else if cg_Intent g = ''new_endpoint'' \<and> cg_TargetDeployment g \<noteq> '''' \<or> cg_Intent g = ''evolve_endpoint'' \<and> cg_TargetDeployment g = ''''
        then Some ''new_endpoint cannot name a target; evolve_endpoint requires one''
      else if length cs < 1 \<or> length cs > 100 then Some ''optimization campaign requires between 1 and 100 candidates''
      else candidates_loop env (int (length cs)) cs [] [])"

definition insert_candidate :: "gotime \<Rightarrow> campaign \<Rightarrow> string \<times> candidate \<Rightarrow> candidate" where
  "insert_candidate stamp g ic = (case ic of (i, c) \<Rightarrow>
     no_updates\<lparr>cr_ID := i, cr_TenantID := cg_TenantID g, cr_CampaignID := cg_ID g, cr_ProposalCandidateID := cr_ProposalCandidateID c,
       cr_State := ''proposed'', cr_EvidenceState := cr_EvidenceState c, cr_DeploymentSpecJSON := cr_DeploymentSpecJSON c,
       cr_PredictedEvidenceJSON := cr_PredictedEvidenceJSON c, cr_ActualEvidenceJSON := cr_ActualEvidenceJSON c, cr_Rank := cr_Rank c,
       cr_UpdatedAt := stamp\<rparr>)"

text \<open>\<open>ids\<close> are the random identifiers drawn for the campaign and its candidates.\<close>

definition CreateOptimizationCampaign ::
  "campaign_env \<Rightarrow> gotime \<Rightarrow> string \<Rightarrow> string list \<Rightarrow> campaign_db \<Rightarrow> campaign \<Rightarrow> candidate list \<Rightarrow>
   (store_error + campaign \<times> candidate list) \<times> bool \<times> campaign_db" where
  "CreateOptimizationCampaign env stamp campaignID ids db g0 cs =
     (case validateOptimizationCampaign env g0 cs of Some e \<Rightarrow> (Inl (ErrOther e), False, db)
      | None \<Rightarrow>
          let g = g0\<lparr>cg_ID := (if cg_ID g0 = '''' then campaignID else cg_ID g0), cg_State := ''awaiting_approval'', cg_ApprovedBy := '''',
                    cg_MaxCandidates := int (length cs), cg_ApprovedMaxCostUSD := None, cg_ApprovalExpiresAt := None, cg_CancelRequested := False\<rparr> in
          if cg_Intent g = ''evolve_endpoint'' \<and> ce_deployment_model env (cg_TenantID g) (cg_TargetDeployment g) = None
            then (Inl ErrNotFound, False, db)
          else if cg_Intent g = ''evolve_endpoint'' \<and> ce_deployment_model env (cg_TenantID g) (cg_TargetDeployment g) \<noteq> Some (cg_ModelIdentity g)
            then (Inl (ErrOther ''optimization campaign model must match the target deployment''), False, db)
          else case find (\<lambda>r. cg_TenantID r = cg_TenantID g \<and> cg_IdempotencyKey r = cg_IdempotencyKey g) (gd_campaigns db) of
              Some r \<Rightarrow>
                (if cg_InputDigest r \<noteq> cg_InputDigest g \<or> cg_ModelIdentity r \<noteq> cg_ModelIdentity g \<or> cg_Objective r \<noteq> cg_Objective g \<or>
                    cg_Source r \<noteq> cg_Source g \<or> cg_Intent r \<noteq> cg_Intent g \<or> cg_TargetDeployment r \<noteq> cg_TargetDeployment g \<or>
                    \<not> ce_same_json env (cg_ProposalJSON r) (cg_ProposalJSON g) \<or>
                    length (candidates_of db (cg_TenantID r) (cg_ID r)) \<noteq> length cs
                 then (Inl (ErrConflict ''''), False, db)
                 else (Inr (r, candidates_of db (cg_TenantID r) (cg_ID r)), False, db))
            | None \<Rightarrow>
                if list_ex (\<lambda>r. cg_ID r = cg_ID g) (gd_campaigns db) \<or> length ids \<noteq> length cs \<or> \<not> distinct ids \<or>
                   list_ex (\<lambda>c. cr_ID c \<in> set ids) (gd_candidates db) then (Inl (ErrOther ''duplicate key''), False, db)
                else let db' = db\<lparr>gd_campaigns := gd_campaigns db @ [g], gd_candidates := gd_candidates db @ map (insert_candidate stamp g) (zip ids cs)\<rparr>
                     in (OptimizationCampaign db' (cg_TenantID g) (cg_ID g), True, db'))"

definition ApproveOptimizationCampaign ::
  "gotime \<Rightarrow> campaign_db \<Rightarrow> string \<Rightarrow> string \<Rightarrow> string \<Rightarrow> f64 \<Rightarrow> gotime \<Rightarrow> (store_error + campaign \<times> candidate list) \<times> campaign_db" where
  "ApproveOptimizationCampaign now db tenant campaignID actor maxCostUSD expiresAt =
     (if actor = '''' \<or> f_le maxCostUSD f_zero \<or> f_gt maxCostUSD (FNum 1000000) \<or> is_nan maxCostUSD \<or> is_inf maxCostUSD \<or>
         expiresAt \<le> now \<or> expiresAt > now + 24 * Hour
        then (Inl (ErrOther ''approval requires an actor, maximum cost in (0,1000000], and expiry within 24 hours''), db)
      else let fresh = (\<lambda>g. campaign_at tenant campaignID g \<and> cg_State g = ''awaiting_approval'' \<and> \<not> cg_CancelRequested g) in
        if rows_affected fresh (gd_campaigns db) = 0
        then (case OptimizationCampaign db tenant campaignID of Inl e \<Rightarrow> (Inl e, db)
              | Inr (g, cs) \<Rightarrow>
                  if (cg_State g = ''approved'' \<or> cg_State g = ''running'') \<and> cg_ApprovedBy g = actor \<and>
                     (case cg_ApprovedMaxCostUSD g of None \<Rightarrow> False | Some c \<Rightarrow> f_eq c maxCostUSD) \<and>
                     (case cg_ApprovalExpiresAt g of None \<Rightarrow> False | Some t \<Rightarrow> t > now)
                  then (Inr (g, cs), db) else (Inl (ErrConflict ''''), db))
        else let db' = db\<lparr>gd_campaigns := upd_where fresh (\<lambda>g. g\<lparr>cg_State := ''approved'', cg_ApprovedMaxCostUSD := Some maxCostUSD,
                         cg_ApprovalExpiresAt := Some expiresAt, cg_ApprovedBy := actor\<rparr>) (gd_campaigns db)\<rparr>
             in (OptimizationCampaign db' tenant campaignID, db'))"

definition active_states :: "string list" where
  "active_states = [''proposed'', ''provisioning'', ''ready'', ''measuring'', ''validating'', ''ranked'', ''qualified'', ''guarding'', ''guard_passed'']"

definition CancelOptimizationCampaign ::
  "gotime \<Rightarrow> campaign_db \<Rightarrow> string \<Rightarrow> string \<Rightarrow> (store_error + campaign \<times> candidate list) \<times> campaign_db" where
  "CancelOptimizationCampaign stamp db tenant campaignID =
     (let live = (\<lambda>g. campaign_at tenant campaignID g \<and> cg_State g \<notin> set [''promoted'', ''observed'', ''cleaned'']) in
      if rows_affected live (gd_campaigns db) = 0
      then (case find (campaign_at tenant campaignID) (gd_campaigns db) of None \<Rightarrow> (Inl ErrNotFound, db)
            | Some g \<Rightarrow> if cg_State g = ''cancelled'' then (OptimizationCampaign db tenant campaignID, db) else (Inl (ErrConflict ''''), db))
      else let db' = db\<lparr>gd_campaigns := upd_where live (\<lambda>g. g\<lparr>cg_State := ''cancelled'', cg_CancelRequested := True\<rparr>) (gd_campaigns db),
                     gd_candidates := upd_where (\<lambda>c. cr_TenantID c = tenant \<and> cr_CampaignID c = campaignID \<and> cr_State c \<in> set active_states)
                       (\<lambda>c. c\<lparr>cr_State := ''cancelled'', cr_EvidenceState := ''stale'', cr_UpdatedAt := stamp\<rparr>) (gd_candidates db)\<rparr>
           in (OptimizationCampaign db' tenant campaignID, db'))"


section \<open>The coordinator\<close>

record budget =
  bu_MaxCostUSD :: f64
  bu_ExpiresAt :: gotime

record provision_result =
  pv_DeploymentName :: string
  pv_RevisionID :: string
  pv_OptimizedArtifactID :: string

record measurement_result =
  ms_BenchmarkID :: string
  ms_ActualEvidenceJSON :: string

record validation_result =
  vl_QualityEvidenceID :: string
  vl_Passed :: bool
  vl_FailureCode :: string

record ranking_result =
  rk_LabEvaluationID :: string
  rk_Decision :: string
  rk_FailureCode :: string

record guard_result =
  gr_EvaluationID :: string
  gr_Decision :: string
  gr_FailureCode :: string

text \<open>The driver and the clock, over the world they act on.\<close>

record 'w driver =
  dr_Provision :: "'w \<Rightarrow> candidate \<Rightarrow> budget \<Rightarrow> (handler_error + provision_result) \<times> 'w"
  dr_Measure :: "'w \<Rightarrow> candidate \<Rightarrow> budget \<Rightarrow> (handler_error + measurement_result) \<times> 'w"
  dr_Validate :: "'w \<Rightarrow> candidate \<Rightarrow> (handler_error + validation_result) \<times> 'w"
  dr_Rank :: "'w \<Rightarrow> candidate \<Rightarrow> (handler_error + ranking_result) \<times> 'w"
  dr_Guard :: "'w \<Rightarrow> candidate \<Rightarrow> (handler_error + guard_result) \<times> 'w"
  dr_Cleanup :: "'w \<Rightarrow> candidate \<Rightarrow> handler_error option \<times> 'w"
  dr_Now :: "'w \<Rightarrow> gotime"

record step_result =
  sr_From :: string
  sr_To :: string
  sr_Progressed :: bool
  sr_WaitingForHuman :: bool

datatype campaign_error =
  Campaign_Store store_error
| Campaign_Authority
| Campaign_Expired
| Campaign_Driver handler_error
| Campaign_Other string

definition campaign_budget :: "gotime \<Rightarrow> campaign \<Rightarrow> candidate list \<Rightarrow> campaign_error + budget" where
  "campaign_budget now g cs =
     (if cg_CancelRequested g \<or> cg_State g \<notin> set [''approved'', ''running'', ''ranked'', ''qualified'', ''guard_passed''] then Inl Campaign_Authority
      else case (cg_ApprovedMaxCostUSD g, cg_ApprovalExpiresAt g) of
          (Some cost, Some expiry) \<Rightarrow>
            if f_le cost f_zero then Inl Campaign_Authority
            else if expiry \<le> now then Inl Campaign_Expired
            else let count = (if cg_MaxCandidates g < 1 then int (length cs) else cg_MaxCandidates g) in
              if count < 1 then Inl (Campaign_Other ''optimization campaign has no bounded candidates'')
              else Inr \<lparr>bu_MaxCostUSD = f_div cost (f_of_int count), bu_ExpiresAt = expiry\<rparr>
        | _ \<Rightarrow> Inl Campaign_Authority)"

definition permanentCandidateFailure :: "handler_error \<Rightarrow> string option" where
  "permanentCandidateFailure e =
     (case e of PlainError _ \<Rightarrow> None
      | FailureError f \<Rightarrow>
          if fl_Retryable f then None
          else Some (if TrimSpace (fl_Code f) = '''' then ''optimization_candidate_failed'' else TrimSpace (fl_Code f)))"

definition ascii_upper :: "string \<Rightarrow> string" where
  "ascii_upper = map (\<lambda>c. if 97 \<le> (of_char c :: nat) \<and> (of_char c :: nat) \<le> 122 then char_of ((of_char c :: nat) - 32) else c)"

definition stay :: "candidate \<Rightarrow> step_result" where
  "stay c = \<lparr>sr_From = cr_State c, sr_To = cr_State c, sr_Progressed = False, sr_WaitingForHuman = False\<rparr>"

definition co_transition ::
  "campaign_env \<Rightarrow> gotime \<Rightarrow> campaign_db \<Rightarrow> campaign \<Rightarrow> candidate \<Rightarrow> string \<Rightarrow> candidate \<Rightarrow> (campaign_error + step_result) \<times> campaign_db" where
  "co_transition env now db g c to updates =
     (case TransitionOptimizationCandidate env now db (cg_TenantID g) (cg_ID g) (cr_ID c) (cr_State c) to updates of
        (Inl e, db') \<Rightarrow> (Inl (Campaign_Store e), db')
      | (Inr row, db') \<Rightarrow>
          (Inr \<lparr>sr_From = cr_State c, sr_To = cr_State row, sr_Progressed = (cr_State row \<noteq> cr_State c),
                sr_WaitingForHuman = (cr_State row = ''qualified'' \<or> cr_State row = ''guard_passed'')\<rparr>, db'))"

definition default_code :: "string \<Rightarrow> string \<Rightarrow> string" where
  "default_code code fallback = (if code = '''' then fallback else code)"

text \<open>
  One boundary of each executable state: the driver call, and the transition its answer asks for. A
  permanent failure of the driver is persisted, any other failure leaves the candidate where it is.
\<close>

definition driver_failed ::
  "campaign_env \<Rightarrow> 'w driver \<Rightarrow> campaign_db \<Rightarrow> 'w \<Rightarrow> campaign \<Rightarrow> candidate \<Rightarrow> handler_error \<Rightarrow> (campaign_error + step_result) \<times> campaign_db \<times> 'w" where
  "driver_failed env d db w g c e =
     (case permanentCandidateFailure e of None \<Rightarrow> (Inl (Campaign_Driver e), db, w)
      | Some code \<Rightarrow> (case co_transition env (dr_Now d w) db g c ''failed'' (no_updates\<lparr>cr_FailureCode := code\<rparr>) of (r, db') \<Rightarrow> (r, db', w)))"

definition move_to ::
  "campaign_env \<Rightarrow> 'w driver \<Rightarrow> campaign_db \<Rightarrow> 'w \<Rightarrow> campaign \<Rightarrow> candidate \<Rightarrow> string \<Rightarrow> candidate \<Rightarrow> (campaign_error + step_result) \<times> campaign_db \<times> 'w" where
  "move_to env d db w g c to updates = (case co_transition env (dr_Now d w) db g c to updates of (r, db') \<Rightarrow> (r, db', w))"

definition step_provisioning ::
  "campaign_env \<Rightarrow> 'w driver \<Rightarrow> campaign_db \<Rightarrow> 'w \<Rightarrow> campaign \<Rightarrow> candidate \<Rightarrow> budget \<Rightarrow> (campaign_error + step_result) \<times> campaign_db \<times> 'w" where
  "step_provisioning env d db w g c budget =
     (case dr_Provision d w c budget of
        (Inl e, w') \<Rightarrow> driver_failed env d db w' g c e
      | (Inr p, w') \<Rightarrow> move_to env d db w' g c ''ready'' (no_updates\<lparr>cr_DeploymentName := pv_DeploymentName p,
          cr_RevisionID := pv_RevisionID p, cr_OptimizedArtifactID := pv_OptimizedArtifactID p\<rparr>))"

definition step_measuring ::
  "campaign_env \<Rightarrow> 'w driver \<Rightarrow> campaign_db \<Rightarrow> 'w \<Rightarrow> campaign \<Rightarrow> candidate \<Rightarrow> budget \<Rightarrow> (campaign_error + step_result) \<times> campaign_db \<times> 'w" where
  "step_measuring env d db w g c budget =
     (case dr_Measure d w c budget of
        (Inl e, w') \<Rightarrow> driver_failed env d db w' g c e
      | (Inr m, w') \<Rightarrow> move_to env d db w' g c ''validating'' (no_updates\<lparr>cr_BenchmarkID := ms_BenchmarkID m,
          cr_ActualEvidenceJSON := ms_ActualEvidenceJSON m\<rparr>))"

definition step_validating ::
  "campaign_env \<Rightarrow> 'w driver \<Rightarrow> campaign_db \<Rightarrow> 'w \<Rightarrow> campaign \<Rightarrow> candidate \<Rightarrow> (campaign_error + step_result) \<times> campaign_db \<times> 'w" where
  "step_validating env d db w g c =
     (case dr_Validate d w c of
        (Inl e, w') \<Rightarrow> driver_failed env d db w' g c e
      | (Inr v, w') \<Rightarrow>
          let updates = no_updates\<lparr>cr_BenchmarkID := cr_BenchmarkID c, cr_QualityEvidenceID := vl_QualityEvidenceID v, cr_FailureCode := vl_FailureCode v\<rparr>
          in if \<not> vl_Passed v
             then move_to env d db w' g c ''rejected'' (updates\<lparr>cr_FailureCode := default_code (vl_FailureCode v) ''quality_gate_rejected''\<rparr>)
             else move_to env d db w' g c ''ranked'' updates)"

definition step_ranked ::
  "campaign_env \<Rightarrow> 'w driver \<Rightarrow> campaign_db \<Rightarrow> 'w \<Rightarrow> campaign \<Rightarrow> candidate \<Rightarrow> (campaign_error + step_result) \<times> campaign_db \<times> 'w" where
  "step_ranked env d db w g c =
     (case dr_Rank d w c of
        (Inl e, w') \<Rightarrow> driver_failed env d db w' g c e
      | (Inr r, w') \<Rightarrow>
          let decision = ascii_upper (TrimSpace (rk_Decision r));
              updates = (\<lambda>code. no_updates\<lparr>cr_LabEvaluationID := rk_LabEvaluationID r, cr_FailureCode := code\<rparr>);
              code = rk_FailureCode r
          in if decision = ''SUPERSEDE'' then move_to env d db w' g c ''rejected'' (updates (default_code code ''measured_candidate_superseded''))
             else if decision = ''REJECT'' then move_to env d db w' g c ''rejected'' (updates (default_code code ''measured_candidate_outside_constraints''))
             else if decision = ''INCONCLUSIVE'' then move_to env d db w' g c ''inconclusive'' (updates (default_code code ''measured_ranking_inconclusive''))
             else if decision = ''SELECT'' then move_to env d db w' g c (if cg_Intent g = ''new_endpoint'' then ''qualified'' else ''guarding'') (updates code)
             else move_to env d db w' g c ''inconclusive'' (updates ''measured_ranking_unknown_decision''))"

definition step_guarding ::
  "campaign_env \<Rightarrow> 'w driver \<Rightarrow> campaign_db \<Rightarrow> 'w \<Rightarrow> campaign \<Rightarrow> candidate \<Rightarrow> (campaign_error + step_result) \<times> campaign_db \<times> 'w" where
  "step_guarding env d db w g c =
     (case dr_Guard d w c of
        (Inl e, w') \<Rightarrow> driver_failed env d db w' g c e
      | (Inr r, w') \<Rightarrow>
          let decision = ascii_upper (TrimSpace (gr_Decision r));
              updates = (\<lambda>code. no_updates\<lparr>cr_ReleaseGuardEvaluationID := gr_EvaluationID r, cr_FailureCode := code\<rparr>);
              code = gr_FailureCode r
          in if decision = ''PASS'' then move_to env d db w' g c ''guard_passed'' (updates code)
             else if decision = ''REJECT'' then move_to env d db w' g c ''rejected'' (updates (default_code code ''release_guard_rejected''))
             else if decision = ''INCONCLUSIVE'' then move_to env d db w' g c ''inconclusive'' (updates (default_code code ''release_guard_inconclusive''))
             else move_to env d db w' g c ''inconclusive'' (updates ''release_guard_unknown_decision''))"

definition cleanup_candidate ::
  "campaign_env \<Rightarrow> 'w driver \<Rightarrow> campaign_db \<Rightarrow> 'w \<Rightarrow> campaign \<Rightarrow> candidate \<Rightarrow> (campaign_error + step_result) \<times> campaign_db \<times> 'w" where
  "cleanup_candidate env d db w g c =
     (case dr_Cleanup d w c of
        (Some e, w') \<Rightarrow> (Inl (Campaign_Driver e), db, w')
      | (None, w') \<Rightarrow> move_to env d db w' g c ''cleaned'' no_updates)"

definition step_candidate ::
  "campaign_env \<Rightarrow> 'w driver \<Rightarrow> campaign_db \<Rightarrow> 'w \<Rightarrow> campaign \<Rightarrow> candidate list \<Rightarrow> candidate \<Rightarrow> (campaign_error + step_result) \<times> campaign_db \<times> 'w" where
  "step_candidate env d db w g cs c =
     (let s = cr_State c in
      if s \<in> set [''cleaned'', ''promoted'', ''observed''] then (Inr (stay c), db, w)
      else if s \<in> set [''qualified'', ''guard_passed''] then
        (case campaign_budget (dr_Now d w) g cs of
           Inl Campaign_Expired \<Rightarrow> move_to env d db w g c ''failed'' (no_updates\<lparr>cr_FailureCode := ''approval_expired_before_activation''\<rparr>)
         | Inl e \<Rightarrow> (Inl e, db, w)
         | Inr _ \<Rightarrow> (Inr ((stay c)\<lparr>sr_WaitingForHuman := True\<rparr>), db, w))
      else if terminalWithoutCleanup s then cleanup_candidate env d db w g c
      else case campaign_budget (dr_Now d w) g cs of
          Inl Campaign_Expired \<Rightarrow> move_to env d db w g c ''failed'' (no_updates\<lparr>cr_FailureCode := ''approval_expired''\<rparr>)
        | Inl e \<Rightarrow> (Inl e, db, w)
        | Inr budget \<Rightarrow>
            if s = ''proposed'' then move_to env d db w g c ''provisioning'' no_updates
            else if s = ''provisioning'' then step_provisioning env d db w g c budget
            else if s = ''ready'' then move_to env d db w g c ''measuring'' no_updates
            else if s = ''measuring'' then step_measuring env d db w g c budget
            else if s = ''validating'' then step_validating env d db w g c
            else if s = ''ranked'' then step_ranked env d db w g c
            else if s = ''guarding'' then step_guarding env d db w g c
            else (Inl (Campaign_Other ''candidate state requires an explicit operator action or is not executable''), db, w))"

definition with_candidate ::
  "campaign_db \<Rightarrow> 'w \<Rightarrow> string \<Rightarrow> string \<Rightarrow> string \<Rightarrow>
   (campaign \<Rightarrow> candidate list \<Rightarrow> candidate \<Rightarrow> (campaign_error + step_result) \<times> campaign_db \<times> 'w) \<Rightarrow>
   (campaign_error + step_result) \<times> campaign_db \<times> 'w" where
  "with_candidate db w tenant campaignID candidateID f =
     (if TrimSpace tenant = '''' \<or> TrimSpace campaignID = '''' \<or> TrimSpace candidateID = ''''
        then (Inl (Campaign_Other ''optimization coordinator requires repository, driver, tenant, campaign, and candidate''), db, w)
      else case OptimizationCampaign db tenant campaignID of
          Inl e \<Rightarrow> (Inl (Campaign_Store e), db, w)
        | Inr (g, cs) \<Rightarrow>
            (case find (\<lambda>c. cr_ID c = candidateID) cs of None \<Rightarrow> (Inl (Campaign_Store ErrNotFound), db, w)
             | Some c \<Rightarrow> f g cs c))"

definition Step ::
  "campaign_env \<Rightarrow> 'w driver \<Rightarrow> string \<Rightarrow> string \<Rightarrow> string \<Rightarrow> campaign_db \<Rightarrow> 'w \<Rightarrow> (campaign_error + step_result) \<times> campaign_db \<times> 'w" where
  "Step env d tenant campaignID candidateID db w =
     with_candidate db w tenant campaignID candidateID (step_candidate env d db w)"

definition CancelCandidate ::
  "campaign_env \<Rightarrow> 'w driver \<Rightarrow> string \<Rightarrow> string \<Rightarrow> string \<Rightarrow> campaign_db \<Rightarrow> 'w \<Rightarrow> (campaign_error + step_result) \<times> campaign_db \<times> 'w" where
  "CancelCandidate env d tenant campaignID candidateID db w =
     with_candidate db w tenant campaignID candidateID (\<lambda>g cs c.
       if cr_State c = ''cleaned'' then (Inr (stay c), db, w)
       else if cr_State c \<in> set [''promoted'', ''observed'']
         then (Inl (Campaign_Other ''promoted optimization candidate requires an explicit rollback, not execution cancellation''), db, w)
       else if terminalWithoutCleanup (cr_State c) then cleanup_candidate env d db w g c
       else move_to env d db w g c ''cancelled'' (no_updates\<lparr>cr_FailureCode := ''execution_cancelled''\<rparr>))"


section \<open>The handlers\<close>

fun request_loop :: "string list \<Rightarrow> string list \<Rightarrow> string option" where
  "request_loop [] seen = None"
| "request_loop (i # rest) seen =
     (if i = '''' then Some ''optimization execution candidate IDs must not be empty''
      else if i \<in> set seen then Some ''optimization execution candidate IDs must be unique''
      else request_loop rest (i # seen))"

definition ExecuteRequest_Validate :: "string \<Rightarrow> string \<Rightarrow> string list \<Rightarrow> string option" where
  "ExecuteRequest_Validate tenant campaignID candidates =
     (if tenant = '''' \<or> campaignID = '''' \<or> length candidates < 1 \<or> length candidates > 100
        then Some ''optimization execution requires tenant, campaign, and 1..100 candidates''
      else request_loop candidates [])"

definition executionFailure :: "campaign_error \<Rightarrow> handler_error" where
  "executionFailure e =
     (case e of
        Campaign_Store (ErrConflict m) \<Rightarrow> Retryable ''optimization_fence_conflict'' (Some m)
      | Campaign_Driver (FailureError f) \<Rightarrow> FailureError f
      | Campaign_Authority \<Rightarrow> Permanent ''optimization_authority_unavailable'' None
      | _ \<Rightarrow> Retryable ''optimization_step_failed'' None)"

text \<open>
  The boundary loop of one candidate, with \<open>n\<close> boundaries left: \<open>advance\<close> is the step (or the
  cancellation) of the candidate, \<open>checkpoint\<close> the checkpoint before it together with whatever else
  happens in the meantime, \<open>stop\<close> says at which results the loop is left. Running out of boundaries is
  the permanent failure \<open>loop_failure\<close>.
\<close>

definition loop_failure :: handler_error where
  "loop_failure = Permanent ''optimization_state_loop'' (Some ''candidate exceeded the bounded optimization transition count'')"

fun boundary_loop ::
  "nat \<Rightarrow> (campaign_db \<Rightarrow> 'w \<Rightarrow> string option \<times> campaign_db \<times> 'w) \<Rightarrow>
   (campaign_db \<Rightarrow> 'w \<Rightarrow> (campaign_error + step_result) \<times> campaign_db \<times> 'w) \<Rightarrow> (step_result \<Rightarrow> bool) \<Rightarrow>
   campaign_db \<Rightarrow> 'w \<Rightarrow> (handler_error + step_result) \<times> campaign_db \<times> 'w" where
  "boundary_loop 0 checkpoint advance stop db w = (Inl loop_failure, db, w)"
| "boundary_loop (Suc n) checkpoint advance stop db w =
     (case checkpoint db w of
        (Some e, db1, w1) \<Rightarrow> (Inl (Retryable ''optimization_checkpoint_failed'' (Some e)), db1, w1)
      | (None, db1, w1) \<Rightarrow>
          (case advance db1 w1 of
             (Inl e, db2, w2) \<Rightarrow> (Inl (executionFailure e), db2, w2)
           | (Inr r, db2, w2) \<Rightarrow>
               if stop r \<or> \<not> sr_Progressed r then (Inr r, db2, w2)
               else boundary_loop n checkpoint advance stop db2 w2))"

fun candidates_phase ::
  "(string \<Rightarrow> campaign_db \<Rightarrow> 'w \<Rightarrow> (handler_error + step_result) \<times> campaign_db \<times> 'w) \<Rightarrow> string list \<Rightarrow> campaign_db \<Rightarrow> 'w \<Rightarrow>
   (handler_error + string list) \<times> campaign_db \<times> 'w" where
  "candidates_phase loop [] db w = (Inr [], db, w)"
| "candidates_phase loop (i # rest) db w =
     (case loop i db w of
        (Inl e, db1, w1) \<Rightarrow> (Inl e, db1, w1)
      | (Inr r, db1, w1) \<Rightarrow>
          (case candidates_phase loop rest db1 w1 of
             (Inl e, db2, w2) \<Rightarrow> (Inl e, db2, w2)
           | (Inr waiting, db2, w2) \<Rightarrow> (Inr ((if sr_WaitingForHuman r then [i] else []) @ waiting), db2, w2)))"

definition stop_ranked :: "step_result \<Rightarrow> bool" where
  "stop_ranked r \<longleftrightarrow> sr_WaitingForHuman r \<or> sr_To r = ''ranked'' \<or> sr_To r = ''cleaned''"

definition stop_finished :: "step_result \<Rightarrow> bool" where
  "stop_finished r \<longleftrightarrow> sr_WaitingForHuman r \<or> sr_To r = ''cleaned''"

definition execute_handler ::
  "campaign_env \<Rightarrow> 'w driver \<Rightarrow> (string \<Rightarrow> campaign_db \<Rightarrow> 'w \<Rightarrow> string option \<times> campaign_db \<times> 'w) \<Rightarrow> string \<Rightarrow> string \<Rightarrow> string list \<Rightarrow>
   campaign_db \<Rightarrow> 'w \<Rightarrow> (handler_error + string list) \<times> campaign_db \<times> 'w" where
  "execute_handler env d checkpoint tenant campaignID candidates db w =
     (case ExecuteRequest_Validate tenant campaignID candidates of
        Some e \<Rightarrow> (Inl (Permanent ''invalid_request'' (Some e)), db, w)
      | None \<Rightarrow>
          (case candidates_phase (\<lambda>i. boundary_loop 8 (checkpoint i) (Step env d tenant campaignID i) stop_ranked) candidates db w of
             (Inl e, db1, w1) \<Rightarrow> (Inl e, db1, w1)
           | (Inr _, db1, w1) \<Rightarrow>
               (case candidates_phase (\<lambda>i. boundary_loop 3 (checkpoint i) (Step env d tenant campaignID i) stop_finished) candidates db1 w1 of
                  (Inl e, db2, w2) \<Rightarrow> (Inl e, db2, w2)
                | (Inr waiting, db2, w2) \<Rightarrow>
                    if waiting = [] then (Inr [], db2, w2)
                    else case checkpoint ''awaiting-activation'' db2 w2 of
                        (Some e, db3, w3) \<Rightarrow> (Inl (Retryable ''optimization_checkpoint_failed'' (Some e)), db3, w3)
                      | (None, db3, w3) \<Rightarrow> (Inl (Retryable ''optimization_waiting_for_human'' None), db3, w3))))"

text \<open>The cancellation runs two boundaries per candidate and does not fail when they are used up.\<close>

fun cancel_loop ::
  "nat \<Rightarrow> (campaign_db \<Rightarrow> 'w \<Rightarrow> string option \<times> campaign_db \<times> 'w) \<Rightarrow>
   (campaign_db \<Rightarrow> 'w \<Rightarrow> (campaign_error + step_result) \<times> campaign_db \<times> 'w) \<Rightarrow>
   campaign_db \<Rightarrow> 'w \<Rightarrow> handler_error option \<times> campaign_db \<times> 'w" where
  "cancel_loop 0 checkpoint advance db w = (None, db, w)"
| "cancel_loop (Suc n) checkpoint advance db w =
     (case checkpoint db w of
        (Some e, db1, w1) \<Rightarrow> (Some (Retryable ''optimization_checkpoint_failed'' (Some e)), db1, w1)
      | (None, db1, w1) \<Rightarrow>
          (case advance db1 w1 of
             (Inl e, db2, w2) \<Rightarrow> (Some (executionFailure e), db2, w2)
           | (Inr r, db2, w2) \<Rightarrow>
               if \<not> sr_Progressed r \<or> sr_To r = ''cleaned'' then (None, db2, w2)
               else cancel_loop n checkpoint advance db2 w2))"

fun cleanup_handler ::
  "campaign_env \<Rightarrow> 'w driver \<Rightarrow> (string \<Rightarrow> campaign_db \<Rightarrow> 'w \<Rightarrow> string option \<times> campaign_db \<times> 'w) \<Rightarrow> string \<Rightarrow> string \<Rightarrow> string list \<Rightarrow>
   campaign_db \<Rightarrow> 'w \<Rightarrow> handler_error option \<times> campaign_db \<times> 'w" where
  "cleanup_handler env d checkpoint tenant campaignID [] db w = (None, db, w)"
| "cleanup_handler env d checkpoint tenant campaignID (i # rest) db w =
     (case cancel_loop 2 (checkpoint i) (CancelCandidate env d tenant campaignID i) db w of
        (Some e, db1, w1) \<Rightarrow> (Some e, db1, w1)
      | (None, db1, w1) \<Rightarrow> cleanup_handler env d checkpoint tenant campaignID rest db1 w1)"

section \<open>Ranking the measured set\<close>

text \<open>
  The decoded proposal, the benchmark rows and the Inference Lab evaluation are given; \<open>lab\<close> returns
  the candidates the evaluation reports, by the benchmark they rest on.
\<close>

record benchmark =
  bm_ID :: string
  bm_RevisionID :: string
  bm_ModelIdentity :: string

record lab_row =
  lr_EvidenceID :: string
  lr_Selected :: bool
  lr_Comparable :: bool
  lr_MeetsSLO :: "bool option"
  lr_SelectionReason :: string
  lr_ConstraintReasons :: "string list"

record proposal =
  pp_ModelIdentity :: string
  pp_Objective :: string
  pp_InputDigest :: string
  pp_PublicPrior :: bool

definition past_barrier :: "string \<Rightarrow> bool" where
  "past_barrier s \<longleftrightarrow> s \<in> set [''ranked'', ''guarding'', ''guard_passed'', ''rejected'', ''inconclusive'', ''cleaned'']"

definition sits_out :: "candidate \<Rightarrow> bool" where
  "sits_out c \<longleftrightarrow> cr_State c \<in> set [''rejected'', ''inconclusive'', ''cleaned''] \<and> cr_LabEvaluationID c = ''''"

definition benchmark_of :: "benchmark list \<Rightarrow> string \<Rightarrow> benchmark option" where
  "benchmark_of benchmarks i = find (\<lambda>b. bm_ID b = i \<and> bm_ID b \<noteq> '''') (rev benchmarks)"

text \<open>The evidence of every candidate that takes part, with the candidate it belongs to.\<close>

fun selected_evidence :: "campaign \<Rightarrow> benchmark list \<Rightarrow> candidate list \<Rightarrow> string + (benchmark \<times> string) list" where
  "selected_evidence g benchmarks [] = Inr []"
| "selected_evidence g benchmarks (c # cs) =
     (if \<not> past_barrier (cr_State c) then Inl (''candidate '' @ cr_ID c @ '' has not reached the measured ranking barrier'')
      else if sits_out c then selected_evidence g benchmarks cs
      else if cr_BenchmarkID c = '''' \<or> cr_QualityEvidenceID c = '''' \<or> cr_RevisionID c = ''''
        then Inl (''candidate '' @ cr_ID c @ '' lacks benchmark, revision, or quality evidence'')
      else case benchmark_of benchmarks (cr_BenchmarkID c) of
          None \<Rightarrow> Inl (''candidate '' @ cr_ID c @ '' benchmark evidence is unavailable'')
        | Some b \<Rightarrow>
            if bm_RevisionID b \<noteq> cr_RevisionID c \<or> bm_ModelIdentity b \<noteq> cg_ModelIdentity g
              then Inl (''candidate '' @ cr_ID c @ '' benchmark identity does not match campaign and revision'')
            else bind_err (selected_evidence g benchmarks cs) (\<lambda>rest. Inr ((b, cr_ID c) # rest)))"

text \<open>A benchmark shared by several candidates stands for the last of them, as in the code's map.\<close>

definition candidate_of :: "(benchmark \<times> string) list \<Rightarrow> string \<Rightarrow> string" where
  "candidate_of evidence i = (case find (\<lambda>(b, c). bm_ID b = i) (rev evidence) of None \<Rightarrow> '''' | Some (b, c) \<Rightarrow> c)"

fun lab_winner :: "(benchmark \<times> string) list \<Rightarrow> lab_row list \<Rightarrow> string \<Rightarrow> string + string" where
  "lab_winner evidence [] selected = Inr selected"
| "lab_winner evidence (r # rows) selected =
     (let c = candidate_of evidence (lr_EvidenceID r) in
      if c = '''' then Inl ''Lab returned evidence outside the bounded campaign''
      else if lr_Selected r then (if selected \<noteq> '''' then Inl ''Lab selected more than one candidate'' else lab_winner evidence rows c)
      else lab_winner evidence rows selected)"

definition rank_decision :: "string \<Rightarrow> bool \<Rightarrow> candidate \<Rightarrow> string" where
  "rank_decision selected rejectAll c =
     (if selected \<noteq> '''' \<and> cr_ID c = selected then ''SELECT''
      else if selected \<noteq> '''' then ''SUPERSEDE''
      else if rejectAll then ''REJECT''
      else ''INCONCLUSIVE'')"

definition RankMeasuredCampaign ::
  "(string \<Rightarrow> string + proposal) \<Rightarrow> (campaign \<Rightarrow> benchmark list \<Rightarrow> string + lab_row list) \<Rightarrow> campaign \<Rightarrow> candidate list \<Rightarrow> benchmark list \<Rightarrow>
   string + (string \<times> string) list" where
  "RankMeasuredCampaign decode lab g cs benchmarks =
     bind_err (decode (cg_ProposalJSON g)) (\<lambda>p.
     if cg_ModelIdentity g \<noteq> pp_ModelIdentity p \<or> cg_Objective g \<noteq> pp_Objective p \<or> cg_InputDigest g \<noteq> pp_InputDigest p
       then Inl ''campaign identity does not match its immutable proposal''
     else bind_err (selected_evidence g benchmarks cs) (\<lambda>evidence.
     if evidence = [] then Inl ''campaign has no measured candidates to rank''
     else bind_err (lab g (map fst evidence)) (\<lambda>rows.
     if pp_PublicPrior p
       then Inr (map (\<lambda>(b, c). (c, ''INCONCLUSIVE'')) (filter (\<lambda>(b, c). candidate_of evidence (bm_ID b) = c) evidence))
     else bind_err (lab_winner evidence rows '''') (\<lambda>selected.
       let rejectAll = (rows \<noteq> [] \<and> list_all (\<lambda>r. lr_Comparable r \<and> lr_MeetsSLO r = Some False) rows)
       in Inr (map (\<lambda>c. (cr_ID c, rank_decision selected rejectAll c)) (filter (\<lambda>c. \<not> sits_out c) cs))))))"

definition PersistedRanker_Rank ::
  "(string \<Rightarrow> string + proposal) \<Rightarrow> (campaign \<Rightarrow> benchmark list \<Rightarrow> string + lab_row list) \<Rightarrow> (campaign \<Rightarrow> string + string) \<Rightarrow>
   campaign_db \<Rightarrow> benchmark list \<Rightarrow> candidate \<Rightarrow> handler_error + ranking_result" where
  "PersistedRanker_Rank decode lab record db benchmarks c =
     (if cr_TenantID c = '''' \<or> cr_CampaignID c = '''' \<or> cr_ID c = '''' then Inl (PlainError ''persisted ranker requires store and candidate identity'')
      else case OptimizationCampaign db (cr_TenantID c) (cr_CampaignID c) of
          Inl _ \<Rightarrow> Inl (PlainError ''campaign lookup failed'')
        | Inr (g, cs) \<Rightarrow>
            (case RankMeasuredCampaign decode lab g cs benchmarks of Inl e \<Rightarrow> Inl (PlainError e)
             | Inr decisions \<Rightarrow>
                 (case record g of Inl e \<Rightarrow> Inl (PlainError e)
                  | Inr evaluationID \<Rightarrow>
                      (case map_of (rev decisions) (cr_ID c) of None \<Rightarrow> Inl (PlainError ''persisted Lab evaluation omitted the requested candidate'')
                       | Some decision \<Rightarrow>
                           Inr \<lparr>rk_LabEvaluationID = evaluationID, rk_Decision = decision,
                                rk_FailureCode = (if decision = ''SUPERSEDE'' then ''measured_candidate_superseded''
                                  else if decision = ''REJECT'' then ''measured_candidate_outside_constraints''
                                  else if decision = ''INCONCLUSIVE'' then ''measured_ranking_inconclusive'' else '''')\<rparr>))))"

section \<open>The life of a candidate\<close>

text \<open>How many moves a candidate has at most before it.\<close>

definition remaining :: "string \<Rightarrow> nat" where
  "remaining s = (case map_of [(''proposed'', 10), (''provisioning'', 9), (''ready'', 8), (''measuring'', 7), (''validating'', 6), (''ranked'', 5),
     (''guarding'', 4), (''qualified'', 3), (''guard_passed'', 3), (''promoted'', 2), (''observed'', 1), (''rejected'', 1), (''inconclusive'', 1),
     (''failed'', 1), (''cancelled'', 1)] s of None \<Rightarrow> 0 | Some n \<Rightarrow> n)"

definition moves :: "string \<Rightarrow> string \<Rightarrow> bool" where
  "moves from to \<longleftrightarrow> from \<noteq> to \<and> ValidateCandidateTransition from to = None"

lemma moves_listed: "moves from to \<longleftrightarrow> from \<noteq> to \<and> (\<exists>allowed. (from, allowed) \<in> set candidateTransitions \<and> to \<in> set allowed)"
proof -
  have d: "distinct (map fst candidateTransitions)" by code_simp
  have iff: "map_of candidateTransitions from = Some allowed \<longleftrightarrow> (from, allowed) \<in> set candidateTransitions" for allowed
    by (rule map_of_eq_Some_iff [OF d])
  show ?thesis
  proof (cases "map_of candidateTransitions from")
    case None
    then have "(from, allowed) \<notin> set candidateTransitions" for allowed using iff [of allowed] by simp
    then show ?thesis using None by (simp add: moves_def ValidateCandidateTransition_def)
  next
    case (Some allowed)
    then have "(from, x) \<in> set candidateTransitions \<longleftrightarrow> x = allowed" for x using iff [of x] by auto
    then show ?thesis using Some by (simp add: moves_def ValidateCandidateTransition_def)
  qed
qed

lemma table_decreases: "list_all (\<lambda>(from, allowed). list_all (\<lambda>to. remaining to < remaining from) allowed) candidateTransitions"
  by code_simp

lemma moves_decrease: "moves from to \<Longrightarrow> remaining to < remaining from"
  using table_decreases by (auto simp: moves_listed list_all_iff)

lemma remaining_bound: "remaining s \<le> 10"
  unfolding remaining_def by (auto split: option.splits dest!: map_of_SomeD)

lemma move_chain_length:
  "chain \<noteq> [] \<Longrightarrow> (\<forall>i. Suc i < length chain \<longrightarrow> moves (chain ! i) (chain ! Suc i)) \<Longrightarrow> length chain \<le> Suc (remaining (hd chain))"
proof (induction chain)
  case (Cons s rest)
  show ?case
  proof (cases rest)
    case (Cons s' rest')
    have "moves s s'" using Cons.prems(2) [rule_format, of 0] Cons by simp
    then have "remaining s' < remaining s" by (rule moves_decrease)
    moreover have "\<forall>i. Suc i < length rest \<longrightarrow> moves (rest ! i) (rest ! Suc i)" using Cons.prems(2) by auto
    ultimately show ?thesis using Cons.IH Cons by fastforce
  qed simp
qed simp

lemma known_cleaned:
  assumes "s \<in> fst ` set candidateTransitions"
  shows "moves\<^sup>*\<^sup>* s ''cleaned''"
proof -
  have table: "list_all (\<lambda>(from, allowed). from = ''cleaned'' \<or> ''cleaned'' \<in> set allowed \<or> ''failed'' \<in> set allowed) candidateTransitions"
    "list_all (\<lambda>(from, allowed). from \<notin> set allowed) candidateTransitions" "(''failed'', [''cleaned'']) \<in> set candidateTransitions"
    by code_simp+
  obtain allowed where s: "(s, allowed) \<in> set candidateTransitions" using assms by auto
  have move: "moves s to" if "to \<in> set allowed" for to
    using s that table(2) by (auto simp: moves_listed list_all_iff)
  have failed: "moves ''failed'' ''cleaned''" using table(3) by (auto simp: moves_listed)
  consider "s = ''cleaned''" | "''cleaned'' \<in> set allowed" | "''failed'' \<in> set allowed"
    using s table(1) by (auto simp: list_all_iff)
  then show ?thesis
    using move failed by cases (auto intro: rtranclp.rtrancl_refl r_into_rtranclp converse_rtranclp_into_rtranclp)
qed

text \<open>C29.
  The life of a candidate ends. The legal moves are well founded: no sequence of them, by however
  many workers, is longer than ten moves; only \<open>cleaned\<close> has none left, and every known state still has
  a legal way there.
\<close>

theorem candidate_life_terminates:
  "wf {(to, from). moves from to} \<and>
   (\<forall>chain. chain \<noteq> [] \<and> (\<forall>i. Suc i < length chain \<longrightarrow> moves (chain ! i) (chain ! Suc i)) \<longrightarrow> length chain \<le> 11) \<and>
   (\<forall>s \<in> fst ` set candidateTransitions. moves\<^sup>*\<^sup>* s ''cleaned'' \<and> ((\<exists>to. moves s to) \<longleftrightarrow> s \<noteq> ''cleaned''))"
proof (intro conjI ballI allI impI)
  show "wf {(to, from). moves from to}"
    by (rule wf_subset [OF wf_measure [of remaining]]) (auto dest: moves_decrease)
  fix chain :: "string list"
  assume "chain \<noteq> [] \<and> (\<forall>i. Suc i < length chain \<longrightarrow> moves (chain ! i) (chain ! Suc i))"
  then have "length chain \<le> Suc (remaining (hd chain))" by (intro move_chain_length) auto
  then show "length chain \<le> 11" using remaining_bound [of "hd chain"] by linarith
next
  fix s
  assume s: "s \<in> fst ` set candidateTransitions"
  then show reach: "moves\<^sup>*\<^sup>* s ''cleaned''" by (rule known_cleaned)
  have "\<not> moves ''cleaned'' to" for to using moves_decrease [of "''cleaned''" to] by (auto simp: remaining_def)
  then show "(\<exists>to. moves s to) \<longleftrightarrow> s \<noteq> ''cleaned''" using reach by (metis converse_rtranclpE)
qed

section \<open>What a step changes\<close>

definition state_at :: "campaign_db \<Rightarrow> string \<Rightarrow> string option" where
  "state_at db i = map_option cr_State (find (\<lambda>c. cr_ID c = i) (gd_candidates db))"

text \<open>What anybody may do to the candidates: keys stay unique, and states change along legal moves only.\<close>

definition lawful :: "campaign_db \<Rightarrow> campaign_db \<Rightarrow> bool" where
  "lawful db db' \<longleftrightarrow> (distinct (map cr_ID (gd_candidates db)) \<longrightarrow> distinct (map cr_ID (gd_candidates db'))) \<and>
     (\<forall>i s. state_at db i = Some s \<longrightarrow> (\<exists>s'. state_at db' i = Some s' \<and> moves\<^sup>*\<^sup>* s s'))"

lemma lawful_refl [simp]: "lawful db db"
  by (simp add: lawful_def)

lemma lawful_trans: "lawful a b \<Longrightarrow> lawful b c \<Longrightarrow> lawful a c"
  unfolding lawful_def by (meson rtranclp_trans)

lemma moves_remaining: "moves\<^sup>*\<^sup>* s s' \<Longrightarrow> remaining s' \<le> remaining s"
  by (induction rule: rtranclp_induct) (auto dest: moves_decrease)

lemma find_some_key: "distinct (map key rows) \<Longrightarrow> r \<in> set rows \<Longrightarrow> find (\<lambda>x. key x = key r) rows = Some r"
  by (induction rows) force+

lemma find_mem: "find P rows = Some r \<Longrightarrow> r \<in> set rows \<and> P r"
  by (auto simp: find_Some_iff)

lemma candidates_of_mem: "c \<in> set (candidates_of db tenant g) \<longleftrightarrow> c \<in> set (gd_candidates db) \<and> cr_TenantID c = tenant \<and> cr_CampaignID c = g"
  by (auto simp: candidates_of_def)

lemma found_state:
  assumes "distinct (map cr_ID (gd_candidates db))" "find (\<lambda>c. cr_ID c = i) (candidates_of db tenant g) = Some c"
  shows "state_at db i = Some (cr_State c)" "c \<in> set (gd_candidates db)" "cr_ID c = i" "cr_TenantID c = tenant" "cr_CampaignID c = g"
  using find_mem [OF assms(2)] find_some_key [OF assms(1), of c] by (auto simp: state_at_def candidates_of_mem)

text \<open>The store's transition: nothing, or the one fenced update.\<close>

lemma transition_effect:
  assumes t: "TransitionOptimizationCandidate env now db tenant g i from to updates = (res, db')" and d: "distinct (map cr_ID (gd_candidates db))"
  shows "(db' = db \<and> (\<exists>e. res = Inl e)) \<or>
    (\<exists>c camp evidence. c \<in> set (gd_candidates db) \<and> cr_ID c = i \<and> cr_State c = from \<and> cr_TenantID c = tenant \<and> cr_CampaignID c = g \<and>
      camp \<in> set (gd_campaigns db) \<and> campaign_at tenant g camp \<and> fence_open now (to = ''cleaned'') camp \<and>
      transition_refusal env from to updates = None \<and> identity_refusal env tenant (cg_Intent camp) to c updates = None \<and>
      EvidenceForState to = Inr evidence \<and>
      gd_candidates db' = map (\<lambda>x. if cr_ID x = i then apply_updates now to evidence updates x else x) (gd_candidates db) \<and>
      (\<forall>row. res = Inr row \<longrightarrow> cr_State row = to))"
proof (cases "transition_refusal env from to updates")
  case None
  show ?thesis
  proof (cases "find (\<lambda>c. cr_ID c = i) (candidates_of db tenant g)")
    case (Some c)
    note c = found_state [OF d Some]
    show ?thesis
    proof (cases "cr_State c = from \<and> (\<exists>camp. find (campaign_at tenant g) (gd_campaigns db) = Some camp \<and>
        identity_refusal env tenant (cg_Intent camp) to c updates = None \<and> fence_open now (to = ''cleaned'') camp) \<and>
        (\<exists>evidence. EvidenceForState to = Inr evidence)")
      case True
      then obtain camp evidence where camp: "cr_State c = from" "find (campaign_at tenant g) (gd_campaigns db) = Some camp"
        "identity_refusal env tenant (cg_Intent camp) to c updates = None" "fence_open now (to = ''cleaned'') camp" "EvidenceForState to = Inr evidence"
        by blast
      define rows where "rows = upd_where (fenced_candidate tenant g i from) (apply_updates now to evidence updates) (gd_candidates db)"
      have only: "fenced_candidate tenant g i from x \<longleftrightarrow> cr_ID x = i" if "x \<in> set (gd_candidates db)" for x
        using that d c camp(1) by (auto simp: fenced_candidate_def distinct_map inj_on_def)
      have rows: "rows = map (\<lambda>x. if cr_ID x = i then apply_updates now to evidence updates x else x) (gd_candidates db)"
        unfolding rows_def upd_where_def using only by (intro map_cong) auto
      define db1 where "db1 = db\<lparr>gd_candidates := rows\<rparr>"
      have eq: "(case AggregateState (map cr_State (candidates_of db1 tenant g)) of Inl e \<Rightarrow> (Inl (ErrOther e), db1)
          | Inr s \<Rightarrow> let db2 = db1\<lparr>gd_campaigns := upd_where (campaign_at tenant g) (\<lambda>g. g\<lparr>cg_State := s\<rparr>) (gd_campaigns db1)\<rparr>
              in (case find (\<lambda>c. cr_ID c = i) (candidates_of db1 tenant g) of None \<Rightarrow> (Inl ErrNotFound, db2) | Some row \<Rightarrow> (Inr row, db2))) = (res, db')"
        using t None Some camp unfolding TransitionOptimizationCandidate_def Let_def rows_def db1_def by simp
      have out: "gd_candidates db' = rows" "\<And>row. res = Inr row \<Longrightarrow> find (\<lambda>c. cr_ID c = i) (candidates_of db1 tenant g) = Some row"
        using eq by (cases "AggregateState (map cr_State (candidates_of db1 tenant g))";
            cases "find (\<lambda>c. cr_ID c = i) (candidates_of db1 tenant g)"; force simp: db1_def)+
      note gd = out(1)
      have "cr_State row = to" if "res = Inr row" for row
      proof -
        have "row \<in> set rows" "cr_ID row = i" using find_mem [OF out(2) [OF that]] by (auto simp: candidates_of_mem db1_def)
        then obtain x where x: "x \<in> set (gd_candidates db)" "row = (if cr_ID x = i then apply_updates now to evidence updates x else x)"
          unfolding rows set_map by (elim imageE) simp
        have "cr_ID x = i"
        proof (rule ccontr)
          assume "cr_ID x \<noteq> i"
          then show False using x(2) \<open>cr_ID row = i\<close> by simp
        qed
        then show ?thesis using x(2) by (simp add: apply_updates_def)
      qed
      then show ?thesis using None c camp gd rows find_mem [OF camp(2)] by blast
    next
      case False
      then show ?thesis using t None Some
        by (auto simp: TransitionOptimizationCandidate_def Let_def split: sum.splits option.splits if_splits)
    qed
  qed (use t None in \<open>auto simp: TransitionOptimizationCandidate_def\<close>)
qed (use t in \<open>auto simp: TransitionOptimizationCandidate_def\<close>)

lemma find_map_at:
  assumes "\<And>x. key (f x) = key x"
  shows "find (\<lambda>x. key x = j) (map (\<lambda>x. if key x = i then f x else x) rows) =
    map_option (\<lambda>x. if key x = i then f x else x) (find (\<lambda>x. key x = j) rows)"
  by (induction rows) (auto simp: assms)

lemma refusal_legal: "transition_refusal env from to updates = None \<Longrightarrow> ValidateCandidateTransition from to = None"
  by (auto simp: transition_refusal_def split: option.splits)

lemma transition_states:
  assumes t: "TransitionOptimizationCandidate env now db tenant g i from to updates = (res, db')" and d: "distinct (map cr_ID (gd_candidates db))"
  shows "(db' = db \<and> (\<exists>e. res = Inl e)) \<or>
    (state_at db i = Some from \<and> transition_refusal env from to updates = None \<and> map cr_ID (gd_candidates db') = map cr_ID (gd_candidates db) \<and>
     (\<forall>j. state_at db' j = (if j = i then Some to else state_at db j)) \<and> (\<forall>row. res = Inr row \<longrightarrow> cr_State row = to))"
  using transition_effect [OF t d]
proof (elim disjE conjE exE)
  fix c camp evidence
  assume c: "c \<in> set (gd_candidates db)" "cr_ID c = i" "cr_State c = from" and legal: "transition_refusal env from to updates = None"
    and gd: "gd_candidates db' = map (\<lambda>x. if cr_ID x = i then apply_updates now to evidence updates x else x) (gd_candidates db)"
    and row: "\<forall>row. res = Inr row \<longrightarrow> cr_State row = to"
  have key: "cr_ID (apply_updates now to evidence updates x) = cr_ID x" for x by (simp add: apply_updates_def)
  have c': "find (\<lambda>x. cr_ID x = i) (gd_candidates db) = Some c" using find_some_key [OF d c(1)] c(2) by simp
  have "state_at db' j = (if j = i then Some to else state_at db j)" for j
  proof (cases "j = i")
    case False
    then have "find (\<lambda>x. cr_ID x = j) (gd_candidates db') = find (\<lambda>x. cr_ID x = j) (gd_candidates db)"
      unfolding gd find_map_at [where key = cr_ID, OF key]
      by (cases "find (\<lambda>x. cr_ID x = j) (gd_candidates db)") (auto dest: find_mem)
    then show ?thesis using False by (simp add: state_at_def)
  qed (use c' c(2) in \<open>simp add: state_at_def gd find_map_at [where key = cr_ID, OF key] apply_updates_def\<close>)
  moreover have "map cr_ID (gd_candidates db') = map cr_ID (gd_candidates db)" by (simp add: gd key)
  ultimately show ?thesis using c' c(3) legal row by (simp add: state_at_def)
qed auto

lemma refusal_moves: "transition_refusal env from to updates = None \<Longrightarrow> from \<noteq> to \<Longrightarrow> moves from to"
  by (auto simp: moves_def refusal_legal)

lemma transition_lawful:
  assumes t: "TransitionOptimizationCandidate env now db tenant g i from to updates = (res, db')" and d: "distinct (map cr_ID (gd_candidates db))"
  shows "lawful db db'"
  using transition_states [OF t d]
proof (elim disjE conjE)
  assume "state_at db i = Some from" "transition_refusal env from to updates = None" "map cr_ID (gd_candidates db') = map cr_ID (gd_candidates db)"
    and at: "\<forall>j. state_at db' j = (if j = i then Some to else state_at db j)"
  moreover have "moves\<^sup>*\<^sup>* from to" using refusal_moves [OF calculation(2)] by (cases "from = to") (auto intro: r_into_rtranclp)
  ultimately show ?thesis by (auto simp: lawful_def)
qed simp


section \<open>What a boundary changes\<close>

text \<open>Where the coordinator may take a candidate from each state.\<close>

definition boundary_moves :: "(string \<times> string) list" where
  "boundary_moves =
     [(''proposed'', ''provisioning''), (''proposed'', ''failed''), (''provisioning'', ''ready''), (''provisioning'', ''failed''),
      (''ready'', ''measuring''), (''ready'', ''failed''), (''measuring'', ''validating''), (''measuring'', ''failed''),
      (''validating'', ''rejected''), (''validating'', ''ranked''), (''validating'', ''failed''),
      (''ranked'', ''rejected''), (''ranked'', ''inconclusive''), (''ranked'', ''qualified''), (''ranked'', ''guarding''), (''ranked'', ''failed''),
      (''guarding'', ''guard_passed''), (''guarding'', ''rejected''), (''guarding'', ''inconclusive''), (''guarding'', ''failed''),
      (''qualified'', ''failed''), (''guard_passed'', ''failed''),
      (''rejected'', ''cleaned''), (''inconclusive'', ''cleaned''), (''failed'', ''cleaned''), (''cancelled'', ''cleaned'')]"

text \<open>Either nothing is stored and the candidate is reported where it is, or it makes one move.\<close>

definition boundary_outcome ::
  "campaign_env \<Rightarrow> 'w driver \<Rightarrow> campaign_db \<Rightarrow> campaign \<Rightarrow> candidate \<Rightarrow> (string \<Rightarrow> bool) \<Rightarrow> (campaign_error + step_result) \<times> campaign_db \<times> 'w \<Rightarrow> bool" where
  "boundary_outcome env d db g c ok out \<longleftrightarrow>
     (\<exists>r w'. out = (r, db, w') \<and> (\<forall>x. r = Inr x \<longrightarrow> sr_From x = cr_State c \<and> sr_To x = cr_State c \<and> \<not> sr_Progressed x \<and>
        cr_State c \<in> set [''cleaned'', ''promoted'', ''observed'', ''qualified'', ''guard_passed''])) \<or>
     (\<exists>w' to updates. ok to \<and> out = move_to env d db w' g c to updates)"

lemma outcome_error [simp]: "boundary_outcome env d db g c ok (Inl e, db, w)"
  by (auto simp: boundary_outcome_def)

lemma outcome_move [simp]: "ok to \<Longrightarrow> boundary_outcome env d db g c ok (move_to env d db w g c to updates)"
  unfolding boundary_outcome_def by blast

lemma outcome_stay: "cr_State c \<in> set [''cleaned'', ''promoted'', ''observed'', ''qualified'', ''guard_passed''] \<Longrightarrow>
    boundary_outcome env d db g c ok (Inr (stay c), db, w)"
  "cr_State c \<in> set [''cleaned'', ''promoted'', ''observed'', ''qualified'', ''guard_passed''] \<Longrightarrow>
    boundary_outcome env d db g c ok (Inr ((stay c)\<lparr>sr_WaitingForHuman := True\<rparr>), db, w)"
  by (auto simp: boundary_outcome_def stay_def)

lemma driver_failed_outcome: "ok ''failed'' \<Longrightarrow> boundary_outcome env d db g c ok (driver_failed env d db w g c e)"
  by (auto simp: driver_failed_def simp flip: move_to_def split: option.splits)

lemma cleanup_outcome: "ok ''cleaned'' \<Longrightarrow> boundary_outcome env d db g c ok (cleanup_candidate env d db w g c)"
  by (auto simp: cleanup_candidate_def split: option.splits prod.splits)

lemma step_outcomes:
  "ok ''failed'' \<Longrightarrow> ok ''ready'' \<Longrightarrow> boundary_outcome env d db g c ok (step_provisioning env d db w g c budget)"
  "ok ''failed'' \<Longrightarrow> ok ''validating'' \<Longrightarrow> boundary_outcome env d db g c ok (step_measuring env d db w g c budget)"
  "ok ''failed'' \<Longrightarrow> ok ''rejected'' \<Longrightarrow> ok ''ranked'' \<Longrightarrow> boundary_outcome env d db g c ok (step_validating env d db w g c)"
  "ok ''failed'' \<Longrightarrow> ok ''rejected'' \<Longrightarrow> ok ''inconclusive'' \<Longrightarrow> ok ''qualified'' \<Longrightarrow> ok ''guarding'' \<Longrightarrow>
     boundary_outcome env d db g c ok (step_ranked env d db w g c)"
  "ok ''failed'' \<Longrightarrow> ok ''rejected'' \<Longrightarrow> ok ''inconclusive'' \<Longrightarrow> ok ''guard_passed'' \<Longrightarrow>
     boundary_outcome env d db g c ok (step_guarding env d db w g c)"
  unfolding step_provisioning_def step_measuring_def step_validating_def step_ranked_def step_guarding_def Let_def
  by (auto simp: driver_failed_outcome split: prod.split sum.split)

text \<open>From a state outside the table the coordinator only tries \<open>failed\<close>, which the store refuses.\<close>

definition boundary_target :: "string \<Rightarrow> string \<Rightarrow> bool" where
  "boundary_target s to \<longleftrightarrow> (s, to) \<in> set boundary_moves \<or> (to = ''failed'' \<and> map_of candidateTransitions s = None)"

lemma step_candidate_outcome: "boundary_outcome env d db g c (boundary_target (cr_State c)) (step_candidate env d db w g cs c)"
proof -
  define s where "s = cr_State c"
  define ok where "ok = boundary_target s"
  have budget: "boundary_outcome env d db g c ok (case b of Inl Campaign_Expired \<Rightarrow> move_to env d db w g c ''failed'' u | Inl e \<Rightarrow> (Inl e, db, w) | Inr x \<Rightarrow> f x)"
    if "ok ''failed''" "\<And>x. boundary_outcome env d db g c ok (f x)" for b f u
    using that by (auto split: sum.split campaign_error.split)
  consider "s \<in> set [''cleaned'', ''promoted'', ''observed'']" | "s \<in> set [''qualified'', ''guard_passed'']" | "terminalWithoutCleanup s"
    | "s = ''proposed''" | "s = ''provisioning''" | "s = ''ready''" | "s = ''measuring''" | "s = ''validating''" | "s = ''ranked''" | "s = ''guarding''"
    | "s \<notin> set [''cleaned'', ''promoted'', ''observed'', ''qualified'', ''guard_passed'', ''proposed'', ''provisioning'', ''ready'', ''measuring'', ''validating'',
         ''ranked'', ''guarding'']" "\<not> terminalWithoutCleanup s"
    by auto
  then have "boundary_outcome env d db g c ok (step_candidate env d db w g cs c)"
  proof cases
    case 1
    then have "boundary_outcome env d db g c ok (Inr (stay c), db, w)" by (intro outcome_stay) (auto simp: s_def)
    with 1 show ?thesis by (auto simp: step_candidate_def s_def)
  next
    case 2
    then have "ok ''failed''" by (auto simp: ok_def boundary_target_def boundary_moves_def)
    moreover have "boundary_outcome env d db g c ok (Inr ((stay c)\<lparr>sr_WaitingForHuman := True\<rparr>), db, w)"
      using 2 by (intro outcome_stay) (auto simp: s_def)
    moreover have "s \<notin> set [''cleaned'', ''promoted'', ''observed'']" using 2 by auto
    ultimately show ?thesis using 2 by (simp add: step_candidate_def Let_def flip: s_def) (intro budget; simp)
  next
    case 3
    then have "ok ''cleaned''" by (auto simp: ok_def boundary_target_def boundary_moves_def terminalWithoutCleanup_def)
    with 3 show ?thesis by (auto simp: step_candidate_def s_def terminalWithoutCleanup_def cleanup_outcome)
  next
    case 11
    then have "ok ''failed''" by (simp add: ok_def boundary_target_def candidateTransitions_def terminalWithoutCleanup_def)
    with 11 show ?thesis by (simp add: step_candidate_def flip: s_def) (intro budget; simp)
  qed ((simp add: step_candidate_def Let_def terminalWithoutCleanup_def flip: s_def,
       (intro budget; simp add: step_outcomes ok_def boundary_target_def boundary_moves_def))+)
  then show ?thesis by (simp add: ok_def s_def)
qed

text \<open>The effect of a boundary on the stored states, whoever runs it.\<close>

lemma move_effect:
  assumes m: "move_to env d db w g c to updates = (r, db', w')" and d: "distinct (map cr_ID (gd_candidates db))"
    and s: "state_at db (cr_ID c) = Some (cr_State c)" "cr_State c \<noteq> to"
  shows "(db' = db \<and> (\<exists>e. r = Inl e)) \<or>
    (moves (cr_State c) to \<and> lawful db db' \<and> (\<forall>j. state_at db' j = (if j = cr_ID c then Some to else state_at db j)) \<and>
     (\<forall>x. r = Inr x \<longrightarrow> x = \<lparr>sr_From = cr_State c, sr_To = to, sr_Progressed = True, sr_WaitingForHuman = (to = ''qualified'' \<or> to = ''guard_passed'')\<rparr>))"
proof -
  obtain res where t: "TransitionOptimizationCandidate env (dr_Now d w) db (cg_TenantID g) (cg_ID g) (cr_ID c) (cr_State c) to updates = (res, db')"
    and r: "r = (case res of Inl e \<Rightarrow> Inl (Campaign_Store e) | Inr row \<Rightarrow> Inr \<lparr>sr_From = cr_State c, sr_To = cr_State row,
        sr_Progressed = (cr_State row \<noteq> cr_State c), sr_WaitingForHuman = (cr_State row = ''qualified'' \<or> cr_State row = ''guard_passed'')\<rparr>)"
    using m by (auto simp: move_to_def co_transition_def split: prod.splits sum.splits)
  show ?thesis
    using transition_states [OF t d] transition_lawful [OF t d] refusal_moves [of env "cr_State c" to updates] s(2) r
    by (elim disjE conjE) (auto split: sum.splits)
qed

definition boundary_effect :: "(string \<Rightarrow> string \<Rightarrow> bool) \<Rightarrow> string \<Rightarrow> campaign_db \<Rightarrow> campaign_error + step_result \<Rightarrow> campaign_db \<Rightarrow> bool" where
  "boundary_effect ok i db r db' \<longleftrightarrow> lawful db db' \<and> (\<forall>j. j \<noteq> i \<longrightarrow> state_at db' j = state_at db j) \<and>
     (db' = db \<or> (\<exists>s to. ok s to \<and> moves s to \<and> state_at db i = Some s \<and> state_at db' i = Some to)) \<and>
     (\<forall>x. r = Inr x \<longrightarrow> state_at db i = Some (sr_From x) \<and> state_at db' i = Some (sr_To x) \<and>
        (if sr_Progressed x then ok (sr_From x) (sr_To x) \<and> moves (sr_From x) (sr_To x) \<and> sr_WaitingForHuman x = (sr_To x = ''qualified'' \<or> sr_To x = ''guard_passed'')
         else sr_To x = sr_From x \<and> sr_From x \<in> set [''cleaned'', ''promoted'', ''observed'', ''qualified'', ''guard_passed'']))"

lemma outcome_effect:
  assumes out: "boundary_outcome env d db g c (ok (cr_State c)) (r, db', w')" and d: "distinct (map cr_ID (gd_candidates db))"
    and s: "state_at db (cr_ID c) = Some (cr_State c)" and irrefl: "\<And>to. ok (cr_State c) to \<Longrightarrow> to \<noteq> cr_State c"
  shows "boundary_effect ok (cr_ID c) db r db'"
  using out unfolding boundary_outcome_def
proof (elim disjE exE conjE)
  fix w1 to updates
  assume to: "ok (cr_State c) to" and m: "(r, db', w') = move_to env d db w1 g c to updates"
  show ?thesis
    using move_effect [OF m [symmetric] d s irrefl [OF to, symmetric]] to s unfolding boundary_effect_def by (elim disjE conjE exE) auto
qed (use s in \<open>auto simp: boundary_effect_def\<close>)

lemma with_candidate_effect:
  assumes run: "with_candidate db w tenant campaignID i f = (r, db', w')" and d: "distinct (map cr_ID (gd_candidates db))"
    and f: "\<And>g cs c. boundary_outcome env d' db g c (ok (cr_State c)) (f g cs c)" and irrefl: "\<And>s to. ok s to \<Longrightarrow> to \<noteq> s"
  shows "boundary_effect ok i db r db'"
proof (cases "\<exists>g cs c. OptimizationCampaign db tenant campaignID = Inr (g, cs) \<and> find (\<lambda>c. cr_ID c = i) cs = Some c \<and> f g cs c = (r, db', w')")
  case True
  then obtain g cs c where c: "OptimizationCampaign db tenant campaignID = Inr (g, cs)" "find (\<lambda>c. cr_ID c = i) cs = Some c" "f g cs c = (r, db', w')"
    by blast
  have "cs = candidates_of db tenant campaignID" using c(1) by (auto simp: OptimizationCampaign_def split: option.splits)
  then have found: "state_at db i = Some (cr_State c)" "cr_ID c = i" using found_state [OF d, of i tenant campaignID c] c(2) by auto
  show ?thesis using outcome_effect [of env d' db g c ok r db' w'] f [of g c cs] c(3) d found irrefl by auto
next
  case False
  then have "db' = db \<and> (\<exists>e. r = Inl e)"
    using run by (auto simp: with_candidate_def split: if_splits sum.splits option.splits)
  then show ?thesis by (auto simp: boundary_effect_def)
qed

lemma boundary_target_irrefl: "boundary_target s to \<Longrightarrow> to \<noteq> s"
  by (auto simp: boundary_target_def boundary_moves_def candidateTransitions_def)

lemma Step_effect:
  "Step env d tenant campaignID i db w = (r, db', w') \<Longrightarrow> distinct (map cr_ID (gd_candidates db)) \<Longrightarrow> boundary_effect boundary_target i db r db'"
  unfolding Step_def by (rule with_candidate_effect) (auto intro: step_candidate_outcome dest: boundary_target_irrefl)

definition cancel_target :: "string \<Rightarrow> string \<Rightarrow> bool" where
  "cancel_target s to \<longleftrightarrow> s \<notin> set [''cleaned'', ''promoted'', ''observed''] \<and> to = (if terminalWithoutCleanup s then ''cleaned'' else ''cancelled'')"

lemma CancelCandidate_effect:
  assumes run: "CancelCandidate env d tenant campaignID i db w = (r, db', w')" and d: "distinct (map cr_ID (gd_candidates db))"
  shows "boundary_effect cancel_target i db r db'"
  using run [unfolded CancelCandidate_def] d
proof (rule with_candidate_effect)
  fix g cs c
  show "boundary_outcome env d db g c (cancel_target (cr_State c))
      (if cr_State c = ''cleaned'' then (Inr (stay c), db, w)
       else if cr_State c \<in> set [''promoted'', ''observed'']
         then (Inl (Campaign_Other ''promoted optimization candidate requires an explicit rollback, not execution cancellation''), db, w)
       else if terminalWithoutCleanup (cr_State c) then cleanup_candidate env d db w g c
       else move_to env d db w g c ''cancelled'' (no_updates\<lparr>cr_FailureCode := ''execution_cancelled''\<rparr>))"
    by (auto simp: cancel_target_def outcome_stay cleanup_outcome)
qed (auto simp: cancel_target_def terminalWithoutCleanup_def split: if_splits)

lemma move_to_cleanup [simp]: "move_to env (d\<lparr>dr_Cleanup := cl\<rparr>) = move_to env d"
  by (simp add: move_to_def fun_eq_iff)

lemma driver_failed_cleanup [simp]: "driver_failed env (d\<lparr>dr_Cleanup := cl\<rparr>) = driver_failed env d"
  by (auto simp: driver_failed_def fun_eq_iff split: option.split)

lemma steps_cleanup [simp]:
  "step_provisioning env (d\<lparr>dr_Cleanup := cl\<rparr>) = step_provisioning env d"
  "step_measuring env (d\<lparr>dr_Cleanup := cl\<rparr>) = step_measuring env d"
  "step_validating env (d\<lparr>dr_Cleanup := cl\<rparr>) = step_validating env d"
  "step_ranked env (d\<lparr>dr_Cleanup := cl\<rparr>) = step_ranked env d"
  "step_guarding env (d\<lparr>dr_Cleanup := cl\<rparr>) = step_guarding env d"
  by (auto simp: fun_eq_iff Let_def step_provisioning_def step_measuring_def step_validating_def step_ranked_def step_guarding_def split: prod.split sum.split)

lemma cleanup_of_terminal:
  assumes "\<And>w c. terminalWithoutCleanup (cr_State c) \<Longrightarrow> cl w c = dr_Cleanup d w c"
  shows "Step env (d\<lparr>dr_Cleanup := cl\<rparr>) = Step env d" "CancelCandidate env (d\<lparr>dr_Cleanup := cl\<rparr>) = CancelCandidate env d"
proof -
  have clean: "cleanup_candidate env (d\<lparr>dr_Cleanup := cl\<rparr>) db w g c = cleanup_candidate env d db w g c" if "terminalWithoutCleanup (cr_State c)" for db w g c
    using assms [OF that] by (auto simp: cleanup_candidate_def split: prod.split option.split)
  have "step_candidate env (d\<lparr>dr_Cleanup := cl\<rparr>) db w g cs c = step_candidate env d db w g cs c" for db w g cs c
    by (cases "terminalWithoutCleanup (cr_State c)") (auto simp: step_candidate_def clean Let_def split: sum.split campaign_error.split)
  then have "step_candidate env (d\<lparr>dr_Cleanup := cl\<rparr>) = step_candidate env d" by (simp add: fun_eq_iff)
  then show "Step env (d\<lparr>dr_Cleanup := cl\<rparr>) = Step env d" by (intro ext) (simp add: Step_def)
  have "(if terminalWithoutCleanup (cr_State c) then cleanup_candidate env (d\<lparr>dr_Cleanup := cl\<rparr>) db w g c else x) =
      (if terminalWithoutCleanup (cr_State c) then cleanup_candidate env d db w g c else x)" for db w g c x
    by (simp add: clean)
  then show "CancelCandidate env (d\<lparr>dr_Cleanup := cl\<rparr>) = CancelCandidate env d" by (intro ext) (simp add: CancelCandidate_def cong: if_cong)
qed

text \<open>C30.
  The coordinator never promotes. Whatever the driver answers, a step and a cancellation touch no
  other candidate, move their own candidate at most once and only along a legal move, never out of
  \<open>promoted\<close>, \<open>observed\<close> or \<open>cleaned\<close> and never into \<open>promoted\<close> or \<open>observed\<close>; and the
  driver's cleanup is asked only for candidates that are rejected, inconclusive, failed or cancelled: a
  driver that differs only in how it would clean up any other candidate makes no difference.
\<close>

theorem coordinator_never_promotes:
  assumes "distinct (map cr_ID (gd_candidates db))" and "run = Step \<or> run = CancelCandidate"
    and "run env d tenant campaignID i db w = (r, db', w')"
  shows "(\<forall>j. state_at db' j = state_at db j \<or>
      (j = i \<and> (\<exists>s to. state_at db i = Some s \<and> state_at db' i = Some to \<and> moves s to \<and>
         s \<notin> {''promoted'', ''observed'', ''cleaned''} \<and> to \<notin> {''promoted'', ''observed''}))) \<and>
    (\<forall>cl. (\<forall>w c. terminalWithoutCleanup (cr_State c) \<longrightarrow> cl w c = dr_Cleanup d w c) \<longrightarrow>
      run env (d\<lparr>dr_Cleanup := cl\<rparr>) tenant campaignID i db w = (r, db', w'))"
proof (intro conjI allI impI)
  have ok: "s \<notin> {''promoted'', ''observed'', ''cleaned''} \<and> to \<notin> {''promoted'', ''observed''}" if "moves s to" "boundary_target s to \<or> cancel_target s to" for s to
  proof -
    have "map_of candidateTransitions s \<noteq> None" using that(1) by (auto simp: moves_def ValidateCandidateTransition_def split: option.splits)
    then show ?thesis using that(2) by (auto simp: boundary_target_def boundary_moves_def cancel_target_def split: if_splits)
  qed
  have "boundary_effect boundary_target i db r db' \<or> boundary_effect cancel_target i db r db'"
    using assms Step_effect CancelCandidate_effect by metis
  then have other: "j \<noteq> i \<Longrightarrow> state_at db' j = state_at db j" and
    own: "db' = db \<or> (\<exists>s to. (boundary_target s to \<or> cancel_target s to) \<and> moves s to \<and> state_at db i = Some s \<and> state_at db' i = Some to)" for j
    unfolding boundary_effect_def by blast+
  show "state_at db' j = state_at db j \<or> (j = i \<and> (\<exists>s to. state_at db i = Some s \<and> state_at db' i = Some to \<and> moves s to \<and>
         s \<notin> {''promoted'', ''observed'', ''cleaned''} \<and> to \<notin> {''promoted'', ''observed''}))" for j
    using other [of j] own ok by (cases "j = i") (elim disjE exE, simp, blast, blast)
  fix cl
  assume "\<forall>w c. terminalWithoutCleanup (cr_State c) \<longrightarrow> cl w c = dr_Cleanup d w c"
  then have "Step env (d\<lparr>dr_Cleanup := cl\<rparr>) = Step env d" "CancelCandidate env (d\<lparr>dr_Cleanup := cl\<rparr>) = CancelCandidate env d"
    using cleanup_of_terminal [of cl d env] by simp_all
  then show "run env (d\<lparr>dr_Cleanup := cl\<rparr>) tenant campaignID i db w = (r, db', w')" using assms(2,3) by auto
qed

section \<open>The boundary limits\<close>

text \<open>How often a loop may go on from a state, counted over the states a loop goes on from.\<close>

definition goes_on :: "string \<Rightarrow> nat" where
  "goes_on s = length (filter (\<lambda>k. k < remaining s) [9, 8, 7, 6, 4, 1])"

lemma goes_on_mono: "remaining s' \<le> remaining s \<Longrightarrow> goes_on s' \<le> goes_on s"
  unfolding goes_on_def by (induction "[9, 8, 7, 6, 4, 1 :: nat]") auto

lemma goes_on_bounds: "goes_on s \<le> 6" "remaining s \<le> 5 \<Longrightarrow> goes_on s \<le> 2"
  by (auto simp: goes_on_def)

text \<open>What both limits rest on: the moves after which each loop goes on.\<close>

lemma boundary_goes_on:
  "list_all (\<lambda>(s, to). to \<in> set [''ranked'', ''cleaned'', ''qualified'', ''guard_passed''] \<or> goes_on to < goes_on s) boundary_moves"
  "list_all (\<lambda>(s, to). 5 < remaining s \<or> to \<in> set [''cleaned'', ''qualified'', ''guard_passed''] \<or> (goes_on to < goes_on s \<and> remaining to \<le> 5)) boundary_moves"
  by code_simp+

lemma boundary_move:
  assumes "boundary_target s to" "moves s to"
  shows "(s, to) \<in> set boundary_moves"
  using assms by (auto simp: boundary_target_def moves_def ValidateCandidateTransition_def split: option.splits)

text \<open>The errors a step may return, apart from those of the driver's cleanup, are never the limit.\<close>

definition driver_errors :: "'w driver \<Rightarrow> handler_error set" where
  "driver_errors d = {e. permanentCandidateFailure e = None} \<union> {e. \<exists>w c. fst (dr_Cleanup d w c) = Some e}"

definition reports :: "'w driver \<Rightarrow> (campaign_error + step_result) \<times> campaign_db \<times> 'w \<Rightarrow> bool" where
  "reports d out \<longleftrightarrow> (\<forall>e. fst out = Inl (Campaign_Driver e) \<longrightarrow> e \<in> driver_errors d)"

lemma reports_simps [simp]:
  "reports d (Inr x, db, w)" "reports d (Inl (Campaign_Store e), db, w)" "reports d (Inl Campaign_Authority, db, w)"
  "reports d (Inl (Campaign_Other m), db, w)" "reports d (move_to env d db w g c to updates)"
  by (auto simp: reports_def move_to_def co_transition_def split: prod.splits sum.splits)

lemma reports_driver_failed [simp]: "reports d (driver_failed env d db w g c e)"
  by (auto simp: driver_failed_def simp flip: move_to_def split: option.splits) (simp add: reports_def driver_errors_def)

lemma reports_cleanup [simp]: "reports d (cleanup_candidate env d db w g c)"
proof (cases "dr_Cleanup d w c")
  case (Pair res w')
  show ?thesis
  proof (cases res)
    case (Some e)
    then have "fst (dr_Cleanup d w c) = Some e" using Pair by simp
    then have "e \<in> driver_errors d" unfolding driver_errors_def by blast
    then show ?thesis using Pair Some by (simp add: cleanup_candidate_def reports_def)
  qed (simp add: Pair cleanup_candidate_def)
qed

lemma reports_steps [simp]:
  "reports d (step_provisioning env d db w g c budget)" "reports d (step_measuring env d db w g c budget)" "reports d (step_validating env d db w g c)"
  "reports d (step_ranked env d db w g c)" "reports d (step_guarding env d db w g c)"
  by (auto simp: step_provisioning_def step_measuring_def step_validating_def step_ranked_def step_guarding_def Let_def split: prod.split sum.split)

lemma reports_budget:
  "(\<And>x. reports d (f x)) \<Longrightarrow> campaign_budget now g cs = b \<Longrightarrow>
   reports d (case b of Inl Campaign_Expired \<Rightarrow> move_to env d db w g c to u | Inl e \<Rightarrow> (Inl e, db, w) | Inr x \<Rightarrow> f x)"
  by (auto simp: campaign_budget_def Let_def split: sum.split campaign_error.split if_splits option.splits)

lemma reports_step_candidate: "reports d (step_candidate env d db w g cs c)"
  unfolding step_candidate_def Let_def by (auto intro!: reports_budget)

lemma Step_failure:
  assumes "Step env d tenant campaignID i db w = (Inl e, db', w')" and "\<forall>w c. fst (dr_Cleanup d w c) \<noteq> Some loop_failure"
  shows "executionFailure e \<noteq> loop_failure"
proof -
  have "reports d (Step env d tenant campaignID i db w)"
    by (auto simp: Step_def with_candidate_def reports_step_candidate split: sum.split option.split)
  then have e: "\<And>f. e = Campaign_Driver f \<Longrightarrow> f \<in> driver_errors d" using assms(1) by (simp add: reports_def)
  show ?thesis
  proof
    assume "executionFailure e = loop_failure"
    then have "e = Campaign_Driver loop_failure"
      by (auto simp: executionFailure_def loop_failure_def Retryable_def Permanent_def split: campaign_error.splits store_error.splits handler_error.splits)
    then show False using e assms(2) by (auto simp: driver_errors_def permanentCandidateFailure_def loop_failure_def Permanent_def)
  qed
qed

text \<open>Whoever else works on the campaign between two boundaries keeps to legal moves.\<close>

definition lawful_checkpoint :: "(campaign_db \<Rightarrow> 'w \<Rightarrow> string option \<times> campaign_db \<times> 'w) \<Rightarrow> bool" where
  "lawful_checkpoint checkpoint \<longleftrightarrow> (\<forall>db w. lawful db (fst (snd (checkpoint db w))))"

definition lawful_advance :: "string \<Rightarrow> (campaign_db \<Rightarrow> 'w \<Rightarrow> (campaign_error + step_result) \<times> campaign_db \<times> 'w) \<Rightarrow> bool" where
  "lawful_advance i advance \<longleftrightarrow> (\<forall>db w. distinct (map cr_ID (gd_candidates db)) \<longrightarrow>
     boundary_effect boundary_target i db (fst (advance db w)) (fst (snd (advance db w))) \<and>
     (\<forall>e. fst (advance db w) = Inl e \<longrightarrow> executionFailure e \<noteq> loop_failure))"

lemma lawful_state: "lawful db db' \<Longrightarrow> state_at db i = Some s \<Longrightarrow> state_at db' i = Some s' \<Longrightarrow> remaining s' \<le> remaining s"
  unfolding lawful_def using moves_remaining by fastforce

lemma lawful_distinct: "lawful db db' \<Longrightarrow> distinct (map cr_ID (gd_candidates db)) \<Longrightarrow> distinct (map cr_ID (gd_candidates db'))"
  by (simp add: lawful_def)

text \<open>\<open>P\<close> is what the limit knows of the candidate's state, \<open>stops\<close> the states the loop is left at.\<close>

lemma boundary_loop_within:
  assumes "lawful_checkpoint checkpoint" "lawful_advance i advance"
    and step: "\<And>s to. P (remaining s) \<Longrightarrow> (s, to) \<in> set boundary_moves \<Longrightarrow> to \<in> set stops \<or> (goes_on to < goes_on s)"
    and mono: "\<And>m n. P n \<Longrightarrow> m \<le> n \<Longrightarrow> P m"
    and stop: "\<And>x. sr_To x \<in> set stops \<Longrightarrow> sr_WaitingForHuman x = (sr_To x = ''qualified'' \<or> sr_To x = ''guard_passed'') \<Longrightarrow> stop x"
  shows "distinct (map cr_ID (gd_candidates db)) \<Longrightarrow> \<forall>s. state_at db i \<in> {Some s, None} \<longrightarrow> goes_on s < n \<and> P (remaining s) \<Longrightarrow>
    boundary_loop n checkpoint advance stop db w = (r, db', w') \<Longrightarrow>
    r \<noteq> Inl loop_failure \<and> lawful db db' \<and>
    (\<forall>x. r = Inr x \<longrightarrow> state_at db' i = Some (sr_To x) \<and>
       (if sr_Progressed x then stop x \<and> sr_WaitingForHuman x = (sr_To x = ''qualified'' \<or> sr_To x = ''guard_passed'')
        else sr_To x \<in> set [''cleaned'', ''promoted'', ''observed'', ''qualified'', ''guard_passed'']))"
proof (induction n arbitrary: db w)
  case (Suc n)
  obtain err db1 w1 where chk: "checkpoint db w = (err, db1, w1)" by (cases "checkpoint db w") auto
  have l1: "lawful db db1" using assms(1) chk unfolding lawful_checkpoint_def by (metis fst_conv snd_conv)
  show ?case
  proof (cases err)
    case (Some e)
    then show ?thesis using Suc.prems(3) chk l1 by (auto simp: loop_failure_def Retryable_def Permanent_def)
  next
    case None
    obtain res db2 w2 where adv: "advance db1 w1 = (res, db2, w2)" by (cases "advance db1 w1") auto
    have d1: "distinct (map cr_ID (gd_candidates db1))" using lawful_distinct [OF l1 Suc.prems(1)] .
    have eff: "boundary_effect boundary_target i db1 res db2" "\<And>e. res = Inl e \<Longrightarrow> executionFailure e \<noteq> loop_failure"
      using assms(2) [unfolded lawful_advance_def, rule_format, OF d1, of w1] adv by auto
    then have l2: "lawful db db2" using lawful_trans [OF l1] by (simp add: boundary_effect_def)
    show ?thesis
    proof (cases res)
      case (Inl e)
      then show ?thesis using Suc.prems(3) chk None adv l2 eff(2) by auto
    next
      case (Inr x)
      then have x: "state_at db1 i = Some (sr_From x)" "state_at db2 i = Some (sr_To x)"
        and prog: "sr_Progressed x \<Longrightarrow> boundary_target (sr_From x) (sr_To x) \<and> moves (sr_From x) (sr_To x) \<and>
            sr_WaitingForHuman x = (sr_To x = ''qualified'' \<or> sr_To x = ''guard_passed'')"
        and rest: "\<not> sr_Progressed x \<Longrightarrow> sr_To x \<in> set [''cleaned'', ''promoted'', ''observed'', ''qualified'', ''guard_passed'']"
        using eff(1) by (auto simp: boundary_effect_def split: if_splits)
      show ?thesis
      proof (cases "stop x \<or> \<not> sr_Progressed x")
        case True
        then show ?thesis using Suc.prems(3) chk None adv Inr l2 x prog rest by auto
      next
        case False
        have s: "goes_on (sr_From x) < Suc n \<and> P (remaining (sr_From x))"
        proof (cases "state_at db i")
          case (Some s)
          then show ?thesis
            using lawful_state [OF l1 Some x(1)] Suc.prems(2) [rule_format, of s] mono goes_on_mono [of "sr_From x" s] by fastforce
        qed (use Suc.prems(2) in auto)
        have mv: "(sr_From x, sr_To x) \<in> set boundary_moves" using False prog boundary_move by blast
        have "sr_To x \<notin> set stops" using False stop prog by blast
        then have "goes_on (sr_To x) < goes_on (sr_From x)" using step [OF conjunct2 [OF s] mv] by blast
        then have n: "goes_on (sr_To x) < n" using s by linarith
        have "moves (sr_From x) (sr_To x)" using False prog by blast
        then have "P (remaining (sr_To x))" using mono [OF conjunct2 [OF s]] moves_decrease by (meson less_imp_le)
        then have "\<forall>s. state_at db2 i \<in> {Some s, None} \<longrightarrow> goes_on s < n \<and> P (remaining s)" using n x(2) by simp
        moreover have "boundary_loop n checkpoint advance stop db2 w2 = (r, db', w')" using Suc.prems(3) chk None adv Inr False by simp
        moreover have "distinct (map cr_ID (gd_candidates db2))" using lawful_distinct [OF l2 Suc.prems(1)] .
        ultimately show ?thesis using Suc.IH [of db2 w2] lawful_trans [OF l2] by blast
      qed
    qed
  qed
qed auto

lemma Step_lawful: "\<forall>w c. fst (dr_Cleanup d w c) \<noteq> Some loop_failure \<Longrightarrow> lawful_advance i (Step env d tenant campaignID i)"
  unfolding lawful_advance_def by (metis Step_effect Step_failure prod.collapse)

text \<open>A phase over the candidates, when each loop keeps the law, avoids the limit and leaves its candidate in a stable condition.\<close>

lemma candidates_phase_within:
  assumes loop: "\<And>i db w r db' w'. loop i db w = (r, db', w') \<Longrightarrow> distinct (map cr_ID (gd_candidates db)) \<Longrightarrow> pre i db \<Longrightarrow>
      r \<noteq> Inl loop_failure \<and> lawful db db' \<and> (\<forall>x. r = Inr x \<longrightarrow> post i db')"
    and stable: "\<And>i db db'. lawful db db' \<Longrightarrow> (pre i db \<longrightarrow> pre i db') \<and> (post i db \<longrightarrow> post i db')"
  shows "candidates_phase loop is db w = (r, db', w') \<Longrightarrow> distinct (map cr_ID (gd_candidates db)) \<Longrightarrow> \<forall>i \<in> set is. pre i db \<Longrightarrow>
    r \<noteq> Inl loop_failure \<and> lawful db db' \<and> (\<forall>x. r = Inr x \<longrightarrow> (\<forall>i \<in> set is. post i db'))"
proof (induction "is" arbitrary: db w r db' w')
  case (Cons i rest)
  obtain res db1 w1 where one: "loop i db w = (res, db1, w1)" by (cases "loop i db w") auto
  then have first: "res \<noteq> Inl loop_failure" "lawful db db1" "\<And>x. res = Inr x \<Longrightarrow> post i db1" using loop [OF one Cons.prems(2)] Cons.prems(3) by auto
  show ?case
  proof (cases res)
    case (Inl e)
    then show ?thesis using Cons.prems(1) one first by auto
  next
    case (Inr x)
    obtain res2 db2 w2 where more: "candidates_phase loop rest db1 w1 = (res2, db2, w2)" by (cases "candidates_phase loop rest db1 w1") auto
    have "\<forall>i \<in> set rest. pre i db1" using Cons.prems(3) stable [OF first(2)] by auto
    then have tail: "res2 \<noteq> Inl loop_failure" "lawful db1 db2" "\<And>x. res2 = Inr x \<Longrightarrow> \<forall>i \<in> set rest. post i db2"
      using Cons.IH [OF more lawful_distinct [OF first(2) Cons.prems(2)]] by auto
    have "lawful db db2" "post i db2" using lawful_trans [OF first(2) tail(2)] stable [OF tail(2), of i] first(3) [OF Inr] by auto
    then show ?thesis using Cons.prems(1) one more Inr tail by (cases res2) auto
  qed
qed auto

text \<open>A candidate at the ranking barrier or past it.\<close>

definition settled :: "string \<Rightarrow> campaign_db \<Rightarrow> bool" where
  "settled i db \<longleftrightarrow> (\<exists>s. state_at db i = Some s \<and> remaining s \<le> 5)"

lemma settled_stable: "lawful db db' \<Longrightarrow> settled i db \<Longrightarrow> settled i db'"
  using lawful_state [of db db' i] unfolding settled_def lawful_def by (metis le_trans)

lemma ranking_loop:
  assumes "lawful_checkpoint checkpoint" "lawful_advance i advance" "distinct (map cr_ID (gd_candidates db))"
    and run: "boundary_loop 8 checkpoint advance stop_ranked db w = (r, db', w')"
  shows "r \<noteq> Inl loop_failure \<and> lawful db db' \<and> (\<forall>x. r = Inr x \<longrightarrow> settled i db')"
proof -
  have "r \<noteq> Inl loop_failure \<and> lawful db db' \<and> (\<forall>x. r = Inr x \<longrightarrow> state_at db' i = Some (sr_To x) \<and>
     (if sr_Progressed x then stop_ranked x \<and> sr_WaitingForHuman x = (sr_To x = ''qualified'' \<or> sr_To x = ''guard_passed'')
      else sr_To x \<in> set [''cleaned'', ''promoted'', ''observed'', ''qualified'', ''guard_passed'']))"
  proof (rule boundary_loop_within [where P = "\<lambda>_. True" and stops = "[''ranked'', ''cleaned'', ''qualified'', ''guard_passed'']"])
    show "\<forall>s. state_at db i \<in> {Some s, None} \<longrightarrow> goes_on s < 8 \<and> True" by (auto intro: le_less_trans [OF goes_on_bounds(1)])
    show "stop_ranked x" if "sr_To x \<in> set [''ranked'', ''cleaned'', ''qualified'', ''guard_passed'']" "sr_WaitingForHuman x = (sr_To x = ''qualified'' \<or> sr_To x = ''guard_passed'')" for x
      using that by (auto simp: stop_ranked_def)
  qed (use assms boundary_goes_on(1) in \<open>auto simp: list_all_iff\<close>)
  moreover have "remaining (sr_To x) \<le> 5" if "sr_To x \<in> set [''cleaned'', ''promoted'', ''observed'', ''qualified'', ''guard_passed'', ''ranked'']" for x
    using that by (auto simp: remaining_def)
  ultimately show ?thesis unfolding settled_def by (auto simp: stop_ranked_def split: if_splits)
qed

lemma finishing_loop:
  assumes "lawful_checkpoint checkpoint" "lawful_advance i advance" "distinct (map cr_ID (gd_candidates db))"
    and run: "boundary_loop 3 checkpoint advance stop_finished db w = (r, db', w')" and settled: "settled i db"
  shows "r \<noteq> Inl loop_failure \<and> lawful db db'"
proof -
  have "r \<noteq> Inl loop_failure \<and> lawful db db' \<and> (\<forall>x. r = Inr x \<longrightarrow> state_at db' i = Some (sr_To x) \<and>
     (if sr_Progressed x then stop_finished x \<and> sr_WaitingForHuman x = (sr_To x = ''qualified'' \<or> sr_To x = ''guard_passed'')
      else sr_To x \<in> set [''cleaned'', ''promoted'', ''observed'', ''qualified'', ''guard_passed'']))"
  proof (rule boundary_loop_within [where P = "\<lambda>n. n \<le> 5" and stops = "[''cleaned'', ''qualified'', ''guard_passed'']"])
    show "\<forall>s. state_at db i \<in> {Some s, None} \<longrightarrow> goes_on s < 3 \<and> remaining s \<le> 5"
      using settled unfolding settled_def by (auto intro: le_less_trans [OF goes_on_bounds(2)])
    show "to \<in> set [''cleaned'', ''qualified'', ''guard_passed''] \<or> goes_on to < goes_on s" if "remaining s \<le> 5" "(s, to) \<in> set boundary_moves" for s to
      using that boundary_goes_on(2) by (fastforce simp: list_all_iff)
    show "stop_finished x" if "sr_To x \<in> set [''cleaned'', ''qualified'', ''guard_passed'']" "sr_WaitingForHuman x = (sr_To x = ''qualified'' \<or> sr_To x = ''guard_passed'')" for x
      using that by (auto simp: stop_finished_def)
  qed (use assms in auto)
  then show ?thesis by simp
qed

text \<open>The boundary limits are never the reason to stop. A candidate needs at most seven boundaries to reach
  the ranking barrier, human approval or cleanup, and at most three from the barrier on, so the
  execution handler never gives a campaign up as a state loop, even when other workers move candidates
  between the boundaries, as long as they keep to legal moves and the driver's own cleanup does not
  report that error.
\<close>

theorem no_state_loop:
  assumes "distinct (map cr_ID (gd_candidates db))" and "\<forall>i. lawful_checkpoint (checkpoint i)"
    and "\<forall>w c. fst (dr_Cleanup d w c) \<noteq> Some loop_failure"
  shows "fst (execute_handler env d checkpoint tenant campaignID candidates db w) \<noteq> Inl loop_failure \<and>
    lawful db (fst (snd (execute_handler env d checkpoint tenant campaignID candidates db w)))"
proof (cases "ExecuteRequest_Validate tenant campaignID candidates")
  case None
  let ?rank = "\<lambda>i. boundary_loop 8 (checkpoint i) (Step env d tenant campaignID i) stop_ranked"
  let ?finish = "\<lambda>i. boundary_loop 3 (checkpoint i) (Step env d tenant campaignID i) stop_finished"
  note laws = spec [OF assms(2)] Step_lawful [OF assms(3)]
  obtain r1 db1 w1 where one: "candidates_phase ?rank candidates db w = (r1, db1, w1)" by (cases "candidates_phase ?rank candidates db w") auto
  have "r1 \<noteq> Inl loop_failure \<and> lawful db db1 \<and> (\<forall>x. r1 = Inr x \<longrightarrow> (\<forall>i \<in> set candidates. settled i db1))"
    by (rule candidates_phase_within [where pre = "\<lambda>_ _. True" and post = settled, OF _ _ one assms(1)])
      (auto dest: ranking_loop [OF laws] settled_stable)
  then have first: "r1 \<noteq> Inl loop_failure" "lawful db db1" "\<And>x. r1 = Inr x \<Longrightarrow> \<forall>i \<in> set candidates. settled i db1" by auto
  obtain r2 db2 w2 where two: "candidates_phase ?finish candidates db1 w1 = (r2, db2, w2)" by (cases "candidates_phase ?finish candidates db1 w1") auto
  have second: "r2 \<noteq> Inl loop_failure \<and> lawful db1 db2 \<and> (\<forall>x. r2 = Inr x \<longrightarrow> (\<forall>i \<in> set candidates. True))" if "r1 = Inr x" for x
    by (rule candidates_phase_within [where pre = settled and post = "\<lambda>_ _. True", OF _ _ two lawful_distinct [OF first(2) assms(1)] first(3) [OF that]])
      (use finishing_loop [OF laws] settled_stable in \<open>blast+\<close>)
  have "lawful db2 (fst (snd (checkpoint ''awaiting-activation'' db2 w2)))" using assms(2) by (simp add: lawful_checkpoint_def)
  then show ?thesis using None one two first second lawful_trans [OF first(2)] lawful_trans [of db1 db2]
    by (auto simp: execute_handler_def loop_failure_def Retryable_def Permanent_def split: sum.split prod.split option.split)
qed (simp add: execute_handler_def loop_failure_def Permanent_def)

section \<open>The evidence of a candidate\<close>

text \<open>The operations of the store, in any order.\<close>

inductive campaign_step :: "campaign_env \<Rightarrow> campaign_db \<Rightarrow> campaign_db \<Rightarrow> bool" for env where
  create: "CreateOptimizationCampaign env stamp i ids db g cs = (r, created, db') \<Longrightarrow> campaign_step env db db'"
| approve: "ApproveOptimizationCampaign now db tenant i actor cost expiry = (r, db') \<Longrightarrow> campaign_step env db db'"
| cancel: "CancelOptimizationCampaign stamp db tenant i = (r, db') \<Longrightarrow> campaign_step env db db'"
| transition: "TransitionOptimizationCandidate env now db tenant g i from to updates = (r, db') \<Longrightarrow> campaign_step env db db'"

definition no_campaigns :: campaign_db where
  "no_campaigns = \<lparr>gd_campaigns = [], gd_candidates = []\<rparr>"

definition campaign_reachable :: "campaign_env \<Rightarrow> campaign_db \<Rightarrow> bool" where
  "campaign_reachable env = (campaign_step env)\<^sup>*\<^sup>* no_campaigns"

text \<open>The identities a state rests on, and what the store makes a transition bring.\<close>

definition evidence_fields :: "(string \<times> (candidate \<Rightarrow> string)) list" where
  "evidence_fields = [(''deployment'', cr_DeploymentName), (''revision'', cr_RevisionID), (''benchmark'', cr_BenchmarkID),
     (''quality'', cr_QualityEvidenceID), (''lab'', cr_LabEvaluationID), (''guard'', cr_ReleaseGuardEvaluationID)]"

definition rests_on :: "string \<Rightarrow> string list" where
  "rests_on s =
     (if s \<in> set [''ready'', ''measuring''] then [''deployment'', ''revision'']
      else if s = ''validating'' then [''deployment'', ''revision'', ''benchmark'']
      else if s = ''ranked'' then [''deployment'', ''revision'', ''benchmark'', ''quality'']
      else if s \<in> set [''qualified'', ''guarding'', ''promoted'', ''observed''] then [''deployment'', ''revision'', ''benchmark'', ''quality'', ''lab'']
      else if s = ''guard_passed'' then [''deployment'', ''revision'', ''benchmark'', ''quality'', ''lab'', ''guard'']
      else [])"

definition carries :: "candidate \<Rightarrow> string \<Rightarrow> bool" where
  "carries c name \<longleftrightarrow> (case map_of evidence_fields name of None \<Rightarrow> False | Some field \<Rightarrow> field c \<noteq> '''')"

definition brings :: "string \<Rightarrow> string \<Rightarrow> string list" where
  "brings from to =
     (if to = ''ready'' then [''deployment'', ''revision''] else if to = ''validating'' then [''benchmark'']
      else if to = ''ranked'' then [''benchmark'', ''quality'']
      else if to \<in> set [''qualified'', ''guarding'', ''rejected'', ''inconclusive''] \<and> from = ''ranked'' then [''lab'']
      else if to = ''guard_passed'' then [''guard''] else [])"

lemma refusal_brings: "transition_refusal env from to updates = None \<Longrightarrow> f \<in> set (brings from to) \<Longrightarrow> carries updates f"
  by (auto simp: transition_refusal_def brings_def carries_def evidence_fields_def split: option.splits if_splits sum.splits)

lemma ladder_table:
  "list_all (\<lambda>(from, allowed). list_all (\<lambda>to. list_all (\<lambda>f. f \<in> set (rests_on from) \<or> f \<in> set (brings from to)) (rests_on to)) allowed) candidateTransitions"
  by code_simp

lemma rests_on_step:
  assumes "transition_refusal env from to updates = None" "f \<in> set (rests_on to)"
  shows "f \<in> set (rests_on from) \<or> carries updates f"
proof (cases "from = to")
  case False
  then have "moves from to" using refusal_moves [OF assms(1)] by simp
  then have "f \<in> set (rests_on from) \<or> f \<in> set (brings from to)" using ladder_table assms(2) by (fastforce simp: moves_listed list_all_iff)
  then show ?thesis using refusal_brings [OF assms(1)] by blast
qed (use assms in simp)

lemma carries_updates: "carries c f \<or> carries updates f \<Longrightarrow> carries (apply_updates now to evidence updates c) f"
  by (auto simp: carries_def evidence_fields_def apply_updates_def keep_or_def split: if_splits)

text \<open>The evidence class a row may have in its state, and the part of the campaign's intent in it.\<close>

definition evidence_matches :: "candidate \<Rightarrow> bool" where
  "evidence_matches c \<longleftrightarrow> EvidenceForState (cr_State c) = Inr (cr_EvidenceState c) \<or>
     (EvidenceForState (cr_State c) = Inr ''unmeasured'' \<and> cr_EvidenceState c = ''modeled'')"

definition intent_matches :: "campaign \<Rightarrow> candidate \<Rightarrow> bool" where
  "intent_matches g c \<longleftrightarrow> (cr_State c = ''qualified'' \<longrightarrow> cg_Intent g = ''new_endpoint'') \<and>
     (cr_State c \<in> {''promoted'', ''observed''} \<and> cg_Intent g \<noteq> ''new_endpoint'' \<longrightarrow> carries c ''guard'')"

definition evidenced :: "campaign_db \<Rightarrow> bool" where
  "evidenced db \<longleftrightarrow> distinct (map cr_ID (gd_candidates db)) \<and> distinct (map cg_ID (gd_campaigns db)) \<and>
     (\<forall>c \<in> set (gd_candidates db). (\<forall>f \<in> set (rests_on (cr_State c)). carries c f) \<and> evidence_matches c \<and>
        (\<exists>g \<in> set (gd_campaigns db). campaign_at (cr_TenantID c) (cr_CampaignID c) g \<and> intent_matches g c))"

text \<open>No operation but the creation changes the identity or the intent of a campaign.\<close>

definition same_campaigns :: "campaign list \<Rightarrow> campaign list \<Rightarrow> bool" where
  "same_campaigns xs ys \<longleftrightarrow> (\<exists>f. ys = map f xs \<and> (\<forall>g. cg_ID (f g) = cg_ID g \<and> cg_TenantID (f g) = cg_TenantID g \<and> cg_Intent (f g) = cg_Intent g))"

lemma same_refl [simp]: "same_campaigns xs xs"
  unfolding same_campaigns_def by (rule exI [of _ id]) simp

lemma same_upd [simp]:
  "(\<And>g. cg_ID (h g) = cg_ID g \<and> cg_TenantID (h g) = cg_TenantID g \<and> cg_Intent (h g) = cg_Intent g) \<Longrightarrow> same_campaigns xs (upd_where P h xs)"
  unfolding same_campaigns_def upd_where_def by (rule exI [of _ "\<lambda>g. if P g then h g else g"]) simp

lemma transition_same:
  "TransitionOptimizationCandidate env now db tenant g i from to updates = (res, db') \<Longrightarrow> same_campaigns (gd_campaigns db) (gd_campaigns db')"
  unfolding TransitionOptimizationCandidate_def Let_def by (auto split: option.splits if_splits sum.splits)

lemma approve_effect:
  "ApproveOptimizationCampaign now db tenant i actor cost expiry = (r, db') \<Longrightarrow>
     same_campaigns (gd_campaigns db) (gd_campaigns db') \<and> gd_candidates db' = gd_candidates db"
  unfolding ApproveOptimizationCampaign_def Let_def by (auto split: option.splits if_splits sum.splits prod.splits)

lemma cancel_effect:
  "CancelOptimizationCampaign stamp db tenant i = (r, db') \<Longrightarrow> same_campaigns (gd_campaigns db) (gd_campaigns db') \<and>
     (db' = db \<or> gd_candidates db' = upd_where (\<lambda>c. cr_TenantID c = tenant \<and> cr_CampaignID c = i \<and> cr_State c \<in> set active_states)
        (\<lambda>c. c\<lparr>cr_State := ''cancelled'', cr_EvidenceState := ''stale'', cr_UpdatedAt := stamp\<rparr>) (gd_candidates db))"
  unfolding CancelOptimizationCampaign_def Let_def by (auto split: option.splits if_splits sum.splits)

lemma create_effect:
  assumes "CreateOptimizationCampaign env stamp i ids db g0 cs = (r, created, db')"
  shows "db' = db \<or> (\<exists>g. gd_campaigns db' = gd_campaigns db @ [g] \<and> gd_candidates db' = gd_candidates db @ map (insert_candidate stamp g) (zip ids cs) \<and>
    cg_ID g \<notin> cg_ID ` set (gd_campaigns db) \<and> length ids = length cs \<and> distinct ids \<and> (\<forall>c \<in> set (gd_candidates db). cr_ID c \<notin> set ids) \<and>
    validateOptimizationCampaign env g0 cs = None)"
  using assms unfolding CreateOptimizationCampaign_def Let_def
  by (auto split: option.splits if_splits simp: list_ex_iff intro!: exI)

text \<open>A change of candidate rows alone, row by row.\<close>

lemma evidenced_rows:
  assumes ev: "evidenced db" and same: "same_campaigns (gd_campaigns db) (gd_campaigns db')" and rows: "gd_candidates db' = map h (gd_candidates db)"
    and keys: "\<And>c. cr_ID (h c) = cr_ID c \<and> cr_TenantID (h c) = cr_TenantID c \<and> cr_CampaignID (h c) = cr_CampaignID c"
    and row: "\<And>c g. c \<in> set (gd_candidates db) \<Longrightarrow> \<forall>f \<in> set (rests_on (cr_State c)). carries c f \<Longrightarrow> evidence_matches c \<Longrightarrow>
      g \<in> set (gd_campaigns db) \<Longrightarrow> campaign_at (cr_TenantID c) (cr_CampaignID c) g \<Longrightarrow> intent_matches g c \<Longrightarrow>
      (\<forall>f \<in> set (rests_on (cr_State (h c))). carries (h c) f) \<and> evidence_matches (h c) \<and> intent_matches g (h c)"
  shows "evidenced db'"
proof -
  obtain f where f: "gd_campaigns db' = map f (gd_campaigns db)" "\<And>g. cg_ID (f g) = cg_ID g \<and> cg_TenantID (f g) = cg_TenantID g \<and> cg_Intent (f g) = cg_Intent g"
    using same unfolding same_campaigns_def by blast
  have ids: "map cr_ID (gd_candidates db') = map cr_ID (gd_candidates db)" "map cg_ID (gd_campaigns db') = map cg_ID (gd_campaigns db)"
    by (simp_all add: rows f keys)
  have "(\<forall>f \<in> set (rests_on (cr_State (h c))). carries (h c) f) \<and> evidence_matches (h c) \<and>
      (\<exists>g \<in> set (gd_campaigns db'). campaign_at (cr_TenantID (h c)) (cr_CampaignID (h c)) g \<and> intent_matches g (h c))" if c: "c \<in> set (gd_candidates db)" for c
  proof -
    obtain g where g: "g \<in> set (gd_campaigns db)" "campaign_at (cr_TenantID c) (cr_CampaignID c) g" "intent_matches g c"
      "\<forall>f \<in> set (rests_on (cr_State c)). carries c f" "evidence_matches c"
      using ev c unfolding evidenced_def by blast
    have "f g \<in> set (gd_campaigns db')" using g(1) f(1) by simp
    moreover have "campaign_at (cr_TenantID (h c)) (cr_CampaignID (h c)) (f g)" using g(2) f(2) keys by (simp add: campaign_at_def)
    moreover have "intent_matches (f g) (h c) = intent_matches g (h c)" using f(2) by (simp add: intent_matches_def)
    ultimately show ?thesis using row [OF c g(4,5,1,2,3)] by blast
  qed
  then show ?thesis using ev ids unfolding evidenced_def rows set_map by (metis (no_types, lifting) imageE)
qed

lemma evidence_applied:
  assumes "EvidenceForState to = Inr evidence"
  shows "evidence_matches (apply_updates now to evidence updates c)"
  using assms by (auto simp: evidence_matches_def apply_updates_def)

lemma promoted_table:
  "list_all (\<lambda>(from, allowed). (''promoted'' \<in> set allowed \<longrightarrow> from \<in> set [''qualified'', ''guard_passed'']) \<and>
     (''observed'' \<in> set allowed \<longrightarrow> from = ''promoted'')) candidateTransitions"
  by code_simp

lemma promoted_from: "moves from ''promoted'' \<Longrightarrow> from \<in> {''qualified'', ''guard_passed''}" "moves from ''observed'' \<Longrightarrow> from = ''promoted''"
  using promoted_table unfolding moves_listed list_all_iff by (force, blast)

lemma identity_qualified:
  assumes "intent \<noteq> ''new_endpoint''"
  shows "identity_refusal env tenant intent ''qualified'' c updates = Some (ErrOther ''only a new-endpoint campaign may qualify without Release Guard'')"
  unfolding identity_refusal_def Let_def by (rule if_P) (use assms in simp)

lemma intent_applied:
  assumes im: "intent_matches g c" and carried: "\<forall>f \<in> set (rests_on (cr_State c)). carries c f"
    and legal: "transition_refusal env (cr_State c) to updates = None" and identity: "identity_refusal env tenant (cg_Intent g) to c updates = None"
  shows "intent_matches g (apply_updates now to evidence updates c)"
proof -
  let ?c = "apply_updates now to evidence updates c"
  have "cg_Intent g = ''new_endpoint''" if "to = ''qualified''"
    using identity identity_qualified [of "cg_Intent g" env tenant c updates] that by auto
  moreover have "carries c ''guard''" if "to \<in> {''promoted'', ''observed''}" "cg_Intent g \<noteq> ''new_endpoint''"
  proof -
    have "cr_State c \<in> {''promoted'', ''observed'', ''guard_passed''}"
      using that im refusal_moves [OF legal] promoted_from [of "cr_State c"] by (cases "cr_State c = to") (auto simp: intent_matches_def)
    then show ?thesis using im that carried by (auto simp: intent_matches_def rests_on_def)
  qed
  ultimately show ?thesis unfolding intent_matches_def using carries_updates [of c "''guard''"] by (simp add: apply_updates_def)
qed

lemma unique_campaign:
  "distinct (map cg_ID (gd_campaigns db)) \<Longrightarrow> g \<in> set (gd_campaigns db) \<Longrightarrow> g' \<in> set (gd_campaigns db) \<Longrightarrow> campaign_at tenant i g \<Longrightarrow>
   campaign_at tenant i g' \<Longrightarrow> g = g'"
  by (auto simp: campaign_at_def distinct_map inj_on_def)

lemma transition_evidenced:
  assumes t: "TransitionOptimizationCandidate env now db tenant campaignID i from to updates = (res, db')" and ev: "evidenced db"
  shows "evidenced db'"
proof -
  have d: "distinct (map cr_ID (gd_candidates db))" "distinct (map cg_ID (gd_campaigns db))" using ev by (simp_all add: evidenced_def)
  from transition_effect [OF t d(1)] show ?thesis
  proof (elim disjE conjE exE)
    fix c camp evidence
    assume c: "c \<in> set (gd_candidates db)" "cr_ID c = i" "cr_State c = from" "cr_TenantID c = tenant" "cr_CampaignID c = campaignID"
      and camp: "camp \<in> set (gd_campaigns db)" "campaign_at tenant campaignID camp"
      and legal: "transition_refusal env from to updates = None" "identity_refusal env tenant (cg_Intent camp) to c updates = None"
      and evidence: "EvidenceForState to = Inr evidence"
      and gd: "gd_candidates db' = map (\<lambda>x. if cr_ID x = i then apply_updates now to evidence updates x else x) (gd_candidates db)"
    show ?thesis
    proof (rule evidenced_rows [OF ev transition_same [OF t] gd])
      fix x g
      assume x: "x \<in> set (gd_candidates db)" "\<forall>f \<in> set (rests_on (cr_State x)). carries x f" "evidence_matches x"
        "g \<in> set (gd_campaigns db)" "campaign_at (cr_TenantID x) (cr_CampaignID x) g" "intent_matches g x"
      let ?h = "if cr_ID x = i then apply_updates now to evidence updates x else x"
      show "(\<forall>f \<in> set (rests_on (cr_State ?h)). carries ?h f) \<and> evidence_matches ?h \<and> intent_matches g ?h"
      proof (cases "cr_ID x = i")
        case True
        then have xc: "x = c" using d(1) c(1,2) x(1) by (auto simp: distinct_map inj_on_def)
        then have "g = camp" using unique_campaign [OF d(2) x(4) camp(1)] x(5) camp(2) c(4,5) by simp
        then have "intent_matches g (apply_updates now to evidence updates c)"
          using intent_applied [of g c env to updates tenant] x(2,6) xc legal c(3) by simp
        moreover have "carries (apply_updates now to evidence updates c) f" if "f \<in> set (rests_on to)" for f
          using rests_on_step [OF legal(1) that] carries_updates x(2) xc c(3) by blast
        ultimately show ?thesis using True xc evidence_applied [OF evidence] by (simp add: apply_updates_def)
      qed (use x in simp)
    qed (simp add: apply_updates_def)
  qed (use ev in simp)
qed

lemma cancel_evidenced:
  assumes "CancelOptimizationCampaign stamp db tenant i = (r, db')" and ev: "evidenced db"
  shows "evidenced db'"
  using cancel_effect [OF assms(1)]
proof (elim conjE disjE)
  assume same: "same_campaigns (gd_campaigns db) (gd_campaigns db')" and gd: "gd_candidates db' = upd_where
      (\<lambda>c. cr_TenantID c = tenant \<and> cr_CampaignID c = i \<and> cr_State c \<in> set active_states)
      (\<lambda>c. c\<lparr>cr_State := ''cancelled'', cr_EvidenceState := ''stale'', cr_UpdatedAt := stamp\<rparr>) (gd_candidates db)"
  have cancelled: "rests_on (cr_State x) = [] \<and> evidence_matches x \<and> intent_matches g x" if "cr_State x = ''cancelled''" "cr_EvidenceState x = ''stale''" for x g
    using that by (simp add: rests_on_def evidence_matches_def EvidenceForState_def intent_matches_def)
  show ?thesis
    by (rule evidenced_rows [OF ev same gd [unfolded upd_where_def]]) (simp_all add: cancelled [of "x\<lparr>cr_State := ''cancelled'', cr_EvidenceState := ''stale'', cr_UpdatedAt := stamp\<rparr>" for x, simplified] rests_on_def)
qed (use ev in simp)

lemma approve_evidenced:
  assumes "ApproveOptimizationCampaign now db tenant i actor cost expiry = (r, db')" and ev: "evidenced db"
  shows "evidenced db'"
  using approve_effect [OF assms(1)] by (intro evidenced_rows [OF ev, where h = id]) auto

lemma loop_fresh: "candidates_loop env n cs seen ranks = None \<Longrightarrow> c \<in> set cs \<Longrightarrow> cr_EvidenceState c \<in> {''unmeasured'', ''modeled''}"
  by (induction env n cs seen ranks rule: candidates_loop.induct) (auto split: if_splits)

lemma create_evidenced:
  assumes create: "CreateOptimizationCampaign env stamp i ids db g0 cs = (r, created, db')" and ev: "evidenced db"
  shows "evidenced db'"
  using create_effect [OF create]
proof (elim disjE exE conjE)
  fix g
  assume gd: "gd_campaigns db' = gd_campaigns db @ [g]" "gd_candidates db' = gd_candidates db @ map (insert_candidate stamp g) (zip ids cs)"
    and fresh: "cg_ID g \<notin> cg_ID ` set (gd_campaigns db)" "length ids = length cs" "distinct ids" "\<forall>c \<in> set (gd_candidates db). cr_ID c \<notin> set ids"
    and valid: "validateOptimizationCampaign env g0 cs = None"
  have "cr_EvidenceState c \<in> {''unmeasured'', ''modeled''}" if "c \<in> set cs" for c
    using valid loop_fresh [OF _ that] by (auto simp: validateOptimizationCampaign_def split: if_splits)
  moreover have "evidence_matches x" if "cr_State x = ''proposed''" "cr_EvidenceState x \<in> {''unmeasured'', ''modeled''}" for x
    using that by (auto simp: evidence_matches_def EvidenceForState_def)
  ultimately have new: "rests_on (cr_State x) = [] \<and> evidence_matches x \<and> campaign_at (cr_TenantID x) (cr_CampaignID x) g \<and> intent_matches g x"
    if "x \<in> set (map (insert_candidate stamp g) (zip ids cs))" for x
    using that by (auto simp: insert_candidate_def rests_on_def intent_matches_def campaign_at_def dest!: set_zip_rightD)
  have "map (\<lambda>x. cr_ID (insert_candidate stamp g x)) (zip ids cs) = ids"
    using map_fst_zip [OF fresh(2)] by (simp add: insert_candidate_def case_prod_beta)
  then have "distinct (map cr_ID (gd_candidates db'))" using ev fresh(3,4) by (auto simp: gd evidenced_def comp_def)
  then show ?thesis using ev fresh(1) new unfolding evidenced_def gd set_append map_append by (auto 0 4)
qed (use ev in simp)

text \<open>Every operation of the store is lawful.\<close>

lemma state_at_rows:
  assumes "gd_candidates db' = map h (gd_candidates db)" "\<And>c. cr_ID (h c) = cr_ID c"
  shows "state_at db' i = map_option (\<lambda>c. cr_State (h c)) (find (\<lambda>c. cr_ID c = i) (gd_candidates db))"
proof -
  have "find (\<lambda>c. cr_ID c = i) (map h rows) = map_option h (find (\<lambda>c. cr_ID c = i) rows)" for rows
    by (induction rows) (simp_all add: assms(2))
  then show ?thesis by (simp add: state_at_def assms(1) option.map_comp comp_def)
qed

lemma rows_lawful:
  assumes gd: "gd_candidates db' = map h (gd_candidates db)" and ids: "\<And>c. cr_ID (h c) = cr_ID c" and mv: "\<And>c. moves\<^sup>*\<^sup>* (cr_State c) (cr_State (h c))"
  shows "lawful db db'"
proof -
  have "map cr_ID (gd_candidates db') = map cr_ID (gd_candidates db)" by (simp add: gd ids)
  then show ?thesis unfolding lawful_def state_at_rows [OF gd ids] using mv by (auto simp: state_at_def)
qed

lemma active_cancel: "s \<in> set active_states \<Longrightarrow> moves s ''cancelled''"
proof -
  have "list_all (\<lambda>s. s \<noteq> ''cancelled'' \<and> ValidateCandidateTransition s ''cancelled'' = None) active_states" by code_simp
  then show "s \<in> set active_states \<Longrightarrow> moves s ''cancelled''" by (auto simp: list_all_iff moves_def)
qed

lemma cancel_lawful:
  assumes "CancelOptimizationCampaign stamp db tenant i = (r, db')"
  shows "lawful db db'"
proof (cases "db' = db")
  case False
  let ?P = "\<lambda>c. cr_TenantID c = tenant \<and> cr_CampaignID c = i \<and> cr_State c \<in> set active_states"
  let ?h = "\<lambda>c. if ?P c then c\<lparr>cr_State := ''cancelled'', cr_EvidenceState := ''stale'', cr_UpdatedAt := stamp\<rparr> else c"
  have gd: "gd_candidates db' = map ?h (gd_candidates db)" using cancel_effect [OF assms] False by (simp add: upd_where_def)
  show ?thesis by (rule rows_lawful [OF gd]) (use active_cancel in auto)
qed simp

lemma approve_lawful:
  assumes "ApproveOptimizationCampaign now db tenant i actor cost expiry = (r, db')"
  shows "lawful db db'"
  using approve_effect [OF assms] by (auto simp: lawful_def state_at_def)

lemma find_append_some: "find P xs = Some x \<Longrightarrow> find P (xs @ ys) = Some x"
  by (induction xs) (auto split: if_splits)

lemma create_lawful:
  assumes "CreateOptimizationCampaign env stamp i ids db g0 cs = (r, created, db')" and "evidenced db"
  shows "lawful db db'"
proof -
  have "distinct (map cr_ID (gd_candidates db'))" using create_evidenced [OF assms] by (simp add: evidenced_def)
  moreover have "state_at db j = Some s \<Longrightarrow> state_at db' j = Some s" for j s
    using create_effect [OF assms(1)] by (auto simp: state_at_def find_append_some)
  ultimately show ?thesis by (auto simp: lawful_def)
qed

text \<open>C31.
  A state is evidence. In every database the store's operations can produce, in any order and with any
  arguments, each candidate carries the identities its state rests on: a deployment and a revision from
  \<open>ready\<close> on, a benchmark from \<open>validating\<close> on, quality evidence from \<open>ranked\<close> on, the persisted
  ranking from the rank decision on, Release Guard evidence in \<open>guard_passed\<close>; a promoted candidate of
  a campaign that evolves an existing endpoint carries Release Guard evidence too; and the evidence
  class is the one of the state. Every operation keeps to legal moves.
\<close>

theorem evidence_ladder:
  assumes "campaign_reachable env db"
  shows "evidenced db \<and> (\<forall>db'. campaign_step env db db' \<longrightarrow> lawful db db')"
proof
  show ev: "evidenced db"
    using assms unfolding campaign_reachable_def
  proof (induction rule: rtranclp_induct)
    case (step db db')
    from step.hyps(2) step.IH show ?case
      by (cases rule: campaign_step.cases) (blast intro: create_evidenced approve_evidenced cancel_evidenced transition_evidenced)+
  qed (simp add: evidenced_def no_campaigns_def)
  then have "distinct (map cr_ID (gd_candidates db))" by (simp add: evidenced_def)
  then show "\<forall>db'. campaign_step env db db' \<longrightarrow> lawful db db'"
    using ev by (auto elim!: campaign_step.cases intro: create_lawful approve_lawful cancel_lawful transition_lawful)
qed

section \<open>Activation\<close>

text \<open>
  The one handler that promotes, run for an explicit human request: publish the alias of a new endpoint,
  or let the guarded rollout move the traffic, refresh the routes, then persist the promotion. The child
  operation, the publication and the route refresh are given, as is what others do to the campaign
  between the first read and the last write.
\<close>

record child_status =
  ch_Status :: string
  ch_Message :: string
  ch_Retryable :: bool

record 'w activation =
  ac_Now :: "'w \<Rightarrow> gotime"
  ac_draft :: "string \<Rightarrow> (string \<times> string) option"
  ac_rollout :: "'w \<Rightarrow> string \<Rightarrow> campaign \<Rightarrow> candidate \<Rightarrow> (string + child_status) \<times> 'w"
  ac_publish :: "'w \<Rightarrow> string \<Rightarrow> string \<Rightarrow> string \<Rightarrow> (store_error + string) \<times> 'w"
  ac_refresh :: "('w \<Rightarrow> string option \<times> 'w) option"
  ac_meanwhile :: "'w \<Rightarrow> campaign_db \<Rightarrow> campaign_db"

record activation_result =
  av_candidate :: candidate
  av_endpoint :: string

definition ActivateRequest_Validate :: "string \<Rightarrow> string \<Rightarrow> string \<Rightarrow> string \<Rightarrow> string option" where
  "ActivateRequest_Validate tenant campaignID candidateID actor =
     (if tenant = '''' \<or> campaignID = '''' \<or> candidateID = '''' \<or> actor = ''''
      then Some ''optimization activation requires tenant, campaign, candidate, and actor'' else None)"

definition childComplete :: "child_status \<Rightarrow> string \<Rightarrow> handler_error option" where
  "childComplete op label =
     (if ch_Status op = ''succeeded'' then None
      else if ch_Status op \<in> set [''failed'', ''cancelled''] then
        let message = (if ch_Message op = '''' then label @ '' failed'' else ch_Message op)
        in Some (if ch_Retryable op then Retryable ''optimization_child_retryable'' (Some message)
                 else Permanent ''optimization_child_failed'' (Some message))
      else Some (Retryable ''optimization_child_pending'' (Some (label @ '' is '' @ ch_Status op))))"

text \<open>The draft's name and model, as far as the handler reads them.\<close>

definition candidateDraft :: "'w activation \<Rightarrow> candidate \<Rightarrow> string option" where
  "candidateDraft a c = (case ac_draft a (cr_DeploymentSpecJSON c) of None \<Rightarrow> None
     | Some (name, model) \<Rightarrow> if TrimSpace name = '''' \<or> TrimSpace model = '''' then None else Some name)"

definition activationEndpoint :: "'w activation \<Rightarrow> campaign \<Rightarrow> candidate \<Rightarrow> string" where
  "activationEndpoint a g c =
     (if cg_Intent g = ''evolve_endpoint'' then cg_TargetDeployment g
      else case candidateDraft a c of None \<Rightarrow> '''' | Some name \<Rightarrow> name)"

definition publish_candidate :: "'w activation \<Rightarrow> 'w \<Rightarrow> string \<Rightarrow> string \<Rightarrow> campaign \<Rightarrow> candidate \<Rightarrow> handler_error option \<times> 'w" where
  "publish_candidate a w tenant actor g c =
     (if cg_Intent g = ''evolve_endpoint'' then
        (case ac_rollout a w actor g c of
           (Inl e, w') \<Rightarrow> (Some (Retryable ''optimization_activation_enqueue_failed'' (Some e)), w')
         | (Inr child, w') \<Rightarrow> (childComplete child ''guarded candidate promotion'', w'))
      else case candidateDraft a c of
          None \<Rightarrow> (Some (Permanent ''optimization_candidate_spec_invalid'' None), w)
        | Some name \<Rightarrow>
            (case ac_publish a w tenant name (cr_DeploymentName c) of
               (Inl (ErrConflict m), w') \<Rightarrow> (Some (Permanent ''optimization_endpoint_alias_conflict'' (Some m)), w')
             | (Inl e, w') \<Rightarrow> (Some (Retryable ''optimization_endpoint_publish_failed'' None), w')
             | (Inr published, w') \<Rightarrow>
                 if published \<noteq> name then (Some (Permanent ''optimization_endpoint_identity_mismatch'' None), w') else (None, w')))"

definition persist_promotion ::
  "campaign_env \<Rightarrow> 'w activation \<Rightarrow> campaign_db \<Rightarrow> 'w \<Rightarrow> string \<Rightarrow> campaign \<Rightarrow> candidate \<Rightarrow> (handler_error + activation_result) \<times> campaign_db \<times> 'w" where
  "persist_promotion env a db w tenant g c =
     (case TransitionOptimizationCandidate env (ac_Now a w) db tenant (cg_ID g) (cr_ID c) (cr_State c) ''promoted'' no_updates of
        (Inr promoted, db') \<Rightarrow> (Inr \<lparr>av_candidate = promoted, av_endpoint = activationEndpoint a g promoted\<rparr>, db', w)
      | (Inl e, db') \<Rightarrow>
          (case (e, OptimizationCampaign db' tenant (cg_ID g)) of
             (ErrConflict _, Inr (g', cs)) \<Rightarrow>
               (case find (\<lambda>x. cr_ID x = cr_ID c) cs of
                  Some current \<Rightarrow>
                    if cr_State current \<in> set [''promoted'', ''observed'']
                    then (Inr \<lparr>av_candidate = current, av_endpoint = activationEndpoint a g' current\<rparr>, db', w)
                    else (Inl (executionFailure (Campaign_Store e)), db', w)
                | None \<Rightarrow> (Inl (executionFailure (Campaign_Store e)), db', w))
           | _ \<Rightarrow> (Inl (executionFailure (Campaign_Store e)), db', w)))"

definition activate_handler ::
  "campaign_env \<Rightarrow> 'w activation \<Rightarrow> string \<Rightarrow> string \<Rightarrow> string \<Rightarrow> string \<Rightarrow> campaign_db \<Rightarrow> 'w \<Rightarrow>
   (handler_error + activation_result) \<times> campaign_db \<times> 'w" where
  "activate_handler env a tenant campaignID candidateID actor db w =
     (case ActivateRequest_Validate tenant campaignID candidateID actor of
        Some e \<Rightarrow> (Inl (Permanent ''invalid_request'' (Some e)), db, w)
      | None \<Rightarrow>
          (case OptimizationCampaign db tenant campaignID of
             Inl e \<Rightarrow> (Inl (executionFailure (Campaign_Store e)), db, w)
           | Inr (g, cs) \<Rightarrow>
               (case find (\<lambda>c. cr_ID c = candidateID) cs of
                  None \<Rightarrow> (Inl (Permanent ''optimization_candidate_not_found'' None), db, w)
                | Some c \<Rightarrow>
                    if cr_State c \<in> set [''promoted'', ''observed'']
                      then (Inr \<lparr>av_candidate = c, av_endpoint = activationEndpoint a g c\<rparr>, db, w)
                    else if (case cg_ApprovalExpiresAt g of None \<Rightarrow> True | Some t \<Rightarrow> t \<le> ac_Now a w)
                      then (Inl (Permanent ''optimization_approval_expired'' None), db, w)
                    else if cr_State c \<noteq> (if cg_Intent g = ''evolve_endpoint'' then ''guard_passed'' else ''qualified'')
                      then (Inl (Permanent ''optimization_candidate_not_qualified'' None), db, w)
                    else case publish_candidate a w tenant actor g c of
                        (Some e, w1) \<Rightarrow> (Inl e, db, w1)
                      | (None, w1) \<Rightarrow>
                          (case ac_refresh a of
                             None \<Rightarrow> (Inl (Permanent ''optimization_route_publisher_unavailable'' None), db, w1)
                           | Some refresh \<Rightarrow>
                               (case refresh w1 of
                                  (Some e, w2) \<Rightarrow> (Inl (Retryable ''optimization_route_publish_pending'' (Some e)), db, w2)
                                | (None, w2) \<Rightarrow> persist_promotion env a (ac_meanwhile a w2 db) w2 tenant g c)))))"

lemma persist_effect:
  assumes d: "distinct (map cr_ID (gd_candidates db))" and run: "persist_promotion env a db w tenant g c = (r, db', w')"
  shows "db' = db \<or> (\<forall>j. state_at db' j = (if j = cr_ID c then Some ''promoted'' else state_at db j))"
proof -
  obtain res where t: "TransitionOptimizationCandidate env (ac_Now a w) db tenant (cg_ID g) (cr_ID c) (cr_State c) ''promoted'' no_updates = (res, db')"
    using run by (auto simp: persist_promotion_def split: prod.splits sum.splits store_error.splits option.splits if_splits)
  show ?thesis using transition_states [OF t d] by auto
qed

lemma publish_success:
  assumes "publish_candidate a w tenant actor g c = (None, w1)"
  shows "if cg_Intent g = ''evolve_endpoint'' then \<exists>child. ac_rollout a w actor g c = (Inr child, w1) \<and> ch_Status child = ''succeeded''
     else \<exists>name. candidateDraft a c = Some name \<and> ac_publish a w tenant name (cr_DeploymentName c) = (Inr name, w1)"
  using assms
  by (auto simp: publish_candidate_def childComplete_def Let_def split: if_splits prod.splits sum.splits option.splits store_error.splits)

text \<open>C32.
  Promotion follows publication. When a candidate ends up \<open>promoted\<close> that was not before, and nobody
  else promoted it meanwhile, then it was \<open>qualified\<close> in a campaign for a new endpoint, or
  \<open>guard_passed\<close> in one that evolves an endpoint; the approval had not expired; the alias had been
  published under the drafted name, or the guarded rollout had succeeded; the routes had been refreshed
  after that; and the handler changed no other state.
\<close>

theorem promotion_follows_publication:
  assumes "distinct (map cr_ID (gd_candidates db))" and "\<forall>w. lawful db (ac_meanwhile a w db)"
    and run: "activate_handler env a tenant campaignID i actor db w = (r, db', w')"
    and before: "state_at db i \<noteq> Some ''promoted''" "\<forall>w. state_at (ac_meanwhile a w db) i \<noteq> Some ''promoted''" and after: "state_at db' i = Some ''promoted''"
  shows "\<exists>g cs c refresh w1 w2. OptimizationCampaign db tenant campaignID = Inr (g, cs) \<and> find (\<lambda>c. cr_ID c = i) cs = Some c \<and>
    cr_State c = (if cg_Intent g = ''evolve_endpoint'' then ''guard_passed'' else ''qualified'') \<and>
    (\<exists>t. cg_ApprovalExpiresAt g = Some t \<and> ac_Now a w < t) \<and>
    (if cg_Intent g = ''evolve_endpoint'' then \<exists>child. ac_rollout a w actor g c = (Inr child, w1) \<and> ch_Status child = ''succeeded''
     else \<exists>name. candidateDraft a c = Some name \<and> ac_publish a w tenant name (cr_DeploymentName c) = (Inr name, w1)) \<and>
    ac_refresh a = Some refresh \<and> refresh w1 = (None, w2) \<and>
    (\<forall>j. state_at db' j = (if j = i then Some ''promoted'' else state_at (ac_meanwhile a w2 db) j))"
proof -
  have "db' \<noteq> db" using before(1) after by auto
  then obtain g cs c w1 refresh w2 where g: "OptimizationCampaign db tenant campaignID = Inr (g, cs)" "find (\<lambda>c. cr_ID c = i) cs = Some c"
      "cr_State c = (if cg_Intent g = ''evolve_endpoint'' then ''guard_passed'' else ''qualified'')"
      "\<exists>t. cg_ApprovalExpiresAt g = Some t \<and> ac_Now a w < t" "publish_candidate a w tenant actor g c = (None, w1)"
      "ac_refresh a = Some refresh" "refresh w1 = (None, w2)" "persist_promotion env a (ac_meanwhile a w2 db) w2 tenant g c = (r, db', w')"
    using run unfolding activate_handler_def by (fastforce split: option.splits sum.splits prod.splits if_splits)
  have "distinct (map cr_ID (gd_candidates (ac_meanwhile a w2 db)))" using assms(1,2) by (simp add: lawful_def)
  moreover have "cr_ID c = i" using find_mem [OF g(2)] by simp
  ultimately have "\<forall>j. state_at db' j = (if j = i then Some ''promoted'' else state_at (ac_meanwhile a w2 db) j)"
    using persist_effect [OF _ g(8)] before(2) after by auto
  then show ?thesis using g(1-4,6,7) publish_success [OF g(5)] by blast
qed

section \<open>Where the coordinator gets stuck\<close>

lemma closed_move:
  assumes camp: "find (campaign_at (cg_TenantID g) (cg_ID g)) (gd_campaigns db) = Some g" and closed: "\<not> fence_open (dr_Now d w) False g" and to: "to \<noteq> ''cleaned''"
  shows "\<exists>e. move_to env d db w g c to updates = (Inl e, db, w)"
proof -
  obtain e where "TransitionOptimizationCandidate env (dr_Now d w) db (cg_TenantID g) (cg_ID g) (cr_ID c) (cr_State c) to updates = (Inl e, db)"
    using assms unfolding TransitionOptimizationCandidate_def by (fastforce split: option.splits if_splits)
  then show ?thesis by (auto simp: move_to_def co_transition_def)
qed

text \<open>
  An expired approval is final for the coordinator: although it means to fail the candidate so that its
  resources are cleaned up, the store's fence refuses every transition but the cleanup once the approval
  is over, so neither a step nor a cancellation of an active candidate changes anything, and its
  resources stay allocated.
\<close>

theorem expired_never_converges:
  assumes "OptimizationCampaign db tenant campaignID = Inr (g, cs)" and "find (\<lambda>c. cr_ID c = i) cs = Some c"
    and "cg_ApprovalExpiresAt g = Some t" and "t \<le> dr_Now d w"
    and "\<not> terminalWithoutCleanup (cr_State c)" and "cr_State c \<notin> {''cleaned'', ''promoted'', ''observed''}"
  shows "\<exists>e e'. Step env d tenant campaignID i db w = (Inl e, db, w) \<and> CancelCandidate env d tenant campaignID i db w = (Inl e', db, w)"
proof -
  have g: "campaign_at tenant campaignID g" "find (campaign_at tenant campaignID) (gd_campaigns db) = Some g"
    using assms(1) by (auto simp: OptimizationCampaign_def find_Some_iff split: option.splits)
  have "\<not> fence_open (dr_Now d w) False g" using assms(3,4) by (simp add: fence_open_def)
  then have stuck: "\<exists>e. move_to env d db w g c to updates = (Inl e, db, w)" if "to \<noteq> ''cleaned''" for to updates
    using closed_move [of g db d w to env c updates] g that by (simp add: campaign_at_def)
  have "\<exists>e. campaign_budget (dr_Now d w) g cs = Inl e" using assms(3,4) by (auto simp: campaign_budget_def split: option.splits)
  then obtain b where b: "campaign_budget (dr_Now d w) g cs = Inl b" ..
  have "\<exists>e. step_candidate env d db w g cs c = (Inl e, db, w)"
    using assms(5,6) stuck [of "''failed''"] by (cases b) (auto simp: step_candidate_def Let_def b)
  moreover have "\<exists>e. with_candidate db w tenant campaignID i f = (Inl e, db, w)" if "\<exists>e. f g cs c = (Inl e, db, w)" for f
    using assms(1,2) that by (auto simp: with_candidate_def)
  ultimately show ?thesis using assms(5,6) stuck [of "''cancelled''"] unfolding Step_def CancelCandidate_def by fastforce
qed

lemma barrier_blocks: "c \<in> set cs \<Longrightarrow> \<not> past_barrier (cr_State c) \<Longrightarrow> \<exists>e. selected_evidence g benchmarks cs = Inl e"
  by (induction cs) (auto split: option.splits)

text \<open>
  A qualified winner blocks the ranking. The measured set is ranked candidate by candidate; once the
  winner of a campaign for a new endpoint is \<open>qualified\<close>, which the barrier does not list, every further
  ranking fails with an error that is retried, so the candidates it should supersede stay \<open>ranked\<close>.
\<close>

theorem qualified_blocks_ranking:
  assumes "OptimizationCampaign db (cr_TenantID c) (cr_CampaignID c) = Inr (g, cs)" and "x \<in> set cs" and "cr_State x = ''qualified''"
  shows "\<exists>m. PersistedRanker_Rank decode lab record_lab db benchmarks c = Inl (PlainError m)"
proof -
  have "\<not> past_barrier (cr_State x)" by (simp add: assms(3) past_barrier_def)
  then obtain e where "selected_evidence g benchmarks cs = Inl e" using barrier_blocks [OF assms(2)] by blast
  then have "\<exists>e. RankMeasuredCampaign decode lab g cs benchmarks = Inl e"
    by (auto simp: RankMeasuredCampaign_def bind_err_def split: sum.splits)
  then show ?thesis using assms(1) by (auto simp: PersistedRanker_Rank_def)
qed


section \<open>The ranking of a measured set\<close>

lemma selected_evidence_mem:
  "selected_evidence g benchmarks cs = Inr evidence \<Longrightarrow> (b, i) \<in> set evidence \<Longrightarrow>
   \<exists>c \<in> set cs. cr_ID c = i \<and> past_barrier (cr_State c) \<and> \<not> sits_out c \<and> cr_QualityEvidenceID c \<noteq> '''' \<and> bm_ID b = cr_BenchmarkID c \<and> cr_BenchmarkID c \<noteq> '''' \<and>
     bm_RevisionID b = cr_RevisionID c \<and> cr_RevisionID c \<noteq> '''' \<and> bm_ModelIdentity b = cg_ModelIdentity g \<and> b \<in> set benchmarks"
proof (induction cs arbitrary: evidence)
  case (Cons c cs)
  then show ?case
    by (auto simp: bind_err_def benchmark_of_def split: if_splits option.splits sum.splits dest!: find_mem)
qed simp

lemma lab_winner_mem:
  "lab_winner evidence rows selected = Inr winner \<Longrightarrow> winner = selected \<or> (winner \<noteq> '''' \<and> (\<exists>r \<in> set rows. lr_Selected r \<and> candidate_of evidence (lr_EvidenceID r) = winner))"
  by (induction evidence rows selected rule: lab_winner.induct) (auto simp: Let_def split: if_splits)

lemma candidate_of_mem: "candidate_of evidence k = i \<Longrightarrow> i \<noteq> '''' \<Longrightarrow> \<exists>b. (b, i) \<in> set evidence \<and> bm_ID b = k"
  by (auto simp: candidate_of_def split: option.splits dest!: find_mem)

text \<open>C33.
  The ranking has at most one winner, and it is measured. When the ranking of a campaign succeeds,
  every candidate has passed the measured barrier; a candidate is selected only on a representative
  workload and only if the evaluation selected the benchmark it rests on, which is a benchmark of its
  own revision and of the campaign's model, and it carries quality evidence; and then every other
  candidate that takes part is superseded.
\<close>

theorem ranking_single_winner:
  assumes "RankMeasuredCampaign decode lab g cs benchmarks = Inr decisions" and "(i, ''SELECT'') \<in> set decisions"
  shows "(\<forall>c \<in> set cs. past_barrier (cr_State c)) \<and>
    (\<exists>p. decode (cg_ProposalJSON g) = Inr p \<and> \<not> pp_PublicPrior p) \<and>
    (\<exists>c \<in> set cs. cr_ID c = i \<and> cr_QualityEvidenceID c \<noteq> '''' \<and> (\<exists>b \<in> set benchmarks. bm_ID b = cr_BenchmarkID c \<and> bm_RevisionID b = cr_RevisionID c \<and>
       bm_ModelIdentity b = cg_ModelIdentity g \<and> (\<exists>evidence rows. b \<in> set evidence \<and> lab g evidence = Inr rows \<and> (\<exists>r \<in> set rows. lr_EvidenceID r = bm_ID b \<and> lr_Selected r)))) \<and>
    decisions = map (\<lambda>c. (cr_ID c, if cr_ID c = i then ''SELECT'' else ''SUPERSEDE'')) (filter (\<lambda>c. \<not> sits_out c) cs)"
proof -
  obtain p evidence rows where p: "decode (cg_ProposalJSON g) = Inr p" and ev: "selected_evidence g benchmarks cs = Inr evidence"
    and rows: "lab g (map fst evidence) = Inr rows"
    using assms(1) by (auto simp: RankMeasuredCampaign_def bind_err_def split: sum.splits if_splits)
  have prior: "\<not> pp_PublicPrior p" using assms(1,2) p ev rows by (auto simp: RankMeasuredCampaign_def split: if_splits)
  then obtain winner rejectAll where w: "lab_winner evidence rows '''' = Inr winner"
    and d: "decisions = map (\<lambda>c. (cr_ID c, rank_decision winner rejectAll c)) (filter (\<lambda>c. \<not> sits_out c) cs)"
    using assms(1) p ev rows by (auto simp: RankMeasuredCampaign_def bind_err_def Let_def split: sum.splits if_splits)
  have i: "winner = i" "i \<noteq> ''''" using assms(2) d by (auto simp: rank_decision_def split: if_splits)
  then obtain r b where r: "r \<in> set rows" "lr_Selected r" "(b, i) \<in> set evidence" "bm_ID b = lr_EvidenceID r"
    using lab_winner_mem [OF w] candidate_of_mem [of evidence _ i] by fastforce
  obtain c where c: "c \<in> set cs" "cr_ID c = i" "cr_QualityEvidenceID c \<noteq> ''''" "bm_ID b = cr_BenchmarkID c" "bm_RevisionID b = cr_RevisionID c"
      "bm_ModelIdentity b = cg_ModelIdentity g" "b \<in> set benchmarks"
    using selected_evidence_mem [OF ev r(3)] by blast
  have b: "b \<in> set (map fst evidence)" using r(3) by force
  show ?thesis
  proof (intro conjI)
    show "\<forall>c \<in> set cs. past_barrier (cr_State c)" using barrier_blocks [of _ cs g benchmarks] ev by auto
    show "\<exists>p. decode (cg_ProposalJSON g) = Inr p \<and> \<not> pp_PublicPrior p" using p prior by blast
    show "decisions = map (\<lambda>c. (cr_ID c, if cr_ID c = i then ''SELECT'' else ''SUPERSEDE'')) (filter (\<lambda>c. \<not> sits_out c) cs)"
      using i by (simp add: d rank_decision_def)
    show "\<exists>c \<in> set cs. cr_ID c = i \<and> cr_QualityEvidenceID c \<noteq> '''' \<and> (\<exists>b \<in> set benchmarks. bm_ID b = cr_BenchmarkID c \<and> bm_RevisionID b = cr_RevisionID c \<and>
       bm_ModelIdentity b = cg_ModelIdentity g \<and> (\<exists>evidence rows. b \<in> set evidence \<and> lab g evidence = Inr rows \<and> (\<exists>r \<in> set rows. lr_EvidenceID r = bm_ID b \<and> lr_Selected r)))"
      by (rule bexI [OF _ c(1)], intro conjI c(2,3), rule bexI [OF _ c(7)], intro conjI c(4-6))
        (use b rows r(1,2) r(4) [symmetric] in blast)
  qed
qed

section \<open>Examples\<close>

definition example_env :: campaign_env where
  "example_env = \<lparr>ce_json = (\<lambda>_. True), ce_revision = (\<lambda>_ _. None), ce_artifact = (\<lambda>_ _. Inl ErrNotFound), ce_deployment_model = (\<lambda>_ _. None),
     ce_same_json = (\<lambda>a b. a = b)\<rparr>"

definition example_campaign :: campaign where
  "example_campaign = \<lparr>cg_ID = ''g'', cg_TenantID = ''t'', cg_IdempotencyKey = ''k'', cg_InputDigest = replicate 64 (CHR ''a''), cg_ModelIdentity = ''m'',
     cg_Objective = ''cost'', cg_Source = ''operator'', cg_Intent = ''new_endpoint'', cg_TargetDeployment = '''', cg_State = ''running'', cg_ProposalJSON = ''{}'',
     cg_ApprovedBy = ''ops'', cg_MaxCandidates = 1, cg_ApprovedMaxCostUSD = Some (FNum 10), cg_ApprovalExpiresAt = Some 100, cg_CancelRequested = False\<rparr>"

definition example_candidate :: "string \<Rightarrow> string \<Rightarrow> candidate" where
  "example_candidate i s = no_updates\<lparr>cr_ID := i, cr_TenantID := ''t'', cr_CampaignID := ''g'', cr_ProposalCandidateID := i, cr_State := s, cr_EvidenceState := ''unmeasured'',
     cr_DeploymentSpecJSON := ''{}'', cr_PredictedEvidenceJSON := ''{}'', cr_ActualEvidenceJSON := ''{}'', cr_DeploymentName := ''d'', cr_RevisionID := ''r'',
     cr_BenchmarkID := ''b'', cr_QualityEvidenceID := ''q'', cr_LabEvaluationID := ''l'', cr_Rank := 1\<rparr>"

definition example_db :: "string \<Rightarrow> campaign_db" where
  "example_db s = \<lparr>gd_campaigns = [example_campaign], gd_candidates = [example_candidate ''c'' s]\<rparr>"

definition example_driver :: "unit driver" where
  "example_driver = \<lparr>dr_Provision = (\<lambda>w c b. (Inl (PlainError ''down''), w)), dr_Measure = (\<lambda>w c b. (Inl (PlainError ''down''), w)),
     dr_Validate = (\<lambda>w c. (Inl (PlainError ''down''), w)), dr_Rank = (\<lambda>w c. (Inl (PlainError ''down''), w)), dr_Guard = (\<lambda>w c. (Inl (PlainError ''down''), w)),
     dr_Cleanup = (\<lambda>w c. (None, w)), dr_Now = (\<lambda>w. 50)\<rparr>"

lemma example_distinct [simp]: "distinct (map cr_ID (gd_candidates (example_db s)))"
  by (simp add: example_db_def)

lemma example_trim [simp]: "TrimSpace ''t'' = ''t''" "TrimSpace ''g'' = ''g''" "TrimSpace ''c'' = ''c''"
  using canonicalI [of "''t''"] canonicalI [of "''g''"] canonicalI [of "''c''"] by (auto simp: canonical_def)

lemma example_load: "OptimizationCampaign (example_db s) ''t'' ''g'' = Inr (example_campaign, [example_candidate ''c'' s])"
  by (simp add: OptimizationCampaign_def example_db_def campaign_at_def example_campaign_def candidates_of_def example_candidate_def)

lemma example_Step:
  "Step env d ''t'' ''g'' ''c'' (example_db s) w = step_candidate env d (example_db s) w example_campaign [example_candidate ''c'' s] (example_candidate ''c'' s)"
  unfolding Step_def with_candidate_def example_load by (simp add: example_candidate_def)

lemma example_cleanup:
  "Step example_env example_driver ''t'' ''g'' ''c'' (example_db ''rejected'') () =
     cleanup_candidate example_env example_driver (example_db ''rejected'') () example_campaign (example_candidate ''c'' ''rejected'')"
  unfolding example_Step by (simp add: step_candidate_def Let_def example_candidate_def terminalWithoutCleanup_def)

lemma example_cleaned: "state_at (fst (snd (Step example_env example_driver ''t'' ''g'' ''c'' (example_db ''rejected'') ()))) ''c'' = Some ''cleaned''"
  unfolding example_cleanup by code_simp

theorem candidate_life_terminates_witness:
  "(\<exists>to. moves ''ranked'' to) \<and> moves\<^sup>*\<^sup>* ''ranked'' ''cleaned'' \<and> length [''qualified'', ''promoted'', ''observed''] \<le> 11"
proof -
  note life = candidate_life_terminates
  have "''ranked'' \<in> fst ` set candidateTransitions" by (simp add: candidateTransitions_def)
  then have "moves\<^sup>*\<^sup>* ''ranked'' ''cleaned'' \<and> ((\<exists>to. moves ''ranked'' to) \<longleftrightarrow> ''ranked'' \<noteq> ''cleaned'')"
    using life by blast
  moreover have mv: "moves ''qualified'' ''promoted''" "moves ''promoted'' ''observed''" by code_simp+
  then have "\<forall>i. Suc i < length [''qualified'', ''promoted'', ''observed''] \<longrightarrow>
      moves ([''qualified'', ''promoted'', ''observed''] ! i) ([''qualified'', ''promoted'', ''observed''] ! Suc i)"
    by (auto simp: less_Suc_eq)
  then have "length [''qualified'', ''promoted'', ''observed''] \<le> 11" using conjunct1 [OF conjunct2 [OF life]] by blast
  ultimately show ?thesis by simp
qed

theorem coordinator_never_promotes_witness:
  "\<exists>r db'. Step example_env example_driver ''t'' ''g'' ''c'' (example_db ''rejected'') () = (r, db', ()) \<and>
     state_at db' ''c'' = Some ''cleaned'' \<and> moves ''rejected'' ''cleaned'' \<and>
     Step example_env (example_driver\<lparr>dr_Cleanup := \<lambda>w c. if cr_State c = ''promoted'' then (Some (PlainError ''gone''), w) else (None, w)\<rparr>)
       ''t'' ''g'' ''c'' (example_db ''rejected'') () = (r, db', ())"
proof -
  obtain r db' w' where run: "Step example_env example_driver ''t'' ''g'' ''c'' (example_db ''rejected'') () = (r, db', w')"
    by (cases "Step example_env example_driver ''t'' ''g'' ''c'' (example_db ''rejected'') ()")
  have "Step = Step \<or> Step = CancelCandidate" by simp
  note never = coordinator_never_promotes [OF example_distinct this run]
  have at: "state_at db' ''c'' = Some ''cleaned''" using example_cleaned run by simp
  have "state_at (example_db ''rejected'') ''c'' = Some ''rejected''" by (simp add: state_at_def example_db_def example_candidate_def)
  then have "moves ''rejected'' ''cleaned''" using spec [OF conjunct1 [OF never], of "''c''"] at by auto
  moreover have "Step example_env (example_driver\<lparr>dr_Cleanup := \<lambda>w c. if cr_State c = ''promoted'' then (Some (PlainError ''gone''), w) else (None, w)\<rparr>)
       ''t'' ''g'' ''c'' (example_db ''rejected'') () = (r, db', w')"
    by (rule conjunct2 [OF never, rule_format]) (auto simp: example_driver_def terminalWithoutCleanup_def)
  ultimately show ?thesis using run at by auto
qed

theorem no_state_loop_witness:
  "state_at (example_db ''ready'') ''c'' = Some ''ready'' \<and>
   fst (execute_handler example_env example_driver (\<lambda>i db w. (None, db, w)) ''t'' ''g'' [''c''] (example_db ''ready'') ()) \<noteq> Inl loop_failure \<and>
   lawful (example_db ''ready'') (fst (snd (execute_handler example_env example_driver (\<lambda>i db w. (None, db, w)) ''t'' ''g'' [''c''] (example_db ''ready'') ())))"
proof
  show "state_at (example_db ''ready'') ''c'' = Some ''ready''" by (simp add: state_at_def example_db_def example_candidate_def)
qed (rule no_state_loop [OF example_distinct]; simp add: lawful_checkpoint_def example_driver_def)

definition example_created :: campaign_db where
  "example_created = snd (snd (CreateOptimizationCampaign example_env 0 ''g'' [''c''] no_campaigns example_campaign [example_candidate ''c'' ''proposed'']))"

theorem evidence_ladder_witness:
  "campaign_reachable example_env example_created \<and> map cr_State (gd_candidates example_created) = [''proposed''] \<and> evidenced example_created"
proof -
  obtain r created where "CreateOptimizationCampaign example_env 0 ''g'' [''c''] no_campaigns example_campaign [example_candidate ''c'' ''proposed''] = (r, created, example_created)"
    unfolding example_created_def by (metis prod.collapse)
  then have "campaign_step example_env no_campaigns example_created" by (rule campaign_step.create)
  then have reach: "campaign_reachable example_env example_created" unfolding campaign_reachable_def by (rule r_into_rtranclp)
  moreover have "map cr_State (gd_candidates example_created) = [''proposed'']"
    by (simp add: example_created_def CreateOptimizationCampaign_def validateOptimizationCampaign_def boundedJSON_def example_env_def example_campaign_def
        example_candidate_def no_updates_def no_campaigns_def insert_candidate_def Let_def)
  ultimately show ?thesis using evidence_ladder [OF reach] by simp
qed

definition example_activation :: "(campaign_db \<Rightarrow> campaign_db) \<Rightarrow> string list activation" where
  "example_activation meanwhile = \<lparr>ac_Now = (\<lambda>w. 50), ac_draft = (\<lambda>s. Some (''c'', ''g'')), ac_rollout = (\<lambda>w actor g c. (Inl ''down'', w)),
     ac_publish = (\<lambda>w tenant name deployment. (Inr name, w @ [name])), ac_refresh = Some (\<lambda>w. (None, w @ [''refreshed''])),
     ac_meanwhile = (\<lambda>w. meanwhile)\<rparr>"

lemma example_activate:
  "activate_handler example_env (example_activation f) ''t'' ''g'' ''c'' ''ops'' (example_db ''qualified'') [] =
     persist_promotion example_env (example_activation f) (f (example_db ''qualified'')) [''c'', ''refreshed''] ''t'' example_campaign (example_candidate ''c'' ''qualified'')"
proof -
  have "publish_candidate (example_activation f) [] ''t'' ''ops'' example_campaign (example_candidate ''c'' ''qualified'') = (None, [''c''])"
    by (simp add: publish_candidate_def candidateDraft_def example_activation_def example_campaign_def)
  moreover have "cr_State (example_candidate ''c'' ''qualified'') = ''qualified''" "cg_Intent example_campaign = ''new_endpoint''"
    "cg_ApprovalExpiresAt example_campaign = Some 100" "cr_ID (example_candidate ''c'' ''qualified'') = ''c''"
    by (simp_all add: example_candidate_def example_campaign_def)
  ultimately show ?thesis
    unfolding activate_handler_def ActivateRequest_Validate_def example_load by (simp add: example_activation_def)
qed

lemma persist_db:
  "fst (snd (persist_promotion env a db w tenant g c)) =
     snd (TransitionOptimizationCandidate env (ac_Now a w) db tenant (cg_ID g) (cr_ID c) (cr_State c) ''promoted'' no_updates)"
  "snd (snd (persist_promotion env a db w tenant g c)) = w"
  by (auto simp: persist_promotion_def split: prod.split sum.split store_error.split option.split)

lemma example_clock: "ac_Now (example_activation f) w = 50"
  by (simp add: example_activation_def)

theorem promotion_follows_publication_witness:
  "\<exists>r db' w'. activate_handler example_env (example_activation id) ''t'' ''g'' ''c'' ''ops'' (example_db ''qualified'') [] = (r, db', w') \<and>
     state_at db' ''c'' = Some ''promoted'' \<and>
     (\<exists>g cs c. OptimizationCampaign (example_db ''qualified'') ''t'' ''g'' = Inr (g, cs) \<and> find (\<lambda>c. cr_ID c = ''c'') cs = Some c \<and>
        cr_State c = (if cg_Intent g = ''evolve_endpoint'' then ''guard_passed'' else ''qualified''))"
proof -
  obtain r db' w' where run: "activate_handler example_env (example_activation id) ''t'' ''g'' ''c'' ''ops'' (example_db ''qualified'') [] = (r, db', w')"
    by (cases "activate_handler example_env (example_activation id) ''t'' ''g'' ''c'' ''ops'' (example_db ''qualified'') []")
  have "state_at (fst (snd (persist_promotion example_env (example_activation id) (example_db ''qualified'') [''c'', ''refreshed''] ''t'' example_campaign
      (example_candidate ''c'' ''qualified'')))) ''c'' = Some ''promoted''"
    unfolding persist_db example_clock by code_simp
  then have at: "state_at db' ''c'' = Some ''promoted''" using run by (simp add: example_activate)
  have before: "state_at (example_db ''qualified'') ''c'' \<noteq> Some ''promoted''" by (simp add: state_at_def example_db_def example_candidate_def)
  have same: "ac_meanwhile (example_activation id) w (example_db ''qualified'') = example_db ''qualified''" for w by (simp add: example_activation_def)
  have m: "\<forall>w. lawful (example_db ''qualified'') (ac_meanwhile (example_activation id) w (example_db ''qualified''))"
    "\<forall>w. state_at (ac_meanwhile (example_activation id) w (example_db ''qualified'')) ''c'' \<noteq> Some ''promoted''"
    using before by (simp_all add: same)
  show ?thesis
    using promotion_follows_publication [OF example_distinct m(1) run before m(2) at] run at by blast
qed

text \<open>
  A cancellation that arrives while the activation publishes wins: the alias of the candidate is
  published and the routes are refreshed, but the candidate is cancelled, and a cancelled candidate is
  one whose deployment the coordinator hands to cleanup.
\<close>

theorem cancelled_after_publication:
  "\<exists>r db'. activate_handler example_env (example_activation (\<lambda>db. snd (CancelOptimizationCampaign 60 db ''t'' ''g''))) ''t'' ''g'' ''c'' ''ops'' (example_db ''qualified'') []
       = (r, db', [''c'', ''refreshed'']) \<and>
     state_at db' ''c'' = Some ''cancelled'' \<and> terminalWithoutCleanup ''cancelled''"
proof -
  let ?run = "persist_promotion example_env (example_activation (\<lambda>db. snd (CancelOptimizationCampaign 60 db ''t'' ''g'')))
      (snd (CancelOptimizationCampaign 60 (example_db ''qualified'') ''t'' ''g'')) [''c'', ''refreshed''] ''t'' example_campaign (example_candidate ''c'' ''qualified'')"
  have "state_at (fst (snd ?run)) ''c'' = Some ''cancelled''" unfolding persist_db example_clock by code_simp
  moreover have "terminalWithoutCleanup ''cancelled''" by (simp add: terminalWithoutCleanup_def)
  ultimately show ?thesis unfolding example_activate using persist_db(2) by (metis prod.collapse)
qed

definition example_lab :: "campaign \<Rightarrow> benchmark list \<Rightarrow> string + lab_row list" where
  "example_lab g evidence = Inr (map (\<lambda>b. \<lparr>lr_EvidenceID = bm_ID b, lr_Selected = True, lr_Comparable = True, lr_MeetsSLO = Some True, lr_SelectionReason = '''',
     lr_ConstraintReasons = []\<rparr>) evidence)"

theorem ranking_single_winner_witness:
  "\<exists>decisions. RankMeasuredCampaign (\<lambda>s. Inr \<lparr>pp_ModelIdentity = ''m'', pp_Objective = ''cost'', pp_InputDigest = cg_InputDigest example_campaign, pp_PublicPrior = False\<rparr>)
       example_lab example_campaign [example_candidate ''c'' ''ranked''] [\<lparr>bm_ID = ''b'', bm_RevisionID = ''r'', bm_ModelIdentity = ''m''\<rparr>] = Inr decisions \<and>
     decisions = map (\<lambda>c. (cr_ID c, if cr_ID c = ''c'' then ''SELECT'' else ''SUPERSEDE'')) (filter (\<lambda>c. \<not> sits_out c) [example_candidate ''c'' ''ranked''])"
proof -
  have run: "RankMeasuredCampaign (\<lambda>s. Inr \<lparr>pp_ModelIdentity = ''m'', pp_Objective = ''cost'', pp_InputDigest = cg_InputDigest example_campaign, pp_PublicPrior = False\<rparr>)
       example_lab example_campaign [example_candidate ''c'' ''ranked''] [\<lparr>bm_ID = ''b'', bm_RevisionID = ''r'', bm_ModelIdentity = ''m''\<rparr>] = Inr [(''c'', ''SELECT'')]"
    by code_simp
  have "(''c'', ''SELECT'') \<in> set [(''c'', ''SELECT'')]" by simp
  note winner = ranking_single_winner [OF run this]
  show ?thesis by (rule exI, rule conjI [OF run conjunct2 [OF conjunct2 [OF conjunct2 [OF winner]]]])
qed

end
