(* ===== verification/Release_Guard.thy ===== *)
theory Release_Guard
  imports Sql_Table Go_Strings Float64 "HOL-Library.Multiset"
begin

text \<open>
  Release Guard (\<open>internal/releaseguard\<close>, with the policy and the evidence of
  \<open>internal/store/release_guard.go\<close> and \<open>quality_evidence.go\<close>): the decision whether a candidate revision
  may replace the active one, from persisted measurements alone. The pseudo random numbers of the
  bootstrap are a parameter, as are the JSON decoders of workloads and costs; the human readable message
  of a reason is left out.
\<close>


section \<open>Policies and measurements\<close>

record guard_policy =
  gp_DeploymentID :: string
  gp_Enabled :: bool
  gp_MinimumRequests :: int
  gp_MaxTTFTRegressionPercent :: f64
  gp_MaxLatencyRegressionPercent :: f64
  gp_MaxErrorRateIncrease :: f64
  gp_MaxOutputThroughputDropPercent :: f64
  gp_RequireCompatibilityEvidence :: bool
  gp_RequireSyntheticEvidence :: bool
  gp_MaxCostRegressionPercent :: "f64 option"
  gp_AutoRollbackEnabled :: bool
  gp_AutoRollbackWindowSeconds :: int
  gp_ValidationMaxRequests :: int
  gp_ValidationMaxConcurrency :: int
  gp_RequireQualityEvidence :: bool
  gp_MinimumQualityScore :: "f64 option"
  gp_MaxQualityRegressionPercent :: "f64 option"
  gp_QualityComparisonMode :: string
  gp_QualityBootstrapAlpha :: f64
  gp_QualityBootstrapMinSamples :: int
  gp_QualityBootstrapSeed :: int

record revision_metrics =
  rm_EvidenceSource :: string
  rm_EvidenceID :: string
  rm_Requests :: int
  rm_ReadyReplicas :: int
  rm_ErrorRate :: f64
  rm_P95TTFTMS :: "f64 option"
  rm_P95LatencyMS :: "f64 option"
  rm_OutputTokensPerSecond :: "f64 option"
  rm_SourcedHourlyCost :: "f64 option"
  rm_Compatible :: "bool option"
  rm_CompatibilityEvidence :: string
  rm_SyntheticValidation :: bool
  rm_QualityScore :: "f64 option"
  rm_QualityPassed :: "bool option"
  rm_QualityComparable :: "bool option"
  rm_QualityEvidenceID :: string
  rm_QualitySuite :: string
  rm_QualitySampleCount :: int
  rm_QualityPairingDigest :: string
  rm_QualityScores :: "f64 list"

record bootstrap_comparison =
  bc_Status :: string
  bc_Seed :: int
  bc_Alpha :: f64
  bc_Iterations :: int
  bc_ActiveSamples :: int
  bc_CandidateSamples :: int
  bc_MinimumSamples :: int
  bc_ObservedRegressionPercent :: "f64 option"
  bc_IntervalLowerPercent :: "f64 option"
  bc_IntervalUpperPercent :: "f64 option"
  bc_LimitPercent :: f64

record guard_reason =
  rs_Code :: string
  rs_Metric :: string
  rs_Active :: "f64 option"
  rs_Candidate :: "f64 option"
  rs_Limit :: "f64 option"
  rs_Bootstrap :: "bootstrap_comparison option"

record guard_verdict =
  gu_Decision :: string
  gu_Reasons :: "guard_reason list"

definition reason :: "string \<Rightarrow> string \<Rightarrow> guard_reason" where
  "reason code metric = \<lparr>rs_Code = code, rs_Metric = metric, rs_Active = None, rs_Candidate = None, rs_Limit = None, rs_Bootstrap = None\<rparr>"

definition comparisonReason :: "string \<Rightarrow> string \<Rightarrow> f64 \<Rightarrow> f64 \<Rightarrow> f64 \<Rightarrow> guard_reason" where
  "comparisonReason code metric active candidate limit =
     \<lparr>rs_Code = code, rs_Metric = metric, rs_Active = Some active, rs_Candidate = Some candidate, rs_Limit = Some limit, rs_Bootstrap = None\<rparr>"

definition value_or_zero :: "f64 option \<Rightarrow> f64" where
  "value_or_zero v = (case v of None \<Rightarrow> f_zero | Some x \<Rightarrow> x)"

definition percentIncrease :: "f64 option \<Rightarrow> f64 option \<Rightarrow> f64 option" where
  "percentIncrease active candidate =
     (case (active, candidate) of
        (Some a, Some c) \<Rightarrow> if f_le a f_zero then None else Some (f_mul (f_div (f_sub c a) a) (FNum 100))
      | _ \<Rightarrow> None)"

definition percentDrop :: "f64 option \<Rightarrow> f64 option \<Rightarrow> f64 option" where
  "percentDrop active candidate =
     (case (active, candidate) of
        (Some a, Some c) \<Rightarrow> if f_le a f_zero then None else Some (f_mul (f_div (f_sub a c) a) (FNum 100))
      | _ \<Rightarrow> None)"


section \<open>The paired bootstrap\<close>

definition bootstrapIterations :: nat where
  "bootstrapIterations = 10000"

definition finiteUnit :: "f64 \<Rightarrow> bool" where
  "finiteUnit v \<longleftrightarrow> \<not> is_nan v \<and> \<not> is_inf v \<and> f_ge v f_zero \<and> f_le v (FNum 1)"

definition f_sum :: "f64 list \<Rightarrow> f64" where
  "f_sum values = foldl f_add f_zero values"

definition f_mean :: "f64 list \<Rightarrow> f64" where
  "f_mean values = f_div (f_sum values) (f_of_int (int (length values)))"

text \<open>Converting a float outside the range of \<open>int\<close> is implementation defined; \<open>oob\<close> stands for the outcome.\<close>

definition percentile :: "(f64 \<Rightarrow> int) \<Rightarrow> f64 list \<Rightarrow> f64 \<Rightarrow> f64" where
  "percentile oob ordered probability =
     (let n = int (length ordered);
          index = f_to_int oob (f_floor (f_mul probability (f_of_int (n - 1))))
      in ordered ! nat (max 0 (min (n - 1) index)))"

text \<open>\<open>rng seed k n\<close> is the \<open>k\<close>-th number the generator draws below \<open>n\<close>; an iteration draws one index per sample.\<close>

definition resample :: "(int \<Rightarrow> nat \<Rightarrow> nat \<Rightarrow> nat) \<Rightarrow> int \<Rightarrow> nat \<Rightarrow> nat \<Rightarrow> nat list" where
  "resample rng seed n iteration = map (\<lambda>i. rng seed (iteration * n + i) n) [0..<n]"

fun bootstrap_loop :: "(nat \<Rightarrow> nat list) \<Rightarrow> f64 list \<Rightarrow> f64 list \<Rightarrow> nat list \<Rightarrow> f64 list option" where
  "bootstrap_loop draw active candidate [] = Some []"
| "bootstrap_loop draw active candidate (k # ks) =
     (let n = f_of_int (int (length active));
          activeMean = f_div (f_sum (map (\<lambda>i. active ! i) (draw k))) n;
          candidateMean = f_div (f_sum (map (\<lambda>i. candidate ! i) (draw k))) (f_of_int (int (length candidate)))
      in if f_le activeMean f_zero then None
         else map_option (\<lambda>rest. f_mul (f_div (f_sub activeMean candidateMean) activeMean) (FNum 100) # rest) (bootstrap_loop draw active candidate ks))"

text \<open>\<open>sort.Float64s\<close>, with NaN before everything else.\<close>

definition f_before :: "f64 \<Rightarrow> f64 \<Rightarrow> bool" where
  "f_before a b \<longleftrightarrow> f_lt a b \<or> (is_nan a \<and> \<not> is_nan b)"

fun f_insert :: "f64 \<Rightarrow> f64 list \<Rightarrow> f64 list" where
  "f_insert x [] = [x]"
| "f_insert x (y # ys) = (if f_before y x then y # f_insert x ys else x # y # ys)"

definition f_sort :: "f64 list \<Rightarrow> f64 list" where
  "f_sort xs = foldr f_insert xs []"

definition PairedBootstrap ::
  "(f64 \<Rightarrow> int) \<Rightarrow> (int \<Rightarrow> nat \<Rightarrow> nat \<Rightarrow> nat) \<Rightarrow> f64 list \<Rightarrow> f64 list \<Rightarrow> f64 \<Rightarrow> int \<Rightarrow> int \<Rightarrow> f64 \<Rightarrow> bootstrap_comparison \<times> string option" where
  "PairedBootstrap oob rng active candidate alpha minimum seed limit =
     (let result = \<lparr>bc_Status = ''insufficient'', bc_Seed = seed, bc_Alpha = alpha, bc_Iterations = int bootstrapIterations,
            bc_ActiveSamples = int (length active), bc_CandidateSamples = int (length candidate), bc_MinimumSamples = minimum,
            bc_ObservedRegressionPercent = None, bc_IntervalLowerPercent = None, bc_IntervalUpperPercent = None, bc_LimitPercent = limit\<rparr> in
      if f_le alpha f_zero \<or> f_ge alpha (FNum (1 / 2)) \<or> minimum < 2 \<or> f_lt limit f_zero \<or> f_gt limit (FNum 100)
        then (result, Some ''invalid paired-bootstrap policy'')
      else if length active \<noteq> length candidate \<or> int (length active) < minimum then (result, None)
      else if \<not> list_all finiteUnit active \<or> \<not> list_all finiteUnit candidate
        then (result, Some ''paired-bootstrap scores must be finite values between zero and one'')
      else let activeMean = f_mean active; candidateMean = f_mean candidate in
      if f_le activeMean f_zero then (result, None)
      else let observed = result\<lparr>bc_ObservedRegressionPercent := Some (f_mul (f_div (f_sub activeMean candidateMean) activeMean) (FNum 100))\<rparr> in
      case bootstrap_loop (resample rng seed (length active)) active candidate [0..<bootstrapIterations] of
        None \<Rightarrow> (observed, None)
      | Some distribution \<Rightarrow>
          let ordered = f_sort distribution;
              lower = percentile oob ordered (f_div alpha (FNum 2));
              upper = percentile oob ordered (f_sub (FNum 1) (f_div alpha (FNum 2)))
          in (observed\<lparr>bc_IntervalLowerPercent := Some lower, bc_IntervalUpperPercent := Some upper,
                bc_Status := (if f_gt lower limit then ''reject'' else if f_le upper limit then ''accept'' else ''inconclusive'')\<rparr>, None))"


section \<open>The decision\<close>

definition qualityComparable :: "revision_metrics \<Rightarrow> revision_metrics \<Rightarrow> bool" where
  "qualityComparable active candidate \<longleftrightarrow> rm_QualityComparable candidate = Some True \<and> rm_QualityScore active \<noteq> None"

definition comparison_mode :: "guard_policy \<Rightarrow> string" where
  "comparison_mode p = (if gp_QualityComparisonMode p = '''' then ''threshold'' else gp_QualityComparisonMode p)"

text \<open>The reason the bootstrap comparison gives, and whether it rejects (\<open>Inl\<close>) or waits (\<open>Inr\<close>).\<close>

definition bootstrap_reason ::
  "(f64 \<Rightarrow> int) \<Rightarrow> (int \<Rightarrow> nat \<Rightarrow> nat \<Rightarrow> nat) \<Rightarrow> guard_policy \<Rightarrow> revision_metrics \<Rightarrow> revision_metrics \<Rightarrow> (guard_reason + guard_reason) option" where
  "bootstrap_reason oob rng p active candidate =
     (case gp_MaxQualityRegressionPercent p of
        None \<Rightarrow> Some (Inr (reason ''quality_bootstrap_evidence_unavailable'' ''quality_distribution''))
      | Some limit \<Rightarrow>
          if \<not> qualityComparable active candidate \<or> rm_QualityPairingDigest active = '''' \<or> rm_QualityPairingDigest active \<noteq> rm_QualityPairingDigest candidate
          then Some (Inr (reason ''quality_bootstrap_evidence_unavailable'' ''quality_distribution''))
          else case PairedBootstrap oob rng (rm_QualityScores active) (rm_QualityScores candidate) (gp_QualityBootstrapAlpha p)
                 (gp_QualityBootstrapMinSamples p) (gp_QualityBootstrapSeed p) limit of
              (comparison, Some _) \<Rightarrow> Some (Inr ((reason ''quality_bootstrap_invalid'' ''quality_distribution'')\<lparr>rs_Bootstrap := Some comparison\<rparr>))
            | (comparison, None) \<Rightarrow>
                let because = (\<lambda>code. (reason code ''quality_distribution'')\<lparr>rs_Bootstrap := Some comparison\<rparr>) in
                if bc_Status comparison = ''reject'' then Some (Inl (because ''quality_bootstrap_regression''))
                else if bc_Status comparison = ''accept'' then None
                else if bc_Status comparison = ''inconclusive'' then Some (Inr (because ''quality_bootstrap_inconclusive''))
                else Some (Inr (because ''quality_bootstrap_insufficient'')))"

text \<open>A regression check that rejects when the regression is known and above the limit.\<close>

definition regression_reason :: "f64 option \<Rightarrow> f64 \<Rightarrow> guard_reason \<Rightarrow> guard_reason list" where
  "regression_reason regression limit r = (case regression of None \<Rightarrow> [] | Some x \<Rightarrow> if f_gt x limit then [r] else [])"

definition rejected_reasons ::
  "(f64 \<Rightarrow> int) \<Rightarrow> (int \<Rightarrow> nat \<Rightarrow> nat \<Rightarrow> nat) \<Rightarrow> guard_policy \<Rightarrow> revision_metrics \<Rightarrow> revision_metrics \<Rightarrow> guard_reason list" where
  "rejected_reasons oob rng p active candidate =
     (if rm_ReadyReplicas candidate < 1 then [reason ''candidate_not_ready'' ''ready_replicas''] else []) @
     (if gp_RequireCompatibilityEvidence p \<and> rm_Compatible candidate = Some False then [reason ''compatibility_mismatch'' ''compatibility''] else []) @
     (if f_gt (f_sub (rm_ErrorRate candidate) (rm_ErrorRate active)) (gp_MaxErrorRateIncrease p)
      then [comparisonReason ''error_rate_regression'' ''error_rate'' (rm_ErrorRate active) (rm_ErrorRate candidate) (gp_MaxErrorRateIncrease p)] else []) @
     regression_reason (percentIncrease (rm_P95TTFTMS active) (rm_P95TTFTMS candidate)) (gp_MaxTTFTRegressionPercent p)
       (comparisonReason ''ttft_regression'' ''p95_ttft_ms'' (value_or_zero (rm_P95TTFTMS active)) (value_or_zero (rm_P95TTFTMS candidate)) (gp_MaxTTFTRegressionPercent p)) @
     regression_reason (percentIncrease (rm_P95LatencyMS active) (rm_P95LatencyMS candidate)) (gp_MaxLatencyRegressionPercent p)
       (comparisonReason ''latency_regression'' ''p95_latency_ms'' (value_or_zero (rm_P95LatencyMS active)) (value_or_zero (rm_P95LatencyMS candidate)) (gp_MaxLatencyRegressionPercent p)) @
     regression_reason (percentDrop (rm_OutputTokensPerSecond active) (rm_OutputTokensPerSecond candidate)) (gp_MaxOutputThroughputDropPercent p)
       (comparisonReason ''output_throughput_regression'' ''output_tokens_per_second'' (value_or_zero (rm_OutputTokensPerSecond active))
          (value_or_zero (rm_OutputTokensPerSecond candidate)) (gp_MaxOutputThroughputDropPercent p)) @
     (case gp_MaxCostRegressionPercent p of None \<Rightarrow> []
      | Some limit \<Rightarrow> regression_reason (percentIncrease (rm_SourcedHourlyCost active) (rm_SourcedHourlyCost candidate)) limit
          (comparisonReason ''cost_regression'' ''sourced_hourly_cost'' (value_or_zero (rm_SourcedHourlyCost active)) (value_or_zero (rm_SourcedHourlyCost candidate)) limit)) @
     (if gp_RequireQualityEvidence p \<and> rm_QualityScore candidate \<noteq> None \<and> rm_QualityPassed candidate = Some False
      then [(reason ''quality_evaluation_failed'' ''quality_score'')\<lparr>rs_Candidate := rm_QualityScore candidate\<rparr>] else []) @
     (case (gp_MinimumQualityScore p, rm_QualityScore candidate) of
        (Some minimum, Some score) \<Rightarrow>
          if f_lt score minimum then [comparisonReason ''quality_score_below_minimum'' ''quality_score'' (value_or_zero (rm_QualityScore active)) score minimum] else []
      | _ \<Rightarrow> []) @
     (if comparison_mode p = ''bootstrap''
      then (case bootstrap_reason oob rng p active candidate of Some (Inl r) \<Rightarrow> [r] | _ \<Rightarrow> [])
      else case gp_MaxQualityRegressionPercent p of None \<Rightarrow> []
        | Some limit \<Rightarrow>
            if qualityComparable active candidate
            then regression_reason (percentDrop (rm_QualityScore active) (rm_QualityScore candidate)) limit
                   (comparisonReason ''quality_score_regression'' ''quality_score'' (value_or_zero (rm_QualityScore active)) (value_or_zero (rm_QualityScore candidate)) limit)
            else [])"

definition waiting_reasons ::
  "(f64 \<Rightarrow> int) \<Rightarrow> (int \<Rightarrow> nat \<Rightarrow> nat \<Rightarrow> nat) \<Rightarrow> guard_policy \<Rightarrow> revision_metrics \<Rightarrow> revision_metrics \<Rightarrow> guard_reason list" where
  "waiting_reasons oob rng p active candidate =
     (if gp_RequireCompatibilityEvidence p \<and> rm_Compatible candidate = None then [reason ''compatibility_unproven'' ''compatibility''] else []) @
     (if gp_RequireSyntheticEvidence p \<and> (\<not> rm_SyntheticValidation active \<or> \<not> rm_SyntheticValidation candidate)
      then [reason ''synthetic_validation_unproven'' ''synthetic_validation''] else []) @
     (case gp_MaxCostRegressionPercent p of None \<Rightarrow> []
      | Some limit \<Rightarrow> if rm_SourcedHourlyCost active = None \<or> rm_SourcedHourlyCost candidate = None
          then [reason ''cost_evidence_unavailable'' ''sourced_hourly_cost''] else []) @
     (if gp_RequireQualityEvidence p \<and> (rm_QualityScore candidate = None \<or> rm_QualityPassed candidate = None)
      then [reason ''quality_evidence_unavailable'' ''quality_score''] else []) @
     (if gp_RequireQualityEvidence p \<and> \<not> qualityComparable active candidate then [reason ''quality_evidence_not_comparable'' ''quality_score''] else []) @
     (if gp_MinimumQualityScore p \<noteq> None \<and> rm_QualityScore candidate = None \<and> \<not> gp_RequireQualityEvidence p
      then [reason ''quality_evidence_unavailable'' ''quality_score''] else []) @
     (if comparison_mode p = ''bootstrap''
      then (case bootstrap_reason oob rng p active candidate of Some (Inr r) \<Rightarrow> [r] | _ \<Rightarrow> [])
      else case gp_MaxQualityRegressionPercent p of None \<Rightarrow> []
        | Some limit \<Rightarrow>
            if \<not> qualityComparable active candidate
            then (if gp_RequireQualityEvidence p then [] else [reason ''quality_evidence_not_comparable'' ''quality_score''])
            else if rm_QualityScore candidate = None then [reason ''quality_score_unavailable'' ''quality_score'']
            else [])"

definition guard_Evaluate ::
  "(f64 \<Rightarrow> int) \<Rightarrow> (int \<Rightarrow> nat \<Rightarrow> nat \<Rightarrow> nat) \<Rightarrow> guard_policy \<Rightarrow> revision_metrics \<Rightarrow> revision_metrics \<Rightarrow> guard_verdict" where
  "guard_Evaluate oob rng p active candidate =
     (if \<not> gp_Enabled p then \<lparr>gu_Decision = ''ACCEPT'', gu_Reasons = [reason ''guard_disabled'' '''']\<rparr>
      else let rejected = rejected_reasons oob rng p active candidate; waiting = waiting_reasons oob rng p active candidate in
        if rejected \<noteq> [] then \<lparr>gu_Decision = ''REJECT'', gu_Reasons = rejected\<rparr>
        else if waiting \<noteq> [] then \<lparr>gu_Decision = ''WAIT'', gu_Reasons = waiting\<rparr>
        else if rm_Requests active < gp_MinimumRequests p \<or> rm_Requests candidate < gp_MinimumRequests p
          then \<lparr>gu_Decision = ''WAIT'', gu_Reasons = [reason ''insufficient_requests'' ''requests'']\<rparr>
        else if rm_P95TTFTMS active = None \<or> rm_P95TTFTMS candidate = None
          then \<lparr>gu_Decision = ''WAIT'', gu_Reasons = [reason ''ttft_unavailable'' ''p95_ttft_ms'']\<rparr>
        else \<lparr>gu_Decision = ''ACCEPT'', gu_Reasons = [reason ''within_policy'' '''']\<rparr>)"

section \<open>Sorting and the interval\<close>

text \<open>
  The bootstrap orders the resampled regressions and reads off two of them. What the comparison with the
  limit says is a count: a value at rank \<open>k\<close> is above the limit exactly when at most \<open>k\<close> of all the values are
  not. Sorting is a permutation that puts values which are not numbers first, so the count can be taken over
  the values as they were drawn.
\<close>

lemma mset_f_insert [simp]: "mset (f_insert x ys) = add_mset x (mset ys)"
  by (induction ys) auto

lemma mset_f_sort [simp]: "mset (f_sort xs) = mset xs"
  unfolding f_sort_def by (induction xs) auto

lemma set_f_insert [simp]: "set (f_insert x ys) = insert x (set ys)"
  by (induction ys) auto

lemma f_before_trans: "f_before a b \<Longrightarrow> f_before b c \<Longrightarrow> f_before a c"
  by (cases a; cases b; cases c) (auto simp: f_before_def is_nan_def)

lemma f_before_negtrans: "\<not> f_before b a \<Longrightarrow> \<not> f_before c b \<Longrightarrow> \<not> f_before c a"
  by (cases a; cases b; cases c) (auto simp: f_before_def is_nan_def)

lemma f_before_asym: "f_before a b \<Longrightarrow> \<not> f_before b a"
  by (cases a; cases b) (auto simp: f_before_def is_nan_def)

lemma f_insert_ordered: "sorted_wrt (\<lambda>a b. \<not> f_before b a) ys \<Longrightarrow> sorted_wrt (\<lambda>a b. \<not> f_before b a) (f_insert x ys)"
  by (induction ys) (auto dest: f_before_asym f_before_negtrans)

lemma f_sort_ordered: "sorted_wrt (\<lambda>a b. \<not> f_before b a) (f_sort xs)"
  unfolding f_sort_def by (induction xs) (auto intro: f_insert_ordered)

lemma length_f_sort [simp]: "length (f_sort xs) = length xs"
  using mset_eq_length [OF mset_f_sort] .

lemma count_f_sort: "length (filter P (f_sort xs)) = length (filter P xs)"
  using arg_cong [OF mset_f_sort, of "\<lambda>m. size (filter_mset P m)" xs] by (metis mset_filter size_mset)

lemma ranked_iff_count:
  assumes "sorted_wrt R xs" "\<And>x y. R x y \<Longrightarrow> P x \<Longrightarrow> P y" "k < length xs"
  shows "P (xs ! k) \<longleftrightarrow> length (filter (\<lambda>x. \<not> P x) xs) \<le> k"
  using assms(1,3)
proof (induction xs arbitrary: k)
  case (Cons x xs)
  show ?case
  proof (cases "P x")
    case True
    then have all: "\<forall>y \<in> set (x # xs). P y" using Cons.prems assms(2) by auto
    then have "P ((x # xs) ! k)" using Cons.prems(2) nth_mem by blast
    moreover have "filter (\<lambda>x. \<not> P x) (x # xs) = []" using all by (simp add: filter_empty_conv)
    ultimately show ?thesis by simp
  next
    case False
    then show ?thesis using Cons by (cases k) auto
  qed
qed simp

lemma sorted_above:
  assumes "k < length xs"
  shows "f_gt (f_sort xs ! k) limit \<longleftrightarrow> length (filter (\<lambda>x. \<not> f_gt x limit) xs) \<le> k"
proof -
  have up: "\<not> f_before y x \<Longrightarrow> f_gt x limit \<Longrightarrow> f_gt y limit" for x y
    by (cases x; cases y; cases limit) (auto simp: f_before_def is_nan_def)
  show ?thesis
    using ranked_iff_count [OF f_sort_ordered [of xs], of "\<lambda>x. f_gt x limit", OF up] assms
    by (simp add: count_f_sort)
qed

lemma sorted_number:
  assumes "k < length xs"
  shows "\<not> is_nan (f_sort xs ! k) \<longleftrightarrow> length (filter is_nan xs) \<le> k"
proof -
  have up: "\<not> f_before y x \<Longrightarrow> \<not> is_nan x \<Longrightarrow> \<not> is_nan y" for x y by (auto simp: f_before_def)
  show ?thesis
    using ranked_iff_count [OF f_sort_ordered [of xs], of "\<lambda>x. \<not> is_nan x", OF up] assms
    by (simp add: count_f_sort)
qed

lemma sorted_at_most:
  assumes "k < length xs"
  shows "f_le (f_sort xs ! k) limit \<longleftrightarrow>
    \<not> is_nan limit \<and> length (filter is_nan xs) \<le> k \<and> k < length (filter (\<lambda>x. \<not> f_gt x limit) xs)"
proof -
  have "f_le x limit \<longleftrightarrow> \<not> is_nan limit \<and> \<not> is_nan x \<and> \<not> f_gt x limit" for x
    by (cases x; cases limit) (auto simp: is_nan_def f_le_def)
  then show ?thesis unfolding sorted_above [OF assms, symmetric] sorted_number [OF assms, symmetric] not_le [symmetric] by blast
qed

section \<open>What a decision means\<close>

text \<open>
  The policy in terms of the measurements, without the functions of the guard. A measured value rises above
  (falls below) its limit when both revisions were measured, the active value is positive, and the change
  relative to the active value, in percent, exceeds the limit.
\<close>

definition rises_above :: "f64 option \<Rightarrow> f64 option \<Rightarrow> f64 \<Rightarrow> bool" where
  "rises_above active candidate limit \<longleftrightarrow>
     (\<exists>a c. active = Some a \<and> candidate = Some c \<and> \<not> f_le a f_zero \<and> f_gt (f_mul (f_div (f_sub c a) a) (FNum 100)) limit)"

definition falls_below :: "f64 option \<Rightarrow> f64 option \<Rightarrow> f64 \<Rightarrow> bool" where
  "falls_below active candidate limit \<longleftrightarrow>
     (\<exists>a c. active = Some a \<and> candidate = Some c \<and> \<not> f_le a f_zero \<and> f_gt (f_mul (f_div (f_sub a c) a) (FNum 100)) limit)"

text \<open>
  The resampling: iteration \<open>k\<close> draws one position per sample, the same positions for both revisions, and
  measures how far the candidate's mean falls below the active one's.
\<close>

definition resampled_mean :: "(int \<Rightarrow> nat \<Rightarrow> nat \<Rightarrow> nat) \<Rightarrow> int \<Rightarrow> f64 list \<Rightarrow> nat \<Rightarrow> f64" where
  "resampled_mean rng seed scores k =
     f_div (foldl f_add f_zero (map (\<lambda>i. scores ! rng seed (k * length scores + i) (length scores)) [0..<length scores]))
       (f_of_int (int (length scores)))"

definition resampled_drops :: "(int \<Rightarrow> nat \<Rightarrow> nat \<Rightarrow> nat) \<Rightarrow> int \<Rightarrow> f64 list \<Rightarrow> f64 list \<Rightarrow> f64 list" where
  "resampled_drops rng seed active candidate =
     map (\<lambda>k. f_mul (f_div (f_sub (resampled_mean rng seed active k) (resampled_mean rng seed candidate k)) (resampled_mean rng seed active k)) (FNum 100))
       [0..<10000]"

text \<open>The rank that leaves the fraction \<open>q\<close> of ten thousand resamples below it.\<close>

definition interval_rank :: "(f64 \<Rightarrow> int) \<Rightarrow> f64 \<Rightarrow> nat" where
  "interval_rank oob q = nat (max 0 (min 9999 (f_to_int oob (f_floor (f_mul q (FNum 9999))))))"

text \<open>When the samples can be compared at all.\<close>

definition comparable_samples :: "(int \<Rightarrow> nat \<Rightarrow> nat \<Rightarrow> nat) \<Rightarrow> int \<Rightarrow> f64 \<Rightarrow> int \<Rightarrow> f64 \<Rightarrow> f64 list \<Rightarrow> f64 list \<Rightarrow> bool" where
  "comparable_samples rng seed alpha minimum limit active candidate \<longleftrightarrow>
     \<not> f_le alpha f_zero \<and> \<not> f_ge alpha (FNum (1 / 2)) \<and> 2 \<le> minimum \<and> \<not> f_lt limit f_zero \<and> \<not> f_gt limit (FNum 100) \<and>
     length active = length candidate \<and> minimum \<le> int (length active) \<and>
     (\<forall>v \<in> set active \<union> set candidate. \<exists>q. v = FNum q \<and> 0 \<le> q \<and> q \<le> 1) \<and>
     \<not> f_le (f_div (foldl f_add f_zero active) (f_of_int (int (length active)))) f_zero \<and>
     (\<forall>k < 10000. \<not> f_le (resampled_mean rng seed active k) f_zero)"

text \<open>
  With an interval of significance \<open>alpha\<close>: the regression is established when no more resamples than the lower
  rank are within the limit, and excluded when more than the upper rank are.
\<close>

definition drop_established :: "(f64 \<Rightarrow> int) \<Rightarrow> f64 \<Rightarrow> f64 \<Rightarrow> f64 list \<Rightarrow> bool" where
  "drop_established oob alpha limit drops \<longleftrightarrow>
     length (filter (\<lambda>x. \<not> f_gt x limit) drops) \<le> interval_rank oob (f_div alpha (FNum 2))"

definition drop_excluded :: "(f64 \<Rightarrow> int) \<Rightarrow> f64 \<Rightarrow> f64 \<Rightarrow> f64 list \<Rightarrow> bool" where
  "drop_excluded oob alpha limit drops \<longleftrightarrow>
     \<not> is_nan limit \<and> length (filter is_nan drops) \<le> interval_rank oob (f_sub (FNum 1) (f_div alpha (FNum 2))) \<and>
     interval_rank oob (f_sub (FNum 1) (f_div alpha (FNum 2))) < length (filter (\<lambda>x. \<not> f_gt x limit) drops)"

lemma bootstrap_loop_eq:
  "bootstrap_loop draw active candidate ks =
     (let mean = (\<lambda>xs k. f_div (f_sum (map (\<lambda>i. xs ! i) (draw k))) (f_of_int (int (length xs)))) in
      if \<exists>k \<in> set ks. f_le (mean active k) f_zero then None
      else Some (map (\<lambda>k. f_mul (f_div (f_sub (mean active k) (mean candidate k)) (mean active k)) (FNum 100)) ks))"
  by (induction ks) (auto simp: Let_def)

lemma mean_resampled:
  "length xs = n \<Longrightarrow> f_div (f_sum (map (\<lambda>i. xs ! i) (resample rng seed n k))) (f_of_int (int (length xs))) = resampled_mean rng seed xs k"
  by (simp add: resampled_mean_def f_sum_def resample_def comp_def)

lemma bootstrap_run:
  assumes "length active = length candidate"
  shows "bootstrap_loop (resample rng seed (length active)) active candidate [0..<bootstrapIterations] =
     (if \<exists>k < 10000. f_le (resampled_mean rng seed active k) f_zero then None else Some (resampled_drops rng seed active candidate))"
  unfolding bootstrap_loop_eq Let_def mean_resampled [OF refl] mean_resampled [OF assms [symmetric]] bootstrapIterations_def
    resampled_drops_def set_upt by (auto simp del: upt_rec_numeral)

lemma finiteUnit_iff: "finiteUnit v \<longleftrightarrow> (\<exists>q. v = FNum q \<and> 0 \<le> q \<and> q \<le> 1)"
  by (cases v) (auto simp: finiteUnit_def is_nan_def is_inf_def f_le_def)

lemma interval_rank_less: "interval_rank oob q < 10000"
  unfolding interval_rank_def by linarith

lemma length_resampled_drops: "length (resampled_drops rng seed active candidate) = 10000"
  unfolding resampled_drops_def length_map length_upt by simp

lemma percentile_rank: "length xs = 10000 \<Longrightarrow> percentile oob xs q = xs ! interval_rank oob q"
  by (simp add: percentile_def interval_rank_def Let_def f_of_int_exact)

lemmas interval_facts = percentile_rank length_resampled_drops interval_rank_less sorted_above sorted_at_most


text \<open>The status of the comparison is the count: \<open>reject\<close> when the drop is established, \<open>accept\<close> when it is excluded.\<close>

lemma PairedBootstrap_status:
  "(\<exists>c. PairedBootstrap oob rng active candidate alpha minimum seed limit = (c, None) \<and> bc_Status c = status) \<and> status \<in> {''reject'', ''accept''} \<longleftrightarrow>
   comparable_samples rng seed alpha minimum limit active candidate \<and>
   (if drop_established oob alpha limit (resampled_drops rng seed active candidate) then status = ''reject''
    else drop_excluded oob alpha limit (resampled_drops rng seed active candidate) \<and> status = ''accept'')"
proof (cases "comparable_samples rng seed alpha minimum limit active candidate")
  case True
  then have guards: "\<not> (f_le alpha f_zero \<or> f_ge alpha (FNum (1 / 2)) \<or> minimum < 2 \<or> f_lt limit f_zero \<or> f_gt limit (FNum 100))"
    "\<not> (length active \<noteq> length candidate \<or> int (length active) < minimum)"
    "\<not> (\<not> list_all finiteUnit active \<or> \<not> list_all finiteUnit candidate)" "\<not> f_le (f_mean active) f_zero"
    and same: "length active = length candidate" and positive: "\<not> (\<exists>k < 10000. f_le (resampled_mean rng seed active k) f_zero)"
    by (auto simp: comparable_samples_def list_all_iff finiteUnit_iff f_mean_def f_sum_def)
  show ?thesis
    unfolding PairedBootstrap_def Let_def if_not_P [OF guards(1)] if_not_P [OF guards(2)] if_not_P [OF guards(3)] if_not_P [OF guards(4)]
      bootstrap_run [OF same] if_not_P [OF positive] option.case drop_established_def drop_excluded_def
    using True by (auto simp: interval_facts)
next
  case False
  let ?policy = "f_le alpha f_zero \<or> f_ge alpha (FNum (1 / 2)) \<or> minimum < 2 \<or> f_lt limit f_zero \<or> f_gt limit (FNum 100)"
  let ?few = "length active \<noteq> length candidate \<or> int (length active) < minimum"
  let ?outside = "\<not> list_all finiteUnit active \<or> \<not> list_all finiteUnit candidate"
  have "comparable_samples rng seed alpha minimum limit active candidate \<longleftrightarrow> \<not> ?policy \<and> \<not> ?few \<and> \<not> ?outside \<and>
      \<not> f_le (f_mean active) f_zero \<and> \<not> (\<exists>k < 10000. f_le (resampled_mean rng seed active k) f_zero)"
    unfolding comparable_samples_def list_all_iff finiteUnit_iff f_mean_def f_sum_def by auto
  with False consider ?policy | "\<not> ?policy" ?few | "\<not> ?policy" "\<not> ?few" ?outside | "\<not> ?policy" "\<not> ?few" "\<not> ?outside" "f_le (f_mean active) f_zero"
    | "\<not> ?policy" "\<not> ?few" "\<not> ?outside" "\<not> f_le (f_mean active) f_zero" "\<exists>k < 10000. f_le (resampled_mean rng seed active k) f_zero"
    by blast
  then have "PairedBootstrap oob rng active candidate alpha minimum seed limit = (c, None) \<Longrightarrow> bc_Status c = ''insufficient''" for c
  proof cases
    case 5
    have same: "length active = length candidate" using 5(2) by blast
    show "PairedBootstrap oob rng active candidate alpha minimum seed limit = (c, None) \<Longrightarrow> bc_Status c = ''insufficient''"
      unfolding PairedBootstrap_def Let_def if_not_P [OF 5(1)] if_not_P [OF 5(2)] if_not_P [OF 5(3)] if_not_P [OF 5(4)]
        bootstrap_run [OF same] if_P [OF 5(5)] by auto
  qed (simp_all only: PairedBootstrap_def Let_def if_True if_False prod.inject option.simps, auto)
  with False show ?thesis by auto
qed

text \<open>
  The bootstrap comparison a policy asks for: a limit is set, the two evaluations are comparable and were
  paired on the same samples, and the samples themselves can be compared.
\<close>

definition bootstrap_judges :: "(int \<Rightarrow> nat \<Rightarrow> nat \<Rightarrow> nat) \<Rightarrow> guard_policy \<Rightarrow> revision_metrics \<Rightarrow> revision_metrics \<Rightarrow> f64 \<Rightarrow> bool" where
  "bootstrap_judges rng p active candidate limit \<longleftrightarrow>
     gp_MaxQualityRegressionPercent p = Some limit \<and> rm_QualityComparable candidate = Some True \<and> rm_QualityScore active \<noteq> None \<and>
     rm_QualityPairingDigest active \<noteq> '''' \<and> rm_QualityPairingDigest active = rm_QualityPairingDigest candidate \<and>
     comparable_samples rng (gp_QualityBootstrapSeed p) (gp_QualityBootstrapAlpha p) (gp_QualityBootstrapMinSamples p) limit
       (rm_QualityScores active) (rm_QualityScores candidate)"

definition quality_drops :: "(int \<Rightarrow> nat \<Rightarrow> nat \<Rightarrow> nat) \<Rightarrow> guard_policy \<Rightarrow> revision_metrics \<Rightarrow> revision_metrics \<Rightarrow> f64 list" where
  "quality_drops rng p active candidate = resampled_drops rng (gp_QualityBootstrapSeed p) (rm_QualityScores active) (rm_QualityScores candidate)"

lemma bootstrap_reason_iff:
  "(\<exists>r. bootstrap_reason oob rng p active candidate = Some (Inl r)) \<longleftrightarrow>
     (\<exists>limit. bootstrap_judges rng p active candidate limit \<and> drop_established oob (gp_QualityBootstrapAlpha p) limit (quality_drops rng p active candidate))" (is ?rejects)
  "(\<forall>r. bootstrap_reason oob rng p active candidate \<noteq> Some (Inr r)) \<longleftrightarrow>
     (\<exists>limit. bootstrap_judges rng p active candidate limit \<and>
        (drop_established oob (gp_QualityBootstrapAlpha p) limit (quality_drops rng p active candidate) \<or>
         drop_excluded oob (gp_QualityBootstrapAlpha p) limit (quality_drops rng p active candidate)))" (is ?decides)
proof -
  let ?run = "\<lambda>limit. PairedBootstrap oob rng (rm_QualityScores active) (rm_QualityScores candidate) (gp_QualityBootstrapAlpha p)
    (gp_QualityBootstrapMinSamples p) (gp_QualityBootstrapSeed p) limit"
  note status = PairedBootstrap_status [where active = "rm_QualityScores active" and candidate = "rm_QualityScores candidate"
    and alpha = "gp_QualityBootstrapAlpha p" and minimum = "gp_QualityBootstrapMinSamples p" and seed = "gp_QualityBootstrapSeed p"]
  have reject: "(\<exists>c. ?run limit = (c, None) \<and> bc_Status c = ''reject'') \<longleftrightarrow>
      comparable_samples rng (gp_QualityBootstrapSeed p) (gp_QualityBootstrapAlpha p) (gp_QualityBootstrapMinSamples p) limit (rm_QualityScores active) (rm_QualityScores candidate) \<and>
      drop_established oob (gp_QualityBootstrapAlpha p) limit (quality_drops rng p active candidate)" for limit
    using status [of oob rng limit "''reject''"] by (simp add: quality_drops_def split: if_splits)
  have accept: "(\<exists>c. ?run limit = (c, None) \<and> bc_Status c = ''accept'') \<longleftrightarrow>
      comparable_samples rng (gp_QualityBootstrapSeed p) (gp_QualityBootstrapAlpha p) (gp_QualityBootstrapMinSamples p) limit (rm_QualityScores active) (rm_QualityScores candidate) \<and>
      \<not> drop_established oob (gp_QualityBootstrapAlpha p) limit (quality_drops rng p active candidate) \<and>
      drop_excluded oob (gp_QualityBootstrapAlpha p) limit (quality_drops rng p active candidate)" for limit
    using status [of oob rng limit "''accept''"] by (simp add: quality_drops_def split: if_splits)
  show ?rejects
  proof (cases "gp_MaxQualityRegressionPercent p")
    case (Some limit)
    then show ?thesis using reject [of limit]
      by (cases "?run limit") (auto simp: bootstrap_reason_def bootstrap_judges_def qualityComparable_def Let_def split: option.splits)
  qed (simp add: bootstrap_reason_def bootstrap_judges_def)
  show ?decides
  proof (cases "gp_MaxQualityRegressionPercent p")
    case (Some limit)
    then show ?thesis using reject [of limit] accept [of limit]
      by (cases "?run limit") (auto simp: bootstrap_reason_def bootstrap_judges_def qualityComparable_def Let_def split: option.splits)
  qed (simp add: bootstrap_reason_def bootstrap_judges_def)
qed

text \<open>A measured violation of the policy.\<close>

definition violates_policy ::
  "(f64 \<Rightarrow> int) \<Rightarrow> (int \<Rightarrow> nat \<Rightarrow> nat \<Rightarrow> nat) \<Rightarrow> guard_policy \<Rightarrow> revision_metrics \<Rightarrow> revision_metrics \<Rightarrow> bool" where
  "violates_policy oob rng p active candidate \<longleftrightarrow>
     rm_ReadyReplicas candidate < 1 \<or>
     (gp_RequireCompatibilityEvidence p \<and> rm_Compatible candidate = Some False) \<or>
     f_gt (f_sub (rm_ErrorRate candidate) (rm_ErrorRate active)) (gp_MaxErrorRateIncrease p) \<or>
     rises_above (rm_P95TTFTMS active) (rm_P95TTFTMS candidate) (gp_MaxTTFTRegressionPercent p) \<or>
     rises_above (rm_P95LatencyMS active) (rm_P95LatencyMS candidate) (gp_MaxLatencyRegressionPercent p) \<or>
     falls_below (rm_OutputTokensPerSecond active) (rm_OutputTokensPerSecond candidate) (gp_MaxOutputThroughputDropPercent p) \<or>
     (\<exists>limit. gp_MaxCostRegressionPercent p = Some limit \<and> rises_above (rm_SourcedHourlyCost active) (rm_SourcedHourlyCost candidate) limit) \<or>
     (gp_RequireQualityEvidence p \<and> rm_QualityScore candidate \<noteq> None \<and> rm_QualityPassed candidate = Some False) \<or>
     (\<exists>minimum score. gp_MinimumQualityScore p = Some minimum \<and> rm_QualityScore candidate = Some score \<and> f_lt score minimum) \<or>
     (if gp_QualityComparisonMode p = ''bootstrap''
      then \<exists>limit. bootstrap_judges rng p active candidate limit \<and> drop_established oob (gp_QualityBootstrapAlpha p) limit (quality_drops rng p active candidate)
      else \<exists>limit. gp_MaxQualityRegressionPercent p = Some limit \<and> rm_QualityComparable candidate = Some True \<and>
        falls_below (rm_QualityScore active) (rm_QualityScore candidate) limit)"

text \<open>All the evidence the policy asks for.\<close>

definition evidence_complete ::
  "(f64 \<Rightarrow> int) \<Rightarrow> (int \<Rightarrow> nat \<Rightarrow> nat \<Rightarrow> nat) \<Rightarrow> guard_policy \<Rightarrow> revision_metrics \<Rightarrow> revision_metrics \<Rightarrow> bool" where
  "evidence_complete oob rng p active candidate \<longleftrightarrow>
     (gp_RequireCompatibilityEvidence p \<longrightarrow> rm_Compatible candidate \<noteq> None) \<and>
     (gp_RequireSyntheticEvidence p \<longrightarrow> rm_SyntheticValidation active \<and> rm_SyntheticValidation candidate) \<and>
     (gp_MaxCostRegressionPercent p \<noteq> None \<longrightarrow> rm_SourcedHourlyCost active \<noteq> None \<and> rm_SourcedHourlyCost candidate \<noteq> None) \<and>
     (gp_RequireQualityEvidence p \<longrightarrow> rm_QualityScore candidate \<noteq> None \<and> rm_QualityPassed candidate \<noteq> None \<and>
        rm_QualityComparable candidate = Some True \<and> rm_QualityScore active \<noteq> None) \<and>
     (gp_MinimumQualityScore p \<noteq> None \<longrightarrow> rm_QualityScore candidate \<noteq> None) \<and>
     (if gp_QualityComparisonMode p = ''bootstrap''
      then \<exists>limit. bootstrap_judges rng p active candidate limit \<and>
        (drop_established oob (gp_QualityBootstrapAlpha p) limit (quality_drops rng p active candidate) \<or>
         drop_excluded oob (gp_QualityBootstrapAlpha p) limit (quality_drops rng p active candidate))
      else gp_MaxQualityRegressionPercent p \<noteq> None \<longrightarrow>
        rm_QualityComparable candidate = Some True \<and> rm_QualityScore active \<noteq> None \<and> rm_QualityScore candidate \<noteq> None) \<and>
     gp_MinimumRequests p \<le> rm_Requests active \<and> gp_MinimumRequests p \<le> rm_Requests candidate \<and>
     rm_P95TTFTMS active \<noteq> None \<and> rm_P95TTFTMS candidate \<noteq> None"

lemma regression_reason_increase [simp]:
  "regression_reason (percentIncrease active candidate) limit r = [] \<longleftrightarrow> \<not> rises_above active candidate limit"
  by (auto simp: regression_reason_def percentIncrease_def rises_above_def split: option.splits)

lemma regression_reason_drop [simp]:
  "regression_reason (percentDrop active candidate) limit r = [] \<longleftrightarrow> \<not> falls_below active candidate limit"
  by (auto simp: regression_reason_def percentDrop_def falls_below_def split: option.splits)

lemma falls_below_measured: "falls_below active candidate limit \<Longrightarrow> active \<noteq> None"
  by (auto simp: falls_below_def)

lemma bootstrap_mode: "comparison_mode p = ''bootstrap'' \<longleftrightarrow> gp_QualityComparisonMode p = ''bootstrap''"
  by (simp add: comparison_mode_def)

text \<open>What the two limits mean: a finite candidate value that is no worse keeps every limit that is not negative.\<close>

lemma f64_of_nonpos: "x \<le> 0 \<Longrightarrow> \<not> f_gt (f64_of_rat x) f_zero"
  using rnd64_nonneg [of "- x"] by (auto simp: f64_of_rat_def Let_def rnd64_minus)

lemma no_worse_keeps_limit:
  assumes "0 \<le> limit" "0 < a"
  shows "c \<le> a \<Longrightarrow> \<not> rises_above (Some (FNum a)) (Some (FNum c)) (FNum limit)"
    and "a \<le> c \<Longrightarrow> \<not> falls_below (Some (FNum a)) (Some (FNum c)) (FNum limit)"
proof -
  have scale: "\<not> f_gt (f_mul (f_div (f64_of_rat d) (FNum a)) (FNum 100)) (FNum limit)" if "d \<le> 0" for d
  proof -
    have times: "\<not> f_gt (f_mul y (FNum 100)) f_zero" if "\<not> f_gt y f_zero" for y
      using that f64_of_nonpos by (cases y) (auto simp: mult_le_0_iff)
    have "\<not> f_gt (f_div y (FNum a)) f_zero" if "\<not> f_gt y f_zero" for y
      using that f64_of_nonpos assms(2) by (cases y) (auto simp: divide_le_0_iff)
    then have "\<not> f_gt (f_mul (f_div (f64_of_rat d) (FNum a)) (FNum 100)) f_zero"
      using f64_of_nonpos [OF that] times by blast
    then show ?thesis
      using assms(1) by (cases "f_mul (f_div (f64_of_rat d) (FNum a)) (FNum 100)") auto
  qed
  show "c \<le> a \<Longrightarrow> \<not> rises_above (Some (FNum a)) (Some (FNum c)) (FNum limit)"
    and "a \<le> c \<Longrightarrow> \<not> falls_below (Some (FNum a)) (Some (FNum c)) (FNum limit)"
    using scale [of "c - a"] scale [of "a - c"] by (simp_all add: rises_above_def falls_below_def f_sub_def)
qed

lemma one_reason: "(if b then [r :: guard_reason] else []) = [] \<longleftrightarrow> \<not> b"
  by simp

lemma rejected_iff: "rejected_reasons oob rng p active candidate \<noteq> [] \<longleftrightarrow> violates_policy oob rng p active candidate"
proof -
  have cost: "(case gp_MaxCostRegressionPercent p of None \<Rightarrow> [] | Some limit \<Rightarrow> regression_reason (percentIncrease a c) limit (r limit)) = [] \<longleftrightarrow>
      \<not> (\<exists>limit. gp_MaxCostRegressionPercent p = Some limit \<and> rises_above a c limit)" for a c r
    by (auto split: option.splits)
  have minimum: "(case (gp_MinimumQualityScore p, rm_QualityScore candidate) of (Some m, Some s) \<Rightarrow> if f_lt s m then [r m s] else [] | _ \<Rightarrow> []) = [] \<longleftrightarrow>
      \<not> (\<exists>m s. gp_MinimumQualityScore p = Some m \<and> rm_QualityScore candidate = Some s \<and> f_lt s m)" for r
    by (auto split: option.splits)
  have boot: "(case bootstrap_reason oob rng p active candidate of Some (Inl r) \<Rightarrow> [r] | _ \<Rightarrow> []) = [] \<longleftrightarrow>
      \<not> (\<exists>limit. bootstrap_judges rng p active candidate limit \<and> drop_established oob (gp_QualityBootstrapAlpha p) limit (quality_drops rng p active candidate))"
    unfolding bootstrap_reason_iff [of oob, symmetric] by (auto split: option.splits sum.splits)
  have quality: "(case gp_MaxQualityRegressionPercent p of None \<Rightarrow> []
      | Some limit \<Rightarrow> if qualityComparable active candidate then regression_reason (percentDrop (rm_QualityScore active) c) limit (r limit) else []) = [] \<longleftrightarrow>
      \<not> (\<exists>limit. gp_MaxQualityRegressionPercent p = Some limit \<and> rm_QualityComparable candidate = Some True \<and> falls_below (rm_QualityScore active) c limit)" for c r
    by (auto simp: qualityComparable_def dest: falls_below_measured split: option.splits)
  show ?thesis
    unfolding rejected_reasons_def violates_policy_def append_is_Nil_conv cost minimum bootstrap_mode one_reason regression_reason_increase regression_reason_drop
    by (cases "gp_QualityComparisonMode p = ''bootstrap''") (simp_all only: if_True if_False simp_thms boot quality, argo+)
qed

lemma waiting_iff:
  "waiting_reasons oob rng p active candidate = [] \<and> gp_MinimumRequests p \<le> rm_Requests active \<and> gp_MinimumRequests p \<le> rm_Requests candidate \<and>
   rm_P95TTFTMS active \<noteq> None \<and> rm_P95TTFTMS candidate \<noteq> None \<longleftrightarrow> evidence_complete oob rng p active candidate"
proof -
  have boot: "(case bootstrap_reason oob rng p active candidate of Some (Inr r) \<Rightarrow> [r] | _ \<Rightarrow> []) = [] \<longleftrightarrow>
      (\<forall>r. bootstrap_reason oob rng p active candidate \<noteq> Some (Inr r))"
    by (auto split: option.splits sum.splits)
  have cost: "(case gp_MaxCostRegressionPercent p of None \<Rightarrow> [] | Some limit \<Rightarrow> if b then [r] else []) = [] \<longleftrightarrow> (gp_MaxCostRegressionPercent p \<noteq> None \<longrightarrow> \<not> b)" for b and r :: guard_reason
    by (auto split: option.splits)
  have quality: "(case gp_MaxQualityRegressionPercent p of None \<Rightarrow> [] | Some limit \<Rightarrow> if \<not> b then (if required then [] else [r]) else if missing then [r'] else []) = [] \<longleftrightarrow>
      (gp_MaxQualityRegressionPercent p \<noteq> None \<longrightarrow> (b \<or> required) \<and> (b \<longrightarrow> \<not> missing))" for b required missing and r r' :: guard_reason
    by (auto split: option.splits)
  show ?thesis
    unfolding waiting_reasons_def evidence_complete_def append_is_Nil_conv bootstrap_mode bootstrap_reason_iff(2) [symmetric] qualityComparable_def cost one_reason
    by (cases "gp_QualityComparisonMode p = ''bootstrap''") (simp_all only: if_True if_False simp_thms boot quality, argo+)
qed

text \<open>C34.
  The guard decides exactly by the policy, read on the measurements themselves. A disabled guard accepts. An
  enabled one rejects exactly when a measurement violates the policy, whatever evidence is missing: the
  candidate has no ready replica, is incompatible, failed its evaluation or scored below the minimum, its error
  rate rose by more than the limit, a latency or the cost rose (throughput or the quality score fell) relative to
  the active revision by more than its limit, or the paired bootstrap establishes a drop of quality, which is
  that among its ten thousand resamples no more than the lower rank are within the limit. Otherwise it accepts
  exactly when all the evidence the policy asks for is there (for the bootstrap, that more resamples than the
  upper rank are within the limit), and waits when some of it is missing.
\<close>

theorem guard_decision_exact:
  "gu_Decision (guard_Evaluate oob rng p active candidate) =
     (if \<not> gp_Enabled p then ''ACCEPT''
      else if violates_policy oob rng p active candidate then ''REJECT''
      else if evidence_complete oob rng p active candidate then ''ACCEPT''
      else ''WAIT'')"
  unfolding guard_Evaluate_def Let_def
  using rejected_iff [of oob rng p active candidate] waiting_iff [of oob rng p active candidate] by (auto simp: not_le)

end
