(* ===== verification/Revision_Spec.thy ===== *)
theory Revision_Spec
  imports Sql_Table Go_Strings
begin

text \<open>
  What a deployment revision may ask for: the container contract of
  \<open>internal/runtimecontract/workload.go\<close>, the serving topology of
  \<open>internal/servingcontract/topology.go\<close>, the qualification matrix of \<open>internal/support/matrix.go\<close>, and
  the normalization of a revision spec that \<open>EnsureCandidateRevision\<close>
  (\<open>internal/store/revisions.go\<close>) runs before it stores a candidate. A validation returns its error
  text, without the values formatted into it, or \<open>None\<close>.
\<close>

fun first_error :: "(bool \<times> string) list \<Rightarrow> string option" where
  "first_error [] = None"
| "first_error ((bad, text) # rest) = (if bad then Some text else first_error rest)"

lemma first_error_None: "first_error checks = None \<longleftrightarrow> (\<forall>(bad, text) \<in> set checks. \<not> bad)"
  by (induction checks rule: first_error.induct) auto


section \<open>Workloads\<close>

record workload =
  wl_Image :: string
  wl_Command :: "string list"
  wl_Protocol :: string
  wl_Port :: int
  wl_ReadinessPath :: string
  wl_ModelsPath :: string
  wl_MetricsPath :: string
  wl_Cancellation :: string
  wl_Drain :: string
  wl_ShutdownGraceSeconds :: int

definition workload_Empty :: "workload \<Rightarrow> bool" where
  "workload_Empty w \<longleftrightarrow> wl_Image w = '''' \<and> wl_Command w = [] \<and> wl_Protocol w = ''''"

definition in_range :: "char \<Rightarrow> char \<Rightarrow> char \<Rightarrow> bool" where
  "in_range lo hi c \<longleftrightarrow> (of_char lo :: nat) \<le> of_char c \<and> (of_char c :: nat) \<le> of_char hi"

definition alnum :: "char \<Rightarrow> bool" where
  "alnum c \<longleftrightarrow> in_range (CHR ''a'') (CHR ''z'') c \<or> in_range (CHR ''A'') (CHR ''Z'') c \<or> in_range (CHR ''0'') (CHR ''9'') c"

definition lower_hex :: "char \<Rightarrow> bool" where
  "lower_hex c \<longleftrightarrow> in_range (CHR ''a'') (CHR ''f'') c \<or> in_range (CHR ''0'') (CHR ''9'') c"

definition name_char :: "char \<Rightarrow> bool" where
  "name_char c \<longleftrightarrow> alnum c \<or> c \<in> {CHR ''.'', CHR ''_'', CHR ''/'', CHR ''-''}"

definition tag_char :: "char \<Rightarrow> bool" where
  "tag_char c \<longleftrightarrow> alnum c \<or> c \<in> {CHR ''.'', CHR ''_'', CHR ''-''}"

definition pinned_digest :: "string \<Rightarrow> bool" where
  "pinned_digest s \<longleftrightarrow> HasPrefix s ''@sha256:'' \<and> length (drop 8 s) = 64 \<and> list_all lower_hex (drop 8 s)"

text \<open>
  The expression accepts a name, an optional tag after a colon, and a digest. Neither class holds the
  character that ends it, so the longest run is the only one that can match.
\<close>

definition digestPattern :: "string \<Rightarrow> bool" where
  "digestPattern s \<longleftrightarrow>
     (case s of [] \<Rightarrow> False
      | c # cs \<Rightarrow>
          alnum c \<and>
          (let rest = dropWhile name_char cs in
           case rest of
             [] \<Rightarrow> False
           | r # rs \<Rightarrow>
               if r = CHR '':'' then takeWhile tag_char rs \<noteq> [] \<and> pinned_digest (dropWhile tag_char rs)
               else pinned_digest rest))"

definition ValidateImage :: "string \<Rightarrow> bool" where
  "ValidateImage img \<longleftrightarrow> length img \<le> 512 \<and> digestPattern (TrimSpace img)"

definition validPath :: "string \<Rightarrow> bool" where
  "validPath v \<longleftrightarrow> length v \<le> 256 \<and> HasPrefix v ''/'' \<and> \<not> HasPrefix v ''//'' \<and>
     list_all (\<lambda>c. c \<notin> {CHR ''?'', CHR ''#'', CHR 0x0D, CHR 0x0A}) v"

definition command_error :: "string \<Rightarrow> string option" where
  "command_error arg = first_error
     [(length arg > 4096, ''workload.command arguments must not exceed 4096 characters''),
      (CHR 0x00 \<in> set arg, ''workload.command cannot contain NUL bytes''),
      (Contains arg ''${WORKER_API_KEY}'', ''workload.command cannot place worker credentials in process arguments'')]"

fun command_loop :: "string list \<Rightarrow> string option" where
  "command_loop [] = None"
| "command_loop (arg # args) = (case command_error arg of Some e \<Rightarrow> Some e | None \<Rightarrow> command_loop args)"

definition workload_Validate :: "workload \<Rightarrow> string option" where
  "workload_Validate w =
     (case first_error
        [(length (wl_Image w) > 512, ''workload.image must not exceed 512 characters''),
         (\<not> ValidateImage (wl_Image w), ''workload.image''),
         (wl_Command w = [] \<or> length (wl_Command w) > 128 \<or> TrimSpace (hd (wl_Command w)) = '''', ''workload.command must contain executable argv'')] of
        Some e \<Rightarrow> Some e
      | None \<Rightarrow>
          case command_loop (wl_Command w) of
            Some e \<Rightarrow> Some e
          | None \<Rightarrow> first_error
              [(wl_Protocol w \<noteq> ''openai'', ''workload.protocol is unsupported''),
               (wl_Port w < 1 \<or> wl_Port w > 65535, ''workload.port must be between 1 and 65535''),
               (\<not> list_all validPath [wl_ReadinessPath w, wl_ModelsPath w, wl_MetricsPath w], ''workload path must be an absolute path without query or fragment''),
               (wl_ReadinessPath w \<noteq> ''/health'' \<or> wl_ModelsPath w \<noteq> ''/v1/models'' \<or> wl_MetricsPath w \<noteq> ''/metrics'', ''workload paths must be /health, /v1/models, and /metrics''),
               (wl_Cancellation w \<noteq> ''http-disconnect'', ''workload.cancellation must be http-disconnect''),
               (wl_Drain w \<noteq> ''connection'', ''workload.drain must be connection''),
               (wl_ShutdownGraceSeconds w < 1 \<or> wl_ShutdownGraceSeconds w > 3600, ''workload.shutdown_grace_seconds must be between 1 and 3600'')])"

definition SGLangWorkload :: workload where
  "SGLangWorkload =
     \<lparr>wl_Image = ''lmsysorg/sglang:v0.5.12@sha256:42194170546745092e74cd5f81ad32a7c6e944c7111fe7bf13588152277ff356'',
      wl_Command = [''python3'', ''-m'', ''sglang.launch_server'', ''--model-path'', ''${MODEL}'', ''--revision'', ''${MODEL_REVISION}'', ''--host'', ''0.0.0.0'', ''--port'', ''${PORT}''],
      wl_Protocol = ''openai'', wl_Port = 8000, wl_ReadinessPath = ''/health'', wl_ModelsPath = ''/v1/models'', wl_MetricsPath = ''/metrics'',
      wl_Cancellation = ''http-disconnect'', wl_Drain = ''connection'', wl_ShutdownGraceSeconds = 30\<rparr>"

definition NormalizeWorkload :: "string \<Rightarrow> workload \<Rightarrow> workload" where
  "NormalizeWorkload runtime w = (if workload_Empty w \<and> runtime = ''sglang'' then SGLangWorkload else w)"


section \<open>Serving topologies\<close>

record pool =
  po_Replicas :: int
  po_TensorParallelism :: int

record serving_autoscaling =
  sa_Owner :: string
  sa_Min :: int
  sa_Max :: int

record serving_cache =
  sc_Backend :: string
  sc_HostGiB :: int
  sc_DiskGiB :: int
  sc_MemoryGiB :: int
  sc_StorageClaim :: string
  sc_ConfigurationRef :: string
  sc_Metrics :: bool

record topology =
  tp_SchemaVersion :: string
  tp_Backend :: string
  tp_Profile :: string
  tp_Mode :: string
  tp_Routing :: string
  tp_Worker :: pool
  tp_Prefill :: pool
  tp_Decode :: pool
  tp_Autoscaling :: serving_autoscaling
  tp_Cache :: serving_cache

definition zero_pool :: pool where
  "zero_pool = \<lparr>po_Replicas = 0, po_TensorParallelism = 0\<rparr>"

definition zero_autoscaling :: serving_autoscaling where
  "zero_autoscaling = \<lparr>sa_Owner = '''', sa_Min = 0, sa_Max = 0\<rparr>"

definition zero_cache :: serving_cache where
  "zero_cache = \<lparr>sc_Backend = '''', sc_HostGiB = 0, sc_DiskGiB = 0, sc_MemoryGiB = 0, sc_StorageClaim = '''', sc_ConfigurationRef = '''', sc_Metrics = False\<rparr>"

definition zero_topology :: topology where
  "zero_topology = \<lparr>tp_SchemaVersion = '''', tp_Backend = '''', tp_Profile = '''', tp_Mode = '''', tp_Routing = '''',
     tp_Worker = zero_pool, tp_Prefill = zero_pool, tp_Decode = zero_pool, tp_Autoscaling = zero_autoscaling, tp_Cache = zero_cache\<rparr>"

definition topology_Empty :: "topology \<Rightarrow> bool" where
  "topology_Empty t \<longleftrightarrow> tp_SchemaVersion t = '''' \<and> tp_Backend t = '''' \<and> tp_Profile t = '''' \<and> tp_Mode t = '''' \<and> tp_Routing t = '''' \<and>
     tp_Worker t = zero_pool \<and> tp_Prefill t = zero_pool \<and> tp_Decode t = zero_pool \<and> tp_Autoscaling t = zero_autoscaling \<and> tp_Cache t = zero_cache"

definition default_to :: "string \<Rightarrow> string \<Rightarrow> string" where
  "default_to d v = (if v = '''' then d else v)"

definition default_parallelism :: "pool \<Rightarrow> pool" where
  "default_parallelism p = (if po_Replicas p > 0 \<and> po_TensorParallelism p = 0 then p\<lparr>po_TensorParallelism := 1\<rparr> else p)"

definition topology_Normalize :: "topology \<Rightarrow> topology" where
  "topology_Normalize t =
     (if topology_Empty t then t
      else let mode = default_to ''aggregated'' (tp_Mode t);
               worker = (if mode = ''aggregated'' \<and> po_Replicas (tp_Worker t) = 0 then (tp_Worker t)\<lparr>po_Replicas := 1\<rparr> else tp_Worker t)
           in t\<lparr>tp_SchemaVersion := default_to ''infercrane.serving/v1'' (tp_SchemaVersion t),
                tp_Profile := default_to ''custom'' (tp_Profile t),
                tp_Mode := mode,
                tp_Routing := default_to ''direct'' (tp_Routing t),
                tp_Autoscaling := (tp_Autoscaling t)\<lparr>sa_Owner := default_to ''disabled'' (sa_Owner (tp_Autoscaling t))\<rparr>,
                tp_Cache := (tp_Cache t)\<lparr>sc_Backend := default_to ''none'' (sc_Backend (tp_Cache t))\<rparr>,
                tp_Worker := default_parallelism worker,
                tp_Prefill := default_parallelism (tp_Prefill t),
                tp_Decode := default_parallelism (tp_Decode t)\<rparr>)"

definition validatePool :: "pool \<Rightarrow> string option" where
  "validatePool p = first_error
     [(po_Replicas p < 0 \<or> po_Replicas p > 10000 \<or> po_TensorParallelism p < 0 \<or> po_TensorParallelism p > 1024, ''serving pool replicas and tensor_parallelism exceed supported bounds''),
      (po_Replicas p > 0 \<and> po_TensorParallelism p < 1, ''serving pool tensor_parallelism must be positive'')]"

definition cache_validate :: "serving_cache \<Rightarrow> string \<Rightarrow> string option" where
  "cache_validate c runtime = first_error
     [(sc_Backend c \<notin> {''none'', ''kvbm'', ''lmcache'', ''hicache''}, ''serving.cache.backend must be none, kvbm, lmcache, or hicache''),
      (sc_HostGiB c < 0 \<or> sc_DiskGiB c < 0 \<or> sc_MemoryGiB c < 0 \<or> sc_HostGiB c > 1000000 \<or> sc_DiskGiB c > 10000000 \<or> sc_MemoryGiB c > 1000000, ''serving cache sizes exceed supported bounds''),
      (sc_Backend c = ''none'' \<and> (sc_HostGiB c \<noteq> 0 \<or> sc_DiskGiB c \<noteq> 0 \<or> sc_MemoryGiB c \<noteq> 0 \<or> sc_StorageClaim c \<noteq> '''' \<or> sc_ConfigurationRef c \<noteq> '''' \<or> sc_Metrics c), ''serving cache settings require a cache backend''),
      (sc_Backend c = ''kvbm'' \<and> runtime \<noteq> ''vllm'', ''KVBM is currently qualified only with vllm''),
      (sc_Backend c = ''lmcache'' \<and> runtime \<noteq> ''vllm'', ''LMCache is currently qualified only with vllm''),
      (sc_Backend c = ''hicache'' \<and> runtime \<noteq> ''sglang'', ''HiCache requires sglang''),
      (sc_Backend c = ''kvbm'' \<and> sc_HostGiB c = 0 \<and> sc_DiskGiB c = 0, ''KVBM requires an explicit host or disk cache size''),
      (sc_Backend c = ''kvbm'' \<and> sc_MemoryGiB c \<le> sc_HostGiB c, ''KVBM memory_gib must exceed host_gib so the runtime is not starved by the cache''),
      (sc_DiskGiB c > 0 \<and> sc_HostGiB c = 0, ''disk cache requires a host cache tier''),
      (sc_DiskGiB c > 0 \<and> sc_DiskGiB c < sc_HostGiB c, ''disk cache must not be smaller than host cache''),
      (sc_DiskGiB c > 0 \<and> sc_StorageClaim c = '''', ''disk cache requires an explicit storage_claim'')]"

definition shape_error :: "topology \<Rightarrow> string option" where
  "shape_error t =
     (if tp_Mode t = ''aggregated''
      then first_error [(po_Replicas (tp_Worker t) < 1 \<or> po_Replicas (tp_Prefill t) \<noteq> 0 \<or> po_Replicas (tp_Decode t) \<noteq> 0,
             ''aggregated serving requires worker replicas and forbids prefill/decode pools'')]
      else first_error [(po_Replicas (tp_Worker t) \<noteq> 0 \<or> po_Replicas (tp_Prefill t) < 1 \<or> po_Replicas (tp_Decode t) < 1,
             ''disaggregated serving requires prefill and decode replicas and forbids a worker pool'')])"

definition autoscaling_error :: "serving_autoscaling \<Rightarrow> string option" where
  "autoscaling_error a = first_error
     [(sa_Owner a \<notin> {''disabled'', ''dynamo-planner'', ''external''}, ''serving.autoscaling.owner must be disabled, dynamo-planner, or external''),
      (sa_Owner a = ''disabled'' \<and> (sa_Min a \<noteq> 0 \<or> sa_Max a \<noteq> 0), ''disabled serving autoscaling cannot declare min or max''),
      (sa_Owner a \<noteq> ''disabled'' \<and> (sa_Min a < 1 \<or> sa_Max a < sa_Min a \<or> sa_Max a > 10000), ''serving autoscaling bounds must satisfy 1 <= min <= max <= 10000''),
      (sa_Owner a \<noteq> ''disabled'', ''Dynamo Planner and external autoscaling ownership are registered but not executable'')]"

fun first_of :: "string option list \<Rightarrow> string option" where
  "first_of [] = None"
| "first_of (e # es) = (case e of Some text \<Rightarrow> Some text | None \<Rightarrow> first_of es)"

definition topology_Validate :: "topology \<Rightarrow> string \<Rightarrow> string \<Rightarrow> string \<Rightarrow> int \<Rightarrow> int \<Rightarrow> string option" where
  "topology_Validate t0 runtime cloud providerAdapter outerMin outerMax =
     (if topology_Empty t0
      then (if providerAdapter = ''kubernetes-dynamo'' then Some ''provider_adapter kubernetes-dynamo requires an explicit Dynamo serving topology'' else None)
      else let t = topology_Normalize t0 in
        first_of
          [first_error
             [(tp_SchemaVersion t \<noteq> ''infercrane.serving/v1'', ''serving.schema_version is unsupported''),
              (tp_Backend t \<noteq> ''dynamo'', ''serving.backend is unsupported''),
              (cloud \<noteq> ''kubernetes'' \<or> providerAdapter \<noteq> ''kubernetes-dynamo'', ''Dynamo serving requires cloud kubernetes and provider_adapter kubernetes-dynamo''),
              (runtime \<noteq> ''vllm'' \<and> runtime \<noteq> ''sglang'', ''Dynamo serving currently requires runtime vllm or sglang''),
              (outerMin \<noteq> 1 \<or> outerMax \<noteq> 1, ''Dynamo serving owns one graph; outer replica bounds must both equal 1''),
              (tp_Profile t \<noteq> ''custom'' \<and> tp_Profile t \<noteq> ''baseline'', ''serving.profile must be baseline or custom''),
              (tp_Mode t \<noteq> ''aggregated'' \<and> tp_Mode t \<noteq> ''disaggregated'', ''serving.mode must be aggregated or disaggregated''),
              (tp_Routing t \<noteq> ''direct'' \<and> tp_Routing t \<noteq> ''kv-aware'', ''serving.routing must be direct or kv-aware'')],
           validatePool (tp_Worker t), validatePool (tp_Prefill t), validatePool (tp_Decode t),
           shape_error t, autoscaling_error (tp_Autoscaling t), cache_validate (tp_Cache t) runtime,
           first_error
             [(tp_Mode t = ''disaggregated'', ''NIXL prefill/decode disaggregation is registered but not executable''),
              (sc_Backend (tp_Cache t) = ''lmcache'' \<or> sc_Backend (tp_Cache t) = ''hicache'', ''LMCache and HiCache are registered but not executable'')]])"


section \<open>The qualification matrix\<close>

type_synonym matrix = "(string \<times> (string \<times> string list) list) list"

definition V1 :: matrix where
  "V1 = [(''runpod'', [(''elastic'', [''vllm'', ''custom-oci'']), (''serverless'', [''vllm''])]),
         (''aws'', [(''elastic'', [''vllm'', ''sglang'', ''custom-oci''])]),
         (''gcp'', [(''elastic'', [''vllm'', ''sglang'', ''custom-oci''])]),
         (''kubernetes'', [(''elastic'', [''vllm'', ''sglang'', ''custom-oci''])])]"

definition matrix_runtimes :: "matrix \<Rightarrow> string list" where
  "matrix_runtimes m = concat (map (\<lambda>(cloud, modes). concat (map snd modes)) m)"

definition defaultRuntime :: "string \<Rightarrow> string" where
  "defaultRuntime runtime = default_to ''vllm'' runtime"

definition ValidateRuntime :: "matrix \<Rightarrow> string \<Rightarrow> string option" where
  "ValidateRuntime m runtime = (if defaultRuntime runtime \<in> set (matrix_runtimes m) then None else Some ''runtime is not qualified'')"

definition matrix_Validate :: "matrix \<Rightarrow> string \<Rightarrow> string \<Rightarrow> string \<Rightarrow> string option" where
  "matrix_Validate m runtime cloud mode =
     (case ValidateRuntime m runtime of
        Some e \<Rightarrow> Some e
      | None \<Rightarrow>
          case map_of m cloud of
            None \<Rightarrow> Some ''provider cloud is not qualified''
          | Some modes \<Rightarrow>
              case map_of modes mode of
                None \<Rightarrow> Some ''compute mode is not qualified for cloud''
              | Some runtimes \<Rightarrow> if defaultRuntime runtime \<in> set runtimes then None else Some ''runtime is not qualified for cloud'')"


section \<open>Revision specs\<close>

record revision_spec =
  sp_Model :: string
  sp_ModelRevision :: string
  sp_ModelSecretReferenceID :: string
  sp_Runtime :: string
  sp_RuntimeVersion :: string
  sp_RuntimeArgs :: "string list"
  sp_RoutingStrategy :: string
  sp_MinReplicas :: int
  sp_MaxReplicas :: int
  sp_AutoscalingEnabled :: bool
  sp_ComputeMode :: string
  sp_Cloud :: string
  sp_ProviderAdapter :: string
  sp_ComputeConnectionID :: string
  sp_GPU :: string
  sp_GPUCount :: int
  sp_Region :: string
  sp_Port :: int
  sp_Workload :: workload
  sp_Serving :: topology

definition RoutingStrategies :: "string list" where
  "RoutingStrategies = [''round-robin'', ''consistent-hash'', ''power-of-two'', ''cache-aware'']"

definition runtime_defaults :: "revision_spec \<Rightarrow> revision_spec" where
  "runtime_defaults s =
     (let runtime = default_to ''vllm'' (sp_Runtime s);
          version = (if sp_RuntimeVersion s = '''' then (if runtime = ''vllm'' then ''0.22.1'' else if runtime = ''sglang'' then ''0.5.12'' else '''') else sp_RuntimeVersion s)
      in s\<lparr>sp_Runtime := runtime, sp_RuntimeVersion := version,
           sp_Workload := NormalizeWorkload runtime (sp_Workload s), sp_Serving := topology_Normalize (sp_Serving s),
           sp_ComputeMode := (if sp_ComputeMode s = '''' then (if sp_Cloud s \<noteq> '''' \<or> sp_GPU s \<noteq> '''' then ''elastic'' else ''existing'') else sp_ComputeMode s)\<rparr>)"

definition compute_error :: "revision_spec \<Rightarrow> string option" where
  "compute_error s = first_error
     [(sp_ComputeMode s \<notin> {''existing'', ''elastic'', ''serverless''}, ''revision compute mode is unsupported''),
      (sp_ComputeMode s = ''elastic'' \<and> (sp_Cloud s = '''' \<or> sp_GPU s = ''''), ''elastic revision requires cloud and gpu'')]"

definition gpu_default :: "revision_spec \<Rightarrow> revision_spec" where
  "gpu_default s = (if sp_ComputeMode s \<noteq> ''existing'' \<and> sp_GPUCount s = 0 then s\<lparr>sp_GPUCount := 1\<rparr> else s)"

definition capacity_error :: "revision_spec \<Rightarrow> string option" where
  "capacity_error s = first_of
     [first_error
        [(sp_ComputeMode s \<noteq> ''existing'' \<and> (sp_GPUCount s < 1 \<or> sp_GPUCount s > 1024), ''revision gpu_count must be between 1 and 1024''),
         (sp_ComputeMode s = ''serverless'' \<and> sp_GPUCount s \<noteq> 1, ''serverless revision currently requires gpu_count 1'')],
      (if sp_ComputeMode s \<noteq> ''existing'' then matrix_Validate V1 (sp_Runtime s) (sp_Cloud s) (sp_ComputeMode s) else None),
      first_error [(sp_Runtime s = ''custom-oci'' \<and> workload_Empty (sp_Workload s), ''custom-oci revision requires an explicit workload contract'')],
      (if workload_Empty (sp_Workload s) then None
       else first_of [workload_Validate (sp_Workload s), first_error [(sp_ComputeMode s \<noteq> ''elastic'', ''custom OCI workload requires elastic compute'')]])]"

definition workload_port :: "revision_spec \<Rightarrow> revision_spec" where
  "workload_port s = (if workload_Empty (sp_Workload s) then s else s\<lparr>sp_Port := wl_Port (sp_Workload s)\<rparr>)"

definition routing_defaults :: "revision_spec \<Rightarrow> revision_spec" where
  "routing_defaults s = s\<lparr>sp_RoutingStrategy := default_to ''round-robin'' (sp_RoutingStrategy s)\<rparr>"

definition replica_defaults :: "revision_spec \<Rightarrow> revision_spec" where
  "replica_defaults s =
     (let minimum = (if sp_MinReplicas s = 0 then 1 else sp_MinReplicas s)
      in s\<lparr>sp_MinReplicas := minimum, sp_MaxReplicas := (if sp_MaxReplicas s = 0 then minimum else sp_MaxReplicas s)\<rparr>)"

definition replica_error :: "revision_spec \<Rightarrow> string option" where
  "replica_error s = first_of
     [first_error [(sp_MinReplicas s < 1 \<or> sp_MaxReplicas s < sp_MinReplicas s, ''revision replica bounds are invalid'')],
      topology_Validate (sp_Serving s) (sp_Runtime s) (sp_Cloud s) (sp_ProviderAdapter s) (sp_MinReplicas s) (sp_MaxReplicas s),
      first_error [(sp_Runtime s \<noteq> ''vllm'' \<and> sp_MaxReplicas s > sp_MinReplicas s, ''autoscaling is not yet qualified for this runtime; set min and max replicas equal'')]]"

definition refuse :: "string option \<Rightarrow> string + unit" where
  "refuse e = (case e of None \<Rightarrow> Inr () | Some text \<Rightarrow> Inl text)"

definition normalize_spec :: "revision_spec \<Rightarrow> string + revision_spec" where
  "normalize_spec s0 =
     bind_err (require (sp_Model s0 \<noteq> '''') ''revision spec must be a valid deployment spec'') (\<lambda>_.
     let s1 = runtime_defaults s0 in
     bind_err (refuse (compute_error s1)) (\<lambda>_.
     let s2 = gpu_default s1 in
     bind_err (refuse (capacity_error s2)) (\<lambda>_.
     let s3 = routing_defaults (workload_port s2) in
     bind_err (require (sp_RoutingStrategy s3 \<in> set RoutingStrategies) ''revision routing strategy is unsupported'') (\<lambda>_.
     let s4 = replica_defaults s3 in
     bind_err (refuse (replica_error s4)) (\<lambda>_. Inr s4)))))"


section \<open>What an accepted spec guarantees\<close>

lemma first_of_None: "first_of es = None \<longleftrightarrow> (\<forall>e \<in> set es. e = None)"
  by (induction es) (auto split: option.splits)

lemma refuse_Inr [simp]: "refuse e = Inr u \<longleftrightarrow> e = None"
  by (cases e) (simp_all add: refuse_def)

lemma default_to_idem [simp]: "d \<noteq> '''' \<Longrightarrow> default_to d (default_to d v) = default_to d v"
  by (simp add: default_to_def)

lemma default_to_nonempty [simp]: "d \<noteq> '''' \<Longrightarrow> default_to d v \<noteq> ''''"
  by (simp add: default_to_def)

lemma default_parallelism_idem [simp]: "default_parallelism (default_parallelism p) = default_parallelism p"
  by (simp add: default_parallelism_def)

lemma replicas_default_parallelism [simp]: "po_Replicas (default_parallelism p) = po_Replicas p"
  by (simp add: default_parallelism_def)

lemma NormalizeWorkload_idem [simp]: "NormalizeWorkload r (NormalizeWorkload r w) = NormalizeWorkload r w"
  by (simp add: NormalizeWorkload_def)

lemma topology_Empty_Normalize [simp]: "topology_Empty (topology_Normalize t) = topology_Empty t"
  by (auto simp: topology_Normalize_def topology_Empty_def Let_def default_to_def)

lemma topology_Normalize_idem [simp]: "topology_Normalize (topology_Normalize t) = topology_Normalize t"
proof (cases "topology_Empty t")
  case True
  then show ?thesis by (simp add: topology_Normalize_def)
next
  case False
  then have "\<not> topology_Empty (topology_Normalize t)" by simp
  then show ?thesis
    using False by (subst topology_Normalize_def) (simp add: topology_Normalize_def Let_def)
qed

text \<open>The stages after the first leave alone what the earlier stages decided.\<close>

lemmas spec_stage_defs = gpu_default_def workload_port_def routing_defaults_def replica_defaults_def Let_def

lemma gpu_default_keeps [simp]:
  "sp_Model (gpu_default s) = sp_Model s" "sp_Runtime (gpu_default s) = sp_Runtime s" "sp_RuntimeVersion (gpu_default s) = sp_RuntimeVersion s"
  "sp_Workload (gpu_default s) = sp_Workload s" "sp_Serving (gpu_default s) = sp_Serving s" "sp_ComputeMode (gpu_default s) = sp_ComputeMode s"
  "sp_Cloud (gpu_default s) = sp_Cloud s" "sp_GPU (gpu_default s) = sp_GPU s"
  by (simp_all add: gpu_default_def)

lemma later_stages_keep:
  assumes "f \<in> {workload_port, routing_defaults, replica_defaults}"
  shows "sp_Model (f s) = sp_Model s" "sp_Runtime (f s) = sp_Runtime s" "sp_RuntimeVersion (f s) = sp_RuntimeVersion s"
    "sp_Workload (f s) = sp_Workload s" "sp_Serving (f s) = sp_Serving s" "sp_ComputeMode (f s) = sp_ComputeMode s"
    "sp_Cloud (f s) = sp_Cloud s" "sp_GPU (f s) = sp_GPU s" "sp_GPUCount (f s) = sp_GPUCount s"
  using assms by (auto simp: spec_stage_defs)

lemmas stages_keep [simp] = later_stages_keep [of workload_port, simplified] later_stages_keep [of routing_defaults, simplified] later_stages_keep [of replica_defaults, simplified]

lemma compute_error_stages [simp]:
  "compute_error (gpu_default s) = compute_error s" "compute_error (workload_port s) = compute_error s"
  "compute_error (routing_defaults s) = compute_error s" "compute_error (replica_defaults s) = compute_error s"
  by (simp_all add: compute_error_def)

lemma capacity_error_stages [simp]:
  "capacity_error (workload_port s) = capacity_error s" "capacity_error (routing_defaults s) = capacity_error s"
  "capacity_error (replica_defaults s) = capacity_error s"
  unfolding capacity_error_def by (simp_all only: stages_keep)

lemma runtime_defaults_fixpoint:
  assumes "sp_Runtime s = sp_Runtime (runtime_defaults r)" "sp_RuntimeVersion s = sp_RuntimeVersion (runtime_defaults r)"
    "sp_Workload s = sp_Workload (runtime_defaults r)" "sp_Serving s = sp_Serving (runtime_defaults r)"
    "sp_ComputeMode s = sp_ComputeMode (runtime_defaults r)"
  shows "runtime_defaults s = s"
proof -
  have "default_to ''vllm'' (sp_Runtime s) = sp_Runtime s" "NormalizeWorkload (sp_Runtime s) (sp_Workload s) = sp_Workload s"
    "topology_Normalize (sp_Serving s) = sp_Serving s" "sp_ComputeMode s \<noteq> ''''"
    "sp_RuntimeVersion s = '''' \<Longrightarrow> sp_Runtime s \<noteq> ''vllm'' \<and> sp_Runtime s \<noteq> ''sglang''"
    using assms by (auto simp: runtime_defaults_def Let_def split: if_splits)
  then show ?thesis
    by (cases "sp_RuntimeVersion s = ''''") (simp_all add: runtime_defaults_def Let_def)
qed

lemma stage_fixpoints [simp]:
  "gpu_default (replica_defaults (routing_defaults (workload_port (gpu_default s)))) = replica_defaults (routing_defaults (workload_port (gpu_default s)))"
  "workload_port (replica_defaults (routing_defaults (workload_port s))) = replica_defaults (routing_defaults (workload_port s))"
  "routing_defaults (replica_defaults (routing_defaults s)) = replica_defaults (routing_defaults s)"
  "replica_defaults (replica_defaults s) = replica_defaults s"
  by (simp_all add: spec_stage_defs)

definition stored_form :: "revision_spec \<Rightarrow> revision_spec" where
  "stored_form s = replica_defaults (routing_defaults (workload_port (gpu_default (runtime_defaults s))))"

lemma normalize_spec_Inr:
  "normalize_spec s = Inr s' \<longleftrightarrow> s' = stored_form s \<and> sp_Model s' \<noteq> '''' \<and> compute_error s' = None \<and> capacity_error s' = None \<and>
     sp_RoutingStrategy s' \<in> set RoutingStrategies \<and> replica_error s' = None"
proof -
  have "sp_Model (stored_form s) = sp_Model s"
    and "sp_RoutingStrategy (stored_form s) = sp_RoutingStrategy (routing_defaults (workload_port (gpu_default (runtime_defaults s))))"
    by (simp_all add: stored_form_def spec_stage_defs runtime_defaults_def)
  then show ?thesis
    by (auto simp: normalize_spec_def Let_def bind_err_Inr stored_form_def)
qed

lemma stored_form_idem: "stored_form (stored_form s) = stored_form s"
proof -
  have "runtime_defaults (stored_form s) = stored_form s"
    by (rule runtime_defaults_fixpoint [of _ s]) (simp_all add: stored_form_def)
  then show ?thesis
    by (simp add: stored_form_def)
qed

definition revision_spec_ok :: "revision_spec \<Rightarrow> bool" where
  "revision_spec_ok s \<longleftrightarrow>
     sp_Model s \<noteq> '''' \<and> sp_Runtime s \<noteq> '''' \<and> (sp_Runtime s \<in> {''vllm'', ''sglang''} \<longrightarrow> sp_RuntimeVersion s \<noteq> '''') \<and>
     (sp_ComputeMode s = ''existing'' \<or>
      sp_ComputeMode s = ''elastic'' \<and> sp_GPU s \<noteq> '''' \<and> 1 \<le> sp_GPUCount s \<and> sp_GPUCount s \<le> 1024 \<and>
        (sp_Cloud s \<in> {''aws'', ''gcp'', ''kubernetes''} \<and> sp_Runtime s \<in> {''vllm'', ''sglang'', ''custom-oci''} \<or>
         sp_Cloud s = ''runpod'' \<and> sp_Runtime s \<in> {''vllm'', ''custom-oci''}) \<or>
      sp_ComputeMode s = ''serverless'' \<and> sp_GPUCount s = 1 \<and> sp_Cloud s = ''runpod'' \<and> sp_Runtime s = ''vllm'') \<and>
     (sp_Runtime s \<in> {''sglang'', ''custom-oci''} \<longrightarrow> \<not> workload_Empty (sp_Workload s)) \<and>
     (\<not> workload_Empty (sp_Workload s) \<longrightarrow> sp_ComputeMode s = ''elastic'' \<and> digestPattern (TrimSpace (wl_Image (sp_Workload s))) \<and>
        sp_Port s = wl_Port (sp_Workload s) \<and> 1 \<le> sp_Port s \<and> sp_Port s \<le> 65535) \<and>
     sp_RoutingStrategy s \<in> set RoutingStrategies \<and>
     1 \<le> sp_MinReplicas s \<and> sp_MinReplicas s \<le> sp_MaxReplicas s \<and> (sp_Runtime s \<noteq> ''vllm'' \<longrightarrow> sp_MaxReplicas s = sp_MinReplicas s) \<and>
     (sp_ProviderAdapter s = ''kubernetes-dynamo'' \<longrightarrow> \<not> topology_Empty (sp_Serving s)) \<and>
     (\<not> topology_Empty (sp_Serving s) \<longrightarrow> sp_Cloud s = ''kubernetes'' \<and> sp_ProviderAdapter s = ''kubernetes-dynamo'' \<and>
        sp_MaxReplicas s = 1 \<and> tp_Mode (sp_Serving s) = ''aggregated'' \<and> 1 \<le> po_Replicas (tp_Worker (sp_Serving s)))"

lemma matrix_V1:
  "matrix_Validate V1 runtime cloud mode = None \<Longrightarrow> runtime \<noteq> '''' \<Longrightarrow>
     mode = ''elastic'' \<and> (cloud \<in> {''aws'', ''gcp'', ''kubernetes''} \<and> runtime \<in> {''vllm'', ''sglang'', ''custom-oci''} \<or>
        cloud = ''runpod'' \<and> runtime \<in> {''vllm'', ''custom-oci''}) \<or>
     mode = ''serverless'' \<and> cloud = ''runpod'' \<and> runtime = ''vllm''"
  by (auto simp: matrix_Validate_def V1_def defaultRuntime_def default_to_def split: option.splits if_splits)

lemma topology_Validate_None:
  assumes "topology_Validate t runtime cloud adapter lo hi = None" "topology_Normalize t = t"
  shows "adapter = ''kubernetes-dynamo'' \<longrightarrow> \<not> topology_Empty t"
    and "\<not> topology_Empty t \<longrightarrow> cloud = ''kubernetes'' \<and> adapter = ''kubernetes-dynamo'' \<and> lo = 1 \<and> hi = 1 \<and>
      tp_Mode t = ''aggregated'' \<and> 1 \<le> po_Replicas (tp_Worker t)"
  using assms by (auto simp: topology_Validate_def shape_error_def Let_def split: if_splits option.splits)

lemma workload_Validate_None:
  "workload_Validate w = None \<Longrightarrow> digestPattern (TrimSpace (wl_Image w)) \<and> 1 \<le> wl_Port w \<and> wl_Port w \<le> 65535"
  by (auto simp: workload_Validate_def ValidateImage_def split: option.splits if_splits)

lemma capacity_error_None:
  assumes "capacity_error s = None"
  shows "sp_ComputeMode s \<noteq> ''existing'' \<Longrightarrow> 1 \<le> sp_GPUCount s \<and> sp_GPUCount s \<le> 1024 \<and> matrix_Validate V1 (sp_Runtime s) (sp_Cloud s) (sp_ComputeMode s) = None"
    and "sp_ComputeMode s = ''serverless'' \<Longrightarrow> sp_GPUCount s = 1"
    and "sp_Runtime s = ''custom-oci'' \<Longrightarrow> \<not> workload_Empty (sp_Workload s)"
    and "\<not> workload_Empty (sp_Workload s) \<Longrightarrow> workload_Validate (sp_Workload s) = None \<and> sp_ComputeMode s = ''elastic''"
  using assms unfolding capacity_error_def first_of_None by (auto simp del: first_of.simps simp: first_of_None split: if_splits)

lemma replica_error_None:
  assumes "replica_error s = None"
  shows "1 \<le> sp_MinReplicas s" "sp_MinReplicas s \<le> sp_MaxReplicas s" "sp_Runtime s \<noteq> ''vllm'' \<Longrightarrow> sp_MaxReplicas s \<le> sp_MinReplicas s"
    "topology_Validate (sp_Serving s) (sp_Runtime s) (sp_Cloud s) (sp_ProviderAdapter s) (sp_MinReplicas s) (sp_MaxReplicas s) = None"
  using assms unfolding replica_error_def first_of_None by (auto split: if_splits)

text \<open>C35.
  A revision spec that \<open>EnsureCandidateRevision\<close> accepts is stored in a well-formed normal form:
  a pinned runtime version, a compute mode with capacity within its bounds on a qualified combination of
  cloud, mode and runtime, an image pinned by digest for every container workload (elastic only), a known
  routing strategy, replica bounds in order (equal for every runtime but vllm) and, for a serving
  topology, the single Dynamo graph it owns. Normalizing the stored form again accepts it unchanged, so
  a replay of the same request compares equal with what was stored.
\<close>

theorem accepted_spec_well_formed:
  assumes "normalize_spec s = Inr s'"
  shows "revision_spec_ok s' \<and> normalize_spec s' = Inr s'"
proof -
  have facts: "s' = stored_form s" "sp_Model s' \<noteq> ''''" "compute_error s' = None" "capacity_error s' = None"
    "sp_RoutingStrategy s' \<in> set RoutingStrategies" "replica_error s' = None"
    using assms normalize_spec_Inr by auto
  have "normalize_spec s' = Inr s'"
    using facts stored_form_idem [of s] by (simp add: normalize_spec_Inr)
  have rt: "sp_Runtime s' = default_to ''vllm'' (sp_Runtime s)"
    "sp_Workload s' = NormalizeWorkload (sp_Runtime s') (sp_Workload s)"
    "sp_Serving s' = topology_Normalize (sp_Serving s)"
    using facts(1) by (simp_all add: stored_form_def runtime_defaults_def Let_def)
  have version: "sp_Runtime s' \<in> {''vllm'', ''sglang''} \<longrightarrow> sp_RuntimeVersion s' \<noteq> ''''"
    using facts(1) by (auto simp: stored_form_def runtime_defaults_def Let_def)
  have port: "\<not> workload_Empty (sp_Workload s') \<Longrightarrow> sp_Port s' = wl_Port (sp_Workload s')"
    using facts(1) by (auto simp: stored_form_def spec_stage_defs split: if_splits)
  have runtime: "sp_Runtime s' \<noteq> ''''" using rt(1) by simp
  have sglang: "sp_Runtime s' = ''sglang'' \<Longrightarrow> \<not> workload_Empty (sp_Workload s')"
    using rt(2) by (auto simp: NormalizeWorkload_def SGLangWorkload_def workload_Empty_def split: if_splits)
  have mode: "sp_ComputeMode s' \<in> {''existing'', ''elastic'', ''serverless''}" "sp_ComputeMode s' = ''elastic'' \<longrightarrow> sp_Cloud s' \<noteq> '''' \<and> sp_GPU s' \<noteq> ''''"
    using facts(3) by (auto simp: compute_error_def split: if_splits)
  note capacity = capacity_error_None [OF facts(4)] and replicas = replica_error_None [OF facts(6)]
  have serving: "topology_Normalize (sp_Serving s') = sp_Serving s'" using rt(3) by simp
  have "workload_Validate (sp_Workload s') = None" if "\<not> workload_Empty (sp_Workload s')"
    using capacity(4) that by blast
  then have "\<not> workload_Empty (sp_Workload s') \<longrightarrow> sp_ComputeMode s' = ''elastic'' \<and> digestPattern (TrimSpace (wl_Image (sp_Workload s'))) \<and>
      sp_Port s' = wl_Port (sp_Workload s') \<and> 1 \<le> sp_Port s' \<and> sp_Port s' \<le> 65535"
    using workload_Validate_None capacity(4) port by metis
  moreover have "sp_Runtime s' \<in> {''sglang'', ''custom-oci''} \<longrightarrow> \<not> workload_Empty (sp_Workload s')" using capacity(3) sglang by blast
  moreover have "sp_ComputeMode s' = ''existing'' \<or>
      sp_ComputeMode s' = ''elastic'' \<and> sp_GPU s' \<noteq> '''' \<and> 1 \<le> sp_GPUCount s' \<and> sp_GPUCount s' \<le> 1024 \<and>
        (sp_Cloud s' \<in> {''aws'', ''gcp'', ''kubernetes''} \<and> sp_Runtime s' \<in> {''vllm'', ''sglang'', ''custom-oci''} \<or>
         sp_Cloud s' = ''runpod'' \<and> sp_Runtime s' \<in> {''vllm'', ''custom-oci''}) \<or>
      sp_ComputeMode s' = ''serverless'' \<and> sp_GPUCount s' = 1 \<and> sp_Cloud s' = ''runpod'' \<and> sp_Runtime s' = ''vllm''"
    using mode capacity(1,2) matrix_V1 [OF _ runtime, of "sp_Cloud s'" "sp_ComputeMode s'"] by blast
  moreover have "sp_Runtime s' \<noteq> ''vllm'' \<longrightarrow> sp_MaxReplicas s' = sp_MinReplicas s'" using replicas(2,3) by fastforce
  moreover note topology_Validate_None [OF replicas(4) serving]
  ultimately have "revision_spec_ok s'"
    unfolding revision_spec_ok_def using facts(2,5) runtime version replicas(1,2) by blast
  with \<open>normalize_spec s' = Inr s'\<close> show ?thesis by blast
qed


section \<open>Examples\<close>

definition empty_workload :: workload where
  "empty_workload = \<lparr>wl_Image = '''', wl_Command = [], wl_Protocol = '''', wl_Port = 0, wl_ReadinessPath = '''', wl_ModelsPath = '''', wl_MetricsPath = '''',
     wl_Cancellation = '''', wl_Drain = '''', wl_ShutdownGraceSeconds = 0\<rparr>"

definition example_spec :: revision_spec where
  "example_spec = \<lparr>sp_Model = ''qwen'', sp_ModelRevision = '''', sp_ModelSecretReferenceID = '''', sp_Runtime = '''', sp_RuntimeVersion = '''', sp_RuntimeArgs = [],
     sp_RoutingStrategy = '''', sp_MinReplicas = 0, sp_MaxReplicas = 2, sp_AutoscalingEnabled = True, sp_ComputeMode = '''', sp_Cloud = ''runpod'',
     sp_ProviderAdapter = '''', sp_ComputeConnectionID = '''', sp_GPU = ''L40S'', sp_GPUCount = 0, sp_Region = '''', sp_Port = 8000,
     sp_Workload = empty_workload, sp_Serving = zero_topology\<rparr>"

definition example_stored :: revision_spec where
  "example_stored = example_spec\<lparr>sp_Runtime := ''vllm'', sp_RuntimeVersion := ''0.22.1'', sp_RoutingStrategy := ''round-robin'',
     sp_MinReplicas := 1, sp_ComputeMode := ''elastic'', sp_GPUCount := 1\<rparr>"

lemma example_normalized: "normalize_spec example_spec = Inr example_stored"
  by (simp add: example_stored_def example_spec_def normalize_spec_def runtime_defaults_def default_to_def Let_def NormalizeWorkload_def topology_Normalize_def
      topology_Empty_def zero_topology_def compute_error_def gpu_default_def capacity_error_def matrix_Validate_def ValidateRuntime_def matrix_runtimes_def V1_def
      defaultRuntime_def workload_Empty_def empty_workload_def workload_port_def routing_defaults_def RoutingStrategies_def replica_defaults_def replica_error_def
      topology_Validate_def refuse_def)

theorem accepted_spec_well_formed_witness:
  "normalize_spec example_spec = Inr example_stored \<and> revision_spec_ok example_stored \<and> normalize_spec example_stored = Inr example_stored"
  using accepted_spec_well_formed [OF example_normalized] example_normalized by blast

end
