(* ===== verification/Rollout.thy ===== *)
theory Rollout
  imports Release_Guard Revision_Spec Operation_Worker
begin

text \<open>
  Revisions and their rollout (\<open>internal/store/revisions.go\<close>, \<open>release_guard.go\<close>, \<open>release_monitor.go\<close>,
  the evidence of \<open>quality_evidence.go\<close>, the target set of \<open>apply.go\<close>, and the handlers of
  \<open>internal/workflows/rollout.go\<close> and \<open>release_guard.go\<close>): how a candidate revision is created, judged by
  the Release Guard, promoted, rejected, observed after promotion and rolled back. A method that runs in
  one transaction, with the deployment row locked, is one step on the tables. The JSON codecs, the
  aggregates over request telemetry and the benchmark and quality evidence of other stores are parameters;
  identifiers and times are arguments.
\<close>


section \<open>Tables\<close>

record dep_row =
  dr_id :: string
  dr_tenant_id :: string
  dr_name :: string
  dr_desired_state :: string
  dr_observed_state :: string
  dr_active_revision_id :: string
  dr_candidate_revision_id :: "string option"
  dr_model :: string
  dr_runtime :: string
  dr_routing_strategy :: string
  dr_min_replicas :: int
  dr_max_replicas :: int
  dr_autoscaling_enabled :: bool
  dr_updated_at :: gotime

record revision_row =
  rv_id :: string
  rv_deployment_id :: string
  rv_number :: int
  rv_status :: string
  rv_spec_json :: string
  rv_source_revision_id :: "string option"
  rv_reason :: string
  rv_created_at :: gotime
  rv_activated_at :: "gotime option"
  rv_completed_at :: "gotime option"
  rv_created_by_operation_id :: "string option"

record evaluation_row =
  ev_id :: string
  ev_deployment_id :: string
  ev_active_revision_id :: string
  ev_candidate_revision_id :: string
  ev_decision :: string
  ev_reasons :: "guard_reason list"
  ev_active_metrics :: revision_metrics
  ev_candidate_metrics :: revision_metrics
  ev_policy :: guard_policy
  ev_created_at :: gotime

record monitor_row =
  mo_id :: string
  mo_tenant_id :: string
  mo_deployment_id :: string
  mo_promoted_revision_id :: string
  mo_rollback_revision_id :: string
  mo_status :: string
  mo_deadline :: gotime
  mo_evaluation_id :: "string option"
  mo_policy_json :: string
  mo_reason :: "guard_reason list"
  mo_created_at :: gotime
  mo_updated_at :: gotime

record target_row =
  tr_id :: string
  tr_tenant_id :: string
  tr_name :: string
  tr_url :: string
  tr_runtime :: string
  tr_upstream_model_name :: "string option"

record replica_row =
  rr_id :: string
  rr_tenant_id :: string
  rr_deployment_id :: string
  rr_revision_id :: string
  rr_ordinal :: int
  rr_provider :: string
  rr_external_key :: string
  rr_endpoint :: "string option"
  rr_lifecycle_state :: string
  rr_health :: string
  rr_updated_at :: gotime

record scaling_policy_row =
  sy_deployment_id :: string
  sy_enabled :: bool
  sy_min_replicas :: int
  sy_max_replicas :: int
  sy_updated_at :: gotime

record autoscaling_row =
  au_deployment_id :: string
  au_desired_replicas :: int
  au_consecutive_high :: int
  au_consecutive_low :: int
  au_updated_at :: gotime

record revision_event =
  re_id :: string
  re_deployment_id :: string
  re_event_type :: string
  re_payload :: "(string \<times> string) list"
  re_created_at :: gotime

record rollout_db =
  deployments :: "dep_row list"
  revisions :: "revision_row list"
  evaluations :: "evaluation_row list"
  guard_policies :: "guard_policy list"
  monitors :: "monitor_row list"
  targets :: "target_row list"
  deployment_targets :: "(string \<times> string) list"
  replicas :: "replica_row list"
  scaling_policies :: "scaling_policy_row list"
  autoscaling_states :: "autoscaling_row list"
  revision_events :: "revision_event list"

text \<open>The columns SQL reads out of a stored spec with \<open>->>\<close>; \<open>None\<close> where the key is missing.\<close>

record spec_columns =
  co_model :: "string option"
  co_runtime :: "string option"
  co_routing_strategy :: "string option"
  co_min_replicas :: "int option"
  co_max_replicas :: "int option"
  co_autoscaling_enabled :: "bool option"

record bench_workload =
  bw_EndpointType :: string
  bw_Streaming :: bool
  bw_RequestCount :: int
  bw_Concurrency :: int
  bw_RandomSeed :: int
  bw_ServerTokenCount :: bool
  bw_DirectRevisionValidation :: bool

record cost_metadata =
  cm_Available :: bool
  cm_Hourly :: "f64 option"
  cm_Source :: string

record bench_row =
  be_ID :: string
  be_RevisionID :: string
  be_ModelIdentity :: string
  be_Runtime :: string
  be_RuntimeVersion :: string
  be_ComputeMode :: string
  be_Tool :: string
  be_ToolVersion :: string
  be_WorkloadJSON :: string
  be_RequestCount :: int
  be_Failed :: int
  be_OutputTokenThroughput :: "f64 option"
  be_TTFTP95MS :: "f64 option"
  be_LatencyP95MS :: "f64 option"
  be_CostMetadataJSON :: string

record quality_row =
  qu_ID :: string
  qu_RevisionID :: string
  qu_Suite :: string
  qu_SuiteVersion :: string
  qu_Evaluator :: string
  qu_EvaluatorVersion :: string
  qu_Score :: f64
  qu_Passed :: bool
  qu_SampleCount :: int
  qu_DistributionJSON :: string

record telemetry_row =
  tl_Requests :: int
  tl_ErrorRate :: f64
  tl_P95TTFTMS :: "f64 option"
  tl_P95LatencyMS :: "f64 option"
  tl_OutputTokensPerSecond :: "f64 option"

text \<open>
  The parameters: \<open>json.Decoder\<close> with unknown fields refused, whether anything follows the first value,
  \<open>json.Unmarshal\<close> and \<open>json.Marshal\<close> of specs and policies, equality of two JSON texts, the column
  operators, the aggregate query over the telemetry of a revision since a time, the evidence of other
  stores, the decoders of its JSON, and what the bootstrap needs.
\<close>

record rollout_env =
  en_decode :: "string \<Rightarrow> revision_spec option"
  en_trailing :: "string \<Rightarrow> bool"
  en_unmarshal :: "string \<Rightarrow> revision_spec option"
  en_marshal :: "revision_spec \<Rightarrow> string"
  en_sameJSON :: "string \<Rightarrow> string \<Rightarrow> bool"
  en_columns :: "string \<Rightarrow> spec_columns"
  en_policy_json :: "guard_policy \<Rightarrow> string"
  en_decode_policy :: "string \<Rightarrow> guard_policy option"
  en_telemetry :: "string \<Rightarrow> gotime \<Rightarrow> duration \<Rightarrow> telemetry_row"
  en_benchmarks :: "string \<Rightarrow> string \<Rightarrow> store_error + bench_row list"
  en_quality :: "string \<Rightarrow> string \<Rightarrow> store_error + quality_row list"
  en_workload :: "string \<Rightarrow> bench_workload option"
  en_cost :: "string \<Rightarrow> cost_metadata option"
  en_distribution :: "string \<Rightarrow> (string \<times> f64 list) option"
  en_oob :: "f64 \<Rightarrow> int"
  en_rng :: "int \<Rightarrow> nat \<Rightarrow> nat \<Rightarrow> nat"


section \<open>Revisions\<close>

definition or_global :: "string \<Rightarrow> string" where
  "or_global tenant = (if tenant = '''' then ''global'' else tenant)"

definition live_deployment :: "rollout_db \<Rightarrow> string \<Rightarrow> string \<Rightarrow> dep_row option" where
  "live_deployment db tenant name = find (\<lambda>d. dr_tenant_id d = tenant \<and> dr_name d = name \<and> dr_desired_state d \<noteq> ''deleted'') (deployments db)"

definition locked_deployment :: "rollout_db \<Rightarrow> string \<Rightarrow> string \<Rightarrow> store_error + dep_row" where
  "locked_deployment db tenant name = (case live_deployment db tenant name of None \<Rightarrow> Inl ErrNotFound | Some d \<Rightarrow> Inr d)"

definition revision_of :: "rollout_db \<Rightarrow> string \<Rightarrow> string \<Rightarrow> revision_row option" where
  "revision_of db deployment_id ident = find (\<lambda>r. rv_id r = ident \<and> rv_deployment_id r = deployment_id) (revisions db)"

definition ResolveForTenant :: "rollout_db \<Rightarrow> string \<Rightarrow> string \<Rightarrow> store_error + dep_row" where
  "ResolveForTenant db tenant name =
     (case find (\<lambda>d. dr_tenant_id d = tenant \<and> dr_name d = name \<and> dr_desired_state d = ''running'') (deployments db) of
        None \<Rightarrow> Inl ErrNotFound | Some d \<Rightarrow> Inr d)"

text \<open>A lookup by deployment name does not look at the state of the deployment.\<close>

definition named_deployment :: "string \<Rightarrow> string \<Rightarrow> dep_row \<Rightarrow> bool" where
  "named_deployment tenant name d \<longleftrightarrow> dr_tenant_id d = tenant \<and> dr_name d = name"

definition joined_revision :: "rollout_db \<Rightarrow> string \<Rightarrow> string \<Rightarrow> revision_row \<Rightarrow> bool" where
  "joined_revision db tenant name r \<longleftrightarrow> (\<exists>d \<in> set (deployments db). named_deployment tenant name d \<and> dr_id d = rv_deployment_id r)"

definition Revision :: "rollout_db \<Rightarrow> string \<Rightarrow> string \<Rightarrow> string \<Rightarrow> store_error + revision_row" where
  "Revision db tenant name ident =
     (case find (\<lambda>r. joined_revision db (or_global tenant) name r \<and> rv_id r = ident) (revisions db) of
        None \<Rightarrow> Inl ErrNotFound | Some r \<Rightarrow> Inr r)"

definition more_recent :: "revision_row \<Rightarrow> revision_row \<Rightarrow> bool" where
  "more_recent a b \<longleftrightarrow>
     (case (rv_completed_at a, rv_completed_at b) of
        (Some x, Some y) \<Rightarrow> x > y \<or> (x = y \<and> rv_number a > rv_number b)
      | (Some _, None) \<Rightarrow> True
      | (None, Some _) \<Rightarrow> False
      | (None, None) \<Rightarrow> rv_number a > rv_number b)"

definition PreviousRevisionID :: "rollout_db \<Rightarrow> string \<Rightarrow> string \<Rightarrow> string \<Rightarrow> store_error + string" where
  "PreviousRevisionID db tenant name activeID =
     (case first_by more_recent (filter (\<lambda>r. joined_revision db (or_global tenant) name r \<and> rv_id r \<noteq> activeID \<and> rv_status r = ''superseded'') (revisions db)) of
        None \<Rightarrow> Inl ErrNotFound | Some r \<Rightarrow> Inr (rv_id r))"

text \<open>An insert fails on a key that is taken.\<close>

definition insert_unless :: "('r \<Rightarrow> bool) \<Rightarrow> 'r \<Rightarrow> 'r list \<Rightarrow> store_error + 'r list" where
  "insert_unless taken row rows = (if \<exists>r \<in> set rows. taken r then Inl (ErrOther ''duplicate key value violates unique constraint'') else Inr (rows @ [row]))"

definition insertRevisionEvent :: "string \<Rightarrow> gotime \<Rightarrow> string \<Rightarrow> string \<Rightarrow> (string \<times> string) list \<Rightarrow> rollout_db \<Rightarrow> store_error + rollout_db" where
  "insertRevisionEvent event_id stamp deployment_id event_type payload db =
     bind_err (insert_unless (\<lambda>e. re_id e = event_id)
         \<lparr>re_id = event_id, re_deployment_id = deployment_id, re_event_type = event_type, re_payload = payload, re_created_at = stamp\<rparr> (revision_events db)) (\<lambda>events.
     Inr (db\<lparr>revision_events := events\<rparr>))"

definition set_status :: "string \<Rightarrow> (revision_row \<Rightarrow> revision_row) \<Rightarrow> rollout_db \<Rightarrow> rollout_db" where
  "set_status ident f db = db\<lparr>revisions := upd_where (\<lambda>r. rv_id r = ident) f (revisions db)\<rparr>"

definition superseded :: "gotime \<Rightarrow> revision_row \<Rightarrow> revision_row" where
  "superseded stamp r = r\<lparr>rv_status := ''superseded'', rv_completed_at := Some stamp\<rparr>"

definition activated :: "gotime \<Rightarrow> revision_row \<Rightarrow> revision_row" where
  "activated stamp r = r\<lparr>rv_status := ''active'', rv_activated_at := Some stamp, rv_completed_at := None\<rparr>"

definition only_candidate :: "(revision_row \<Rightarrow> revision_row) \<Rightarrow> revision_row \<Rightarrow> revision_row" where
  "only_candidate f r = (if rv_status r = ''candidate'' then f r else r)"

definition set_deployment :: "string \<Rightarrow> (dep_row \<Rightarrow> dep_row) \<Rightarrow> rollout_db \<Rightarrow> rollout_db" where
  "set_deployment ident f db = db\<lparr>deployments := upd_where (\<lambda>d. dr_id d = ident) f (deployments db)\<rparr>"

definition from_spec :: "spec_columns \<Rightarrow> string \<Rightarrow> string \<Rightarrow> gotime \<Rightarrow> dep_row \<Rightarrow> dep_row" where
  "from_spec columns model revision_id stamp d =
     d\<lparr>dr_active_revision_id := revision_id, dr_candidate_revision_id := None, dr_model := model,
       dr_runtime := (case co_runtime columns of None \<Rightarrow> ''vllm'' | Some v \<Rightarrow> v),
       dr_routing_strategy := (case co_routing_strategy columns of None \<Rightarrow> ''round-robin'' | Some v \<Rightarrow> v),
       dr_min_replicas := (case co_min_replicas columns of None \<Rightarrow> 1 | Some v \<Rightarrow> v),
       dr_max_replicas := (case co_max_replicas columns of None \<Rightarrow> 1 | Some v \<Rightarrow> v),
       dr_autoscaling_enabled := (case co_autoscaling_enabled columns of None \<Rightarrow> False | Some v \<Rightarrow> v),
       dr_updated_at := stamp\<rparr>"

text \<open>The update joins the revision of the deployment; without one it changes no row. The model column is not null.\<close>

definition updateDeploymentFromRevision :: "rollout_env \<Rightarrow> string \<Rightarrow> string \<Rightarrow> gotime \<Rightarrow> rollout_db \<Rightarrow> store_error + rollout_db" where
  "updateDeploymentFromRevision env deployment_id revision_id stamp db =
     (case revision_of db deployment_id revision_id of
        None \<Rightarrow> Inr db
      | Some r \<Rightarrow>
          case co_model (en_columns env (rv_spec_json r)) of
            None \<Rightarrow> Inl (ErrOther ''null value in column model'')
          | Some model \<Rightarrow> Inr (set_deployment deployment_id (from_spec (en_columns env (rv_spec_json r)) model revision_id stamp) db))"

definition decoded_spec :: "rollout_env \<Rightarrow> string \<Rightarrow> store_error + revision_spec" where
  "decoded_spec env specJSON =
     (case en_decode env specJSON of
        None \<Rightarrow> Inl (ErrOther ''revision spec must be a valid deployment spec'')
      | Some s \<Rightarrow>
          if sp_Model s = '''' then Inl (ErrOther ''revision spec must be a valid deployment spec'')
          else if en_trailing env specJSON then Inl (ErrOther ''revision spec must contain one JSON object'')
          else case normalize_spec s of Inl e \<Rightarrow> Inl (ErrOther e) | Inr s' \<Rightarrow> Inr s')"

definition next_number :: "rollout_db \<Rightarrow> string \<Rightarrow> int" where
  "next_number db deployment_id = foldr max (map rv_number (filter (\<lambda>r. rv_deployment_id r = deployment_id) (revisions db))) 0 + 1"

definition revision_taken :: "string \<Rightarrow> string \<Rightarrow> int \<Rightarrow> string option \<Rightarrow> revision_row \<Rightarrow> bool" where
  "revision_taken ident deployment_id number operation r \<longleftrightarrow>
     rv_id r = ident \<or> (rv_deployment_id r = deployment_id \<and> rv_number r = number) \<or> (operation \<noteq> None \<and> rv_created_by_operation_id r = operation)"

definition propose_locked ::
  "gotime \<Rightarrow> string \<Rightarrow> string \<Rightarrow> rollout_db \<Rightarrow> string \<Rightarrow> string \<Rightarrow> dep_row \<Rightarrow> store_error + revision_row \<times> rollout_db" where
  "propose_locked stamp ident event_id db stored operationID d =
     bind_err (require (dr_candidate_revision_id d = None) (ErrConflict ''deployment already has a candidate revision'')) (\<lambda>_.
     let number = next_number db (dr_id d);
         row = \<lparr>rv_id = ident, rv_deployment_id = dr_id d, rv_number = number, rv_status = ''candidate'', rv_spec_json = stored,
            rv_source_revision_id = Some (dr_active_revision_id d), rv_reason = '''', rv_created_at = stamp,
            rv_activated_at = None, rv_completed_at = None, rv_created_by_operation_id = sql_null operationID\<rparr> in
     bind_err (insert_unless (revision_taken ident (dr_id d) number (sql_null operationID)) row (revisions db)) (\<lambda>rows.
     bind_err (insertRevisionEvent event_id stamp (dr_id d) ''revision_candidate_created'' [(''revision_id'', ident), (''revision_number'', itoa number)]
         (set_deployment (dr_id d) (\<lambda>r. r\<lparr>dr_candidate_revision_id := Some ident, dr_updated_at := stamp\<rparr>) (db\<lparr>revisions := rows\<rparr>))) (\<lambda>db'.
     Inr (row, db'))))"

definition EnsureCandidateRevision ::
  "rollout_env \<Rightarrow> gotime \<Rightarrow> string \<Rightarrow> string \<Rightarrow> rollout_db \<Rightarrow> string \<Rightarrow> string \<Rightarrow> string \<Rightarrow> string \<Rightarrow> (store_error + revision_row) \<times> rollout_db" where
  "EnsureCandidateRevision env stamp ident event_id db tenant0 name specJSON operationID =
     commit_tx db
       (bind_err (decoded_spec env specJSON) (\<lambda>spec.
        let tenant = or_global tenant0; stored = en_marshal env spec in
        case (if operationID = '''' then None
              else find (\<lambda>r. joined_revision db tenant name r \<and> rv_created_by_operation_id r = Some operationID) (revisions db)) of
          Some existing \<Rightarrow>
            if en_sameJSON env (rv_spec_json existing) stored then Inr (existing, db)
            else Inl (ErrConflict ''operation already created a different revision'')
        | None \<Rightarrow> bind_err (locked_deployment db tenant name) (propose_locked stamp ident event_id db stored operationID)))"

definition transition_locked ::
  "rollout_env \<Rightarrow> gotime \<Rightarrow> string \<Rightarrow> rollout_db \<Rightarrow> string \<Rightarrow> string \<Rightarrow> string \<Rightarrow> dep_row \<Rightarrow> store_error + unit \<times> rollout_db" where
  "transition_locked env stamp event_id db candidateID nextStatus because d =
     (if dr_candidate_revision_id d \<noteq> Some candidateID then
        (case revision_of db (dr_id d) candidateID of
           Some r \<Rightarrow>
             if (nextStatus = ''active'' \<and> dr_active_revision_id d = candidateID \<and> rv_status r = ''active'') \<or> (nextStatus = ''rejected'' \<and> rv_status r = ''rejected'')
             then Inr ((), db) else Inl (ErrConflict ''revision is not the current candidate'')
         | None \<Rightarrow> Inl (ErrConflict ''revision is not the current candidate''))
      else if nextStatus = ''rejected'' then
        bind_err (insertRevisionEvent event_id stamp (dr_id d) ''revision_rejected'' [(''revision_id'', candidateID), (''reason'', because)]
          (set_deployment (dr_id d) (\<lambda>r. r\<lparr>dr_candidate_revision_id := None, dr_updated_at := stamp\<rparr>)
            (set_status candidateID (only_candidate (\<lambda>r. r\<lparr>rv_status := ''rejected'', rv_reason := because, rv_completed_at := Some stamp\<rparr>)) db))) (\<lambda>db'.
        Inr ((), db'))
      else
        bind_err (updateDeploymentFromRevision env (dr_id d) candidateID stamp
          (set_status candidateID (only_candidate (activated stamp)) (set_status (dr_active_revision_id d) (superseded stamp) db))) (\<lambda>db1.
        bind_err (insertRevisionEvent event_id stamp (dr_id d) ''revision_promoted'' [(''revision_id'', candidateID), (''previous_revision_id'', dr_active_revision_id d)] db1) (\<lambda>db'.
        Inr ((), db'))))"

definition transitionRevision ::
  "rollout_env \<Rightarrow> gotime \<Rightarrow> string \<Rightarrow> rollout_db \<Rightarrow> string \<Rightarrow> string \<Rightarrow> string \<Rightarrow> string \<Rightarrow> string \<Rightarrow> (store_error + unit) \<times> rollout_db" where
  "transitionRevision env stamp event_id db tenant0 name candidateID nextStatus because =
     commit_tx db (bind_err (locked_deployment db (or_global tenant0) name) (transition_locked env stamp event_id db candidateID nextStatus because))"

definition PromoteCandidateRevision ::
  "rollout_env \<Rightarrow> gotime \<Rightarrow> string \<Rightarrow> rollout_db \<Rightarrow> string \<Rightarrow> string \<Rightarrow> string \<Rightarrow> (store_error + unit) \<times> rollout_db" where
  "PromoteCandidateRevision env stamp event_id db tenant name candidateID = transitionRevision env stamp event_id db tenant name candidateID ''active'' ''''"

definition RejectCandidateRevision ::
  "rollout_env \<Rightarrow> gotime \<Rightarrow> string \<Rightarrow> rollout_db \<Rightarrow> string \<Rightarrow> string \<Rightarrow> string \<Rightarrow> string \<Rightarrow> (store_error + unit) \<times> rollout_db" where
  "RejectCandidateRevision env stamp event_id db tenant name candidateID because = transitionRevision env stamp event_id db tenant name candidateID ''rejected'' because"

definition rollback_locked ::
  "rollout_env \<Rightarrow> gotime \<Rightarrow> string \<Rightarrow> rollout_db \<Rightarrow> string \<Rightarrow> string \<Rightarrow> dep_row \<Rightarrow> store_error + unit \<times> rollout_db" where
  "rollback_locked env stamp event_id db revisionID because d =
     (case revision_of db (dr_id d) revisionID of
        None \<Rightarrow> Inl ErrNotFound
      | Some r \<Rightarrow>
          if revisionID = dr_active_revision_id d then Inr ((), db)
          else bind_err (require (rv_status r \<noteq> ''candidate'') (ErrConflict ''rollback target must be a non-candidate historical revision'')) (\<lambda>_.
          bind_err (updateDeploymentFromRevision env (dr_id d) revisionID stamp
            (set_status revisionID (\<lambda>r. (activated stamp r)\<lparr>rv_reason := because\<rparr>) (set_status (dr_active_revision_id d) (superseded stamp) db))) (\<lambda>db1.
          bind_err (insertRevisionEvent event_id stamp (dr_id d) ''revision_rolled_back''
            [(''revision_id'', revisionID), (''previous_revision_id'', dr_active_revision_id d), (''reason'', because)] db1) (\<lambda>db'.
          Inr ((), db')))))"

definition RollbackRevision ::
  "rollout_env \<Rightarrow> gotime \<Rightarrow> string \<Rightarrow> rollout_db \<Rightarrow> string \<Rightarrow> string \<Rightarrow> string \<Rightarrow> string \<Rightarrow> (store_error + unit) \<times> rollout_db" where
  "RollbackRevision env stamp event_id db tenant0 name revisionID because =
     commit_tx db (bind_err (locked_deployment db (or_global tenant0) name) (rollback_locked env stamp event_id db revisionID because))"


section \<open>Guarded promotion and rollback\<close>

fun target_loop ::
  "rollout_db \<Rightarrow> string \<Rightarrow> string \<Rightarrow> string \<Rightarrow> string list \<Rightarrow> string list \<Rightarrow> string \<Rightarrow> store_error + string list" where
  "target_loop db tenant model runtime [] seen upstream = Inr []"
| "target_loop db tenant model runtime (name # names) seen upstream =
     (if name \<in> set seen then target_loop db tenant model runtime names seen upstream
      else case find (\<lambda>t. tr_name t = name \<and> tr_tenant_id t = tenant) (targets db) of
          None \<Rightarrow> Inl ErrNotFound
        | Some t \<Rightarrow>
            if tr_runtime t \<noteq> runtime then Inl (ErrOther ''target runtime mismatch'')
            else let exposed = (case tr_upstream_model_name t of None \<Rightarrow> model | Some m \<Rightarrow> m) in
              if upstream \<noteq> '''' \<and> upstream \<noteq> exposed then Inl (ErrOther ''all targets must expose one common upstream model'')
              else bind_err (target_loop db tenant model runtime names (name # seen) exposed) (\<lambda>ids. Inr (tr_id t # ids)))"

definition validateTargetSet :: "rollout_db \<Rightarrow> string \<Rightarrow> string \<Rightarrow> string \<Rightarrow> string list \<Rightarrow> store_error + string list" where
  "validateTargetSet db tenant model runtime names = target_loop db tenant model runtime names [] ''''"

definition backed :: "rollout_db \<Rightarrow> string list \<Rightarrow> string \<Rightarrow> string \<Rightarrow> string \<Rightarrow> bool" where
  "backed db states deployment_id revision_id target_id \<longleftrightarrow>
     (\<exists>t \<in> set (targets db). tr_id t = target_id \<and>
        (\<exists>r \<in> set (replicas db). rr_tenant_id r = tr_tenant_id t \<and> rr_endpoint r = Some (tr_url t) \<and> rr_deployment_id r = deployment_id \<and>
           rr_revision_id r = revision_id \<and> rr_lifecycle_state r \<in> set states \<and> rr_health r = ''healthy''))"

definition latest_evaluation :: "rollout_db \<Rightarrow> string \<Rightarrow> string \<Rightarrow> evaluation_row option" where
  "latest_evaluation db deployment_id candidateID =
     first_by (\<lambda>a b. ev_created_at a > ev_created_at b)
       (filter (\<lambda>e. ev_deployment_id e = deployment_id \<and> ev_candidate_revision_id e = candidateID) (evaluations db))"

definition promote_replica :: "string \<Rightarrow> gotime \<Rightarrow> replica_row \<Rightarrow> replica_row" where
  "promote_replica candidateID stamp r =
     r\<lparr>rr_lifecycle_state := (if rr_revision_id r = candidateID then ''active'' else if rr_lifecycle_state r = ''active'' then ''draining'' else rr_lifecycle_state r),
       rr_updated_at := stamp\<rparr>"

definition restore_replica :: "string \<Rightarrow> string \<Rightarrow> gotime \<Rightarrow> replica_row \<Rightarrow> replica_row" where
  "restore_replica rollbackID promotedID stamp r =
     r\<lparr>rr_lifecycle_state := (if rr_revision_id r = rollbackID then ''active''
        else if rr_revision_id r = promotedID \<and> rr_lifecycle_state r \<noteq> ''deleted'' then ''draining'' else rr_lifecycle_state r),
       rr_updated_at := stamp\<rparr>"

definition relink :: "string \<Rightarrow> string list \<Rightarrow> rollout_db \<Rightarrow> rollout_db" where
  "relink deployment_id target_ids db =
     db\<lparr>deployment_targets := filter (\<lambda>(d, t). d \<noteq> deployment_id) (deployment_targets db) @ map (\<lambda>t. (deployment_id, t)) target_ids\<rparr>"

definition checked_targets ::
  "rollout_env \<Rightarrow> rollout_db \<Rightarrow> string \<Rightarrow> string list \<Rightarrow> string \<Rightarrow> revision_row \<Rightarrow> string list \<Rightarrow> store_error + revision_spec \<times> string list" where
  "checked_targets env db tenant states deployment_id r targetNames =
     (case en_unmarshal env (rv_spec_json r) of
        None \<Rightarrow> Inl (ErrOther ''decode revision spec'')
      | Some spec \<Rightarrow>
          bind_err (validateTargetSet db tenant (sp_Model spec) (sp_Runtime spec) targetNames) (\<lambda>target_ids.
          bind_err (require (sp_MinReplicas spec \<le> int (length target_ids)) (ErrConflict ''revision has fewer targets than minimum replicas'')) (\<lambda>_.
          bind_err (require (list_all (backed db states deployment_id (rv_id r)) target_ids) (ErrConflict ''target is not backed by a healthy replica'')) (\<lambda>_.
          Inr (spec, target_ids)))))"

definition promote_tables :: "gotime \<Rightarrow> string \<Rightarrow> string \<Rightarrow> revision_spec \<Rightarrow> rollout_db \<Rightarrow> rollout_db" where
  "promote_tables stamp deployment_id candidateID spec db =
     db\<lparr>replicas := upd_where (\<lambda>x. rr_deployment_id x = deployment_id \<and> rr_lifecycle_state x \<noteq> ''deleted'') (promote_replica candidateID stamp) (replicas db),
        scaling_policies := upd_where (\<lambda>x. sy_deployment_id x = deployment_id)
          (\<lambda>x. x\<lparr>sy_enabled := sp_AutoscalingEnabled spec, sy_min_replicas := sp_MinReplicas spec, sy_max_replicas := sp_MaxReplicas spec, sy_updated_at := stamp\<rparr>) (scaling_policies db),
        autoscaling_states := upd_where (\<lambda>x. au_deployment_id x = deployment_id)
          (\<lambda>x. x\<lparr>au_desired_replicas := sp_MinReplicas spec, au_consecutive_high := 0, au_consecutive_low := 0, au_updated_at := stamp\<rparr>) (autoscaling_states db)\<rparr>"

definition promote_locked ::
  "rollout_env \<Rightarrow> gotime \<Rightarrow> string \<Rightarrow> rollout_db \<Rightarrow> string \<Rightarrow> string \<Rightarrow> string list \<Rightarrow> dep_row \<Rightarrow> store_error + unit \<times> rollout_db" where
  "promote_locked env stamp event_id db tenant candidateID targetNames d =
     (if dr_active_revision_id d = candidateID \<and> dr_candidate_revision_id d = None then Inr ((), db)
      else bind_err (require (dr_candidate_revision_id d = Some candidateID) (ErrConflict ''revision is not the current candidate'')) (\<lambda>_.
      case latest_evaluation db (dr_id d) candidateID of
        None \<Rightarrow> Inl (ErrConflict ''candidate has no Release Guard evaluation'')
      | Some e \<Rightarrow>
          bind_err (require (ev_decision e = ''ACCEPT'' \<and> ev_active_revision_id e = dr_active_revision_id d)
            (ErrConflict ''Release Guard has not accepted candidate against current active revision'')) (\<lambda>_.
          case find (\<lambda>r. rv_id r = candidateID \<and> rv_deployment_id r = dr_id d \<and> rv_status r = ''candidate'') (revisions db) of
            None \<Rightarrow> Inl (ErrConflict ''candidate revision is unavailable'')
          | Some r \<Rightarrow>
              bind_err (checked_targets env db tenant [''ready''] (dr_id d) r targetNames) (\<lambda>(spec, target_ids).
              bind_err (updateDeploymentFromRevision env (dr_id d) candidateID stamp
                (set_status candidateID (only_candidate (activated stamp)) (set_status (dr_active_revision_id d) (superseded stamp) db))) (\<lambda>db1.
              bind_err (insertRevisionEvent event_id stamp (dr_id d) ''revision_promoted'' [(''revision_id'', candidateID), (''previous_revision_id'', dr_active_revision_id d)]
                (promote_tables stamp (dr_id d) candidateID spec (relink (dr_id d) target_ids (set_deployment (dr_id d) (\<lambda>x. x\<lparr>dr_observed_state := ''pending''\<rparr>) db1)))) (\<lambda>db'.
              Inr ((), db')))))))"

definition PromoteGuardedCandidate ::
  "rollout_env \<Rightarrow> gotime \<Rightarrow> string \<Rightarrow> rollout_db \<Rightarrow> string \<Rightarrow> string \<Rightarrow> string \<Rightarrow> string list \<Rightarrow> (store_error + unit) \<times> rollout_db" where
  "PromoteGuardedCandidate env stamp event_id db tenant0 name candidateID targetNames =
     commit_tx db (bind_err (locked_deployment db (or_global tenant0) name) (promote_locked env stamp event_id db (or_global tenant0) candidateID targetNames))"

definition restore_locked ::
  "rollout_env \<Rightarrow> gotime \<Rightarrow> string \<Rightarrow> rollout_db \<Rightarrow> string \<Rightarrow> string \<Rightarrow> string \<Rightarrow> string \<Rightarrow> string list \<Rightarrow> dep_row \<Rightarrow> store_error + unit \<times> rollout_db" where
  "restore_locked env stamp event_id db tenant promotedID rollbackID because targetNames d =
     (if dr_active_revision_id d = rollbackID then Inr ((), db)
      else bind_err (require (dr_active_revision_id d = promotedID) (ErrConflict ''monitored promoted revision is no longer active'')) (\<lambda>_.
      case find (\<lambda>r. rv_id r = rollbackID \<and> rv_deployment_id r = dr_id d \<and> rv_status r = ''superseded'') (revisions db) of
        None \<Rightarrow> Inl (ErrConflict ''rollback revision is unavailable'')
      | Some r \<Rightarrow>
          bind_err (checked_targets env db tenant [''ready'', ''active'', ''draining''] (dr_id d) r targetNames) (\<lambda>(spec, target_ids).
          bind_err (updateDeploymentFromRevision env (dr_id d) rollbackID stamp
            (set_status rollbackID (\<lambda>x. (activated stamp x)\<lparr>rv_reason := because\<rparr>) (set_status promotedID (superseded stamp) db))) (\<lambda>db1.
          let db2 = relink (dr_id d) target_ids db1;
              db3 = db2\<lparr>replicas := upd_where (\<lambda>x. rr_deployment_id x = dr_id d) (restore_replica rollbackID promotedID stamp) (replicas db2)\<rparr> in
          bind_err (insertRevisionEvent event_id stamp (dr_id d) ''revision_auto_rolled_back''
            [(''revision_id'', rollbackID), (''failed_revision_id'', promotedID), (''reason'', because)] db3) (\<lambda>db'.
          Inr ((), db'))))))"

definition RollbackGuardedPromotion ::
  "rollout_env \<Rightarrow> gotime \<Rightarrow> string \<Rightarrow> rollout_db \<Rightarrow> string \<Rightarrow> string \<Rightarrow> string \<Rightarrow> string \<Rightarrow> string \<Rightarrow> string list \<Rightarrow> (store_error + unit) \<times> rollout_db" where
  "RollbackGuardedPromotion env stamp event_id db tenant0 name promotedID rollbackID because targetNames =
     commit_tx db (bind_err (locked_deployment db (or_global tenant0) name) (restore_locked env stamp event_id db (or_global tenant0) promotedID rollbackID because targetNames))"


section \<open>Policies, evidence and evaluations\<close>

definition ReleaseGuardPolicy :: "rollout_db \<Rightarrow> string \<Rightarrow> string \<Rightarrow> store_error + guard_policy" where
  "ReleaseGuardPolicy db tenant name =
     (case find (\<lambda>p. \<exists>d \<in> set (deployments db). dr_id d = gp_DeploymentID p \<and> named_deployment (or_global tenant) name d \<and> dr_desired_state d \<noteq> ''deleted'') (guard_policies db) of
        None \<Rightarrow> Inl ErrNotFound | Some p \<Rightarrow> Inr p)"

definition or_default :: "int \<Rightarrow> int \<Rightarrow> int" where
  "or_default d v = (if v = 0 then d else v)"

definition policy_defaults :: "guard_policy \<Rightarrow> guard_policy" where
  "policy_defaults p =
     p\<lparr>gp_AutoRollbackWindowSeconds := or_default 300 (gp_AutoRollbackWindowSeconds p),
       gp_ValidationMaxRequests := or_default 100 (gp_ValidationMaxRequests p),
       gp_ValidationMaxConcurrency := or_default 4 (gp_ValidationMaxConcurrency p),
       gp_QualityComparisonMode := default_to ''threshold'' (gp_QualityComparisonMode p),
       gp_QualityBootstrapAlpha := (if f_eq (gp_QualityBootstrapAlpha p) f_zero then f64_of_rat (5 / 100) else gp_QualityBootstrapAlpha p),
       gp_QualityBootstrapMinSamples := or_default 30 (gp_QualityBootstrapMinSamples p),
       gp_QualityBootstrapSeed := or_default 20260827 (gp_QualityBootstrapSeed p)\<rparr>"

definition out_of_range :: "f64 option \<Rightarrow> f64 \<Rightarrow> bool" where
  "out_of_range v hi \<longleftrightarrow> (case v of None \<Rightarrow> False | Some x \<Rightarrow> f_lt x f_zero \<or> f_gt x hi)"

definition policy_invalid :: "guard_policy \<Rightarrow> bool" where
  "policy_invalid p \<longleftrightarrow>
     gp_MinimumRequests p < 1 \<or> f_lt (gp_MaxTTFTRegressionPercent p) f_zero \<or> f_lt (gp_MaxLatencyRegressionPercent p) f_zero \<or>
     f_lt (gp_MaxErrorRateIncrease p) f_zero \<or> f_gt (gp_MaxErrorRateIncrease p) (FNum 1) \<or> f_lt (gp_MaxOutputThroughputDropPercent p) f_zero \<or>
     gp_AutoRollbackWindowSeconds p < 30 \<or> gp_AutoRollbackWindowSeconds p > 3600 \<or> gp_ValidationMaxRequests p < 1 \<or> gp_ValidationMaxRequests p > 10000 \<or>
     gp_ValidationMaxConcurrency p < 1 \<or> gp_ValidationMaxConcurrency p > 128 \<or>
     (case gp_MaxCostRegressionPercent p of None \<Rightarrow> False | Some x \<Rightarrow> f_lt x f_zero) \<or>
     out_of_range (gp_MinimumQualityScore p) (FNum 1) \<or> out_of_range (gp_MaxQualityRegressionPercent p) (FNum 100) \<or>
     (gp_QualityComparisonMode p \<noteq> ''threshold'' \<and> gp_QualityComparisonMode p \<noteq> ''bootstrap'') \<or>
     f_le (gp_QualityBootstrapAlpha p) f_zero \<or> f_ge (gp_QualityBootstrapAlpha p) (FNum (1 / 2)) \<or>
     gp_QualityBootstrapMinSamples p < 2 \<or> gp_QualityBootstrapMinSamples p > 100000 \<or>
     (gp_QualityComparisonMode p = ''bootstrap'' \<and> (\<not> gp_RequireQualityEvidence p \<or> gp_MaxQualityRegressionPercent p = None))"

definition SetReleaseGuardPolicy :: "rollout_db \<Rightarrow> string \<Rightarrow> string \<Rightarrow> guard_policy \<Rightarrow> (store_error + guard_policy) \<times> rollout_db" where
  "SetReleaseGuardPolicy db tenant name p0 =
     (let p = policy_defaults p0 in
      if policy_invalid p then (Inl (ErrOther ''invalid Release Guard policy''), db)
      else case ReleaseGuardPolicy db tenant name of
          Inl e \<Rightarrow> (Inl e, db)
        | Inr current \<Rightarrow>
            let db' = db\<lparr>guard_policies := upd_where (\<lambda>x. gp_DeploymentID x = gp_DeploymentID current)
                  (\<lambda>x. p\<lparr>gp_DeploymentID := gp_DeploymentID x\<rparr>) (guard_policies db)\<rparr>
            in (ReleaseGuardPolicy db' tenant name, db'))"

definition no_metrics :: revision_metrics where
  "no_metrics = \<lparr>rm_EvidenceSource = '''', rm_EvidenceID = '''', rm_Requests = 0, rm_ReadyReplicas = 0, rm_ErrorRate = f_zero, rm_P95TTFTMS = None, rm_P95LatencyMS = None,
     rm_OutputTokensPerSecond = None, rm_SourcedHourlyCost = None, rm_Compatible = None, rm_CompatibilityEvidence = '''', rm_SyntheticValidation = False,
     rm_QualityScore = None, rm_QualityPassed = None, rm_QualityComparable = None, rm_QualityEvidenceID = '''', rm_QualitySuite = '''', rm_QualitySampleCount = 0,
     rm_QualityPairingDigest = '''', rm_QualityScores = []\<rparr>"

definition ready_replicas :: "rollout_db \<Rightarrow> string \<Rightarrow> int" where
  "ready_replicas db revision_id = int (rows_affected (\<lambda>r. rr_revision_id r = revision_id \<and> rr_lifecycle_state r \<in> {''ready'', ''active''} \<and> rr_health r = ''healthy'') (replicas db))"

definition measured :: "rollout_db \<Rightarrow> string \<Rightarrow> string \<Rightarrow> telemetry_row \<Rightarrow> revision_metrics" where
  "measured db source revision_id t =
     no_metrics\<lparr>rm_EvidenceSource := source, rm_Requests := tl_Requests t, rm_ErrorRate := tl_ErrorRate t, rm_P95TTFTMS := tl_P95TTFTMS t,
       rm_P95LatencyMS := tl_P95LatencyMS t, rm_OutputTokensPerSecond := tl_OutputTokensPerSecond t, rm_ReadyReplicas := ready_replicas db revision_id\<rparr>"

definition RevisionMetrics :: "rollout_env \<Rightarrow> gotime \<Rightarrow> rollout_db \<Rightarrow> string \<Rightarrow> duration \<Rightarrow> store_error + revision_metrics" where
  "RevisionMetrics env now db revision_id window =
     (if window \<le> 0 then Inl (ErrOther ''metrics window must be positive'')
      else Inr (measured db ''request_telemetry'' revision_id (en_telemetry env revision_id (now - window) window)))"

definition RevisionMetricsSince :: "rollout_env \<Rightarrow> gotime \<Rightarrow> rollout_db \<Rightarrow> string \<Rightarrow> gotime \<Rightarrow> store_error + revision_metrics" where
  "RevisionMetricsSince env now db revision_id since =
     (if is_zero_time since \<or> since > now then Inl (ErrOther ''metrics start must be a past timestamp'')
      else Inr (measured db ''post_promotion_request_telemetry'' revision_id (en_telemetry env revision_id since (max 1000000000 (now - since)))))"

definition benchmark_metrics :: "rollout_env \<Rightarrow> bool \<Rightarrow> bench_row \<Rightarrow> int \<Rightarrow> revision_metrics" where
  "benchmark_metrics env direct row ready =
     no_metrics\<lparr>rm_EvidenceSource := ''aiperf_benchmark'', rm_EvidenceID := be_ID row, rm_Requests := be_RequestCount row, rm_ReadyReplicas := ready,
       rm_ErrorRate := (if be_RequestCount row > 0 then f_div (f_of_int (be_Failed row)) (f_of_int (be_RequestCount row)) else f_zero),
       rm_P95TTFTMS := be_TTFTP95MS row, rm_P95LatencyMS := be_LatencyP95MS row, rm_OutputTokensPerSecond := be_OutputTokenThroughput row,
       rm_SyntheticValidation := direct,
       rm_SourcedHourlyCost := (case en_cost env (be_CostMetadataJSON row) of
          Some c \<Rightarrow> if cm_Available c \<and> cm_Hourly c \<noteq> None \<and> cm_Source c \<noteq> '''' then cm_Hourly c else None | None \<Rightarrow> None)\<rparr>"

definition compatible_rows :: "bench_row \<Rightarrow> bench_row \<Rightarrow> bool" where
  "compatible_rows a c \<longleftrightarrow> be_ModelIdentity a \<noteq> '''' \<and> be_ModelIdentity c \<noteq> '''' \<and> be_Runtime a \<noteq> '''' \<and> be_Runtime a = be_Runtime c \<and>
     be_RuntimeVersion a \<noteq> '''' \<and> be_RuntimeVersion a = be_RuntimeVersion c \<and> be_ComputeMode a = be_ComputeMode c"

definition with_compatibility :: "bool \<Rightarrow> revision_metrics \<Rightarrow> revision_metrics" where
  "with_compatibility ok m = m\<lparr>rm_Compatible := Some ok,
     rm_CompatibilityEvidence := ''revision-scoped immutable model identities plus matching runtime, runtime version and compute mode''\<rparr>"

definition benchmarkGuardMetrics ::
  "rollout_env \<Rightarrow> int \<Rightarrow> int \<Rightarrow> bench_row list \<Rightarrow> string \<Rightarrow> string \<Rightarrow> (revision_metrics \<times> revision_metrics) option" where
  "benchmarkGuardMetrics env activeReady candidateReady rows activeID candidateID =
     (case (find (\<lambda>r. be_RevisionID r = activeID) rows, find (\<lambda>r. be_RevisionID r = candidateID) rows) of
        (Some a, Some c) \<Rightarrow>
          if be_Tool a \<noteq> be_Tool c \<or> be_ToolVersion a \<noteq> be_ToolVersion c then None
          else (case (en_workload env (be_WorkloadJSON a), en_workload env (be_WorkloadJSON c)) of
              (Some wa, Some wc) \<Rightarrow>
                if wa\<lparr>bw_DirectRevisionValidation := False\<rparr> \<noteq> wc\<lparr>bw_DirectRevisionValidation := False\<rparr> then None
                else let direct = bw_DirectRevisionValidation wc; ok = compatible_rows a c in
                  Some (with_compatibility ok (benchmark_metrics env direct a activeReady), with_compatibility ok (benchmark_metrics env direct c candidateReady))
            | _ \<Rightarrow> None)
      | _ \<Rightarrow> None)"

definition applyQualityDistribution :: "rollout_env \<Rightarrow> quality_row \<Rightarrow> revision_metrics \<Rightarrow> revision_metrics" where
  "applyQualityDistribution env q m0 =
     (let m = m0\<lparr>rm_QualitySampleCount := qu_SampleCount q\<rparr> in
      case en_distribution env (qu_DistributionJSON q) of
        Some (digest, scores) \<Rightarrow>
          if digest \<noteq> '''' \<and> int (length scores) = qu_SampleCount q then m\<lparr>rm_QualityPairingDigest := digest, rm_QualityScores := scores\<rparr> else m
      | None \<Rightarrow> m)"

definition with_quality :: "rollout_env \<Rightarrow> bool \<Rightarrow> quality_row \<Rightarrow> revision_metrics \<Rightarrow> revision_metrics" where
  "with_quality env comparable q m = applyQualityDistribution env q
     (m\<lparr>rm_QualityScore := Some (qu_Score q), rm_QualityPassed := Some (qu_Passed q), rm_QualityComparable := Some comparable,
        rm_QualityEvidenceID := qu_ID q, rm_QualitySuite := qu_Suite q @ ''@'' @ qu_SuiteVersion q\<rparr>)"

definition same_suite :: "quality_row \<Rightarrow> quality_row \<Rightarrow> bool" where
  "same_suite a c \<longleftrightarrow> qu_Suite a = qu_Suite c \<and> qu_SuiteVersion a = qu_SuiteVersion c \<and> qu_Evaluator a = qu_Evaluator c \<and> qu_EvaluatorVersion a = qu_EvaluatorVersion c"

definition applyQualityEvidence ::
  "rollout_env \<Rightarrow> quality_row list \<Rightarrow> string \<Rightarrow> string \<Rightarrow> revision_metrics \<Rightarrow> revision_metrics \<Rightarrow> revision_metrics \<times> revision_metrics" where
  "applyQualityEvidence env rows activeID candidateID active candidate =
     (case find (\<lambda>q. qu_RevisionID q = candidateID) rows of
        None \<Rightarrow> (active, candidate)
      | Some c \<Rightarrow>
          case find (\<lambda>q. qu_RevisionID q = activeID \<and> same_suite q c) rows of
            Some a \<Rightarrow> (with_quality env True a active, with_quality env True c candidate)
          | None \<Rightarrow> (active, with_quality env False c candidate))"

definition without_identity :: "guard_policy \<Rightarrow> revision_metrics \<Rightarrow> revision_metrics \<Rightarrow> revision_metrics" where
  "without_identity p candidate m =
     (if gp_RequireCompatibilityEvidence p \<and> rm_Compatible candidate = None
      then m\<lparr>rm_CompatibilityEvidence := ''comparable benchmark identity unavailable''\<rparr> else m)"

definition insert_evaluation :: "evaluation_row \<Rightarrow> rollout_db \<Rightarrow> store_error + rollout_db" where
  "insert_evaluation e db = bind_err (insert_unless (\<lambda>x. ev_id x = ev_id e) e (evaluations db)) (\<lambda>rows. Inr (db\<lparr>evaluations := rows\<rparr>))"

text \<open>The two rows and the policy are read first; what another transaction changes meanwhile does not enter the evaluation.\<close>

definition EvaluateReleaseGuard ::
  "rollout_env \<Rightarrow> gotime \<Rightarrow> string \<Rightarrow> rollout_db \<Rightarrow> string \<Rightarrow> string \<Rightarrow> duration \<Rightarrow> (store_error + evaluation_row) \<times> rollout_db" where
  "EvaluateReleaseGuard env now ident db tenant name window =
     commit_tx db
       (bind_err (ResolveForTenant db tenant name) (\<lambda>d.
        case dr_candidate_revision_id d of
          None \<Rightarrow> Inl (ErrConflict ''deployment has no candidate revision'')
        | Some candidateID \<Rightarrow>
            bind_err (ReleaseGuardPolicy db tenant name) (\<lambda>policy.
            bind_err (RevisionMetrics env now db (dr_active_revision_id d) window) (\<lambda>active0.
            bind_err (RevisionMetrics env now db candidateID window) (\<lambda>candidate0.
            bind_err (if rm_Requests candidate0 < gp_MinimumRequests policy
                then bind_err (en_benchmarks env tenant name) (\<lambda>rows.
                  Inr (case benchmarkGuardMetrics env (rm_ReadyReplicas active0) (rm_ReadyReplicas candidate0) rows (dr_active_revision_id d) candidateID of
                         Some pair \<Rightarrow> pair | None \<Rightarrow> (active0, candidate0)))
                else Inr (active0, candidate0)) (\<lambda>(active1, candidate1).
            bind_err (en_quality env tenant name) (\<lambda>quality.
            let (active, candidate) = applyQualityEvidence env quality (dr_active_revision_id d) candidateID
                  (without_identity policy candidate1 active1) (without_identity policy candidate1 candidate1);
                verdict = guard_Evaluate (en_oob env) (en_rng env) policy active candidate;
                e = \<lparr>ev_id = ident, ev_deployment_id = dr_id d, ev_active_revision_id = dr_active_revision_id d, ev_candidate_revision_id = candidateID,
                   ev_decision = gu_Decision verdict, ev_reasons = gu_Reasons verdict, ev_active_metrics = active, ev_candidate_metrics = candidate,
                   ev_policy = policy, ev_created_at = now\<rparr> in
            bind_err (insert_evaluation e db) (\<lambda>db'. Inr (e, db')))))))))"

definition ReleaseGuardAccepted :: "rollout_db \<Rightarrow> string \<Rightarrow> string \<Rightarrow> string \<Rightarrow> bool" where
  "ReleaseGuardAccepted db tenant name candidateID =
     (case first_by (\<lambda>(d, e) (d', e'). ev_created_at e > ev_created_at e')
        (filter (\<lambda>(d, e). named_deployment tenant name d \<and> ev_deployment_id e = dr_id d \<and> ev_candidate_revision_id e = candidateID)
          (List.product (deployments db) (evaluations db))) of
        None \<Rightarrow> False
      | Some (d, e) \<Rightarrow> ev_decision e = ''ACCEPT'' \<and> coalesce (dr_candidate_revision_id d) = candidateID \<and> dr_active_revision_id d = ev_active_revision_id e)"


section \<open>Monitors\<close>

definition ReleaseGuardMonitor :: "rollout_db \<Rightarrow> string \<Rightarrow> string \<Rightarrow> string \<Rightarrow> store_error + monitor_row" where
  "ReleaseGuardMonitor db tenant name promotedID =
     (case find (\<lambda>m. mo_tenant_id m = or_global tenant \<and> mo_promoted_revision_id m = promotedID \<and>
          (\<exists>d \<in> set (deployments db). dr_id d = mo_deployment_id m \<and> dr_name d = name)) (monitors db) of
        None \<Rightarrow> Inl ErrNotFound | Some m \<Rightarrow> Inr m)"

definition second :: duration where
  "second = 1000000000"

definition window_invalid :: "duration \<Rightarrow> bool" where
  "window_invalid window \<longleftrightarrow> window < 30 * second \<or> window > 3600 * second"

definition EnsureReleaseGuardMonitor ::
  "rollout_env \<Rightarrow> gotime \<Rightarrow> string \<Rightarrow> rollout_db \<Rightarrow> string \<Rightarrow> string \<Rightarrow> string \<Rightarrow> string \<Rightarrow> duration \<Rightarrow> (store_error + monitor_row) \<times> rollout_db" where
  "EnsureReleaseGuardMonitor env now ident db tenant0 name promotedID rollbackID window =
     (let tenant = or_global tenant0 in
      if promotedID = '''' \<or> rollbackID = '''' \<or> promotedID = rollbackID \<or> window_invalid window then (Inl (ErrOther ''invalid release monitor''), db)
      else case ResolveForTenant db tenant name of
          Inl e \<Rightarrow> (Inl e, db)
        | Inr d \<Rightarrow>
            if dr_active_revision_id d \<noteq> promotedID then (Inl (ErrConflict ''promoted revision is not active''), db)
            else case ReleaseGuardPolicy db tenant name of
                Inl e \<Rightarrow> (Inl e, db)
              | Inr policy \<Rightarrow>
                  let row = \<lparr>mo_id = ident, mo_tenant_id = tenant, mo_deployment_id = dr_id d, mo_promoted_revision_id = promotedID, mo_rollback_revision_id = rollbackID,
                        mo_status = ''observing'', mo_deadline = now + window, mo_evaluation_id = None, mo_policy_json = en_policy_json env policy, mo_reason = [],
                        mo_created_at = now, mo_updated_at = now\<rparr> in
                  if \<exists>m \<in> set (monitors db). mo_deployment_id m = dr_id d \<and> mo_promoted_revision_id m = promotedID
                  then (ReleaseGuardMonitor db tenant name promotedID, db)
                  else if \<exists>m \<in> set (monitors db). mo_id m = ident then (Inl (ErrOther ''duplicate key value violates unique constraint''), db)
                  else let db' = db\<lparr>monitors := monitors db @ [row]\<rparr> in (ReleaseGuardMonitor db' tenant name promotedID, db'))"

definition copy_identity :: "revision_metrics \<Rightarrow> revision_metrics \<Rightarrow> revision_metrics" where
  "copy_identity source m = m\<lparr>rm_Compatible := rm_Compatible source, rm_CompatibilityEvidence := rm_CompatibilityEvidence source,
     rm_SyntheticValidation := rm_SyntheticValidation source, rm_SourcedHourlyCost := rm_SourcedHourlyCost source\<rparr>"

definition deadline_verdict :: "gotime \<Rightarrow> gotime \<Rightarrow> guard_verdict \<Rightarrow> guard_verdict" where
  "deadline_verdict now deadline v =
     (if gu_Decision v = ''WAIT'' \<and> now \<ge> deadline
      then \<lparr>gu_Decision = ''REJECT'', gu_Reasons = gu_Reasons v @ [reason ''observation_deadline_exceeded'' '''']\<rparr> else v)"

definition monitor_status :: "string \<Rightarrow> string" where
  "monitor_status decision = (if decision = ''REJECT'' then ''failed'' else if decision = ''ACCEPT'' then ''accepted'' else ''observing'')"

definition EvaluateReleaseGuardMonitor ::
  "rollout_env \<Rightarrow> gotime \<Rightarrow> string \<Rightarrow> rollout_db \<Rightarrow> string \<Rightarrow> string \<Rightarrow> string \<Rightarrow> (store_error + evaluation_row) \<times> rollout_db" where
  "EvaluateReleaseGuardMonitor env now ident db tenant name promotedID =
     commit_tx db
       (bind_err (ReleaseGuardMonitor db tenant name promotedID) (\<lambda>m.
        case en_decode_policy env (mo_policy_json m) of
          None \<Rightarrow> Inl (ErrOther ''decode persisted release monitor policy'')
        | Some policy \<Rightarrow>
            let window = mo_deadline m - mo_created_at m in
            bind_err (require (\<not> window_invalid window) (ErrOther ''persisted release monitor has an invalid observation window'')) (\<lambda>_.
            bind_err (RevisionMetrics env now db (mo_rollback_revision_id m) window) (\<lambda>baseline0.
            bind_err (RevisionMetricsSince env now db (mo_promoted_revision_id m) (mo_created_at m)) (\<lambda>candidate0.
            bind_err (en_benchmarks env tenant name) (\<lambda>rows.
            let (baseline1, candidate1) =
                  (case benchmarkGuardMetrics env (rm_ReadyReplicas baseline0) (rm_ReadyReplicas candidate0) rows (mo_rollback_revision_id m) (mo_promoted_revision_id m) of
                     Some (a, c) \<Rightarrow> (copy_identity a baseline0, copy_identity c candidate0) | None \<Rightarrow> (baseline0, candidate0));
                baseline = without_identity policy candidate1 baseline1; candidate = without_identity policy candidate1 candidate1;
                verdict = deadline_verdict now (mo_deadline m) (guard_Evaluate (en_oob env) (en_rng env) policy baseline candidate);
                e = \<lparr>ev_id = ident, ev_deployment_id = mo_deployment_id m, ev_active_revision_id = mo_rollback_revision_id m, ev_candidate_revision_id = mo_promoted_revision_id m,
                   ev_decision = gu_Decision verdict, ev_reasons = gu_Reasons verdict, ev_active_metrics = baseline, ev_candidate_metrics = candidate,
                   ev_policy = policy, ev_created_at = now\<rparr> in
            bind_err (insert_evaluation e db) (\<lambda>db1.
            Inr (e, db1\<lparr>monitors := upd_where (\<lambda>x. mo_id x = mo_id m)
              (\<lambda>x. x\<lparr>mo_status := monitor_status (gu_Decision verdict), mo_evaluation_id := Some ident, mo_reason := gu_Reasons verdict, mo_updated_at := now\<rparr>) (monitors db1)\<rparr>))))))))"

definition MarkReleaseGuardMonitorRolledBack ::
  "gotime \<Rightarrow> rollout_db \<Rightarrow> string \<Rightarrow> string \<Rightarrow> string \<Rightarrow> (store_error + unit) \<times> rollout_db" where
  "MarkReleaseGuardMonitorRolledBack now db tenant name promotedID =
     (case ReleaseGuardMonitor db tenant name promotedID of
        Inl e \<Rightarrow> (Inl e, db)
      | Inr m \<Rightarrow> (Inr (), db\<lparr>monitors := upd_where (\<lambda>x. mo_id x = mo_id m) (\<lambda>x. x\<lparr>mo_status := ''rolled_back'', mo_updated_at := now\<rparr>) (monitors db)\<rparr>))"

section \<open>Handlers\<close>

record rollout_request =
  rq_Name :: string
  rq_CandidateID :: string
  rq_RevisionID :: string
  rq_Reason :: string
  rq_Spec :: string
  rq_Actor :: string
  rq_TenantID :: string

definition decodeRollout :: "(string \<Rightarrow> rollout_request option) \<Rightarrow> operation \<Rightarrow> handler_error + rollout_request" where
  "decodeRollout decode operation =
     (case decode (op_RequestJSON operation) of
        None \<Rightarrow> Inl (Permanent ''invalid_request'' (Some ''decode rollout request''))
      | Some request \<Rightarrow>
          if rq_Name request = '''' \<or> rq_TenantID request = '''' then Inl (Permanent ''invalid_request'' (Some ''name and tenant_id are required'')) else Inr request)"

definition store_failure :: "string \<Rightarrow> string \<Rightarrow> store_error \<Rightarrow> handler_error" where
  "store_failure permanent retryable e =
     (case e of ErrNotFound \<Rightarrow> Permanent permanent (Some ''not found'')
      | ErrConflict text \<Rightarrow> Permanent permanent (Some text)
      | ErrOther text \<Rightarrow> Retryable retryable (Some text))"

text \<open>
  What other transactions do between the two calls of the promotion handler is the argument
  \<open>meanwhile\<close>. The audit record, whose error is ignored, is left out; the result names the action.
\<close>

definition rollout_create ::
  "rollout_env \<Rightarrow> (string \<Rightarrow> rollout_request option) \<Rightarrow> gotime \<Rightarrow> string \<Rightarrow> string \<Rightarrow> operation \<Rightarrow> rollout_db \<Rightarrow> (handler_error + revision_row) \<times> rollout_db" where
  "rollout_create env decode stamp ident event_id operation db =
     (case decodeRollout decode operation of
        Inl e \<Rightarrow> (Inl e, db)
      | Inr request \<Rightarrow>
          if rq_Spec request = '''' then (Inl (Permanent ''invalid_request'' (Some ''spec is required'')), db)
          else case EnsureCandidateRevision env stamp ident event_id db (rq_TenantID request) (rq_Name request) (rq_Spec request) (op_ID operation) of
              (Inl e, db') \<Rightarrow> (Inl (store_failure ''candidate_rejected'' ''candidate_create_failed'' e), db')
            | (Inr r, db') \<Rightarrow> (Inr r, db'))"

definition transition_result :: "string \<Rightarrow> (store_error + unit) \<times> rollout_db \<Rightarrow> (handler_error + string) \<times> rollout_db" where
  "transition_result action outcome =
     (case outcome of
        (Inl e, db) \<Rightarrow> (Inl (store_failure ''rollout_rejected'' ''rollout_transition_failed'' e), db)
      | (Inr _, db) \<Rightarrow> (Inr action, db))"

definition rollout_transition ::
  "rollout_env \<Rightarrow> (string \<Rightarrow> rollout_request option) \<Rightarrow> (rollout_db \<Rightarrow> rollout_db) \<Rightarrow> gotime \<Rightarrow> string \<Rightarrow> string \<Rightarrow> operation \<Rightarrow> rollout_db \<Rightarrow> (handler_error + string) \<times> rollout_db" where
  "rollout_transition env decode meanwhile stamp event_id action operation db =
     (case decodeRollout decode operation of
        Inl e \<Rightarrow> (Inl e, db)
      | Inr request \<Rightarrow>
          if action = ''promote'' then
            (if rq_CandidateID request = '''' then (Inl (Permanent ''invalid_request'' (Some ''candidate_id is required'')), db)
             else if \<not> ReleaseGuardAccepted db (rq_TenantID request) (rq_Name request) (rq_CandidateID request)
               then (Inl (Permanent ''release_guard_not_accepted'' (Some ''latest Release Guard evaluation has not accepted this candidate against the current active revision'')), db)
             else transition_result action (PromoteCandidateRevision env stamp event_id (meanwhile db) (rq_TenantID request) (rq_Name request) (rq_CandidateID request)))
          else if action = ''reject'' then
            (if rq_CandidateID request = '''' \<or> rq_Reason request = '''' then (Inl (Permanent ''invalid_request'' (Some ''candidate_id and reason are required'')), db)
             else transition_result action (RejectCandidateRevision env stamp event_id db (rq_TenantID request) (rq_Name request) (rq_CandidateID request) (rq_Reason request)))
          else
            (if rq_RevisionID request = '''' \<or> rq_Reason request = '''' then (Inl (Permanent ''invalid_request'' (Some ''revision_id and reason are required'')), db)
             else transition_result action (RollbackRevision env stamp event_id db (rq_TenantID request) (rq_Name request) (rq_RevisionID request) (rq_Reason request))))"

definition release_guard_handler ::
  "rollout_env \<Rightarrow> (string \<Rightarrow> rollout_request option) \<Rightarrow> gotime \<Rightarrow> string \<Rightarrow> operation \<Rightarrow> rollout_db \<Rightarrow> (handler_error + evaluation_row) \<times> rollout_db" where
  "release_guard_handler env decode now ident operation db =
     (case decodeRollout decode operation of
        Inl e \<Rightarrow> (Inl e, db)
      | Inr request \<Rightarrow>
          case EvaluateReleaseGuard env now ident db (rq_TenantID request) (rq_Name request) (300 * second) of
            (Inl e, db') \<Rightarrow> (Inl (store_failure ''release_guard_rejected'' ''release_guard_evaluation_failed'' e), db')
          | (Inr e, db') \<Rightarrow> (Inr e, db'))"

end
