(* ===== verification/Rollout_Safety.thy ===== *)
theory Rollout_Safety
  imports Rollout
begin

text \<open>
  The safety of rollouts. An abstract machine of revisions (active, candidate, superseded, rejected) is
  refined by every operation of \<^emph>\<open>Rollout\<close>; its invariant and the fact that a candidate pins the active
  revision it was proposed against carry over to every interleaving of the operations.
\<close>

section \<open>The revision machine\<close>

text \<open>
  The abstract state: for each deployment its active revision and its candidate, and for each revision
  its deployment, number and status. A step proposes a candidate, rejects it, or switches a deployment to
  another revision of its own.
\<close>

type_synonym pointer = "string \<times> string \<times> string option"
type_synonym standing = "string \<times> string \<times> int \<times> string"
type_synonym revision_state = "pointer list \<times> standing list"

definition pointer_of :: "dep_row \<Rightarrow> pointer" where
  "pointer_of d = (dr_id d, dr_active_revision_id d, dr_candidate_revision_id d)"

definition standing_of :: "revision_row \<Rightarrow> standing" where
  "standing_of r = (rv_id r, rv_deployment_id r, rv_number r, rv_status r)"

definition revision_view :: "rollout_db \<Rightarrow> revision_state" where
  "revision_view db = (map pointer_of (deployments db), map standing_of (revisions db))"

definition aim :: "string \<Rightarrow> string \<times> string option \<Rightarrow> pointer list \<Rightarrow> pointer list" where
  "aim d p = map (\<lambda>q. if fst q = d then (d, p) else q)"

definition mark :: "string \<Rightarrow> string \<Rightarrow> standing list \<Rightarrow> standing list" where
  "mark i s = map (\<lambda>r. if fst r = i then (i, fst (snd r), fst (snd (snd r)), s) else r)"

inductive revision_move :: "revision_state \<Rightarrow> revision_state \<Rightarrow> bool" where
  stays: "revision_move v v"
| created: "\<lbrakk>d \<notin> fst ` set ps; i \<notin> fst ` set rs\<rbrakk> \<Longrightarrow> revision_move (ps, rs) (ps @ [(d, i, None)], rs @ [(i, d, 1, ''active'')])"
| proposed: "\<lbrakk>(d, a, None) \<in> set ps; i \<notin> fst ` set rs; \<forall>(j, d', m, s) \<in> set rs. d' = d \<longrightarrow> m < n\<rbrakk> \<Longrightarrow>
    revision_move (ps, rs) (aim d (a, Some i) ps, rs @ [(i, d, n, ''candidate'')])"
| rejects: "(d, a, Some c) \<in> set ps \<Longrightarrow> revision_move (ps, rs) (aim d (a, None) ps, mark c ''rejected'' rs)"
| switches: "\<lbrakk>(d, a, x) \<in> set ps; (i, d, n, s) \<in> set rs; i \<noteq> a; s = ''candidate'' \<longrightarrow> x = Some i\<rbrakk> \<Longrightarrow>
    revision_move (ps, rs) (aim d (i, None) ps, mark i ''active'' (mark a ''superseded'' rs))"

definition revisions_ok :: "revision_state \<Rightarrow> bool" where
  "revisions_ok v \<longleftrightarrow>
     distinct (map fst (fst v)) \<and> distinct (map fst (snd v)) \<and> distinct (map (\<lambda>(i, d, n, s). (d, n)) (snd v)) \<and>
     (\<forall>(i, d, n, s) \<in> set (snd v). d \<in> fst ` set (fst v)) \<and>
     (\<forall>(d, a, c) \<in> set (fst v). \<exists>n. (a, d, n, ''active'') \<in> set (snd v)) \<and>
     (\<forall>(d, a, c) \<in> set (fst v). \<forall>(i, d', n, s) \<in> set (snd v). d' = d \<and> s = ''active'' \<longrightarrow> i = a) \<and>
     (\<forall>(d, a, c) \<in> set (fst v). \<forall>i. c = Some i \<longrightarrow> (\<exists>n. (i, d, n, ''candidate'') \<in> set (snd v)))"

lemma in_aim: "(j, q) \<in> set (aim d p ps) \<longleftrightarrow> (if j = d then q = p \<and> (\<exists>q'. (j, q') \<in> set ps) else (j, q) \<in> set ps)"
  by (force simp: aim_def image_iff split: if_splits)

lemma in_mark: "(j, d, n, t) \<in> set (mark i s rs) \<longleftrightarrow> (if j = i then t = s \<and> (\<exists>t'. (j, d, n, t') \<in> set rs) else (j, d, n, t) \<in> set rs)"
  by (force simp: mark_def image_iff split: if_splits)

lemma fst_aim [simp]: "map fst (aim d p ps) = map fst ps"
  by (auto simp: aim_def)

lemma fst_mark [simp]: "map fst (mark i s rs) = map fst rs" "map (\<lambda>(i, d, n, s). (d, n)) (mark i s rs) = map (\<lambda>(i, d, n, s). (d, n)) rs"
  by (auto simp: mark_def)

lemma fst_set_aim [simp]: "fst ` set (aim d p ps) = fst ` set ps"
  by (metis fst_aim list.set_map)

lemma same_pointer: "distinct (map fst ps) \<Longrightarrow> (d, q) \<in> set ps \<Longrightarrow> (d, q') \<in> set ps \<Longrightarrow> q = q'"
  by (rule eq_key_imp_eq_value)

lemma same_standing: "distinct (map fst rs) \<Longrightarrow> (i, q) \<in> set rs \<Longrightarrow> (i, q') \<in> set rs \<Longrightarrow> q = q'"
  by (rule eq_key_imp_eq_value)

lemma revisions_okI:
  assumes "distinct (map fst ps)" "distinct (map fst rs)" "distinct (map (\<lambda>(i, d, n, s). (d, n)) rs)"
    "\<And>i d n s. (i, d, n, s) \<in> set rs \<Longrightarrow> d \<in> fst ` set ps"
    "\<And>d a c. (d, a, c) \<in> set ps \<Longrightarrow> \<exists>n. (a, d, n, ''active'') \<in> set rs"
    "\<And>d a c i n. (d, a, c) \<in> set ps \<Longrightarrow> (i, d, n, ''active'') \<in> set rs \<Longrightarrow> i = a"
    "\<And>d a i. (d, a, Some i) \<in> set ps \<Longrightarrow> \<exists>n. (i, d, n, ''candidate'') \<in> set rs"
  shows "revisions_ok (ps, rs)"
  unfolding revisions_ok_def fst_conv snd_conv using assms by (intro conjI) (assumption | fast)+

lemma revisions_okD:
  assumes "revisions_ok (ps, rs)"
  shows "distinct (map fst ps)" "distinct (map fst rs)" "distinct (map (\<lambda>(i, d, n, s). (d, n)) rs)"
    "(i, d, n, s) \<in> set rs \<Longrightarrow> d \<in> fst ` set ps"
    "(d, a, c) \<in> set ps \<Longrightarrow> \<exists>n. (a, d, n, ''active'') \<in> set rs"
    "(d, a, c) \<in> set ps \<Longrightarrow> (i, d, n, ''active'') \<in> set rs \<Longrightarrow> i = a"
    "(d, a, Some i) \<in> set ps \<Longrightarrow> \<exists>n. (i, d, n, ''candidate'') \<in> set rs"
  using assms unfolding revisions_ok_def fst_conv snd_conv by (elim conjE, fast)+

lemma revisions_ok_created:
  assumes "d \<notin> fst ` set ps" "i \<notin> fst ` set rs" "revisions_ok (ps, rs)"
  shows "revisions_ok (ps @ [(d, i, None)], rs @ [(i, d, 1, ''active'')])"
proof -
  note ok = revisions_okD [OF assms(3)]
  have fresh: "(j, d, m, t) \<notin> set rs" for j m t using ok(4) assms(1) by blast
  show ?thesis
  proof (rule revisions_okI)
    show "distinct (map fst (ps @ [(d, i, None)]))" "distinct (map fst (rs @ [(i, d, 1, ''active'')]))" using ok(1,2) assms by auto
    show "distinct (map (\<lambda>(i, d, n, s). (d, n)) (rs @ [(i, d, 1, ''active'')]))" using ok(3) fresh by auto
    show "d' \<in> fst ` set (ps @ [(d, i, None)])" if "(j, d', n, s) \<in> set (rs @ [(i, d, 1, ''active'')])" for j d' n s
      using that ok(4) by auto
    show "\<exists>n. (a, d', n, ''active'') \<in> set (rs @ [(i, d, 1, ''active'')])" if "(d', a, c) \<in> set (ps @ [(d, i, None)])" for d' a c
      using that ok(5) by fastforce
    show "j = a" if "(d', a, c) \<in> set (ps @ [(d, i, None)])" "(j, d', n, ''active'') \<in> set (rs @ [(i, d, 1, ''active'')])" for d' a c j n
      using that ok(6) fresh assms(1) by (auto simp: image_iff)
    show "\<exists>n. (j, d', n, ''candidate'') \<in> set (rs @ [(i, d, 1, ''active'')])" if "(d', a, Some j) \<in> set (ps @ [(d, i, None)])" for d' a j
      using that ok(7) by fastforce
  qed
qed

lemma revisions_ok_proposed:
  assumes "(d, a, None) \<in> set ps" "i \<notin> fst ` set rs" "\<forall>(j, d', m, s) \<in> set rs. d' = d \<longrightarrow> m < n" "revisions_ok (ps, rs)"
  shows "revisions_ok (aim d (a, Some i) ps, rs @ [(i, d, n, ''candidate'')])"
proof -
  note ok = revisions_okD [OF assms(4)]
  show ?thesis
  proof (rule revisions_okI)
    show "distinct (map fst (aim d (a, Some i) ps))" "distinct (map fst (rs @ [(i, d, n, ''candidate'')]))" using ok(1,2) assms by auto
    show "distinct (map (\<lambda>(i, d, n, s). (d, n)) (rs @ [(i, d, n, ''candidate'')]))" using ok(3) assms(3) by force
    show "d' \<in> fst ` set (aim d (a, Some i) ps)" if "(j, d', m, s) \<in> set (rs @ [(i, d, n, ''candidate'')])" for j d' m s
      using that ok(4) assms(1) by force
    show "\<exists>m. (a', d', m, ''active'') \<in> set (rs @ [(i, d, n, ''candidate'')])" if "(d', a', c) \<in> set (aim d (a, Some i) ps)" for d' a' c
      using that ok(5) assms(1) by (fastforce simp: in_aim split: if_splits)
    show "j = a'" if "(d', a', c) \<in> set (aim d (a, Some i) ps)" "(j, d', m, ''active'') \<in> set (rs @ [(i, d, n, ''candidate'')])" for d' a' c j m
      using that ok(6) assms(1) by (auto simp: in_aim split: if_splits)
    show "\<exists>m. (j, d', m, ''candidate'') \<in> set (rs @ [(i, d, n, ''candidate'')])" if "(d', a', Some j) \<in> set (aim d (a, Some i) ps)" for d' a' j
      using that ok(7) by (fastforce simp: in_aim split: if_splits)
  qed
qed

lemma revisions_ok_rejects:
  assumes "(d, a, Some c) \<in> set ps" "revisions_ok (ps, rs)"
  shows "revisions_ok (aim d (a, None) ps, mark c ''rejected'' rs)"
proof -
  note ok = revisions_okD [OF assms(2)]
  obtain n where cand: "(c, d, n, ''candidate'') \<in> set rs" using ok(7) [OF assms(1)] by blast
  have active: "(c, d', m, ''active'') \<notin> set rs" for d' m using same_standing [OF ok(2) cand] by fastforce
  show ?thesis
  proof (rule revisions_okI)
    fix d' a' i assume p: "(d', a', Some i) \<in> set (aim d (a, None) ps)"
    then have "d' \<noteq> d" "(d', a', Some i) \<in> set ps" by (auto simp: in_aim split: if_splits)
    then show "\<exists>n. (i, d', n, ''candidate'') \<in> set (mark c ''rejected'' rs)"
      using ok(7) same_standing [OF ok(2) cand] by (fastforce simp: in_mark)
  next
    fix d' a' c' assume "(d', a', c') \<in> set (aim d (a, None) ps)"
    then obtain c'' where "(d', a', c'') \<in> set ps" using assms(1) by (auto simp: in_aim split: if_splits)
    then show "\<exists>n. (a', d', n, ''active'') \<in> set (mark c ''rejected'' rs)" using ok(5) active by (fastforce simp: in_mark)
  next
    fix d' a' c' i m assume "(d', a', c') \<in> set (aim d (a, None) ps)" "(i, d', m, ''active'') \<in> set (mark c ''rejected'' rs)"
    then show "i = a'" using ok(6) assms(1) by (auto simp: in_aim in_mark split: if_splits)
  qed (use ok(1-4) in \<open>auto simp: in_mark split: if_splits\<close>)
qed

lemma revisions_ok_switches:
  assumes "(d, a, x) \<in> set ps" "(i, d, n, s) \<in> set rs" "i \<noteq> a" "s = ''candidate'' \<longrightarrow> x = Some i" "revisions_ok (ps, rs)"
  shows "revisions_ok (aim d (i, None) ps, mark i ''active'' (mark a ''superseded'' rs))"
proof -
  note ok = revisions_okD [OF assms(5)]
  obtain m where active: "(a, d, m, ''active'') \<in> set rs" using ok(5) [OF assms(1)] by blast
  show ?thesis
  proof (rule revisions_okI)
    fix d' a' i' assume p: "(d', a', Some i') \<in> set (aim d (i, None) ps)"
    then have p': "d' \<noteq> d" "(d', a', Some i') \<in> set ps" by (auto simp: in_aim split: if_splits)
    obtain k where "(i', d', k, ''candidate'') \<in> set rs" using ok(7) [OF p'(2)] by blast
    moreover have "i' \<noteq> i" "i' \<noteq> a" using same_standing [OF ok(2)] calculation assms(2) active p'(1) by fastforce+
    ultimately show "\<exists>n. (i', d', n, ''candidate'') \<in> set (mark i ''active'' (mark a ''superseded'' rs))" by (auto simp: in_mark)
  next
    fix d' a' c' assume p: "(d', a', c') \<in> set (aim d (i, None) ps)"
    show "\<exists>n. (a', d', n, ''active'') \<in> set (mark i ''active'' (mark a ''superseded'' rs))"
    proof (cases "d' = d")
      case True
      with p assms(2,3) show ?thesis by (auto simp: in_aim in_mark)
    next
      case False
      then obtain k where k: "(a', d', k, ''active'') \<in> set rs" using p ok(5) by (fastforce simp: in_aim)
      then have "a' \<noteq> a" "a' \<noteq> i" using same_standing [OF ok(2)] assms(2) active False by fastforce+
      with k show ?thesis by (auto simp: in_mark)
    qed
  next
    fix d' a' c' i' k assume p: "(d', a', c') \<in> set (aim d (i, None) ps)" and r: "(i', d', k, ''active'') \<in> set (mark i ''active'' (mark a ''superseded'' rs))"
    show "i' = a'"
    proof (cases "d' = d")
      case True
      then show ?thesis using p r ok(6) [OF assms(1)] by (auto simp: in_aim in_mark split: if_splits)
    next
      case False
      then have "(d', a', c') \<in> set ps" using p by (simp add: in_aim)
      moreover have "i' \<noteq> i" using r assms(2) same_standing [OF ok(2)] False by (fastforce simp: in_mark split: if_splits)
      ultimately show ?thesis using r ok(6) by (auto simp: in_mark split: if_splits)
    qed
  qed (use ok(1-4) in \<open>auto simp: in_mark split: if_splits\<close>)
qed

lemma revisions_ok_move:
  assumes "revision_move v v'" "revisions_ok v"
  shows "revisions_ok v'"
  using assms
  by (induction rule: revision_move.induct)
    (blast intro: revisions_ok_created revisions_ok_proposed revisions_ok_rejects revisions_ok_switches)+

section \<open>The operations refine the machine\<close>

abbreviation pointers :: "rollout_db \<Rightarrow> pointer list" where "pointers db \<equiv> fst (revision_view db)"
abbreviation standings :: "rollout_db \<Rightarrow> standing list" where "standings db \<equiv> snd (revision_view db)"

lemma revision_view_other [simp]:
  "revision_view (db\<lparr>evaluations := es\<rparr>) = revision_view db" "revision_view (db\<lparr>guard_policies := gs\<rparr>) = revision_view db"
  "revision_view (db\<lparr>monitors := ms\<rparr>) = revision_view db" "revision_view (db\<lparr>deployment_targets := ts\<rparr>) = revision_view db"
  "revision_view (db\<lparr>revision_events := vs\<rparr>) = revision_view db" "revision_view (db\<lparr>replicas := xs\<rparr>) = revision_view db"
  "revision_view (db\<lparr>scaling_policies := ys\<rparr>) = revision_view db" "revision_view (db\<lparr>autoscaling_states := zs\<rparr>) = revision_view db"
  by (simp_all add: revision_view_def)

lemma view_set_deployment:
  assumes "\<And>x. x \<in> set (deployments db) \<Longrightarrow> dr_id x = d \<Longrightarrow> pointer_of (f x) = (d, p)"
  shows "revision_view (set_deployment d f db) = (aim d p (pointers db), standings db)"
  using assms by (auto simp: revision_view_def set_deployment_def aim_def upd_where_def pointer_of_def)

lemma view_set_deployment_same:
  assumes "\<And>x. pointer_of (f x) = pointer_of x"
  shows "revision_view (set_deployment d f db) = revision_view db"
  using assms by (simp add: revision_view_def set_deployment_def upd_where_def)

lemma view_set_status:
  assumes "\<And>x. standing_of (f x) = (rv_id x, rv_deployment_id x, rv_number x, s)"
  shows "revision_view (set_status i f db) = (pointers db, mark i s (standings db))"
  using assms by (simp add: revision_view_def set_status_def mark_def upd_where_def standing_of_def)

lemma find_in: "find P xs = Some r \<Longrightarrow> r \<in> set xs \<and> P r"
  by (auto simp: find_Some_iff)

lemma locked_deployment_Inr:
  "locked_deployment db tenant name = Inr d \<Longrightarrow> d \<in> set (deployments db) \<and> dr_tenant_id d = tenant \<and> dr_name d = name"
  by (auto simp: locked_deployment_def live_deployment_def find_Some_iff split: option.splits)

lemma pointer_in_view: "d \<in> set (deployments db) \<Longrightarrow> (dr_id d, dr_active_revision_id d, dr_candidate_revision_id d) \<in> set (pointers db)"
  by (auto simp: revision_view_def pointer_of_def)

lemma standing_in_view: "r \<in> set (revisions db) \<Longrightarrow> (rv_id r, rv_deployment_id r, rv_number r, rv_status r) \<in> set (standings db)"
  by (auto simp: revision_view_def standing_of_def)

lemma revision_of_Some: "revision_of db d i = Some r \<Longrightarrow> r \<in> set (revisions db) \<and> rv_id r = i \<and> rv_deployment_id r = d"
  by (auto simp: revision_of_def find_Some_iff)

lemma insertRevisionEvent_view: "insertRevisionEvent e t d k p db = Inr db' \<Longrightarrow> revision_view db' = revision_view db"
  by (auto simp: insertRevisionEvent_def bind_err_Inr)

lemma same_deployment:
  assumes "revisions_ok (revision_view db)" "d \<in> set (deployments db)" "x \<in> set (deployments db)" "dr_id x = dr_id d"
  shows "dr_active_revision_id x = dr_active_revision_id d" "dr_candidate_revision_id x = dr_candidate_revision_id d"
  using same_pointer [OF revisions_okD(1) [of "pointers db" "standings db"]] pointer_in_view [OF assms(2)] pointer_in_view [OF assms(3)] assms(1,4) by fastforce+

lemma deployments_set_status [simp]: "deployments (set_status c f db) = deployments db"
  by (simp add: set_status_def)

lemma only_candidate_all:
  assumes "\<And>r. r \<in> set (revisions db) \<Longrightarrow> rv_id r = c \<Longrightarrow> rv_status r = ''candidate''"
  shows "set_status c (only_candidate f) db = set_status c f db"
  using assms by (auto simp: set_status_def upd_where_def only_candidate_def)

lemma candidate_row_status:
  assumes "revisions_ok (revision_view db)" "(d, a, Some c) \<in> set (pointers db)" "r \<in> set (revisions db)" "rv_id r = c"
  shows "rv_status r = ''candidate'' \<and> rv_deployment_id r = d"
proof -
  have ok: "revisions_ok (pointers db, standings db)" using assms(1) by simp
  obtain n where "(c, d, n, ''candidate'') \<in> set (standings db)" using revisions_okD(7) [OF ok assms(2)] by blast
  moreover have "(c, rv_deployment_id r, rv_number r, rv_status r) \<in> set (standings db)" using standing_in_view [OF assms(3)] assms(4) by simp
  ultimately show ?thesis using same_standing [OF revisions_okD(2) [OF ok]] by blast
qed

lemma active_not_candidate:
  assumes "revisions_ok (revision_view db)" "(d, a, Some c) \<in> set (pointers db)"
  shows "c \<noteq> a"
proof -
  have ok: "revisions_ok (pointers db, standings db)" using assms(1) by simp
  obtain n m where "(c, d, n, ''candidate'') \<in> set (standings db)" "(a, d, m, ''active'') \<in> set (standings db)"
    using revisions_okD(5,7) [OF ok assms(2)] by blast
  then have "c = a \<Longrightarrow> (d, n, ''candidate'') = (d, m, ''active'')" using same_standing [OF revisions_okD(2) [OF ok]] by blast
  then show ?thesis by auto
qed

text \<open>Switching a deployment: the old active revision is superseded, the new one activated, and the pointers follow.\<close>

lemma revision_of_None: "revision_of db d i = None \<longleftrightarrow> (i, d) \<notin> set (map (\<lambda>r. (rv_id r, rv_deployment_id r)) (revisions db))"
  by (auto simp: revision_of_def find_None_iff)

lemma revision_of_set_status:
  assumes "\<And>x. rv_id (f x) = rv_id x \<and> rv_deployment_id (f x) = rv_deployment_id x"
  shows "revision_of (set_status j f db) d i = None \<longleftrightarrow> revision_of db d i = None"
proof -
  have "map (\<lambda>r. (rv_id r, rv_deployment_id r)) (revisions (set_status j f db)) = map (\<lambda>r. (rv_id r, rv_deployment_id r)) (revisions db)"
    using assms by (simp add: set_status_def map_upd_where)
  then show ?thesis by (simp only: revision_of_None)
qed

lemma switch_view:
  assumes upd: "updateDeploymentFromRevision env d i stamp (set_status i g (set_status a (superseded stamp) db)) = Inr db1"
    and there: "revision_of db d i \<noteq> None"
    and g: "\<And>x. standing_of (g x) = (rv_id x, rv_deployment_id x, rv_number x, ''active'')"
  shows "revision_view db1 = (aim d (i, None) (pointers db), mark i ''active'' (mark a ''superseded'' (standings db)))"
proof -
  let ?db = "set_status i g (set_status a (superseded stamp) db)"
  have "revision_of ?db d i \<noteq> None"
    using there g by (simp add: revision_of_set_status superseded_def standing_of_def)
  then obtain r where r: "revision_of ?db d i = Some r" by blast
  then obtain model where "db1 = set_deployment d (from_spec (en_columns env (rv_spec_json r)) model i stamp) ?db"
    using upd by (cases "co_model (en_columns env (rv_spec_json r))") (auto simp: updateDeploymentFromRevision_def)
  moreover have "revision_view (set_status a (superseded stamp) db) = (pointers db, mark a ''superseded'' (standings db))"
    by (rule view_set_status) (simp add: standing_of_def superseded_def)
  ultimately show ?thesis
    using view_set_status [of g "''active''" i "set_status a (superseded stamp) db", OF g]
    by (simp add: view_set_deployment [of _ _ _ "(i, None)"] from_spec_def pointer_of_def)
qed

lemma activated_standing: "standing_of (activated stamp x) = (rv_id x, rv_deployment_id x, rv_number x, ''active'')"
  "standing_of ((activated stamp x)\<lparr>rv_reason := because\<rparr>) = (rv_id x, rv_deployment_id x, rv_number x, ''active'')"
  by (simp_all add: standing_of_def activated_def)

text \<open>Promoting the current candidate is a switch.\<close>

lemma promote_view:
  assumes ok: "revisions_ok (revision_view db)" and d: "d \<in> set (deployments db)" and c: "dr_candidate_revision_id d = Some c"
    and upd: "updateDeploymentFromRevision env (dr_id d) c stamp
      (set_status c (only_candidate (activated stamp)) (set_status (dr_active_revision_id d) (superseded stamp) db)) = Inr db1"
  shows "revision_view db1 = (aim (dr_id d) (c, None) (pointers db), mark c ''active'' (mark (dr_active_revision_id d) ''superseded'' (standings db)))"
    and "revision_move (revision_view db) (revision_view db1)"
proof -
  have p: "(dr_id d, dr_active_revision_id d, Some c) \<in> set (pointers db)" using pointer_in_view [OF d] c by simp
  have ne: "c \<noteq> dr_active_revision_id d" using active_not_candidate [OF ok p] .
  have "rv_status r = ''candidate''" if "r \<in> set (revisions (set_status (dr_active_revision_id d) (superseded stamp) db))" "rv_id r = c" for r
    using that ne candidate_row_status [OF ok p] by (auto simp: set_status_def set_upd_where superseded_def split: if_splits)
  then have "updateDeploymentFromRevision env (dr_id d) c stamp (set_status c (activated stamp) (set_status (dr_active_revision_id d) (superseded stamp) db)) = Inr db1"
    using upd by (simp add: only_candidate_all)
  moreover obtain n where n: "(c, dr_id d, n, ''candidate'') \<in> set (standings db)"
    using revisions_okD(7) [of "pointers db" "standings db"] ok p by fastforce
  moreover have "revision_of db (dr_id d) c \<noteq> None"
    using n by (auto simp: revision_of_def find_None_iff revision_view_def standing_of_def)
  ultimately show v: "revision_view db1 = (aim (dr_id d) (c, None) (pointers db), mark c ''active'' (mark (dr_active_revision_id d) ''superseded'' (standings db)))"
    using switch_view activated_standing(1) by blast
  show "revision_move (revision_view db) (revision_view db1)"
    using revision_move.switches [OF p n ne] v by (metis prod.collapse)
qed


lemma locked_commit:
  assumes "commit_tx db (bind_err (locked_deployment db tenant name) F) = (res, db')"
  obtains "db' = db" | d x where "d \<in> set (deployments db)" "locked_deployment db tenant name = Inr d" "F d = Inr (x, db')" "res = Inr x"
  using assms locked_deployment_Inr by (cases res) (auto simp: commit_tx_Inr commit_tx_Inl bind_err_Inr)

lemma transition_locked_refines:
  assumes ok: "revisions_ok (revision_view db)" and d: "d \<in> set (deployments db)"
    and body: "transition_locked env stamp ev db c status because d = Inr (x, db')"
  shows "revision_move (revision_view db) (revision_view db')"
proof (cases "dr_candidate_revision_id d = Some c")
  case False
  then show ?thesis
    using body by (auto simp: transition_locked_def revision_move.stays split: option.splits if_splits)
next
  case True
  have p: "(dr_id d, dr_active_revision_id d, Some c) \<in> set (pointers db)" using pointer_in_view [OF d] True by simp
  show ?thesis
  proof (cases "status = ''rejected''")
    case rejected: True
    let ?reject = "\<lambda>r. r\<lparr>rv_status := ''rejected'', rv_reason := because, rv_completed_at := Some stamp\<rparr>"
    have "set_status c (only_candidate ?reject) db = set_status c ?reject db"
      using only_candidate_all candidate_row_status [OF ok p] by blast
    then have "revision_view db' = revision_view (set_deployment (dr_id d) (\<lambda>r. r\<lparr>dr_candidate_revision_id := None, dr_updated_at := stamp\<rparr>) (set_status c ?reject db))"
      using body True rejected by (auto simp: transition_locked_def bind_err_Inr dest!: insertRevisionEvent_view)
    also have "\<dots> = (aim (dr_id d) (dr_active_revision_id d, None) (pointers (set_status c ?reject db)), standings (set_status c ?reject db))"
      by (rule view_set_deployment) (use same_deployment [OF ok d] in \<open>simp add: pointer_of_def\<close>)
    also have "\<dots> = (aim (dr_id d) (dr_active_revision_id d, None) (pointers db), mark c ''rejected'' (standings db))"
      using view_set_status [of ?reject "''rejected''" c db] by (simp add: standing_of_def)
    finally have "revision_view db' = (aim (dr_id d) (dr_active_revision_id d, None) (pointers db), mark c ''rejected'' (standings db))" .
    then show ?thesis
      using revision_move.rejects [OF p] by (metis prod.collapse)
  next
    case False
    then obtain db1 where "updateDeploymentFromRevision env (dr_id d) c stamp
        (set_status c (only_candidate (activated stamp)) (set_status (dr_active_revision_id d) (superseded stamp) db)) = Inr db1"
      "revision_view db' = revision_view db1"
      using body True by (auto simp: transition_locked_def bind_err_Inr insertRevisionEvent_view)
    then show ?thesis using promote_view(2) [OF ok d True] by simp
  qed
qed

lemma rollback_locked_refines:
  assumes ok: "revisions_ok (revision_view db)" and d: "d \<in> set (deployments db)"
    and body: "rollback_locked env stamp ev db i because d = Inr (x, db')"
  shows "revision_move (revision_view db) (revision_view db')"
proof (cases "i = dr_active_revision_id d")
  case True
  then show ?thesis using body by (auto simp: rollback_locked_def revision_move.stays split: option.splits)
next
  case False
  obtain r db1 where r: "revision_of db (dr_id d) i = Some r" "rv_status r \<noteq> ''candidate''"
    and upd: "updateDeploymentFromRevision env (dr_id d) i stamp
      (set_status i (\<lambda>r. (activated stamp r)\<lparr>rv_reason := because\<rparr>) (set_status (dr_active_revision_id d) (superseded stamp) db)) = Inr db1"
    and db': "revision_view db' = revision_view db1"
    using body False by (auto simp: rollback_locked_def bind_err_Inr split: option.splits dest!: insertRevisionEvent_view)
  have v: "revision_view db1 = (aim (dr_id d) (i, None) (pointers db), mark i ''active'' (mark (dr_active_revision_id d) ''superseded'' (standings db)))"
    by (rule switch_view [OF upd]) (simp_all add: r activated_standing)
  have "(i, dr_id d, rv_number r, rv_status r) \<in> set (standings db)"
    using revision_of_Some [OF r(1)] standing_in_view [of r db] by simp
  then show ?thesis
    using revision_move.switches [OF pointer_in_view [OF d]] False r(2) v db' by (metis prod.collapse)
qed

lemma restore_locked_refines:
  assumes ok: "revisions_ok (revision_view db)" and d: "d \<in> set (deployments db)"
    and body: "restore_locked env stamp ev db tenant promoted i because names d = Inr (x, db')"
  shows "revision_move (revision_view db) (revision_view db')"
proof (cases "dr_active_revision_id d = i")
  case True
  then show ?thesis using body by (auto simp: restore_locked_def revision_move.stays)
next
  case False
  obtain r db1 where r: "r \<in> set (revisions db)" "rv_id r = i" "rv_deployment_id r = dr_id d" "rv_status r = ''superseded''"
    and promoted: "dr_active_revision_id d = promoted"
    and upd: "updateDeploymentFromRevision env (dr_id d) i stamp
      (set_status i (\<lambda>r. (activated stamp r)\<lparr>rv_reason := because\<rparr>) (set_status promoted (superseded stamp) db)) = Inr db1"
    and db': "revision_view db' = revision_view db1"
    using body False
    by (auto simp: restore_locked_def bind_err_Inr relink_def Let_def split: option.splits dest!: insertRevisionEvent_view find_in)
  have "revision_of db (dr_id d) i \<noteq> None" using r by (auto simp: revision_of_None)
  then have v: "revision_view db1 = (aim (dr_id d) (i, None) (pointers db), mark i ''active'' (mark promoted ''superseded'' (standings db)))"
    by (intro switch_view [OF upd]) (simp_all add: activated_standing)
  have "(i, dr_id d, rv_number r, ''superseded'') \<in> set (standings db)" using standing_in_view [OF r(1)] r by simp
  from revision_move.switches [OF pointer_in_view [OF d] this] show ?thesis
    using False promoted v db' by simp
qed

lemma promote_locked_refines:
  assumes ok: "revisions_ok (revision_view db)" and d: "d \<in> set (deployments db)"
    and body: "promote_locked env stamp ev db tenant c names d = Inr (x, db')"
  shows "revision_move (revision_view db) (revision_view db')"
proof (cases "dr_active_revision_id d = c \<and> dr_candidate_revision_id d = None")
  case True
  then show ?thesis using body by (auto simp: promote_locked_def revision_move.stays)
next
  case False
  obtain db1 where c: "dr_candidate_revision_id d = Some c"
    and upd: "updateDeploymentFromRevision env (dr_id d) c stamp
      (set_status c (only_candidate (activated stamp)) (set_status (dr_active_revision_id d) (superseded stamp) db)) = Inr db1"
    and db': "revision_view db' = revision_view db1"
    using body False
    by (auto simp: promote_locked_def bind_err_Inr relink_def promote_tables_def split: option.splits dest!: insertRevisionEvent_view)
       (simp add: view_set_deployment_same pointer_of_def)
  then show ?thesis using promote_view(2) [OF ok d c upd] by simp
qed

lemma next_number_above: "r \<in> set (revisions db) \<Longrightarrow> rv_deployment_id r = d \<Longrightarrow> rv_number r < next_number db d"
proof -
  have "x \<in> set xs \<Longrightarrow> x \<le> foldr max xs (0::int)" for x xs by (induction xs) auto
  then show "r \<in> set (revisions db) \<Longrightarrow> rv_deployment_id r = d \<Longrightarrow> rv_number r < next_number db d"
    by (force simp: next_number_def)
qed

lemma propose_locked_refines:
  assumes ok: "revisions_ok (revision_view db)" and d: "d \<in> set (deployments db)"
    and body: "propose_locked stamp i ev db stored operation d = Inr (x, db')"
  shows "revision_move (revision_view db) (revision_view db')"
proof -
  define row where "row = \<lparr>rv_id = i, rv_deployment_id = dr_id d, rv_number = next_number db (dr_id d), rv_status = ''candidate'', rv_spec_json = stored,
            rv_source_revision_id = Some (dr_active_revision_id d), rv_reason = '''', rv_created_at = stamp,
            rv_activated_at = None, rv_completed_at = None, rv_created_by_operation_id = sql_null operation\<rparr>"
  have row: "standing_of row = (i, dr_id d, next_number db (dr_id d), ''candidate'')" by (simp add: row_def standing_of_def)
  have none: "dr_candidate_revision_id d = None"
    and fresh: "\<forall>r \<in> set (revisions db). rv_id r \<noteq> i"
    and db': "revision_view db' = revision_view (set_deployment (dr_id d) (\<lambda>r. r\<lparr>dr_candidate_revision_id := Some i, dr_updated_at := stamp\<rparr>) (db\<lparr>revisions := revisions db @ [row]\<rparr>))"
    using body by (auto simp: propose_locked_def Let_def bind_err_Inr insert_unless_def revision_taken_def row_def split: if_splits dest!: insertRevisionEvent_view)
  have "revision_view db' = (aim (dr_id d) (dr_active_revision_id d, Some i) (pointers db), standings db @ [(i, dr_id d, next_number db (dr_id d), ''candidate'')])"
    unfolding db' by (subst view_set_deployment [of _ _ _ "(dr_active_revision_id d, Some i)"])
      (use same_deployment [OF ok d] row in \<open>auto simp: pointer_of_def revision_view_def\<close>)
  moreover have "i \<notin> fst ` set (standings db)" using fresh by (auto simp: revision_view_def standing_of_def)
  moreover have "\<forall>(j, d', m, s) \<in> set (standings db). d' = dr_id d \<longrightarrow> m < next_number db (dr_id d)"
    using next_number_above by (auto simp: revision_view_def standing_of_def)
  moreover have "(dr_id d, dr_active_revision_id d, None) \<in> set (pointers db)" using pointer_in_view [OF d] none by simp
  ultimately show ?thesis using revision_move.proposed by (metis prod.collapse)
qed

section \<open>Runs\<close>

text \<open>Creating a deployment fires the trigger of migration 009, which adds its first revision.\<close>

definition create_deployment :: "gotime \<Rightarrow> string \<Rightarrow> dep_row \<Rightarrow> rollout_db \<Rightarrow> store_error + rollout_db" where
  "create_deployment stamp specJSON d db =
     (let first = dr_id d @ ''-rev-1'' in
      bind_err (insert_unless (\<lambda>x. dr_id x = dr_id d) (d\<lparr>dr_active_revision_id := first, dr_candidate_revision_id := None\<rparr>) (deployments db)) (\<lambda>ds.
      bind_err (insert_unless (revision_taken first (dr_id d) 1 None)
        \<lparr>rv_id = first, rv_deployment_id = dr_id d, rv_number = 1, rv_status = ''active'', rv_spec_json = specJSON, rv_source_revision_id = None, rv_reason = '''',
          rv_created_at = stamp, rv_activated_at = Some stamp, rv_completed_at = None, rv_created_by_operation_id = None\<rparr> (revisions db)) (\<lambda>rs.
      Inr (db\<lparr>deployments := ds, revisions := rs\<rparr>))))"

text \<open>
  One step of the system: an operation of this component with any arguments, or any change that leaves
  the pointers and the standing of the revisions alone (targets, replicas and settings that other
  components write, and an evaluation whose reads happened earlier).
\<close>

inductive rollout_step :: "rollout_env \<Rightarrow> rollout_db \<Rightarrow> rollout_db \<Rightarrow> bool" for env where
  creating: "create_deployment t js d db = Inr db' \<Longrightarrow> rollout_step env db db'"
| proposing: "EnsureCandidateRevision env t i e db tn nm js op = (res, db') \<Longrightarrow> rollout_step env db db'"
| promoting: "PromoteCandidateRevision env t e db tn nm c = (res', db') \<Longrightarrow> rollout_step env db db'"
| rejecting: "RejectCandidateRevision env t e db tn nm c why = (res', db') \<Longrightarrow> rollout_step env db db'"
| returning: "RollbackRevision env t e db tn nm i why = (res', db') \<Longrightarrow> rollout_step env db db'"
| committing: "PromoteGuardedCandidate env t e db tn nm c names = (res', db') \<Longrightarrow> rollout_step env db db'"
| restoring: "RollbackGuardedPromotion env t e db tn nm p i why names = (res', db') \<Longrightarrow> rollout_step env db db'"
| evaluating: "EvaluateReleaseGuard env t i db tn nm w = (res'', db') \<Longrightarrow> rollout_step env db db'"
| deciding: "SetReleaseGuardPolicy db tn nm p = (pol, db') \<Longrightarrow> rollout_step env db db'"
| watching: "EnsureReleaseGuardMonitor env t i db tn nm p r w = (mon, db') \<Longrightarrow> rollout_step env db db'"
| observing: "EvaluateReleaseGuardMonitor env t i db tn nm p = (res'', db') \<Longrightarrow> rollout_step env db db'"
| finishing: "MarkReleaseGuardMonitorRolledBack t db tn nm p = (res', db') \<Longrightarrow> rollout_step env db db'"
| elsewhere: "revision_view db' = revision_view db \<Longrightarrow> rollout_step env db db'"

definition no_rollouts :: rollout_db where
  "no_rollouts = \<lparr>deployments = [], revisions = [], evaluations = [], guard_policies = [], monitors = [], targets = [], deployment_targets = [],
     replicas = [], scaling_policies = [], autoscaling_states = [], revision_events = []\<rparr>"

definition rollout_reachable :: "rollout_env \<Rightarrow> rollout_db \<Rightarrow> bool" where
  "rollout_reachable env db \<longleftrightarrow> (rollout_step env)\<^sup>*\<^sup>* no_rollouts db"

lemma create_refines:
  assumes "create_deployment t js d db = Inr db'"
  shows "revision_move (revision_view db) (revision_view db')"
proof -
  have "dr_id d \<notin> fst ` set (pointers db)" "dr_id d @ ''-rev-1'' \<notin> fst ` set (standings db)"
    and "revision_view db' = (pointers db @ [(dr_id d, dr_id d @ ''-rev-1'', None)], standings db @ [(dr_id d @ ''-rev-1'', dr_id d, 1, ''active'')])"
    using assms by (auto simp: create_deployment_def Let_def bind_err_Inr insert_unless_def revision_taken_def revision_view_def pointer_of_def standing_of_def split: if_splits)
  then show ?thesis using revision_move.created by (metis prod.collapse)
qed

lemma locked_refines:
  assumes "commit_tx db (bind_err (locked_deployment db tenant name) F) = (res, db')"
    and "\<And>d x. d \<in> set (deployments db) \<Longrightarrow> F d = Inr (x, db') \<Longrightarrow> revision_move (revision_view db) (revision_view db')"
  shows "revision_move (revision_view db) (revision_view db')"
  using assms(1) by (rule locked_commit) (auto intro: assms(2) revision_move.stays)

lemma ensure_refines:
  assumes "EnsureCandidateRevision env t i e db tn nm js op = (res, db')" "revisions_ok (revision_view db)"
  shows "revision_move (revision_view db) (revision_view db')"
proof (cases res)
  case (Inl x)
  then show ?thesis using assms(1) by (simp add: EnsureCandidateRevision_def commit_tx_Inl revision_move.stays)
next
  case (Inr x)
  define found where "found = (if op = '''' then None else find (\<lambda>r. joined_revision db (or_global tn) nm r \<and> rv_created_by_operation_id r = Some op) (revisions db))"
  from Inr obtain spec where body: "(case found of
      Some existing \<Rightarrow> if en_sameJSON env (rv_spec_json existing) (en_marshal env spec) then Inr (existing, db) else Inl (ErrConflict ''operation already created a different revision'')
    | None \<Rightarrow> bind_err (locked_deployment db (or_global tn) nm) (propose_locked t i e db (en_marshal env spec) op)) = Inr (x, db')"
    using assms(1) unfolding Inr EnsureCandidateRevision_def commit_tx_Inr bind_err_Inr Let_def found_def by blast
  show ?thesis
  proof (cases found)
    case None
    then obtain d where "locked_deployment db (or_global tn) nm = Inr d" "propose_locked t i e db (en_marshal env spec) op d = Inr (x, db')"
      using body by (auto simp: bind_err_Inr)
    then show ?thesis using propose_locked_refines [OF assms(2)] locked_deployment_Inr by blast
  next
    case (Some r)
    then have "db' = db" using body by (simp split: if_splits)
    then show ?thesis by (simp add: revision_move.stays)
  qed
qed

lemma evaluation_view: "EvaluateReleaseGuard env t i db tn nm w = (res, db') \<Longrightarrow> revision_view db' = revision_view db"
  unfolding EvaluateReleaseGuard_def
  by (erule commit_txI [where P = "\<lambda>s. revision_view s = revision_view db"])
    (auto simp: bind_err_Inr insert_evaluation_def Let_def case_prod_beta split: option.splits)

lemma monitor_evaluation_view: "EvaluateReleaseGuardMonitor env t i db tn nm p = (res, db') \<Longrightarrow> revision_view db' = revision_view db"
  unfolding EvaluateReleaseGuardMonitor_def
  by (erule commit_txI [where P = "\<lambda>s. revision_view s = revision_view db"])
    (auto simp: bind_err_Inr insert_evaluation_def Let_def case_prod_beta split: option.splits)

lemma rollout_step_refines:
  assumes "rollout_step env db db'" "revisions_ok (revision_view db)"
  shows "revision_move (revision_view db) (revision_view db')"
  using assms(1)
proof cases
  case (creating t js d)
  then show ?thesis by (rule create_refines)
next
  case (proposing t i e tn nm js op res)
  then show ?thesis using ensure_refines assms(2) by blast
next
  case (promoting t e tn nm c res')
  then show ?thesis
    unfolding PromoteCandidateRevision_def transitionRevision_def by (rule locked_refines) (rule transition_locked_refines [OF assms(2)])
next
  case (rejecting t e tn nm c why res')
  then show ?thesis
    unfolding RejectCandidateRevision_def transitionRevision_def by (rule locked_refines) (rule transition_locked_refines [OF assms(2)])
next
  case (returning t e tn nm i why res')
  then show ?thesis
    unfolding RollbackRevision_def by (rule locked_refines) (rule rollback_locked_refines [OF assms(2)])
next
  case (committing t e tn nm c names res')
  then show ?thesis
    unfolding PromoteGuardedCandidate_def by (rule locked_refines) (rule promote_locked_refines [OF assms(2)])
next
  case (restoring t e tn nm p i why names res')
  then show ?thesis
    unfolding RollbackGuardedPromotion_def by (rule locked_refines) (rule restore_locked_refines [OF assms(2)])
next
  case (evaluating t i tn nm w res'')
  then show ?thesis using evaluation_view revision_move.stays by metis
next
  case (deciding tn nm p pol)
  then have "revision_view db' = revision_view db" by (auto simp: SetReleaseGuardPolicy_def Let_def split: if_splits sum.splits)
  then show ?thesis using revision_move.stays by metis
next
  case (watching t i tn nm p r w mon)
  then have "revision_view db' = revision_view db" by (auto simp: EnsureReleaseGuardMonitor_def Let_def split: if_splits sum.splits)
  then show ?thesis using revision_move.stays by metis
next
  case (observing t i tn nm p res'')
  then show ?thesis using monitor_evaluation_view revision_move.stays by metis
next
  case (finishing t tn nm p res')
  then have "revision_view db' = revision_view db" by (auto simp: MarkReleaseGuardMonitorRolledBack_def split: sum.splits)
  then show ?thesis using revision_move.stays by metis
next
  case elsewhere
  then show ?thesis using revision_move.stays by metis
qed

lemma steps_ok:
  assumes "(rollout_step env)\<^sup>*\<^sup>* db db'" "revisions_ok (revision_view db)"
  shows "revisions_ok (revision_view db')"
  using assms by (induction rule: rtranclp_induct) (auto intro: revisions_ok_move rollout_step_refines)

lemma rollout_reachable_ok: "rollout_reachable env db \<Longrightarrow> revisions_ok (revision_view db)"
  unfolding rollout_reachable_def by (erule steps_ok) (simp add: no_rollouts_def revision_view_def revisions_ok_def)

text \<open>C36.
  In every reachable database each deployment has exactly one active revision, which is its own and the one
  it points to, its candidate (if it has one) is a revision of its own in status candidate, and the
  numbers of its revisions are distinct. Every operation of the store, whatever its arguments and whether
  it fails, is a step of the abstract machine: it proposes a candidate for a deployment that has none,
  rejects the current candidate, or switches a deployment to another revision of its own that is not a
  candidate other than its current one.
\<close>

theorem rollout_refines_machine:
  assumes "rollout_reachable env db"
  shows "revisions_ok (revision_view db) \<and> (\<forall>db'. rollout_step env db db' \<longrightarrow> revision_move (revision_view db) (revision_view db'))"
  using assms rollout_reachable_ok rollout_step_refines by blast


section \<open>A candidate pins the revision it was proposed against\<close>

definition retired :: "string \<Rightarrow> revision_state \<Rightarrow> bool" where
  "retired c v \<longleftrightarrow> c \<in> fst ` set (snd v) \<and> (\<forall>d a. (d, a, Some c) \<notin> set (fst v))"

lemma candidate_owner:
  assumes "revisions_ok v" "(d, a, Some c) \<in> set (fst v)" "(d', a', Some c) \<in> set (fst v)"
  shows "d' = d \<and> a' = a"
proof -
  have ok: "revisions_ok (fst v, snd v)" using assms(1) by simp
  obtain n m where "(c, d, n, ''candidate'') \<in> set (snd v)" "(c, d', m, ''candidate'') \<in> set (snd v)"
    using revisions_okD(7) [OF ok assms(2)] revisions_okD(7) [OF ok assms(3)] by blast
  then have "(d, n, ''candidate'') = (d', m, ''candidate'')" using same_standing [OF revisions_okD(2) [OF ok]] by blast
  then have "d' = d" by simp
  moreover have "(a, Some c) = (a', Some c)" using same_pointer [OF revisions_okD(1) [OF ok]] assms(2,3) \<open>d' = d\<close> by blast
  ultimately show ?thesis by simp
qed

lemma candidate_known: "revisions_ok v \<Longrightarrow> (d, a, Some c) \<in> set (fst v) \<Longrightarrow> c \<in> fst ` set (snd v)"
  using revisions_okD(7) [of "fst v" "snd v"] by (metis fst_conv image_eqI prod.collapse)

lemma fst_set_mark [simp]: "fst ` set (mark i s rs) = fst ` set rs"
  by (metis fst_mark(1) list.set_map)

lemma retired_move: "revision_move v v' \<Longrightarrow> retired c v \<Longrightarrow> retired c v'"
  by (induction rule: revision_move.induct) (auto simp: retired_def in_aim split: if_splits)

lemma cleared_pin:
  assumes "revisions_ok (ps, rs)" "(d, a, Some c) \<in> set ps"
  shows "(d', a', Some c) \<notin> set (aim d (p, None) ps)"
  using candidate_owner [OF assms(1), of d a c d' a'] assms(2) by (auto simp: in_aim)

lemma kept_pin:
  assumes "(d, a, Some c) \<in> set ps" "d' \<noteq> d"
  shows "(d, a, Some c) \<in> set (aim d' q ps)"
  using assms by (simp add: in_aim)

lemma move_pins:
  assumes "revision_move v v'" "revisions_ok v" "(d, a, Some c) \<in> set (fst v)"
  shows "(d, a, Some c) \<in> set (fst v') \<or> retired c v'"
proof -
  note known = candidate_known [OF assms(2,3)]
  from assms(1) show ?thesis
  proof cases
    case stays
    then show ?thesis using assms(3) by simp
  next
    case (created d' ps i rs)
    then show ?thesis using assms(3) by simp
  next
    case (proposed d' a' ps i rs n)
    then have "d' = d \<Longrightarrow> (a', None) = (a, Some c)" using same_pointer [OF revisions_okD(1) [of ps rs], of d "(a', None)" "(a, Some c)"] assms(2,3) by simp
    then have "d' \<noteq> d" by auto
    then show ?thesis using proposed assms(3) kept_pin by simp
  next
    case (rejects d' a' c' ps rs)
    show ?thesis
    proof (cases "d' = d")
      case True
      then have "retired c v'" using rejects assms(2,3) known cleared_pin [of ps rs d a c] by (simp add: retired_def)
      then show ?thesis ..
    qed (use rejects assms(3) kept_pin in simp)
  next
    case (switches d' a' x ps i n s rs)
    show ?thesis
    proof (cases "d' = d")
      case True
      then have "retired c v'" using switches assms(2,3) known cleared_pin [of ps rs d a c] by (simp add: retired_def)
      then show ?thesis ..
    qed (use switches assms(3) kept_pin in simp)
  qed
qed

lemma steps_pin:
  assumes "(rollout_step env)\<^sup>*\<^sup>* db db'" "revisions_ok (revision_view db)" "(d, a, Some c) \<in> set (pointers db)"
  shows "(d, a, Some c) \<in> set (pointers db') \<or> retired c (revision_view db')"
  using assms(1)
proof (induction rule: rtranclp_induct)
  case base
  then show ?case using assms(3) by blast
next
  case (step db1 db2)
  have "revision_move (revision_view db1) (revision_view db2)" "revisions_ok (revision_view db1)"
    using step(1,2) steps_ok [OF _ assms(2)] rollout_step_refines by blast+
  then show ?case using step.IH move_pins retired_move by blast
qed

lemma accepted_pins:
  assumes "ReleaseGuardAccepted db tenant name c" "c \<noteq> ''''"
  obtains d e where "d \<in> set (deployments db)" "e \<in> set (evaluations db)" "named_deployment tenant name d" "ev_deployment_id e = dr_id d"
    "ev_candidate_revision_id e = c" "ev_decision e = ''ACCEPT''" "dr_candidate_revision_id d = Some c" "ev_active_revision_id e = dr_active_revision_id d"
proof -
  obtain d e where sel: "first_by (\<lambda>(d, e) (d', e'). ev_created_at e > ev_created_at e')
        (filter (\<lambda>(d, e). named_deployment tenant name d \<and> ev_deployment_id e = dr_id d \<and> ev_candidate_revision_id e = c)
          (List.product (deployments db) (evaluations db))) = Some (d, e)"
    and acc: "ev_decision e = ''ACCEPT''" "coalesce (dr_candidate_revision_id d) = c" "dr_active_revision_id d = ev_active_revision_id e"
    using assms(1) by (auto simp: ReleaseGuardAccepted_def split: option.splits)
  have "(d, e) \<in> set (filter (\<lambda>(d, e). named_deployment tenant name d \<and> ev_deployment_id e = dr_id d \<and> ev_candidate_revision_id e = c)
          (List.product (deployments db) (evaluations db)))"
    using first_by_mem [OF sel] .
  moreover have "dr_candidate_revision_id d = Some c"
    using acc(2) assms(2) by (cases "dr_candidate_revision_id d") (auto simp: coalesce_def)
  ultimately show thesis using that acc by auto
qed

text \<open>C37.
  The rollout handler checks the guard and promotes in two transactions. Whatever other operations run in
  between, a promotion that it reports was either done by somebody else meanwhile, or it replaces the very
  revision the candidate was accepted against: an \<open>ACCEPT\<close> evaluation of this candidate, stored before
  the check, names the revision that is active at the moment of the switch; that revision becomes
  superseded and the candidate active.
\<close>

theorem promoted_candidate_was_accepted:
  assumes "rollout_reachable env db" "(rollout_step env)\<^sup>*\<^sup>* db (meanwhile db)"
    and "decode (op_RequestJSON operation) = Some q"
    and "rollout_transition env decode meanwhile stamp ev ''promote'' operation db = (Inr action, db')"
  shows "\<exists>d \<in> set (deployments (meanwhile db)). named_deployment (rq_TenantID q) (rq_Name q) d \<and>
    (dr_active_revision_id d = rq_CandidateID q \<and> db' = meanwhile db \<or>
     dr_candidate_revision_id d = Some (rq_CandidateID q) \<and>
     (\<exists>e \<in> set (evaluations db). ev_deployment_id e = dr_id d \<and> ev_candidate_revision_id e = rq_CandidateID q \<and>
        ev_decision e = ''ACCEPT'' \<and> ev_active_revision_id e = dr_active_revision_id d) \<and>
     revision_view db' = (aim (dr_id d) (rq_CandidateID q, None) (pointers (meanwhile db)),
        mark (rq_CandidateID q) ''active'' (mark (dr_active_revision_id d) ''superseded'' (standings (meanwhile db)))))"
proof -
  let ?c = "rq_CandidateID q" and ?m = "meanwhile db"
  have run: "?c \<noteq> ''''" "rq_TenantID q \<noteq> ''''" "ReleaseGuardAccepted db (rq_TenantID q) (rq_Name q) ?c"
    "PromoteCandidateRevision env stamp ev ?m (rq_TenantID q) (rq_Name q) ?c = (Inr (), db')"
    using assms(3,4) by (auto simp: rollout_transition_def decodeRollout_def transition_result_def split: if_splits sum.splits prod.splits)
  have okm: "revisions_ok (revision_view ?m)" using steps_ok [OF assms(2) rollout_reachable_ok [OF assms(1)]] .
  obtain d0 e where d0: "d0 \<in> set (deployments db)" "dr_candidate_revision_id d0 = Some ?c"
    and e: "e \<in> set (evaluations db)" "ev_deployment_id e = dr_id d0" "ev_candidate_revision_id e = ?c" "ev_decision e = ''ACCEPT''" "ev_active_revision_id e = dr_active_revision_id d0"
    using accepted_pins [OF run(3,1)] by metis
  have pin: "(dr_id d0, dr_active_revision_id d0, Some ?c) \<in> set (pointers ?m) \<or> retired ?c (revision_view ?m)"
    using steps_pin [OF assms(2) rollout_reachable_ok [OF assms(1)]] pointer_in_view [OF d0(1)] d0(2) by simp
  obtain d where l: "locked_deployment ?m (or_global (rq_TenantID q)) (rq_Name q) = Inr d"
    and body: "transition_locked env stamp ev ?m ?c ''active'' '''' d = Inr ((), db')"
    using run(4) by (auto simp: PromoteCandidateRevision_def transitionRevision_def commit_tx_Inr bind_err_Inr)
  have d: "d \<in> set (deployments ?m)" "named_deployment (rq_TenantID q) (rq_Name q) d"
    using locked_deployment_Inr [OF l] run(2) by (auto simp: or_global_def named_deployment_def)
  show ?thesis
  proof (cases "dr_candidate_revision_id d = Some ?c")
    case False
    then have "dr_active_revision_id d = ?c \<and> db' = ?m"
      using body by (auto simp: transition_locked_def split: option.splits if_splits)
    then show ?thesis using d by blast
  next
    case True
    have p: "(dr_id d, dr_active_revision_id d, Some ?c) \<in> set (pointers ?m)" using pointer_in_view [OF d(1)] True by simp
    then have "(dr_id d0, dr_active_revision_id d0, Some ?c) \<in> set (pointers ?m)" using pin by (auto simp: retired_def)
    then have same: "dr_id d0 = dr_id d" "dr_active_revision_id d0 = dr_active_revision_id d" using candidate_owner [OF okm p] by blast+
    obtain db1 where upd: "updateDeploymentFromRevision env (dr_id d) ?c stamp
        (set_status ?c (only_candidate (activated stamp)) (set_status (dr_active_revision_id d) (superseded stamp) ?m)) = Inr db1"
      and "revision_view db' = revision_view db1"
      using body True by (auto simp: transition_locked_def bind_err_Inr insertRevisionEvent_view)
    then show ?thesis using promote_view(1) [OF okm d(1) True upd] d True e same by auto
  qed
qed


section \<open>Guarded promotion\<close>

lemma first_by_latest:
  assumes "latest_evaluation db d c = Some e"
  shows "e \<in> set (evaluations db)" "ev_deployment_id e = d" "ev_candidate_revision_id e = c"
    "\<And>x. x \<in> set (evaluations db) \<Longrightarrow> ev_deployment_id x = d \<Longrightarrow> ev_candidate_revision_id x = c \<Longrightarrow> ev_created_at x \<le> ev_created_at e"
proof -
  show "e \<in> set (evaluations db)" "ev_deployment_id e = d" "ev_candidate_revision_id e = c"
    using first_by_mem [OF assms [unfolded latest_evaluation_def]] by auto
  show "ev_created_at x \<le> ev_created_at e" if "x \<in> set (evaluations db)" "ev_deployment_id x = d" "ev_candidate_revision_id x = c" for x
    using first_by_min [OF _ _ assms [unfolded latest_evaluation_def], of x] that by force
qed

lemma target_loop_sound:
  "target_loop db tenant model runtime names seen upstream = Inr ids \<Longrightarrow> i \<in> set ids \<Longrightarrow>
     \<exists>t \<in> set (targets db). tr_id t = i \<and> tr_name t \<in> set names \<and> tr_tenant_id t = tenant \<and> tr_runtime t = runtime"
proof (induction names arbitrary: seen upstream ids)
  case (Cons name names)
  show ?case
  proof (cases "name \<in> set seen")
    case True
    then show ?thesis using Cons.prems Cons.IH [of seen upstream ids] by auto
  next
    case False
    then obtain t rest up where t: "t \<in> set (targets db)" "tr_name t = name" "tr_tenant_id t = tenant" "tr_runtime t = runtime"
      and rest: "target_loop db tenant model runtime names (name # seen) up = Inr rest" "ids = tr_id t # rest"
      using Cons.prems(1) by (auto simp: bind_err_Inr Let_def split: option.splits if_splits dest: find_in)
    show ?thesis
    proof (cases "i = tr_id t")
      case True
      then show ?thesis using t by auto
    next
      case False
      then show ?thesis using Cons.IH [OF rest(1)] Cons.prems(2) rest(2) by auto
    qed
  qed
qed simp

lemma promoted_replicas:
  assumes "x \<in> set (upd_where (\<lambda>x. rr_deployment_id x = d \<and> rr_lifecycle_state x \<noteq> ''deleted'') (promote_replica c stamp) rows)"
    "rr_deployment_id x = d" "rr_lifecycle_state x \<noteq> ''deleted''"
  shows "rr_lifecycle_state x = ''active'' \<longleftrightarrow> rr_revision_id x = c"
  using assms(1) by (rule upd_where_cases) (use assms(2,3) in \<open>simp_all add: promote_replica_def\<close>)

lemma promote_lockedE:
  assumes "promote_locked env stamp ev db tenant c names d = Inr (x, db')" "db' \<noteq> db"
  obtains e r spec ids db1 where "dr_candidate_revision_id d = Some c"
    "latest_evaluation db (dr_id d) c = Some e" "ev_decision e = ''ACCEPT''" "ev_active_revision_id e = dr_active_revision_id d"
    "find (\<lambda>r. rv_id r = c \<and> rv_deployment_id r = dr_id d \<and> rv_status r = ''candidate'') (revisions db) = Some r"
    "checked_targets env db tenant [''ready''] (dr_id d) r names = Inr (spec, ids)"
    "updateDeploymentFromRevision env (dr_id d) c stamp
      (set_status c (only_candidate (activated stamp)) (set_status (dr_active_revision_id d) (superseded stamp) db)) = Inr db1"
    "insertRevisionEvent ev stamp (dr_id d) ''revision_promoted'' [(''revision_id'', c), (''previous_revision_id'', dr_active_revision_id d)]
      (promote_tables stamp (dr_id d) c spec (relink (dr_id d) ids (set_deployment (dr_id d) (\<lambda>x. x\<lparr>dr_observed_state := ''pending''\<rparr>) db1))) = Inr db'"
  using assms unfolding promote_locked_def by (simp add: bind_err_Inr split: if_splits option.splits prod.splits) blast

text \<open>C38.
  A guarded promotion that changes the active revision has the latest Release Guard evaluation of the
  candidate behind it, in the same transaction: it accepted the candidate against the revision that is
  replaced. Afterwards the deployment routes exactly to targets of the request that belong to the tenant, run the
  runtime of the candidate and are each backed by a healthy ready replica of the candidate, at least as many as
  its minimum; and of the replicas of the deployment that are not deleted those of the candidate are active, and none of
  another revision is.
\<close>

theorem guarded_promotion_sound:
  assumes "rollout_reachable env db" "PromoteGuardedCandidate env stamp ev db tenant name c names = (Inr (), db')" "db' \<noteq> db"
  shows "\<exists>d \<in> set (deployments db). named_deployment (or_global tenant) name d \<and> dr_candidate_revision_id d = Some c \<and>
    (\<exists>e. latest_evaluation db (dr_id d) c = Some e \<and> ev_decision e = ''ACCEPT'' \<and> ev_active_revision_id e = dr_active_revision_id d) \<and>
    revision_view db' = (aim (dr_id d) (c, None) (pointers db), mark c ''active'' (mark (dr_active_revision_id d) ''superseded'' (standings db))) \<and>
    (\<exists>r spec ids. r \<in> set (revisions db) \<and> rv_id r = c \<and> en_unmarshal env (rv_spec_json r) = Some spec \<and> sp_MinReplicas spec \<le> int (length ids) \<and>
       {t. (dr_id d, t) \<in> set (deployment_targets db')} = set ids \<and>
       (\<forall>i \<in> set ids. backed db [''ready''] (dr_id d) c i \<and>
          (\<exists>t \<in> set (targets db). tr_id t = i \<and> tr_name t \<in> set names \<and> tr_tenant_id t = or_global tenant \<and> tr_runtime t = sp_Runtime spec))) \<and>
    (\<forall>x \<in> set (replicas db'). rr_deployment_id x = dr_id d \<and> rr_lifecycle_state x \<noteq> ''deleted'' \<longrightarrow> (rr_lifecycle_state x = ''active'' \<longleftrightarrow> rr_revision_id x = c))"
proof -
  obtain d where d: "d \<in> set (deployments db)" "named_deployment (or_global tenant) name d"
    and body: "promote_locked env stamp ev db (or_global tenant) c names d = Inr ((), db')"
    using assms(2) by (auto simp: PromoteGuardedCandidate_def commit_tx_Inr bind_err_Inr named_deployment_def dest: locked_deployment_Inr)
  from promote_lockedE [OF body assms(3)] obtain e r spec ids db1 where c: "dr_candidate_revision_id d = Some c"
    and e: "latest_evaluation db (dr_id d) c = Some e" "ev_decision e = ''ACCEPT''" "ev_active_revision_id e = dr_active_revision_id d"
    and found: "find (\<lambda>r. rv_id r = c \<and> rv_deployment_id r = dr_id d \<and> rv_status r = ''candidate'') (revisions db) = Some r"
    and targets: "checked_targets env db (or_global tenant) [''ready''] (dr_id d) r names = Inr (spec, ids)"
    and upd: "updateDeploymentFromRevision env (dr_id d) c stamp
      (set_status c (only_candidate (activated stamp)) (set_status (dr_active_revision_id d) (superseded stamp) db)) = Inr db1"
    and event: "insertRevisionEvent ev stamp (dr_id d) ''revision_promoted'' [(''revision_id'', c), (''previous_revision_id'', dr_active_revision_id d)]
      (promote_tables stamp (dr_id d) c spec (relink (dr_id d) ids (set_deployment (dr_id d) (\<lambda>x. x\<lparr>dr_observed_state := ''pending''\<rparr>) db1))) = Inr db'" .
  have r: "r \<in> set (revisions db)" "rv_id r = c" using find_in [OF found] by auto
  have spec: "en_unmarshal env (rv_spec_json r) = Some spec" "sp_MinReplicas spec \<le> int (length ids)" "\<forall>i \<in> set ids. backed db [''ready''] (dr_id d) c i"
    and loop: "target_loop db (or_global tenant) (sp_Model spec) (sp_Runtime spec) names [] '''' = Inr ids"
    using targets r(2) by (auto simp: checked_targets_def validateTargetSet_def bind_err_Inr list_all_iff split: option.splits)
  have links: "{t. (dr_id d, t) \<in> set (deployment_targets db')} = set ids"
    using event by (auto simp: insertRevisionEvent_def bind_err_Inr promote_tables_def relink_def)
  obtain before where rows: "replicas db' = upd_where (\<lambda>x. rr_deployment_id x = dr_id d \<and> rr_lifecycle_state x \<noteq> ''deleted'') (promote_replica c stamp) before"
    using event by (auto simp: insertRevisionEvent_def bind_err_Inr promote_tables_def)
  have reps: "\<forall>x \<in> set (replicas db'). rr_deployment_id x = dr_id d \<and> rr_lifecycle_state x \<noteq> ''deleted'' \<longrightarrow> (rr_lifecycle_state x = ''active'' \<longleftrightarrow> rr_revision_id x = c)"
    unfolding rows using promoted_replicas [of _ "dr_id d" c stamp] by blast
  have "revision_view db' = revision_view db1"
    using insertRevisionEvent_view [OF event] by (simp add: promote_tables_def relink_def view_set_deployment_same pointer_of_def)
  then have "revision_view db' = (aim (dr_id d) (c, None) (pointers db), mark c ''active'' (mark (dr_active_revision_id d) ''superseded'' (standings db)))"
    using promote_view(1) [OF rollout_reachable_ok [OF assms(1)] d(1) c upd] by simp
  then show ?thesis
    using d c e r spec links reps target_loop_sound [OF loop] by blast
qed

section \<open>Monitors\<close>

lemma guard_decision_cases: "gu_Decision (guard_Evaluate oob rng p a c) \<in> {''ACCEPT'', ''REJECT'', ''WAIT''}"
  by (simp add: guard_Evaluate_def Let_def)

lemma deadline_verdict_decides:
  assumes "deadline \<le> now"
  shows "gu_Decision (deadline_verdict now deadline (guard_Evaluate oob rng p a c)) \<in> {''ACCEPT'', ''REJECT''}"
  using assms guard_decision_cases [of oob rng p a c] by (auto simp: deadline_verdict_def)

lemma monitor_reads_policies [simp]:
  "ReleaseGuardMonitor (db\<lparr>guard_policies := gs\<rparr>) tn nm c = ReleaseGuardMonitor db tn nm c"
  "RevisionMetrics env now (db\<lparr>guard_policies := gs\<rparr>) c w = RevisionMetrics env now db c w"
  "RevisionMetricsSince env now (db\<lparr>guard_policies := gs\<rparr>) c t = RevisionMetricsSince env now db c t"
  by (simp_all add: ReleaseGuardMonitor_def RevisionMetrics_def RevisionMetricsSince_def measured_def ready_replicas_def)

lemma fst_commit_tx: "fst (commit_tx s body) = map_sum (\<lambda>e. e) fst body"
  by (cases body) (auto simp: commit_tx_def split: prod.splits)

lemma map_sum_bind: "map_sum (\<lambda>e. e) f (bind_err m F) = bind_err m (\<lambda>x. map_sum (\<lambda>e. e) f (F x))"
  by (cases m) simp_all

lemma monitor_ignores_policies:
  "fst (EvaluateReleaseGuardMonitor env now i (db\<lparr>guard_policies := gs\<rparr>) tn nm c) = fst (EvaluateReleaseGuardMonitor env now i db tn nm c)"
  unfolding EvaluateReleaseGuardMonitor_def fst_commit_tx map_sum_bind insert_evaluation_def monitor_reads_policies
  by (intro arg_cong2 [where f = bind_err] refl ext) (auto simp: map_sum_bind Let_def case_prod_beta bind_err_def split: option.split sum.split)

lemma guard_policy_db: "\<exists>gs. snd (SetReleaseGuardPolicy db tn nm q) = db\<lparr>guard_policies := gs\<rparr>"
  by (auto simp: SetReleaseGuardPolicy_def Let_def intro: exI [of _ "guard_policies db"] split: sum.split)

text \<open>C39.
  A monitor decides by its deadline. The first evaluation at or after the deadline that can read its evidence succeeds, accepts or
  rejects, and stores its decision in the monitor; it judges by the policy
  that was in force when the monitor was made, and editing the policy of the deployment changes neither the outcome
  nor the stored evaluation.
\<close>

theorem monitor_decides_by_deadline:
  assumes m: "ReleaseGuardMonitor db tenant name promoted = Inr m" and p: "en_decode_policy env (mo_policy_json m) = Some p"
    and w: "\<not> window_invalid (mo_deadline m - mo_created_at m)" and t: "\<not> is_zero_time (mo_created_at m)" "mo_deadline m \<le> now"
    and b: "en_benchmarks env tenant name = Inr rows" and fresh: "\<forall>e \<in> set (evaluations db). ev_id e \<noteq> i"
  shows "\<exists>e db'. EvaluateReleaseGuardMonitor env now i db tenant name promoted = (Inr e, db') \<and> e \<in> set (evaluations db') \<and>
    ev_decision e \<in> {''ACCEPT'', ''REJECT''} \<and> ev_policy e = p \<and>
    (\<forall>x \<in> set (monitors db'). mo_id x = mo_id m \<longrightarrow> mo_evaluation_id x = Some i \<and> mo_status x = (if ev_decision e = ''ACCEPT'' then ''accepted'' else ''failed'')) \<and>
    (\<forall>tn nm q. fst (EvaluateReleaseGuardMonitor env now i (snd (SetReleaseGuardPolicy db tn nm q)) tenant name promoted) = Inr e)"
proof -
  have window: "0 < mo_deadline m - mo_created_at m" using w by (simp add: window_invalid_def second_def)
  then have past: "mo_created_at m \<le> now" using t(2) by simp
  obtain e db' where run: "EvaluateReleaseGuardMonitor env now i db tenant name promoted = (Inr e, db')"
    and decided: "ev_decision e \<in> {''ACCEPT'', ''REJECT''}" "ev_policy e = p" "e \<in> set (evaluations db')"
    and rows: "monitors db' = upd_where (\<lambda>x. mo_id x = mo_id m)
      (\<lambda>x. x\<lparr>mo_status := monitor_status (ev_decision e), mo_evaluation_id := Some i, mo_reason := ev_reasons e, mo_updated_at := now\<rparr>) (monitors db)"
    using window past t(1) fresh deadline_verdict_decides [OF t(2)]
    by (auto simp: EvaluateReleaseGuardMonitor_def m p w b RevisionMetrics_def RevisionMetricsSince_def insert_evaluation_def insert_unless_def commit_tx_def Let_def case_prod_beta)
  have "fst (EvaluateReleaseGuardMonitor env now i (snd (SetReleaseGuardPolicy db tn nm q)) tenant name promoted) = Inr e" for tn nm q
  proof -
    obtain gs where "snd (SetReleaseGuardPolicy db tn nm q) = db\<lparr>guard_policies := gs\<rparr>" using guard_policy_db by blast
    then show ?thesis by (simp add: monitor_ignores_policies run)
  qed
  moreover have "\<forall>x \<in> set (monitors db'). mo_id x = mo_id m \<longrightarrow> mo_evaluation_id x = Some i \<and> mo_status x = (if ev_decision e = ''ACCEPT'' then ''accepted'' else ''failed'')"
    unfolding rows using decided(1) by (auto simp: set_upd_where monitor_status_def)
  ultimately show ?thesis using run decided by blast
qed


section \<open>A stranded candidate\<close>

definition stranded :: "string \<Rightarrow> string \<Rightarrow> revision_state \<Rightarrow> bool" where
  "stranded d c v \<longleftrightarrow> retired c v \<and> (\<exists>n. (c, d, n, ''candidate'') \<in> set (snd v))"

lemma stranded_move:
  assumes "revision_move v v'" "revisions_ok v" "stranded d c v"
  shows "stranded d c v'"
proof -
  have "retired c v'" using retired_move [OF assms(1)] assms(3) by (simp add: stranded_def)
  moreover obtain n where n: "(c, d, n, ''candidate'') \<in> set (snd v)" using assms(3) by (auto simp: stranded_def)
  from assms(1) have "(c, d, n, ''candidate'') \<in> set (snd v')"
  proof cases
    case (rejects d' a' c' ps rs)
    then show ?thesis using n assms(3) by (auto simp: stranded_def retired_def in_mark)
  next
    case (switches d' a' x ps i m s rs)
    then have ok: "revisions_ok (ps, rs)" using assms(2) by simp
    obtain k where k: "(a', d', k, ''active'') \<in> set rs" using revisions_okD(5) [OF ok] switches by blast
    have "c = a' \<Longrightarrow> (d, n, ''candidate'') = (d', k, ''active'')" using same_standing [OF revisions_okD(2) [OF ok], of a' "(d, n, ''candidate'')"] n k switches by simp
    moreover have "c = i \<Longrightarrow> (d, n, ''candidate'') = (d', m, s)" using same_standing [OF revisions_okD(2) [OF ok], of i "(d', m, s)"] n switches by auto
    ultimately have "c \<noteq> a'" "c \<noteq> i" using switches assms(3) by (auto simp: stranded_def retired_def)
    then show ?thesis using n switches by (simp add: in_mark)
  qed (use n in auto)
  ultimately show ?thesis by (auto simp: stranded_def)
qed

lemma stranded_conflict:
  assumes "revisions_ok (revision_view db)" "stranded d c (revision_view db)" "status = ''active'' \<or> status = ''rejected''"
  shows "\<exists>e. transitionRevision env stamp ev db tenant name c status why = (Inl e, db)"
proof -
  have "\<exists>e. transition_locked env stamp ev db c status why x = Inl e" if x: "x \<in> set (deployments db)" for x
  proof -
    have "dr_candidate_revision_id x \<noteq> Some c" using assms(2) pointer_in_view [OF x] by (auto simp: stranded_def retired_def)
    moreover have "rv_status r = ''candidate''" if "revision_of db (dr_id x) c = Some r" for r
    proof -
      obtain n where "(c, d, n, ''candidate'') \<in> set (standings db)" using assms(2) by (auto simp: stranded_def)
      moreover have "(c, rv_deployment_id r, rv_number r, rv_status r) \<in> set (standings db)" using revision_of_Some [OF that] standing_in_view [of r db] by simp
      ultimately show ?thesis using same_standing [OF revisions_okD(2) [of "pointers db" "standings db"]] assms(1) by (metis prod.collapse prod.inject)
    qed
    ultimately show ?thesis using assms(3) by (auto simp: transition_locked_def split: option.splits)
  qed
  note refused = this
  show ?thesis
  proof (cases "locked_deployment db (or_global tenant) name")
    case (Inr x)
    then obtain e where "transition_locked env stamp ev db c status why x = Inl e" using refused locked_deployment_Inr by blast
    then show ?thesis using Inr by (simp add: transitionRevision_def commit_tx_def)
  qed (simp add: transitionRevision_def commit_tx_def)
qed

lemma stranded_steps:
  assumes "(rollout_step env)\<^sup>*\<^sup>* db db'" "revisions_ok (revision_view db)" "stranded d c (revision_view db)"
  shows "stranded d c (revision_view db')"
  using assms(1)
proof (induction rule: rtranclp_induct)
  case base
  then show ?case using assms(3) .
next
  case (step db1 db2)
  then show ?case using stranded_move rollout_step_refines steps_ok [OF step(1) assms(2)] by blast
qed

lemma rollback_locked_view:
  assumes "rollback_locked env stamp ev db i because d = Inr (x, db')" "db' \<noteq> db"
  shows "revision_view db' = (aim (dr_id d) (i, None) (pointers db), mark i ''active'' (mark (dr_active_revision_id d) ''superseded'' (standings db)))"
    and "\<exists>r \<in> set (revisions db). rv_id r = i \<and> rv_status r \<noteq> ''candidate''"
proof -
  obtain r db1 where r: "revision_of db (dr_id d) i = Some r" "rv_status r \<noteq> ''candidate''"
    and upd: "updateDeploymentFromRevision env (dr_id d) i stamp
      (set_status i (\<lambda>r. (activated stamp r)\<lparr>rv_reason := because\<rparr>) (set_status (dr_active_revision_id d) (superseded stamp) db)) = Inr db1"
    and db': "revision_view db' = revision_view db1"
    using assms by (auto simp: rollback_locked_def bind_err_Inr split: option.splits if_splits dest!: insertRevisionEvent_view)
  show "revision_view db' = (aim (dr_id d) (i, None) (pointers db), mark i ''active'' (mark (dr_active_revision_id d) ''superseded'' (standings db)))"
    unfolding db' by (rule switch_view [OF upd]) (simp_all add: r activated_standing)
  show "\<exists>r \<in> set (revisions db). rv_id r = i \<and> rv_status r \<noteq> ''candidate''" using revision_of_Some [OF r(1)] r(2) by blast
qed

text \<open>
  Rolling a deployment back while it has a candidate clears the pointer to the candidate but leaves its
  revision in status candidate. From then on, whatever happens, it stays there: neither promoting nor
  rejecting it ever succeeds.
\<close>

theorem rollback_strands_candidate:
  assumes "rollout_reachable env db" "d \<in> set (deployments db)" "dr_candidate_revision_id d = Some c"
    and "locked_deployment db (or_global tenant) name = Inr d"
    and "RollbackRevision env stamp ev db tenant name i why = (Inr (), db1)" "db1 \<noteq> db"
    and "(rollout_step env)\<^sup>*\<^sup>* db1 db2"
  shows "(\<exists>n. (c, dr_id d, n, ''candidate'') \<in> set (standings db2)) \<and>
    (\<exists>e. PromoteCandidateRevision env t' ev' db2 tenant' name' c = (Inl e, db2)) \<and>
    (\<exists>e. RejectCandidateRevision env t' ev' db2 tenant' name' c why' = (Inl e, db2))"
proof -
  note ok = rollout_reachable_ok [OF assms(1)]
  have body: "rollback_locked env stamp ev db i why d = Inr ((), db1)"
    using assms(4,5) by (simp add: RollbackRevision_def commit_tx_Inr)
  have p: "(dr_id d, dr_active_revision_id d, Some c) \<in> set (pointers db)" using pointer_in_view [OF assms(2)] assms(3) by simp
  have view: "revision_view db1 = (aim (dr_id d) (i, None) (pointers db), mark i ''active'' (mark (dr_active_revision_id d) ''superseded'' (standings db)))"
    and "i \<noteq> c"
    using rollback_locked_view [OF body assms(6)] candidate_row_status [OF ok p] by auto
  obtain n where n: "(c, dr_id d, n, ''candidate'') \<in> set (standings db)"
    using revisions_okD(7) [of "pointers db" "standings db"] ok p by fastforce
  have "stranded (dr_id d) c (revision_view db1)"
    unfolding view stranded_def retired_def fst_conv snd_conv
    using cleared_pin [of "pointers db" "standings db", OF _ p] ok n active_not_candidate [OF ok p] \<open>i \<noteq> c\<close> candidate_known [OF ok p] by (auto simp: in_mark)
  moreover have ok1: "revisions_ok (revision_view db1)"
    using revisions_ok_move [OF rollback_locked_refines [OF ok assms(2) body] ok] .
  ultimately have s: "stranded (dr_id d) c (revision_view db2)" "revisions_ok (revision_view db2)"
    using stranded_steps [OF assms(7)] steps_ok [OF assms(7)] by blast+
  then show ?thesis
    using stranded_conflict [OF s(2,1)] by (auto simp: PromoteCandidateRevision_def RejectCandidateRevision_def stranded_def)
qed

section \<open>Examples\<close>

definition example_columns :: spec_columns where
  "example_columns = \<lparr>co_model = Some ''qwen'', co_runtime = Some ''vllm'', co_routing_strategy = Some ''round-robin'', co_min_replicas = Some 1, co_max_replicas = Some 2, co_autoscaling_enabled = Some True\<rparr>"

definition example_policy :: guard_policy where
  "example_policy = \<lparr>gp_DeploymentID = ''dep'', gp_Enabled = False, gp_MinimumRequests = 20, gp_MaxTTFTRegressionPercent = FNum 15, gp_MaxLatencyRegressionPercent = FNum 15,
     gp_MaxErrorRateIncrease = f_zero, gp_MaxOutputThroughputDropPercent = FNum 20, gp_RequireCompatibilityEvidence = True, gp_RequireSyntheticEvidence = False,
     gp_MaxCostRegressionPercent = None, gp_AutoRollbackEnabled = True, gp_AutoRollbackWindowSeconds = 300, gp_ValidationMaxRequests = 100, gp_ValidationMaxConcurrency = 4,
     gp_RequireQualityEvidence = False, gp_MinimumQualityScore = None, gp_MaxQualityRegressionPercent = None, gp_QualityComparisonMode = ''threshold'',
     gp_QualityBootstrapAlpha = FNum (1 / 4), gp_QualityBootstrapMinSamples = 30, gp_QualityBootstrapSeed = 1\<rparr>"

definition example_rollout_env :: rollout_env where
  "example_rollout_env =
     \<lparr>en_decode = (\<lambda>s. if s = ''spec'' then Some example_spec else None), en_trailing = (\<lambda>s. False), en_unmarshal = (\<lambda>s. Some example_stored), en_marshal = (\<lambda>s. ''stored''),
      en_sameJSON = (=), en_columns = (\<lambda>s. example_columns), en_policy_json = (\<lambda>p. ''policy''), en_decode_policy = (\<lambda>s. Some example_policy),
      en_telemetry = (\<lambda>r t w. \<lparr>tl_Requests = 0, tl_ErrorRate = f_zero, tl_P95TTFTMS = None, tl_P95LatencyMS = None, tl_OutputTokensPerSecond = None\<rparr>),
      en_benchmarks = (\<lambda>t n. Inr []), en_quality = (\<lambda>t n. Inr []), en_workload = (\<lambda>s. None), en_cost = (\<lambda>s. None), en_distribution = (\<lambda>s. None),
      en_oob = (\<lambda>x. 0), en_rng = (\<lambda>s k n. 0)\<rparr>"

definition example_dep :: dep_row where
  "example_dep = \<lparr>dr_id = ''dep'', dr_tenant_id = ''acme'', dr_name = ''chat'', dr_desired_state = ''running'', dr_observed_state = ''healthy'', dr_active_revision_id = ''dep-rev-1'',
     dr_candidate_revision_id = None, dr_model = ''qwen'', dr_runtime = ''vllm'', dr_routing_strategy = ''round-robin'', dr_min_replicas = 1, dr_max_replicas = 2,
     dr_autoscaling_enabled = True, dr_updated_at = 1\<rparr>"

definition example_first :: revision_row where
  "example_first = \<lparr>rv_id = ''dep-rev-1'', rv_deployment_id = ''dep'', rv_number = 1, rv_status = ''active'', rv_spec_json = ''stored'', rv_source_revision_id = None, rv_reason = '''',
     rv_created_at = 1, rv_activated_at = Some 1, rv_completed_at = None, rv_created_by_operation_id = None\<rparr>"

definition example_second :: revision_row where
  "example_second = \<lparr>rv_id = ''rev-2'', rv_deployment_id = ''dep'', rv_number = 2, rv_status = ''candidate'', rv_spec_json = ''stored'', rv_source_revision_id = Some ''dep-rev-1'', rv_reason = '''',
     rv_created_at = 2, rv_activated_at = None, rv_completed_at = None, rv_created_by_operation_id = Some ''op-1''\<rparr>"

definition example_created :: rollout_db where
  "example_created = no_rollouts\<lparr>deployments := [example_dep], revisions := [example_first]\<rparr>"

definition example_proposed :: rollout_db where
  "example_proposed = no_rollouts\<lparr>deployments := [example_dep\<lparr>dr_candidate_revision_id := Some ''rev-2'', dr_updated_at := 2\<rparr>], revisions := [example_first, example_second],
     revision_events := [\<lparr>re_id = ''ev-1'', re_deployment_id = ''dep'', re_event_type = ''revision_candidate_created'', re_payload = [(''revision_id'', ''rev-2''), (''revision_number'', ''2'')], re_created_at = 2\<rparr>]\<rparr>"

definition example_accept :: evaluation_row where
  "example_accept = \<lparr>ev_id = ''eval-1'', ev_deployment_id = ''dep'', ev_active_revision_id = ''dep-rev-1'', ev_candidate_revision_id = ''rev-2'', ev_decision = ''ACCEPT'', ev_reasons = [],
     ev_active_metrics = no_metrics, ev_candidate_metrics = no_metrics, ev_policy = example_policy, ev_created_at = 3\<rparr>"

definition example_target :: target_row where
  "example_target = \<lparr>tr_id = ''target-1'', tr_tenant_id = ''acme'', tr_name = ''chat-rev-2-r0'', tr_url = ''http://worker'', tr_runtime = ''vllm'', tr_upstream_model_name = Some ''qwen''\<rparr>"

definition example_replica :: replica_row where
  "example_replica = \<lparr>rr_id = ''replica-1'', rr_tenant_id = ''acme'', rr_deployment_id = ''dep'', rr_revision_id = ''rev-2'', rr_ordinal = 0, rr_provider = ''runpod'', rr_external_key = ''dep-rev-2-r0'',
     rr_endpoint = Some ''http://worker'', rr_lifecycle_state = ''ready'', rr_health = ''healthy'', rr_updated_at = 2\<rparr>"

definition example_accepted :: rollout_db where
  "example_accepted = example_proposed\<lparr>evaluations := [example_accept], targets := [example_target], replicas := [example_replica], guard_policies := [example_policy]\<rparr>"

lemma example_created_step: "create_deployment 1 ''stored'' example_dep no_rollouts = Inr example_created"
  by (simp add: create_deployment_def example_created_def example_dep_def example_first_def no_rollouts_def insert_unless_def revision_taken_def Let_def)

lemma example_proposed_step:
  "EnsureCandidateRevision example_rollout_env 2 ''rev-2'' ''ev-1'' example_created ''acme'' ''chat'' ''spec'' ''op-1'' = (Inr example_second, example_proposed)"
proof -
  have "decoded_spec example_rollout_env ''spec'' = Inr example_stored"
    by (simp add: decoded_spec_def example_rollout_env_def example_normalized) (simp add: example_spec_def)
  moreover have "itoa 2 = ''2''" by code_simp
  ultimately show ?thesis
    by (simp add: EnsureCandidateRevision_def example_rollout_env_def example_created_def example_proposed_def example_first_def example_second_def example_dep_def no_rollouts_def
        or_global_def locked_deployment_def live_deployment_def propose_locked_def next_number_def insert_unless_def revision_taken_def sql_null_def insertRevisionEvent_def
        set_deployment_def upd_where_def commit_tx_def Let_def)
qed

lemma example_reachable: "rollout_reachable example_rollout_env example_proposed" "rollout_reachable example_rollout_env example_accepted"
proof -
  have "(rollout_step example_rollout_env)\<^sup>*\<^sup>* no_rollouts example_created" using rollout_step.creating [OF example_created_step] by blast
  then show p: "rollout_reachable example_rollout_env example_proposed"
    unfolding rollout_reachable_def using rollout_step.proposing [OF example_proposed_step] by (rule rtranclp.rtrancl_into_rtrancl)
  have "revision_view example_accepted = revision_view example_proposed" by (simp add: example_accepted_def revision_view_def)
  then show "rollout_reachable example_rollout_env example_accepted"
    using p unfolding rollout_reachable_def by (meson rollout_step.elsewhere rtranclp.rtrancl_into_rtrancl)
qed

theorem rollout_refines_machine_witness:
  "revisions_ok (revision_view example_created) \<and> revision_move (revision_view example_created) (revision_view example_proposed)"
proof -
  have "rollout_reachable example_rollout_env example_created"
    unfolding rollout_reachable_def using rollout_step.creating [OF example_created_step] by blast
  from rollout_refines_machine [OF this] rollout_step.proposing [OF example_proposed_step] show ?thesis by blast
qed

definition example_reject :: evaluation_row where
  "example_reject = example_accept\<lparr>ev_id := ''eval-2'', ev_decision := ''REJECT'', ev_created_at := 4\<rparr>"

definition rejected_meanwhile :: "rollout_db \<Rightarrow> rollout_db" where
  "rejected_meanwhile db = db\<lparr>evaluations := evaluations db @ [example_reject]\<rparr>"

definition example_request :: rollout_request where
  "example_request = \<lparr>rq_Name = ''chat'', rq_CandidateID = ''rev-2'', rq_RevisionID = '''', rq_Reason = '''', rq_Spec = '''', rq_Actor = ''ops'', rq_TenantID = ''acme''\<rparr>"

definition example_operation :: operation where
  "example_operation = \<lparr>op_ID = ''op-2'', op_TenantID = ''acme'', op_Kind = ''rollout.promote'', op_ResourceType = ''deployment'', op_ResourceName = ''chat'', op_IdempotencyKey = ''k-2'',
     op_Status = OpRunning, op_Message = '''', op_RequestJSON = ''request'', op_ResultJSON = '''', op_ErrorCode = '''', op_Progress = 0, op_Attempt = 1, op_MaxAttempts = 3, op_Retryable = False,
     op_CancelRequested = False, op_LeaseOwner = ''worker-1'', op_LeaseGeneration = 1, op_CreatedAt = 4, op_UpdatedAt = 4, op_CompletedAt = None, op_LeaseExpiresAt = Some 60, op_NextAttemptAt = None\<rparr>"

definition example_promoted :: rollout_db where
  "example_promoted = (rejected_meanwhile example_accepted)\<lparr>
     deployments := [example_dep\<lparr>dr_active_revision_id := ''rev-2'', dr_candidate_revision_id := None, dr_updated_at := 5\<rparr>],
     revisions := [superseded 5 example_first, activated 5 example_second],
     revision_events := revision_events example_proposed @ [\<lparr>re_id = ''ev-2'', re_deployment_id = ''dep'', re_event_type = ''revision_promoted'',
       re_payload = [(''revision_id'', ''rev-2''), (''previous_revision_id'', ''dep-rev-1'')], re_created_at = 5\<rparr>]\<rparr>"

lemmas example_rows = example_rollout_env_def example_accepted_def example_proposed_def example_first_def example_second_def example_dep_def no_rollouts_def example_accept_def
  example_reject_def rejected_meanwhile_def example_promoted_def example_columns_def

lemma example_promotion:
  "PromoteCandidateRevision example_rollout_env 5 ''ev-2'' (rejected_meanwhile example_accepted) ''acme'' ''chat'' ''rev-2'' = (Inr (), example_promoted)"
  by (simp add: PromoteCandidateRevision_def transitionRevision_def example_rows or_global_def locked_deployment_def live_deployment_def transition_locked_def
      updateDeploymentFromRevision_def revision_of_def set_status_def upd_where_def superseded_def activated_def only_candidate_def set_deployment_def from_spec_def
      insertRevisionEvent_def insert_unless_def commit_tx_def)

lemma example_accepted_guard: "ReleaseGuardAccepted example_accepted ''acme'' ''chat'' ''rev-2''"
  by (simp add: ReleaseGuardAccepted_def example_rows named_deployment_def coalesce_def)

text \<open>
  The two transactions of the handler let a rejection through: between them the guard re-evaluates the
  candidate and rejects it, and the handler promotes it all the same.
\<close>

theorem rejection_between_check_and_promotion:
  "rollout_transition example_rollout_env (\<lambda>_. Some example_request) rejected_meanwhile 5 ''ev-2'' ''promote'' example_operation example_accepted = (Inr ''promote'', example_promoted) \<and>
   \<not> ReleaseGuardAccepted (rejected_meanwhile example_accepted) ''acme'' ''chat'' ''rev-2''"
proof
  show "rollout_transition example_rollout_env (\<lambda>_. Some example_request) rejected_meanwhile 5 ''ev-2'' ''promote'' example_operation example_accepted = (Inr ''promote'', example_promoted)"
    using example_promotion example_accepted_guard
    by (simp add: rollout_transition_def decodeRollout_def example_request_def transition_result_def)
  show "\<not> ReleaseGuardAccepted (rejected_meanwhile example_accepted) ''acme'' ''chat'' ''rev-2''"
    by (simp add: ReleaseGuardAccepted_def example_rows named_deployment_def coalesce_def)
qed

theorem promoted_candidate_was_accepted_witness:
  "\<exists>d \<in> set (deployments (rejected_meanwhile example_accepted)). named_deployment ''acme'' ''chat'' d \<and>
     dr_candidate_revision_id d = Some ''rev-2'' \<and> dr_active_revision_id d = ''dep-rev-1'' \<and>
     (\<exists>e \<in> set (evaluations example_accepted). ev_decision e = ''ACCEPT'' \<and> ev_active_revision_id e = ''dep-rev-1'')"
proof -
  have "revision_view (rejected_meanwhile example_accepted) = revision_view example_accepted" by (simp add: rejected_meanwhile_def)
  then have steps: "(rollout_step example_rollout_env)\<^sup>*\<^sup>* example_accepted (rejected_meanwhile example_accepted)"
    using rollout_step.elsewhere by blast
  have "(\<lambda>_. Some example_request) (op_RequestJSON example_operation) = Some example_request" by simp
  from promoted_candidate_was_accepted [OF example_reachable(2) steps this conjunct1 [OF rejection_between_check_and_promotion]]
  show ?thesis by (auto simp: example_request_def example_rows)
qed

definition example_committed :: "(store_error + unit) \<times> rollout_db" where
  "example_committed = PromoteGuardedCandidate example_rollout_env 5 ''ev-2'' example_accepted ''acme'' ''chat'' ''rev-2'' [''chat-rev-2-r0'']"

lemma example_commit: "fst example_committed = Inr () \<and> deployment_targets (snd example_committed) = [(''dep'', ''target-1'')]"
  by (simp add: example_committed_def PromoteGuardedCandidate_def example_rows or_global_def locked_deployment_def live_deployment_def promote_locked_def latest_evaluation_def
      checked_targets_def validateTargetSet_def example_target_def example_replica_def example_stored_def example_spec_def backed_def
      updateDeploymentFromRevision_def revision_of_def set_status_def upd_where_def superseded_def activated_def only_candidate_def set_deployment_def from_spec_def
      relink_def promote_tables_def insertRevisionEvent_def insert_unless_def commit_tx_def Let_def)

theorem guarded_promotion_sound_witness:
  "\<exists>d \<in> set (deployments example_accepted). dr_candidate_revision_id d = Some ''rev-2'' \<and>
     (\<exists>e. latest_evaluation example_accepted (dr_id d) ''rev-2'' = Some e \<and> ev_decision e = ''ACCEPT'') \<and>
     {t. (dr_id d, t) \<in> set (deployment_targets (snd example_committed))} \<noteq> {}"
proof -
  have run: "PromoteGuardedCandidate example_rollout_env 5 ''ev-2'' example_accepted ''acme'' ''chat'' ''rev-2'' [''chat-rev-2-r0''] = (Inr (), snd example_committed)"
    using example_commit unfolding example_committed_def by (metis prod.collapse)
  have "deployment_targets example_accepted = []" by (simp add: example_rows)
  then have "snd example_committed \<noteq> example_accepted" using example_commit by auto
  from guarded_promotion_sound [OF example_reachable(2) run this] show ?thesis
    using example_commit by (auto simp: example_rows)
qed

definition example_monitored :: rollout_db where
  "example_monitored = example_promoted\<lparr>monitors := [\<lparr>mo_id = ''mon-1'', mo_tenant_id = ''acme'', mo_deployment_id = ''dep'', mo_promoted_revision_id = ''rev-2'', mo_rollback_revision_id = ''dep-rev-1'',
     mo_status = ''observing'', mo_deadline = 300000000005, mo_evaluation_id = None, mo_policy_json = ''policy'', mo_reason = [], mo_created_at = 5, mo_updated_at = 5\<rparr>]\<rparr>"

theorem monitor_decides_by_deadline_witness:
  "\<exists>e db'. EvaluateReleaseGuardMonitor example_rollout_env 300000000005 ''eval-3'' example_monitored ''acme'' ''chat'' ''rev-2'' = (Inr e, db') \<and>
     ev_decision e \<in> {''ACCEPT'', ''REJECT''} \<and> ev_policy e = example_policy"
proof -
  have "ReleaseGuardMonitor example_monitored ''acme'' ''chat'' ''rev-2'' = Inr (hd (monitors example_monitored))"
    by (simp add: ReleaseGuardMonitor_def example_monitored_def example_rows or_global_def)
  from monitor_decides_by_deadline [OF this, of example_rollout_env example_policy 300000000005 "[]" "''eval-3''"]
  show ?thesis
    by (auto simp: example_monitored_def example_rows window_invalid_def second_def is_zero_time_def)
qed

end
