(* ===== verification/Evolution.thy ===== *)
theory Evolution
  imports Rollout_Safety Campaign
begin

text \<open>
  Where optimization campaigns meet the Release Guard: the guard boundary of the composite driver
  (\<open>internal/optimizationcampaign/composite_driver.go\<close>), composed with the evaluations of
  \<^emph>\<open>Rollout\<close> on one side and the coordinator of \<^emph>\<open>Campaign\<close> on the other.
\<close>


section \<open>The guard boundary\<close>

definition driver_inputs :: "(candidate \<Rightarrow> string option) \<Rightarrow> campaign_db \<Rightarrow> string \<Rightarrow> candidate \<Rightarrow> handler_error + campaign" where
  "driver_inputs draft db candidateID c =
     (if cr_ID c = '''' \<or> cr_ID c \<noteq> candidateID \<or> cr_TenantID c = '''' \<or> cr_CampaignID c = ''''
        then Inl (Permanent ''optimization_driver_invalid'' (Some ''composite driver requires store and exact candidate identity''))
      else case OptimizationCampaign db (cr_TenantID c) (cr_CampaignID c) of
          Inl e \<Rightarrow> Inl (PlainError ''campaign lookup'')
        | Inr (g, cs) \<Rightarrow>
            if cg_Intent g \<noteq> ''new_endpoint'' \<and> cg_Intent g \<noteq> ''evolve_endpoint''
              then Inl (Permanent ''optimization_intent_invalid'' (Some ''campaign intent is unsupported''))
            else if draft c = None then Inl (Permanent ''optimization_candidate_spec_invalid'' (Some ''candidate deployment spec is invalid''))
            else Inr g)"

definition ReleaseGuardEvaluations :: "rollout_db \<Rightarrow> string \<Rightarrow> string \<Rightarrow> int \<Rightarrow> evaluation_row list" where
  "ReleaseGuardEvaluations db tenant name limit0 =
     (let limit = (if limit0 < 1 \<or> limit0 > 100 then 20 else limit0) in
      take (nat limit) (sort_key (\<lambda>e. - ev_created_at e)
        (filter (\<lambda>e. \<exists>d \<in> set (deployments db). named_deployment tenant name d \<and> dr_id d = ev_deployment_id e) (evaluations db))))"

definition guardResult :: "evaluation_row \<Rightarrow> handler_error + guard_result" where
  "guardResult e =
     (let decision = ascii_upper (TrimSpace (ev_decision e)) in
      if decision = ''WAIT'' then Inl (Retryable ''optimization_release_guard_waiting'' (Some ''Release Guard requires more fresh comparable evidence''))
      else Inr \<lparr>gr_EvaluationID = ev_id e,
        gr_Decision = (if decision \<noteq> ''PASS'' \<and> decision \<noteq> ''REJECT'' \<and> decision \<noteq> ''INCONCLUSIVE'' then ''INCONCLUSIVE'' else decision), gr_FailureCode = ''''\<rparr>)"

definition store_text :: "store_error \<Rightarrow> string" where
  "store_text e = (case e of ErrNotFound \<Rightarrow> ''not found'' | ErrConflict t \<Rightarrow> t | ErrOther t \<Rightarrow> t)"

definition driver_Guard ::
  "rollout_env \<Rightarrow> (candidate \<Rightarrow> string option) \<Rightarrow> campaign_db \<Rightarrow> gotime \<Rightarrow> string \<Rightarrow> rollout_db \<Rightarrow> candidate \<Rightarrow> (handler_error + guard_result) \<times> rollout_db" where
  "driver_Guard env draft cdb now ident db c =
     (case driver_inputs draft cdb (cr_ID c) c of
        Inl e \<Rightarrow> (Inl e, db)
      | Inr g \<Rightarrow>
          if cg_Intent g \<noteq> ''evolve_endpoint'' \<or> cg_TargetDeployment g = '''' \<or> cr_DeploymentName c \<noteq> cg_TargetDeployment g
            then (Inl (Permanent ''optimization_guard_boundary_invalid'' (Some ''Release Guard requires an evolve-endpoint campaign bound to its target deployment'')), db)
          else case find (\<lambda>e. ev_candidate_revision_id e = cr_RevisionID c \<and> ev_created_at e \<ge> cr_UpdatedAt c)
              (ReleaseGuardEvaluations db (cr_TenantID c) (cr_DeploymentName c) 20) of
              Some e \<Rightarrow> (guardResult e, db)
            | None \<Rightarrow>
                case EvaluateReleaseGuard env now ident db (cr_TenantID c) (cr_DeploymentName c) (900 * second) of
                  (Inl e, db') \<Rightarrow> (Inl (Retryable ''optimization_release_guard_failed'' (Some (store_text e))), db')
                | (Inr e, db') \<Rightarrow> (guardResult e, db'))"


section \<open>An accepted candidate never passes\<close>

text \<open>The values the schema admits for a decision, and the ones the evaluation produces.\<close>

definition guard_decisions :: "string set" where
  "guard_decisions = {''ACCEPT'', ''REJECT'', ''WAIT''}"

definition decisions_ok :: "rollout_db \<Rightarrow> bool" where
  "decisions_ok db \<longleftrightarrow> (\<forall>e \<in> set (evaluations db). ev_decision e \<in> guard_decisions)"

lemma guard_decision_in [simp]: "gu_Decision (guard_Evaluate oob rng p a c) \<in> guard_decisions"
  unfolding guard_decisions_def by (rule guard_decision_cases)

lemma decision_normal: "d \<in> guard_decisions \<Longrightarrow> ascii_upper (TrimSpace d) = d"
proof -
  assume "d \<in> guard_decisions"
  then have d: "d \<in> {''ACCEPT'', ''REJECT'', ''WAIT''}" by (simp add: guard_decisions_def)
  then have "canonical d" by (intro canonicalI) auto
  then have "TrimSpace d = d" by (auto simp: canonical_def)
  moreover have "ascii_upper d = d" using d by (auto simp: ascii_upper_def)
  ultimately show ?thesis by simp
qed

lemma verdict_normal: "d \<in> {''REJECT'', ''INCONCLUSIVE''} \<Longrightarrow> ascii_upper (TrimSpace d) = d"
proof -
  assume d: "d \<in> {''REJECT'', ''INCONCLUSIVE''}"
  then have "canonical d" by (intro canonicalI) auto
  then have "TrimSpace d = d" by (auto simp: canonical_def)
  moreover have "ascii_upper d = d" using d by (auto simp: ascii_upper_def)
  ultimately show ?thesis by simp
qed

lemma guardResult_of:
  assumes "ev_decision e \<in> guard_decisions" "guardResult e = Inr r"
  shows "gr_Decision r = (if ev_decision e = ''ACCEPT'' then ''INCONCLUSIVE'' else ''REJECT'')"
  using assms(2) decision_normal [OF assms(1)] assms(1) by (auto simp: guardResult_def guard_decisions_def Let_def split: if_splits)

lemma evaluated_decision:
  assumes "EvaluateReleaseGuard env now i db tn nm w = (Inr e, db')"
  shows "ev_decision e \<in> guard_decisions"
  using assms unfolding EvaluateReleaseGuard_def commit_tx_Inr bind_err_Inr
  by (auto simp: bind_err_Inr insert_evaluation_def insert_unless_def Let_def case_prod_beta split: option.splits if_splits)

lemma listed_evaluation: "e \<in> set (ReleaseGuardEvaluations db tn nm k) \<Longrightarrow> e \<in> set (evaluations db)"
  unfolding ReleaseGuardEvaluations_def Let_def by (drule in_set_takeD) simp

lemma driver_Guard_decision:
  assumes "decisions_ok db" "driver_Guard env draft cdb now i db c = (Inr r, db')"
  shows "gr_Decision r \<in> {''REJECT'', ''INCONCLUSIVE''}"
proof -
  let ?rows = "ReleaseGuardEvaluations db (cr_TenantID c) (cr_DeploymentName c) 20"
  let ?fresh = "\<lambda>e. ev_candidate_revision_id e = cr_RevisionID c \<and> ev_created_at e \<ge> cr_UpdatedAt c"
  have "\<exists>e. ev_decision e \<in> guard_decisions \<and> guardResult e = Inr r"
  proof (cases "find ?fresh ?rows")
    case None
    then obtain e where "EvaluateReleaseGuard env now i db (cr_TenantID c) (cr_DeploymentName c) (900 * second) = (Inr e, db')" "guardResult e = Inr r"
      using assms(2) by (auto simp: driver_Guard_def split: sum.splits prod.splits if_splits)
    then show ?thesis using evaluated_decision by blast
  next
    case (Some e)
    then have "guardResult e = Inr r" using assms(2) by (auto simp: driver_Guard_def split: sum.splits if_splits)
    moreover have "e \<in> set (evaluations db)" using find_in [OF Some] listed_evaluation by blast
    ultimately show ?thesis using assms(1) unfolding decisions_ok_def by blast
  qed
  then obtain e where e: "ev_decision e \<in> guard_decisions" "guardResult e = Inr r" by blast
  show ?thesis using guardResult_of [OF e] by simp
qed

lemma moved_to:
  assumes "move_to env d db w g c to updates = (Inr s, db', w')" "distinct (map cr_ID (gd_candidates db))"
  shows "sr_To s = to"
proof -
  obtain row where "TransitionOptimizationCandidate env (dr_Now d w) db (cg_TenantID g) (cg_ID g) (cr_ID c) (cr_State c) to updates = (Inr row, db')" "sr_To s = cr_State row"
    using assms(1) by (auto simp: move_to_def co_transition_def split: prod.splits sum.splits)
  then show ?thesis using transition_states [OF _ assms(2)] by fastforce
qed

text \<open>
  The guard answers \<open>ACCEPT\<close>, the coordinator passes a candidate on \<open>PASS\<close>, and the boundary between them turns every other
  word into \<open>INCONCLUSIVE\<close>: whatever the evaluations in the database say, a guarding candidate never reaches
  \<open>guard_passed\<close>, and one the guard accepts becomes inconclusive, which is cleaned up.
\<close>

theorem accepted_candidate_never_passes:
  assumes "decisions_ok w" "dr_Guard d w c = driver_Guard renv draft cdb now i w c" "distinct (map cr_ID (gd_candidates db))"
    and "step_guarding env d db w g c = (Inr s, db', w')"
  shows "sr_To s \<in> {''failed'', ''rejected'', ''inconclusive''}"
proof (cases "dr_Guard d w c")
  case (Pair out w1)
  show ?thesis
  proof (cases out)
    case (Inl e)
    then have "\<exists>updates. move_to env d db w1 g c ''failed'' updates = (Inr s, db', w')"
      using assms(4) Pair by (auto simp: step_guarding_def driver_failed_def move_to_def split: option.splits)
    then show ?thesis by (auto dest: moved_to [OF _ assms(3)])
  next
    case (Inr r)
    have "gr_Decision r \<in> {''REJECT'', ''INCONCLUSIVE''}" using driver_Guard_decision [OF assms(1)] assms(2) Pair Inr by metis
    then have "ascii_upper (TrimSpace (gr_Decision r)) \<in> {''REJECT'', ''INCONCLUSIVE''}" using verdict_normal by metis
    then have "\<exists>updates. move_to env d db w1 g c ''rejected'' updates = (Inr s, db', w') \<or> move_to env d db w1 g c ''inconclusive'' updates = (Inr s, db', w')"
      using assms(4) Pair Inr by (auto simp: step_guarding_def Let_def)
    then show ?thesis by (auto dest: moved_to [OF _ assms(3)])
  qed
qed

end
