(* ===== verification/Managed_Spend.thy ===== *)
theory Managed_Spend
  imports Hosted_Accounts Revision_Spec
begin

text \<open>
  \<open>internal/store/native_sandboxes.go\<close>, \<open>sandbox_billing.go\<close>, \<open>managed_spend.go\<close> and the billing
  statements of \<open>cloud_lifecycle.go\<close>, \<open>operations.go\<close> and \<open>apply.go\<close>: sandboxes with their lifecycle
  clock and usage events, and the spend reservations that hold wallet money for sandboxes and
  managed deployments. With them every holder of wallet money is modelled, so the accounts of all
  stores close without a remainder.
\<close>


section \<open>Tables\<close>

record native_sandbox =
  ns_ID :: string
  ns_TenantID :: string
  ns_CreatedBy :: string
  ns_DisplayName :: string
  ns_Purpose :: string
  ns_SourceType :: string
  ns_SourceReference :: string
  ns_TemplateID :: string
  ns_ModelEndpoint :: string
  ns_BrezelProjectID :: string
  ns_BrezelWorkspaceID :: string
  ns_BrezelSandboxID :: string
  ns_Status :: string
  ns_FailureCode :: string
  ns_IdempotencyKey :: string
  ns_InputDigest :: string
  ns_CreatedAt :: gotime
  ns_UpdatedAt :: gotime
  ns_LastActiveAt :: gotime
  ns_BillingStateSince :: gotime
  ns_DeletedAt :: "gotime option"

record usage_event =
  su_EventID :: string
  su_TenantID :: string
  su_SandboxID :: string
  su_ProviderOperationID :: string
  su_EventType :: string
  su_TemplateID :: string
  su_RuntimeClass :: string
  su_OccurredAt :: gotime
  su_RunningMilliseconds :: int
  su_StandbyMilliseconds :: int
  su_CommandDurationMilliseconds :: int
  su_CommandExitClass :: string
  su_FileIngressBytes :: int
  su_FileEgressBytes :: int
  su_PreviewRequests :: int
  su_MetadataVersion :: int

record usage_summary =
  sm_ActiveComputers :: int
  sm_CommandsExecuted :: int
  sm_PreviewRequests :: int
  sm_RunningMilliseconds :: int
  sm_StandbyMilliseconds :: int
  sm_FileIngressBytes :: int
  sm_FileEgressBytes :: int

text \<open>
  A spend reservation row is the \<open>domain.ManagedSpendReservation\<close> of \<open>Managed_Billing\<close>; its
  nullable \<open>actual_microusd\<close> is 0 while it is \<open>NULL\<close>, which is how every reader scans it.
\<close>

record spend_db =
  sd_reservations :: "managed_spend_reservation list"
  sd_sandboxes :: "native_sandbox list"
  sd_events :: "usage_event list"

text \<open>
  Code outside the store: URL parsing, the JSON decoder with the quota fields of the pricing
  document, the canonical form JSON documents are compared by, SHA-256, the RFC 3339 format, the
  tenants table, and the conversion of a float out of range.
\<close>

record git_url =
  gu_Scheme :: string
  gu_Host :: string
  gu_User :: bool
  gu_RawQuery :: string
  gu_Fragment :: string

record sandbox_quota =
  sq_MaxActive :: int
  sq_MaxRetained :: int
  sq_GlobalMaxActive :: int
  sq_GlobalMaxRetained :: int

record sandbox_env =
  se_url :: "string \<Rightarrow> git_url option"
  se_json_valid :: "string \<Rightarrow> bool"
  se_pricing :: "string \<Rightarrow> sandbox_quota option"
  se_canonical :: "string \<Rightarrow> string option"
  se_sha256 :: "string \<Rightarrow> string"
  se_rfc3339 :: "gotime \<Rightarrow> string"
  se_tenant_exists :: "string \<Rightarrow> bool"
  se_oob :: "f64 \<Rightarrow> int"


section \<open>Sandboxes\<close>

definition nativeSandboxStatuses :: "string list" where
  "nativeSandboxStatuses = [''creating_workspace'', ''creating'', ''running'', ''standby'', ''pausing'', ''resuming'',
     ''deleting'', ''deleted'', ''expired'', ''failed'', ''unknown'', ''cleanup_pending'']"

definition integrationNamePattern :: "string \<Rightarrow> bool" where
  "integrationNamePattern s =
     (case s of [] \<Rightarrow> False
      | c # cs \<Rightarrow> alnum c \<and> length cs \<le> 255 \<and>
          (\<forall>x \<in> set cs. alnum x \<or> x \<in> set ''._:/@+-''))"

definition source_error :: "sandbox_env \<Rightarrow> native_sandbox \<Rightarrow> string option" where
  "source_error env row =
     (if ns_SourceType row = ''empty_workspace'' then
        (if ns_SourceReference row \<noteq> '''' then Some ''an empty workspace cannot include a source reference'' else None)
      else if ns_SourceType row = ''upload'' then
        (if \<not> integrationNamePattern (ns_SourceReference row)
         then Some ''upload source must be an opaque InferCrane reference'' else None)
      else case se_url env (ns_SourceReference row) of
          None \<Rightarrow> Some ''git source must be an HTTPS URL without credentials, query, or fragment''
        | Some u \<Rightarrow>
            if gu_Scheme u \<noteq> ''https'' \<or> gu_Host u = '''' \<or> gu_User u \<or> gu_RawQuery u \<noteq> '''' \<or> gu_Fragment u \<noteq> ''''
            then Some ''git source must be an HTTPS URL without credentials, query, or fragment'' else None)"

definition validateNativeSandbox :: "sandbox_env \<Rightarrow> native_sandbox \<Rightarrow> string option" where
  "validateNativeSandbox env row =
     (if ns_TenantID row = '''' \<or> TrimSpace (ns_CreatedBy row) = '''' \<or> length (ns_CreatedBy row) > 255 \<or>
         TrimSpace (ns_DisplayName row) = '''' \<or> length (ns_DisplayName row) > 120
        then Some ''tenant, creator, and a display name of at most 120 characters are required''
      else if ns_Purpose row \<notin> {''coding_agent'', ''evaluation'', ''background_task'', ''blank_computer''}
        then Some ''unsupported sandbox purpose''
      else if ns_SourceType row \<notin> {''git_repository'', ''upload'', ''empty_workspace''}
        then Some ''unsupported sandbox source''
      else case source_error env row of Some e \<Rightarrow> Some e
      | None \<Rightarrow>
        if length (ns_SourceReference row) > 2048 \<or> ns_TemplateID row = '''' \<or> length (ns_TemplateID row) > 128 \<or>
           length (ns_ModelEndpoint row) > 255
          then Some ''sandbox source, template, or model endpoint is invalid''
        else if ns_IdempotencyKey row = '''' \<or> length (ns_IdempotencyKey row) > 128 \<or> length (ns_InputDigest row) \<noteq> 64
          then Some ''a bounded idempotency key and SHA-256 input digest are required''
        else if ns_Status row \<notin> set nativeSandboxStatuses then Some ''unsupported sandbox state''
        else None)"

definition sandbox_key :: "string \<Rightarrow> string \<Rightarrow> native_sandbox \<Rightarrow> bool" where
  "sandbox_key tenant sid r = (ns_TenantID r = tenant \<and> ns_ID r = sid)"

definition nativeSandbox :: "(native_sandbox \<Rightarrow> bool) \<Rightarrow> spend_db \<Rightarrow> store_error + native_sandbox" where
  "nativeSandbox P s = (case find P (sd_sandboxes s) of None \<Rightarrow> Inl ErrNotFound | Some r \<Rightarrow> Inr r)"

definition NativeSandbox :: "spend_db \<Rightarrow> string \<Rightarrow> string \<Rightarrow> store_error + native_sandbox" where
  "NativeSandbox s tenant sid = nativeSandbox (sandbox_key tenant sid) s"

definition NativeSandboxByIdempotencyKey :: "spend_db \<Rightarrow> string \<Rightarrow> string \<Rightarrow> store_error + native_sandbox" where
  "NativeSandboxByIdempotencyKey s tenant k =
     nativeSandbox (\<lambda>r. ns_TenantID r = tenant \<and> ns_IdempotencyKey r = k) s"

definition lower_hex_digest :: "string \<Rightarrow> bool" where
  "lower_hex_digest d =
     (length d = 64 \<and> (\<forall>c \<in> set d. lower_hex c))"

text \<open>The unique indexes on the provider's identities.\<close>

definition provider_refs_taken :: "native_sandbox \<Rightarrow> native_sandbox list \<Rightarrow> bool" where
  "provider_refs_taken row rows =
     (ns_BrezelProjectID row \<noteq> '''' \<and>
      (\<exists>r \<in> set rows. ns_BrezelProjectID r = ns_BrezelProjectID row \<and>
         (ns_BrezelWorkspaceID row \<noteq> '''' \<and> ns_BrezelWorkspaceID r = ns_BrezelWorkspaceID row \<or>
          ns_BrezelSandboxID row \<noteq> '''' \<and> ns_BrezelSandboxID r = ns_BrezelSandboxID row)))"

definition same_request :: "native_sandbox \<Rightarrow> native_sandbox \<Rightarrow> bool" where
  "same_request existing requested =
     (ns_InputDigest existing = ns_InputDigest requested \<and> ns_DisplayName existing = ns_DisplayName requested \<and>
      ns_Purpose existing = ns_Purpose requested \<and> ns_SourceType existing = ns_SourceType requested \<and>
      ns_SourceReference existing = ns_SourceReference requested \<and> ns_TemplateID existing = ns_TemplateID requested \<and>
      ns_ModelEndpoint existing = ns_ModelEndpoint requested)"

text \<open>\<open>INSERT ... ON CONFLICT(tenant_id,idempotency_key) DO NOTHING\<close>; \<open>None\<close> when nothing was inserted.\<close>

definition insert_sandbox :: "sandbox_env \<Rightarrow> native_sandbox \<Rightarrow> spend_db \<Rightarrow> store_error + spend_db option" where
  "insert_sandbox env row s =
     (if \<not> lower_hex_digest (ns_InputDigest row) then Inl check_error
      else if (\<exists>r \<in> set (sd_sandboxes s). ns_TenantID r = ns_TenantID row \<and> ns_IdempotencyKey r = ns_IdempotencyKey row)
        then Inr None
      else if (\<exists>r \<in> set (sd_sandboxes s). ns_ID r = ns_ID row) \<or> provider_refs_taken row (sd_sandboxes s)
        then Inl (ErrOther ''violates unique constraint'')
      else if \<not> se_tenant_exists env (ns_TenantID row) then Inl (ErrOther ''violates foreign key constraint'')
      else Inr (Some (s\<lparr>sd_sandboxes := sd_sandboxes s @ [row]\<rparr>)))"

definition stamped_sandbox :: "gotime \<Rightarrow> native_sandbox \<Rightarrow> native_sandbox" where
  "stamped_sandbox stamp row =
     row\<lparr>ns_FailureCode := '''', ns_CreatedAt := stamp, ns_UpdatedAt := stamp, ns_LastActiveAt := stamp,
       ns_BillingStateSince := stamp, ns_DeletedAt := None\<rparr>"

definition CreateNativeSandbox ::
  "sandbox_env \<Rightarrow> gotime \<Rightarrow> store_error + string \<Rightarrow> spend_db \<Rightarrow> native_sandbox \<Rightarrow>
   (store_error + native_sandbox \<times> bool) \<times> spend_db" where
  "CreateNativeSandbox env stamp newID s requested =
     (case validateNativeSandbox env requested of
        Some e \<Rightarrow> (Inl (ErrOther e), s)
      | None \<Rightarrow>
        (case (if ns_ID requested = '''' then newID else Inr (ns_ID requested)) of
           Inl e \<Rightarrow> (Inl e, s)
         | Inr sid \<Rightarrow>
           let row = requested\<lparr>ns_ID := sid\<rparr> in
           (case insert_sandbox env (stamped_sandbox stamp row) s of
              Inl e \<Rightarrow> (Inl e, s)
            | Inr None \<Rightarrow>
              (case NativeSandboxByIdempotencyKey s (ns_TenantID requested) (ns_IdempotencyKey requested) of
                 Inl e \<Rightarrow> (Inl e, s)
               | Inr existing \<Rightarrow>
                   if \<not> same_request existing requested then (Inl (ErrConflict ''idempotency key was already used''), s)
                   else (Inr (existing, False), s))
            | Inr (Some s') \<Rightarrow>
              (case NativeSandbox s' (ns_TenantID row) sid of
                 Inl e \<Rightarrow> (Inl e, s') | Inr created \<Rightarrow> (Inr (created, True), s')))))"

fun lookup_rows :: "spend_db \<Rightarrow> (string \<times> string) list \<Rightarrow> store_error + native_sandbox list" where
  "lookup_rows s [] = Inr []"
| "lookup_rows s ((tenant, sid) # keys) =
     bind_err (NativeSandbox s tenant sid) (\<lambda>row. bind_err (lookup_rows s keys) (\<lambda>rows. Inr (row # rows)))"

definition row_key :: "native_sandbox \<Rightarrow> string \<times> string" where
  "row_key r = (ns_TenantID r, ns_ID r)"

definition NativeSandboxes :: "spend_db \<Rightarrow> string \<Rightarrow> bool \<Rightarrow> store_error + native_sandbox list" where
  "NativeSandboxes s tenant includeTerminal =
     lookup_rows s (map row_key (sort_key (\<lambda>r. - ns_LastActiveAt r)
       (filter (\<lambda>r. ns_TenantID r = tenant \<and> (includeTerminal \<or> ns_DeletedAt r = None)) (sd_sandboxes s))))"

definition refs_row :: "string \<Rightarrow> string \<Rightarrow> string \<Rightarrow> string \<Rightarrow> gotime \<Rightarrow> native_sandbox \<Rightarrow> native_sandbox" where
  "refs_row workspaceID sandboxID status failureCode stamp r =
     r\<lparr>ns_BrezelWorkspaceID := (if workspaceID = '''' then ns_BrezelWorkspaceID r else workspaceID),
       ns_BrezelSandboxID := (if sandboxID = '''' then ns_BrezelSandboxID r else sandboxID),
       ns_BillingStateSince := (if ns_Status r \<noteq> status then stamp else ns_BillingStateSince r),
       ns_Status := status, ns_FailureCode := failureCode, ns_UpdatedAt := stamp, ns_LastActiveAt := stamp\<rparr>"

definition others :: "native_sandbox \<Rightarrow> native_sandbox list \<Rightarrow> native_sandbox list" where
  "others r rows = filter (\<lambda>x. ns_ID x \<noteq> ns_ID r) rows"

definition SetNativeSandboxProviderRefs ::
  "gotime \<Rightarrow> spend_db \<Rightarrow> string \<Rightarrow> string \<Rightarrow> string \<Rightarrow> string \<Rightarrow> string \<Rightarrow> string \<Rightarrow>
   (store_error + native_sandbox) \<times> spend_db" where
  "SetNativeSandboxProviderRefs stamp s tenant sid workspaceID sandboxID status failureCode =
     (if status \<notin> set nativeSandboxStatuses then (Inl (ErrOther ''unsupported sandbox state''), s)
      else case find (\<lambda>r. sandbox_key tenant sid r \<and> ns_DeletedAt r = None) (sd_sandboxes s) of
        None \<Rightarrow> (Inl ErrNotFound, s)
      | Some r \<Rightarrow>
        if provider_refs_taken (refs_row workspaceID sandboxID status failureCode stamp r) (others r (sd_sandboxes s))
          then (Inl (ErrOther ''violates unique constraint''), s)
        else let s' = s\<lparr>sd_sandboxes := upd_where (\<lambda>r. sandbox_key tenant sid r \<and> ns_DeletedAt r = None)
               (refs_row workspaceID sandboxID status failureCode stamp) (sd_sandboxes s)\<rparr>
             in (NativeSandbox s' tenant sid, s'))"

definition status_row :: "string \<Rightarrow> string \<Rightarrow> gotime \<Rightarrow> gotime \<Rightarrow> native_sandbox \<Rightarrow> native_sandbox" where
  "status_row status failureCode since stamp r =
     r\<lparr>ns_BillingStateSince := (if ns_Status r \<noteq> status then since else ns_BillingStateSince r),
       ns_Status := status, ns_FailureCode := failureCode, ns_UpdatedAt := stamp, ns_LastActiveAt := stamp,
       ns_DeletedAt := (if status = ''deleted'' then Some stamp else ns_DeletedAt r)\<rparr>"

definition set_sandbox ::
  "string \<Rightarrow> string \<Rightarrow> (native_sandbox \<Rightarrow> native_sandbox) \<Rightarrow> spend_db \<Rightarrow> spend_db" where
  "set_sandbox tenant sid f s = s\<lparr>sd_sandboxes := upd_where (sandbox_key tenant sid) f (sd_sandboxes s)\<rparr>"

definition SetNativeSandboxStatus ::
  "gotime \<Rightarrow> spend_db \<Rightarrow> string \<Rightarrow> string \<Rightarrow> string \<Rightarrow> string \<Rightarrow> (store_error + native_sandbox) \<times> spend_db" where
  "SetNativeSandboxStatus stamp s tenant sid status failureCode =
     (if status \<notin> set nativeSandboxStatuses then (Inl (ErrOther ''unsupported sandbox state''), s)
      else let s' = set_sandbox tenant sid (status_row status failureCode stamp stamp) s in
        if rows_affected (sandbox_key tenant sid) (sd_sandboxes s) = 0 then (Inl ErrNotFound, s')
        else (NativeSandbox s' tenant sid, s'))"


section \<open>The lifecycle clock and the usage events\<close>

text \<open>\<open>INSERT ... ON CONFLICT DO NOTHING\<close>: any unique index of the events table.\<close>

definition event_conflict :: "usage_event \<Rightarrow> usage_event \<Rightarrow> bool" where
  "event_conflict e x =
     (su_EventID x = su_EventID e \<or>
      su_TenantID x = su_TenantID e \<and> su_SandboxID x = su_SandboxID e \<and>
      su_ProviderOperationID x = su_ProviderOperationID e \<and> su_EventType x = su_EventType e)"

definition insert_event :: "usage_event \<Rightarrow> spend_db \<Rightarrow> spend_db" where
  "insert_event e s =
     (if \<exists>x \<in> set (sd_events s). event_conflict e x then s else s\<lparr>sd_events := sd_events s @ [e]\<rparr>)"

definition elapsed_ms :: "gotime \<Rightarrow> gotime \<Rightarrow> int" where
  "elapsed_ms occurredAt since = max 0 (quot (time_sub occurredAt since) Millisecond)"

definition transition_event ::
  "sandbox_env \<Rightarrow> native_sandbox \<Rightarrow> string \<Rightarrow> string \<Rightarrow> gotime \<Rightarrow> usage_event" where
  "transition_event env row providerOperationID eventType occurredAt =
     (let elapsed = elapsed_ms occurredAt (ns_BillingStateSince row);
          nul = [CHR 0x00]
      in \<lparr>su_EventID = hex_encode (se_sha256 env (ns_TenantID row @ nul @ ns_ID row @ nul @ providerOperationID @ nul @
            eventType @ nul @ se_rfc3339 env occurredAt)),
          su_TenantID = ns_TenantID row, su_SandboxID = ns_ID row, su_ProviderOperationID = providerOperationID,
          su_EventType = eventType, su_TemplateID = ns_TemplateID row, su_RuntimeClass = ''firecracker-cpu'',
          su_OccurredAt = occurredAt,
          su_RunningMilliseconds = (if ns_Status row \<in> {''running'', ''pausing'', ''resuming''} then elapsed else 0),
          su_StandbyMilliseconds = (if ns_Status row = ''standby'' then elapsed else 0),
          su_CommandDurationMilliseconds = 0, su_CommandExitClass = '''', su_FileIngressBytes = 0,
          su_FileEgressBytes = 0, su_PreviewRequests = 0, su_MetadataVersion = 1\<rparr>)"

definition RecordNativeSandboxTransition ::
  "sandbox_env \<Rightarrow> gotime \<Rightarrow> spend_db \<Rightarrow> string \<Rightarrow> string \<Rightarrow> string \<Rightarrow> string \<Rightarrow> string \<Rightarrow> string \<Rightarrow> gotime \<Rightarrow>
   (store_error + native_sandbox) \<times> spend_db" where
  "RecordNativeSandboxTransition env now s tenant sid status failureCode providerOperationID eventType occurredAt0 =
     (if tenant = '''' \<or> sid = '''' \<or> status \<notin> set nativeSandboxStatuses \<or> eventType = '''' \<or> is_zero_time occurredAt0 \<or>
         occurredAt0 > now + Minute
        then (Inl (ErrOther ''complete sandbox lifecycle transition is required''), s)
      else case find (sandbox_key tenant sid) (sd_sandboxes s) of
        None \<Rightarrow> (Inl ErrNotFound, s)
      | Some row \<Rightarrow>
        if ns_Status row = ''deleted'' \<and> status \<noteq> ''deleted''
          then (Inl (ErrConflict ''deleted sandbox lifecycle cannot be reopened''), s)
        else
          let occurredAt = (if occurredAt0 < ns_BillingStateSince row then ns_BillingStateSince row else occurredAt0);
              s1 = (if ns_Status row \<noteq> status
                    then insert_event (transition_event env row providerOperationID eventType occurredAt) s else s);
              s2 = set_sandbox tenant sid (status_row status failureCode occurredAt now) s1
          in (NativeSandbox s2 tenant sid, s2))"

definition AppendSandboxUsageEvent :: "spend_db \<Rightarrow> usage_event \<Rightarrow> (store_error + bool) \<times> spend_db" where
  "AppendSandboxUsageEvent s e =
     (if su_EventID e = '''' \<or> su_TenantID e = '''' \<or> su_SandboxID e = '''' \<or> su_EventType e = '''' \<or>
         su_TemplateID e = '''' \<or> su_RuntimeClass e = '''' \<or> su_MetadataVersion e < 1
        then (Inl (ErrOther ''complete sandbox usage identity is required''), s)
      else if su_RunningMilliseconds e < 0 \<or> su_StandbyMilliseconds e < 0 \<or> su_CommandDurationMilliseconds e < 0 \<or>
         su_FileIngressBytes e < 0 \<or> su_FileEgressBytes e < 0 \<or> su_PreviewRequests e < 0
        then (Inl (ErrOther ''sandbox usage counters cannot be negative''), s)
      else if is_zero_time (su_OccurredAt e) then (Inl (ErrOther ''sandbox usage occurrence time is required''), s)
      else if \<not> (\<exists>r \<in> set (sd_sandboxes s). sandbox_key (su_TenantID e) (su_SandboxID e) r) then (Inl ErrNotFound, s)
      else if \<exists>x \<in> set (sd_events s). event_conflict e x then (Inr False, s)
      else (Inr True, s\<lparr>sd_events := sd_events s @ [e]\<rparr>))"

definition tenant_sum :: "(usage_event \<Rightarrow> int) \<Rightarrow> spend_db \<Rightarrow> string \<Rightarrow> int" where
  "tenant_sum f s tenant = sum_list (map f (filter (\<lambda>e. su_TenantID e = tenant) (sd_events s)))"

text \<open>The columns are scanned into \<open>int64\<close>, the sums are exact: a sum out of range fails the scan.\<close>

definition SandboxUsageSummary :: "spend_db \<Rightarrow> string \<Rightarrow> store_error + usage_summary" where
  "SandboxUsageSummary s tenant =
     (let m = \<lparr>sm_ActiveComputers = int (rows_affected (\<lambda>r. ns_TenantID r = tenant \<and> ns_DeletedAt r = None \<and>
                 ns_Status r \<notin> {''deleted'', ''expired'', ''failed''}) (sd_sandboxes s)),
               sm_CommandsExecuted = tenant_sum (\<lambda>e. if su_EventType e = ''command.completed'' then 1 else 0) s tenant,
               sm_PreviewRequests = tenant_sum su_PreviewRequests s tenant,
               sm_RunningMilliseconds = tenant_sum su_RunningMilliseconds s tenant,
               sm_StandbyMilliseconds = tenant_sum su_StandbyMilliseconds s tenant,
               sm_FileIngressBytes = tenant_sum su_FileIngressBytes s tenant,
               sm_FileEgressBytes = tenant_sum su_FileEgressBytes s tenant\<rparr>
      in if is_i64 (sm_PreviewRequests m) \<and> is_i64 (sm_RunningMilliseconds m) \<and> is_i64 (sm_StandbyMilliseconds m) \<and>
            is_i64 (sm_FileIngressBytes m) \<and> is_i64 (sm_FileEgressBytes m)
         then Inr m else Inl bigint_error)"

definition running_time :: "spend_db \<Rightarrow> string \<Rightarrow> string \<Rightarrow> int" where
  "running_time s tenant sid =
     sum_list (map (\<lambda>e. if su_TenantID e = tenant \<and> su_SandboxID e = sid then su_RunningMilliseconds e else 0) (sd_events s))"

definition SandboxRunningMilliseconds :: "spend_db \<Rightarrow> string \<Rightarrow> string \<Rightarrow> store_error + int" where
  "SandboxRunningMilliseconds s tenant sid =
     (if tenant = '''' \<or> sid = '''' then Inl (ErrOther ''tenant and sandbox identity are required'')
      else if is_i64 (running_time s tenant sid) then Inr (running_time s tenant sid) else Inl bigint_error)"


section \<open>Spend reservations\<close>

type_synonym 'a spend = "'a wallet_db_scheme \<times> spend_db"

definition ErrInsufficientCredits :: store_error where
  "ErrInsufficientCredits = ErrOther ''insufficient prepaid credits''"

definition resource_key :: "string \<Rightarrow> string \<Rightarrow> string \<Rightarrow> managed_spend_reservation \<Rightarrow> bool" where
  "resource_key tenant kind name r = (ms_TenantID r = tenant \<and> ms_ResourceType r = kind \<and> ms_ResourceName r = name)"

definition managedSpendReservationByResourceTx ::
  "spend_db \<Rightarrow> string \<Rightarrow> string \<Rightarrow> string \<Rightarrow> store_error + managed_spend_reservation" where
  "managedSpendReservationByResourceTx s tenant kind name =
     (case find (resource_key tenant kind name) (sd_reservations s) of None \<Rightarrow> Inl ErrNotFound | Some r \<Rightarrow> Inr r)"

definition ManagedSpendReservation ::
  "spend_db \<Rightarrow> string \<Rightarrow> string \<Rightarrow> string \<Rightarrow> store_error + managed_spend_reservation" where
  "ManagedSpendReservation s tenant kind name =
     (if tenant = '''' \<or> kind = '''' \<or> name = '''' then Inl (ErrOther ''tenant and resource identity are required'')
      else managedSpendReservationByResourceTx s tenant kind name)"

definition spend_open :: "managed_spend_reservation \<Rightarrow> bool" where
  "spend_open r = (ms_State r = ''reserved'' \<or> ms_State r = ''pending_reconciliation'')"

text \<open>The constraints of \<open>managed_spend_reservations\<close>; the limits are \<open>INTEGER\<close> columns.\<close>

definition spend_check :: "managed_spend_reservation \<Rightarrow> bool" where
  "spend_check r =
     (ms_ResourceType r \<in> {''deployment'', ''optimization_campaign'', ''sandbox''} \<and>
      ms_State r \<in> {''reserved'', ''settled'', ''released'', ''pending_reconciliation''} \<and> ms_Currency r = ''USD'' \<and>
      0 < ms_SupplierHourlyMicrousd r \<and> ms_SupplierHourlyMicrousd r \<le> ms_RetailHourlyMicrousd r \<and>
      0 < ms_ReservedMicrousd r \<and> 0 \<le> ms_ActualMicrousd r \<and> 0 \<le> ms_GrossMarginBPS r \<and> ms_GrossMarginBPS r < 10000 \<and>
      0 < ms_RuntimeLimitSeconds r \<and> ms_RuntimeLimitSeconds r < 2 ^ 31 \<and>
      0 \<le> ms_CleanupAllowanceSeconds r \<and> ms_CleanupAllowanceSeconds r < 2 ^ 31)"

definition insert_spend :: "managed_spend_reservation \<Rightarrow> spend_db \<Rightarrow> store_error + spend_db" where
  "insert_spend r s =
     (if \<not> spend_check r then Inl check_error
      else if \<exists>x \<in> set (sd_reservations s). ms_ID x = ms_ID r \<or>
          resource_key (ms_TenantID r) (ms_ResourceType r) (ms_ResourceName r) x
        then Inl (ErrOther ''violates unique constraint'')
      else Inr (s\<lparr>sd_reservations := sd_reservations s @ [r]\<rparr>))"

text \<open>What the insert statements write, and the columns they leave to their defaults.\<close>

definition new_spend ::
  "managed_spend_reservation \<Rightarrow> string \<Rightarrow> string \<Rightarrow> string \<Rightarrow> string \<Rightarrow> gotime \<Rightarrow> managed_spend_reservation" where
  "new_spend r rid tenant kind name stamp =
     r\<lparr>ms_ID := rid, ms_TenantID := tenant, ms_ResourceType := kind, ms_ResourceName := name, ms_State := ''reserved'',
       ms_Currency := ''USD'', ms_ExpiresAt := stamp + i64 (ms_RuntimeLimitSeconds r * Second),
       ms_CreatedAt := stamp, ms_UpdatedAt := stamp\<rparr>"

definition spend_row :: "managed_spend_reservation \<Rightarrow> managed_spend_reservation" where
  "spend_row r = r\<lparr>ms_ActualMicrousd := 0, ms_Resolution := '''', ms_ActivatedAt := None\<rparr>"

definition hold_spend ::
  "gotime \<Rightarrow> 'a spend \<Rightarrow> string \<Rightarrow> managed_spend_reservation \<Rightarrow> store_error + managed_spend_reservation \<times> 'a spend" where
  "hold_spend stamp st tenant r =
     bind_err (insert_spend (spend_row r) (snd st)) (\<lambda>s'.
     bind_err (update_wallet tenant (\<lambda>w. w\<lparr>wl_reserved := wl_reserved w + ms_ReservedMicrousd r, wl_updated_at := stamp\<rparr>) (fst st))
       (\<lambda>db'. Inr (r, (db', s'))))"

definition covered :: "'a wallet_db_scheme \<Rightarrow> string \<Rightarrow> int \<Rightarrow> bool" where
  "covered db tenant amount =
     (case wd_wallets db tenant of None \<Rightarrow> False
      | Some w \<Rightarrow> \<not> i64 (i64 (wl_balance w - wl_reserved w) - wl_debt w) < amount)"

definition active_statuses :: "string set" where
  "active_statuses = {''creating_workspace'', ''creating'', ''running'', ''pausing'', ''resuming'', ''deleting'', ''unknown'', ''cleanup_pending''}"

definition active_count :: "(native_sandbox \<Rightarrow> bool) \<Rightarrow> spend_db \<Rightarrow> int" where
  "active_count P s = int (rows_affected (\<lambda>r. P r \<and> ns_DeletedAt r = None \<and> ns_Status r \<in> active_statuses) (sd_sandboxes s))"

definition retained_count :: "(native_sandbox \<Rightarrow> bool) \<Rightarrow> spend_db \<Rightarrow> int" where
  "retained_count P s = int (rows_affected (\<lambda>r. P r \<and> ns_DeletedAt r = None \<and>
     ns_Status r \<notin> {''deleted'', ''expired'', ''failed''}) (sd_sandboxes s))"

definition ManagedSandboxFleetUsage :: "spend_db \<Rightarrow> int \<times> int" where
  "ManagedSandboxFleetUsage s = (active_count (\<lambda>_. True) s, retained_count (\<lambda>_. True) s)"

definition sandbox_reservation_invalid ::
  "sandbox_env \<Rightarrow> string \<Rightarrow> string \<Rightarrow> managed_spend_reservation \<Rightarrow> bool" where
  "sandbox_reservation_invalid env tenant sandboxID r =
     (tenant = '''' \<or> sandboxID = '''' \<or> ms_Provider r \<noteq> ''brezel'' \<or> ms_ResourceType r \<noteq> ''sandbox'' \<or>
      ms_ResourceName r \<noteq> sandboxID \<or> ms_SupplierHourlyMicrousd r < 1 \<or>
      ms_RetailHourlyMicrousd r < ms_SupplierHourlyMicrousd r \<or> ms_ReservedMicrousd r < 1 \<or>
      ms_RuntimeLimitSeconds r < 30 \<or> ms_RuntimeLimitSeconds r > 30 * 24 * 60 * 60 \<or>
      ms_CleanupAllowanceSeconds r \<noteq> 0 \<or> ms_GrossMarginBPS r < 0 \<or> ms_GrossMarginBPS r \<ge> 10000 \<or>
      ms_PricingJSON r = '''' \<or> length (ms_PricingJSON r) > 65536 \<or> \<not> se_json_valid env (ms_PricingJSON r))"

definition quota_invalid :: "sandbox_quota \<Rightarrow> bool" where
  "quota_invalid q =
     (sq_MaxActive q < 1 \<or> sq_MaxRetained q < sq_MaxActive q \<or> sq_GlobalMaxActive q < sq_MaxActive q \<or>
      sq_GlobalMaxRetained q < sq_GlobalMaxActive q)"

definition sameJSONDocument :: "sandbox_env \<Rightarrow> string \<Rightarrow> string \<Rightarrow> bool" where
  "sameJSONDocument env left right =
     (case (se_canonical env left, se_canonical env right) of (Some l, Some r) \<Rightarrow> l = r | _ \<Rightarrow> False)"

definition replayed_spend ::
  "sandbox_env \<Rightarrow> managed_spend_reservation \<Rightarrow> managed_spend_reservation \<Rightarrow> store_error + managed_spend_reservation" where
  "replayed_spend env existing r =
     (if ms_State existing = ''released'' then Inl (ErrConflict ''released sandbox reservation cannot be reused'')
      else if ms_Provider existing \<noteq> ms_Provider r \<or> ms_SupplierHourlyMicrousd existing \<noteq> ms_SupplierHourlyMicrousd r \<or>
         ms_RetailHourlyMicrousd existing \<noteq> ms_RetailHourlyMicrousd r \<or> ms_ReservedMicrousd existing \<noteq> ms_ReservedMicrousd r \<or>
         ms_RuntimeLimitSeconds existing \<noteq> ms_RuntimeLimitSeconds r \<or>
         \<not> sameJSONDocument env (ms_PricingJSON existing) (ms_PricingJSON r)
        then Inl (ErrConflict ''sandbox reservation changed'')
      else Inr existing)"

definition quota_conflict :: "spend_db \<Rightarrow> string \<Rightarrow> sandbox_quota \<Rightarrow> store_error option" where
  "quota_conflict s tenant q =
     (if active_count (\<lambda>r. ns_TenantID r = tenant) s > sq_MaxActive q \<or>
         retained_count (\<lambda>r. ns_TenantID r = tenant) s > sq_MaxRetained q
        then Some (ErrConflict ''managed sandbox capacity'')
      else if active_count (\<lambda>_. True) s > sq_GlobalMaxActive q \<or> retained_count (\<lambda>_. True) s > sq_GlobalMaxRetained q
        then Some (ErrConflict ''managed sandbox fleet is currently full'')
      else None)"

definition ReserveManagedSandboxSpend ::
  "sandbox_env \<Rightarrow> gotime \<Rightarrow> store_error + string \<Rightarrow> 'a spend \<Rightarrow> string \<Rightarrow> string \<Rightarrow> managed_spend_reservation \<Rightarrow>
   (store_error + managed_spend_reservation \<times> bool) \<times> 'a spend" where
  "ReserveManagedSandboxSpend env stamp newID st tenant sandboxID r =
     (if sandbox_reservation_invalid env tenant sandboxID r then (Inl (ErrOther ''managed sandbox reservation is invalid''), st)
      else case se_pricing env (ms_PricingJSON r) of
        None \<Rightarrow> (Inl (ErrOther ''managed sandbox reservation quota is invalid''), st)
      | Some q \<Rightarrow>
        if quota_invalid q then (Inl (ErrOther ''managed sandbox reservation quota is invalid''), st)
        else commit_tx st
          (case managedSpendReservationByResourceTx (snd st) tenant ''sandbox'' sandboxID of
             Inr existing \<Rightarrow> bind_err (replayed_spend env existing r) (\<lambda>x. Inr ((x, False), st))
           | Inl _ \<Rightarrow>
             if \<not> (\<exists>row \<in> set (sd_sandboxes (snd st)). sandbox_key tenant sandboxID row \<and> ns_DeletedAt row = None) then Inl ErrNotFound
             else if \<not> covered (fst st) tenant (ms_ReservedMicrousd r) then Inl ErrInsufficientCredits
             else case quota_conflict (snd st) tenant q of
               Some e \<Rightarrow> Inl e
             | None \<Rightarrow> bind_err newID (\<lambda>rid.
                 bind_err (hold_spend stamp st tenant (new_spend r rid tenant ''sandbox'' sandboxID stamp)) (\<lambda>(x, st').
                   Inr ((x, True), st')))))"

definition activate_spend :: "gotime \<Rightarrow> gotime \<Rightarrow> managed_spend_reservation \<Rightarrow> managed_spend_reservation" where
  "activate_spend activatedAt stamp r =
     (case ms_ActivatedAt r of
        None \<Rightarrow> r\<lparr>ms_ActivatedAt := Some activatedAt, ms_ExpiresAt := activatedAt + ms_RuntimeLimitSeconds r * Second, ms_UpdatedAt := stamp\<rparr>
      | Some _ \<Rightarrow> r\<lparr>ms_UpdatedAt := stamp\<rparr>)"

definition activatable :: "string \<Rightarrow> string \<Rightarrow> string \<Rightarrow> managed_spend_reservation \<Rightarrow> bool" where
  "activatable tenant kind name r = (resource_key tenant kind name r \<and> ms_State r = ''reserved'')"

definition ActivateManagedSandboxSpend ::
  "gotime \<Rightarrow> spend_db \<Rightarrow> string \<Rightarrow> string \<Rightarrow> gotime \<Rightarrow> (store_error + unit) \<times> spend_db" where
  "ActivateManagedSandboxSpend stamp s tenant sandboxID activatedAt =
     (if tenant = '''' \<or> sandboxID = '''' \<or> is_zero_time activatedAt
        then (Inl (ErrOther ''managed sandbox activation identity is required''), s)
      else let P = activatable tenant ''sandbox'' sandboxID;
               s' = s\<lparr>sd_reservations := upd_where P (activate_spend activatedAt stamp) (sd_reservations s)\<rparr>
           in if rows_affected P (sd_reservations s) = 0 then (Inl ErrNotFound, s') else (Inr (), s'))"

text \<open>The activation of a managed deployment, a statement of \<open>ApplyDeploymentForTenant\<close>.\<close>

definition activate_deployment :: "gotime \<Rightarrow> string \<Rightarrow> string \<Rightarrow> spend_db \<Rightarrow> spend_db" where
  "activate_deployment stamp tenant name s =
     s\<lparr>sd_reservations := upd_where (activatable tenant ''deployment'' name) (activate_spend stamp stamp) (sd_reservations s)\<rparr>"

definition ledger_spend_key :: "ledger_row \<Rightarrow> (string \<times> string \<times> string) option" where
  "ledger_spend_key l =
     (case lg_spend_reservation_id l of None \<Rightarrow> None | Some r \<Rightarrow> Some (lg_tenant_id l, r, lg_kind l))"

definition spend_entry :: "string \<Rightarrow> string \<Rightarrow> int \<Rightarrow> string \<Rightarrow> gotime \<Rightarrow> ledger_row" where
  "spend_entry tenant rid amount description stamp =
     \<lparr>lg_id = ''settlement_'' @ rid, lg_tenant_id = tenant, lg_reservation_id = None, lg_spend_reservation_id = Some rid,
      lg_kind = ''settlement'', lg_amount = amount, lg_description = description, lg_created_at = stamp\<rparr>"

definition insert_spend_settlement ::
  "string \<Rightarrow> string \<Rightarrow> int \<Rightarrow> string \<Rightarrow> gotime \<Rightarrow> 'a wallet_db_scheme \<Rightarrow> store_error + 'a wallet_db_scheme" where
  "insert_spend_settlement tenant rid amount description stamp db =
     (let l = spend_entry tenant rid amount description stamp in
      if has_key ledger_spend_key (ledger_spend_key l) (wd_ledger db) then Inr db else insert_ledger l db)"

definition spend_id :: "string \<Rightarrow> string \<Rightarrow> managed_spend_reservation \<Rightarrow> bool" where
  "spend_id tenant rid r = (ms_ID r = rid \<and> ms_TenantID r = tenant)"

definition closed_spend :: "int \<Rightarrow> string \<Rightarrow> string \<Rightarrow> gotime \<Rightarrow> managed_spend_reservation \<Rightarrow> managed_spend_reservation" where
  "closed_spend actual state resolution stamp r =
     r\<lparr>ms_ActualMicrousd := actual, ms_State := state, ms_Resolution := resolution, ms_UpdatedAt := stamp\<rparr>"

definition close_spend ::
  "gotime \<Rightarrow> 'a spend \<Rightarrow> string \<Rightarrow> managed_spend_reservation \<Rightarrow> int \<Rightarrow> string \<Rightarrow> string \<Rightarrow> store_error + unit \<times> 'a spend" where
  "close_spend stamp st tenant r actual state resolution =
     bind_err (update_wallet tenant (\<lambda>w. w\<lparr>wl_balance := wl_balance w - actual,
         wl_reserved := wl_reserved w - ms_ReservedMicrousd r, wl_updated_at := stamp\<rparr>) (fst st)) (\<lambda>db1.
     bind_err (if actual > 0 then insert_spend_settlement tenant (ms_ID r) (- actual) resolution stamp db1 else Inr db1) (\<lambda>db2.
     bind_err (require (0 \<le> actual) check_error) (\<lambda>_.
     bind_err (reconcileManagedDebtTx tenant stamp db2) (\<lambda>db3.
       Inr ((), (db3, (snd st)\<lparr>sd_reservations :=
         upd_where (spend_id tenant (ms_ID r)) (closed_spend actual state resolution stamp) (sd_reservations (snd st))\<rparr>))))))"

definition capped :: "int \<Rightarrow> int \<Rightarrow> int" where
  "capped maximum x = (if x > maximum then maximum else x)"

definition metered_cost :: "(f64 \<Rightarrow> int) \<Rightarrow> managed_spend_reservation \<Rightarrow> duration \<Rightarrow> store_error + int" where
  "metered_cost oob r elapsed =
     (case DurationCostMicrousd oob (ms_RetailHourlyMicrousd r) elapsed of
        Inl e \<Rightarrow> Inl (ErrOther e) | Inr actual \<Rightarrow> Inr (capped (ms_ReservedMicrousd r) actual))"

definition finalizeManagedSandboxSpend ::
  "sandbox_env \<Rightarrow> gotime \<Rightarrow> 'a spend \<Rightarrow> string \<Rightarrow> string \<Rightarrow> duration \<Rightarrow> string \<Rightarrow> string \<Rightarrow> (store_error + unit) \<times> 'a spend" where
  "finalizeManagedSandboxSpend env stamp st tenant sandboxID running targetState reason =
     (if tenant = '''' \<or> sandboxID = '''' \<or> reason = '''' \<or> targetState \<noteq> ''released'' \<and> targetState \<noteq> ''settled''
        then (Inl (ErrOther ''managed sandbox settlement identity is required''), st)
      else commit_tx st
        (case managedSpendReservationByResourceTx (snd st) tenant ''sandbox'' sandboxID of
           Inl _ \<Rightarrow> Inr ((), st)
         | Inr r \<Rightarrow>
             if \<not> spend_open r then Inr ((), st)
             else bind_err (if targetState = ''settled''
                 then metered_cost (se_oob env) r (capped (i64 (ms_RuntimeLimitSeconds r * Second)) running) else Inr 0)
               (\<lambda>actual. close_spend stamp st tenant r actual targetState reason)))"

definition ReleaseManagedSandboxSpend ::
  "sandbox_env \<Rightarrow> gotime \<Rightarrow> 'a spend \<Rightarrow> string \<Rightarrow> string \<Rightarrow> string \<Rightarrow> (store_error + unit) \<times> 'a spend" where
  "ReleaseManagedSandboxSpend env stamp st tenant sandboxID reason =
     finalizeManagedSandboxSpend env stamp st tenant sandboxID 0 ''released'' reason"

definition SettleManagedSandboxSpend ::
  "sandbox_env \<Rightarrow> gotime \<Rightarrow> 'a spend \<Rightarrow> string \<Rightarrow> string \<Rightarrow> int \<Rightarrow> string \<Rightarrow> (store_error + unit) \<times> 'a spend" where
  "SettleManagedSandboxSpend env stamp st tenant sandboxID runningMilliseconds reason =
     (if runningMilliseconds < 0 then (Inl (ErrOther ''managed sandbox running time cannot be negative''), st)
      else finalizeManagedSandboxSpend env stamp st tenant sandboxID (i64 (runningMilliseconds * Millisecond)) ''settled'' reason)"

definition open_hold :: "spend_db \<Rightarrow> native_sandbox \<Rightarrow> bool" where
  "open_hold s n = (\<exists>r \<in> set (sd_reservations s). resource_key (ns_TenantID n) ''sandbox'' (ns_ID n) r \<and> spend_open r)"

definition ManagedSandboxesForReconciliation :: "spend_db \<Rightarrow> int \<Rightarrow> managed_spend_reservation list" where
  "ManagedSandboxesForReconciliation s limit =
     take (list_limit limit) (sort_key ms_ExpiresAt
       (filter (\<lambda>r. ms_ResourceType r = ''sandbox'' \<and> spend_open r) (sd_reservations s)))"

definition CleanupPendingSandboxesForReconciliation :: "spend_db \<Rightarrow> int \<Rightarrow> store_error + native_sandbox list" where
  "CleanupPendingSandboxesForReconciliation s limit =
     lookup_rows s (map row_key (take (list_limit limit) (sort_key ns_UpdatedAt
       (filter (\<lambda>n. ns_Status n = ''cleanup_pending'' \<and> ns_DeletedAt n = None \<and> \<not> open_hold s n) (sd_sandboxes s)))))"

definition UnreservedNativeSandboxesForReconciliation :: "spend_db \<Rightarrow> int \<Rightarrow> store_error + native_sandbox list" where
  "UnreservedNativeSandboxesForReconciliation s limit =
     lookup_rows s (map row_key (take (list_limit limit) (sort_key ns_UpdatedAt
       (filter (\<lambda>n. ns_DeletedAt n = None \<and>
          (ns_BrezelSandboxID n \<noteq> '''' \<and> ns_Status n \<notin> {''deleted'', ''cleanup_pending''} \<or>
           ns_BrezelSandboxID n = '''' \<and> ns_Status n \<in> {''creating_workspace'', ''creating''}) \<and>
          \<not> open_hold s n) (sd_sandboxes s)))))"


section \<open>Managed deployments\<close>

definition deployment_reservation_invalid :: "sandbox_env \<Rightarrow> managed_spend_reservation \<Rightarrow> bool" where
  "deployment_reservation_invalid env r =
     (ms_Provider r = '''' \<or> ms_SupplierHourlyMicrousd r < 1 \<or> ms_RetailHourlyMicrousd r < ms_SupplierHourlyMicrousd r \<or>
      ms_ReservedMicrousd r < 1 \<or> ms_GrossMarginBPS r < 0 \<or> ms_GrossMarginBPS r \<ge> 10000 \<or> ms_RuntimeLimitSeconds r < 1 \<or>
      ms_CleanupAllowanceSeconds r < 0 \<or> ms_PricingJSON r = '''' \<or> length (ms_PricingJSON r) > 65536 \<or>
      \<not> se_json_valid env (ms_PricingJSON r))"

definition reserveManagedDeploymentTx ::
  "gotime \<Rightarrow> store_error + string \<Rightarrow> 'a spend \<Rightarrow> string \<Rightarrow> string \<Rightarrow> managed_spend_reservation \<Rightarrow>
   store_error + managed_spend_reservation \<times> 'a spend" where
  "reserveManagedDeploymentTx stamp newID st tenant name r =
     (if \<not> covered (fst st) tenant (ms_ReservedMicrousd r) then Inl ErrInsufficientCredits
      else bind_err newID (\<lambda>rid. hold_spend stamp st tenant (new_spend r rid tenant ''deployment'' name stamp)))"

definition finalizeManagedDeploymentSpendTx ::
  "sandbox_env \<Rightarrow> gotime \<Rightarrow> 'a spend \<Rightarrow> string \<Rightarrow> string \<Rightarrow> store_error + unit \<times> 'a spend" where
  "finalizeManagedDeploymentSpendTx env stamp st tenant name =
     (case managedSpendReservationByResourceTx (snd st) tenant ''deployment'' name of
        Inl _ \<Rightarrow> Inr ((), st)
      | Inr r \<Rightarrow>
          if \<not> spend_open r then Inr ((), st)
          else case ms_ActivatedAt r of
            None \<Rightarrow> close_spend stamp st tenant r 0 ''released'' ''provider resources deleted before serving; prepaid hold released''
          | Some activatedAt \<Rightarrow>
              bind_err (metered_cost (se_oob env) r (max 0
                  (capped (i64 (i64 (ms_RuntimeLimitSeconds r + ms_CleanupAllowanceSeconds r) * Second)) (time_sub stamp activatedAt))))
                (\<lambda>actual. close_spend stamp st tenant r actual ''settled''
                   ''metered managed runtime; unused prepaid hold released after provider deletion''))"

definition ExpiredManagedDeployments ::
  "(string \<Rightarrow> string \<Rightarrow> bool) \<Rightarrow> spend_db \<Rightarrow> gotime \<Rightarrow> int \<Rightarrow> managed_spend_reservation list" where
  "ExpiredManagedDeployments live s current limit =
     take (list_limit limit) (sort_key ms_ExpiresAt
       (filter (\<lambda>r. ms_ResourceType r = ''deployment'' \<and> ms_State r = ''reserved'' \<and> ms_ActivatedAt r \<noteq> None \<and>
          ms_ExpiresAt r \<le> current \<and> live (ms_TenantID r) (ms_ResourceName r)) (sd_reservations s)))"

end
