(* ===== verification/Spend_Accounts.thy ===== *)
theory Spend_Accounts
  imports Managed_Spend
begin

text \<open>
  The accounts of all three billing stores on one set of wallets, the life of spend reservations and
  the metering of sandboxes, along every interleaving of the operations of \<open>Managed_Spend\<close>,
  \<open>Hosted_Usage\<close> and \<open>Payments\<close>.
\<close>


section \<open>What the spend reservations hold\<close>

definition spend_held :: "string \<Rightarrow> managed_spend_reservation \<Rightarrow> int" where
  "spend_held t r = (if ms_TenantID r = t \<and> spend_open r then ms_ReservedMicrousd r else 0)"

definition spend_outstanding :: "spend_db \<Rightarrow> string \<Rightarrow> int" where
  "spend_outstanding s t = sum_list (map (spend_held t) (sd_reservations s))"

definition spend_key :: "managed_spend_reservation \<Rightarrow> string \<times> string \<times> string" where
  "spend_key r = (ms_TenantID r, ms_ResourceType r, ms_ResourceName r)"

definition spend_table_ok :: "spend_db \<Rightarrow> bool" where
  "spend_table_ok s \<longleftrightarrow>
     distinct (map ms_ID (sd_reservations s)) \<and> distinct (map spend_key (sd_reservations s)) \<and>
     (\<forall>r \<in> set (sd_reservations s). spend_check r \<and> (ms_ResourceType r = ''sandbox'' \<longrightarrow> ms_RuntimeLimitSeconds r \<le> 30 * 24 * 60 * 60))"

definition spend_ledger_ok :: "ledger_row list \<Rightarrow> spend_db \<Rightarrow> bool" where
  "spend_ledger_ok ls s \<longleftrightarrow>
     (\<forall>l \<in> set ls. \<forall>i. lg_spend_reservation_id l = Some i \<longrightarrow>
        (\<exists>r \<in> set (sd_reservations s). ms_ID r = i \<and> \<not> spend_open r))"

type_synonym accounts = "(payment_db \<times> hosted_db) \<times> spend_db"

definition accounts_inv :: "accounts \<Rightarrow> bool" where
  "accounts_inv a \<longleftrightarrow>
     spend_table_ok (snd a) \<and> spend_ledger_ok (wd_ledger (fst (fst a))) (snd a) \<and>
     hosted_inv (spend_outstanding (snd a)) (\<lambda>_. 0) (fst a)"

lemma accounts_invD:
  assumes "accounts_inv ((db, h), s)"
  shows "spend_table_ok s" "spend_ledger_ok (wd_ledger db) s" "hosted_inv (spend_outstanding s) (\<lambda>_. 0) (db, h)"
  using assms by (simp_all add: accounts_inv_def)

lemma spend_rowD:
  assumes "spend_table_ok s" "r \<in> set (sd_reservations s)"
  shows "spend_check r" "ms_ResourceType r = ''sandbox'' \<Longrightarrow> ms_RuntimeLimitSeconds r \<le> 30 * 24 * 60 * 60"
  using assms by (auto simp: spend_table_ok_def)

lemma spend_held_nonneg: "spend_check r \<Longrightarrow> 0 \<le> spend_held t r"
  by (simp add: spend_held_def spend_check_def)

lemma spend_outstanding_nonneg: "spend_table_ok s \<Longrightarrow> 0 \<le> spend_outstanding s t"
  unfolding spend_outstanding_def by (intro sum_list_nonneg) (auto dest: spend_rowD spend_held_nonneg)

lemma spend_held_le: "spend_table_ok s \<Longrightarrow> r \<in> set (sd_reservations s) \<Longrightarrow> spend_held t r \<le> spend_outstanding s t"
  unfolding spend_outstanding_def by (rule sum_list_nonneg_ge) (auto dest: spend_rowD spend_held_nonneg)

lemma spend_id_unique:
  "spend_table_ok s \<Longrightarrow> r \<in> set (sd_reservations s) \<Longrightarrow> spend_id t (ms_ID r) r \<Longrightarrow>
   \<forall>x \<in> set (sd_reservations s). spend_id t (ms_ID r) x \<longrightarrow> x = r"
  by (auto simp: spend_table_ok_def spend_id_def distinct_map inj_on_def)

lemma reservation_of:
  assumes "managedSpendReservationByResourceTx s tenant kind name = Inr r"
  shows "r \<in> set (sd_reservations s)" "resource_key tenant kind name r" "ms_TenantID r = tenant"
  using assms by (auto simp: managedSpendReservationByResourceTx_def resource_key_def find_Some_iff split: option.splits)

text \<open>The accounts do not depend on the sandboxes and their events.\<close>

lemma spend_frame:
  assumes "sd_reservations s' = sd_reservations s"
  shows "spend_outstanding s' = spend_outstanding s" "spend_table_ok s' = spend_table_ok s" "spend_ledger_ok ls s' = spend_ledger_ok ls s"
  using assms by (auto simp: spend_outstanding_def spend_table_ok_def spend_ledger_ok_def fun_eq_iff)

lemma accounts_inv_frame: "sd_reservations s' = sd_reservations s \<Longrightarrow> accounts_inv (st, s') = accounts_inv (st, s)"
  using spend_frame [of s' s] by (simp add: accounts_inv_def)

text \<open>Booking an amount in the ledger that the wallet has already moved.\<close>

lemma wallet_inv_book:
  assumes "wallet_inv other drift db" "lg_reservation_id l = None"
  shows "wallet_inv other (\<lambda>t. drift t - (if lg_tenant_id l = t then lg_amount l else 0)) (append_ledger l db)"
proof -
  have "usage_table_ok (append_ledger l db)"
    using wallet_invD(2) [OF assms(1)] by (rule usage_table_ok_cong) (use assms(2) in auto)
  moreover have "account_ok (other t) (drift t - (if lg_tenant_id l = t then lg_amount l else 0)) (wd_wallets (append_ledger l db) t)
      (ledger_sum (append_ledger l db) t) (outstanding (append_ledger l db) t)" for t
    using wallet_invD(1) [OF assms(1), of t] by (auto simp: account_ok_def split: option.splits)
  ultimately show ?thesis using wallet_invD(3) [OF assms(1)] by (simp add: wallet_inv_def)
qed

lemma spend_row_update:
  assumes "spend_table_ok s" "r \<in> set (sd_reservations s)" "\<And>x. ms_ID (f x) = ms_ID x \<and> spend_key (f x) = spend_key x \<and> ms_RuntimeLimitSeconds (f x) = ms_RuntimeLimitSeconds x"
    "P r" "\<forall>x \<in> set (sd_reservations s). P x \<longrightarrow> x = r" "spend_check (f r)"
    "sd_reservations s' = upd_where P f (sd_reservations s)"
  shows "spend_table_ok s'" "spend_outstanding s' t = spend_outstanding s t - spend_held t r + spend_held t (f r)"
proof -
  have ids: "map ms_ID (sd_reservations s') = map ms_ID (sd_reservations s)" "map spend_key (sd_reservations s') = map spend_key (sd_reservations s)"
    using assms(3) by (simp_all add: assms(7) map_upd_where)
  have rows: "set (sd_reservations s') = insert (f r) (set (sd_reservations s) - {r})"
    unfolding assms(7) by (rule set_upd_unique [OF assms(2,4,5)])
  have "ms_ResourceType (f r) = ms_ResourceType r" using assms(3) [of r] by (simp add: spend_key_def)
  then show "spend_table_ok s'"
    using assms(1,2,6) assms(3) [of r] ids rows unfolding spend_table_ok_def by auto
  have "distinct (sd_reservations s)" using assms(1) by (simp add: spend_table_ok_def distinct_map)
  then show "spend_outstanding s' t = spend_outstanding s t - spend_held t r + spend_held t (f r)"
    unfolding spend_outstanding_def assms(7) using sum_upd_where_unique [OF assms(2,4,5)] by blast
qed

section \<open>Every operation keeps the accounts\<close>

lemma insert_spendD:
  assumes "insert_spend r s = Inr s'"
  shows "s' = s\<lparr>sd_reservations := sd_reservations s @ [r]\<rparr>" "spend_check r"
    "ms_ID r \<notin> ms_ID ` set (sd_reservations s)" "spend_key r \<notin> spend_key ` set (sd_reservations s)"
proof -
  show "s' = s\<lparr>sd_reservations := sd_reservations s @ [r]\<rparr>" "spend_check r"
    using assms by (simp_all add: insert_spend_def split: if_splits)
  have "\<forall>x \<in> set (sd_reservations s). ms_ID x \<noteq> ms_ID r \<and> spend_key x \<noteq> spend_key r"
    using assms by (auto simp: insert_spend_def resource_key_def spend_key_def split: if_splits)
  then show "ms_ID r \<notin> ms_ID ` set (sd_reservations s)" "spend_key r \<notin> spend_key ` set (sd_reservations s)" by force+
qed

lemma hold_spend_inv:
  assumes inv: "accounts_inv ((db, h), s)" and w: "wd_wallets db tenant \<noteq> None" and r: "ms_TenantID r = tenant" "spend_open r"
    and limit: "ms_ResourceType r = ''sandbox'' \<Longrightarrow> ms_RuntimeLimitSeconds r \<le> 30 * 24 * 60 * 60"
    and hold: "hold_spend stamp (db, s) tenant r = Inr (x, (db', s'))"
  shows "accounts_inv ((db', h), s')"
proof -
  obtain w where w: "wd_wallets db tenant = Some w" using w by blast
  let ?r = "spend_row r"
  obtain s1 where ins: "insert_spend ?r s = Inr s1"
    and upd: "update_wallet tenant (\<lambda>w. w\<lparr>wl_reserved := wl_reserved w + ms_ReservedMicrousd r, wl_updated_at := stamp\<rparr>) db = Inr db'"
    and "s1 = s'"
    using hold unfolding hold_spend_def bind_err_Inr fst_conv snd_conv by blast
  note s' = insert_spendD(1) [OF ins [unfolded \<open>s1 = s'\<close>]] and check = insert_spendD(2) [OF ins]
    and fresh = insert_spendD(3,4) [OF ins]
  have tab: "spend_table_ok s'"
    using accounts_invD(1) [OF inv] check fresh limit unfolding s' spend_table_ok_def by (auto simp: spend_row_def)
  have held: "spend_held t ?r = (if t = tenant then ms_ReservedMicrousd r else 0)" for t
    using r by (auto simp: spend_held_def spend_row_def spend_open_def)
  then have out: "spend_outstanding s' t = spend_outstanding s t + (if t = tenant then ms_ReservedMicrousd r else 0)" for t
    by (simp add: s' spend_outstanding_def)
  have "wallet_inv (\<lambda>t. hosted_outstanding h t + spend_outstanding s' t) (\<lambda>t. hosted_ledger_sum h t + 0) db'"
  proof (rule wallet_inv_shift [OF hosted_invD(3) [OF accounts_invD(3) [OF inv]] upd w])
    show "\<forall>t. 0 \<le> hosted_outstanding h t + spend_outstanding s' t"
      using hosted_outstanding_nonneg [OF hosted_invD(1) [OF accounts_invD(3) [OF inv]]] spend_outstanding_nonneg [OF tab] by simp
  qed (simp_all add: out)
  then have "hosted_inv (spend_outstanding s') (\<lambda>_. 0) (db', h)"
    using spend_outstanding_nonneg [OF tab] by (intro hosted_invI [OF _ hosted_invD(1) [OF accounts_invD(3) [OF inv]]]) simp_all
  moreover have "spend_ledger_ok (wd_ledger db') s'"
    using accounts_invD(2) [OF inv] unfolding update_wallet_frame(1) [OF upd] s' spend_ledger_ok_def by auto
  ultimately show ?thesis using tab by (simp add: accounts_inv_def)
qed

lemma open_spend_wallet:
  assumes inv: "accounts_inv ((db, h), s)" and r: "r \<in> set (sd_reservations s)" "spend_open r"
  shows "\<exists>w. wd_wallets db (ms_TenantID r) = Some w"
proof (rule ccontr)
  let ?t = "ms_TenantID r"
  assume "\<not> ?thesis"
  then have "outstanding db ?t + (hosted_outstanding h ?t + spend_outstanding s ?t) = 0"
    using wallet_invD(1) [OF hosted_invD(3) [OF accounts_invD(3) [OF inv]], of ?t] by (simp add: account_ok_def)
  moreover have "0 < spend_outstanding s ?t"
    using spend_held_le [OF accounts_invD(1) [OF inv] r(1), of ?t] spend_rowD [OF accounts_invD(1) [OF inv] r(1)] r(2)
    by (simp add: spend_held_def spend_check_def)
  ultimately show False
    using outstanding_nonneg [OF wallet_invD(2) [OF hosted_invD(3) [OF accounts_invD(3) [OF inv]]], of ?t]
      hosted_outstanding_nonneg [OF hosted_invD(1) [OF accounts_invD(3) [OF inv]], of ?t] by linarith
qed

text \<open>An open reservation has no ledger entry yet, so its settlement books exactly one.\<close>

lemma settlement_inserted:
  assumes tab: "spend_table_ok s" "spend_ledger_ok (wd_ledger db) s" and r: "r \<in> set (sd_reservations s)" "spend_open r"
    and ins: "insert_spend_settlement tenant (ms_ID r) amount description stamp db = Inr db'"
  shows "db' = append_ledger (spend_entry tenant (ms_ID r) amount description stamp) db"
proof -
  have "lg_spend_reservation_id l \<noteq> Some (ms_ID r)" if "l \<in> set (wd_ledger db)" for l
    using tab r that by (force simp: spend_ledger_ok_def spend_table_ok_def distinct_map inj_on_def)
  then have "\<not> has_key ledger_spend_key (ledger_spend_key (spend_entry tenant (ms_ID r) amount description stamp)) (wd_ledger db)"
    by (auto simp: has_key_def ledger_spend_key_def spend_entry_def split: option.splits)
  then show ?thesis using ins by (simp add: insert_spend_settlement_def Let_def insert_ledger_def split: if_splits)
qed

text \<open>The entry of a closed reservation is booked under a reservation that is closed for good.\<close>

lemma closed_ledger_ok:
  assumes ok: "spend_ledger_ok ledger s" and r: "spend_open r"
    and rows: "set (sd_reservations s') = insert r' (set (sd_reservations s) - {r})"
    and entries: "set ledger' \<subseteq> insert l (set ledger)"
    and r': "\<not> spend_open r'" "lg_spend_reservation_id l = Some (ms_ID r')"
  shows "spend_ledger_ok ledger' s'"
proof -
  have "\<exists>x \<in> set (sd_reservations s'). ms_ID x = i \<and> \<not> spend_open x"
    if "e \<in> set ledger" "lg_spend_reservation_id e = Some i" for e i
    using ok that r unfolding rows spend_ledger_ok_def by fastforce
  moreover have "\<exists>x \<in> set (sd_reservations s'). ms_ID x = ms_ID r' \<and> \<not> spend_open x"
    unfolding rows using r'(1) by auto
  ultimately show ?thesis unfolding spend_ledger_ok_def using entries r'(2)
    by (metis insert_iff option.inject subset_iff)
qed

lemma wallet_inv_booked:
  assumes "wallet_inv other (\<lambda>t. drift t - (if t = tenant then actual else 0)) db"
  shows "wallet_inv other drift (append_ledger (spend_entry tenant rid (- actual) resolution stamp) db)"
proof -
  let ?l = "spend_entry tenant rid (- actual) resolution stamp"
  have "(\<lambda>t. drift t - (if t = tenant then actual else 0) - (if lg_tenant_id ?l = t then lg_amount ?l else 0)) = drift"
    by (auto simp: spend_entry_def)
  then show ?thesis using wallet_inv_book [OF assms, of ?l] by (simp add: spend_entry_def)
qed

lemma close_spend_inv:
  assumes inv: "accounts_inv ((db, h), s)" and r: "r \<in> set (sd_reservations s)" "spend_open r" "ms_TenantID r = tenant"
    and st: "state = ''released'' \<or> state = ''settled''"
    and close: "close_spend stamp (db, s) tenant r actual state resolution = Inr (u, (db', s'))"
  shows "accounts_inv ((db', h), s')"
proof -
  note tab = accounts_invD(1) [OF inv]
  let ?f = "closed_spend actual state resolution stamp"
  obtain db1 db2 where upd: "update_wallet tenant (\<lambda>w. w\<lparr>wl_balance := wl_balance w - actual,
      wl_reserved := wl_reserved w - ms_ReservedMicrousd r, wl_updated_at := stamp\<rparr>) db = Inr db1"
    and ledger: "(if actual > 0 then insert_spend_settlement tenant (ms_ID r) (- actual) resolution stamp db1 else Inr db1) = Inr db2"
    and actual: "0 \<le> actual" and debt: "reconcileManagedDebtTx tenant stamp db2 = Inr db'"
    and s': "s' = s\<lparr>sd_reservations := upd_where (spend_id tenant (ms_ID r)) ?f (sd_reservations s)\<rparr>"
    using close by (auto simp: close_spend_def bind_err_Inr)
  obtain w where w: "wd_wallets db tenant = Some w" using open_spend_wallet [OF inv r(1,2)] r(3) by blast
  have rid: "spend_id tenant (ms_ID r) r" using r(3) by (simp add: spend_id_def)
  note uniq = spend_id_unique [OF tab r(1) rid]
  have check: "spend_check (?f r)" using spend_rowD [OF tab r(1)] st actual by (auto simp: spend_check_def closed_spend_def)
  have keep: "\<And>x. ms_ID (?f x) = ms_ID x \<and> spend_key (?f x) = spend_key x \<and> ms_RuntimeLimitSeconds (?f x) = ms_RuntimeLimitSeconds x" by (simp add: closed_spend_def spend_key_def)
  have "sd_reservations s' = upd_where (spend_id tenant (ms_ID r)) ?f (sd_reservations s)" by (simp add: s')
  note row = spend_row_update [OF tab r(1) keep rid uniq check this]
  have closed: "\<not> spend_open (?f r)" using st by (auto simp: spend_open_def closed_spend_def)
  have out: "spend_outstanding s' t = spend_outstanding s t - (if t = tenant then ms_ReservedMicrousd r else 0)" for t
    using row(2) [of t] r(2,3) closed by (auto simp: spend_held_def)
  let ?o = "\<lambda>t. hosted_outstanding h t + spend_outstanding s' t"
  have "\<forall>t. 0 \<le> ?o t"
    using hosted_outstanding_nonneg [OF hosted_invD(1) [OF accounts_invD(3) [OF inv]]] spend_outstanding_nonneg [OF row(1)] by simp
  then have moved: "wallet_inv ?o (\<lambda>t. hosted_ledger_sum h t - (if t = tenant then actual else 0)) db1"
    using wallet_inv_shift [OF hosted_invD(3) [OF accounts_invD(3) [OF inv]] upd w, of ?o] by (simp add: out)
  note booked = wallet_inv_booked [OF moved, of "ms_ID r" resolution stamp]
  have "actual = 0 \<Longrightarrow> wallet_inv ?o (hosted_ledger_sum h) db1" using moved by (simp cong: if_cong)
  moreover have db2: "db2 = (if actual > 0 then append_ledger (spend_entry tenant (ms_ID r) (- actual) resolution stamp) db1 else db1)"
    using ledger settlement_inserted [OF tab _ r(1,2), of db1] accounts_invD(2) [OF inv] update_wallet_frame(1) [OF upd]
    by (auto split: if_splits)
  ultimately have "wallet_inv ?o (\<lambda>t. hosted_ledger_sum h t + 0) db2" using booked actual by simp
  then have "hosted_inv (spend_outstanding s') (\<lambda>_. 0) (db2, h)"
    using spend_outstanding_nonneg [OF row(1)] by (intro hosted_invI [OF _ hosted_invD(1) [OF accounts_invD(3) [OF inv]]]) simp_all
  then have "hosted_inv (spend_outstanding s') (\<lambda>_. 0) (db', h)" using hosted_inv_debt debt by blast
  moreover have "wd_ledger db' = wd_ledger db2"
    using debt by (auto simp: reconcileManagedDebtTx_def Let_def split: option.splits if_splits dest: update_wallet_frame(1))
  moreover have "spend_ledger_ok (wd_ledger db2) s'"
  proof (rule closed_ledger_ok [OF accounts_invD(2) [OF inv] r(2), of s' "?f r" _ "spend_entry tenant (ms_ID r) (- actual) resolution stamp"])
    show "set (sd_reservations s') = insert (?f r) (set (sd_reservations s) - {r})"
      unfolding s' by (simp add: set_upd_unique [OF r(1) rid uniq])
  qed (use closed update_wallet_frame(1) [OF upd] in \<open>auto simp: db2 closed_spend_def spend_entry_def\<close>)
  ultimately show ?thesis using row(1) by (simp add: accounts_inv_def)
qed

section \<open>The other stores write no ledger entry of a spend reservation\<close>

definition spend_entries_kept :: "'a wallet_db_scheme \<Rightarrow> 'b wallet_db_scheme \<Rightarrow> bool" where
  "spend_entries_kept db db' \<longleftrightarrow> (\<forall>l \<in> set (wd_ledger db'). l \<in> set (wd_ledger db) \<or> lg_spend_reservation_id l = None)"

lemma spend_entries_same [simp]: "wd_ledger db' = wd_ledger db \<Longrightarrow> spend_entries_kept db db'"
  by (simp add: spend_entries_kept_def)

lemma spend_entries_append: "lg_spend_reservation_id l = None \<Longrightarrow> spend_entries_kept db (append_ledger l db)"
  by (simp add: spend_entries_kept_def)

lemma debt_ledger: "reconcileManagedDebtTx t stamp db = Inr db' \<Longrightarrow> wd_ledger db' = wd_ledger db"
  by (auto simp: reconcileManagedDebtTx_def Let_def split: option.splits if_splits dest: update_wallet_frame(1))

lemma ensure_wallet_ledger: "ensure_wallet tex t stamp db = Inr db' \<Longrightarrow> wd_ledger db' = wd_ledger db"
  by (auto simp: ensure_wallet_def split: option.splits if_splits)

lemmas ledger_frames = update_wallet_frame(1) debt_ledger ensure_wallet_ledger

lemma entries_credit: "CreditManagedWallet tex stamp db tenant cid desc amount = (res, db') \<Longrightarrow> spend_entries_kept db db'"
  by (auto simp: CreditManagedWallet_def commit_tx_def bind_err_def applyManagedCreditTx_def spend_entries_kept_def credit_row_def
      split: if_splits sum.splits prod.splits dest!: ledger_frames)

lemma entries_authorize: "AuthorizeManagedUsage benv stamp db tenant b q s m = (res, db') \<Longrightarrow> spend_entries_kept db db'"
  by (rule spend_entries_same)
    (auto simp: AuthorizeManagedUsage_def Let_def commit_tx_def bind_err_def hold_funds_def
      split: if_splits sum.splits option.splits prod.splits dest!: ledger_frames)

lemma entries_settle: "SettleManagedUsage benv stamp db tenant rid it ot = (res, db') \<Longrightarrow> spend_entries_kept db db'"
  by (auto simp: SettleManagedUsage_def settle_open_def settle_charge_def insert_settlement_def insert_ledger_def Let_def commit_tx_def bind_err_def
      spend_entries_kept_def set_usage_def split: if_splits sum.splits option.splits prod.splits dest!: ledger_frames)

lemma entries_release: "ReleaseManagedUsage benv stamp db tenant rid rs = (res, db') \<Longrightarrow> spend_entries_kept db db'"
  by (rule spend_entries_same)
    (auto simp: ReleaseManagedUsage_def commit_tx_def bind_err_def split: if_splits sum.splits option.splits prod.splits dest!: ledger_frames)

lemma entries_payment:
  assumes "ProcessManagedPaymentEvent env stamp db p = (res, db')"
  shows "spend_entries_kept db db'"
  using assms
proof (cases rule: ProcessManagedPaymentEvent_cases)
  case (refunded ev r)
  then show ?thesis
    by (auto simp: processManagedRefundTx_def bind_err_Inr insert_ledger_Inr Let_def spend_entries_kept_def credit_row_def
        split: if_splits option.splits dest!: ledger_frames)
next
  case (credited ev r)
  then show ?thesis
    by (auto simp: process_credit_def already_credited_def grant_credit_def bind_err_Inr insert_ledger_Inr insert_credit_def applyManagedCreditTx_def
        spend_entries_kept_def credit_row_def Let_def split: if_splits option.splits sum.splits dest!: ledger_frames)
qed simp_all

lemma entries_billing: "billing_step db db' \<Longrightarrow> spend_entries_kept db db'"
proof (induction rule: billing_step.induct)
  case (prepare env stamp newID db tenant intent lease res db')
  then obtain ins where "db' = db\<lparr>pd_intents := ins\<rparr>" using funding_frame(1) by blast
  then show ?case by simp
next
  case (complete env stamp db tenant iid token session res db')
  then obtain ins where "db' = db\<lparr>pd_intents := ins\<rparr>" using funding_frame(2) by blast
  then show ?case by simp
next
  case (release_lease stamp db tenant iid token res db')
  then obtain ins where "db' = db\<lparr>pd_intents := ins\<rparr>" using funding_frame(3) by blast
  then show ?case by simp
qed (simp_all add: entries_credit entries_authorize entries_settle entries_release entries_payment)

lemma wallet_commit_ledger:
  assumes "commit_tx st body = (res, st')" "\<And>x st1. body = Inr (x, st1) \<Longrightarrow> wd_ledger (fst st1) = wd_ledger (fst st)"
  shows "wd_ledger (fst st') = wd_ledger (fst st)"
  using assms(1) by (rule commit_txI) (use assms(2) in auto)

lemma settlement_ledger:
  assumes "settle_transmitted cat stamp st tenant usage row = Inr (x, st')"
  shows "wd_ledger (fst st') = wd_ledger (fst st)"
proof -
  have book: "wd_ledger (fst st') = wd_ledger (fst st)"
    if "book_settlement st tenant row it cached ot actual resolution cogs stamp = Inr (x, st')" for it cached ot actual resolution cogs
    using that by (auto simp: book_settlement_def bind_err_Inr dest!: ledger_frames)
  show ?thesis
    using assms unfolding settle_transmitted_def bind_err_def
    by (auto split: option.splits if_splits sum.splits prod.splits intro: book)
qed

lemma entries_hosted: "hosted_step st st' \<Longrightarrow> spend_entries_kept (fst st) (fst st')"
proof (induction rule: hosted_step.induct)
  case (managed db db' h)
  then show ?case by (simp add: entries_billing)
next
  case (reserve cat st request res st')
  obtain db h where st: "st = (db, h)" by (cases st)
  with reserve have "wd_ledger (fst st') = wd_ledger (fst st)"
    by (auto simp: ReserveModelAPIUsage_def reserve_funds_def commit_tx_def bind_err_def
        split: if_splits option.splits sum.splits dest!: ledger_frames)
  then show ?case by simp
next
  case (transmitted st tenant rid now res st')
  then have "wd_ledger (fst st') = wd_ledger (fst st)"
    by (auto simp: MarkModelAPIUsageTransmitted_def advanceModelAPIUsage_def bind_err_Inr split: if_splits option.splits elim!: wallet_commit_ledger)
  then show ?case by simp
next
  case (started st tenant rid now res st')
  then have "wd_ledger (fst st') = wd_ledger (fst st)"
    by (auto simp: MarkModelAPIUsageResponseStarted_def advanceModelAPIUsage_def bind_err_Inr split: if_splits option.splits elim!: wallet_commit_ledger)
  then show ?case by simp
next
  case (settle cat now st tenant rid usage res st')
  then have "wd_ledger (fst st') = wd_ledger (fst st)"
    unfolding SettleModelAPIUsage_def
    by (elim wallet_commit_ledger) (auto simp: bind_err_Inr split: if_splits dest: settlement_ledger)
  then show ?case by simp
next
  case (release now st tenant rid reason res st')
  then have "wd_ledger (fst st') = wd_ledger (fst st)"
    by (auto simp: ReleaseUnsentModelAPIUsage_def free_reservation_def bind_err_Inr
        split: if_splits elim!: wallet_commit_ledger dest!: ledger_frames)
  then show ?case by simp
next
  case (no_charge now st tenant rid reason res st')
  then have "wd_ledger (fst st') = wd_ledger (fst st)"
    by (auto simp: ConfirmNoChargeModelAPIUsage_def free_reservation_def bind_err_Inr
        split: if_splits elim!: wallet_commit_ledger dest!: ledger_frames)
  then show ?case by simp
next
  case (attempt st tenant rid now res st')
  then show ?case by (auto simp: RecordModelAPIUsageReconciliationAttempt_def split: if_splits)
next
  case (adapter_evidence now st ev res st')
  then show ?case using evidence_step_shape(1) by fastforce
next
  case (operator_evidence now st op actor ev res st')
  then show ?case using evidence_step_shape(2) by fastforce
qed

section \<open>All stores together\<close>

inductive spend_step :: "accounts \<Rightarrow> accounts \<Rightarrow> bool" where
  elsewhere: "hosted_step st st' \<Longrightarrow> spend_step (st, s) (st', s)"
| creating: "CreateNativeSandbox env now newID s row = (res, s') \<Longrightarrow> spend_step (st, s) (st, s')"
| referring: "SetNativeSandboxProviderRefs now s t sid ws sb status code = (res, s') \<Longrightarrow> spend_step (st, s) (st, s')"
| marking: "SetNativeSandboxStatus now s t sid status code = (res, s') \<Longrightarrow> spend_step (st, s) (st, s')"
| recording: "RecordNativeSandboxTransition env now s t sid status code oid etype at0 = (res, s') \<Longrightarrow> spend_step (st, s) (st, s')"
| appending: "AppendSandboxUsageEvent s e = (res, s') \<Longrightarrow> spend_step (st, s) (st, s')"
| reserving: "ReserveManagedSandboxSpend env now newID (db, s) t sid r = (res, (db', s')) \<Longrightarrow> spend_step ((db, h), s) ((db', h), s')"
| activating: "ActivateManagedSandboxSpend now s t sid at0 = (res, s') \<Longrightarrow> spend_step (st, s) (st, s')"
| releasing: "ReleaseManagedSandboxSpend env now (db, s) t sid why = (res, (db', s')) \<Longrightarrow> spend_step ((db, h), s) ((db', h), s')"
| settling: "SettleManagedSandboxSpend env now (db, s) t sid ms why = (res, (db', s')) \<Longrightarrow> spend_step ((db, h), s) ((db', h), s')"
| deploying: "commit_tx (db, s) (reserveManagedDeploymentTx now newID (db, s) t name r) = (res, (db', s')) \<Longrightarrow> spend_step ((db, h), s) ((db', h), s')"
| serving: "spend_step (st, s) (st, activate_deployment now t name s)"
| deleting: "commit_tx (db, s) (finalizeManagedDeploymentSpendTx env now (db, s) t name) = (res, (db', s')) \<Longrightarrow> spend_step ((db, h), s) ((db', h), s')"

lemma sandbox_ops_frame:
  "CreateNativeSandbox env now newID s row = (res1, s') \<Longrightarrow> sd_reservations s' = sd_reservations s"
  "SetNativeSandboxProviderRefs now s t sid ws sb status code = (res2, s') \<Longrightarrow> sd_reservations s' = sd_reservations s"
  "SetNativeSandboxStatus now s t sid status code = (res2, s') \<Longrightarrow> sd_reservations s' = sd_reservations s"
  "RecordNativeSandboxTransition env now s t sid status code oid etype at0 = (res2, s') \<Longrightarrow> sd_reservations s' = sd_reservations s"
  "AppendSandboxUsageEvent s e = (res3, s') \<Longrightarrow> sd_reservations s' = sd_reservations s"
  by (auto simp: CreateNativeSandbox_def insert_sandbox_def SetNativeSandboxProviderRefs_def SetNativeSandboxStatus_def set_sandbox_def
      RecordNativeSandboxTransition_def insert_event_def AppendSandboxUsageEvent_def Let_def split: option.splits sum.splits if_splits)

lemma activatable_unique:
  assumes "spend_table_ok s" "r \<in> set (sd_reservations s)" "activatable t kind name r"
  shows "\<forall>x \<in> set (sd_reservations s). activatable t kind name x \<longrightarrow> x = r"
  using assms by (auto simp: spend_table_ok_def activatable_def resource_key_def spend_key_def distinct_map inj_on_def)

lemma activation_inv:
  assumes inv: "accounts_inv (st, s)" and s': "sd_reservations s' = upd_where (activatable t kind name) (activate_spend at0 now) (sd_reservations s)"
  shows "accounts_inv (st, s')"
proof (cases "\<exists>r \<in> set (sd_reservations s). activatable t kind name r")
  case False
  then show ?thesis using inv accounts_inv_frame [of s' s st] by (simp add: s' upd_where_none)
next
  case True
  then obtain r where r: "r \<in> set (sd_reservations s)" "activatable t kind name r" by blast
  obtain db h where st: "st = (db, h)" by (cases st)
  note tab = accounts_invD(1) [OF inv [unfolded st]]
  let ?f = "activate_spend at0 now"
  have keep: "\<And>x. ms_ID (?f x) = ms_ID x \<and> spend_key (?f x) = spend_key x \<and> ms_RuntimeLimitSeconds (?f x) = ms_RuntimeLimitSeconds x"
    by (simp add: activate_spend_def spend_key_def split: option.splits)
  have check: "spend_check (?f r)"
    using spend_rowD(1) [OF tab r(1)] by (simp add: activate_spend_def spend_check_def split: option.splits)
  have "spend_held x (?f r) = spend_held x r" for x
    by (cases "ms_ActivatedAt r") (auto simp: activate_spend_def spend_held_def spend_open_def)
  with spend_row_update [OF tab r(1) keep r(2) activatable_unique [OF tab r] check s']
  have row: "spend_table_ok s'" "spend_outstanding s' = spend_outstanding s" by (simp_all add: fun_eq_iff)
  have rows: "set (sd_reservations s') = insert (?f r) (set (sd_reservations s) - {r})"
    unfolding s' by (rule set_upd_unique [OF r activatable_unique [OF tab r]])
  have "spend_open r" using r(2) by (simp add: activatable_def spend_open_def)
  then have "spend_ledger_ok (wd_ledger db) s'"
    using accounts_invD(2) [OF inv [unfolded st]] unfolding spend_ledger_ok_def rows by blast
  then show ?thesis using inv row by (simp add: accounts_inv_def st)
qed

lemma reserve_inv:
  assumes inv: "accounts_inv ((db, h), s)" and run: "ReserveManagedSandboxSpend env now newID (db, s) t sid r = (res, (db', s'))"
  shows "accounts_inv ((db', h), s')"
proof (cases "(db', s') = (db, s)")
  case False
  then obtain x rid where hold: "hold_spend now (db, s) t (new_spend r rid t ''sandbox'' sid now) = Inr (x, (db', s'))"
    and cov: "covered db t (ms_ReservedMicrousd r)" and ok: "\<not> sandbox_reservation_invalid env t sid r"
    using run by (auto simp: ReserveManagedSandboxSpend_def commit_tx_def bind_err_def split: if_splits option.splits sum.splits)
  show ?thesis
    by (rule hold_spend_inv [OF inv _ _ _ _ hold])
      (use cov ok in \<open>auto simp: covered_def new_spend_def spend_open_def sandbox_reservation_invalid_def split: option.splits\<close>)
qed (use inv in simp)

lemma finalize_sandbox_inv:
  assumes inv: "accounts_inv ((db, h), s)" and run: "finalizeManagedSandboxSpend env now (db, s) t sid d target why = (res, (db', s'))"
  shows "accounts_inv ((db', h), s')"
proof (cases "(db', s') = (db, s)")
  case False
  then obtain r actual where r: "managedSpendReservationByResourceTx s t ''sandbox'' sid = Inr r" "spend_open r"
    and target: "target = ''released'' \<or> target = ''settled''" and close: "close_spend now (db, s) t r actual target why = Inr ((), (db', s'))"
    using run by (auto simp: finalizeManagedSandboxSpend_def commit_tx_def bind_err_def split: if_splits sum.splits)
  show ?thesis by (rule close_spend_inv [OF inv reservation_of(1) [OF r(1)] r(2) reservation_of(3) [OF r(1)] target close])
qed (use inv in simp)

lemma finalize_deployment_inv:
  assumes inv: "accounts_inv ((db, h), s)" and run: "finalizeManagedDeploymentSpendTx env now (db, s) t name = Inr (u, (db', s'))"
  shows "accounts_inv ((db', h), s')"
proof (cases "(db', s') = (db, s)")
  case False
  then obtain r actual target why where r: "managedSpendReservationByResourceTx s t ''deployment'' name = Inr r" "spend_open r"
    and target: "target = ''released'' \<or> target = ''settled''" and close: "close_spend now (db, s) t r actual target why = Inr ((), (db', s'))"
    using run by (auto simp: finalizeManagedDeploymentSpendTx_def bind_err_def split: if_splits sum.splits option.splits)
  show ?thesis by (rule close_spend_inv [OF inv reservation_of(1) [OF r(1)] r(2) reservation_of(3) [OF r(1)] target close])
qed (use inv in simp)

lemma spend_step_inv [step_inv]: "spend_step a a' \<Longrightarrow> accounts_inv a \<Longrightarrow> accounts_inv a'"
proof (induction rule: spend_step.induct)
  case (elsewhere st st' s)
  then have "spend_ledger_ok (wd_ledger (fst st')) s"
    using entries_hosted [OF elsewhere(1)] unfolding accounts_inv_def spend_ledger_ok_def spend_entries_kept_def fst_conv snd_conv
    by (metis option.distinct(1))
  then show ?case using elsewhere hosted_step_inv by (simp add: accounts_inv_def)
next
  case (reserving env now newID db s t sid r res db' s' h)
  then show ?case using reserve_inv by blast
next
  case (activating now s t sid at0 res s' st)
  then show ?case
    by (auto simp: ActivateManagedSandboxSpend_def Let_def split: if_splits intro: activation_inv)
next
  case (releasing env now db s t sid why res db' s' h)
  then show ?case using finalize_sandbox_inv unfolding ReleaseManagedSandboxSpend_def by blast
next
  case (settling env now db s t sid ms why res db' s' h)
  then show ?case using finalize_sandbox_inv unfolding SettleManagedSandboxSpend_def by (auto split: if_splits)
next
  case (deploying db s now newID t name r res db' s' h)
  have "accounts_inv ((db', h), s')" if run: "reserveManagedDeploymentTx now newID (db, s) t name r = Inr (x, (db', s'))" for x
  proof -
    obtain rid where "hold_spend now (db, s) t (new_spend r rid t ''deployment'' name now) = Inr (x, (db', s'))"
      and cov: "covered db t (ms_ReservedMicrousd r)"
      using run by (auto simp: reserveManagedDeploymentTx_def bind_err_Inr split: if_splits)
    from hold_spend_inv [OF deploying(2) _ _ _ _ this(1)] cov show ?thesis
      by (auto simp: covered_def new_spend_def spend_open_def split: option.splits)
  qed
  with deploying show ?case by (auto simp: commit_tx_def split: sum.splits prod.splits)
next
  case (serving st s now t name)
  then show ?case by (rule activation_inv) (simp add: activate_deployment_def)
next
  case (deleting db s env now t name res db' s' h)
  then show ?case using finalize_deployment_inv [OF deleting(2)] by (auto simp: commit_tx_def split: sum.splits prod.splits)
qed (simp_all add: accounts_inv_frame [OF sandbox_ops_frame(1)] accounts_inv_frame [OF sandbox_ops_frame(2)] accounts_inv_frame [OF sandbox_ops_frame(3)]
    accounts_inv_frame [OF sandbox_ops_frame(4)] accounts_inv_frame [OF sandbox_ops_frame(5)])

lemma spend_steps_inv: "spend_step\<^sup>*\<^sup>* a a' \<Longrightarrow> accounts_inv a \<Longrightarrow> accounts_inv a'"
  by (induction rule: rtranclp_induct) (auto intro: spend_step_inv)

definition no_spend :: spend_db where
  "no_spend = \<lparr>sd_reservations = [], sd_sandboxes = [], sd_events = []\<rparr>"

definition no_accounts :: accounts where
  "no_accounts = ((empty_billing, empty_hosted), no_spend)"

lemma no_accounts_inv: "accounts_inv no_accounts"
proof -
  have "spend_outstanding no_spend = (\<lambda>_. 0)" by (simp add: spend_outstanding_def no_spend_def fun_eq_iff)
  then show ?thesis using empty_hosted_inv
    by (simp add: accounts_inv_def no_accounts_def spend_table_ok_def spend_ledger_ok_def no_spend_def empty_billing_def)
qed

lemma accounts_balance:
  assumes "accounts_inv ((db, h), s)"
  shows "account_ok (hosted_outstanding h t + spend_outstanding s t) (hosted_ledger_sum h t) (wd_wallets db t) (ledger_sum db t) (outstanding db t)"
  using wallet_invD(1) [OF hosted_invD(3) [OF accounts_invD(3) [OF assms]], of t] by simp

text \<open>C2.
  The books of the whole product close. Starting from empty tables, after any interleaving of all
  operations of all billing stores (credits, payments and refunds, managed usage, hosted Model API
  usage, and the holds of sandboxes and managed deployments), every wallet's reserved amount is exactly
  the sum of the open usage, hosted and spend reservations of its tenant, the reserve never exceeds
  the balance, and the balance less the debt is exactly the sum of the tenant's entries in the two
  ledgers. A tenant without a wallet has no open reservation and nothing booked.
\<close>

theorem books_close:
  assumes "spend_step\<^sup>*\<^sup>* no_accounts ((db, h), s)"
  shows "case wd_wallets db tenant of
      None \<Rightarrow> outstanding db tenant + hosted_outstanding h tenant + spend_outstanding s tenant = 0 \<and>
        ledger_sum db tenant + hosted_ledger_sum h tenant = 0
    | Some w \<Rightarrow> wl_reserved w = outstanding db tenant + hosted_outstanding h tenant + spend_outstanding s tenant \<and>
        wl_balance w - wl_debt w = ledger_sum db tenant + hosted_ledger_sum h tenant \<and>
        0 \<le> wl_reserved w \<and> wl_reserved w \<le> wl_balance w \<and> 0 \<le> wl_debt w"
  using accounts_balance [OF spend_steps_inv [OF assms no_accounts_inv], of tenant]
  by (auto simp: account_ok_def wallet_check_def split: option.splits)


section \<open>The life of a spend reservation\<close>

definition spend_evolves :: "managed_spend_reservation \<Rightarrow> managed_spend_reservation \<Rightarrow> bool" where
  "spend_evolves r r' \<longleftrightarrow>
     ms_ID r' = ms_ID r \<and> spend_key r' = spend_key r \<and> ms_ReservedMicrousd r' = ms_ReservedMicrousd r \<and>
     ms_RetailHourlyMicrousd r' = ms_RetailHourlyMicrousd r \<and> ms_RuntimeLimitSeconds r' = ms_RuntimeLimitSeconds r \<and>
     ms_CleanupAllowanceSeconds r' = ms_CleanupAllowanceSeconds r \<and> ms_PricingJSON r' = ms_PricingJSON r \<and>
     (\<not> spend_open r \<longrightarrow> r' = r) \<and> (ms_ActivatedAt r \<noteq> None \<longrightarrow> ms_ActivatedAt r' = ms_ActivatedAt r)"

lemma spend_evolves_refl: "spend_evolves r r"
  by (simp add: spend_evolves_def)

lemma spend_evolves_trans: "spend_evolves a b \<Longrightarrow> spend_evolves b c \<Longrightarrow> spend_evolves a c"
  unfolding spend_evolves_def by metis

definition table_evolves :: "spend_db \<Rightarrow> spend_db \<Rightarrow> bool" where
  "table_evolves s s' \<longleftrightarrow> (\<forall>r \<in> set (sd_reservations s). \<exists>r' \<in> set (sd_reservations s'). spend_evolves r r')"

lemma table_evolves_frame: "sd_reservations s' = sd_reservations s \<Longrightarrow> table_evolves s s'"
  unfolding table_evolves_def using spend_evolves_refl by auto

lemma table_evolves_update:
  assumes "sd_reservations s' = upd_where P f (sd_reservations s)" "\<And>r. r \<in> set (sd_reservations s) \<Longrightarrow> P r \<Longrightarrow> spend_evolves r (f r)"
  shows "table_evolves s s'"
proof -
  have "spend_evolves r (if P r then f r else r)" if "r \<in> set (sd_reservations s)" for r
    using assms(2) [OF that] spend_evolves_refl by simp
  then show ?thesis unfolding table_evolves_def assms(1) set_upd_where by blast
qed

lemma hold_evolves: "hold_spend now (db, s) t r = Inr (x, (db', s')) \<Longrightarrow> table_evolves s s'"
  unfolding table_evolves_def hold_spend_def bind_err_Inr
  by (auto dest!: insert_spendD(1)) (metis spend_evolves_refl)

lemma close_evolves:
  assumes "close_spend now (db, s) t r actual state why = Inr (u, (db', s'))" "spend_table_ok s" "r \<in> set (sd_reservations s)" "spend_open r"
  shows "table_evolves s s'"
proof (rule table_evolves_update)
  show "sd_reservations s' = upd_where (spend_id t (ms_ID r)) (closed_spend actual state why now) (sd_reservations s)"
    using assms(1) by (auto simp: close_spend_def bind_err_Inr)
  fix x
  assume "x \<in> set (sd_reservations s)" "spend_id t (ms_ID r) x"
  then have "x = r" using assms(2,3) by (auto simp: spend_table_ok_def spend_id_def distinct_map inj_on_def)
  then show "spend_evolves x (closed_spend actual state why now x)"
    using assms(4) by (simp add: spend_evolves_def closed_spend_def spend_key_def)
qed

lemma activation_evolves: "activatable t kind name r \<Longrightarrow> spend_evolves r (activate_spend at0 now r)"
  by (cases "ms_ActivatedAt r") (auto simp: spend_evolves_def activate_spend_def spend_key_def activatable_def spend_open_def)

lemma finalize_evolves:
  assumes "finalizeManagedSandboxSpend env now (db, s) t sid d target why = (res, (db', s'))" "spend_table_ok s"
  shows "table_evolves s s'"
  using assms reservation_of(1) close_evolves table_evolves_frame [OF refl]
  by (fastforce simp: finalizeManagedSandboxSpend_def commit_tx_def bind_err_def split: if_splits sum.splits prod.splits)

lemma spend_step_evolves:
  assumes "spend_step a a'" "accounts_inv a"
  shows "table_evolves (snd a) (snd a')"
  using assms
proof (induction rule: spend_step.induct)
  case (reserving env now newID db s t sid r res db' s' h)
  then show ?case
    using table_evolves_frame [OF refl, of s] hold_evolves
    by (auto simp: ReserveManagedSandboxSpend_def commit_tx_def bind_err_def split: if_splits option.splits sum.splits)
next
  case (activating now s t sid at0 res s' st)
  then show ?case
    using table_evolves_frame [OF refl, of s] activation_evolves
    by (auto simp: ActivateManagedSandboxSpend_def Let_def split: if_splits intro!: table_evolves_update)
next
  case (releasing env now db s t sid why res db' s' h)
  then show ?case using finalize_evolves accounts_invD(1) unfolding ReleaseManagedSandboxSpend_def by fastforce
next
  case (settling env now db s t sid ms why res db' s' h)
  then show ?case using finalize_evolves accounts_invD(1) table_evolves_frame [OF refl, of s]
    unfolding SettleManagedSandboxSpend_def by (fastforce split: if_splits)
next
  case (deploying db s now newID t name r res db' s' h)
  then show ?case
    using table_evolves_frame [OF refl, of s] hold_evolves
    by (auto simp: reserveManagedDeploymentTx_def commit_tx_def bind_err_def split: if_splits sum.splits)
next
  case (serving st s now t name)
  then show ?case using activation_evolves by (auto simp: activate_deployment_def intro!: table_evolves_update)
next
  case (deleting db s env now t name res db' s' h)
  then show ?case
    using table_evolves_frame [OF refl, of s] reservation_of(1) close_evolves accounts_invD(1) [OF deleting(2)]
    by (fastforce simp: finalizeManagedDeploymentSpendTx_def commit_tx_def bind_err_def split: if_splits sum.splits option.splits prod.splits)
qed (auto dest: sandbox_ops_frame intro: table_evolves_frame)

lemma spend_steps_evolve:
  assumes "spend_step\<^sup>*\<^sup>* a a'" "accounts_inv a" "r \<in> set (sd_reservations (snd a))"
  shows "\<exists>r' \<in> set (sd_reservations (snd a')). spend_evolves r r'"
  using assms
proof (induction rule: rtranclp_induct)
  case base
  then show ?case using spend_evolves_refl by blast
next
  case (step b c)
  then obtain r' where "r' \<in> set (sd_reservations (snd b))" "spend_evolves r r'" by blast
  moreover have "table_evolves (snd b) (snd c)" using spend_step_evolves [OF step(2)] spend_steps_inv [OF step(1)] step.prems(1) by blast
  ultimately show ?case unfolding table_evolves_def using spend_evolves_trans by blast
qed

section \<open>Settlement\<close>

lemma wallet_update_ok:
  assumes "wd_wallets db t = Some w" "wallet_check (f w)" "is_i64 (wl_balance (f w))" "is_i64 (wl_debt (f w))"
  shows "update_wallet t f db = Inr (db\<lparr>wd_wallets := (wd_wallets db)(t \<mapsto> f w)\<rparr>)"
  using assms by (auto simp: update_wallet_def wallet_check_def is_i64_def min_i64_def max_i64_def Let_def)

lemma reconcile_debt_ok:
  assumes w: "wd_wallets db t = Some w" "wallet_check w" "is_i64 (wl_balance w)" "is_i64 (wl_debt w)"
  shows "\<exists>w'. reconcileManagedDebtTx t stamp db = Inr (db\<lparr>wd_wallets := (wd_wallets db)(t \<mapsto> w')\<rparr>) \<and>
    wl_balance w' - wl_debt w' = wl_balance w - wl_debt w \<and> wl_reserved w' = wl_reserved w"
proof -
  have av: "i64 (wl_balance w - wl_reserved w) = wl_balance w - wl_reserved w"
    using w(2,3) by (intro i64_id) (simp add: wallet_check_def is_i64_def min_i64_def max_i64_def)
  have same: "db\<lparr>wd_wallets := (wd_wallets db)(t \<mapsto> w)\<rparr> = db" using w(1) by (simp add: fun_upd_idem)
  show ?thesis
  proof (cases "wl_balance w - wl_reserved w \<le> 0 \<or> wl_debt w = 0")
    case True
    then have "reconcileManagedDebtTx t stamp db = Inr db" using w(1) by (simp add: reconcileManagedDebtTx_def av)
    with same show ?thesis by (intro exI [of _ w]) simp
  next
    case False
    define k where "k = (if wl_debt w > wl_balance w - wl_reserved w then wl_balance w - wl_reserved w else wl_debt w)"
    let ?f = "\<lambda>w. w\<lparr>wl_balance := wl_balance w - k, wl_debt := wl_debt w - k, wl_updated_at := stamp\<rparr>"
    have k: "0 \<le> k" "k \<le> wl_balance w - wl_reserved w" "k \<le> wl_debt w"
      using False w(2) by (auto simp: k_def wallet_check_def)
    have "reconcileManagedDebtTx t stamp db = update_wallet t ?f db"
      using False w(1) by (simp add: reconcileManagedDebtTx_def av k_def Let_def)
    also have "\<dots> = Inr (db\<lparr>wd_wallets := (wd_wallets db)(t \<mapsto> ?f w)\<rparr>)"
      using k w by (intro wallet_update_ok) (auto simp: wallet_check_def is_i64_def min_i64_def max_i64_def)
    finally show ?thesis by (intro exI [of _ "?f w"]) simp
  qed
qed

text \<open>Closing an open reservation succeeds for every charge within it, and moves exactly that charge.\<close>

lemma close_spend_ok:
  assumes inv: "accounts_inv ((db, h), s)" and r: "r \<in> set (sd_reservations s)" "spend_open r" "ms_TenantID r = t"
    and actual: "0 \<le> actual" "actual \<le> ms_ReservedMicrousd r" and fresh: "\<not> ledger_has_id (''settlement_'' @ ms_ID r) db"
    and w: "wd_wallets db t = Some w"
  shows "\<exists>db' w'. close_spend now (db, s) t r actual state why = Inr ((), (db', s\<lparr>sd_reservations :=
      upd_where (spend_id t (ms_ID r)) (closed_spend actual state why now) (sd_reservations s)\<rparr>)) \<and>
    wd_wallets db' = (wd_wallets db)(t \<mapsto> w') \<and> wl_reserved w' = wl_reserved w - ms_ReservedMicrousd r \<and>
    wl_balance w' - wl_debt w' = wl_balance w - wl_debt w - actual \<and>
    wd_ledger db' = wd_ledger db @ (if actual = 0 then [] else [spend_entry t (ms_ID r) (- actual) why now])"
proof -
  note tab = accounts_invD(1) [OF inv]
  have acc: "wallet_check w" "is_i64 (wl_balance w)" "is_i64 (wl_debt w)"
    "wl_reserved w = outstanding db t + (hosted_outstanding h t + spend_outstanding s t)"
    using accounts_balance [OF inv, of t] w by (auto simp: account_ok_def)
  have "ms_ReservedMicrousd r \<le> spend_outstanding s t"
    using spend_held_le [OF tab r(1), of t] r(2,3) by (simp add: spend_held_def)
  moreover have "0 \<le> outstanding db t" "0 \<le> hosted_outstanding h t"
    using outstanding_nonneg [OF wallet_invD(2) [OF hosted_invD(3) [OF accounts_invD(3) [OF inv]]]]
      hosted_outstanding_nonneg [OF hosted_invD(1) [OF accounts_invD(3) [OF inv]]] by auto
  ultimately have held: "ms_ReservedMicrousd r \<le> wl_reserved w" using acc(4) by simp
  let ?f = "\<lambda>w. w\<lparr>wl_balance := wl_balance w - actual, wl_reserved := wl_reserved w - ms_ReservedMicrousd r, wl_updated_at := now\<rparr>"
  have ok: "wallet_check (?f w)" "is_i64 (wl_balance (?f w))" "is_i64 (wl_debt (?f w))"
    using acc held actual by (auto simp: wallet_check_def is_i64_def min_i64_def max_i64_def)
  define db1 where "db1 = db\<lparr>wd_wallets := (wd_wallets db)(t \<mapsto> ?f w)\<rparr>"
  have upd: "update_wallet t ?f db = Inr db1" unfolding db1_def by (rule wallet_update_ok [OF w]) (use ok in simp_all)
  define l where "l = spend_entry t (ms_ID r) (- actual) why now"
  define db2 where "db2 = (if actual = 0 then db1 else append_ledger l db1)"
  have "\<not> has_key ledger_spend_key (ledger_spend_key l) (wd_ledger db1)"
    using accounts_invD(1,2) [OF inv] r(1,2)
    by (auto simp: has_key_def ledger_spend_key_def l_def spend_entry_def db1_def spend_ledger_ok_def spend_table_ok_def distinct_map inj_on_def
        split: option.splits)
  then have ins: "(if actual > 0 then insert_spend_settlement t (ms_ID r) (- actual) why now db1 else Inr db1) = Inr db2"
    using actual(1) fresh by (auto simp: insert_spend_settlement_def insert_ledger_def ledger_has_id_def db2_def l_def spend_entry_def db1_def Let_def)
  have w2: "wd_wallets db2 t = Some (?f w)" by (simp add: db2_def db1_def)
  obtain w' where debt: "reconcileManagedDebtTx t now db2 = Inr (db2\<lparr>wd_wallets := (wd_wallets db2)(t \<mapsto> w')\<rparr>)"
    "wl_balance w' - wl_debt w' = wl_balance (?f w) - wl_debt (?f w)" "wl_reserved w' = wl_reserved (?f w)"
    using reconcile_debt_ok [OF w2 ok, of now] by blast
  have "close_spend now (db, s) t r actual state why = Inr ((), (db2\<lparr>wd_wallets := (wd_wallets db2)(t \<mapsto> w')\<rparr>, s\<lparr>sd_reservations :=
      upd_where (spend_id t (ms_ID r)) (closed_spend actual state why now) (sd_reservations s)\<rparr>))"
    unfolding close_spend_def fst_conv snd_conv upd bind_err_simps ins using debt(1) actual(1) by simp
  then show ?thesis
    using debt(2,3) by (intro exI [of _ "db2\<lparr>wd_wallets := (wd_wallets db2)(t \<mapsto> w')\<rparr>"] exI [of _ w'])
      (auto simp: db2_def db1_def l_def append_ledger_def)
qed

lemma reservation_lookup_spend:
  assumes "spend_table_ok s" "r \<in> set (sd_reservations s)"
  shows "managedSpendReservationByResourceTx s (ms_TenantID r) (ms_ResourceType r) (ms_ResourceName r) = Inr r"
proof -
  have "find (resource_key (ms_TenantID r) (ms_ResourceType r) (ms_ResourceName r)) (sd_reservations s) = Some r"
    using assms by (intro find_unique) (auto simp: resource_key_def spend_table_ok_def spend_key_def distinct_map inj_on_def)
  then show ?thesis by (simp add: managedSpendReservationByResourceTx_def)
qed

lemma metered_cost_exact:
  assumes "spend_check r" "ms_ResourceType r = ''sandbox'' \<Longrightarrow> ms_RuntimeLimitSeconds r \<le> 30 * 24 * 60 * 60" "ms_ResourceType r = ''sandbox''"
    "0 \<le> ms" "is_i64 (ms * 1000000)" "ms_RetailHourlyMicrousd r \<le> 100000000"
  shows "metered_cost oob r (capped (i64 (ms_RuntimeLimitSeconds r * Second)) (i64 (ms * Millisecond))) =
    Inr (min (ms_ReservedMicrousd r) (ceil_div (ms_RetailHourlyMicrousd r * started_seconds (min (ms * 1000000) (ms_RuntimeLimitSeconds r * 1000000000))) 3600))"
proof -
  have limit: "0 < ms_RuntimeLimitSeconds r" "ms_RuntimeLimitSeconds r \<le> 2592000" and price: "0 \<le> ms_RetailHourlyMicrousd r"
    using assms(1-3) by (auto simp: spend_check_def)
  have "i64 (ms_RuntimeLimitSeconds r * Second) = ms_RuntimeLimitSeconds r * 1000000000" "i64 (ms * Millisecond) = ms * 1000000"
    using limit assms(5) by (auto intro!: i64_id simp: is_i64_def min_i64_def max_i64_def)
  then have d: "capped (i64 (ms_RuntimeLimitSeconds r * Second)) (i64 (ms * Millisecond)) = min (ms * 1000000) (ms_RuntimeLimitSeconds r * 1000000000)"
    by (simp add: capped_def)
  define d where "d = min (ms * 1000000) (ms_RuntimeLimitSeconds r * 1000000000)"
  have range: "0 \<le> d" "d \<le> 2592000 * 1000000000" using limit assms(4) by (auto simp: d_def)
  then have secs: "0 \<le> started_seconds d" "started_seconds d \<le> 2592000"
    unfolding started_seconds_def by (auto intro!: ceil_div_nonneg ceil_div_least)
  then have "ms_RetailHourlyMicrousd r * started_seconds d \<le> 100000000 * 2592000"
    using price assms(6) by (intro mult_mono) auto
  then have "DurationCostMicrousd oob (ms_RetailHourlyMicrousd r) d = Inr (ceil_div (ms_RetailHourlyMicrousd r * started_seconds d) 3600)"
    using DurationCost_spec [OF price range(1), of oob] range by (simp add: max_i64_def)
  then show ?thesis unfolding d metered_cost_def d_def by (simp add: capped_def)
qed

text \<open>C8.
  Settling a sandbox charges exactly its metered running time and frees the whole hold. In every
  consistent state, for every open reservation of a sandbox (priced within the policy's limit) and
  every metered running time, the settlement succeeds. The charge is the hourly price of the started
  seconds, of no more time than the reserved lifetime, rounded up to a micro-dollar and never more
  than the hold. The wallet's reserve falls by the whole hold, its balance less debt by exactly the
  charge, the ledger gains exactly one entry of that charge (none when nothing is due), no other wallet
  changes, and the reservation is closed as settled.
\<close>

theorem sandbox_settlement_exact:
  assumes inv: "accounts_inv ((db, h), s)" and r: "r \<in> set (sd_reservations s)" "spend_open r" "ms_ResourceType r = ''sandbox''"
    and ids: "ms_TenantID r \<noteq> ''''" "ms_ResourceName r \<noteq> ''''" "why \<noteq> ''''"
    and ms: "0 \<le> ms" "is_i64 (ms * 1000000)" and price: "ms_RetailHourlyMicrousd r \<le> 100000000"
    and fresh: "\<not> ledger_has_id (''settlement_'' @ ms_ID r) db"
  defines "charge \<equiv> min (ms_ReservedMicrousd r)
      (ceil_div (ms_RetailHourlyMicrousd r * started_seconds (min (ms * 1000000) (ms_RuntimeLimitSeconds r * 1000000000))) 3600)"
  shows "\<exists>db' w w'. SettleManagedSandboxSpend env now (db, s) (ms_TenantID r) (ms_ResourceName r) ms why =
      (Inr (), (db', s\<lparr>sd_reservations := upd_where (spend_id (ms_TenantID r) (ms_ID r)) (closed_spend charge ''settled'' why now) (sd_reservations s)\<rparr>)) \<and>
    wd_wallets db (ms_TenantID r) = Some w \<and> wd_wallets db' = (wd_wallets db)(ms_TenantID r \<mapsto> w') \<and>
    wl_reserved w' = wl_reserved w - ms_ReservedMicrousd r \<and> wl_balance w' - wl_debt w' = wl_balance w - wl_debt w - charge \<and>
    wd_ledger db' = wd_ledger db @ (if charge = 0 then [] else [spend_entry (ms_TenantID r) (ms_ID r) (- charge) why now])"
proof -
  note tab = accounts_invD(1) [OF inv]
  note check = spend_rowD [OF tab r(1)]
  obtain w where w: "wd_wallets db (ms_TenantID r) = Some w" using open_spend_wallet [OF inv r(1,2)] by blast
  have "0 \<le> charge" "charge \<le> ms_ReservedMicrousd r"
    using check(1) ms(1) by (auto simp: charge_def spend_check_def started_seconds_def intro!: ceil_div_nonneg mult_nonneg_nonneg)
  note close = close_spend_ok [OF inv r(1,2) refl this fresh w, of now "''settled''" why]
  have "SettleManagedSandboxSpend env now (db, s) (ms_TenantID r) (ms_ResourceName r) ms why =
      commit_tx (db, s) (close_spend now (db, s) (ms_TenantID r) r charge ''settled'' why)"
    using ids ms(1) reservation_lookup_spend [OF tab r(1)] r(2,3) metered_cost_exact [OF check r(3) ms price, of "se_oob env"]
    by (simp add: SettleManagedSandboxSpend_def finalizeManagedSandboxSpend_def charge_def)
  with close w show ?thesis by (auto simp: commit_tx_def)
qed

text \<open>C40.
  A spend reservation is never lost, reopened or re-priced. Along every interleaving of all billing
  operations it keeps its identity, resource, hold, price and limits; once it is settled or released no
  operation changes it again; and the moment its billed time starts is fixed once.
\<close>

theorem spend_reservation_final:
  assumes "spend_step\<^sup>*\<^sup>* a a'" "accounts_inv a" "r \<in> set (sd_reservations (snd a))"
  shows "\<exists>r' \<in> set (sd_reservations (snd a')). ms_ID r' = ms_ID r \<and> ms_TenantID r' = ms_TenantID r \<and>
    ms_ResourceType r' = ms_ResourceType r \<and> ms_ResourceName r' = ms_ResourceName r \<and>
    ms_ReservedMicrousd r' = ms_ReservedMicrousd r \<and> ms_RetailHourlyMicrousd r' = ms_RetailHourlyMicrousd r \<and>
    ms_RuntimeLimitSeconds r' = ms_RuntimeLimitSeconds r \<and>
    (\<not> spend_open r \<longrightarrow> r' = r) \<and> (ms_ActivatedAt r \<noteq> None \<longrightarrow> ms_ActivatedAt r' = ms_ActivatedAt r)"
  using spend_steps_evolve [OF assms] by (auto simp: spend_evolves_def spend_key_def)

section \<open>Metering\<close>










lemma found_sandbox: "find P xs = Some x \<Longrightarrow> x \<in> set xs \<and> P x"
  by (induction xs) (auto split: if_splits)









section \<open>Examples\<close>

definition spend_quota :: sandbox_quota where
  "spend_quota = \<lparr>sq_MaxActive = 1, sq_MaxRetained = 3, sq_GlobalMaxActive = 9, sq_GlobalMaxRetained = 9\<rparr>"

definition spend_env :: sandbox_env where
  "spend_env = \<lparr>se_url = (\<lambda>_. None), se_json_valid = (\<lambda>_. True),
     se_pricing = (\<lambda>_. Some spend_quota),
     se_canonical = Some, se_sha256 = (\<lambda>_. ''digest''), se_rfc3339 = (\<lambda>_. ''time''), se_tenant_exists = (\<lambda>_. True), se_oob = (\<lambda>_. 0)\<rparr>"

definition spend_sandbox :: "string \<Rightarrow> native_sandbox" where
  "spend_sandbox sid = \<lparr>ns_ID = sid, ns_TenantID = ''cust'', ns_CreatedBy = ''ada'', ns_DisplayName = ''box'',
     ns_Purpose = ''blank_computer'', ns_SourceType = ''empty_workspace'', ns_SourceReference = '''', ns_TemplateID = ''cpu'',
     ns_ModelEndpoint = '''', ns_BrezelProjectID = '''', ns_BrezelWorkspaceID = '''', ns_BrezelSandboxID = '''',
     ns_Status = ''running'', ns_FailureCode = '''', ns_IdempotencyKey = sid, ns_InputDigest = replicate 64 CHR ''a'',
     ns_CreatedAt = 0, ns_UpdatedAt = 0, ns_LastActiveAt = 0, ns_BillingStateSince = 0, ns_DeletedAt = None\<rparr>"

definition spend_request :: "string \<Rightarrow> managed_spend_reservation" where
  "spend_request sid = \<lparr>ms_ID = '''', ms_TenantID = '''', ms_ResourceType = ''sandbox'', ms_ResourceName = sid, ms_Provider = ''brezel'',
     ms_State = '''', ms_Currency = '''', ms_SupplierHourlyMicrousd = 180000, ms_RetailHourlyMicrousd = 360000,
     ms_ReservedMicrousd = 360000, ms_ActualMicrousd = 0, ms_GrossMarginBPS = 5000, ms_RuntimeLimitSeconds = 3600,
     ms_CleanupAllowanceSeconds = 0, ms_PricingJSON = ''{}'', ms_Resolution = '''', ms_ExpiresAt = 0, ms_ActivatedAt = None,
     ms_CreatedAt = 0, ms_UpdatedAt = 0\<rparr>"

definition spend_held_row :: "string \<Rightarrow> string \<Rightarrow> managed_spend_reservation" where
  "spend_held_row rid sid = new_spend (spend_request sid) rid ''cust'' ''sandbox'' sid 20"

definition one_sandbox :: spend_db where
  "one_sandbox = no_spend\<lparr>sd_sandboxes := [stamped_sandbox 10 (spend_sandbox ''s1'')]\<rparr>"

definition held_wallet :: payment_db where
  "held_wallet = example_funded\<lparr>wd_wallets := (wd_wallets example_funded)(''cust'' \<mapsto>
     \<lparr>wl_balance = 5000000, wl_reserved = 360000, wl_debt = 0, wl_updated_at = 20\<rparr>)\<rparr>"

definition held_spend :: spend_db where
  "held_spend = one_sandbox\<lparr>sd_reservations := [spend_held_row ''h1'' ''s1'']\<rparr>"

lemma spend_trim: "TrimSpace ''ada'' = ''ada''" "TrimSpace ''box'' = ''box''"
  by (rule TrimSpace_canonical, rule canonicalI; simp)+

lemma spend_hex: "lower_hex CHR ''a''"
  by code_simp

lemma spend_sandbox_valid: "sid \<noteq> '''' \<Longrightarrow> length sid < 10 \<Longrightarrow> validateNativeSandbox spend_env (spend_sandbox sid) = None"
  by (simp add: validateNativeSandbox_def spend_sandbox_def source_error_def nativeSandboxStatuses_def spend_trim)

lemma spend_sandbox_digest: "lower_hex_digest (ns_InputDigest (spend_sandbox sid))"
  by (simp add: lower_hex_digest_def spend_sandbox_def spend_hex)

lemma created_sandbox: "CreateNativeSandbox spend_env 10 (Inr ''x'') no_spend (spend_sandbox ''s1'') =
    (Inr (stamped_sandbox 10 (spend_sandbox ''s1''), True), one_sandbox)"
proof -
  have "insert_sandbox spend_env (stamped_sandbox 10 ((spend_sandbox ''s1'')\<lparr>ns_ID := ''s1''\<rparr>)) no_spend = Inr (Some one_sandbox)"
    using spend_sandbox_digest [of "''s1''"]
    by (simp add: insert_sandbox_def one_sandbox_def no_spend_def stamped_sandbox_def provider_refs_taken_def spend_env_def spend_sandbox_def)
  moreover have "NativeSandbox one_sandbox ''cust'' ''s1'' = Inr (stamped_sandbox 10 (spend_sandbox ''s1''))"
    by (simp add: NativeSandbox_def nativeSandbox_def one_sandbox_def sandbox_key_def spend_sandbox_def stamped_sandbox_def)
  ultimately show ?thesis by (simp add: CreateNativeSandbox_def spend_sandbox_valid) (simp add: spend_sandbox_def)
qed

lemma reserved_sandbox: "ReserveManagedSandboxSpend spend_env 20 (Inr ''h1'') (example_funded, one_sandbox) ''cust'' ''s1'' (spend_request ''s1'') =
    (Inr (spend_held_row ''h1'' ''s1'', True), (held_wallet, held_spend))"
proof -
  have "quota_conflict one_sandbox ''cust'' spend_quota = None"
    by (simp add: spend_quota_def quota_conflict_def active_count_def retained_count_def rows_affected_def one_sandbox_def stamped_sandbox_def spend_sandbox_def active_statuses_def)
  moreover have "covered example_funded ''cust'' 360000"
    by (simp add: covered_def example_funded_wallet i64_id is_i64_def min_i64_def max_i64_def)
  moreover have "hold_spend 20 (example_funded, one_sandbox) ''cust'' (spend_held_row ''h1'' ''s1'') = Inr (spend_held_row ''h1'' ''s1'', held_wallet, held_spend)"
    by (simp add: hold_spend_def insert_spend_def spend_row_def spend_held_row_def new_spend_def spend_request_def spend_check_def one_sandbox_def
        no_spend_def held_spend_def held_wallet_def update_wallet_def example_funded_wallet wallet_check_def is_i64_def min_i64_def max_i64_def)
  moreover have "\<not> sandbox_reservation_invalid spend_env ''cust'' ''s1'' (spend_request ''s1'')"
    by (simp add: sandbox_reservation_invalid_def spend_env_def spend_request_def)
  moreover have "managedSpendReservationByResourceTx one_sandbox ''cust'' ''sandbox'' ''s1'' = Inl ErrNotFound"
    by (simp add: managedSpendReservationByResourceTx_def one_sandbox_def no_spend_def)
  moreover have "\<exists>row \<in> set (sd_sandboxes one_sandbox). sandbox_key ''cust'' ''s1'' row \<and> ns_DeletedAt row = None"
    by (simp add: one_sandbox_def sandbox_key_def stamped_sandbox_def spend_sandbox_def)
  moreover have "ms_ReservedMicrousd (spend_request ''s1'') = 360000" "se_pricing spend_env x = Some spend_quota" "\<not> quota_invalid spend_quota" for x
    by (simp_all add: spend_env_def quota_invalid_def spend_quota_def spend_request_def)
  ultimately show ?thesis by (simp add: ReserveManagedSandboxSpend_def commit_tx_def spend_held_row_def)
qed

lemma held_run: "spend_step\<^sup>*\<^sup>* no_accounts ((held_wallet, empty_hosted), held_spend)"
proof -
  have "billing_step empty_billing example_funded"
    unfolding example_funded_def by (rule billing_step.credit [OF prod.collapse [symmetric]])
  then have "spend_step no_accounts ((example_funded, empty_hosted), no_spend)"
    unfolding no_accounts_def by (intro spend_step.elsewhere hosted_step.managed)
  moreover have "spend_step ((example_funded, empty_hosted), no_spend) ((example_funded, empty_hosted), one_sandbox)"
    using created_sandbox by (rule spend_step.creating)
  moreover have "spend_step ((example_funded, empty_hosted), one_sandbox) ((held_wallet, empty_hosted), held_spend)"
    using reserved_sandbox by (rule spend_step.reserving)
  ultimately show ?thesis by (meson rtranclp.rtrancl_into_rtrancl rtranclp.rtrancl_refl)
qed

lemma held_inv: "accounts_inv ((held_wallet, empty_hosted), held_spend)"
  using held_run no_accounts_inv by (rule spend_steps_inv)

lemma held_row:
  "spend_held_row ''h1'' ''s1'' \<in> set (sd_reservations held_spend)" "spend_open (spend_held_row ''h1'' ''s1'')"
  "ms_TenantID (spend_held_row ''h1'' ''s1'') = ''cust''" "ms_ResourceType (spend_held_row ''h1'' ''s1'') = ''sandbox''"
  "ms_ResourceName (spend_held_row ''h1'' ''s1'') = ''s1''" "ms_ID (spend_held_row ''h1'' ''s1'') = ''h1''"
  "ms_ReservedMicrousd (spend_held_row ''h1'' ''s1'') = 360000" "ms_RetailHourlyMicrousd (spend_held_row ''h1'' ''s1'') = 360000"
  "ms_RuntimeLimitSeconds (spend_held_row ''h1'' ''s1'') = 3600"
  by (simp_all add: held_spend_def spend_held_row_def new_spend_def spend_request_def spend_open_def)

lemma held_wallet_row: "wd_wallets held_wallet ''cust'' = Some \<lparr>wl_balance = 5000000, wl_reserved = 360000, wl_debt = 0, wl_updated_at = 20\<rparr>"
  by (simp add: held_wallet_def)

theorem books_close_witness:
  "\<exists>w. wd_wallets held_wallet ''cust'' = Some w \<and> wl_reserved w = 360000 \<and>
     wl_reserved w = outstanding held_wallet ''cust'' + hosted_outstanding empty_hosted ''cust'' + spend_outstanding held_spend ''cust'' \<and>
     wl_balance w - wl_debt w = ledger_sum held_wallet ''cust'' + hosted_ledger_sum empty_hosted ''cust''"
  using books_close [OF held_run, of "''cust''"] by (simp add: held_wallet_row)

lemma held_ledger: "\<not> ledger_has_id (''settlement_h1'') held_wallet"
  by (simp add: held_wallet_def example_funded_def example_credit_defs)

theorem sandbox_settlement_exact_witness:
  "\<exists>db' s' w'. SettleManagedSandboxSpend spend_env 30 (held_wallet, held_spend) ''cust'' ''s1'' 9500 ''deleted'' = (Inr (), (db', s')) \<and>
     wd_wallets db' ''cust'' = Some w' \<and> wl_reserved w' = 0 \<and> wl_balance w' - wl_debt w' = 4999000"
proof -
  note exact = sandbox_settlement_exact [OF held_inv held_row(1,2,4), of "''deleted''" 9500 spend_env 30]
  have "is_i64 (9500 * 1000000)" by (simp add: is_i64_def min_i64_def max_i64_def)
  moreover have "min 360000 (ceil_div (360000 * started_seconds (min (9500 * 1000000) (3600 * 1000000000))) 3600) = 1000"
    by (simp add: started_seconds_def ceil_div_def)
  ultimately show ?thesis using exact held_ledger by (auto simp: held_row held_wallet_row)
qed

theorem spend_reservation_final_witness:
  "\<exists>r' \<in> set (sd_reservations (snd (snd (SettleManagedSandboxSpend spend_env 30 (held_wallet, held_spend) ''cust'' ''s1'' 9500 ''deleted'')))).
     ms_ID r' = ''h1'' \<and> ms_ResourceName r' = ''s1'' \<and> ms_ReservedMicrousd r' = 360000"
proof -
  have "spend_step ((held_wallet, empty_hosted), held_spend)
      ((fst (snd (SettleManagedSandboxSpend spend_env 30 (held_wallet, held_spend) ''cust'' ''s1'' 9500 ''deleted'')), empty_hosted),
       snd (snd (SettleManagedSandboxSpend spend_env 30 (held_wallet, held_spend) ''cust'' ''s1'' 9500 ''deleted'')))"
    by (rule spend_step.settling, unfold prod.collapse) (rule prod.collapse [symmetric])
  from spend_reservation_final [OF r_into_rtranclp [where r = spend_step, OF this] held_inv, of "spend_held_row ''h1'' ''s1''"]
  show ?thesis by (auto simp: held_row)
qed



section \<open>Gaps\<close>

text \<open>
  The capacity limit of a workspace can be passed by retrying. The workspace has one active sandbox,
  its limit. A second creation is refused for capacity, and the handler marks its row \<open>failed\<close>, which
  the count leaves out; the retry with the same idempotency key finds the row, reserves again, is
  granted, and the workspace ends with two active sandboxes.
\<close>

definition two_sandboxes :: "string \<Rightarrow> spend_db" where
  "two_sandboxes status = held_spend\<lparr>sd_sandboxes := sd_sandboxes held_spend @
     [(stamped_sandbox 30 (spend_sandbox ''s2''))\<lparr>ns_Status := status\<rparr>]\<rparr>"

lemma two_sandboxes_active:
  "active_count (\<lambda>r. ns_TenantID r = ''cust'') (two_sandboxes status) = (if status \<in> active_statuses then 2 else 1)"
  "active_count (\<lambda>_. True) (two_sandboxes status) = (if status \<in> active_statuses then 2 else 1)"
  by (simp_all add: active_count_def rows_affected_def two_sandboxes_def held_spend_def one_sandbox_def stamped_sandbox_def spend_sandbox_def active_statuses_def)

lemma two_sandboxes_retained:
  "retained_count P (two_sandboxes status) \<le> 2"
  by (simp add: retained_count_def rows_affected_def two_sandboxes_def held_spend_def one_sandbox_def)

lemma capacity_retry_bypass:
  shows "quota_conflict (two_sandboxes ''creating_workspace'') ''cust'' spend_quota = Some (ErrConflict ''managed sandbox capacity'')"
    and "quota_conflict (two_sandboxes ''failed'') ''cust'' spend_quota = None"
    and "sq_MaxActive spend_quota < active_count (\<lambda>r. ns_TenantID r = ''cust'') (two_sandboxes ''running'')"
  using two_sandboxes_retained [of "\<lambda>r. ns_TenantID r = ''cust''" "''failed''"] two_sandboxes_retained [of "\<lambda>_. True" "''failed''"]
  by (auto simp: quota_conflict_def spend_quota_def two_sandboxes_active active_statuses_def)

text \<open>
  \<open>RecordNativeSandboxTransition\<close> refuses to reopen a deleted sandbox, \<open>SetNativeSandboxStatus\<close> does
  not: the command, file and preview handlers write the status they read at their start, and a
  deletion in between is undone, with \<open>deleted_at\<close> still set.
\<close>

lemma status_reopens_deleted:
  assumes "find (sandbox_key tn sid) (sd_sandboxes s) = Some n" "ns_Status n = ''deleted''" "ns_DeletedAt n = Some d"
  shows "fst (RecordNativeSandboxTransition env now s tn sid ''running'' code oid etype at0) \<noteq> Inr r"
    and "\<exists>n'. fst (SetNativeSandboxStatus now s tn sid ''running'' code) = Inr n' \<and> ns_Status n' = ''running'' \<and> ns_DeletedAt n' = Some d"
proof -
  show "fst (RecordNativeSandboxTransition env now s tn sid ''running'' code oid etype at0) \<noteq> Inr r"
    using assms by (simp add: RecordNativeSandboxTransition_def)
  have n: "n \<in> set (sd_sandboxes s)" "sandbox_key tn sid n" using found_sandbox [OF assms(1)] by simp_all
  have "find (sandbox_key tn sid) (upd_where (sandbox_key tn sid) f xs) = map_option f (find (sandbox_key tn sid) xs)"
    if "\<And>x. sandbox_key tn sid (f x) = sandbox_key tn sid x" for f xs
    using that by (induction xs) (auto simp: upd_where_def)
  then have "find (sandbox_key tn sid) (sd_sandboxes (set_sandbox tn sid (status_row ''running'' code now now) s)) = Some (status_row ''running'' code now now n)"
    using assms(1) by (simp add: set_sandbox_def status_row_def sandbox_key_def)
  moreover have "rows_affected (sandbox_key tn sid) (sd_sandboxes s) \<noteq> 0" using n by (auto simp: rows_affected_def filter_empty_conv)
  ultimately show "\<exists>n'. fst (SetNativeSandboxStatus now s tn sid ''running'' code) = Inr n' \<and> ns_Status n' = ''running'' \<and> ns_DeletedAt n' = Some d"
    using assms(3) by (simp add: SetNativeSandboxStatus_def nativeSandboxStatuses_def NativeSandbox_def nativeSandbox_def status_row_def)
qed

end
