(* ===== verification/Spec2Isabelle.thy ===== *)
theory Spec2Isabelle
  imports Operation_Worker Reconciliation Payments Request_Quota Admission Autoscale_Store Capacity Hosted_Accounts Usage_Reconciler External_Budget Campaign Evolution Spend_Accounts
begin

text \<open>
  InferCrane: a verification library for the inference control plane under \<open>src/\<close>.

  InferCrane runs model deployments for tenants and sells them inference. A control plane keeps its
  state in PostgreSQL (\<open>src/internal/store\<close>), workers execute durable operations against it, a data
  plane admits and forwards requests, and money moves through a prepaid wallet. The library models
  the parts whose correctness the product depends on: exclusive and fenced work on operations,
  money that is neither lost nor spent twice, limits that hold under concurrency, and scaling
  decisions that respect their policy.

  \<^bold>\<open>How the code is modelled.\<close> A struct is a record whose fields carry a short prefix and the name of
  the source, an enum is a datatype, an error is a value (\<open>store_error\<close>, a string, or an option). A
  table is a list of rows in insertion order, a transaction is a function from the tables to a
  result and new tables which \<open>commit_tx\<close> discards on error; unique indexes and \<open>CHECK\<close> constraints of
  the migrations are written out in the statements that meet them. Go's \<open>int64\<close> and \<open>int\<close> are
  integers with \<open>i64\<close> where an expression can wrap, \<open>float64\<close> is the theory \<open>Float64\<close> (round to nearest
  even over the rationals with infinities and NaN), \<open>time.Time\<close> and \<open>time.Duration\<close> are nanoseconds,
  a mutex protected section is one step, and operations that wait or run concurrently are split into
  their critical sections and interleaved by an inductive step relation. Clocks, random numbers,
  hash functions, JSON and URL codecs and the databases' \<open>jsonb\<close> equality are parameters.

  \<^bold>\<open>Theories.\<close>
  \<^item> \<open>Prelude\<close>, \<open>Sql_Table\<close>, \<open>Go_Strings\<close>, \<open>Float64\<close>: wrap-around and Go division, time, tables and
    transactions, \<open>strings\<close> functions on UTF-8 bytes, binary64. They hold the collections and the
    generic lemmas of the other theories.
  \<^item> \<open>Managed_Billing\<close> (\<open>internal/managedbilling\<close>): prices and quotes. Token and duration costs are the
    exact rounded-up amounts or an overflow error, the minimum retail price is the least one with the
    margin, a quote and a sandbox reservation cover what they promise.
  \<^item> \<open>Operation_Queue\<close> (\<open>internal/store/operation_queue.go\<close>, \<open>lifecycle.go\<close>): enqueue, claim, start,
    heartbeat, checkpoint, complete, fail, cancel. Claims are exclusive, a write of an overtaken lease
    generation has no effect, rows only evolve, enqueueing is idempotent; an operation whose last
    attempt loses its lease is never claimed again.
  \<^item> \<open>Operation_Worker\<close> (\<open>internal/operations\<close>): one pass of a worker over any repository that meets
    the queue's contract, and the queue as such a repository; a pass that reports success has settled
    its claim; retry delays stay within their bounds.
  \<^item> \<open>Wallet\<close>, \<open>Payments\<close> (\<open>internal/store/managed_billing.go\<close>, \<open>funding_intents.go\<close>,
    \<open>internal/external/binding.go\<close>): wallets, usage reservations, settlement, payment events, credits,
    refunds and funding intents. Every wallet stays consistent with its ledger and its reservations,
    a session is credited once, by the amount and to the tenant of its intent, refunds are bounded.
  \<^item> \<open>Reconciliation\<close> (\<open>internal/modelapireconciliation\<close>): exact supplier cost and margin.
  \<^item> \<open>Request_Quota\<close> (\<open>internal/requestquota\<close>, \<open>internal/store/quota.go\<close>): gateways that lease request
    tokens from a durable window. Locale \<open>quota_source\<close> is the allocator's contract, interpreted on
    the store; over all interleavings a window never serves more than the tenant's limit.
  \<^item> \<open>Admission\<close> (\<open>internal/admission\<close>): endpoint states in a heap, \<open>Acquire\<close> in its critical sections.
    Counters are exact and within the policy, no release is slept through.
  \<^item> \<open>Autoscale\<close>, \<open>Autoscale_Store\<close>, \<open>Capacity\<close> (\<open>internal/autoscale\<close>, \<open>internal/store/autoscaling.go\<close>):
    evaluators, controllers, and the autoscaling controller on its store, where every call may fail.
    Locale \<open>bounded_evaluator\<close> turns what one decision promises into bounds on whole histories and is
    interpreted on both evaluators; the operations the controller queues are bounded, and a cooldown
    apart once the decision is saved; capacity decisions respect supply, cost and margin.
  \<^item> \<open>Model_Api_Routing\<close>, \<open>Supplier_Contract\<close>, \<open>Sse_Stream\<close>, \<open>Model_Api_Runtime\<close>
    (\<open>internal/modelapirouting\<close>, \<open>internal/supplieradapter/contracts.go\<close>, \<open>registry.go\<close>): the hosted
    Model API's data plane: generations and leases, weighted selection, circuit breaker, the rewriting of
    supplier streams, and the request handler as the list of its effects. Selection shares are exact
    while the supporting candidates carry the whole weight of their generation,
    the circuit and the stream scanner agree with reference definitions, and every path of the handler
    follows the billing protocol.
  \<^item> \<open>Hosted_Usage\<close>, \<open>Hosted_Accounts\<close> (\<open>internal/store/model_api_routes.go\<close>): reservations of hosted
    requests against the same wallets. Money is conserved over all interleavings of both stores and a
    reservation once marked as transmitted stays so; locale \<open>transmission_fence\<close> states what the
    handler needs of the store and is interpreted on it.
  \<^item> \<open>Usage_Reconciler\<close> (\<open>internal/reconcile/model_api_usage.go\<close>): the pass that closes reservations
    whose outcome is unknown, on the store of \<open>Hosted_Usage\<close>. It closes one only on authoritative
    evidence recorded for it, and exactly as the evidence says.
  \<^item> \<open>Overflow\<close> (\<open>internal/overflow\<close>, \<open>internal/burstguard\<close>): when traffic moves to external capacity and
    back. The counters of the engine agree with a reference over the observation history.
  \<^item> \<open>Route_Directory\<close> (\<open>internal/routes\<close>): published routes, generations in use and retired ones. The
    generations handed out for teardown are exactly those no request uses and nothing refers to;
    weighted selection is exact; the fence of a deletion holds.
  \<^item> \<open>External_Budget\<close> (\<open>internal/external\<close>, \<open>internal/store/external_policies.go\<close>,
    \<open>external_bindings.go\<close>): budget policies, leases, the in-memory pool and the coordinator. Locale
    \<open>budget_source\<close> is what the pool needs of the store, interpreted on it; over all interleavings the
    authorized requests stay within the limits.
  \<^item> \<open>Campaign\<close> (\<open>internal/optimizationcampaign\<close>, \<open>internal/store/optimization_campaigns.go\<close>): the state
    machine of optimization candidates, the fenced store, the coordinator, the ranking, and the handlers
    for execution, cleanup and activation. The life of a candidate ends, its state is backed by evidence,
    the coordinator never promotes, and promotion follows publication.
  \<^item> \<open>Release_Guard\<close> (\<open>internal/releaseguard\<close>): the decision on a candidate revision and the paired
    bootstrap. It rejects exactly on a measured violation, accepts exactly on complete evidence
    without one, and waits otherwise, where both are stated on the measurements and, for the bootstrap,
    on the number of resamples within the limit.
  \<^item> \<open>Revision_Spec\<close> (\<open>internal/runtimecontract\<close>, \<open>internal/servingcontract\<close>, \<open>internal/support\<close>, the
    validation in \<open>internal/store/revisions.go\<close>): workloads, serving topologies, the qualification
    matrix and the normal form of a revision spec, which every accepted spec has.
  \<^item> \<open>Rollout\<close>, \<open>Rollout_Safety\<close> (\<open>internal/store/revisions.go\<close>, \<open>release_guard.go\<close>,
    \<open>release_monitor.go\<close>, \<open>internal/workflows/rollout.go\<close>, \<open>release_guard.go\<close>): the first holds the
    tables, transactions and handlers, the second their properties. The store refines an abstract
    machine with one active revision and at most one candidate per deployment; a promotion replaces
    the revision the candidate was accepted against and routes only to healthy replicas of the
    candidate; a release monitor decides by its deadline.
  \<^item> \<open>Evolution\<close> (\<open>internal/optimizationcampaign/composite_driver.go\<close>): the guard boundary of a
    campaign on the rollout store.
  \<^item> \<open>Managed_Spend\<close>, \<open>Spend_Accounts\<close> (\<open>internal/store/native_sandboxes.go\<close>, \<open>sandbox_billing.go\<close>,
    \<open>managed_spend.go\<close>): the first holds sandboxes with their lifecycle clock and usage events and the
    wallet holds of sandboxes and managed deployments, the second their properties. With them every
    holder of wallet money is modelled and the books of all billing stores close; a settlement charges
    exactly the metered time, a sandbox is never metered for more time than has passed, and a
    reservation is final once closed.

  The root theory joins the hosted groups: a request is transmitted to a supplier only behind a
  durable fence.

  \<^bold>\<open>Loops and termination.\<close> Every loop of the source over a list or a counter is a structurally
  recursive function, so no definition needs fuel; loops that wait (the admission queue, the
  controllers' tickers) are steps of a relation. The boundary loops of a campaign keep the limits the
  source gives them (eight and three), and the limits are proved never to be what ends them.

  \<^bold>\<open>Not modelled.\<close> Connection failures of the database between statements of one transaction (a
  transaction is atomic), logging and metrics other than the counters named above, the HTTP handlers
  and the command line (\<open>internal/controlapi\<close>, \<open>cmd\<close>: decoding, authentication and rendering around
  the operations modelled here), the workflows that drive clouds and clusters
  (\<open>internal/workflows\<close>, \<open>internal/provision\<close>, \<open>internal/managedsandbox\<close>), the optimizer and laboratory packages, and the
  concrete supplier adapters, which are parameters with the adapter contract. One \<open>client.Do\<close> is one
  transmission: redirects the HTTP client would follow by itself are not modelled. Steps that the source
  runs as several statements without a transaction (the transition of a campaign, the reaping of a
  retired route) are one step here, and \<open>deployment_targets\<close> has no uniqueness check, so the number of
  targets a promotion counts is that of the listed identities.
\<close>


section \<open>The request path and the billing store\<close>

text \<open>C3.
  No request reaches a supplier without a durable fence behind it. Suppose the transmission mark a
  request of the hosted Model API issues is answered by the billing store. If the handler transmits
  at all, it has marked a reservation of the requesting tenant before, and from the moment of that
  mark on, along every interleaving of all operations of both billing stores, the reservation stays
  in the store as sent, and an attempt to release it as unsent changes nothing.
\<close>

theorem transmission_is_fenced:
  assumes transmits: "ServeHTTP env request = pre @ Transmit c up # post"
    and inv: "hosted_inv other drift st"
    and answers: "\<forall>i now. MarkTransmitted (px_TenantID request) i now \<in> set pre \<longrightarrow>
      re_mark_transmitted env i = (fst (MarkModelAPIUsageTransmitted st (px_TenantID request) i now) = Inr ())"
  shows "\<exists>i now. MarkTransmitted (px_TenantID request) i now \<in> set pre \<and>
    (\<forall>st' later reason. hosted_step\<^sup>*\<^sup>* (snd (MarkModelAPIUsageTransmitted st (px_TenantID request) i now)) st' \<longrightarrow>
      hosted_sent st' (px_TenantID request) i \<and>
      snd (ReleaseUnsentModelAPIUsage later st' (px_TenantID request) i reason) = st')"
proof -
  obtain i now where mark: "MarkTransmitted (px_TenantID request) i now \<in> set pre" "re_mark_transmitted env i"
    using transmit_after_fence [OF transmits] by blast
  then have "fst (MarkModelAPIUsageTransmitted st (px_TenantID request) i now) = Inr ()" using answers by blast
  from hosted_fence.fence_holds [OF inv this] mark(1) show ?thesis by blast
qed

theorem transmission_is_fenced_witness:
  "\<exists>i now. MarkTransmitted ''cust'' i now \<in> set (ServeHTTP serve_env serve_request) \<and>
     hosted_sent (snd (MarkModelAPIUsageTransmitted (snd example_reserved) ''cust'' i now)) ''cust'' i"
proof -
  obtain r up usage m where trace: "ServeHTTP serve_env serve_request =
      [Reserve r, MarkTransmitted ''cust'' ''r1'' 5] @
      Transmit ''stable'' up # [ObserveCandidate ''stable'' False, Settle ''cust'' ''r1'' usage, m]"
    using serve_trace by blast
  have tenant: "px_TenantID serve_request = ''cust''" by (simp add: serve_request_def)
  have answers: "\<forall>i now. MarkTransmitted (px_TenantID serve_request) i now \<in>
        set [Reserve r, MarkTransmitted ''cust'' ''r1'' 5] \<longrightarrow>
      re_mark_transmitted serve_env i =
        (fst (MarkModelAPIUsageTransmitted (snd example_reserved) (px_TenantID serve_request) i now) = Inr ())"
    using example_mark by (simp add: tenant serve_env_def)
  have inv: "hosted_inv (\<lambda>_. 0) (\<lambda>_. 0) (snd example_reserved)"
    by (rule hosted_steps_inv [OF example_hosted_run(1) empty_hosted_inv])
  obtain i now where "MarkTransmitted ''cust'' i now \<in> set [Reserve r, MarkTransmitted ''cust'' ''r1'' 5]"
    "hosted_sent (snd (MarkModelAPIUsageTransmitted (snd example_reserved) ''cust'' i now)) ''cust'' i"
    using transmission_is_fenced [OF trace inv answers] unfolding tenant by blast
  then show ?thesis unfolding trace by (metis Un_iff set_append)
qed

end
